(* ===== verification/Prelude.thy ===== *)
theory Prelude
  imports Main "HOL-Library.Word" "HOL-Library.Monad_Syntax"
begin

unbundle bit_operations_syntax

text \<open>
  Shared vocabulary of the development: the machine-integer types of the Rust sources
  (\<^verbatim>\<open>u8\<close>, \<^verbatim>\<open>u16\<close>, \<^verbatim>\<open>u32\<close>, \<^verbatim>\<open>u64\<close>), the checked arithmetic of the standard library,
  little-endian byte codecs (\<^verbatim>\<open>from_le_bytes\<close> / \<^verbatim>\<open>to_le_bytes\<close>), the search and removal
  operations of \<^verbatim>\<open>Vec\<close>, Unicode strings, and the lemma collections the component proofs
  draw on.

  Conventions. A Rust \<^verbatim>\<open>Result\<close> is a sum (\<open>Inl\<close> the error), a Rust \<^verbatim>\<open>Option\<close> is an
  option. Plain \<^verbatim>\<open>+\<close> and \<^verbatim>\<open>-\<close> on machine integers wrap, as they do in the release
  profile; where the sources rely on the absence of wrap-around a lemma states it, so that
  the debug profile (which panics on wrap-around) behaves identically. An operation that
  can panic returns an option whose \<open>None\<close> is the panic.
\<close>

section \<open>Machine integers\<close>

type_synonym u8 = "8 word"
type_synonym u16 = "16 word"
type_synonym u32 = "32 word"
type_synonym u64 = "64 word"

named_theorems word_nat "facts that move word arithmetic to natural numbers"
named_theorems inv_defs "definitions of the component invariants"

definition checked_add_u32 :: "u32 \<Rightarrow> u32 \<Rightarrow> u32 option" where
  "checked_add_u32 a b = (if unat a + unat b < 2 ^ 32 then Some (a + b) else None)"

lemma checked_add_u32_Some [word_nat]:
  "checked_add_u32 a b = Some c \<longleftrightarrow> unat a + unat b < 2 ^ 32 \<and> c = a + b"
  by (auto simp: checked_add_u32_def)

lemma checked_add_u32_None:
  "checked_add_u32 a b = None \<longleftrightarrow> 2 ^ 32 \<le> unat a + unat b"
  by (auto simp: checked_add_u32_def)

lemma unat_plus_u32 [word_nat]:
  fixes a b :: u32
  assumes "unat a + unat b < 2 ^ 32"
  shows "unat (a + b) = unat a + unat b"
  using assms by (simp add: unat_word_ariths)

lemma unat_minus_u32 [word_nat]:
  fixes a b :: u32
  assumes "b \<le> a"
  shows "unat (a - b) = unat a - unat b"
  using assms by (rule unat_sub)

lemma unat_of_nat_u32: "n < 2 ^ 32 \<Longrightarrow> unat (of_nat n :: u32) = n"
  by (simp add: unat_of_nat)

lemma unat_minus_1_u32: "0 < unat (x :: u32) \<Longrightarrow> unat (x - 1) = unat x - 1"
proof -
  assume "0 < unat x"
  then have "x \<noteq> 0" by auto
  then show ?thesis by (rule unat_minus_one)
qed

lemma word_gt_1: "x \<noteq> 0 \<Longrightarrow> x \<noteq> 1 \<Longrightarrow> 1 < (x :: u32)"
proof -
  assume "x \<noteq> 0" "x \<noteq> 1"
  then have "unat x \<noteq> 0" "unat x \<noteq> 1" by (simp_all add: word_unat_eq_iff)
  then show ?thesis by (simp add: word_less_nat_alt)
qed

lemma unat_u32_lt [simp]: "unat (a :: u32) < 4294967296"
  using unsigned_less [of a] by simp

lemma unat_u16_lt [simp]: "unat (a :: u16) < 65536"
  using unsigned_less [of a] by simp

lemma unat_u8_lt [simp]: "unat (a :: u8) < 256"
  using unsigned_less [of a] by simp

text \<open>The page mask \<^verbatim>\<open>x & !4095\<close> rounds down to a multiple of 4096.\<close>

lemma and_not_4095: "(x :: u32) AND NOT 4095 = push_bit 12 (drop_bit 12 x)"
proof -
  have m: "(4095 :: u32) = mask 12" by (simp add: mask_eq_exp_minus_1)
  show ?thesis unfolding m by (rule bit_word_eqI) (auto simp: bit_simps)
qed

lemma unat_and_not_4095: "unat ((x :: u32) AND NOT 4095) = unat x div 4096 * 4096"
proof -
  have "unat x div 4096 * 4096 \<le> unat x" by (rule div_times_less_eq_dividend)
  also have "\<dots> < 2 ^ 32" using unat_u32_lt [of x] by simp
  finally show ?thesis unfolding and_not_4095
    by (simp add: push_bit_eq_mult drop_bit_eq_div unat_word_ariths unat_div)
qed

lemma unat_and_m4096 [word_nat]: "unat ((x :: u32) AND - 4096) = unat x div 4096 * 4096"
proof -
  have "NOT (4095 :: u32) = - 4096" by simp
  then show ?thesis using unat_and_not_4095 [of x] by metis
qed

section \<open>Little-endian byte codecs\<close>

primrec le_word :: "u8 list \<Rightarrow> 'a::len word" where
  "le_word [] = 0"
| "le_word (b # bs) = ucast b OR push_bit 8 (le_word bs)"

primrec le_bytes :: "nat \<Rightarrow> 'a::len word \<Rightarrow> u8 list" where
  "le_bytes 0 w = []"
| "le_bytes (Suc n) w = ucast w # le_bytes n (drop_bit 8 w)"

lemma length_le_bytes [simp]: "length (le_bytes n w) = n"
  by (induction n arbitrary: w) auto

lemma le_word_le_bytes: "le_word (le_bytes n w) = take_bit (8 * n) (w :: 'a::len word)"
proof (induction n arbitrary: w)
  case (Suc n)
  show ?case by (rule bit_word_eqI) (auto simp: Suc bit_simps)
qed simp

lemma le_bytes_take_bit: "le_bytes n (take_bit (8 * n) w) = le_bytes n (w :: 'a::len word)"
proof (induction n arbitrary: w)
  case (Suc n)
  have 1: "ucast (take_bit (8 * Suc n) w) = (ucast w :: u8)"
    by (rule bit_word_eqI) (auto simp: bit_simps)
  have "le_bytes n (drop_bit 8 (take_bit (8 * Suc n) w)) =
      le_bytes n (take_bit (8 * n) (drop_bit 8 w))"
    by (simp add: drop_bit_take_bit)
  also have "\<dots> = le_bytes n (drop_bit 8 w)" by (rule Suc.IH)
  finally show ?case using 1 by simp
qed simp

lemma le_bytes_cong:
  "take_bit (8 * n) v = take_bit (8 * n) w \<Longrightarrow> le_bytes n v = le_bytes n (w :: 'a::len word)"
  by (metis le_bytes_take_bit)

lemma le_bytes_le_word:
  "8 * length bs \<le> LENGTH('a) \<Longrightarrow> le_bytes (length bs) (le_word bs :: 'a::len word) = bs"
proof (induction bs)
  case (Cons x xs)
  have 1: "ucast (le_word (x # xs) :: 'a word) = x"
    using Cons.prems by (intro bit_word_eqI) (auto simp: bit_simps)
  have 2: "le_bytes (length xs) (drop_bit 8 (le_word (x # xs) :: 'a word)) =
      le_bytes (length xs) (le_word xs :: 'a word)"
    using Cons.prems
    by (intro le_bytes_cong bit_word_eqI) (auto simp: bit_simps dest: bit_imp_le_length)
  show ?case using Cons 1 2 by simp
qed simp

lemma le_roundtrip [simp]:
  "le_word (le_bytes 1 (a :: u8)) = a"
  "le_word (le_bytes 2 (b :: u16)) = b"
  "le_word (le_bytes 4 (c :: u32)) = c"
  "le_word (le_bytes 8 (d :: u64)) = d"
  by (simp_all only: le_word_le_bytes) (simp_all add: take_bit_word_eq_self)

section \<open>Vectors: position, remove\<close>

fun vec_position :: "('a \<Rightarrow> bool) \<Rightarrow> 'a list \<Rightarrow> nat option" where
  "vec_position P [] = None"
| "vec_position P (x # xs) = (if P x then Some 0 else map_option Suc (vec_position P xs))"

definition vec_remove :: "nat \<Rightarrow> 'a list \<Rightarrow> 'a list" where
  "vec_remove i xs = take i xs @ drop (Suc i) xs"

lemma vec_position_SomeE:
  assumes "vec_position P xs = Some i"
  obtains ys x zs where "xs = ys @ x # zs" "P x" "\<forall>y\<in>set ys. \<not> P y" "i = length ys"
  using assms
proof (induction xs arbitrary: i thesis)
  case (Cons a xs)
  show ?case
  proof (cases "P a")
    case True
    with Cons.prems(2) show ?thesis by (intro Cons.prems(1) [of "[]" a xs]) auto
  next
    case False
    with Cons.prems(2) obtain j where j: "vec_position P xs = Some j" "i = Suc j" by auto
    obtain ys x zs where "xs = ys @ x # zs" "P x" "\<forall>y\<in>set ys. \<not> P y" "j = length ys"
      using Cons.IH [OF _ j(1)] by blast
    with False j(2) show ?thesis by (intro Cons.prems(1) [of "a # ys" x zs]) auto
  qed
qed simp

lemma vec_position_None: "vec_position P xs = None \<longleftrightarrow> (\<forall>x\<in>set xs. \<not> P x)"
  by (induction xs) auto

lemma vec_remove_append [simp]: "vec_remove (length ys) (ys @ x # zs) = ys @ zs"
  by (simp add: vec_remove_def)

section \<open>Loops that can stop\<close>

text \<open>A loop over a list whose body may panic (\<open>None\<close>).\<close>

fun ofold :: "('s \<Rightarrow> 'a \<Rightarrow> 's option) \<Rightarrow> 's \<Rightarrow> 'a list \<Rightarrow> 's option" where
  "ofold f s [] = Some s"
| "ofold f s (x # xs) = do { s' \<leftarrow> f s x; ofold f s' xs }"

lemma foldl_inv:
  assumes "\<And>s x. x \<in> set xs \<Longrightarrow> P s \<Longrightarrow> P (f s x)" and "P s"
  shows "P (foldl f s xs)"
  using assms by (induction xs arbitrary: s) auto

lemma ofold_append: "ofold f s (xs @ ys) = do { s' \<leftarrow> ofold f s xs; ofold f s' ys }"
proof (induction xs arbitrary: s)
  case (Cons x xs)
  then show ?case by (cases "f s x") auto
qed simp

lemma ofold_inv:
  assumes "\<And>s x s'. x \<in> set xs \<Longrightarrow> P s \<Longrightarrow> f s x = Some s' \<Longrightarrow> P s'" and "P s"
    and "ofold f s xs = Some s'"
  shows "P s'"
  using assms
proof (induction xs arbitrary: s)
  case (Cons x xs)
  then obtain s1 where "f s x = Some s1" "ofold f s1 xs = Some s'"
    by (auto simp: bind_eq_Some_conv)
  with Cons show ?case by (metis list.set_intros)
qed simp

lemma ofold_total:
  assumes "\<And>s x. x \<in> set xs \<Longrightarrow> P s \<Longrightarrow> \<exists>s'. f s x = Some s' \<and> P s'" and "P s"
  shows "\<exists>s'. ofold f s xs = Some s' \<and> P s'"
  using assms
proof (induction xs arbitrary: s)
  case (Cons x xs)
  then obtain s1 where "f s x = Some s1" "P s1" by (meson list.set_intros(1))
  with Cons show ?case by auto
qed simp

section \<open>Strings\<close>

text \<open>
  A Rust \<^verbatim>\<open>String\<close> is a sequence of Unicode scalar values; here a list of code points.
  \<open>ustr\<close> embeds the ASCII literals of the sources.
\<close>

type_synonym ustring = "nat list"

definition ustr :: "string \<Rightarrow> ustring" where
  "ustr s = map of_char s"

definition uc_upper :: "nat \<Rightarrow> nat" where
  "uc_upper c = (if 97 \<le> c \<and> c \<le> 122 then c - 32 else c)"

definition to_ascii_uppercase :: "ustring \<Rightarrow> ustring" where
  "to_ascii_uppercase s = map uc_upper s"

definition lc_lower :: "nat \<Rightarrow> nat" where
  "lc_lower c = (if 65 \<le> c \<and> c \<le> 90 then c + 32 else c)"

definition to_ascii_lowercase :: "ustring \<Rightarrow> ustring" where
  "to_ascii_lowercase s = map lc_lower s"

definition strip_suffix :: "ustring \<Rightarrow> ustring \<Rightarrow> ustring option" where
  "strip_suffix suf s =
    (if length suf \<le> length s \<and> drop (length s - length suf) s = suf
     then Some (take (length s - length suf) s) else None)"

definition eq_ignore_ascii_case :: "ustring \<Rightarrow> ustring \<Rightarrow> bool" where
  "eq_ignore_ascii_case a b \<longleftrightarrow> to_ascii_lowercase a = to_ascii_lowercase b"

lemma uc_upper_idem [simp]: "uc_upper (uc_upper c) = uc_upper c"
  by (auto simp: uc_upper_def)

lemma to_ascii_uppercase_idem [simp]:
  "to_ascii_uppercase (to_ascii_uppercase s) = to_ascii_uppercase s"
  by (simp add: to_ascii_uppercase_def)

end
