(* ===== verification/Memory_Manager.thy ===== *)
theory Memory_Manager
  imports Prelude "HOL-Library.Multiset"
begin

unbundle bit_operations_syntax

text \<open>
  \<^verbatim>\<open>MemoryManager\<close> of \<^verbatim>\<open>src/src/loader/managers.rs\<close>: the first-fit allocator with a
  bump pointer that serves \<^verbatim>\<open>DosAllocMem\<close>, the DLL loader and the exception records.
  The invariant says that the live and the free blocks tile the space below the bump
  pointer: they are pairwise disjoint, lie between the base and \<open>next_free\<close>, and their
  sizes add up to exactly \<open>next_free - base\<close>, so that no byte is lost or handed out twice.
\<close>

section \<open>State and operations\<close>

record alloc_block =
  ab_addr :: u32
  ab_size :: u32

record memory_manager =
  mm_allocated :: "alloc_block list"
  mm_free_list :: "alloc_block list"
  mm_next_free :: u32
  mm_limit :: u32

definition mm_new :: "u32 \<Rightarrow> u32 \<Rightarrow> memory_manager" where
  "mm_new base limit =
     \<lparr>mm_allocated = [], mm_free_list = [], mm_next_free = base, mm_limit = limit\<rparr>"

definition mm_round :: "u32 \<Rightarrow> u32 option" where
  "mm_round sz = map_option (\<lambda>s. s AND NOT 4095) (checked_add_u32 sz 4095)"

text \<open>The reuse branch of \<^verbatim>\<open>alloc\<close>: take block \<open>idx\<close> out of the free list and return the
  remainder to it.\<close>

definition mm_reuse :: "memory_manager \<Rightarrow> nat \<Rightarrow> u32 \<Rightarrow> u32 \<times> memory_manager" where
  "mm_reuse m idx sz =
     (let block = mm_free_list m ! idx;
          fl = vec_remove idx (mm_free_list m);
          addr = ab_addr block;
          fl' = (if ab_size block > sz
                 then fl @ [\<lparr>ab_addr = addr + sz, ab_size = ab_size block - sz\<rparr>]
                 else fl)
      in (addr, m\<lparr>mm_free_list := fl',
                  mm_allocated := mm_allocated m @ [\<lparr>ab_addr = addr, ab_size = sz\<rparr>]\<rparr>))"

definition mm_bump :: "memory_manager \<Rightarrow> u32 \<Rightarrow> u32 option \<times> memory_manager" where
  "mm_bump m sz =
     (case checked_add_u32 (mm_next_free m) sz of
        None \<Rightarrow> (None, m)
      | Some e \<Rightarrow>
          if e > mm_limit m then (None, m)
          else (Some (mm_next_free m),
                m\<lparr>mm_allocated := mm_allocated m @ [\<lparr>ab_addr = mm_next_free m, ab_size = sz\<rparr>],
                  mm_next_free := e\<rparr>))"

definition mm_alloc :: "memory_manager \<Rightarrow> u32 \<Rightarrow> u32 option \<times> memory_manager" where
  "mm_alloc m req =
     (case mm_round req of
        None \<Rightarrow> (None, m)
      | Some sz \<Rightarrow>
          (case vec_position (\<lambda>b. ab_size b \<ge> sz) (mm_free_list m) of
             Some idx \<Rightarrow> (case mm_reuse m idx sz of (addr, m') \<Rightarrow> (Some addr, m'))
           | None \<Rightarrow> mm_bump m sz))"

text \<open>The \<^verbatim>\<open>while let\<close> loop of \<^verbatim>\<open>free\<close>: reclaim free blocks that end at the bump pointer.\<close>

function mm_coalesce :: "alloc_block list \<Rightarrow> u32 \<Rightarrow> alloc_block list \<times> u32" where
  "mm_coalesce fl nf =
     (if fl = [] then (fl, nf)
      else if ab_addr (last fl) + ab_size (last fl) = nf
           then mm_coalesce (butlast fl) (ab_addr (last fl))
           else (fl, nf))"
  by pat_completeness auto
termination by (relation "measure (\<lambda>(fl, nf). length fl)") auto

declare mm_coalesce.simps [simp del]

definition mm_free :: "memory_manager \<Rightarrow> u32 \<Rightarrow> bool \<times> memory_manager" where
  "mm_free m addr =
     (case vec_position (\<lambda>b. ab_addr b = addr) (mm_allocated m) of
        None \<Rightarrow> (False, m)
      | Some idx \<Rightarrow>
          (let block = mm_allocated m ! idx;
               fl = sort_key ab_addr (mm_free_list m @ [block])
           in case mm_coalesce fl (mm_next_free m) of
                (fl', nf') \<Rightarrow>
                  (True, m\<lparr>mm_allocated := vec_remove idx (mm_allocated m),
                           mm_free_list := fl', mm_next_free := nf'\<rparr>)))"

datatype mm_op = MM_Alloc u32 | MM_Free u32

fun mm_step :: "memory_manager \<Rightarrow> mm_op \<Rightarrow> memory_manager" where
  "mm_step m (MM_Alloc n) = snd (mm_alloc m n)"
| "mm_step m (MM_Free a) = snd (mm_free m a)"

text \<open>The managers the loader can be in: \<^verbatim>\<open>new\<close> followed by any calls.\<close>

inductive mm_reachable :: "u32 \<Rightarrow> u32 \<Rightarrow> memory_manager \<Rightarrow> bool" for base limit where
  mm_init: "mm_reachable base limit (mm_new base limit)"
| mm_next: "mm_reachable base limit m \<Longrightarrow> mm_reachable base limit (mm_step m c)"

section \<open>Blocks as intervals of guest addresses\<close>

definition blk_lo :: "alloc_block \<Rightarrow> nat" where "blk_lo b = unat (ab_addr b)"
definition blk_hi :: "alloc_block \<Rightarrow> nat" where "blk_hi b = unat (ab_addr b) + unat (ab_size b)"
definition blk_bytes :: "alloc_block \<Rightarrow> nat set" where "blk_bytes b = {blk_lo b ..< blk_hi b}"

definition blk_disj :: "alloc_block \<Rightarrow> alloc_block \<Rightarrow> bool" where
  "blk_disj b c \<longleftrightarrow> ab_size b = 0 \<or> ab_size c = 0 \<or> blk_hi b \<le> blk_lo c \<or> blk_hi c \<le> blk_lo b"

definition mm_blocks :: "memory_manager \<Rightarrow> alloc_block list" where
  "mm_blocks m = mm_allocated m @ mm_free_list m"

definition blocks_ok :: "nat \<Rightarrow> nat \<Rightarrow> alloc_block list \<Rightarrow> bool" where
  "blocks_ok lo hi bs \<longleftrightarrow>
     sorted_wrt blk_disj bs \<and>
     (\<forall>b\<in>set bs. 4096 dvd unat (ab_size b) \<and> 4096 dvd unat (ab_addr b)) \<and>
     (\<forall>b\<in>set bs. ab_size b \<noteq> 0 \<longrightarrow> lo \<le> blk_lo b \<and> blk_hi b \<le> hi) \<and>
     sum_list (map (unat \<circ> ab_size) bs) = hi - lo"

definition mm_inv :: "u32 \<Rightarrow> u32 \<Rightarrow> memory_manager \<Rightarrow> bool" where
  "mm_inv base limit m \<longleftrightarrow>
     4096 dvd unat (mm_next_free m) \<and> mm_limit m = limit \<and>
     unat base \<le> unat (mm_next_free m) \<and> unat (mm_next_free m) \<le> unat limit \<and>
     blocks_ok (unat base) (unat (mm_next_free m)) (mm_blocks m)"

section \<open>The tiling invariant\<close>

lemma blk_disj_sym: "blk_disj b c \<Longrightarrow> blk_disj c b"
  by (auto simp: blk_disj_def)

lemma sorted_wrt_permute:
  assumes "\<And>x y. R x y \<Longrightarrow> R y x" and "mset xs = mset ys" and "sorted_wrt R xs"
  shows "sorted_wrt R ys"
  using assms(2,3)
proof (induction xs arbitrary: ys)
  case (Cons a xs)
  then obtain ys1 ys2 where ys: "ys = ys1 @ a # ys2"
    by (metis list.set_intros(1) mset_eq_setD split_list)
  with Cons.prems have "mset xs = mset (ys1 @ ys2)" by simp
  with Cons have "sorted_wrt R (ys1 @ ys2)" "\<forall>x\<in>set (ys1 @ ys2). R a x"
    using mset_eq_setD [OF \<open>mset xs = mset (ys1 @ ys2)\<close>] by auto
  with assms(1) show ?case by (auto simp: ys sorted_wrt_append)
qed simp

lemma blocks_ok_permute:
  assumes "blocks_ok lo hi bs" and "mset bs = mset cs"
  shows "blocks_ok lo hi cs"
proof -
  have "sum_list (map (unat \<circ> ab_size) bs) = sum_list (map (unat \<circ> ab_size) cs)"
    using assms(2) by (metis mset_map sum_mset_sum_list)
  with assms show ?thesis
    using sorted_wrt_permute [of blk_disj bs cs] mset_eq_setD [OF assms(2)]
    by (auto simp: blocks_ok_def dest: blk_disj_sym)
qed

lemma blocks_ok_extend:
  assumes ok: "blocks_ok lo hi bs" and a: "unat a = hi" and k: "4096 dvd unat k"
    and al: "4096 dvd hi" and le: "lo \<le> hi"
  shows "blocks_ok lo (hi + unat k) (\<lparr>ab_addr = a, ab_size = k\<rparr> # bs)"
  using assms unfolding blocks_ok_def
  by (fastforce simp: blk_disj_def blk_lo_def blk_hi_def)

lemma blocks_ok_split:
  assumes ok: "blocks_ok lo hi (b # bs)" and k: "k \<le> ab_size b" "4096 dvd unat k"
    and hi: "hi < 2 ^ 32"
  shows "blocks_ok lo hi (\<lparr>ab_addr = ab_addr b, ab_size = k\<rparr> #
           \<lparr>ab_addr = ab_addr b + k, ab_size = ab_size b - k\<rparr> # bs)"
proof -
  have kn: "unat k \<le> unat (ab_size b)" using k by (simp add: word_le_nat_alt)
  have sz: "unat (ab_size b - k) = unat (ab_size b) - unat k"
    using k by (simp add: unat_minus_u32)
  have ad: "unat (ab_addr b + k) = unat (ab_addr b) + unat k"
  proof (cases "ab_size b = 0")
    case True
    with k show ?thesis by simp
  next
    case False
    with ok hi have "unat (ab_addr b) + unat (ab_size b) < 2 ^ 32"
      by (auto simp: blocks_ok_def blk_hi_def)
    with kn show ?thesis by (intro unat_plus_u32) simp
  qed
  have nz: "ab_size b \<noteq> 0" if "k \<noteq> 0 \<or> ab_size b - k \<noteq> 0"
    using that k by auto
  show ?thesis
    using ok k kn nz unfolding blocks_ok_def
    by (auto simp: blk_disj_def blk_lo_def blk_hi_def sz ad)
qed

lemma blocks_ok_reclaim:
  assumes ok: "blocks_ok lo (unat nf) (b # bs)" and e: "ab_addr b + ab_size b = nf"
    and le: "lo \<le> unat nf"
  shows "blocks_ok lo (blk_lo b) bs \<and> lo \<le> blk_lo b \<and> blk_lo b \<le> unat nf \<and> 4096 dvd blk_lo b"
proof -
  have hi: "blk_hi b = unat nf"
  proof (cases "ab_size b = 0")
    case True
    with e show ?thesis by (auto simp: blk_hi_def)
  next
    case False
    with ok have "unat (ab_addr b) + unat (ab_size b) \<le> unat nf"
      by (auto simp: blocks_ok_def blk_hi_def)
    also have "\<dots> < 2 ^ 32" by simp
    finally have "unat (ab_addr b) + unat (ab_size b) < 2 ^ 32" .
    with e show ?thesis by (auto simp: blk_hi_def unat_plus_u32 [symmetric])
  qed
  have lob: "lo \<le> blk_lo b"
    using ok le hi by (cases "ab_size b = 0") (auto simp: blocks_ok_def blk_hi_def blk_lo_def)
  moreover have "blocks_ok lo (blk_lo b) bs"
    unfolding blocks_ok_def
  proof (intro conjI ballI impI)
    fix c assume c: "c \<in> set bs" "ab_size c \<noteq> 0"
    have d: "blk_disj b c" and r: "blk_hi c \<le> unat nf"
      using ok c by (auto simp: blocks_ok_def)
    have "blk_lo c < blk_hi c" using c by (simp add: blk_lo_def blk_hi_def unat_gt_0)
    then show "blk_hi c \<le> blk_lo b"
      using d r c hi by (cases "ab_size b = 0") (auto simp: blk_disj_def blk_hi_def blk_lo_def)
  qed (use ok hi in \<open>auto simp: blocks_ok_def blk_hi_def blk_lo_def\<close>)
  ultimately show ?thesis
    using ok hi by (auto simp: blocks_ok_def blk_hi_def blk_lo_def)
qed

lemma blk_disj_bytes: "blk_disj b c \<Longrightarrow> blk_bytes b \<inter> blk_bytes c = {}"
  by (auto simp: blk_disj_def blk_bytes_def blk_hi_def blk_lo_def)

lemma card_blocks:
  "sorted_wrt blk_disj bs \<Longrightarrow> card (\<Union>b\<in>set bs. blk_bytes b) = sum_list (map (unat \<circ> ab_size) bs)"
proof (induction bs)
  case (Cons b bs)
  have "blk_bytes b \<inter> (\<Union>c\<in>set bs. blk_bytes c) = {}"
    using Cons.prems by (auto dest: blk_disj_bytes)
  moreover have "card (blk_bytes b) = unat (ab_size b)"
    by (simp add: blk_bytes_def blk_lo_def blk_hi_def)
  ultimately show ?case
    using Cons by (simp add: card_Un_disjoint blk_bytes_def)
qed simp

lemma blocks_cover:
  assumes "blocks_ok lo hi bs"
  shows "(\<Union>b\<in>set bs. blk_bytes b) = {lo..<hi}"
proof (rule card_subset_eq)
  have "blk_bytes b \<subseteq> {lo..<hi}" if "b \<in> set bs" for b
    using assms that
    by (cases "ab_size b = 0") (auto simp: blocks_ok_def blk_bytes_def blk_hi_def blk_lo_def)
  then show "(\<Union>b\<in>set bs. blk_bytes b) \<subseteq> {lo..<hi}" by auto
  show "card (\<Union>b\<in>set bs. blk_bytes b) = card {lo..<hi}"
    using assms by (simp add: card_blocks blocks_ok_def)
qed simp

lemma mm_coalesce_ok:
  assumes "blocks_ok lo (unat nf) (A @ fl)" "lo \<le> unat nf" "4096 dvd unat nf"
    and "mm_coalesce fl nf = (fl', nf')"
  shows "blocks_ok lo (unat nf') (A @ fl') \<and> lo \<le> unat nf' \<and> nf' \<le> nf \<and> 4096 dvd unat nf'"
  using assms
proof (induction fl nf rule: mm_coalesce.induct)
  case (1 fl nf)
  show ?case
  proof (cases "fl \<noteq> [] \<and> ab_addr (last fl) + ab_size (last fl) = nf")
    case True
    have "mset (A @ fl) = mset (last fl # A @ butlast fl)"
      using True by (metis append_assoc append_butlast_last_id append_Cons mset.simps(2) mset_append
        union_mset_add_mset_right append_Nil2 mset.simps(1))
    then have "blocks_ok lo (unat nf) (last fl # A @ butlast fl)"
      using "1.prems"(1) by (metis blocks_ok_permute)
    with True "1.prems"(2) have r: "blocks_ok lo (blk_lo (last fl)) (A @ butlast fl)"
      "lo \<le> blk_lo (last fl)" "blk_lo (last fl) \<le> unat nf" "4096 dvd blk_lo (last fl)"
      using blocks_ok_reclaim by blast+
    moreover have "mm_coalesce (butlast fl) (ab_addr (last fl)) = (fl', nf')"
      using True "1.prems"(4) by (simp add: mm_coalesce.simps [of fl])
    ultimately show ?thesis
      using "1.IH" True by (fastforce simp: blk_lo_def word_le_nat_alt)
  next
    case False
    with "1.prems" show ?thesis by (auto simp: mm_coalesce.simps [of fl] split: if_splits)
  qed
qed

lemma mm_round_dvd: "mm_round n = Some k \<Longrightarrow> 4096 dvd unat k"
  by (auto simp: mm_round_def word_nat)

lemma mm_round_ge: "mm_round n = Some k \<Longrightarrow> unat n \<le> unat k \<and> unat k < unat n + 4096"
proof -
  assume "mm_round n = Some k"
  then have "unat k = (unat n + 4095) div 4096 * 4096"
    by (auto simp: mm_round_def word_nat)
  then show ?thesis by linarith
qed

section \<open>Every operation keeps the invariant\<close>

lemma mm_new_inv:
  "4096 dvd unat base \<Longrightarrow> base \<le> limit \<Longrightarrow> mm_inv base limit (mm_new base limit)"
  by (simp add: mm_inv_def mm_new_def mm_blocks_def blocks_ok_def word_le_nat_alt)

lemma mm_reuse_inv:
  assumes inv: "mm_inv base limit m" and k: "4096 dvd unat k"
    and pos: "vec_position (\<lambda>b. ab_size b \<ge> k) (mm_free_list m) = Some idx"
    and r: "mm_reuse m idx k = (a, m')"
  shows "mm_inv base limit m'"
proof -
  obtain ys b zs where fl: "mm_free_list m = ys @ b # zs" and kb: "k \<le> ab_size b"
    and idx: "idx = length ys"
    using pos by (auto elim!: vec_position_SomeE)
  let ?A = "mm_allocated m"
  let ?new = "\<lparr>ab_addr = ab_addr b, ab_size = k\<rparr>"
  let ?rem = "\<lparr>ab_addr = ab_addr b + k, ab_size = ab_size b - k\<rparr>"
  have "blocks_ok (unat base) (unat (mm_next_free m)) (b # ?A @ ys @ zs)"
    using inv unfolding mm_inv_def by (elim conjE blocks_ok_permute) (simp add: mm_blocks_def fl)
  then have sp: "blocks_ok (unat base) (unat (mm_next_free m)) (?new # ?rem # ?A @ ys @ zs)"
    using kb k by (rule blocks_ok_split) simp
  have m': "m' = m\<lparr>mm_free_list := ys @ zs @ (if k < ab_size b then [?rem] else []),
      mm_allocated := ?A @ [?new]\<rparr>"
    using r by (auto simp: mm_reuse_def fl idx Let_def nth_append)
  have "blocks_ok (unat base) (unat (mm_next_free m)) (mm_blocks m')"
  proof (cases "k < ab_size b")
    case True
    from sp show ?thesis
      by (rule blocks_ok_permute) (simp add: mm_blocks_def m' True)
  next
    case False
    with kb have "?rem = \<lparr>ab_addr = ab_addr b + k, ab_size = 0\<rparr>" by simp
    with sp have "blocks_ok (unat base) (unat (mm_next_free m)) (?new # ?A @ ys @ zs)"
      by (auto simp: blocks_ok_def)
    then show ?thesis
      by (rule blocks_ok_permute) (simp add: mm_blocks_def m' False)
  qed
  with inv show ?thesis by (simp add: mm_inv_def m')
qed

lemma mm_bump_inv:
  assumes inv: "mm_inv base limit m" and k: "4096 dvd unat k" and r: "mm_bump m k = (x, m')"
  shows "mm_inv base limit m'"
proof (cases "m' = m")
  case False
  then have c: "unat (mm_next_free m) + unat k < 2 ^ 32" "mm_next_free m + k \<le> mm_limit m"
    and m': "m' = m\<lparr>mm_allocated := mm_allocated m @ [\<lparr>ab_addr = mm_next_free m, ab_size = k\<rparr>],
        mm_next_free := mm_next_free m + k\<rparr>"
    using r by (auto simp: mm_bump_def checked_add_u32_def split: if_splits)
  have u: "unat (mm_next_free m + k) = unat (mm_next_free m) + unat k"
    using c(1) by (rule unat_plus_u32)
  have "blocks_ok (unat base) (unat (mm_next_free m) + unat k)
      (\<lparr>ab_addr = mm_next_free m, ab_size = k\<rparr> # mm_blocks m)"
    using inv k by (intro blocks_ok_extend) (auto simp: mm_inv_def)
  then have "blocks_ok (unat base) (unat (mm_next_free m) + unat k) (mm_blocks m')"
    by (rule blocks_ok_permute) (simp add: m' mm_blocks_def)
  then show ?thesis
    using inv k c(2) by (simp add: mm_inv_def m' u word_le_nat_alt)
qed (use inv in simp)

lemma mm_alloc_inv:
  assumes inv: "mm_inv base limit m" and r: "mm_alloc m n = (x, m')"
  shows "mm_inv base limit m'"
  using r inv
  by (auto simp: mm_alloc_def split: option.splits prod.splits
    dest: mm_round_dvd intro: mm_reuse_inv mm_bump_inv)

lemma mm_free_inv:
  assumes inv: "mm_inv base limit m" and r: "mm_free m a = (x, m')"
  shows "mm_inv base limit m'"
proof (cases "vec_position (\<lambda>b. ab_addr b = a) (mm_allocated m)")
  case None
  with r inv show ?thesis by (simp add: mm_free_def)
next
  case (Some idx)
  then obtain ys b zs where al: "mm_allocated m = ys @ b # zs" and idx: "idx = length ys"
    by (auto elim!: vec_position_SomeE)
  obtain fl' nf' where co: "mm_coalesce (sort_key ab_addr (mm_free_list m @ [b])) (mm_next_free m)
      = (fl', nf')" by fastforce
  have "blocks_ok (unat base) (unat (mm_next_free m))
      ((ys @ zs) @ sort_key ab_addr (mm_free_list m @ [b]))"
    using inv unfolding mm_inv_def
    by (elim conjE blocks_ok_permute) (simp add: mm_blocks_def al)
  from mm_coalesce_ok [OF this _ _ co] inv
  have "blocks_ok (unat base) (unat nf') ((ys @ zs) @ fl')" "unat base \<le> unat nf'"
    "unat nf' \<le> unat (mm_next_free m)" "4096 dvd unat nf'"
    by (auto simp: mm_inv_def word_le_nat_alt)
  moreover have "m' = m\<lparr>mm_allocated := ys @ zs, mm_free_list := fl', mm_next_free := nf'\<rparr>"
    using r Some co by (simp add: mm_free_def al idx Let_def nth_append)
  ultimately show ?thesis using inv by (auto simp: mm_inv_def mm_blocks_def)
qed

lemma mm_step_inv: "mm_inv base limit m \<Longrightarrow> mm_inv base limit (mm_step m c)"
  by (cases c) (auto intro: mm_alloc_inv mm_free_inv prod.collapse [symmetric])

lemma mm_reachable_inv:
  assumes "mm_reachable base limit m" "4096 dvd unat base" "base \<le> limit"
  shows "mm_inv base limit m"
  using assms by (induction rule: mm_reachable.induct) (auto intro: mm_new_inv mm_step_inv)

lemma mm_allocE:
  assumes "mm_alloc m n = (Some a, m')"
  obtains k where "mm_round n = Some k" "mm_allocated m' = mm_allocated m @ [\<lparr>ab_addr = a, ab_size = k\<rparr>]"
    "mm_limit m' = mm_limit m"
  using assms
  by (auto simp: mm_alloc_def mm_bump_def mm_reuse_def Let_def split: option.splits if_splits)

lemmas mm_eval = mm_new_def mm_alloc_def mm_round_def mm_bump_def mm_reuse_def mm_free_def
  checked_add_u32_def mm_blocks_def Let_def vec_remove_def mm_coalesce.simps

section \<open>Properties\<close>

text \<open>
  C1. Whatever sequence of allocations and frees has run, the live blocks are pairwise
  disjoint byte ranges inside the managed region, and live and free blocks together cover
  every byte between the base and the bump pointer: nothing overlaps and nothing leaks.
\<close>

theorem mm_tiling:
  assumes "mm_reachable base limit m" "4096 dvd unat base" "base \<le> limit"
  shows "(\<forall>i j. i < j \<longrightarrow> j < length (mm_blocks m) \<longrightarrow>
            blk_bytes (mm_blocks m ! i) \<inter> blk_bytes (mm_blocks m ! j) = {})
       \<and> (\<Union>b\<in>set (mm_blocks m). blk_bytes b) = {unat base ..< unat (mm_next_free m)}
       \<and> unat (mm_next_free m) \<le> unat limit"
proof -
  have inv: "mm_inv base limit m" using assms by (rule mm_reachable_inv)
  then have ok: "blocks_ok (unat base) (unat (mm_next_free m)) (mm_blocks m)"
    by (simp add: mm_inv_def)
  then have "sorted_wrt blk_disj (mm_blocks m)" by (simp add: blocks_ok_def)
  then show ?thesis
    using blocks_cover [OF ok] inv
    by (auto simp: mm_inv_def dest: blk_disj_bytes sorted_wrt_nth_less)
qed

theorem mm_tiling_witness:
  "\<exists>m. mm_reachable 0x2000000 0x10000000 m \<and> length (mm_blocks m) = 2 \<and>
     (\<Union>b\<in>set (mm_blocks m). blk_bytes b) = {0x2000000 ..< 0x2003000}"
proof -
  let ?m = "mm_step (mm_step (mm_new 0x2000000 0x10000000) (MM_Alloc 100)) (MM_Alloc 8000)"
  have r: "mm_reachable 0x2000000 0x10000000 ?m"
    by (intro mm_reachable.intros)
  have l: "length (mm_blocks ?m) = 2" and nf: "mm_next_free ?m = 0x2003000"
    by (simp_all add: mm_eval)
  have "(\<Union>b\<in>set (mm_blocks ?m). blk_bytes b) = {0x2000000 ..< 0x2003000}"
    using mm_tiling [OF r] unfolding nf by simp
  with r l show ?thesis by blast
qed

lemma mm_alloc_block:
  assumes "mm_reachable base limit m" "4096 dvd unat base" "base \<le> limit"
    and "mm_alloc m n = (Some a, m')"
  shows "\<exists>k. unat n \<le> unat k \<and> unat k < unat n + 4096 \<and> 4096 dvd unat k \<and> 4096 dvd unat a
    \<and> mm_allocated m' = mm_allocated m @ [\<lparr>ab_addr = a, ab_size = k\<rparr>]
    \<and> (\<forall>b\<in>set (mm_allocated m). blk_bytes b \<inter> {unat a ..< unat a + unat k} = {})
    \<and> {unat a ..< unat a + unat k} \<subseteq> {unat base ..< unat limit}"
proof -
  obtain k where k: "mm_round n = Some k"
    and al: "mm_allocated m' = mm_allocated m @ [\<lparr>ab_addr = a, ab_size = k\<rparr>]"
    using assms(4) by (rule mm_allocE)
  let ?b = "\<lparr>ab_addr = a, ab_size = k\<rparr>"
  have inv: "mm_inv base limit m'"
    using mm_reachable_inv [OF assms(1-3)] assms(4) by (rule mm_alloc_inv)
  then have ok: "blocks_ok (unat base) (unat (mm_next_free m')) (mm_blocks m')"
    and nl: "unat (mm_next_free m') \<le> unat limit" by (auto simp: mm_inv_def)
  have bb: "blk_bytes ?b = {unat a ..< unat a + unat k}"
    by (simp add: blk_bytes_def blk_lo_def blk_hi_def)
  have "blk_bytes ?b \<subseteq> (\<Union>b\<in>set (mm_blocks m'). blk_bytes b)"
    by (auto simp: mm_blocks_def al)
  also have "\<dots> \<subseteq> {unat base ..< unat limit}"
    using nl by (auto simp: blocks_cover [OF ok])
  finally have "blk_bytes ?b \<subseteq> {unat base ..< unat limit}" .
  moreover have "blk_bytes b \<inter> blk_bytes ?b = {}" if "b \<in> set (mm_allocated m)" for b
    using ok that
    by (intro blk_disj_bytes) (auto simp: blocks_ok_def mm_blocks_def al sorted_wrt_append)
  moreover have "4096 dvd unat k" "4096 dvd unat a"
    using ok by (auto simp: blocks_ok_def mm_blocks_def al)
  ultimately show ?thesis using mm_round_ge [OF k] al bb by auto
qed

text \<open>
  C2. A successful allocation returns a page-aligned block of the requested size rounded up
  to whole pages, inside the managed region, overlapping no block that was live before; the
  blocks that were live stay live and unchanged.
\<close>

theorem mm_alloc_sound:
  assumes "mm_reachable base limit m" "4096 dvd unat base" "base \<le> limit"
    and "mm_alloc m n = (Some a, m')"
  shows "\<exists>k. unat n \<le> unat k \<and> unat k < unat n + 4096 \<and> 4096 dvd unat k \<and> 4096 dvd unat a
    \<and> mm_allocated m' = mm_allocated m @ [\<lparr>ab_addr = a, ab_size = k\<rparr>]
    \<and> (\<forall>b\<in>set (mm_allocated m). blk_bytes b \<inter> {unat a ..< unat a + unat k} = {})
    \<and> {unat a ..< unat a + unat k} \<subseteq> {unat base ..< unat limit}"
  using assms by (rule mm_alloc_block)

theorem mm_alloc_sound_witness:
  "\<exists>m m'. mm_reachable 0x2000000 0x10000000 m \<and> mm_alloc m 8000 = (Some 0x2001000, m') \<and>
     (\<exists>k. (8000 :: nat) \<le> unat (k :: u32) \<and>
        mm_allocated m' = mm_allocated m @ [\<lparr>ab_addr = 0x2001000, ab_size = k\<rparr>])"
proof -
  let ?m = "mm_step (mm_new 0x2000000 0x10000000) (MM_Alloc 100)"
  have r: "mm_reachable 0x2000000 0x10000000 ?m" by (intro mm_reachable.intros)
  have a: "mm_alloc ?m 8000 = (Some 0x2001000, snd (mm_alloc ?m 8000))"
    by (simp add: mm_eval)
  have "\<exists>k. (8000 :: nat) \<le> unat (k :: u32) \<and>
      mm_allocated (snd (mm_alloc ?m 8000)) = mm_allocated ?m @ [\<lparr>ab_addr = 0x2001000, ab_size = k\<rparr>]"
    using mm_alloc_sound [OF r _ _ a] by auto
  with r a show ?thesis by blast
qed

text \<open>
  C19. An allocation fails exactly when the rounded size overflows 32 bits, or no free block
  is large enough and the bump pointer cannot advance within the limit; a failed
  allocation leaves the manager untouched.
\<close>

theorem mm_alloc_fails_iff:
  "(fst (mm_alloc m n) = None \<longleftrightarrow>
     unat n + 4095 \<ge> 2 ^ 32 \<or>
     (\<forall>b\<in>set (mm_free_list m). unat (ab_size b) < (unat n + 4095) div 4096 * 4096) \<and>
     (unat (mm_next_free m) + (unat n + 4095) div 4096 * 4096 \<ge> 2 ^ 32 \<or>
      unat (mm_next_free m) + (unat n + 4095) div 4096 * 4096 > unat (mm_limit m)))
   \<and> (fst (mm_alloc m n) = None \<longrightarrow> snd (mm_alloc m n) = m)"
proof (cases "mm_round n")
  case None
  then have "2 ^ 32 \<le> unat n + 4095"
    by (simp add: mm_round_def checked_add_u32_None)
  with None show ?thesis by (simp add: mm_alloc_def)
next
  case (Some k)
  then have lt: "unat n + 4095 < 2 ^ 32" and k: "unat k = (unat n + 4095) div 4096 * 4096"
    by (auto simp: mm_round_def word_nat)
  have fit: "(\<forall>b\<in>set (mm_free_list m). unat (ab_size b) < unat k) \<longleftrightarrow>
      vec_position (\<lambda>b. ab_size b \<ge> k) (mm_free_list m) = None"
    by (auto simp: vec_position_None word_le_nat_alt)
  have bump: "fst (mm_bump m k) = None \<longleftrightarrow>
      unat (mm_next_free m) + unat k \<ge> 2 ^ 32 \<or> unat (mm_next_free m) + unat k > unat (mm_limit m)"
    and same: "fst (mm_bump m k) = None \<Longrightarrow> snd (mm_bump m k) = m"
    by (auto simp: mm_bump_def checked_add_u32_def word_less_nat_alt unat_plus_u32)
  show ?thesis
    using lt fit bump same unfolding k [symmetric]
    by (cases "vec_position (\<lambda>b. ab_size b \<ge> k) (mm_free_list m)")
      (auto simp: mm_alloc_def Some split: prod.splits)
qed

theorem mm_alloc_fails_iff_witness:
  "mm_alloc (mm_new 0x1000 0x3000) 0x2001 = (None, mm_new 0x1000 0x3000)"
  using mm_alloc_fails_iff [of "mm_new 0x1000 0x3000" "0x2001"]
  by (cases "mm_alloc (mm_new 0x1000 0x3000) 0x2001") (simp add: mm_new_def)

text \<open>
  Freeing succeeds exactly for the start address of a live block. It then removes the
  first live block with that address and keeps every other live block in order; the freed
  bytes are no longer covered by a live block, and every byte that was free stays free or
  returns to the unallocated space above the bump pointer.
\<close>

theorem mm_free_sound:
  assumes "mm_reachable base limit m" "4096 dvd unat base" "base \<le> limit"
    and "mm_free m a = (ok, m')"
  shows "(ok \<longleftrightarrow> (\<exists>b\<in>set (mm_allocated m). ab_addr b = a))
    \<and> (\<not> ok \<longrightarrow> m' = m)
    \<and> (ok \<longrightarrow> (\<exists>ys b zs. mm_allocated m = ys @ b # zs \<and> ab_addr b = a
          \<and> (\<forall>y\<in>set ys. ab_addr y \<noteq> a) \<and> mm_allocated m' = ys @ zs
          \<and> (\<forall>c\<in>set (mm_allocated m'). blk_bytes c \<inter> blk_bytes b = {})
          \<and> mm_next_free m' \<le> mm_next_free m
          \<and> (\<Union>b\<in>set (mm_blocks m'). blk_bytes b) = {unat base ..< unat (mm_next_free m')}))"
proof (cases "vec_position (\<lambda>b. ab_addr b = a) (mm_allocated m)")
  case None
  with assms(4) show ?thesis by (auto simp: mm_free_def vec_position_None)
next
  case (Some idx)
  then obtain ys b zs where al: "mm_allocated m = ys @ b # zs" "ab_addr b = a"
    "\<forall>y\<in>set ys. ab_addr y \<noteq> a" and idx: "idx = length ys"
    by (auto elim!: vec_position_SomeE)
  obtain fl' nf' where co: "mm_coalesce (sort_key ab_addr (mm_free_list m @ [b])) (mm_next_free m)
      = (fl', nf')" by fastforce
  have inv: "mm_inv base limit m" using assms(1-3) by (rule mm_reachable_inv)
  then have inv': "mm_inv base limit m'" using assms(4) by (rule mm_free_inv)
  have m': "ok" "m' = m\<lparr>mm_allocated := ys @ zs, mm_free_list := fl', mm_next_free := nf'\<rparr>"
    using assms(4) Some co by (simp_all add: mm_free_def al idx Let_def nth_append)
  have "blocks_ok (unat base) (unat (mm_next_free m))
      ((ys @ zs) @ sort_key ab_addr (mm_free_list m @ [b]))"
    using inv unfolding mm_inv_def
    by (elim conjE blocks_ok_permute) (simp add: mm_blocks_def al)
  from mm_coalesce_ok [OF this _ _ co] inv have nf: "nf' \<le> mm_next_free m"
    by (auto simp: mm_inv_def)
  have "blk_bytes c \<inter> blk_bytes b = {}" if "c \<in> set (ys @ zs)" for c
    using inv that blk_disj_sym
    by (intro blk_disj_bytes)
      (auto simp: mm_inv_def blocks_ok_def mm_blocks_def al sorted_wrt_append)
  moreover have "(\<Union>b\<in>set (mm_blocks m'). blk_bytes b) = {unat base ..< unat (mm_next_free m')}"
    using inv' by (intro blocks_cover) (simp add: mm_inv_def)
  ultimately have "mm_allocated m = ys @ b # zs \<and> ab_addr b = a
      \<and> (\<forall>y\<in>set ys. ab_addr y \<noteq> a) \<and> mm_allocated m' = ys @ zs
      \<and> (\<forall>c\<in>set (mm_allocated m'). blk_bytes c \<inter> blk_bytes b = {})
      \<and> mm_next_free m' \<le> mm_next_free m
      \<and> (\<Union>b\<in>set (mm_blocks m'). blk_bytes b) = {unat base ..< unat (mm_next_free m')}"
    using al m' nf by simp
  then have ex: "\<exists>ys b zs. mm_allocated m = ys @ b # zs \<and> ab_addr b = a
      \<and> (\<forall>y\<in>set ys. ab_addr y \<noteq> a) \<and> mm_allocated m' = ys @ zs
      \<and> (\<forall>c\<in>set (mm_allocated m'). blk_bytes c \<inter> blk_bytes b = {})
      \<and> mm_next_free m' \<le> mm_next_free m
      \<and> (\<Union>b\<in>set (mm_blocks m'). blk_bytes b) = {unat base ..< unat (mm_next_free m')}"
    by (intro exI)
  moreover have "\<exists>b\<in>set (mm_allocated m). ab_addr b = a" using al by auto
  ultimately show ?thesis using m'(1) by simp
qed

theorem mm_free_sound_witness:
  "\<exists>m m'. mm_reachable 0x2000000 0x10000000 m \<and> mm_free m 0x2000000 = (True, m') \<and>
     (\<exists>ys b zs. mm_allocated m = ys @ b # zs \<and> ab_addr b = 0x2000000 \<and> mm_allocated m' = ys @ zs)"
proof -
  let ?m = "mm_step (mm_new 0x2000000 0x10000000) (MM_Alloc 100)"
  have r: "mm_reachable 0x2000000 0x10000000 ?m" by (intro mm_reachable.intros)
  have f: "mm_free ?m 0x2000000 = (True, snd (mm_free ?m 0x2000000))"
    by (simp add: mm_eval)
  have "\<exists>ys b zs. mm_allocated ?m = ys @ b # zs \<and> ab_addr b = 0x2000000 \<and>
      mm_allocated (snd (mm_free ?m 0x2000000)) = ys @ zs"
    using mm_free_sound [OF r _ _ f] by auto
  with r f show ?thesis by blast
qed

text \<open>
  A request for zero bytes succeeds without reserving anything: with an empty free list
  the address it returns is the one the next allocation returns as well, so two live
  entries share a start address (and a later free of that address removes the empty one).
\<close>

theorem mm_alloc_zero_aliases:
  assumes "mm_free_list m = []" "mm_next_free m \<le> mm_limit m"
    and "mm_alloc (snd (mm_alloc m 0)) n = (Some a, m')"
  shows "fst (mm_alloc m 0) = Some a"
  using assms
  by (auto simp: mm_alloc_def mm_round_def mm_bump_def checked_add_u32_def
    split: option.splits if_splits)

theorem mm_alloc_zero_aliases_witness:
  "fst (mm_alloc (mm_new 0x1000 0x10000) 0) = Some 0x1000"
proof -
  have "mm_alloc (snd (mm_alloc (mm_new 0x1000 0x10000) 0)) 0x1000 =
      (Some 0x1000, snd (mm_alloc (snd (mm_alloc (mm_new 0x1000 0x10000) 0)) 0x1000))"
    by (simp add: mm_eval)
  from mm_alloc_zero_aliases [OF _ _ this] show ?thesis by (simp add: mm_new_def)
qed

end
