(* ===== verification/Handle_Table.thy ===== *)
theory Handle_Table
  imports Prelude
begin

text \<open>
  The interface every handle-issuing manager of the loader implements: \<^verbatim>\<open>add\<close> stores a
  value under the next handle and advances the counter, \<^verbatim>\<open>get\<close> looks a handle up, \<^verbatim>\<open>close\<close>
  removes it and reports whether it was there. The laws are the locale's assumptions; the
  consequences a client relies on (a new handle is never one that is still open, a closed
  handle stays closed until it is issued again, issued handles are pairwise distinct) are
  proved once here and reach each manager through its interpretation.
\<close>

datatype 'v ht_op = HT_Add 'v | HT_Close u32

fun ht_adds :: "'v ht_op list \<Rightarrow> nat" where
  "ht_adds [] = 0"
| "ht_adds (HT_Add v # cs) = Suc (ht_adds cs)"
| "ht_adds (HT_Close h # cs) = ht_adds cs"

text \<open>Run a sequence of calls, collecting the handles issued.\<close>

fun ht_run :: "('s \<Rightarrow> 'v \<Rightarrow> u32 \<times> 's) \<Rightarrow> ('s \<Rightarrow> u32 \<Rightarrow> bool \<times> 's) \<Rightarrow> 's \<Rightarrow> 'v ht_op list \<Rightarrow> u32 list \<times> 's" where
  "ht_run add close s [] = ([], s)"
| "ht_run add close s (HT_Add v # cs) =
     (case add s v of (h, s') \<Rightarrow> case ht_run add close s' cs of (hs, s'') \<Rightarrow> (h # hs, s''))"
| "ht_run add close s (HT_Close h # cs) =
     (case close s h of (_, s') \<Rightarrow> ht_run add close s' cs)"

definition handles_below :: "nat \<Rightarrow> nat \<Rightarrow> (u32 \<Rightarrow> 'v option) \<Rightarrow> bool" where
  "handles_below lo hi t \<longleftrightarrow> (\<forall>h. t h \<noteq> None \<longrightarrow> lo \<le> unat h \<and> unat h < hi)"

lemma unat_Suc_u32: "unat (h :: u32) + n < 2 ^ 32 \<Longrightarrow> 0 < n \<Longrightarrow> unat (h + 1) = Suc (unat h)"
  using unat_plus_u32 [of h 1] by simp

locale handle_table =
  fixes add :: "'s \<Rightarrow> 'v \<Rightarrow> u32 \<times> 's"
    and get :: "'s \<Rightarrow> u32 \<Rightarrow> 'v option"
    and close :: "'s \<Rightarrow> u32 \<Rightarrow> bool \<times> 's"
    and nxt :: "'s \<Rightarrow> u32"
  assumes add_handle: "fst (add s v) = nxt s"
    and add_nxt: "nxt (snd (add s v)) = nxt s + 1"
    and add_get: "get (snd (add s v)) = (get s)(nxt s \<mapsto> v)"
    and close_ok: "fst (close s h) \<longleftrightarrow> get s h \<noteq> None"
    and close_get: "get (snd (close s h)) = (get s)(h := None)"
    and close_nxt: "nxt (snd (close s h)) = nxt s"
begin

lemma get_after_add: "add s v = (h, s') \<Longrightarrow> get s' h = Some v"
  using add_get [of s v] add_handle [of s v] by simp

lemma get_after_close: "close s h = (ok, s') \<Longrightarrow> get s' h = None"
  using close_get [of s h] by simp

lemma add_below:
  assumes "handles_below lo (unat (nxt s)) (get s)" "lo \<le> unat (nxt s)"
    and "unat (nxt s) + 1 < 2 ^ 32" and "add s v = (h, s')"
  shows "handles_below lo (unat (nxt s')) (get s') \<and> lo \<le> unat (nxt s')
    \<and> unat (nxt s') = Suc (unat (nxt s))"
proof -
  have "unat (nxt s') = Suc (unat (nxt s))"
    using add_nxt [of s v] assms(3,4) unat_Suc_u32 [of "nxt s" 1] by simp
  then show ?thesis
    using add_get [of s v] assms
    by (fastforce simp: handles_below_def split: if_splits)
qed

lemma add_fresh:
  assumes "handles_below lo (unat (nxt s)) (get s)" and "add s v = (h, s')"
  shows "get s h = None"
  using assms add_handle [of s v] by (fastforce simp: handles_below_def)

lemma close_below:
  assumes "handles_below lo (unat (nxt s)) (get s)" and "close s h = (ok, s')"
  shows "handles_below lo (unat (nxt s')) (get s') \<and> nxt s' = nxt s"
  using assms close_get [of s h] close_nxt [of s h]
  by (auto simp: handles_below_def split: if_splits)

lemma run_issued:
  assumes "handles_below lo (unat (nxt s)) (get s)" "lo \<le> unat (nxt s)"
    and "unat (nxt s) + ht_adds cs < 2 ^ 32"
    and "ht_run add close s cs = (hs, s')"
  shows "map unat hs = [unat (nxt s) ..< unat (nxt s) + ht_adds cs]
    \<and> handles_below lo (unat (nxt s')) (get s') \<and> lo \<le> unat (nxt s')
    \<and> unat (nxt s') = unat (nxt s) + ht_adds cs"
  using assms
proof (induction cs arbitrary: s hs)
  case Nil
  then show ?case by simp
next
  case (Cons c cs)
  show ?case
  proof (cases c)
    case (HT_Add v)
    obtain h s1 where a: "add s v = (h, s1)" by fastforce
    then have h: "h = nxt s" using add_handle [of s v] by simp
    obtain hs1 where hs1: "ht_run add close s1 cs = (hs1, s')" "hs = h # hs1"
      using Cons.prems(4) a HT_Add by (auto split: prod.splits)
    have 1: "handles_below lo (unat (nxt s1)) (get s1)" "lo \<le> unat (nxt s1)"
      "unat (nxt s1) = Suc (unat (nxt s))"
      using add_below [OF Cons.prems(1,2) _ a] Cons.prems(3) HT_Add by auto
    with Cons.IH [OF 1(1,2) _ hs1(1)] Cons.prems(3) h hs1(2) HT_Add show ?thesis
      by (auto simp: upt_conv_Cons)
  next
    case (HT_Close h)
    obtain ok s1 where cl: "close s h = (ok, s1)" by fastforce
    then have 1: "ht_run add close s1 cs = (hs, s')"
      using Cons.prems(4) HT_Close by simp
    have 2: "handles_below lo (unat (nxt s1)) (get s1)" "nxt s1 = nxt s"
      using close_below [OF Cons.prems(1) cl] by auto
    with Cons.IH [OF 2(1) _ _ 1] Cons.prems HT_Close show ?thesis by auto
  qed
qed

lemma run_distinct:
  assumes "handles_below lo (unat (nxt s)) (get s)" "lo \<le> unat (nxt s)"
    and "unat (nxt s) + ht_adds cs < 2 ^ 32"
    and "ht_run add close s cs = (hs, s')"
  shows "distinct hs \<and> (\<forall>h\<in>set hs. get s h = None)"
proof -
  have m: "map unat hs = [unat (nxt s) ..< unat (nxt s) + ht_adds cs]"
    using run_issued [OF assms] by blast
  then have "distinct (map unat hs)" by simp
  then have "distinct hs" by (simp add: distinct_map)
  moreover have "unat (nxt s) \<le> unat h" if "h \<in> set hs" for h
    using arg_cong [OF m, of set] that by force
  ultimately show ?thesis using assms(1) by (fastforce simp: handles_below_def)
qed

end

end
