(* ===== verification/Managers.thy ===== *)
theory Managers
  imports Handle_Table
begin

text \<open>
  The small managers of \<^verbatim>\<open>src/src/loader/managers.rs\<close>: open-file handles (\<^verbatim>\<open>HandleManager\<close>),
  directory searches (\<^verbatim>\<open>HDirManager\<close>), child processes (\<^verbatim>\<open>ProcessManager\<close>), named shared
  memory, resources, and loaded DLL modules with their reference counts (\<^verbatim>\<open>DllManager\<close>).
  A \<^verbatim>\<open>HashMap\<close> is a partial map; host objects (files, directory iterators, child processes,
  threads) are type parameters.
\<close>

section \<open>HandleManager\<close>

record 'f handle_manager =
  hm_handles :: "u32 \<rightharpoonup> 'f"
  hm_next_handle :: u32

definition PIPE_HANDLE_BASE :: u32 where "PIPE_HANDLE_BASE = 0x1000"

definition hm_new :: "'f handle_manager" where
  "hm_new = \<lparr>hm_handles = Map.empty, hm_next_handle = PIPE_HANDLE_BASE\<rparr>"

definition hm_add :: "'f handle_manager \<Rightarrow> 'f \<Rightarrow> u32 \<times> 'f handle_manager" where
  "hm_add m f =
     (let h = hm_next_handle m
      in (h, m\<lparr>hm_handles := (hm_handles m)(h \<mapsto> f), hm_next_handle := hm_next_handle m + 1\<rparr>))"

definition hm_get :: "'f handle_manager \<Rightarrow> u32 \<Rightarrow> 'f option" where
  "hm_get m h = hm_handles m h"

definition hm_insert :: "'f handle_manager \<Rightarrow> 'f \<Rightarrow> u32 \<times> 'f handle_manager" where
  "hm_insert m f = hm_add m f"

definition hm_replace :: "'f handle_manager \<Rightarrow> u32 \<Rightarrow> 'f \<Rightarrow> 'f handle_manager" where
  "hm_replace m h f = m\<lparr>hm_handles := (hm_handles m)(h \<mapsto> f)\<rparr>"

definition hm_close :: "'f handle_manager \<Rightarrow> u32 \<Rightarrow> bool \<times> 'f handle_manager" where
  "hm_close m h = (hm_handles m h \<noteq> None, m\<lparr>hm_handles := (hm_handles m)(h := None)\<rparr>)"

text \<open>\<^verbatim>\<open>flush_all\<close> runs the host file's flush on every open file; \<open>flush\<close> stands for it.\<close>

definition hm_flush_all :: "('f \<Rightarrow> 'f) \<Rightarrow> 'f handle_manager \<Rightarrow> 'f handle_manager" where
  "hm_flush_all flush m = m\<lparr>hm_handles := (\<lambda>h. map_option flush (hm_handles m h))\<rparr>"

section \<open>HDirManager\<close>

record 'it hdir_entry =
  hde_iterator :: 'it
  hde_pattern :: ustring

record 'it hdir_manager =
  hd_iterators :: "u32 \<rightharpoonup> 'it hdir_entry"
  hd_next_handle :: u32

definition hd_new :: "'it hdir_manager" where
  "hd_new = \<lparr>hd_iterators = Map.empty, hd_next_handle = 10\<rparr>"

definition hd_add :: "'it hdir_manager \<Rightarrow> 'it hdir_entry \<Rightarrow> u32 \<times> 'it hdir_manager" where
  "hd_add m e =
     (let h = hd_next_handle m
      in (h, m\<lparr>hd_iterators := (hd_iterators m)(h \<mapsto> e), hd_next_handle := hd_next_handle m + 1\<rparr>))"

definition hd_get :: "'it hdir_manager \<Rightarrow> u32 \<Rightarrow> 'it hdir_entry option" where
  "hd_get m h = hd_iterators m h"

definition hd_close :: "'it hdir_manager \<Rightarrow> u32 \<Rightarrow> bool \<times> 'it hdir_manager" where
  "hd_close m h = (hd_iterators m h \<noteq> None, m\<lparr>hd_iterators := (hd_iterators m)(h := None)\<rparr>)"

section \<open>ProcessManager\<close>

record ('c, 't) process_manager =
  pm_current_disk :: u8
  pm_current_dir :: ustring
  pm_children :: "u32 \<rightharpoonup> 'c"
  pm_relay_threads :: "u32 \<rightharpoonup> 't"
  pm_next_pid :: u32

definition pm_new :: "('c, 't) process_manager" where
  "pm_new = \<lparr>pm_current_disk = 3, pm_current_dir = [92], pm_children = Map.empty,
     pm_relay_threads = Map.empty, pm_next_pid = 100\<rparr>"

definition pm_current_dir_no_leading_slash :: "('c, 't) process_manager \<Rightarrow> ustring" where
  "pm_current_dir_no_leading_slash m = dropWhile (\<lambda>c. c = 92) (pm_current_dir m)"

definition pm_add_child :: "('c, 't) process_manager \<Rightarrow> 'c \<Rightarrow> u32 \<times> ('c, 't) process_manager" where
  "pm_add_child m c =
     (let pid = pm_next_pid m
      in (pid, m\<lparr>pm_children := (pm_children m)(pid \<mapsto> c), pm_next_pid := pm_next_pid m + 1\<rparr>))"

definition pm_take_child :: "('c, 't) process_manager \<Rightarrow> u32 \<Rightarrow> 'c option \<times> ('c, 't) process_manager" where
  "pm_take_child m pid = (pm_children m pid, m\<lparr>pm_children := (pm_children m)(pid := None)\<rparr>)"

definition pm_add_relay_thread :: "('c, 't) process_manager \<Rightarrow> u32 \<Rightarrow> 't \<Rightarrow> ('c, 't) process_manager" where
  "pm_add_relay_thread m pid t = m\<lparr>pm_relay_threads := (pm_relay_threads m)(pid \<mapsto> t)\<rparr>"

definition pm_take_relay_thread :: "('c, 't) process_manager \<Rightarrow> u32 \<Rightarrow> 't option \<times> ('c, 't) process_manager" where
  "pm_take_relay_thread m pid =
     (pm_relay_threads m pid, m\<lparr>pm_relay_threads := (pm_relay_threads m)(pid := None)\<rparr>)"

text \<open>
  \<^verbatim>\<open>wait_any\<close> walks the children in the map's iteration order, which is unspecified: the
  order is an argument, a list that enumerates the keys. \<open>try_wait\<close> stands for the host's
  \<^verbatim>\<open>Child::try_wait\<close>: \<open>Some code\<close> for a child that has exited (the exit code after the
  source's \<^verbatim>\<open>unwrap_or(1)\<close>).
\<close>

fun pm_find_finished :: "('c \<Rightarrow> u32 option) \<Rightarrow> (u32 \<rightharpoonup> 'c) \<Rightarrow> u32 list \<Rightarrow> (u32 \<times> u32) option" where
  "pm_find_finished try_wait ch [] = None"
| "pm_find_finished try_wait ch (pid # pids) =
     (case Option.bind (ch pid) try_wait of
        Some code \<Rightarrow> Some (pid, code)
      | None \<Rightarrow> pm_find_finished try_wait ch pids)"

definition pm_wait_any ::
  "('c \<Rightarrow> u32 option) \<Rightarrow> u32 list \<Rightarrow> ('c, 't) process_manager \<Rightarrow> (u32 \<times> u32) option \<times> ('c, 't) process_manager" where
  "pm_wait_any try_wait order m =
     (case pm_find_finished try_wait (pm_children m) order of
        Some (pid, code) \<Rightarrow>
          (Some (pid, code), m\<lparr>pm_children := (pm_children m)(pid := None)\<rparr>)
      | None \<Rightarrow> (None, m))"

section \<open>SharedMemManager and ResourceManager\<close>

record shared_mem_manager =
  sm_named_blocks :: "ustring \<rightharpoonup> u32"

definition sm_new :: shared_mem_manager where
  "sm_new = \<lparr>sm_named_blocks = Map.empty\<rparr>"

definition sm_register :: "shared_mem_manager \<Rightarrow> ustring \<Rightarrow> u32 \<Rightarrow> shared_mem_manager" where
  "sm_register m nm addr = m\<lparr>sm_named_blocks := (sm_named_blocks m)(nm \<mapsto> addr)\<rparr>"

definition sm_find_by_name :: "shared_mem_manager \<Rightarrow> ustring \<Rightarrow> u32 option" where
  "sm_find_by_name m nm = sm_named_blocks m nm"

record resource_manager =
  rm_resources :: "u16 \<times> u16 \<rightharpoonup> u32 \<times> u32"

definition rm_new :: resource_manager where
  "rm_new = \<lparr>rm_resources = Map.empty\<rparr>"

definition rm_add :: "resource_manager \<Rightarrow> u16 \<Rightarrow> u16 \<Rightarrow> u32 \<Rightarrow> u32 \<Rightarrow> resource_manager" where
  "rm_add m ty nm addr sz = m\<lparr>rm_resources := (rm_resources m)((ty, nm) \<mapsto> (addr, sz))\<rparr>"

definition rm_find :: "resource_manager \<Rightarrow> u16 \<Rightarrow> u16 \<Rightarrow> (u32 \<times> u32) option" where
  "rm_find m ty nm = rm_resources m (ty, nm)"

section \<open>DllManager\<close>

record loaded_dll =
  ld_name :: ustring
  ld_handle :: u32
  ld_object_bases :: "u32 list"
  ld_exports_by_ordinal :: "u32 \<rightharpoonup> u32"
  ld_exports_by_name :: "ustring \<rightharpoonup> u32"
  ld_ref_count :: u32
  ld_initterm_addr :: "u32 option"
  ld_is_builtin :: bool

record dll_manager =
  dm_dlls :: "loaded_dll list"
  dm_next_handle :: u32

definition dm_new :: dll_manager where
  "dm_new = \<lparr>dm_dlls = [], dm_next_handle = 0x1000\<rparr>"

definition dm_alloc_handle :: "dll_manager \<Rightarrow> u32 \<times> dll_manager" where
  "dm_alloc_handle m = (dm_next_handle m, m\<lparr>dm_next_handle := dm_next_handle m + 1\<rparr>)"

definition dm_register :: "dll_manager \<Rightarrow> loaded_dll \<Rightarrow> u32 \<times> dll_manager" where
  "dm_register m dll = (ld_handle dll, m\<lparr>dm_dlls := dm_dlls m @ [dll]\<rparr>)"

definition dm_find_by_name :: "dll_manager \<Rightarrow> ustring \<Rightarrow> loaded_dll option" where
  "dm_find_by_name m nm = (let upper = to_ascii_uppercase nm in find (\<lambda>d. ld_name d = upper) (dm_dlls m))"

definition dm_find_by_handle :: "dll_manager \<Rightarrow> u32 \<Rightarrow> loaded_dll option" where
  "dm_find_by_handle m h = find (\<lambda>d. ld_handle d = h) (dm_dlls m)"

definition dm_resolve_ordinal :: "dll_manager \<Rightarrow> ustring \<Rightarrow> u32 \<Rightarrow> u32 option" where
  "dm_resolve_ordinal m md ord =
     Option.bind (dm_find_by_name m md) (\<lambda>d. ld_exports_by_ordinal d ord)"

definition dm_resolve_name :: "dll_manager \<Rightarrow> ustring \<Rightarrow> ustring \<Rightarrow> u32 option" where
  "dm_resolve_name m md nm =
     Option.bind (dm_find_by_name m md) (\<lambda>d. ld_exports_by_name d (to_ascii_uppercase nm))"

definition dm_increment_refcount :: "dll_manager \<Rightarrow> u32 \<Rightarrow> bool \<times> dll_manager" where
  "dm_increment_refcount m h =
     (case vec_position (\<lambda>d. ld_handle d = h) (dm_dlls m) of
        Some idx \<Rightarrow>
          (let dll = dm_dlls m ! idx
           in (True, m\<lparr>dm_dlls := (dm_dlls m)[idx := dll\<lparr>ld_ref_count := ld_ref_count dll + 1\<rparr>]\<rparr>))
      | None \<Rightarrow> (False, m))"

definition dm_decrement_refcount ::
  "dll_manager \<Rightarrow> u32 \<Rightarrow> (u32 list \<times> u32 option) option \<times> dll_manager" where
  "dm_decrement_refcount m h =
     (case vec_position (\<lambda>d. ld_handle d = h) (dm_dlls m) of
        None \<Rightarrow> (None, m)
      | Some idx \<Rightarrow>
          (let dll = dm_dlls m ! idx;
               dll' = (if ld_ref_count dll > 0 then dll\<lparr>ld_ref_count := ld_ref_count dll - 1\<rparr> else dll)
           in if ld_ref_count dll' = 0
              then (Some (ld_object_bases dll', ld_initterm_addr dll'),
                    m\<lparr>dm_dlls := vec_remove idx (dm_dlls m)\<rparr>)
              else (None, m\<lparr>dm_dlls := (dm_dlls m)[idx := dll']\<rparr>)))"

section \<open>The managers as handle tables\<close>

interpretation hm: handle_table hm_add hm_get hm_close hm_next_handle
  by unfold_locales (auto simp: hm_add_def hm_get_def hm_close_def Let_def fun_eq_iff)

interpretation hd: handle_table hd_add hd_get hd_close hd_next_handle
  by unfold_locales (auto simp: hd_add_def hd_get_def hd_close_def Let_def fun_eq_iff)

interpretation pm: handle_table pm_add_child pm_children
  "\<lambda>m pid. apfst (\<lambda>x. x \<noteq> None) (pm_take_child m pid)" pm_next_pid
  by unfold_locales (auto simp: pm_add_child_def pm_take_child_def Let_def fun_eq_iff)

lemma pm_find_finished_Some:
  "pm_find_finished tw ch ps = Some (pid, code) \<Longrightarrow> pid \<in> set ps \<and> Option.bind (ch pid) tw = Some code"
  by (induction ps) (auto split: option.splits)

lemma pm_find_finished_None:
  "pm_find_finished tw ch ps = None \<Longrightarrow> p \<in> set ps \<Longrightarrow> Option.bind (ch p) tw = None"
  by (induction ps) (auto split: option.splits)

section \<open>Reference counts of loaded modules\<close>

definition dm_inv :: "dll_manager \<Rightarrow> bool" where
  "dm_inv m \<longleftrightarrow> distinct (map ld_handle (dm_dlls m)) \<and>
     (\<forall>d\<in>set (dm_dlls m). ld_ref_count d \<noteq> 0 \<and> unat (ld_handle d) < unat (dm_next_handle m))"

definition dm_refs :: "dll_manager \<Rightarrow> u32 \<Rightarrow> nat" where
  "dm_refs m h = (case dm_find_by_handle m h of None \<Rightarrow> 0 | Some d \<Rightarrow> unat (ld_ref_count d))"

lemma find_append:
  "find P (xs @ ys) = (case find P xs of None \<Rightarrow> find P ys | Some x \<Rightarrow> Some x)"
  by (induction xs) auto

lemma find_None_set: "(\<forall>x\<in>set xs. \<not> P x) \<Longrightarrow> find P xs = None"
  by (simp add: find_None_iff)

lemma dm_positionE:
  assumes "vec_position (\<lambda>d. ld_handle d = h) (dm_dlls m) = Some idx"
  obtains ys d zs where "dm_dlls m = ys @ d # zs" "ld_handle d = h" "idx = length ys"
    "dm_find_by_handle m h = Some d" "\<forall>y\<in>set ys. ld_handle y \<noteq> h"
proof -
  obtain ys d zs where "dm_dlls m = ys @ d # zs" "ld_handle d = h" "idx = length ys"
    "\<forall>y\<in>set ys. ld_handle y \<noteq> h"
    using assms by (auto elim!: vec_position_SomeE)
  moreover from this have "dm_find_by_handle m h = Some d"
    by (simp add: dm_find_by_handle_def find_append find_None_set)
  ultimately show thesis using that by blast
qed

lemma dm_find_None:
  "vec_position (\<lambda>d. ld_handle d = h) (dm_dlls m) = None \<longleftrightarrow> dm_find_by_handle m h = None"
  by (auto simp: vec_position_None dm_find_by_handle_def find_None_iff)

lemma dm_find_update:
  assumes "dm_dlls m = ys @ d # zs" "ld_handle d' = ld_handle d" "\<forall>y\<in>set ys. ld_handle y \<noteq> ld_handle d"
  shows "dm_find_by_handle (m\<lparr>dm_dlls := ys @ d' # zs\<rparr>) g =
    (if g = ld_handle d then Some d' else dm_find_by_handle m g)"
  using assms by (auto simp: dm_find_by_handle_def find_append find_None_set split: option.splits)

lemma dm_find_remove:
  assumes "dm_dlls m = ys @ d # zs" "distinct (map ld_handle (dm_dlls m))"
  shows "dm_find_by_handle (m\<lparr>dm_dlls := ys @ zs\<rparr>) g =
    (if g = ld_handle d then None else dm_find_by_handle m g)"
proof (cases "g = ld_handle d")
  case True
  with assms have "\<forall>x\<in>set (ys @ zs). ld_handle x \<noteq> g" by (force intro: rev_image_eqI)
  with True show ?thesis by (auto simp: dm_find_by_handle_def find_None_iff)
next
  case False
  then show ?thesis
    by (simp add: dm_find_by_handle_def assms(1) find_append split: option.splits)
qed

lemma dm_refs_found: "dm_find_by_handle m h = Some d \<Longrightarrow> dm_refs m h = unat (ld_ref_count d)"
  by (simp add: dm_refs_def)

lemma dm_increment_cases:
  assumes "dm_inv m"
  shows "(\<exists>d. dm_find_by_handle m h = Some d \<and> fst (dm_increment_refcount m h) \<and>
      (\<forall>g. dm_find_by_handle (snd (dm_increment_refcount m h)) g =
        (if g = h then Some (d\<lparr>ld_ref_count := ld_ref_count d + 1\<rparr>) else dm_find_by_handle m g)))
    \<or> dm_find_by_handle m h = None \<and> dm_increment_refcount m h = (False, m)"
proof (cases "vec_position (\<lambda>d. ld_handle d = h) (dm_dlls m)")
  case None
  then have "dm_find_by_handle m h = None" by (simp add: dm_find_None)
  moreover have "dm_increment_refcount m h = (False, m)"
    using None by (simp add: dm_increment_refcount_def)
  ultimately show ?thesis by blast
next
  case (Some idx)
  then obtain ys d zs where e: "dm_dlls m = ys @ d # zs" "ld_handle d = h" "idx = length ys"
    and f: "dm_find_by_handle m h = Some d" and n: "\<forall>y\<in>set ys. ld_handle y \<noteq> h"
    by (rule dm_positionE)
  have "dm_increment_refcount m h =
      (True, m\<lparr>dm_dlls := ys @ d\<lparr>ld_ref_count := ld_ref_count d + 1\<rparr> # zs\<rparr>)"
    using Some by (simp add: dm_increment_refcount_def e Let_def nth_append list_update_append)
  with f n show ?thesis
    using dm_find_update [OF e(1), of "d\<lparr>ld_ref_count := ld_ref_count d + 1\<rparr>"] e(2) by simp
qed

lemma dm_decrement_cases:
  assumes "dm_inv m"
  shows "dm_find_by_handle m h = None \<and> dm_decrement_refcount m h = (None, m) \<or>
    (\<exists>d. dm_find_by_handle m h = Some d \<and> ld_ref_count d = 1 \<and>
      fst (dm_decrement_refcount m h) = Some (ld_object_bases d, ld_initterm_addr d) \<and>
      (\<forall>g. dm_find_by_handle (snd (dm_decrement_refcount m h)) g =
        (if g = h then None else dm_find_by_handle m g))) \<or>
    (\<exists>d. dm_find_by_handle m h = Some d \<and> ld_ref_count d > 1 \<and>
      fst (dm_decrement_refcount m h) = None \<and>
      (\<forall>g. dm_find_by_handle (snd (dm_decrement_refcount m h)) g =
        (if g = h then Some (d\<lparr>ld_ref_count := ld_ref_count d - 1\<rparr>) else dm_find_by_handle m g)))"
proof (cases "vec_position (\<lambda>d. ld_handle d = h) (dm_dlls m)")
  case None
  then have "dm_find_by_handle m h = None" by (simp add: dm_find_None)
  moreover have "dm_decrement_refcount m h = (None, m)"
    using None by (simp add: dm_decrement_refcount_def)
  ultimately show ?thesis by blast
next
  case (Some idx)
  then obtain ys d zs where e: "dm_dlls m = ys @ d # zs" "ld_handle d = h" "idx = length ys"
    and f: "dm_find_by_handle m h = Some d" and n: "\<forall>y\<in>set ys. ld_handle y \<noteq> h"
    by (rule dm_positionE)
  have di: "distinct (map ld_handle (dm_dlls m))" and nz: "ld_ref_count d \<noteq> 0"
    using assms e(1) by (auto simp: dm_inv_def)
  show ?thesis
  proof (cases "ld_ref_count d = 1")
    case True
    then have "dm_decrement_refcount m h =
        (Some (ld_object_bases d, ld_initterm_addr d), m\<lparr>dm_dlls := ys @ zs\<rparr>)"
      using Some by (simp add: dm_decrement_refcount_def e Let_def nth_append)
    with f True show ?thesis using dm_find_remove [OF e(1) di] e(2) by simp
  next
    case False
    with nz have gt: "ld_ref_count d > 1" "ld_ref_count d > 0" "ld_ref_count d - 1 \<noteq> 0"
      using word_gt_1 [of "ld_ref_count d"] by (auto simp: word_gt_0)
    then have "dm_decrement_refcount m h =
        (None, m\<lparr>dm_dlls := ys @ d\<lparr>ld_ref_count := ld_ref_count d - 1\<rparr> # zs\<rparr>)"
      using Some by (simp add: dm_decrement_refcount_def e Let_def nth_append list_update_append)
    with f n gt(1) show ?thesis
      using dm_find_update [OF e(1), of "d\<lparr>ld_ref_count := ld_ref_count d - 1\<rparr>"] e(2) by simp
  qed
qed

lemma dm_increment_inv:
  assumes "dm_inv m" and "dm_refs m h < 2 ^ 32 - 1"
  shows "dm_inv (snd (dm_increment_refcount m h))"
proof (cases "vec_position (\<lambda>d. ld_handle d = h) (dm_dlls m)")
  case None
  with assms show ?thesis by (simp add: dm_increment_refcount_def)
next
  case (Some idx)
  then obtain ys d zs where e: "dm_dlls m = ys @ d # zs" "ld_handle d = h" "idx = length ys"
    and f: "dm_find_by_handle m h = Some d"
    by (rule dm_positionE)
  have "unat (ld_ref_count d) + 1 < 2 ^ 32"
    using assms(2) dm_refs_found [OF f] by simp
  then have "ld_ref_count d + 1 \<noteq> 0"
    using unat_plus_u32 [of "ld_ref_count d" 1] by (auto simp: word_unat_eq_iff)
  then show ?thesis
    using assms(1) Some
    by (simp add: dm_increment_refcount_def e Let_def nth_append list_update_append dm_inv_def)
qed

lemma dm_decrement_inv:
  assumes "dm_inv m"
  shows "dm_inv (snd (dm_decrement_refcount m h))"
proof (cases "vec_position (\<lambda>d. ld_handle d = h) (dm_dlls m)")
  case None
  with assms show ?thesis by (simp add: dm_decrement_refcount_def)
next
  case (Some idx)
  then obtain ys d zs where e: "dm_dlls m = ys @ d # zs" "ld_handle d = h" "idx = length ys"
    by (rule dm_positionE)
  show ?thesis
    using assms Some
    by (auto simp: dm_decrement_refcount_def e Let_def nth_append list_update_append dm_inv_def)
qed

lemma dm_load_inv:
  assumes "dm_inv m" and "unat (dm_next_handle m) + 1 < 2 ^ 32"
    and "ld_handle d = dm_next_handle m" and "ld_ref_count d \<noteq> 0"
  shows "dm_inv (snd (dm_register (snd (dm_alloc_handle m)) d))"
proof -
  have "unat (dm_next_handle m + 1) = Suc (unat (dm_next_handle m))"
    using assms(2) by (rule unat_Suc_u32) simp
  moreover have "dm_next_handle m \<notin> ld_handle ` set (dm_dlls m)"
    using assms(1) by (auto simp: dm_inv_def)
  ultimately show ?thesis
    using assms by (auto simp: dm_inv_def dm_register_def dm_alloc_handle_def less_Suc_eq)
qed

section \<open>Properties\<close>

text \<open>
  Pipe and duplicated-file handles: starting from a fresh manager, every sequence of at
  most 2^32 - 4097 insertions and any number of closes hands out pairwise distinct handles,
  all at or above \<^verbatim>\<open>PIPE_HANDLE_BASE\<close>, so they never collide with the VFS handles below it,
  and every handle still open at the end was issued by this manager.
\<close>

theorem hm_handles_fresh:
  assumes "ht_adds cs < 2 ^ 32 - 0x1000" and "ht_run hm_add hm_close hm_new cs = (hs, m)"
  shows "distinct hs \<and> (\<forall>h\<in>set hs. PIPE_HANDLE_BASE \<le> h)
    \<and> (\<forall>h. hm_get m h \<noteq> None \<longrightarrow> PIPE_HANDLE_BASE \<le> h \<and> h < hm_next_handle m)"
proof -
  let ?s = "hm_new :: 'a handle_manager"
  have 0: "handles_below 0x1000 (unat (hm_next_handle ?s)) (hm_get ?s)"
    "0x1000 \<le> unat (hm_next_handle ?s)"
    "unat (hm_next_handle ?s) + ht_adds cs < 2 ^ 32"
    using assms(1)
    by (simp_all add: hm_new_def hm_get_def handles_below_def PIPE_HANDLE_BASE_def)
  have r: "map unat hs = [unat (hm_next_handle ?s) ..< unat (hm_next_handle ?s) + ht_adds cs]"
    and b: "handles_below 0x1000 (unat (hm_next_handle m)) (hm_get m)"
    using hm.run_issued [OF 0 assms(2)] by blast+
  have "0x1000 \<le> unat h" if "h \<in> set hs" for h
    using arg_cong [OF r, of set] that by (force simp: hm_new_def PIPE_HANDLE_BASE_def)
  with hm.run_distinct [OF 0 assms(2)] b show ?thesis
    by (auto simp: word_le_nat_alt word_less_nat_alt PIPE_HANDLE_BASE_def handles_below_def)
qed

theorem hm_handles_fresh_witness:
  "distinct (fst (ht_run hm_add hm_close (hm_new :: nat handle_manager)
     [HT_Add 7, HT_Add 8, HT_Close 0x1000, HT_Add 9]))"
proof -
  let ?r = "ht_run hm_add hm_close (hm_new :: nat handle_manager)
     [HT_Add 7, HT_Add 8, HT_Close 0x1000, HT_Add 9]"
  have "distinct (fst ?r) \<and> (\<forall>h\<in>set (fst ?r). PIPE_HANDLE_BASE \<le> h)
    \<and> (\<forall>h. hm_get (snd ?r) h \<noteq> None \<longrightarrow> PIPE_HANDLE_BASE \<le> h \<and> h < hm_next_handle (snd ?r))"
    by (rule hm_handles_fresh [of "[HT_Add 7, HT_Add 8, HT_Close 0x1000, HT_Add 9]"]) simp_all
  then show ?thesis by blast
qed

text \<open>
  Duplicating onto an explicit handle number does not reserve that number: when the
  target of \<^verbatim>\<open>replace\<close> is the next number to be issued, the next \<^verbatim>\<open>add\<close> returns the very
  handle that is open and drops the duplicated file from the table.
\<close>

theorem hm_replace_not_reserved:
  assumes "hm_add (hm_replace m (hm_next_handle m) f) g = (h, m')"
  shows "hm_get (hm_replace m (hm_next_handle m) f) h = Some f \<and> hm_get m' h = Some g"
  using assms by (auto simp: hm_add_def hm_replace_def hm_get_def Let_def)

theorem hm_replace_not_reserved_witness:
  "\<exists>h m'. hm_add (hm_replace hm_new 0x1000 (7 :: nat)) 8 = (h, m') \<and> hm_get m' h = Some 8"
proof -
  have e: "hm_next_handle (hm_new :: nat handle_manager) = 0x1000"
    by (simp add: hm_new_def PIPE_HANDLE_BASE_def)
  obtain h m' where a: "hm_add (hm_replace hm_new 0x1000 (7 :: nat)) 8 = (h, m')" by fastforce
  with hm_replace_not_reserved [of hm_new 7 8 h m'] e show ?thesis by auto
qed

text \<open>
  Module reference counts: seen through the abstraction that maps a handle to its count
  (0 when the module is not loaded), \<^verbatim>\<open>increment_refcount\<close> adds one, \<^verbatim>\<open>decrement_refcount\<close>
  subtracts one, no other module changes, and the caller is told to unload exactly when the
  last reference goes away.
\<close>

theorem dm_refcount_refines:
  assumes "dm_inv m"
  shows "(0 < dm_refs m h \<and> dm_refs m h < 2 ^ 32 - 1 \<longrightarrow>
            dm_refs (snd (dm_increment_refcount m h)) = (dm_refs m)(h := dm_refs m h + 1)
            \<and> dm_inv (snd (dm_increment_refcount m h)))
    \<and> (fst (dm_increment_refcount m h) \<longleftrightarrow> 0 < dm_refs m h)
    \<and> dm_refs (snd (dm_decrement_refcount m h)) = (dm_refs m)(h := dm_refs m h - 1)
    \<and> (fst (dm_decrement_refcount m h) \<noteq> None \<longleftrightarrow> dm_refs m h = 1)
    \<and> dm_inv (snd (dm_decrement_refcount m h))"
proof -
  have pos: "0 < unat (ld_ref_count d)" if "dm_find_by_handle m g = Some d" for g d
    using assms that by (auto simp: dm_inv_def dm_find_by_handle_def find_Some_iff unat_gt_0)
  have "fst (dm_increment_refcount m h) \<longleftrightarrow> 0 < dm_refs m h"
    using dm_increment_cases [OF assms, of h] pos by (auto simp: dm_refs_def)
  moreover have "dm_refs (snd (dm_increment_refcount m h)) = (dm_refs m)(h := dm_refs m h + 1)"
    if "0 < dm_refs m h" "dm_refs m h < 2 ^ 32 - 1"
    using dm_increment_cases [OF assms, of h] that
    by (auto simp: dm_refs_def fun_eq_iff unat_plus_u32 split: option.splits)
  moreover have "dm_refs (snd (dm_decrement_refcount m h)) = (dm_refs m)(h := dm_refs m h - 1)"
    "fst (dm_decrement_refcount m h) \<noteq> None \<longleftrightarrow> dm_refs m h = 1"
    using dm_decrement_cases [OF assms, of h] pos
    by (auto simp: dm_refs_def fun_eq_iff unat_minus_1_u32 word_less_nat_alt split: option.splits)
  ultimately show ?thesis
    using dm_increment_inv [OF assms, of h] dm_decrement_inv [OF assms, of h] by blast
qed

theorem dm_refcount_refines_witness:
  "\<exists>m. dm_refs m 0x1000 = 2 \<and> dm_refs (snd (dm_decrement_refcount m 0x1000)) 0x1000 = 1"
proof -
  let ?d = "\<lparr>ld_name = [], ld_handle = 0x1000, ld_object_bases = [], ld_exports_by_ordinal = Map.empty,
    ld_exports_by_name = Map.empty, ld_ref_count = 2, ld_initterm_addr = None, ld_is_builtin = False\<rparr>"
  let ?m = "snd (dm_register (snd (dm_alloc_handle dm_new)) ?d)"
  have inv: "dm_inv ?m"
    by (rule dm_load_inv) (simp_all add: dm_inv_def dm_new_def)
  have r: "dm_refs ?m 0x1000 = 2"
    by (simp add: dm_refs_def dm_find_by_handle_def dm_register_def dm_alloc_handle_def dm_new_def)
  have "dm_refs (snd (dm_decrement_refcount ?m 0x1000)) 0x1000 = 1"
    using dm_refcount_refines [OF inv, of "0x1000"] r by simp
  with r show ?thesis by blast
qed

text \<open>
  \<^verbatim>\<open>wait_any\<close>: whatever order the children are visited in, it reaps one child that has
  exited, with that child's exit code, and removes exactly that child; it reports nothing
  only if no listed child has exited, and then changes nothing.
\<close>

theorem pm_wait_any_reaps:
  assumes "set order = dom (pm_children m)" and "pm_wait_any tw order m = (r, m')"
  shows "(r = None \<longleftrightarrow> (\<forall>c\<in>ran (pm_children m). tw c = None))
    \<and> (r = None \<longrightarrow> m' = m)
    \<and> (\<forall>pid code. r = Some (pid, code) \<longrightarrow>
         (\<exists>c. pm_children m pid = Some c \<and> tw c = Some code) \<and>
         pm_children m' = (pm_children m)(pid := None))"
proof (cases "pm_find_finished tw (pm_children m) order")
  case None
  have "tw c = None" if c: "c \<in> ran (pm_children m)" for c
  proof -
    obtain p where p: "pm_children m p = Some c" using c unfolding ran_def by blast
    then have "p \<in> set order" using assms(1) by auto
    with pm_find_finished_None [OF None] p show ?thesis by fastforce
  qed
  with None assms(2) show ?thesis by (auto simp: pm_wait_any_def)
next
  case (Some pc)
  obtain pid code where pc: "pc = (pid, code)" by fastforce
  then obtain c where c: "pm_children m pid = Some c" "tw c = Some code"
    using pm_find_finished_Some [of tw _ order] Some by (fastforce simp: bind_eq_Some_conv)
  then have "c \<in> ran (pm_children m)" by (auto simp: ran_def)
  with c Some pc assms(2) show ?thesis by (auto simp: pm_wait_any_def)
qed

theorem pm_wait_any_reaps_witness:
  "fst (pm_wait_any (\<lambda>c. if c = (5 :: nat) then Some (42 :: u32) else None) [100, 101]
     (snd (pm_add_child (snd (pm_add_child (pm_new :: (nat, unit) process_manager) 4)) 5))) \<noteq> None"
proof -
  let ?m = "snd (pm_add_child (snd (pm_add_child pm_new (4 :: nat))) 5) :: (nat, unit) process_manager"
  let ?tw = "\<lambda>c :: nat. if c = 5 then Some (42 :: u32) else None"
  have d: "set [100, 101] = dom (pm_children ?m)"
    by (auto simp: pm_add_child_def pm_new_def Let_def)
  have "5 \<in> ran (pm_children ?m)"
    by (rule ranI [of _ 101]) (simp add: pm_add_child_def pm_new_def Let_def)
  then have "\<not> (\<forall>c\<in>ran (pm_children ?m). ?tw c = None)" by (intro notI) (drule (1) bspec, simp)
  with pm_wait_any_reaps [OF d prod.collapse [symmetric], of ?tw] show ?thesis by blast
qed

end
