(* ===== verification/Codepage.thy ===== *)
theory Codepage
  imports Prelude
begin

text \<open>
  Codepage conversion at the guest string boundary (\<^verbatim>\<open>src/src/loader/codepage.rs\<close>). The DOS
  codepages 437, 850 and 852 are the embedded upper-half tables of the source; every other
  known codepage is delegated to the crate \<^verbatim>\<open>encoding_rs\<close>, which is a parameter here (a
  record of its three conversion functions). The Unicode full upper-case mapping
  \<^verbatim>\<open>char::to_uppercase\<close> is a parameter too: the lemmas that depend on it name what they use.
\<close>

section \<open>Upper-half tables\<close>

definition CP437_UPPER :: "nat list" where
  "CP437_UPPER = [
    0x00C7, 0x00FC, 0x00E9, 0x00E2, 0x00E4, 0x00E0, 0x00E5, 0x00E7,
    0x00EA, 0x00EB, 0x00E8, 0x00EF, 0x00EE, 0x00EC, 0x00C4, 0x00C5,
    0x00C9, 0x00E6, 0x00C6, 0x00F4, 0x00F6, 0x00F2, 0x00FB, 0x00F9,
    0x00FF, 0x00D6, 0x00DC, 0x00A2, 0x00A3, 0x00A5, 0x20A7, 0x0192,
    0x00E1, 0x00ED, 0x00F3, 0x00FA, 0x00F1, 0x00D1, 0x00AA, 0x00BA,
    0x00BF, 0x2310, 0x00AC, 0x00BD, 0x00BC, 0x00A1, 0x00AB, 0x00BB,
    0x2591, 0x2592, 0x2593, 0x2502, 0x2524, 0x2561, 0x2562, 0x2556,
    0x2555, 0x2563, 0x2551, 0x2557, 0x255D, 0x255C, 0x255B, 0x2510,
    0x2514, 0x2534, 0x252C, 0x251C, 0x2500, 0x253C, 0x255E, 0x255F,
    0x255A, 0x2554, 0x2569, 0x2566, 0x2560, 0x2550, 0x256C, 0x2567,
    0x2568, 0x2564, 0x2565, 0x2559, 0x2558, 0x2552, 0x2553, 0x256B,
    0x256A, 0x2518, 0x250C, 0x2588, 0x2584, 0x258C, 0x2590, 0x2580,
    0x03B1, 0x00DF, 0x0393, 0x03C0, 0x03A3, 0x03C3, 0x00B5, 0x03C4,
    0x03A6, 0x0398, 0x03A9, 0x03B4, 0x221E, 0x03C6, 0x03B5, 0x2229,
    0x2261, 0x00B1, 0x2265, 0x2264, 0x2320, 0x2321, 0x00F7, 0x2248,
    0x00B0, 0x2219, 0x00B7, 0x221A, 0x207F, 0x00B2, 0x25A0, 0x00A0]"

definition CP850_UPPER :: "nat list" where
  "CP850_UPPER = [
    0x00C7, 0x00FC, 0x00E9, 0x00E2, 0x00E4, 0x00E0, 0x00E5, 0x00E7,
    0x00EA, 0x00EB, 0x00E8, 0x00EF, 0x00EE, 0x00EC, 0x00C4, 0x00C5,
    0x00C9, 0x00E6, 0x00C6, 0x00F4, 0x00F6, 0x00F2, 0x00FB, 0x00F9,
    0x00FF, 0x00D6, 0x00DC, 0x00F8, 0x00A3, 0x00D8, 0x00D7, 0x0192,
    0x00E1, 0x00ED, 0x00F3, 0x00FA, 0x00F1, 0x00D1, 0x00AA, 0x00BA,
    0x00BF, 0x00AE, 0x00AC, 0x00BD, 0x00BC, 0x00A1, 0x00AB, 0x00BB,
    0x2591, 0x2592, 0x2593, 0x2502, 0x2524, 0x00C1, 0x00C2, 0x00C0,
    0x00A9, 0x2563, 0x2551, 0x2557, 0x255D, 0x00A2, 0x00A5, 0x2510,
    0x2514, 0x2534, 0x252C, 0x251C, 0x2500, 0x253C, 0x00E3, 0x00C3,
    0x255A, 0x2554, 0x2569, 0x2566, 0x2560, 0x2550, 0x256C, 0x00A4,
    0x00F0, 0x00D0, 0x00CA, 0x00CB, 0x00C8, 0x0131, 0x00CD, 0x00CE,
    0x00CF, 0x2518, 0x250C, 0x2588, 0x2584, 0x00A6, 0x00CC, 0x2580,
    0x00D3, 0x00DF, 0x00D4, 0x00D2, 0x00F5, 0x00D5, 0x00B5, 0x00FE,
    0x00DE, 0x00DA, 0x00DB, 0x00D9, 0x00FD, 0x00DD, 0x00AF, 0x00B4,
    0x00AD, 0x00B1, 0x2017, 0x00BE, 0x00B6, 0x00A7, 0x00F7, 0x00B8,
    0x00B0, 0x00A8, 0x00B7, 0x00B9, 0x00B3, 0x00B2, 0x25A0, 0x00A0]"

definition CP852_UPPER :: "nat list" where
  "CP852_UPPER = [
    0x00C7, 0x00FC, 0x00E9, 0x00E2, 0x00E4, 0x016F, 0x0107, 0x00E7,
    0x0142, 0x00EB, 0x0150, 0x0151, 0x00EE, 0x0179, 0x00C4, 0x0106,
    0x00C9, 0x0139, 0x013A, 0x00F4, 0x00F6, 0x013D, 0x013E, 0x015A,
    0x015B, 0x00D6, 0x00DC, 0x0164, 0x0165, 0x0141, 0x00D7, 0x010D,
    0x00E1, 0x00ED, 0x00F3, 0x00FA, 0x0104, 0x0105, 0x017D, 0x017E,
    0x0118, 0x0119, 0x00AC, 0x017A, 0x010C, 0x015F, 0x00AB, 0x00BB,
    0x2591, 0x2592, 0x2593, 0x2502, 0x2524, 0x00C1, 0x00C2, 0x011A,
    0x0160, 0x2563, 0x2551, 0x2557, 0x255D, 0x017B, 0x017C, 0x2510,
    0x2514, 0x2534, 0x252C, 0x251C, 0x2500, 0x253C, 0x0102, 0x0103,
    0x255A, 0x2554, 0x2569, 0x2566, 0x2560, 0x2550, 0x256C, 0x00A4,
    0x0111, 0x0110, 0x010E, 0x00CB, 0x010F, 0x0147, 0x00CD, 0x00CE,
    0x011B, 0x2518, 0x250C, 0x2588, 0x2584, 0x0162, 0x016E, 0x2580,
    0x00D3, 0x00DF, 0x00D4, 0x0143, 0x0144, 0x0148, 0x0160, 0x016F,
    0x00DE, 0x00DA, 0x00DB, 0x00D9, 0x00FD, 0x00DD, 0x0163, 0x00B4,
    0x00AD, 0x02DD, 0x02DB, 0x02C7, 0x02D8, 0x00A7, 0x00F7, 0x00B8,
    0x00B0, 0x00A8, 0x02D9, 0x0171, 0x0158, 0x0159, 0x25A0, 0x00A0]"

section \<open>The external encoders\<close>

datatype encoding = IBM866 | SHIFT_JIS | GBK | EUC_KR | BIG5
  | WINDOWS_1250 | WINDOWS_1251 | WINDOWS_1252 | WINDOWS_1253 | WINDOWS_1254
  | WINDOWS_1255 | WINDOWS_1256 | WINDOWS_1257 | WINDOWS_1258

record encoding_rs =
  enc_decode :: "encoding \<Rightarrow> u8 list \<Rightarrow> ustring"
  enc_decode_without_bom_handling :: "encoding \<Rightarrow> u8 list \<Rightarrow> ustring"
  enc_encode :: "encoding \<Rightarrow> ustring \<Rightarrow> u8 list"

definition cp_to_encoding :: "u32 \<Rightarrow> encoding option" where
  "cp_to_encoding cp =
    (if cp = 866 then Some IBM866
     else if cp = 932 then Some SHIFT_JIS
     else if cp = 936 then Some GBK
     else if cp = 949 then Some EUC_KR
     else if cp = 950 then Some BIG5
     else if cp = 1250 then Some WINDOWS_1250
     else if cp = 1251 then Some WINDOWS_1251
     else if cp = 1252 then Some WINDOWS_1252
     else if cp = 1253 then Some WINDOWS_1253
     else if cp = 1254 then Some WINDOWS_1254
     else if cp = 1255 then Some WINDOWS_1255
     else if cp = 1256 then Some WINDOWS_1256
     else if cp = 1257 then Some WINDOWS_1257
     else if cp = 1258 then Some WINDOWS_1258
     else None)"

section \<open>Decoding and encoding\<close>

definition decode_byte :: "nat list \<Rightarrow> u8 \<Rightarrow> nat" where
  "decode_byte upper b = (if b < 0x80 then unat b else upper ! unat (b - 0x80))"

definition decode_single_byte :: "u8 list \<Rightarrow> nat list \<Rightarrow> ustring" where
  "decode_single_byte bytes upper = map (decode_byte upper) bytes"

definition encode_char :: "nat list \<Rightarrow> nat \<Rightarrow> u8" where
  "encode_char upper ch =
    (if ch < 128 then of_nat ch
     else case vec_position (\<lambda>t. t = ch) upper of
       None \<Rightarrow> 0x3F
     | Some i \<Rightarrow> of_nat i + 0x80)"

definition encode_single_byte :: "ustring \<Rightarrow> nat list \<Rightarrow> u8 list" where
  "encode_single_byte s upper = map (encode_char upper) s"

definition cp_decode :: "encoding_rs \<Rightarrow> u8 list \<Rightarrow> u32 \<Rightarrow> ustring" where
  "cp_decode rs bytes cp =
    (if cp = 437 then decode_single_byte bytes CP437_UPPER
     else if cp = 850 then decode_single_byte bytes CP850_UPPER
     else if cp = 852 then decode_single_byte bytes CP852_UPPER
     else case cp_to_encoding cp of
       Some enc \<Rightarrow> enc_decode rs enc bytes
     | None \<Rightarrow> map unat bytes)"

definition cp_encode :: "encoding_rs \<Rightarrow> ustring \<Rightarrow> u32 \<Rightarrow> u8 list" where
  "cp_encode rs s cp =
    (if cp = 437 then encode_single_byte s CP437_UPPER
     else if cp = 850 then encode_single_byte s CP850_UPPER
     else if cp = 852 then encode_single_byte s CP852_UPPER
     else case cp_to_encoding cp of
       Some enc \<Rightarrow> enc_encode rs enc s
     | None \<Rightarrow> map (\<lambda>c. if c < 128 then of_nat c else 0x3F) s)"

definition decode_dbcs :: "encoding_rs \<Rightarrow> u8 \<Rightarrow> u8 \<Rightarrow> u32 \<Rightarrow> nat" where
  "decode_dbcs rs lead trail cp =
    (case cp_decode rs [lead, trail] cp of [] \<Rightarrow> 0xFFFD | ch # _ \<Rightarrow> ch)"

section \<open>Case mapping\<close>

definition map_case_sbcs :: "(nat \<Rightarrow> nat list) \<Rightarrow> u8 \<Rightarrow> nat list \<Rightarrow> u8" where
  "map_case_sbcs to_upper byte upper =
    (let ch = upper ! unat (byte - 0x80) in
     case to_upper ch of
       [] \<Rightarrow> byte
     | up # rest \<Rightarrow>
         if rest \<noteq> [] then byte
         else if up = ch then byte
         else if up < 128 then of_nat up
         else case vec_position (\<lambda>t. t = up) upper of
           None \<Rightarrow> byte
         | Some i \<Rightarrow> of_nat i + 0x80)"

definition map_case_enc :: "encoding_rs \<Rightarrow> (nat \<Rightarrow> nat list) \<Rightarrow> u8 \<Rightarrow> encoding \<Rightarrow> u8" where
  "map_case_enc rs to_upper byte enc =
    (case enc_decode_without_bom_handling rs enc [byte] of
       [] \<Rightarrow> byte
     | ch # _ \<Rightarrow>
         (case to_upper ch of
            [up] \<Rightarrow>
              if up \<noteq> ch then
                (case enc_encode rs enc [up] of b # _ \<Rightarrow> b | [] \<Rightarrow> byte)
              else byte
          | _ \<Rightarrow> byte))"

definition cp_map_case_upper :: "encoding_rs \<Rightarrow> (nat \<Rightarrow> nat list) \<Rightarrow> u8 \<Rightarrow> u32 \<Rightarrow> u8" where
  "cp_map_case_upper rs to_upper byte cp =
    (if byte < 0x80 then of_nat (uc_upper (unat byte))
     else if cp = 437 then map_case_sbcs to_upper byte CP437_UPPER
     else if cp = 850 then map_case_sbcs to_upper byte CP850_UPPER
     else if cp = 852 then map_case_sbcs to_upper byte CP852_UPPER
     else if cp = 932 \<or> cp = 936 \<or> cp = 949 \<or> cp = 950 then byte
     else case cp_to_encoding cp of
       Some enc \<Rightarrow> map_case_enc rs to_upper byte enc
     | None \<Rightarrow> byte)"

section \<open>Tables that can be inverted\<close>

text \<open>What a table needs for its encoder to undo its decoder: 128 distinct non-ASCII characters.\<close>

definition sbcs_table :: "nat list \<Rightarrow> bool" where
  "sbcs_table t \<longleftrightarrow> length t = 128 \<and> distinct t \<and> (\<forall>c\<in>set t. 128 \<le> c)"

definition table_of :: "u32 \<Rightarrow> nat list option" where
  "table_of cp =
    (if cp = 437 then Some CP437_UPPER
     else if cp = 850 then Some CP850_UPPER
     else if cp = 852 then Some CP852_UPPER else None)"

lemma cp437_table: "sbcs_table CP437_UPPER"
  by (simp add: sbcs_table_def CP437_UPPER_def)

lemma cp850_table: "sbcs_table CP850_UPPER"
  by (simp add: sbcs_table_def CP850_UPPER_def)

lemma table_of_shape:
  "table_of cp = Some t \<Longrightarrow> length t = 128 \<and> (\<forall>c\<in>set t. 128 \<le> c)"
  by (auto simp: table_of_def CP437_UPPER_def CP850_UPPER_def CP852_UPPER_def split: if_splits)

lemma vec_position_distinct:
  "distinct xs \<Longrightarrow> i < length xs \<Longrightarrow> vec_position (\<lambda>t. t = xs ! i) xs = Some i"
proof (induction xs arbitrary: i)
  case (Cons x xs)
  then show ?case by (cases i) auto
qed simp

lemma upper_index:
  assumes "\<not> (b :: u8) < 0x80"
  shows "unat (b - 0x80) < 128" and "of_nat (unat (b - 0x80)) + 0x80 = b"
proof -
  have "0x80 \<le> b" using assms by simp
  then have "unat (b - 0x80) = unat b - 128" by (simp add: unat_sub)
  then show "unat (b - 0x80) < 128" using unat_u8_lt [of b] by linarith
  show "of_nat (unat (b - 0x80)) + 0x80 = b" by simp
qed

lemma encode_decode_byte:
  assumes "sbcs_table t"
  shows "encode_char t (decode_byte t b) = b"
proof (cases "b < 0x80")
  case True
  then have "unat b < 128" by (simp add: word_less_nat_alt)
  with True show ?thesis by (simp add: encode_char_def decode_byte_def)
next
  case False
  note i = upper_index [OF False]
  have "t ! unat (b - 0x80) \<in> set t" using assms i(1) by (simp add: sbcs_table_def)
  then have "\<not> t ! unat (b - 0x80) < 128" using assms by (auto simp: sbcs_table_def)
  moreover have "vec_position (\<lambda>c. c = t ! unat (b - 0x80)) t = Some (unat (b - 0x80))"
    using assms i(1) by (intro vec_position_distinct) (auto simp: sbcs_table_def)
  ultimately show ?thesis using False i(2) by (simp add: encode_char_def decode_byte_def)
qed

lemma encode_decode_single_byte:
  "sbcs_table t \<Longrightarrow> encode_single_byte (decode_single_byte bs t) t = bs"
  by (simp add: encode_single_byte_def decode_single_byte_def encode_decode_byte map_idI)

section \<open>Properties\<close>

text \<open>A concrete set of external encoders (Latin-1 for every encoding) for the examples.\<close>

definition latin1_rs :: encoding_rs where
  "latin1_rs = \<lparr> enc_decode = (\<lambda>_ bs. map unat bs),
     enc_decode_without_bom_handling = (\<lambda>_ bs. map unat bs), enc_encode = (\<lambda>_ s. map of_nat s) \<rparr>"

text \<open>
  Codepages 437 and 850 lose nothing: decoding any guest byte string and encoding the
  result gives the bytes back, whatever the external encoders do.
\<close>

theorem cp_encode_decode:
  assumes "cp = 437 \<or> cp = 850"
  shows "cp_encode rs (cp_decode rs bytes cp) cp = bytes"
  using assms encode_decode_single_byte cp437_table cp850_table
  by (auto simp: cp_encode_def cp_decode_def)

text \<open>Decoding then encoding the string \<^verbatim>\<open>0x41 0x80 0xFF\<close> in codepage 850.\<close>

theorem cp_encode_decode_witness:
  "cp_encode latin1_rs (cp_decode latin1_rs [0x41, 0x80, 0xFF] 850) 850 = [0x41, 0x80, 0xFF]"
  by (rule cp_encode_decode) simp

text \<open>
  Codepage 852 is not a bijection in the source: the table lists U+0160 at 0xB8 and at
  0xE6 and U+016F at 0x85 and at 0xE7, so the bytes 0xE6 and 0xE7 come back as 0xB8 and 0x85.
\<close>

theorem cp852_not_invertible:
  "cp_encode rs (cp_decode rs [0xE6, 0xE7] 852) 852 = [0xB8, 0x85]"
  by (simp add: cp_encode_def cp_decode_def decode_single_byte_def encode_single_byte_def
      decode_byte_def encode_char_def CP852_UPPER_def)

lemma map_case_sbcs_cases:
  "map_case_sbcs to_upper byte t = byte
   \<or> (\<exists>up. to_upper (t ! unat (byte - 0x80)) = [up] \<and> up < 128 \<and>
        map_case_sbcs to_upper byte t = of_nat up)
   \<or> (\<exists>up i. to_upper (t ! unat (byte - 0x80)) = [up] \<and> vec_position (\<lambda>c. c = up) t = Some i \<and>
        map_case_sbcs to_upper byte t = of_nat i + 0x80)"
proof (cases "to_upper (t ! unat (byte - 0x80))")
  case (Cons up rest)
  then show ?thesis
    by (cases rest; cases "vec_position (\<lambda>c. c = up) t"; cases "up < 128")
      (simp_all add: map_case_sbcs_def)
qed (simp add: map_case_sbcs_def)

lemma upper_byte:
  assumes "i < 128"
  shows "\<not> (of_nat i + 0x80 :: u8) < 0x80" and "unat (of_nat i + 0x80 - 0x80 :: u8) = i"
proof -
  have "unat (of_nat i + 0x80 :: u8) = i + 128"
    using assms by (simp add: unat_word_ariths unat_of_nat)
  then show "\<not> (of_nat i + 0x80 :: u8) < 0x80" by (simp add: word_less_nat_alt)
  show "unat (of_nat i + 0x80 - 0x80 :: u8) = i" using assms by (simp add: unat_of_nat)
qed

lemma cp_map_case_upper_table:
  "table_of cp = Some t \<Longrightarrow> cp_map_case_upper rs to_upper byte cp =
    (if byte < 0x80 then of_nat (uc_upper (unat byte)) else map_case_sbcs to_upper byte t)"
  by (auto simp: cp_map_case_upper_def table_of_def split: if_splits)

lemma map_case_sbcs_fixed:
  assumes "to_upper (t ! i) = [t ! i]" "i < 128"
  shows "map_case_sbcs to_upper (of_nat i + 0x80) t = of_nat i + 0x80"
  unfolding map_case_sbcs_def Let_def upper_byte(2) [OF assms(2)] by (simp add: assms(1))

text \<open>
  Upper-casing in a table codepage is idempotent, provided the Unicode mapping is the
  ASCII one below 128 and leaves the single characters it produces alone.
\<close>

theorem cp_map_case_upper_idem:
  assumes ascii: "\<And>c. c < 128 \<Longrightarrow> to_upper c = [uc_upper c]"
    and stable: "\<And>c u. to_upper c = [u] \<Longrightarrow> to_upper u = [u]"
    and cp: "cp = 437 \<or> cp = 850 \<or> cp = 852"
  shows "cp_map_case_upper rs to_upper (cp_map_case_upper rs to_upper byte cp) cp =
    cp_map_case_upper rs to_upper byte cp"
proof -
  obtain t where t: "table_of cp = Some t" using cp by (auto simp: table_of_def)
  note f = cp_map_case_upper_table [OF t, of rs to_upper]
  have low: "f1 (of_nat c) = of_nat c"
    if "c < 128" "uc_upper c = c" "f1 = (\<lambda>b. cp_map_case_upper rs to_upper b cp)" for c f1
    using that by (simp add: f word_less_nat_alt unat_of_nat)
  show ?thesis
  proof (cases "byte < 0x80")
    case True
    then have "unat byte < 128" by (simp add: word_less_nat_alt)
    then have "uc_upper (unat byte) < 128" by (auto simp: uc_upper_def)
    with True low [of "uc_upper (unat byte)"] show ?thesis by (simp add: f [of byte])
  next
    case False
    then have fb: "cp_map_case_upper rs to_upper byte cp = map_case_sbcs to_upper byte t"
      by (simp add: f)
    consider "map_case_sbcs to_upper byte t = byte"
      | up where "to_upper (t ! unat (byte - 0x80)) = [up]" "up < 128"
          "map_case_sbcs to_upper byte t = of_nat up"
      | up i where "to_upper (t ! unat (byte - 0x80)) = [up]"
          "vec_position (\<lambda>c. c = up) t = Some i"
          "map_case_sbcs to_upper byte t = of_nat i + 0x80"
      using map_case_sbcs_cases [of to_upper byte t] by blast
    then show ?thesis
    proof cases
      case 1
      with fb show ?thesis by simp
    next
      case u: (2 up)
      then have "uc_upper up = up" using stable [OF u(1)] ascii [OF u(2)] by simp
      with low [OF u(2)] fb u(3) show ?thesis by simp
    next
      case u: (3 up i)
      have i: "t ! i = up" "i < 128"
        using u(2) table_of_shape [OF t] by (auto elim!: vec_position_SomeE)
      have "map_case_sbcs to_upper (of_nat i + 0x80) t = of_nat i + 0x80"
        using stable [OF u(1)] i by (intro map_case_sbcs_fixed) auto
      then show ?thesis using fb u(3) upper_byte(1) [OF i(2)] by (simp add: f)
    qed
  qed
qed

text \<open>
  With the ASCII-only mapping as the Unicode one, the byte \<^verbatim>\<open>0x61\<close> (\<open>a\<close>) becomes \<^verbatim>\<open>0x41\<close> and
  stays there.
\<close>

theorem cp_map_case_upper_idem_witness:
  "cp_map_case_upper latin1_rs (\<lambda>c. [uc_upper c]) (cp_map_case_upper latin1_rs (\<lambda>c. [uc_upper c]) 0x61 437) 437
    = 0x41"
proof -
  have "cp_map_case_upper latin1_rs (\<lambda>c. [uc_upper c]) 0x61 437 = 0x41"
    by (simp add: cp_map_case_upper_def uc_upper_def)
  moreover have "cp_map_case_upper latin1_rs (\<lambda>c. [uc_upper c])
      (cp_map_case_upper latin1_rs (\<lambda>c. [uc_upper c]) 0x61 437) 437 =
      cp_map_case_upper latin1_rs (\<lambda>c. [uc_upper c]) 0x61 437"
    by (rule cp_map_case_upper_idem) auto
  ultimately show ?thesis by simp
qed

end
