(* ===== verification/Guest_Memory.thy ===== *)
theory Guest_Memory
  imports Codepage
begin

text \<open>
  Guest physical memory (\<^verbatim>\<open>src/src/loader/guest_mem.rs\<close>): one contiguous region, every access
  bounds-checked. The region is the list of its bytes; an offset is a \<^verbatim>\<open>u32\<close>, a length a
  \<^verbatim>\<open>usize\<close> (64 bits on every supported host). A pointer returned by \<^verbatim>\<open>ptr_at\<close> is its index
  into the region. \<^verbatim>\<open>read\<close> and \<^verbatim>\<open>write\<close> are generic in the Rust type; the model is generic in
  the word length, with \<open>size_of\<close> the number of its bytes. \<^verbatim>\<open>mmap\<close> itself is not modelled: an
  allocated region is zero-filled, as \<^verbatim>\<open>alloc\<close> leaves it.
\<close>

section \<open>The region\<close>

record guest_memory =
  gm_bytes :: "u8 list"

definition gm_size :: "guest_memory \<Rightarrow> nat" where
  "gm_size m = length (gm_bytes m)"

definition gm_alloc :: "nat \<Rightarrow> guest_memory" where
  "gm_alloc sz = \<lparr> gm_bytes = replicate sz 0 \<rparr>"

definition ptr_at :: "guest_memory \<Rightarrow> u32 \<Rightarrow> nat \<Rightarrow> nat option" where
  "ptr_at m offset len =
    (let off = unat offset in
     if 2 ^ 64 \<le> off + len \<or> gm_size m < off + len then None else Some off)"

definition size_of :: "'a::len itself \<Rightarrow> nat" where
  "size_of t = LENGTH('a) div 8"

definition gm_read :: "guest_memory \<Rightarrow> u32 \<Rightarrow> 'a::len word option" where
  "gm_read m offset =
    do { p \<leftarrow> ptr_at m offset (size_of TYPE('a));
         Some (le_word (take (size_of TYPE('a)) (drop p (gm_bytes m)))) }"

definition gm_put :: "guest_memory \<Rightarrow> nat \<Rightarrow> u8 list \<Rightarrow> guest_memory" where
  "gm_put m p data = m\<lparr> gm_bytes :=
     take p (gm_bytes m) @ data @ drop (p + length data) (gm_bytes m) \<rparr>"

definition gm_write :: "guest_memory \<Rightarrow> u32 \<Rightarrow> 'a::len word \<Rightarrow> guest_memory option" where
  "gm_write m offset val =
    do { p \<leftarrow> ptr_at m offset (size_of TYPE('a));
         Some (gm_put m p (le_bytes (size_of TYPE('a)) val)) }"

definition gm_write_bytes :: "guest_memory \<Rightarrow> u32 \<Rightarrow> u8 list \<Rightarrow> guest_memory option" where
  "gm_write_bytes m offset data =
    do { p \<leftarrow> ptr_at m offset (length data);
         Some (gm_put m p data) }"

text \<open>A store whose result the caller ignores: outside guest memory it does nothing.\<close>

definition guest_write_ign :: "guest_memory \<Rightarrow> u32 \<Rightarrow> 'a::len word \<Rightarrow> guest_memory" where
  "guest_write_ign g ptr v = (case gm_write g ptr v of Some g' \<Rightarrow> g' | None \<Rightarrow> g)"

definition guest_write_bytes_ign :: "guest_memory \<Rightarrow> u32 \<Rightarrow> u8 list \<Rightarrow> guest_memory" where
  "guest_write_bytes_ign g ptr bs = (case gm_write_bytes g ptr bs of Some g' \<Rightarrow> g' | None \<Rightarrow> g)"

text \<open>\<^verbatim>\<open>slice_mut\<close>, read through: the bytes of the slice.\<close>

definition gm_slice :: "guest_memory \<Rightarrow> u32 \<Rightarrow> nat \<Rightarrow> u8 list option" where
  "gm_slice m offset len =
    do { p \<leftarrow> ptr_at m offset len;
         Some (take len (drop p (gm_bytes m))) }"

section \<open>Guest strings\<close>

definition max_guest_string_len :: nat where
  "max_guest_string_len = 4096"

text \<open>The byte loop: at most \<open>n\<close> more bytes, the next at index \<open>i\<close>.\<close>

fun string_bytes :: "guest_memory \<Rightarrow> nat \<Rightarrow> nat \<Rightarrow> u8 list" where
  "string_bytes m i 0 = []"
| "string_bytes m i (Suc n) =
    (let byte = (case gm_read m (of_nat i) of Some b \<Rightarrow> b | None \<Rightarrow> 0) in
     if byte = 0 then [] else byte # string_bytes m (Suc i) n)"

definition guest_string_bytes :: "guest_memory \<Rightarrow> u32 \<Rightarrow> u8 list" where
  "guest_string_bytes m ptr =
    (let base = unat ptr in
     if gm_size m \<le> base then []
     else string_bytes m base (min max_guest_string_len (gm_size m - base)))"

definition read_guest_string :: "encoding_rs \<Rightarrow> u32 \<Rightarrow> guest_memory \<Rightarrow> u32 \<Rightarrow> ustring" where
  "read_guest_string rs active_codepage m ptr =
    (if gm_size m \<le> unat ptr then []
     else cp_decode rs (guest_string_bytes m ptr) active_codepage)"

section \<open>Bounds, frames and round trips\<close>

lemma gm_size_alloc [simp]: "gm_size (gm_alloc n) = n"
  by (simp add: gm_size_def gm_alloc_def)

lemma ptr_at_Some: "ptr_at m off len = Some p \<longleftrightarrow>
    unat off + len \<le> gm_size m \<and> unat off + len < 2 ^ 64 \<and> p = unat off"
  by (auto simp: ptr_at_def Let_def)

lemma gm_size_put: "p + length data \<le> gm_size m \<Longrightarrow> gm_size (gm_put m p data) = gm_size m"
  by (simp add: gm_size_def gm_put_def)

lemma put_same: "p + length data \<le> gm_size m \<Longrightarrow>
    take (length data) (drop p (gm_bytes (gm_put m p data))) = data"
  by (simp add: gm_size_def gm_put_def)

lemma put_nth:
  assumes "p + length data \<le> gm_size m" "k < p \<or> p + length data \<le> k"
  shows "gm_bytes (gm_put m p data) ! k = gm_bytes m ! k"
proof -
  have "length (take p (gm_bytes m)) = p" using assms(1) by (simp add: gm_size_def)
  then show ?thesis using assms by (auto simp: gm_size_def gm_put_def nth_append)
qed

lemma put_other:
  assumes "p + length data \<le> gm_size m" "q + n \<le> p \<or> p + length data \<le> q"
  shows "take n (drop q (gm_bytes (gm_put m p data))) = take n (drop q (gm_bytes m))"
proof (rule nth_equalityI)
  show l: "length (take n (drop q (gm_bytes (gm_put m p data)))) =
      length (take n (drop q (gm_bytes m)))"
    using gm_size_put [OF assms(1)] by (simp add: gm_size_def)
  fix i assume "i < length (take n (drop q (gm_bytes (gm_put m p data))))"
  then have i: "i < n" "q + i < length (gm_bytes m)" unfolding l by auto
  then show "take n (drop q (gm_bytes (gm_put m p data))) ! i = take n (drop q (gm_bytes m)) ! i"
    using assms(2) put_nth [OF assms(1), of "q + i"] gm_size_put [OF assms(1)]
    by (auto simp: gm_size_def)
qed

text \<open>The word lengths the sources instantiate the generic accessors with.\<close>

definition byte_sized :: "'a::len itself \<Rightarrow> bool" where
  "byte_sized t \<longleftrightarrow> 8 * size_of TYPE('a) = LENGTH('a)"

lemma byte_sized_words [simp]:
  "byte_sized TYPE(8)" "byte_sized TYPE(16)" "byte_sized TYPE(32)" "byte_sized TYPE(64)"
  by (simp_all add: byte_sized_def size_of_def)

lemma le_word_le_bytes_sized:
  "byte_sized TYPE('a) \<Longrightarrow> le_word (le_bytes (size_of TYPE('a)) v) = (v :: 'a::len word)"
  by (simp add: le_word_le_bytes byte_sized_def)

lemma gm_write_Some: "gm_write m off (v :: 'a::len word) = Some m' \<longleftrightarrow>
    ptr_at m off (size_of TYPE('a)) = Some (unat off) \<and>
    m' = gm_put m (unat off) (le_bytes (size_of TYPE('a)) v)"
  by (auto simp: gm_write_def bind_eq_Some_conv ptr_at_Some)

lemma gm_write_size: "gm_write m off v = Some m' \<Longrightarrow> gm_size m' = gm_size m"
  by (auto simp: gm_write_Some ptr_at_Some intro!: gm_size_put)

lemma gm_write_bytes_size: "gm_write_bytes m off d = Some m' \<Longrightarrow> gm_size m' = gm_size m"
  by (auto simp: gm_write_bytes_def bind_eq_Some_conv ptr_at_Some intro!: gm_size_put)

lemma gm_read_frame:
  assumes "p + length data \<le> gm_size m"
    and "unat off + size_of TYPE('a) \<le> p \<or> p + length data \<le> unat off"
  shows "gm_read (gm_put m p data) off = (gm_read m off :: 'a::len word option)"
proof -
  have "ptr_at (gm_put m p data) off n = ptr_at m off n" for n
    by (simp add: ptr_at_def gm_size_put [OF assms(1)])
  then show ?thesis
    using put_other [OF assms(1), of "unat off" "size_of TYPE('a)"] assms(2)
    by (auto simp: gm_read_def ptr_at_def Let_def)
qed

lemma gm_write_same:
  assumes "gm_write m off (v :: 'a::len word) = Some m'" and "byte_sized TYPE('a)"
  shows "gm_read m' off = Some v"
proof -
  have m': "m' = gm_put m (unat off) (le_bytes (size_of TYPE('a)) v)"
    and p: "ptr_at m off (size_of TYPE('a)) = Some (unat off)"
    using assms(1) by (auto simp: gm_write_Some)
  then have b: "unat off + length (le_bytes (size_of TYPE('a)) v) \<le> gm_size m"
    by (simp add: ptr_at_Some)
  have "ptr_at m' off (size_of TYPE('a)) = Some (unat off)"
    using p gm_write_size [OF assms(1)] by (simp add: ptr_at_Some)
  then show ?thesis
    using put_same [OF b] by (simp add: gm_read_def m' le_word_le_bytes_sized [OF assms(2)])
qed

lemma gm_write_other:
  assumes "gm_write m off (v :: 'a::len word) = Some m'"
    and "unat off2 + size_of TYPE('b) \<le> unat off \<or> unat off + size_of TYPE('a) \<le> unat off2"
  shows "gm_read m' off2 = (gm_read m off2 :: 'b::len word option)"
proof -
  have "m' = gm_put m (unat off) (le_bytes (size_of TYPE('a)) v)"
    and "unat off + length (le_bytes (size_of TYPE('a)) v) \<le> gm_size m"
    using assms(1) by (auto simp: gm_write_Some ptr_at_Some)
  then show ?thesis
    using gm_read_frame [of "unat off" _ m off2, where ?'a = 'b] assms(2) by simp
qed

lemma gm_put_nil [simp]: "gm_put m p [] = m"
  by (simp add: gm_put_def)

lemma gm_put_append:
  assumes "p + length xs + length ys \<le> gm_size m"
  shows "gm_put (gm_put m p xs) (p + length xs) ys = gm_put m p (xs @ ys)"
  using assms by (simp add: gm_put_def gm_size_def ac_simps)

lemma guest_write_ign_size [simp]: "gm_size (guest_write_ign g p v) = gm_size g"
  by (auto simp: guest_write_ign_def gm_write_size split: option.splits)

lemma guest_write_ign_slice:
  fixes v :: "'a::len word"
  assumes "q + n \<le> unat p \<or> unat p + size_of TYPE('a) \<le> q"
  shows "take n (drop q (gm_bytes (guest_write_ign g p v))) = take n (drop q (gm_bytes g))"
proof (cases "gm_write g p v")
  case (Some g')
  then have "unat p + length (le_bytes (size_of TYPE('a)) v) \<le> gm_size g"
    and "g' = gm_put g (unat p) (le_bytes (size_of TYPE('a)) v)"
    by (auto simp: gm_write_Some ptr_at_Some)
  with put_other [OF this(1), of q n] assms Some show ?thesis by (simp add: guest_write_ign_def)
qed (simp add: guest_write_ign_def)

lemma guest_write_ign_read:
  fixes v :: "'a::len word"
  assumes "unat p + size_of TYPE('a) \<le> gm_size g" "gm_size g \<le> 2 ^ 32" "byte_sized TYPE('a)"
  shows "gm_read (guest_write_ign g p v) p = Some v"
proof -
  have "ptr_at g p (size_of TYPE('a)) = Some (unat p)" using assms(1,2) by (simp add: ptr_at_Some)
  then have "gm_write g p v = Some (gm_put g (unat p) (le_bytes (size_of TYPE('a)) v))" by (simp add: gm_write_Some)
  with gm_write_same [OF this assms(3)] show ?thesis by (simp add: guest_write_ign_def)
qed

lemma write_byte_put:
  "unat p < gm_size g \<Longrightarrow> gm_size g \<le> 2 ^ 32 \<Longrightarrow> guest_write_ign g p (b :: u8) = gm_put g (unat p) [b]"
  by (simp add: guest_write_ign_def gm_write_def ptr_at_def size_of_def le_bytes_def)

section \<open>Properties\<close>

text \<open>
  C10. Every accessor refuses exactly the accesses that leave the region: reads, writes,
  block writes and slices fail if and only if the range \<open>offset .. offset + len\<close> is not
  inside the region, whatever the operands.
\<close>

theorem gm_access_iff_in_bounds:
  assumes "gm_size m < 2 ^ 64"
  shows "(gm_read m off = (None :: 'a::len word option) \<longleftrightarrow>
        gm_size m < unat off + size_of TYPE('a)) \<and>
     (gm_write m off (v :: 'a word) = None \<longleftrightarrow> gm_size m < unat off + size_of TYPE('a)) \<and>
     (gm_write_bytes m off data = None \<longleftrightarrow> gm_size m < unat off + length data) \<and>
     (gm_slice m off len = None \<longleftrightarrow> gm_size m < unat off + len)"
  using assms
  by (auto simp: gm_read_def gm_write_def gm_write_bytes_def gm_slice_def ptr_at_def Let_def
      split: if_splits)

text \<open>The last 32-bit word of a 64-byte region, and one byte beyond it.\<close>

theorem gm_access_iff_in_bounds_witness:
  "gm_read (gm_alloc 64) 60 \<noteq> (None :: u32 option) \<and> gm_read (gm_alloc 64) 61 = (None :: u32 option)"
  using gm_access_iff_in_bounds [of "gm_alloc 64" 60, where ?'a = 32]
    gm_access_iff_in_bounds [of "gm_alloc 64" 61, where ?'a = 32]
  by (simp add: size_of_def)

text \<open>
  A successful write keeps the size of the region, is read back exactly, and changes no
  byte outside the written range: any read of a disjoint range, of any width, is unchanged.
\<close>

theorem gm_write_read:
  assumes "gm_write m off (v :: 'a::len word) = Some m'" and "byte_sized TYPE('a)"
  shows "gm_size m' = gm_size m \<and> gm_read m' off = Some v \<and>
    (unat off2 + size_of TYPE('b) \<le> unat off \<or> unat off + size_of TYPE('a) \<le> unat off2 \<longrightarrow>
       gm_read m' off2 = (gm_read m off2 :: 'b::len word option))"
  using gm_write_size [OF assms(1)] gm_write_same [OF assms] gm_write_other [OF assms(1)] by blast

text \<open>Writing a 16-bit word at 8 leaves the byte at 10 as it was.\<close>

theorem gm_write_read_witness:
  "\<exists>m'. gm_write (gm_alloc 64) 8 (0x1234 :: u16) = Some m' \<and> gm_read m' 8 = Some (0x1234 :: u16) \<and>
     gm_read m' 10 = Some (0 :: u8)"
proof -
  obtain m' where m': "gm_write (gm_alloc 64) 8 (0x1234 :: u16) = Some m'"
    by (simp add: gm_write_def ptr_at_def size_of_def)
  have "gm_read (gm_alloc 64) 10 = Some (0 :: u8)"
    by (simp add: gm_read_def ptr_at_def size_of_def gm_alloc_def gm_size_def drop_replicate)
  with gm_write_read [OF m', of 10, where ?'b = 8] m' show ?thesis by (simp add: size_of_def)
qed

text \<open>
  The byte loop of \<^verbatim>\<open>read_guest_string\<close> reads the region's bytes from the pointer on, up to
  the first zero.
\<close>

lemma string_bytes_eq:
  assumes "gm_size m \<le> 2 ^ 32" "i + n \<le> gm_size m"
  shows "string_bytes m i n = takeWhile (\<lambda>b. b \<noteq> 0) (take n (drop i (gm_bytes m)))"
  using assms(2)
proof (induction n arbitrary: i)
  case (Suc n)
  then have i: "i < gm_size m" by simp
  then have "unat (of_nat i :: u32) = i" using assms(1) by (simp add: unat_of_nat)
  moreover have d: "drop i (gm_bytes m) = gm_bytes m ! i # drop (Suc i) (gm_bytes m)"
    using i by (simp add: Cons_nth_drop_Suc gm_size_def)
  ultimately have "gm_read m (of_nat i) = Some (gm_bytes m ! i)"
    using i assms(1) by (simp add: gm_read_def ptr_at_def size_of_def gm_size_def)
  with Suc.IH [of "Suc i"] Suc.prems d show ?case by simp
qed simp

text \<open>
  A guest string is what the region holds from the pointer to the first zero byte, cut
  at 4096 bytes and at the end of the region, decoded in the active codepage; a pointer
  outside the region gives the empty string. The loop never reads outside the region.
\<close>

theorem read_guest_string_spec:
  assumes "gm_size m \<le> 2 ^ 32"
  shows "read_guest_string rs cp m ptr =
    (if gm_size m \<le> unat ptr then []
     else cp_decode rs (takeWhile (\<lambda>b. b \<noteq> 0) (take 4096 (drop (unat ptr) (gm_bytes m)))) cp)"
proof (cases "gm_size m \<le> unat ptr")
  case False
  let ?n = "min 4096 (gm_size m - unat ptr)"
  have "string_bytes m (unat ptr) ?n = takeWhile (\<lambda>b. b \<noteq> 0) (take ?n (drop (unat ptr) (gm_bytes m)))"
    using False by (intro string_bytes_eq [OF assms]) auto
  also have "take ?n (drop (unat ptr) (gm_bytes m)) = take 4096 (drop (unat ptr) (gm_bytes m))"
    by (simp add: gm_size_def min_def)
  finally show ?thesis using False
    by (simp add: read_guest_string_def guest_string_bytes_def max_guest_string_len_def Let_def)
qed (simp add: read_guest_string_def)

text \<open>A zero-terminated string in a small region.\<close>

theorem read_guest_string_spec_witness:
  "read_guest_string latin1_rs 437 \<lparr> gm_bytes = [0, 0x4F, 0x53, 0, 0x41] \<rparr> 1 = [0x4F, 0x53]"
proof -
  let ?m = "\<lparr> gm_bytes = [0, 0x4F, 0x53, 0, 0x41] \<rparr> :: guest_memory"
  have "gm_size ?m \<le> 2 ^ 32" by (simp add: gm_size_def)
  from read_guest_string_spec [OF this, of latin1_rs 437 1] show ?thesis
    by (simp add: gm_size_def cp_decode_def decode_single_byte_def decode_byte_def)
qed

end
