(* ===== verification/Byte_Reader.thy ===== *)
theory Byte_Reader
  imports Prelude
begin

text \<open>
  The reader the binary-format parsers are written against: \<^verbatim>\<open>Read + Seek\<close> over a file whose
  bytes are known. A parser is a function from the bytes and the current position to an I/O
  error or a result with the new position; \<^verbatim>\<open>seek(SeekFrom::Start(n))\<close> sets the position, also
  beyond the end, and \<^verbatim>\<open>read_exact\<close> fails with \<^verbatim>\<open>UnexpectedEof\<close> when fewer bytes remain.
  \<open>rd_bind\<close> is the \<^verbatim>\<open>?\<close> operator. \<^verbatim>\<open>InvalidData\<close> carries the fixed part of the message;
  \<open>Panicked\<close> stands for an index out of range, which unwinds through the parser like an error.
  The theory also holds \<^verbatim>\<open>String::from_utf8_lossy\<close> and the interface of a table codec, from
  which the round trips of the tables of both executable formats follow.
\<close>

section \<open>Readers\<close>

datatype io_error = UnexpectedEof | InvalidData string | Panicked

type_synonym 'a rd = "u8 list \<Rightarrow> nat \<Rightarrow> io_error + 'a \<times> nat"

definition rd_return :: "'a \<Rightarrow> 'a rd" where
  "rd_return x d p = Inr (x, p)"

definition rd_fail :: "io_error \<Rightarrow> 'a rd" where
  "rd_fail e d p = Inl e"

definition rd_bind :: "'a rd \<Rightarrow> ('a \<Rightarrow> 'b rd) \<Rightarrow> 'b rd" where
  "rd_bind r f d p = (case r d p of Inl e \<Rightarrow> Inl e | Inr (x, p') \<Rightarrow> f x d p')"

definition rd_seek :: "nat \<Rightarrow> unit rd" where
  "rd_seek n d p = Inr ((), n)"

definition rd_pos :: "nat rd" where
  "rd_pos d p = Inr (p, p)"

definition read_exact :: "nat \<Rightarrow> u8 list rd" where
  "read_exact n d p =
    (if p + n \<le> length d then Inr (take n (drop p d), p + n)
     else if n = 0 then Inr ([], p) else Inl UnexpectedEof)"

definition rd_map :: "('a \<Rightarrow> 'b) \<Rightarrow> 'a rd \<Rightarrow> 'b rd" where
  "rd_map f r d p = (case r d p of Inl e \<Rightarrow> Inl e | Inr (x, p') \<Rightarrow> Inr (f x, p'))"

definition read_u8 :: "u8 rd" where "read_u8 = rd_map le_word (read_exact 1)"
definition read_u16 :: "u16 rd" where "read_u16 = rd_map le_word (read_exact 2)"
definition read_u32 :: "u32 rd" where "read_u32 = rd_map le_word (read_exact 4)"

primrec rd_times :: "nat \<Rightarrow> 'a rd \<Rightarrow> 'a list rd" where
  "rd_times 0 r = rd_return []"
| "rd_times (Suc n) r = rd_bind r (\<lambda>x. rd_bind (rd_times n r) (\<lambda>xs. rd_return (x # xs)))"

section \<open>Lossy UTF-8 decoding\<close>

definition is_cont :: "u8 \<Rightarrow> bool" where
  "is_cont b \<longleftrightarrow> b AND 0xC0 = 0x80"

definition second3 :: "u8 \<Rightarrow> u8 \<Rightarrow> bool" where
  "second3 a b \<longleftrightarrow>
    (a = 0xE0 \<and> 0xA0 \<le> b \<and> b \<le> 0xBF) \<or> (0xE1 \<le> a \<and> a \<le> 0xEC \<and> 0x80 \<le> b \<and> b \<le> 0xBF) \<or>
    (a = 0xED \<and> 0x80 \<le> b \<and> b \<le> 0x9F) \<or> (0xEE \<le> a \<and> a \<le> 0xEF \<and> 0x80 \<le> b \<and> b \<le> 0xBF)"

definition second4 :: "u8 \<Rightarrow> u8 \<Rightarrow> bool" where
  "second4 a b \<longleftrightarrow>
    (a = 0xF0 \<and> 0x90 \<le> b \<and> b \<le> 0xBF) \<or> (0xF1 \<le> a \<and> a \<le> 0xF3 \<and> 0x80 \<le> b \<and> b \<le> 0xBF) \<or>
    (a = 0xF4 \<and> 0x80 \<le> b \<and> b \<le> 0x8F)"

definition cbits :: "u8 \<Rightarrow> nat" where
  "cbits b = unat b mod 64"

fun from_utf8_lossy :: "u8 list \<Rightarrow> ustring" where
  "from_utf8_lossy [] = []"
| "from_utf8_lossy (a # r) =
    (if a < 0x80 then unat a # from_utf8_lossy r
     else if 0xC2 \<le> a \<and> a \<le> 0xDF then
       (case r of
          b # r1 \<Rightarrow>
            if is_cont b then ((unat a mod 32) * 64 + cbits b) # from_utf8_lossy r1
            else 0xFFFD # from_utf8_lossy r
        | [] \<Rightarrow> [0xFFFD])
     else if 0xE0 \<le> a \<and> a \<le> 0xEF then
       (case r of
          b # r1 \<Rightarrow>
            if second3 a b then
              (case r1 of
                 c # r2 \<Rightarrow>
                   if is_cont c
                   then ((unat a mod 16) * 4096 + cbits b * 64 + cbits c) # from_utf8_lossy r2
                   else 0xFFFD # from_utf8_lossy r1
               | [] \<Rightarrow> [0xFFFD])
            else 0xFFFD # from_utf8_lossy r
        | [] \<Rightarrow> [0xFFFD])
     else if 0xF0 \<le> a \<and> a \<le> 0xF4 then
       (case r of
          b # r1 \<Rightarrow>
            if second4 a b then
              (case r1 of
                 c # r2 \<Rightarrow>
                   if is_cont c then
                     (case r2 of
                        e # r3 \<Rightarrow>
                          if is_cont e then
                            ((unat a mod 8) * 262144 + cbits b * 4096 + cbits c * 64 + cbits e)
                              # from_utf8_lossy r3
                          else 0xFFFD # from_utf8_lossy r2
                      | [] \<Rightarrow> [0xFFFD])
                   else 0xFFFD # from_utf8_lossy r1
               | [] \<Rightarrow> [0xFFFD])
            else 0xFFFD # from_utf8_lossy r
        | [] \<Rightarrow> [0xFFFD])
     else 0xFFFD # from_utf8_lossy r)"

definition ascii_bytes :: "ustring \<Rightarrow> u8 list" where
  "ascii_bytes s = map of_nat s"

definition is_ascii :: "ustring \<Rightarrow> bool" where
  "is_ascii s \<longleftrightarrow> (\<forall>c\<in>set s. c < 128)"

lemma from_utf8_lossy_ascii: "is_ascii s \<Longrightarrow> from_utf8_lossy (ascii_bytes s) = s"
proof (induction s)
  case (Cons c s)
  then have "c < 128" by (simp add: is_ascii_def)
  then have "(of_nat c :: u8) < 0x80" "unat (of_nat c :: u8) = c"
    by (simp_all add: word_less_nat_alt unat_of_nat)
  with Cons show ?case by (simp add: ascii_bytes_def is_ascii_def)
qed (simp add: ascii_bytes_def)

section \<open>Reasoning about readers\<close>

named_theorems rd_defs "unfolding of the reader combinators"

lemmas [rd_defs] = rd_return_def rd_fail_def rd_seek_def rd_pos_def rd_map_def

text \<open>The word at an offset of the file.\<close>

definition word_at :: "u8 list \<Rightarrow> nat \<Rightarrow> 'a::len word" where
  "word_at d p = le_word (take (LENGTH('a) div 8) (drop p d))"

lemma read_u8_eq: "read_u8 d p = (if p + 1 \<le> length d then Inr (word_at d p, p + 1) else Inl UnexpectedEof)"
  by (simp add: read_u8_def rd_map_def read_exact_def word_at_def)

lemma read_u16_eq: "read_u16 d p = (if p + 2 \<le> length d then Inr (word_at d p, p + 2) else Inl UnexpectedEof)"
  by (simp add: read_u16_def rd_map_def read_exact_def word_at_def)

lemma read_u32_eq: "read_u32 d p = (if p + 4 \<le> length d then Inr (word_at d p, p + 4) else Inl UnexpectedEof)"
  by (simp add: read_u32_def rd_map_def read_exact_def word_at_def)

lemma rd_bind_Inr: "rd_bind r f d p = Inr y \<longleftrightarrow> (\<exists>x p'. r d p = Inr (x, p') \<and> f x d p' = Inr y)"
  by (auto simp: rd_bind_def split: sum.splits)

lemma rd_bind_InrI: "r d p = Inr (x, p') \<Longrightarrow> rd_bind r f d p = f x d p'"
  by (simp add: rd_bind_def)

lemma rd_bind_cong_Inl: "r d p = Inl e \<Longrightarrow> rd_bind r f d p = Inl e"
  by (simp add: rd_bind_def)

lemma read_exact_Inr:
  "read_exact n d p = Inr (bs, p') \<longleftrightarrow>
    (p + n \<le> length d \<or> n = 0) \<and> bs = take n (drop p d) \<and> p' = p + n"
  by (auto simp: read_exact_def)

lemma rd_times_length: "rd_times n r d p = Inr (xs, p') \<Longrightarrow> length xs = n"
  by (induction n arbitrary: p xs p') (auto simp: rd_bind_Inr rd_return_def)

section \<open>Reading moves forward\<close>

text \<open>A reader that consumes at least \<open>k\<close> bytes of the file whenever it succeeds.\<close>

definition consumes :: "nat \<Rightarrow> 'a rd \<Rightarrow> bool" where
  "consumes k r \<longleftrightarrow> (\<forall>d p x p'. r d p = Inr (x, p') \<longrightarrow> p + k \<le> p' \<and> (p < p' \<longrightarrow> p' \<le> length d))"

lemma consumesD: "consumes k r \<Longrightarrow> r d p = Inr (x, p') \<Longrightarrow> p + k \<le> p'"
  by (auto simp: consumes_def)

lemma consumes_bound: "consumes k r \<Longrightarrow> r d p = Inr (x, p') \<Longrightarrow> p < p' \<Longrightarrow> p' \<le> length d"
  by (auto simp: consumes_def)

lemma consumes_mono: "consumes k r \<Longrightarrow> j \<le> k \<Longrightarrow> consumes j r"
  by (fastforce simp: consumes_def)

lemma consumes_bind:
  assumes "consumes j r" "\<And>x. consumes k (f x)"
  shows "consumes (j + k) (rd_bind r f)"
  unfolding consumes_def
proof (intro allI impI)
  fix d p y p'
  assume "rd_bind r f d p = Inr (y, p')"
  then obtain x q where q: "r d p = Inr (x, q)" "f x d q = Inr (y, p')"
    by (auto simp: rd_bind_Inr)
  have 1: "p + j \<le> q" "q + k \<le> p'" using consumesD [OF assms(1) q(1)] consumesD [OF assms(2) q(2)] .
  have "p' \<le> length d" if "p < p'"
  proof (cases "q < p'")
    case True
    then show ?thesis by (rule consumes_bound [OF assms(2) q(2)])
  next
    case False
    with 1 that have "p' = q" "p < q" by auto
    then show ?thesis using consumes_bound [OF assms(1) q(1)] by simp
  qed
  with 1 show "p + (j + k) \<le> p' \<and> (p < p' \<longrightarrow> p' \<le> length d)" by auto
qed

lemma consumes_read: "consumes 1 read_u8" "consumes 2 read_u16" "consumes 4 read_u32"
  by (auto simp: consumes_def read_u8_eq read_u16_eq read_u32_eq split: if_splits)

lemma consumes_exact: "consumes n (read_exact n)"
  by (auto simp: consumes_def read_exact_def split: if_splits)

lemma consumes_return: "consumes 0 (rd_return x)"
  by (auto simp: consumes_def rd_return_def)

lemma consumes_map: "consumes k r \<Longrightarrow> consumes k (rd_map f r)"
  by (auto simp: consumes_def rd_map_def split: sum.splits)

lemma consumes_if: "consumes k a \<Longrightarrow> consumes k b \<Longrightarrow> consumes k (if c then a else b)"
  by simp

lemma consumes_times: "consumes 0 r \<Longrightarrow> consumes 0 (rd_times n r)"
proof (induction n)
  case 0
  then show ?case by (simp add: consumes_return)
next
  case (Suc n)
  have "consumes (0 + (0 + 0)) (rd_times (Suc n) r)"
    unfolding rd_times.simps using Suc by (intro consumes_bind consumes_return) auto
  then show ?case by simp
qed

section \<open>Reading back what was laid out\<close>

text \<open>
  \<open>reads r bs x\<close>: wherever the bytes \<open>bs\<close> stand in a file, the reader started on them returns
  \<open>x\<close> and stops right behind them.
\<close>

definition reads :: "'a rd \<Rightarrow> u8 list \<Rightarrow> 'a \<Rightarrow> bool" where
  "reads r bs x \<longleftrightarrow>
    (\<forall>pre suf. r (pre @ bs @ suf) (length pre) = Inr (x, length pre + length bs))"

lemma readsD: "reads r bs x \<Longrightarrow> r (pre @ bs @ suf) (length pre) = Inr (x, length pre + length bs)"
  by (simp add: reads_def)

lemma reads_return: "reads (rd_return x) [] x"
  by (simp add: reads_def rd_return_def)

lemma reads_return_eq: "x = y \<Longrightarrow> reads (rd_return x) [] y"
  by (simp add: reads_return)

lemma reads_bind:
  assumes "reads r bs x" "reads (f x) cs y"
  shows "reads (rd_bind r f) (bs @ cs) y"
  unfolding reads_def
proof (intro allI)
  fix pre suf
  have "r (pre @ bs @ cs @ suf) (length pre) = Inr (x, length pre + length bs)"
    by (rule readsD [OF assms(1)])
  moreover have "f x (pre @ bs @ cs @ suf) (length pre + length bs) =
      Inr (y, length pre + length bs + length cs)"
    using readsD [OF assms(2), of "pre @ bs" suf] by simp
  ultimately show "rd_bind r f (pre @ (bs @ cs) @ suf) (length pre) =
      Inr (y, length pre + length (bs @ cs))"
    by (simp add: rd_bind_def)
qed

lemma reads_map: "reads r bs x \<Longrightarrow> reads (rd_map f r) bs (f x)"
  by (simp add: reads_def rd_map_def)

lemma reads_exact: "length bs = n \<Longrightarrow> reads (read_exact n) bs bs"
  by (auto simp: reads_def read_exact_def)

lemma reads_u8: "reads read_u8 [v] v"
  using reads_map [OF reads_exact [of "[v]" 1], of "le_word :: u8 list \<Rightarrow> u8"] by (simp add: read_u8_def)

lemma reads_u16: "reads read_u16 (le_bytes 2 v) v"
  using reads_map [OF reads_exact [of "le_bytes 2 v" 2], of "le_word :: u8 list \<Rightarrow> u16"] by (simp add: read_u16_def)

lemma reads_u32: "reads read_u32 (le_bytes 4 v) v"
  using reads_map [OF reads_exact [of "le_bytes 4 v" 4], of "le_word :: u8 list \<Rightarrow> u32"] by (simp add: read_u32_def)

lemmas reads_words = reads_u8 reads_u16 reads_u32

section \<open>Table codecs\<close>

text \<open>
  The interface of a table format: a reader of one entry and the bytes of an entry. A table
  of any number of entries is then read back as it was laid out, wherever it stands.
\<close>

locale codec =
  fixes rd :: "'a rd" and enc :: "'a \<Rightarrow> u8 list" and wf :: "'a \<Rightarrow> bool"
  assumes rd_enc: "wf x \<Longrightarrow> reads rd (enc x) x"
begin

lemma rd_table: "list_all wf xs \<Longrightarrow> reads (rd_times (length xs) rd) (concat (map enc xs)) xs"
proof (induction xs)
  case Nil
  then show ?case by (simp add: reads_return)
next
  case (Cons x xs)
  have "reads (rd_times (length (x # xs)) rd) (enc x @ concat (map enc xs) @ []) (x # xs)"
    using Cons unfolding list.size rd_times.simps add_0_right add_Suc_right
    by (intro reads_bind [OF rd_enc [of x]] reads_bind [where x = xs] reads_return) auto
  then show ?case by simp
qed

end

interpretation u16_codec: codec read_u16 "le_bytes 2" "\<lambda>_. True"
  by unfold_locales (rule reads_u16)

interpretation u32_codec: codec read_u32 "le_bytes 4" "\<lambda>_. True"
  by unfold_locales (rule reads_u32)

end
