(* ===== verification/LX_Format.thy ===== *)
theory LX_Format
  imports Byte_Reader
begin

text \<open>
  The structures of the LX executable format and their readers
  (\<^verbatim>\<open>src/src/lx/header.rs\<close>): the header, the object table, the object page map, the resource
  table and the fixup records. Field names are those of the source behind a prefix per
  structure (\<open>lx_\<close>, \<open>obj_\<close>, \<open>pg_\<close>, \<open>res_\<close>, \<open>fx_\<close>).
\<close>

section \<open>Structures\<close>

record lx_header =
  lx_signature :: "u8 list"
  lx_byte_order :: u8
  lx_word_order :: u8
  lx_format_level :: u32
  lx_cpu_type :: u16
  lx_os_type :: u16
  lx_module_version :: u32
  lx_module_flags :: u32
  lx_module_num_pages :: u32
  lx_eip_object :: u32
  lx_eip :: u32
  lx_esp_object :: u32
  lx_esp :: u32
  lx_page_size :: u32
  lx_page_offset_shift :: u32
  lx_fixup_section_size :: u32
  lx_fixup_section_checksum :: u32
  lx_loader_section_size :: u32
  lx_loader_section_checksum :: u32
  lx_object_table_offset :: u32
  lx_object_count :: u32
  lx_object_page_map_offset :: u32
  lx_object_iter_data_map_offset :: u32
  lx_resource_table_offset :: u32
  lx_resource_count :: u32
  lx_resident_name_table_offset :: u32
  lx_entry_table_offset :: u32
  lx_module_directives_offset :: u32
  lx_module_directives_count :: u32
  lx_fixup_page_table_offset :: u32
  lx_fixup_record_table_offset :: u32
  lx_imported_modules_name_table_offset :: u32
  lx_imported_modules_count :: u32
  lx_import_procedure_name_table_offset :: u32
  lx_per_page_checksum_table_offset :: u32
  lx_data_pages_offset :: u32
  lx_num_preload_pages :: u32
  lx_non_resident_name_table_offset :: u32
  lx_non_resident_name_table_length :: u32
  lx_non_resident_name_table_checksum :: u32
  lx_auto_ds_object :: u32
  lx_debug_info_offset :: u32
  lx_debug_info_length :: u32
  lx_num_instance_preload :: u32
  lx_num_instance_demand :: u32
  lx_heap_size :: u32

record object_table_entry =
  obj_size :: u32
  obj_base_address :: u32
  obj_flags :: u32
  obj_page_map_index :: u32
  obj_page_count :: u32
  obj_reserved :: u32

record object_page_map_entry =
  pg_data_offset :: u32
  pg_data_size :: u16
  pg_flags :: u16

record lx_resource_entry =
  res_type_id :: u16
  res_name_id :: u16
  res_size :: u32
  res_object_num :: u16
  res_offset :: u32

datatype fixup_target =
    Internal u16 u32
  | ExternalOrdinal u16 u32
  | ExternalName u16 u32
  | InternalEntry u16

record lx_fixup_record =
  fx_source_type :: u8
  fx_target_flags :: u8
  fx_source_offsets :: "u16 list"
  fx_target :: fixup_target
  fx_additive :: "u32 option"

section \<open>Readers\<close>

definition read_object_table_entry :: "object_table_entry rd" where
  "read_object_table_entry =
    rd_bind read_u32 (\<lambda>size.
    rd_bind read_u32 (\<lambda>base_address.
    rd_bind read_u32 (\<lambda>flags.
    rd_bind read_u32 (\<lambda>page_map_index.
    rd_bind read_u32 (\<lambda>page_count.
    rd_bind read_u32 (\<lambda>reserved.
    rd_return \<lparr> obj_size = size, obj_base_address = base_address, obj_flags = flags,
      obj_page_map_index = page_map_index, obj_page_count = page_count,
      obj_reserved = reserved \<rparr>))))))"

definition read_object_page_map_entry :: "object_page_map_entry rd" where
  "read_object_page_map_entry =
    rd_bind read_u32 (\<lambda>data_offset.
    rd_bind read_u16 (\<lambda>data_size.
    rd_bind read_u16 (\<lambda>flags.
    rd_return \<lparr> pg_data_offset = data_offset, pg_data_size = data_size, pg_flags = flags \<rparr>)))"

definition read_lx_resource_entry :: "lx_resource_entry rd" where
  "read_lx_resource_entry =
    rd_bind read_u16 (\<lambda>type_id.
    rd_bind read_u16 (\<lambda>name_id.
    rd_bind read_u32 (\<lambda>size.
    rd_bind read_u16 (\<lambda>object_num.
    rd_bind read_u32 (\<lambda>offset.
    rd_return \<lparr> res_type_id = type_id, res_name_id = name_id, res_size = size,
      res_object_num = object_num, res_offset = offset \<rparr>)))))"

text \<open>
  A fixup record is variable-length. The index of its target is 8 or 16 bits wide (flag
  \<^verbatim>\<open>0x40\<close>), its offset 16 or 32 bits (flag \<^verbatim>\<open>0x10\<close>); an ordinal is 8 bits when flag \<^verbatim>\<open>0x80\<close> is
  set; the additive, present under flag \<^verbatim>\<open>0x04\<close>, is 32 bits under flag \<^verbatim>\<open>0x20\<close>.
\<close>

definition read_index :: "u8 \<Rightarrow> u16 rd" where
  "read_index target_flags =
    (if target_flags AND 0x40 \<noteq> 0 then read_u16 else rd_map ucast read_u8)"

definition read_offset :: "u8 \<Rightarrow> u32 rd" where
  "read_offset target_flags =
    (if target_flags AND 0x10 \<noteq> 0 then read_u32 else rd_map ucast read_u16)"

definition read_proc_ordinal :: "u8 \<Rightarrow> u32 rd" where
  "read_proc_ordinal target_flags =
    (if target_flags AND 0x80 \<noteq> 0 then rd_map ucast read_u8 else read_offset target_flags)"

definition read_source_offsets :: "u8 \<Rightarrow> u16 list rd" where
  "read_source_offsets source_type =
    (if source_type AND 0x20 \<noteq> 0
     then rd_bind read_u8 (\<lambda>count. rd_times (unat count) read_u16)
     else rd_map (\<lambda>x. [x]) read_u16)"

definition read_target :: "u8 \<Rightarrow> fixup_target rd" where
  "read_target target_flags =
    (let target_type = target_flags AND 0x03 in
     if target_type = 0 then
       rd_bind (read_index target_flags) (\<lambda>object_num.
       rd_map (Internal object_num) (read_offset target_flags))
     else if target_type = 1 then
       rd_bind (read_index target_flags) (\<lambda>module_ordinal.
       rd_map (ExternalOrdinal module_ordinal) (read_proc_ordinal target_flags))
     else if target_type = 2 then
       rd_bind (read_index target_flags) (\<lambda>module_ordinal.
       rd_map (ExternalName module_ordinal) (read_offset target_flags))
     else
       rd_map InternalEntry (read_index target_flags))"

definition read_additive :: "u8 \<Rightarrow> u32 option rd" where
  "read_additive target_flags =
    (if target_flags AND 0x04 \<noteq> 0 then
       (if target_flags AND 0x20 \<noteq> 0 then rd_map Some read_u32
        else rd_map (\<lambda>x. Some (ucast x)) read_u16)
     else rd_return None)"

definition read_lx_fixup_record :: "lx_fixup_record rd" where
  "read_lx_fixup_record =
    rd_bind read_u8 (\<lambda>source_type.
    rd_bind read_u8 (\<lambda>target_flags.
    rd_bind (read_source_offsets source_type) (\<lambda>source_offsets.
    rd_bind (read_target target_flags) (\<lambda>target.
    rd_bind (read_additive target_flags) (\<lambda>additive.
    rd_return \<lparr> fx_source_type = source_type, fx_target_flags = target_flags,
      fx_source_offsets = source_offsets, fx_target = target, fx_additive = additive \<rparr>)))))"

definition LX_SIGNATURE :: "u8 list" where
  "LX_SIGNATURE = [0x4C, 0x58]"

definition read_lx_header :: "nat \<Rightarrow> lx_header rd" where
  "read_lx_header offset =
    rd_bind (rd_seek offset) (\<lambda>_.
    rd_bind (read_exact 2) (\<lambda>signature.
    if signature \<noteq> LX_SIGNATURE then rd_fail (InvalidData ''Invalid LX signature'') else
    rd_bind read_u8 (\<lambda>byte_order.
    rd_bind read_u8 (\<lambda>word_order.
    rd_bind read_u32 (\<lambda>format_level.
    rd_bind read_u16 (\<lambda>cpu_type.
    rd_bind read_u16 (\<lambda>os_type.
    rd_bind read_u32 (\<lambda>module_version.
    rd_bind read_u32 (\<lambda>module_flags.
    rd_bind read_u32 (\<lambda>module_num_pages.
    rd_bind read_u32 (\<lambda>eip_object.
    rd_bind read_u32 (\<lambda>eip.
    rd_bind read_u32 (\<lambda>esp_object.
    rd_bind read_u32 (\<lambda>esp.
    rd_bind read_u32 (\<lambda>page_size.
    rd_bind read_u32 (\<lambda>page_offset_shift.
    rd_bind read_u32 (\<lambda>fixup_section_size.
    rd_bind read_u32 (\<lambda>fixup_section_checksum.
    rd_bind read_u32 (\<lambda>loader_section_size.
    rd_bind read_u32 (\<lambda>loader_section_checksum.
    rd_bind read_u32 (\<lambda>object_table_offset.
    rd_bind read_u32 (\<lambda>object_count.
    rd_bind read_u32 (\<lambda>object_page_map_offset.
    rd_bind read_u32 (\<lambda>object_iter_data_map_offset.
    rd_bind read_u32 (\<lambda>resource_table_offset.
    rd_bind read_u32 (\<lambda>resource_count.
    rd_bind read_u32 (\<lambda>resident_name_table_offset.
    rd_bind read_u32 (\<lambda>entry_table_offset.
    rd_bind read_u32 (\<lambda>module_directives_offset.
    rd_bind read_u32 (\<lambda>module_directives_count.
    rd_bind read_u32 (\<lambda>fixup_page_table_offset.
    rd_bind read_u32 (\<lambda>fixup_record_table_offset.
    rd_bind read_u32 (\<lambda>imported_modules_name_table_offset.
    rd_bind read_u32 (\<lambda>imported_modules_count.
    rd_bind read_u32 (\<lambda>import_procedure_name_table_offset.
    rd_bind read_u32 (\<lambda>per_page_checksum_table_offset.
    rd_bind read_u32 (\<lambda>data_pages_offset.
    rd_bind read_u32 (\<lambda>num_preload_pages.
    rd_bind read_u32 (\<lambda>non_resident_name_table_offset.
    rd_bind read_u32 (\<lambda>non_resident_name_table_length.
    rd_bind read_u32 (\<lambda>non_resident_name_table_checksum.
    rd_bind read_u32 (\<lambda>auto_ds_object.
    rd_bind read_u32 (\<lambda>debug_info_offset.
    rd_bind read_u32 (\<lambda>debug_info_length.
    rd_bind read_u32 (\<lambda>num_instance_preload.
    rd_bind read_u32 (\<lambda>num_instance_demand.
    rd_bind read_u32 (\<lambda>heap_size.
    rd_return \<lparr> lx_signature = signature,
      lx_byte_order = byte_order,
      lx_word_order = word_order,
      lx_format_level = format_level,
      lx_cpu_type = cpu_type,
      lx_os_type = os_type,
      lx_module_version = module_version,
      lx_module_flags = module_flags,
      lx_module_num_pages = module_num_pages,
      lx_eip_object = eip_object,
      lx_eip = eip,
      lx_esp_object = esp_object,
      lx_esp = esp,
      lx_page_size = page_size,
      lx_page_offset_shift = page_offset_shift,
      lx_fixup_section_size = fixup_section_size,
      lx_fixup_section_checksum = fixup_section_checksum,
      lx_loader_section_size = loader_section_size,
      lx_loader_section_checksum = loader_section_checksum,
      lx_object_table_offset = object_table_offset,
      lx_object_count = object_count,
      lx_object_page_map_offset = object_page_map_offset,
      lx_object_iter_data_map_offset = object_iter_data_map_offset,
      lx_resource_table_offset = resource_table_offset,
      lx_resource_count = resource_count,
      lx_resident_name_table_offset = resident_name_table_offset,
      lx_entry_table_offset = entry_table_offset,
      lx_module_directives_offset = module_directives_offset,
      lx_module_directives_count = module_directives_count,
      lx_fixup_page_table_offset = fixup_page_table_offset,
      lx_fixup_record_table_offset = fixup_record_table_offset,
      lx_imported_modules_name_table_offset = imported_modules_name_table_offset,
      lx_imported_modules_count = imported_modules_count,
      lx_import_procedure_name_table_offset = import_procedure_name_table_offset,
      lx_per_page_checksum_table_offset = per_page_checksum_table_offset,
      lx_data_pages_offset = data_pages_offset,
      lx_num_preload_pages = num_preload_pages,
      lx_non_resident_name_table_offset = non_resident_name_table_offset,
      lx_non_resident_name_table_length = non_resident_name_table_length,
      lx_non_resident_name_table_checksum = non_resident_name_table_checksum,
      lx_auto_ds_object = auto_ds_object,
      lx_debug_info_offset = debug_info_offset,
      lx_debug_info_length = debug_info_length,
      lx_num_instance_preload = num_instance_preload,
      lx_num_instance_demand = num_instance_demand,
      lx_heap_size = heap_size \<rparr>)))))))))))))))))))))))))))))))))))))))))))))))"

section \<open>Layout of the tables\<close>

definition enc_object_table_entry :: "object_table_entry \<Rightarrow> u8 list" where
  "enc_object_table_entry e =
    le_bytes 4 (obj_size e) @ le_bytes 4 (obj_base_address e) @ le_bytes 4 (obj_flags e) @
    le_bytes 4 (obj_page_map_index e) @ le_bytes 4 (obj_page_count e) @
    le_bytes 4 (obj_reserved e)"

definition enc_object_page_map_entry :: "object_page_map_entry \<Rightarrow> u8 list" where
  "enc_object_page_map_entry e =
    le_bytes 4 (pg_data_offset e) @ le_bytes 2 (pg_data_size e) @ le_bytes 2 (pg_flags e)"

definition enc_lx_resource_entry :: "lx_resource_entry \<Rightarrow> u8 list" where
  "enc_lx_resource_entry e =
    le_bytes 2 (res_type_id e) @ le_bytes 2 (res_name_id e) @ le_bytes 4 (res_size e) @
    le_bytes 2 (res_object_num e) @ le_bytes 4 (res_offset e)"

lemma reads_fields:
  "reads (f v) cs y \<Longrightarrow> reads (rd_bind read_u8 f) (v # cs) y"
  "reads (g w) cs y \<Longrightarrow> reads (rd_bind read_u16 g) (le_bytes 2 w @ cs) y"
  "reads (h x) cs y \<Longrightarrow> reads (rd_bind read_u32 h) (le_bytes 4 x @ cs) y"
  using reads_bind [OF reads_u8, of f v cs y] reads_bind [OF reads_u16, of g w cs y]
    reads_bind [OF reads_u32, of h x cs y] by simp_all

interpretation object_codec: codec read_object_table_entry enc_object_table_entry "\<lambda>_. True"
proof
  fix e :: object_table_entry
  have "reads read_object_table_entry (enc_object_table_entry e @ []) e"
    unfolding read_object_table_entry_def enc_object_table_entry_def append_assoc
    by (intro reads_fields reads_return_eq) simp
  then show "reads read_object_table_entry (enc_object_table_entry e) e" by simp
qed

interpretation page_map_codec: codec read_object_page_map_entry enc_object_page_map_entry "\<lambda>_. True"
proof
  fix e :: object_page_map_entry
  have "reads read_object_page_map_entry (enc_object_page_map_entry e @ []) e"
    unfolding read_object_page_map_entry_def enc_object_page_map_entry_def append_assoc
    by (intro reads_fields reads_return_eq) simp
  then show "reads read_object_page_map_entry (enc_object_page_map_entry e) e" by simp
qed

interpretation resource_codec: codec read_lx_resource_entry enc_lx_resource_entry "\<lambda>_. True"
proof
  fix e :: lx_resource_entry
  have "reads read_lx_resource_entry (enc_lx_resource_entry e @ []) e"
    unfolding read_lx_resource_entry_def enc_lx_resource_entry_def append_assoc
    by (intro reads_fields reads_return_eq) simp
  then show "reads read_lx_resource_entry (enc_lx_resource_entry e) e" by simp
qed

section \<open>Layout of a fixup record\<close>

definition enc_index :: "u8 \<Rightarrow> u16 \<Rightarrow> u8 list" where
  "enc_index flags i = (if flags AND 0x40 \<noteq> 0 then le_bytes 2 i else [ucast i])"

definition enc_offset :: "u8 \<Rightarrow> u32 \<Rightarrow> u8 list" where
  "enc_offset flags v = (if flags AND 0x10 \<noteq> 0 then le_bytes 4 v else le_bytes 2 (ucast v :: u16))"

definition enc_proc_ordinal :: "u8 \<Rightarrow> u32 \<Rightarrow> u8 list" where
  "enc_proc_ordinal flags v = (if flags AND 0x80 \<noteq> 0 then [ucast v] else enc_offset flags v)"

definition enc_source_offsets :: "u8 \<Rightarrow> u16 list \<Rightarrow> u8 list" where
  "enc_source_offsets source_type offs =
    (if source_type AND 0x20 \<noteq> 0 then of_nat (length offs) # concat (map (le_bytes 2) offs)
     else le_bytes 2 (hd offs))"

fun enc_target :: "u8 \<Rightarrow> fixup_target \<Rightarrow> u8 list" where
  "enc_target flags (Internal n v) = enc_index flags n @ enc_offset flags v"
| "enc_target flags (ExternalOrdinal n v) = enc_index flags n @ enc_proc_ordinal flags v"
| "enc_target flags (ExternalName n v) = enc_index flags n @ enc_offset flags v"
| "enc_target flags (InternalEntry n) = enc_index flags n"

definition enc_additive :: "u8 \<Rightarrow> u32 option \<Rightarrow> u8 list" where
  "enc_additive flags a =
    (case a of None \<Rightarrow> []
     | Some v \<Rightarrow> if flags AND 0x20 \<noteq> 0 then le_bytes 4 v else le_bytes 2 (ucast v :: u16))"

definition enc_lx_fixup_record :: "lx_fixup_record \<Rightarrow> u8 list" where
  "enc_lx_fixup_record r =
    fx_source_type r # fx_target_flags r #
    enc_source_offsets (fx_source_type r) (fx_source_offsets r) @
    enc_target (fx_target_flags r) (fx_target r) @
    enc_additive (fx_target_flags r) (fx_additive r)"

text \<open>A record is representable when its flags agree with its contents and the contents fit.\<close>

definition index_fits :: "u8 \<Rightarrow> u16 \<Rightarrow> bool" where
  "index_fits flags i \<longleftrightarrow> flags AND 0x40 \<noteq> 0 \<or> unat i < 256"

definition offset_fits :: "u8 \<Rightarrow> u32 \<Rightarrow> bool" where
  "offset_fits flags v \<longleftrightarrow> flags AND 0x10 \<noteq> 0 \<or> unat v < 65536"

fun target_fits :: "u8 \<Rightarrow> fixup_target \<Rightarrow> bool" where
  "target_fits flags (Internal n v) \<longleftrightarrow> flags AND 0x03 = 0 \<and> index_fits flags n \<and> offset_fits flags v"
| "target_fits flags (ExternalOrdinal n v) \<longleftrightarrow> flags AND 0x03 = 1 \<and> index_fits flags n \<and>
     (if flags AND 0x80 \<noteq> 0 then unat v < 256 else offset_fits flags v)"
| "target_fits flags (ExternalName n v) \<longleftrightarrow>
     flags AND 0x03 = 2 \<and> index_fits flags n \<and> offset_fits flags v"
| "target_fits flags (InternalEntry n) \<longleftrightarrow> flags AND 0x03 = 3 \<and> index_fits flags n"

definition fixup_wf :: "lx_fixup_record \<Rightarrow> bool" where
  "fixup_wf r \<longleftrightarrow>
    (if fx_source_type r AND 0x20 \<noteq> 0 then length (fx_source_offsets r) < 256
     else length (fx_source_offsets r) = 1) \<and>
    target_fits (fx_target_flags r) (fx_target r) \<and>
    (case fx_additive r of
       None \<Rightarrow> fx_target_flags r AND 0x04 = 0
     | Some v \<Rightarrow> fx_target_flags r AND 0x04 \<noteq> 0 \<and>
         (fx_target_flags r AND 0x20 \<noteq> 0 \<or> unat v < 65536))"

lemma ucast_ucast_fits:
  "unat (i :: u16) < 256 \<Longrightarrow> ucast (ucast i :: u8) = i"
  "unat (v :: u32) < 256 \<Longrightarrow> ucast (ucast v :: u8) = v"
  "unat (v :: u32) < 65536 \<Longrightarrow> ucast (ucast v :: u16) = v"
  by (simp_all add: word_unat_eq_iff unsigned_ucast_eq unsigned_take_bit_eq take_bit_nat_eq_self)

lemma reads_index: "index_fits flags i \<Longrightarrow> reads (read_index flags) (enc_index flags i) i"
  using reads_map [OF reads_u8, of "ucast :: u8 \<Rightarrow> u16" "ucast i"] reads_u16 [of i]
  by (auto simp: index_fits_def read_index_def enc_index_def ucast_ucast_fits)

lemma reads_offset: "offset_fits flags v \<Longrightarrow> reads (read_offset flags) (enc_offset flags v) v"
  using reads_map [OF reads_u16, of "ucast :: u16 \<Rightarrow> u32" "ucast v"] reads_u32 [of v]
  by (auto simp: offset_fits_def read_offset_def enc_offset_def ucast_ucast_fits)

lemma reads_proc_ordinal:
  "(if flags AND 0x80 \<noteq> 0 then unat v < 256 else offset_fits flags v) \<Longrightarrow>
    reads (read_proc_ordinal flags) (enc_proc_ordinal flags v) v"
  using reads_map [OF reads_u8, of "ucast :: u8 \<Rightarrow> u32" "ucast v"] reads_offset [of flags v]
  by (auto simp: read_proc_ordinal_def enc_proc_ordinal_def ucast_ucast_fits split: if_splits)

lemma reads_target:
  assumes "target_fits flags t"
  shows "reads (read_target flags) (enc_target flags t) t"
  using assms
  by (cases t) (auto simp: read_target_def Let_def
      intro!: reads_bind reads_map reads_index reads_offset reads_proc_ordinal)

lemma reads_source_offsets:
  assumes "if st AND 0x20 \<noteq> 0 then length offs < 256 else length offs = 1"
  shows "reads (read_source_offsets st) (enc_source_offsets st offs) offs"
proof (cases "st AND 0x20 \<noteq> 0")
  case True
  then have "unat (of_nat (length offs) :: u8) = length offs"
    using assms by (simp add: unat_of_nat)
  then have "reads (rd_bind read_u8 (\<lambda>count. rd_times (unat count) read_u16))
      (of_nat (length offs) # concat (map (le_bytes 2) offs)) offs"
    using u16_codec.rd_table [of offs] by (intro reads_fields) (simp add: list_all_iff)
  with True show ?thesis by (simp add: read_source_offsets_def enc_source_offsets_def)
next
  case False
  then obtain o1 where "offs = [o1]" using assms by (auto simp: length_Suc_conv)
  then show ?thesis using False reads_map [OF reads_u16, of "\<lambda>x. [x]" o1]
    by (simp add: read_source_offsets_def enc_source_offsets_def)
qed

lemma reads_additive:
  assumes "case a of None \<Rightarrow> flags AND 0x04 = 0
     | Some v \<Rightarrow> flags AND 0x04 \<noteq> 0 \<and> (flags AND 0x20 \<noteq> 0 \<or> unat v < 65536)"
  shows "reads (read_additive flags) (enc_additive flags a) a"
proof (cases a)
  case None
  with assms show ?thesis by (simp add: read_additive_def enc_additive_def reads_return)
next
  case (Some v)
  with assms show ?thesis
    using reads_map [OF reads_u32, of Some v] reads_map [OF reads_u16, of "\<lambda>x. Some (ucast x :: u32)" "ucast v"]
    by (auto simp: read_additive_def enc_additive_def ucast_ucast_fits)
qed

interpretation fixup_codec: codec read_lx_fixup_record enc_lx_fixup_record fixup_wf
proof
  fix r assume "fixup_wf r"
  then have "reads read_lx_fixup_record (enc_lx_fixup_record r @ []) r"
    unfolding read_lx_fixup_record_def enc_lx_fixup_record_def fixup_wf_def append_assoc append_Cons
    by (intro reads_fields reads_bind [OF reads_source_offsets] reads_bind [OF reads_target]
        reads_bind [OF reads_additive] reads_return_eq) simp_all
  then show "reads read_lx_fixup_record (enc_lx_fixup_record r) r" by simp
qed

section \<open>Layout of the header\<close>

text \<open>The header at file offset \<open>o\<close>, each field at the offset the format documents.\<close>

definition lx_header_at :: "u8 list \<Rightarrow> nat \<Rightarrow> lx_header" where
  "lx_header_at d o1 = \<lparr> lx_signature = take 2 (drop o1 d),
      lx_byte_order = word_at d (o1 + 0x02),
      lx_word_order = word_at d (o1 + 0x03),
      lx_format_level = word_at d (o1 + 0x04),
      lx_cpu_type = word_at d (o1 + 0x08),
      lx_os_type = word_at d (o1 + 0x0A),
      lx_module_version = word_at d (o1 + 0x0C),
      lx_module_flags = word_at d (o1 + 0x10),
      lx_module_num_pages = word_at d (o1 + 0x14),
      lx_eip_object = word_at d (o1 + 0x18),
      lx_eip = word_at d (o1 + 0x1C),
      lx_esp_object = word_at d (o1 + 0x20),
      lx_esp = word_at d (o1 + 0x24),
      lx_page_size = word_at d (o1 + 0x28),
      lx_page_offset_shift = word_at d (o1 + 0x2C),
      lx_fixup_section_size = word_at d (o1 + 0x30),
      lx_fixup_section_checksum = word_at d (o1 + 0x34),
      lx_loader_section_size = word_at d (o1 + 0x38),
      lx_loader_section_checksum = word_at d (o1 + 0x3C),
      lx_object_table_offset = word_at d (o1 + 0x40),
      lx_object_count = word_at d (o1 + 0x44),
      lx_object_page_map_offset = word_at d (o1 + 0x48),
      lx_object_iter_data_map_offset = word_at d (o1 + 0x4C),
      lx_resource_table_offset = word_at d (o1 + 0x50),
      lx_resource_count = word_at d (o1 + 0x54),
      lx_resident_name_table_offset = word_at d (o1 + 0x58),
      lx_entry_table_offset = word_at d (o1 + 0x5C),
      lx_module_directives_offset = word_at d (o1 + 0x60),
      lx_module_directives_count = word_at d (o1 + 0x64),
      lx_fixup_page_table_offset = word_at d (o1 + 0x68),
      lx_fixup_record_table_offset = word_at d (o1 + 0x6C),
      lx_imported_modules_name_table_offset = word_at d (o1 + 0x70),
      lx_imported_modules_count = word_at d (o1 + 0x74),
      lx_import_procedure_name_table_offset = word_at d (o1 + 0x78),
      lx_per_page_checksum_table_offset = word_at d (o1 + 0x7C),
      lx_data_pages_offset = word_at d (o1 + 0x80),
      lx_num_preload_pages = word_at d (o1 + 0x84),
      lx_non_resident_name_table_offset = word_at d (o1 + 0x88),
      lx_non_resident_name_table_length = word_at d (o1 + 0x8C),
      lx_non_resident_name_table_checksum = word_at d (o1 + 0x90),
      lx_auto_ds_object = word_at d (o1 + 0x94),
      lx_debug_info_offset = word_at d (o1 + 0x98),
      lx_debug_info_length = word_at d (o1 + 0x9C),
      lx_num_instance_preload = word_at d (o1 + 0xA0),
      lx_num_instance_demand = word_at d (o1 + 0xA4),
      lx_heap_size = word_at d (o1 + 0xA8) \<rparr>"

section \<open>Progress\<close>

lemma consumes_index: "consumes 1 (read_index flags)"
  unfolding read_index_def
  by (intro consumes_if consumes_map consumes_read consumes_mono [OF consumes_read(2)]) simp

lemma consumes_offset: "consumes 2 (read_offset flags)"
  unfolding read_offset_def
  by (intro consumes_if consumes_map consumes_read consumes_mono [OF consumes_read(3)]) simp

lemma consumes_proc_ordinal: "consumes 1 (read_proc_ordinal flags)"
  unfolding read_proc_ordinal_def
  by (intro consumes_if consumes_map consumes_read consumes_mono [OF consumes_offset]) simp

lemma consumes_source_offsets: "consumes 1 (read_source_offsets st)"
proof -
  have t: "consumes 0 (rd_times n read_u16)" for n
    by (intro consumes_times consumes_mono [OF consumes_read(2)]) simp
  have "consumes (1 + 0) (rd_bind read_u8 (\<lambda>count. rd_times (unat count) read_u16))"
    by (intro consumes_bind consumes_read t)
  then show ?thesis
    using consumes_mono [OF consumes_map [OF consumes_read(2)], of 1 "\<lambda>x. [x]"]
    by (simp add: read_source_offsets_def)
qed

lemma consumes_target: "consumes 1 (read_target flags)"
proof -
  have b: "consumes 1 (rd_bind (read_index flags) (\<lambda>n. rd_map (f n) r))"
    if "consumes 1 r" for f :: "u16 \<Rightarrow> u32 \<Rightarrow> fixup_target" and r
    using consumes_bind [OF consumes_index, of 1 "\<lambda>n. rd_map (f n) r" flags] that
    by (auto intro: consumes_mono consumes_map)
  show ?thesis unfolding read_target_def Let_def
    by (intro consumes_if b consumes_map consumes_index consumes_proc_ordinal
        consumes_mono [OF consumes_offset, of 1]) simp_all
qed

lemma consumes_additive: "consumes 0 (read_additive flags)"
  unfolding read_additive_def
  by (intro consumes_if consumes_return consumes_map consumes_mono [OF consumes_read(2)]
      consumes_mono [OF consumes_read(3)]) simp_all

lemma consumes_fixup_record: "consumes 4 read_lx_fixup_record"
proof -
  have "consumes (1 + (1 + (1 + (1 + (0 + 0))))) read_lx_fixup_record"
    unfolding read_lx_fixup_record_def
    by (intro consumes_bind consumes_read consumes_source_offsets consumes_target
        consumes_additive consumes_return)
  then show ?thesis by (simp add: eval_nat_numeral)
qed

section \<open>Properties\<close>

text \<open>
  The header reader takes every field from the file offset the format documents for it
  (\<^verbatim>\<open>00h\<close> to \<^verbatim>\<open>A8h\<close>), consumes exactly \<^verbatim>\<open>0xAC\<close> bytes, rejects a wrong signature as invalid data
  and a header cut short as an unexpected end of file, and does nothing else.
\<close>

theorem lx_header_layout:
  "read_lx_header o1 d p =
    (if length d < o1 + 2 then Inl UnexpectedEof
     else if take 2 (drop o1 d) \<noteq> LX_SIGNATURE then Inl (InvalidData ''Invalid LX signature'')
     else if length d < o1 + 0xAC then Inl UnexpectedEof
     else Inr (lx_header_at d o1, o1 + 0xAC))"
proof -
  consider "length d < o1 + 2" | "o1 + 2 \<le> length d" "length d < o1 + 0xAC" | "o1 + 0xAC \<le> length d"
    by linarith
  then show ?thesis
  proof cases
    case 1
    then show ?thesis
      by (simp add: read_lx_header_def rd_bind_def rd_seek_def read_exact_def)
  next
    case 2
    then show ?thesis
      by (simp add: read_lx_header_def rd_bind_def rd_seek_def read_exact_def rd_fail_def
          read_u32_eq read_u16_eq read_u8_eq not_le)
  next
    case 3
    then show ?thesis
      by (simp add: read_lx_header_def rd_bind_def rd_seek_def read_exact_def rd_fail_def
          read_u32_eq read_u16_eq read_u8_eq rd_return_def lx_header_at_def)
        (simp add: add.commute [of _ o1] eval_nat_numeral)
  qed
qed

text \<open>
  Fixup records round-trip: any sequence of representable records (every combination of
  target kind, index, offset, ordinal and additive width), laid out one after the other
  anywhere in a file, is read back exactly, and the reader stops behind the last.
\<close>

theorem lx_fixup_roundtrip:
  assumes "list_all fixup_wf rs"
  shows "rd_times (length rs) read_lx_fixup_record
      (pre @ concat (map enc_lx_fixup_record rs) @ suf) (length pre) =
    Inr (rs, length pre + length (concat (map enc_lx_fixup_record rs)))"
  using readsD [OF fixup_codec.rd_table [OF assms]] .

definition example_fixup :: lx_fixup_record where
  "example_fixup = \<lparr> fx_source_type = 0x27, fx_target_flags = 0x94, fx_source_offsets = [4, 0x120],
     fx_target = Internal 2 0x12345, fx_additive = Some 7 \<rparr>"

text \<open>A source-list record with a 32-bit offset and a 16-bit additive between other bytes.\<close>

theorem lx_fixup_roundtrip_witness:
  "rd_times (length [example_fixup]) read_lx_fixup_record ([9, 9] @ enc_lx_fixup_record example_fixup @ [1]) (length [9 :: u8, 9]) =
    Inr ([example_fixup], length [9 :: u8, 9] + length (enc_lx_fixup_record example_fixup))"
proof -
  have "list_all fixup_wf [example_fixup]"
    by (simp add: fixup_wf_def example_fixup_def index_fits_def offset_fits_def)
  from lx_fixup_roundtrip [OF this, of "[9, 9]" "[1]"] show ?thesis by simp
qed

end
