(* ===== verification/LX_Parser.thy ===== *)
theory LX_Parser
  imports LX_Format
begin

text \<open>
  The LX file parser (\<^verbatim>\<open>src/src/lx.rs\<close>): \<^verbatim>\<open>LxFile::parse\<close> with its eleven steps, one definition
  per step, and \<^verbatim>\<open>get_proc_name\<close>. The bundle loop of the entry table, the loop over the names
  of the non-resident table and the loop over the fixup records of a page are recursive
  functions whose termination rests on every iteration consuming input. Opening a file
  (\<^verbatim>\<open>open\<close>) is plain I/O in front of \<^verbatim>\<open>parse\<close> and is not modelled.
\<close>

section \<open>Data\<close>

record lx_export =
  exp_ordinal :: u32
  exp_object_num :: u16
  exp_offset :: u32

record lx_file =
  lxf_header :: lx_header
  lxf_object_table :: "object_table_entry list"
  lxf_page_map :: "object_page_map_entry list"
  lxf_fixup_page_table :: "u32 list"
  lxf_fixup_records_by_page :: "lx_fixup_record list list"
  lxf_resources :: "lx_resource_entry list"
  lxf_imported_modules :: "ustring list"
  lxf_import_procedure_names :: "u8 list"
  lxf_exports :: "lx_export list"
  lxf_nonresident_names :: "(u32 \<times> ustring) list"

definition MAX_OBJECTS :: u32 where "MAX_OBJECTS = 1024"
definition MAX_PAGES :: u32 where "MAX_PAGES = 65536"
definition MAX_RESOURCES :: u32 where "MAX_RESOURCES = 4096"

section \<open>The steps of the parser\<close>

definition read_mz_header :: "nat rd" where
  "read_mz_header =
    rd_bind (read_exact 64) (\<lambda>mz_header.
    if take 2 mz_header \<noteq> [0x4D, 0x5A] then rd_fail (InvalidData ''Invalid MZ signature'')
    else rd_return (unat (le_word (take 4 (drop 0x3C mz_header)) :: u32)))"

definition validate_header :: "lx_header \<Rightarrow> unit rd" where
  "validate_header h =
    (if MAX_OBJECTS < lx_object_count h then rd_fail (InvalidData ''Object count exceeds maximum'')
     else if MAX_PAGES < lx_module_num_pages h then rd_fail (InvalidData ''Page count exceeds maximum'')
     else if 32 \<le> lx_page_offset_shift h then rd_fail (InvalidData ''Invalid page_offset_shift'')
     else if 0 < lx_eip_object h \<and> lx_object_count h < lx_eip_object h
       then rd_fail (InvalidData ''eip_object exceeds object_count'')
     else if 0 < lx_esp_object h \<and> lx_object_count h < lx_esp_object h
       then rd_fail (InvalidData ''esp_object exceeds object_count'')
     else rd_return ())"

definition read_object_table :: "nat \<Rightarrow> lx_header \<Rightarrow> object_table_entry list rd" where
  "read_object_table lx_offset h =
    rd_bind (rd_seek (lx_offset + unat (lx_object_table_offset h))) (\<lambda>_.
    rd_times (unat (lx_object_count h)) read_object_table_entry)"

definition read_page_map :: "nat \<Rightarrow> lx_header \<Rightarrow> object_page_map_entry list rd" where
  "read_page_map lx_offset h =
    rd_bind (rd_seek (lx_offset + unat (lx_object_page_map_offset h))) (\<lambda>_.
    rd_times (unat (lx_module_num_pages h)) read_object_page_map_entry)"

definition read_resources :: "nat \<Rightarrow> lx_header \<Rightarrow> lx_resource_entry list rd" where
  "read_resources lx_offset h =
    (if MAX_RESOURCES < lx_resource_count h
       then rd_fail (InvalidData ''Resource count exceeds maximum'')
     else if 0 < lx_resource_count h \<and> 0 < lx_resource_table_offset h
       then rd_bind (rd_seek (lx_offset + unat (lx_resource_table_offset h))) (\<lambda>_.
            rd_times (unat (lx_resource_count h)) read_lx_resource_entry)
     else rd_return [])"

definition read_fixup_page_table :: "nat \<Rightarrow> lx_header \<Rightarrow> u32 list rd" where
  "read_fixup_page_table lx_offset h =
    rd_bind (rd_seek (lx_offset + unat (lx_fixup_page_table_offset h))) (\<lambda>_.
    rd_times (unat (lx_module_num_pages h + 1)) read_u32)"

function read_page_records :: "nat \<Rightarrow> lx_fixup_record list rd" where
  "read_page_records e d p =
    (if p < e then
       (case read_lx_fixup_record d p of
          Inl err \<Rightarrow> Inl err
        | Inr (r, p') \<Rightarrow>
            (case read_page_records e d p' of
               Inl err \<Rightarrow> Inl err
             | Inr (rs, q) \<Rightarrow> Inr (r # rs, q)))
     else Inr ([], p))"
  by pat_completeness auto
termination
  by (relation "measure (\<lambda>(e, d, p). e - p)") (auto dest!: consumesD [OF consumes_fixup_record])

declare read_page_records.simps [simp del]

definition read_fixup_page :: "nat \<Rightarrow> u32 \<Rightarrow> u32 \<Rightarrow> lx_fixup_record list rd" where
  "read_fixup_page fixup_record_table_start start_offset end_offset =
    (if start_offset < end_offset then
       rd_bind (rd_seek (fixup_record_table_start + unat start_offset)) (\<lambda>_.
       read_page_records (fixup_record_table_start + unat end_offset))
     else rd_return [])"

fun read_fixup_pages :: "nat \<Rightarrow> u32 list \<Rightarrow> lx_fixup_record list list rd" where
  "read_fixup_pages start (a # b # table) =
    rd_bind (read_fixup_page start a b) (\<lambda>page_records.
    rd_bind (read_fixup_pages start (b # table)) (\<lambda>pages.
    rd_return (page_records # pages)))"
| "read_fixup_pages start _ = rd_return []"

definition read_pstring :: "ustring rd" where
  "read_pstring =
    rd_bind read_u8 (\<lambda>len.
    rd_map from_utf8_lossy (read_exact (unat len)))"

definition read_imported_modules :: "nat \<Rightarrow> lx_header \<Rightarrow> ustring list rd" where
  "read_imported_modules lx_offset h =
    rd_bind (rd_seek (lx_offset + unat (lx_imported_modules_name_table_offset h))) (\<lambda>_.
    rd_times (unat (lx_imported_modules_count h)) read_pstring)"

definition read_import_procedure_names :: "nat \<Rightarrow> lx_header \<Rightarrow> u8 list rd" where
  "read_import_procedure_names lx_offset h =
    (if 0 < lx_import_procedure_name_table_offset h then
       (let start = lx_offset + unat (lx_import_procedure_name_table_offset h);
            remaining = (lx_offset + unat (lx_loader_section_size h)) - start in
        rd_bind (rd_seek start) (\<lambda>_.
        if 0 < remaining then read_exact remaining else rd_return []))
     else rd_return [])"

text \<open>The entries of one 32-bit bundle: flags (ignored) and offset, consecutive ordinals.\<close>

primrec read_entry32 :: "nat \<Rightarrow> u32 \<Rightarrow> u16 \<Rightarrow> lx_export list rd" where
  "read_entry32 0 ordinal object_num = rd_return []"
| "read_entry32 (Suc n) ordinal object_num =
    rd_bind (read_exact 5) (\<lambda>entry_buf.
    rd_bind (read_entry32 n (ordinal + 1) object_num) (\<lambda>rest.
    rd_return (\<lparr> exp_ordinal = ordinal, exp_object_num = object_num,
      exp_offset = le_word (drop 1 entry_buf) \<rparr> # rest)))"

text \<open>
  The body of one bundle after its count and type: its exports, or \<open>None\<close> for the unknown
  types on which the loop stops.
\<close>

definition read_bundle :: "u8 \<Rightarrow> u8 \<Rightarrow> u32 \<Rightarrow> lx_export list option rd" where
  "read_bundle bundle_type count ordinal =
    (if bundle_type = 0 then rd_return (Some [])
     else if bundle_type = 3 then
       rd_bind read_u16 (\<lambda>object_num. rd_map Some (read_entry32 (unat count) ordinal object_num))
     else if bundle_type = 1 then
       rd_map (\<lambda>_. Some []) (rd_times (unat count) (read_exact 3))
     else if bundle_type = 2 then
       rd_map (\<lambda>_. Some []) (rd_times (unat count) (read_exact 5))
     else rd_return None)"

lemma consumes_entry32: "consumes 0 (read_entry32 n ordinal object_num)"
proof (induction n arbitrary: ordinal)
  case (Suc n)
  have "consumes (0 + (0 + 0)) (read_entry32 (Suc n) ordinal object_num)"
    unfolding read_entry32.simps
    by (intro consumes_bind consumes_return consumes_mono [OF consumes_exact] Suc) simp
  then show ?case by simp
qed (simp add: consumes_return)

lemma consumes_bundle: "consumes 0 (read_bundle bundle_type count ordinal)"
proof -
  have "consumes (0 + 0) (rd_bind read_u16 (\<lambda>n. rd_map Some (read_entry32 (unat count) ordinal n)))"
    by (intro consumes_bind consumes_map consumes_entry32 consumes_mono [OF consumes_read(2)]) simp
  then show ?thesis unfolding read_bundle_def
    by (intro consumes_if consumes_return consumes_map consumes_times
        consumes_mono [OF consumes_exact]) simp_all
qed

function entry_loop :: "u32 \<Rightarrow> lx_export list rd" where
  "entry_loop ordinal d p =
    (case read_u8 d p of
       Inl _ \<Rightarrow> Inr ([], p)
     | Inr (count, p1) \<Rightarrow>
         if count = 0 then Inr ([], p1)
         else
           (case read_u8 d p1 of
              Inl err \<Rightarrow> Inl err
            | Inr (bundle_type, p2) \<Rightarrow>
                (case read_bundle bundle_type count ordinal d p2 of
                   Inl err \<Rightarrow> Inl err
                 | Inr (None, p3) \<Rightarrow> Inr ([], p3)
                 | Inr (Some xs, p3) \<Rightarrow>
                     (case entry_loop (ordinal + ucast count) d p3 of
                        Inl err \<Rightarrow> Inl err
                      | Inr (ys, q) \<Rightarrow> Inr (xs @ ys, q)))))"
  by pat_completeness auto
termination
  by (relation "measure (\<lambda>(ordinal, d, p). length d - p)")
    (auto simp: read_u8_eq split: if_splits dest!: consumesD [OF consumes_bundle])

declare entry_loop.simps [simp del]

definition read_entry_table :: "nat \<Rightarrow> lx_header \<Rightarrow> lx_export list rd" where
  "read_entry_table lx_offset h =
    (if 0 < lx_entry_table_offset h then
       rd_bind (rd_seek (lx_offset + unat (lx_entry_table_offset h))) (\<lambda>_. entry_loop 1)
     else rd_return [])"

function names_loop :: "(u32 \<times> ustring) list rd" where
  "names_loop d p =
    (case read_u8 d p of
       Inl _ \<Rightarrow> Inr ([], p)
     | Inr (len, p1) \<Rightarrow>
         if len = 0 then Inr ([], p1)
         else
           (case read_exact (unat len) d p1 of
              Inl err \<Rightarrow> Inl err
            | Inr (name_buf, p2) \<Rightarrow>
                (case read_u16 d p2 of
                   Inl err \<Rightarrow> Inl err
                 | Inr (ordinal, p3) \<Rightarrow>
                     (case names_loop d p3 of
                        Inl err \<Rightarrow> Inl err
                      | Inr (ns, q) \<Rightarrow> Inr ((ucast ordinal, from_utf8_lossy name_buf) # ns, q)))))"
  by pat_completeness auto
termination
  by (relation "measure (\<lambda>(d, p). length d - p)")
    (auto simp: read_u8_eq read_u16_eq read_exact_def split: if_splits)

declare names_loop.simps [simp del]

definition read_nonresident_names :: "lx_header \<Rightarrow> (u32 \<times> ustring) list rd" where
  "read_nonresident_names h =
    (if 0 < lx_non_resident_name_table_offset h \<and> 0 < lx_non_resident_name_table_length h then
       rd_bind (rd_seek (unat (lx_non_resident_name_table_offset h))) (\<lambda>_. names_loop)
     else rd_return [])"

definition lx_parse :: "lx_file rd" where
  "lx_parse =
    rd_bind read_mz_header (\<lambda>lx_offset.
    rd_bind (read_lx_header lx_offset) (\<lambda>header.
    rd_bind (validate_header header) (\<lambda>_.
    rd_bind (read_object_table lx_offset header) (\<lambda>object_table.
    rd_bind (read_page_map lx_offset header) (\<lambda>page_map.
    rd_bind (read_resources lx_offset header) (\<lambda>resources.
    rd_bind (read_fixup_page_table lx_offset header) (\<lambda>fixup_page_table.
    rd_bind (read_fixup_pages (lx_offset + unat (lx_fixup_record_table_offset header))
      fixup_page_table) (\<lambda>fixup_records_by_page.
    rd_bind (read_imported_modules lx_offset header) (\<lambda>imported_modules.
    rd_bind (read_import_procedure_names lx_offset header) (\<lambda>import_procedure_names.
    rd_bind (read_entry_table lx_offset header) (\<lambda>exports.
    rd_bind (read_nonresident_names header) (\<lambda>nonresident_names.
    rd_return \<lparr> lxf_header = header, lxf_object_table = object_table, lxf_page_map = page_map,
      lxf_fixup_page_table = fixup_page_table,
      lxf_fixup_records_by_page = fixup_records_by_page, lxf_resources = resources,
      lxf_imported_modules = imported_modules,
      lxf_import_procedure_names = import_procedure_names, lxf_exports = exports,
      lxf_nonresident_names = nonresident_names \<rparr>))))))))))))"

definition get_proc_name :: "lx_file \<Rightarrow> u32 \<Rightarrow> ustring option" where
  "get_proc_name f offset0 =
    (let offset = unat offset0; names = lxf_import_procedure_names f in
     if length names \<le> offset then None
     else let len = unat (names ! offset) in
       if length names < offset + 1 + len then None
       else Some (from_utf8_lossy (take len (drop (offset + 1) names))))"

section \<open>Layout of the variable-length tables\<close>

lemma enc_fixup_nonempty: "0 < length (enc_lx_fixup_record r)"
  by (simp add: enc_lx_fixup_record_def)

lemma read_page_records_layout:
  assumes "list_all fixup_wf rs"
  shows "read_page_records (length pre + length (concat (map enc_lx_fixup_record rs)))
      (pre @ concat (map enc_lx_fixup_record rs) @ suf) (length pre) =
    Inr (rs, length pre + length (concat (map enc_lx_fixup_record rs)))"
  using assms
proof (induction rs arbitrary: pre)
  case Nil
  then show ?case by (simp add: read_page_records.simps)
next
  case (Cons r rs)
  let ?d = "pre @ concat (map enc_lx_fixup_record (r # rs)) @ suf"
  let ?e = "length pre + length (concat (map enc_lx_fixup_record (r # rs)))"
  have "reads read_lx_fixup_record (enc_lx_fixup_record r) r"
    using Cons.prems by (intro fixup_codec.rd_enc) simp
  from readsD [OF this, of pre "concat (map enc_lx_fixup_record rs) @ suf"]
  have 1: "read_lx_fixup_record ?d (length pre) = Inr (r, length pre + length (enc_lx_fixup_record r))"
    by simp
  have 2: "read_page_records ?e ?d (length pre + length (enc_lx_fixup_record r)) = Inr (rs, ?e)"
    using Cons.IH [of "pre @ enc_lx_fixup_record r"] Cons.prems by (simp add: add.assoc)
  have 3: "length pre < ?e" using enc_fixup_nonempty [of r] by simp
  show ?case by (subst read_page_records.simps) (simp only: 1 2 3 if_True sum.case prod.case)
qed

definition enc_pstring :: "ustring \<Rightarrow> u8 list" where
  "enc_pstring s = of_nat (length s) # ascii_bytes s"

definition pstring_wf :: "ustring \<Rightarrow> bool" where
  "pstring_wf s \<longleftrightarrow> is_ascii s \<and> length s < 256"

lemma unat_length_u8: "n < 256 \<Longrightarrow> unat (of_nat n :: u8) = n"
  by (simp add: unat_of_nat)

lemma length_ascii_bytes [simp]: "length (ascii_bytes s) = length s"
  by (simp add: ascii_bytes_def)

lemma reads_ascii: "is_ascii s \<Longrightarrow> n = length s \<Longrightarrow>
    reads (rd_map from_utf8_lossy (read_exact n)) (ascii_bytes s) s"
  using reads_map [OF reads_exact, of "ascii_bytes s" n from_utf8_lossy]
  by (simp add: from_utf8_lossy_ascii)

interpretation pstring_codec: codec read_pstring enc_pstring pstring_wf
  by unfold_locales
    (auto simp: read_pstring_def enc_pstring_def pstring_wf_def unat_length_u8
      intro!: reads_fields reads_ascii)

text \<open>Entry-table bundles: their bytes, the ordinals they take and the exports they stand for.\<close>

datatype lx_bundle =
    EmptyBundle u8
  | Entry32 u16 "(u8 \<times> u32) list"
  | Entry16 "u8 list list"
  | CallGate "u8 list list"

fun bundle_count :: "lx_bundle \<Rightarrow> nat" where
  "bundle_count (EmptyBundle n) = unat n"
| "bundle_count (Entry32 obj es) = length es"
| "bundle_count (Entry16 es) = length es"
| "bundle_count (CallGate es) = length es"

fun bundle_wf :: "lx_bundle \<Rightarrow> bool" where
  "bundle_wf (EmptyBundle n) \<longleftrightarrow> n \<noteq> 0"
| "bundle_wf (Entry32 obj es) \<longleftrightarrow> es \<noteq> [] \<and> length es < 256"
| "bundle_wf (Entry16 es) \<longleftrightarrow> es \<noteq> [] \<and> length es < 256 \<and> list_all (\<lambda>e. length e = 3) es"
| "bundle_wf (CallGate es) \<longleftrightarrow> es \<noteq> [] \<and> length es < 256 \<and> list_all (\<lambda>e. length e = 5) es"

fun enc_bundle :: "lx_bundle \<Rightarrow> u8 list" where
  "enc_bundle (EmptyBundle n) = [n, 0]"
| "enc_bundle (Entry32 obj es) = of_nat (length es) # 3 # le_bytes 2 obj @
    concat (map (\<lambda>(flags, off). flags # le_bytes 4 off) es)"
| "enc_bundle (Entry16 es) = of_nat (length es) # 1 # concat es"
| "enc_bundle (CallGate es) = of_nat (length es) # 2 # concat es"

primrec entry32_exports :: "u32 \<Rightarrow> u16 \<Rightarrow> (u8 \<times> u32) list \<Rightarrow> lx_export list" where
  "entry32_exports ordinal obj [] = []"
| "entry32_exports ordinal obj (e # es) =
    \<lparr> exp_ordinal = ordinal, exp_object_num = obj, exp_offset = snd e \<rparr> #
    entry32_exports (ordinal + 1) obj es"

fun bundle_exports :: "u32 \<Rightarrow> lx_bundle \<Rightarrow> lx_export list" where
  "bundle_exports ordinal (Entry32 obj es) = entry32_exports ordinal obj es"
| "bundle_exports ordinal _ = []"

primrec bundles_exports :: "u32 \<Rightarrow> lx_bundle list \<Rightarrow> lx_export list" where
  "bundles_exports ordinal [] = []"
| "bundles_exports ordinal (b # bs) =
    bundle_exports ordinal b @ bundles_exports (ordinal + of_nat (bundle_count b)) bs"

lemma reads_entry32:
  "reads (read_entry32 (length es) ordinal obj)
    (concat (map (\<lambda>(flags, off). flags # le_bytes 4 off) es)) (entry32_exports ordinal obj es)"
proof (induction es arbitrary: ordinal)
  case Nil
  then show ?case by (simp add: reads_return)
next
  case (Cons e es)
  obtain flags off where e: "e = (flags, off)" by fastforce
  have "reads (read_entry32 (length (e # es)) ordinal obj)
      ((flags # le_bytes 4 off) @ concat (map (\<lambda>(flags, off). flags # le_bytes 4 off) es) @ [])
      (entry32_exports ordinal obj (e # es))"
    unfolding list.size add_0_right add_Suc_right read_entry32.simps
    by (intro reads_bind [OF reads_exact] reads_bind [OF Cons] reads_return_eq) (simp_all add: e)
  then show ?case by (simp add: e)
qed

lemma reads_skip:
  "list_all (\<lambda>e. length e = k) es \<Longrightarrow> reads (rd_times (length es) (read_exact k)) (concat es) es"
proof (induction es)
  case Nil
  then show ?case by (simp add: reads_return)
next
  case (Cons e es)
  have "reads (rd_times (length (e # es)) (read_exact k)) (e @ concat es @ []) (e # es)"
    unfolding list.size add_0_right add_Suc_right rd_times.simps using Cons
    by (intro reads_bind [OF reads_exact] reads_bind [where x = es] reads_return_eq) simp_all
  then show ?case by simp
qed

text \<open>The type and body bytes of a bundle, behind its count byte.\<close>

lemma reads_bundle:
  assumes "bundle_wf b"
  obtains count ty body where "enc_bundle b = count # ty # body" "count \<noteq> 0"
    "unat count = bundle_count b"
    "\<And>ordinal. reads (read_bundle ty count ordinal) body (Some (bundle_exports ordinal b))"
proof (cases b)
  case (EmptyBundle n)
  then show ?thesis using assms
    by (intro that [of n 0 "[]"]) (auto simp: read_bundle_def reads_return)
next
  case (Entry32 obj es)
  then have l: "unat (of_nat (length es) :: u8) = length es" "0 < length es"
    using assms by (auto simp: unat_length_u8)
  moreover have "reads (read_bundle 3 (of_nat (length es)) ordinal)
      (le_bytes 2 obj @ concat (map (\<lambda>(flags, off). flags # le_bytes 4 off) es))
      (Some (bundle_exports ordinal b))" for ordinal
    using reads_map [OF reads_entry32, of Some es ordinal obj] l Entry32
    by (auto simp: read_bundle_def intro!: reads_fields)
  ultimately show ?thesis using Entry32
    by (intro that [of "of_nat (length es)" 3]) (auto simp: word_unat_eq_iff)
next
  case (Entry16 es)
  then have l: "unat (of_nat (length es) :: u8) = length es" "0 < length es"
    using assms by (auto simp: unat_length_u8)
  then show ?thesis using Entry16 assms reads_map [OF reads_skip, of 3 es "\<lambda>_. Some []"]
    by (intro that [of "of_nat (length es)" 1 "concat es"])
      (auto simp: word_unat_eq_iff read_bundle_def)
next
  case (CallGate es)
  then have l: "unat (of_nat (length es) :: u8) = length es" "0 < length es"
    using assms by (auto simp: unat_length_u8)
  then show ?thesis using CallGate assms reads_map [OF reads_skip, of 5 es "\<lambda>_. Some []"]
    by (intro that [of "of_nat (length es)" 2 "concat es"])
      (auto simp: word_unat_eq_iff read_bundle_def)
qed

lemma entry_loop_bind: "entry_loop ordinal =
    (\<lambda>d p. case read_u8 d p of Inl _ \<Rightarrow> Inr ([], p)
     | Inr (count, p1) \<Rightarrow> (if count = 0 then rd_return [] else
         rd_bind read_u8 (\<lambda>ty. rd_bind (read_bundle ty count ordinal) (\<lambda>xs. case xs of
           None \<Rightarrow> rd_return []
         | Some xs \<Rightarrow> rd_map (\<lambda>ys. xs @ ys) (entry_loop (ordinal + ucast count))))) d p1)"
  by (intro ext, subst entry_loop.simps)
    (auto simp: rd_bind_def rd_map_def rd_return_def split: sum.splits option.splits)

lemma reads_opt_u8:
  assumes "reads (f v) cs y"
  shows "reads (\<lambda>d p. case read_u8 d p of Inl _ \<Rightarrow> g d p | Inr (x, p1) \<Rightarrow> f x d p1) (v # cs) y"
  unfolding reads_def
proof (intro allI)
  fix pre suf
  have "read_u8 (pre @ [v] @ cs @ suf) (length pre) = Inr (v, length pre + length [v])"
    by (rule readsD [OF reads_u8])
  moreover have "f v ((pre @ [v]) @ cs @ suf) (length (pre @ [v])) = Inr (y, length (pre @ [v]) + length cs)"
    by (rule readsD [OF assms])
  ultimately show "(case read_u8 (pre @ (v # cs) @ suf) (length pre) of
      Inl _ \<Rightarrow> g (pre @ (v # cs) @ suf) (length pre)
    | Inr (x, p1) \<Rightarrow> f x (pre @ (v # cs) @ suf) p1) = Inr (y, length pre + length (v # cs))"
    by simp
qed

lemma reads_entry_loop:
  "list_all bundle_wf bs \<Longrightarrow>
    reads (entry_loop ordinal) (concat (map enc_bundle bs) @ [0]) (bundles_exports ordinal bs)"
proof (induction bs arbitrary: ordinal)
  case Nil
  show ?case by (subst entry_loop_bind) (auto intro!: reads_opt_u8 simp: reads_return)
next
  case (Cons b bs)
  from Cons.prems have "bundle_wf b" by simp
  then obtain count ty body where b: "enc_bundle b = count # ty # body" "count \<noteq> 0"
      "unat count = bundle_count b"
      "\<And>ordinal. reads (read_bundle ty count ordinal) body (Some (bundle_exports ordinal b))"
    by (rule reads_bundle) blast
  have c: "ucast count = (of_nat (bundle_count b) :: u32)"
    by (simp add: b(3) [symmetric])
  have "reads (entry_loop ordinal) (count # ty # body @ (concat (map enc_bundle bs) @ [0]))
      (bundles_exports ordinal (b # bs))"
    using Cons.IH [of "ordinal + ucast count"] Cons.prems b(2) c
    by (subst entry_loop_bind)
      (auto intro!: reads_opt_u8 reads_fields reads_bind [OF b(4)] reads_map)
  then show ?case by (simp add: b(1))
qed

text \<open>Entries of the non-resident name table.\<close>

definition enc_name :: "u16 \<times> ustring \<Rightarrow> u8 list" where
  "enc_name n = enc_pstring (snd n) @ le_bytes 2 (fst n)"

definition name_wf :: "u16 \<times> ustring \<Rightarrow> bool" where
  "name_wf n \<longleftrightarrow> pstring_wf (snd n) \<and> snd n \<noteq> []"

definition name_value :: "u16 \<times> ustring \<Rightarrow> u32 \<times> ustring" where
  "name_value n = (ucast (fst n), snd n)"

lemma names_loop_bind: "names_loop =
    (\<lambda>d p. case read_u8 d p of Inl _ \<Rightarrow> Inr ([], p)
     | Inr (len, p1) \<Rightarrow> (if len = 0 then rd_return [] else
         rd_bind (rd_map from_utf8_lossy (read_exact (unat len))) (\<lambda>name. rd_bind read_u16 (\<lambda>ordinal.
           rd_map (\<lambda>ns. (ucast ordinal, name) # ns) names_loop))) d p1)"
  by (intro ext, subst names_loop.simps)
    (auto simp: rd_bind_def rd_map_def rd_return_def split: sum.splits)

lemma reads_names_loop:
  "list_all name_wf ns \<Longrightarrow> reads names_loop (concat (map enc_name ns) @ [0]) (map name_value ns)"
proof (induction ns)
  case Nil
  show ?case by (subst names_loop_bind) (auto intro!: reads_opt_u8 simp: reads_return)
next
  case (Cons n ns)
  then have w: "is_ascii (snd n)" "length (snd n) < 256" "0 < length (snd n)"
    by (auto simp: name_wf_def pstring_wf_def)
  then have l: "unat (of_nat (length (snd n)) :: u8) = length (snd n)"
    by (simp add: unat_length_u8)
  have nz: "(of_nat (length (snd n)) :: u8) \<noteq> 0"
    using l w(3) by (auto simp: word_unat_eq_iff)
  have "reads names_loop (of_nat (length (snd n)) # ascii_bytes (snd n) @ le_bytes 2 (fst n) @
      (concat (map enc_name ns) @ [0])) (map name_value (n # ns))"
    using Cons.prems w(1) nz reads_map [OF Cons.IH, of "\<lambda>ns. name_value n # ns"]
    by (subst names_loop_bind)
      (auto simp: name_value_def [of n] l intro!: reads_opt_u8 reads_bind [OF reads_ascii] reads_fields)
  then show ?case by (simp add: enc_name_def [of n] enc_pstring_def [of "snd n"])
qed

section \<open>The file image\<close>

text \<open>\<open>has_at d off bs\<close>: the bytes \<open>bs\<close> stand in the file at offset \<open>off\<close>.\<close>

definition has_at :: "u8 list \<Rightarrow> nat \<Rightarrow> u8 list \<Rightarrow> bool" where
  "has_at d off bs \<longleftrightarrow> off + length bs \<le> length d \<and> take (length bs) (drop off d) = bs"

lemma has_at_split:
  assumes "has_at d off bs"
  shows "d = take off d @ bs @ drop (off + length bs) d \<and> length (take off d) = off"
proof -
  have "drop off d = take (length bs) (drop off d) @ drop (length bs) (drop off d)"
    by (rule append_take_drop_id [symmetric])
  then have "drop off d = bs @ drop (off + length bs) d"
    using assms by (simp add: has_at_def add.commute)
  then show ?thesis using append_take_drop_id [of off d] assms by (simp add: has_at_def)
qed

lemma reads_at: "reads r bs x \<Longrightarrow> has_at d off bs \<Longrightarrow> r d off = Inr (x, off + length bs)"
  using has_at_split [of d off bs] readsD [of r bs x "take off d" "drop (off + length bs) d"]
  by metis

lemma read_page_records_at:
  assumes "list_all fixup_wf rs" "has_at d off (concat (map enc_lx_fixup_record rs))"
  shows "read_page_records (off + length (concat (map enc_lx_fixup_record rs))) d off =
    Inr (rs, off + length (concat (map enc_lx_fixup_record rs)))"
  using has_at_split [OF assms(2)] read_page_records_layout [OF assms(1), of "take off d"
      "drop (off + length (concat (map enc_lx_fixup_record rs))) d"] by metis

definition header_valid :: "lx_header \<Rightarrow> bool" where
  "header_valid h \<longleftrightarrow>
    unat (lx_object_count h) \<le> 1024 \<and> unat (lx_module_num_pages h) \<le> 65536 \<and>
    unat (lx_page_offset_shift h) < 32 \<and>
    unat (lx_eip_object h) \<le> unat (lx_object_count h) \<and>
    unat (lx_esp_object h) \<le> unat (lx_object_count h)"

lemma validate_header_eq:
  "validate_header h d p = Inr (u, q) \<longleftrightarrow> header_valid h \<and> q = p"
proof -
  have "header_valid h \<longleftrightarrow> \<not> MAX_OBJECTS < lx_object_count h \<and> \<not> MAX_PAGES < lx_module_num_pages h
    \<and> \<not> 32 \<le> lx_page_offset_shift h
    \<and> \<not> (0 < lx_eip_object h \<and> lx_object_count h < lx_eip_object h)
    \<and> \<not> (0 < lx_esp_object h \<and> lx_object_count h < lx_esp_object h)"
    by (auto simp: header_valid_def MAX_OBJECTS_def MAX_PAGES_def word_less_nat_alt word_le_nat_alt)
  then show ?thesis
    by (auto simp: validate_header_def rd_fail_def rd_return_def)
qed

lemma unat_pages_plus_1:
  "header_valid h \<Longrightarrow> unat (lx_module_num_pages h + 1) = unat (lx_module_num_pages h) + 1"
  by (simp add: header_valid_def unat_plus_u32)

text \<open>The fixup records of one page, between two entries of the fixup page table.\<close>

definition fixup_page_image :: "u8 list \<Rightarrow> nat \<Rightarrow> u32 \<Rightarrow> u32 \<Rightarrow> lx_fixup_record list \<Rightarrow> bool" where
  "fixup_page_image d start a b rs \<longleftrightarrow>
    (if a < b then
       list_all fixup_wf rs \<and>
       unat b = unat a + length (concat (map enc_lx_fixup_record rs)) \<and>
       has_at d (start + unat a) (concat (map enc_lx_fixup_record rs))
     else rs = [])"

fun fixup_pages_image :: "u8 list \<Rightarrow> nat \<Rightarrow> u32 list \<Rightarrow> lx_fixup_record list list \<Rightarrow> bool" where
  "fixup_pages_image d start (a # b # table) (rs # rss) \<longleftrightarrow>
    fixup_page_image d start a b rs \<and> fixup_pages_image d start (b # table) rss"
| "fixup_pages_image d start (a # b # table) [] \<longleftrightarrow> False"
| "fixup_pages_image d start _ rss \<longleftrightarrow> rss = []"

lemma read_fixup_pages_image:
  "fixup_pages_image d start table rss \<Longrightarrow> \<exists>q. read_fixup_pages start table d p = Inr (rss, q)"
proof (induction d start table rss arbitrary: p rule: fixup_pages_image.induct)
  case (1 d start a b table rs rss)
  then have i: "fixup_page_image d start a b rs" "fixup_pages_image d start (b # table) rss" by auto
  then have "\<exists>q. read_fixup_page start a b d p = Inr (rs, q)"
    using read_page_records_at [of rs d "start + unat a"]
    by (auto simp: fixup_page_image_def read_fixup_page_def rd_bind_def rd_seek_def rd_return_def
        add.assoc split: if_splits)
  then obtain q where "read_fixup_page start a b d p = Inr (rs, q)" ..
  with "1.IH" [OF i(2), of q] show ?case by (auto simp: rd_bind_def rd_return_def)
qed (auto simp: rd_return_def)

text \<open>
  \<open>lx_image d bundles names f\<close>: the file \<open>d\<close> is an executable with the contents \<open>f\<close>. Each table
  stands where the header says, \<open>bundles\<close> are the bundles of the entry table and \<open>names\<close> the
  entries of the non-resident name table.
\<close>

definition lx_offset_of :: "u8 list \<Rightarrow> nat" where
  "lx_offset_of d = unat (word_at d 0x3C :: u32)"

definition lx_tables_image :: "u8 list \<Rightarrow> nat \<Rightarrow> lx_header \<Rightarrow> lx_file \<Rightarrow> bool" where
  "lx_tables_image d lx h f \<longleftrightarrow>
    length (lxf_object_table f) = unat (lx_object_count h) \<and>
    has_at d (lx + unat (lx_object_table_offset h))
      (concat (map enc_object_table_entry (lxf_object_table f))) \<and>
    length (lxf_page_map f) = unat (lx_module_num_pages h) \<and>
    has_at d (lx + unat (lx_object_page_map_offset h))
      (concat (map enc_object_page_map_entry (lxf_page_map f))) \<and>
    unat (lx_resource_count h) \<le> 4096 \<and>
    (if 0 < lx_resource_count h \<and> 0 < lx_resource_table_offset h then
       length (lxf_resources f) = unat (lx_resource_count h) \<and>
       has_at d (lx + unat (lx_resource_table_offset h))
         (concat (map enc_lx_resource_entry (lxf_resources f)))
     else lxf_resources f = [])"

definition lx_fixups_image :: "u8 list \<Rightarrow> nat \<Rightarrow> lx_header \<Rightarrow> lx_file \<Rightarrow> bool" where
  "lx_fixups_image d lx h f \<longleftrightarrow>
    length (lxf_fixup_page_table f) = unat (lx_module_num_pages h) + 1 \<and>
    has_at d (lx + unat (lx_fixup_page_table_offset h))
      (concat (map (le_bytes 4) (lxf_fixup_page_table f))) \<and>
    fixup_pages_image d (lx + unat (lx_fixup_record_table_offset h))
      (lxf_fixup_page_table f) (lxf_fixup_records_by_page f)"

definition lx_names_image ::
    "u8 list \<Rightarrow> nat \<Rightarrow> lx_header \<Rightarrow> lx_bundle list \<Rightarrow> (u16 \<times> ustring) list \<Rightarrow> lx_file \<Rightarrow> bool" where
  "lx_names_image d lx h bundles names f \<longleftrightarrow>
    length (lxf_imported_modules f) = unat (lx_imported_modules_count h) \<and>
    list_all pstring_wf (lxf_imported_modules f) \<and>
    has_at d (lx + unat (lx_imported_modules_name_table_offset h))
      (concat (map enc_pstring (lxf_imported_modules f))) \<and>
    (if 0 < lx_import_procedure_name_table_offset h then
       length (lxf_import_procedure_names f) =
         unat (lx_loader_section_size h) - unat (lx_import_procedure_name_table_offset h) \<and>
       (lxf_import_procedure_names f = [] \<or>
        has_at d (lx + unat (lx_import_procedure_name_table_offset h)) (lxf_import_procedure_names f))
     else lxf_import_procedure_names f = []) \<and>
    (if 0 < lx_entry_table_offset h then
       list_all bundle_wf bundles \<and> lxf_exports f = bundles_exports 1 bundles \<and>
       has_at d (lx + unat (lx_entry_table_offset h)) (concat (map enc_bundle bundles) @ [0])
     else lxf_exports f = []) \<and>
    (if 0 < lx_non_resident_name_table_offset h \<and> 0 < lx_non_resident_name_table_length h then
       list_all name_wf names \<and> lxf_nonresident_names f = map name_value names \<and>
       has_at d (unat (lx_non_resident_name_table_offset h)) (concat (map enc_name names) @ [0])
     else lxf_nonresident_names f = [])"

definition lx_image ::
    "u8 list \<Rightarrow> lx_bundle list \<Rightarrow> (u16 \<times> ustring) list \<Rightarrow> lx_file \<Rightarrow> bool" where
  "lx_image d bundles names f \<longleftrightarrow>
    (let lx = lx_offset_of d; h = lx_header_at d lx in
     64 \<le> length d \<and> take 2 d = [0x4D, 0x5A] \<and>
     lx + 0xAC \<le> length d \<and> lx_signature h = LX_SIGNATURE \<and>
     header_valid h \<and> lxf_header f = h \<and>
     lx_tables_image d lx h f \<and> lx_fixups_image d lx h f \<and> lx_names_image d lx h bundles names f)"

section \<open>The parser reads the image\<close>

lemma read_mz_header_eq:
  "read_mz_header d 0 =
    (if length d < 64 then Inl UnexpectedEof
     else if take 2 d \<noteq> [0x4D, 0x5A] then Inl (InvalidData ''Invalid MZ signature'')
     else Inr (lx_offset_of d, 64))"
  by (simp add: read_mz_header_def rd_bind_def read_exact_def rd_fail_def rd_return_def
      lx_offset_of_def word_at_def drop_take min_def)

lemma read_tables_image:
  assumes "lx_tables_image d lx h f"
  shows "\<exists>q. read_object_table lx h d p = Inr (lxf_object_table f, q)"
    and "\<exists>q. read_page_map lx h d p = Inr (lxf_page_map f, q)"
    and "\<exists>q. read_resources lx h d p = Inr (lxf_resources f, q)"
  using assms reads_at [OF object_codec.rd_table [of "lxf_object_table f"]]
    reads_at [OF page_map_codec.rd_table [of "lxf_page_map f"]]
    reads_at [OF resource_codec.rd_table [of "lxf_resources f"]]
  by (auto simp: lx_tables_image_def read_object_table_def read_page_map_def read_resources_def
      rd_bind_def rd_seek_def rd_return_def list_all_iff MAX_RESOURCES_def word_less_nat_alt
      split: if_splits)

lemma read_fixups_image:
  assumes "lx_fixups_image d lx h f" "header_valid h"
  shows "\<exists>q. read_fixup_page_table lx h d p = Inr (lxf_fixup_page_table f, q)"
    and "\<exists>q. read_fixup_pages (lx + unat (lx_fixup_record_table_offset h))
      (lxf_fixup_page_table f) d p = Inr (lxf_fixup_records_by_page f, q)"
  using assms reads_at [OF u32_codec.rd_table [of "lxf_fixup_page_table f"]]
    unat_pages_plus_1 [OF assms(2)]
  by (auto simp: lx_fixups_image_def read_fixup_page_table_def rd_bind_def rd_seek_def list_all_iff
      intro: read_fixup_pages_image)

lemma read_names_image:
  assumes "lx_names_image d lx h bundles names f"
  shows "\<exists>q. read_imported_modules lx h d p = Inr (lxf_imported_modules f, q)"
    and "\<exists>q. read_import_procedure_names lx h d p = Inr (lxf_import_procedure_names f, q)"
    and "\<exists>q. read_entry_table lx h d p = Inr (lxf_exports f, q)"
    and "\<exists>q. read_nonresident_names h d p = Inr (lxf_nonresident_names f, q)"
proof -
  show "\<exists>q. read_imported_modules lx h d p = Inr (lxf_imported_modules f, q)"
    using assms reads_at [OF pstring_codec.rd_table [of "lxf_imported_modules f"]]
    by (auto simp: lx_names_image_def read_imported_modules_def rd_bind_def rd_seek_def)
  show "\<exists>q. read_import_procedure_names lx h d p = Inr (lxf_import_procedure_names f, q)"
    using assms reads_at [OF reads_exact, of "lxf_import_procedure_names f"]
    by (fastforce simp: lx_names_image_def read_import_procedure_names_def rd_bind_def rd_seek_def
        rd_return_def Let_def split: if_splits)
  show "\<exists>q. read_entry_table lx h d p = Inr (lxf_exports f, q)"
    using assms reads_at [OF reads_entry_loop, of bundles]
    by (auto simp: lx_names_image_def read_entry_table_def rd_bind_def rd_seek_def rd_return_def
        split: if_splits)
  show "\<exists>q. read_nonresident_names h d p = Inr (lxf_nonresident_names f, q)"
    using assms reads_at [OF reads_names_loop, of names]
    by (auto simp: lx_names_image_def read_nonresident_names_def rd_bind_def rd_seek_def
        rd_return_def split: if_splits)
qed

lemma rd_bind_step: "\<exists>q. r d p = Inr (x, q) \<Longrightarrow> (\<And>q. \<exists>t. f x d q = Inr (y, t)) \<Longrightarrow>
    \<exists>t. rd_bind r f d p = Inr (y, t)"
  by (auto simp: rd_bind_def)

lemma lx_image_parses:
  assumes "lx_image d bundles names f"
  shows "\<exists>q. lx_parse d 0 = Inr (f, q)"
proof -
  define lx where "lx = lx_offset_of d"
  define h where "h = lx_header_at d lx"
  note i = assms [unfolded lx_image_def Let_def, folded lx_def, folded h_def]
  have sig: "take 2 (drop lx d) = LX_SIGNATURE" using i by (simp add: h_def lx_header_at_def)
  have f: "f = \<lparr> lxf_header = h, lxf_object_table = lxf_object_table f,
      lxf_page_map = lxf_page_map f, lxf_fixup_page_table = lxf_fixup_page_table f,
      lxf_fixup_records_by_page = lxf_fixup_records_by_page f, lxf_resources = lxf_resources f,
      lxf_imported_modules = lxf_imported_modules f,
      lxf_import_procedure_names = lxf_import_procedure_names f, lxf_exports = lxf_exports f,
      lxf_nonresident_names = lxf_nonresident_names f \<rparr>"
    using i by simp
  have mz: "\<exists>q. read_mz_header d 0 = Inr (lx, q)"
    using i by (simp add: read_mz_header_eq lx_def)
  have hd: "\<exists>q. read_lx_header lx d p = Inr (h, q)" for p
    using i sig by (simp add: lx_header_layout h_def)
  have v: "\<exists>q. validate_header h d p = Inr ((), q)" for p
    using i by (simp add: validate_header_eq)
  have t: "lx_tables_image d lx h f" "lx_fixups_image d lx h f" "header_valid h"
    "lx_names_image d lx h bundles names f" using i by auto
  note steps = v read_tables_image [OF t(1)] read_fixups_image [OF t(2,3)] read_names_image [OF t(4)]
  show ?thesis unfolding lx_parse_def
    by (rule rd_bind_step, rule mz, rule rd_bind_step, rule hd,
        (rule rd_bind_step, rule steps)+) (simp add: rd_return_def f [symmetric])
qed

section \<open>Properties\<close>

text \<open>
  C5. The parser is correct on every well-laid-out file: if the MZ stub leads to an LX header
  within the limits and every table (objects, page map, resources, fixup page table, fixup
  records of each page, imported modules, procedure names, entry table, non-resident names)
  stands in the file where the header says, encoded as the format prescribes, then \<^verbatim>\<open>parse\<close>
  returns exactly those tables.
\<close>

theorem lx_parse_image:
  assumes "lx_image d bundles names f"
  shows "\<exists>q. lx_parse d 0 = Inr (f, q)"
  using assms by (rule lx_image_parses)

text \<open>An executable with one object, one page, one fixup record, one export and one import.\<close>

definition example_lx :: "u8 list" where
  "example_lx = [
    77, 90, 0, 0, 0, 0, 0, 0, 0, 0, 0, 0, 0, 0, 0, 0, 0, 0, 0, 0, 0, 0, 0, 0,
    0, 0, 0, 0, 0, 0, 0, 0, 0, 0, 0, 0, 0, 0, 0, 0, 0, 0, 0, 0, 0, 0, 0, 0,
    0, 0, 0, 0, 0, 0, 0, 0, 0, 0, 0, 0, 64, 0, 0, 0, 76, 88, 0, 0, 0, 0, 0, 0,
    0, 0, 0, 0, 0, 0, 0, 0, 0, 0, 0, 0, 1, 0, 0, 0, 1, 0, 0, 0, 16, 0, 0, 0,
    1, 0, 0, 0, 0, 16, 0, 0, 0, 16, 0, 0, 0, 0, 0, 0, 0, 0, 0, 0, 0, 0, 0, 0,
    0, 0, 0, 0, 0, 0, 0, 0, 172, 0, 0, 0, 1, 0, 0, 0, 196, 0, 0, 0, 0, 0, 0, 0,
    0, 0, 0, 0, 0, 0, 0, 0, 0, 0, 0, 0, 226, 0, 0, 0, 0, 0, 0, 0, 0, 0, 0, 0,
    204, 0, 0, 0, 212, 0, 0, 0, 236, 0, 0, 0, 1, 0, 0, 0, 0, 0, 0, 0, 0, 0, 0, 0,
    0, 0, 0, 0, 0, 0, 0, 0, 0, 0, 0, 0, 0, 0, 0, 0, 0, 0, 0, 0, 0, 0, 0, 0,
    0, 0, 0, 0, 0, 0, 0, 0, 0, 0, 0, 0, 0, 0, 0, 0, 0, 0, 0, 0, 0, 32, 0, 0,
    0, 0, 1, 0, 5, 0, 0, 0, 1, 0, 0, 0, 1, 0, 0, 0, 0, 0, 0, 0, 0, 0, 0, 0,
    0, 8, 0, 0, 0, 0, 0, 0, 14, 0, 0, 0, 39, 148, 2, 4, 0, 32, 1, 2, 69, 35, 1, 0,
    7, 0, 1, 3, 1, 0, 3, 16, 0, 0, 0, 0, 4, 78, 76, 83, 88]"

definition example_lx_file :: lx_file where
  "example_lx_file = \<lparr> lxf_header = lx_header_at example_lx 64,
     lxf_object_table = [\<lparr> obj_size = 0x2000, obj_base_address = 0x10000, obj_flags = 5,
       obj_page_map_index = 1, obj_page_count = 1, obj_reserved = 0 \<rparr>],
     lxf_page_map = [\<lparr> pg_data_offset = 0, pg_data_size = 0x800, pg_flags = 0 \<rparr>],
     lxf_fixup_page_table = [0, 14], lxf_fixup_records_by_page = [[example_fixup]],
     lxf_resources = [], lxf_imported_modules = [ustr ''NLSX''], lxf_import_procedure_names = [],
     lxf_exports = [\<lparr> exp_ordinal = 1, exp_object_num = 1, exp_offset = 0x10 \<rparr>],
     lxf_nonresident_names = [] \<rparr>"

lemma le_bytes_numeral:
  "le_bytes 2 (w :: 'a::len word) = [ucast w, ucast (drop_bit 8 w)]"
  "le_bytes 4 w = [ucast w, ucast (drop_bit 8 w), ucast (drop_bit 8 (drop_bit 8 w)),
     ucast (drop_bit 8 (drop_bit 8 (drop_bit 8 w)))]"
  by (simp_all add: eval_nat_numeral)

lemmas lx_example_simps = example_lx_file_def example_fixup_def has_at_def word_at_def
  enc_object_table_entry_def enc_object_page_map_entry_def enc_lx_fixup_record_def
  enc_source_offsets_def enc_index_def enc_offset_def enc_additive_def enc_pstring_def
  ascii_bytes_def le_bytes_numeral ustr_def fixup_page_image_def fixup_wf_def index_fits_def
  offset_fits_def pstring_wf_def is_ascii_def

lemma example_lx_offset: "lx_offset_of example_lx = 64"
  by (simp add: lx_offset_of_def example_lx_def word_at_def)

lemma example_lx_image:
  "lx_image example_lx [Entry32 1 [(3, 0x10)]] [] example_lx_file"
proof -
  let ?h = "lx_header_at example_lx 64"
  have h: "lx_signature ?h = LX_SIGNATURE" "header_valid ?h"
    by (simp_all add: lx_header_at_def example_lx_def LX_SIGNATURE_def header_valid_def word_at_def)
  have t: "lx_tables_image example_lx 64 ?h example_lx_file"
    by (simp add: lx_tables_image_def lx_header_at_def lx_example_simps) (simp add: example_lx_def)
  have x: "lx_fixups_image example_lx 64 ?h example_lx_file"
    by (simp add: lx_fixups_image_def lx_header_at_def lx_example_simps) (simp add: example_lx_def)
  have n: "lx_names_image example_lx 64 ?h [Entry32 1 [(3, 0x10)]] [] example_lx_file"
    by (simp add: lx_names_image_def lx_header_at_def lx_example_simps) (simp add: example_lx_def)
  show ?thesis unfolding lx_image_def Let_def example_lx_offset using h t x n
    by (simp add: example_lx_file_def) (simp add: example_lx_def)
qed

theorem lx_parse_image_witness: "\<exists>q. lx_parse example_lx 0 = Inr (example_lx_file, q)"
  by (rule lx_parse_image [OF example_lx_image])


lemma read_fixup_pages_length:
  "read_fixup_pages start table d p = Inr (rss, q) \<Longrightarrow> length rss = length table - 1"
  by (induction start table arbitrary: p rss q rule: read_fixup_pages.induct)
    (auto simp: rd_bind_Inr rd_return_def)

text \<open>
  C9. What the parser accepts is within its limits: whatever bytes it is given, a successful
  parse has at most 1024 objects, 65536 pages and 4096 resources, a page shift below 32, entry
  and stack objects that exist (or are 0), an object table, page map and fixup page table of
  exactly the announced sizes, and one list of fixup records per page. No input makes it loop:
  \<^verbatim>\<open>parse\<close> is a total function of the file.
\<close>

theorem lx_parse_validated:
  assumes "lx_parse d p = Inr (f, q)"
  shows "header_valid (lxf_header f)
    \<and> length (lxf_object_table f) = unat (lx_object_count (lxf_header f))
    \<and> length (lxf_page_map f) = unat (lx_module_num_pages (lxf_header f))
    \<and> length (lxf_fixup_page_table f) = unat (lx_module_num_pages (lxf_header f)) + 1
    \<and> length (lxf_fixup_records_by_page f) = unat (lx_module_num_pages (lxf_header f))
    \<and> length (lxf_resources f) \<le> 4096
    \<and> length (lxf_imported_modules f) = unat (lx_imported_modules_count (lxf_header f))"
proof -
  from assms obtain lx h p0 p1 p2 where v: "validate_header h d p0 = Inr ((), p1)"
    and ot: "read_object_table lx h d p1 = Inr (lxf_object_table f, p2)"
    and h: "lxf_header f = h"
    and pm: "\<exists>p q. read_page_map lx h d p = Inr (lxf_page_map f, q)"
    and rs: "\<exists>p q. read_resources lx h d p = Inr (lxf_resources f, q)"
    and ft: "\<exists>p q. read_fixup_page_table lx h d p = Inr (lxf_fixup_page_table f, q)"
    and fr: "\<exists>p q. read_fixup_pages (lx + unat (lx_fixup_record_table_offset h))
        (lxf_fixup_page_table f) d p = Inr (lxf_fixup_records_by_page f, q)"
    and im: "\<exists>p q. read_imported_modules lx h d p = Inr (lxf_imported_modules f, q)"
    unfolding lx_parse_def rd_bind_Inr rd_return_def by force
  have hv: "header_valid h" using v by (simp add: validate_header_eq)
  have "length (lxf_fixup_page_table f) = unat (lx_module_num_pages h) + 1"
    using ft unat_pages_plus_1 [OF hv]
    by (auto simp: read_fixup_page_table_def rd_bind_Inr rd_seek_def
        simp del: rd_times.simps dest!: rd_times_length)
  moreover from this have "length (lxf_fixup_records_by_page f) = unat (lx_module_num_pages h)"
    using fr by (auto dest!: read_fixup_pages_length)
  moreover have "length (lxf_resources f) \<le> 4096"
    using rs by (auto simp: read_resources_def rd_bind_Inr rd_seek_def rd_fail_def rd_return_def
        MAX_RESOURCES_def word_less_nat_alt not_less dest!: rd_times_length split: if_splits)
  ultimately show ?thesis using ot pm im hv h
    by (auto simp: read_object_table_def read_page_map_def read_imported_modules_def rd_bind_Inr
        rd_seek_def dest!: rd_times_length)
qed

lemma example_lx_parses: "\<exists>q. lx_parse example_lx 0 = Inr (example_lx_file, q)"
  by (rule lx_image_parses [OF example_lx_image])

text \<open>Instantiated on the example executable.\<close>

theorem lx_parse_validated_witness:
  "\<exists>q. lx_parse example_lx 0 = Inr (example_lx_file, q) \<and> header_valid (lxf_header example_lx_file)"
proof -
  have "\<exists>q. lx_parse example_lx 0 = Inr (example_lx_file, q)"
    by (rule example_lx_parses)
  then show ?thesis using lx_parse_validated by blast
qed

text \<open>
  \<^verbatim>\<open>get_proc_name\<close> answers exactly for the offsets at which a complete length-prefixed name
  stands inside the table, with that name; every other offset, a name running past the end of
  the table included, gives \<^verbatim>\<open>None\<close>.
\<close>

theorem get_proc_name_spec:
  "get_proc_name f offset = Some s \<longleftrightarrow>
    (\<exists>len name. has_at (lxf_import_procedure_names f) (unat offset) (len # name) \<and>
       length name = unat len \<and> s = from_utf8_lossy name)"
proof -
  let ?t = "lxf_import_procedure_names f" and ?o = "unat offset"
  have *: "has_at ?t ?o (len # name) \<and> length name = unat len \<longleftrightarrow>
      ?o < length ?t \<and> len = ?t ! ?o \<and> ?o + 1 + unat len \<le> length ?t \<and>
      name = take (unat len) (drop (?o + 1) ?t)" for len name
  proof (cases "?o < length ?t")
    case True
    then have "drop ?o ?t = ?t ! ?o # drop (?o + 1) ?t" by (simp add: Cons_nth_drop_Suc)
    with True show ?thesis by (auto simp: has_at_def)
  qed (auto simp: has_at_def)
  have "get_proc_name f offset = Some s \<longleftrightarrow>
      ?o < length ?t \<and> ?o + 1 + unat (?t ! ?o) \<le> length ?t \<and>
      s = from_utf8_lossy (take (unat (?t ! ?o)) (drop (?o + 1) ?t))"
    by (auto simp: get_proc_name_def Let_def)
  then show ?thesis using * by (metis (no_types, lifting))
qed

end
