(* ===== verification/NE_Format.thy ===== *)
theory NE_Format
  imports Byte_Reader
begin

text \<open>
  The structures of the 16-bit NE executable format (\<^verbatim>\<open>src/src/ne/header.rs\<close>): header, segment
  table entries, relocation entries, the entry table and the name tables. The entry table
  parser indexes its input without a check (\<^verbatim>\<open>data[pos + 1]\<close>), so it returns an option whose
  \<open>None\<close> is the panic. A position in a byte slice is modelled by the rest of the slice.
\<close>

section \<open>Header\<close>

record ne_header =
  ne_signature :: "u8 list"
  ne_linker_version :: u8
  ne_linker_revision :: u8
  ne_entry_table_offset :: u16
  ne_entry_table_size :: u16
  ne_checksum :: u32
  ne_module_flags :: u16
  ne_auto_data_segment :: u16
  ne_initial_heap_size :: u16
  ne_initial_stack_size :: u16
  ne_initial_cs_ip :: u32
  ne_initial_ss_sp :: u32
  ne_segment_count :: u16
  ne_module_ref_count :: u16
  ne_non_resident_name_table_size :: u16
  ne_segment_table_offset :: u16
  ne_resource_table_offset :: u16
  ne_resident_name_table_offset :: u16
  ne_module_ref_table_offset :: u16
  ne_imported_names_table_offset :: u16
  ne_non_resident_name_table_file_offset :: u32
  ne_movable_entry_count :: u16
  ne_alignment_shift_count :: u16
  ne_resource_segment_count :: u16
  ne_target_os :: u8
  ne_additional_flags :: u8
  ne_fast_load_offset :: u16
  ne_fast_load_size :: u16
  ne_reserved :: u16
  ne_expected_win_version :: u16

definition buf_u16 :: "u8 list \<Rightarrow> nat \<Rightarrow> u16" where
  "buf_u16 buf i = le_word [buf ! i, buf ! (i + 1)]"

definition buf_u32 :: "u8 list \<Rightarrow> nat \<Rightarrow> u32" where
  "buf_u32 buf i = le_word [buf ! i, buf ! (i + 1), buf ! (i + 2), buf ! (i + 3)]"

definition read_ne_header :: "nat \<Rightarrow> ne_header rd" where
  "read_ne_header offset =
    rd_bind (rd_seek offset) (\<lambda>_.
    rd_bind (read_exact 64) (\<lambda>buf.
    if [buf ! 0, buf ! 1] \<noteq> [0x4E, 0x45] then rd_fail (InvalidData ''Invalid NE signature'')
    else rd_return \<lparr> ne_signature = [buf ! 0, buf ! 1],
      ne_linker_version = buf ! 2,
      ne_linker_revision = buf ! 3,
      ne_entry_table_offset = buf_u16 buf 4,
      ne_entry_table_size = buf_u16 buf 6,
      ne_checksum = buf_u32 buf 8,
      ne_module_flags = buf_u16 buf 12,
      ne_auto_data_segment = buf_u16 buf 14,
      ne_initial_heap_size = buf_u16 buf 16,
      ne_initial_stack_size = buf_u16 buf 18,
      ne_initial_cs_ip = buf_u32 buf 20,
      ne_initial_ss_sp = buf_u32 buf 24,
      ne_segment_count = buf_u16 buf 28,
      ne_module_ref_count = buf_u16 buf 30,
      ne_non_resident_name_table_size = buf_u16 buf 32,
      ne_segment_table_offset = buf_u16 buf 34,
      ne_resource_table_offset = buf_u16 buf 36,
      ne_resident_name_table_offset = buf_u16 buf 38,
      ne_module_ref_table_offset = buf_u16 buf 40,
      ne_imported_names_table_offset = buf_u16 buf 42,
      ne_non_resident_name_table_file_offset = buf_u32 buf 44,
      ne_movable_entry_count = buf_u16 buf 48,
      ne_alignment_shift_count = buf_u16 buf 50,
      ne_resource_segment_count = buf_u16 buf 52,
      ne_target_os = buf ! 54,
      ne_additional_flags = buf ! 55,
      ne_fast_load_offset = buf_u16 buf 56,
      ne_fast_load_size = buf_u16 buf 58,
      ne_reserved = buf_u16 buf 60,
      ne_expected_win_version = buf_u16 buf 62 \<rparr>))"

definition ne_entry_cs :: "ne_header \<Rightarrow> u16" where
  "ne_entry_cs h = ucast (drop_bit 16 (ne_initial_cs_ip h))"

definition ne_entry_ip :: "ne_header \<Rightarrow> u16" where
  "ne_entry_ip h = ucast (ne_initial_cs_ip h AND 0xFFFF)"

definition ne_stack_ss :: "ne_header \<Rightarrow> u16" where
  "ne_stack_ss h = ucast (drop_bit 16 (ne_initial_ss_sp h))"

definition ne_stack_sp :: "ne_header \<Rightarrow> u16" where
  "ne_stack_sp h = ucast (ne_initial_ss_sp h AND 0xFFFF)"

definition ne_is_dll :: "ne_header \<Rightarrow> bool" where
  "ne_is_dll h \<longleftrightarrow> ne_module_flags h AND 0x8000 \<noteq> 0"

definition ne_is_pm_app :: "ne_header \<Rightarrow> bool" where
  "ne_is_pm_app h \<longleftrightarrow> ne_module_flags h AND 0x0300 = 0x0300"

section \<open>Segments\<close>

record ne_segment_entry =
  seg_data_offset :: u16
  seg_data_length :: u16
  seg_flags :: u16
  seg_min_alloc_size :: u16

definition read_ne_segment_entry :: "ne_segment_entry rd" where
  "read_ne_segment_entry =
    rd_bind (read_exact 8) (\<lambda>buf.
    rd_return \<lparr> seg_data_offset = buf_u16 buf 0, seg_data_length = buf_u16 buf 2,
      seg_flags = buf_u16 buf 4, seg_min_alloc_size = buf_u16 buf 6 \<rparr>)"

definition seg_is_code :: "ne_segment_entry \<Rightarrow> bool" where
  "seg_is_code s \<longleftrightarrow> seg_flags s AND 0x0001 = 0"

definition seg_is_data :: "ne_segment_entry \<Rightarrow> bool" where
  "seg_is_data s \<longleftrightarrow> seg_flags s AND 0x0001 \<noteq> 0"

definition seg_has_relocations :: "ne_segment_entry \<Rightarrow> bool" where
  "seg_has_relocations s \<longleftrightarrow> seg_flags s AND 0x0100 \<noteq> 0"

definition actual_data_length :: "ne_segment_entry \<Rightarrow> u32" where
  "actual_data_length s = (if seg_data_length s = 0 then 0x10000 else ucast (seg_data_length s))"

definition actual_min_alloc :: "ne_segment_entry \<Rightarrow> u32" where
  "actual_min_alloc s = (if seg_min_alloc_size s = 0 then 0x10000 else ucast (seg_min_alloc_size s))"

text \<open>
  \<^verbatim>\<open><<\<close> on a \<^verbatim>\<open>u64\<close> in the release profile: the shift amount is taken modulo 64, bits shifted out
  are lost.
\<close>

definition file_offset :: "ne_segment_entry \<Rightarrow> u16 \<Rightarrow> u64" where
  "file_offset s alignment_shift = push_bit (unat alignment_shift mod 64) (ucast (seg_data_offset s))"

section \<open>Relocations\<close>

datatype ne_relocation_target =
    InternalRef u8 u16
  | ImportOrdinal u16 u16
  | ImportName u16 u16
  | OsFixup u16

record ne_relocation_entry =
  rel_source_type :: u8
  rel_flags :: u8
  rel_source_offset :: u16
  rel_target :: ne_relocation_target

definition read_ne_relocation_entry :: "ne_relocation_entry rd" where
  "read_ne_relocation_entry =
    rd_bind (read_exact 8) (\<lambda>buf.
    let flags = buf ! 1; target_type = flags AND 0x03 in
    rd_return \<lparr> rel_source_type = buf ! 0, rel_flags = flags, rel_source_offset = buf_u16 buf 2,
      rel_target =
        (if target_type = 0 then InternalRef (buf ! 4) (buf_u16 buf 6)
         else if target_type = 1 then ImportOrdinal (buf_u16 buf 4) (buf_u16 buf 6)
         else if target_type = 2 then ImportName (buf_u16 buf 4) (buf_u16 buf 6)
         else OsFixup (buf_u16 buf 4)) \<rparr>)"

definition rel_is_additive :: "ne_relocation_entry \<Rightarrow> bool" where
  "rel_is_additive r \<longleftrightarrow> rel_flags r AND 0x04 \<noteq> 0"

section \<open>Entry table\<close>

record ne_entry =
  ent_ordinal :: u16
  ent_flags :: u8
  ent_segment_num :: u8
  ent_offset :: u16

definition ENTRY_UNUSED :: u8 where "ENTRY_UNUSED = 0x00"
definition ENTRY_MOVABLE :: u8 where "ENTRY_MOVABLE = 0xFF"

text \<open>The inner loop: at most \<open>n\<close> entries of one bundle; a truncated entry ends the bundle only.\<close>

fun bundle_entries :: "nat \<Rightarrow> u8 \<Rightarrow> u16 \<Rightarrow> u8 list \<Rightarrow> ne_entry list \<times> u16 \<times> u8 list" where
  "bundle_entries 0 indicator ordinal d = ([], ordinal, d)"
| "bundle_entries (Suc n) indicator ordinal d =
    (if indicator = ENTRY_MOVABLE then
       (if length d < 6 then ([], ordinal, d)
        else
          let (es, ordinal', d') = bundle_entries n indicator (ordinal + 1) (drop 6 d) in
          (\<lparr> ent_ordinal = ordinal, ent_flags = d ! 0, ent_segment_num = d ! 3,
             ent_offset = buf_u16 d 4 \<rparr> # es, ordinal', d'))
     else
       (if length d < 3 then ([], ordinal, d)
        else
          let (es, ordinal', d') = bundle_entries n indicator (ordinal + 1) (drop 3 d) in
          (\<lparr> ent_ordinal = ordinal, ent_flags = d ! 0, ent_segment_num = indicator,
             ent_offset = buf_u16 d 1 \<rparr> # es, ordinal', d')))"

lemma bundle_entries_shrinks:
  "bundle_entries n indicator ordinal d = (es, ordinal', d') \<Longrightarrow> length d' \<le> length d"
  by (induction n indicator ordinal d arbitrary: es ordinal' d' rule: bundle_entries.induct)
    (fastforce simp: Let_def split: if_splits prod.splits)+

function parse_entries :: "u16 \<Rightarrow> u8 list \<Rightarrow> ne_entry list option" where
  "parse_entries ordinal [] = Some []"
| "parse_entries ordinal (count # r) =
    (if count = 0 then Some []
     else case r of
       [] \<Rightarrow> None
     | indicator # r' \<Rightarrow>
         if indicator = ENTRY_UNUSED then parse_entries (ordinal + ucast count) r'
         else case bundle_entries (unat count) indicator ordinal r' of
           (es, ordinal', r'') \<Rightarrow> map_option (\<lambda>es'. es @ es') (parse_entries ordinal' r''))"
  by pat_completeness auto
termination
  by (relation "measure (\<lambda>(ordinal, d). length d)")
    (auto dest!: bundle_entries_shrinks [OF sym])

definition parse_entry_table :: "u8 list \<Rightarrow> ne_entry list option" where
  "parse_entry_table d = parse_entries 1 d"

section \<open>Name tables\<close>

function parse_name_table :: "u8 list \<Rightarrow> (ustring \<times> u16) list" where
  "parse_name_table [] = []"
| "parse_name_table (l # d) =
    (let len = unat l in
     if len = 0 then []
     else if length d < len + 2 then []
     else (from_utf8_lossy (take len d), buf_u16 (drop len d) 0) # parse_name_table (drop (len + 2) d))"
  by pat_completeness auto
termination
  by (relation "measure length") auto

section \<open>Layout of the entry table\<close>

datatype ne_bundle =
    UnusedBundle u8
  | MovableBundle "(u8 \<times> u8 \<times> u8 \<times> u8 \<times> u16) list"
  | FixedBundle u8 "(u8 \<times> u16) list"

fun enc_movable :: "u8 \<times> u8 \<times> u8 \<times> u8 \<times> u16 \<Rightarrow> u8 list" where
  "enc_movable (flags, i1, i2, seg, off) = [flags, i1, i2, seg] @ le_bytes 2 off"

fun enc_fixed :: "u8 \<times> u16 \<Rightarrow> u8 list" where
  "enc_fixed (flags, off) = flags # le_bytes 2 off"

fun enc_ne_bundle :: "ne_bundle \<Rightarrow> u8 list" where
  "enc_ne_bundle (UnusedBundle n) = [n, ENTRY_UNUSED]"
| "enc_ne_bundle (MovableBundle es) = of_nat (length es) # ENTRY_MOVABLE # concat (map enc_movable es)"
| "enc_ne_bundle (FixedBundle seg es) = of_nat (length es) # seg # concat (map enc_fixed es)"

fun ne_bundle_wf :: "ne_bundle \<Rightarrow> bool" where
  "ne_bundle_wf (UnusedBundle n) \<longleftrightarrow> n \<noteq> 0"
| "ne_bundle_wf (MovableBundle es) \<longleftrightarrow> es \<noteq> [] \<and> length es < 256"
| "ne_bundle_wf (FixedBundle seg es) \<longleftrightarrow>
    es \<noteq> [] \<and> length es < 256 \<and> seg \<noteq> ENTRY_UNUSED \<and> seg \<noteq> ENTRY_MOVABLE"

text \<open>The entries a bundle stands for, numbered from \<open>ordinal\<close>.\<close>

fun movable_entries :: "u16 \<Rightarrow> (u8 \<times> u8 \<times> u8 \<times> u8 \<times> u16) list \<Rightarrow> ne_entry list" where
  "movable_entries ordinal [] = []"
| "movable_entries ordinal ((flags, i1, i2, seg, off) # es) =
    \<lparr> ent_ordinal = ordinal, ent_flags = flags, ent_segment_num = seg, ent_offset = off \<rparr> #
    movable_entries (ordinal + 1) es"

fun fixed_entries :: "u16 \<Rightarrow> u8 \<Rightarrow> (u8 \<times> u16) list \<Rightarrow> ne_entry list" where
  "fixed_entries ordinal seg [] = []"
| "fixed_entries ordinal seg ((flags, off) # es) =
    \<lparr> ent_ordinal = ordinal, ent_flags = flags, ent_segment_num = seg, ent_offset = off \<rparr> #
    fixed_entries (ordinal + 1) seg es"

fun ne_bundles_entries :: "u16 \<Rightarrow> ne_bundle list \<Rightarrow> ne_entry list" where
  "ne_bundles_entries ordinal [] = []"
| "ne_bundles_entries ordinal (UnusedBundle n # bs) = ne_bundles_entries (ordinal + ucast n) bs"
| "ne_bundles_entries ordinal (MovableBundle es # bs) =
    movable_entries ordinal es @ ne_bundles_entries (ordinal + of_nat (length es)) bs"
| "ne_bundles_entries ordinal (FixedBundle seg es # bs) =
    fixed_entries ordinal seg es @ ne_bundles_entries (ordinal + of_nat (length es)) bs"

definition ne_ordinal_after :: "u16 \<Rightarrow> ne_bundle list \<Rightarrow> u16" where
  "ne_ordinal_after ordinal bs = foldl (\<lambda>o1 b. o1 + (case b of UnusedBundle n \<Rightarrow> ucast n
     | MovableBundle es \<Rightarrow> of_nat (length es) | FixedBundle seg es \<Rightarrow> of_nat (length es))) ordinal bs"

lemma le_bytes_2: "le_bytes 2 (w :: u16) = [ucast w, ucast (drop_bit 8 w)]"
  by (simp add: eval_nat_numeral)

lemma le_word_2: "le_word [ucast w, ucast (drop_bit 8 w)] = (w :: u16)"
  unfolding le_bytes_2 [symmetric] by simp

lemma u16_bytes: obtains lo hi where "le_bytes 2 (w :: u16) = [lo, hi]" "le_word [lo, hi] = w"
  using le_bytes_2 le_word_2 by blast

lemma map_option_append_Nil: "map_option ((@) []) x = x"
  by (cases x) simp_all

lemma bundle_entries_movable:
  "bundle_entries (length es) ENTRY_MOVABLE ordinal (concat (map enc_movable es) @ tl1) =
    (movable_entries ordinal es, ordinal + of_nat (length es), tl1)"
proof (induction es arbitrary: ordinal)
  case (Cons e es)
  obtain flags i1 i2 seg off where e: "e = (flags, i1, i2, seg, off)" by (cases e) auto
  obtain lo hi where w: "le_bytes 2 off = [lo, hi]" "le_word [lo, hi] = off" by (rule u16_bytes)
  show ?case using Cons [of "ordinal + 1"]
    by (simp add: e w buf_u16_def Let_def del: le_word.simps le_bytes.simps)
qed simp

lemma bundle_entries_fixed:
  "seg \<noteq> ENTRY_MOVABLE \<Longrightarrow>
    bundle_entries (length es) seg ordinal (concat (map enc_fixed es) @ tl1) =
    (fixed_entries ordinal seg es, ordinal + of_nat (length es), tl1)"
proof (induction es arbitrary: ordinal)
  case (Cons e es)
  obtain flags off where e: "e = (flags, off)" by (cases e) auto
  obtain lo hi where w: "le_bytes 2 off = [lo, hi]" "le_word [lo, hi] = off" by (rule u16_bytes)
  show ?case using Cons.IH [of "ordinal + 1"] Cons.prems
    by (simp add: e w buf_u16_def Let_def del: le_word.simps le_bytes.simps)
qed simp

lemma of_nat_u8_nonzero: "0 < n \<Longrightarrow> n < 256 \<Longrightarrow> (of_nat n :: u8) \<noteq> 0 \<and> unat (of_nat n :: u8) = n"
  by (auto simp: word_unat_eq_iff unat_of_nat)

lemma parse_entries_layout:
  "list_all ne_bundle_wf bs \<Longrightarrow>
    parse_entries ordinal (concat (map enc_ne_bundle bs) @ tl1) =
    map_option (\<lambda>es. ne_bundles_entries ordinal bs @ es)
      (parse_entries (ne_ordinal_after ordinal bs) tl1)"
proof (induction ordinal bs rule: ne_bundles_entries.induct)
  case (3 ordinal es bs)
  then have "length es < 256" "0 < length es" by auto
  note l = of_nat_u8_nonzero [OF this(2,1)]
  from 3 l show ?case
    by (simp add: bundle_entries_movable ENTRY_UNUSED_def ENTRY_MOVABLE_def [symmetric]
        ne_ordinal_after_def option.map_comp comp_def)
      (simp add: ENTRY_MOVABLE_def)
next
  case (4 ordinal seg es bs)
  then have "length es < 256" "0 < length es" by auto
  note l = of_nat_u8_nonzero [OF this(2,1)]
  from 4 l show ?case
    by (simp add: bundle_entries_fixed ne_ordinal_after_def option.map_comp comp_def)
qed (auto simp: ne_ordinal_after_def map_option_append_Nil)

section \<open>Properties\<close>

text \<open>
  The entry table parser reads every well-formed table back: unused bundles only advance
  the ordinal, movable and fixed bundles yield their entries with consecutive ordinals, and
  the parser stops at the zero count, whatever follows it, or at the end of the table.
\<close>

theorem ne_entry_table_roundtrip:
  assumes "list_all ne_bundle_wf bs"
  shows "parse_entry_table (concat (map enc_ne_bundle bs) @ 0 # junk) = Some (ne_bundles_entries 1 bs)
    \<and> parse_entry_table (concat (map enc_ne_bundle bs)) = Some (ne_bundles_entries 1 bs)"
  using parse_entries_layout [OF assms, of 1 "0 # junk"] parse_entries_layout [OF assms, of 1 "[]"]
  by (simp add: parse_entry_table_def)

text \<open>Two unused ordinals, a fixed entry in segment 2 and a movable entry in segment 3.\<close>

theorem ne_entry_table_roundtrip_witness:
  "parse_entry_table (concat (map enc_ne_bundle
      [UnusedBundle 2, FixedBundle 2 [(1, 0x10)], MovableBundle [(1, 0xCD, 0x3F, 3, 0x20)]]) @ 0 # [7])
    = Some [\<lparr> ent_ordinal = 3, ent_flags = 1, ent_segment_num = 2, ent_offset = 0x10 \<rparr>,
            \<lparr> ent_ordinal = 4, ent_flags = 1, ent_segment_num = 3, ent_offset = 0x20 \<rparr>]"
proof -
  have "list_all ne_bundle_wf
      [UnusedBundle 2, FixedBundle 2 [(1, 0x10)], MovableBundle [(1, 0xCD, 0x3F, 3, 0x20)]]"
    by (simp add: ENTRY_UNUSED_def ENTRY_MOVABLE_def)
  from ne_entry_table_roundtrip [OF this, of "[7]"] show ?thesis by simp
qed

text \<open>
  A table cut right behind a bundle's count byte makes the parser index past its end:
  the code panics there instead of reporting an error.
\<close>

theorem ne_entry_table_truncated_panics:
  assumes "list_all ne_bundle_wf bs" "c \<noteq> 0"
  shows "parse_entry_table (concat (map enc_ne_bundle bs) @ [c]) = None"
  using parse_entries_layout [OF assms(1), of 1 "[c]"] assms(2)
  by (simp add: parse_entry_table_def)

text \<open>The one-byte table \<^verbatim>\<open>[5]\<close>.\<close>

theorem ne_entry_table_truncated_panics_witness: "parse_entry_table [5] = None"
  using ne_entry_table_truncated_panics [of "[]" 5] by simp

section \<open>Layout of the name tables\<close>

definition enc_ne_name :: "ustring \<times> u16 \<Rightarrow> u8 list" where
  "enc_ne_name n = of_nat (length (fst n)) # ascii_bytes (fst n) @ le_bytes 2 (snd n)"

definition ne_name_wf :: "ustring \<times> u16 \<Rightarrow> bool" where
  "ne_name_wf n \<longleftrightarrow> is_ascii (fst n) \<and> 0 < length (fst n) \<and> length (fst n) < 256"

lemma parse_name_table_layout:
  "list_all ne_name_wf ns \<Longrightarrow>
    parse_name_table (concat (map enc_ne_name ns) @ tl1) = ns @ parse_name_table tl1"
proof (induction ns)
  case (Cons n ns)
  then have w: "is_ascii (fst n)" "unat (of_nat (length (fst n)) :: u8) = length (fst n)"
    "0 < length (fst n)" by (auto simp: ne_name_wf_def of_nat_u8_nonzero)
  have l: "length (ascii_bytes (fst n)) = length (fst n)" by (simp add: ascii_bytes_def)
  let ?d = "ascii_bytes (fst n) @ le_bytes 2 (snd n) @ (concat (map enc_ne_name ns) @ tl1)"
  have 1: "take (length (fst n)) ?d = ascii_bytes (fst n)"
    and 2: "drop (length (fst n)) ?d = le_bytes 2 (snd n) @ (concat (map enc_ne_name ns) @ tl1)"
    and 3: "drop (length (fst n) + 2) ?d = concat (map enc_ne_name ns) @ tl1"
    using l by simp_all
  have 4: "\<not> length ?d < length (fst n) + 2" by (simp add: l)
  have "parse_name_table (of_nat (length (fst n)) # ?d) =
      (fst n, snd n) # parse_name_table (concat (map enc_ne_name ns) @ tl1)"
    unfolding parse_name_table.simps Let_def w(2) 1 2 3 using 4 w(1,3)
    by (simp add: from_utf8_lossy_ascii buf_u16_def le_bytes_2 le_word_2 del: le_word.simps)
  then show ?case using Cons by (simp add: enc_ne_name_def [of n])
qed simp

text \<open>
  A name table of ASCII names is read back exactly, up to its zero-length terminator; a
  last entry whose bytes are cut off is dropped and the complete ones before it are kept.
\<close>

theorem ne_name_table_roundtrip:
  assumes "list_all ne_name_wf ns"
  shows "parse_name_table (concat (map enc_ne_name ns) @ 0 # junk) = ns
    \<and> (length rest < unat len + 2 \<longrightarrow>
         parse_name_table (concat (map enc_ne_name ns) @ len # rest) = ns)"
  using parse_name_table_layout [OF assms, of "0 # junk"]
    parse_name_table_layout [OF assms, of "len # rest"] by (auto simp: Let_def)

text \<open>The module name \<^verbatim>\<open>AB\<close> with ordinal 0, then a cut-off entry of 9 characters.\<close>

theorem ne_name_table_roundtrip_witness:
  "parse_name_table (concat (map enc_ne_name [([65, 66], 0)]) @ 9 # [67, 68]) = [([65, 66], 0)]"
proof -
  have "list_all ne_name_wf [([65, 66], 0)]" by (simp add: ne_name_wf_def is_ascii_def)
  from ne_name_table_roundtrip [OF this, of "[]" "[67, 68]" 9] show ?thesis by simp
qed

end
