(* ===== verification/NE_Parser.thy ===== *)
theory NE_Parser
  imports NE_Format
begin

text \<open>
  The NE file parser (\<^verbatim>\<open>src/src/ne.rs\<close>): \<^verbatim>\<open>NeFile::parse\<close>, one definition per step, and the
  queries on a parsed file. Logging (\<^verbatim>\<open>debug!\<close>, \<^verbatim>\<open>warn!\<close>) is left out; it has no effect on the
  result. A table whose announced end lies before its start has size 0, as in the source.
\<close>

section \<open>Data\<close>

record ne_file =
  nef_header :: ne_header
  nef_segment_table :: "ne_segment_entry list"
  nef_relocations_by_segment :: "ne_relocation_entry list list"
  nef_imported_modules :: "ustring list"
  nef_entries :: "ne_entry list"
  nef_resident_names :: "(ustring \<times> u16) list"
  nef_non_resident_names :: "(ustring \<times> u16) list"
  nef_imported_names_data :: "u8 list"
  nef_ne_offset :: nat

section \<open>The steps of the parser\<close>

definition read_ne_mz_header :: "nat rd" where
  "read_ne_mz_header =
    rd_bind (read_exact 64) (\<lambda>mz_buf.
    if mz_buf ! 0 \<noteq> 0x4D \<or> mz_buf ! 1 \<noteq> 0x5A
      then rd_fail (InvalidData ''Not a valid MZ executable'')
    else if unat (buf_u32 mz_buf 60) < 64 then rd_fail (InvalidData ''Invalid e_lfanew'')
    else rd_return (unat (buf_u32 mz_buf 60)))"

definition validate_ne_header :: "ne_header \<Rightarrow> unit rd" where
  "validate_ne_header h =
    (if 255 < ne_segment_count h then rd_fail (InvalidData ''Excessive NE segment count'')
     else rd_return ())"

definition read_segment_table :: "nat \<Rightarrow> ne_header \<Rightarrow> ne_segment_entry list rd" where
  "read_segment_table ne_offset h =
    rd_bind (rd_seek (ne_offset + unat (ne_segment_table_offset h))) (\<lambda>_.
    rd_times (unat (ne_segment_count h)) read_ne_segment_entry)"

definition read_imported_names_data :: "nat \<Rightarrow> ne_header \<Rightarrow> u8 list rd" where
  "read_imported_names_data ne_offset h =
    (let imported_names_pos = ne_offset + unat (ne_imported_names_table_offset h);
         imported_names_end = ne_offset + unat (ne_entry_table_offset h);
         imported_names_size =
           (if imported_names_pos < imported_names_end then imported_names_end - imported_names_pos
            else 0) in
     if 0 < imported_names_size
     then rd_bind (rd_seek imported_names_pos) (\<lambda>_. read_exact imported_names_size)
     else rd_return [])"

text \<open>The length-prefixed name at an offset of the imported names table, if it fits.\<close>

definition name_at :: "u8 list \<Rightarrow> nat \<Rightarrow> ustring option" where
  "name_at data off =
    (if length data \<le> off then None
     else let len = unat (data ! off) in
       if length data < off + 1 + len then None
       else Some (from_utf8_lossy (take len (drop (off + 1) data))))"

definition read_module_ref :: "u8 list \<Rightarrow> ustring rd" where
  "read_module_ref imported_names_data =
    rd_map (\<lambda>name_offset. case name_at imported_names_data (unat name_offset) of
        Some name \<Rightarrow> name | None \<Rightarrow> [])
      read_u16"

definition read_module_refs :: "nat \<Rightarrow> ne_header \<Rightarrow> u8 list \<Rightarrow> ustring list rd" where
  "read_module_refs ne_offset h imported_names_data =
    rd_bind (rd_seek (ne_offset + unat (ne_module_ref_table_offset h))) (\<lambda>_.
    rd_times (unat (ne_module_ref_count h)) (read_module_ref imported_names_data))"

definition read_ne_entry_table :: "nat \<Rightarrow> ne_header \<Rightarrow> ne_entry list rd" where
  "read_ne_entry_table ne_offset h =
    rd_bind (rd_seek (ne_offset + unat (ne_entry_table_offset h))) (\<lambda>_.
    rd_bind (read_exact (unat (ne_entry_table_size h))) (\<lambda>entry_data.
    case parse_entry_table entry_data of
      None \<Rightarrow> rd_fail Panicked
    | Some entries \<Rightarrow> rd_return entries))"

definition read_resident_names :: "nat \<Rightarrow> ne_header \<Rightarrow> (ustring \<times> u16) list rd" where
  "read_resident_names ne_offset h =
    (let res_name_pos = ne_offset + unat (ne_resident_name_table_offset h);
         res_name_end = ne_offset + unat (ne_module_ref_table_offset h);
         res_name_size = (if res_name_pos < res_name_end then res_name_end - res_name_pos else 0) in
     if 0 < res_name_size
     then rd_bind (rd_seek res_name_pos) (\<lambda>_. rd_map parse_name_table (read_exact res_name_size))
     else rd_return [])"

definition read_non_resident_names :: "ne_header \<Rightarrow> (ustring \<times> u16) list rd" where
  "read_non_resident_names h =
    (if 0 < ne_non_resident_name_table_file_offset h \<and> 0 < ne_non_resident_name_table_size h
     then rd_bind (rd_seek (unat (ne_non_resident_name_table_file_offset h))) (\<lambda>_.
          rd_map parse_name_table (read_exact (unat (ne_non_resident_name_table_size h))))
     else rd_return [])"

definition read_segment_relocations :: "u16 \<Rightarrow> ne_segment_entry \<Rightarrow> ne_relocation_entry list rd" where
  "read_segment_relocations shift seg =
    (if seg_has_relocations seg \<and> 0 < seg_data_offset seg then
       (let seg_data_end = file_offset seg shift + ucast (actual_data_length seg) in
        rd_bind (rd_seek (unat seg_data_end)) (\<lambda>_.
        rd_bind read_u16 (\<lambda>reloc_count.
        rd_times (unat reloc_count) read_ne_relocation_entry)))
     else rd_return [])"

primrec read_relocations :: "u16 \<Rightarrow> ne_segment_entry list \<Rightarrow> ne_relocation_entry list list rd" where
  "read_relocations shift [] = rd_return []"
| "read_relocations shift (seg # segs) =
    rd_bind (read_segment_relocations shift seg) (\<lambda>relocs.
    rd_bind (read_relocations shift segs) (\<lambda>rest.
    rd_return (relocs # rest)))"

definition ne_parse :: "ne_file rd" where
  "ne_parse =
    rd_bind read_ne_mz_header (\<lambda>ne_offset.
    rd_bind (read_ne_header ne_offset) (\<lambda>header.
    rd_bind (validate_ne_header header) (\<lambda>_.
    rd_bind (read_segment_table ne_offset header) (\<lambda>segment_table.
    rd_bind (read_imported_names_data ne_offset header) (\<lambda>imported_names_data.
    rd_bind (read_module_refs ne_offset header imported_names_data) (\<lambda>imported_modules.
    rd_bind (read_ne_entry_table ne_offset header) (\<lambda>entries.
    rd_bind (read_resident_names ne_offset header) (\<lambda>resident_names.
    rd_bind (read_non_resident_names header) (\<lambda>non_resident_names.
    rd_bind (read_relocations (ne_alignment_shift_count header) segment_table) (\<lambda>relocs.
    rd_return \<lparr> nef_header = header, nef_segment_table = segment_table,
      nef_relocations_by_segment = relocs, nef_imported_modules = imported_modules,
      nef_entries = entries, nef_resident_names = resident_names,
      nef_non_resident_names = non_resident_names,
      nef_imported_names_data = imported_names_data, nef_ne_offset = ne_offset \<rparr>))))))))))"

section \<open>Queries\<close>

definition get_imported_name :: "ne_file \<Rightarrow> u16 \<Rightarrow> ustring option" where
  "get_imported_name f offset = name_at (nef_imported_names_data f) (unat offset)"

definition resolve_entry :: "ne_file \<Rightarrow> u16 \<Rightarrow> (u8 \<times> u16) option" where
  "resolve_entry f ordinal =
    map_option (\<lambda>e. (ent_segment_num e, ent_offset e))
      (find (\<lambda>e. ent_ordinal e = ordinal) (nef_entries f))"

definition ne_module_name :: "ne_file \<Rightarrow> ustring option" where
  "ne_module_name f =
    (case nef_resident_names f of
       [] \<Rightarrow> None
     | (name, ord) # _ \<Rightarrow> if ord = 0 then Some name else None)"

section \<open>Lemmas\<close>

lemma read_relocations_shape:
  "read_relocations shift segs d p = Inr (rss, q) \<Longrightarrow>
    list_all2 (\<lambda>seg rs. rs \<noteq> [] \<longrightarrow> seg_has_relocations seg \<and> 0 < seg_data_offset seg) segs rss"
proof (induction segs arbitrary: p rss q)
  case (Cons seg segs)
  then obtain rs p1 rest p2 where "read_segment_relocations shift seg d p = Inr (rs, p1)"
    "read_relocations shift segs d p1 = Inr (rest, p2)" "rss = rs # rest"
    by (auto simp: rd_bind_Inr rd_return_def)
  with Cons.IH show ?case
    by (auto simp: read_segment_relocations_def rd_return_def split: if_splits)
qed (simp add: rd_return_def)

lemma unat_file_offset:
  assumes "unat shift < 48"
  shows "unat (file_offset seg shift) = unat (seg_data_offset seg) * 2 ^ unat shift"
proof -
  have u: "unat (ucast (seg_data_offset seg) :: u64) = unat (seg_data_offset seg)"
  proof -
    have "unat (seg_data_offset seg) < 2 ^ 64" by (rule less_trans [OF unat_u16_lt]) simp
    then show ?thesis by (simp add: unsigned_ucast_eq take_bit_nat_eq_self)
  qed
  have "unat (seg_data_offset seg) * 2 ^ unat shift < 2 ^ 16 * 2 ^ unat shift"
    using unat_u16_lt [of "seg_data_offset seg"] by simp
  also have "\<dots> \<le> 2 ^ 16 * (2 ^ 48 :: nat)"
    using assms by (intro mult_le_mono power_increasing) auto
  finally have "unat (seg_data_offset seg) * 2 ^ unat shift < 2 ^ 64" by simp
  then have t: "take_bit 64 (push_bit (unat shift) (unat (seg_data_offset seg))) =
      unat (seg_data_offset seg) * 2 ^ unat shift"
    by (simp add: push_bit_eq_mult take_bit_nat_eq_self)
  have "unat (file_offset seg shift) =
      take_bit 64 (push_bit (unat shift) (unat (ucast (seg_data_offset seg) :: u64)))"
    using assms by (simp add: file_offset_def unsigned_push_bit_eq)
  then show ?thesis by (simp only: u t)
qed

section \<open>Properties\<close>

text \<open>
  A segment's file offset is its sector number times the sector size, exactly, for every
  alignment shift below 48. Larger shifts are not rejected by the parser: from 64 on the shift
  amount wraps around, so that shift 64 reads the segment as if sectors were one byte.
\<close>

theorem ne_file_offset_exact:
  "(unat shift < 48 \<longrightarrow>
      unat (file_offset seg shift) = unat (seg_data_offset seg) * 2 ^ unat shift)
   \<and> file_offset seg 64 = ucast (seg_data_offset seg)"
  by (simp add: unat_file_offset) (simp add: file_offset_def)

text \<open>Sector 9 of 16 bytes.\<close>

theorem ne_file_offset_exact_witness:
  "unat (file_offset \<lparr> seg_data_offset = 9, seg_data_length = 4, seg_flags = 0,
     seg_min_alloc_size = 0 \<rparr> 4) = 144"
  using ne_file_offset_exact [of 4 "\<lparr> seg_data_offset = 9, seg_data_length = 4, seg_flags = 0,
     seg_min_alloc_size = 0 \<rparr>"] by simp

text \<open>
  What the NE parser accepts: the NE header lies behind the MZ header, there are at most
  255 segments, the segment table has the announced length, every segment has its own list of
  relocations, empty unless the segment says it has relocations and has data in the file,
  and one name was produced per module reference. The parser is total: no file makes it loop.
\<close>

theorem ne_parse_validated:
  assumes "ne_parse d p = Inr (f, q)"
  shows "64 \<le> nef_ne_offset f \<and> unat (ne_segment_count (nef_header f)) \<le> 255
    \<and> length (nef_segment_table f) = unat (ne_segment_count (nef_header f))
    \<and> length (nef_imported_modules f) = unat (ne_module_ref_count (nef_header f))
    \<and> list_all2 (\<lambda>seg rs. rs \<noteq> [] \<longrightarrow> seg_has_relocations seg \<and> 0 < seg_data_offset seg)
        (nef_segment_table f) (nef_relocations_by_segment f)"
proof -
  from assms obtain ne h where mz: "\<exists>p q. read_ne_mz_header d p = Inr (ne, q)"
    and o: "nef_ne_offset f = ne" and h: "nef_header f = h"
    and v: "\<exists>p q. validate_ne_header h d p = Inr ((), q)"
    and st: "\<exists>p q. read_segment_table ne h d p = Inr (nef_segment_table f, q)"
    and im: "\<exists>p q. read_module_refs ne h (nef_imported_names_data f) d p =
        Inr (nef_imported_modules f, q)"
    and rl: "\<exists>p q. read_relocations (ne_alignment_shift_count h) (nef_segment_table f) d p =
        Inr (nef_relocations_by_segment f, q)"
    unfolding ne_parse_def rd_bind_Inr rd_return_def by force
  have "64 \<le> ne"
    using mz by (auto simp: read_ne_mz_header_def rd_bind_Inr rd_fail_def rd_return_def split: if_splits)
  moreover have "unat (ne_segment_count h) \<le> 255"
    using v by (auto simp: validate_ne_header_def rd_fail_def rd_return_def word_less_nat_alt
        split: if_splits)
  ultimately show ?thesis using o h st im read_relocations_shape rl
    by (auto simp: read_segment_table_def read_module_refs_def rd_bind_Inr rd_seek_def
        dest!: rd_times_length)
qed

text \<open>A one-segment program with one relocation, an import by ordinal.\<close>

definition example_ne :: "u8 list" where
  "example_ne = [
    77, 90, 0, 0, 0, 0, 0, 0, 0, 0, 0, 0, 0, 0, 0, 0, 0, 0, 0, 0, 0, 0, 0, 0,
    0, 0, 0, 0, 0, 0, 0, 0, 0, 0, 0, 0, 0, 0, 0, 0, 0, 0, 0, 0, 0, 0, 0, 0,
    0, 0, 0, 0, 0, 0, 0, 0, 0, 0, 0, 0, 64, 0, 0, 0, 78, 69, 5, 1, 72, 0, 1, 0,
    0, 0, 0, 0, 0, 0, 0, 0, 0, 0, 0, 0, 0, 0, 0, 0, 0, 0, 0, 0, 1, 0, 0, 0,
    0, 0, 64, 0, 0, 0, 72, 0, 72, 0, 72, 0, 0, 0, 0, 0, 0, 0, 4, 0, 0, 0, 1, 0,
    0, 0, 0, 0, 0, 0, 0, 0, 9, 0, 4, 0, 0, 1, 0, 1, 0, 0, 0, 0, 0, 0, 0, 0,
    144, 144, 144, 144, 1, 0, 3, 1, 2, 0, 1, 0, 5, 0]"

lemma example_ne_header: "\<exists>h q. read_ne_header 64 example_ne p = Inr (h, q) \<and>
    ne_segment_count h = 1 \<and> ne_segment_table_offset h = 64 \<and> ne_entry_table_offset h = 72 \<and>
    ne_entry_table_size h = 1 \<and> ne_imported_names_table_offset h = 72 \<and>
    ne_module_ref_table_offset h = 72 \<and> ne_module_ref_count h = 0 \<and>
    ne_resident_name_table_offset h = 72 \<and> ne_non_resident_name_table_file_offset h = 0 \<and>
    ne_alignment_shift_count h = 4"
  by (simp add: read_ne_header_def rd_bind_def rd_seek_def read_exact_def example_ne_def
      buf_u32_def buf_u16_def rd_return_def)

lemma example_ne_bytes:
  "read_exact 64 example_ne 0 = Inr (take 64 example_ne, 64)"
  "read_exact 8 example_ne 128 = Inr ([9, 0, 4, 0, 0, 1, 0, 1], 136)"
  "read_exact (Suc 0) example_ne 136 = Inr ([0], 137)"
  "read_exact 2 example_ne 148 = Inr ([1, 0], 150)"
  "read_exact 8 example_ne 150 = Inr ([3, 1, 2, 0, 1, 0, 5, 0], 158)"
  by (simp_all add: read_exact_def example_ne_def)

lemma example_ne_parses:
  "\<exists>f q. ne_parse example_ne 0 = Inr (f, q) \<and>
     map (map rel_target) (nef_relocations_by_segment f) = [[ImportOrdinal 1 5]]"
proof -
  obtain h q where h: "\<exists>q. read_ne_header 64 example_ne 64 = Inr (h, q)"
    "ne_segment_count h = 1" "ne_segment_table_offset h = 64" "ne_entry_table_offset h = 72"
    "ne_entry_table_size h = 1" "ne_imported_names_table_offset h = 72"
    "ne_module_ref_table_offset h = 72" "ne_module_ref_count h = 0"
    "ne_resident_name_table_offset h = 72" "ne_non_resident_name_table_file_offset h = 0"
    "ne_alignment_shift_count h = 4"
    using example_ne_header [of 64] by blast
  have mz: "read_ne_mz_header example_ne 0 = Inr (64, 64)"
    by (simp add: read_ne_mz_header_def rd_bind_def example_ne_bytes rd_return_def)
      (simp add: example_ne_def buf_u32_def)
  obtain q where q: "read_ne_header 64 example_ne 64 = Inr (h, q)" using h(1) by blast
  show ?thesis
    by (simp add: ne_parse_def rd_bind_def mz q h validate_ne_header_def read_segment_table_def
        rd_seek_def read_ne_segment_entry_def example_ne_bytes rd_return_def
        read_imported_names_data_def read_module_refs_def read_ne_entry_table_def
        parse_entry_table_def read_resident_names_def read_non_resident_names_def
        read_segment_relocations_def seg_has_relocations_def buf_u16_def
        file_offset_def actual_data_length_def read_u16_def rd_map_def read_ne_relocation_entry_def
        push_bit_eq_mult)
qed

theorem ne_parse_validated_witness:
  "\<exists>f q. ne_parse example_ne 0 = Inr (f, q) \<and>
     length (nef_segment_table f) = unat (ne_segment_count (nef_header f))"
  using example_ne_parses ne_parse_validated by blast

end
