(* ===== verification/Constants.thy ===== *)
theory Constants
  imports Prelude
begin

text \<open>
  The layout constants of \<^verbatim>\<open>src/src/loader/constants.rs\<close>: where the API thunks, the descriptor
  tables and the dynamic memory live in the guest address space, and how the flat ordinals of
  the built-in modules are laid out in windows of 1024.
\<close>

definition MAGIC_API_BASE :: u64 where "MAGIC_API_BASE = 0x01000000"
definition EXIT_TRAP_ADDR :: u32 where "EXIT_TRAP_ADDR = 0x010003FF"
definition CALLBACK_RET_TRAP :: u32 where "CALLBACK_RET_TRAP = 0x010003FE"
definition DYNAMIC_ALLOC_BASE :: u32 where "DYNAMIC_ALLOC_BASE = 0x02000000"

definition PMWIN_BASE :: u32 where "PMWIN_BASE = 2048"
definition PMGPI_BASE :: u32 where "PMGPI_BASE = 3072"
definition KBDCALLS_BASE :: u32 where "KBDCALLS_BASE = 4096"
definition VIOCALLS_BASE :: u32 where "VIOCALLS_BASE = 5120"
definition SESMGR_BASE :: u32 where "SESMGR_BASE = 6144"
definition NLS_BASE :: u32 where "NLS_BASE = 7168"
definition MSG_BASE :: u32 where "MSG_BASE = 8192"
definition MDM_BASE :: u32 where "MDM_BASE = 10240"
definition UCONV_BASE :: u32 where "UCONV_BASE = 12288"
definition SO32DLL_BASE :: u32 where "SO32DLL_BASE = 13312"
definition TCP32DLL_BASE :: u32 where "TCP32DLL_BASE = 14336"
definition STUB_AREA_SIZE :: u32 where "STUB_AREA_SIZE = 16384"

definition GDT_BASE :: u32 where "GDT_BASE = 0x00080000"
definition TILED_SEL_START_INDEX :: u32 where "TILED_SEL_START_INDEX = 6"
definition TILE_SIZE :: u32 where "TILE_SIZE = 0x10000"
definition NUM_TILES :: u32 where "NUM_TILES = 4096"
definition NUM_CODE_TILES :: u32 where "NUM_CODE_TILES = 2048"
definition TILED_CODE_START_INDEX :: u32 where
  "TILED_CODE_START_INDEX = TILED_SEL_START_INDEX + NUM_TILES"
definition IDT_BASE :: u32 where "IDT_BASE = 0x0008D000"
definition IDT_HANDLER_BASE :: u32 where "IDT_HANDLER_BASE = 0x0008D800"

lemmas module_bases = PMWIN_BASE_def PMGPI_BASE_def KBDCALLS_BASE_def VIOCALLS_BASE_def
  SESMGR_BASE_def NLS_BASE_def MSG_BASE_def MDM_BASE_def UCONV_BASE_def SO32DLL_BASE_def
  TCP32DLL_BASE_def STUB_AREA_SIZE_def MAGIC_API_BASE_def

lemmas tile_consts = GDT_BASE_def TILED_SEL_START_INDEX_def TILE_SIZE_def NUM_TILES_def
  NUM_CODE_TILES_def TILED_CODE_START_INDEX_def IDT_BASE_def IDT_HANDLER_BASE_def

end
