(* ===== verification/Api_Registry.thy ===== *)
theory Api_Registry
  imports Constants
begin

text \<open>
  The API registry (\<^verbatim>\<open>src/src/loader/api_registry.rs\<close>): the static table of registered API
  thunks, its binary search by flat ordinal (the search of the Rust standard library on
  slices), the linear search by name, and the routing of a flat ordinal to the registry or to
  one of the sub-dispatchers (\<^verbatim>\<open>handle_api_call_ex\<close> in \<^verbatim>\<open>api_dispatch.rs\<close>). An entry's handler, a
  closure over the loader, is not part of the table here.
\<close>

section \<open>The table\<close>

record api_entry =
  ae_ordinal :: u32
  ae_module :: ustring
  ae_name :: ustring
  ae_argc :: u8

definition api :: "u32 \<Rightarrow> string \<Rightarrow> string \<Rightarrow> u8 \<Rightarrow> api_entry" where
  "api ordinal md nm argc =
    \<lparr> ae_ordinal = ordinal, ae_module = ustr md, ae_name = ustr nm, ae_argc = argc \<rparr>"

definition REGISTRY_1 :: "api_entry list" where
  "REGISTRY_1 = [
    api 8 ''DOSCALLS'' ''DosGetInfoSeg'' 2,
    api 75 ''DOSCALLS'' ''DosQueryFileMode16'' 2,
    api 84 ''DOSCALLS'' ''DosSetFileMode'' 2,
    api 110 ''DOSCALLS'' ''DosForceDelete'' 1,
    api 111 ''DOSCALLS'' ''DosKillThread'' 1,
    api 209 ''DOSCALLS'' ''DosSetMaxFH'' 1,
    api 210 ''DOSCALLS'' ''DosSetVerify'' 1,
    api 212 ''DOSCALLS'' ''DosError'' 1,
    api 218 ''DOSCALLS'' ''DosSetFileInfo'' 4,
    api 219 ''DOSCALLS'' ''DosSetPathInfo'' 5,
    api 220 ''DOSCALLS'' ''DosSetDefaultDisk'' 1,
    api 221 ''DOSCALLS'' ''DosSetFHState'' 2,
    api 223 ''DOSCALLS'' ''DosQueryPathInfo'' 4,
    api 224 ''DOSCALLS'' ''DosQueryHType'' 3,
    api 225 ''DOSCALLS'' ''DosQueryVerify'' 1,
    api 226 ''DOSCALLS'' ''DosDeleteDir'' 1,
    api 227 ''DOSCALLS'' ''DosScanEnv'' 2,
    api 229 ''DOSCALLS'' ''DosSleep'' 1,
    api 230 ''DOSCALLS'' ''DosGetDateTime'' 1,
    api 231 ''DOSCALLS'' ''DosDevConfig'' 2,
    api 234 ''DOSCALLS'' ''DosExit'' 2,
    api 235 ''DOSCALLS'' ''DosKillProcess'' 2,
    api 236 ''DOSCALLS'' ''DosSetPriority'' 4,
    api 239 ''DOSCALLS'' ''DosCreatePipe'' 3,
    api 241 ''DOSCALLS'' ''DosConnectNPipe'' 1,
    api 243 ''DOSCALLS'' ''DosCreateNPipe'' 6,
    api 250 ''DOSCALLS'' ''DosSetNPHState'' 2,
    api 254 ''DOSCALLS'' ''DosResetBuffer'' 1,
    api 255 ''DOSCALLS'' ''DosSetCurrentDir'' 1,
    api 256 ''DOSCALLS'' ''DosSetFilePtr'' 4,
    api 257 ''DOSCALLS'' ''DosClose'' 1,
    api 258 ''DOSCALLS'' ''DosCopy'' 3,
    api 259 ''DOSCALLS'' ''DosDelete'' 1,
    api 260 ''DOSCALLS'' ''DosDupHandle'' 2,
    api 261 ''DOSCALLS'' ''DosEditName'' 5,
    api 263 ''DOSCALLS'' ''DosFindClose'' 1,
    api 264 ''DOSCALLS'' ''DosFindFirst'' 7,
    api 265 ''DOSCALLS'' ''DosFindNext'' 4,
    api 267 ''DOSCALLS'' ''DOS16REQUESTVDD'' 3,
    api 270 ''DOSCALLS'' ''DosCreateDir'' 2,
    api 271 ''DOSCALLS'' ''DosMove'' 2,
    api 272 ''DOSCALLS'' ''DosSetFileSize'' 2,
    api 273 ''DOSCALLS'' ''DosOpen'' 7,
    api 274 ''DOSCALLS'' ''DosQueryCurrentDir'' 3,
    api 275 ''DOSCALLS'' ''DosQueryCurrentDisk'' 2,
    api 276 ''DOSCALLS'' ''DosQueryFHState'' 2,
    api 277 ''DOSCALLS'' ''DosQueryFSAttach'' 5]"

definition REGISTRY_2 :: "api_entry list" where
  "REGISTRY_2 = [
    api 278 ''DOSCALLS'' ''DosQueryFSInfo'' 4,
    api 279 ''DOSCALLS'' ''DosQueryFileInfo'' 4,
    api 280 ''DOSCALLS'' ''DosWaitChild'' 5,
    api 281 ''DOSCALLS'' ''DosRead'' 4,
    api 282 ''DOSCALLS'' ''DosWrite'' 4,
    api 283 ''DOSCALLS'' ''DosExecPgm'' 7,
    api 284 ''DOSCALLS'' ''DosDevIOCtl'' 9,
    api 285 ''DOSCALLS'' ''DosFSCtl'' 7,
    api 286 ''DOSCALLS'' ''DosBeep'' 2,
    api 289 ''DOSCALLS'' ''DosSetProcessCp'' 1,
    api 291 ''DOSCALLS'' ''DosQueryCp'' 3,
    api 292 ''DOSCALLS'' ''DosSetDateTime'' 1,
    api 299 ''DOSCALLS'' ''DosAllocMem'' 2,
    api 300 ''DOSCALLS'' ''DosAllocSharedMem'' 4,
    api 301 ''DOSCALLS'' ''DosGetNamedSharedMem'' 3,
    api 302 ''DOSCALLS'' ''DosGetSharedMem'' 2,
    api 304 ''DOSCALLS'' ''DosFreeMem'' 1,
    api 305 ''DOSCALLS'' ''DosSetMem'' 3,
    api 306 ''DOSCALLS'' ''DosQueryMem'' 3,
    api 311 ''DOSCALLS'' ''DosCreateThread'' 5,
    api 312 ''DOSCALLS'' ''DosGetInfoBlocks'' 2,
    api 317 ''DOSCALLS'' ''DosDebug'' 1,
    api 318 ''DOSCALLS'' ''DosLoadModule'' 4,
    api 319 ''DOSCALLS'' ''DosQueryModuleHandle'' 2,
    api 321 ''DOSCALLS'' ''DosQueryProcAddr'' 4,
    api 322 ''DOSCALLS'' ''DosFreeModule'' 1,
    api 323 ''DOSCALLS'' ''DosQueryAppType'' 2,
    api 324 ''DOSCALLS'' ''DosCreateEventSem'' 4,
    api 325 ''DOSCALLS'' ''DosOpenEventSem'' 2,
    api 326 ''DOSCALLS'' ''DosCloseEventSem'' 1,
    api 328 ''DOSCALLS'' ''DosPostEventSem'' 1,
    api 329 ''DOSCALLS'' ''DosWaitEventSem'' 2,
    api 331 ''DOSCALLS'' ''DosCreateMutexSem'' 4,
    api 332 ''DOSCALLS'' ''DosOpenMutexSem'' 2,
    api 333 ''DOSCALLS'' ''DosCloseMutexSem'' 1,
    api 334 ''DOSCALLS'' ''DosRequestMutexSem'' 2,
    api 335 ''DOSCALLS'' ''DosReleaseMutexSem'' 1,
    api 337 ''DOSCALLS'' ''DosCreateMuxWaitSem'' 5,
    api 339 ''DOSCALLS'' ''DosCloseMuxWaitSem'' 1,
    api 340 ''DOSCALLS'' ''DosWaitMuxWaitSem'' 3,
    api 342 ''DOSCALLS'' ''DosDeleteMuxWaitSem'' 2,
    api 348 ''DOSCALLS'' ''DosQuerySysInfo'' 4,
    api 349 ''DOSCALLS'' ''DosWaitThread'' 2,
    api 352 ''DOSCALLS'' ''DosGetResource'' 4,
    api 353 ''DOSCALLS'' ''DosFreeResource'' 1,
    api 354 ''DOSCALLS'' ''DosSetExceptionHandler'' 1,
    api 355 ''DOSCALLS'' ''DosUnsetExceptionHandler'' 1]"

definition REGISTRY_3 :: "api_entry list" where
  "REGISTRY_3 = [
    api 356 ''DOSCALLS'' ''DosRaiseException'' 1,
    api 357 ''DOSCALLS'' ''DosUnwindException'' 4,
    api 368 ''DOSCALLS'' ''DosQuerySysState'' 5,
    api 372 ''DOSCALLS'' ''DosEnumAttribute'' 7,
    api 373 ''DOSCALLS'' ''DosQueryDBCSEnv'' 3,
    api 378 ''DOSCALLS'' ''DosSetSignalExceptionFocus'' 1,
    api 380 ''DOSCALLS'' ''DosEnterMustComplete'' 1,
    api 381 ''DOSCALLS'' ''DosExitMustComplete'' 1,
    api 382 ''DOSCALLS'' ''DosSetRelMaxFH'' 2,
    api 397 ''DOSCALLS'' ''DosQueryCtryInfo'' 4,
    api 415 ''DOSCALLS'' ''DosShutdown'' 1,
    api 418 ''DOSCALLS'' ''DosAcknowledgeSignalException'' 1,
    api 425 ''DOSCALLS'' ''DosFlatToSel'' 1,
    api 426 ''DOSCALLS'' ''DosSelToFlat'' 1,
    api 428 ''DOSCALLS'' ''DosSetFileLocks'' 5,
    api 572 ''DOSCALLS'' ''DosQueryResourceSize'' 4,
    api 639 ''DOSCALLS'' ''DosProtectSetFileLocks'' 6,
    api 873 ''DOSCALLS'' ''DosSetExtLIBPATH'' 2,
    api 874 ''DOSCALLS'' ''DosQueryExtLIBPATH'' 2,
    api (1024 + 9) ''QUECALLS'' ''DosReadQueue'' 8,
    api (1024 + 10) ''QUECALLS'' ''DosPurgeQueue'' 1,
    api (1024 + 11) ''QUECALLS'' ''DosCloseQueue'' 1,
    api (1024 + 12) ''QUECALLS'' ''DosQueryQueue'' 2,
    api (1024 + 14) ''QUECALLS'' ''DosWriteQueue'' 5,
    api (1024 + 15) ''QUECALLS'' ''DosOpenQueue'' 3,
    api (1024 + 16) ''QUECALLS'' ''DosCreateQueue'' 3,
    api (NLS_BASE + 5) ''NLS'' ''NlsQueryCp'' 3,
    api (NLS_BASE + 6) ''NLS'' ''NlsQueryCtryInfo'' 4,
    api (NLS_BASE + 7) ''NLS'' ''NlsMapCase'' 3,
    api (NLS_BASE + 8) ''NLS'' ''NlsGetDBCSEv'' 3,
    api (MSG_BASE + 3) ''MSG'' ''DosPutMessage'' 3,
    api (MSG_BASE + 6) ''MSG'' ''DosGetMessage'' 7,
    api (MDM_BASE + 1) ''MDM'' ''mciSendCommand'' 4,
    api (MDM_BASE + 2) ''MDM'' ''mciSendString'' 4,
    api (MDM_BASE + 3) ''MDM'' ''mciFreeBlock'' 1,
    api (MDM_BASE + 4) ''MDM'' ''mciGetLastError'' 3,
    api (UCONV_BASE + 1) ''UCONV'' ''UniCreateUconvObject'' 2,
    api (UCONV_BASE + 2) ''UCONV'' ''UniFreeUconvObject'' 1,
    api (UCONV_BASE + 3) ''UCONV'' ''UniUconvToUcs'' 6,
    api (UCONV_BASE + 4) ''UCONV'' ''UniUconvFromUcs'' 6,
    api (UCONV_BASE + 6) ''UCONV'' ''UniMapCpToUcsCp'' 3,
    api (SO32DLL_BASE + 1) ''SO32DLL'' ''accept'' 3,
    api (SO32DLL_BASE + 2) ''SO32DLL'' ''bind'' 3,
    api (SO32DLL_BASE + 3) ''SO32DLL'' ''connect'' 3,
    api (SO32DLL_BASE + 4) ''SO32DLL'' ''gethostid'' 0,
    api (SO32DLL_BASE + 5) ''SO32DLL'' ''gethostname'' 2,
    api (SO32DLL_BASE + 6) ''SO32DLL'' ''getpeername'' 3]"

definition REGISTRY_4 :: "api_entry list" where
  "REGISTRY_4 = [
    api (SO32DLL_BASE + 7) ''SO32DLL'' ''getsockname'' 3,
    api (SO32DLL_BASE + 8) ''SO32DLL'' ''getsockopt'' 5,
    api (SO32DLL_BASE + 10) ''SO32DLL'' ''listen'' 2,
    api (SO32DLL_BASE + 11) ''SO32DLL'' ''recv'' 4,
    api (SO32DLL_BASE + 12) ''SO32DLL'' ''recvfrom'' 6,
    api (SO32DLL_BASE + 13) ''SO32DLL'' ''select'' 5,
    api (SO32DLL_BASE + 14) ''SO32DLL'' ''send'' 4,
    api (SO32DLL_BASE + 15) ''SO32DLL'' ''sendto'' 6,
    api (SO32DLL_BASE + 16) ''SO32DLL'' ''setsockopt'' 5,
    api (SO32DLL_BASE + 17) ''SO32DLL'' ''shutdown'' 2,
    api (SO32DLL_BASE + 18) ''SO32DLL'' ''sock_errno'' 0,
    api (SO32DLL_BASE + 19) ''SO32DLL'' ''socket'' 3,
    api (SO32DLL_BASE + 20) ''SO32DLL'' ''soclose'' 1,
    api (SO32DLL_BASE + 21) ''SO32DLL'' ''psock_errno'' 1,
    api (SO32DLL_BASE + 22) ''SO32DLL'' ''sock_init'' 0,
    api (SO32DLL_BASE + 40) ''SO32DLL'' ''gethostbyname'' 1,
    api (SO32DLL_BASE + 41) ''SO32DLL'' ''gethostbyaddr'' 3,
    api (SO32DLL_BASE + 42) ''SO32DLL'' ''getservbyname'' 2,
    api (SO32DLL_BASE + 43) ''SO32DLL'' ''getservbyport'' 2,
    api (SO32DLL_BASE + 44) ''SO32DLL'' ''getprotobyname'' 1,
    api (SO32DLL_BASE + 45) ''SO32DLL'' ''getprotobynumber'' 1,
    api (TCP32DLL_BASE + 1) ''TCP32DLL'' ''accept'' 3,
    api (TCP32DLL_BASE + 2) ''TCP32DLL'' ''bind'' 3,
    api (TCP32DLL_BASE + 3) ''TCP32DLL'' ''connect'' 3,
    api (TCP32DLL_BASE + 6) ''TCP32DLL'' ''getpeername'' 3,
    api (TCP32DLL_BASE + 7) ''TCP32DLL'' ''getsockname'' 3,
    api (TCP32DLL_BASE + 8) ''TCP32DLL'' ''getsockopt'' 5,
    api (TCP32DLL_BASE + 10) ''TCP32DLL'' ''listen'' 2,
    api (TCP32DLL_BASE + 11) ''TCP32DLL'' ''recv'' 4,
    api (TCP32DLL_BASE + 12) ''TCP32DLL'' ''recvfrom'' 6,
    api (TCP32DLL_BASE + 13) ''TCP32DLL'' ''select'' 5,
    api (TCP32DLL_BASE + 14) ''TCP32DLL'' ''send'' 4,
    api (TCP32DLL_BASE + 15) ''TCP32DLL'' ''sendto'' 6,
    api (TCP32DLL_BASE + 16) ''TCP32DLL'' ''setsockopt'' 5,
    api (TCP32DLL_BASE + 17) ''TCP32DLL'' ''shutdown'' 2,
    api (TCP32DLL_BASE + 18) ''TCP32DLL'' ''sock_errno'' 0,
    api (TCP32DLL_BASE + 19) ''TCP32DLL'' ''socket'' 3,
    api (TCP32DLL_BASE + 20) ''TCP32DLL'' ''soclose'' 1,
    api (TCP32DLL_BASE + 22) ''TCP32DLL'' ''sock_init'' 0,
    api (TCP32DLL_BASE + 40) ''TCP32DLL'' ''gethostbyname'' 1,
    api (TCP32DLL_BASE + 41) ''TCP32DLL'' ''gethostbyaddr'' 3,
    api (TCP32DLL_BASE + 42) ''TCP32DLL'' ''getservbyname'' 2,
    api (TCP32DLL_BASE + 43) ''TCP32DLL'' ''getservbyport'' 2,
    api (TCP32DLL_BASE + 44) ''TCP32DLL'' ''getprotobyname'' 1,
    api (TCP32DLL_BASE + 45) ''TCP32DLL'' ''getprotobynumber'' 1]"

definition REGISTRY :: "api_entry list" where
  "REGISTRY = REGISTRY_1 @ REGISTRY_2 @ REGISTRY_3 @ REGISTRY_4"

section \<open>Searching\<close>

text \<open>
  The loop of \<^verbatim>\<open>binary_search_by\<close>: \<open>base\<close> and \<open>size\<close> delimit the candidates, the key of the middle
  element decides which half stays.
\<close>

function bs_loop :: "('a \<Rightarrow> u32) \<Rightarrow> 'a list \<Rightarrow> u32 \<Rightarrow> nat \<Rightarrow> nat \<Rightarrow> nat" where
  "bs_loop key xs k base sz =
    (if 1 < sz then
       let half = sz div 2; mid = base + half in
       bs_loop key xs k (if k < key (xs ! mid) then base else mid) (sz - half)
     else base)"
  by pat_completeness auto
termination
  by (relation "measure (\<lambda>(key, xs, k, base, sz). sz)") auto

declare bs_loop.simps [simp del]

definition binary_search_by_key :: "('a \<Rightarrow> u32) \<Rightarrow> 'a list \<Rightarrow> u32 \<Rightarrow> nat option" where
  "binary_search_by_key key xs k =
    (if xs = [] then None
     else let base = bs_loop key xs k 0 (length xs) in
       if key (xs ! base) = k then Some base else None)"

definition api_find :: "u32 \<Rightarrow> api_entry option" where
  "api_find ordinal =
    map_option (\<lambda>i. REGISTRY ! i) (binary_search_by_key ae_ordinal REGISTRY ordinal)"

definition find_by_module_and_name :: "ustring \<Rightarrow> ustring \<Rightarrow> u32 option" where
  "find_by_module_and_name md nm =
    map_option ae_ordinal (find (\<lambda>e. ae_module e = md \<and> ae_name e = nm) REGISTRY)"

section \<open>Routing\<close>

datatype api_route =
    RegistryEntry api_entry
  | PmwinCall u32
  | PmgpiCall u32
  | KbdCall u32
  | VioCall u32
  | UnknownOrdinal

definition api_route_of :: "u32 \<Rightarrow> api_route" where
  "api_route_of ordinal =
    (case api_find ordinal of
       Some entry \<Rightarrow> RegistryEntry entry
     | None \<Rightarrow>
         if PMWIN_BASE \<le> ordinal \<and> ordinal < PMGPI_BASE then PmwinCall (ordinal - PMWIN_BASE)
         else if PMGPI_BASE \<le> ordinal \<and> ordinal < KBDCALLS_BASE
           then PmgpiCall (ordinal - PMGPI_BASE)
         else if KBDCALLS_BASE \<le> ordinal \<and> ordinal < VIOCALLS_BASE
           then KbdCall (ordinal - KBDCALLS_BASE)
         else if VIOCALLS_BASE \<le> ordinal \<and> ordinal < SESMGR_BASE
           then VioCall (ordinal - VIOCALLS_BASE)
         else UnknownOrdinal)"

section \<open>Binary search finds\<close>

lemma bs_loop_bounds:
  "0 < sz \<Longrightarrow> base \<le> bs_loop key xs k base sz \<and> bs_loop key xs k base sz < base + sz"
proof (induction key xs k base sz rule: bs_loop.induct)
  case (1 key xs k base sz)
  show ?case
  proof (cases "1 < sz")
    case True
    let ?half = "sz div 2"
    let ?b = "if k < key (xs ! (base + ?half)) then base else base + ?half"
    have "0 < sz - ?half" using True by auto
    then have "?b \<le> bs_loop key xs k ?b (sz - ?half) \<and> bs_loop key xs k ?b (sz - ?half) < ?b + (sz - ?half)"
      using "1.IH" [OF True refl refl] by blast
    moreover have "bs_loop key xs k base sz = bs_loop key xs k ?b (sz - ?half)"
      using True by (subst bs_loop.simps) (simp add: Let_def)
    moreover have "base \<le> ?b" "?b + (sz - ?half) \<le> base + sz" by auto
    ultimately show ?thesis by linarith
  next
    case False
    with 1 show ?thesis by (simp add: bs_loop.simps)
  qed
qed

text \<open>If the key occurs at index \<open>i\<close> among the candidates, the loop ends at \<open>i\<close>.\<close>

lemma bs_loop_finds:
  assumes "sorted_wrt (\<lambda>a b. key a < key b) xs"
  shows "base \<le> i \<Longrightarrow> i < base + sz \<Longrightarrow> base + sz \<le> length xs \<Longrightarrow> key (xs ! i) = k \<Longrightarrow>
    bs_loop key xs k base sz = i"
  using assms
proof (induction key xs k base sz rule: bs_loop.induct)
  case (1 key xs k base sz)
  have mono: "key (xs ! a) < key (xs ! b)" if "a < b" "b < length xs" for a b
    using sorted_wrt_nth_less [OF "1.prems"(5)] that by blast
  show ?case
  proof (cases "1 < sz")
    case True
    let ?half = "sz div 2"
    have h: "0 < ?half" "?half < sz" using True by auto
    have eq: "bs_loop key xs k base sz =
        bs_loop key xs k (if k < key (xs ! (base + ?half)) then base else base + ?half) (sz - ?half)"
      using True by (subst bs_loop.simps) (simp add: Let_def)
    note ih = "1.IH" [OF True refl refl]
    show ?thesis
    proof (cases "i < base + ?half")
      case True
      then have lt: "k < key (xs ! (base + ?half))"
        using mono [of i "base + ?half"] h 1(2-5) by simp
      have "i < base + (sz - ?half)" using True by linarith
      then have "bs_loop key xs k base (sz - ?half) = i"
        using ih lt 1(2-6) by simp
      with lt eq show ?thesis by simp
    next
      case False
      then have ge: "\<not> k < key (xs ! (base + ?half))"
        using mono [of "base + ?half" i] h 1(2-5) by (cases "i = base + ?half") auto
      have "bs_loop key xs k (base + ?half) (sz - ?half) = i"
        using ih ge False h 1(2-6) by simp
      with ge eq show ?thesis by simp
    qed
  next
    case False
    with 1 show ?thesis by (simp add: bs_loop.simps)
  qed
qed

lemma binary_search_by_key_spec:
  assumes "sorted_wrt (\<lambda>a b. key a < key b) xs"
  shows "binary_search_by_key key xs k = Some i \<longleftrightarrow> i < length xs \<and> key (xs ! i) = k"
proof (cases "xs = []")
  case False
  have b: "bs_loop key xs k 0 (length xs) < length xs"
    using False bs_loop_bounds [of "length xs" 0 key xs k] by simp
  show ?thesis
  proof
    assume "binary_search_by_key key xs k = Some i"
    with b False show "i < length xs \<and> key (xs ! i) = k"
      by (auto simp: binary_search_by_key_def Let_def split: if_splits)
  next
    assume i: "i < length xs \<and> key (xs ! i) = k"
    then have "bs_loop key xs k 0 (length xs) = i"
      by (intro bs_loop_finds [OF assms]) auto
    with i False show "binary_search_by_key key xs k = Some i"
      by (simp add: binary_search_by_key_def)
  qed
qed (simp add: binary_search_by_key_def)

section \<open>The table is searchable\<close>

lemma ustr_inject [simp]: "ustr s = ustr t \<longleftrightarrow> s = t"
  by (simp add: ustr_def inj_map_eq_map inj_def)

lemmas registry_defs = REGISTRY_def REGISTRY_1_def REGISTRY_2_def REGISTRY_3_def REGISTRY_4_def

lemma api_ordinal [simp]: "ae_ordinal (api ordinal md nm argc) = ordinal"
  by (simp add: api_def)

definition ascending :: "api_entry list \<Rightarrow> bool" where
  "ascending = successively (\<lambda>a b. ae_ordinal a < ae_ordinal b)"

lemma registry_chunks:
  "ascending REGISTRY_1" "ascending REGISTRY_2" "ascending REGISTRY_3" "ascending REGISTRY_4"
  by (simp_all add: ascending_def registry_defs module_bases)

lemma registry_sorted: "sorted_wrt (\<lambda>a b. ae_ordinal a < ae_ordinal b) REGISTRY"
proof -
  have "successively (\<lambda>a b. ae_ordinal a < ae_ordinal b) REGISTRY"
    using registry_chunks unfolding ascending_def REGISTRY_def
    by (simp add: successively_append_iff) (simp add: registry_defs module_bases)
  moreover have "transp (\<lambda>a b. ae_ordinal a < ae_ordinal b)"
    by (auto simp: transp_def)
  ultimately show ?thesis by (metis successively_conv_sorted_wrt)
qed

lemma api_find_iff: "api_find ordinal = Some e \<longleftrightarrow> e \<in> set REGISTRY \<and> ae_ordinal e = ordinal"
proof -
  note s = binary_search_by_key_spec [OF registry_sorted, of ordinal]
  have "(\<exists>i. i < length REGISTRY \<and> ae_ordinal (REGISTRY ! i) = ordinal \<and> REGISTRY ! i = e) \<longleftrightarrow>
      e \<in> set REGISTRY \<and> ae_ordinal e = ordinal"
    by (auto simp: in_set_conv_nth)
  moreover have "api_find ordinal = Some e \<longleftrightarrow>
      (\<exists>i. i < length REGISTRY \<and> ae_ordinal (REGISTRY ! i) = ordinal \<and> REGISTRY ! i = e)"
    unfolding api_find_def using s by auto
  ultimately show ?thesis by simp
qed

section \<open>Properties\<close>

text \<open>
  \<^verbatim>\<open>find\<close> is exact on the registry: the binary search returns an entry if and only if it is
  in the table and has the requested ordinal, and the table holds at most one such entry. The
  table of 186 entries is strictly ascending, which the search relies on.
\<close>

theorem api_find_exact:
  "length REGISTRY = 186
   \<and> (api_find ordinal = Some e \<longleftrightarrow> e \<in> set REGISTRY \<and> ae_ordinal e = ordinal)
   \<and> (api_find ordinal = None \<longleftrightarrow> ordinal \<notin> ae_ordinal ` set REGISTRY)"
proof -
  have "length REGISTRY = 186" by (simp add: registry_defs)
  moreover have "api_find ordinal = None \<longleftrightarrow> ordinal \<notin> ae_ordinal ` set REGISTRY"
    using api_find_iff [of ordinal] by (metis image_iff not_None_eq)
  ultimately show ?thesis by (simp add: api_find_iff)
qed

end
