(* ===== verification/Descriptors.thy ===== *)
theory Descriptors
  imports Guest_Memory Managers Api_Registry
begin

text \<open>
  Descriptor tables and import resolution (\<^verbatim>\<open>src/src/loader/descriptors.rs\<close>), and the 16:16
  address translation of \<^verbatim>\<open>dos_flat_to_sel\<close> and \<^verbatim>\<open>dos_sel_to_flat\<close> (\<^verbatim>\<open>doscalls.rs\<close>). Building the
  tables is a sequence of guest memory stores: \<open>setup_idt\<close> lists them in the order of the
  source and executes them; a store out of bounds is the panic of the source's \<^verbatim>\<open>unwrap\<close>
  (\<open>None\<close>).
\<close>

section \<open>Descriptor entries\<close>

definition make_gdt_entry :: "u32 \<Rightarrow> u32 \<Rightarrow> u8 \<Rightarrow> u8 \<Rightarrow> u64" where
  "make_gdt_entry base limit access flags =
    (((((ucast (limit AND 0xFFFF)
      OR push_bit 16 (ucast (base AND 0xFFFF)))
      OR push_bit 32 (ucast (drop_bit 16 base AND 0xFF)))
      OR push_bit 40 (ucast access))
      OR push_bit 48 (ucast (drop_bit 16 limit AND 0x0F) OR (ucast flags AND 0xF0)))
      OR push_bit 56 (ucast (drop_bit 24 base AND 0xFF)))"

definition entry_base :: "u64 \<Rightarrow> u32" where
  "entry_base entry =
    (let base_lo = ucast (drop_bit 16 entry AND 0xFFFF);
         base_mid = ucast (drop_bit 32 entry AND 0xFF);
         base_hi = ucast (drop_bit 56 entry AND 0xFF) in
     base_lo OR push_bit 16 base_mid OR push_bit 24 base_hi)"

definition entry_limit :: "u64 \<Rightarrow> u32" where
  "entry_limit entry =
    (let limit_lo = ucast (entry AND 0xFFFF);
         limit_hi = ucast (drop_bit 48 entry AND 0x0F) in
     limit_lo OR push_bit 16 limit_hi)"

definition gdt_entry_at :: "guest_memory \<Rightarrow> u16 \<Rightarrow> u64" where
  "gdt_entry_at m selector =
    (let gdt_idx = ucast (selector div 8) in
     case gm_read m (GDT_BASE + gdt_idx * 8) of Some e \<Rightarrow> e | None \<Rightarrow> 0)"

definition gdt_entry_base :: "guest_memory \<Rightarrow> u16 \<Rightarrow> u32" where
  "gdt_entry_base m selector = entry_base (gdt_entry_at m selector)"

definition gdt_entry_limit :: "guest_memory \<Rightarrow> u16 \<Rightarrow> u32" where
  "gdt_entry_limit m selector = entry_limit (gdt_entry_at m selector)"

section \<open>Import resolution\<close>

definition resolve_import :: "dll_manager \<Rightarrow> ustring \<Rightarrow> u32 \<Rightarrow> u64" where
  "resolve_import dll_mgr md ordinal =
    (if md = ustr ''DOSCALLS'' then MAGIC_API_BASE + ucast ordinal
     else if md = ustr ''QUECALLS'' then MAGIC_API_BASE + 1024 + ucast ordinal
     else if md = ustr ''PMWIN'' then MAGIC_API_BASE + ucast PMWIN_BASE + ucast ordinal
     else if md = ustr ''PMGPI'' then MAGIC_API_BASE + ucast PMGPI_BASE + ucast ordinal
     else if md = ustr ''KBDCALLS'' then MAGIC_API_BASE + ucast KBDCALLS_BASE + ucast ordinal
     else if md = ustr ''VIOCALLS'' then MAGIC_API_BASE + ucast VIOCALLS_BASE + ucast ordinal
     else if md = ustr ''SESMGR'' then MAGIC_API_BASE + ucast SESMGR_BASE + ucast ordinal
     else if md = ustr ''NLS'' then MAGIC_API_BASE + ucast NLS_BASE + ucast ordinal
     else if md = ustr ''MSG'' then MAGIC_API_BASE + ucast MSG_BASE + ucast ordinal
     else if md = ustr ''MDM'' then MAGIC_API_BASE + ucast MDM_BASE + ucast ordinal
     else if md = ustr ''UCONV'' then MAGIC_API_BASE + ucast UCONV_BASE + ucast ordinal
     else if md = ustr ''SO32DLL'' then MAGIC_API_BASE + ucast SO32DLL_BASE + ucast ordinal
     else if md = ustr ''TCP32DLL'' then MAGIC_API_BASE + ucast TCP32DLL_BASE + ucast ordinal
     else case dm_resolve_ordinal dll_mgr md ordinal of
       Some addr \<Rightarrow> ucast addr
     | None \<Rightarrow> MAGIC_API_BASE + (ucast STUB_AREA_SIZE - 1))"

definition VIOCALLS_NAMES :: "(ustring \<times> u32) list" where
  "VIOCALLS_NAMES = [
    (ustr ''VioGetAnsi'', 3), (ustr ''VioSetAnsi'', 5), (ustr ''VioScrollUp'', 7),
    (ustr ''VioScrollDn'', 47), (ustr ''VioGetCurPos'', 9), (ustr ''VioWrtCellStr'', 10),
    (ustr ''VioSetCurPos'', 15), (ustr ''VioWrtTTY'', 19), (ustr ''VioGetMode'', 21),
    (ustr ''VioSetMode'', 22), (ustr ''VioReadCellStr'', 24), (ustr ''VioWrtNAttr'', 26),
    (ustr ''VioGetBuf'', 31), (ustr ''VioSetCurType'', 32), (ustr ''VioGetCurType'', 27),
    (ustr ''VioCheckCharType'', 39), (ustr ''VioSetCp'', 42), (ustr ''VioShowBuf'', 43),
    (ustr ''VioGetConfig'', 46), (ustr ''VioWrtCharStrAtt'', 48), (ustr ''VioSetState'', 51),
    (ustr ''VioWrtNCell'', 52)]"

definition KBDCALLS_NAMES :: "(ustring \<times> u32) list" where
  "KBDCALLS_NAMES = [
    (ustr ''KbdCharIn'', 4), (ustr ''KbdStringIn'', 9), (ustr ''KbdGetStatus'', 10),
    (ustr ''KbdFlushBuffer'', 6)]"

definition name_ordinal :: "(ustring \<times> u32) list \<Rightarrow> ustring \<Rightarrow> u32 option" where
  "name_ordinal table nm = map_option snd (find (\<lambda>e. fst e = nm) table)"

definition resolve_import_by_name :: "dll_manager \<Rightarrow> ustring \<Rightarrow> ustring \<Rightarrow> u64" where
  "resolve_import_by_name dll_mgr md proc_name =
    (let ordinal =
       (if md = ustr ''VIOCALLS'' then name_ordinal VIOCALLS_NAMES proc_name
        else if md = ustr ''KBDCALLS'' then name_ordinal KBDCALLS_NAMES proc_name
        else find_by_module_and_name md proc_name) in
     case ordinal of
       Some ord \<Rightarrow> resolve_import dll_mgr md ord
     | None \<Rightarrow> 0)"

section \<open>Building the tables\<close>

datatype guest_store = W8 u32 u8 | W16 u32 u16 | W64 u32 u64

fun exec_store :: "guest_memory \<Rightarrow> guest_store \<Rightarrow> guest_memory option" where
  "exec_store m (W8 a v) = gm_write m a v"
| "exec_store m (W16 a v) = gm_write m a v"
| "exec_store m (W64 a v) = gm_write m a v"

fun exec_stores :: "guest_memory \<Rightarrow> guest_store list \<Rightarrow> guest_memory option" where
  "exec_stores m [] = Some m"
| "exec_stores m (s # ss) = do { m' \<leftarrow> exec_store m s; exec_stores m' ss }"

definition setup_stubs :: "guest_memory \<Rightarrow> guest_memory option" where
  "setup_stubs m =
    exec_stores m (map (\<lambda>i. W8 (ucast MAGIC_API_BASE + of_nat i) 0xCC) [0..<unat STUB_AREA_SIZE])"

definition fixed_gdt_stores :: "guest_store list" where
  "fixed_gdt_stores =
    [W64 GDT_BASE 0,
     W64 (GDT_BASE + 8) (make_gdt_entry 0 0xFFFFF 0x9B 0xCF),
     W64 (GDT_BASE + 16) (make_gdt_entry 0 0xFFFFF 0x93 0xCF),
     W64 (GDT_BASE + 24) (make_gdt_entry 0 0xFFFFF 0x93 0xCF),
     W64 (GDT_BASE + 32) (make_gdt_entry 0 0xFFFF 0x93 0x00),
     W64 (GDT_BASE + 40) (make_gdt_entry 0 0xFFFF 0x9B 0x00)]"

definition data_tile_store :: "nat \<Rightarrow> guest_store" where
  "data_tile_store i =
    W64 (GDT_BASE + (TILED_SEL_START_INDEX + of_nat i) * 8)
      (make_gdt_entry (of_nat i * TILE_SIZE) 0xFFFF 0xD3 0x00)"

definition code_tile_store :: "nat \<Rightarrow> guest_store" where
  "code_tile_store i =
    W64 (GDT_BASE + (TILED_CODE_START_INDEX + of_nat i) * 8)
      (make_gdt_entry (of_nat i * TILE_SIZE) 0xFFFF 0x9B 0x00)"

definition has_error_code :: "nat \<Rightarrow> bool" where
  "has_error_code i \<longleftrightarrow> i \<in> {8, 10, 11, 12, 13, 14, 17}"

definition idt_stores :: "nat \<Rightarrow> guest_store list" where
  "idt_stores i =
    (let handler_addr = IDT_HANDLER_BASE + of_nat i * 16;
         off = (if has_error_code i then 0 else 2);
         idt_entry_addr = IDT_BASE + of_nat i * 8 in
     (if has_error_code i then []
      else [W8 handler_addr 0x6A, W8 (handler_addr + 1) 0x00]) @
     [W8 (handler_addr + off) 0x6A, W8 (handler_addr + off + 1) (of_nat i),
      W8 (handler_addr + (off + 2)) 0xCC,
      W16 idt_entry_addr (ucast (handler_addr AND 0xFFFF)),
      W16 (idt_entry_addr + 2) 0x08,
      W16 (idt_entry_addr + 4) 0x8E00,
      W16 (idt_entry_addr + 6) (ucast (drop_bit 16 handler_addr AND 0xFFFF))])"

definition setup_idt :: "guest_memory \<Rightarrow> guest_memory option" where
  "setup_idt m = exec_stores m
    (fixed_gdt_stores @
     map data_tile_store [0..<unat NUM_TILES] @
     map code_tile_store [0..<unat NUM_CODE_TILES] @
     concat (map idt_stores [0..<32]))"

section \<open>16:16 addresses\<close>

definition dos_flat_to_sel :: "u32 \<Rightarrow> u32" where
  "dos_flat_to_sel flat_addr =
    (let tile_index = drop_bit 16 flat_addr;
         offset = flat_addr AND 0xFFFF;
         selector = (TILED_SEL_START_INDEX + tile_index) * 8 in
     push_bit 16 selector OR offset)"

definition dos_sel_to_flat :: "u32 \<Rightarrow> u32" where
  "dos_sel_to_flat sel_off =
    (let selector = ucast (drop_bit 16 sel_off) :: u16;
         offset = sel_off AND 0xFFFF;
         gdt_index = ucast (selector div 8) :: u32 in
     if TILED_CODE_START_INDEX \<le> gdt_index
       then (gdt_index - TILED_CODE_START_INDEX) * TILE_SIZE + offset
     else if TILED_SEL_START_INDEX \<le> gdt_index
       then (gdt_index - TILED_SEL_START_INDEX) * TILE_SIZE + offset
     else offset)"

section \<open>Descriptor codec\<close>

lemma and_masks:
  "(x :: u32) AND 0xFFFF = take_bit 16 x" "x AND 0xFF = take_bit 8 x" "x AND 0x0F = take_bit 4 x"
  "x AND 0xFFFFF = take_bit 20 x"
  "(y :: u64) AND 0xFFFF = take_bit 16 y" "y AND 0xFF = take_bit 8 y" "y AND 0x0F = take_bit 4 y"
  "y AND 0xF0 = push_bit 4 (take_bit 4 (drop_bit 4 y))"
  subgoal by (simp add: take_bit_eq_mask mask_eq_exp_minus_1)
  subgoal by (simp add: take_bit_eq_mask mask_eq_exp_minus_1)
  subgoal by (simp add: take_bit_eq_mask mask_eq_exp_minus_1)
  subgoal by (simp add: take_bit_eq_mask mask_eq_exp_minus_1)
  subgoal by (simp add: take_bit_eq_mask mask_eq_exp_minus_1)
  subgoal by (simp add: take_bit_eq_mask mask_eq_exp_minus_1)
  subgoal by (simp add: take_bit_eq_mask mask_eq_exp_minus_1)
  subgoal
  proof -
    have f0: "(0xF0 :: u64) = push_bit 4 (mask 4)" by (simp add: mask_eq_exp_minus_1 push_bit_eq_mult)
    show ?thesis by (subst f0, rule bit_word_eqI) (auto simp: bit_simps less_diff_conv2)
  qed
  done

lemma bit_make: "bit (make_gdt_entry base limit access flags) k \<longleftrightarrow>
   (if k < 16 then bit limit k else if k < 40 then bit base (k - 16)
    else if k < 48 then bit access (k - 40) else if k < 52 then bit limit (k - 32)
    else if k < 56 then bit flags (k - 48) else k < 64 \<and> bit base (k - 32))"
proof -
  have acc: "\<not> bit access (k - 40)" if "48 \<le> k"
    using bit_imp_le_length [of access "k - 40"] that by auto
  consider "k < 16" | "16 \<le> k" "k < 32" | "32 \<le> k" "k < 40" | "40 \<le> k" "k < 48" | "48 \<le> k" "k < 52"
    | "52 \<le> k" "k < 56" | "56 \<le> k" "k < 64" | "64 \<le> k" by linarith
  then show ?thesis unfolding make_gdt_entry_def and_masks
    by cases (simp_all add: bit_simps less_diff_conv2 add.commute acc)
qed
lemma bit_base: "bit (entry_base e) k \<longleftrightarrow>
   (if k < 24 then bit e (k + 16) else k < 32 \<and> bit e (k + 32))"
proof -
  consider "k < 16" | "16 \<le> k" "k < 24" | "24 \<le> k" "k < 32" | "32 \<le> k" by linarith
  then show ?thesis unfolding entry_base_def and_masks Let_def
    by cases (simp_all add: bit_simps less_diff_conv2 add.commute)
qed
lemma bit_limit: "bit (entry_limit e) k \<longleftrightarrow>
   (if k < 16 then bit e k else k < 20 \<and> bit e (k + 32))"
proof -
  consider "k < 16" | "16 \<le> k" "k < 20" | "20 \<le> k" by linarith
  then show ?thesis unfolding entry_limit_def and_masks Let_def
    by cases (simp_all add: bit_simps less_diff_conv2 add.commute)
qed
lemma entry_base_make: "entry_base (make_gdt_entry base limit access flags) = base"
  by (rule bit_word_eqI) (simp add: bit_base bit_make)

lemma entry_limit_make: "entry_limit (make_gdt_entry base limit access flags) = limit AND 0xFFFFF"
  by (rule bit_word_eqI) (auto simp: bit_limit bit_make and_masks bit_take_bit_iff)

section \<open>Executing stores\<close>

fun store_addr :: "guest_store \<Rightarrow> nat" where
  "store_addr (W8 a v) = unat a"
| "store_addr (W16 a v) = unat a"
| "store_addr (W64 a v) = unat a"

fun store_bytes :: "guest_store \<Rightarrow> u8 list" where
  "store_bytes (W8 a v) = le_bytes 1 v"
| "store_bytes (W16 a v) = le_bytes 2 v"
| "store_bytes (W64 a v) = le_bytes 8 v"

definition store_end :: "guest_store \<Rightarrow> nat" where
  "store_end s = store_addr s + length (store_bytes s)"

lemma ptr_at_small:
  assumes "unat off + len \<le> gm_size m" "len \<le> 8"
  shows "ptr_at m off len = Some (unat off)"
proof -
  have "unat off < 18446744073709551608" by (rule less_trans [OF unat_u32_lt]) simp
  then show ?thesis using assms by (simp add: ptr_at_Some)
qed

lemma exec_store_put:
  assumes "store_end s \<le> gm_size m"
  shows "exec_store m s = Some (gm_put m (store_addr s) (store_bytes s))"
  using assms
  by (cases s) (simp_all add: store_end_def gm_write_def ptr_at_small size_of_def)

lemma exec_stores_run:
  assumes "\<forall>s\<in>set ss. store_end s \<le> gm_size m"
  obtains m' where "exec_stores m ss = Some m'" "gm_size m' = gm_size m"
    "\<And>p n. \<forall>s\<in>set ss. p + n \<le> store_addr s \<or> store_end s \<le> p \<Longrightarrow>
      take n (drop p (gm_bytes m')) = take n (drop p (gm_bytes m))"
  using assms
proof (induction ss arbitrary: m thesis)
  case (Cons s ss)
  let ?m1 = "gm_put m (store_addr s) (store_bytes s)"
  have b: "store_addr s + length (store_bytes s) \<le> gm_size m"
    using Cons.prems(2) by (simp add: store_end_def)
  have sz: "gm_size ?m1 = gm_size m" by (rule gm_size_put [OF b])
  obtain m' where m': "exec_stores ?m1 ss = Some m'" "gm_size m' = gm_size ?m1"
    "\<And>p n. \<forall>s\<in>set ss. p + n \<le> store_addr s \<or> store_end s \<le> p \<Longrightarrow>
      take n (drop p (gm_bytes m')) = take n (drop p (gm_bytes ?m1))"
    using Cons.IH [of ?m1] Cons.prems(2) sz by auto
  show ?case
  proof (rule Cons.prems(1))
    show "exec_stores m (s # ss) = Some m'"
      using m'(1) Cons.prems(2) by (simp add: exec_store_put)
    show "gm_size m' = gm_size m" using m'(2) sz by simp
    fix p n assume d: "\<forall>t\<in>set (s # ss). p + n \<le> store_addr t \<or> store_end t \<le> p"
    then show "take n (drop p (gm_bytes m')) = take n (drop p (gm_bytes m))"
      using m'(3) put_other [OF b, of p n] by (simp add: store_end_def)
  qed
qed simp

lemma exec_stores_append: "exec_stores m (xs @ ys) = do { m' \<leftarrow> exec_stores m xs; exec_stores m' ys }"
proof (induction xs arbitrary: m)
  case (Cons x xs)
  then show ?case by (cases "exec_store m x") auto
qed simp

text \<open>After a run, a store that no later store overlaps is still in memory.\<close>

lemma exec_stores_read:
  assumes "exec_stores m (xs @ s # ys) = Some m'"
    and "\<forall>t\<in>set (xs @ s # ys). store_end t \<le> gm_size m"
    and "\<forall>t\<in>set ys. store_end s \<le> store_addr t"
  shows "take (length (store_bytes s)) (drop (store_addr s) (gm_bytes m')) = store_bytes s"
proof -
  have "\<forall>t\<in>set xs. store_end t \<le> gm_size m" using assms(2) by simp
  then obtain m1 where m1: "exec_stores m xs = Some m1" "gm_size m1 = gm_size m"
    by (rule exec_stores_run)
  let ?m2 = "gm_put m1 (store_addr s) (store_bytes s)"
  have b: "store_addr s + length (store_bytes s) \<le> gm_size m1"
    using assms(2) m1(2) by (simp add: store_end_def)
  have run: "exec_stores ?m2 ys = Some m'"
    using assms(1) m1 b by (simp add: exec_stores_append exec_store_put store_end_def)
  have "\<forall>t\<in>set ys. store_end t \<le> gm_size ?m2" using assms(2) m1(2) gm_size_put [OF b] by simp
  then obtain m3 where "exec_stores ?m2 ys = Some m3" and f:
    "\<And>p n. \<forall>t\<in>set ys. p + n \<le> store_addr t \<or> store_end t \<le> p \<Longrightarrow>
      take n (drop p (gm_bytes m3)) = take n (drop p (gm_bytes ?m2))"
    by (rule exec_stores_run) blast
  then have "m3 = m'" using run by simp
  then have "take (length (store_bytes s)) (drop (store_addr s) (gm_bytes m')) =
      take (length (store_bytes s)) (drop (store_addr s) (gm_bytes ?m2))"
    using f [of "store_addr s" "length (store_bytes s)"] assms(3) by (simp add: store_end_def)
  then show ?thesis using put_same [OF b] by simp
qed

section \<open>Where the tables are\<close>

lemma data_tile_addr: "i < 4096 \<Longrightarrow> store_addr (data_tile_store i) = 0x80030 + 8 * i"
proof -
  assume i: "i < 4096"
  have a: "GDT_BASE + (TILED_SEL_START_INDEX + of_nat i) * 8 = (of_nat (0x80030 + 8 * i) :: u32)"
    by (simp add: tile_consts)
  show ?thesis using i unfolding data_tile_store_def store_addr.simps a
    by (simp only: unat_of_nat) simp
qed

lemma code_tile_addr: "i < 2048 \<Longrightarrow> store_addr (code_tile_store i) = 0x88030 + 8 * i"
proof -
  assume i: "i < 2048"
  have a: "GDT_BASE + (TILED_CODE_START_INDEX + of_nat i) * 8 = (of_nat (0x88030 + 8 * i) :: u32)"
    by (simp add: tile_consts)
  show ?thesis using i unfolding code_tile_store_def store_addr.simps a
    by (simp only: unat_of_nat) simp
qed

lemma tile_end:
  "store_end (data_tile_store i) = store_addr (data_tile_store i) + 8"
  "store_end (code_tile_store i) = store_addr (code_tile_store i) + 8"
  by (simp_all add: store_end_def data_tile_store_def code_tile_store_def)

lemma fixed_stores_bounds: "s \<in> set fixed_gdt_stores \<Longrightarrow> store_end s \<le> 0x80030"
  by (auto simp: fixed_gdt_stores_def store_end_def tile_consts)

lemma idt_stores_bounds:
  assumes "i < 32" "s \<in> set (idt_stores i)"
  shows "0x8D000 \<le> store_addr s \<and> store_end s \<le> 0x8DA00"
proof -
  have h: "unat (IDT_HANDLER_BASE + of_nat i * 16 + k) = 0x8D800 + 16 * i + unat k"
    if "unat k < 16" for k :: u32
  proof -
    have "IDT_HANDLER_BASE + of_nat i * 16 + k = of_nat (0x8D800 + 16 * i + unat k)"
      by (simp add: tile_consts)
    then show ?thesis using assms(1) that by (simp only: unat_of_nat) simp
  qed
  have d: "unat (IDT_BASE + of_nat i * 8 + k) = 0x8D000 + 8 * i + unat k"
    if "unat k < 8" for k :: u32
  proof -
    have "IDT_BASE + of_nat i * 8 + k = of_nat (0x8D000 + 8 * i + unat k)"
      by (simp add: tile_consts)
    then show ?thesis using assms(1) that by (simp only: unat_of_nat) simp
  qed
  note e = h [of 0] h [of 1] h [of 2] h [of 3] h [of 4] d [of 0] d [of 2] d [of 4] d [of 6]
  show ?thesis using assms e
    by (auto simp: idt_stores_def Let_def store_end_def add.assoc split: if_splits)
qed

definition setup_stores :: "guest_store list" where
  "setup_stores = fixed_gdt_stores @ map data_tile_store [0..<4096] @
     map code_tile_store [0..<2048] @ concat (map idt_stores [0..<32])"

lemma setup_idt_stores: "setup_idt m = exec_stores m setup_stores"
  by (simp add: setup_idt_def setup_stores_def NUM_TILES_def NUM_CODE_TILES_def)

lemma setup_stores_bounds: "s \<in> set setup_stores \<Longrightarrow> store_end s \<le> 0x8DA00"
proof -
  assume "s \<in> set setup_stores"
  then consider "s \<in> set fixed_gdt_stores" | i where "i < 4096" "s = data_tile_store i"
    | i where "i < 2048" "s = code_tile_store i" | i where "i < 32" "s \<in> set (idt_stores i)"
    by (auto simp: setup_stores_def)
  then show ?thesis
  proof cases
    case 1
    then show ?thesis using fixed_stores_bounds by fastforce
  next
    case 4
    then show ?thesis using idt_stores_bounds by blast
  qed (simp_all add: tile_end data_tile_addr code_tile_addr)
qed

lemma upt_split: "i < n \<Longrightarrow> [0..<n] = [0..<i] @ i # [Suc i..<n]"
  using upt_add_eq_append [of 0 i "n - i"] by (simp add: upt_conv_Cons)

lemma data_tile_in_memory:
  assumes "exec_stores m setup_stores = Some m'" "0x8DA00 \<le> gm_size m" "i < 4096"
  shows "take 8 (drop (0x80030 + 8 * i) (gm_bytes m')) =
    le_bytes 8 (make_gdt_entry (of_nat i * TILE_SIZE) 0xFFFF 0xD3 0x00)"
proof -
  let ?ys = "map data_tile_store [Suc i..<4096] @ map code_tile_store [0..<2048] @
    concat (map idt_stores [0..<32])"
  have split: "setup_stores = (fixed_gdt_stores @ map data_tile_store [0..<i]) @ data_tile_store i # ?ys"
    unfolding setup_stores_def by (subst upt_split [OF assms(3)]) simp
  have b: "\<forall>t\<in>set setup_stores. store_end t \<le> gm_size m"
    using setup_stores_bounds assms(2) by fastforce
  have y: "\<forall>t\<in>set ?ys. store_end (data_tile_store i) \<le> store_addr t"
    using assms(3) idt_stores_bounds
    by (fastforce simp: tile_end data_tile_addr code_tile_addr)
  have "take (length (store_bytes (data_tile_store i)))
      (drop (store_addr (data_tile_store i)) (gm_bytes m')) = store_bytes (data_tile_store i)"
    by (rule exec_stores_read [OF assms(1) [unfolded split] b [unfolded split] y])
  then show ?thesis using assms(3) by (simp only: data_tile_addr) (simp add: data_tile_store_def)
qed

lemma code_tile_in_memory:
  assumes "exec_stores m setup_stores = Some m'" "0x8DA00 \<le> gm_size m" "i < 2048"
  shows "take 8 (drop (0x88030 + 8 * i) (gm_bytes m')) =
    le_bytes 8 (make_gdt_entry (of_nat i * TILE_SIZE) 0xFFFF 0x9B 0x00)"
proof -
  let ?ys = "map code_tile_store [Suc i..<2048] @ concat (map idt_stores [0..<32])"
  have split: "setup_stores = (fixed_gdt_stores @ map data_tile_store [0..<4096] @
      map code_tile_store [0..<i]) @ code_tile_store i # ?ys"
    unfolding setup_stores_def by (subst upt_split [OF assms(3)]) simp
  have b: "\<forall>t\<in>set setup_stores. store_end t \<le> gm_size m"
    using setup_stores_bounds assms(2) by fastforce
  have y: "\<forall>t\<in>set ?ys. store_end (code_tile_store i) \<le> store_addr t"
    using assms(3) idt_stores_bounds by (fastforce simp: tile_end code_tile_addr)
  have "take (length (store_bytes (code_tile_store i)))
      (drop (store_addr (code_tile_store i)) (gm_bytes m')) = store_bytes (code_tile_store i)"
    by (rule exec_stores_read [OF assms(1) [unfolded split] b [unfolded split] y])
  then show ?thesis using assms(3) by (simp only: code_tile_addr) (simp add: code_tile_store_def)
qed

lemma gdt_entry_at_index:
  assumes "k < 8192" "0x80000 + 8 * k + 8 \<le> gm_size m"
  shows "gdt_entry_at m (of_nat (8 * k)) = le_word (take 8 (drop (0x80000 + 8 * k) (gm_bytes m)))"
proof -
  have "unat (of_nat (8 * k) div 8 :: u16) = k"
    using assms(1) by (simp only: unat_div unat_of_nat) simp
  then have "ucast (of_nat (8 * k) div 8 :: u16) = (of_nat k :: u32)"
    by (metis of_nat_unat)
  then have a: "GDT_BASE + ucast (of_nat (8 * k) div 8 :: u16) * 8 = of_nat (0x80000 + 8 * k)"
    by (simp add: GDT_BASE_def)
  have u: "unat (of_nat (0x80000 + 8 * k) :: u32) = 0x80000 + 8 * k"
    using assms(1) by (simp only: unat_of_nat) simp
  show ?thesis unfolding gdt_entry_at_def Let_def a
    using assms(2) by (simp add: gm_read_def ptr_at_small u size_of_def del: of_nat_add of_nat_mult)
qed

lemma setup_tiles:
  assumes "0x8DA00 \<le> gm_size m"
  shows "\<exists>m'. setup_idt m = Some m' \<and>
    (\<forall>i<4096. gdt_entry_base m' (of_nat (8 * (6 + i))) = of_nat i * 0x10000 \<and>
              gdt_entry_limit m' (of_nat (8 * (6 + i))) = 0xFFFF) \<and>
    (\<forall>i<2048. gdt_entry_base m' (of_nat (8 * (4102 + i))) = of_nat i * 0x10000 \<and>
              gdt_entry_limit m' (of_nat (8 * (4102 + i))) = 0xFFFF)"
proof -
  have "\<forall>s\<in>set setup_stores. store_end s \<le> gm_size m"
    using setup_stores_bounds assms by fastforce
  then obtain m' where run: "exec_stores m setup_stores = Some m'" and sz: "gm_size m' = gm_size m"
    by (rule exec_stores_run)
  have d: "gdt_entry_at m' (of_nat (8 * (6 + i))) =
      make_gdt_entry (of_nat i * TILE_SIZE) 0xFFFF 0xD3 0x00" if "i < 4096" for i
    using gdt_entry_at_index [of "6 + i" m'] data_tile_in_memory [OF run assms that] that assms sz
    by (simp add: algebra_simps)
  have c: "gdt_entry_at m' (of_nat (8 * (4102 + i))) =
      make_gdt_entry (of_nat i * TILE_SIZE) 0xFFFF 0x9B 0x00" if "i < 2048" for i
    using gdt_entry_at_index [of "4102 + i" m'] code_tile_in_memory [OF run assms that] that assms sz
    by (simp add: algebra_simps)
  show ?thesis
    using run d c
    by (intro exI [of _ m'])
      (simp add: setup_idt_stores gdt_entry_base_def gdt_entry_limit_def entry_base_make
        entry_limit_make TILE_SIZE_def del: of_nat_mult of_nat_add)
qed

section \<open>Properties\<close>

text \<open>
  A descriptor built by \<^verbatim>\<open>make_gdt_entry\<close> is decoded by \<^verbatim>\<open>gdt_entry_base\<close> and
  \<^verbatim>\<open>gdt_entry_limit\<close> to the very base it was built from, all 32 bits, and to the low 20 bits of
  the limit, whatever the access and flag bytes are.
\<close>

theorem gdt_entry_roundtrip:
  "entry_base (make_gdt_entry base limit access flags) = base \<and>
   entry_limit (make_gdt_entry base limit access flags) = limit AND 0xFFFFF"
  by (simp add: entry_base_make entry_limit_make)

text \<open>
  C6. In any guest memory of at least \<^verbatim>\<open>0x8DA00\<close> bytes \<^verbatim>\<open>setup_idt\<close> runs to its end without a
  panic, and afterwards the descriptor table tiles the address space: data selector
  \<open>8 * (6 + i)\<close> has base \<open>64 KB * i\<close> and limit \<^verbatim>\<open>0xFFFF\<close> for each of the 4096 tiles, code selector
  \<open>8 * (4102 + i)\<close> likewise for each of the 2048 code tiles; the stores of the interrupt table
  and of the handler stubs destroy none of them.
\<close>

theorem setup_idt_tiles:
  assumes "0x8DA00 \<le> gm_size m"
  shows "\<exists>m'. setup_idt m = Some m' \<and>
    (\<forall>i<4096. gdt_entry_base m' (of_nat (8 * (6 + i))) = of_nat i * 0x10000 \<and>
              gdt_entry_limit m' (of_nat (8 * (6 + i))) = 0xFFFF) \<and>
    (\<forall>i<2048. gdt_entry_base m' (of_nat (8 * (4102 + i))) = of_nat i * 0x10000 \<and>
              gdt_entry_limit m' (of_nat (8 * (4102 + i))) = 0xFFFF)"
  using assms by (rule setup_tiles)

text \<open>In a freshly allocated region of exactly that size, tile 3 has base \<^verbatim>\<open>0x30000\<close>.\<close>

theorem setup_idt_tiles_witness:
  "\<exists>m'. setup_idt (gm_alloc 0x8DA00) = Some m' \<and> gdt_entry_base m' 72 = 0x30000"
proof -
  obtain m' where m: "setup_idt (gm_alloc 0x8DA00) = Some m'" and
    t: "\<forall>i<4096. gdt_entry_base m' (of_nat (8 * (6 + i))) = of_nat i * 0x10000 \<and>
      gdt_entry_limit m' (of_nat (8 * (6 + i))) = 0xFFFF"
    using setup_idt_tiles [of "gm_alloc 0x8DA00"] by auto
  show ?thesis using m spec [OF t, of 3] by simp
qed

lemma and_FFFF: "unat ((x :: u32) AND 0xFFFF) = unat x mod 65536"
  by (simp add: and_masks unsigned_take_bit_eq take_bit_nat_def)

lemma flat_to_sel_parts:
  assumes "unat flat < 0x10000000"
  defines "i \<equiv> unat flat div 65536"
  shows "i < 4096"
    and "ucast (drop_bit 16 (dos_flat_to_sel flat)) = (of_nat (8 * (6 + i)) :: u16)"
    and "dos_flat_to_sel flat AND 0xFFFF = flat AND 0xFFFF"
proof -
  show i: "i < 4096" using assms by (simp add: i_def)
  have "unat (drop_bit 16 flat) = i" by (simp add: drop_bit_eq_div unat_div i_def)
  then have t: "drop_bit 16 flat = of_nat i" by (metis of_nat_unat ucast_id)
  have sel: "(TILED_SEL_START_INDEX + drop_bit 16 flat) * 8 = (of_nat (8 * (6 + i)) :: u32)"
    by (simp add: t TILED_SEL_START_INDEX_def)
  have f: "dos_flat_to_sel flat = push_bit 16 (of_nat (8 * (6 + i))) OR (flat AND 0xFFFF)"
    unfolding dos_flat_to_sel_def Let_def sel ..
  have "ucast (drop_bit 16 (push_bit 16 x OR take_bit 16 flat)) = (ucast x :: u16)" for x :: u32
    by (rule bit_word_eqI) (auto simp: bit_simps)
  moreover have "unat (of_nat (8 * (6 + i)) :: u32) = 8 * (6 + i)"
    using i by (simp only: unat_of_nat) simp
  then have "ucast (of_nat (8 * (6 + i)) :: u32) = (of_nat (8 * (6 + i)) :: u16)"
    by (metis of_nat_unat)
  ultimately show "ucast (drop_bit 16 (dos_flat_to_sel flat)) = (of_nat (8 * (6 + i)) :: u16)"
    unfolding f and_masks by (simp only:)
  show "dos_flat_to_sel flat AND 0xFFFF = flat AND 0xFFFF"
    unfolding f and_masks by (rule bit_word_eqI) (auto simp: bit_simps)
qed

lemma flat_sel_lemma:
  assumes "unat flat < 0x10000000" "setup_idt m = Some m'" "0x8DA00 \<le> gm_size m"
  shows "dos_sel_to_flat (dos_flat_to_sel flat) = flat \<and>
    gdt_entry_base m' (ucast (drop_bit 16 (dos_flat_to_sel flat))) + (flat AND 0xFFFF) = flat"
proof -
  let ?i = "unat flat div 65536"
  note p = flat_to_sel_parts [OF assms(1)]
  have flat: "of_nat ?i * 0x10000 + (flat AND 0xFFFF) = flat"
  proof -
    have "of_nat ?i * 0x10000 + (flat AND 0xFFFF) =
        (of_nat (?i * 65536 + unat (flat AND 0xFFFF)) :: u32)" by simp
    also have "\<dots> = of_nat (unat flat)" unfolding and_FFFF by (simp only: div_mult_mod_eq)
    finally show ?thesis by simp
  qed
  have g: "ucast (of_nat (8 * (6 + ?i)) div 8 :: u16) = (of_nat (6 + ?i) :: u32)"
  proof -
    have "unat (of_nat (8 * (6 + ?i)) div 8 :: u16) = 6 + ?i"
      using p(1) by (simp only: unat_div unat_of_nat) simp
    then show ?thesis by (metis of_nat_unat)
  qed
  have k: "unat (of_nat (6 + ?i) :: u32) = 6 + ?i" using p(1) by (simp only: unat_of_nat) simp
  have c: "\<not> TILED_CODE_START_INDEX \<le> (of_nat (6 + ?i) :: u32)"
    "TILED_SEL_START_INDEX \<le> (of_nat (6 + ?i) :: u32)"
    using p(1) by (simp_all only: word_le_nat_alt k) (simp_all add: tile_consts)
  have "dos_sel_to_flat (dos_flat_to_sel flat) = of_nat ?i * 0x10000 + (flat AND 0xFFFF)"
    unfolding dos_sel_to_flat_def Let_def p(2,3) g using c by (simp add: tile_consts)
  moreover have "gdt_entry_base m' (ucast (drop_bit 16 (dos_flat_to_sel flat))) = of_nat ?i * 0x10000"
  proof -
    obtain m1 where "setup_idt m = Some m1"
      "\<forall>i<4096. gdt_entry_base m1 (of_nat (8 * (6 + i))) = of_nat i * 0x10000"
      using setup_tiles [OF assms(3)] by blast
    then show ?thesis unfolding p(2) using p(1) assms(2) by simp
  qed
  ultimately show ?thesis using flat by simp
qed

text \<open>
  16:16 addresses: for every flat address below 256 MB, the size of guest memory,
  \<^verbatim>\<open>DosSelToFlat\<close> undoes \<^verbatim>\<open>DosFlatToSel\<close>, and the segment hardware agrees: the base that the
  descriptor table of \<^verbatim>\<open>setup_idt\<close> holds for the selector, plus the offset, is the address.
\<close>

theorem flat_sel_roundtrip:
  assumes "unat flat < 0x10000000" "setup_idt m = Some m'" "0x8DA00 \<le> gm_size m"
  shows "dos_sel_to_flat (dos_flat_to_sel flat) = flat \<and>
    gdt_entry_base m' (ucast (drop_bit 16 (dos_flat_to_sel flat))) + (flat AND 0xFFFF) = flat"
  using assms by (rule flat_sel_lemma)

text \<open>The address \<^verbatim>\<open>0x02001234\<close>.\<close>

theorem flat_sel_roundtrip_witness: "dos_sel_to_flat (dos_flat_to_sel 0x02001234) = 0x02001234"
proof -
  obtain m' where "setup_idt (gm_alloc 0x8DA00) = Some m'"
    using setup_tiles [of "gm_alloc 0x8DA00"] by auto
  from flat_sel_roundtrip [OF _ this, of "0x02001234"] show ?thesis by simp
qed

section \<open>Imports\<close>

text \<open>The window of a built-in module: the first flat ordinal of its 1024.\<close>

definition builtin_windows :: "(string \<times> nat) list" where
  "builtin_windows = [(''DOSCALLS'', 0), (''QUECALLS'', 1024), (''PMWIN'', 2048), (''PMGPI'', 3072),
    (''KBDCALLS'', 4096), (''VIOCALLS'', 5120), (''SESMGR'', 6144), (''NLS'', 7168), (''MSG'', 8192),
    (''MDM'', 10240), (''UCONV'', 12288), (''SO32DLL'', 13312), (''TCP32DLL'', 14336)]"

lemma unat_magic_plus:
  assumes "w \<le> 14336" "unat (ordinal :: u32) < 1024"
  shows "unat (MAGIC_API_BASE + of_nat w + ucast ordinal) = 0x1000000 + w + unat ordinal"
proof -
  have "MAGIC_API_BASE + of_nat w + ucast ordinal = (of_nat (0x1000000 + w + unat ordinal) :: u64)"
    by (simp add: MAGIC_API_BASE_def)
  then show ?thesis using assms by (simp only: unat_of_nat) simp
qed

lemma resolve_import_builtins:
  "list_all (\<lambda>(md, w). resolve_import dll_mgr (ustr md) ordinal =
      MAGIC_API_BASE + of_nat w + ucast ordinal) builtin_windows"
  by (simp add: builtin_windows_def resolve_import_def module_bases)

lemma resolve_import_builtin:
  "(md, w) \<in> set builtin_windows \<Longrightarrow>
    resolve_import dll_mgr (ustr md) ordinal = MAGIC_API_BASE + of_nat w + ucast ordinal"
  using resolve_import_builtins by (fastforce simp: list_all_iff)

lemma builtin_windows_shape:
  "list_all (\<lambda>(md, w). w \<le> 14336 \<and> w mod 1024 = 0) builtin_windows"
  "distinct (map fst builtin_windows)" "distinct (map snd builtin_windows)"
  by (simp_all add: builtin_windows_def)

lemma builtin_windows_apart:
  assumes "(md, w) \<in> set builtin_windows" "(md', w') \<in> set builtin_windows"
  shows "w \<le> 14336 \<and> (md = md' \<longleftrightarrow> w = w') \<and> (w = w' \<or> w + 1024 \<le> w' \<or> w' + 1024 \<le> w)"
proof -
  have m: "w \<le> 14336" "w mod 1024 = 0" "w' mod 1024 = 0"
    using builtin_windows_shape(1) assms by (auto simp: list_all_iff)
  have "w = w'" if "md = md'"
    using eq_key_imp_eq_value [OF builtin_windows_shape(2)] assms that by blast
  moreover have "md = md'" if "w = w'"
  proof -
    have "inj_on snd (set builtin_windows)"
      using builtin_windows_shape(3) by (simp add: distinct_map)
    from inj_onD [OF this _ assms] that show ?thesis by simp
  qed
  moreover have "w = w' \<or> w + 1024 \<le> w' \<or> w' + 1024 \<le> w"
  proof -
    obtain a b where "w = 1024 * a" "w' = 1024 * b" using m(2,3) by (metis mod_0_imp_dvd dvd_def)
    then show ?thesis by (cases a b rule: linorder_cases) auto
  qed
  ultimately show ?thesis using m(1) by blast
qed

text \<open>
  Thunk addresses do not collide: every ordinal below 1024 of every built-in module gets
  an address inside the stub area, never the address used for unresolved imports, and two
  different imports never share one, whatever DLLs are loaded.
\<close>

theorem resolve_import_injective:
  assumes "(md, w) \<in> set builtin_windows" "(md', w') \<in> set builtin_windows"
    and "unat ordinal < 1024" "unat ordinal' < 1024"
  shows "0x1000000 \<le> unat (resolve_import dll_mgr (ustr md) ordinal)
    \<and> unat (resolve_import dll_mgr (ustr md) ordinal) < 0x1000000 + unat STUB_AREA_SIZE - 1
    \<and> (resolve_import dll_mgr (ustr md) ordinal = resolve_import dll_mgr (ustr md') ordinal'
        \<longleftrightarrow> md = md' \<and> ordinal = ordinal')"
proof -
  note w = builtin_windows_apart [OF assms(1,2)] builtin_windows_apart [OF assms(2,1)]
  have u: "unat (resolve_import dll_mgr (ustr md) ordinal) = 0x1000000 + w + unat ordinal"
    "unat (resolve_import dll_mgr (ustr md') ordinal') = 0x1000000 + w' + unat ordinal'"
    using w assms by (simp_all add: resolve_import_builtin unat_magic_plus)
  have "resolve_import dll_mgr (ustr md) ordinal = resolve_import dll_mgr (ustr md') ordinal'
      \<longleftrightarrow> w + unat ordinal = w' + unat ordinal'"
    unfolding word_unat_eq_iff u by simp
  also have "\<dots> \<longleftrightarrow> w = w' \<and> unat ordinal = unat ordinal'" using w assms(3,4) by auto
  finally show ?thesis using u w assms(3) by (simp add: STUB_AREA_SIZE_def word_unat_eq_iff)
qed

text \<open>\<^verbatim>\<open>DosOpen\<close> (\<^verbatim>\<open>DOSCALLS.273\<close>) and \<^verbatim>\<open>NLS.5\<close>.\<close>

theorem resolve_import_injective_witness:
  "resolve_import dm_new (ustr ''DOSCALLS'') 273 \<noteq> resolve_import dm_new (ustr ''NLS'') 5"
proof -
  have "(''DOSCALLS'', 0) \<in> set builtin_windows" "(''NLS'', 7168) \<in> set builtin_windows"
    by (simp_all add: builtin_windows_def)
  from resolve_import_injective [OF this, of 273 5 dm_new] show ?thesis by simp
qed

text \<open>
  Importing a registry function by name goes wrong outside \<^verbatim>\<open>DOSCALLS\<close>: the registry holds
  flat ordinals, which already contain the base of the module's window, and
  \<^verbatim>\<open>resolve_import\<close> adds the base again. \<^verbatim>\<open>NLS.NlsQueryCp\<close> (\<^verbatim>\<open>NLS.5\<close>) imported by name gets the
  thunk of \<^verbatim>\<open>TCP32DLL.5\<close>, not its own.
\<close>

theorem import_by_name_wrong_thunk:
  "resolve_import_by_name dll_mgr (ustr ''NLS'') (ustr ''NlsQueryCp'') =
     resolve_import dll_mgr (ustr ''TCP32DLL'') 5
   \<and> resolve_import_by_name dll_mgr (ustr ''NLS'') (ustr ''NlsQueryCp'') \<noteq>
     resolve_import dll_mgr (ustr ''NLS'') 5"
proof -
  have "find_by_module_and_name (ustr ''NLS'') (ustr ''NlsQueryCp'') = Some (NLS_BASE + 5)"
    by (simp add: find_by_module_and_name_def registry_defs api_def)
  then show ?thesis by (simp add: resolve_import_by_name_def resolve_import_def module_bases)
qed

end
