(* ===== verification/Semaphores.thy ===== *)
theory Semaphores
  imports Guest_Memory Handle_Table
begin

text \<open>
  Event, mutex and mux-wait semaphores: \<^verbatim>\<open>SemaphoreManager\<close> (\<^verbatim>\<open>src/src/loader/ipc.rs\<close>) and the
  \<^verbatim>\<open>Dos*Sem\<close> calls over it (\<^verbatim>\<open>src/src/loader/doscalls.rs\<close>). A semaphore object sits behind its own
  lock; every access is one critical section, so a thread's call is a sequence of passes, each
  of which sees the object in some state left by other threads. A blocking call is its loop
  body (one pass, returning the error code or \<open>None\<close> to go round again) together with the loop
  over the observations it makes: the object, whether the loader is shutting down and whether
  the deadline has passed. Condition variables only shorten the time between passes and have
  no state. Writes of a handle to guest memory ignore an invalid pointer, as the source does.
\<close>

section \<open>State\<close>

record event_semaphore =
  ev_posted :: bool
  ev_attr :: u32
  ev_name :: "ustring option"

record mutex_semaphore =
  mx_owner_tid :: "u32 option"
  mx_request_count :: u32
  mx_attr :: u32
  mx_name :: "ustring option"

datatype sem_handle = EventHandle u32 | MutexHandle u32

record mux_wait_record =
  mr_hsem :: sem_handle
  mr_user :: u32

record mux_wait_semaphore =
  mux_records :: "mux_wait_record list"
  mux_wait_all :: bool
  mux_attr :: u32
  mux_name :: "ustring option"

record semaphore_manager =
  sem_event_sems :: "u32 \<rightharpoonup> event_semaphore"
  sem_mutex_sems :: "u32 \<rightharpoonup> mutex_semaphore"
  sem_mux_sems :: "u32 \<rightharpoonup> mux_wait_semaphore"
  sem_next_handle :: u32

definition sem_new :: semaphore_manager where
  "sem_new = \<lparr> sem_event_sems = Map.empty, sem_mutex_sems = Map.empty, sem_mux_sems = Map.empty,
     sem_next_handle = 1 \<rparr>"

section \<open>The manager\<close>

definition sem_insert_event :: "semaphore_manager \<Rightarrow> event_semaphore \<Rightarrow> u32 \<times> semaphore_manager" where
  "sem_insert_event m e =
    (let h = sem_next_handle m in
     (h, m\<lparr> sem_event_sems := (sem_event_sems m)(h \<mapsto> e), sem_next_handle := sem_next_handle m + 1 \<rparr>))"

definition create_event ::
    "semaphore_manager \<Rightarrow> ustring option \<Rightarrow> u32 \<Rightarrow> bool \<Rightarrow> u32 \<times> semaphore_manager" where
  "create_event m nm attr posted =
    sem_insert_event m \<lparr> ev_posted = posted, ev_attr = attr, ev_name = nm \<rparr>"

definition get_event :: "semaphore_manager \<Rightarrow> u32 \<Rightarrow> event_semaphore option" where
  "get_event m h = sem_event_sems m h"

definition close_event :: "semaphore_manager \<Rightarrow> u32 \<Rightarrow> bool \<times> semaphore_manager" where
  "close_event m h =
    (sem_event_sems m h \<noteq> None, m\<lparr> sem_event_sems := (sem_event_sems m)(h := None) \<rparr>)"

definition sem_insert_mutex :: "semaphore_manager \<Rightarrow> mutex_semaphore \<Rightarrow> u32 \<times> semaphore_manager" where
  "sem_insert_mutex m x =
    (let h = sem_next_handle m in
     (h, m\<lparr> sem_mutex_sems := (sem_mutex_sems m)(h \<mapsto> x), sem_next_handle := sem_next_handle m + 1 \<rparr>))"

definition create_mutex ::
    "semaphore_manager \<Rightarrow> ustring option \<Rightarrow> u32 \<Rightarrow> bool \<Rightarrow> u32 \<times> semaphore_manager" where
  "create_mutex m nm attr state =
    (let owner_tid = (if state then Some 0 else None);
         request_count = (if state then 1 else 0) in
     sem_insert_mutex m \<lparr> mx_owner_tid = owner_tid, mx_request_count = request_count,
       mx_attr = attr, mx_name = nm \<rparr>)"

definition get_mutex :: "semaphore_manager \<Rightarrow> u32 \<Rightarrow> mutex_semaphore option" where
  "get_mutex m h = sem_mutex_sems m h"

definition close_mutex :: "semaphore_manager \<Rightarrow> u32 \<Rightarrow> bool \<times> semaphore_manager" where
  "close_mutex m h =
    (sem_mutex_sems m h \<noteq> None, m\<lparr> sem_mutex_sems := (sem_mutex_sems m)(h := None) \<rparr>)"

definition sem_insert_mux :: "semaphore_manager \<Rightarrow> mux_wait_semaphore \<Rightarrow> u32 \<times> semaphore_manager" where
  "sem_insert_mux m x =
    (let h = sem_next_handle m in
     (h, m\<lparr> sem_mux_sems := (sem_mux_sems m)(h \<mapsto> x), sem_next_handle := sem_next_handle m + 1 \<rparr>))"

definition create_mux ::
    "semaphore_manager \<Rightarrow> ustring option \<Rightarrow> u32 \<Rightarrow> mux_wait_record list \<Rightarrow> bool \<Rightarrow>
      u32 \<times> semaphore_manager" where
  "create_mux m nm attr records wait_all =
    sem_insert_mux m \<lparr> mux_records = records, mux_wait_all = wait_all, mux_attr = attr, mux_name = nm \<rparr>"

definition get_mux :: "semaphore_manager \<Rightarrow> u32 \<Rightarrow> mux_wait_semaphore option" where
  "get_mux m h = sem_mux_sems m h"

definition close_mux :: "semaphore_manager \<Rightarrow> u32 \<Rightarrow> bool \<times> semaphore_manager" where
  "close_mux m h =
    (sem_mux_sems m h \<noteq> None, m\<lparr> sem_mux_sems := (sem_mux_sems m)(h := None) \<rparr>)"

text \<open>
  Opening by name walks a hash map, whose order is unspecified: \<open>order\<close> is the sequence of the
  handles visited.
\<close>

definition open_event_by_name :: "u32 list \<Rightarrow> semaphore_manager \<Rightarrow> ustring \<Rightarrow> u32 option" where
  "open_event_by_name order m nm =
    find (\<lambda>h. case sem_event_sems m h of Some e \<Rightarrow> ev_name e = Some nm | None \<Rightarrow> False) order"

definition open_mutex_by_name :: "u32 list \<Rightarrow> semaphore_manager \<Rightarrow> ustring \<Rightarrow> u32 option" where
  "open_mutex_by_name order m nm =
    find (\<lambda>h. case sem_mutex_sems m h of Some x \<Rightarrow> mx_name x = Some nm | None \<Rightarrow> False) order"

section \<open>The calls\<close>

definition dos_create_event_sem ::
    "semaphore_manager \<times> guest_memory \<Rightarrow> u32 \<Rightarrow> u32 \<Rightarrow> u32 \<Rightarrow> u32 \<times> semaphore_manager \<times> guest_memory" where
  "dos_create_event_sem st phev_ptr fl_attr f_state =
    (let (h, m') = create_event (fst st) None fl_attr (f_state \<noteq> 0) in
     (0, m', guest_write_ign (snd st) phev_ptr h))"

definition dos_close_event_sem :: "semaphore_manager \<Rightarrow> u32 \<Rightarrow> u32 \<times> semaphore_manager" where
  "dos_close_event_sem m hev = (let (ok, m') = close_event m hev in (if ok then 0 else 6, m'))"

definition dos_post_event_sem :: "semaphore_manager \<Rightarrow> u32 \<Rightarrow> u32 \<times> semaphore_manager" where
  "dos_post_event_sem m hev =
    (case get_event m hev of
       Some sem \<Rightarrow>
         if ev_posted sem then (299, m)
         else (0, m\<lparr> sem_event_sems := (sem_event_sems m)(hev \<mapsto> sem\<lparr> ev_posted := True \<rparr>) \<rparr>)
     | None \<Rightarrow> (6, m))"

text \<open>One observation of a waiter: is the loader shutting down, has the deadline passed.\<close>

type_synonym wait_flags = "bool \<times> bool"

definition wait_event_pass :: "event_semaphore \<Rightarrow> wait_flags \<Rightarrow> u32 option" where
  "wait_event_pass sem fl =
    (if ev_posted sem then Some 0
     else if fst fl then Some 640
     else if snd fl then Some 640
     else None)"

fun wait_event_loop :: "(event_semaphore \<times> wait_flags) list \<Rightarrow> u32 option" where
  "wait_event_loop [] = None"
| "wait_event_loop ((sem, fl) # obs) =
    (case wait_event_pass sem fl of Some rc \<Rightarrow> Some rc | None \<Rightarrow> wait_event_loop obs)"

definition dos_wait_event_sem ::
    "semaphore_manager \<Rightarrow> u32 \<Rightarrow> (event_semaphore \<times> wait_flags) list \<Rightarrow> u32 option" where
  "dos_wait_event_sem m hev obs =
    (case get_event m hev of Some _ \<Rightarrow> wait_event_loop obs | None \<Rightarrow> Some 6)"

definition dos_create_mutex_sem ::
    "semaphore_manager \<times> guest_memory \<Rightarrow> u32 \<Rightarrow> u32 \<Rightarrow> u32 \<Rightarrow> u32 \<times> semaphore_manager \<times> guest_memory" where
  "dos_create_mutex_sem st phmtx_ptr fl_attr f_state =
    (let (h, m') = create_mutex (fst st) None fl_attr (f_state \<noteq> 0) in
     (0, m', guest_write_ign (snd st) phmtx_ptr h))"

definition dos_close_mutex_sem :: "semaphore_manager \<Rightarrow> u32 \<Rightarrow> u32 \<times> semaphore_manager" where
  "dos_close_mutex_sem m hmtx = (let (ok, m') = close_mutex m hmtx in (if ok then 0 else 6, m'))"

text \<open>One pass of the request loop by thread \<open>tid\<close>.\<close>

definition request_pass :: "u32 \<Rightarrow> wait_flags \<Rightarrow> mutex_semaphore \<Rightarrow> u32 option \<times> mutex_semaphore" where
  "request_pass tid fl sem =
    (if fst fl then (Some 640, sem)
     else case mx_owner_tid sem of
       None \<Rightarrow> (Some 0, sem\<lparr> mx_owner_tid := Some tid, mx_request_count := 1 \<rparr>)
     | Some owner \<Rightarrow>
         if owner = tid then (Some 0, sem\<lparr> mx_request_count := mx_request_count sem + 1 \<rparr>)
         else if snd fl then (Some 640, sem)
         else (None, sem))"

definition dos_request_mutex_sem ::
    "semaphore_manager \<Rightarrow> u32 \<Rightarrow> u32 \<Rightarrow> wait_flags \<Rightarrow> u32 option \<times> semaphore_manager" where
  "dos_request_mutex_sem m tid hmtx fl =
    (case get_mutex m hmtx of
       Some sem \<Rightarrow>
         (let (rc, sem') = request_pass tid fl sem in
          (rc, m\<lparr> sem_mutex_sems := (sem_mutex_sems m)(hmtx \<mapsto> sem') \<rparr>))
     | None \<Rightarrow> (Some 6, m))"

definition release_mutex :: "u32 \<Rightarrow> mutex_semaphore \<Rightarrow> u32 \<times> mutex_semaphore" where
  "release_mutex tid sem =
    (case mx_owner_tid sem of
       Some owner \<Rightarrow>
         if owner = tid then
           (let sem' = sem\<lparr> mx_request_count := mx_request_count sem - 1 \<rparr> in
            (0, if mx_request_count sem' = 0 then sem'\<lparr> mx_owner_tid := None \<rparr> else sem'))
         else (288, sem)
     | None \<Rightarrow> (288, sem))"

definition dos_release_mutex_sem ::
    "semaphore_manager \<Rightarrow> u32 \<Rightarrow> u32 \<Rightarrow> u32 \<times> semaphore_manager" where
  "dos_release_mutex_sem m tid hmtx =
    (case get_mutex m hmtx of
       Some sem \<Rightarrow>
         (let (rc, sem') = release_mutex tid sem in
          (rc, m\<lparr> sem_mutex_sems := (sem_mutex_sems m)(hmtx \<mapsto> sem') \<rparr>))
     | None \<Rightarrow> (6, m))"

definition mux_record_at :: "guest_memory \<Rightarrow> u32 \<Rightarrow> nat \<Rightarrow> mux_wait_record" where
  "mux_record_at g records_ptr i =
    (let hsem = (case gm_read g (records_ptr + of_nat i * 8) of Some v \<Rightarrow> v | None \<Rightarrow> 0);
         user = (case gm_read g (records_ptr + of_nat i * 8 + 4) of Some v \<Rightarrow> v | None \<Rightarrow> 0) in
     \<lparr> mr_hsem = EventHandle hsem, mr_user = user \<rparr>)"

definition dos_create_mux_wait_sem ::
    "semaphore_manager \<times> guest_memory \<Rightarrow> u32 \<Rightarrow> u32 \<Rightarrow> u32 \<Rightarrow> u32 \<Rightarrow>
      u32 \<times> semaphore_manager \<times> guest_memory" where
  "dos_create_mux_wait_sem st phmux_ptr count records_ptr fl_attr =
    (let records = map (mux_record_at (snd st) records_ptr) [0..<unat count];
         wait_all = (fl_attr AND 4 \<noteq> 0);
         (h, m') = create_mux (fst st) None fl_attr records wait_all in
     (0, m', guest_write_ign (snd st) phmux_ptr h))"

definition dos_close_mux_wait_sem :: "semaphore_manager \<Rightarrow> u32 \<Rightarrow> u32 \<times> semaphore_manager" where
  "dos_close_mux_wait_sem m hmux = (let (ok, m') = close_mux m hmux in (if ok then 0 else 6, m'))"

definition sem_ready :: "semaphore_manager \<Rightarrow> u32 \<Rightarrow> mux_wait_record \<Rightarrow> bool" where
  "sem_ready m tid rec =
    (let h = (case mr_hsem rec of EventHandle h \<Rightarrow> h | MutexHandle h \<Rightarrow> h) in
     case get_event m h of
       Some e \<Rightarrow> ev_posted e
     | None \<Rightarrow>
         (case get_mutex m h of
            Some x \<Rightarrow> mx_owner_tid x = None \<or> mx_owner_tid x = Some tid
          | None \<Rightarrow> False))"

text \<open>
  The scan over the records: the last ready index and whether all are ready. \<open>ms ! i\<close> is the
  manager as record \<open>i\<close> is examined, the lock being taken anew for each record.
\<close>

fun mux_scan ::
    "semaphore_manager list \<Rightarrow> u32 \<Rightarrow> nat \<Rightarrow> mux_wait_record list \<Rightarrow> nat option \<times> bool \<Rightarrow>
      nat option \<times> bool" where
  "mux_scan ms tid i [] acc = acc"
| "mux_scan ms tid i (r # rs) (ready_idx, all_ready) =
    mux_scan ms tid (Suc i) rs
      (if sem_ready (ms ! i) tid r then (Some i, all_ready) else (ready_idx, False))"

definition wait_mux_pass ::
    "mux_wait_semaphore \<Rightarrow> semaphore_manager list \<Rightarrow> u32 \<Rightarrow> wait_flags \<Rightarrow> u32 \<Rightarrow> guest_memory \<Rightarrow>
      u32 option \<times> guest_memory" where
  "wait_mux_pass mux ms tid fl pul_user_ptr g =
    (if fst fl then (Some 640, g)
     else
       let (ready_idx, all_ready) = mux_scan ms tid 0 (mux_records mux) (None, True) in
       if (mux_wait_all mux \<and> all_ready) \<or> (\<not> mux_wait_all mux \<and> ready_idx \<noteq> None) then
         (Some 0,
          case ready_idx of
            Some idx \<Rightarrow>
              if pul_user_ptr \<noteq> 0 then guest_write_ign g pul_user_ptr (mr_user (mux_records mux ! idx))
              else g
          | None \<Rightarrow> g)
       else if snd fl then (Some 640, g)
       else (None, g))"

definition dos_wait_mux_wait_sem ::
    "semaphore_manager \<Rightarrow> semaphore_manager list \<Rightarrow> u32 \<Rightarrow> u32 \<Rightarrow> wait_flags \<Rightarrow> u32 \<Rightarrow> guest_memory \<Rightarrow>
      u32 option \<times> guest_memory" where
  "dos_wait_mux_wait_sem m ms tid hmux fl pul_user_ptr g =
    (case get_mux m hmux of
       Some mux \<Rightarrow> wait_mux_pass mux ms tid fl pul_user_ptr g
     | None \<Rightarrow> (Some 6, g))"

section \<open>The three families as handle tables\<close>

interpretation sem_ev: handle_table sem_insert_event get_event close_event sem_next_handle
  by unfold_locales
    (auto simp: sem_insert_event_def get_event_def close_event_def Let_def fun_eq_iff)

interpretation sem_mx: handle_table sem_insert_mutex get_mutex close_mutex sem_next_handle
  by unfold_locales
    (auto simp: sem_insert_mutex_def get_mutex_def close_mutex_def Let_def fun_eq_iff)

interpretation sem_mux: handle_table sem_insert_mux get_mux close_mux sem_next_handle
  by unfold_locales
    (auto simp: sem_insert_mux_def get_mux_def close_mux_def Let_def fun_eq_iff)

section \<open>Reachable managers\<close>

text \<open>Every sequence of calls, by any threads; the counter counts the semaphores created.\<close>

inductive sem_reachable :: "semaphore_manager \<Rightarrow> nat \<Rightarrow> bool" where
  sem_init: "sem_reachable sem_new 0"
| sem_create_event: "sem_reachable m n \<Longrightarrow> create_event m nm attr posted = (h, m') \<Longrightarrow>
    sem_reachable m' (Suc n)"
| sem_create_mutex: "sem_reachable m n \<Longrightarrow> create_mutex m nm attr state = (h, m') \<Longrightarrow>
    sem_reachable m' (Suc n)"
| sem_create_mux: "sem_reachable m n \<Longrightarrow> create_mux m nm attr records wait_all = (h, m') \<Longrightarrow>
    sem_reachable m' (Suc n)"
| sem_close_event: "sem_reachable m n \<Longrightarrow> dos_close_event_sem m h = (rc, m') \<Longrightarrow> sem_reachable m' n"
| sem_close_mutex: "sem_reachable m n \<Longrightarrow> dos_close_mutex_sem m h = (rc, m') \<Longrightarrow> sem_reachable m' n"
| sem_close_mux: "sem_reachable m n \<Longrightarrow> dos_close_mux_wait_sem m h = (rc, m') \<Longrightarrow> sem_reachable m' n"
| sem_post: "sem_reachable m n \<Longrightarrow> dos_post_event_sem m h = (rc, m') \<Longrightarrow> sem_reachable m' n"
| sem_request: "sem_reachable m n \<Longrightarrow> dos_request_mutex_sem m tid h fl = (orc, m') \<Longrightarrow> sem_reachable m' n"
| sem_release: "sem_reachable m n \<Longrightarrow> dos_release_mutex_sem m tid h = (rc, m') \<Longrightarrow> sem_reachable m' n"

text \<open>Three disjoint sets of handles, all between 1 and the next handle \<open>k\<close>, which is \<open>n + 1\<close>.\<close>

definition handles_inv :: "u32 set \<Rightarrow> u32 set \<Rightarrow> u32 set \<Rightarrow> u32 \<Rightarrow> nat \<Rightarrow> bool" where
  "handles_inv E X M k n \<longleftrightarrow>
    unat k = Suc n \<and> (\<forall>h\<in>E \<union> X \<union> M. 1 \<le> unat h \<and> unat h < unat k) \<and>
    E \<inter> X = {} \<and> E \<inter> M = {} \<and> X \<inter> M = {}"

definition sem_inv :: "semaphore_manager \<Rightarrow> nat \<Rightarrow> bool" where
  "sem_inv m n \<longleftrightarrow>
    handles_inv (dom (sem_event_sems m)) (dom (sem_mutex_sems m)) (dom (sem_mux_sems m))
      (sem_next_handle m) n"

lemma handles_inv_mono:
  "handles_inv E X M k n \<Longrightarrow> E' \<subseteq> E \<Longrightarrow> X' \<subseteq> X \<Longrightarrow> M' \<subseteq> M \<Longrightarrow> handles_inv E' X' M' k n"
  unfolding handles_inv_def by (intro conjI; blast)

lemma handles_inv_insert:
  assumes "handles_inv E X M k n" "Suc (Suc n) < 2 ^ 32"
  shows "handles_inv (insert k E) X M (k + 1) (Suc n)"
    and "handles_inv E (insert k X) M (k + 1) (Suc n)"
    and "handles_inv E X (insert k M) (k + 1) (Suc n)"
proof -
  have k: "unat (k + 1) = Suc (Suc n)" "unat k = Suc n"
    using assms unat_Suc_u32 [of k 1] by (simp_all add: handles_inv_def)
  have f: "k \<notin> E" "k \<notin> X" "k \<notin> M" using assms(1) by (auto simp: handles_inv_def)
  have b: "1 \<le> unat h \<and> unat h < Suc (Suc n)" if "h \<in> insert k (E \<union> X \<union> M)" for h
    using assms(1) that k(2) by (auto simp: handles_inv_def less_Suc_eq)
  note c = assms(1) [unfolded handles_inv_def]
  show "handles_inv (insert k E) X M (k + 1) (Suc n)"
    unfolding handles_inv_def using k(1) f b c by simp
  show "handles_inv E (insert k X) M (k + 1) (Suc n)"
    unfolding handles_inv_def using k(1) f b c by simp
  show "handles_inv E X (insert k M) (k + 1) (Suc n)"
    unfolding handles_inv_def using k(1) f b c by simp
qed

text \<open>Calls that only change or remove objects keep the invariant.\<close>

lemma sem_inv_shrink:
  assumes "sem_inv m n" "sem_next_handle m' = sem_next_handle m"
    and "dom (sem_event_sems m') \<subseteq> dom (sem_event_sems m)"
    and "dom (sem_mutex_sems m') \<subseteq> dom (sem_mutex_sems m)"
    and "dom (sem_mux_sems m') \<subseteq> dom (sem_mux_sems m)"
  shows "sem_inv m' n"
  using handles_inv_mono [OF assms(1) [unfolded sem_inv_def] assms(3-5)] assms(2)
  by (simp add: sem_inv_def)

lemma sem_inv_insert:
  assumes "sem_inv m n" "Suc (Suc n) < 2 ^ 32"
  shows "sem_insert_event m e = (h, m') \<Longrightarrow> sem_inv m' (Suc n)"
    and "sem_insert_mutex m x = (h, m') \<Longrightarrow> sem_inv m' (Suc n)"
    and "sem_insert_mux m u = (h, m') \<Longrightarrow> sem_inv m' (Suc n)"
  using handles_inv_insert [OF assms(1) [unfolded sem_inv_def] assms(2)]
  by (auto simp: sem_inv_def sem_insert_event_def sem_insert_mutex_def sem_insert_mux_def Let_def)

lemma sem_reachable_inv: "sem_reachable m n \<Longrightarrow> Suc n < 2 ^ 32 \<Longrightarrow> sem_inv m n"
proof (induction rule: sem_reachable.induct)
  case sem_init
  show ?case by (simp add: sem_inv_def sem_new_def handles_inv_def)
next
  case (sem_create_event m n nm attr posted h m')
  then have "sem_inv m n" by simp
  from sem_inv_insert(1) [OF this] sem_create_event show ?case by (simp add: create_event_def)
next
  case (sem_create_mutex m n nm attr state h m')
  then have "sem_inv m n" by simp
  from sem_inv_insert(2) [OF this] sem_create_mutex show ?case by (simp add: create_mutex_def Let_def)
next
  case (sem_create_mux m n nm attr records wait_all h m')
  then have "sem_inv m n" by simp
  from sem_inv_insert(3) [OF this] sem_create_mux show ?case by (simp add: create_mux_def)
next
  case (sem_close_event m n h rc m')
  have "m' = m\<lparr> sem_event_sems := (sem_event_sems m)(h := None) \<rparr>"
    using sem_close_event(2) by (simp add: dos_close_event_sem_def close_event_def)
  then show ?case using sem_close_event(3,4) by (intro sem_inv_shrink [of m n m']) auto
next
  case (sem_close_mutex m n h rc m')
  have "m' = m\<lparr> sem_mutex_sems := (sem_mutex_sems m)(h := None) \<rparr>"
    using sem_close_mutex(2) by (simp add: dos_close_mutex_sem_def close_mutex_def)
  then show ?case using sem_close_mutex(3,4) by (intro sem_inv_shrink [of m n m']) auto
next
  case (sem_close_mux m n h rc m')
  have "m' = m\<lparr> sem_mux_sems := (sem_mux_sems m)(h := None) \<rparr>"
    using sem_close_mux(2) by (simp add: dos_close_mux_wait_sem_def close_mux_def)
  then show ?case using sem_close_mux(3,4) by (intro sem_inv_shrink [of m n m']) auto
next
  case (sem_post m n h rc m')
  then show ?case
    by (intro sem_inv_shrink [of m n m'])
      (auto simp: dos_post_event_sem_def get_event_def split: option.splits if_splits)
next
  case (sem_request m n tid h fl orc m')
  then show ?case
    by (intro sem_inv_shrink [of m n m'])
      (auto simp: dos_request_mutex_sem_def get_mutex_def split: option.splits if_splits prod.splits)
next
  case (sem_release m n tid h rc m')
  then show ?case
    by (intro sem_inv_shrink [of m n m'])
      (auto simp: dos_release_mutex_sem_def get_mutex_def split: option.splits if_splits prod.splits)
qed

section \<open>Recursive ownership\<close>

datatype mutex_op = Request u32 wait_flags | Release u32

text \<open>
  A run of passes on one mutex, by any threads in any interleaving, with the number of times
  each thread holds it: one more for every granted request, one less for every accepted
  release.
\<close>

fun mutex_run :: "mutex_semaphore \<Rightarrow> (u32 \<Rightarrow> nat) \<Rightarrow> mutex_op list \<Rightarrow> mutex_semaphore \<times> (u32 \<Rightarrow> nat)" where
  "mutex_run x held [] = (x, held)"
| "mutex_run x held (Request tid fl # ops) =
    (case request_pass tid fl x of (rc, x') \<Rightarrow>
       mutex_run x' (if rc = Some 0 then held(tid := held tid + 1) else held) ops)"
| "mutex_run x held (Release tid # ops) =
    (case release_mutex tid x of (rc, x') \<Rightarrow>
       mutex_run x' (if rc = 0 then held(tid := held tid - 1) else held) ops)"

definition mutex_holds :: "mutex_semaphore \<Rightarrow> (u32 \<Rightarrow> nat) \<Rightarrow> bool" where
  "mutex_holds x held \<longleftrightarrow>
    (\<forall>t. held t = (if mx_owner_tid x = Some t then unat (mx_request_count x) else 0)) \<and>
    (mx_owner_tid x = None \<or> 0 < unat (mx_request_count x)) \<and>
    (mx_owner_tid x = None \<longrightarrow> mx_request_count x = 0)"

lemma request_holds:
  assumes "mutex_holds x held" "unat (mx_request_count x) + 1 < 2 ^ 32" "request_pass tid fl x = (rc, x')"
  shows "mutex_holds x' (if rc = Some 0 then held(tid := held tid + 1) else held) \<and>
    unat (mx_request_count x') \<le> unat (mx_request_count x) + 1"
proof -
  have "unat (mx_request_count x + 1) = unat (mx_request_count x) + 1"
    using assms(2) by (simp add: unat_plus_u32)
  then show ?thesis using assms(1,3)
    by (auto simp: mutex_holds_def request_pass_def split: if_splits option.splits)
qed

lemma release_holds:
  assumes "mutex_holds x held" "release_mutex tid x = (rc, x')"
  shows "mutex_holds x' (if rc = 0 then held(tid := held tid - 1) else held) \<and>
    unat (mx_request_count x') \<le> unat (mx_request_count x)"
proof (cases "mx_owner_tid x = Some tid")
  case True
  then have "0 < unat (mx_request_count x)" using assms(1) by (simp add: mutex_holds_def)
  then have u: "unat (mx_request_count x - 1) = unat (mx_request_count x) - 1"
    by (rule unat_minus_1_u32)
  have z: "mx_request_count x - 1 = 0 \<longleftrightarrow> unat (mx_request_count x) = 1"
    using u \<open>0 < unat (mx_request_count x)\<close> by (auto simp: word_unat_eq_iff)
  show ?thesis using assms True u z
    by (auto simp: mutex_holds_def release_mutex_def Let_def split: if_splits)
next
  case False
  with assms show ?thesis by (auto simp: release_mutex_def split: option.splits if_splits)
qed

lemma mutex_run_holds:
  assumes "mutex_holds x held" "unat (mx_request_count x) + length ops < 2 ^ 32"
    and "mutex_run x held ops = (x', held')"
  shows "mutex_holds x' held'"
  using assms
proof (induction ops arbitrary: x held)
  case (Cons op ops)
  show ?case
  proof (cases op)
    case (Request tid fl)
    obtain rc x1 where r: "request_pass tid fl x = (rc, x1)" by fastforce
    with request_holds [OF Cons.prems(1) _ r] Cons.prems Request show ?thesis
      by (intro Cons.IH [of x1]) auto
  next
    case (Release tid)
    obtain rc x1 where r: "release_mutex tid x = (rc, x1)" by fastforce
    with release_holds [OF Cons.prems(1) r] Cons.prems Release show ?thesis
      by (intro Cons.IH [of x1]) auto
  qed
qed simp

section \<open>Mux waits\<close>

lemma mux_scan_spec:
  assumes "mux_scan ms tid k rs (r0, a0) = (r, a)"
  shows "(a \<longleftrightarrow> a0 \<and> (\<forall>i<length rs. sem_ready (ms ! (k + i)) tid (rs ! i)))
    \<and> r = (case find (\<lambda>i. sem_ready (ms ! (k + i)) tid (rs ! i)) (rev [0..<length rs]) of
        Some i \<Rightarrow> Some (k + i) | None \<Rightarrow> r0)"
  using assms
proof (induction rs arbitrary: k r0 a0)
  case (Cons q rs)
  let ?P = "\<lambda>i. sem_ready (ms ! (k + i)) tid ((q # rs) ! i)"
  have up: "rev [0..<length (q # rs)] = map Suc (rev [0..<length rs]) @ [0]"
    by (simp add: rev_map [symmetric] map_Suc_upt upt_conv_Cons del: upt_Suc)
  have fm: "find ?P (map Suc xs @ [0]) =
      (case find (\<lambda>i. sem_ready (ms ! (Suc k + i)) tid (rs ! i)) xs of
         Some i \<Rightarrow> Some (Suc i) | None \<Rightarrow> if ?P 0 then Some 0 else None)" for xs
    by (induction xs) auto
  have all: "(\<forall>i<length (q # rs). ?P i) \<longleftrightarrow>
      ?P 0 \<and> (\<forall>i<length rs. sem_ready (ms ! (Suc k + i)) tid (rs ! i))"
    by (auto simp: less_Suc_eq_0_disj)
  show ?case
    using Cons.IH [of "Suc k" "if ?P 0 then Some k else r0" "a0 \<and> ?P 0"] Cons.prems
    unfolding up fm all by (auto split: if_splits option.splits)
qed simp

lemma find_last_upt:
  assumes "i < n" "P i" "\<forall>j<n. i < j \<longrightarrow> \<not> P j"
  shows "find P (rev [0..<n]) = Some i"
proof -
  have "rev [0..<n] = rev [Suc i..<n] @ i # rev [0..<i]"
    using upt_add_eq_append [of 0 i "n - i"] assms(1) by (simp add: upt_conv_Cons)
  moreover have "find P (rev [Suc i..<n]) = None" using assms(3) by (auto simp: find_None_iff)
  moreover have "find P (xs @ y # ys) = Some y" if "find P xs = None" "P y" for xs y ys
    using that by (induction xs) (auto split: if_splits)
  ultimately show ?thesis using assms(2) by simp
qed

definition mux_ready_at :: "semaphore_manager list \<Rightarrow> u32 \<Rightarrow> mux_wait_semaphore \<Rightarrow> nat \<Rightarrow> bool" where
  "mux_ready_at ms tid mux i \<longleftrightarrow> sem_ready (ms ! i) tid (mux_records mux ! i)"

section \<open>Properties\<close>

text \<open>
  Over any sequence of creations, closes, posts, requests and releases a handle names one
  semaphore of one kind: the handles of events, mutexes and mux-waits are disjoint, and no
  live handle is ever issued again, as long as fewer than \<^verbatim>\<open>2^32 - 1\<close> semaphores were created.
\<close>

theorem sem_handles_unique:
  assumes "sem_reachable m n" "Suc n < 2 ^ 32"
  shows "dom (sem_event_sems m) \<inter> dom (sem_mutex_sems m) = {}
    \<and> dom (sem_event_sems m) \<inter> dom (sem_mux_sems m) = {}
    \<and> dom (sem_mutex_sems m) \<inter> dom (sem_mux_sems m) = {}
    \<and> get_event m (sem_next_handle m) = None \<and> get_mutex m (sem_next_handle m) = None
    \<and> get_mux m (sem_next_handle m) = None"
  using sem_reachable_inv [OF assms]
  by (auto simp: sem_inv_def handles_inv_def get_event_def get_mutex_def get_mux_def dom_def)

lemma example_sems:
  "sem_reachable (snd (create_mutex (snd (create_event sem_new None 0 False)) None 0 True)) 2"
proof -
  have "sem_reachable (snd (create_event sem_new None 0 False)) (Suc 0)"
    by (rule sem_reachable.sem_create_event [OF sem_init prod.collapse [symmetric]])
  from sem_reachable.sem_create_mutex [OF this prod.collapse [symmetric], of None 0 True]
  show ?thesis by (simp add: numeral_2_eq_2)
qed

text \<open>One event and one mutex.\<close>

theorem sem_handles_unique_witness:
  "get_mux (snd (create_mutex (snd (create_event sem_new None 0 False)) None 0 True)) 3 = None"
proof -
  let ?m = "snd (create_mutex (snd (create_event sem_new None 0 False)) None 0 True)"
  have "sem_next_handle ?m = 3"
    by (simp add: create_mutex_def create_event_def sem_insert_mutex_def sem_insert_event_def
        sem_new_def Let_def)
  then show ?thesis using sem_handles_unique [OF example_sems] by simp
qed

text \<open>
  C8. Mutual exclusion with recursion: from a mutex created unowned, after any interleaving of
  request passes and releases by any threads (fewer than \<^verbatim>\<open>2^32\<close> of them), the number of
  requests granted to a thread and not yet released is the recorded count for the owner and 0
  for everybody else. Hence two threads never hold the mutex at once, and it is free again
  exactly when its holder has released it as often as it was granted.
\<close>

theorem mutex_mutual_exclusion:
  assumes "length ops < 2 ^ 32"
    and "mutex_run \<lparr> mx_owner_tid = None, mx_request_count = 0, mx_attr = attr, mx_name = nm \<rparr> (\<lambda>_. 0) ops
      = (x, held)"
  shows "(\<forall>t. held t = (if mx_owner_tid x = Some t then unat (mx_request_count x) else 0))
    \<and> (\<forall>t u. 0 < held t \<longrightarrow> 0 < held u \<longrightarrow> t = u)
    \<and> (mx_owner_tid x = None \<longleftrightarrow> (\<forall>t. held t = 0))"
proof -
  have "mutex_holds x held"
    using assms by (intro mutex_run_holds [OF _ _ assms(2)]) (simp_all add: mutex_holds_def)
  then show ?thesis by (cases "mx_owner_tid x") (auto simp: mutex_holds_def split: if_splits)
qed

text \<open>Thread 1 takes the mutex twice and releases it once; thread 2 is refused meanwhile.\<close>

theorem mutex_mutual_exclusion_witness:
  "snd (mutex_run \<lparr> mx_owner_tid = None, mx_request_count = 0, mx_attr = 0, mx_name = None \<rparr> (\<lambda>_. 0)
     [Request 1 (False, False), Request 1 (False, False), Request 2 (False, True), Release 1]) 2 = 0"
proof -
  let ?ops = "[Request 1 (False, False), Request 1 (False, False), Request 2 (False, True), Release 1]"
  let ?x = "\<lparr> mx_owner_tid = None, mx_request_count = 0, mx_attr = 0, mx_name = None \<rparr>"
  have r: "mutex_run ?x (\<lambda>_. 0) ?ops =
      (\<lparr> mx_owner_tid = Some 1, mx_request_count = 1, mx_attr = 0, mx_name = None \<rparr>, (\<lambda>_. 0)(1 := 1))"
    by (simp add: request_pass_def release_mutex_def Let_def fun_eq_iff)
  have "((\<lambda>_. 0)(1 := 1)) (2 :: u32) = (0 :: nat)"
    using mutex_mutual_exclusion [OF _ r] by simp
  then show ?thesis by (simp add: r del: mutex_run.simps)
qed

text \<open>
  A mux wait ends with success exactly when its condition holds for the states its scan
  observed: every record ready for a wait-all semaphore, some record ready for a wait-any one.
  The user value it reports is that of the last ready record, not of the first.
\<close>

theorem wait_mux_pass_spec:
  assumes "\<not> fst fl"
  shows "(fst (wait_mux_pass mux ms tid fl ptr g) = Some 0 \<longleftrightarrow>
      (if mux_wait_all mux then \<forall>i<length (mux_records mux). mux_ready_at ms tid mux i
       else \<exists>i<length (mux_records mux). mux_ready_at ms tid mux i))
    \<and> (\<forall>i<length (mux_records mux). fst (wait_mux_pass mux ms tid fl ptr g) = Some 0 \<longrightarrow> ptr \<noteq> 0 \<longrightarrow>
        mux_ready_at ms tid mux i \<longrightarrow>
        (\<forall>j<length (mux_records mux). i < j \<longrightarrow> \<not> mux_ready_at ms tid mux j) \<longrightarrow>
        snd (wait_mux_pass mux ms tid fl ptr g) = guest_write_ign g ptr (mr_user (mux_records mux ! i)))"
proof -
  let ?n = "length (mux_records mux)" and ?ready = "mux_ready_at ms tid mux"
  obtain r a where s: "mux_scan ms tid 0 (mux_records mux) (None, True) = (r, a)" by fastforce
  note sp = mux_scan_spec [OF s]
  have a: "a \<longleftrightarrow> (\<forall>i<?n. ?ready i)" using sp by (simp add: mux_ready_at_def)
  have r: "r = find ?ready (rev [0..<?n])"
    using sp by (simp add: mux_ready_at_def [abs_def] split: option.splits)
  have any: "r \<noteq> None \<longleftrightarrow> (\<exists>i<?n. ?ready i)" unfolding r by (auto simp: find_None_iff)
  have last: "r = Some i" if i: "i < ?n" "?ready i" "\<forall>j<?n. i < j \<longrightarrow> \<not> ?ready j" for i
    unfolding r using i by (rule find_last_upt)
  have p: "wait_mux_pass mux ms tid fl ptr g =
      (if (mux_wait_all mux \<and> a) \<or> (\<not> mux_wait_all mux \<and> r \<noteq> None) then
         (Some 0, case r of Some idx \<Rightarrow>
            if ptr \<noteq> 0 then guest_write_ign g ptr (mr_user (mux_records mux ! idx)) else g | None \<Rightarrow> g)
       else if snd fl then (Some 640, g) else (None, g))"
    using assms by (simp add: wait_mux_pass_def s)
  have "fst (wait_mux_pass mux ms tid fl ptr g) = Some 0 \<longleftrightarrow>
      (mux_wait_all mux \<and> a) \<or> (\<not> mux_wait_all mux \<and> r \<noteq> None)"
    unfolding p by simp
  moreover from this have "snd (wait_mux_pass mux ms tid fl ptr g) =
      guest_write_ign g ptr (mr_user (mux_records mux ! i))"
    if "fst (wait_mux_pass mux ms tid fl ptr g) = Some 0" "ptr \<noteq> 0" "r = Some i" for i
    using that unfolding p by simp
  ultimately show ?thesis using a any last by simp
qed

text \<open>A wait-any over two posted events writes the second one's user value.\<close>

theorem wait_mux_pass_spec_witness:
  "snd (wait_mux_pass \<lparr> mux_records = [\<lparr> mr_hsem = EventHandle 1, mr_user = 10 \<rparr>,
        \<lparr> mr_hsem = EventHandle 2, mr_user = 20 \<rparr>], mux_wait_all = False, mux_attr = 0, mux_name = None \<rparr>
      (replicate 2 (snd (create_event (snd (create_event sem_new None 0 True)) None 0 True)))
      0 (False, False) 16 (gm_alloc 64)) = guest_write_ign (gm_alloc 64) 16 (20 :: u32)"
proof -
  let ?m = "snd (create_event (snd (create_event sem_new None 0 True)) None 0 True)"
  let ?mux = "\<lparr> mux_records = [\<lparr> mr_hsem = EventHandle 1, mr_user = 10 \<rparr>,
    \<lparr> mr_hsem = EventHandle 2, mr_user = 20 \<rparr>], mux_wait_all = False, mux_attr = 0, mux_name = None \<rparr>"
  have r: "sem_ready ?m 0 \<lparr> mr_hsem = EventHandle 1, mr_user = 10 \<rparr>"
    "sem_ready ?m 0 \<lparr> mr_hsem = EventHandle 2, mr_user = 20 \<rparr>"
    by (simp_all add: sem_ready_def get_event_def create_event_def sem_insert_event_def sem_new_def Let_def)
  let ?ms = "replicate 2 ?m"
  have f: "\<not> fst (False, False)" by simp
  note sp = wait_mux_pass_spec [OF f, of ?mux ?ms 0 16 "gm_alloc 64"]
  have ready: "mux_ready_at ?ms 0 ?mux 0" "mux_ready_at ?ms 0 ?mux 1"
    using r by (simp_all add: mux_ready_at_def)
  have "fst (wait_mux_pass ?mux ?ms 0 (False, False) 16 (gm_alloc 64)) = Some 0"
    using conjunct1 [OF sp] ready(1) by auto
  then have "snd (wait_mux_pass ?mux ?ms 0 (False, False) 16 (gm_alloc 64)) =
      guest_write_ign (gm_alloc 64) 16 (mr_user (mux_records ?mux ! 1))"
    using spec [OF conjunct2 [OF sp], of 1] ready(2) by simp
  then show ?thesis by simp
qed

text \<open>
  Posting wakes waiters for good: after a post call on an existing event, successful or
  reporting that the event was posted already (299), every later wait on that handle succeeds
  at its first pass, even if the loader is shutting down or the deadline has passed; posting
  once more changes nothing and reports 299. Without a post a wait fails only when the loader
  shuts down or the deadline has passed.
\<close>

theorem post_event_wakes:
  assumes "dos_post_event_sem m hev = (rc, m')" "rc \<noteq> 6"
  shows "(\<exists>e. get_event m' hev = Some e \<and> dos_wait_event_sem m' hev ((e, fl) # obs) = Some 0)
    \<and> dos_post_event_sem m' hev = (299, m')
    \<and> (wait_event_pass e0 fl = Some 640 \<longleftrightarrow> \<not> ev_posted e0 \<and> (fst fl \<or> snd fl))"
  using assms
  by (auto simp: dos_post_event_sem_def get_event_def dos_wait_event_sem_def wait_event_pass_def
      split: option.splits if_splits)

text \<open>Posting the first event of a fresh manager.\<close>

theorem post_event_wakes_witness:
  "fst (dos_post_event_sem (snd (dos_post_event_sem (snd (create_event sem_new None 0 False)) 1)) 1) = 299"
proof -
  let ?m = "snd (create_event sem_new None 0 False)"
  have "fst (dos_post_event_sem ?m 1) = 0"
    by (simp add: dos_post_event_sem_def get_event_def create_event_def sem_insert_event_def sem_new_def
        Let_def)
  then show ?thesis using post_event_wakes [OF prod.collapse [symmetric], of ?m 1] by simp
qed

end
