(* ===== verification/Queues.thy ===== *)
theory Queues
  imports Memory_Manager Semaphores
begin

text \<open>
  Inter-process queues: \<^verbatim>\<open>QueueManager\<close> (\<^verbatim>\<open>src/src/loader/ipc.rs\<close>) and the \<^verbatim>\<open>Dos*Queue\<close> calls over
  it (\<^verbatim>\<open>src/src/loader/doscalls.rs\<close>). A queue is a sequence of entries behind one lock; a read
  takes the oldest entry, allocates guest memory for it and copies its bytes there. Blocking
  reads are passes, as for semaphores: \<open>None\<close> sends the caller round the loop again.
\<close>

section \<open>State\<close>

record queue_entry =
  qe_data :: "u8 list"
  qe_event :: u32
  qe_priority :: u32

record os2_queue =
  q_name :: ustring
  q_items :: "queue_entry list"
  q_attr :: u32

record queue_manager =
  qm_queues :: "u32 \<rightharpoonup> os2_queue"
  qm_next_handle :: u32

definition qm_new :: queue_manager where
  "qm_new = \<lparr> qm_queues = Map.empty, qm_next_handle = 1 \<rparr>"

definition qm_add :: "queue_manager \<Rightarrow> os2_queue \<Rightarrow> u32 \<times> queue_manager" where
  "qm_add m q =
    (let h = qm_next_handle m in
     (h, m\<lparr> qm_queues := (qm_queues m)(h \<mapsto> q), qm_next_handle := qm_next_handle m + 1 \<rparr>))"

definition qm_create :: "queue_manager \<Rightarrow> ustring \<Rightarrow> u32 \<Rightarrow> u32 \<times> queue_manager" where
  "qm_create m nm attr = qm_add m \<lparr> q_name = nm, q_items = [], q_attr = attr \<rparr>"

definition qm_get :: "queue_manager \<Rightarrow> u32 \<Rightarrow> os2_queue option" where
  "qm_get m h = qm_queues m h"

definition qm_close :: "queue_manager \<Rightarrow> u32 \<Rightarrow> bool \<times> queue_manager" where
  "qm_close m h = (qm_queues m h \<noteq> None, m\<lparr> qm_queues := (qm_queues m)(h := None) \<rparr>)"

definition qm_find_by_name :: "u32 list \<Rightarrow> queue_manager \<Rightarrow> ustring \<Rightarrow> u32 option" where
  "qm_find_by_name order m nm =
    find (\<lambda>h. case qm_queues m h of Some q \<Rightarrow> q_name q = nm | None \<Rightarrow> False) order"

interpretation qm: handle_table qm_add qm_get qm_close qm_next_handle
  by unfold_locales (auto simp: qm_add_def qm_get_def qm_close_def Let_def fun_eq_iff)

text \<open>The shared state the queue calls work on.\<close>

record queue_state =
  qs_queues :: queue_manager
  qs_mem :: memory_manager
  qs_guest :: guest_memory

definition qs_put :: "queue_state \<Rightarrow> u32 \<Rightarrow> os2_queue \<Rightarrow> queue_state" where
  "qs_put st hq q =
    st\<lparr> qs_queues := (qs_queues st)\<lparr> qm_queues := (qm_queues (qs_queues st))(hq \<mapsto> q) \<rparr> \<rparr>"

section \<open>The calls\<close>

definition dos_create_queue ::
    "encoding_rs \<Rightarrow> u32 \<Rightarrow> queue_state \<Rightarrow> u32 \<Rightarrow> u32 \<Rightarrow> u32 \<Rightarrow> u32 \<times> queue_state" where
  "dos_create_queue rs cp st phq_ptr attr psz_name_ptr =
    (let nm = read_guest_string rs cp (qs_guest st) psz_name_ptr;
         (h, qm') = qm_create (qs_queues st) nm attr in
     (0, st\<lparr> qs_queues := qm', qs_guest := guest_write_ign (qs_guest st) phq_ptr h \<rparr>))"

definition dos_open_queue ::
    "encoding_rs \<Rightarrow> u32 \<Rightarrow> u32 list \<Rightarrow> queue_state \<Rightarrow> u32 \<Rightarrow> u32 \<Rightarrow> u32 \<times> queue_state" where
  "dos_open_queue rs cp order st phq_ptr psz_name_ptr =
    (let nm = read_guest_string rs cp (qs_guest st) psz_name_ptr in
     case qm_find_by_name order (qs_queues st) nm of
       Some h \<Rightarrow> (0, st\<lparr> qs_guest := guest_write_ign (qs_guest st) phq_ptr h \<rparr>)
     | None \<Rightarrow> (343, st))"

definition queue_payload :: "guest_memory \<Rightarrow> u32 \<Rightarrow> u32 \<Rightarrow> u8 list" where
  "queue_payload g len buf_ptr =
    (let n = unat (min len (64 * 1024 * 1024)) in
     case gm_slice g buf_ptr n of Some src \<Rightarrow> src | None \<Rightarrow> replicate n 0)"

definition dos_write_queue ::
    "queue_state \<Rightarrow> u32 \<Rightarrow> u32 \<Rightarrow> u32 \<Rightarrow> u32 \<Rightarrow> u32 \<Rightarrow> u32 \<times> queue_state" where
  "dos_write_queue st hq event len buf_ptr priority =
    (case qm_get (qs_queues st) hq of
       Some q \<Rightarrow>
         (let data = queue_payload (qs_guest st) len buf_ptr in
          (0, qs_put st hq (q\<lparr> q_items := q_items q @
             [\<lparr> qe_data = data, qe_event = event, qe_priority = priority \<rparr>] \<rparr>)))
     | None \<Rightarrow> (337, st))"

text \<open>The copies a read makes into guest memory once a block has been allocated.\<close>

definition deliver_entry ::
    "guest_memory \<Rightarrow> queue_entry \<Rightarrow> u32 \<Rightarrow> u32 \<Rightarrow> u32 \<Rightarrow> u32 \<Rightarrow> u32 \<Rightarrow> guest_memory" where
  "deliver_entry g entry guest_addr preq_ptr pcb_ptr ppbuf_ptr pprio_ptr =
    (let g1 = (case gm_write_bytes g guest_addr (qe_data entry) of Some g' \<Rightarrow> g' | None \<Rightarrow> g);
         g2 = guest_write_ign g1 ppbuf_ptr guest_addr;
         g3 = guest_write_ign g2 pcb_ptr (of_nat (length (qe_data entry)) :: u32);
         g4 = (if preq_ptr \<noteq> 0 then guest_write_ign g3 (preq_ptr + 4) (qe_event entry) else g3) in
     if pprio_ptr \<noteq> 0 then guest_write_ign g4 pprio_ptr (ucast (qe_priority entry) :: u8) else g4)"

definition dos_read_queue ::
    "queue_state \<Rightarrow> u32 \<Rightarrow> u32 \<Rightarrow> u32 \<Rightarrow> u32 \<Rightarrow> u32 \<Rightarrow> u32 \<Rightarrow> bool \<Rightarrow> u32 option \<times> queue_state" where
  "dos_read_queue st hq preq_ptr pcb_ptr ppbuf_ptr wait pprio_ptr shutting_down =
    (case qm_get (qs_queues st) hq of
       None \<Rightarrow> (Some 337, st)
     | Some q \<Rightarrow>
         if shutting_down then (Some 342, st)
         else case q_items q of
           entry # rest \<Rightarrow>
             (let st1 = qs_put st hq (q\<lparr> q_items := rest \<rparr>);
                  len = of_nat (length (qe_data entry)) in
              case mm_alloc (qs_mem st1) len of
                (Some guest_addr, mem') \<Rightarrow>
                  (Some 0, st1\<lparr> qs_mem := mem',
                     qs_guest := deliver_entry (qs_guest st1) entry guest_addr preq_ptr pcb_ptr
                       ppbuf_ptr pprio_ptr \<rparr>)
              | (None, mem') \<Rightarrow> (Some 8, st1\<lparr> qs_mem := mem' \<rparr>))
         | [] \<Rightarrow> if wait = 0 then (Some 342, st) else (None, st))"

definition dos_close_queue :: "queue_state \<Rightarrow> u32 \<Rightarrow> u32 \<times> queue_state" where
  "dos_close_queue st hq =
    (let (ok, qm') = qm_close (qs_queues st) hq in
     (if ok then 0 else 337, st\<lparr> qs_queues := qm' \<rparr>))"

definition dos_purge_queue :: "queue_state \<Rightarrow> u32 \<Rightarrow> queue_state" where
  "dos_purge_queue st hq =
    (case qm_get (qs_queues st) hq of
       Some q \<Rightarrow> qs_put st hq (q\<lparr> q_items := [] \<rparr>)
     | None \<Rightarrow> st)"

definition dos_query_queue :: "queue_state \<Rightarrow> u32 \<Rightarrow> u32 \<Rightarrow> u32 \<times> queue_state" where
  "dos_query_queue st hq pcb_ptr =
    (case qm_get (qs_queues st) hq of
       Some q \<Rightarrow> (0, st\<lparr> qs_guest :=
         guest_write_ign (qs_guest st) pcb_ptr (of_nat (length (q_items q)) :: u32) \<rparr>)
     | None \<Rightarrow> (337, st))"

section \<open>Lemmas\<close>

lemma qs_put_get: "qm_get (qs_queues (qs_put st hq q)) hq = Some q"
  by (simp add: qs_put_def qm_get_def)

text \<open>An output cell of \<open>k\<close> bytes at \<open>p\<close> that does not touch the block \<open>a .. a + n\<close>.\<close>

definition apart :: "nat \<Rightarrow> nat \<Rightarrow> u32 \<Rightarrow> nat \<Rightarrow> bool" where
  "apart a n p k \<longleftrightarrow> a + n \<le> unat p \<or> unat p + k \<le> a"

lemma deliver_entry_data:
  assumes "unat a + length (qe_data e) \<le> gm_size g" "gm_size g < 2 ^ 64"
    and "apart (unat a) (length (qe_data e)) ppbuf 4" "apart (unat a) (length (qe_data e)) pcb 4"
    and "preq \<noteq> 0 \<longrightarrow> apart (unat a) (length (qe_data e)) (preq + 4) 4"
    and "pprio \<noteq> 0 \<longrightarrow> apart (unat a) (length (qe_data e)) pprio 1"
  shows "take (length (qe_data e)) (drop (unat a) (gm_bytes (deliver_entry g e a preq pcb ppbuf pprio)))
    = qe_data e"
proof -
  have w: "gm_write_bytes g a (qe_data e) = Some (gm_put g (unat a) (qe_data e))"
    using assms(1,2) by (simp add: gm_write_bytes_def ptr_at_def Let_def)
  show ?thesis
    using assms(3-6) put_same [OF assms(1)]
    by (simp add: deliver_entry_def w Let_def guest_write_ign_slice apart_def size_of_def)
qed

lemma deliver_entry_size: "gm_size (deliver_entry g e a preq pcb ppbuf pprio) = gm_size g"
  by (auto simp: deliver_entry_def Let_def gm_write_bytes_size split: option.splits)

section \<open>Properties\<close>

text \<open>
  Queues are first-in first-out and deliver what was written: a write appends its payload
  behind everything queued before, and a successful read removes exactly the oldest entry,
  places it in a freshly allocated block inside guest memory, and leaves the entry's bytes
  there, provided the caller's output cells lie outside that block.
\<close>

theorem queue_delivers_oldest:
  assumes "qm_get (qs_queues st) hq = Some q" "q_items q = e # rest" "qe_data e \<noteq> []"
    and "mm_reachable base limit (qs_mem st)" "4096 dvd unat base" "base \<le> limit"
    and "gm_size (qs_guest st) = unat limit" "length (qe_data e) < 2 ^ 32"
    and "mm_alloc (qs_mem st) (of_nat (length (qe_data e))) = (Some a, mem')"
    and "\<And>p k. (p, k) \<in> {(ppbuf, 4), (pcb, 4), (preq + 4, 4), (pprio, 1)} \<Longrightarrow>
      apart (unat a) (length (qe_data e)) p k"
  shows "\<exists>st'. dos_read_queue st hq preq pcb ppbuf wait pprio False = (Some 0, st')
    \<and> qm_get (qs_queues st') hq = Some (q\<lparr> q_items := rest \<rparr>)
    \<and> unat base \<le> unat a \<and> unat a + length (qe_data e) \<le> gm_size (qs_guest st)
    \<and> gm_slice (qs_guest st') a (length (qe_data e)) = Some (qe_data e)
    \<and> fst (dos_write_queue st' hq ev len buf prio) = 0
    \<and> (\<exists>q'. qm_get (qs_queues (snd (dos_write_queue st' hq ev len buf prio))) hq = Some q' \<and>
         q_items q' = rest @ [\<lparr> qe_data = queue_payload (qs_guest st') len buf, qe_event = ev,
           qe_priority = prio \<rparr>])"
proof -
  let ?n = "length (qe_data e)"
  have un: "unat (of_nat ?n :: u32) = ?n" using assms(8) by (simp add: unat_of_nat)
  obtain k :: u32 where k: "unat (of_nat ?n :: u32) \<le> unat k"
      "{unat a ..< unat a + unat k} \<subseteq> {unat base ..< unat limit}"
    using mm_alloc_block [OF assms(4-6,9)] by blast
  have "0 < unat k" using k(1) un assms(3) by (cases "unat k") auto
  then have b: "unat base \<le> unat a" "unat a + ?n \<le> gm_size (qs_guest st)"
    using k un assms(7) by (auto simp: atLeastLessThan_subset_iff)
  have sz: "gm_size (qs_guest st) < 2 ^ 64"
    unfolding assms(7) by (rule less_trans [OF unat_u32_lt]) simp
  let ?g = "deliver_entry (qs_guest st) e a preq pcb ppbuf pprio"
  let ?st = "(qs_put st hq (q\<lparr> q_items := rest \<rparr>))\<lparr> qs_mem := mem', qs_guest := ?g \<rparr>"
  have r: "dos_read_queue st hq preq pcb ppbuf wait pprio False = (Some 0, ?st)"
    using assms(1,2,9) by (simp add: dos_read_queue_def qs_put_def Let_def)
  have g: "qm_get (qs_queues ?st) hq = Some (q\<lparr> q_items := rest \<rparr>)"
    by (simp add: qs_put_def qm_get_def)
  have "take ?n (drop (unat a) (gm_bytes ?g)) = qe_data e"
    using assms(10) by (intro deliver_entry_data [OF b(2) sz]) auto
  moreover have "gm_size ?g = gm_size (qs_guest st)" by (rule deliver_entry_size)
  ultimately have d: "gm_slice (qs_guest ?st) a ?n = Some (qe_data e)"
    using b(2) sz by (simp add: gm_slice_def ptr_at_def Let_def)
  have w: "dos_write_queue ?st hq ev len buf prio = (0, qs_put ?st hq (q\<lparr> q_items := rest @
      [\<lparr> qe_data = queue_payload (qs_guest ?st) len buf, qe_event = ev, qe_priority = prio \<rparr>] \<rparr>))"
    using g by (simp add: dos_write_queue_def Let_def)
  show ?thesis
    using r g b d w by (intro exI [of _ ?st]) (simp only: fst_conv snd_conv qs_put_get, simp)
qed

text \<open>A queue with one entry of two bytes, read with all output cells in low memory.\<close>

definition example_queues :: queue_state where
  "example_queues = \<lparr> qs_queues = \<lparr> qm_queues = [1 \<mapsto> \<lparr> q_name = [], q_items =
       [\<lparr> qe_data = [7, 8], qe_event = 5, qe_priority = 0 \<rparr>], q_attr = 0 \<rparr>], qm_next_handle = 2 \<rparr>,
     qs_mem = mm_new 0x1000 0x3000, qs_guest = gm_alloc 0x3000 \<rparr>"

theorem queue_delivers_oldest_witness:
  "\<exists>st'. dos_read_queue example_queues 1 0x10 0x20 0x24 0 0x28 False = (Some 0, st') \<and>
     gm_slice (qs_guest st') 0x1000 2 = Some [7, 8]"
proof -
  let ?e = "\<lparr> qe_data = [7, 8], qe_event = 5, qe_priority = 0 \<rparr> :: queue_entry"
  let ?q = "\<lparr> q_name = [], q_items = [?e], q_attr = 0 \<rparr>"
  let ?mem = "snd (mm_alloc (qs_mem example_queues) 2)"
  have h: "qm_get (qs_queues example_queues) 1 = Some ?q" "q_items ?q = ?e # []" "qe_data ?e \<noteq> []"
    "mm_reachable 0x1000 0x3000 (qs_mem example_queues)" "4096 dvd unat (0x1000 :: u32)"
    "(0x1000 :: u32) \<le> 0x3000" "gm_size (qs_guest example_queues) = unat (0x3000 :: u32)"
    "length (qe_data ?e) < 2 ^ 32"
    by (simp_all add: example_queues_def qm_get_def mm_init)
  have al: "mm_alloc (qs_mem example_queues) (of_nat (length (qe_data ?e))) = (Some 0x1000, ?mem)"
    by (simp add: example_queues_def mm_eval)
  have ap: "apart (unat (0x1000 :: u32)) (length (qe_data ?e)) p k"
    if "(p, k) \<in> {(0x24, 4), (0x20, 4), (0x10 + 4, 4), (0x28, 1)}" for p k
    using that by (auto simp: apart_def)
  obtain st' where "dos_read_queue example_queues 1 0x10 0x20 0x24 0 0x28 False = (Some 0, st')"
    and "gm_slice (qs_guest st') 0x1000 (length (qe_data ?e)) = Some (qe_data ?e)"
    using queue_delivers_oldest [OF h al ap, where wait = 0] by blast
  moreover have "length (qe_data ?e) = 2" by simp
  ultimately show ?thesis by (metis queue_entry.select_convs(1))
qed

text \<open>
  When no memory is left for the entry, a read reports \<^verbatim>\<open>ERROR_NOT_ENOUGH_MEMORY\<close> (8) and the
  entry is lost: it has been taken out of the queue before the allocation was tried.
\<close>

theorem queue_read_loses_entry:
  assumes "qm_get (qs_queues st) hq = Some q" "q_items q = e # rest"
    and "mm_alloc (qs_mem st) (of_nat (length (qe_data e))) = (None, mem')"
  shows "\<exists>st'. dos_read_queue st hq preq pcb ppbuf wait pprio False = (Some 8, st') \<and>
    qm_get (qs_queues st') hq = Some (q\<lparr> q_items := rest \<rparr>)"
  using assms by (simp add: dos_read_queue_def qs_put_def qm_get_def Let_def)

text \<open>The same queue with an exhausted memory manager.\<close>

theorem queue_read_loses_entry_witness:
  "\<exists>st'. dos_read_queue (example_queues\<lparr> qs_mem := mm_new 0x1000 0x1000 \<rparr>) 1 0 0x20 0x24 0 0 False =
      (Some 8, st') \<and> map_option q_items (qm_get (qs_queues st') 1) = Some []"
proof -
  let ?st = "example_queues\<lparr> qs_mem := mm_new 0x1000 0x1000 \<rparr>"
  let ?e = "\<lparr> qe_data = [7, 8], qe_event = 5, qe_priority = 0 \<rparr> :: queue_entry"
  have "qm_get (qs_queues ?st) 1 = Some \<lparr> q_name = [], q_items = [?e], q_attr = 0 \<rparr>"
    by (simp add: example_queues_def qm_get_def)
  moreover have "mm_alloc (qs_mem ?st) (of_nat (length (qe_data ?e))) = (None, mm_new 0x1000 0x1000)"
    by (simp add: mm_eval)
  ultimately show ?thesis
    using queue_read_loses_entry [of ?st 1 _ ?e "[]"] by fastforce
qed

end
