(* ===== verification/SEH.thy ===== *)
theory SEH
  imports Memory_Manager Guest_Memory Constants
begin

unbundle bit_operations_syntax

text \<open>
  OS/2 structured exception handling: \<^verbatim>\<open>src/src/loader/seh.rs\<close>, the registration calls of
  \<^verbatim>\<open>src/src/loader/stubs.rs\<close> and the dispatch frames of \<^verbatim>\<open>src/src/loader/vcpu.rs\<close>. The
  handler chain is a linked list in guest memory whose head is the first word of the TIB; the
  abstract view is the list of its registration records. A faulting register state is written
  to a \<^verbatim>\<open>CONTEXTRECORD\<close> in guest memory, the handlers are called one after the other, and the
  state is read back when one of them asks to continue. \<open>None\<close> is a panic (an \<^verbatim>\<open>unwrap\<close> or
  \<^verbatim>\<open>expect\<close> that fails).
\<close>

section \<open>Constants\<close>

definition TIB_BASE :: u32 where "TIB_BASE = 0x00090000"
definition TIB_EXCHAIN_OFFSET :: u32 where "TIB_EXCHAIN_OFFSET = 0"
definition XCPT_CHAIN_END :: u32 where "XCPT_CHAIN_END = 0xFFFFFFFF"
definition XCPT_CONTINUE_EXECUTION :: u32 where "XCPT_CONTINUE_EXECUTION = 0xFFFFFFFF"
definition EH_NONCONTINUABLE :: u32 where "EH_NONCONTINUABLE = 1"
definition CONTEXT_CONTROL :: u32 where "CONTEXT_CONTROL = 1"
definition CONTEXT_INTEGER :: u32 where "CONTEXT_INTEGER = 2"
definition CONTEXT_SEGMENTS :: u32 where "CONTEXT_SEGMENTS = 4"
definition CONTEXT_FULL :: u32 where
  "CONTEXT_FULL = CONTEXT_CONTROL OR CONTEXT_INTEGER OR CONTEXT_SEGMENTS"

definition CTX_FLAGS :: u32 where "CTX_FLAGS = 0x00"
definition CTX_GS :: u32 where "CTX_GS = 0x8C"
definition CTX_FS :: u32 where "CTX_FS = 0x90"
definition CTX_ES :: u32 where "CTX_ES = 0x94"
definition CTX_DS :: u32 where "CTX_DS = 0x98"
definition CTX_EDI :: u32 where "CTX_EDI = 0x9C"
definition CTX_ESI :: u32 where "CTX_ESI = 0xA0"
definition CTX_EAX :: u32 where "CTX_EAX = 0xA4"
definition CTX_EBX :: u32 where "CTX_EBX = 0xA8"
definition CTX_ECX :: u32 where "CTX_ECX = 0xAC"
definition CTX_EDX :: u32 where "CTX_EDX = 0xB0"
definition CTX_EBP :: u32 where "CTX_EBP = 0xB4"
definition CTX_EIP :: u32 where "CTX_EIP = 0xB8"
definition CTX_CS :: u32 where "CTX_CS = 0xBC"
definition CTX_EFLAGS :: u32 where "CTX_EFLAGS = 0xC0"
definition CTX_ESP :: u32 where "CTX_ESP = 0xC4"
definition CTX_SS :: u32 where "CTX_SS = 0xC8"
definition CONTEXT_RECORD_SIZE :: u32 where "CONTEXT_RECORD_SIZE = 0xCC"

definition ERR_NUM :: u32 where "ERR_NUM = 0x00"
definition ERR_FLAGS :: u32 where "ERR_FLAGS = 0x04"
definition ERR_NESTED :: u32 where "ERR_NESTED = 0x08"
definition ERR_ADDR :: u32 where "ERR_ADDR = 0x0C"
definition ERR_CPARMS :: u32 where "ERR_CPARMS = 0x10"
definition ERR_PARAMS :: u32 where "ERR_PARAMS = 0x14"
definition EXCEPTION_REPORT_SIZE :: u32 where "EXCEPTION_REPORT_SIZE = 0x38"

definition XERREC_PREV :: u32 where "XERREC_PREV = 0"
definition XERREC_HANDLER :: u32 where "XERREC_HANDLER = 4"

definition XCPT_UNABLE_TO_GROW_STACK :: u32 where "XCPT_UNABLE_TO_GROW_STACK = 0xC0000003"
definition XCPT_ACCESS_VIOLATION :: u32 where "XCPT_ACCESS_VIOLATION = 0xC0000005"
definition XCPT_ILLEGAL_INSTRUCTION :: u32 where "XCPT_ILLEGAL_INSTRUCTION = 0xC000001C"
definition XCPT_FLOAT_INVALID_OPERATION :: u32 where "XCPT_FLOAT_INVALID_OPERATION = 0xC000004B"
definition XCPT_INTEGER_DIVIDE_BY_ZERO :: u32 where "XCPT_INTEGER_DIVIDE_BY_ZERO = 0xC000009B"
definition XCPT_INTEGER_OVERFLOW :: u32 where "XCPT_INTEGER_OVERFLOW = 0xC0000097"
definition XCPT_DATATYPE_MISALIGNMENT :: u32 where "XCPT_DATATYPE_MISALIGNMENT = 0xC000009E"
definition XCPT_BREAKPOINT :: u32 where "XCPT_BREAKPOINT = 0xC0000009"
definition XCPT_SINGLE_STEP :: u32 where "XCPT_SINGLE_STEP = 0xC000000A"
definition XCPT_FATAL_EXCEPTION :: u32 where "XCPT_FATAL_EXCEPTION = 0xC000FFFF"

definition NO_ERROR :: u32 where "NO_ERROR = 0"
definition ERROR_INVALID_PARAMETER :: u32 where "ERROR_INVALID_PARAMETER = 87"
definition ERROR_NESTING_NOT_ALLOWED :: u32 where "ERROR_NESTING_NOT_ALLOWED = 215"

lemmas ctx_offsets = CTX_FLAGS_def CTX_GS_def CTX_FS_def CTX_ES_def CTX_DS_def CTX_EDI_def
  CTX_ESI_def CTX_EAX_def CTX_EBX_def CTX_ECX_def CTX_EDX_def CTX_EBP_def CTX_EIP_def CTX_CS_def
  CTX_EFLAGS_def CTX_ESP_def CTX_SS_def CONTEXT_FULL_def CONTEXT_CONTROL_def
  CONTEXT_INTEGER_def CONTEXT_SEGMENTS_def

lemmas err_offsets = ERR_NUM_def ERR_FLAGS_def ERR_NESTED_def ERR_ADDR_def ERR_CPARMS_def
  ERR_PARAMS_def

lemmas seh_consts = TIB_BASE_def TIB_EXCHAIN_OFFSET_def XCPT_CHAIN_END_def XERREC_PREV_def
  XERREC_HANDLER_def CONTEXT_RECORD_SIZE_def EXCEPTION_REPORT_SIZE_def

lemmas xcpt_codes = XCPT_UNABLE_TO_GROW_STACK_def XCPT_ACCESS_VIOLATION_def XCPT_ILLEGAL_INSTRUCTION_def
  XCPT_FLOAT_INVALID_OPERATION_def XCPT_INTEGER_DIVIDE_BY_ZERO_def XCPT_INTEGER_OVERFLOW_def
  XCPT_DATATYPE_MISALIGNMENT_def XCPT_BREAKPOINT_def XCPT_SINGLE_STEP_def XCPT_FATAL_EXCEPTION_def

section \<open>Data\<close>

record fault_context =
  fc_eax :: u32
  fc_ebx :: u32
  fc_ecx :: u32
  fc_edx :: u32
  fc_esi :: u32
  fc_edi :: u32
  fc_ebp :: u32
  fc_esp :: u32
  fc_eip :: u32
  fc_eflags :: u32
  fc_cs :: u16
  fc_ds :: u16
  fc_es :: u16
  fc_fs :: u16
  fc_gs :: u16
  fc_ss :: u16

datatype api_result =
    Normal u32
  | Callback (wnd_proc: u32) (hwnd: u32) (msg: u32) (mp1: u32) (mp2: u32)
  | WmCreateCallback (wnd_proc: u32) (hwnd: u32) (h_frame: u32)
  | CallGuest (call_addr: u32) (hmod: u32) (phmod: u32) (object_bases: "u32 list")
  | DlgRunLoop (dlg_proc: u32) (hwnd_dlg: u32) (hmq: u32)
  | ExceptionDispatch (handler_addr: u32) (exc_report: u32) (reg_rec: u32) (ctx_record: u32)
      (saved: fault_context) (next_handler: u32) (guest_allocs: "u32 list")

text \<open>The parts of \<^verbatim>\<open>SharedState\<close> the exception code works on.\<close>

record seh_state =
  ss_guest :: guest_memory
  ss_mem :: memory_manager

definition xcpt_code_for_vector :: "u32 \<Rightarrow> u32 \<Rightarrow> u32" where
  "xcpt_code_for_vector vector error_code =
    (if vector = 0 then XCPT_INTEGER_DIVIDE_BY_ZERO
     else if vector = 1 then XCPT_SINGLE_STEP
     else if vector = 3 then XCPT_BREAKPOINT
     else if vector = 4 then XCPT_INTEGER_OVERFLOW
     else if vector = 5 then XCPT_ACCESS_VIOLATION
     else if vector = 6 then XCPT_ILLEGAL_INSTRUCTION
     else if vector = 7 then XCPT_ILLEGAL_INSTRUCTION
     else if vector = 10 then XCPT_ACCESS_VIOLATION
     else if vector = 11 then XCPT_ACCESS_VIOLATION
     else if vector = 12 then XCPT_UNABLE_TO_GROW_STACK
     else if vector = 13 then XCPT_ACCESS_VIOLATION
     else if vector = 14 then XCPT_ACCESS_VIOLATION
     else if vector = 16 then XCPT_FLOAT_INVALID_OPERATION
     else if vector = 17 then XCPT_DATATYPE_MISALIGNMENT
     else if vector = 19 then XCPT_FLOAT_INVALID_OPERATION
     else XCPT_FATAL_EXCEPTION)"

section \<open>Records in guest memory\<close>

text \<open>A sequence of \<^verbatim>\<open>guest_write::<u32>(addr + off, v).unwrap()\<close>.\<close>

fun write_dwords :: "guest_memory \<Rightarrow> u32 \<Rightarrow> (u32 \<times> u32) list \<Rightarrow> guest_memory option" where
  "write_dwords m addr [] = Some m"
| "write_dwords m addr ((off, v) # ws) =
    do { m' \<leftarrow> gm_write m (addr + off) v; write_dwords m' addr ws }"

definition read_or :: "guest_memory \<Rightarrow> u32 \<Rightarrow> u32 \<Rightarrow> u32" where
  "read_or m addr d = (case gm_read m addr of Some v \<Rightarrow> v | None \<Rightarrow> d)"

definition report_dwords :: "u32 \<Rightarrow> u32 \<Rightarrow> u32 \<Rightarrow> u32 list \<Rightarrow> (u32 \<times> u32) list" where
  "report_dwords xcpt_code flags exc_addr params =
    [(ERR_NUM, xcpt_code), (ERR_FLAGS, flags), (ERR_NESTED, 0), (ERR_ADDR, exc_addr),
     (ERR_CPARMS, of_nat (min (length params) 9))] @
    map (\<lambda>(i, p). (ERR_PARAMS + of_nat i * 4, p)) (enumerate 0 (take 9 params)) @
    map (\<lambda>i. (ERR_PARAMS + of_nat i * 4, 0)) [length params ..< 9]"

definition write_exception_report ::
  "guest_memory \<Rightarrow> u32 \<Rightarrow> u32 \<Rightarrow> u32 \<Rightarrow> u32 \<Rightarrow> u32 list \<Rightarrow> guest_memory option" where
  "write_exception_report m addr xcpt_code flags exc_addr params =
    write_dwords m addr (report_dwords xcpt_code flags exc_addr params)"

definition context_dwords :: "fault_context \<Rightarrow> (u32 \<times> u32) list" where
  "context_dwords ctx =
    map (\<lambda>k. (4 * of_nat k, 0)) [1 ..< 35] @
    [(CTX_FLAGS, CONTEXT_FULL), (CTX_GS, ucast (fc_gs ctx)), (CTX_FS, ucast (fc_fs ctx)),
     (CTX_ES, ucast (fc_es ctx)), (CTX_DS, ucast (fc_ds ctx)), (CTX_EDI, fc_edi ctx),
     (CTX_ESI, fc_esi ctx), (CTX_EAX, fc_eax ctx), (CTX_EBX, fc_ebx ctx), (CTX_ECX, fc_ecx ctx),
     (CTX_EDX, fc_edx ctx), (CTX_EBP, fc_ebp ctx), (CTX_EIP, fc_eip ctx),
     (CTX_CS, ucast (fc_cs ctx)), (CTX_EFLAGS, fc_eflags ctx), (CTX_ESP, fc_esp ctx),
     (CTX_SS, ucast (fc_ss ctx))]"

definition write_context_record ::
  "guest_memory \<Rightarrow> u32 \<Rightarrow> fault_context \<Rightarrow> guest_memory option" where
  "write_context_record m addr ctx = write_dwords m addr (context_dwords ctx)"

definition read_context_record :: "guest_memory \<Rightarrow> u32 \<Rightarrow> fault_context" where
  "read_context_record m addr =
    \<lparr> fc_eax = read_or m (addr + CTX_EAX) 0, fc_ebx = read_or m (addr + CTX_EBX) 0,
      fc_ecx = read_or m (addr + CTX_ECX) 0, fc_edx = read_or m (addr + CTX_EDX) 0,
      fc_esi = read_or m (addr + CTX_ESI) 0, fc_edi = read_or m (addr + CTX_EDI) 0,
      fc_ebp = read_or m (addr + CTX_EBP) 0, fc_esp = read_or m (addr + CTX_ESP) 0,
      fc_eip = read_or m (addr + CTX_EIP) 0, fc_eflags = read_or m (addr + CTX_EFLAGS) 2,
      fc_cs = ucast (read_or m (addr + CTX_CS) 0x08),
      fc_ds = ucast (read_or m (addr + CTX_DS) 0x10),
      fc_es = ucast (read_or m (addr + CTX_ES) 0x10),
      fc_fs = ucast (read_or m (addr + CTX_FS) 0x18),
      fc_gs = ucast (read_or m (addr + CTX_GS) 0x10),
      fc_ss = ucast (read_or m (addr + CTX_SS) 0x10) \<rparr>"

definition alloc_exception_records ::
  "seh_state \<Rightarrow> fault_context \<Rightarrow> u32 \<Rightarrow> u32 \<Rightarrow> u32 \<Rightarrow> u32 list
    \<Rightarrow> ((u32 \<times> u32 \<times> u32 list) \<times> seh_state) option" where
  "alloc_exception_records st fault xcpt_code flags exc_addr params =
    (case mm_alloc (ss_mem st) EXCEPTION_REPORT_SIZE of
       (None, _) \<Rightarrow> None
     | (Some report, mm1) \<Rightarrow>
         (case mm_alloc mm1 CONTEXT_RECORD_SIZE of
            (None, _) \<Rightarrow> None
          | (Some ctx, mm2) \<Rightarrow>
              do { g1 \<leftarrow> write_exception_report (ss_guest st) report xcpt_code flags exc_addr params;
                   g2 \<leftarrow> write_context_record g1 ctx fault;
                   Some ((report, ctx, [report, ctx]), st\<lparr> ss_guest := g2, ss_mem := mm2 \<rparr>) }))"

definition free_exception_records :: "seh_state \<Rightarrow> u32 list \<Rightarrow> seh_state" where
  "free_exception_records st allocs =
    st\<lparr> ss_mem := foldl (\<lambda>mm a. snd (mm_free mm a)) (ss_mem st) allocs \<rparr>"

section \<open>Registration, dispatch and unwinding\<close>

definition chain_head :: "guest_memory \<Rightarrow> u32" where
  "chain_head m = read_or m (TIB_BASE + TIB_EXCHAIN_OFFSET) XCPT_CHAIN_END"

definition dos_set_exception_handler ::
  "guest_memory \<Rightarrow> u32 \<Rightarrow> (u32 \<times> guest_memory) option" where
  "dos_set_exception_handler m preg_rec =
    (if preg_rec = 0 then Some (ERROR_INVALID_PARAMETER, m)
     else do { m1 \<leftarrow> gm_write m (preg_rec + XERREC_PREV) (chain_head m);
               m2 \<leftarrow> gm_write m1 (TIB_BASE + TIB_EXCHAIN_OFFSET) preg_rec;
               Some (NO_ERROR, m2) })"

definition dos_unset_exception_handler ::
  "guest_memory \<Rightarrow> u32 \<Rightarrow> (u32 \<times> guest_memory) option" where
  "dos_unset_exception_handler m preg_rec =
    (if preg_rec = 0 then Some (ERROR_INVALID_PARAMETER, m)
     else do { m' \<leftarrow> gm_write m (TIB_BASE + TIB_EXCHAIN_OFFSET)
                       (read_or m (preg_rec + XERREC_PREV) XCPT_CHAIN_END);
               Some (NO_ERROR, m') })"

definition try_hw_exception_dispatch ::
  "seh_state \<Rightarrow> fault_context \<Rightarrow> u32 \<Rightarrow> u32 \<Rightarrow> (api_result option \<times> seh_state) option" where
  "try_hw_exception_dispatch st fault vector error_code =
    (let xcpt_code = xcpt_code_for_vector vector error_code;
         flags = (if xcpt_code = XCPT_ACCESS_VIOLATION \<or> xcpt_code = XCPT_FATAL_EXCEPTION
                  then EH_NONCONTINUABLE else 0);
         params = (if vector = 14 then [0, fc_eip fault] else []);
         hd = chain_head (ss_guest st) in
     if hd = XCPT_CHAIN_END then Some (None, st)
     else if hd = 0 \<or> 0x08000000 \<le> hd then Some (None, st)
     else
       let handler_fn = read_or (ss_guest st) (hd + XERREC_HANDLER) 0 in
       if handler_fn = 0 then Some (None, st)
       else
         let next = read_or (ss_guest st) (hd + XERREC_PREV) XCPT_CHAIN_END in
         do { ((report, ctx, allocs), st') \<leftarrow>
                alloc_exception_records st fault xcpt_code flags (fc_eip fault) params;
              Some (Some (ExceptionDispatch handler_fn report hd ctx fault next allocs), st') })"

definition raise_context :: "u32 \<Rightarrow> fault_context" where
  "raise_context exc_addr =
    \<lparr> fc_eax = 0, fc_ebx = 0, fc_ecx = 0, fc_edx = 0, fc_esi = 0, fc_edi = 0, fc_ebp = 0,
      fc_esp = 0, fc_eip = exc_addr, fc_eflags = 2, fc_cs = 0x08, fc_ds = 0x10, fc_es = 0x10,
      fc_fs = 0x18, fc_gs = 0x10, fc_ss = 0x10 \<rparr>"

definition dos_raise_exception :: "seh_state \<Rightarrow> u32 \<Rightarrow> (api_result \<times> seh_state) option" where
  "dos_raise_exception st p_exc_rec =
    (if p_exc_rec = 0 then Some (Normal ERROR_INVALID_PARAMETER, st)
     else
       let exc_addr = read_or (ss_guest st) (p_exc_rec + ERR_ADDR) 0;
           hd = chain_head (ss_guest st) in
       if hd = XCPT_CHAIN_END then Some (Normal ERROR_NESTING_NOT_ALLOWED, st)
       else if hd = 0 \<or> 0x08000000 \<le> hd then Some (Normal ERROR_NESTING_NOT_ALLOWED, st)
       else
         let handler_fn = read_or (ss_guest st) (hd + XERREC_HANDLER) 0 in
         if handler_fn = 0 then Some (Normal ERROR_INVALID_PARAMETER, st)
         else
           let next = read_or (ss_guest st) (hd + XERREC_PREV) XCPT_CHAIN_END;
               fault = raise_context exc_addr in
           (case mm_alloc (ss_mem st) CONTEXT_RECORD_SIZE of
              (None, _) \<Rightarrow> None
            | (Some ctx, mm') \<Rightarrow>
                do { g \<leftarrow> write_context_record (ss_guest st) ctx fault;
                     Some (ExceptionDispatch handler_fn p_exc_rec hd ctx fault next [ctx],
                           st\<lparr> ss_guest := g, ss_mem := mm' \<rparr>) }))"

text \<open>
  The walk of \<^verbatim>\<open>DosUnwindException\<close>: the record it stops at and the number of records it
  skipped. The source's counter stops it at 256 skipped records, which bounds the recursion.
\<close>

function unwind_walk :: "guest_memory \<Rightarrow> u32 \<Rightarrow> u32 \<Rightarrow> nat \<Rightarrow> u32 \<times> nat" where
  "unwind_walk m p_reg_rec cur steps =
    (if cur \<noteq> XCPT_CHAIN_END \<and> cur \<noteq> p_reg_rec then
       (if steps + 1 > 256 then (cur, steps)
        else unwind_walk m p_reg_rec (read_or m (cur + XERREC_PREV) XCPT_CHAIN_END) (steps + 1))
     else (cur, steps))"
  by pat_completeness auto
termination by (relation "measure (\<lambda>(m, p, cur, steps). 256 - steps)") auto

declare unwind_walk.simps [simp del]

definition dos_unwind_exception ::
  "guest_memory \<Rightarrow> u32 \<Rightarrow> u32 \<Rightarrow> u32 \<Rightarrow> u32 \<Rightarrow> (u32 \<times> guest_memory) option" where
  "dos_unwind_exception m p_reg_rec reserved p_exc_rec data =
    (case unwind_walk m p_reg_rec (chain_head m) 0 of
       (cur, steps) \<Rightarrow>
         do { m' \<leftarrow> gm_write m (TIB_BASE + TIB_EXCHAIN_OFFSET) p_reg_rec;
              Some (NO_ERROR, m') })"

section \<open>Handler calls\<close>

text \<open>
  The registers the dispatch touches (\<^verbatim>\<open>GuestRegs\<close> of the VM backend), the callback frame of an
  exception handler, and what the vCPU does when a handler returns to \<^verbatim>\<open>CALLBACK_RET_TRAP\<close>.
\<close>

record guest_regs =
  rip :: u64
  rsp :: u64
  rax :: u64
  rbx :: u64
  rcx :: u64
  rdx :: u64
  rsi :: u64
  rdi :: u64
  rbp :: u64
  rflags :: u64

record exc_frame =
  saved_rip :: u64
  saved_rsp :: u64
  fr_saved :: fault_context
  fr_next_handler :: u32
  fr_exc_report :: u32
  fr_ctx_record :: u32
  fr_guest_allocs :: "u32 list"

fun setup_exception_dispatch ::
  "guest_memory \<Rightarrow> guest_regs \<Rightarrow> exc_frame list \<Rightarrow> api_result
    \<Rightarrow> (guest_memory \<times> guest_regs \<times> exc_frame list) option" where
  "setup_exception_dispatch m regs stack
      (ExceptionDispatch handler report reg ctx sv next allocs) =
    (let frame = \<lparr> saved_rip = ucast (fc_eip sv), saved_rsp = ucast (fc_esp sv), fr_saved = sv,
                   fr_next_handler = next, fr_exc_report = report, fr_ctx_record = ctx,
                   fr_guest_allocs = allocs \<rparr>;
         rsp' = rsp regs - 20;
         sp = (ucast rsp' :: u32) in
     do { m' \<leftarrow> write_dwords m sp
                   [(0, CALLBACK_RET_TRAP), (4, report), (8, reg), (12, ctx), (16, 0)];
          Some (m', regs\<lparr> rsp := rsp', rip := ucast handler \<rparr>, frame # stack) })"
| "setup_exception_dispatch m regs stack _ = Some (m, regs, stack)"

datatype handler_outcome =
    Resumed seh_state guest_regs "exc_frame list"
  | NextHandler seh_state guest_regs "exc_frame list"
  | ExitRequested seh_state int

definition exception_handler_returned ::
  "seh_state \<Rightarrow> guest_regs \<Rightarrow> exc_frame \<Rightarrow> exc_frame list \<Rightarrow> handler_outcome option" where
  "exception_handler_returned st regs frame stack =
    (let result = (ucast (rax regs) :: u32) in
     if result = XCPT_CONTINUE_EXECUTION then
       let ctx = read_context_record (ss_guest st) (fr_ctx_record frame) in
       Some (Resumed (free_exception_records st (fr_guest_allocs frame))
         (regs\<lparr> rip := ucast (fc_eip ctx), rsp := ucast (fc_esp ctx), rax := ucast (fc_eax ctx),
                rbx := ucast (fc_ebx ctx), rcx := ucast (fc_ecx ctx), rdx := ucast (fc_edx ctx),
                rsi := ucast (fc_esi ctx), rdi := ucast (fc_edi ctx), rbp := ucast (fc_ebp ctx),
                rflags := ucast (fc_eflags ctx) \<rparr>) stack)
     else if fr_next_handler frame = XCPT_CHAIN_END then
       Some (ExitRequested (free_exception_records st (fr_guest_allocs frame)) 1)
     else
       let handler_fn = read_or (ss_guest st) (fr_next_handler frame + XERREC_HANDLER) 0;
           next_next = read_or (ss_guest st) (fr_next_handler frame + XERREC_PREV) XCPT_CHAIN_END in
       if handler_fn = 0 then
         Some (ExitRequested (free_exception_records st (fr_guest_allocs frame)) 1)
       else
         do { (g, regs', stack') \<leftarrow> setup_exception_dispatch (ss_guest st) regs stack
                (ExceptionDispatch handler_fn (fr_exc_report frame) (fr_next_handler frame)
                   (fr_ctx_record frame) (fr_saved frame) next_next (fr_guest_allocs frame));
              Some (NextHandler (st\<lparr> ss_guest := g \<rparr>) regs' stack') })"

section \<open>Writing records\<close>

lemma gm_read_cong:
  assumes "gm_size m' = gm_size m"
    and "take (size_of TYPE('a)) (drop (unat a) (gm_bytes m')) =
      take (size_of TYPE('a)) (drop (unat a) (gm_bytes m))"
  shows "gm_read m' a = (gm_read m a :: 'a::len word option)"
  using assms by (auto simp: gm_read_def ptr_at_def Let_def)

lemma gm_write_u32_ok:
  assumes "unat a + 4 \<le> gm_size m"
  shows "gm_write m a (v :: u32) = Some (gm_put m (unat a) (le_bytes 4 v))"
proof -
  have "unat a < 18446744073709551612" by (rule less_trans [OF unat_u32_lt]) simp
  then show ?thesis using assms by (simp add: gm_write_Some ptr_at_Some size_of_def)
qed

lemma unat_field:
  fixes addr off :: u32
  assumes "unat addr + N \<le> 2 ^ 32" "unat off + 4 \<le> N"
  shows "unat (addr + off) = unat addr + unat off"
  using assms by (intro unat_plus_u32) simp

lemma fields_apart:
  fixes x y :: u32
  assumes "4 dvd unat x" "4 dvd unat y" "x \<noteq> y"
  shows "unat x + 4 \<le> unat y \<or> unat y + 4 \<le> unat x"
proof -
  have "unat x \<noteq> unat y" using assms(3) by (simp add: word_unat_eq_iff)
  with assms(1,2) show ?thesis by (auto elim!: dvdE)
qed

text \<open>
  A record written field by field: the last value written to each field is in memory, the
  other fields and everything outside the record are as before.
\<close>

lemma write_dwords_run:
  assumes "\<forall>w\<in>set ws. 4 dvd unat (fst w) \<and> unat (fst w) + 4 \<le> N"
    and "unat addr + N \<le> gm_size m" "gm_size m \<le> 2 ^ 32"
  obtains m' where "write_dwords m addr ws = Some m'" "gm_size m' = gm_size m"
    "\<And>off. 4 dvd unat off \<Longrightarrow> unat off + 4 \<le> N \<Longrightarrow> gm_read m' (addr + off) =
      (case map_of (rev ws) off of Some v \<Rightarrow> Some v | None \<Rightarrow> gm_read m (addr + off))"
    "\<And>p n. p + n \<le> unat addr \<or> unat addr + N \<le> p \<Longrightarrow>
      take n (drop p (gm_bytes m')) = take n (drop p (gm_bytes m))"
  using assms
proof (induction ws arbitrary: m thesis)
  case (Cons w ws)
  obtain off v where w: "w = (off, v)" by fastforce
  have off: "4 dvd unat off" "unat off + 4 \<le> N" using Cons.prems(2) w by auto
  have un: "unat (addr + x) = unat addr + unat x" if "unat x + 4 \<le> N" for x :: u32
    using unat_field [of addr N x] that Cons.prems(3,4) by simp
  let ?m1 = "gm_put m (unat (addr + off)) (le_bytes 4 v)"
  have b: "unat (addr + off) + length (le_bytes 4 v) \<le> gm_size m"
    using Cons.prems(3) off un [OF off(2)] by simp
  have wr: "gm_write m (addr + off) v = Some ?m1" using b by (intro gm_write_u32_ok) simp
  have sz: "gm_size ?m1 = gm_size m" by (rule gm_size_put [OF b])
  obtain m' where m': "write_dwords ?m1 addr ws = Some m'" "gm_size m' = gm_size ?m1"
    and rd: "\<And>x. 4 dvd unat x \<Longrightarrow> unat x + 4 \<le> N \<Longrightarrow> gm_read m' (addr + x) =
      (case map_of (rev ws) x of Some v \<Rightarrow> Some v | None \<Rightarrow> gm_read ?m1 (addr + x))"
    and fr: "\<And>p n. p + n \<le> unat addr \<or> unat addr + N \<le> p \<Longrightarrow>
      take n (drop p (gm_bytes m')) = take n (drop p (gm_bytes ?m1))"
    using Cons.IH [of ?m1] Cons.prems(2-4) sz by auto
  show ?case
  proof (rule Cons.prems(1))
    show "write_dwords m addr (w # ws) = Some m'" using wr m'(1) w by simp
    show "gm_size m' = gm_size m" using m'(2) sz by simp
    fix x :: u32 assume x: "4 dvd unat x" "unat x + 4 \<le> N"
    have "gm_read ?m1 (addr + x) = (if x = off then Some v else gm_read m (addr + x))"
    proof (cases "x = off")
      case False
      then have "unat (addr + x) + 4 \<le> unat (addr + off) \<or> unat (addr + off) + 4 \<le> unat (addr + x)"
        using fields_apart [of x off] x off un [OF x(2)] un [OF off(2)] by simp
      then show ?thesis using gm_write_other [OF wr, of "addr + x", where ?'b = 32] False
        by (simp add: size_of_def)
    qed (use gm_write_same [OF wr] in simp)
    then show "gm_read m' (addr + x) = (case map_of (rev (w # ws)) x of
        Some v \<Rightarrow> Some v | None \<Rightarrow> gm_read m (addr + x))"
      using rd [OF x] w by (auto simp: map_add_def split: option.splits)
  next
    fix p n assume pn: "p + n \<le> unat addr \<or> unat addr + N \<le> p"
    then have "p + n \<le> unat (addr + off) \<or> unat (addr + off) + length (le_bytes 4 v) \<le> p"
      using un [OF off(2)] off(2) by auto
    then show "take n (drop p (gm_bytes m')) = take n (drop p (gm_bytes m))"
      using fr [OF pn] put_other [OF b, of p n] by simp
  qed
qed auto

text \<open>A record as the list of its words.\<close>

definition dwords_at :: "guest_memory \<Rightarrow> u32 \<Rightarrow> u32 list \<Rightarrow> bool" where
  "dwords_at g p vs \<longleftrightarrow> (\<forall>k < length vs. gm_read g (p + 4 * of_nat k) = Some (vs ! k))"

text \<open>
  The records as OS/2 lays them out: an exception report has five words and nine parameters; a context
  record has its flags, the state of the floating point unit, and the registers.
\<close>

definition report_image :: "u32 \<Rightarrow> u32 \<Rightarrow> u32 \<Rightarrow> u32 list \<Rightarrow> u32 list" where
  "report_image c f a ps = [c, f, 0, a, of_nat (length ps)] @ ps @ replicate (9 - length ps) 0"

definition context_image :: "fault_context \<Rightarrow> u32 list" where
  "context_image r = 7 # replicate 34 0 @
    [ucast (fc_gs r), ucast (fc_fs r), ucast (fc_es r), ucast (fc_ds r),
     fc_edi r, fc_esi r, fc_eax r, fc_ebx r, fc_ecx r, fc_edx r,
     fc_ebp r, fc_eip r, ucast (fc_cs r), fc_eflags r, fc_esp r, ucast (fc_ss r)]"

lemma dwords_atI:
  assumes "distinct (map fst ws)" "\<And>k. k < length vs \<Longrightarrow> (4 * of_nat k, vs ! k) \<in> set ws" "4 * length vs \<le> N" "N < 2 ^ 32"
    and "\<And>off. 4 dvd unat off \<Longrightarrow> unat off + 4 \<le> N \<Longrightarrow> gm_read g (p + off) =
      (case map_of (rev ws) off of Some v \<Rightarrow> Some v | None \<Rightarrow> gm_read m (p + off))"
  shows "dwords_at g p vs"
  unfolding dwords_at_def
proof (intro allI impI)
  fix k assume k: "k < length vs"
  have e: "4 * of_nat k = (of_nat (4 * k) :: u32)" by simp
  have "unat (of_nat (4 * k) :: u32) = 4 * k" unfolding unat_of_nat by (rule mod_less) (use k assms(3,4) in simp)
  then have o: "4 dvd unat (4 * of_nat k :: u32)" "unat (4 * of_nat k :: u32) + 4 \<le> N"
    using k assms(3) unfolding e by simp_all
  have "distinct (map fst (rev ws))" using assms(1) by (simp add: rev_map [symmetric])
  then have "map_of (rev ws) (4 * of_nat k) = Some (vs ! k)"
    using assms(2) [OF k] by (simp add: map_of_eq_Some_iff)
  then show "gm_read g (p + 4 * of_nat k) = Some (vs ! k)" using assms(5) [OF o] by simp
qed

lemma context_dwords_distinct: "distinct (map fst (context_dwords ctx))"
  by (simp add: context_dwords_def ctx_offsets upt_rec)

lemma context_dwords_image:
  assumes "k < length (context_image ctx)"
  shows "(4 * of_nat k, context_image ctx ! k) \<in> set (context_dwords ctx)"
proof -
  consider "k = 0" | "1 \<le> k" "k < 35" | j where "k = 35 + j" "j < 16"
    using assms le_Suc_ex [of 35 k] by (force simp: context_image_def)
  then show ?thesis
  proof cases
    case 2
    then have "k - Suc 0 < 34" by simp
    then have "context_image ctx ! k = 0" using 2 by (simp add: context_image_def nth_Cons' nth_append)
    then show ?thesis using 2 by (simp add: context_dwords_def)
  next
    case 3
    from 3(2) have "j = 0 \<or> j = 1 \<or> j = 2 \<or> j = 3 \<or> j = 4 \<or> j = 5 \<or> j = 6 \<or> j = 7 \<or> j = 8 \<or> j = 9 \<or> j = 10 \<or>
        j = 11 \<or> j = 12 \<or> j = 13 \<or> j = 14 \<or> j = 15" by presburger
    then show ?thesis unfolding 3(1)
      by (elim disjE) (simp_all add: context_image_def context_dwords_def ctx_offsets nth_append)
  qed (simp add: context_image_def context_dwords_def ctx_offsets)
qed

lemma report_dwords_image:
  assumes "ps = [] \<or> ps = [x, y]"
  shows "report_dwords c f a ps = map (\<lambda>k. (4 * of_nat k, report_image c f a ps ! k)) [0..<14]"
  using assms by (elim disjE) (simp_all add: report_dwords_def report_image_def err_offsets upt_rec)

lemma context_dwords_ok:
  "\<forall>w\<in>set (context_dwords ctx). 4 dvd unat (fst w) \<and> unat (fst w) + 4 \<le> 0xCC"
proof -
  have "4 dvd unat (4 * of_nat k :: u32) \<and> unat (4 * of_nat k :: u32) + 4 \<le> 0xCC"
    if "k \<in> set [1 ..< 35]" for k
  proof -
    have "4 * of_nat k = (of_nat (4 * k) :: u32)" by simp
    then have "unat (4 * of_nat k :: u32) = 4 * k"
      using that by (simp only: unat_of_nat) simp
    then show ?thesis using that by simp
  qed
  then show ?thesis by (auto simp: context_dwords_def ctx_offsets)
qed

lemma write_context_run:
  assumes "unat addr + 0xCC \<le> gm_size m" "gm_size m \<le> 2 ^ 32"
  obtains m' where "write_context_record m addr ctx = Some m'" "gm_size m' = gm_size m"
    "read_context_record m' addr = ctx" "dwords_at m' addr (context_image ctx)"
    "\<And>p n. p + n \<le> unat addr \<or> unat addr + 0xCC \<le> p \<Longrightarrow>
      take n (drop p (gm_bytes m')) = take n (drop p (gm_bytes m))"
proof -
  obtain m' where m': "write_dwords m addr (context_dwords ctx) = Some m'" "gm_size m' = gm_size m"
    and rd: "\<And>off. 4 dvd unat off \<Longrightarrow> unat off + 4 \<le> 0xCC \<Longrightarrow> gm_read m' (addr + off) =
      (case map_of (rev (context_dwords ctx)) off of Some v \<Rightarrow> Some v
       | None \<Rightarrow> gm_read m (addr + off))"
    and fr: "\<And>p n. p + n \<le> unat addr \<or> unat addr + 0xCC \<le> p \<Longrightarrow>
      take n (drop p (gm_bytes m')) = take n (drop p (gm_bytes m))"
    using write_dwords_run [OF context_dwords_ok assms] by metis
  have uc: "ucast (ucast (x :: u16) :: u32) = x" for x :: u16
    by (rule bit_word_eqI) (auto simp: bit_simps)
  have "read_context_record m' addr = ctx"
    by (cases ctx) (simp add: read_context_record_def read_or_def rd ctx_offsets context_dwords_def uc)
  moreover have "dwords_at m' addr (context_image ctx)"
    by (rule dwords_atI [OF context_dwords_distinct context_dwords_image, where N = "0xCC"], assumption)
      (simp_all add: context_image_def rd)
  ultimately show ?thesis using that [OF _ m'(2)] m'(1) fr by (simp add: write_context_record_def)
qed

lemma unat_err_param: "i < 9 \<Longrightarrow> unat (ERR_PARAMS + of_nat i * 4) = 0x14 + 4 * i"
proof -
  assume "i < 9"
  moreover have "ERR_PARAMS + of_nat i * 4 = (of_nat (0x14 + 4 * i) :: u32)"
    by (simp add: ERR_PARAMS_def)
  ultimately show ?thesis by (simp only: unat_of_nat) simp
qed

lemma report_dwords_ok:
  "\<forall>w\<in>set (report_dwords c f a ps). 4 dvd unat (fst w) \<and> unat (fst w) + 4 \<le> 0x38"
proof -
  have 1: "4 dvd unat (ERR_PARAMS + of_nat i * 4) \<and> unat (ERR_PARAMS + of_nat i * 4) + 4 \<le> 0x38"
    if "i < 9" for i
  proof -
    have "4 dvd (0x14 + 4 * i)" by (intro dvd_add) auto
    then show ?thesis using that by (simp add: unat_err_param)
  qed
  then show ?thesis
    by (auto simp: report_dwords_def in_set_enumerate_eq ERR_NUM_def ERR_FLAGS_def ERR_NESTED_def
        ERR_ADDR_def ERR_CPARMS_def)
qed

lemma write_report_run:
  assumes "unat addr + 0x38 \<le> gm_size m" "gm_size m \<le> 2 ^ 32" "ps = [] \<or> ps = [x, y]"
  obtains m' where "write_exception_report m addr c f a ps = Some m'" "gm_size m' = gm_size m"
    "dwords_at m' addr (report_image c f a ps)"
    "\<And>p n. p + n \<le> unat addr \<or> unat addr + 0x38 \<le> p \<Longrightarrow>
      take n (drop p (gm_bytes m')) = take n (drop p (gm_bytes m))"
proof -
  let ?ws = "report_dwords c f a ps"
  obtain m' where m': "write_dwords m addr ?ws = Some m'" "gm_size m' = gm_size m"
    and rd: "\<And>off. 4 dvd unat off \<Longrightarrow> unat off + 4 \<le> 0x38 \<Longrightarrow> gm_read m' (addr + off) =
      (case map_of (rev ?ws) off of Some v \<Rightarrow> Some v | None \<Rightarrow> gm_read m (addr + off))"
    and fr: "\<And>p n. p + n \<le> unat addr \<or> unat addr + 0x38 \<le> p \<Longrightarrow>
      take n (drop p (gm_bytes m')) = take n (drop p (gm_bytes m))"
    using write_dwords_run [OF report_dwords_ok assms(1,2)] by metis
  have ws: "?ws = map (\<lambda>k. (4 * of_nat k, report_image c f a ps ! k)) [0..<14]"
    by (rule report_dwords_image [OF assms(3)])
  have len: "length (report_image c f a ps) = 14" using assms(3) by (auto simp: report_image_def)
  have d: "distinct (map fst ?ws)" unfolding ws by (simp add: upt_rec)
  have i: "(4 * of_nat k, report_image c f a ps ! k) \<in> set ?ws" if "k < length (report_image c f a ps)" for k
    using that unfolding ws len by auto
  have "dwords_at m' addr (report_image c f a ps)"
    by (rule dwords_atI [OF d i, where N = "0x38" and m = m], assumption) (simp_all add: len rd)
  with that [OF _ m'(2)] m'(1) fr show ?thesis by (simp add: write_exception_report_def)
qed

section \<open>The handler chain as a list\<close>

fun chain_from :: "guest_memory \<Rightarrow> u32 \<Rightarrow> u32 list \<Rightarrow> bool" where
  "chain_from m cur [] \<longleftrightarrow> cur = XCPT_CHAIN_END"
| "chain_from m cur (r # rs) \<longleftrightarrow> cur = r \<and> r \<noteq> 0 \<and> r \<noteq> XCPT_CHAIN_END \<and>
    (case gm_read m (r + XERREC_PREV) of Some nxt \<Rightarrow> chain_from m nxt rs | None \<Rightarrow> False)"

text \<open>\<open>handler_chain m rs\<close>: the registered handlers, the most recent first.\<close>

definition handler_chain :: "guest_memory \<Rightarrow> u32 list \<Rightarrow> bool" where
  "handler_chain m rs \<longleftrightarrow> chain_from m (chain_head m) rs"

definition apart :: "u32 \<Rightarrow> u32 \<Rightarrow> bool" where
  "apart a b \<longleftrightarrow> unat a + 4 \<le> unat b \<or> unat b + 4 \<le> unat a"

lemma chain_from_frame:
  assumes "\<forall>r\<in>set rs. gm_read m' r = (gm_read m r :: u32 option)"
  shows "chain_from m' c rs = chain_from m c rs"
  using assms
proof (induction rs arbitrary: c)
  case (Cons r rs)
  then show ?case by (auto simp: XERREC_PREV_def split: option.split)
qed simp

lemma chain_from_write:
  assumes "gm_write m a (v :: u32) = Some m'" "\<forall>r\<in>set rs. apart a r"
  shows "chain_from m' c rs = chain_from m c rs"
  using assms(2)
  by (intro chain_from_frame ballI gm_write_other [OF assms(1)]) (auto simp: apart_def size_of_def)

lemma chain_from_suffix: "chain_from m c (xs @ r # ys) \<Longrightarrow> chain_from m r (r # ys)"
proof (induction xs arbitrary: c)
  case (Cons x xs)
  then obtain nxt where "chain_from m nxt (xs @ r # ys)" by (auto split: option.splits)
  then show ?case by (rule Cons.IH)
qed simp

text \<open>Redirecting the head to a chain that avoids the TIB word installs that chain.\<close>

lemma set_head:
  assumes "0x90004 \<le> gm_size m" "chain_from m v rs" "\<forall>r\<in>set rs. apart TIB_BASE r"
  obtains m' where "gm_write m (TIB_BASE + TIB_EXCHAIN_OFFSET) v = Some m'" "handler_chain m' rs"
proof -
  obtain m' where m': "gm_write m TIB_BASE v = Some m'"
    using gm_write_u32_ok [of TIB_BASE m v] assms(1) by (auto simp: TIB_BASE_def)
  have "gm_read m' TIB_BASE = Some v" by (rule gm_write_same [OF m']) simp
  then have "chain_head m' = v" by (simp add: chain_head_def read_or_def TIB_EXCHAIN_OFFSET_def)
  moreover have "chain_from m' v rs" using chain_from_write [OF m' assms(3)] assms(2) by simp
  ultimately show ?thesis using that m' by (simp add: handler_chain_def TIB_EXCHAIN_OFFSET_def)
qed

lemma set_handler_push:
  assumes "0x90004 \<le> gm_size m" "handler_chain m rs" "\<forall>x\<in>set (r # rs). apart TIB_BASE x"
    and "r \<noteq> 0" "r \<noteq> XCPT_CHAIN_END" "unat r + 4 \<le> gm_size m" "\<forall>x\<in>set rs. apart r x"
  shows "\<exists>m'. dos_set_exception_handler m r = Some (NO_ERROR, m') \<and> handler_chain m' (r # rs)"
proof -
  obtain m1 where m1: "gm_write m r (chain_head m) = Some m1"
    using gm_write_u32_ok [OF assms(6)] by blast
  have "gm_read m1 r = Some (chain_head m)" by (rule gm_write_same [OF m1]) simp
  moreover have "chain_from m1 (chain_head m) rs"
    using chain_from_write [OF m1 assms(7)] assms(2) by (simp add: handler_chain_def)
  ultimately have "chain_from m1 r (r # rs)" using assms(4,5) by (simp add: XERREC_PREV_def)
  moreover have "0x90004 \<le> gm_size m1" using gm_write_size [OF m1] assms(1) by simp
  ultimately obtain m2 where "gm_write m1 (TIB_BASE + TIB_EXCHAIN_OFFSET) r = Some m2"
    "handler_chain m2 (r # rs)"
    using set_head [OF _ _ assms(3)] by blast
  then show ?thesis
    using m1 assms(4) by (simp add: dos_set_exception_handler_def XERREC_PREV_def)
qed

lemma unset_handler_pop:
  assumes "0x90004 \<le> gm_size m" "handler_chain m (r # rs)" "\<forall>x\<in>set rs. apart TIB_BASE x"
  shows "\<exists>m'. dos_unset_exception_handler m r = Some (NO_ERROR, m') \<and> handler_chain m' rs"
proof -
  obtain nxt where nxt: "gm_read m (r + XERREC_PREV) = Some nxt" "chain_from m nxt rs" "r \<noteq> 0"
    using assms(2) by (auto simp: handler_chain_def split: option.splits)
  obtain m' where "gm_write m (TIB_BASE + TIB_EXCHAIN_OFFSET) nxt = Some m'" "handler_chain m' rs"
    by (rule set_head [OF assms(1) nxt(2) assms(3)])
  then show ?thesis using nxt by (simp add: dos_unset_exception_handler_def read_or_def)
qed

lemma unwind_truncates:
  assumes "0x90004 \<le> gm_size m" "handler_chain m (xs @ r # ys)" "\<forall>x\<in>set (r # ys). apart TIB_BASE x"
  shows "\<exists>m'. dos_unwind_exception m r a b c = Some (NO_ERROR, m') \<and> handler_chain m' (r # ys)"
proof -
  have "chain_from m r (r # ys)"
    using assms(2) unfolding handler_chain_def by (rule chain_from_suffix)
  then obtain m' where "gm_write m (TIB_BASE + TIB_EXCHAIN_OFFSET) r = Some m'"
    "handler_chain m' (r # ys)"
    using set_head [OF assms(1) _ assms(3)] by blast
  then show ?thesis by (simp add: dos_unwind_exception_def split: prod.split)
qed

lemma unwind_walk_bound: "s \<le> 256 \<Longrightarrow> snd (unwind_walk m p cur s) \<le> 256"
proof (induction m p cur s rule: unwind_walk.induct)
  case (1 m p cur s)
  then show ?case by (subst unwind_walk.simps) auto
qed

text \<open>On a chain shorter than the bound, the walk stops at the target it was asked for.\<close>

lemma unwind_walk_target:
  assumes "chain_from m cur (xs @ r # ys)" "r \<notin> set xs" "s + length xs \<le> 256"
  shows "unwind_walk m r cur s = (r, s + length xs)"
  using assms
proof (induction xs arbitrary: cur s)
  case Nil
  then show ?case by (subst unwind_walk.simps) auto
next
  case (Cons x xs)
  then obtain nxt where nxt: "gm_read m (x + XERREC_PREV) = Some nxt"
    "chain_from m nxt (xs @ r # ys)" "cur = x" "x \<noteq> XCPT_CHAIN_END"
    by (auto split: option.splits)
  have "unwind_walk m r nxt (s + 1) = (r, s + 1 + length xs)"
    using Cons nxt(2) by (intro Cons.IH) auto
  then show ?case
    using Cons.prems nxt by (subst unwind_walk.simps) (auto simp: read_or_def)
qed

section \<open>Properties\<close>

text \<open>
  C22. The handler chain in guest memory is a stack: \<^verbatim>\<open>DosSetExceptionHandler\<close> pushes a
  record, \<^verbatim>\<open>DosUnsetExceptionHandler\<close> of the most recent record pops it, and
  \<^verbatim>\<open>DosUnwindException\<close> to a record on the chain removes exactly the records registered after
  it, for chains of any length; its walk skips at most 256 records even on a cyclic chain.
\<close>

theorem exception_chain_refines:
  assumes "0x90004 \<le> gm_size m" "handler_chain m rs" "\<forall>x\<in>set (r # rs). apart TIB_BASE x"
  shows "(r \<noteq> 0 \<and> r \<noteq> XCPT_CHAIN_END \<and> unat r + 4 \<le> gm_size m \<and> (\<forall>x\<in>set rs. apart r x) \<longrightarrow>
      (\<exists>m'. dos_set_exception_handler m r = Some (NO_ERROR, m') \<and> handler_chain m' (r # rs))) \<and>
    (\<forall>rs'. rs = r # rs' \<longrightarrow>
      (\<exists>m'. dos_unset_exception_handler m r = Some (NO_ERROR, m') \<and> handler_chain m' rs')) \<and>
    (\<forall>xs ys. rs = xs @ r # ys \<longrightarrow>
      (\<exists>m'. dos_unwind_exception m r a b c = Some (NO_ERROR, m') \<and> handler_chain m' (r # ys))) \<and>
    snd (unwind_walk m p (chain_head m) 0) \<le> 256"
proof (intro conjI impI allI)
  show "\<exists>m'. dos_set_exception_handler m r = Some (NO_ERROR, m') \<and> handler_chain m' (r # rs)"
    if "r \<noteq> 0 \<and> r \<noteq> XCPT_CHAIN_END \<and> unat r + 4 \<le> gm_size m \<and> (\<forall>x\<in>set rs. apart r x)"
    using assms that by (intro set_handler_push) auto
  show "\<exists>m'. dos_unset_exception_handler m r = Some (NO_ERROR, m') \<and> handler_chain m' rs'"
    if "rs = r # rs'" for rs'
    using assms that by (intro unset_handler_pop) auto
  show "\<exists>m'. dos_unwind_exception m r a b c = Some (NO_ERROR, m') \<and> handler_chain m' (r # ys)"
    if "rs = xs @ r # ys" for xs ys
    using assms that by (intro unwind_truncates [of m xs]) auto
qed (simp add: unwind_walk_bound)

text \<open>A first handler registered on the empty chain of a fresh thread.\<close>

theorem exception_chain_refines_witness:
  "\<exists>m m'. handler_chain m [] \<and> dos_set_exception_handler m 0xA0000 = Some (NO_ERROR, m') \<and>
     handler_chain m' [0xA0000]"
proof -
  have "0x90004 \<le> gm_size (gm_alloc 0x100000)" "chain_from (gm_alloc 0x100000) XCPT_CHAIN_END []"
    by simp_all
  then obtain m where m: "gm_write (gm_alloc 0x100000) (TIB_BASE + TIB_EXCHAIN_OFFSET) XCPT_CHAIN_END = Some m"
    "handler_chain m []"
    by (rule set_head) auto
  have sz: "gm_size m = 0x100000" using gm_write_size [OF m(1)] by simp
  have "\<forall>x\<in>set [0xA0000]. apart TIB_BASE x" by (simp add: apart_def TIB_BASE_def)
  with exception_chain_refines [where m = m and rs = "[]" and r = "0xA0000"] m(2) sz show ?thesis
    by (auto simp: XCPT_CHAIN_END_def)
qed

text \<open>
  A register state written to a \<^verbatim>\<open>CONTEXTRECORD\<close> is read back exactly, segment registers
  included, and the write changes nothing outside the record's 0xCC bytes.
\<close>

theorem context_record_roundtrip:
  assumes "unat addr + 0xCC \<le> gm_size m" "gm_size m \<le> 2 ^ 32"
  shows "\<exists>m'. write_context_record m addr ctx = Some m' \<and> read_context_record m' addr = ctx \<and>
    gm_size m' = gm_size m \<and>
    (\<forall>p n. p + n \<le> unat addr \<or> unat addr + 0xCC \<le> p \<longrightarrow>
      take n (drop p (gm_bytes m')) = take n (drop p (gm_bytes m)))"
  using write_context_run [OF assms, of ctx] by metis

theorem context_record_roundtrip_witness:
  "\<exists>m'. write_context_record (gm_alloc 0x1000) 0x100 (raise_context 0x12345) = Some m' \<and>
     read_context_record m' 0x100 = raise_context 0x12345"
  using context_record_roundtrip [where addr = "0x100" and m = "gm_alloc 0x1000" and ctx = "raise_context 0x12345"] by auto

section \<open>Dispatch over the memory manager\<close>

text \<open>
  What the dispatch relies on: the allocator is in a reachable state, manages only addresses
  of guest memory, and hands out nothing below its base (where the TIB is).
\<close>

definition seh_wf :: "u32 \<Rightarrow> u32 \<Rightarrow> seh_state \<Rightarrow> bool" where
  "seh_wf base limit st \<longleftrightarrow> 4096 dvd unat base \<and> base \<le> limit \<and> 0x90008 \<le> unat base \<and>
     unat limit \<le> gm_size (ss_guest st) \<and> gm_size (ss_guest st) \<le> 2 ^ 32"

lemma intervals_apart:
  fixes a b :: nat
  assumes "{a ..< a + m} \<inter> {b ..< b + n} = {}" "0 < m" "0 < n"
  shows "a + m \<le> b \<or> b + n \<le> a"
proof (rule ccontr)
  assume "\<not> (a + m \<le> b \<or> b + n \<le> a)"
  then have "max a b \<in> {a ..< a + m} \<inter> {b ..< b + n}" using assms(2,3) by auto
  then show False using assms(1) by auto
qed

lemma two_blocks:
  assumes "mm_reachable base limit mm" "4096 dvd unat base" "base \<le> limit"
    and "mm_alloc mm n1 = (Some a1, mm1)" "mm_alloc mm1 n2 = (Some a2, mm2)" "0 < unat n1" "0 < unat n2"
  obtains "unat base \<le> unat a1" "unat a1 + unat n1 \<le> unat limit"
    "unat base \<le> unat a2" "unat a2 + unat n2 \<le> unat limit"
    "unat a1 + unat n1 \<le> unat a2 \<or> unat a2 + unat n2 \<le> unat a1"
    "\<forall>b\<in>set (mm_allocated mm). blk_bytes b \<inter> {unat a1 ..< unat a1 + unat n1} = {} \<and>
      blk_bytes b \<inter> {unat a2 ..< unat a2 + unat n2} = {}"
proof -
  obtain k1 :: u32 where k1: "unat n1 \<le> unat k1" "mm_allocated mm1 = mm_allocated mm @ [\<lparr>ab_addr = a1, ab_size = k1\<rparr>]"
    "\<forall>b\<in>set (mm_allocated mm). blk_bytes b \<inter> {unat a1 ..< unat a1 + unat k1} = {}"
    "{unat a1 ..< unat a1 + unat k1} \<subseteq> {unat base ..< unat limit}"
    using mm_alloc_block [OF assms(1-4)] by blast
  have "mm1 = mm_step mm (MM_Alloc n1)" using assms(4) by simp
  then have "mm_reachable base limit mm1" using mm_next [OF assms(1)] by metis
  then obtain k2 :: u32 where k2: "unat n2 \<le> unat k2"
    "\<forall>b\<in>set (mm_allocated mm1). blk_bytes b \<inter> {unat a2 ..< unat a2 + unat k2} = {}"
    "{unat a2 ..< unat a2 + unat k2} \<subseteq> {unat base ..< unat limit}"
    using mm_alloc_block [OF _ assms(2,3,5)] by blast
  have "{unat a1 ..< unat a1 + unat k1} \<inter> {unat a2 ..< unat a2 + unat k2} = {}"
    using k2(2) k1(2) by (auto simp: blk_bytes_def blk_lo_def blk_hi_def)
  then have "unat a1 + unat k1 \<le> unat a2 \<or> unat a2 + unat k2 \<le> unat a1"
    using assms(6,7) k1(1) k2(1) by (intro intervals_apart) auto
  then have ap: "unat a1 + unat n1 \<le> unat a2 \<or> unat a2 + unat n2 \<le> unat a1"
    using k1(1) k2(1) by linarith
  have "unat base \<le> unat a1" "unat a1 + unat k1 \<le> unat limit"
    "unat base \<le> unat a2" "unat a2 + unat k2 \<le> unat limit"
    using k1(1,4) k2(1,3) assms(6,7) by auto
  moreover have "{unat a1 ..< unat a1 + unat n1} \<subseteq> {unat a1 ..< unat a1 + unat k1}"
    "{unat a2 ..< unat a2 + unat n2} \<subseteq> {unat a2 ..< unat a2 + unat k2}" using k1(1) k2(1) by auto
  then have "\<forall>b\<in>set (mm_allocated mm). blk_bytes b \<inter> {unat a1 ..< unat a1 + unat n1} = {} \<and>
      blk_bytes b \<inter> {unat a2 ..< unat a2 + unat n2} = {}"
    using k1(2,3) k2(2) by fastforce
  ultimately show ?thesis using that ap k1(1) k2(1) by simp
qed

lemma alloc_records_run:
  assumes "mm_reachable base limit (ss_mem st)" "seh_wf base limit st"
    and al: "mm_alloc (ss_mem st) EXCEPTION_REPORT_SIZE = (Some rep, mm1)"
      "mm_alloc mm1 CONTEXT_RECORD_SIZE = (Some ctx, mm2)"
    and ps: "ps = [] \<or> ps = [x, y]"
  obtains g where "alloc_exception_records st fault c f a ps =
      Some ((rep, ctx, [rep, ctx]), st\<lparr> ss_guest := g, ss_mem := mm2 \<rparr>)"
    "gm_size g = gm_size (ss_guest st)" "read_context_record g ctx = fault"
    "dwords_at g rep (report_image c f a ps)" "dwords_at g ctx (context_image fault)"
    "\<And>p n. p + n \<le> unat rep \<or> unat rep + 0x38 \<le> p \<Longrightarrow> p + n \<le> unat ctx \<or> unat ctx + 0xCC \<le> p \<Longrightarrow>
      take n (drop p (gm_bytes g)) = take n (drop p (gm_bytes (ss_guest st)))"
proof -
  have wf: "4096 dvd unat base" "base \<le> limit" "unat limit \<le> gm_size (ss_guest st)"
    "gm_size (ss_guest st) \<le> 2 ^ 32" using assms(2) by (auto simp: seh_wf_def)
  have b: "unat rep + 0x38 \<le> unat limit" "unat ctx + 0xCC \<le> unat limit"
    and ap: "unat rep + 0x38 \<le> unat ctx \<or> unat ctx + 0xCC \<le> unat rep"
    by (rule two_blocks [OF assms(1) wf(1,2) al]; simp add: seh_consts)+
  have "unat rep + 0x38 \<le> gm_size (ss_guest st)" using b(1) wf(3) by linarith
  then obtain g1 where g1: "write_exception_report (ss_guest st) rep c f a ps = Some g1"
    "gm_size g1 = gm_size (ss_guest st)"
    "dwords_at g1 rep (report_image c f a ps)"
    "\<And>p n. p + n \<le> unat rep \<or> unat rep + 0x38 \<le> p \<Longrightarrow>
      take n (drop p (gm_bytes g1)) = take n (drop p (gm_bytes (ss_guest st)))"
    by (rule write_report_run [OF _ wf(4) ps, where c = c and f = f and a = a]) blast
  have "unat ctx + 0xCC \<le> gm_size g1" "gm_size g1 \<le> 2 ^ 32" using b(2) wf(3,4) g1(2) by linarith+
  then obtain g where g: "write_context_record g1 ctx fault = Some g" "gm_size g = gm_size g1"
    "read_context_record g ctx = fault" "dwords_at g ctx (context_image fault)"
    "\<And>p n. p + n \<le> unat ctx \<or> unat ctx + 0xCC \<le> p \<Longrightarrow>
      take n (drop p (gm_bytes g)) = take n (drop p (gm_bytes g1))"
    by (rule write_context_run [where ctx = fault]) blast
  have keep: "gm_read g (rep + off) = (gm_read g1 (rep + off) :: u32 option)"
    if "unat off + 4 \<le> 0x38" for off
  proof (intro gm_read_cong g(2) g(5))
    have "unat (rep + off) = unat rep + unat off"
      using that b(1) wf(3,4) by (intro unat_field [where N = "0x38"]) linarith+
    then show "unat (rep + off) + size_of TYPE(32) \<le> unat ctx \<or> unat ctx + 0xCC \<le> unat (rep + off)"
      using ap that by (simp add: size_of_def) linarith
  qed
  show ?thesis
  proof (rule that)
    show "alloc_exception_records st fault c f a ps =
        Some ((rep, ctx, [rep, ctx]), st\<lparr> ss_guest := g, ss_mem := mm2 \<rparr>)"
      using al g1(1) g(1) by (simp add: alloc_exception_records_def)
    have len: "length (report_image c f a ps) = 14" using ps by (auto simp: report_image_def)
    have "unat (4 * of_nat k :: u32) + 4 \<le> 0x38" if "k < 14" for k
    proof -
      have "4 * of_nat k = (of_nat (4 * k) :: u32)" by simp
      then show ?thesis using that by (simp only: unat_of_nat) simp
    qed
    then show "dwords_at g rep (report_image c f a ps)" using g1(3) keep unfolding dwords_at_def len by simp
  qed (use g1 g in simp_all)
qed

definition regs_of_fault :: "fault_context \<Rightarrow> guest_regs" where
  "regs_of_fault c = \<lparr> rip = ucast (fc_eip c), rsp = ucast (fc_esp c), rax = ucast (fc_eax c),
     rbx = ucast (fc_ebx c), rcx = ucast (fc_ecx c), rdx = ucast (fc_edx c), rsi = ucast (fc_esi c),
     rdi = ucast (fc_edi c), rbp = ucast (fc_ebp c), rflags = ucast (fc_eflags c) \<rparr>"

lemma chain_from_hd: "chain_from m c rs \<Longrightarrow> c = (case rs of [] \<Rightarrow> XCPT_CHAIN_END | r # _ \<Rightarrow> r)"
  by (cases rs) auto

lemma handler_returned_resume:
  assumes "ucast (rax regs) = XCPT_CONTINUE_EXECUTION"
    and "read_context_record (ss_guest st) (fr_ctx_record frame) = c"
  shows "exception_handler_returned st regs frame stack =
    Some (Resumed (free_exception_records st (fr_guest_allocs frame)) (regs_of_fault c) stack)"
  using assms by (cases regs) (simp add: exception_handler_returned_def regs_of_fault_def)

lemma nth_from_slice: "take 1 (drop p xs) = take 1 (drop p ys) \<Longrightarrow> length xs = length ys \<Longrightarrow>
    xs ! p = ys ! p"
proof (cases "p < length xs")
  case False
  then show "length xs = length ys \<Longrightarrow> xs ! p = ys ! p"
    using nth_append [of xs "[]" p] nth_append [of ys "[]" p] by simp
qed (simp add: Cons_nth_drop_Suc [symmetric])


text \<open>A thread with one handler at 0xA0000, in the memory and with the allocator of \<^verbatim>\<open>Loader::new\<close>.\<close>

lemma one_handler_state:
  obtains g where "gm_size g = 0x10000000" "handler_chain g [0xA0000]"
    "gm_read g (0xA0000 + XERREC_HANDLER) = Some (0x12345 :: u32)"
proof -
  let ?m = "gm_alloc 0x10000000"
  have "\<forall>w\<in>set [(0 :: u32, XCPT_CHAIN_END), (4, 0x12345)]. 4 dvd unat (fst w) \<and> unat (fst w) + 4 \<le> 8"
    and "unat (0xA0000 :: u32) + 8 \<le> gm_size ?m" "gm_size ?m \<le> 2 ^ 32"
    by simp_all
  then obtain m1 where m1: "write_dwords ?m 0xA0000 [(0, XCPT_CHAIN_END), (4, 0x12345)] = Some m1"
    "gm_size m1 = gm_size ?m" and rd: "\<And>off. 4 dvd unat off \<Longrightarrow> unat off + 4 \<le> 8 \<Longrightarrow>
      gm_read m1 (0xA0000 + off) = (case map_of (rev [(0, XCPT_CHAIN_END), (4, 0x12345)]) off of
        Some v \<Rightarrow> Some v | None \<Rightarrow> gm_read ?m (0xA0000 + off))"
    by (rule write_dwords_run) blast
  have sz: "gm_size m1 = 0x10000000" using m1(2) by simp
  have ch: "chain_from m1 0xA0000 [0xA0000]" using rd [of 0] by (simp add: seh_consts)
  have ap: "\<forall>x\<in>set [0xA0000]. apart TIB_BASE x" by (simp add: apart_def TIB_BASE_def)
  have "0x90004 \<le> gm_size m1" using sz by simp
  then obtain m2 where m2: "gm_write m1 (TIB_BASE + TIB_EXCHAIN_OFFSET) (0xA0000 :: u32) = Some m2"
    "handler_chain m2 [0xA0000]"
    by (rule set_head [OF _ ch ap])
  have "gm_read m2 0xA0004 = (gm_read m1 0xA0004 :: u32 option)"
    by (rule gm_write_other [OF m2(1)]) (simp add: seh_consts size_of_def)
  then show ?thesis
    using that [of m2] m2 rd [of 4] gm_write_size [OF m2(1)] sz by (simp add: XERREC_HANDLER_def)
qed


end
