(* ===== verification/VFS.thy ===== *)
theory VFS
  imports Handle_Table
begin

unbundle bit_operations_syntax

text \<open>
  The virtual file system layer (\<^verbatim>\<open>src/src/loader/vfs.rs\<close>): the raw-value decoders of the open
  parameters, the interface \<^verbatim>\<open>VfsBackend\<close> a volume implements, and the \<^verbatim>\<open>DriveManager\<close> that maps
  drive letters to volumes, resolves OS/2 paths and owns the file and search handles.

  A backend is an object with interior mutability, so it is a value of an abstract type \<open>'b\<close>
  that every call returns updated, and the trait's methods are the fields of a record of
  functions over \<open>'b\<close>; the drive manager is defined, and its theorems hold, for every such record.
\<close>

section \<open>Error codes and open parameters\<close>

type_synonym os2_error = u32

definition FILE_NOT_FOUND :: os2_error where "FILE_NOT_FOUND = 2"
definition PATH_NOT_FOUND :: os2_error where "PATH_NOT_FOUND = 3"
definition ACCESS_DENIED :: os2_error where "ACCESS_DENIED = 5"
definition INVALID_HANDLE :: os2_error where "INVALID_HANDLE = 6"
definition INVALID_DRIVE :: os2_error where "INVALID_DRIVE = 15"
definition NOT_SAME_DEVICE :: os2_error where "NOT_SAME_DEVICE = 17"
definition NO_MORE_FILES :: os2_error where "NO_MORE_FILES = 18"
definition SHARING_VIOLATION :: os2_error where "SHARING_VIOLATION = 32"
definition LOCK_VIOLATION :: os2_error where "LOCK_VIOLATION = 33"
definition FILE_EXISTS :: os2_error where "FILE_EXISTS = 80"
definition INVALID_PARAMETER :: os2_error where "INVALID_PARAMETER = 87"
definition DISK_FULL :: os2_error where "DISK_FULL = 112"
definition DIRECTORY_NOT_EMPTY :: os2_error where "DIRECTORY_NOT_EMPTY = 145"
definition FILENAME_EXCED_RANGE :: os2_error where "FILENAME_EXCED_RANGE = 206"
definition EA_NOT_FOUND :: os2_error where "EA_NOT_FOUND = 254"

lemmas os2_error_defs = FILE_NOT_FOUND_def PATH_NOT_FOUND_def ACCESS_DENIED_def
  INVALID_HANDLE_def INVALID_DRIVE_def NOT_SAME_DEVICE_def NO_MORE_FILES_def
  SHARING_VIOLATION_def LOCK_VIOLATION_def FILE_EXISTS_def INVALID_PARAMETER_def DISK_FULL_def
  DIRECTORY_NOT_EMPTY_def FILENAME_EXCED_RANGE_def EA_NOT_FOUND_def

datatype open_mode = ReadOnly | WriteOnly | ReadWrite

definition open_mode_from_raw :: "u32 \<Rightarrow> os2_error + open_mode" where
  "open_mode_from_raw fs_open_mode =
    (let k = fs_open_mode AND 0x07 in
     if k = 0 then Inr ReadOnly else if k = 1 then Inr WriteOnly
     else if k = 2 then Inr ReadWrite else Inl INVALID_PARAMETER)"

datatype sharing_mode = DenyReadWrite | DenyWrite | DenyRead | DenyNone

definition sharing_mode_from_raw :: "u32 \<Rightarrow> sharing_mode" where
  "sharing_mode_from_raw fs_open_mode =
    (let k = fs_open_mode AND 0x70 in
     if k = 0x10 then DenyReadWrite else if k = 0x20 then DenyWrite
     else if k = 0x30 then DenyRead else if k = 0x40 then DenyNone else DenyNone)"

datatype exist_action = ExistFail | ExistOpen | ExistReplace
datatype new_action = NewFail | NewCreate

record open_flags =
  of_exist_action :: exist_action
  of_new_action :: new_action

definition open_flags_from_raw :: "u32 \<Rightarrow> open_flags" where
  "open_flags_from_raw fs_open_flags =
    \<lparr> of_exist_action =
        (let k = fs_open_flags AND 0x0F in
         if k = 0 then ExistFail else if k = 1 then ExistOpen else if k = 2 then ExistReplace
         else ExistFail),
      of_new_action =
        (let k = drop_bit 4 fs_open_flags AND 0x0F in
         if k = 0 then NewFail else if k = 1 then NewCreate else NewFail) \<rparr>"

datatype open_action = Existed | Created | Replaced
datatype seek_mode = SeekBegin | SeekCurrent | SeekEnd

definition seek_mode_from_raw :: "u32 \<Rightarrow> os2_error + seek_mode" where
  "seek_mode_from_raw mode =
    (if mode = 0 then Inr SeekBegin else if mode = 1 then Inr SeekCurrent
     else if mode = 2 then Inr SeekEnd else Inl INVALID_PARAMETER)"

type_synonym file_attribute = u32

definition FA_READONLY :: file_attribute where "FA_READONLY = 0x01"
definition FA_HIDDEN :: file_attribute where "FA_HIDDEN = 0x02"
definition FA_SYSTEM :: file_attribute where "FA_SYSTEM = 0x04"
definition FA_DIRECTORY :: file_attribute where "FA_DIRECTORY = 0x10"
definition FA_ARCHIVE :: file_attribute where "FA_ARCHIVE = 0x20"

definition fa_contains :: "file_attribute \<Rightarrow> file_attribute \<Rightarrow> bool" where
  "fa_contains a other \<longleftrightarrow> a AND other = other"

record file_status =
  fs_creation_date :: u16
  fs_creation_time :: u16
  fs_last_access_date :: u16
  fs_last_access_time :: u16
  fs_last_write_date :: u16
  fs_last_write_time :: u16
  fs_file_size :: u32
  fs_file_alloc :: u32
  fs_attributes :: file_attribute

record dir_entry =
  de_name :: ustring
  de_status :: file_status

record file_lock_range =
  lr_offset :: u32
  lr_length :: u32

record ea_entry =
  ea_name :: ustring
  ea_value :: "u8 list"
  ea_flags :: u8

record fs_allocate =
  fa_id_filesystem :: u32
  fa_sectors_per_unit :: u32
  fa_total_units :: u32
  fa_available_units :: u32
  fa_bytes_per_sector :: u16

record fs_volume_info =
  fv_serial_number :: u32
  fv_label :: ustring

section \<open>The backend interface\<close>

text \<open>
  Handles are the opaque 64-bit values the backend chose. \<^verbatim>\<open>read\<close> fills a buffer, which is
  returned beside the result.
\<close>

record 'b vfs_backend =
  be_open :: "'b \<Rightarrow> ustring \<Rightarrow> open_mode \<Rightarrow> sharing_mode \<Rightarrow> open_flags \<Rightarrow> file_attribute
    \<Rightarrow> (os2_error + u64 \<times> open_action) \<times> 'b"
  be_close :: "'b \<Rightarrow> u64 \<Rightarrow> (os2_error + unit) \<times> 'b"
  be_read :: "'b \<Rightarrow> u64 \<Rightarrow> u8 list \<Rightarrow> ((os2_error + nat) \<times> u8 list) \<times> 'b"
  be_write :: "'b \<Rightarrow> u64 \<Rightarrow> u8 list \<Rightarrow> (os2_error + nat) \<times> 'b"
  be_seek :: "'b \<Rightarrow> u64 \<Rightarrow> int \<Rightarrow> seek_mode \<Rightarrow> (os2_error + u64) \<times> 'b"
  be_set_file_size :: "'b \<Rightarrow> u64 \<Rightarrow> u64 \<Rightarrow> (os2_error + unit) \<times> 'b"
  be_flush :: "'b \<Rightarrow> u64 \<Rightarrow> (os2_error + unit) \<times> 'b"
  be_find_first :: "'b \<Rightarrow> ustring \<Rightarrow> file_attribute \<Rightarrow> (os2_error + u64 \<times> dir_entry) \<times> 'b"
  be_find_next :: "'b \<Rightarrow> u64 \<Rightarrow> (os2_error + dir_entry) \<times> 'b"
  be_find_close :: "'b \<Rightarrow> u64 \<Rightarrow> (os2_error + unit) \<times> 'b"
  be_create_dir :: "'b \<Rightarrow> ustring \<Rightarrow> (os2_error + unit) \<times> 'b"
  be_delete_dir :: "'b \<Rightarrow> ustring \<Rightarrow> (os2_error + unit) \<times> 'b"
  be_delete :: "'b \<Rightarrow> ustring \<Rightarrow> (os2_error + unit) \<times> 'b"
  be_rename :: "'b \<Rightarrow> ustring \<Rightarrow> ustring \<Rightarrow> (os2_error + unit) \<times> 'b"
  be_copy :: "'b \<Rightarrow> ustring \<Rightarrow> ustring \<Rightarrow> (os2_error + unit) \<times> 'b"
  be_query_path_info :: "'b \<Rightarrow> ustring \<Rightarrow> u32 \<Rightarrow> (os2_error + file_status) \<times> 'b"
  be_query_file_info :: "'b \<Rightarrow> u64 \<Rightarrow> u32 \<Rightarrow> (os2_error + file_status) \<times> 'b"
  be_set_file_info :: "'b \<Rightarrow> u64 \<Rightarrow> u32 \<Rightarrow> file_status \<Rightarrow> (os2_error + unit) \<times> 'b"
  be_set_path_info :: "'b \<Rightarrow> ustring \<Rightarrow> u32 \<Rightarrow> file_status \<Rightarrow> (os2_error + unit) \<times> 'b"
  be_get_ea :: "'b \<Rightarrow> ustring \<Rightarrow> ustring \<Rightarrow> (os2_error + ea_entry) \<times> 'b"
  be_set_ea :: "'b \<Rightarrow> ustring \<Rightarrow> ea_entry \<Rightarrow> (os2_error + unit) \<times> 'b"
  be_enum_ea :: "'b \<Rightarrow> ustring \<Rightarrow> (os2_error + ea_entry list) \<times> 'b"
  be_query_fs_info_alloc :: "'b \<Rightarrow> (os2_error + fs_allocate) \<times> 'b"
  be_query_fs_info_volume :: "'b \<Rightarrow> (os2_error + fs_volume_info) \<times> 'b"
  be_set_fs_info_volume :: "'b \<Rightarrow> ustring \<Rightarrow> (os2_error + unit) \<times> 'b"
  be_fs_name :: "'b \<Rightarrow> ustring"
  be_set_file_locks :: "'b \<Rightarrow> u64 \<Rightarrow> file_lock_range list \<Rightarrow> file_lock_range list \<Rightarrow> u32
    \<Rightarrow> (os2_error + unit) \<times> 'b"
  be_to_host_path :: "'b \<Rightarrow> ustring \<Rightarrow> ustring option \<times> 'b"

section \<open>The drive manager\<close>

record file_entry =
  fe_drive :: u8
  fe_vfs_handle :: u64

record find_entry =
  fi_drive :: u8
  fi_vfs_handle :: u64
  fi_level :: u32
  fi_pattern :: ustring

record drive_config =
  cfg_host_path :: ustring
  cfg_label :: ustring
  cfg_read_only :: bool

record 'b drive_manager =
  dr_drives :: "'b option list"
  dr_drive_configs :: "drive_config option list"
  dr_file_handles :: "u32 \<rightharpoonup> file_entry"
  dr_find_handles :: "u32 \<rightharpoonup> find_entry"
  dr_next_file_handle :: u32
  dr_next_find_handle :: u32
  dr_current_disk :: u8
  dr_current_dirs :: "ustring list"

definition dr_new :: "'b drive_manager" where
  "dr_new =
    \<lparr> dr_drives = replicate 26 None, dr_drive_configs = replicate 26 None,
      dr_file_handles = Map.empty, dr_find_handles = Map.empty,
      dr_next_file_handle = 3, dr_next_find_handle = 10, dr_current_disk = 2,
      dr_current_dirs = replicate 26 [] \<rparr>"

text \<open>The setters assert that the drive index is below 26: \<open>None\<close> is the failed assertion.\<close>

definition mount :: "'b drive_manager \<Rightarrow> u8 \<Rightarrow> 'b \<Rightarrow> 'b drive_manager option" where
  "mount dm drive backend =
    (if drive < 26 then Some (dm\<lparr> dr_drives := (dr_drives dm)[unat drive := Some backend] \<rparr>) else None)"

definition unmount :: "'b drive_manager \<Rightarrow> u8 \<Rightarrow> 'b drive_manager option" where
  "unmount dm drive =
    (if drive < 26 then Some (dm\<lparr> dr_drives := (dr_drives dm)[unat drive := None] \<rparr>) else None)"

definition set_drive_config :: "'b drive_manager \<Rightarrow> u8 \<Rightarrow> drive_config \<Rightarrow> 'b drive_manager option" where
  "set_drive_config dm drive config =
    (if drive < 26
     then Some (dm\<lparr> dr_drive_configs := (dr_drive_configs dm)[unat drive := Some config] \<rparr>) else None)"

definition get_drive_config :: "'b drive_manager \<Rightarrow> u8 \<Rightarrow> drive_config option" where
  "get_drive_config dm drive = (if drive \<ge> 26 then None else dr_drive_configs dm ! unat drive)"

definition backend :: "'b drive_manager \<Rightarrow> u8 \<Rightarrow> os2_error + 'b" where
  "backend dm drive =
    (if drive \<ge> 26 then Inl INVALID_DRIVE
     else case dr_drives dm ! unat drive of Some b \<Rightarrow> Inr b | None \<Rightarrow> Inl INVALID_DRIVE)"

subsection \<open>Paths\<close>

text \<open>Code points of the separators: \<^verbatim>\<open>'\\'\<close>, \<^verbatim>\<open>'/'\<close>, \<^verbatim>\<open>':'\<close> and \<^verbatim>\<open>'.'\<close>.\<close>

abbreviation BSLASH :: nat where "BSLASH \<equiv> 92"
abbreviation SLASH :: nat where "SLASH \<equiv> 47"
abbreviation COLON :: nat where "COLON \<equiv> 58"
abbreviation DOT :: nat where "DOT \<equiv> 46"

definition is_sep :: "nat \<Rightarrow> bool" where
  "is_sep c \<longleftrightarrow> c = BSLASH \<or> c = SLASH"

text \<open>\<^verbatim>\<open>rsplit(['\\', '/']).next()\<close> and \<^verbatim>\<open>split('.').next()\<close>.\<close>

definition last_component :: "ustring \<Rightarrow> ustring" where
  "last_component path = rev (takeWhile (\<lambda>c. \<not> is_sep c) (rev path))"

definition check_device_name :: "ustring \<Rightarrow> ustring option" where
  "check_device_name path =
    (let filename = last_component path;
         base = takeWhile (\<lambda>c. c \<noteq> DOT) filename;
         up = to_ascii_uppercase base in
     if up \<in> set (map ustr [''NUL'', ''CON'', ''CLOCK$'', ''KBD$'', ''SCREEN$'']) then Some up else None)"

text \<open>\<^verbatim>\<open>os2_path.replace('\\', "/")\<close>.\<close>

definition to_slashes :: "ustring \<Rightarrow> ustring" where
  "to_slashes = map (\<lambda>c. if c = BSLASH then SLASH else c)"

text \<open>
  \<^verbatim>\<open>path.len() >= 2 && path.as_bytes()[1] == b':'\<close>: the second byte of the UTF-8 encoding is a
  colon exactly when the first character is ASCII and the second a colon.
\<close>

definition has_drive :: "ustring \<Rightarrow> bool" where
  "has_drive path \<longleftrightarrow> (case path of c # d # _ \<Rightarrow> c < 128 \<and> d = COLON | _ \<Rightarrow> False)"

definition is_unc :: "ustring \<Rightarrow> bool" where
  "is_unc p \<longleftrightarrow> take 2 p = [BSLASH, BSLASH] \<or> take 2 p = [SLASH, SLASH]"

definition is_ascii_uppercase :: "nat \<Rightarrow> bool" where
  "is_ascii_uppercase c \<longleftrightarrow> 65 \<le> c \<and> c \<le> 90"

definition join_dir :: "ustring \<Rightarrow> ustring \<Rightarrow> ustring" where
  "join_dir cur rest = (if cur = [] then rest else cur @ [SLASH] @ rest)"

definition was_absolute :: "ustring \<Rightarrow> bool" where
  "was_absolute os2_path =
    (let path = to_slashes os2_path in
     if has_drive path then length path > 2 \<and> path ! 2 = SLASH
     else os2_path \<noteq> [] \<and> is_sep (hd os2_path))"

definition path_drive :: "'b drive_manager \<Rightarrow> ustring \<Rightarrow> os2_error + u8 \<times> ustring" where
  "path_drive dm path =
    (if has_drive path then
       let letter = uc_upper (hd path) in
       if \<not> is_ascii_uppercase letter then Inl INVALID_DRIVE
       else Inr (of_nat (letter - 65), drop 2 path)
     else Inr (dr_current_disk dm, path))"

definition resolve_path :: "'b drive_manager \<Rightarrow> ustring \<Rightarrow> os2_error + u8 \<times> ustring" where
  "resolve_path dm os2_path =
    (if is_unc os2_path then Inl PATH_NOT_FOUND
     else
       let path = to_slashes os2_path in
       case path_drive dm path of
         Inl e \<Rightarrow> Inl e
       | Inr (drive, rest) \<Rightarrow>
           if dr_drives dm ! unat drive = None then Inl INVALID_DRIVE
           else
             let rest = dropWhile (\<lambda>c. c = SLASH) rest;
                 cur = dr_current_dirs dm ! unat drive in
             Inr (drive,
               if rest = [] then cur
               else if BSLASH \<in> set os2_path \<or> SLASH \<in> set os2_path then
                 (if was_absolute os2_path then rest else join_dir cur rest)
               else join_dir cur rest))"

subsection \<open>Calls on a backend\<close>

text \<open>Put the backend that a call returned back in its drive slot.\<close>

definition put_drive :: "'b drive_manager \<Rightarrow> u8 \<Rightarrow> 'b \<Rightarrow> 'b drive_manager" where
  "put_drive dm drive b = dm\<lparr> dr_drives := (dr_drives dm)[unat drive := Some b] \<rparr>"

text \<open>
  The common shape of the methods that resolve a path and call the backend of its drive, and of
  those that look a file handle up. \<open>missing\<close> is the error for a drive that is not mounted.
\<close>

definition on_drive ::
  "'b drive_manager \<Rightarrow> u8 \<Rightarrow> os2_error \<Rightarrow> ('b \<Rightarrow> 'r \<times> 'b) \<Rightarrow> (os2_error + 'r) \<times> 'b drive_manager" where
  "on_drive dm drive missing call =
    (case dr_drives dm ! unat drive of
       None \<Rightarrow> (Inl missing, dm)
     | Some b \<Rightarrow> (case call b of (r, b') \<Rightarrow> (Inr r, put_drive dm drive b')))"

text \<open>A call whose own result is a \<^verbatim>\<open>VfsResult\<close>: errors are passed on.\<close>

definition on_drive_res ::
  "'b drive_manager \<Rightarrow> u8 \<Rightarrow> os2_error \<Rightarrow> ('b \<Rightarrow> (os2_error + 'r) \<times> 'b)
    \<Rightarrow> (os2_error + 'r) \<times> 'b drive_manager" where
  "on_drive_res dm drive missing call =
    (case on_drive dm drive missing call of
       (Inl e, dm') \<Rightarrow> (Inl e, dm')
     | (Inr r, dm') \<Rightarrow> (r, dm'))"

definition on_file ::
  "'b drive_manager \<Rightarrow> u32 \<Rightarrow> os2_error \<Rightarrow> ('b \<Rightarrow> u64 \<Rightarrow> (os2_error + 'r) \<times> 'b)
    \<Rightarrow> (os2_error + 'r) \<times> 'b drive_manager" where
  "on_file dm handle missing call =
    (case dr_file_handles dm handle of
       None \<Rightarrow> (Inl INVALID_HANDLE, dm)
     | Some e \<Rightarrow> on_drive_res dm (fe_drive e) missing (\<lambda>b. call b (fe_vfs_handle e)))"

definition on_path ::
  "'b drive_manager \<Rightarrow> ustring \<Rightarrow> ('b \<Rightarrow> ustring \<Rightarrow> (os2_error + 'r) \<times> 'b)
    \<Rightarrow> (os2_error + 'r) \<times> 'b drive_manager" where
  "on_path dm os2_path call =
    (case resolve_path dm os2_path of
       Inl e \<Rightarrow> (Inl e, dm)
     | Inr (drive, rel) \<Rightarrow> on_drive_res dm drive INVALID_DRIVE (\<lambda>b. call b rel))"

subsection \<open>File handles\<close>

definition file_add :: "'b drive_manager \<Rightarrow> file_entry \<Rightarrow> u32 \<times> 'b drive_manager" where
  "file_add dm e =
    (dr_next_file_handle dm,
     dm\<lparr> dr_next_file_handle := dr_next_file_handle dm + 1,
         dr_file_handles := (dr_file_handles dm)(dr_next_file_handle dm \<mapsto> e) \<rparr>)"

definition file_remove :: "'b drive_manager \<Rightarrow> u32 \<Rightarrow> bool \<times> 'b drive_manager" where
  "file_remove dm h =
    (dr_file_handles dm h \<noteq> None, dm\<lparr> dr_file_handles := (dr_file_handles dm)(h := None) \<rparr>)"

definition open_file ::
  "'b vfs_backend \<Rightarrow> 'b drive_manager \<Rightarrow> ustring \<Rightarrow> open_mode \<Rightarrow> sharing_mode \<Rightarrow> open_flags
    \<Rightarrow> file_attribute \<Rightarrow> (os2_error + u32 \<times> open_action) \<times> 'b drive_manager" where
  "open_file V dm os2_path mode sharing flags attributes =
    (if check_device_name os2_path \<noteq> None then (Inl INVALID_PARAMETER, dm)
     else case resolve_path dm os2_path of
       Inl e \<Rightarrow> (Inl e, dm)
     | Inr (drive, rel_path) \<Rightarrow>
         (case on_drive_res dm drive INVALID_DRIVE
                (\<lambda>b. be_open V b rel_path mode sharing flags attributes) of
            (Inl e, dm1) \<Rightarrow> (Inl e, dm1)
          | (Inr (vfs_handle, action), dm1) \<Rightarrow>
              (case file_add dm1 \<lparr> fe_drive = drive, fe_vfs_handle = vfs_handle \<rparr> of
                 (h, dm2) \<Rightarrow> (Inr (h, action), dm2))))"

definition close_file :: "'b vfs_backend \<Rightarrow> 'b drive_manager \<Rightarrow> u32 \<Rightarrow> (os2_error + unit) \<times> 'b drive_manager"
where
  "close_file V dm handle =
    (case dr_file_handles dm handle of
       None \<Rightarrow> (Inl INVALID_HANDLE, dm)
     | Some e \<Rightarrow> on_drive_res (snd (file_remove dm handle)) (fe_drive e) INVALID_HANDLE
         (\<lambda>b. be_close V b (fe_vfs_handle e)))"

text \<open>The buffer of a read that never reached the backend is unchanged.\<close>

definition read_file ::
  "'b vfs_backend \<Rightarrow> 'b drive_manager \<Rightarrow> u32 \<Rightarrow> u8 list
    \<Rightarrow> ((os2_error + nat) \<times> u8 list) \<times> 'b drive_manager" where
  "read_file V dm handle buf =
    (case dr_file_handles dm handle of
       None \<Rightarrow> ((Inl INVALID_HANDLE, buf), dm)
     | Some e \<Rightarrow>
         (case on_drive dm (fe_drive e) INVALID_HANDLE (\<lambda>b. be_read V b (fe_vfs_handle e) buf) of
            (Inl err, dm') \<Rightarrow> ((Inl err, buf), dm')
          | (Inr r, dm') \<Rightarrow> (r, dm')))"

definition write_file ::
  "'b vfs_backend \<Rightarrow> 'b drive_manager \<Rightarrow> u32 \<Rightarrow> u8 list \<Rightarrow> (os2_error + nat) \<times> 'b drive_manager" where
  "write_file V dm handle buf = on_file dm handle INVALID_HANDLE (\<lambda>b h. be_write V b h buf)"

definition seek_file ::
  "'b vfs_backend \<Rightarrow> 'b drive_manager \<Rightarrow> u32 \<Rightarrow> int \<Rightarrow> seek_mode \<Rightarrow> (os2_error + u64) \<times> 'b drive_manager"
where
  "seek_file V dm handle offset mode = on_file dm handle INVALID_HANDLE (\<lambda>b h. be_seek V b h offset mode)"

definition flush_file :: "'b vfs_backend \<Rightarrow> 'b drive_manager \<Rightarrow> u32 \<Rightarrow> (os2_error + unit) \<times> 'b drive_manager"
where
  "flush_file V dm handle = on_file dm handle INVALID_HANDLE (be_flush V)"

definition set_file_size ::
  "'b vfs_backend \<Rightarrow> 'b drive_manager \<Rightarrow> u32 \<Rightarrow> u64 \<Rightarrow> (os2_error + unit) \<times> 'b drive_manager" where
  "set_file_size V dm handle sz = on_file dm handle INVALID_HANDLE (\<lambda>b h. be_set_file_size V b h sz)"

definition set_file_locks ::
  "'b vfs_backend \<Rightarrow> 'b drive_manager \<Rightarrow> u32 \<Rightarrow> file_lock_range list \<Rightarrow> file_lock_range list \<Rightarrow> u32
    \<Rightarrow> (os2_error + unit) \<times> 'b drive_manager" where
  "set_file_locks V dm handle unlock lock timeout_ms =
    on_file dm handle INVALID_HANDLE (\<lambda>b h. be_set_file_locks V b h unlock lock timeout_ms)"

text \<open>\<^verbatim>\<open>flush_all\<close> visits the entries in the order of the hash map, an argument here.\<close>

definition flush_all :: "'b vfs_backend \<Rightarrow> u32 list \<Rightarrow> 'b drive_manager \<Rightarrow> 'b drive_manager" where
  "flush_all V order dm = foldl (\<lambda>dm h. snd (flush_file V dm h)) dm order"

subsection \<open>Search handles\<close>

definition find_add :: "'b drive_manager \<Rightarrow> find_entry \<Rightarrow> u32 \<times> 'b drive_manager" where
  "find_add dm e =
    (dr_next_find_handle dm,
     dm\<lparr> dr_next_find_handle := dr_next_find_handle dm + 1,
         dr_find_handles := (dr_find_handles dm)(dr_next_find_handle dm \<mapsto> e) \<rparr>)"

definition find_remove :: "'b drive_manager \<Rightarrow> u32 \<Rightarrow> bool \<times> 'b drive_manager" where
  "find_remove dm h =
    (dr_find_handles dm h \<noteq> None, dm\<lparr> dr_find_handles := (dr_find_handles dm)(h := None) \<rparr>)"

definition find_first ::
  "'b vfs_backend \<Rightarrow> 'b drive_manager \<Rightarrow> ustring \<Rightarrow> file_attribute \<Rightarrow> u32
    \<Rightarrow> (os2_error + u32 \<times> dir_entry) \<times> 'b drive_manager" where
  "find_first V dm os2_path attributes level =
    (case resolve_path dm os2_path of
       Inl e \<Rightarrow> (Inl e, dm)
     | Inr (drive, rel_path) \<Rightarrow>
         (case on_drive_res dm drive INVALID_DRIVE (\<lambda>b. be_find_first V b rel_path attributes) of
            (Inl e, dm1) \<Rightarrow> (Inl e, dm1)
          | (Inr (vfs_handle, entry), dm1) \<Rightarrow>
              (case find_add dm1 \<lparr> fi_drive = drive, fi_vfs_handle = vfs_handle, fi_level = level,
                                   fi_pattern = os2_path \<rparr> of
                 (h, dm2) \<Rightarrow> (Inr (h, entry), dm2))))"

definition find_level :: "'b drive_manager \<Rightarrow> u32 \<Rightarrow> u32" where
  "find_level dm handle = (case dr_find_handles dm handle of None \<Rightarrow> 1 | Some e \<Rightarrow> fi_level e)"

definition find_next ::
  "'b vfs_backend \<Rightarrow> 'b drive_manager \<Rightarrow> u32 \<Rightarrow> (os2_error + dir_entry) \<times> 'b drive_manager" where
  "find_next V dm handle =
    (case dr_find_handles dm handle of
       None \<Rightarrow> (Inl INVALID_HANDLE, dm)
     | Some e \<Rightarrow> on_drive_res dm (fi_drive e) INVALID_HANDLE (\<lambda>b. be_find_next V b (fi_vfs_handle e)))"

definition find_close :: "'b vfs_backend \<Rightarrow> 'b drive_manager \<Rightarrow> u32 \<Rightarrow> (os2_error + unit) \<times> 'b drive_manager"
where
  "find_close V dm handle =
    (case dr_find_handles dm handle of
       None \<Rightarrow> (Inl INVALID_HANDLE, dm)
     | Some e \<Rightarrow> on_drive_res (snd (find_remove dm handle)) (fi_drive e) INVALID_HANDLE
         (\<lambda>b. be_find_close V b (fi_vfs_handle e)))"

subsection \<open>Operations on paths\<close>

definition create_dir :: "'b vfs_backend \<Rightarrow> 'b drive_manager \<Rightarrow> ustring \<Rightarrow> (os2_error + unit) \<times> 'b drive_manager"
where
  "create_dir V dm os2_path = on_path dm os2_path (be_create_dir V)"

definition delete_dir :: "'b vfs_backend \<Rightarrow> 'b drive_manager \<Rightarrow> ustring \<Rightarrow> (os2_error + unit) \<times> 'b drive_manager"
where
  "delete_dir V dm os2_path = on_path dm os2_path (be_delete_dir V)"

definition delete_file :: "'b vfs_backend \<Rightarrow> 'b drive_manager \<Rightarrow> ustring \<Rightarrow> (os2_error + unit) \<times> 'b drive_manager"
where
  "delete_file V dm os2_path = on_path dm os2_path (be_delete V)"

definition two_paths ::
  "'b drive_manager \<Rightarrow> ustring \<Rightarrow> ustring \<Rightarrow> ('b \<Rightarrow> ustring \<Rightarrow> ustring \<Rightarrow> (os2_error + unit) \<times> 'b)
    \<Rightarrow> (os2_error + unit) \<times> 'b drive_manager" where
  "two_paths dm p q call =
    (case resolve_path dm p of
       Inl e \<Rightarrow> (Inl e, dm)
     | Inr (d1, r1) \<Rightarrow>
         (case resolve_path dm q of
            Inl e \<Rightarrow> (Inl e, dm)
          | Inr (d2, r2) \<Rightarrow>
              if d1 \<noteq> d2 then (Inl NOT_SAME_DEVICE, dm)
              else on_drive_res dm d1 INVALID_DRIVE (\<lambda>b. call b r1 r2)))"

definition rename_file ::
  "'b vfs_backend \<Rightarrow> 'b drive_manager \<Rightarrow> ustring \<Rightarrow> ustring \<Rightarrow> (os2_error + unit) \<times> 'b drive_manager" where
  "rename_file V dm old_path new_path = two_paths dm old_path new_path (be_rename V)"

definition copy_file ::
  "'b vfs_backend \<Rightarrow> 'b drive_manager \<Rightarrow> ustring \<Rightarrow> ustring \<Rightarrow> (os2_error + unit) \<times> 'b drive_manager" where
  "copy_file V dm src_path dst_path = two_paths dm src_path dst_path (be_copy V)"

definition query_path_info ::
  "'b vfs_backend \<Rightarrow> 'b drive_manager \<Rightarrow> ustring \<Rightarrow> u32 \<Rightarrow> (os2_error + file_status) \<times> 'b drive_manager" where
  "query_path_info V dm os2_path level = on_path dm os2_path (\<lambda>b p. be_query_path_info V b p level)"

definition query_file_info ::
  "'b vfs_backend \<Rightarrow> 'b drive_manager \<Rightarrow> u32 \<Rightarrow> u32 \<Rightarrow> (os2_error + file_status) \<times> 'b drive_manager" where
  "query_file_info V dm handle level =
    on_file dm handle INVALID_DRIVE (\<lambda>b h. be_query_file_info V b h level)"

definition resolve_to_host_path ::
  "'b vfs_backend \<Rightarrow> 'b drive_manager \<Rightarrow> ustring \<Rightarrow> ustring option \<times> 'b drive_manager" where
  "resolve_to_host_path V dm os2_path =
    (case resolve_path dm os2_path of
       Inl e \<Rightarrow> (None, dm)
     | Inr (drive, rel) \<Rightarrow>
         (case on_drive dm drive INVALID_DRIVE (\<lambda>b. be_to_host_path V b rel) of
            (Inl e, dm') \<Rightarrow> (None, dm')
          | (Inr r, dm') \<Rightarrow> (r, dm')))"

subsection \<open>Current drive and directories\<close>

definition current_disk_os2 :: "'b drive_manager \<Rightarrow> u8" where
  "current_disk_os2 dm = dr_current_disk dm + 1"

definition set_current_disk :: "'b drive_manager \<Rightarrow> u8 \<Rightarrow> (os2_error + unit) \<times> 'b drive_manager" where
  "set_current_disk dm disk_os2 =
    (if disk_os2 = 0 \<or> disk_os2 > 26 then (Inl INVALID_DRIVE, dm)
     else if dr_drives dm ! unat (disk_os2 - 1) = None then (Inl INVALID_DRIVE, dm)
     else (Inr (), dm\<lparr> dr_current_disk := disk_os2 - 1 \<rparr>))"

definition current_dir :: "'b drive_manager \<Rightarrow> u8 \<Rightarrow> ustring" where
  "current_dir dm drive = (if drive \<ge> 26 then [] else dr_current_dirs dm ! unat drive)"

definition set_current_dir :: "'b drive_manager \<Rightarrow> ustring \<Rightarrow> (os2_error + unit) \<times> 'b drive_manager" where
  "set_current_dir dm os2_path =
    (case resolve_path dm os2_path of
       Inl e \<Rightarrow> (Inl e, dm)
     | Inr (drive, rel_path) \<Rightarrow>
         (Inr (), dm\<lparr> dr_current_dirs := (dr_current_dirs dm)[unat drive := rel_path] \<rparr>))"

definition logical_drive_map :: "'b drive_manager \<Rightarrow> u32" where
  "logical_drive_map dm =
    foldl (\<lambda>m i. if dr_drives dm ! i \<noteq> None then m OR push_bit i 1 else m) 0
      [0 ..< length (dr_drives dm)]"


section \<open>Well-formed drive managers\<close>

text \<open>The handle tables satisfy the shared contract.\<close>

interpretation dr_files: handle_table file_add dr_file_handles file_remove dr_next_file_handle
  by unfold_locales (auto simp: file_add_def file_remove_def)

interpretation dr_finds: handle_table find_add dr_find_handles find_remove dr_next_find_handle
  by unfold_locales (auto simp: find_add_def find_remove_def)

text \<open>A volume-relative path as the backends expect it: no backslash, no leading slash.\<close>

definition rel_path_ok :: "ustring \<Rightarrow> bool" where
  "rel_path_ok p \<longleftrightarrow> BSLASH \<notin> set p \<and> (p \<noteq> [] \<longrightarrow> hd p \<noteq> SLASH)"

text \<open>All 26 slots are there, every drive number in use indexes them, every current directory is
  a volume-relative path.\<close>

definition dr_wf :: "'b drive_manager \<Rightarrow> bool" where
  [inv_defs]: "dr_wf dm \<longleftrightarrow>
    length (dr_drives dm) = 26 \<and> length (dr_drive_configs dm) = 26 \<and> length (dr_current_dirs dm) = 26 \<and>
    dr_current_disk dm < 26 \<and> list_all rel_path_ok (dr_current_dirs dm) \<and>
    (\<forall>h e. dr_file_handles dm h = Some e \<longrightarrow> fe_drive e < 26) \<and>
    (\<forall>h e. dr_find_handles dm h = Some e \<longrightarrow> fi_drive e < 26)"

lemma list_all_update: "list_all P xs \<Longrightarrow> P x \<Longrightarrow> list_all P (xs[i := x])"
  by (auto simp: list_all_iff dest!: set_update_subset_insert [THEN subsetD])

lemma u8_lt_26: "(d :: u8) < 26 \<longleftrightarrow> unat d < 26"
  by (simp add: word_less_nat_alt)

lemma to_slashes_no_bslash [simp]: "BSLASH \<notin> set (to_slashes p)"
  by (auto simp: to_slashes_def)

lemma rel_path_ok_join:
  "rel_path_ok cur \<Longrightarrow> rel_path_ok rest \<Longrightarrow> rel_path_ok (join_dir cur rest)"
  by (auto simp: rel_path_ok_def join_dir_def)

lemma rel_path_ok_dropWhile:
  "BSLASH \<notin> set p \<Longrightarrow> rel_path_ok (dropWhile (\<lambda>c. c = SLASH) p)"
  using hd_dropWhile [of "\<lambda>c. c = SLASH" p] by (auto simp: rel_path_ok_def dest: set_dropWhileD)

lemma path_drive_wf:
  assumes "path_drive dm p = Inr (d, rest)" "dr_current_disk dm < 26" "BSLASH \<notin> set p"
  shows "d < 26 \<and> BSLASH \<notin> set rest"
proof (cases "has_drive p")
  case True
  then have d: "d = of_nat (uc_upper (hd p) - 65)" "is_ascii_uppercase (uc_upper (hd p))" "rest = drop 2 p"
    using assms(1) by (auto simp: path_drive_def Let_def split: if_splits)
  have "uc_upper (hd p) - 65 < 26" using d(2) by (auto simp: is_ascii_uppercase_def)
  then have "unat d < 26" using d(1) by (simp add: unat_of_nat)
  then show ?thesis using d(3) assms(3) by (auto simp: u8_lt_26 dest: in_set_dropD)
qed (use assms in \<open>auto simp: path_drive_def\<close>)

lemma resolve_path_wf:
  assumes wf: "dr_wf dm" and r: "resolve_path dm p = Inr (d, r)"
  shows "d < 26 \<and> rel_path_ok r \<and> dr_drives dm ! unat d \<noteq> None"
proof -
  obtain rest where pd: "path_drive dm (to_slashes p) = Inr (d, rest)" "dr_drives dm ! unat d \<noteq> None"
    using r by (auto simp: resolve_path_def Let_def split: if_splits sum.splits prod.splits)
  have d: "d < 26" "BSLASH \<notin> set rest"
    using path_drive_wf [OF pd(1)] wf by (auto simp: inv_defs)
  have "rel_path_ok (dr_current_dirs dm ! unat d)"
    using wf d(1) by (auto simp: inv_defs list_all_length u8_lt_26)
  moreover have "rel_path_ok (dropWhile (\<lambda>c. c = SLASH) rest)"
    using d(2) by (rule rel_path_ok_dropWhile)
  ultimately have "rel_path_ok r"
    using r pd by (auto simp: resolve_path_def Let_def rel_path_ok_join split: if_splits)
  then show ?thesis using d pd(2) by simp
qed

text \<open>A call on a backend changes nothing but the slot of its drive.\<close>

lemma on_drive_frame:
  assumes "on_drive dm d e f = (r, dm')"
  shows "\<exists>b. dm' = dm\<lparr> dr_drives := (dr_drives dm)[unat d := b] \<rparr>"
proof (cases "dr_drives dm ! unat d")
  case None
  then have "(dr_drives dm)[unat d := None] = dr_drives dm" by (metis list_update_id)
  then show ?thesis using assms None by (intro exI [of _ None]) (simp add: on_drive_def)
next
  case (Some b)
  then show ?thesis using assms by (auto simp: on_drive_def put_drive_def split: prod.splits)
qed

lemma on_drive_res_frame:
  assumes "on_drive_res dm d e f = (r, dm')"
  shows "\<exists>b. dm' = dm\<lparr> dr_drives := (dr_drives dm)[unat d := b] \<rparr>"
  using assms on_drive_frame by (fastforce simp: on_drive_res_def split: prod.splits sum.splits)

text \<open>Everything about a drive manager but the backends' own states.\<close>

definition same_control :: "'b drive_manager \<Rightarrow> 'b drive_manager \<Rightarrow> bool" where
  "same_control dm dm' \<longleftrightarrow>
    dr_file_handles dm' = dr_file_handles dm \<and> dr_find_handles dm' = dr_find_handles dm \<and>
    dr_next_file_handle dm' = dr_next_file_handle dm \<and> dr_next_find_handle dm' = dr_next_find_handle dm \<and>
    dr_current_disk dm' = dr_current_disk dm \<and> dr_current_dirs dm' = dr_current_dirs dm \<and>
    dr_drive_configs dm' = dr_drive_configs dm \<and> length (dr_drives dm') = length (dr_drives dm)"

lemma same_control_refl [simp]: "same_control dm dm"
  by (simp add: same_control_def)

lemma same_control_wf: "same_control dm dm' \<Longrightarrow> dr_wf dm \<Longrightarrow> dr_wf dm'"
  by (simp add: same_control_def inv_defs)

lemma on_drive_control: "on_drive dm d e f = (r, dm') \<Longrightarrow> same_control dm dm'"
  using on_drive_frame by (fastforce simp: same_control_def)

lemma on_drive_res_control: "on_drive_res dm d e f = (r, dm') \<Longrightarrow> same_control dm dm'"
  using on_drive_res_frame by (fastforce simp: same_control_def)

lemma on_file_control: "on_file dm h e f = (r, dm') \<Longrightarrow> same_control dm dm'"
  by (auto simp: on_file_def split: option.splits dest: on_drive_res_control)

lemma on_path_control: "on_path dm p f = (r, dm') \<Longrightarrow> same_control dm dm'"
  by (auto simp: on_path_def split: sum.splits prod.splits dest: on_drive_res_control)

lemma two_paths_control: "two_paths dm p q f = (r, dm') \<Longrightarrow> same_control dm dm'"
  by (auto simp: two_paths_def split: sum.splits prod.splits if_splits dest: on_drive_res_control)

lemma read_file_control: "read_file V dm h buf = (r, dm') \<Longrightarrow> same_control dm dm'"
  by (auto simp: read_file_def split: option.splits prod.splits sum.splits dest: on_drive_control)

lemma find_next_control: "find_next V dm h = (r, dm') \<Longrightarrow> same_control dm dm'"
  by (auto simp: find_next_def split: option.splits dest: on_drive_res_control)

lemma resolve_to_host_path_control: "resolve_to_host_path V dm p = (r, dm') \<Longrightarrow> same_control dm dm'"
  by (auto simp: resolve_to_host_path_def split: sum.splits prod.splits dest: on_drive_control)

section \<open>Sequences of calls\<close>

datatype 'b dm_call =
    Mount u8 'b
  | Unmount u8
  | SetDriveConfig u8 drive_config
  | OpenFile ustring open_mode sharing_mode open_flags file_attribute
  | CloseFile u32
  | ReadFile u32 "u8 list"
  | WriteFile u32 "u8 list"
  | SeekFile u32 int seek_mode
  | FlushFile u32
  | SetFileSize u32 u64
  | SetFileLocks u32 "file_lock_range list" "file_lock_range list" u32
  | FindFirst ustring file_attribute u32
  | FindNext u32
  | FindClose u32
  | CreateDir ustring
  | DeleteDir ustring
  | DeleteFile ustring
  | RenameFile ustring ustring
  | CopyFile ustring ustring
  | QueryPathInfo ustring u32
  | QueryFileInfo u32 u32
  | ResolveToHostPath ustring
  | SetCurrentDisk u8
  | SetCurrentDir ustring

text \<open>The state after a call; \<open>None\<close> is a failed assertion.\<close>

fun dm_exec :: "'b vfs_backend \<Rightarrow> 'b drive_manager \<Rightarrow> 'b dm_call \<Rightarrow> 'b drive_manager option" where
  "dm_exec V dm (Mount d b) = mount dm d b"
| "dm_exec V dm (Unmount d) = unmount dm d"
| "dm_exec V dm (SetDriveConfig d c) = set_drive_config dm d c"
| "dm_exec V dm (OpenFile p m s f a) = Some (snd (open_file V dm p m s f a))"
| "dm_exec V dm (CloseFile h) = Some (snd (close_file V dm h))"
| "dm_exec V dm (ReadFile h buf) = Some (snd (read_file V dm h buf))"
| "dm_exec V dm (WriteFile h buf) = Some (snd (write_file V dm h buf))"
| "dm_exec V dm (SeekFile h i m) = Some (snd (seek_file V dm h i m))"
| "dm_exec V dm (FlushFile h) = Some (snd (flush_file V dm h))"
| "dm_exec V dm (SetFileSize h n) = Some (snd (set_file_size V dm h n))"
| "dm_exec V dm (SetFileLocks h u l t) = Some (snd (set_file_locks V dm h u l t))"
| "dm_exec V dm (FindFirst p a l) = Some (snd (find_first V dm p a l))"
| "dm_exec V dm (FindNext h) = Some (snd (find_next V dm h))"
| "dm_exec V dm (FindClose h) = Some (snd (find_close V dm h))"
| "dm_exec V dm (CreateDir p) = Some (snd (create_dir V dm p))"
| "dm_exec V dm (DeleteDir p) = Some (snd (delete_dir V dm p))"
| "dm_exec V dm (DeleteFile p) = Some (snd (delete_file V dm p))"
| "dm_exec V dm (RenameFile p q) = Some (snd (rename_file V dm p q))"
| "dm_exec V dm (CopyFile p q) = Some (snd (copy_file V dm p q))"
| "dm_exec V dm (QueryPathInfo p l) = Some (snd (query_path_info V dm p l))"
| "dm_exec V dm (QueryFileInfo h l) = Some (snd (query_file_info V dm h l))"
| "dm_exec V dm (ResolveToHostPath p) = Some (snd (resolve_to_host_path V dm p))"
| "dm_exec V dm (SetCurrentDisk d) = Some (snd (set_current_disk dm d))"
| "dm_exec V dm (SetCurrentDir p) = Some (snd (set_current_dir dm p))"

inductive dm_steps ::
  "'b vfs_backend \<Rightarrow> 'b drive_manager \<Rightarrow> 'b dm_call list \<Rightarrow> 'b drive_manager \<Rightarrow> bool" for V where
  dm_nil: "dm_steps V dm [] dm"
| dm_cons: "dm_exec V dm c = Some dm1 \<Longrightarrow> dm_steps V dm1 cs dm2 \<Longrightarrow> dm_steps V dm (c # cs) dm2"

inductive_cases dm_steps_NilE: "dm_steps V dm [] dm'"
inductive_cases dm_steps_ConsE: "dm_steps V dm (c # cs) dm'"

text \<open>The calls that touch nothing but the backends.\<close>

fun backend_only :: "'b dm_call \<Rightarrow> bool" where
  "backend_only (Mount _ _) = False"
| "backend_only (Unmount _) = False"
| "backend_only (SetDriveConfig _ _) = False"
| "backend_only (OpenFile _ _ _ _ _) = False"
| "backend_only (CloseFile _) = False"
| "backend_only (FindFirst _ _ _) = False"
| "backend_only (FindClose _) = False"
| "backend_only (SetCurrentDisk _) = False"
| "backend_only (SetCurrentDir _) = False"
| "backend_only _ = True"

lemma snd_controlI: "(\<And>r dm'. x = (r, dm') \<Longrightarrow> same_control dm dm') \<Longrightarrow> same_control dm (snd x)"
  by (cases x) auto

lemma dm_exec_backend_only:
  assumes "dm_exec V dm c = Some dm'" and "backend_only c"
  shows "same_control dm dm'"
  using assms
  by (cases c) (auto intro!: snd_controlI simp: write_file_def seek_file_def flush_file_def
      set_file_size_def set_file_locks_def create_dir_def delete_dir_def delete_file_def
      rename_file_def copy_file_def query_path_info_def query_file_info_def
      dest: on_file_control on_path_control two_paths_control read_file_control
        find_next_control resolve_to_host_path_control)

lemma open_file_cases:
  assumes "open_file V dm p m s f a = (r, dm')"
  obtains (failed) e where "r = Inl e" "same_control dm dm'"
  | (opened) d rel v act dm1 where
      "resolve_path dm p = Inr (d, rel)"
      "on_drive_res dm d INVALID_DRIVE (\<lambda>b. be_open V b rel m s f a) = (Inr (v, act), dm1)"
      "r = Inr (dr_next_file_handle dm, act)"
      "dm' = snd (file_add dm1 \<lparr> fe_drive = d, fe_vfs_handle = v \<rparr>)"
proof (cases "check_device_name p \<noteq> None \<or> (\<exists>e. resolve_path dm p = Inl e)")
  case True
  then have "(\<exists>e. r = Inl e) \<and> same_control dm dm'"
    using assms by (cases "check_device_name p") (auto simp: open_file_def)
  then show thesis using failed by blast
next
  case False
  then obtain d rel where rp: "resolve_path dm p = Inr (d, rel)" "check_device_name p = None"
    by (metis sumE old.prod.exhaust)
  obtain q dm1 where q: "on_drive_res dm d INVALID_DRIVE (\<lambda>b. be_open V b rel m s f a) = (q, dm1)"
    by fastforce
  have sc: "same_control dm dm1" using q by (rule on_drive_res_control)
  show thesis
  proof (cases q)
    case (Inl e)
    then show thesis using assms rp q sc by (intro failed) (auto simp: open_file_def)
  next
    case (Inr va)
    obtain v act where "va = (v, act)" by fastforce
    with Inr assms rp q sc show thesis
      by (intro opened [of d rel v act dm1]) (auto simp: open_file_def file_add_def same_control_def)
  qed
qed

lemma find_first_cases:
  assumes "find_first V dm p a l = (r, dm')"
  obtains (failed) e where "r = Inl e" "same_control dm dm'"
  | (found) d rel v ent dm1 where
      "resolve_path dm p = Inr (d, rel)"
      "on_drive_res dm d INVALID_DRIVE (\<lambda>b. be_find_first V b rel a) = (Inr (v, ent), dm1)"
      "r = Inr (dr_next_find_handle dm, ent)"
      "dm' = snd (find_add dm1 \<lparr> fi_drive = d, fi_vfs_handle = v, fi_level = l, fi_pattern = p \<rparr>)"
proof (cases "resolve_path dm p")
  case (Inl e)
  then show thesis using assms by (intro failed) (auto simp: find_first_def)
next
  case (Inr dr)
  obtain d rel where rp: "resolve_path dm p = Inr (d, rel)" using Inr by (metis surj_pair)
  obtain q dm1 where q: "on_drive_res dm d INVALID_DRIVE (\<lambda>b. be_find_first V b rel a) = (q, dm1)"
    by fastforce
  have sc: "same_control dm dm1" using q by (rule on_drive_res_control)
  show thesis
  proof (cases q)
    case (Inl e)
    then show thesis using assms rp q sc by (intro failed) (auto simp: find_first_def)
  next
    case (Inr va)
    obtain v ent where "va = (v, ent)" by fastforce
    with Inr assms rp q sc show thesis
      by (intro found [of d rel v ent dm1]) (auto simp: find_first_def find_add_def same_control_def)
  qed
qed

lemma close_file_control:
  "close_file V dm h = (r, dm') \<Longrightarrow> dr_file_handles dm h \<noteq> None \<Longrightarrow>
    same_control (snd (file_remove dm h)) dm'"
  by (auto simp: close_file_def dest: on_drive_res_control)

lemma find_close_control:
  "find_close V dm h = (r, dm') \<Longrightarrow> dr_find_handles dm h \<noteq> None \<Longrightarrow>
    same_control (snd (find_remove dm h)) dm'"
  by (auto simp: find_close_def dest: on_drive_res_control)

lemma open_file_wf: "open_file V dm p m s f a = (r, dm') \<Longrightarrow> dr_wf dm \<Longrightarrow> dr_wf dm'"
proof (erule open_file_cases)
  fix d rel v act dm1
  assume wf: "dr_wf dm" and rp: "resolve_path dm p = Inr (d, rel)"
    and q: "on_drive_res dm d INVALID_DRIVE (\<lambda>b. be_open V b rel m s f a) = (Inr (v, act), dm1)"
    and dm': "dm' = snd (file_add dm1 \<lparr> fe_drive = d, fe_vfs_handle = v \<rparr>)"
  have "dr_wf dm1" "d < 26"
    using same_control_wf [OF on_drive_res_control [OF q] wf] resolve_path_wf [OF wf rp] by auto
  then show "dr_wf dm'" by (auto simp: dm' file_add_def inv_defs)
qed (rule same_control_wf)

lemma find_first_wf: "find_first V dm p a l = (r, dm') \<Longrightarrow> dr_wf dm \<Longrightarrow> dr_wf dm'"
proof (erule find_first_cases)
  fix d rel v ent dm1
  assume wf: "dr_wf dm" and rp: "resolve_path dm p = Inr (d, rel)"
    and q: "on_drive_res dm d INVALID_DRIVE (\<lambda>b. be_find_first V b rel a) = (Inr (v, ent), dm1)"
    and dm': "dm' = snd (find_add dm1 \<lparr> fi_drive = d, fi_vfs_handle = v, fi_level = l, fi_pattern = p \<rparr>)"
  have "dr_wf dm1" "d < 26"
    using same_control_wf [OF on_drive_res_control [OF q] wf] resolve_path_wf [OF wf rp] by auto
  then show "dr_wf dm'" by (auto simp: dm' find_add_def inv_defs)
qed (rule same_control_wf)

lemma close_file_wf: "close_file V dm h = (r, dm') \<Longrightarrow> dr_wf dm \<Longrightarrow> dr_wf dm'"
proof (cases "dr_file_handles dm h = None")
  case False
  assume c: "close_file V dm h = (r, dm')" and wf: "dr_wf dm"
  have "dr_wf (snd (file_remove dm h))" using wf by (auto simp: file_remove_def inv_defs)
  then show ?thesis by (rule same_control_wf [OF close_file_control [OF c False]])
qed (auto simp: close_file_def)

lemma find_close_wf: "find_close V dm h = (r, dm') \<Longrightarrow> dr_wf dm \<Longrightarrow> dr_wf dm'"
proof (cases "dr_find_handles dm h = None")
  case False
  assume c: "find_close V dm h = (r, dm')" and wf: "dr_wf dm"
  have "dr_wf (snd (find_remove dm h))" using wf by (auto simp: find_remove_def inv_defs)
  then show ?thesis by (rule same_control_wf [OF find_close_control [OF c False]])
qed (auto simp: find_close_def)

lemma set_current_disk_wf: "dr_wf dm \<Longrightarrow> dr_wf (snd (set_current_disk dm d))"
proof -
  assume "dr_wf dm"
  moreover have "d - 1 < 26" if "d \<noteq> 0" "\<not> 26 < d"
  proof -
    have "unat d - 1 < 26" "0 < unat d" using that by (auto simp: word_less_nat_alt unat_gt_0)
    then show ?thesis using unat_minus_one [OF that(1)] by (simp add: word_less_nat_alt)
  qed
  ultimately show ?thesis by (auto simp: set_current_disk_def inv_defs)
qed

lemma set_current_dir_wf: "dr_wf dm \<Longrightarrow> dr_wf (snd (set_current_dir dm p))"
proof (cases "resolve_path dm p")
  case (Inr x)
  assume wf: "dr_wf dm"
  obtain d r where "x = (d, r)" by fastforce
  then have "rel_path_ok r" using resolve_path_wf [OF wf] Inr by blast
  then show ?thesis using wf Inr \<open>x = (d, r)\<close>
    by (simp add: set_current_dir_def inv_defs list_all_update)
qed (simp add: set_current_dir_def)

lemma dm_exec_wf:
  assumes e: "dm_exec V dm c = Some dm'" and wf: "dr_wf dm"
  shows "dr_wf dm'"
proof (cases "backend_only c")
  case True
  then show ?thesis using same_control_wf [OF dm_exec_backend_only [OF e] wf] by simp
next
  case False
  note wfs = open_file_wf close_file_wf find_first_wf find_close_wf
  show ?thesis
  proof (cases c)
    case (OpenFile p m s f a)
    then show ?thesis using e wf wfs(1) [of V dm p m s f a] by (metis dm_exec.simps(4) option.inject surjective_pairing)
  next
    case (CloseFile h)
    then show ?thesis using e wf wfs(2) [of V dm h] by (metis dm_exec.simps(5) option.inject surjective_pairing)
  next
    case (FindFirst p a l)
    then show ?thesis using e wf wfs(3) [of V dm p a l] by (metis dm_exec.simps(12) option.inject surjective_pairing)
  next
    case (FindClose h)
    then show ?thesis using e wf wfs(4) [of V dm h] by (metis dm_exec.simps(14) option.inject surjective_pairing)
  qed (use False e wf set_current_disk_wf [OF wf] set_current_dir_wf [OF wf] in
      \<open>auto simp: mount_def unmount_def set_drive_config_def inv_defs split: if_splits\<close>)
qed


lemma dm_steps_wf: "dm_steps V dm cs dm' \<Longrightarrow> dr_wf dm \<Longrightarrow> dr_wf dm'"
  by (induction rule: dm_steps.induct) (auto dest: dm_exec_wf)

lemma dr_new_wf: "dr_wf dr_new"
  by (simp add: dr_new_def inv_defs rel_path_ok_def list_all_iff)

subsection \<open>Handles across calls\<close>

text \<open>What a call does to an open file handle it does not close.\<close>

definition opens :: "'b dm_call list \<Rightarrow> nat" where
  "opens cs = length (filter (\<lambda>c. case c of OpenFile _ _ _ _ _ \<Rightarrow> True | _ \<Rightarrow> False) cs)"

lemma dm_exec_files:
  assumes e: "dm_exec V dm c = Some dm'" and c: "c \<noteq> CloseFile h"
    and h: "dr_file_handles dm h = Some x" "h \<noteq> dr_next_file_handle dm"
  shows "dr_file_handles dm' h = Some x \<and>
    dr_next_file_handle dm' \<in> (if opens [c] = 0 then {dr_next_file_handle dm}
       else {dr_next_file_handle dm, dr_next_file_handle dm + 1})"
proof (cases "backend_only c")
  case True
  then show ?thesis using dm_exec_backend_only [OF e] h by (simp add: same_control_def)
next
  case False
  show ?thesis
  proof (cases c)
    case (OpenFile p m s f a)
    obtain r where "open_file V dm p m s f a = (r, dm')"
      using e OpenFile by (metis dm_exec.simps(4) option.inject surjective_pairing)
    then show ?thesis
    proof (cases rule: open_file_cases)
      case (opened d rel v act dm1)
      have "same_control dm dm1" using opened(2) by (rule on_drive_res_control)
      then show ?thesis using opened(4) h OpenFile by (auto simp: file_add_def same_control_def opens_def)
    qed (use h OpenFile in \<open>auto simp: same_control_def opens_def\<close>)
  next
    case (CloseFile g)
    obtain r where r: "close_file V dm g = (r, dm')"
      using e CloseFile by (metis dm_exec.simps(5) option.inject surjective_pairing)
    then show ?thesis using close_file_control [OF r] c h CloseFile
      by (cases "dr_file_handles dm g") (auto simp: same_control_def file_remove_def close_file_def opens_def)
  next
    case (FindFirst p a l)
    obtain r where "find_first V dm p a l = (r, dm')"
      using e FindFirst by (metis dm_exec.simps(12) option.inject surjective_pairing)
    then show ?thesis
    proof (cases rule: find_first_cases)
      case (found d rel v ent dm1)
      have "same_control dm dm1" using found(2) by (rule on_drive_res_control)
      then show ?thesis using found(4) h FindFirst by (auto simp: find_add_def same_control_def opens_def)
    qed (use h FindFirst in \<open>auto simp: same_control_def opens_def\<close>)
  next
    case (FindClose g)
    obtain r where r: "find_close V dm g = (r, dm')"
      using e FindClose by (metis dm_exec.simps(14) option.inject surjective_pairing)
    then show ?thesis using find_close_control [OF r] h FindClose
      by (cases "dr_find_handles dm g") (auto simp: same_control_def find_remove_def find_close_def opens_def)
  qed (use False e h in \<open>auto simp: mount_def unmount_def set_drive_config_def set_current_disk_def
        set_current_dir_def opens_def split: if_splits sum.splits\<close>)
qed

lemma opens_Cons: "opens (c # cs) = opens [c] + opens cs"
  by (simp add: opens_def)

lemma dm_steps_file:
  assumes "dm_steps V dm cs dm'" and "CloseFile h \<notin> set cs"
    and "dr_file_handles dm h = Some x" and "unat h < unat (dr_next_file_handle dm)"
    and "unat (dr_next_file_handle dm) + opens cs < 2 ^ 32"
  shows "dr_file_handles dm' h = Some x"
  using assms
proof (induction rule: dm_steps.induct)
  case (dm_cons dm c dm1 cs dm2)
  let ?n = "unat (dr_next_file_handle dm)"
  have ne: "h \<noteq> dr_next_file_handle dm" using dm_cons.prems(3) by auto
  have s: "dr_file_handles dm1 h = Some x"
    "dr_next_file_handle dm1 \<in> (if opens [c] = 0 then {dr_next_file_handle dm}
       else {dr_next_file_handle dm, dr_next_file_handle dm + 1})"
    using dm_exec_files [OF dm_cons.hyps(1) _ dm_cons.prems(2) ne] dm_cons.prems(1) by auto
  have o: "opens (c # cs) = opens [c] + opens cs" by (rule opens_Cons)
  have "unat (dr_next_file_handle dm + 1) = Suc ?n" if "opens [c] \<noteq> 0"
    using unat_Suc_u32 [of "dr_next_file_handle dm" "opens (c # cs)"] dm_cons.prems(4) o that by simp
  then have "?n \<le> unat (dr_next_file_handle dm1)" "unat (dr_next_file_handle dm1) \<le> ?n + opens [c]"
    using s(2) by (auto split: if_splits)
  then show ?case using dm_cons.IH s(1) dm_cons.prems o by simp
qed simp


section \<open>Path resolution\<close>

text \<open>A path in three parts: an optional drive letter, separators, and a body that does not start
  with a separator.\<close>

definition os2_path_of :: "nat option \<Rightarrow> ustring \<Rightarrow> ustring \<Rightarrow> ustring" where
  "os2_path_of letter seps body = (case letter of None \<Rightarrow> [] | Some l \<Rightarrow> [l, COLON]) @ seps @ body"

lemma to_slashes_append: "to_slashes (a @ b) = to_slashes a @ to_slashes b"
  by (simp add: to_slashes_def)

lemma to_slashes_seps: "\<forall>c\<in>set seps. is_sep c \<Longrightarrow> to_slashes seps = replicate (length seps) SLASH"
  by (induction seps) (auto simp: to_slashes_def is_sep_def)

lemma dropWhile_seps:
  assumes "\<forall>c\<in>set seps. is_sep c" "body \<noteq> [] \<longrightarrow> \<not> is_sep (hd body)"
  shows "dropWhile (\<lambda>c. c = SLASH) (to_slashes (seps @ body)) = to_slashes body"
proof -
  have "dropWhile (\<lambda>c. c = SLASH) (to_slashes body) = to_slashes body"
    using assms(2) by (cases body) (auto simp: to_slashes_def is_sep_def)
  moreover have "dropWhile (\<lambda>c. c = SLASH) (replicate n SLASH @ xs) = dropWhile (\<lambda>c. c = SLASH) xs" for n xs
    by (induction n) auto
  ultimately show ?thesis by (simp add: to_slashes_append to_slashes_seps [OF assms(1)])
qed

lemma was_absolute_os2_path_of:
  assumes "\<forall>c\<in>set seps. is_sep c" "body \<noteq> [] \<longrightarrow> \<not> is_sep (hd body)"
    and "case letter of None \<Rightarrow> \<not> has_drive (to_slashes (seps @ body))
         | Some l \<Rightarrow> is_ascii_uppercase (uc_upper l)"
  shows "was_absolute (os2_path_of letter seps body) \<longleftrightarrow> seps \<noteq> []"
proof (cases letter)
  case None
  then show ?thesis using assms by (cases seps; cases body) (auto simp: was_absolute_def os2_path_of_def)
next
  case (Some l)
  have "l < 128" "l \<noteq> BSLASH" using assms(3) Some by (auto simp: uc_upper_def is_ascii_uppercase_def split: if_splits)
  then show ?thesis using assms(1,2) Some
    by (cases seps; cases body)
      (auto simp: was_absolute_def os2_path_of_def to_slashes_def has_drive_def is_sep_def)
qed

lemma path_drive_os2_path_of:
  assumes "case letter of None \<Rightarrow> \<not> has_drive (to_slashes (seps @ body))
         | Some l \<Rightarrow> is_ascii_uppercase (uc_upper l)"
  shows "path_drive dm (to_slashes (os2_path_of letter seps body)) =
    Inr (case letter of None \<Rightarrow> dr_current_disk dm | Some l \<Rightarrow> of_nat (uc_upper l - 65),
         to_slashes (seps @ body))"
proof (cases letter)
  case (Some l)
  have l: "l < 128" "l \<noteq> BSLASH" "is_ascii_uppercase (uc_upper l)"
    using assms Some by (auto simp: uc_upper_def is_ascii_uppercase_def split: if_splits)
  have "to_slashes (os2_path_of letter seps body) = l # COLON # to_slashes (seps @ body)"
    using l(2) Some by (simp add: os2_path_of_def to_slashes_def)
  then show ?thesis using l Some by (simp add: path_drive_def has_drive_def)
qed (use assms in \<open>simp add: path_drive_def os2_path_of_def\<close>)

text \<open>
  The parts of a path: an ASCII character before a colon is its drive letter, whatever character it is. Every
  path has parts.
\<close>

definition path_parts :: "ustring \<Rightarrow> nat option \<Rightarrow> ustring \<Rightarrow> ustring \<Rightarrow> bool" where
  "path_parts p letter seps body \<longleftrightarrow> p = os2_path_of letter seps body \<and>
    (\<forall>c\<in>set seps. is_sep c) \<and> (body \<noteq> [] \<longrightarrow> \<not> is_sep (hd body)) \<and>
    (case letter of None \<Rightarrow> \<not> (\<exists>c rest. seps @ body = c # COLON # rest \<and> c < 128) | Some l \<Rightarrow> l < 128)"

definition drive_number :: "nat \<Rightarrow> nat option" where
  "drive_number l = (if 65 \<le> l \<and> l \<le> 90 then Some (l - 65) else if 97 \<le> l \<and> l \<le> 122 then Some (l - 97) else None)"

lemma drive_number_upper: "drive_number l = (if is_ascii_uppercase (uc_upper l) then Some (uc_upper l - 65) else None)"
  by (auto simp: drive_number_def is_ascii_uppercase_def uc_upper_def)

lemma drive_number_bound: "drive_number l = Some d \<Longrightarrow> d < 26"
  by (auto simp: drive_number_def split: if_splits)

lemma split_seps: "\<exists>seps body. q = seps @ body \<and> (\<forall>c\<in>set seps. is_sep c) \<and> (body \<noteq> [] \<longrightarrow> \<not> is_sep (hd body))"
  using hd_dropWhile [of is_sep q] set_takeWhileD [of _ is_sep q]
  by (intro exI [of _ "takeWhile is_sep q"] exI [of _ "dropWhile is_sep q"]) auto

lemma path_parts_ex: "\<exists>letter seps body. path_parts p letter seps body"
proof (cases "\<exists>c rest. p = c # COLON # rest \<and> c < 128")
  case True
  then obtain c rest where c: "p = c # COLON # rest" "c < 128" by blast
  obtain seps body where "rest = seps @ body" "\<forall>c\<in>set seps. is_sep c" "body \<noteq> [] \<longrightarrow> \<not> is_sep (hd body)"
    using split_seps by blast
  then show ?thesis using c
    by (intro exI [of _ "Some c"] exI [of _ seps] exI [of _ body]) (simp add: path_parts_def os2_path_of_def)
next
  case False
  obtain seps body where "p = seps @ body" "\<forall>c\<in>set seps. is_sep c" "body \<noteq> [] \<longrightarrow> \<not> is_sep (hd body)"
    using split_seps by blast
  then show ?thesis using False
    by (intro exI [of _ None] exI [of _ seps] exI [of _ body]) (simp add: path_parts_def os2_path_of_def)
qed

lemma resolve_path_parts:
  assumes "path_parts p letter seps body" "\<not> is_unc p"
  shows "resolve_path dm p =
    (case (case letter of None \<Rightarrow> Some (unat (dr_current_disk dm)) | Some l \<Rightarrow> drive_number l) of
       None \<Rightarrow> Inl INVALID_DRIVE
     | Some d \<Rightarrow>
         if dr_drives dm ! d = None then Inl INVALID_DRIVE
         else Inr (of_nat d, if body = [] then dr_current_dirs dm ! d
                             else if seps \<noteq> [] then to_slashes body
                             else join_dir (dr_current_dirs dm ! d) (to_slashes body)))"
proof -
  have h: "p = os2_path_of letter seps body" "\<forall>c\<in>set seps. is_sep c" "body \<noteq> [] \<longrightarrow> \<not> is_sep (hd body)"
    and lt: "case letter of None \<Rightarrow> \<not> (\<exists>c rest. seps @ body = c # COLON # rest \<and> c < 128) | Some l \<Rightarrow> l < 128"
    using assms(1) by (simp_all add: path_parts_def)
  show ?thesis
  proof (cases "letter \<noteq> None \<and> drive_number (the letter) = None")
    case True
    then obtain l where e: "letter = Some l" "drive_number l = None" "l < 128" using lt by auto
    then have l: "letter = Some l" "\<not> is_ascii_uppercase (uc_upper l)" "l < 128"
      by (simp_all add: drive_number_upper split: if_splits)
    obtain m where "to_slashes p = m # COLON # to_slashes (seps @ body)" "m = (if l = BSLASH then SLASH else l)"
      using l(1) h(1) by (simp add: os2_path_of_def to_slashes_def)
    moreover have "\<not> is_ascii_uppercase (uc_upper m)" "m < 128"
      using calculation(2) l(2,3) by (auto simp: is_ascii_uppercase_def uc_upper_def)
    ultimately have "path_drive dm (to_slashes p) = Inl INVALID_DRIVE" by (simp add: path_drive_def has_drive_def)
    then show ?thesis using e assms(2) by (simp add: resolve_path_def Let_def)
  next
    case False
    have ok: "case letter of None \<Rightarrow> \<not> has_drive (to_slashes (seps @ body)) | Some l \<Rightarrow> is_ascii_uppercase (uc_upper l)"
    proof (cases letter)
      case None
      have "\<exists>c rest. seps @ body = c # COLON # rest \<and> c < 128" if "has_drive (to_slashes (seps @ body))"
        using that by (cases "seps @ body"; cases "tl (seps @ body)")
          (auto simp: has_drive_def to_slashes_def split: if_splits)
      then show ?thesis using None lt by auto
    qed (use False in \<open>auto simp: drive_number_upper split: if_splits\<close>)
    obtain d where d: "(case letter of None \<Rightarrow> Some (unat (dr_current_disk dm)) | Some l \<Rightarrow> drive_number l) = Some d"
      using False by (cases letter) auto
    have b: "(case letter of None \<Rightarrow> dr_current_disk dm | Some l \<Rightarrow> of_nat (uc_upper l - 65)) = (of_nat d :: u8)"
      using d ok by (cases letter) (auto simp: drive_number_upper split: if_splits)
    have u: "unat (of_nat d :: u8) = d"
      using d drive_number_bound by (cases letter) (fastforce simp: unat_of_nat)+
    have pd: "path_drive dm (to_slashes p) = Inr (of_nat d, to_slashes (seps @ body))"
      unfolding h(1) path_drive_os2_path_of [OF ok] b by (rule refl)
    have dw: "dropWhile (\<lambda>c. c = SLASH) (to_slashes (seps @ body)) = to_slashes body"
      by (rule dropWhile_seps [OF h(2,3)])
    have wa: "was_absolute p \<longleftrightarrow> seps \<noteq> []" unfolding h(1) by (rule was_absolute_os2_path_of [OF h(2,3) ok])
    have sep: "BSLASH \<in> set p \<or> SLASH \<in> set p" if "seps \<noteq> []"
      using h(2) that unfolding h(1) by (cases seps) (auto simp: os2_path_of_def is_sep_def)
    have "to_slashes body = [] \<longleftrightarrow> body = []" by (simp add: to_slashes_def)
    then show ?thesis using pd dw wa sep u assms(2) unfolding d
      by (cases "seps = []") (simp_all add: resolve_path_def Let_def)
  qed
qed

text \<open>
  C25. \<^verbatim>\<open>DriveManager::resolve_path\<close>, on every path: each has a drive letter or none, separators and a body,
  and for such parts the result is as follows. A path that starts with two equal separators is rejected. A
  path whose drive letter is not a letter, or that names a drive that is not mounted, is an invalid drive.
  Otherwise the drive is that of the letter, without regard to case, or the current one; and the path on it is
  the body with slashes for backslashes, taken from the root when separators precede it and from the current
  directory of the drive otherwise. A path without a body is the current directory, with or without
  separators.
\<close>

theorem resolve_path_spec:
  "(\<exists>letter seps body. path_parts p letter seps body) \<and>
   (\<forall>letter seps body. path_parts p letter seps body \<longrightarrow>
      resolve_path dm p =
        (if take 2 p \<in> {[BSLASH, BSLASH], [SLASH, SLASH]} then Inl PATH_NOT_FOUND
         else case (case letter of None \<Rightarrow> Some (unat (dr_current_disk dm)) | Some l \<Rightarrow> drive_number l) of
             None \<Rightarrow> Inl INVALID_DRIVE
           | Some d \<Rightarrow>
               if dr_drives dm ! d = None then Inl INVALID_DRIVE
               else Inr (of_nat d,
                 let cur = dr_current_dirs dm ! d in
                 if body = [] then cur
                 else if seps \<noteq> [] \<or> cur = [] then to_slashes body
                 else cur @ [SLASH] @ to_slashes body)))"
proof (intro conjI allI impI)
  fix letter seps body assume p: "path_parts p letter seps body"
  show "resolve_path dm p =
        (if take 2 p \<in> {[BSLASH, BSLASH], [SLASH, SLASH]} then Inl PATH_NOT_FOUND
         else case (case letter of None \<Rightarrow> Some (unat (dr_current_disk dm)) | Some l \<Rightarrow> drive_number l) of
             None \<Rightarrow> Inl INVALID_DRIVE
           | Some d \<Rightarrow>
               if dr_drives dm ! d = None then Inl INVALID_DRIVE
               else Inr (of_nat d,
                 let cur = dr_current_dirs dm ! d in
                 if body = [] then cur
                 else if seps \<noteq> [] \<or> cur = [] then to_slashes body
                 else cur @ [SLASH] @ to_slashes body))"
  proof (cases "is_unc p")
    case True
    then show ?thesis by (simp add: resolve_path_def is_unc_def)
  next
    case False
    then have "take 2 p \<notin> {[BSLASH, BSLASH], [SLASH, SLASH]}" by (simp add: is_unc_def)
    then show ?thesis unfolding resolve_path_parts [OF p False]
      by (simp add: join_dir_def Let_def split: option.split)
  qed
qed (rule path_parts_ex)

definition demo_dm :: "unit drive_manager" where
  "demo_dm = dr_new\<lparr> dr_drives := (replicate 26 None)[2 := Some (), 3 := Some ()],
     dr_current_dirs := (replicate 26 [])[2 := ustr ''work''] \<rparr>"

lemma demo_dm_wf: "dr_wf demo_dm"
proof -
  have "list_all rel_path_ok ((replicate 26 [])[2 := ustr ''work''])"
    by (rule list_all_update) (simp_all add: rel_path_ok_def ustr_def of_char_def list_all_iff)
  then show ?thesis by (simp add: demo_dm_def dr_new_def inv_defs)
qed

theorem resolve_path_spec_witness:
  "resolve_path demo_dm (ustr [CHR 0x63, CHR 0x3A] @ [BSLASH] @ ustr ''os2'' @ [BSLASH] @ ustr ''dll'')
     = Inr (2, ustr ''os2/dll'')
   \<and> resolve_path demo_dm (ustr ''a.txt'') = Inr (2, ustr ''work/a.txt'')
   \<and> resolve_path demo_dm (ustr ''1:a'') = Inl INVALID_DRIVE"
proof -
  have parts: "path_parts (ustr [CHR 0x63, CHR 0x3A] @ [BSLASH] @ ustr ''os2'' @ [BSLASH] @ ustr ''dll'')
      (Some 0x63) [BSLASH] (ustr ''os2'' @ [BSLASH] @ ustr ''dll'')"
    "path_parts (ustr ''a.txt'') None [] (ustr ''a.txt'')" "path_parts (ustr ''1:a'') (Some 49) [] (ustr ''a'')"
    by (simp_all add: path_parts_def os2_path_of_def ustr_def is_sep_def of_char_def)
  note r = resolve_path_spec [THEN conjunct2, rule_format]
  show ?thesis unfolding r [OF parts(1)] r [OF parts(2)] r [OF parts(3)]
    by (simp add: drive_number_def ustr_def to_slashes_def demo_dm_def dr_new_def of_char_def)
qed

text \<open>
  A path of separators only, with or without a drive letter, is not the root of the volume:
  \<^verbatim>\<open>set_current_dir\<close> succeeds on it and leaves every current directory as it was, so no program can
  change to the root of a drive by naming it.
\<close>

theorem set_current_dir_root_noop:
  assumes wf: "dr_wf dm" and mounted: "dr_drives dm ! unat d \<noteq> None" "d < 26"
    and seps: "\<forall>c\<in>set seps. is_sep c" "seps \<noteq> []"
    and path: "path = seps \<and> length seps = 1 \<and> d = dr_current_disk dm \<or>
               path = [of_nat (unat d) + 65, COLON] @ seps"
  shows "set_current_dir dm path = (Inr (), dm)"
proof -
  have ne: "\<not> is_unc path" using path seps by (cases seps) (auto simp: is_unc_def)
  have pd: "path_drive dm (to_slashes path) = Inr (d, to_slashes seps)"
  proof (cases "path = [of_nat (unat d) + 65, COLON] @ seps")
    case True
    have "unat d + 65 < 128" "unat d + 65 \<noteq> BSLASH" "is_ascii_uppercase (uc_upper (unat d + 65))"
      "uc_upper (unat d + 65) - 65 = unat d"
      using mounted(2) by (auto simp: u8_lt_26 is_ascii_uppercase_def uc_upper_def)
    then show ?thesis using True
      by (simp add: path_drive_def has_drive_def to_slashes_def)
  next
    case False
    then show ?thesis using path by (cases seps) (auto simp: path_drive_def has_drive_def to_slashes_def)
  qed
  have "dropWhile (\<lambda>c. c = SLASH) (to_slashes seps) = []"
    using dropWhile_seps [OF seps(1), of "[]"] by (simp add: to_slashes_def)
  then have "resolve_path dm path = Inr (d, dr_current_dirs dm ! unat d)"
    using ne pd mounted(1) by (simp add: resolve_path_def Let_def)
  then show ?thesis by (simp add: set_current_dir_def)
qed

theorem set_current_dir_root_noop_witness:
  "set_current_dir demo_dm [BSLASH] = (Inr (), demo_dm) \<and> current_dir demo_dm 2 = ustr ''work''"
proof -
  have "dr_wf demo_dm" by (rule demo_dm_wf)
  then show ?thesis using set_current_dir_root_noop [of demo_dm 2 "[BSLASH]" "[BSLASH]"]
    by (simp add: demo_dm_def dr_new_def is_sep_def current_dir_def)
qed

section \<open>Properties of call sequences\<close>

text \<open>
  C26. Over any sequence of calls, whatever the backends do, the drive manager stays well formed:
  all tables have 26 entries, the current drive and the drive of every open file and search
  indexes them, every current directory is a volume-relative path; and every path it resolves for
  a backend is volume-relative too, on a mounted drive.
\<close>

theorem drive_manager_wf:
  assumes "dm_steps V dr_new cs dm"
  shows "dr_wf dm \<and>
    (\<forall>p d r. resolve_path dm p = Inr (d, r) \<longrightarrow> d < 26 \<and> rel_path_ok r \<and> dr_drives dm ! unat d \<noteq> None)"
  using dm_steps_wf [OF assms dr_new_wf] resolve_path_wf by blast

definition null_backend :: "unit vfs_backend" where
  "null_backend =
    \<lparr> be_open = (\<lambda>b p m s f a. (Inr (7, Created), b)), be_close = (\<lambda>b h. (Inr (), b)),
      be_read = (\<lambda>b h buf. ((Inr 0, buf), b)), be_write = (\<lambda>b h buf. (Inr (length buf), b)),
      be_seek = (\<lambda>b h i m. (Inr 0, b)), be_set_file_size = (\<lambda>b h n. (Inr (), b)),
      be_flush = (\<lambda>b h. (Inr (), b)), be_find_first = (\<lambda>b p a. (Inl NO_MORE_FILES, b)),
      be_find_next = (\<lambda>b h. (Inl NO_MORE_FILES, b)), be_find_close = (\<lambda>b h. (Inr (), b)),
      be_create_dir = (\<lambda>b p. (Inr (), b)), be_delete_dir = (\<lambda>b p. (Inr (), b)),
      be_delete = (\<lambda>b p. (Inr (), b)), be_rename = (\<lambda>b p q. (Inr (), b)), be_copy = (\<lambda>b p q. (Inr (), b)),
      be_query_path_info = (\<lambda>b p l. (Inl FILE_NOT_FOUND, b)),
      be_query_file_info = (\<lambda>b h l. (Inl INVALID_HANDLE, b)),
      be_set_file_info = (\<lambda>b h l i. (Inr (), b)), be_set_path_info = (\<lambda>b p l i. (Inr (), b)),
      be_get_ea = (\<lambda>b p n. (Inl EA_NOT_FOUND, b)), be_set_ea = (\<lambda>b p e. (Inr (), b)),
      be_enum_ea = (\<lambda>b p. (Inr [], b)), be_query_fs_info_alloc = (\<lambda>b. (Inl ACCESS_DENIED, b)),
      be_query_fs_info_volume = (\<lambda>b. (Inl ACCESS_DENIED, b)),
      be_set_fs_info_volume = (\<lambda>b l. (Inr (), b)), be_fs_name = (\<lambda>b. []),
      be_set_file_locks = (\<lambda>b h u l t. (Inr (), b)), be_to_host_path = (\<lambda>b p. (None, b)) \<rparr>"

lemma demo_steps:
  "dm_steps null_backend dr_new [Mount 2 (), SetCurrentDir (ustr ''work'')]
     (dr_new\<lparr> dr_drives := (replicate 26 None)[2 := Some ()],
              dr_current_dirs := (replicate 26 [])[2 := ustr ''work''] \<rparr>)"
  by (rule dm_cons dm_nil | simp add: mount_def set_current_dir_def resolve_path_def is_unc_def ustr_def
      to_slashes_def path_drive_def has_drive_def dr_new_def join_dir_def of_char_def)+

theorem drive_manager_wf_witness:
  "dr_wf (dr_new\<lparr> dr_drives := (replicate 26 None)[2 := Some ()],
              dr_current_dirs := (replicate 26 [])[2 := ustr ''work''] \<rparr>)"
  using drive_manager_wf [OF demo_steps] by blast

text \<open>
  A file handle keeps naming the file it was issued for. After \<^verbatim>\<open>open_file\<close> returned \<open>h\<close>, any
  calls that do not close \<open>h\<close> leave it bound to the backend handle the open returned, on the drive
  the path resolved to; a write through \<open>h\<close> then is exactly the backend's write on that handle,
  and no other drive changes.
\<close>

theorem file_handle_routing:
  assumes "dr_wf dm" and "open_file V dm p m s f a = (Inr (h, act), dm1)"
    and "dm_steps V dm1 cs dm2" and "CloseFile h \<notin> set cs"
    and "unat (dr_next_file_handle dm) + opens cs + 1 < 2 ^ 32"
  shows "\<exists>d rel b v b1. resolve_path dm p = Inr (d, rel) \<and> dr_drives dm ! unat d = Some b \<and>
    be_open V b rel m s f a = (Inr (v, act), b1) \<and>
    (\<forall>b2 buf r b3. dr_drives dm2 ! unat d = Some b2 \<longrightarrow> be_write V b2 v buf = (r, b3) \<longrightarrow>
       write_file V dm2 h buf = (r, dm2\<lparr> dr_drives := (dr_drives dm2)[unat d := Some b3] \<rparr>))"
  using assms(2)
proof (cases rule: open_file_cases)
  case (opened d rel v act' dm0)
  have h: "h = dr_next_file_handle dm" "act' = act" using opened(3) by auto
  obtain b b1 where b: "dr_drives dm ! unat d = Some b" "be_open V b rel m s f a = (Inr (v, act), b1)"
    using opened(2) h(2) by (auto simp: on_drive_res_def on_drive_def split: option.splits prod.splits sum.splits)
  have sc: "same_control dm dm0" using opened(2) by (rule on_drive_res_control)
  have d1: "dr_file_handles dm1 h = Some \<lparr> fe_drive = d, fe_vfs_handle = v \<rparr>"
    "dr_next_file_handle dm1 = dr_next_file_handle dm + 1"
    using opened(4) sc h by (auto simp: file_add_def same_control_def)
  have n: "unat (dr_next_file_handle dm1) = Suc (unat (dr_next_file_handle dm))"
    using unat_Suc_u32 [of "dr_next_file_handle dm" 1] assms(5) d1(2) by simp
  have "dr_file_handles dm2 h = Some \<lparr> fe_drive = d, fe_vfs_handle = v \<rparr>"
    using dm_steps_file [OF assms(3,4) d1(1)] n h(1) assms(5) by simp
  then have "write_file V dm2 h buf = (r, dm2\<lparr> dr_drives := (dr_drives dm2)[unat d := Some b3] \<rparr>)"
    if "dr_drives dm2 ! unat d = Some b2" "be_write V b2 v buf = (r, b3)" for b2 buf r b3
    using that by (simp add: write_file_def on_file_def on_drive_res_def on_drive_def put_drive_def)
  then show ?thesis using opened(1) b by blast
qed simp

lemma demo_open_file:
  "open_file null_backend demo_dm (ustr ''a'') ReadWrite DenyNone (open_flags_from_raw 0x11) 0 =
    (Inr (3, Created), snd (open_file null_backend demo_dm (ustr ''a'') ReadWrite DenyNone (open_flags_from_raw 0x11) 0))"
  by (simp add: open_file_def check_device_name_def last_component_def is_sep_def ustr_def of_char_def
      to_ascii_uppercase_def uc_upper_def demo_dm_def dr_new_def resolve_path_def is_unc_def to_slashes_def
      path_drive_def has_drive_def on_drive_res_def on_drive_def null_backend_def file_add_def put_drive_def)

theorem file_handle_routing_witness:
  "\<exists>d rel b v b1. resolve_path demo_dm (ustr ''a'') = Inr (d, rel) \<and> dr_drives demo_dm ! unat d = Some b \<and>
    be_open null_backend b rel ReadWrite DenyNone (open_flags_from_raw 0x11) 0 = (Inr (v, Created), b1)"
proof -
  show ?thesis using file_handle_routing [OF demo_dm_wf demo_open_file dm_nil]
    by (fastforce simp: opens_def demo_dm_def dr_new_def)
qed

end
