(* ===== verification/Console.thy ===== *)
theory Console
  imports Codepage
begin

unbundle bit_operations_syntax

text \<open>
  The text console (\<^verbatim>\<open>VioManager\<close> of \<^verbatim>\<open>src/src/loader/console.rs\<close>): a row-major screen buffer
  of decoded characters with attributes, the raw guest bytes beside it, the cursor, and the
  ANSI escape sequences the terminal mode writes to standard output (here a field of the state,
  as Unicode scalar values). Rows, columns and cursor are \<^verbatim>\<open>u16\<close> and kept at that width;
  buffer indices are \<^verbatim>\<open>usize\<close>. An index outside a \<^verbatim>\<open>Vec\<close> panics: the cell that would be read or
  stored sets the latch \<open>vio_panicked\<close>, which is not a field of the code and which nothing resets, and
  the call that sets it does not return: the dispatcher of the video calls turns a set latch into a panic, and
  the other parts that print leave it in the state. The screen invariant excludes it. Integer
  arithmetic wraps, as it does in the release build; a debug build panics where it would wrap, in
  particular in \<^verbatim>\<open>bottom - lines + 1\<close> of \<^verbatim>\<open>scroll_up\<close> when as many lines are scrolled out as the screen has
  above and including \<^verbatim>\<open>bottom\<close>. A nested \<^verbatim>\<open>for row .. for c ..\<close> loop is a fold over the pairs in
  the order the loops visit them. The raw terminal mode (\<^verbatim>\<open>termios\<close>) and reading from standard
  input are not modelled.
\<close>

section \<open>The code table of the renderer\<close>

definition CP437_HIGH :: "nat list" where
  "CP437_HIGH = [
    0x00C7, 0x00FC, 0x00E9, 0x00E2, 0x00E4, 0x00E0, 0x00E5, 0x00E7,
    0x00EA, 0x00EB, 0x00E8, 0x00EF, 0x00EE, 0x00EC, 0x00C4, 0x00C5,
    0x00C9, 0x00E6, 0x00C6, 0x00F4, 0x00F6, 0x00F2, 0x00FB, 0x00F9,
    0x00FF, 0x00D6, 0x00DC, 0x00A2, 0x00A3, 0x00A5, 0x20A7, 0x0192,
    0x00E1, 0x00ED, 0x00F3, 0x00FA, 0x00F1, 0x00D1, 0x00AA, 0x00BA,
    0x00BF, 0x2310, 0x00AC, 0x00BD, 0x00BC, 0x00A1, 0x00AB, 0x00BB,
    0x2591, 0x2592, 0x2593, 0x2502, 0x2524, 0x2561, 0x2562, 0x2556,
    0x2555, 0x2563, 0x2551, 0x2557, 0x255D, 0x255C, 0x255B, 0x2510,
    0x2514, 0x2534, 0x252C, 0x251C, 0x2500, 0x253C, 0x255E, 0x255F,
    0x255A, 0x2554, 0x2569, 0x2566, 0x2560, 0x2550, 0x256C, 0x2567,
    0x2568, 0x2564, 0x2565, 0x2559, 0x2558, 0x2552, 0x2553, 0x256B,
    0x256A, 0x2518, 0x250C, 0x2588, 0x2584, 0x258C, 0x2590, 0x2580,
    0x03B1, 0x00DF, 0x0393, 0x03C0, 0x03A3, 0x03C3, 0x00B5, 0x03C4,
    0x03A6, 0x0398, 0x03A9, 0x03B4, 0x221E, 0x03C6, 0x03B5, 0x2229,
    0x2261, 0x00B1, 0x2265, 0x2264, 0x2320, 0x2321, 0x00F7, 0x2248,
    0x00B0, 0x2219, 0x00B7, 0x221A, 0x207F, 0x00B2, 0x25A0, 0x00A0]"

definition cp437_to_char :: "u8 \<Rightarrow> nat" where
  "cp437_to_char b = (if b < 0x80 then unat b else CP437_HIGH ! unat (b - 0x80))"

section \<open>State\<close>

type_synonym cell = "nat \<times> u8"

record vio_manager =
  vio_buffer :: "cell list"
  vio_raw :: "u8 list"
  vio_rows :: u16
  vio_cols :: u16
  vio_cursor_row :: u16
  vio_cursor_col :: u16
  vio_cursor_visible :: bool
  vio_cursor_start :: u8
  vio_cursor_end :: u8
  vio_ansi_mode :: bool
  vio_codepage :: u16
  vio_sdl2_mode :: bool
  vio_stdout :: ustring
  vio_panicked :: bool

text \<open>\<^verbatim>\<open>detect_terminal_size\<close>; the argument is what \<^verbatim>\<open>ioctl(TIOCGWINSZ)\<close> answered, if it succeeded.\<close>

definition detect_terminal_size :: "(u16 \<times> u16) option \<Rightarrow> u16 \<times> u16" where
  "detect_terminal_size ws =
    (case ws of Some (r, c) \<Rightarrow> if 0 < r \<and> 0 < c then (r, c) else (25, 80) | None \<Rightarrow> (25, 80))"

definition vio_new :: "(u16 \<times> u16) option \<Rightarrow> vio_manager" where
  "vio_new ws =
    (let (rows, cols) = detect_terminal_size ws;
         sz = unat rows * unat cols in
     \<lparr> vio_buffer = replicate sz (32, 0x07), vio_raw = replicate sz 32, vio_rows = rows,
       vio_cols = cols, vio_cursor_row = 0, vio_cursor_col = 0, vio_cursor_visible = True,
       vio_cursor_start = 14, vio_cursor_end = 15, vio_ansi_mode = True, vio_codepage = 437,
       vio_sdl2_mode = False, vio_stdout = [], vio_panicked = False \<rparr>)"

section \<open>Output\<close>

fun udec :: "nat \<Rightarrow> ustring" where
  "udec n = (if n < 10 then [48 + n] else udec (n div 10) @ [48 + n mod 10])"

declare udec.simps [simp del]

definition csi :: "ustring \<Rightarrow> ustring" where
  "csi s = [0x1B, 0x5B] @ s"

definition csi2 :: "u16 \<Rightarrow> u16 \<Rightarrow> string \<Rightarrow> ustring" where
  "csi2 a b fin = csi (udec (unat a) @ ustr '';'' @ udec (unat b) @ ustr fin)"

definition csi1 :: "u16 \<Rightarrow> string \<Rightarrow> ustring" where
  "csi1 a fin = csi (udec (unat a) @ ustr fin)"

definition emit :: "vio_manager \<Rightarrow> ustring \<Rightarrow> vio_manager" where
  "emit v s = (if vio_sdl2_mode v then v else v\<lparr> vio_stdout := vio_stdout v @ s \<rparr>)"

definition cursor_home :: "vio_manager \<Rightarrow> ustring" where
  "cursor_home v = csi2 (vio_cursor_row v + 1) (vio_cursor_col v + 1) ''H''"

definition CGA_TO_ANSI_FG :: "nat list" where
  "CGA_TO_ANSI_FG = [30, 34, 32, 36, 31, 35, 33, 37]"

definition CGA_TO_ANSI_BG :: "nat list" where
  "CGA_TO_ANSI_BG = [40, 44, 42, 46, 41, 45, 43, 47]"

definition write_ansi_attr :: "u8 \<Rightarrow> ustring" where
  "write_ansi_attr attr =
    (let fg = CGA_TO_ANSI_FG ! unat (attr AND 0x07);
         bg = CGA_TO_ANSI_BG ! unat (drop_bit 4 attr AND 0x07) in
     if attr AND 0x08 \<noteq> 0 then csi (udec fg @ ustr '';'' @ udec bg @ ustr '';1m'')
     else csi (udec fg @ ustr '';'' @ udec bg @ ustr ''m''))"

definition sgr_reset :: ustring where
  "sgr_reset = csi (ustr ''0m'')"

definition decode_vio_byte :: "encoding_rs \<Rightarrow> u8 \<Rightarrow> u32 \<Rightarrow> nat" where
  "decode_vio_byte rs b cp =
    (if b < 0x80 then unat b
     else case cp_decode rs [b] cp of ch # _ \<Rightarrow> ch | [] \<Rightarrow> unat b)"

section \<open>Cells\<close>

text \<open>Indexing a \<^verbatim>\<open>Vec\<close>; \<open>None\<close> is the panic.\<close>

definition vec_get :: "'a list \<Rightarrow> nat \<Rightarrow> 'a option" where
  "vec_get xs i = (if i < length xs then Some (xs ! i) else None)"

definition vec_set :: "'a list \<Rightarrow> nat \<Rightarrow> 'a \<Rightarrow> 'a list option" where
  "vec_set xs i x = (if i < length xs then Some (xs[i := x]) else None)"

definition vio_cells :: "vio_manager \<Rightarrow> (cell list \<times> u8 list) option \<Rightarrow> vio_manager" where
  "vio_cells v r =
    (case r of
       Some (buf, raw) \<Rightarrow> v\<lparr> vio_buffer := buf, vio_raw := raw \<rparr>
     | None \<Rightarrow> v\<lparr> vio_panicked := True \<rparr>)"

definition put_cell :: "cell \<Rightarrow> u8 \<Rightarrow> vio_manager \<Rightarrow> nat \<Rightarrow> vio_manager" where
  "put_cell cell raw v idx =
    (if idx < length (vio_buffer v)
     then vio_cells v (do { buf \<leftarrow> vec_set (vio_buffer v) idx cell; rb \<leftarrow> vec_set (vio_raw v) idx raw; Some (buf, rb) })
     else v)"

definition copy_cell :: "vio_manager \<Rightarrow> nat \<times> nat \<Rightarrow> vio_manager" where
  "copy_cell v p =
    (case p of (src, dst) \<Rightarrow>
       if src < length (vio_buffer v) \<and> dst < length (vio_buffer v)
       then vio_cells v
         (do { x \<leftarrow> vec_get (vio_buffer v) src; buf \<leftarrow> vec_set (vio_buffer v) dst x;
               y \<leftarrow> vec_get (vio_raw v) src; rb \<leftarrow> vec_set (vio_raw v) dst y; Some (buf, rb) })
       else v)"

definition fill_rows :: "vio_manager \<Rightarrow> nat list \<Rightarrow> cell \<Rightarrow> u8 \<Rightarrow> vio_manager" where
  "fill_rows v rows cell raw =
    foldl (put_cell cell raw) v
      (map (\<lambda>(row, c). row * unat (vio_cols v) + c) (List.product rows [0 ..< unat (vio_cols v)]))"

text \<open>Copy the cells of each row \<open>f r\<close> to row \<open>r\<close>, for the rows in the order given.\<close>

definition shift_rows :: "vio_manager \<Rightarrow> nat list \<Rightarrow> (nat \<Rightarrow> nat) \<Rightarrow> vio_manager" where
  "shift_rows v rows f =
    foldl copy_cell v
      (map (\<lambda>(row, c). (f row * unat (vio_cols v) + c, row * unat (vio_cols v) + c))
        (List.product rows [0 ..< unat (vio_cols v)]))"

section \<open>Operations\<close>

definition resize_copy ::
  "vio_manager \<Rightarrow> u16 \<Rightarrow> cell list \<times> u8 list \<Rightarrow> nat \<times> nat \<Rightarrow> (cell list \<times> u8 list) option" where
  "resize_copy v new_cols bufs p =
    (case bufs of (new_buf, new_raw) \<Rightarrow> case p of (r, c) \<Rightarrow>
       let src = r * unat (vio_cols v) + c; dst = r * unat new_cols + c in
       do { x \<leftarrow> vec_get (vio_buffer v) src; buf \<leftarrow> vec_set new_buf dst x;
            y \<leftarrow> vec_get (vio_raw v) src; rb \<leftarrow> vec_set new_raw dst y; Some (buf, rb) })"

definition resize :: "vio_manager \<Rightarrow> u16 \<Rightarrow> u16 \<Rightarrow> vio_manager" where
  "resize v new_rows new_cols =
    (if vio_rows v = new_rows \<and> vio_cols v = new_cols then v
     else
       let new_size = unat new_rows * unat new_cols;
           copy_rows = unat (min (vio_rows v) new_rows);
           copy_cols = unat (min (vio_cols v) new_cols) in
       case ofold (resize_copy v new_cols) (replicate new_size (32, 0x07), replicate new_size 32)
              (List.product [0 ..< copy_rows] [0 ..< copy_cols]) of
         None \<Rightarrow> v\<lparr> vio_panicked := True \<rparr>
       | Some (buf, raw) \<Rightarrow>
           v\<lparr> vio_rows := new_rows, vio_cols := new_cols, vio_buffer := buf, vio_raw := raw,
              vio_cursor_row := min (vio_cursor_row v) (if new_rows = 0 then 0 else new_rows - 1),
              vio_cursor_col := min (vio_cursor_col v) (if new_cols = 0 then 0 else new_cols - 1) \<rparr>)"

definition enable_sdl2_mode :: "vio_manager \<Rightarrow> vio_manager" where
  "enable_sdl2_mode v = resize (v\<lparr> vio_sdl2_mode := True \<rparr>) 25 80"

definition set_cursor_shape :: "vio_manager \<Rightarrow> u8 \<Rightarrow> u8 \<Rightarrow> vio_manager" where
  "set_cursor_shape v s e = v\<lparr> vio_cursor_start := s, vio_cursor_end := e \<rparr>"

definition scroll_up ::
  "vio_manager \<Rightarrow> u16 \<Rightarrow> u16 \<Rightarrow> u16 \<Rightarrow> cell \<Rightarrow> u8 \<Rightarrow> vio_manager" where
  "scroll_up v top_row bottom lines fill_cell fill_raw =
    (if bottom < top_row \<or> vio_rows v \<le> bottom then v
     else if lines = 0 then
       let v1 = fill_rows v [unat top_row ..< unat bottom + 1] fill_cell fill_raw in
       emit v1 (csi2 (top_row + 1) (bottom + 1) ''r'' @
         concat (replicate (unat (bottom - top_row + 1)) (csi1 1 ''S'')) @
         csi (ustr '';r'') @ cursor_home v1)
     else
       let ls = min lines (bottom - top_row + 1);
           v1 = shift_rows v [unat top_row ..< unat (bottom - ls + 1)] (\<lambda>row. row + unat ls);
           v2 = fill_rows v1 [unat (bottom - ls + 1) ..< unat bottom + 1] fill_cell fill_raw in
       emit v2 ((if top_row = 0 \<and> bottom = vio_rows v2 - 1
                 then concat (replicate (unat ls) (csi2 (bottom + 1) 1 ''H'' @ [10]))
                 else csi2 (top_row + 1) (bottom + 1) ''r'' @ csi1 ls ''S'' @ csi (ustr '';r''))
                @ cursor_home v2))"

definition scroll_down ::
  "vio_manager \<Rightarrow> u16 \<Rightarrow> u16 \<Rightarrow> u16 \<Rightarrow> cell \<Rightarrow> u8 \<Rightarrow> vio_manager" where
  "scroll_down v top_row bottom lines fill_cell fill_raw =
    (if bottom < top_row \<or> vio_rows v \<le> bottom then v
     else if lines = 0 then
       let v1 = fill_rows v [unat top_row ..< unat bottom + 1] fill_cell fill_raw in
       emit v1 (csi2 (top_row + 1) (bottom + 1) ''r'' @
         concat (replicate (unat (bottom - top_row + 1)) (csi1 1 ''T'')) @
         csi (ustr '';r'') @ cursor_home v1)
     else
       let ls = min lines (bottom - top_row + 1);
           v1 = shift_rows v (rev [unat (top_row + ls) ..< unat bottom + 1]) (\<lambda>row. row - unat ls);
           v2 = fill_rows v1 [unat top_row ..< unat (top_row + ls)] fill_cell fill_raw in
       emit v2 (csi2 (top_row + 1) (bottom + 1) ''r'' @ csi1 ls ''T'' @ csi (ustr '';r'') @
         cursor_home v2))"

definition set_cursor_pos :: "vio_manager \<Rightarrow> u16 \<Rightarrow> u16 \<Rightarrow> vio_manager" where
  "set_cursor_pos v row col =
    (let v1 = v\<lparr> vio_cursor_row := min row (vio_rows v - 1),
                 vio_cursor_col := min col (vio_cols v - 1) \<rparr> in
     emit v1 (cursor_home v1))"

definition set_cursor_type :: "vio_manager \<Rightarrow> bool \<Rightarrow> vio_manager" where
  "set_cursor_type v visible =
    emit (v\<lparr> vio_cursor_visible := visible \<rparr>)
      (csi (if visible then ustr ''?25h'' else ustr ''?25l''))"

text \<open>Step to the next row, scrolling the screen when the cursor leaves it (the inner branch
  \<^verbatim>\<open>write_tty\<close> shares between a line feed and a wrap at the right margin).\<close>

definition next_row :: "vio_manager \<Rightarrow> vio_manager" where
  "next_row v =
    (let v1 = v\<lparr> vio_cursor_row := vio_cursor_row v + 1, vio_cursor_col := 0 \<rparr> in
     if vio_rows v1 \<le> vio_cursor_row v1
     then (scroll_up v1 0 (vio_rows v1 - 1) 1 (32, 0x07) 32)\<lparr> vio_cursor_row := vio_rows v1 - 1 \<rparr>
     else v1)"

text \<open>Store a printable byte at the cursor and advance it.\<close>

definition tty_put :: "nat \<Rightarrow> u8 \<Rightarrow> vio_manager \<Rightarrow> u8 \<Rightarrow> vio_manager" where
  "tty_put decoded attr v ch =
    (let v1 = (if vio_cursor_row v < vio_rows v \<and> vio_cursor_col v < vio_cols v
               then put_cell (decoded, attr) ch v
                 (unat (vio_cursor_row v) * unat (vio_cols v) + unat (vio_cursor_col v))
               else v);
         v2 = v1\<lparr> vio_cursor_col := vio_cursor_col v1 + 1 \<rparr> in
     if vio_cols v2 \<le> vio_cursor_col v2 then next_row v2 else v2)"

definition tty_char ::
  "encoding_rs \<Rightarrow> u8 \<Rightarrow> u32 \<Rightarrow> vio_manager \<times> bool \<Rightarrow> u8 \<Rightarrow> vio_manager \<times> bool" where
  "tty_char rs attr cp st ch =
    (case st of (v, attr_applied) \<Rightarrow>
       if ch = 0x0A then
         (let v1 = next_row v in
          (emit (if attr_applied then emit v1 sgr_reset else v1) [0x0A],
           if vio_sdl2_mode v then attr_applied else False))
       else if ch = 0x0D then (emit (v\<lparr> vio_cursor_col := 0 \<rparr>) [0x0D], attr_applied)
       else if ch = 0x08 then
         (emit (if 0 < vio_cursor_col v then v\<lparr> vio_cursor_col := vio_cursor_col v - 1 \<rparr> else v) [0x08],
          attr_applied)
       else if ch = 0x07 then (emit v [0x07], attr_applied)
       else
         let decoded = decode_vio_byte rs ch cp;
             v3 = tty_put decoded attr v ch;
             v4 = (if attr_applied then v3 else emit v3 (write_ansi_attr attr)) in
         (emit v4 [decoded], if vio_sdl2_mode v then attr_applied else True))"

definition write_tty :: "encoding_rs \<Rightarrow> vio_manager \<Rightarrow> u8 list \<Rightarrow> u8 \<Rightarrow> u32 \<Rightarrow> vio_manager" where
  "write_tty rs v text attr cp =
    (case foldl (tty_char rs attr cp) (v, False) text of
       (v', attr_applied) \<Rightarrow> if attr_applied then emit v' sgr_reset else v')"

fun str_att_loop ::
  "encoding_rs \<Rightarrow> u16 \<Rightarrow> u8 \<Rightarrow> u32 \<Rightarrow> vio_manager \<Rightarrow> u16 \<Rightarrow> u8 list \<Rightarrow> vio_manager" where
  "str_att_loop rs row attr cp v c [] = v"
| "str_att_loop rs row attr cp v c (ch # text) =
    (if vio_cols v \<le> c then v
     else
       let decoded = decode_vio_byte rs ch cp;
           v1 = put_cell (decoded, attr) ch v (unat row * unat (vio_cols v) + unat c) in
       str_att_loop rs row attr cp (emit v1 [decoded]) (c + 1) text)"

definition at_pos :: "vio_manager \<Rightarrow> u16 \<Rightarrow> u16 \<Rightarrow> u8 \<Rightarrow> vio_manager" where
  "at_pos v row col attr = emit v (csi2 (row + 1) (col + 1) ''H'' @ write_ansi_attr attr)"

definition restore_pos :: "vio_manager \<Rightarrow> vio_manager" where
  "restore_pos v = emit v (sgr_reset @ cursor_home v)"

definition write_char_str_att ::
  "encoding_rs \<Rightarrow> vio_manager \<Rightarrow> u16 \<Rightarrow> u16 \<Rightarrow> u8 list \<Rightarrow> u8 \<Rightarrow> u32 \<Rightarrow> vio_manager" where
  "write_char_str_att rs v row col text attr cp =
    restore_pos (str_att_loop rs row attr cp (at_pos v row col attr) col text)"

fun n_cell_loop :: "u16 \<Rightarrow> u8 \<Rightarrow> cell \<Rightarrow> vio_manager \<Rightarrow> u16 \<Rightarrow> nat \<Rightarrow> vio_manager" where
  "n_cell_loop row raw_byte cell v c 0 = v"
| "n_cell_loop row raw_byte cell v c (Suc n) =
    (if vio_cols v \<le> c then v
     else
       let v1 = put_cell cell raw_byte v (unat row * unat (vio_cols v) + unat c) in
       n_cell_loop row raw_byte cell (emit v1 [fst cell]) (c + 1) n)"

definition write_n_cell :: "vio_manager \<Rightarrow> u16 \<Rightarrow> u16 \<Rightarrow> u8 \<Rightarrow> cell \<Rightarrow> u16 \<Rightarrow> vio_manager" where
  "write_n_cell v row col raw_byte cell count =
    restore_pos (n_cell_loop row raw_byte cell (at_pos v row col (snd cell)) col (unat count))"

fun n_attr_loop :: "u16 \<Rightarrow> u8 \<Rightarrow> vio_manager \<Rightarrow> u16 \<Rightarrow> nat \<Rightarrow> vio_manager" where
  "n_attr_loop row attr v c 0 = v"
| "n_attr_loop row attr v c (Suc n) =
    (if vio_cols v \<le> c then v
     else
       let idx = unat row * unat (vio_cols v) + unat c;
           v1 = (if idx < length (vio_buffer v) then
                   let ch = fst (vio_buffer v ! idx) in
                   emit (v\<lparr> vio_buffer := (vio_buffer v)[idx := (ch, attr)] \<rparr>) [ch]
                 else v) in
       n_attr_loop row attr v1 (c + 1) n)"

definition write_n_attr :: "vio_manager \<Rightarrow> u16 \<Rightarrow> u16 \<Rightarrow> u8 \<Rightarrow> u16 \<Rightarrow> vio_manager" where
  "write_n_attr v row col attr count =
    restore_pos (n_attr_loop row attr (at_pos v row col attr) col (unat count))"

fun read_cells :: "vio_manager \<Rightarrow> u16 \<Rightarrow> u16 \<Rightarrow> nat \<Rightarrow> cell list" where
  "read_cells v row c 0 = []"
| "read_cells v row c (Suc n) =
    (if vio_cols v \<le> c then []
     else
       let idx = unat row * unat (vio_cols v) + unat c in
       (if idx < length (vio_buffer v) then [vio_buffer v ! idx] else []) @
       read_cells v row (c + 1) n)"

definition read_cell_str :: "vio_manager \<Rightarrow> u16 \<Rightarrow> u16 \<Rightarrow> u16 \<Rightarrow> cell list" where
  "read_cell_str v row col max_len = read_cells v row col (unat (max_len div 2))"

section \<open>The screen as a grid\<close>

text \<open>The cell at a position: character with attribute, and the raw byte.\<close>

definition scr :: "vio_manager \<Rightarrow> nat \<Rightarrow> cell \<times> u8" where
  "scr v k = (vio_buffer v ! k, vio_raw v ! k)"

definition screen :: "vio_manager \<Rightarrow> nat \<Rightarrow> nat \<Rightarrow> cell \<times> u8" where
  "screen v r c = scr v (r * unat (vio_cols v) + c)"

definition vio_inv :: "vio_manager \<Rightarrow> bool" where
  "vio_inv v \<longleftrightarrow> 0 < vio_rows v \<and> 0 < vio_cols v \<and>
     length (vio_buffer v) = unat (vio_rows v) * unat (vio_cols v) \<and>
     length (vio_raw v) = length (vio_buffer v) \<and>
     vio_cursor_row v < vio_rows v \<and> vio_cursor_col v < vio_cols v \<and> \<not> vio_panicked v"

text \<open>What the cell-level operations leave alone; while the two buffers have one length, none of them panics.\<close>

definition same_frame :: "vio_manager \<Rightarrow> vio_manager \<Rightarrow> bool" where
  "same_frame v v' \<longleftrightarrow> vio_rows v' = vio_rows v \<and> vio_cols v' = vio_cols v \<and>
     vio_cursor_row v' = vio_cursor_row v \<and> vio_cursor_col v' = vio_cursor_col v \<and>
     vio_sdl2_mode v' = vio_sdl2_mode v \<and>
     length (vio_buffer v') = length (vio_buffer v) \<and> length (vio_raw v') = length (vio_raw v) \<and>
     (length (vio_raw v) = length (vio_buffer v) \<longrightarrow> vio_panicked v' = vio_panicked v)"

lemma same_frame_refl [simp, intro]: "same_frame v v"
  by (simp add: same_frame_def)

lemma same_frame_trans: "same_frame u v \<Longrightarrow> same_frame v w \<Longrightarrow> same_frame u w"
  by (simp add: same_frame_def)

lemma same_frame_inv: "same_frame v v' \<Longrightarrow> vio_inv v \<Longrightarrow> vio_inv v'"
  by (simp add: same_frame_def vio_inv_def)

lemma emit_frame [simp]: "same_frame v (emit v s)"
  by (simp add: same_frame_def emit_def)

lemma emit_fields [simp]:
  "vio_rows (emit v s) = vio_rows v" "vio_cols (emit v s) = vio_cols v"
  "vio_cursor_row (emit v s) = vio_cursor_row v" "vio_cursor_col (emit v s) = vio_cursor_col v"
  "vio_buffer (emit v s) = vio_buffer v" "vio_raw (emit v s) = vio_raw v" "scr (emit v s) = scr v"
  "vio_panicked (emit v s) = vio_panicked v"
  "vio_inv (emit v s) = vio_inv v" "vio_sdl2_mode (emit v s) = vio_sdl2_mode v"
  by (auto simp: emit_def scr_def fun_eq_iff vio_inv_def)

lemma screen_emit [simp]: "screen (emit v s) = screen v"
  by (simp add: screen_def fun_eq_iff)

lemmas vec_defs = vec_get_def vec_set_def

lemma put_cell_frame [simp]: "same_frame v (put_cell cell raw v i)"
  by (simp add: same_frame_def put_cell_def vio_cells_def vec_defs)

lemma copy_cell_frame [simp]: "same_frame v (copy_cell v p)"
  by (simp add: same_frame_def copy_cell_def vio_cells_def vec_defs split: prod.split)

lemma foldl_frame:
  assumes "\<And>v x. same_frame v (f v x)"
  shows "same_frame v (foldl f v xs)"
proof (induction xs arbitrary: v)
  case (Cons x xs)
  show ?case using same_frame_trans [OF assms Cons.IH] by simp
qed simp

lemma fill_rows_frame [simp]: "same_frame v (fill_rows v rows cell raw)"
  by (simp add: fill_rows_def foldl_frame)

lemma shift_rows_frame [simp]: "same_frame v (shift_rows v rows f)"
  by (simp add: shift_rows_def foldl_frame)

lemma scr_put:
  assumes "length (vio_raw v) = length (vio_buffer v)" "i < length (vio_buffer v)"
  shows "scr (put_cell cell raw v i) k = (if k = i then (cell, raw) else scr v k)"
  using assms by (simp add: scr_def put_cell_def vio_cells_def vec_defs)

lemma scr_copy:
  assumes "length (vio_raw v) = length (vio_buffer v)" "i < length (vio_buffer v)"
    "j < length (vio_buffer v)"
  shows "scr (copy_cell v (i, j)) k = (if k = j then scr v i else scr v k)"
  using assms by (simp add: scr_def copy_cell_def vio_cells_def vec_defs)

lemma scr_fill:
  assumes "length (vio_raw v) = length (vio_buffer v)" "\<forall>i\<in>set is. i < length (vio_buffer v)"
  shows "scr (foldl (put_cell cell raw) v is) k = (if k \<in> set is then (cell, raw) else scr v k)"
  using assms
proof (induction "is" arbitrary: v)
  case (Cons i "is")
  have "same_frame v (put_cell cell raw v i)" by simp
  with Cons.prems have "scr (foldl (put_cell cell raw) (put_cell cell raw v i) is) k =
      (if k \<in> set is then (cell, raw) else scr (put_cell cell raw v i) k)"
    by (intro Cons.IH) (auto simp: same_frame_def)
  then show ?case using scr_put [of v i cell raw k] Cons.prems by auto
qed simp

text \<open>
  Copying cells one after the other is a simultaneous move when no cell is read after it was
  overwritten.
\<close>

lemma scr_copies:
  assumes "length (vio_raw v) = length (vio_buffer v)"
    and "\<forall>p\<in>set ps. fst p < length (vio_buffer v) \<and> snd p < length (vio_buffer v)"
    and "sorted_wrt (\<lambda>p q. fst q \<noteq> snd p \<and> snd q \<noteq> snd p) ps"
  shows "((i, k) \<in> set ps \<longrightarrow> scr (foldl copy_cell v ps) k = scr v i) \<and>
    (k \<notin> snd ` set ps \<longrightarrow> scr (foldl copy_cell v ps) k = scr v k)"
  using assms
proof (induction ps arbitrary: v)
  case (Cons p ps)
  obtain a b where p: "p = (a, b)" by fastforce
  let ?v1 = "copy_cell v p"
  have fr: "same_frame v ?v1" by simp
  have IH: "((i, k) \<in> set ps \<longrightarrow> scr (foldl copy_cell ?v1 ps) k = scr ?v1 i) \<and>
      (k \<notin> snd ` set ps \<longrightarrow> scr (foldl copy_cell ?v1 ps) k = scr ?v1 k)"
    using Cons.prems fr by (intro Cons.IH) (auto simp: same_frame_def)
  have one: "scr ?v1 x = (if x = b then scr v a else scr v x)" for x
    using Cons.prems p by (simp add: scr_copy)
  have "b \<notin> snd ` set ps" "(i, k) \<in> set ps \<Longrightarrow> i \<noteq> b" using Cons.prems(3) p by auto
  with IH one p show ?case by auto
qed simp

lemma sorted_wrt_product:
  assumes "sorted_wrt R xs" "sorted_wrt S ys"
  shows "sorted_wrt (\<lambda>(a, b) (a', b'). R a a' \<or> a = a' \<and> S b b') (List.product xs ys)"
  using assms(1)
proof (induction xs)
  case (Cons x xs)
  have "sorted_wrt (\<lambda>(a, b) (a', b'). R a a' \<or> a = a' \<and> S b b') (map (Pair x) ys)"
    using assms(2) by (auto simp: sorted_wrt_map elim: sorted_wrt_mono_rel [rotated])
  then show ?case using Cons by (auto simp: sorted_wrt_append)
qed simp

lemma grid_inj: "r * n + c = r' * n + c' \<Longrightarrow> c < n \<Longrightarrow> c' < n \<Longrightarrow> r = r' \<and> c = (c' :: nat)"
proof -
  assume e: "r * n + c = r' * n + c'" and c: "c < n" "c' < n"
  have "r = (r * n + c) div n" "r' = (r' * n + c') div n" using c by auto
  with e have "r = r'" by simp
  with e show ?thesis by simp
qed

lemma grid_less: "r' * n + c' = r * n + c \<Longrightarrow> c < c' \<Longrightarrow> c' < n \<Longrightarrow> (False :: bool)" for n :: nat
  using grid_inj [of r' n c' r c] by simp

lemma grid_bound: "r < m \<Longrightarrow> c < n \<Longrightarrow> r * n + c < m * (n :: nat)"
proof -
  assume r: "r < m" and c: "c < n"
  have "r * n + c < (r + 1) * n" using c by simp
  also have "\<dots> \<le> m * n" using r by (intro mult_le_mono1) simp
  finally show ?thesis .
qed

lemma screen_fill:
  assumes "vio_inv v" "\<forall>r\<in>set rows. r < unat (vio_rows v)" "r < unat (vio_rows v)"
    "c < unat (vio_cols v)"
  shows "screen (fill_rows v rows cell raw) r c = (if r \<in> set rows then (cell, raw) else screen v r c)"
proof -
  let ?n = "unat (vio_cols v)"
  let ?is = "map (\<lambda>(row, c). row * ?n + c) (List.product rows [0 ..< ?n])"
  have "\<forall>i\<in>set ?is. i < length (vio_buffer v)"
    using assms(1,2) by (auto simp: vio_inv_def intro: grid_bound)
  then have "scr (fill_rows v rows cell raw) k = (if k \<in> set ?is then (cell, raw) else scr v k)" for k
    using assms(1) unfolding fill_rows_def by (intro scr_fill) (auto simp: vio_inv_def)
  moreover have "r * ?n + c \<in> set ?is \<longleftrightarrow> r \<in> set rows"
    using assms(4) by (auto dest: grid_inj)
  moreover have "vio_cols (fill_rows v rows cell raw) = vio_cols v"
    using fill_rows_frame [of v rows cell raw] by (simp add: same_frame_def)
  ultimately show ?thesis by (simp add: screen_def)
qed

lemma screen_shift:
  assumes "vio_inv v" "\<forall>r\<in>set rows. r < unat (vio_rows v) \<and> f r < unat (vio_rows v)"
    and "sorted_wrt (\<lambda>r r'. f r' \<noteq> r \<and> r' \<noteq> r) rows"
    and "r < unat (vio_rows v)" "c < unat (vio_cols v)"
  shows "screen (shift_rows v rows f) r c = screen v (if r \<in> set rows then f r else r) c"
proof -
  let ?n = "unat (vio_cols v)"
  let ?g = "\<lambda>(row, c). (f row * ?n + c, row * ?n + c)"
  let ?ps = "map ?g (List.product rows [0 ..< ?n])"
  have "sorted_wrt (\<lambda>(a, b) (a', b'). (f a' \<noteq> a \<and> a' \<noteq> a) \<or> a = a' \<and> b < b')
      (List.product rows [0 ..< ?n])"
    using sorted_wrt_product [OF assms(3), of "(<)" "[0 ..< ?n]"] by (simp add: sorted_wrt_upt)
  then have "sorted_wrt (\<lambda>p q. fst (?g q) \<noteq> snd (?g p) \<and> snd (?g q) \<noteq> snd (?g p))
      (List.product rows [0 ..< ?n])"
    by (rule sorted_wrt_mono_rel [rotated]) (auto dest: grid_inj grid_less)
  then have st: "sorted_wrt (\<lambda>p q. fst q \<noteq> snd p \<and> snd q \<noteq> snd p) ?ps"
    by (simp add: sorted_wrt_map)
  have b: "\<forall>p\<in>set ?ps. fst p < length (vio_buffer v) \<and> snd p < length (vio_buffer v)"
    using assms(1,2) by (auto simp: vio_inv_def intro: grid_bound)
  have "((f r * ?n + c, r * ?n + c) \<in> set ?ps \<longrightarrow>
        scr (shift_rows v rows f) (r * ?n + c) = scr v (f r * ?n + c)) \<and>
      (r * ?n + c \<notin> snd ` set ?ps \<longrightarrow> scr (shift_rows v rows f) (r * ?n + c) = scr v (r * ?n + c))"
    unfolding shift_rows_def using assms(1) b st by (intro scr_copies) (auto simp: vio_inv_def)
  moreover have "(f r * ?n + c, r * ?n + c) \<in> set ?ps" if "r \<in> set rows"
    using assms(5) that by auto
  moreover have "r * ?n + c \<notin> snd ` set ?ps" if "r \<notin> set rows"
    using assms(5) that by (auto dest: grid_inj)
  moreover have "vio_cols (shift_rows v rows f) = vio_cols v"
    using shift_rows_frame [of v rows f] by (simp add: same_frame_def)
  ultimately show ?thesis by (simp add: screen_def)
qed

section \<open>Scrolling\<close>

lemma unat_u16_plus1: "(x :: u16) < y \<Longrightarrow> unat (x + 1) = unat x + 1"
proof -
  assume "x < y"
  then have "unat x < unat y" by (simp add: word_less_nat_alt)
  then have "unat x + 1 < 65536" using unat_u16_lt [of y] by linarith
  then show ?thesis by (simp add: unat_word_ariths)
qed

text \<open>The row arithmetic of the scroll loops does not wrap on valid regions.\<close>

lemma scroll_rows:
  fixes t b rows lines :: u16
  assumes "t \<le> b" "b < rows"
  defines "ls \<equiv> min lines (b - t + 1)"
  shows "unat ls = min (unat lines) (unat b - unat t + 1)"
    and "unat (b - ls + 1) = unat b + 1 - unat ls" and "unat (t + ls) = unat t + unat ls"
proof -
  have b1: "unat (b + 1) = unat b + 1" by (rule unat_u16_plus1 [OF assms(2)])
  have tb: "unat t \<le> unat b" using assms(1) by (simp add: word_le_nat_alt)
  have d: "unat (b - t) = unat b - unat t" using assms(1) by (rule unat_sub)
  have "unat b < unat rows" using assms(2) by (simp add: word_less_nat_alt)
  then have bl: "unat b < 65535" using unat_u16_lt [of rows] by linarith
  have "unat (b - t + 1) = unat b - unat t + 1" using d bl by (simp add: unat_word_ariths)
  then show ls: "unat ls = min (unat lines) (unat b - unat t + 1)"
    by (simp add: ls_def min_def word_le_nat_alt)
  have "b - ls + 1 = (b + 1) - ls" by simp
  moreover have "ls \<le> b + 1" using ls b1 by (simp add: word_le_nat_alt)
  ultimately show "unat (b - ls + 1) = unat b + 1 - unat ls" using b1 by (metis unat_sub)
  have "unat t + unat ls < 65536" using ls tb bl by simp
  then show "unat (t + ls) = unat t + unat ls" by (simp add: unat_word_ariths)
qed

lemma scroll_up_frame: "same_frame v (scroll_up v t b lines cell raw)"
proof -
  have "same_frame v (fill_rows (shift_rows v r1 f) r2 cell raw)" for r1 r2 f
    by (rule same_frame_trans [OF shift_rows_frame fill_rows_frame])
  then show ?thesis
    by (auto simp: scroll_up_def Let_def intro: same_frame_trans [OF _ emit_frame])
qed

lemma scroll_down_frame: "same_frame v (scroll_down v t b lines cell raw)"
proof -
  have "same_frame v (fill_rows (shift_rows v r1 f) r2 cell raw)" for r1 r2 f
    by (rule same_frame_trans [OF shift_rows_frame fill_rows_frame])
  then show ?thesis
    by (auto simp: scroll_down_def Let_def intro: same_frame_trans [OF _ emit_frame])
qed

lemma screen_shift_fill:
  assumes inv: "vio_inv v" and rc: "r < unat (vio_rows v)" "c < unat (vio_cols v)"
    and "\<forall>r\<in>set rows. r < unat (vio_rows v) \<and> f r < unat (vio_rows v)"
    and "sorted_wrt (\<lambda>r r'. f r' \<noteq> r \<and> r' \<noteq> r) rows"
    and "\<forall>r\<in>set rows'. r < unat (vio_rows v)"
  shows "screen (fill_rows (shift_rows v rows f) rows' cell raw) r c =
    (if r \<in> set rows' then (cell, raw) else screen v (if r \<in> set rows then f r else r) c)"
proof -
  have fr: "same_frame v (shift_rows v rows f)" by simp
  have "screen (fill_rows (shift_rows v rows f) rows' cell raw) r c =
      (if r \<in> set rows' then (cell, raw) else screen (shift_rows v rows f) r c)"
    using assms fr same_frame_inv [OF fr inv] by (intro screen_fill) (auto simp: same_frame_def)
  then show ?thesis using screen_shift [OF inv assms(4,5) rc] by simp
qed

definition scroll_count :: "u16 \<Rightarrow> u16 \<Rightarrow> u16 \<Rightarrow> nat" where
  "scroll_count t b lines =
    (if lines = 0 then unat b - unat t + 1 else min (unat lines) (unat b - unat t + 1))"

lemma scroll_up_screen:
  assumes inv: "vio_inv v" and tb: "t \<le> b" "b < vio_rows v"
    and rc: "r < unat (vio_rows v)" "c < unat (vio_cols v)"
  shows "screen (scroll_up v t b lines cell raw) r c =
    (if r < unat t \<or> unat b < r then screen v r c
     else if r + scroll_count t b lines \<le> unat b then screen v (r + scroll_count t b lines) c
     else (cell, raw))"
proof (cases "lines = 0")
  case True
  have n: "\<not> b < t" "\<not> vio_rows v \<le> b" using tb by auto
  have bl: "unat b < unat (vio_rows v)" using tb(2) by (simp add: word_less_nat_alt)
  have "screen (fill_rows v [unat t ..< unat b + 1] cell raw) r c =
      (if r \<in> set [unat t ..< unat b + 1] then (cell, raw) else screen v r c)"
    by (rule screen_fill [OF inv _ rc]) (use bl in auto)
  then show ?thesis using True n
    by (auto simp: scroll_up_def Let_def scroll_count_def)
next
  case False
  have n: "\<not> b < t" "\<not> vio_rows v \<le> b" using tb by auto
  have bl: "unat b < unat (vio_rows v)" using tb(2) by (simp add: word_less_nat_alt)
  have tb': "unat t \<le> unat b" using tb(1) by (simp add: word_le_nat_alt)
  let ?ls = "min lines (b - t + 1)"
  have L: "unat ?ls = scroll_count t b lines" and E: "unat (b - ?ls + 1) = unat b + 1 - unat ?ls"
    using scroll_rows [OF tb, of lines] False by (simp_all add: scroll_count_def)
  have "unat lines \<noteq> 0" using False by (simp add: unat_eq_0)
  then have pos: "0 < scroll_count t b lines" "scroll_count t b lines \<le> unat b - unat t + 1"
    by (auto simp: scroll_count_def)
  let ?f = "\<lambda>row. row + unat ?ls"
  let ?r1 = "[unat t ..< unat (b - ?ls + 1)]" and ?r2 = "[unat (b - ?ls + 1) ..< unat b + 1]"
  have "screen (fill_rows (shift_rows v ?r1 ?f) ?r2 cell raw) r c =
      (if r \<in> set ?r2 then (cell, raw) else screen v (if r \<in> set ?r1 then ?f r else r) c)"
  proof (rule screen_shift_fill [OF inv rc])
    show "\<forall>r\<in>set ?r1. r < unat (vio_rows v) \<and> ?f r < unat (vio_rows v)"
      using bl E by auto
    show "sorted_wrt (\<lambda>r r'. ?f r' \<noteq> r \<and> r' \<noteq> r) ?r1"
      by (rule sorted_wrt_mono_rel [OF _ sorted_wrt_upt]) auto
    show "\<forall>r\<in>set ?r2. r < unat (vio_rows v)" using bl by auto
  qed
  moreover have "screen (scroll_up v t b lines cell raw) r c =
      screen (fill_rows (shift_rows v ?r1 ?f) ?r2 cell raw) r c"
    using n False by (simp add: scroll_up_def Let_def)
  ultimately show ?thesis using E L pos tb' by auto
qed

lemma scroll_down_screen:
  assumes inv: "vio_inv v" and tb: "t \<le> b" "b < vio_rows v"
    and rc: "r < unat (vio_rows v)" "c < unat (vio_cols v)"
  shows "screen (scroll_down v t b lines cell raw) r c =
    (if r < unat t \<or> unat b < r then screen v r c
     else if unat t + scroll_count t b lines \<le> r then screen v (r - scroll_count t b lines) c
     else (cell, raw))"
proof (cases "lines = 0")
  case True
  have n: "\<not> b < t" "\<not> vio_rows v \<le> b" using tb by auto
  have bl: "unat b < unat (vio_rows v)" using tb(2) by (simp add: word_less_nat_alt)
  have "screen (fill_rows v [unat t ..< unat b + 1] cell raw) r c =
      (if r \<in> set [unat t ..< unat b + 1] then (cell, raw) else screen v r c)"
    by (rule screen_fill [OF inv _ rc]) (use bl in auto)
  then show ?thesis using True n
    by (auto simp: scroll_down_def Let_def scroll_count_def)
next
  case False
  have n: "\<not> b < t" "\<not> vio_rows v \<le> b" using tb by auto
  have bl: "unat b < unat (vio_rows v)" using tb(2) by (simp add: word_less_nat_alt)
  have tb': "unat t \<le> unat b" using tb(1) by (simp add: word_le_nat_alt)
  let ?ls = "min lines (b - t + 1)"
  have L: "unat ?ls = scroll_count t b lines" and E: "unat (t + ?ls) = unat t + unat ?ls"
    using scroll_rows [OF tb, of lines] False by (simp_all add: scroll_count_def)
  have "unat lines \<noteq> 0" using False by (simp add: unat_eq_0)
  then have pos: "0 < scroll_count t b lines" "scroll_count t b lines \<le> unat b - unat t + 1"
    by (auto simp: scroll_count_def)
  let ?f = "\<lambda>row. row - unat ?ls"
  let ?r1 = "rev [unat (t + ?ls) ..< unat b + 1]" and ?r2 = "[unat t ..< unat (t + ?ls)]"
  have "screen (fill_rows (shift_rows v ?r1 ?f) ?r2 cell raw) r c =
      (if r \<in> set ?r2 then (cell, raw) else screen v (if r \<in> set ?r1 then ?f r else r) c)"
  proof (rule screen_shift_fill [OF inv rc])
    show "\<forall>r\<in>set ?r1. r < unat (vio_rows v) \<and> ?f r < unat (vio_rows v)"
      using bl by auto
    have "sorted_wrt (\<lambda>r r'. ?f r \<noteq> r' \<and> r \<noteq> r') [unat (t + ?ls) ..< unat b + 1]"
      by (rule sorted_wrt_mono_rel [OF _ sorted_wrt_upt]) auto
    then show "sorted_wrt (\<lambda>r r'. ?f r' \<noteq> r \<and> r' \<noteq> r) ?r1"
      by (simp only: sorted_wrt_rev)
    show "\<forall>r\<in>set ?r2. r < unat (vio_rows v)" using bl E L pos tb' by auto
  qed
  moreover have "screen (scroll_down v t b lines cell raw) r c =
      screen (fill_rows (shift_rows v ?r1 ?f) ?r2 cell raw) r c"
    using n False by (simp add: scroll_down_def Let_def)
  ultimately show ?thesis using E L pos tb' by auto
qed

section \<open>The invariant\<close>

lemma word_pred_less: "0 < (n :: u16) \<Longrightarrow> min x (n - 1) < n"
proof -
  assume n: "0 < n"
  then have "unat (n - 1) = unat n - 1" by (intro unat_minus_one) auto
  moreover have "0 < unat n" using n by (simp add: unat_gt_0)
  ultimately have "n - 1 < n" by (simp add: word_less_nat_alt)
  then show ?thesis by (rule min.strict_coboundedI2)
qed

text \<open>The invariant up to the cursor column, which \<^verbatim>\<open>write_tty\<close> lets run to the right margin.\<close>

definition vio_grid :: "vio_manager \<Rightarrow> bool" where
  "vio_grid v \<longleftrightarrow> 0 < vio_rows v \<and> 0 < vio_cols v \<and>
     length (vio_buffer v) = unat (vio_rows v) * unat (vio_cols v) \<and>
     length (vio_raw v) = length (vio_buffer v) \<and> vio_cursor_row v < vio_rows v \<and> \<not> vio_panicked v"

lemma vio_inv_grid: "vio_inv v \<longleftrightarrow> vio_grid v \<and> vio_cursor_col v < vio_cols v"
  by (auto simp: vio_inv_def vio_grid_def)

lemma vio_new_inv: "vio_inv (vio_new ws)"
  by (auto simp: vio_inv_def vio_new_def Let_def detect_terminal_size_def split: option.splits prod.splits)

lemma next_row_inv: "vio_grid v \<Longrightarrow> vio_inv (next_row v)"
  using scroll_up_frame [of "v\<lparr>vio_cursor_row := vio_cursor_row v + 1, vio_cursor_col := 0\<rparr>" 0
      "vio_rows v - 1" 1 "(32, 7)" 32] word_pred_less [of "vio_rows v" "vio_rows v - 1"]
  by (auto simp: next_row_def Let_def vio_grid_def vio_inv_def same_frame_def)

lemma tty_put_inv: "vio_inv v \<Longrightarrow> vio_inv (tty_put decoded attr v ch)"
proof -
  assume inv: "vio_inv v"
  let ?v1 = "if vio_cursor_row v < vio_rows v \<and> vio_cursor_col v < vio_cols v
    then put_cell (decoded, attr) ch v
      (unat (vio_cursor_row v) * unat (vio_cols v) + unat (vio_cursor_col v)) else v"
  let ?v2 = "?v1\<lparr> vio_cursor_col := vio_cursor_col ?v1 + 1 \<rparr>"
  have "same_frame v ?v1" by simp
  then have "vio_inv ?v1" using inv by (rule same_frame_inv)
  then have g2: "vio_grid ?v2" by (simp only: vio_inv_grid vio_grid_def) simp
  then have "vio_inv (if vio_cols ?v2 \<le> vio_cursor_col ?v2 then next_row ?v2 else ?v2)"
    using next_row_inv [OF g2] by (simp only: vio_inv_grid not_le if_split) blast
  then show ?thesis by (simp only: tty_put_def Let_def)
qed

lemma tty_char_inv:
  assumes inv: "vio_inv v"
  shows "vio_inv (fst (tty_char rs attr cp (v, a) ch))"
proof -
  have nr: "vio_inv (next_row v)" using inv by (intro next_row_inv) (simp add: vio_inv_grid)
  have cr: "vio_inv (v\<lparr>vio_cursor_col := 0\<rparr>)" using inv by (simp add: vio_inv_def)
  have bs: "vio_inv (v\<lparr>vio_cursor_col := vio_cursor_col v - 1\<rparr>)" if "0 < vio_cursor_col v"
  proof -
    have "vio_cursor_col v - 1 < vio_cursor_col v"
      using word_pred_less [OF that, of "vio_cursor_col v - 1"] by simp
    then show ?thesis using inv by (auto simp: vio_inv_def)
  qed
  show ?thesis using nr cr bs inv tty_put_inv [OF inv] by (simp add: tty_char_def Let_def)
qed

lemma write_tty_inv: "vio_inv v \<Longrightarrow> vio_inv (write_tty rs v str attr cp)"
proof -
  assume "vio_inv v"
  then have "vio_inv (fst (foldl (tty_char rs attr cp) (v, a) str))" for a
  proof (induction str arbitrary: v a)
    case (Cons ch str)
    then show ?case
      using tty_char_inv [OF Cons.prems, of rs attr cp a ch]
      by (cases "tty_char rs attr cp (v, a) ch") simp
  qed simp
  then show ?thesis by (simp add: write_tty_def split: prod.split) (metis fst_conv)
qed

lemma str_att_frame: "same_frame v (str_att_loop rs row attr cp v c str)"
proof (induction str arbitrary: v c)
  case (Cons ch str)
  show ?case
    using same_frame_trans [OF same_frame_trans [OF put_cell_frame emit_frame] Cons.IH]
    by (simp add: Let_def)
qed simp

lemma n_cell_frame: "same_frame v (n_cell_loop row raw cell v c n)"
proof (induction n arbitrary: v c)
  case (Suc n)
  show ?case
    using same_frame_trans [OF same_frame_trans [OF put_cell_frame emit_frame] Suc.IH]
    by (simp add: Let_def)
qed simp

lemma n_attr_frame: "same_frame v (n_attr_loop row attr v c n)"
proof (induction n arbitrary: v c)
  case (Suc n)
  let ?idx = "unat row * unat (vio_cols v) + unat c"
  let ?w = "\<lambda>ch. v\<lparr> vio_buffer := (vio_buffer v)[?idx := (ch, attr)] \<rparr>"
  have "same_frame v (emit (?w ch) s)" for ch s
    by (rule same_frame_trans [of _ "?w ch"]) (simp_all add: same_frame_def)
  then show ?case using same_frame_trans [OF _ Suc.IH] by (auto simp: Let_def)
qed simp

lemma positioned_frame: "same_frame (at_pos v row col attr) w \<Longrightarrow> same_frame v (restore_pos w)"
  unfolding at_pos_def restore_pos_def by (blast intro: same_frame_trans emit_frame)

text \<open>The copies of a resize stay inside both pairs of buffers.\<close>

lemma resize_copies:
  assumes "length (vio_buffer v) = unat (vio_rows v) * unat (vio_cols v)" "length (vio_raw v) = length (vio_buffer v)"
  shows "\<exists>buf raw. ofold (resize_copy v cols) (replicate (unat rows * unat cols) (32, 7), replicate (unat rows * unat cols) 32)
      (List.product [0 ..< unat (min (vio_rows v) rows)] [0 ..< unat (min (vio_cols v) cols)]) = Some (buf, raw) \<and>
    length buf = unat rows * unat cols \<and> length raw = unat rows * unat cols"
proof -
  let ?P = "\<lambda>(buf, raw). length buf = unat rows * unat cols \<and> length raw = unat rows * unat cols"
  have step: "\<exists>bufs'. resize_copy v cols bufs p = Some bufs' \<and> ?P bufs'"
    if "p \<in> set (List.product [0 ..< unat (min (vio_rows v) rows)] [0 ..< unat (min (vio_cols v) cols)])" "?P bufs" for p bufs
  proof -
    obtain r c where p: "p = (r, c)" by fastforce
    have rc: "r < unat (vio_rows v)" "r < unat rows" "c < unat (vio_cols v)" "c < unat cols"
      using that(1) p by (auto simp: min_def word_le_nat_alt split: if_splits)
    have "r * unat (vio_cols v) + c < length (vio_buffer v)" "r * unat cols + c < unat rows * unat cols"
      unfolding assms(1) using rc by (auto intro: grid_bound)
    then show ?thesis using that(2) p assms(2)
      by (cases bufs) (simp add: resize_copy_def Let_def vec_defs)
  qed
  from ofold_total [of _ ?P "resize_copy v cols", OF step] show ?thesis by fastforce
qed

lemma resize_dims:
  assumes "vio_inv v"
  shows "vio_rows (resize v r c) = r \<and> vio_cols (resize v r c) = c \<and> length (vio_buffer (resize v r c)) = unat r * unat c \<and>
    length (vio_raw (resize v r c)) = unat r * unat c \<and> \<not> vio_panicked (resize v r c)"
  using assms resize_copies [of v c r] by (auto simp: resize_def Let_def vio_inv_def)

lemma resize_inv:
  assumes "vio_inv v" "0 < r" "0 < c"
  shows "vio_inv (resize v r c)"
proof -
  have "vio_cursor_row (resize v r c) < r \<and> vio_cursor_col (resize v r c) < c"
    using assms resize_copies [of v c r] word_pred_less [OF assms(2)] word_pred_less [OF assms(3)]
    by (auto simp: resize_def Let_def vio_inv_def)
  then show ?thesis using resize_dims [OF assms(1), of r c] assms(2,3) by (simp add: vio_inv_def)
qed

section \<open>Sequences of console calls\<close>

datatype vio_op =
    OpResize u16 u16
  | OpSdl2
  | OpTty "u8 list" u8 u32
  | OpCharStrAtt u16 u16 "u8 list" u8 u32
  | OpNCell u16 u16 u8 cell u16
  | OpNAttr u16 u16 u8 u16
  | OpScrollUp u16 u16 u16 cell u8
  | OpScrollDown u16 u16 u16 cell u8
  | OpCursorPos u16 u16
  | OpCursorType bool
  | OpCursorShape u8 u8

fun vio_step :: "encoding_rs \<Rightarrow> vio_manager \<Rightarrow> vio_op \<Rightarrow> vio_manager" where
  "vio_step rs v (OpResize r c) = resize v r c"
| "vio_step rs v OpSdl2 = enable_sdl2_mode v"
| "vio_step rs v (OpTty s attr cp) = write_tty rs v s attr cp"
| "vio_step rs v (OpCharStrAtt row col s attr cp) = write_char_str_att rs v row col s attr cp"
| "vio_step rs v (OpNCell row col raw cell n) = write_n_cell v row col raw cell n"
| "vio_step rs v (OpNAttr row col attr n) = write_n_attr v row col attr n"
| "vio_step rs v (OpScrollUp t b n cell raw) = scroll_up v t b n cell raw"
| "vio_step rs v (OpScrollDown t b n cell raw) = scroll_down v t b n cell raw"
| "vio_step rs v (OpCursorPos r c) = set_cursor_pos v r c"
| "vio_step rs v (OpCursorType b) = set_cursor_type v b"
| "vio_step rs v (OpCursorShape a b) = set_cursor_shape v a b"

text \<open>\<^verbatim>\<open>VioSetMode\<close> rejects a mode without rows or columns before it resizes.\<close>

fun vio_op_ok :: "vio_op \<Rightarrow> bool" where
  "vio_op_ok (OpResize r c) \<longleftrightarrow> 0 < r \<and> 0 < c"
| "vio_op_ok _ \<longleftrightarrow> True"

inductive vio_reachable :: "encoding_rs \<Rightarrow> vio_manager \<Rightarrow> bool" for rs where
  vio_init: "vio_reachable rs (vio_new ws)"
| vio_next: "vio_reachable rs v \<Longrightarrow> vio_op_ok opn \<Longrightarrow> vio_reachable rs (vio_step rs v opn)"

lemma vio_step_inv: "vio_inv v \<Longrightarrow> vio_op_ok opn \<Longrightarrow> vio_inv (vio_step rs v opn)"
proof (cases opn)
  case OpSdl2
  moreover assume "vio_inv v"
  then have "vio_inv (v\<lparr> vio_sdl2_mode := True \<rparr>)" by (simp add: vio_inv_def)
  ultimately show ?thesis by (simp add: enable_sdl2_mode_def resize_inv)
next
  case (OpCursorPos r c)
  moreover assume "vio_inv v"
  ultimately show ?thesis by (simp add: set_cursor_pos_def Let_def vio_inv_def word_pred_less)
qed (auto simp: resize_inv write_tty_inv write_char_str_att_def write_n_cell_def write_n_attr_def
    set_cursor_type_def set_cursor_shape_def vio_inv_def [of "_\<lparr>vio_cursor_visible := _\<rparr>"]
    vio_inv_def [of "_\<lparr>vio_cursor_start := _, vio_cursor_end := _\<rparr>"]
    vio_inv_def [of v] intro: same_frame_inv [OF scroll_up_frame] same_frame_inv [OF scroll_down_frame]
    same_frame_inv [OF positioned_frame [OF str_att_frame]]
    same_frame_inv [OF positioned_frame [OF n_cell_frame]]
    same_frame_inv [OF positioned_frame [OF n_attr_frame]])

section \<open>Properties\<close>

text \<open>
  Over any sequence of console calls from start-up the screen stays a full grid: buffer and
  raw bytes have exactly rows times columns cells, there is at least one row and one column, and
  the cursor is inside the grid, and no call has indexed outside the buffers.
\<close>

theorem vio_screen_invariant:
  "vio_reachable rs v \<Longrightarrow> 0 < vio_rows v \<and> 0 < vio_cols v \<and>
     length (vio_buffer v) = unat (vio_rows v) * unat (vio_cols v) \<and>
     length (vio_raw v) = length (vio_buffer v) \<and>
     vio_cursor_row v < vio_rows v \<and> vio_cursor_col v < vio_cols v \<and> \<not> vio_panicked v"
proof -
  assume "vio_reachable rs v"
  then have "vio_inv v" by induction (auto intro: vio_new_inv vio_step_inv)
  then show ?thesis by (simp add: vio_inv_def)
qed

theorem vio_screen_invariant_witness:
  "\<exists>v. vio_reachable latin1_rs v \<and> vio_rows v = 3 \<and> length (vio_buffer v) = 12"
proof -
  let ?v = "vio_step latin1_rs (vio_new None) (OpResize 3 4)"
  have r: "vio_reachable latin1_rs ?v" by (intro vio_reachable.intros) simp
  have "vio_rows ?v = 3" "vio_cols ?v = 4" using resize_dims [OF vio_new_inv, of None 3 4] by simp_all
  with vio_screen_invariant [OF r] r show ?thesis by (intro exI [of _ ?v]) simp
qed

text \<open>
  Scrolling a region moves its rows by the requested number, at most the height of the
  region (0 lines clears it), fills the vacated rows with the fill cell, and changes no cell
  outside the region: the in-place copies never read a row they have already overwritten.
\<close>

theorem vio_scroll_spec:
  fixes lines :: u16
  assumes "vio_inv v" "t \<le> b" "b < vio_rows v" "r < unat (vio_rows v)" "c < unat (vio_cols v)"
  defines "n \<equiv> if lines = 0 then unat b - unat t + 1 else min (unat lines) (unat b - unat t + 1)"
  shows "vio_inv (scroll_up v t b lines cell raw) \<and> vio_inv (scroll_down v t b lines cell raw) \<and>
    screen (scroll_up v t b lines cell raw) r c =
      (if r < unat t \<or> unat b < r then screen v r c
       else if r + n \<le> unat b then screen v (r + n) c else (cell, raw)) \<and>
    screen (scroll_down v t b lines cell raw) r c =
      (if r < unat t \<or> unat b < r then screen v r c
       else if unat t + n \<le> r then screen v (r - n) c else (cell, raw))"
  using scroll_up_screen [OF assms(1-5)] scroll_down_screen [OF assms(1-5)]
    same_frame_inv [OF scroll_up_frame assms(1)] same_frame_inv [OF scroll_down_frame assms(1)]
  unfolding n_def scroll_count_def by blast

text \<open>One line up on a fresh screen, in a cell of the last row.\<close>

theorem vio_scroll_spec_witness:
  "screen (scroll_up (vio_new None) 0 24 1 (65, 0x1F) 65) 24 79 = ((65, 0x1F), 65)"
  using vio_scroll_spec [OF vio_new_inv, of 0 24 None 24 79 1 "(65, 0x1F)" 65]
  by (simp add: vio_new_def detect_terminal_size_def)

end
