(* ===== verification/UTF8.thy ===== *)
theory UTF8
  imports Byte_Reader
begin

unbundle bit_operations_syntax

text \<open>
  The bytes of a Rust string (\<^verbatim>\<open>str::as_bytes\<close>, \<^verbatim>\<open>str::len\<close>): UTF-8, the inverse of the lossy decoder
  on every sequence of Unicode scalar values.
\<close>

definition utf8_char :: "nat \<Rightarrow> u8 list" where
  "utf8_char c =
    (if c < 0x80 then [of_nat c]
     else if c < 0x800 then [of_nat (0xC0 + c div 64), of_nat (0x80 + c mod 64)]
     else if c < 0x10000 then
       [of_nat (0xE0 + c div 4096), of_nat (0x80 + c div 64 mod 64), of_nat (0x80 + c mod 64)]
     else [of_nat (0xF0 + c div 262144), of_nat (0x80 + c div 4096 mod 64),
           of_nat (0x80 + c div 64 mod 64), of_nat (0x80 + c mod 64)])"

definition as_bytes :: "ustring \<Rightarrow> u8 list" where
  "as_bytes s = concat (map utf8_char s)"

definition is_scalar :: "nat \<Rightarrow> bool" where
  "is_scalar c \<longleftrightarrow> c < 0xD800 \<or> 0xDFFF < c \<and> c < 0x110000"

lemma cont_check: "list_all (\<lambda>k. is_cont (of_nat (0x80 + k))) [0..<64]"
  by code_simp

lemma unat_of_nat_u8: "n < 256 \<Longrightarrow> unat (of_nat n :: u8) = n"
  by (simp add: unat_of_nat take_bit_nat_eq_self)

lemma is_cont_of_nat [simp]: "k < 64 \<Longrightarrow> is_cont (of_nat (0x80 + k))"
  using cont_check by (auto simp: list_all_iff)

lemma lead_bits:
  fixes x :: nat
  shows "x < 64 \<Longrightarrow> (128 + x) mod 64 = x" "x < 32 \<Longrightarrow> (192 + x) mod 32 = x"
    "x < 16 \<Longrightarrow> (224 + x) mod 16 = x" "x < 8 \<Longrightarrow> (240 + x) mod 8 = x"
  using mod_mult_self4 [of 64 2 x] mod_mult_self4 [of 32 6 x] mod_mult_self4 [of 16 14 x] mod_mult_self4 [of 8 30 x]
  by simp_all

lemma cbits_of_nat [simp]: "k < 64 \<Longrightarrow> cbits (of_nat (0x80 + k)) = k"
  using unat_of_nat_u8 [of "0x80 + k"] by (simp add: cbits_def lead_bits del: of_nat_add)

lemma u8_of_nat_le_iff: "n < 256 \<Longrightarrow> m < 256 \<Longrightarrow> (of_nat n :: u8) \<le> of_nat m \<longleftrightarrow> n \<le> m"
  by (simp add: word_le_nat_alt unat_of_nat_u8)

lemma decode_char: "is_scalar c \<Longrightarrow> from_utf8_lossy (utf8_char c @ r) = c # from_utf8_lossy r"
proof -
  assume sc: "is_scalar c"
  have num: "(of_nat n :: u8) < 0x80 \<longleftrightarrow> n < 0x80"
    "0xC2 \<le> (of_nat n :: u8) \<longleftrightarrow> 0xC2 \<le> n" "(of_nat n :: u8) \<le> 0xDF \<longleftrightarrow> n \<le> 0xDF"
    "0xE0 \<le> (of_nat n :: u8) \<longleftrightarrow> 0xE0 \<le> n" "(of_nat n :: u8) \<le> 0xEF \<longleftrightarrow> n \<le> 0xEF"
    "0xF0 \<le> (of_nat n :: u8) \<longleftrightarrow> 0xF0 \<le> n" "(of_nat n :: u8) \<le> 0xF4 \<longleftrightarrow> n \<le> 0xF4"
    if "n < 256" for n
    using unat_of_nat_u8 [OF that] by (simp_all add: word_le_nat_alt word_less_nat_alt)
  consider "c < 0x80" | "0x80 \<le> c" "c < 0x800" | "0x800 \<le> c" "c < 0x10000" | "0x10000 \<le> c" "c < 0x110000"
    using sc unfolding is_scalar_def by linarith
  then show ?thesis
  proof cases
    case 1
    then show ?thesis by (simp add: utf8_char_def num unat_of_nat_u8 lead_bits del: of_nat_add)
  next
    case 2
    have "2 \<le> c div 64" "c div 64 < 32" using 2 by auto
    then show ?thesis using 2 by (simp add: utf8_char_def num unat_of_nat_u8 lead_bits del: of_nat_add)
  next
    case 3
    let ?a = "c div 4096" and ?b = "c div 64 mod 64"
    have a: "?a < 16" using 3 by auto
    have a': "?a = c div 64 div 64" using div_mult2_eq [of c 64 64] by simp
    then have c: "?a * 4096 + ?b * 64 + c mod 64 = c"
      using div_mult_mod_eq [of "c div 64" 64] div_mult_mod_eq [of c 64] by linarith
    have "?a = 0 \<Longrightarrow> 32 \<le> ?b" using 3 a' by auto
    moreover have "?b < 32" if "?a = 13"
    proof -
      have "c < 55296" using that sc by (auto simp: is_scalar_def)
      then have "c div 64 < 864" by auto
      then show ?thesis using that a' div_mult_mod_eq [of "c div 64" 64] by linarith
    qed
    ultimately have s: "second3 (of_nat (0xE0 + ?a)) (of_nat (0x80 + ?b))"
      using a by (cases "?a = 13"; cases "?a = 0") (auto simp: second3_def word_le_nat_alt word_unat_eq_iff unat_of_nat_u8 simp del: of_nat_add)
    show ?thesis using 3 a s c by (simp add: utf8_char_def num unat_of_nat_u8 lead_bits del: of_nat_add)
  next
    case 4
    let ?a = "c div 262144" and ?b = "c div 4096 mod 64" and ?c = "c div 64 mod 64"
    have a: "?a < 5" using 4 by auto
    have a': "?a = c div 4096 div 64" "c div 4096 = c div 64 div 64"
      using div_mult2_eq [of c 4096 64] div_mult2_eq [of c 64 64] by simp_all
    then have c: "?a * 262144 + ?b * 4096 + ?c * 64 + c mod 64 = c"
      using div_mult_mod_eq [of "c div 4096" 64] div_mult_mod_eq [of "c div 64" 64] div_mult_mod_eq [of c 64]
      by linarith
    have "c div 4096 < 272" "16 \<le> c div 4096" using 4 by auto
    then have "?a = 0 \<Longrightarrow> 16 \<le> ?b" "?a = 4 \<Longrightarrow> ?b < 16"
      using a'(1) div_mult_mod_eq [of "c div 4096" 64] by linarith+
    then have s: "second4 (of_nat (0xF0 + ?a)) (of_nat (0x80 + ?b))"
      using a by (cases "?a = 4"; cases "?a = 0") (auto simp: second4_def word_le_nat_alt word_unat_eq_iff unat_of_nat_u8 simp del: of_nat_add)
    show ?thesis using 4 a s c by (simp add: utf8_char_def num unat_of_nat_u8 lead_bits del: of_nat_add)
  qed
qed

lemma from_utf8_lossy_as_bytes: "list_all is_scalar s \<Longrightarrow> from_utf8_lossy (as_bytes s) = s"
  by (induction s) (auto simp: as_bytes_def decode_char)

end
