(* ===== verification/Nls.thy ===== *)
theory Nls
  imports Guest_Memory UTF8
begin

unbundle bit_operations_syntax

text \<open>
  National language support: the country settings derived from the host locale and the double-byte
  tables (\<^verbatim>\<open>src/src/loader/locale.rs\<close>), the classification of screen cells
  (\<^verbatim>\<open>annotate_dbcs\<close> of \<^verbatim>\<open>src/src/gui/text_renderer.rs\<close>) and the codepage, country and case-mapping
  calls (\<^verbatim>\<open>src/src/loader/stubs.rs\<close>, \<^verbatim>\<open>src/src/loader/doscalls.rs\<close>). Environment variables and the
  C library's \<^verbatim>\<open>lconv\<close> are parameters, as are the external encoders and \<^verbatim>\<open>char::to_uppercase\<close>.
\<close>

section \<open>Host locale\<close>

record os2_locale =
  loc_country :: u32
  loc_codepage :: u32
  loc_date_fmt :: u32
  loc_currency :: "u8 list"
  loc_thousands_sep :: u8
  loc_decimal_sep :: u8
  loc_date_sep :: u8
  loc_time_sep :: u8
  loc_currency_fmt :: u8
  loc_decimal_places :: u8
  loc_time_fmt :: u8
  loc_data_sep :: u8

record host_lconv =
  lc_decimal_sep :: u8
  lc_thousands_sep :: u8
  lc_currency_symbol :: ustring
  lc_currency_fmt :: u8
  lc_decimal_places :: u8

text \<open>The fields of the C structure that are read; a string pointer may be null.\<close>

record c_lconv =
  c_decimal_point :: "u8 list option"
  c_thousands_sep :: "u8 list option"
  c_currency_symbol :: "u8 list option"
  c_p_cs_precedes :: u8
  c_p_sep_by_space :: u8
  c_frac_digits :: u8

definition read_char :: "u8 list option \<Rightarrow> u8" where
  "read_char p = (case p of Some (b # _) \<Rightarrow> b | _ \<Rightarrow> 0)"

definition read_lconv :: "c_lconv option \<Rightarrow> host_lconv" where
  "read_lconv lc =
    (case lc of
       None \<Rightarrow> \<lparr> lc_decimal_sep = 0, lc_thousands_sep = 0, lc_currency_symbol = [], lc_currency_fmt = 0,
                 lc_decimal_places = 0 \<rparr>
     | Some c \<Rightarrow>
         \<lparr> lc_decimal_sep = (let d = read_char (c_decimal_point c) in if d = 0 then 0x2E else d),
           lc_thousands_sep = (let t = read_char (c_thousands_sep c) in if t = 0 then 0x2C else t),
           lc_currency_symbol = (case c_currency_symbol c of Some s \<Rightarrow> from_utf8_lossy s | None \<Rightarrow> []),
           lc_currency_fmt =
             (if c_p_cs_precedes c = 1 \<and> c_p_sep_by_space c = 0 then 0
              else if c_p_cs_precedes c = 0 \<and> c_p_sep_by_space c = 0 then 1
              else if c_p_cs_precedes c = 1 then 2
              else if c_p_cs_precedes c = 0 then 3
              else 0),
           lc_decimal_places = (if c_frac_digits c = 255 then 2 else c_frac_digits c) \<rparr>)"

definition map_country :: "ustring \<Rightarrow> ustring \<Rightarrow> u32 \<times> u32" where
  "map_country lang territory = (1, 437)"

definition map_date_format :: "ustring \<Rightarrow> ustring \<Rightarrow> u32" where
  "map_date_format lang territory =
    (if lang = ustr ''en'' \<and> (territory = ustr ''US'' \<or> territory = []) then 0
     else if lang \<in> set [ustr ''ja'', ustr ''ko'', ustr ''zh'', ustr ''hu'', ustr ''sv'', ustr ''fi''] then 2
     else 1)"

definition map_time_format :: "ustring \<Rightarrow> ustring \<Rightarrow> u8" where
  "map_time_format lang territory =
    (if lang = ustr ''en'' \<and> (territory = ustr ''US'' \<or> territory = ustr ''AU'' \<or> territory = []) then 0 else 1)"

definition map_date_separator :: "ustring \<Rightarrow> ustring \<Rightarrow> u8" where
  "map_date_separator lang territory =
    (if lang \<in> set [ustr ''de'', ustr ''nl'', ustr ''fr'', ustr ''it'', ustr ''es'', ustr ''pt'', ustr ''ru'',
         ustr ''uk'', ustr ''pl'', ustr ''cs'', ustr ''sk'', ustr ''hu'', ustr ''tr'', ustr ''el'', ustr ''da'',
         ustr ''no'', ustr ''nb'', ustr ''nn'', ustr ''sv'', ustr ''fi'']
       \<or> lang = ustr ''en'' \<and> (territory = ustr ''GB'' \<or> territory = ustr ''AU'') then 0x2E
     else if lang \<in> set [ustr ''ja'', ustr ''ko'', ustr ''zh''] then 0x2F
     else 0x2D)"

definition map_time_separator :: "ustring \<Rightarrow> ustring \<Rightarrow> u8" where
  "map_time_separator lang territory = (if lang = ustr ''fi'' then 0x2E else 0x3A)"

definition currency_fallback :: "ustring \<Rightarrow> ustring \<Rightarrow> u8 list" where
  "currency_fallback lang territory =
    (if lang = ustr ''en'' \<and> territory \<in> set [ustr ''US'', ustr ''AU'', ustr ''CA'', []] then as_bytes (ustr ''$'')
     else if lang = ustr ''en'' \<and> territory \<in> set [ustr ''GB'', ustr ''UK''] then [0x9C]
     else if lang = ustr ''ja'' then [0x9D]
     else if lang \<in> set [ustr ''de'', ustr ''fr'', ustr ''it'', ustr ''es'', ustr ''pt'', ustr ''nl'', ustr ''fi'',
         ustr ''el''] then as_bytes (ustr ''EUR'')
     else if lang \<in> set [ustr ''da'', ustr ''no'', ustr ''nb'', ustr ''nn'', ustr ''sv''] then as_bytes (ustr ''kr'')
     else if lang = ustr ''pl'' then as_bytes (ustr ''zl'')
     else if lang \<in> set [ustr ''cs'', ustr ''sk''] then as_bytes (ustr ''Kc'')
     else if lang = ustr ''hu'' then as_bytes (ustr ''Ft'')
     else if lang \<in> set [ustr ''ru'', ustr ''uk''] then as_bytes (ustr ''RUB'')
     else if lang = ustr ''ko'' then as_bytes (ustr ''W'')
     else if lang = ustr ''zh'' \<and> territory = ustr ''TW'' then as_bytes (ustr ''NT$'')
     else if lang = ustr ''zh'' then as_bytes (ustr ''Y'')
     else if lang = ustr ''tr'' then as_bytes (ustr ''TL'')
     else if lang = ustr ''th'' then as_bytes (ustr ''B'')
     else as_bytes (ustr ''$''))"

text \<open>The five bytes of the currency field: the symbol, then zeros.\<close>

definition currency_field :: "u8 list \<Rightarrow> u8 list" where
  "currency_field s = take 4 s @ replicate (5 - min 4 (length s)) 0"

definition map_currency :: "ustring \<Rightarrow> ustring \<Rightarrow> host_lconv \<Rightarrow> u8 list" where
  "map_currency lang territory lconv =
    (let s = lc_currency_symbol lconv in
     if s \<noteq> [] \<and> is_ascii s \<and> length (as_bytes s) \<le> 4 then currency_field (as_bytes s)
     else currency_field (currency_fallback lang territory))"

definition first_set :: "(ustring \<Rightarrow> ustring option) \<Rightarrow> ustring" where
  "first_set env =
    (case env (ustr ''LC_ALL'') of Some v \<Rightarrow> v | None \<Rightarrow>
      (case env (ustr ''LC_CTYPE'') of Some v \<Rightarrow> v | None \<Rightarrow>
        (case env (ustr ''LANG'') of Some v \<Rightarrow> v | None \<Rightarrow> [])))"

definition locale_parts :: "ustring \<Rightarrow> ustring \<times> ustring" where
  "locale_parts lang =
    (let locale_part = takeWhile (\<lambda>c. c \<noteq> 46) lang in
     (takeWhile (\<lambda>c. c \<noteq> 95) locale_part, drop 1 (dropWhile (\<lambda>c. c \<noteq> 95) locale_part)))"

definition from_host :: "(ustring \<Rightarrow> ustring option) \<Rightarrow> c_lconv option \<Rightarrow> os2_locale" where
  "from_host env lc =
    (case locale_parts (first_set env) of (language, territory) \<Rightarrow>
      let lconv = read_lconv lc in
      \<lparr> loc_country = fst (map_country language territory), loc_codepage = snd (map_country language territory),
        loc_date_fmt = map_date_format language territory,
        loc_currency = map_currency language territory lconv,
        loc_thousands_sep = lc_thousands_sep lconv, loc_decimal_sep = lc_decimal_sep lconv,
        loc_date_sep = map_date_separator language territory, loc_time_sep = map_time_separator language territory,
        loc_currency_fmt = lc_currency_fmt lconv, loc_decimal_places = lc_decimal_places lconv,
        loc_time_fmt = map_time_format language territory,
        loc_data_sep = (if language = ustr ''de'' \<or> language = ustr ''nl'' then 0x3B else 0x2C) \<rparr>)"

section \<open>Double-byte characters\<close>

definition dbcs_lead_ranges :: "u32 \<Rightarrow> (u8 \<times> u8) list" where
  "dbcs_lead_ranges cp =
    (if cp = 932 then [(0x81, 0x9F), (0xE0, 0xFC)]
     else if cp = 936 \<or> cp = 949 \<or> cp = 950 then [(0x81, 0xFE)]
     else [])"

definition is_dbcs_lead_byte :: "u8 \<Rightarrow> u32 \<Rightarrow> bool" where
  "is_dbcs_lead_byte b cp \<longleftrightarrow> list_ex (\<lambda>(lo, hi). lo \<le> b \<and> b \<le> hi) (dbcs_lead_ranges cp)"

datatype cell_kind = Sbcs | DbcsLead | DbcsTail

function annotate_loop :: "u8 list \<Rightarrow> u32 \<Rightarrow> nat \<Rightarrow> nat \<Rightarrow> cell_kind list \<Rightarrow> cell_kind list" where
  "annotate_loop raw cp cols i kinds =
    (if i < length raw then
       (if is_dbcs_lead_byte (raw ! i) cp \<and> i mod cols + 1 < cols \<and> i + 1 < length raw
        then annotate_loop raw cp cols (i + 2) (kinds[i := DbcsLead, i + 1 := DbcsTail])
        else annotate_loop raw cp cols (i + 1) kinds)
     else kinds)"
  by pat_completeness auto
termination by (relation "measure (\<lambda>(raw, cp, cols, i, kinds). length raw - i)") auto

declare annotate_loop.simps [simp del]

definition annotate_dbcs :: "u8 list \<Rightarrow> u32 \<Rightarrow> u16 \<Rightarrow> cell_kind list" where
  "annotate_dbcs raw cp cols =
    (let kinds = replicate (length raw) Sbcs in
     if dbcs_lead_ranges cp = [] \<or> cols = 0 then kinds
     else annotate_loop raw cp (unat cols) 0 kinds)"

section \<open>The calls\<close>

definition dos_query_cp :: "u32 \<Rightarrow> guest_memory \<Rightarrow> u32 \<Rightarrow> u32 \<Rightarrow> u32 \<Rightarrow> u32 \<times> guest_memory" where
  "dos_query_cp cp g cb p_cp_list pcb =
    (let g1 = (if p_cp_list \<noteq> 0 \<and> 4 \<le> cb then guest_write_ign g p_cp_list cp else g) in
     (0, if pcb \<noteq> 0 then guest_write_ign g1 pcb (4 :: u32) else g1))"

definition SUPPORTED_CODEPAGES :: "u32 list" where
  "SUPPORTED_CODEPAGES = [437, 850, 852, 932, 949, 950, 1250, 1251, 1252, 1253, 1254, 1255, 1256, 1257, 1258]"

text \<open>The error and the new active codepage.\<close>

definition dos_set_process_cp :: "u32 \<Rightarrow> u32 \<Rightarrow> u32 \<times> u32" where
  "dos_set_process_cp active cp = (if cp \<notin> set SUPPORTED_CODEPAGES then (470, active) else (0, cp))"

definition info_fields :: "os2_locale \<Rightarrow> (nat \<times> nat \<times> u8 list) list" where
  "info_fields loc =
    [(4, 0, le_bytes 4 (loc_country loc)), (8, 4, le_bytes 4 (loc_codepage loc)),
     (12, 8, le_bytes 4 (loc_date_fmt loc)), (17, 12, loc_currency loc),
     (19, 17, [loc_thousands_sep loc, 0]), (21, 19, [loc_decimal_sep loc, 0]),
     (23, 21, [loc_date_sep loc, 0]), (25, 23, [loc_time_sep loc, 0]),
     (26, 25, [loc_currency_fmt loc]), (27, 26, [loc_decimal_places loc]), (28, 27, [loc_time_fmt loc]),
     (34, 32, [loc_data_sep loc, 0])]"

definition write_field :: "u32 \<Rightarrow> u32 \<Rightarrow> guest_memory \<Rightarrow> nat \<times> nat \<times> u8 list \<Rightarrow> guest_memory" where
  "write_field p write_size g fld =
    (case fld of (need, off, bs) \<Rightarrow>
      if need \<le> unat write_size then guest_write_bytes_ign g (p + of_nat off) bs else g)"

definition dos_query_ctry_info ::
  "os2_locale \<Rightarrow> guest_memory \<Rightarrow> u32 \<Rightarrow> u32 \<Rightarrow> u32 \<Rightarrow> u32 \<times> guest_memory" where
  "dos_query_ctry_info loc g cb p_ctry_info pcb_actual =
    (let info_size = 44; write_size = min cb info_size;
         g1 = (if p_ctry_info \<noteq> 0 \<and> 0 < write_size then
                 foldl (write_field p_ctry_info write_size)
                   (foldl (\<lambda>g i. guest_write_ign g (p_ctry_info + of_nat i) (0 :: u8)) g [0..<unat write_size])
                   (info_fields loc)
               else g) in
     (0, if pcb_actual \<noteq> 0 then guest_write_ign g1 pcb_actual info_size else g1))"

text \<open>The bytes of a double-byte character in upper case, when it has a one-to-one mapping of two bytes.\<close>

definition upper_pair :: "encoding_rs \<Rightarrow> (nat \<Rightarrow> nat list) \<Rightarrow> u32 \<Rightarrow> nat \<Rightarrow> (u8 \<times> u8) option" where
  "upper_pair rs to_upper cp ch =
    (if ch = 0xFFFD then None
     else
       let up = (case to_upper ch of u # _ \<Rightarrow> u | [] \<Rightarrow> ch); is_single = length (to_upper ch) \<le> 1 in
       if is_single \<and> up \<noteq> ch then
         (case cp_to_encoding cp of
            Some enc \<Rightarrow> (case enc_encode rs enc [up] of [a, b] \<Rightarrow> Some (a, b) | _ \<Rightarrow> None)
          | None \<Rightarrow> None)
       else None)"

function map_case_loop ::
  "encoding_rs \<Rightarrow> (nat \<Rightarrow> nat list) \<Rightarrow> u32 \<Rightarrow> u32 \<Rightarrow> nat \<Rightarrow> guest_memory \<Rightarrow> nat \<Rightarrow> guest_memory" where
  "map_case_loop rs to_upper cp p cb g i =
    (if i < cb then
       (case gm_read g (p + of_nat i) of
          None \<Rightarrow> g
        | Some b \<Rightarrow>
            (case (if is_dbcs_lead_byte b cp \<and> i + 1 < cb then gm_read g (p + of_nat i + 1) else None) of
               Some trail \<Rightarrow>
                 let g1 = (case upper_pair rs to_upper cp (decode_dbcs rs b trail cp) of
                     Some (x, y) \<Rightarrow> guest_write_ign (guest_write_ign g (p + of_nat i) x) (p + of_nat i + 1) y
                   | None \<Rightarrow> g) in
                 map_case_loop rs to_upper cp p cb g1 (i + 2)
             | None \<Rightarrow>
                 let up = cp_map_case_upper rs to_upper b cp;
                     g1 = (if up \<noteq> b then guest_write_ign g (p + of_nat i) up else g) in
                 map_case_loop rs to_upper cp p cb g1 (i + 1)))
     else g)"
  by pat_completeness auto
termination by (relation "measure (\<lambda>(rs, to_upper, cp, p, cb, g, i). cb - i)") auto

declare map_case_loop.simps [simp del]

definition map_case_guest_buf ::
  "encoding_rs \<Rightarrow> (nat \<Rightarrow> nat list) \<Rightarrow> guest_memory \<Rightarrow> u32 \<Rightarrow> u32 \<Rightarrow> u32 \<Rightarrow> guest_memory" where
  "map_case_guest_buf rs to_upper g p_str cb cp = map_case_loop rs to_upper cp p_str (unat cb) g 0"

definition dos_map_case ::
  "encoding_rs \<Rightarrow> (nat \<Rightarrow> nat list) \<Rightarrow> u32 \<Rightarrow> guest_memory \<Rightarrow> u32 \<Rightarrow> u32 \<Rightarrow> u32 \<times> guest_memory" where
  "dos_map_case rs to_upper cp g cb p_str =
    (0, if p_str \<noteq> 0 then map_case_guest_buf rs to_upper g p_str cb cp else g)"

definition dos_query_dbcs_env :: "u32 \<Rightarrow> guest_memory \<Rightarrow> u32 \<Rightarrow> u32 \<Rightarrow> u32 \<times> guest_memory" where
  "dos_query_dbcs_env cp g cb pbuf =
    (if pbuf = 0 then (0, g)
     else
       let ranges = dbcs_lead_ranges cp; needed = (of_nat (length ranges) + 1) * 2 in
       if cb < needed then (113, g)
       else (0, guest_write_bytes_ign g pbuf (concat (map (\<lambda>(a, b). [a, b]) ranges) @ [0, 0])))"

text \<open>
  In the C locale of an x86 host \<^verbatim>\<open>frac_digits\<close> is 127 (\<^verbatim>\<open>CHAR_MAX\<close> of a signed \<^verbatim>\<open>char\<close>); the test for
  255 does not recognise it, and the country information reports 127 decimal places.
\<close>

lemma lconv_unset_digits:
  "c_frac_digits c = 127 \<Longrightarrow> loc_decimal_places (from_host env (Some c)) = 127"
  by (simp add: from_host_def read_lconv_def Let_def split: prod.split)

text \<open>Codepage 936 has double-byte tables and an encoding, but a process cannot select it.\<close>

lemma set_process_cp_rejects_936:
  "dos_set_process_cp active 936 = (470, active) \<and> dbcs_lead_ranges 936 \<noteq> [] \<and> cp_to_encoding 936 \<noteq> None"
  by (simp add: dos_set_process_cp_def SUPPORTED_CODEPAGES_def dbcs_lead_ranges_def cp_to_encoding_def)

section \<open>Classification row by row\<close>

text \<open>The classification as a function of the bytes from a column on.\<close>

fun kinds_from :: "u32 \<Rightarrow> nat \<Rightarrow> nat \<Rightarrow> u8 list \<Rightarrow> cell_kind list" where
  "kinds_from cp cols col [] = []"
| "kinds_from cp cols col [b] = [Sbcs]"
| "kinds_from cp cols col (b # c # bs) =
    (if is_dbcs_lead_byte b cp \<and> col + 1 < cols
     then DbcsLead # DbcsTail # kinds_from cp cols ((col + 2) mod cols) bs
     else Sbcs # kinds_from cp cols ((col + 1) mod cols) (c # bs))"

lemma drop_step:
  "i < length xs \<Longrightarrow> drop i xs = xs ! i # drop (i + 1) xs"
  by (simp add: Cons_nth_drop_Suc)

lemma annotate_loop_kinds:
  "length ks = i \<Longrightarrow> i \<le> length raw \<Longrightarrow>
    annotate_loop raw cp cols i (ks @ replicate (length raw - i) Sbcs) =
    ks @ kinds_from cp cols (i mod cols) (drop i raw)"
proof (induction "length raw - i" arbitrary: i ks rule: less_induct)
  case less
  consider "i = length raw" | "i + 1 = length raw" | "i + 1 < length raw" using less.prems(2) by linarith
  then show ?case
  proof cases
    case 1
    then show ?thesis by (simp add: annotate_loop.simps)
  next
    case 2
    then have d: "drop i raw = [raw ! i]" by (simp add: drop_step)
    have "length raw - i = 1" using 2 by simp
    then show ?thesis using 2 less.prems(1)
      by (subst annotate_loop.simps) (simp add: d annotate_loop.simps [of _ _ _ "length raw"])
  next
    case 3
    then have d: "drop i raw = raw ! i # raw ! (i + 1) # drop (i + 2) raw" "drop (i + 1) raw = raw ! (i + 1) # drop (i + 2) raw"
      by (simp_all add: drop_step)
    define n where "n = length raw - (i + 2)"
    have n: "length raw - i = Suc (Suc n)" "length raw - (i + 1) = Suc n" using 3 by (simp_all add: n_def)
    show ?thesis
    proof (cases "is_dbcs_lead_byte (raw ! i) cp \<and> i mod cols + 1 < cols")
      case True
      have "(ks @ replicate (length raw - i) Sbcs)[i := DbcsLead, i + 1 := DbcsTail] =
          (ks @ [DbcsLead, DbcsTail]) @ replicate (length raw - (i + 2)) Sbcs"
        using less.prems(1) n by (simp add: list_update_append)
      then show ?thesis using less.hyps [of "i + 2" "ks @ [DbcsLead, DbcsTail]"] less.prems(1) 3 True
        by (subst annotate_loop.simps) (simp add: d mod_simps)
    next
      case False
      have "ks @ replicate (length raw - i) Sbcs = (ks @ [Sbcs]) @ replicate (length raw - (i + 1)) Sbcs"
        using n by simp
      then show ?thesis using less.hyps [of "i + 1" "ks @ [Sbcs]"] less.prems(1) 3 False d(2)
        by (subst annotate_loop.simps) (auto simp: d mod_simps)
    qed
  qed
qed

lemma annotate_dbcs_kinds:
  assumes "cols \<noteq> 0"
  shows "annotate_dbcs raw cp cols = kinds_from cp (unat cols) 0 raw"
proof (cases "dbcs_lead_ranges cp = []")
  case True
  then have "kinds_from cp n c bs = replicate (length bs) Sbcs" for n c bs
    by (induction cp n c bs rule: kinds_from.induct) (auto simp: is_dbcs_lead_byte_def)
  with True show ?thesis by (simp add: annotate_dbcs_def)
next
  case False
  then show ?thesis using assms annotate_loop_kinds [of "[]" 0 raw cp "unat cols"] by (simp add: annotate_dbcs_def)
qed

lemma length_kinds_from [simp]: "length (kinds_from cp cols col bs) = length bs"
  by (induction cp cols col bs rule: kinds_from.induct) auto

lemma kinds_from_row:
  "col + length xs = cols \<Longrightarrow> xs \<noteq> [] \<Longrightarrow> kinds_from cp cols col (xs @ ys) =
    kinds_from cp cols col xs @ kinds_from cp cols 0 ys"
proof (induction cp cols col xs rule: kinds_from.induct)
  case (2 cp cols col b)
  then show ?case by (cases ys) auto
next
  case (3 cp cols col b c bs)
  then show ?case by (cases "bs = []") auto
qed auto

lemma kinds_from_rows:
  "0 < cols \<Longrightarrow> (\<forall>row\<in>set rows. length row = cols) \<Longrightarrow>
    kinds_from cp cols 0 (concat rows) = concat (map (kinds_from cp cols 0) rows)"
  by (induction rows) (auto simp: kinds_from_row length_greater_0_conv [symmetric] simp del: length_greater_0_conv)

text \<open>A lead cell has its trail cell behind it on the same row, and a trail cell its lead cell before it.\<close>

lemma kinds_from_pairs:
  assumes "col + length bs \<le> cols" "i < length bs"
  shows "(kinds_from cp cols col bs ! i = DbcsLead \<longrightarrow>
      i + 1 < length bs \<and> kinds_from cp cols col bs ! (i + 1) = DbcsTail \<and> is_dbcs_lead_byte (bs ! i) cp)
    \<and> (kinds_from cp cols col bs ! i = DbcsTail \<longrightarrow> 0 < i \<and> kinds_from cp cols col bs ! (i - 1) = DbcsLead)"
  using assms
proof (induction cp cols col bs arbitrary: i rule: kinds_from.induct)
  case (3 cp cols col b c bs)
  show ?case
  proof (cases "is_dbcs_lead_byte b cp \<and> col + 1 < cols")
    case True
    have m: "bs = [] \<or> (col + 2) mod cols = col + 2" using 3(3) by (cases bs) auto
    consider "i = 0" | "i = 1" | j where "i = j + 2" by (metis One_nat_def add_2_eq_Suc' not0_implies_Suc old.nat.exhaust)
    then show ?thesis using True 3 m by cases (auto simp: nth_Cons' split: if_splits)
  next
    case False
    have m: "(col + 1) mod cols = col + 1" using 3(3) by simp
    consider "i = 0" | j where "i = j + 1" by (metis Suc_eq_plus1 not0_implies_Suc)
    then show ?thesis
    proof cases
      case 1
      then show ?thesis using False by auto
    next
      case (2 j)
      have "kinds_from cp cols (col + 1) (c # bs) ! 0 \<noteq> DbcsTail" by (cases bs) auto
      with 2 False m show ?thesis using 3(2) [OF False, of j] 3(3,4)
        by (cases j) (auto simp: nth_Cons')
    qed
  qed
qed auto

section \<open>Properties\<close>

text \<open>
  Classifying the whole screen and classifying one row give the same answer, so the renderer and
  \<^verbatim>\<open>VioCheckCharType\<close> agree on every cell: the kinds of a screen are the kinds of its rows, one after
  the other, in every codepage. On a row a lead cell is always followed by its trail cell, and a trail
  cell preceded by its lead.
\<close>

theorem annotate_dbcs_rows:
  assumes "cols \<noteq> 0" "\<forall>row\<in>set rows. length row = unat cols"
  shows "annotate_dbcs (concat rows) cp cols = concat (map (\<lambda>row. annotate_dbcs row cp cols) rows)
    \<and> (\<forall>row\<in>set rows. \<forall>i < unat cols.
        (annotate_dbcs row cp cols ! i = DbcsLead \<longrightarrow>
           i + 1 < unat cols \<and> annotate_dbcs row cp cols ! (i + 1) = DbcsTail \<and> is_dbcs_lead_byte (row ! i) cp) \<and>
        (annotate_dbcs row cp cols ! i = DbcsTail \<longrightarrow>
           0 < i \<and> annotate_dbcs row cp cols ! (i - 1) = DbcsLead))"
proof -
  have "0 < unat cols" using assms(1) by (simp add: unat_gt_0)
  then have "annotate_dbcs (concat rows) cp cols = concat (map (\<lambda>row. annotate_dbcs row cp cols) rows)"
    using kinds_from_rows [of "unat cols" rows cp] assms(2) by (simp add: annotate_dbcs_kinds [OF assms(1)])
  moreover have "(annotate_dbcs row cp cols ! i = DbcsLead \<longrightarrow>
      i + 1 < unat cols \<and> annotate_dbcs row cp cols ! (i + 1) = DbcsTail \<and> is_dbcs_lead_byte (row ! i) cp) \<and>
    (annotate_dbcs row cp cols ! i = DbcsTail \<longrightarrow> 0 < i \<and> annotate_dbcs row cp cols ! (i - 1) = DbcsLead)"
    if "row \<in> set rows" "i < unat cols" for row i
    using kinds_from_pairs [of 0 row "unat cols" i cp] that assms(2)
    by (simp only: annotate_dbcs_kinds [OF assms(1)]) simp
  ultimately show ?thesis by blast
qed

theorem annotate_dbcs_rows_witness:
  "annotate_dbcs [0x82, 0xA0, 0x58, 0x82, 0x41, 0x82] 932 3 =
    annotate_dbcs [0x82, 0xA0, 0x58] 932 3 @ annotate_dbcs [0x82, 0x41, 0x82] 932 3"
  using annotate_dbcs_rows [of 3 "[[0x82, 0xA0, 0x58], [0x82, 0x41, 0x82]]" 932] by simp

end
