(* ===== verification/Viocalls.thy ===== *)
theory Viocalls
  imports Console Nls
begin

unbundle bit_operations_syntax

text \<open>
  The video calls (\<^verbatim>\<open>src/src/loader/viocalls.rs\<close>): the dispatcher, which takes the arguments of the
  Pascal calling convention from the guest stack, and the handlers over the console and guest memory.
  The codepage of the process is part of the state. \<open>None\<close> is a panic: an argument outside guest
  memory, or an index outside a buffer of the console (\<open>vio_panicked\<close>). Arithmetic wraps, as in the
  release build.
\<close>

section \<open>State\<close>

record vio_state =
  vs_console :: vio_manager
  vs_guest :: guest_memory
  vs_cp :: u32

definition vs_write :: "vio_state \<Rightarrow> u32 \<Rightarrow> 'a::len word \<Rightarrow> vio_state" where
  "vs_write st p v = st\<lparr> vs_guest := guest_write_ign (vs_guest st) p v \<rparr>"

definition read_dflt :: "guest_memory \<Rightarrow> u32 \<Rightarrow> 'a::len word \<Rightarrow> 'a word" where
  "read_dflt g p d = (case gm_read g p of Some v \<Rightarrow> v | None \<Rightarrow> d)"

text \<open>The bytes of a guest string of a given length; bytes outside guest memory are left out.\<close>

definition read_bytes :: "guest_memory \<Rightarrow> u32 \<Rightarrow> u32 \<Rightarrow> u8 list" where
  "read_bytes g psz cb = concat (map (\<lambda>i. case gm_read g (psz + of_nat i) of Some b \<Rightarrow> [b] | None \<Rightarrow> []) [0..<unat cb])"

section \<open>Handlers\<close>

definition vio_wrt_tty :: "encoding_rs \<Rightarrow> vio_state \<Rightarrow> u32 \<Rightarrow> u32 \<Rightarrow> u32 \<times> vio_state" where
  "vio_wrt_tty rs st psz cb =
    (if cb = 0 \<or> psz = 0 then (0, st)
     else (0, st\<lparr> vs_console := write_tty rs (vs_console st) (read_bytes (vs_guest st) psz cb) 0x07 (vs_cp st) \<rparr>))"

definition vio_get_mode :: "vio_state \<Rightarrow> u32 \<Rightarrow> u32 \<times> vio_state" where
  "vio_get_mode st p_mode =
    (let v = vs_console st in
     (0, if p_mode \<noteq> 0 then
           let s1 = vs_write st p_mode (12 :: u16);
               s2 = vs_write s1 (p_mode + 2) (1 :: u8);
               s3 = vs_write s2 (p_mode + 3) (4 :: u8);
               s4 = vs_write s3 (p_mode + 4) (vio_cols v);
               s5 = vs_write s4 (p_mode + 6) (vio_rows v);
               s6 = vs_write s5 (p_mode + 8) (vio_cols v * 8) in
           vs_write s6 (p_mode + 10) (vio_rows v * 16)
         else st))"

definition vio_set_mode :: "vio_state \<Rightarrow> u32 \<Rightarrow> u32 \<times> vio_state" where
  "vio_set_mode st p_mode =
    (let g = vs_guest st in
     if p_mode = 0 then (87, st)
     else if read_dflt g p_mode (0 :: u16) < 8 then (124, st)
     else if read_dflt g (p_mode + 2) (0 :: u8) \<noteq> 1 then (87, st)
     else
       let new_cols = read_dflt g (p_mode + 4) (80 :: u16); new_rows = read_dflt g (p_mode + 6) (25 :: u16) in
       if new_cols < 1 \<or> new_rows < 1 \<or> 255 < new_cols \<or> 255 < new_rows then (124, st)
       else (0, st\<lparr> vs_console := resize (vs_console st) new_rows new_cols \<rparr>))"

definition vio_get_cur_pos :: "vio_state \<Rightarrow> u32 \<Rightarrow> u32 \<Rightarrow> u32 \<times> vio_state" where
  "vio_get_cur_pos st p_row p_col =
    (let s1 = (if p_row \<noteq> 0 then vs_write st p_row (vio_cursor_row (vs_console st)) else st) in
     (0, if p_col \<noteq> 0 then vs_write s1 p_col (vio_cursor_col (vs_console st)) else s1))"

definition vio_set_cur_pos :: "vio_state \<Rightarrow> u32 \<Rightarrow> u32 \<Rightarrow> u32 \<times> vio_state" where
  "vio_set_cur_pos st row col =
    (0, st\<lparr> vs_console := set_cursor_pos (vs_console st) (ucast row) (ucast col) \<rparr>)"

definition scroll_fill :: "encoding_rs \<Rightarrow> vio_state \<Rightarrow> u32 \<Rightarrow> cell \<times> u8" where
  "scroll_fill rs st p_cell =
    (if p_cell \<noteq> 0 then
       let ch_byte = read_dflt (vs_guest st) p_cell (32 :: u8); attr = read_dflt (vs_guest st) (p_cell + 1) (0x07 :: u8) in
       ((decode_vio_byte rs ch_byte (vs_cp st), attr), ch_byte)
     else ((32, 0x07), 32))"

definition vio_scroll_up ::
  "encoding_rs \<Rightarrow> vio_state \<Rightarrow> u32 \<Rightarrow> u32 \<Rightarrow> u32 \<Rightarrow> u32 \<Rightarrow> u32 \<times> vio_state" where
  "vio_scroll_up rs st top_row bottom lines p_cell =
    (case scroll_fill rs st p_cell of (fill_cell, fill_raw) \<Rightarrow>
      (0, st\<lparr> vs_console := scroll_up (vs_console st) (ucast top_row) (ucast bottom) (ucast lines) fill_cell fill_raw \<rparr>))"

definition vio_scroll_dn ::
  "encoding_rs \<Rightarrow> vio_state \<Rightarrow> u32 \<Rightarrow> u32 \<Rightarrow> u32 \<Rightarrow> u32 \<Rightarrow> u32 \<times> vio_state" where
  "vio_scroll_dn rs st top_row bottom lines p_cell =
    (case scroll_fill rs st p_cell of (fill_cell, fill_raw) \<Rightarrow>
      (0, st\<lparr> vs_console := scroll_down (vs_console st) (ucast top_row) (ucast bottom) (ucast lines) fill_cell fill_raw \<rparr>))"

definition vio_wrt_char_str_att ::
  "encoding_rs \<Rightarrow> vio_state \<Rightarrow> u32 \<Rightarrow> u32 \<Rightarrow> u32 \<Rightarrow> u32 \<Rightarrow> u32 \<Rightarrow> u32 \<times> vio_state" where
  "vio_wrt_char_str_att rs st psz cb row col p_attr =
    (let attr = (if p_attr \<noteq> 0 then read_dflt (vs_guest st) p_attr (0x07 :: u8) else 0x07) in
     (0, st\<lparr> vs_console := write_char_str_att rs (vs_console st) (ucast row) (ucast col)
               (read_bytes (vs_guest st) psz cb) attr (vs_cp st) \<rparr>))"

definition vio_wrt_n_cell :: "encoding_rs \<Rightarrow> vio_state \<Rightarrow> u32 \<Rightarrow> u32 \<Rightarrow> u32 \<Rightarrow> u32 \<Rightarrow> u32 \<times> vio_state" where
  "vio_wrt_n_cell rs st p_cell count row col =
    (let ch_byte = read_dflt (vs_guest st) p_cell (32 :: u8); attr = read_dflt (vs_guest st) (p_cell + 1) (0x07 :: u8) in
     (0, st\<lparr> vs_console := write_n_cell (vs_console st) (ucast row) (ucast col) ch_byte
               (decode_vio_byte rs ch_byte (vs_cp st), attr) (ucast count) \<rparr>))"

definition vio_wrt_n_attr :: "vio_state \<Rightarrow> u32 \<Rightarrow> u32 \<Rightarrow> u32 \<Rightarrow> u32 \<Rightarrow> u32 \<times> vio_state" where
  "vio_wrt_n_attr st p_attr count row col =
    (0, st\<lparr> vs_console := write_n_attr (vs_console st) (ucast row) (ucast col)
              (read_dflt (vs_guest st) p_attr (0x07 :: u8)) (ucast count) \<rparr>)"

definition cell_byte :: "encoding_rs \<Rightarrow> u32 \<Rightarrow> nat \<Rightarrow> u8" where
  "cell_byte rs cp ch =
    (if ch < 128 then of_nat ch else case cp_encode rs [ch] cp of b # _ \<Rightarrow> b | [] \<Rightarrow> 0x3F)"

fun cell_str_loop :: "encoding_rs \<Rightarrow> u32 \<Rightarrow> u16 \<Rightarrow> vio_state \<Rightarrow> u32 \<Rightarrow> cell list \<Rightarrow> vio_state \<times> u32" where
  "cell_str_loop rs p_buf max_len st offset [] = (st, offset)"
| "cell_str_loop rs p_buf max_len st offset ((ch, attr) # cells) =
    (if ucast max_len < offset + 2 then (st, offset)
     else
       let s1 = vs_write st (p_buf + offset) (cell_byte rs (vs_cp st) ch);
           s2 = vs_write s1 (p_buf + offset + 1) attr in
       cell_str_loop rs p_buf max_len s2 (offset + 2) cells)"

definition vio_read_cell_str ::
  "encoding_rs \<Rightarrow> vio_state \<Rightarrow> u32 \<Rightarrow> u32 \<Rightarrow> u32 \<Rightarrow> u32 \<Rightarrow> u32 \<times> vio_state" where
  "vio_read_cell_str rs st p_buf pcb row col =
    (let max_len = read_dflt (vs_guest st) pcb (0 :: u16);
         cells = read_cell_str (vs_console st) (ucast row) (ucast col) max_len in
     case cell_str_loop rs p_buf max_len st 0 cells of (s1, offset) \<Rightarrow>
       (0, vs_write s1 pcb (ucast offset :: u16)))"

definition vio_set_cur_type :: "vio_state \<Rightarrow> u32 \<Rightarrow> u32 \<times> vio_state" where
  "vio_set_cur_type st p =
    (0, if p \<noteq> 0 then
          let y_start = read_dflt (vs_guest st) p (14 :: u16); c_end = read_dflt (vs_guest st) (p + 2) (15 :: u16);
              attr = read_dflt (vs_guest st) (p + 6) (0 :: u16) in
          st\<lparr> vs_console := set_cursor_shape (set_cursor_type (vs_console st) (attr \<noteq> 0xFFFF)) (ucast y_start) (ucast c_end) \<rparr>
        else st)"

definition vio_get_cur_type :: "vio_state \<Rightarrow> u32 \<Rightarrow> u32 \<times> vio_state" where
  "vio_get_cur_type st p =
    (let v = vs_console st in
     (0, if p \<noteq> 0 then
           let attr = (if vio_cursor_visible v then 0 else 0xFFFF :: u16);
               s1 = vs_write st p (ucast (vio_cursor_start v) :: u16);
               s2 = vs_write s1 (p + 2) (ucast (vio_cursor_end v) :: u16);
               s3 = vs_write s2 (p + 4) (0 :: u16) in
           vs_write s3 (p + 6) attr
         else st))"

definition vio_set_ansi :: "vio_state \<Rightarrow> u32 \<Rightarrow> u32 \<times> vio_state" where
  "vio_set_ansi st flag = (0, st\<lparr> vs_console := (vs_console st)\<lparr> vio_ansi_mode := (flag \<noteq> 0) \<rparr> \<rparr>)"

definition vio_get_ansi :: "vio_state \<Rightarrow> u32 \<Rightarrow> u32 \<times> vio_state" where
  "vio_get_ansi st p_flag =
    (0, if p_flag \<noteq> 0 then vs_write st p_flag (if vio_ansi_mode (vs_console st) then 1 else 0 :: u32) else st)"

definition kind_code :: "cell_kind \<Rightarrow> u16" where
  "kind_code k = (case k of Sbcs \<Rightarrow> 0 | DbcsLead \<Rightarrow> 2 | DbcsTail \<Rightarrow> 3)"

definition vio_check_char_type :: "vio_state \<Rightarrow> u32 \<Rightarrow> u32 \<Rightarrow> u32 \<Rightarrow> (u32 \<times> vio_state) option" where
  "vio_check_char_type st p_type row col =
    (let v = vs_console st; rows = (ucast (vio_rows v) :: u32); cols = (ucast (vio_cols v) :: u32) in
     if rows \<le> row then Some (426, st)
     else if cols \<le> col then Some (427, st)
     else
       let row_start = unat (row * cols) in
       if length (vio_raw v) < row_start + unat cols then None
       else
         let kinds = annotate_dbcs (take (unat cols) (drop row_start (vio_raw v))) (ucast (vio_codepage v)) (vio_cols v) in
         if p_type \<noteq> 0 then do { k \<leftarrow> vec_get kinds (unat col); Some (0, vs_write st p_type (kind_code k)) }
         else Some (0, st))"

definition vio_get_config :: "vio_state \<Rightarrow> u32 \<Rightarrow> u32 \<times> vio_state" where
  "vio_get_config st p_config =
    (0, if p_config \<noteq> 0 then
          let s1 = vs_write st p_config (10 :: u16);
              s2 = vs_write s1 (p_config + 2) (3 :: u16);
              s3 = vs_write s2 (p_config + 4) (3 :: u16) in
          vs_write s3 (p_config + 6) (0x10000 :: u32)
        else st)"

section \<open>Dispatch\<close>

definition viocalls_arg_bytes :: "u32 \<Rightarrow> u64" where
  "viocalls_arg_bytes ordinal =
    (case map_of [(19, 12), (21, 8), (9, 12), (15, 12), (7, 28), (47, 28), (48, 24), (52, 20), (26, 20), (24, 20),
        (32, 8), (27, 8), (5, 8), (3, 8), (51, 8), (42, 12), (46, 12), (22, 8), (31, 12), (43, 12), (10, 20),
        (39, 16)] ordinal of
       Some n \<Rightarrow> n | None \<Rightarrow> 0)"

text \<open>A call during which the console panicked does not return.\<close>

definition unpanicked :: "u32 \<times> vio_state \<Rightarrow> (u32 \<times> vio_state) option" where
  "unpanicked r = (if vio_panicked (vs_console (snd r)) then None else Some r)"

definition handle_viocalls ::
  "encoding_rs \<Rightarrow> vio_state \<Rightarrow> u64 \<Rightarrow> u32 \<Rightarrow> (u32 \<times> vio_state) option" where
  "handle_viocalls rs st esp ordinal =
    (let arg = (\<lambda>off. gm_read (vs_guest st) (ucast (esp + off) :: u32) :: u32 option) in
     if ordinal = 19 then do { a \<leftarrow> arg 12; b \<leftarrow> arg 8; _ \<leftarrow> arg 4; unpanicked (vio_wrt_tty rs st a b) }
     else if ordinal = 21 then do { a \<leftarrow> arg 8; _ \<leftarrow> arg 4; unpanicked (vio_get_mode st a) }
     else if ordinal = 9 then do { a \<leftarrow> arg 12; b \<leftarrow> arg 8; _ \<leftarrow> arg 4; unpanicked (vio_get_cur_pos st a b) }
     else if ordinal = 15 then do { a \<leftarrow> arg 12; b \<leftarrow> arg 8; _ \<leftarrow> arg 4; unpanicked (vio_set_cur_pos st a b) }
     else if ordinal = 7 then do { t \<leftarrow> arg 28; _ \<leftarrow> arg 24; b \<leftarrow> arg 20; _ \<leftarrow> arg 16; n \<leftarrow> arg 12; c \<leftarrow> arg 8;
       _ \<leftarrow> arg 4; unpanicked (vio_scroll_up rs st t b n c) }
     else if ordinal = 47 then do { t \<leftarrow> arg 28; _ \<leftarrow> arg 24; b \<leftarrow> arg 20; _ \<leftarrow> arg 16; n \<leftarrow> arg 12; c \<leftarrow> arg 8;
       _ \<leftarrow> arg 4; unpanicked (vio_scroll_dn rs st t b n c) }
     else if ordinal = 48 then do { a \<leftarrow> arg 24; n \<leftarrow> arg 20; r \<leftarrow> arg 16; c \<leftarrow> arg 12; t \<leftarrow> arg 8;
       unpanicked (vio_wrt_char_str_att rs st a n r c t) }
     else if ordinal = 52 then do { a \<leftarrow> arg 20; n \<leftarrow> arg 16; r \<leftarrow> arg 12; c \<leftarrow> arg 8; _ \<leftarrow> arg 4;
       unpanicked (vio_wrt_n_cell rs st a n r c) }
     else if ordinal = 26 then do { a \<leftarrow> arg 20; n \<leftarrow> arg 16; r \<leftarrow> arg 12; c \<leftarrow> arg 8; _ \<leftarrow> arg 4;
       unpanicked (vio_wrt_n_attr st a n r c) }
     else if ordinal = 24 then do { a \<leftarrow> arg 20; n \<leftarrow> arg 16; r \<leftarrow> arg 12; c \<leftarrow> arg 8; _ \<leftarrow> arg 4;
       unpanicked (vio_read_cell_str rs st a n r c) }
     else if ordinal = 32 then do { a \<leftarrow> arg 8; _ \<leftarrow> arg 4; unpanicked (vio_set_cur_type st a) }
     else if ordinal = 27 then do { a \<leftarrow> arg 8; _ \<leftarrow> arg 4; unpanicked (vio_get_cur_type st a) }
     else if ordinal = 5 then do { a \<leftarrow> arg 8; _ \<leftarrow> arg 4; unpanicked (vio_set_ansi st a) }
     else if ordinal = 3 then do { a \<leftarrow> arg 8; _ \<leftarrow> arg 4; unpanicked (vio_get_ansi st a) }
     else if ordinal = 46 then do { _ \<leftarrow> arg 12; a \<leftarrow> arg 8; unpanicked (vio_get_config st a) }
     else if ordinal = 22 then do { a \<leftarrow> arg 8; _ \<leftarrow> arg 4; unpanicked (vio_set_mode st a) }
     else if ordinal = 39 then do { a \<leftarrow> arg 16; r \<leftarrow> arg 12; c \<leftarrow> arg 8; _ \<leftarrow> arg 4; vio_check_char_type st a r c }
     else Some (0, st))"

section \<open>Invariant of the dispatcher\<close>

text \<open>What every handler keeps: a full screen grid, the size of guest memory and the codepage.\<close>

definition vio_kept :: "vio_state \<Rightarrow> vio_state \<Rightarrow> bool" where
  "vio_kept st st' \<longleftrightarrow> vio_inv (vs_console st') \<and> gm_size (vs_guest st') = gm_size (vs_guest st) \<and> vs_cp st' = vs_cp st"

lemma vs_write_console [simp]: "vs_console (vs_write st p v) = vs_console st"
  by (simp add: vs_write_def)

lemma vs_write_cp [simp]: "vs_cp (vs_write st p v) = vs_cp st"
  by (simp add: vs_write_def)

lemma vs_write_size [simp]: "gm_size (vs_guest (vs_write st p v)) = gm_size (vs_guest st)"
  by (simp add: vs_write_def)

lemma cell_str_loop_kept:
  "vs_console (fst (cell_str_loop rs p n st off cells)) = vs_console st \<and>
   vs_cp (fst (cell_str_loop rs p n st off cells)) = vs_cp st \<and>
   gm_size (vs_guest (fst (cell_str_loop rs p n st off cells))) = gm_size (vs_guest st)"
  by (induction rs p n st off cells rule: cell_str_loop.induct) (auto simp: Let_def)

lemma vio_kept_refl: "vio_inv (vs_console st) \<Longrightarrow> vio_kept st st"
  by (simp add: vio_kept_def)

lemma vio_kept_step:
  "vio_inv (vs_console st) \<Longrightarrow> vio_op_ok opn \<Longrightarrow> vio_kept st (st\<lparr> vs_console := vio_step rs (vs_console st) opn \<rparr>)"
  by (simp add: vio_kept_def vio_step_inv)

text \<open>The handlers that write the screen are the operations of the console.\<close>

lemma vio_writers_kept:
  assumes inv: "vio_inv (vs_console st)"
  shows "vio_kept st (snd (vio_wrt_tty rs st a b))" "vio_kept st (snd (vio_set_cur_pos st a b))"
    "vio_kept st (snd (vio_scroll_up rs st a b c d))" "vio_kept st (snd (vio_scroll_dn rs st a b c d))"
    "vio_kept st (snd (vio_wrt_char_str_att rs st a b c d e))" "vio_kept st (snd (vio_wrt_n_cell rs st a b c d))"
    "vio_kept st (snd (vio_wrt_n_attr st a b c d))"
proof -
  note step = vio_kept_step [OF inv]
  show "vio_kept st (snd (vio_wrt_tty rs st a b))"
    using step [of "OpTty (read_bytes (vs_guest st) a b) 0x07 (vs_cp st)" rs] inv by (simp add: vio_wrt_tty_def vio_kept_refl)
  show "vio_kept st (snd (vio_set_cur_pos st a b))"
    using step [of "OpCursorPos (ucast a) (ucast b)"] by (simp add: vio_set_cur_pos_def)
  show "vio_kept st (snd (vio_scroll_up rs st a b c d))"
    using step [of "OpScrollUp (ucast a) (ucast b) (ucast c) (fst (scroll_fill rs st d)) (snd (scroll_fill rs st d))"]
    by (auto simp: vio_scroll_up_def split: prod.split)
  show "vio_kept st (snd (vio_scroll_dn rs st a b c d))"
    using step [of "OpScrollDown (ucast a) (ucast b) (ucast c) (fst (scroll_fill rs st d)) (snd (scroll_fill rs st d))"]
    by (auto simp: vio_scroll_dn_def split: prod.split)
  show "vio_kept st (snd (vio_wrt_char_str_att rs st a b c d e))"
    using step [of "OpCharStrAtt (ucast c) (ucast d) (read_bytes (vs_guest st) a b) _ (vs_cp st)" rs]
    by (simp add: vio_wrt_char_str_att_def Let_def)
  show "vio_kept st (snd (vio_wrt_n_cell rs st a b c d))"
    using step [of "OpNCell (ucast c) (ucast d) _ (_, _) (ucast b)"] by (simp add: vio_wrt_n_cell_def Let_def)
  show "vio_kept st (snd (vio_wrt_n_attr st a b c d))"
    using step [of "OpNAttr (ucast c) (ucast d) _ (ucast b)"] by (simp add: vio_wrt_n_attr_def)
qed

lemma vio_ansi_inv [simp]: "vio_inv (v\<lparr> vio_ansi_mode := b \<rparr>) = vio_inv v"
  by (simp add: vio_inv_def)

lemma vio_state_kept:
  assumes inv: "vio_inv (vs_console st)"
  shows "vio_kept st (snd (vio_set_mode st a))" "vio_kept st (snd (vio_set_cur_type st a))"
    "vio_kept st (snd (vio_set_ansi st a))"
proof -
  show "vio_kept st (snd (vio_set_mode st a))"
    using vio_kept_step [OF inv, of "OpResize _ _"] inv
    by (auto simp: vio_set_mode_def Let_def vio_kept_refl not_less word_le_nat_alt word_less_nat_alt)
  have "vio_inv (vio_step rs (vio_step rs (vs_console st) (OpCursorType b)) (OpCursorShape c d))" for rs b c d
    by (intro vio_step_inv inv) auto
  then show "vio_kept st (snd (vio_set_cur_type st a))"
    using inv by (simp add: vio_set_cur_type_def Let_def vio_kept_def)
  show "vio_kept st (snd (vio_set_ansi st a))" using inv by (simp add: vio_set_ansi_def vio_kept_def)
qed

lemma vio_readers_kept:
  assumes "vio_inv (vs_console st)"
  shows "vio_kept st (snd (vio_get_mode st a))" "vio_kept st (snd (vio_get_cur_pos st a b))"
    "vio_kept st (snd (vio_read_cell_str rs st a b c d))" "vio_kept st (snd (vio_get_cur_type st a))"
    "vio_kept st (snd (vio_get_ansi st a))" "vio_kept st (snd (vio_get_config st a))"
  using assms cell_str_loop_kept [of rs a "read_dflt (vs_guest st) b 0" st 0]
  by (auto simp: vio_kept_def vio_get_mode_def vio_get_cur_pos_def vio_read_cell_str_def vio_get_cur_type_def
      vio_get_ansi_def vio_get_config_def Let_def split: prod.split) (metis fst_conv)+

text \<open>The row \<^verbatim>\<open>VioCheckCharType\<close> looks at is inside the raw buffer, so slicing it does not panic.\<close>

lemma unat_ucast_u16_u32 [simp]: "unat (ucast (x :: u16) :: u32) = unat x"
  by (simp add: unsigned_ucast_eq take_bit_nat_eq_self_iff less_trans [OF unat_u16_lt])

lemma check_char_row:
  assumes "vio_inv v" "row < ucast (vio_rows v)"
  shows "unat (row * (ucast (vio_cols v) :: u32)) = unat row * unat (vio_cols v)"
    and "unat row * unat (vio_cols v) + unat (vio_cols v) \<le> length (vio_raw v)"
proof -
  have r: "unat row < unat (vio_rows v)" using assms(2) by (simp add: word_less_nat_alt)
  have "unat row * unat (vio_cols v) \<le> 65535 * 65535"
    using r unat_u16_lt [of "vio_rows v"] unat_u16_lt [of "vio_cols v"] by (intro mult_le_mono) linarith+
  then show "unat (row * (ucast (vio_cols v) :: u32)) = unat row * unat (vio_cols v)"
    by (simp add: unat_word_ariths)
  have "(unat row + 1) * unat (vio_cols v) \<le> unat (vio_rows v) * unat (vio_cols v)"
    using r by (intro mult_le_mono1) simp
  then show "unat row * unat (vio_cols v) + unat (vio_cols v) \<le> length (vio_raw v)"
    using assms(1) by (simp add: vio_inv_def)
qed

definition vio_returns :: "vio_state \<Rightarrow> (u32 \<times> vio_state) option \<Rightarrow> bool" where
  "vio_returns st r \<longleftrightarrow> (\<exists>rc st'. r = Some (rc, st') \<and> vio_kept st st')"

lemma vio_returns_if: "vio_returns st r \<Longrightarrow> vio_returns st r' \<Longrightarrow> vio_returns st (if c then r else r')"
  by simp

lemma vio_returns_Some: "vio_kept st (snd r) \<Longrightarrow> vio_returns st (Some r)"
  by (cases r) (simp add: vio_returns_def)

lemma vio_returns_unpanicked: "vio_kept st (snd r) \<Longrightarrow> vio_returns st (unpanicked r)"
  by (cases r) (simp add: vio_returns_def unpanicked_def vio_kept_def vio_inv_def)

lemma vio_returns_check:
  assumes inv: "vio_inv (vs_console st)"
  shows "vio_returns st (vio_check_char_type st p row col)"
proof (cases "row < ucast (vio_rows (vs_console st)) \<and> col < ucast (vio_cols (vs_console st))")
  case False
  then show ?thesis using inv by (auto simp: vio_returns_def vio_check_char_type_def Let_def vio_kept_def not_less)
next
  case True
  define v where "v = vs_console st"
  have inv: "vio_inv v" and rc: "row < ucast (vio_rows v)" "col < ucast (vio_cols v)" using inv True by (simp_all add: v_def)
  define n where "n = unat (row * (ucast (vio_cols v) :: u32))"
  have n: "n + unat (vio_cols v) \<le> length (vio_raw v)" using check_char_row [OF inv rc(1)] by (simp add: n_def)
  let ?kinds = "annotate_dbcs (take (unat (vio_cols v)) (drop n (vio_raw v))) (ucast (vio_codepage v)) (vio_cols v)"
  have "vio_cols v \<noteq> 0" using inv by (auto simp: vio_inv_def)
  from annotate_dbcs_kinds [OF this] have "vec_get ?kinds (unat col) = Some (?kinds ! unat col)"
    using n rc(2) by (simp add: vec_get_def word_less_nat_alt)
  then have "vio_check_char_type st p row col =
      Some (0, if p \<noteq> 0 then vs_write st p (kind_code (?kinds ! unat col)) else st)"
    using rc n by (simp add: vio_check_char_type_def Let_def not_le not_less v_def [symmetric] n_def [symmetric])
  then show ?thesis using inv by (simp add: vio_returns_def vio_kept_def v_def)
qed

section \<open>Writing and reading cells\<close>

lemma put_cell_buffer:
  "i < length (vio_buffer v) \<Longrightarrow> length (vio_raw v) = length (vio_buffer v) \<Longrightarrow>
    vio_buffer (put_cell cell raw v i) = take i (vio_buffer v) @ cell # drop (i + 1) (vio_buffer v)"
  by (simp add: put_cell_def vio_cells_def vec_defs upd_conv_take_nth_drop)

text \<open>\<^verbatim>\<open>VioWrtCharStrAtt\<close> replaces exactly the cells of the string.\<close>

lemma str_att_loop_buffer:
  assumes "unat c + length str \<le> unat (vio_cols v)" "unat row * unat (vio_cols v) + unat (vio_cols v) \<le> length (vio_buffer v)"
    and "length (vio_raw v) = length (vio_buffer v)"
  defines "p \<equiv> unat row * unat (vio_cols v) + unat c"
  shows "vio_buffer (str_att_loop rs row attr cp v c str) =
    take p (vio_buffer v) @ map (\<lambda>b. (decode_vio_byte rs b cp, attr)) str @ drop (p + length str) (vio_buffer v)"
  using assms(1-3) unfolding p_def
proof (induction str arbitrary: v c)
  case (Cons ch str)
  let ?p = "unat row * unat (vio_cols v) + unat c"
  define w where "w = emit (put_cell (decode_vio_byte rs ch cp, attr) ch v ?p) [decode_vio_byte rs ch cp]"
  have c: "c < vio_cols v" using Cons.prems(1) by (simp add: word_less_nat_alt)
  then have c1: "unat (c + 1) = unat c + 1" by (rule unat_u16_plus1)
  have p: "?p < length (vio_buffer v)" using Cons.prems by simp
  have cols: "vio_cols w = vio_cols v" by (simp add: w_def put_cell_def vio_cells_def vec_defs)
  have buf: "vio_buffer w = take ?p (vio_buffer v) @ (decode_vio_byte rs ch cp, attr) # drop (?p + 1) (vio_buffer v)"
    using put_cell_buffer [OF p] Cons.prems(3) by (simp add: w_def)
  have len: "length (vio_buffer w) = length (vio_buffer v)" using p by (simp add: buf)
  have raw: "length (vio_raw w) = length (vio_buffer w)"
    using Cons.prems(3) put_cell_frame [of v] len by (simp add: w_def same_frame_def)
  have "vio_buffer (str_att_loop rs row attr cp w (c + 1) str) = take (?p + 1) (vio_buffer w) @
      map (\<lambda>b. (decode_vio_byte rs b cp, attr)) str @ drop (?p + 1 + length str) (vio_buffer w)"
    using Cons.IH [of "c + 1" w] Cons.prems c1 cols len raw by (simp add: add.assoc)
  moreover have "take (?p + 1) (vio_buffer w) = take ?p (vio_buffer v) @ [(decode_vio_byte rs ch cp, attr)]"
    using p by (simp add: buf)
  moreover have "drop (?p + 1 + length str) (vio_buffer w) = drop (?p + length (ch # str)) (vio_buffer v)"
    using p by (simp add: buf ac_simps)
  ultimately show ?case using c by (simp add: Let_def not_le w_def)
qed simp

lemma read_cells_buffer:
  assumes "unat c + n \<le> unat (vio_cols v)" "unat row * unat (vio_cols v) + unat (vio_cols v) \<le> length (vio_buffer v)"
  shows "read_cells v row c n = take n (drop (unat row * unat (vio_cols v) + unat c) (vio_buffer v))"
  using assms(1)
proof (induction n arbitrary: c)
  case (Suc n)
  let ?p = "unat row * unat (vio_cols v) + unat c"
  have c: "c < vio_cols v" using Suc.prems by (simp add: word_less_nat_alt)
  then have c1: "unat (c + 1) = unat c + 1" by (rule unat_u16_plus1)
  have p: "?p < length (vio_buffer v)" using Suc.prems assms(2) by simp
  have "read_cells v row (c + 1) n = take n (drop (?p + 1) (vio_buffer v))"
    using Suc.IH [of "c + 1"] Suc.prems c1 by (simp add: add.assoc)
  then show ?case using c p drop_step [OF p] by (simp add: Let_def not_le)
qed simp

lemma write_read_cells:
  assumes inv: "vio_inv v" and row: "row < vio_rows v" and n: "unat c + length str \<le> unat (vio_cols v)"
  shows "read_cells (write_char_str_att rs v row c str attr cp) row c (length str) =
    map (\<lambda>b. (decode_vio_byte rs b cp, attr)) str"
proof -
  let ?v1 = "at_pos v row c attr"
  let ?w = "write_char_str_att rs v row c str attr cp"
  let ?p = "unat row * unat (vio_cols v) + unat c"
  have g: "unat row * unat (vio_cols v) + unat (vio_cols v) \<le> length (vio_buffer v)"
    using inv row mult_le_mono1 [of "unat row + 1" "unat (vio_rows v)" "unat (vio_cols v)"]
    by (simp add: vio_inv_def word_less_nat_alt)
  have fr: "same_frame v ?w" unfolding write_char_str_att_def by (rule positioned_frame [OF str_att_frame])
  have buf: "vio_buffer ?w = take ?p (vio_buffer v) @ map (\<lambda>b. (decode_vio_byte rs b cp, attr)) str @ drop (?p + length str) (vio_buffer v)"
    using str_att_loop_buffer [of c str ?v1 row rs attr cp] n g inv by (simp add: vio_inv_def write_char_str_att_def at_pos_def restore_pos_def)
  have "read_cells ?w row c (length str) = take (length str) (drop ?p (vio_buffer ?w))"
    using read_cells_buffer [of c "length str" ?w row] n g fr by (simp add: same_frame_def)
  also have "\<dots> = map (\<lambda>b. (decode_vio_byte rs b cp, attr)) str" using n g by (simp add: buf)
  finally show ?thesis .
qed

lemma read_bytes_in:
  assumes "unat p + unat n \<le> gm_size g" "gm_size g \<le> 2 ^ 32"
  shows "read_bytes g p n = take (unat n) (drop (unat p) (gm_bytes g))"
proof -
  have rd: "gm_read g (p + of_nat i) = Some (gm_bytes g ! (unat p + i))" if "i < unat n" for i
  proof -
    have l: "unat p + i < gm_size g" using that assms(1) by linarith
    then have "unat p + i < 2 ^ 32" using assms(2) by linarith
    moreover from this have "unat (of_nat i :: u32) = i" by (simp add: unat_of_nat)
    ultimately have u: "unat (p + of_nat i) = unat p + i" using unat_plus_u32 [of p "of_nat i"] by simp
    have "take 1 (drop (unat p + i) (gm_bytes g)) = [gm_bytes g ! (unat p + i)]"
      using l drop_step [of "unat p + i" "gm_bytes g"] by (simp add: gm_size_def)
    then show ?thesis using l assms(2) by (simp add: gm_read_def ptr_at_def size_of_def u le_word_def)
  qed
  have "read_bytes g p n = concat (map (\<lambda>i. [gm_bytes g ! (unat p + i)]) [0..<unat n])"
    unfolding read_bytes_def using rd by (intro arg_cong [where f = concat] map_cong) auto
  also have "\<dots> = take (unat n) (drop (unat p) (gm_bytes g))"
    using assms(1) by (intro nth_equalityI) (auto simp: gm_size_def concat_map_singleton)
  finally show ?thesis .
qed

definition cell_bytes :: "encoding_rs \<Rightarrow> u32 \<Rightarrow> cell \<Rightarrow> u8 list" where
  "cell_bytes rs cp cell = [cell_byte rs cp (fst cell), snd cell]"

text \<open>The loop of \<^verbatim>\<open>VioReadCellStr\<close>, when buffer and length admit all cells, writes them one after the other.\<close>

lemma cell_str_loop_put:
  assumes "gm_size (vs_guest st) \<le> 2 ^ 32" "unat p + unat off + 2 * length cells \<le> gm_size (vs_guest st)"
    "unat off + 2 * length cells \<le> unat n"
  shows "cell_str_loop rs p n st off cells =
    (st\<lparr> vs_guest := gm_put (vs_guest st) (unat p + unat off) (concat (map (cell_bytes rs (vs_cp st)) cells)) \<rparr>,
     off + 2 * of_nat (length cells))"
  using assms
proof (induction cells arbitrary: st off)
  case (Cons cell cells)
  obtain ch attr where cell: "cell = (ch, attr)" by fastforce
  let ?g = "vs_guest st"
  have "unat off + 2 \<le> unat n" using Cons.prems(3) by simp
  then have "unat off + 2 < 65536" using unat_u16_lt [of n] by (rule le_less_trans)
  then have o: "unat (off + 2) = unat off + 2" by (simp add: unat_word_ariths)
  then have o2: "unat (off + 2) = unat off + 2" "\<not> ucast n < off + 2"
    using Cons.prems(3) by (auto simp: word_less_nat_alt)
  have a: "unat (p + off) = unat p + unat off" "unat (p + off + 1) = unat p + unat off + 1"
    using Cons.prems(1,2) by (auto simp: unat_word_ariths)
  let ?bs = "cell_bytes rs (vs_cp st) cell"
  define g1 where "g1 = gm_put ?g (unat p + unat off) ?bs"
  have "gm_put (gm_put ?g (unat p + unat off) [cell_byte rs (vs_cp st) ch]) (unat p + unat off + 1) [attr] = g1"
    using gm_put_append [of "unat p + unat off" "[cell_byte rs (vs_cp st) ch]" "[attr]" ?g] Cons.prems(2)
    by (simp add: g1_def cell_bytes_def cell)
  then have s2: "vs_write (vs_write st (p + off) (cell_byte rs (vs_cp st) ch)) (p + off + 1) attr = st\<lparr> vs_guest := g1 \<rparr>"
    using Cons.prems(1,2) a by (simp add: vs_write_def write_byte_put gm_size_put)
  have sz: "gm_size g1 = gm_size ?g" unfolding g1_def using Cons.prems(2) by (intro gm_size_put) (simp add: cell_bytes_def)
  have "cell_str_loop rs p n (st\<lparr> vs_guest := g1 \<rparr>) (off + 2) cells =
     (st\<lparr> vs_guest := gm_put g1 (unat p + unat off + 2) (concat (map (cell_bytes rs (vs_cp st)) cells)) \<rparr>,
      off + 2 + 2 * of_nat (length cells))"
    using Cons.IH [of "st\<lparr> vs_guest := g1 \<rparr>" "off + 2"] Cons.prems o2 sz by (simp add: add.assoc)
  moreover have "gm_put g1 (unat p + unat off + 2) bs = gm_put ?g (unat p + unat off) (?bs @ bs)"
    if "unat p + unat off + 2 + length bs \<le> gm_size ?g" for bs
    using gm_put_append [of "unat p + unat off" ?bs bs ?g] that by (simp add: g1_def cell_bytes_def)
  moreover have "length (concat (map (cell_bytes rs (vs_cp st)) cells)) = 2 * length cells"
    by (induction cells) (auto simp: cell_bytes_def)
  ultimately show ?case using o2 s2 Cons.prems(2) cell by (simp add: Let_def algebra_simps)
qed simp

section \<open>Properties\<close>




lemma ucast_of_nat_trunc: "ucast (of_nat n :: u32) = (of_nat n :: u16)"
  by (rule bit_word_eqI) (simp add: bit_simps)

lemma cell_byte_decode:
  assumes "cp = 437 \<or> cp = 850"
  shows "cell_byte rs cp (decode_vio_byte rs b cp) = b"
proof -
  obtain t where t: "sbcs_table t" "cp_decode rs [b] cp = [decode_byte t b]"
    "\<And>ch. cp_encode rs [ch] cp = [encode_char t ch]"
    using assms cp437_table cp850_table
    by (auto simp: cp_decode_def cp_encode_def decode_single_byte_def encode_single_byte_def)
  have e: "encode_char t (decode_byte t b) = b" by (rule encode_decode_byte [OF t(1)])
  have "decode_vio_byte rs b cp = decode_byte t b" using t(2) by (simp add: decode_vio_byte_def decode_byte_def)
  then show ?thesis using t(3) [of "decode_byte t b"] e by (simp add: cell_byte_def) (simp add: encode_char_def split: if_splits)
qed

text \<open>\<^verbatim>\<open>VioReadCellStr\<close> with room for the cells it finds.\<close>

lemma vio_read_cell_str_put:
  assumes "gm_size (vs_guest st) \<le> 2 ^ 32" "unat p_buf + 2 * length cells \<le> gm_size (vs_guest st)"
    and "gm_read (vs_guest st) pcb = Some (of_nat (2 * length cells) :: u16)" "2 * length cells < 2 ^ 16"
    and "read_cells (vs_console st) (ucast row) (ucast col) (length cells) = cells"
  shows "vs_guest (snd (vio_read_cell_str rs st p_buf pcb row col)) =
    guest_write_ign (gm_put (vs_guest st) (unat p_buf) (concat (map (cell_bytes rs (vs_cp st)) cells))) pcb
      (of_nat (2 * length cells) :: u16)"
proof -
  let ?n = "of_nat (2 * length cells) :: u16"
  have n: "unat ?n = 2 * length cells" using assms(4) by (simp only: unat_of_nat) (simp add: take_bit_nat_eq_self)
  then have h: "unat (?n div 2) = length cells" by (simp add: unat_div)
  have r: "read_dflt (vs_guest st) pcb (0 :: u16) = ?n" using assms(3) by (simp add: read_dflt_def)
  have "cell_str_loop rs p_buf ?n st 0 cells =
      (st\<lparr> vs_guest := gm_put (vs_guest st) (unat p_buf + unat (0 :: u32)) (concat (map (cell_bytes rs (vs_cp st)) cells)) \<rparr>,
       0 + 2 * of_nat (length cells))"
    using assms(1,2) n by (intro cell_str_loop_put) simp_all
  moreover have "ucast (2 * of_nat (length cells) :: u32) = ?n"
    using ucast_of_nat_trunc [of "2 * length cells"] by simp
  ultimately show ?thesis using assms(5) by (simp add: vio_read_cell_str_def read_cell_str_def Let_def r h [simplified] vs_write_def)
qed

text \<open>
  C37. What is written with \<^verbatim>\<open>VioWrtCharStrAtt\<close> is read back by \<^verbatim>\<open>VioReadCellStr\<close>: in codepages 437
  and 850, for any string of any bytes that fits in its row, the buffer receives the guest's own bytes,
  each followed by the attribute, and the length cell is set to their number. The conversion to Unicode
  on the way to the screen and back loses nothing.
\<close>

theorem vio_write_read_cells:
  fixes rs :: encoding_rs and p_attr :: u32
  assumes inv: "vio_inv (vs_console st)" and cp: "vs_cp st = 437 \<or> vs_cp st = 850"
    and row: "unat row < unat (vio_rows (vs_console st))"
    and col: "unat col + unat cb \<le> unat (vio_cols (vs_console st))"
    and mem: "gm_size (vs_guest st) \<le> 2 ^ 32" "unat psz + unat cb \<le> gm_size (vs_guest st)"
      "unat p_buf + 2 * unat cb \<le> gm_size (vs_guest st)"
    and len: "gm_read (vs_guest st) pcb = Some (of_nat (2 * unat cb) :: u16)" "2 * unat cb < 2 ^ 16"
    and apart: "unat pcb + 2 \<le> unat p_buf \<or> unat p_buf + 2 * unat cb \<le> unat pcb"
  defines "st1 \<equiv> snd (vio_wrt_char_str_att rs st psz cb row col p_attr)"
  defines "st2 \<equiv> snd (vio_read_cell_str rs st1 p_buf pcb row col)"
  shows "gm_slice (vs_guest st2) p_buf (2 * unat cb) =
      Some (concat (map (\<lambda>b. [b, if p_attr = 0 then 7 else read_dflt (vs_guest st) p_attr 7])
        (take (unat cb) (drop (unat psz) (gm_bytes (vs_guest st)))))) \<and>
    gm_read (vs_guest st2) pcb = Some (of_nat (2 * unat cb) :: u16)"
proof -
  let ?g = "vs_guest st" and ?attr = "if p_attr = 0 then 7 else read_dflt (vs_guest st) p_attr (7 :: u8)"
  let ?str = "take (unat cb) (drop (unat psz) (gm_bytes ?g))"
  let ?cells = "map (\<lambda>b. (decode_vio_byte rs b (vs_cp st), ?attr)) ?str"
  let ?out = "concat (map (cell_bytes rs (vs_cp st)) ?cells)"
  have str: "length ?str = unat cb" "read_bytes ?g psz cb = ?str"
    using mem read_bytes_in [of psz cb ?g] by (auto simp: gm_size_def)
  have cells: "length ?cells = unat cb" using str(1) by simp
  have "unat row < 65536" "unat col < 65536"
    using row col unat_u16_lt [of "vio_rows (vs_console st)"] unat_u16_lt [of "vio_cols (vs_console st)"] by linarith+
  then have u: "unat (ucast row :: u16) = unat row" "unat (ucast col :: u16) = unat col"
    by (simp_all add: unsigned_ucast_eq take_bit_nat_eq_self)
  have st1: "vs_guest st1 = ?g" "vs_cp st1 = vs_cp st"
    "vs_console st1 = write_char_str_att rs (vs_console st) (ucast row) (ucast col) ?str ?attr (vs_cp st)"
    by (simp_all add: st1_def vio_wrt_char_str_att_def Let_def str(2))
  have "read_cells (vs_console st1) (ucast row) (ucast col) (length ?cells) = ?cells"
    using write_read_cells [OF inv, of "ucast row" "ucast col" ?str rs ?attr "vs_cp st"] row col u str(1)
    by (simp add: st1(3) word_less_nat_alt)
  then have g2: "vs_guest st2 = guest_write_ign (gm_put ?g (unat p_buf) ?out) pcb (of_nat (2 * unat cb) :: u16)"
    using vio_read_cell_str_put [of st1 p_buf ?cells pcb row col rs] mem len cells by (simp add: st2_def st1 del: length_map)
  have out: "?out = concat (map (\<lambda>b. [b, ?attr]) ?str)"
    using cell_byte_decode [OF cp] by (simp add: cell_bytes_def comp_def)
  have lo: "length ?out = 2 * unat cb" using str(1) by (simp add: length_concat comp_def cell_bytes_def sum_list_triv)
  have fit: "unat p_buf + length ?out \<le> gm_size ?g" using mem(3) lo by simp
  have "take (2 * unat cb) (drop (unat p_buf) (gm_bytes (vs_guest st2))) = ?out"
    using guest_write_ign_slice [of "unat p_buf" "2 * unat cb" pcb "gm_put ?g (unat p_buf) ?out" "of_nat (2 * unat cb) :: u16"]
      put_same [OF fit] apart lo by (auto simp: g2 size_of_def)
  moreover have "gm_size (vs_guest st2) = gm_size ?g" using gm_size_put [OF fit] by (simp add: g2)
  ultimately have a: "gm_slice (vs_guest st2) p_buf (2 * unat cb) = Some ?out"
    using mem by (simp add: gm_slice_def ptr_at_def)
  have "unat pcb + 2 \<le> gm_size ?g"
    using len(1) by (auto simp: gm_read_def bind_eq_Some_conv ptr_at_Some size_of_def)
  then have "gm_read (vs_guest st2) pcb = Some (of_nat (2 * unat cb) :: u16)"
    unfolding g2 using gm_size_put [OF fit] mem(1) by (intro guest_write_ign_read) (simp_all only: size_of_def, simp_all)
  with a out show ?thesis by simp
qed

text \<open>Two characters, one of them above 0x7F, at row 3 and column 5 of a fresh screen.\<close>

theorem vio_write_read_cells_witness:
  "let st = \<lparr> vs_console = vio_new None, vs_guest = \<lparr> gm_bytes = [0x80, 0x41, 4, 0, 0, 0, 0, 0] \<rparr>, vs_cp = 437 \<rparr>;
       st2 = snd (vio_read_cell_str latin1_rs (snd (vio_wrt_char_str_att latin1_rs st 0 2 3 5 0)) 4 2 3 5) in
   gm_slice (vs_guest st2) 4 4 = Some [0x80, 7, 0x41, 7] \<and> gm_read (vs_guest st2) 2 = Some (4 :: u16)"
proof -
  let ?g = "\<lparr> gm_bytes = [0x80, 0x41, 4, 0, 0, 0, 0, 0] \<rparr> :: guest_memory"
  let ?st = "\<lparr> vs_console = vio_new None, vs_guest = ?g, vs_cp = 437 \<rparr>"
  have "le_word [4, 0] = (4 :: u16)" by code_simp
  then have "gm_read ?g 2 = Some (4 :: u16)" by (simp add: gm_read_def ptr_at_def size_of_def gm_size_def)
  then show ?thesis
    using vio_write_read_cells [of ?st 3 5 2 0 4 2 latin1_rs 0] vio_new_inv [of None]
    by (simp add: gm_size_def vio_new_def detect_terminal_size_def)
qed

end
