(* ===== verification/File_Calls.thy ===== *)
theory File_Calls
  imports VFS Managers Viocalls UTF8
begin

unbundle bit_operations_syntax

text \<open>
  The file calls of the guest (\<^verbatim>\<open>src/src/loader/doscalls.rs\<close>, \<^verbatim>\<open>src/src/loader/stubs.rs\<close>): opening, reading and
  writing, positions, locks, directories, searches, file information, extended attributes, pipes and
  the current directory. They read their names and buffers from guest memory, go through the drive
  manager to the volume, and write results back. Handles below 3 are the console, from 3 on files of
  the drive manager, from \<open>PIPE_HANDLE_BASE\<close> on pipes.

  The volume is the parameter \<open>V\<close>, a host file behind a pipe handle a value of type \<open>'f\<close> with the
  operations of the Rust standard library. Input is a list of events; \<open>None\<close> is a call that has not
  returned when they are used up, or one that never returns (or, for \<open>dos_read\<close>, a panic of a slice).
\<close>

section \<open>State\<close>

datatype seek_from = FromStart u64 | FromCurrent int | FromEnd int

record 'f std_file =
  sf_read :: "'f \<Rightarrow> nat \<Rightarrow> u8 list option \<times> 'f"
  sf_write :: "'f \<Rightarrow> u8 list \<Rightarrow> nat option \<times> 'f"
  sf_seek :: "'f \<Rightarrow> seek_from \<Rightarrow> u64 option \<times> 'f"
  sf_set_len :: "'f \<Rightarrow> u64 \<Rightarrow> bool \<times> 'f"
  sf_flush :: "'f \<Rightarrow> 'f"
  sf_metadata :: "'f \<Rightarrow> (u64 \<times> bool) option"
  sf_try_clone :: "'f \<Rightarrow> 'f option"

text \<open>What a wait for input observes: the loader shutting down, nothing yet, or input.\<close>

datatype key_event = Shutdown | NoKey | Key u8
datatype tty_event = TtyShutdown | TtyByte u8 | TtyEmpty | TtyRetry | TtyError

text \<open>
  The two event lists are what the key queue and the terminal will deliver; output to the terminal is
  kept as it was written.
\<close>

record ('b, 'f, 'c, 't) file_state =
  fl_guest :: guest_memory
  fl_drives :: "'b drive_manager"
  fl_pipes :: "'f handle_manager"
  fl_process :: "('c, 't) process_manager"
  fl_console :: vio_manager
  fl_cp :: u32
  fl_sdl2_text :: bool
  fl_pending_lf :: bool
  fl_cooked_chars :: nat
  fl_keys :: "key_event list"
  fl_tty :: "tty_event list"
  fl_host_out :: "u8 list"
  fl_terminal :: "(u32 \<times> ustring) list"

definition fl_write :: "('b, 'f, 'c, 't) file_state \<Rightarrow> u32 \<Rightarrow> 'a::len word \<Rightarrow> ('b, 'f, 'c, 't) file_state" where
  "fl_write st p v = st\<lparr> fl_guest := guest_write_ign (fl_guest st) p v \<rparr>"

definition fl_write_bytes :: "('b, 'f, 'c, 't) file_state \<Rightarrow> u32 \<Rightarrow> u8 list \<Rightarrow> ('b, 'f, 'c, 't) file_state" where
  "fl_write_bytes st p bs = st\<lparr> fl_guest := guest_write_bytes_ign (fl_guest st) p bs \<rparr>"

text \<open>\<^verbatim>\<open>if ptr != 0 { guest_write(ptr, v) }\<close>.\<close>

definition fl_out :: "('b, 'f, 'c, 't) file_state \<Rightarrow> u32 \<Rightarrow> 'a::len word \<Rightarrow> ('b, 'f, 'c, 't) file_state" where
  "fl_out st p v = (if p \<noteq> 0 then fl_write st p v else st)"

definition fl_str :: "encoding_rs \<Rightarrow> ('b, 'f, 'c, 't) file_state \<Rightarrow> u32 \<Rightarrow> ustring" where
  "fl_str rs st p = read_guest_string rs (fl_cp st) (fl_guest st) p"

text \<open>The error code of a result without a value.\<close>

definition code_of :: "(os2_error + 'a) \<times> 'b drive_manager \<Rightarrow> ('b, 'f, 'c, 't) file_state \<Rightarrow> u32 \<times> ('b, 'f, 'c, 't) file_state" where
  "code_of r st = ((case fst r of Inr _ \<Rightarrow> 0 | Inl e \<Rightarrow> e), st\<lparr> fl_drives := snd r \<rparr>)"

section \<open>Open and close\<close>

definition action_code :: "open_action \<Rightarrow> u32" where
  "action_code a = (case a of Existed \<Rightarrow> 1 | Created \<Rightarrow> 2 | Replaced \<Rightarrow> 3)"

definition dos_open ::
  "encoding_rs \<Rightarrow> 'b vfs_backend \<Rightarrow> ('b, 'f, 'c, 't) file_state \<Rightarrow> u32 \<Rightarrow> u32 \<Rightarrow> u32 \<Rightarrow> u32 \<Rightarrow> u32
    \<Rightarrow> u32 \<times> ('b, 'f, 'c, 't) file_state" where
  "dos_open rs V st psz_name phf pul_action fs_open_flags fs_open_mode =
    (case open_mode_from_raw fs_open_mode of
       Inl e \<Rightarrow> (e, st)
     | Inr mode \<Rightarrow>
         (case open_file V (fl_drives st) (fl_str rs st psz_name) mode (sharing_mode_from_raw fs_open_mode)
                 (open_flags_from_raw fs_open_flags) 0 of
            (Inl e, dm) \<Rightarrow> (e, st\<lparr> fl_drives := dm \<rparr>)
          | (Inr (handle, action), dm) \<Rightarrow>
              (0, fl_out (fl_write (st\<lparr> fl_drives := dm \<rparr>) phf handle) pul_action (action_code action))))"

definition dos_close :: "'b vfs_backend \<Rightarrow> ('b, 'f, 'c, 't) file_state \<Rightarrow> u32 \<Rightarrow> u32 \<times> ('b, 'f, 'c, 't) file_state" where
  "dos_close V st hf =
    (if PIPE_HANDLE_BASE \<le> hf then (0, st\<lparr> fl_pipes := snd (hm_close (fl_pipes st) hf) \<rparr>)
     else code_of (close_file V (fl_drives st) hf) st)"

section \<open>Reading from the console\<close>

definition stdin_deliver :: "('b, 'f, 'c, 't) file_state \<Rightarrow> u32 \<Rightarrow> u32 \<Rightarrow> u8 \<Rightarrow> ('b, 'f, 'c, 't) file_state" where
  "stdin_deliver st buf actual b = fl_out (fl_write st buf b) actual (1 :: u32)"

definition stdin_echo :: "encoding_rs \<Rightarrow> ('b, 'f, 'c, 't) file_state \<Rightarrow> u8 list \<Rightarrow> u32 \<Rightarrow> ('b, 'f, 'c, 't) file_state" where
  "stdin_echo rs st bs cp = st\<lparr> fl_console := write_tty rs (fl_console st) bs 0x07 cp \<rparr>"

text \<open>The loop over the key queue: a backspace at the start of the line is discarded.\<close>

fun stdin_keys ::
  "encoding_rs \<Rightarrow> u32 \<Rightarrow> u32 \<Rightarrow> ('b, 'f, 'c, 't) file_state \<Rightarrow> key_event list \<Rightarrow> (u32 \<times> ('b, 'f, 'c, 't) file_state) option" where
  "stdin_keys rs buf actual st [] = None"
| "stdin_keys rs buf actual st (Shutdown # evs) = Some (87, st\<lparr> fl_keys := evs \<rparr>)"
| "stdin_keys rs buf actual st (NoKey # evs) = stdin_keys rs buf actual st evs"
| "stdin_keys rs buf actual st (Key ch # evs) =
    (let st1 = st\<lparr> fl_keys := evs \<rparr> in
     if ch = 0x0D then
       Some (0, stdin_deliver (stdin_echo rs (st1\<lparr> fl_pending_lf := True, fl_cooked_chars := 0 \<rparr>) [0x0D, 0x0A] 437) buf actual 0x0D)
     else if ch = 0x08 then
       (if 0 < fl_cooked_chars st then
          Some (0, stdin_deliver (stdin_echo rs (st1\<lparr> fl_cooked_chars := fl_cooked_chars st - 1 \<rparr>) [0x08, 0x20, 0x08] 437) buf actual ch)
        else stdin_keys rs buf actual st evs)
     else
       let s1 = (if 0x20 \<le> ch then stdin_echo rs (st1\<lparr> fl_cooked_chars := fl_cooked_chars st + 1 \<rparr>) [ch] (fl_cp st) else st1) in
       Some (0, stdin_deliver s1 buf actual ch))"

text \<open>The loop over reads of the terminal.\<close>

fun stdin_terminal ::
  "u32 \<Rightarrow> u32 \<Rightarrow> ('b, 'f, 'c, 't) file_state \<Rightarrow> tty_event list \<Rightarrow> (u32 \<times> ('b, 'f, 'c, 't) file_state) option" where
  "stdin_terminal buf actual st [] = None"
| "stdin_terminal buf actual st (TtyShutdown # evs) = Some (87, st\<lparr> fl_tty := evs \<rparr>)"
| "stdin_terminal buf actual st (TtyByte b # evs) =
    (let st1 = st\<lparr> fl_tty := evs \<rparr>;
         s1 = (if b = 0x0D then st1\<lparr> fl_pending_lf := True, fl_host_out := fl_host_out st @ [0x0D, 0x0A] \<rparr>
               else if b = 0x08 \<or> b = 0x7F then st1\<lparr> fl_host_out := fl_host_out st @ [0x08, 0x20, 0x08] \<rparr>
               else if 0x20 \<le> b then st1\<lparr> fl_host_out := fl_host_out st @ [b] \<rparr>
               else st1) in
     Some (0, stdin_deliver s1 buf actual b))"
| "stdin_terminal buf actual st (TtyEmpty # evs) = stdin_terminal buf actual st evs"
| "stdin_terminal buf actual st (TtyRetry # evs) = stdin_terminal buf actual st evs"
| "stdin_terminal buf actual st (TtyError # evs) = Some (5, fl_out (st\<lparr> fl_tty := evs \<rparr>) actual (0 :: u32))"

definition dos_read_stdin ::
  "encoding_rs \<Rightarrow> ('b, 'f, 'c, 't) file_state \<Rightarrow> u32 \<Rightarrow> u32 \<Rightarrow> u32 \<Rightarrow> (u32 \<times> ('b, 'f, 'c, 't) file_state) option" where
  "dos_read_stdin rs st buf len actual =
    (if len = 0 then Some (0, fl_out st actual (0 :: u32))
     else if fl_pending_lf st then Some (0, stdin_deliver (st\<lparr> fl_pending_lf := False \<rparr>) buf actual 0x0A)
     else if fl_sdl2_text st then stdin_keys rs buf actual st (fl_keys st)
     else stdin_terminal buf actual st (fl_tty st))"

section \<open>Read and write\<close>

definition READ_CAP :: u32 where "READ_CAP = 64 * 1024 * 1024"

definition dos_read ::
  "encoding_rs \<Rightarrow> 'b vfs_backend \<Rightarrow> 'f std_file \<Rightarrow> ('b, 'f, 'c, 't) file_state \<Rightarrow> u32 \<Rightarrow> u32 \<Rightarrow> u32 \<Rightarrow> u32
    \<Rightarrow> (u32 \<times> ('b, 'f, 'c, 't) file_state) option" where
  "dos_read rs V F st hf buf len0 actual =
    (if hf = 0 then dos_read_stdin rs st buf len0 actual
     else
       let len = min len0 READ_CAP in
       if PIPE_HANDLE_BASE \<le> hf then
         (case hm_get (fl_pipes st) hf of
            None \<Rightarrow> Some (6, st)
          | Some f \<Rightarrow>
              (case sf_read F f (unat len) of
                 (Some data, f') \<Rightarrow>
                   Some (0, fl_out (fl_write_bytes (st\<lparr> fl_pipes := hm_replace (fl_pipes st) hf f' \<rparr>) buf data) actual
                     (of_nat (length data) :: u32))
               | (None, f') \<Rightarrow> Some (5, st\<lparr> fl_pipes := hm_replace (fl_pipes st) hf f' \<rparr>)))
       else
         (case read_file V (fl_drives st) hf (replicate (unat len) 0) of
            ((Inl e, _), dm) \<Rightarrow> Some (e, st\<lparr> fl_drives := dm \<rparr>)
          | ((Inr n, data), dm) \<Rightarrow>
              if length data < n then None
              else Some (0, fl_out (fl_write_bytes (st\<lparr> fl_drives := dm \<rparr>) buf (take n data)) actual (of_nat n :: u32))))"

text \<open>\<^verbatim>\<open>api::doscalls::dos_write\<close>: console output outside the text window, as code page 437.\<close>

definition api_dos_write :: "u32 \<Rightarrow> u8 list \<Rightarrow> (u32 \<times> ustring) option" where
  "api_dos_write fd data = (if fd = 1 \<or> fd = 2 then Some (of_nat (length data), map cp437_to_char data) else None)"

definition dos_write ::
  "encoding_rs \<Rightarrow> 'b vfs_backend \<Rightarrow> 'f std_file \<Rightarrow> ('b, 'f, 'c, 't) file_state \<Rightarrow> u32 \<Rightarrow> u32 \<Rightarrow> u32 \<Rightarrow> u32
    \<Rightarrow> u32 \<times> ('b, 'f, 'c, 't) file_state" where
  "dos_write rs V F st fd buf len actual =
    (case gm_slice (fl_guest st) buf (unat len) of
       None \<Rightarrow> (87, st)
     | Some data \<Rightarrow>
         if fd = 1 \<or> fd = 2 then
           (if fl_sdl2_text st then
              (0, fl_out (st\<lparr> fl_console := write_tty rs (fl_console st) data 0x07 (fl_cp st) \<rparr>) actual
                 (of_nat (length data) :: u32))
            else
              (case api_dos_write fd data of
                 Some (n, out) \<Rightarrow> (0, fl_out (st\<lparr> fl_terminal := fl_terminal st @ [(fd, out)] \<rparr>) actual n)
               | None \<Rightarrow> (1, st)))
         else if PIPE_HANDLE_BASE \<le> fd then
           (case hm_get (fl_pipes st) fd of
              None \<Rightarrow> (6, st)
            | Some f \<Rightarrow>
                (case sf_write F f data of
                   (Some n, f') \<Rightarrow> (0, fl_out (st\<lparr> fl_pipes := hm_replace (fl_pipes st) fd f' \<rparr>) actual (of_nat n :: u32))
                 | (None, f') \<Rightarrow> (5, st\<lparr> fl_pipes := hm_replace (fl_pipes st) fd f' \<rparr>)))
         else
           (case write_file V (fl_drives st) fd data of
              (Inl e, dm) \<Rightarrow> (e, st\<lparr> fl_drives := dm \<rparr>)
            | (Inr n, dm) \<Rightarrow> (0, fl_out (st\<lparr> fl_drives := dm \<rparr>) actual (of_nat n :: u32))))"

text \<open>\<^verbatim>\<open>DosPutMessage\<close>.\<close>

definition dos_put_message ::
  "encoding_rs \<Rightarrow> 'b vfs_backend \<Rightarrow> 'f std_file \<Rightarrow> ('b, 'f, 'c, 't) file_state \<Rightarrow> u32 \<Rightarrow> u32 \<Rightarrow> u32
    \<Rightarrow> u32 \<times> ('b, 'f, 'c, 't) file_state" where
  "dos_put_message rs V F st hf cb p_msg =
    (if p_msg = 0 \<or> cb = 0 then (0, st) else dos_write rs V F st hf p_msg cb 0)"

definition pipe_seek :: "u32 \<Rightarrow> u32 \<Rightarrow> seek_from option" where
  "pipe_seek meth offset =
    (if meth = 0 then Some (FromStart (scast offset)) else if meth = 1 then Some (FromCurrent (sint offset))
     else if meth = 2 then Some (FromEnd (sint offset)) else None)"

definition dos_set_file_ptr ::
  "'b vfs_backend \<Rightarrow> 'f std_file \<Rightarrow> ('b, 'f, 'c, 't) file_state \<Rightarrow> u32 \<Rightarrow> u32 \<Rightarrow> u32 \<Rightarrow> u32
    \<Rightarrow> u32 \<times> ('b, 'f, 'c, 't) file_state" where
  "dos_set_file_ptr V F st hf offset meth actual =
    (if PIPE_HANDLE_BASE \<le> hf then
       (case hm_get (fl_pipes st) hf of
          None \<Rightarrow> (6, st)
        | Some f \<Rightarrow>
            (case pipe_seek meth offset of
               None \<Rightarrow> (1, st)
             | Some pos \<Rightarrow>
                 (case sf_seek F f pos of
                    (Some new_pos, f') \<Rightarrow>
                      (0, fl_out (st\<lparr> fl_pipes := hm_replace (fl_pipes st) hf f' \<rparr>) actual (ucast new_pos :: u32))
                  | (None, f') \<Rightarrow> (1, st\<lparr> fl_pipes := hm_replace (fl_pipes st) hf f' \<rparr>))))
     else
       (case seek_mode_from_raw meth of
          Inl e \<Rightarrow> (e, st)
        | Inr mode \<Rightarrow>
            (case seek_file V (fl_drives st) hf (sint offset) mode of
               (Inl e, dm) \<Rightarrow> (e, st\<lparr> fl_drives := dm \<rparr>)
             | (Inr new_pos, dm) \<Rightarrow> (0, fl_out (st\<lparr> fl_drives := dm \<rparr>) actual (ucast new_pos :: u32)))))"

definition dos_set_file_size ::
  "'b vfs_backend \<Rightarrow> 'f std_file \<Rightarrow> ('b, 'f, 'c, 't) file_state \<Rightarrow> u32 \<Rightarrow> u32 \<Rightarrow> u32 \<times> ('b, 'f, 'c, 't) file_state" where
  "dos_set_file_size V F st hf new_size =
    (if PIPE_HANDLE_BASE \<le> hf then
       (case hm_get (fl_pipes st) hf of
          None \<Rightarrow> (6, st)
        | Some f \<Rightarrow>
            (case sf_set_len F f (ucast new_size) of
               (ok, f') \<Rightarrow> (if ok then 0 else 5, st\<lparr> fl_pipes := hm_replace (fl_pipes st) hf f' \<rparr>)))
     else code_of (set_file_size V (fl_drives st) hf (ucast new_size)) st)"

definition lock_range_at :: "guest_memory \<Rightarrow> u32 \<Rightarrow> file_lock_range list" where
  "lock_range_at g p =
    (if p \<noteq> 0 then
       let offset = read_dflt g p (0 :: u32); len = read_dflt g (p + 4) (0 :: u32) in
       if 0 < len then [\<lparr> lr_offset = offset, lr_length = len \<rparr>] else []
     else [])"

definition dos_set_file_locks ::
  "'b vfs_backend \<Rightarrow> ('b, 'f, 'c, 't) file_state \<Rightarrow> u32 \<Rightarrow> u32 \<Rightarrow> u32 \<Rightarrow> u32 \<Rightarrow> u32 \<times> ('b, 'f, 'c, 't) file_state" where
  "dos_set_file_locks V st hf p_unlock p_lock timeout =
    (let unlock_ranges = lock_range_at (fl_guest st) p_unlock; lock_ranges = lock_range_at (fl_guest st) p_lock in
     if unlock_ranges = [] \<and> lock_ranges = [] then (0, st)
     else code_of (set_file_locks V (fl_drives st) hf unlock_ranges lock_ranges timeout) st)"

definition dos_protect_set_file_locks ::
  "'b vfs_backend \<Rightarrow> ('b, 'f, 'c, 't) file_state \<Rightarrow> u32 \<Rightarrow> u32 \<Rightarrow> u32 \<Rightarrow> u32 \<Rightarrow> u32 \<times> ('b, 'f, 'c, 't) file_state" where
  "dos_protect_set_file_locks V st hf p_unlock p_lock timeout = dos_set_file_locks V st hf p_unlock p_lock timeout"

text \<open>\<^verbatim>\<open>DosResetBuffer\<close>; the order in which open files are flushed is the hash map's.\<close>

definition dos_reset_buffer ::
  "'b vfs_backend \<Rightarrow> 'f std_file \<Rightarrow> u32 list \<Rightarrow> ('b, 'f, 'c, 't) file_state \<Rightarrow> u32 \<Rightarrow> u32 \<times> ('b, 'f, 'c, 't) file_state" where
  "dos_reset_buffer V F order st hf =
    (if hf = 0xFFFFFFFF then
       (0, st\<lparr> fl_drives := flush_all V order (fl_drives st), fl_pipes := hm_flush_all (sf_flush F) (fl_pipes st) \<rparr>)
     else if PIPE_HANDLE_BASE \<le> hf then
       (case hm_get (fl_pipes st) hf of
          None \<Rightarrow> (6, st)
        | Some f \<Rightarrow> (0, st\<lparr> fl_pipes := hm_replace (fl_pipes st) hf (sf_flush F f) \<rparr>))
     else code_of (flush_file V (fl_drives st) hf) st)"

section \<open>Paths\<close>

definition dos_delete ::
  "encoding_rs \<Rightarrow> 'b vfs_backend \<Rightarrow> ('b, 'f, 'c, 't) file_state \<Rightarrow> u32 \<Rightarrow> u32 \<times> ('b, 'f, 'c, 't) file_state" where
  "dos_delete rs V st psz_name = code_of (delete_file V (fl_drives st) (fl_str rs st psz_name)) st"

definition dos_force_delete ::
  "encoding_rs \<Rightarrow> 'b vfs_backend \<Rightarrow> ('b, 'f, 'c, 't) file_state \<Rightarrow> u32 \<Rightarrow> u32 \<times> ('b, 'f, 'c, 't) file_state" where
  "dos_force_delete rs V st psz_name = dos_delete rs V st psz_name"

definition dos_move ::
  "encoding_rs \<Rightarrow> 'b vfs_backend \<Rightarrow> ('b, 'f, 'c, 't) file_state \<Rightarrow> u32 \<Rightarrow> u32 \<Rightarrow> u32 \<times> ('b, 'f, 'c, 't) file_state" where
  "dos_move rs V st psz_old psz_new = code_of (rename_file V (fl_drives st) (fl_str rs st psz_old) (fl_str rs st psz_new)) st"

definition dos_copy ::
  "encoding_rs \<Rightarrow> 'b vfs_backend \<Rightarrow> ('b, 'f, 'c, 't) file_state \<Rightarrow> u32 \<Rightarrow> u32 \<Rightarrow> u32 \<times> ('b, 'f, 'c, 't) file_state" where
  "dos_copy rs V st psz_src psz_dst = code_of (copy_file V (fl_drives st) (fl_str rs st psz_src) (fl_str rs st psz_dst)) st"

definition dos_create_dir ::
  "encoding_rs \<Rightarrow> 'b vfs_backend \<Rightarrow> ('b, 'f, 'c, 't) file_state \<Rightarrow> u32 \<Rightarrow> u32 \<times> ('b, 'f, 'c, 't) file_state" where
  "dos_create_dir rs V st psz_name = code_of (create_dir V (fl_drives st) (fl_str rs st psz_name)) st"

definition dos_delete_dir ::
  "encoding_rs \<Rightarrow> 'b vfs_backend \<Rightarrow> ('b, 'f, 'c, 't) file_state \<Rightarrow> u32 \<Rightarrow> u32 \<times> ('b, 'f, 'c, 't) file_state" where
  "dos_delete_dir rs V st psz_name = code_of (delete_dir V (fl_drives st) (fl_str rs st psz_name)) st"

section \<open>File information\<close>

definition write_filestatus3_from_vfs :: "guest_memory \<Rightarrow> file_status \<Rightarrow> u32 \<Rightarrow> guest_memory" where
  "write_filestatus3_from_vfs g status offset =
    (let g1 = guest_write_ign g offset (fs_creation_date status);
         g2 = guest_write_ign g1 (offset + 2) (fs_creation_time status);
         g3 = guest_write_ign g2 (offset + 4) (fs_last_access_date status);
         g4 = guest_write_ign g3 (offset + 6) (fs_last_access_time status);
         g5 = guest_write_ign g4 (offset + 8) (fs_last_write_date status);
         g6 = guest_write_ign g5 (offset + 10) (fs_last_write_time status);
         g7 = guest_write_ign g6 (offset + 12) (fs_file_size status);
         g8 = guest_write_ign g7 (offset + 16) (fs_file_alloc status) in
     guest_write_ign g8 (offset + 20) (fs_attributes status))"

text \<open>\<^verbatim>\<open>write_filestatus3_internal\<close>: the length and whether it is a directory, dated 1980-01-01.\<close>

definition write_filestatus3_internal :: "guest_memory \<Rightarrow> u64 \<times> bool \<Rightarrow> u32 \<Rightarrow> guest_memory" where
  "write_filestatus3_internal g meta offset =
    (let g1 = guest_write_ign g offset (0x21 :: u16);
         g2 = guest_write_ign g1 (offset + 2) (0 :: u16);
         g3 = guest_write_ign g2 (offset + 4) (0x21 :: u16);
         g4 = guest_write_ign g3 (offset + 6) (0 :: u16);
         g5 = guest_write_ign g4 (offset + 8) (0x21 :: u16);
         g6 = guest_write_ign g5 (offset + 10) (0 :: u16);
         g7 = guest_write_ign g6 (offset + 12) (ucast (fst meta) :: u32);
         g8 = guest_write_ign g7 (offset + 16) (ucast (fst meta) :: u32) in
     guest_write_ign g8 (offset + 20) (if snd meta then 0x10 else 0 :: u32))"

text \<open>A call on the backend of the drive of a path, as \<^verbatim>\<open>resolve_path\<close> followed by \<^verbatim>\<open>backend\<close>.\<close>

definition compute_ea_size :: "'b vfs_backend \<Rightarrow> 'b drive_manager \<Rightarrow> ustring \<Rightarrow> u32 \<times> 'b drive_manager" where
  "compute_ea_size V dm os2_path =
    (case on_path dm os2_path (be_enum_ea V) of
       (Inl e, dm') \<Rightarrow> (4, dm')
     | (Inr eas, dm') \<Rightarrow>
         (if eas = [] then 4
          else foldl (\<lambda>s ea. s + (9 + of_nat (length (as_bytes (ea_name ea))) + of_nat (length (ea_value ea)))) 0 eas + 4, dm'))"

text \<open>
  The names of a \<^verbatim>\<open>GEA2LIST\<close>. The guest chooses the offsets, and they are added without a check:
  the loop may go backwards and need not end.
\<close>

definition gea_name :: "guest_memory \<Rightarrow> u32 \<Rightarrow> u32 \<Rightarrow> ustring" where
  "gea_name g p cb_name =
    from_utf8_lossy (map (\<lambda>i. read_dflt g (p + 5 + of_nat i) (0 :: u8)) [0 ..< unat (min cb_name 260)])"

partial_function (option) gea_loop ::
  "guest_memory \<Rightarrow> u32 \<Rightarrow> u32 \<Rightarrow> u32 \<Rightarrow> ustring list \<Rightarrow> ustring list option" where
  "gea_loop g p_list cb_list pos names =
    (if pos < cb_list then
       let o_next = read_dflt g (p_list + pos) (0 :: u32);
           cb_name = ucast (read_dflt g (p_list + pos + 4) (0 :: u8)) in
       if cb_name = (0 :: u32) then Some names
       else
         let names' = names @ [gea_name g (p_list + pos) cb_name] in
         if o_next = 0 then Some names' else gea_loop g p_list cb_list (pos + o_next) names'
     else Some names)"

definition align4 :: "u32 \<Rightarrow> u32" where
  "align4 n = (n + 3) AND NOT 3"

text \<open>One entry of the \<^verbatim>\<open>FEA2LIST\<close>; the accumulator is the output position and the previous entry.\<close>

definition write_fea2 ::
  "encoding_rs \<Rightarrow> u32 \<Rightarrow> u32 \<Rightarrow> guest_memory \<times> u32 \<times> u32 option \<Rightarrow> ea_entry \<Rightarrow> guest_memory \<times> u32 \<times> u32 option" where
  "write_fea2 rs cp p_list acc ea =
    (case acc of (g, out_pos, prev) \<Rightarrow>
       let name_bytes = cp_encode rs (ea_name ea) cp; n = of_nat (length name_bytes);
           fea2_size = 4 + 1 + 1 + 2 + n + 1 + of_nat (length (ea_value ea));
           p = p_list + out_pos;
           g1 = guest_write_ign g p (0 :: u32);
           g2 = guest_write_ign g1 (p + 4) (ea_flags ea);
           g3 = guest_write_ign g2 (p + 5) (of_nat (length name_bytes) :: u8);
           g4 = guest_write_ign g3 (p + 6) (of_nat (length (ea_value ea)) :: u16);
           g5 = guest_write_bytes_ign g4 (p + 8) name_bytes;
           g6 = guest_write_ign g5 (p + 8 + n) (0 :: u8);
           g7 = (if ea_value ea \<noteq> [] then guest_write_bytes_ign g6 (p + 9 + n) (ea_value ea) else g6);
           g8 = (case prev of Some q \<Rightarrow> guest_write_ign g7 q (p - q) | None \<Rightarrow> g7) in
       (g8, out_pos + align4 fea2_size, Some p))"

fun query_eas ::
  "'b vfs_backend \<Rightarrow> 'b \<Rightarrow> ustring \<Rightarrow> ustring list \<Rightarrow> ea_entry list \<times> 'b" where
  "query_eas V b rel [] = ([], b)"
| "query_eas V b rel (nm # names) =
    (case be_get_ea V b rel nm of (r, b1) \<Rightarrow>
       let ea = (case r of Inr ea \<Rightarrow> ea | Inl _ \<Rightarrow> \<lparr> ea_name = nm, ea_value = [], ea_flags = 0 \<rparr>) in
       case query_eas V b1 rel names of (eas, b2) \<Rightarrow> (ea # eas, b2))"

definition dos_query_eas_from_list ::
  "encoding_rs \<Rightarrow> 'b vfs_backend \<Rightarrow> ('b, 'f, 'c, 't) file_state \<Rightarrow> ustring \<Rightarrow> u32 \<Rightarrow> u32
    \<Rightarrow> (u32 \<times> ('b, 'f, 'c, 't) file_state) option" where
  "dos_query_eas_from_list rs V st os2_path buf buf_len =
    (let g = fl_guest st; p_gea = read_dflt g buf (0 :: u32); p_fea = read_dflt g (buf + 4) (0 :: u32) in
     if buf_len < 12 then Some (111, st)
     else if p_gea = 0 \<or> p_fea = 0 then Some (87, st)
     else
       let gea_cb_list = read_dflt g p_gea (0 :: u32) in
       if gea_cb_list < 4 then Some (87, st)
       else
         (case gea_loop g p_gea gea_cb_list 4 [] of
            None \<Rightarrow> None
          | Some names \<Rightarrow>
              (case on_path (fl_drives st) os2_path (\<lambda>b rel. case query_eas V b rel names of (eas, b') \<Rightarrow> (Inr eas, b')) of
                 (Inl e, dm) \<Rightarrow> Some (e, st\<lparr> fl_drives := dm \<rparr>)
               | (Inr eas, dm) \<Rightarrow>
                   (case foldl (write_fea2 rs (fl_cp st) p_fea) (g, 4, None) eas of (g1, out_pos, _) \<Rightarrow>
                      Some (0, st\<lparr> fl_drives := dm,
                        fl_guest := guest_write_ign (guest_write_ign g1 p_fea out_pos) (buf + 8) (0 :: u32) \<rparr>)))))"

definition dos_query_path_info ::
  "encoding_rs \<Rightarrow> 'b vfs_backend \<Rightarrow> ('b, 'f, 'c, 't) file_state \<Rightarrow> u32 \<Rightarrow> u32 \<Rightarrow> u32 \<Rightarrow> u32
    \<Rightarrow> (u32 \<times> ('b, 'f, 'c, 't) file_state) option" where
  "dos_query_path_info rs V st psz_path level buf buf_len =
    (let name = fl_str rs st psz_path in
     if level = 1 then
       (if buf_len < 24 then Some (111, st)
        else case query_path_info V (fl_drives st) name level of
          (Inl e, dm) \<Rightarrow> Some (e, st\<lparr> fl_drives := dm \<rparr>)
        | (Inr status, dm) \<Rightarrow>
            Some (0, st\<lparr> fl_drives := dm, fl_guest := write_filestatus3_from_vfs (fl_guest st) status buf \<rparr>))
     else if level = 2 then
       (if buf_len < 28 then Some (111, st)
        else case query_path_info V (fl_drives st) name 1 of
          (Inl e, dm) \<Rightarrow> Some (e, st\<lparr> fl_drives := dm \<rparr>)
        | (Inr status, dm) \<Rightarrow>
            (case compute_ea_size V dm name of (ea_size, dm2) \<Rightarrow>
               Some (0, st\<lparr> fl_drives := dm2,
                 fl_guest := guest_write_ign (write_filestatus3_from_vfs (fl_guest st) status buf) (buf + 24) ea_size \<rparr>)))
     else if level = 3 then dos_query_eas_from_list rs V st name buf buf_len
     else Some (124, st))"

definition dos_query_file_info ::
  "'b vfs_backend \<Rightarrow> 'f std_file \<Rightarrow> ('b, 'f, 'c, 't) file_state \<Rightarrow> u32 \<Rightarrow> u32 \<Rightarrow> u32 \<Rightarrow> u32
    \<Rightarrow> u32 \<times> ('b, 'f, 'c, 't) file_state" where
  "dos_query_file_info V F st hf level buf buf_len =
    (if level = 1 \<and> buf_len < 24 \<or> level = 2 \<and> buf_len < 28 \<or> level = 3 \<and> buf_len < 12 then (111, st)
     else if level = 3 then (0, st)
     else if level \<noteq> 1 \<and> level \<noteq> 2 then (124, st)
     else
       let ea = (\<lambda>g. if level = 2 then guest_write_ign g (buf + 24) (4 :: u32) else g) in
       if PIPE_HANDLE_BASE \<le> hf then
         (case Option.bind (hm_get (fl_pipes st) hf) (sf_metadata F) of
            Some meta \<Rightarrow> (0, st\<lparr> fl_guest := ea (write_filestatus3_internal (fl_guest st) meta buf) \<rparr>)
          | None \<Rightarrow> (6, st))
       else
         (case query_file_info V (fl_drives st) hf 1 of
            (Inl e, dm) \<Rightarrow> (e, st\<lparr> fl_drives := dm \<rparr>)
          | (Inr status, dm) \<Rightarrow>
              (0, st\<lparr> fl_drives := dm, fl_guest := ea (write_filestatus3_from_vfs (fl_guest st) status buf) \<rparr>)))"

definition dos_query_file_mode_16 ::
  "encoding_rs \<Rightarrow> 'b vfs_backend \<Rightarrow> ('b, 'f, 'c, 't) file_state \<Rightarrow> u32 \<Rightarrow> u32 \<Rightarrow> u32 \<times> ('b, 'f, 'c, 't) file_state" where
  "dos_query_file_mode_16 rs V st p_filename p_attr =
    (case query_path_info V (fl_drives st) (fl_str rs st p_filename) 1 of
       (Inl e, dm) \<Rightarrow> (2, st\<lparr> fl_drives := dm \<rparr>)
     | (Inr status, dm) \<Rightarrow>
         let d = (if fa_contains (fs_attributes status) FA_DIRECTORY then 0x10 else 0 :: u16);
             attr = (if fa_contains (fs_attributes status) FA_READONLY then d OR 0x01 else d) in
         (0, fl_out (st\<lparr> fl_drives := dm \<rparr>) p_attr attr))"

text \<open>One \<^verbatim>\<open>DENA1\<close> entry of \<^verbatim>\<open>DosEnumAttribute\<close>; the loop stops when the buffer is full.\<close>

fun write_dena1 ::
  "encoding_rs \<Rightarrow> u32 \<Rightarrow> u32 \<Rightarrow> u32 \<Rightarrow> guest_memory \<Rightarrow> u32 \<Rightarrow> u32 \<Rightarrow> ea_entry list \<Rightarrow> guest_memory \<times> u32" where
  "write_dena1 rs cp pv_buf cb_buf g offset count [] = (g, count)"
| "write_dena1 rs cp pv_buf cb_buf g offset count (ea # eas) =
    (let name_bytes = cp_encode rs (ea_name ea) cp; n = of_nat (length name_bytes);
         aligned_size = align4 (4 + 1 + 2 + n + 1) in
     if cb_buf < offset + aligned_size then (g, count)
     else
       let p = pv_buf + offset;
           g1 = guest_write_ign g p (0 :: u32);
           g2 = guest_write_ign g1 (p + 4) (of_nat (length name_bytes) :: u8);
           g3 = guest_write_ign g2 (p + 5) (of_nat (length (ea_value ea)) :: u16);
           g4 = guest_write_bytes_ign g3 (p + 7) name_bytes;
           g5 = guest_write_ign g4 (p + 7 + n) (0 :: u8) in
       write_dena1 rs cp pv_buf cb_buf g5 (offset + aligned_size) (count + 1) eas)"

definition dos_enum_attribute ::
  "encoding_rs \<Rightarrow> 'b vfs_backend \<Rightarrow> ('b, 'f, 'c, 't) file_state \<Rightarrow> u32 \<Rightarrow> u32 \<Rightarrow> u32 \<Rightarrow> u32 \<Rightarrow> u32 \<Rightarrow> u32 \<Rightarrow> u32
    \<Rightarrow> u32 \<times> ('b, 'f, 'c, 't) file_state" where
  "dos_enum_attribute rs V st ref_type pv_file ul_entry pv_buf cb_buf pul_count info_level =
    (if info_level \<noteq> 1 then (124, st)
     else if ref_type \<noteq> 0 then (0, fl_out st pul_count (0 :: u32))
     else
       (case on_path (fl_drives st) (fl_str rs st pv_file)
               (\<lambda>b rel. case be_enum_ea V b rel of (r, b') \<Rightarrow> (Inr (case r of Inr eas \<Rightarrow> eas | Inl _ \<Rightarrow> []), b')) of
          (Inl e, dm) \<Rightarrow> (e, st\<lparr> fl_drives := dm \<rparr>)
        | (Inr eas, dm) \<Rightarrow>
            let max_count = (if pul_count \<noteq> 0 then unat (read_dflt (fl_guest st) pul_count (1 :: u32)) else 1);
                start = (if 0 < ul_entry then unat (ul_entry - 1) else 0) in
            (case write_dena1 rs (fl_cp st) pv_buf cb_buf (fl_guest st) 0 0 (take max_count (drop start eas)) of (g, count) \<Rightarrow>
               (0, fl_out (st\<lparr> fl_drives := dm, fl_guest := g \<rparr>) pul_count count))))"

section \<open>Directory searches\<close>

text \<open>The entries that fit into the buffer, as \<^verbatim>\<open>FILEFINDBUF3\<close> records linked by their offsets.\<close>

definition find_entry_size :: "bool \<Rightarrow> nat \<Rightarrow> u32" where
  "find_entry_size ea name_len = 4 + 24 + (if ea then 4 else 0) + 1 + of_nat name_len + 1"

definition write_find_entry ::
  "encoding_rs \<Rightarrow> u32 \<Rightarrow> bool \<Rightarrow> guest_memory \<Rightarrow> u32 \<Rightarrow> u32 option \<Rightarrow> dir_entry \<Rightarrow> guest_memory" where
  "write_find_entry rs cp ea g p prev entry =
    (let name_bytes = cp_encode rs (de_name entry) cp; name_len = min (length name_bytes) 255;
         name_offset = 28 + (if ea then 4 else 0 :: u32);
         g1 = guest_write_ign g p (0 :: u32);
         g2 = write_filestatus3_from_vfs g1 (de_status entry) (p + 4);
         g3 = (if ea then guest_write_ign g2 (p + 28) (4 :: u32) else g2);
         g4 = guest_write_ign g3 (p + name_offset) (of_nat name_len :: u8);
         g5 = guest_write_bytes_ign g4 (p + name_offset + 1) (take name_len name_bytes);
         g6 = guest_write_ign g5 (p + name_offset + 1 + of_nat name_len) (0 :: u8) in
     case prev of Some q \<Rightarrow> guest_write_ign g6 q (p - q) | None \<Rightarrow> g6)"

fun find_buf_loop ::
  "encoding_rs \<Rightarrow> u32 \<Rightarrow> bool \<Rightarrow> u32 \<Rightarrow> u32 \<Rightarrow> guest_memory \<Rightarrow> u32 \<Rightarrow> u32 \<Rightarrow> u32 option \<Rightarrow> dir_entry list
    \<Rightarrow> guest_memory \<times> u32" where
  "find_buf_loop rs cp ea buf buf_len g offset count prev [] = (g, count)"
| "find_buf_loop rs cp ea buf buf_len g offset count prev (entry # entries) =
    (let entry_size = find_entry_size ea (min (length (cp_encode rs (de_name entry) cp)) 255) in
     if buf_len < offset + entry_size then (g, count)
     else
       find_buf_loop rs cp ea buf buf_len (write_find_entry rs cp ea g (buf + offset) prev entry)
         (offset + align4 entry_size) (count + 1) (Some (buf + offset)) entries)"

definition write_filefindbuf3_multi ::
  "encoding_rs \<Rightarrow> ('b, 'f, 'c, 't) file_state \<Rightarrow> dir_entry list \<Rightarrow> u32 \<Rightarrow> u32 \<Rightarrow> u32 \<Rightarrow> bool
    \<Rightarrow> u32 \<times> ('b, 'f, 'c, 't) file_state" where
  "write_filefindbuf3_multi rs st entries buf buf_len pc_found ea =
    (case find_buf_loop rs (fl_cp st) ea buf buf_len (fl_guest st) 0 0 None entries of (g, count) \<Rightarrow>
       (if count = 0 then 111 else 0, fl_out (st\<lparr> fl_guest := g \<rparr>) pc_found count))"

text \<open>At most \<open>n\<close> further entries of a search.\<close>

fun find_more :: "'b vfs_backend \<Rightarrow> 'b drive_manager \<Rightarrow> u32 \<Rightarrow> nat \<Rightarrow> dir_entry list \<times> 'b drive_manager" where
  "find_more V dm hdir 0 = ([], dm)"
| "find_more V dm hdir (Suc n) =
    (case find_next V dm hdir of
       (Inl e, dm1) \<Rightarrow> ([], dm1)
     | (Inr entry, dm1) \<Rightarrow> (case find_more V dm1 hdir n of (entries, dm2) \<Rightarrow> (entry # entries, dm2)))"

definition find_requested :: "guest_memory \<Rightarrow> u32 \<Rightarrow> u32" where
  "find_requested g pc_found = (if pc_found \<noteq> 0 then max (read_dflt g pc_found 1) 1 else 1)"

text \<open>A bare directory stands for all of its entries; trailing control characters are dropped.\<close>

definition find_spec :: "ustring \<Rightarrow> ustring" where
  "find_spec spec0 =
    (let spec = rev (dropWhile (\<lambda>c. c < 32) (rev spec0));
         trimmed = rev (dropWhile is_sep (rev spec));
         ends_sep = (spec \<noteq> [] \<and> is_sep (last spec)) in
     if ends_sep \<or> length (as_bytes trimmed) = 2 \<and> has_drive trimmed then
       (if ends_sep then spec else spec @ [BSLASH]) @ ustr ''*.*''
     else spec)"

definition dos_find_first ::
  "encoding_rs \<Rightarrow> 'b vfs_backend \<Rightarrow> ('b, 'f, 'c, 't) file_state \<Rightarrow> u32 \<Rightarrow> u32 \<Rightarrow> u32 \<Rightarrow> u32 \<Rightarrow> u32 \<Rightarrow> u32 \<Rightarrow> u32
    \<Rightarrow> u32 \<times> ('b, 'f, 'c, 't) file_state" where
  "dos_find_first rs V st psz_spec phdir attr buf buf_len pc_found level =
    (if level \<noteq> 1 \<and> level \<noteq> 2 then (124, st)
     else
       let requested = find_requested (fl_guest st) pc_found in
       case find_first V (fl_drives st) (find_spec (fl_str rs st psz_spec)) attr level of
         (Inl e, dm) \<Rightarrow> (e, st\<lparr> fl_drives := dm \<rparr>)
       | (Inr (hdir, first_entry), dm) \<Rightarrow>
           (case find_more V dm hdir (unat requested - 1) of (others, dm2) \<Rightarrow>
              write_filefindbuf3_multi rs (fl_write (st\<lparr> fl_drives := dm2 \<rparr>) phdir hdir) (first_entry # others)
                buf buf_len pc_found (level = 2)))"

definition dos_find_next ::
  "encoding_rs \<Rightarrow> 'b vfs_backend \<Rightarrow> ('b, 'f, 'c, 't) file_state \<Rightarrow> u32 \<Rightarrow> u32 \<Rightarrow> u32 \<Rightarrow> u32
    \<Rightarrow> u32 \<times> ('b, 'f, 'c, 't) file_state" where
  "dos_find_next rs V st hdir buf buf_len pc_found =
    (case find_more V (fl_drives st) hdir (unat (find_requested (fl_guest st) pc_found)) of (entries, dm) \<Rightarrow>
       if entries = [] then (18, st\<lparr> fl_drives := dm \<rparr>)
       else write_filefindbuf3_multi rs (st\<lparr> fl_drives := dm \<rparr>) entries buf buf_len pc_found (find_level dm hdir = 2))"

definition dos_find_close :: "'b vfs_backend \<Rightarrow> ('b, 'f, 'c, 't) file_state \<Rightarrow> u32 \<Rightarrow> u32 \<times> ('b, 'f, 'c, 't) file_state" where
  "dos_find_close V st hdir = code_of (find_close V (fl_drives st) hdir) st"

section \<open>Current drive and directory\<close>

text \<open>The copy of the current directory that \<^verbatim>\<open>DosExecPgm\<close> uses.\<close>

definition process_dir :: "ustring \<Rightarrow> ustring \<Rightarrow> ustring" where
  "process_dir cur name =
    (let os2_path = map (\<lambda>c. if c = SLASH then BSLASH else c) name;
         d1 = (if has_drive os2_path then drop 2 os2_path
               else if os2_path \<noteq> [] \<and> hd os2_path = BSLASH then os2_path
               else (if cur \<noteq> [] \<and> last cur = BSLASH then cur else cur @ [BSLASH]) @ os2_path);
         d2 = (if d1 \<noteq> [] \<and> hd d1 = BSLASH then d1 else BSLASH # d1) in
     if 1 < length d2 \<and> last d2 = BSLASH then butlast d2 else d2)"

definition dos_set_current_dir ::
  "encoding_rs \<Rightarrow> ('b, 'f, 'c, 't) file_state \<Rightarrow> u32 \<Rightarrow> u32 \<times> ('b, 'f, 'c, 't) file_state" where
  "dos_set_current_dir rs st psz_dir =
    (let name = fl_str rs st psz_dir in
     case set_current_dir (fl_drives st) name of
       (Inl e, dm) \<Rightarrow> (e, st\<lparr> fl_drives := dm \<rparr>)
     | (Inr _, dm) \<Rightarrow>
         (0, st\<lparr> fl_drives := dm,
           fl_process := (fl_process st)\<lparr> pm_current_dir := process_dir (pm_current_dir (fl_process st)) name \<rparr> \<rparr>))"

definition dos_query_current_dir ::
  "encoding_rs \<Rightarrow> ('b, 'f, 'c, 't) file_state \<Rightarrow> u32 \<Rightarrow> u32 \<Rightarrow> u32 \<Rightarrow> u32 \<times> ('b, 'f, 'c, 't) file_state" where
  "dos_query_current_dir rs st disk_num p_buf pcb_buf =
    (let dm = fl_drives st; drive = (if disk_num = 0 then dr_current_disk dm else ucast disk_num - 1);
         dir_bytes = cp_encode rs (current_dir dm drive) (fl_cp st); n = of_nat (length dir_bytes + 1) :: u32 in
     if pcb_buf \<noteq> 0 \<and> unat (read_dflt (fl_guest st) pcb_buf (0 :: u32)) < length dir_bytes + 1 then
       (111, fl_write st pcb_buf n)
     else
       let s1 = fl_out st pcb_buf n in
       (0, if p_buf \<noteq> 0
           then fl_write (fl_write_bytes s1 p_buf dir_bytes) (p_buf + of_nat (length dir_bytes)) (0 :: u8) else s1))"

definition dos_query_current_disk :: "('b, 'f, 'c, 't) file_state \<Rightarrow> u32 \<Rightarrow> u32 \<Rightarrow> u32 \<times> ('b, 'f, 'c, 't) file_state" where
  "dos_query_current_disk st p_disk_num p_logical =
    (0, fl_out (fl_out st p_disk_num (ucast (current_disk_os2 (fl_drives st)) :: u32)) p_logical (logical_drive_map (fl_drives st)))"

definition dos_set_default_disk :: "('b, 'f, 'c, 't) file_state \<Rightarrow> u32 \<Rightarrow> u32 \<times> ('b, 'f, 'c, 't) file_state" where
  "dos_set_default_disk st disk_num =
    (case set_current_disk (fl_drives st) (ucast disk_num) of
       (Inl e, dm) \<Rightarrow> (e, st\<lparr> fl_drives := dm \<rparr>)
     | (Inr _, dm) \<Rightarrow>
         (0, st\<lparr> fl_drives := dm, fl_process := (fl_process st)\<lparr> pm_current_disk := ucast disk_num \<rparr> \<rparr>))"

section \<open>Volumes\<close>

definition dos_query_fs_info ::
  "'b vfs_backend \<Rightarrow> ('b, 'f, 'c, 't) file_state \<Rightarrow> u32 \<Rightarrow> u32 \<Rightarrow> u32 \<Rightarrow> u32 \<Rightarrow> u32 \<times> ('b, 'f, 'c, 't) file_state" where
  "dos_query_fs_info V st drive level p_buf cb_buf =
    (let dm = fl_drives st; drive_idx = (if drive = 0 then dr_current_disk dm else ucast (drive - 1)) in
     if p_buf = 0 then (87, st)
     else if level = 1 then
       (if cb_buf < 18 then (111, st)
        else case backend dm drive_idx of
          Inl e \<Rightarrow> (e, st)
        | Inr b \<Rightarrow>
            (case on_drive_res dm drive_idx INVALID_DRIVE (be_query_fs_info_alloc V) of
               (Inl e, dm') \<Rightarrow> (e, st\<lparr> fl_drives := dm' \<rparr>)
             | (Inr info, dm') \<Rightarrow>
                 (0, fl_write (fl_write (fl_write (fl_write (fl_write (st\<lparr> fl_drives := dm' \<rparr>) p_buf (fa_id_filesystem info))
                   (p_buf + 4) (fa_sectors_per_unit info)) (p_buf + 8) (fa_total_units info))
                   (p_buf + 12) (fa_available_units info)) (p_buf + 16) (fa_bytes_per_sector info))))
     else if level = 2 then
       (if cb_buf < 17 then (111, st)
        else case backend dm drive_idx of
          Inl e \<Rightarrow> (e, st)
        | Inr b \<Rightarrow>
            (case on_drive_res dm drive_idx INVALID_DRIVE (be_query_fs_info_volume V) of
               (Inl e, dm') \<Rightarrow> (e, st\<lparr> fl_drives := dm' \<rparr>)
             | (Inr info, dm') \<Rightarrow>
                 let label = take 11 (as_bytes (fv_label info)); n = length label in
                 (0, fl_write (fl_write_bytes (fl_write (fl_write (st\<lparr> fl_drives := dm' \<rparr>) p_buf (fv_serial_number info))
                   (p_buf + 4) (of_nat n :: u8)) (p_buf + 5) label) (p_buf + 5 + of_nat n) (0 :: u8))))
     else (87, st))"

definition dos_query_fs_attach ::
  "encoding_rs \<Rightarrow> 'b vfs_backend \<Rightarrow> ('b, 'f, 'c, 't) file_state \<Rightarrow> u32 \<Rightarrow> u32 \<Rightarrow> u32 \<Rightarrow> u32 \<times> ('b, 'f, 'c, 't) file_state" where
  "dos_query_fs_attach rs V st psz_dev p_buf pcb_buf =
    (let dm = fl_drives st; dev = (if psz_dev \<noteq> 0 then fl_str rs st psz_dev else []);
         drive_letter = (if has_drive dev then of_nat (uc_upper (hd dev)) else 0x41 + dr_current_disk dm :: u8) in
     case backend dm (drive_letter - 0x41) of
       Inl _ \<Rightarrow> (15, st)
     | Inr b \<Rightarrow>
         let dev_name = as_bytes [unat drive_letter, COLON]; fsd_name = as_bytes (be_fs_name V b);
             total_size = 8 + length dev_name + 1 + length fsd_name + 1 in
         if pcb_buf \<noteq> 0 \<and> unat (read_dflt (fl_guest st) pcb_buf (0 :: u32)) < total_size then
           (111, fl_write st pcb_buf (of_nat total_size :: u32))
         else
           let s1 = fl_out st pcb_buf (of_nat total_size :: u32) in
           (0, if p_buf \<noteq> 0 then
                 let s2 = fl_write (fl_write (fl_write (fl_write s1 p_buf (3 :: u16)) (p_buf + 2) (of_nat (length dev_name) :: u16))
                       (p_buf + 4) (of_nat (length fsd_name) :: u16)) (p_buf + 6) (0 :: u16);
                     s3 = fl_write (fl_write_bytes s2 (p_buf + 8) dev_name) (p_buf + 8 + of_nat (length dev_name)) (0 :: u8);
                     fsd_off = p_buf + 8 + of_nat (length dev_name) + 1 in
                 fl_write (fl_write_bytes s3 fsd_off fsd_name) (fsd_off + of_nat (length fsd_name)) (0 :: u8)
               else s1))"

section \<open>Pipes and handles\<close>

definition dos_query_h_type :: "('b, 'f, 'c, 't) file_state \<Rightarrow> u32 \<Rightarrow> u32 \<Rightarrow> u32 \<Rightarrow> u32 \<times> ('b, 'f, 'c, 't) file_state" where
  "dos_query_h_type st hfile ptype pattr =
    (0, fl_out (fl_out st ptype (if hfile < 3 then 1 else 0 :: u32)) pattr (if hfile < 3 then 3 else 0 :: u32))"

text \<open>\<^verbatim>\<open>libc::pipe\<close> gives the two ends, or fails.\<close>

definition dos_create_pipe ::
  "('f \<times> 'f) option \<Rightarrow> ('b, 'f, 'c, 't) file_state \<Rightarrow> u32 \<Rightarrow> u32 \<Rightarrow> u32 \<times> ('b, 'f, 'c, 't) file_state" where
  "dos_create_pipe ends st phf_read phf_write =
    (case ends of
       None \<Rightarrow> (8, st)
     | Some (f_read, f_write) \<Rightarrow>
         (case hm_add (fl_pipes st) f_read of (h_read, m1) \<Rightarrow>
           (case hm_add m1 f_write of (h_write, m2) \<Rightarrow>
              (0, fl_write (fl_write (st\<lparr> fl_pipes := m2 \<rparr>) phf_read h_read) phf_write h_write))))"

definition dos_dup_handle ::
  "'f std_file \<Rightarrow> ('b, 'f, 'c, 't) file_state \<Rightarrow> u32 \<Rightarrow> u32 \<Rightarrow> u32 \<times> ('b, 'f, 'c, 't) file_state" where
  "dos_dup_handle F st old_hf p_new_hf =
    (let new_hf = read_dflt (fl_guest st) p_new_hf (0xFFFFFFFF :: u32) in
     case Option.bind (hm_get (fl_pipes st) old_hf) (sf_try_clone F) of
       None \<Rightarrow> (6, st)
     | Some dup \<Rightarrow>
         if new_hf = 0xFFFFFFFF then
           (case hm_insert (fl_pipes st) dup of (new_h, m) \<Rightarrow> (0, fl_write (st\<lparr> fl_pipes := m \<rparr>) p_new_hf new_h))
         else (0, st\<lparr> fl_pipes := hm_replace (fl_pipes st) new_hf dup \<rparr>))"

section \<open>Name editing\<close>

text \<open>
  \<^verbatim>\<open>apply_edit_name\<close>, byte by byte over the edit pattern; the source is what is left of it. The result
  is a string of one character per byte.
\<close>

fun edit_name_loop :: "u8 list \<Rightarrow> u8 list \<Rightarrow> u8 list" where
  "edit_name_loop src [] = []"
| "edit_name_loop src (e # edit) =
    (if e = 0x2A then takeWhile (\<lambda>b. b \<noteq> 0x2E) src @ edit_name_loop (dropWhile (\<lambda>b. b \<noteq> 0x2E) src) edit
     else if e = 0x3F then
       (case src of
          b # bs \<Rightarrow> if b \<noteq> 0x2E then b # edit_name_loop bs edit else edit_name_loop src edit
        | [] \<Rightarrow> edit_name_loop src edit)
     else if e = 0x2E then 0x2E # edit_name_loop (drop 1 (dropWhile (\<lambda>b. b \<noteq> 0x2E) src)) edit
     else e # edit_name_loop (case src of b # bs \<Rightarrow> if b \<noteq> 0x2E then bs else src | [] \<Rightarrow> src) edit)"

definition apply_edit_name :: "ustring \<Rightarrow> ustring \<Rightarrow> ustring" where
  "apply_edit_name source edit = map unat (edit_name_loop (as_bytes source) (as_bytes edit))"

text \<open>The target length minus one wraps for an empty target, as \<^verbatim>\<open>usize\<close> arithmetic does.\<close>

definition dos_edit_name ::
  "encoding_rs \<Rightarrow> ('b, 'f, 'c, 't) file_state \<Rightarrow> u32 \<Rightarrow> u32 \<Rightarrow> u32 \<Rightarrow> u32 \<Rightarrow> u32 \<times> ('b, 'f, 'c, 't) file_state" where
  "dos_edit_name rs st psz_source psz_edit psz_target cb_target =
    (let bytes = as_bytes (apply_edit_name (fl_str rs st psz_source) (fl_str rs st psz_edit));
         copy_len = min (length bytes) (unat (ucast cb_target - 1 :: u64)) in
     (0, if psz_target \<noteq> 0 \<and> 0 < copy_len
         then fl_write (fl_write_bytes st psz_target (take copy_len bytes)) (psz_target + of_nat copy_len) (0 :: u8) else st))"

end
