(* ===== verification/File_Props.thy ===== *)
theory File_Props
  imports File_Calls
begin

unbundle bit_operations_syntax

text \<open>
  Properties of the file calls: what a program reads from the keyboard, the layout of the directory
  buffers it receives, and the loop over the attribute names it passes.
\<close>

section \<open>Guest memory after a call\<close>

lemma guest_write_ign_other:
  fixes v :: "'a::len word"
  assumes "unat q + size_of TYPE('b) \<le> unat p \<or> unat p + size_of TYPE('a) \<le> unat q"
  shows "gm_read (guest_write_ign g p v) q = (gm_read g q :: 'b::len word option)"
  using assms gm_write_other [of g p v _ q, where ?'b = 'b] by (auto simp: guest_write_ign_def split: option.split)

lemma fl_out_fields [simp]:
  "fl_keys (fl_out st p v) = fl_keys st" "fl_tty (fl_out st p v) = fl_tty st" "fl_pending_lf (fl_out st p v) = fl_pending_lf st"
  "fl_cooked_chars (fl_out st p v) = fl_cooked_chars st" "fl_sdl2_text (fl_out st p v) = fl_sdl2_text st"
  "gm_size (fl_guest (fl_out st p v)) = gm_size (fl_guest st)"
  by (simp_all add: fl_out_def fl_write_def)

lemma fl_write_fields [simp]:
  "fl_keys (fl_write st p v) = fl_keys st" "fl_tty (fl_write st p v) = fl_tty st" "fl_pending_lf (fl_write st p v) = fl_pending_lf st"
  "fl_cooked_chars (fl_write st p v) = fl_cooked_chars st" "fl_sdl2_text (fl_write st p v) = fl_sdl2_text st"
  "gm_size (fl_guest (fl_write st p v)) = gm_size (fl_guest st)"
  by (simp_all add: fl_write_def)

section \<open>Console input\<close>

text \<open>
  What a program should receive for a sequence of keys, with \<open>n\<close> characters on the input line: Enter is
  CR LF, a backspace is passed on only if there is something to erase.
\<close>

fun cooked :: "nat \<Rightarrow> key_event list \<Rightarrow> u8 list" where
  "cooked n [] = []"
| "cooked n (Shutdown # evs) = []"
| "cooked n (NoKey # evs) = cooked n evs"
| "cooked n (Key ch # evs) =
    (if ch = 0x0D then 0x0D # 0x0A # cooked 0 evs
     else if ch = 0x08 then (if 0 < n then 0x08 # cooked (n - 1) evs else cooked n evs)
     else ch # cooked (if 0x20 \<le> ch then n + 1 else n) evs)"

text \<open>
  From the terminal every byte is passed on, a backspace also on an empty line, and Enter is CR LF as well. A read that
  finds nothing yet is repeated.
\<close>

fun tty_cooked :: "tty_event list \<Rightarrow> u8 list" where
  "tty_cooked [] = []"
| "tty_cooked (TtyByte b # evs) = (if b = 0x0D then 0x0D # 0x0A # tty_cooked evs else b # tty_cooked evs)"
| "tty_cooked (TtyEmpty # evs) = tty_cooked evs"
| "tty_cooked (TtyRetry # evs) = tty_cooked evs"
| "tty_cooked (TtyShutdown # evs) = []"
| "tty_cooked (TtyError # evs) = []"

definition stdin_stream :: "('b, 'f, 'c, 't) file_state \<Rightarrow> u8 list" where
  "stdin_stream st = (if fl_pending_lf st then [0x0A] else []) @
    (if fl_sdl2_text st then cooked (fl_cooked_chars st) (fl_keys st) else tty_cooked (fl_tty st))"

text \<open>Where a one-byte read may put its byte and its count.\<close>

definition read_args_ok :: "('b, 'f, 'c, 't) file_state \<Rightarrow> u32 \<Rightarrow> u32 \<Rightarrow> bool" where
  "read_args_ok st buf actual \<longleftrightarrow> gm_size (fl_guest st) \<le> 2 ^ 32 \<and> unat buf < gm_size (fl_guest st) \<and>
    unat actual + 4 \<le> gm_size (fl_guest st) \<and> (actual = 0 \<or> unat buf < unat actual \<or> unat actual + 4 \<le> unat buf)"

text \<open>The count that a call stores for its caller, who passes 0 if it does not want it.\<close>

definition stored_count :: "('b, 'f, 'c, 't) file_state \<Rightarrow> u32 \<Rightarrow> u32 option" where
  "stored_count st actual = (if actual = 0 then None else gm_read (fl_guest st) actual)"

definition delivers :: "('b, 'f, 'c, 't) file_state \<Rightarrow> u32 \<Rightarrow> u32 \<Rightarrow> u8 \<Rightarrow> u8 list \<Rightarrow> ('b, 'f, 'c, 't) file_state \<Rightarrow> bool" where
  "delivers st buf actual b rest st1 \<longleftrightarrow>
    gm_read (fl_guest st1) buf = Some b \<and> stored_count st1 actual = (if actual = 0 then None else Some 1) \<and> stdin_stream st1 = rest \<and> read_args_ok st1 buf actual"

lemma stdin_deliver_read:
  assumes "read_args_ok st buf actual"
  shows "gm_read (fl_guest (stdin_deliver st buf actual b)) buf = Some b"
proof -
  let ?g = "guest_write_ign (fl_guest st) buf b"
  have "gm_read ?g buf = Some b" using assms by (intro guest_write_ign_read) (simp_all add: read_args_ok_def size_of_def)
  moreover have "gm_read (guest_write_ign ?g actual (1 :: u32)) buf = (gm_read ?g buf :: u8 option)" if "actual \<noteq> 0"
    using assms that by (intro guest_write_ign_other) (auto simp: read_args_ok_def size_of_def)
  ultimately show ?thesis by (simp add: stdin_deliver_def fl_out_def fl_write_def)
qed

lemma stdin_deliver_count:
  assumes "read_args_ok st buf actual"
  shows "stored_count (stdin_deliver st buf actual b) actual = (if actual = 0 then None else Some 1)"
proof -
  have "gm_read (guest_write_ign (guest_write_ign (fl_guest st) buf b) actual (1 :: u32)) actual = Some (1 :: u32)"
    using assms by (intro guest_write_ign_read) (simp_all add: read_args_ok_def size_of_def)
  then show ?thesis by (simp add: stored_count_def stdin_deliver_def fl_out_def fl_write_def)
qed

lemma stdin_deliver_delivers:
  assumes "read_args_ok st buf actual" "stdin_stream st = rest"
  shows "delivers st0 buf actual b rest (stdin_deliver st buf actual b)"
proof -
  have "stdin_stream (stdin_deliver st buf actual b) = stdin_stream st"
    unfolding stdin_stream_def stdin_deliver_def by simp
  then have "stdin_stream (stdin_deliver st buf actual b) = rest" using assms(2) by simp
  moreover have "read_args_ok (stdin_deliver st buf actual b) buf actual" using assms(1)
    unfolding read_args_ok_def stdin_deliver_def by simp
  ultimately show ?thesis using stdin_deliver_read [OF assms(1)] stdin_deliver_count [OF assms(1)] unfolding delivers_def by blast
qed

lemma stdin_echo_fields [simp]:
  "fl_keys (stdin_echo rs st bs cp) = fl_keys st" "fl_tty (stdin_echo rs st bs cp) = fl_tty st" "fl_pending_lf (stdin_echo rs st bs cp) = fl_pending_lf st"
  "fl_cooked_chars (stdin_echo rs st bs cp) = fl_cooked_chars st" "fl_sdl2_text (stdin_echo rs st bs cp) = fl_sdl2_text st"
  "fl_guest (stdin_echo rs st bs cp) = fl_guest st"
  by (simp_all add: stdin_echo_def)

lemma stdin_keys_cooked:
  assumes "read_args_ok st buf actual" "\<not> fl_pending_lf st" "fl_sdl2_text st" "cooked (fl_cooked_chars st) evs = b # rest"
  shows "\<exists>st1. stdin_keys rs buf actual st evs = Some (0, st1) \<and> delivers st buf actual b rest st1"
  using assms
proof (induction rs buf actual st evs rule: stdin_keys.induct)
  case (4 rs buf actual st ch evs)
  note del = stdin_deliver_delivers [where ?st0.0 = st]
  show ?case
  proof (cases "ch = 0x08 \<and> fl_cooked_chars st = 0")
    case True
    then show ?thesis using 4 by (simp add: Let_def)
  next
    case False
    with 4(2-5) show ?thesis
      by (auto simp: Let_def stdin_stream_def read_args_ok_def split: if_splits intro!: del)
  qed
qed auto

lemma stdin_terminal_cooked:
  assumes "read_args_ok st buf actual" "\<not> fl_pending_lf st" "\<not> fl_sdl2_text st" "tty_cooked evs = b # rest"
  shows "\<exists>st1. stdin_terminal buf actual st evs = Some (0, st1) \<and> delivers st buf actual b rest st1"
  using assms
proof (induction buf actual st evs rule: stdin_terminal.induct)
  case (3 buf actual st c evs)
  then show ?case
    by (auto simp: Let_def stdin_stream_def read_args_ok_def split: if_splits intro!: stdin_deliver_delivers [where ?st0.0 = st])
qed auto

text \<open>
  \<open>k\<close> successive one-byte reads: what the program finds in its buffer after each, with the count stored for it.
\<close>

fun stdin_reads ::
  "encoding_rs \<Rightarrow> u32 \<Rightarrow> u32 \<Rightarrow> nat \<Rightarrow> ('b, 'f, 'c, 't) file_state
    \<Rightarrow> ((u8 \<times> u32 option) list \<times> ('b, 'f, 'c, 't) file_state) option" where
  "stdin_reads rs buf actual 0 st = Some ([], st)"
| "stdin_reads rs buf actual (Suc k) st =
    (case dos_read_stdin rs st buf 1 actual of
       Some (rc, st1) \<Rightarrow>
         if rc \<noteq> 0 then None
         else
           do { b \<leftarrow> gm_read (fl_guest st1) buf; (bs, st2) \<leftarrow> stdin_reads rs buf actual k st1;
                Some ((b, stored_count st1 actual) # bs, st2) }
     | None \<Rightarrow> None)"

lemma dos_read_stdin_delivers:
  assumes "read_args_ok st buf actual" "stdin_stream st = b # rest"
  shows "\<exists>st1. dos_read_stdin rs st buf 1 actual = Some (0, st1) \<and> delivers st buf actual b rest st1"
proof (cases "fl_pending_lf st")
  case True
  then show ?thesis using assms
    by (auto simp: dos_read_stdin_def stdin_stream_def read_args_ok_def intro!: stdin_deliver_delivers)
next
  case False
  then show ?thesis using stdin_keys_cooked [OF assms(1) False, of "fl_keys st" b rest rs]
      stdin_terminal_cooked [OF assms(1) False, of "fl_tty st" b rest] assms
    by (cases "fl_sdl2_text st") (simp_all add: dos_read_stdin_def stdin_stream_def read_args_ok_def)
qed

section \<open>Directory buffers\<close>

text \<open>Stores at consecutive addresses are one block.\<close>

lemma poke_first:
  fixes v :: "'a::len word"
  assumes "gm_size m \<le> 2 ^ 32" "unat p + size_of TYPE('a) \<le> gm_size m"
  shows "guest_write_ign m p v = gm_put m (unat p) (le_bytes (size_of TYPE('a)) v)"
  using assms by (simp add: guest_write_ign_def gm_write_def ptr_at_def)

lemma poke_bytes_first:
  assumes "gm_size m \<le> 2 ^ 32" "unat p + length bs \<le> gm_size m"
  shows "guest_write_bytes_ign m p bs = gm_put m (unat p) bs"
  using assms by (simp add: guest_write_bytes_ign_def gm_write_bytes_def ptr_at_def)

lemma unat_after:
  assumes "gm_size m \<le> 2 ^ 32" "unat p + n < gm_size m" "k = of_nat n"
  shows "unat (p + k :: u32) = unat p + n"
proof -
  have "unat p + n < 2 ^ 32" using assms(1,2) by linarith
  moreover from this have "unat k = n" using assms(3) by (simp add: unat_of_nat_u32)
  ultimately show ?thesis using unat_plus_u32 [of p k] by simp
qed

lemma poke_next:
  fixes v :: "'a::len word"
  assumes "gm_size m \<le> 2 ^ 32" "unat p + length xs + size_of TYPE('a) \<le> gm_size m" "k = of_nat (length xs)"
    "0 < size_of TYPE('a)"
  shows "guest_write_ign (gm_put m (unat p) xs) (p + k) v = gm_put m (unat p) (xs @ le_bytes (size_of TYPE('a)) v)"
proof -
  have "gm_size (gm_put m (unat p) xs) = gm_size m" using assms(2) by (intro gm_size_put) simp
  moreover have "unat (p + k) = unat p + length xs" using assms by (intro unat_after [of m]) auto
  ultimately show ?thesis using assms(1,2) by (simp add: poke_first gm_put_append)
qed

lemma poke_bytes_next:
  assumes "gm_size m \<le> 2 ^ 32" "unat p + length xs + length bs < gm_size m" "k = of_nat (length xs)"
  shows "guest_write_bytes_ign (gm_put m (unat p) xs) (p + k) bs = gm_put m (unat p) (xs @ bs)"
proof -
  have "gm_size (gm_put m (unat p) xs) = gm_size m" using assms(2) by (intro gm_size_put) simp
  moreover have "unat (p + k) = unat p + length xs" using assms by (intro unat_after [of m]) auto
  ultimately show ?thesis using assms(1,2) by (simp add: poke_bytes_first gm_put_append)
qed

definition status_bytes :: "file_status \<Rightarrow> u8 list" where
  "status_bytes s = le_bytes 2 (fs_creation_date s) @ le_bytes 2 (fs_creation_time s) @ le_bytes 2 (fs_last_access_date s) @
    le_bytes 2 (fs_last_access_time s) @ le_bytes 2 (fs_last_write_date s) @ le_bytes 2 (fs_last_write_time s) @
    le_bytes 4 (fs_file_size s) @ le_bytes 4 (fs_file_alloc s) @ le_bytes 4 (fs_attributes s)"

lemma length_status_bytes [simp]: "length (status_bytes s) = 24"
  by (simp add: status_bytes_def)

lemma write_status_next:
  assumes "gm_size m \<le> 2 ^ 32" "unat p + length xs + 24 \<le> gm_size m" "k = of_nat (length xs)"
  shows "write_filestatus3_from_vfs (gm_put m (unat p) xs) s (p + k) = gm_put m (unat p) (xs @ status_bytes s)"
  using assms unfolding write_filestatus3_from_vfs_def Let_def add.assoc
  by (simp add: poke_next size_of_def status_bytes_def)

definition stored_name :: "encoding_rs \<Rightarrow> u32 \<Rightarrow> dir_entry \<Rightarrow> u8 list" where
  "stored_name rs cp e = take 255 (cp_encode rs (de_name e) cp)"

definition entry_body :: "encoding_rs \<Rightarrow> u32 \<Rightarrow> bool \<Rightarrow> dir_entry \<Rightarrow> u8 list" where
  "entry_body rs cp ea e = status_bytes (de_status e) @ (if ea then le_bytes 4 (4 :: u32) else []) @
    [of_nat (length (stored_name rs cp e))] @ stored_name rs cp e @ [0]"

lemma length_stored_name: "length (stored_name rs cp e) = min (length (cp_encode rs (de_name e) cp)) 255"
  by (simp add: stored_name_def min.commute)

lemma length_entry_body:
  "length (entry_body rs cp ea e) = 26 + (if ea then 4 else 0) + length (stored_name rs cp e)"
  by (simp add: entry_body_def)

lemma le_bytes_1: "le_bytes (Suc 0) (b :: u8) = [b]"
  by (simp add: le_bytes_def)

lemma write_find_entry_put:
  assumes "gm_size m \<le> 2 ^ 32" "unat p + 4 + length (entry_body rs cp ea e) \<le> gm_size m"
  shows "write_find_entry rs cp ea m p None e = gm_put m (unat p) (le_bytes 4 (0 :: u32) @ entry_body rs cp ea e)"
proof -
  let ?n = "stored_name rs cp e"
  have nm: "take (length ?n) (cp_encode rs (de_name e) cp) = ?n"
    by (simp add: stored_name_def min_def)
  show ?thesis
    using assms unfolding write_find_entry_def Let_def length_stored_name [symmetric] option.case add.assoc length_entry_body
    by (cases ea) (simp_all add: nm poke_first poke_next poke_bytes_next write_status_next size_of_def entry_body_def le_bytes_1)
qed

text \<open>How a program reads the buffer: it follows the offset at the start of each record.\<close>

definition read_status :: "guest_memory \<Rightarrow> u32 \<Rightarrow> file_status" where
  "read_status g p =
    \<lparr> fs_creation_date = read_dflt g p 0, fs_creation_time = read_dflt g (p + 2) 0,
      fs_last_access_date = read_dflt g (p + 4) 0, fs_last_access_time = read_dflt g (p + 6) 0,
      fs_last_write_date = read_dflt g (p + 8) 0, fs_last_write_time = read_dflt g (p + 10) 0,
      fs_file_size = read_dflt g (p + 12) 0, fs_file_alloc = read_dflt g (p + 16) 0,
      fs_attributes = read_dflt g (p + 20) 0 \<rparr>"

definition read_find_entry :: "bool \<Rightarrow> guest_memory \<Rightarrow> u32 \<Rightarrow> file_status \<times> u8 list" where
  "read_find_entry ea g p =
    (let off = (if ea then 32 else 28); n = read_dflt g (p + off) (0 :: u8) in
     (read_status g (p + 4), read_bytes g (p + off + 1) (ucast n)))"

fun read_find_buf :: "bool \<Rightarrow> guest_memory \<Rightarrow> u32 \<Rightarrow> nat \<Rightarrow> (file_status \<times> u8 list) list" where
  "read_find_buf ea g p 0 = []"
| "read_find_buf ea g p (Suc n) = read_find_entry ea g p # read_find_buf ea g (p + read_dflt g p 0) n"

text \<open>Reading a field of a block that stands in memory.\<close>

definition block_at :: "guest_memory \<Rightarrow> nat \<Rightarrow> u8 list \<Rightarrow> bool" where
  "block_at g a bs \<longleftrightarrow> a + length bs \<le> gm_size g \<and> gm_size g \<le> 2 ^ 32 \<and> take (length bs) (drop a (gm_bytes g)) = bs"

lemma block_at_sub:
  assumes "block_at g a (xs @ ys @ zs)"
  shows "block_at g (a + length xs) ys"
proof -
  have "take (length ys) (drop (length xs) (xs @ ys @ zs)) = ys" by simp
  then have "take (length ys) (drop (length xs) (take (length (xs @ ys @ zs)) (drop a (gm_bytes g)))) = ys"
    using assms by (simp only: block_at_def)
  then show ?thesis using assms by (simp add: block_at_def drop_take add.commute)
qed

lemma block_at_read:
  fixes v :: "'a::len word"
  assumes "block_at g a (xs @ le_bytes (size_of TYPE('a)) v @ zs)" "a = unat p" "k = of_nat (length xs)"
    "byte_sized TYPE('a)" "0 < size_of TYPE('a)"
  shows "read_dflt g (p + k) d = v"
proof -
  note b = block_at_sub [OF assms(1), unfolded block_at_def]
  have "unat (p + k) = a + length xs" using b assms(2,3,5) unat_after [of g p "length xs" k] by simp
  then have "gm_read g (p + k) = Some (le_word (le_bytes (size_of TYPE('a)) v) :: 'a word)"
    using b by (simp add: gm_read_def ptr_at_def)
  then show ?thesis by (simp add: read_dflt_def le_word_le_bytes_sized [OF assms(4)])
qed

lemma read_status_block:
  assumes "block_at g (unat p) (status_bytes s)"
  shows "read_status g p = s"
proof -
  have f0: "read_dflt g (p + 0) 0 = fs_creation_date s"
    by (rule block_at_read [where a = "unat p" and xs = "[]"]) (use assms in \<open>simp_all add: status_bytes_def size_of_def\<close>)
  have f1: "read_dflt g (p + 2) 0 = fs_creation_time s"
    by (rule block_at_read [where a = "unat p" and xs = "le_bytes 2 (fs_creation_date s)"]) (use assms in \<open>simp_all add: status_bytes_def size_of_def\<close>)
  have f2: "read_dflt g (p + 4) 0 = fs_last_access_date s"
    by (rule block_at_read [where a = "unat p" and xs = "le_bytes 2 (fs_creation_date s) @ le_bytes 2 (fs_creation_time s)"]) (use assms in \<open>simp_all add: status_bytes_def size_of_def\<close>)
  have f3: "read_dflt g (p + 6) 0 = fs_last_access_time s"
    by (rule block_at_read [where a = "unat p" and xs = "le_bytes 2 (fs_creation_date s) @ le_bytes 2 (fs_creation_time s) @ le_bytes 2 (fs_last_access_date s)"]) (use assms in \<open>simp_all add: status_bytes_def size_of_def\<close>)
  have f4: "read_dflt g (p + 8) 0 = fs_last_write_date s"
    by (rule block_at_read [where a = "unat p" and xs = "le_bytes 2 (fs_creation_date s) @ le_bytes 2 (fs_creation_time s) @ le_bytes 2 (fs_last_access_date s) @ le_bytes 2 (fs_last_access_time s)"]) (use assms in \<open>simp_all add: status_bytes_def size_of_def\<close>)
  have f5: "read_dflt g (p + 10) 0 = fs_last_write_time s"
    by (rule block_at_read [where a = "unat p" and xs = "le_bytes 2 (fs_creation_date s) @ le_bytes 2 (fs_creation_time s) @ le_bytes 2 (fs_last_access_date s) @ le_bytes 2 (fs_last_access_time s) @ le_bytes 2 (fs_last_write_date s)"]) (use assms in \<open>simp_all add: status_bytes_def size_of_def\<close>)
  have f6: "read_dflt g (p + 12) 0 = fs_file_size s"
    by (rule block_at_read [where a = "unat p" and xs = "le_bytes 2 (fs_creation_date s) @ le_bytes 2 (fs_creation_time s) @ le_bytes 2 (fs_last_access_date s) @ le_bytes 2 (fs_last_access_time s) @ le_bytes 2 (fs_last_write_date s) @ le_bytes 2 (fs_last_write_time s)"]) (use assms in \<open>simp_all add: status_bytes_def size_of_def\<close>)
  have f7: "read_dflt g (p + 16) 0 = fs_file_alloc s"
    by (rule block_at_read [where a = "unat p" and xs = "le_bytes 2 (fs_creation_date s) @ le_bytes 2 (fs_creation_time s) @ le_bytes 2 (fs_last_access_date s) @ le_bytes 2 (fs_last_access_time s) @ le_bytes 2 (fs_last_write_date s) @ le_bytes 2 (fs_last_write_time s) @ le_bytes 4 (fs_file_size s)"]) (use assms in \<open>simp_all add: status_bytes_def size_of_def\<close>)
  have f8: "read_dflt g (p + 20) 0 = fs_attributes s"
    by (rule block_at_read [where a = "unat p" and xs = "le_bytes 2 (fs_creation_date s) @ le_bytes 2 (fs_creation_time s) @ le_bytes 2 (fs_last_access_date s) @ le_bytes 2 (fs_last_access_time s) @ le_bytes 2 (fs_last_write_date s) @ le_bytes 2 (fs_last_write_time s) @ le_bytes 4 (fs_file_size s) @ le_bytes 4 (fs_file_alloc s)" and zs = "[]"]) (use assms in \<open>simp_all add: status_bytes_def size_of_def\<close>)
  show ?thesis using f0 f1 f2 f3 f4 f5 f6 f7 f8 by (simp add: read_status_def)
qed

lemma read_find_entry_block:
  assumes "block_at g (unat p + 4) (entry_body rs cp ea e)"
  shows "read_find_entry ea g p = (de_status e, stored_name rs cp e)"
proof -
  let ?n = "stored_name rs cp e" and ?off = "if ea then 32 else 28 :: nat"
  let ?xs = "status_bytes (de_status e) @ (if ea then le_bytes 4 (4 :: u32) else [])"
  have len: "length ?n \<le> 255" by (simp add: length_stored_name)
  have sz: "unat p + 4 + length (entry_body rs cp ea e) \<le> gm_size g" "gm_size g \<le> 2 ^ 32"
    using assms by (auto simp: block_at_def)
  then have p4: "unat (p + 4) = unat p + 4" by (intro unat_after [of g]) (simp_all add: length_entry_body)
  have st: "read_status g (p + 4) = de_status e"
    using block_at_sub [of g "unat p + 4" "[]" "status_bytes (de_status e)"] assms p4
    by (intro read_status_block) (simp add: entry_body_def)
  have off: "p + (if ea then 32 else 28) = p + 4 + (if ea then 28 else 24)" by simp
  have cc: "read_dflt g (p + (if ea then 32 else 28)) 0 = (of_nat (length ?n) :: u8)"
    unfolding off by (rule block_at_read [where a = "unat p + 4" and xs = ?xs and zs = "?n @ [0]"])
      (use assms p4 in \<open>auto simp: entry_body_def size_of_def le_bytes_1\<close>)
  have "block_at g (unat p + 4 + length (?xs @ [of_nat (length ?n)])) ?n"
    by (rule block_at_sub [where zs = "[0]"]) (use assms in \<open>simp add: entry_body_def\<close>)
  then have b: "block_at g (unat p + ?off + 1) ?n" by (cases ea) (simp_all add: ac_simps)
  have a: "unat (p + (if ea then 32 else 28) + 1) = unat p + ?off + 1"
    using sz unat_after [of g p "?off + 1" "(if ea then 32 else 28) + 1"] by (cases ea) (simp_all add: length_entry_body add.assoc)
  have n: "unat (ucast (of_nat (length ?n) :: u8) :: u32) = length ?n"
    using len by (simp add: unsigned_ucast_eq unat_of_nat take_bit_nat_eq_self)
  have "read_bytes g (p + (if ea then 32 else 28) + 1) (ucast (of_nat (length ?n) :: u8)) = ?n"
    using b a n by (subst read_bytes_in) (simp_all add: block_at_def)
  with st cc show ?thesis by (simp add: read_find_entry_def Let_def)
qed

definition entry_len :: "encoding_rs \<Rightarrow> u32 \<Rightarrow> bool \<Rightarrow> dir_entry \<Rightarrow> nat" where
  "entry_len rs cp ea e = 4 + length (entry_body rs cp ea e)"

definition round4 :: "nat \<Rightarrow> nat" where
  "round4 n = (n + 3) div 4 * 4"

text \<open>The entries that fit into \<open>len\<close> bytes from an offset on.\<close>

fun fitting :: "encoding_rs \<Rightarrow> u32 \<Rightarrow> bool \<Rightarrow> nat \<Rightarrow> nat \<Rightarrow> dir_entry list \<Rightarrow> dir_entry list" where
  "fitting rs cp ea len off [] = []"
| "fitting rs cp ea len off (e # es) =
    (if len < off + entry_len rs cp ea e then []
     else e # fitting rs cp ea len (off + round4 (entry_len rs cp ea e)) es)"

lemma entry_len_bounds: "30 \<le> entry_len rs cp ea e" "entry_len rs cp ea e \<le> 289"
  by (auto simp: entry_len_def length_entry_body length_stored_name)

lemma find_entry_size_nat:
  "find_entry_size ea (min (length (cp_encode rs (de_name e) cp)) 255) = of_nat (entry_len rs cp ea e)"
  by (simp add: find_entry_size_def entry_len_def length_entry_body length_stored_name)

lemma round4_bounds: "n \<le> round4 n" "round4 n \<le> n + 3"
  by (simp_all add: round4_def)

lemma unat_and_not_3: "unat ((x :: u32) AND NOT 3) = unat x div 4 * 4"
proof -
  have m: "(3 :: u32) = mask 2" by (simp add: mask_eq_exp_minus_1)
  have s: "2 \<le> k \<Longrightarrow> Suc (Suc (k - 2)) = k" for k :: nat by simp
  have e: "x AND NOT 3 = push_bit 2 (drop_bit 2 x)"
    unfolding m by (rule bit_word_eqI) (auto simp: bit_simps s not_less)
  have "unat x div 4 * 4 \<le> unat x" by (rule div_times_less_eq_dividend)
  also have "\<dots> < 2 ^ 32" using unat_u32_lt [of x] by simp
  finally show ?thesis unfolding e by (simp add: push_bit_eq_mult drop_bit_eq_div unat_word_ariths unat_div)
qed

lemma align4_nat: "n < 2 ^ 31 \<Longrightarrow> align4 (of_nat n) = of_nat (round4 n)"
proof -
  assume "n < 2 ^ 31"
  then have "unat (of_nat (n + 3) :: u32) = n + 3" by (intro unat_of_nat_u32) simp
  then have "unat (align4 (of_nat n)) = round4 n" unfolding align4_def unat_and_not_3 round4_def by (simp add: add.commute)
  then have "of_nat (unat (align4 (of_nat n))) = (of_nat (round4 n) :: u32)" by simp
  then show ?thesis by simp
qed

text \<open>The record reached after following \<open>n\<close> links.\<close>

fun nth_record :: "guest_memory \<Rightarrow> u32 \<Rightarrow> nat \<Rightarrow> u32" where
  "nth_record g p 0 = p"
| "nth_record g p (Suc n) = nth_record g (p + read_dflt g p 0) n"

text \<open>
  What the loop has done when it stops: the entries that fit stand one after the other from the offset
  on, each linked to the next, the link before them is set, and nothing else has changed.
\<close>

definition find_buf_post ::
  "encoding_rs \<Rightarrow> u32 \<Rightarrow> bool \<Rightarrow> u32 \<Rightarrow> nat \<Rightarrow> u32 option \<Rightarrow> guest_memory \<Rightarrow> nat \<Rightarrow> dir_entry list \<Rightarrow> guest_memory \<Rightarrow> bool" where
  "find_buf_post rs cp ea buf len prev g off fs g' \<longleftrightarrow>
    gm_size g' = gm_size g \<and> (fs = [] \<longrightarrow> g' = g) \<and>
    (\<forall>a n. (a + n \<le> unat buf + off \<or> unat buf + len \<le> a) \<longrightarrow>
      (\<forall>q. prev = Some q \<longrightarrow> a + n \<le> unat q \<or> unat q + 4 \<le> a) \<longrightarrow>
      take n (drop a (gm_bytes g')) = take n (drop a (gm_bytes g))) \<and>
    (\<forall>q. fs \<noteq> [] \<longrightarrow> prev = Some q \<longrightarrow> read_dflt g' q 0 = buf + of_nat off - q) \<and>
    read_find_buf ea g' (buf + of_nat off) (length fs) = map (\<lambda>e. (de_status e, stored_name rs cp e)) fs \<and>
    (fs \<noteq> [] \<longrightarrow> read_dflt g' (nth_record g' (buf + of_nat off) (length fs - 1)) 0 = (0 :: u32))"

lemma find_buf_post_Nil: "find_buf_post rs cp ea buf len prev g off [] g"
  by (simp add: find_buf_post_def)

text \<open>One record, and the link of the record before it.\<close>

lemma write_find_entry_prev:
  "write_find_entry rs cp ea g p prev e =
    (case prev of Some q \<Rightarrow> guest_write_ign (write_find_entry rs cp ea g p None e) q (p - q)
     | None \<Rightarrow> write_find_entry rs cp ea g p None e)"
  by (cases prev) (simp_all only: write_find_entry_def Let_def option.case)

lemma write_find_entry_step:
  assumes sz: "gm_size g \<le> 2 ^ 31" "unat p + entry_len rs cp ea e \<le> gm_size g"
    and prev: "\<forall>q. prev = Some q \<longrightarrow> unat q + 4 \<le> unat p"
  defines "g1 \<equiv> write_find_entry rs cp ea g p prev e"
  shows "gm_size g1 = gm_size g" "block_at g1 (unat p) (le_bytes 4 (0 :: u32) @ entry_body rs cp ea e)"
    and "\<forall>q. prev = Some q \<longrightarrow> read_dflt g1 q 0 = p - q"
    and "(a + n \<le> unat p \<or> unat p + entry_len rs cp ea e \<le> a) \<Longrightarrow>
      (\<forall>q. prev = Some q \<longrightarrow> a + n \<le> unat q \<or> unat q + 4 \<le> a) \<Longrightarrow>
      take n (drop a (gm_bytes g1)) = take n (drop a (gm_bytes g))"
proof -
  let ?bs = "le_bytes 4 (0 :: u32) @ entry_body rs cp ea e"
  let ?g0 = "gm_put g (unat p) ?bs"
  have l: "length ?bs = entry_len rs cp ea e" by (simp add: entry_len_def)
  have fit: "unat p + length ?bs \<le> gm_size g" using sz(2) l by simp
  have g0: "write_find_entry rs cp ea g p None e = ?g0"
    using sz by (intro write_find_entry_put) (simp_all add: entry_len_def)
  have s0: "gm_size ?g0 = gm_size g" using fit by (rule gm_size_put)
  have g1: "g1 = (case prev of Some q \<Rightarrow> guest_write_ign ?g0 q (p - q) | None \<Rightarrow> ?g0)"
    unfolding g1_def by (subst write_find_entry_prev) (simp only: g0)
  show "gm_size g1 = gm_size g" using s0 by (simp add: g1 split: option.split)
  have keep: "take n (drop a (gm_bytes g1)) = take n (drop a (gm_bytes ?g0))"
    if "\<forall>q. prev = Some q \<longrightarrow> a + n \<le> unat q \<or> unat q + 4 \<le> a" for a n
    using that guest_write_ign_slice [of a n _ ?g0 "p - _"] by (auto simp: g1 size_of_def split: option.split)
  have "take (length ?bs) (drop (unat p) (gm_bytes g1)) = ?bs"
    using keep [of "unat p" "length ?bs"] prev put_same [OF fit] by auto
  then show "block_at g1 (unat p) ?bs" using fit sz(1) \<open>gm_size g1 = gm_size g\<close> by (simp add: block_at_def)
  show "\<forall>q. prev = Some q \<longrightarrow> read_dflt g1 q 0 = p - q"
    using sz prev s0 guest_write_ign_read [of _ ?g0 "p - _"] by (auto simp: g1 read_dflt_def size_of_def)
  show "take n (drop a (gm_bytes g1)) = take n (drop a (gm_bytes g))"
    if "a + n \<le> unat p \<or> unat p + entry_len rs cp ea e \<le> a"
      "\<forall>q. prev = Some q \<longrightarrow> a + n \<le> unat q \<or> unat q + 4 \<le> a"
    using keep [OF that(2)] put_other [OF fit, of a n] that(1) l by auto
qed

lemma read_dflt_slice:
  fixes d :: "'a::len word"
  assumes "take (size_of TYPE('a)) (drop (unat q) (gm_bytes g')) = take (size_of TYPE('a)) (drop (unat q) (gm_bytes g))"
    "gm_size g' = gm_size g"
  shows "read_dflt g' q d = read_dflt g q d"
  using assms by (simp add: read_dflt_def gm_read_def ptr_at_def Let_def)

lemma find_buf_post_Cons:
  assumes sz: "gm_size g \<le> 2 ^ 31" "unat buf + len \<le> gm_size g" "off + entry_len rs cp ea e \<le> len"
    and prev: "\<forall>q. prev = Some q \<longrightarrow> unat q + 4 \<le> unat buf + off"
    and post: "find_buf_post rs cp ea buf len (Some (buf + of_nat off))
      (write_find_entry rs cp ea g (buf + of_nat off) prev e) (off + round4 (entry_len rs cp ea e)) fs g'"
  shows "find_buf_post rs cp ea buf len prev g off (e # fs) g'"
proof -
  let ?p = "buf + of_nat off :: u32" and ?l = "entry_len rs cp ea e" and ?off' = "off + round4 (entry_len rs cp ea e)"
  let ?g1 = "write_find_entry rs cp ea g ?p prev e"
  have p: "unat ?p = unat buf + off" using sz entry_len_bounds(1) [of rs cp ea e] by (intro unat_after [of g]) auto
  have lo: "30 \<le> ?l" "?l \<le> round4 ?l" using entry_len_bounds(1) round4_bounds(1) by blast+
  note step = write_find_entry_step [of g ?p rs cp ea e prev]
  have s1: "gm_size ?g1 = gm_size g" and blk: "block_at ?g1 (unat ?p) (le_bytes 4 (0 :: u32) @ entry_body rs cp ea e)"
    and lnk: "\<forall>q. prev = Some q \<longrightarrow> read_dflt ?g1 q 0 = ?p - q"
    using step(1-3) sz p prev by auto
  have fr: "take n (drop a (gm_bytes g')) = take n (drop a (gm_bytes ?g1))"
    if "a + n \<le> unat buf + ?off' \<or> unat buf + len \<le> a" "a + n \<le> unat ?p \<or> unat ?p + 4 \<le> a" for a n
    using post that unfolding find_buf_post_def by blast
  have S: "gm_size g' = gm_size g" using post s1 by (simp add: find_buf_post_def)
  have FR: "take n (drop a (gm_bytes g')) = take n (drop a (gm_bytes g))"
    if "a + n \<le> unat buf + off \<or> unat buf + len \<le> a" "\<forall>q. prev = Some q \<longrightarrow> a + n \<le> unat q \<or> unat q + 4 \<le> a" for a n
    using fr [of a n] step(4) [of a n] that sz p prev lo by auto
  have LK: "read_dflt g' q 0 = ?p - q" if "prev = Some q" for q
  proof -
    have "read_dflt g' q 0 = (read_dflt ?g1 q 0 :: u32)"
      using fr [of "unat q" 4] prev that p lo S s1 by (intro read_dflt_slice) (auto simp: size_of_def)
    then show ?thesis using lnk that by simp
  qed
  have EN: "read_find_entry ea g' ?p = (de_status e, stored_name rs cp e)"
  proof (rule read_find_entry_block)
    have "block_at ?g1 (unat ?p + 4) (entry_body rs cp ea e)"
      using block_at_sub [of ?g1 "unat ?p" "le_bytes 4 (0 :: u32)" "entry_body rs cp ea e" "[]"] blk by simp
    then show "block_at g' (unat ?p + 4) (entry_body rs cp ea e)"
      using fr [of "unat ?p + 4" "length (entry_body rs cp ea e)"] p lo S s1
      by (simp add: block_at_def entry_len_def)
  qed
  have NX: "fs \<noteq> [] \<Longrightarrow> ?p + read_dflt g' ?p 0 = buf + of_nat ?off'"
    using post by (simp add: find_buf_post_def)
  have LZ: "fs = [] \<Longrightarrow> read_dflt g' ?p 0 = (0 :: u32)"
    using post block_at_read [of ?g1 "unat ?p" "[]" "0 :: u32" "entry_body rs cp ea e" ?p 0 0] blk
    by (simp add: find_buf_post_def size_of_def)
  have RD: "read_find_buf ea g' ?p (length (e # fs)) = map (\<lambda>e. (de_status e, stored_name rs cp e)) (e # fs)"
    using post EN NX by (cases "fs = []") (simp_all add: find_buf_post_def del: of_nat_add)
  have LS: "read_dflt g' (nth_record g' ?p (length (e # fs) - 1)) 0 = (0 :: u32)"
  proof (cases fs)
    case (Cons f fs')
    then have "nth_record g' ?p (length (e # fs) - 1) = nth_record g' (buf + of_nat ?off') (length fs - 1)"
      using NX by (simp add: add.assoc)
    then show ?thesis using post Cons by (simp add: find_buf_post_def del: of_nat_add)
  qed (use LZ in simp)
  show ?thesis unfolding find_buf_post_def using S FR LK RD LS by blast
qed

lemma find_buf_loop_post:
  assumes "gm_size g \<le> 2 ^ 31" "unat buf + unat len \<le> gm_size g" "off \<le> unat len + 3"
    and "\<forall>q. prev = Some q \<longrightarrow> unat q + 4 \<le> unat buf + off"
  shows "\<exists>g'. find_buf_loop rs cp ea buf len g (of_nat off) cnt prev es =
      (g', cnt + of_nat (length (fitting rs cp ea (unat len) off es))) \<and>
    find_buf_post rs cp ea buf (unat len) prev g off (fitting rs cp ea (unat len) off es) g'"
  using assms
proof (induction es arbitrary: g off cnt prev)
  case Nil
  then show ?case by (simp add: find_buf_post_Nil)
next
  case (Cons e es)
  let ?l = "entry_len rs cp ea e"
  have l31: "unat len \<le> 2 ^ 31" using Cons.prems(1,2) by linarith
  have "unat (of_nat off + of_nat ?l :: u32) = off + ?l"
    using unat_of_nat_u32 [of "off + ?l"] Cons.prems(3) l31 entry_len_bounds [of rs cp ea e] by simp
  then have cmp: "len < of_nat off + of_nat ?l \<longleftrightarrow> unat len < off + ?l" by (simp add: word_less_nat_alt)
  show ?case
  proof (cases "unat len < off + ?l")
    case True
    then show ?thesis using cmp by (simp add: Let_def find_entry_size_nat find_buf_post_Nil)
  next
    case False
    let ?off' = "off + round4 ?l" and ?p = "buf + of_nat off :: u32"
    let ?g1 = "write_find_entry rs cp ea g ?p prev e" and ?fs = "fitting rs cp ea (unat len) (off + round4 ?l) es"
    have fit: "off + ?l \<le> unat len" using False by simp
    have p: "unat ?p = unat buf + off"
      using Cons.prems(1,2) fit entry_len_bounds(1) [of rs cp ea e] by (intro unat_after [of g]) auto
    have lo: "30 \<le> ?l" "?l \<le> round4 ?l" "round4 ?l \<le> ?l + 3" using entry_len_bounds(1) round4_bounds by blast+
    have s1: "gm_size ?g1 = gm_size g"
      using write_find_entry_step(1) [of g ?p rs cp ea e prev] Cons.prems p fit by auto
    have "align4 (of_nat ?l) = of_nat (round4 ?l)" using entry_len_bounds(2) [of rs cp ea e] by (intro align4_nat) simp
    then have "find_buf_loop rs cp ea buf len g (of_nat off) cnt prev (e # es) =
        find_buf_loop rs cp ea buf len ?g1 (of_nat ?off') (cnt + 1) (Some ?p) es"
      using False cmp by (simp add: Let_def find_entry_size_nat)
    moreover obtain g' where "find_buf_loop rs cp ea buf len ?g1 (of_nat ?off') (cnt + 1) (Some ?p) es =
        (g', cnt + 1 + of_nat (length ?fs))" "find_buf_post rs cp ea buf (unat len) (Some ?p) ?g1 ?off' ?fs g'"
      using Cons.IH [of ?g1 ?off' "Some ?p" "cnt + 1"] Cons.prems(1,2) s1 p fit lo by auto
    moreover have "find_buf_post rs cp ea buf (unat len) prev g off (e # ?fs) g'"
      using find_buf_post_Cons [OF Cons.prems(1,2) fit Cons.prems(4)] calculation(3) by blast
    ultimately show ?thesis using False by (intro exI [of _ g']) (simp add: add.assoc)
  qed
qed

text \<open>
  Entries that were taken from the search but do not fit are lost: with a buffer too small for any
  record the call fails, and the search has advanced all the same.
\<close>

lemma small_buffer_loses_entries:
  assumes "find_more V (fl_drives st) hdir (unat (find_requested (fl_guest st) pc_found)) = (entries, dm)" "entries \<noteq> []"
    "buf_len < 30"
  shows "fst (dos_find_next rs V st hdir buf buf_len pc_found) = 111 \<and>
    fl_drives (snd (dos_find_next rs V st hdir buf buf_len pc_found)) = dm"
proof -
  obtain e es where e: "entries = e # es" using assms(2) by (cases entries) auto
  have l: "unat buf_len < 30" using assms(3) by (simp add: word_less_nat_alt)
  have "unat (of_nat (entry_len rs cp ea e) :: u32) = entry_len rs cp ea e" for cp ea
    using entry_len_bounds(2) [of rs cp ea e] by (intro unat_of_nat_u32) simp
  then have "buf_len < of_nat (entry_len rs cp ea e)" for cp ea
    using l entry_len_bounds(1) [of rs cp ea e] by (simp add: word_less_nat_alt)
  then show ?thesis
    using assms(1) e by (simp add: dos_find_next_def write_filefindbuf3_multi_def find_entry_size_nat fl_out_def fl_write_def)
qed

section \<open>Attribute names\<close>

text \<open>Two entries whose offsets lead from one to the other and back: the loop does not end.\<close>

definition cyclic_gea :: guest_memory where
  "cyclic_gea = \<lparr> gm_bytes = [0, 0, 0, 0, 40, 0, 0, 0, 8, 0, 0, 0, 1, 65, 0, 0, 248, 255, 255, 255, 1, 66, 0, 0] \<rparr>"

lemma cyclic_gea_reads:
  "read_dflt cyclic_gea 8 0 = (8 :: u32)" "read_dflt cyclic_gea 12 0 = (1 :: u8)"
  "read_dflt cyclic_gea 16 0 = (0xFFFFFFF8 :: u32)" "read_dflt cyclic_gea 20 0 = (1 :: u8)"
proof -
  have w: "le_word [8, 0, 0, 0] = (8 :: u32)" "le_word [248, 255, 255, 255] = (0xFFFFFFF8 :: u32)" "le_word [1] = (1 :: u8)"
    by code_simp+
  show "read_dflt cyclic_gea 8 0 = (8 :: u32)" "read_dflt cyclic_gea 12 0 = (1 :: u8)"
    "read_dflt cyclic_gea 16 0 = (0xFFFFFFF8 :: u32)" "read_dflt cyclic_gea 20 0 = (1 :: u8)"
    using w by (simp_all add: read_dflt_def gm_read_def ptr_at_def size_of_def gm_size_def cyclic_gea_def)
qed

lemma gea_loop_diverges: "gea_loop cyclic_gea 4 40 4 names = None"
proof -
  have wrap: "(4294967300 :: u32) = 4" by simp
  have "g = cyclic_gea \<and> p = 4 \<and> cb = 40 \<and> (pos = 4 \<or> pos = 12) \<longrightarrow> False"
    if "gea_loop g p cb pos names = Some y" for g p cb pos names y
    by (rule gea_loop.raw_induct [OF _ that]) (auto simp: Let_def cyclic_gea_reads wrap, blast+)
  then have "gea_loop cyclic_gea 4 40 4 names \<noteq> Some y" for y by blast
  then show ?thesis by (cases "gea_loop cyclic_gea 4 40 4 names") auto
qed

section \<open>Properties\<close>

text \<open>
  C40. A program that reads standard input one byte at a time receives exactly the cooked form of what is
  typed, first the line feed that an earlier Enter may have left: Enter gives CR and then LF; in the SDL2 text
  window a backspace is delivered only when the line has a character to erase, from the terminal always;
  every other key or byte is delivered as it is. Each read succeeds with exactly one byte, the count it
  stores is 1, and it returns as soon as the keys for it have been typed.
\<close>

theorem stdin_reads_cooked:
  assumes "gm_size (fl_guest st) \<le> 2 ^ 32" "unat buf < gm_size (fl_guest st)" "unat actual + 4 \<le> gm_size (fl_guest st)"
    and "actual = 0 \<or> unat buf < unat actual \<or> unat actual + 4 \<le> unat buf"
    and typed: "typed = (if fl_pending_lf st then [0x0A] else []) @
      (if fl_sdl2_text st then cooked (fl_cooked_chars st) (fl_keys st) else tty_cooked (fl_tty st))"
    and "k \<le> length typed"
  shows "\<exists>st'. stdin_reads rs buf actual k st =
    Some (map (\<lambda>b. (b, if actual = 0 then None else Some 1)) (take k typed), st')"
proof -
  have "read_args_ok st buf actual \<Longrightarrow> k \<le> length (stdin_stream st) \<Longrightarrow>
      \<exists>st'. stdin_reads rs buf actual k st =
        Some (map (\<lambda>b. (b, if actual = 0 then None else Some 1)) (take k (stdin_stream st)), st')"
  proof (induction k arbitrary: st)
    case (Suc k)
    then obtain b rest where s: "stdin_stream st = b # rest" by (cases "stdin_stream st") auto
    from dos_read_stdin_delivers [OF Suc.prems(1) s] obtain st1
      where r: "dos_read_stdin rs st buf 1 actual = Some (0, st1)" "delivers st buf actual b rest st1" by blast
    with Suc.IH [of st1] Suc.prems(2) s show ?case by (auto simp: delivers_def)
  qed simp
  then show ?thesis using assms by (simp add: read_args_ok_def stdin_stream_def)
qed

text \<open>A backspace on an empty line, a letter and Enter.\<close>

definition demo_file_state :: "guest_memory \<Rightarrow> key_event list \<Rightarrow> (unit, unit, unit, unit) file_state" where
  "demo_file_state g keys =
    \<lparr> fl_guest = g, fl_drives = dr_new, fl_pipes = hm_new, fl_process = pm_new, fl_console = vio_new None, fl_cp = 437,
      fl_sdl2_text = True, fl_pending_lf = False, fl_cooked_chars = 0, fl_keys = keys, fl_tty = [], fl_host_out = [],
      fl_terminal = [] \<rparr>"

theorem stdin_reads_cooked_witness:
  "\<exists>st'. stdin_reads latin1_rs 0 4 3 (demo_file_state (gm_alloc 8) [Key 8, NoKey, Key 0x41, Key 0x0D]) =
    Some ([(0x41, Some 1), (0x0D, Some 1), (0x0A, Some 1)], st')"
  using stdin_reads_cooked [of "demo_file_state (gm_alloc 8) [Key 8, NoKey, Key 0x41, Key 0x0D]" 0 4 "[0x41, 0x0D, 0x0A]" 3 latin1_rs]
  by (simp add: demo_file_state_def)

text \<open>
  C39. The directory buffer a search call fills is what a program that follows its links reads: the
  entries that fit into the buffer, in order, with their time stamps, sizes, attributes and names (at
  most 255 bytes of a name in the active codepage), the last link being zero. The count stored is their
  number, and no byte of guest memory outside the buffer is changed.
\<close>

theorem find_buffer_roundtrip:
  assumes "gm_size g \<le> 2 ^ 31" "unat buf + unat buf_len \<le> gm_size g"
    and "find_buf_loop rs cp ea buf buf_len g 0 0 None entries = (g', count)"
  shows "\<exists>n. count = of_nat n \<and> n \<le> length entries \<and>
      read_find_buf ea g' buf n = map (\<lambda>e. (de_status e, take 255 (cp_encode rs (de_name e) cp))) (take n entries) \<and>
      (n < length entries \<longrightarrow> unat buf_len <
        (\<Sum>e\<leftarrow>take n entries. round4 (entry_len rs cp ea e)) + entry_len rs cp ea (entries ! n)) \<and>
      (0 < n \<longrightarrow> read_dflt g' (nth_record g' buf (n - 1)) 0 = (0 :: u32)) \<and>
      (\<forall>a k. a + k \<le> unat buf \<or> unat buf + unat buf_len \<le> a \<longrightarrow>
        take k (drop a (gm_bytes g')) = take k (drop a (gm_bytes g)))"
proof -
  let ?fs = "fitting rs cp ea (unat buf_len) 0 entries"
  have "take (length (fitting rs cp ea len off es)) es = fitting rs cp ea len off es \<and>
      length (fitting rs cp ea len off es) \<le> length es \<and>
      (length (fitting rs cp ea len off es) < length es \<longrightarrow>
        len < off + (\<Sum>e\<leftarrow>fitting rs cp ea len off es. round4 (entry_len rs cp ea e)) +
          entry_len rs cp ea (es ! length (fitting rs cp ea len off es)))" for len off es
    by (induction rs cp ea len off es rule: fitting.induct) (auto simp: add.assoc)
  from this [of "unat buf_len" 0 entries] have fs: "take (length ?fs) entries = ?fs" "length ?fs \<le> length entries"
    "length ?fs < length entries \<longrightarrow> unat buf_len < (\<Sum>e\<leftarrow>?fs. round4 (entry_len rs cp ea e)) + entry_len rs cp ea (entries ! length ?fs)"
    by auto
  from find_buf_loop_post [OF assms(1,2), of 0 None rs cp ea 0 entries] assms(3)
  have "count = of_nat (length ?fs)" "find_buf_post rs cp ea buf (unat buf_len) None g 0 ?fs g'" by auto
  then show ?thesis using fs
    by (intro exI [of _ "length ?fs"]) (simp add: find_buf_post_def stored_name_def)
qed

text \<open>Two short names in a buffer of 64 bytes.\<close>

theorem find_buffer_roundtrip_witness:
  "let s = \<lparr> fs_creation_date = 1, fs_creation_time = 2, fs_last_access_date = 3, fs_last_access_time = 4,
         fs_last_write_date = 5, fs_last_write_time = 6, fs_file_size = 7, fs_file_alloc = 8, fs_attributes = 9 \<rparr>;
       g' = fst (find_buf_loop latin1_rs 437 False 0 64 (gm_alloc 64) 0 0 None
              [\<lparr> de_name = ustr ''A'', de_status = s \<rparr>, \<lparr> de_name = ustr ''B'', de_status = s \<rparr>]) in
   read_find_buf False g' 0 2 = [(s, [0x41]), (s, [0x42])]"
proof -
  define s where "s = \<lparr> fs_creation_date = 1, fs_creation_time = 2, fs_last_access_date = 3, fs_last_access_time = 4,
    fs_last_write_date = 5, fs_last_write_time = 6, fs_file_size = 7, fs_file_alloc = 8, fs_attributes = 9 \<rparr>"
  let ?es = "[\<lparr> de_name = ustr ''A'', de_status = s \<rparr>, \<lparr> de_name = ustr ''B'', de_status = s \<rparr>]"
  obtain g' c where r: "find_buf_loop latin1_rs 437 False 0 64 (gm_alloc 64) 0 0 None ?es = (g', c)" by fastforce
  have n: "cp_encode latin1_rs (ustr ''A'') 437 = [0x41]" "cp_encode latin1_rs (ustr ''B'') 437 = [0x42]"
    by (simp_all add: cp_encode_def encode_single_byte_def encode_char_def ustr_def)
  then have e: "entry_len latin1_rs 437 False (?es ! 0) = 31" "entry_len latin1_rs 437 False (?es ! 1) = 31"
    by (simp_all add: entry_len_def length_entry_body stored_name_def)
  have b: "gm_size (gm_alloc 64) \<le> 2 ^ 31" "unat (0 :: u32) + unat (64 :: u32) \<le> gm_size (gm_alloc 64)" by simp_all
  from find_buffer_roundtrip [OF b r] obtain k where k: "k \<le> length ?es"
    "read_find_buf False g' 0 k = map (\<lambda>e. (de_status e, take 255 (cp_encode latin1_rs (de_name e) 437))) (take k ?es)"
    "k < length ?es \<longrightarrow> unat (64 :: u32) <
      (\<Sum>e\<leftarrow>take k ?es. round4 (entry_len latin1_rs 437 False e)) + entry_len latin1_rs 437 False (?es ! k)"
    by blast
  have "k = 2"
  proof (rule ccontr)
    assume "k \<noteq> 2"
    then have "k = 0 \<or> k = 1" using k(1) by auto
    then show False using k(3) e by (auto simp: round4_def)
  qed
  then show ?thesis using k(2) r n by (simp add: s_def Let_def)
qed

text \<open>
  The loop over the attribute names of a \<^verbatim>\<open>GEA2LIST\<close> ends for every list whose offsets do not wrap
  around the address space, after at most as many names as the list has bytes. (With a wrapping offset
  it may run forever, see \<open>gea_loop_diverges\<close>.)
\<close>

theorem gea_loop_returns:
  assumes "\<forall>pos. pos < cb \<longrightarrow> unat pos + unat (read_dflt g (p + pos) (0 :: u32)) < 2 ^ 32"
  shows "\<exists>names'. gea_loop g p cb pos names = Some names' \<and> length names' \<le> length names + (unat cb - unat pos)"
proof (induction "unat cb - unat pos" arbitrary: pos names rule: less_induct)
  case less
  let ?o = "read_dflt g (p + pos) (0 :: u32)"
  show ?case
  proof (cases "pos < cb \<and> ucast (read_dflt g (p + pos + 4) (0 :: u8)) \<noteq> (0 :: u32) \<and> ?o \<noteq> 0")
    case False
    then show ?thesis by (subst gea_loop.simps) (auto simp: Let_def word_less_nat_alt)
  next
    case True
    have "unat (pos + ?o) = unat pos + unat ?o" using assms True by (intro unat_plus_u32) simp
    moreover have "0 < unat ?o" "unat pos < unat cb" using True by (simp_all add: unat_gt_0 word_less_nat_alt)
    ultimately have d: "unat cb - unat (pos + ?o) < unat cb - unat pos" by linarith
    let ?names = "names @ [gea_name g (p + pos) (ucast (read_dflt g (p + pos + 4) (0 :: u8)))]"
    from less [OF d, of ?names] obtain names' where "gea_loop g p cb (pos + ?o) ?names = Some names'"
      "length names' \<le> length ?names + (unat cb - unat (pos + ?o))" by blast
    moreover have "gea_loop g p cb pos names = gea_loop g p cb (pos + ?o) ?names"
      using True by (subst gea_loop.simps) (simp add: Let_def)
    ultimately show ?thesis using d by (intro exI [of _ names']) simp
  qed
qed

text \<open>A list with one name.\<close>

theorem gea_loop_returns_witness:
  "\<exists>names. gea_loop \<lparr> gm_bytes = [0, 0, 0, 0, 0, 0, 0, 0, 1] \<rparr> 0 9 4 [] = Some names"
proof -
  let ?g = "\<lparr> gm_bytes = [0, 0, 0, 0, 0, 0, 0, 0, 1] \<rparr> :: guest_memory"
  have w: "le_word [0, 0, 0, 0] = (0 :: u32)" "le_word [0, 0, 0, 1] = (0x1000000 :: u32)" by code_simp+
  have "unat pos + unat (read_dflt ?g (0 + pos) (0 :: u32)) < 2 ^ 32" if pos: "pos < 9" for pos
  proof -
    have u: "unat pos < 9" using pos by (simp add: word_less_nat_alt)
    then consider "unat pos \<le> 4" | "unat pos = 5" | "5 < unat pos" by linarith
    then have "unat (read_dflt ?g pos (0 :: u32)) \<le> 0x1000000"
    proof cases
      case 1
      then have "unat pos \<in> {0, 1, 2, 3, 4}" by auto
      then have "take 4 (drop (unat pos) (gm_bytes ?g)) = [0, 0, 0, 0]" by auto
      then show ?thesis using 1 w by (simp add: read_dflt_def gm_read_def ptr_at_def size_of_def gm_size_def)
    next
      case 2
      then show ?thesis using w by (simp add: read_dflt_def gm_read_def ptr_at_def size_of_def gm_size_def)
    qed (simp add: read_dflt_def gm_read_def ptr_at_def size_of_def gm_size_def)
    then show ?thesis using u by simp
  qed
  with gea_loop_returns [of 9 ?g 0 4 "[]"] show ?thesis by blast
qed

end
