(* ===== verification/LX_Loader.thy ===== *)
theory LX_Loader
  imports LX_Parser Descriptors Managers Memory_Manager
begin

unbundle bit_operations_syntax

text \<open>
  Loading LX modules into guest memory (\<^verbatim>\<open>src/src/loader/lx_loader.rs\<close>): the pages of every
  object are copied from the file, the fixup records are applied against the addresses the
  objects were given, resources and exports are registered, and a DLL's imported DLLs are loaded
  first. The main program is loaded at the preferred addresses of its object table, a DLL at
  addresses from the memory manager. The host file system is a parameter: which paths exist and
  what a file holds (a file does not change between the two times it is opened). Panics are
  values: \<open>None\<close> for a store outside guest memory in the fixup loop, \<open>LoadPanicked\<close> in the DLL
  loader. The recursion over imported modules takes fuel, and \<open>OutOfFuel\<close> is a result of its own.
\<close>

section \<open>Pages\<close>

text \<open>
  \<^verbatim>\<open>seek\<close> and \<^verbatim>\<open>read_exact\<close> into a guest slice: the bytes there are, then an error if they are
  too few.
\<close>

definition read_into :: "u8 list \<Rightarrow> nat \<Rightarrow> guest_memory \<Rightarrow> u32 \<Rightarrow> nat \<Rightarrow> guest_memory \<times> io_error option"
where
  "read_into file off m target n =
    (let data = take n (drop off file) in
     (gm_put m (unat target) data, if length data < n then Some UnexpectedEof else None))"

definition page_file_offset :: "lx_file \<Rightarrow> object_page_map_entry \<Rightarrow> nat" where
  "page_file_offset f pg =
    unat ((ucast (lx_data_pages_offset (lxf_header f)) :: u64) +
      push_bit (unat (lx_page_offset_shift (lxf_header f))) (ucast (pg_data_offset pg)))"

definition obj_page_start :: "object_table_entry \<Rightarrow> nat" where
  "obj_page_start obj = unat (obj_page_map_index obj) - 1"

text \<open>The pages of an object the loops visit: up to its page count, \<^verbatim>\<open>break\<close> at the end of the
  table.\<close>

definition obj_pages :: "object_table_entry \<Rightarrow> nat \<Rightarrow> nat list" where
  "obj_pages obj table_len = [0 ..< min (unat (obj_page_count obj)) (table_len - obj_page_start obj)]"

datatype load_error =
    OpenFailed
  | ParseFailed io_error
  | OutOfGuestMemory
  | PageOutOfBounds
  | PageRead io_error
  | LoadPanicked
  | OutOfFuel

text \<open>One page: \<open>oob\<close> is what a target outside guest memory is to the caller.\<close>

definition load_page ::
  "load_error \<Rightarrow> lx_file \<Rightarrow> u8 list \<Rightarrow> u32 \<Rightarrow> guest_memory \<times> load_error option \<Rightarrow> nat \<times> object_page_map_entry
    \<Rightarrow> guest_memory \<times> load_error option" where
  "load_page oob f file base st pp =
    (case st of (m, Some e) \<Rightarrow> (m, Some e) | (m, None) \<Rightarrow>
     (case pp of (p, pg) \<Rightarrow>
       if pg_data_size pg = 0 then (m, None)
       else
         let target = base + of_nat p * 4096 in
         (case ptr_at m target (unat (pg_data_size pg)) of
            None \<Rightarrow> (m, Some oob)
          | Some _ \<Rightarrow>
              (case read_into file (page_file_offset f pg) m target (unat (pg_data_size pg)) of
                 (m', e) \<Rightarrow> (m', map_option PageRead e)))))"

definition object_page_list :: "lx_file \<Rightarrow> object_table_entry \<Rightarrow> (nat \<times> object_page_map_entry) list" where
  "object_page_list f obj =
    map (\<lambda>p. (p, lxf_page_map f ! (obj_page_start obj + p))) (obj_pages obj (length (lxf_page_map f)))"

definition load_objects ::
  "load_error \<Rightarrow> lx_file \<Rightarrow> u8 list \<Rightarrow> u32 list \<Rightarrow> guest_memory \<Rightarrow> guest_memory \<times> load_error option" where
  "load_objects oob f file bases m =
    foldl (\<lambda>st (base, obj). foldl (load_page oob f file base) st (object_page_list f obj))
      (m, None) (zip bases (lxf_object_table f))"

section \<open>Fixups\<close>

definition imported_module :: "lx_file \<Rightarrow> u16 \<Rightarrow> ustring" where
  "imported_module f module_ordinal =
    (if module_ordinal \<noteq> 0 \<and> unat module_ordinal - 1 < length (lxf_imported_modules f)
     then lxf_imported_modules f ! (unat module_ordinal - 1) else [])"

definition fixup_target_addr :: "dll_manager \<Rightarrow> lx_file \<Rightarrow> u32 list \<Rightarrow> fixup_target \<Rightarrow> u64" where
  "fixup_target_addr dlls f bases target =
    (case target of
       Internal object_num target_offset \<Rightarrow>
         if object_num \<noteq> 0 \<and> unat object_num - 1 < length bases
         then ucast (bases ! (unat object_num - 1)) + ucast target_offset else 0
     | ExternalOrdinal module_ordinal proc_ordinal \<Rightarrow>
         resolve_import dlls (imported_module f module_ordinal) proc_ordinal
     | ExternalName module_ordinal proc_name_offset \<Rightarrow>
         resolve_import_by_name dlls (imported_module f module_ordinal)
           (case get_proc_name f proc_name_offset of Some nm \<Rightarrow> nm | None \<Rightarrow> [])
     | InternalEntry _ \<Rightarrow> 0)"

definition apply_source :: "u8 \<Rightarrow> u64 \<Rightarrow> guest_memory \<Rightarrow> u64 \<Rightarrow> guest_memory option" where
  "apply_source src_type target_addr m source_phys =
    (let a = (ucast source_phys :: u32) in
     if src_type = 0x07 then gm_write m a (ucast target_addr :: u32)
     else if src_type = 0x08 then gm_write m a (ucast (target_addr - (source_phys + 4)) :: u32)
     else if src_type = 0x02 \<or> src_type = 0x03 then
       let tile_index = (ucast (drop_bit 16 target_addr) :: u32);
           offset16 = (ucast (target_addr AND 0xFFFF) :: u16);
           selector = (ucast ((TILED_SEL_START_INDEX + tile_index) * 8) :: u16) in
       do { m1 \<leftarrow> gm_write m a offset16; gm_write m1 (a + 2) selector }
     else if src_type = 0x05 then gm_write m a (ucast (target_addr AND 0xFFFF) :: u16)
     else if src_type = 0x06 then
       do { m1 \<leftarrow> gm_write m a (ucast target_addr :: u32); gm_write m1 (a + 4) (0x08 :: u16) }
     else Some m)"

definition source_addr :: "u32 \<Rightarrow> nat \<Rightarrow> u16 \<Rightarrow> u64" where
  "source_addr base p off = ucast base + of_nat p * 4096 + ucast off"

definition apply_record ::
  "dll_manager \<Rightarrow> lx_file \<Rightarrow> u32 list \<Rightarrow> u32 \<Rightarrow> nat \<Rightarrow> guest_memory \<Rightarrow> lx_fixup_record \<Rightarrow> guest_memory option"
where
  "apply_record dlls f bases base p m r =
    (let target_addr = fixup_target_addr dlls f bases (fx_target r) in
     if target_addr = 0 then Some m
     else ofold (\<lambda>m off. apply_source (fx_source_type r AND 0x0F) target_addr m (source_addr base p off))
            m (fx_source_offsets r))"

definition apply_fixups ::
  "dll_manager \<Rightarrow> lx_file \<Rightarrow> u32 list \<Rightarrow> guest_memory \<Rightarrow> guest_memory option" where
  "apply_fixups dlls f bases m =
    ofold (\<lambda>m (base, obj).
        ofold (\<lambda>m p. ofold (apply_record dlls f bases base p) m
                 (lxf_fixup_records_by_page f ! (obj_page_start obj + p)))
          m (obj_pages obj (length (lxf_fixup_records_by_page f))))
      m (zip bases (lxf_object_table f))"

section \<open>The main program\<close>

definition is_pm_app :: "lx_file \<Rightarrow> bool" where
  "is_pm_app f = list_ex (\<lambda>m. m = ustr ''PMWIN'' \<or> m = ustr ''PMGPI'') (lxf_imported_modules f)"

definition add_resource :: "lx_file \<Rightarrow> resource_manager \<Rightarrow> lx_resource_entry \<Rightarrow> resource_manager" where
  "add_resource f rm res =
    (if res_object_num res \<noteq> 0 \<and> unat (res_object_num res) - 1 < length (lxf_object_table f)
     then rm_add rm (res_type_id res) (res_name_id res)
       (obj_base_address (lxf_object_table f ! (unat (res_object_num res) - 1)) + res_offset res)
       (res_size res)
     else rm)"

record loader_state =
  ld_guest :: guest_memory
  ld_mem :: memory_manager
  ld_res :: resource_manager
  ld_dlls :: dll_manager

definition lx_load :: "lx_file \<Rightarrow> u8 list option \<Rightarrow> loader_state \<Rightarrow> load_error option \<times> loader_state" where
  "lx_load f contents st =
    (case contents of
       None \<Rightarrow> (Some OpenFailed, st)
     | Some file \<Rightarrow>
         let bases = map obj_base_address (lxf_object_table f) in
         (case load_objects LoadPanicked f file bases (ld_guest st) of
            (m, Some e) \<Rightarrow> (Some e, st\<lparr> ld_guest := m \<rparr>)
          | (m, None) \<Rightarrow>
              let rm = foldl (add_resource f) (ld_res st) (lxf_resources f) in
              (case apply_fixups (ld_dlls st) f bases m of
                 None \<Rightarrow> (Some LoadPanicked, st\<lparr> ld_guest := m, ld_res := rm \<rparr>)
               | Some m' \<Rightarrow> (None, st\<lparr> ld_guest := m', ld_res := rm \<rparr>))))"

section \<open>DLLs\<close>

definition BUILTIN_MODULES :: "ustring list" where
  "BUILTIN_MODULES = map ustr [''DOSCALLS'', ''QUECALLS'', ''PMWIN'', ''PMGPI'', ''KBDCALLS'',
     ''VIOCALLS'', ''SESMGR'', ''NLS'', ''MSG'', ''MDM'', ''UCONV'']"

text \<open>
  The host: \<open>env_exists\<close> is \<^verbatim>\<open>Path::exists\<close>, \<open>env_open\<close> the contents of a file that can be opened,
  \<open>env_exe_dir\<close> the directory of the running program, \<open>env_c_root\<close> the host directory of drive C.
\<close>

record host_env =
  env_exists :: "ustring \<Rightarrow> bool"
  env_open :: "ustring \<Rightarrow> u8 list option"
  env_exe_dir :: ustring
  env_c_root :: "ustring option"

definition dll_candidates :: "host_env \<Rightarrow> ustring \<Rightarrow> ustring list" where
  "dll_candidates env dll_name =
    (let upper = to_ascii_uppercase dll_name;
         stem = (case strip_suffix (ustr ''.DLL'') upper of Some t \<Rightarrow> t | None \<Rightarrow> upper);
         fnames = [to_ascii_lowercase stem @ ustr ''.dll'', stem @ ustr ''.DLL''] in
     (if env_exe_dir env \<noteq> [] then map (\<lambda>f. env_exe_dir env @ ustr ''/'' @ f) fnames else []) @
     (case env_c_root env of
        None \<Rightarrow> []
      | Some root \<Rightarrow> concat (map (\<lambda>sub. map (\<lambda>f. root @ ustr ''/'' @ sub @ ustr ''/'' @ f) fnames)
                         [ustr ''os2/dll'', ustr ''OS2/DLL''])))"

definition find_dll_path :: "host_env \<Rightarrow> ustring \<Rightarrow> ustring option" where
  "find_dll_path env dll_name = find (env_exists env) (dll_candidates env dll_name)"

text \<open>Step 2: a block for every object; an allocation that fails leaves the earlier ones allocated.\<close>

fun alloc_objects :: "object_table_entry list \<Rightarrow> memory_manager \<Rightarrow> u32 list option \<times> memory_manager" where
  "alloc_objects [] mm = (Some [], mm)"
| "alloc_objects (obj # objs) mm =
    (case mm_alloc mm (max (obj_size obj) 4096) of
       (None, mm') \<Rightarrow> (None, mm')
     | (Some addr, mm') \<Rightarrow>
         (case alloc_objects objs mm' of
            (None, mm'') \<Rightarrow> (None, mm'')
          | (Some bases, mm'') \<Rightarrow> (Some (addr # bases), mm'')))"

text \<open>Step 5: the export maps; a later entry with the same key replaces an earlier one.\<close>

definition export_ordinals :: "lx_file \<Rightarrow> u32 list \<Rightarrow> (u32 \<rightharpoonup> u32)" where
  "export_ordinals f bases =
    foldl (\<lambda>m e. if exp_object_num e \<noteq> 0 \<and> unat (exp_object_num e) - 1 < length bases
                 then m(exp_ordinal e \<mapsto> bases ! (unat (exp_object_num e) - 1) + exp_offset e) else m)
      Map.empty (lxf_exports f)"

definition export_names :: "lx_file \<Rightarrow> (u32 \<rightharpoonup> u32) \<Rightarrow> (ustring \<rightharpoonup> u32)" where
  "export_names f ords =
    foldl (\<lambda>m (ordinal, nm). case ords ordinal of
                 Some addr \<Rightarrow> m(to_ascii_uppercase nm \<mapsto> addr) | None \<Rightarrow> m)
      Map.empty (lxf_nonresident_names f)"

definition initterm_address :: "lx_file \<Rightarrow> u32 list \<Rightarrow> u32 option" where
  "initterm_address f bases =
    (if lx_eip_object (lxf_header f) \<noteq> 0 \<and> unat (lx_eip_object (lxf_header f)) - 1 < length bases
     then Some (bases ! (unat (lx_eip_object (lxf_header f)) - 1) + lx_eip (lxf_header f))
     else None)"

text \<open>Steps 4 to 7, once the dependencies are in: fixups, export maps, registration.\<close>

definition register_dll :: "ustring \<Rightarrow> lx_file \<Rightarrow> u32 list \<Rightarrow> loader_state \<Rightarrow> (load_error + u32) \<times> loader_state"
where
  "register_dll name f bases st =
    (case apply_fixups (ld_dlls st) f bases (ld_guest st) of
       None \<Rightarrow> (Inl LoadPanicked, st)
     | Some m \<Rightarrow>
         let ords = export_ordinals f bases;
             (handle, dm) = dm_alloc_handle (ld_dlls st);
             dll = \<lparr> ld_name = name, ld_handle = handle, ld_object_bases = bases,
                     ld_exports_by_ordinal = ords, ld_exports_by_name = export_names f ords,
                     ld_ref_count = 1, ld_initterm_addr = initterm_address f bases,
                     ld_is_builtin = False \<rparr> in
         (Inr handle, st\<lparr> ld_guest := m, ld_dlls := snd (dm_register dm dll) \<rparr>))"

text \<open>Steps 1 to 3: parse, allocate, copy the pages.\<close>

definition place_dll ::
  "host_env \<Rightarrow> ustring \<Rightarrow> loader_state \<Rightarrow> (load_error + lx_file \<times> u32 list) \<times> loader_state" where
  "place_dll env path st =
    (case env_open env path of
       None \<Rightarrow> (Inl OpenFailed, st)
     | Some file \<Rightarrow>
         (case lx_parse file 0 of
            Inl e \<Rightarrow> (Inl (if e = Panicked then LoadPanicked else ParseFailed e), st)
          | Inr (f, _) \<Rightarrow>
              (case alloc_objects (lxf_object_table f) (ld_mem st) of
                 (None, mm) \<Rightarrow> (Inl OutOfGuestMemory, st\<lparr> ld_mem := mm \<rparr>)
               | (Some bases, mm) \<Rightarrow>
                   (case load_objects PageOutOfBounds f file bases (ld_guest st) of
                      (m, Some e) \<Rightarrow> (Inl e, st\<lparr> ld_mem := mm, ld_guest := m \<rparr>)
                    | (m, None) \<Rightarrow> (Inr (f, bases), st\<lparr> ld_mem := mm, ld_guest := m \<rparr>)))))"

text \<open>
  The recursion. The result carries the set of names on the call stack, which the source threads
  through by reference; a failed dependency is only logged, a panic or missing fuel ends the load.
\<close>

fun load_deps ::
  "(ustring \<Rightarrow> ustring \<Rightarrow> ustring set \<Rightarrow> loader_state \<Rightarrow> (load_error + u32) \<times> ustring set \<times> loader_state)
    \<Rightarrow> host_env \<Rightarrow> ustring list \<Rightarrow> ustring set \<Rightarrow> loader_state
    \<Rightarrow> load_error option \<times> ustring set \<times> loader_state" where
  "load_deps load env [] loading st = (None, loading, st)"
| "load_deps load env (dep # deps) loading st =
    (let dep_upper = to_ascii_uppercase dep in
     if dep_upper \<in> set BUILTIN_MODULES then load_deps load env deps loading st
     else if dm_find_by_name (ld_dlls st) dep_upper \<noteq> None then load_deps load env deps loading st
     else if dep_upper \<in> loading then load_deps load env deps loading st
     else
       (case find_dll_path env dep_upper of
          None \<Rightarrow> load_deps load env deps loading st
        | Some dep_path \<Rightarrow>
            (case load dep_upper dep_path loading st of
               (r, loading', st') \<Rightarrow>
                 if r = Inl LoadPanicked \<or> r = Inl OutOfFuel then (Some (projl r), loading', st')
                 else load_deps load env deps loading' st')))"

fun load_dll_impl ::
  "nat \<Rightarrow> host_env \<Rightarrow> ustring \<Rightarrow> ustring \<Rightarrow> ustring set \<Rightarrow> loader_state
    \<Rightarrow> (load_error + u32) \<times> ustring set \<times> loader_state" where
  "load_dll_impl 0 env dll_name dll_path loading st = (Inl OutOfFuel, loading, st)"
| "load_dll_impl (Suc n) env dll_name dll_path loading st =
    (let dll_name_upper = to_ascii_uppercase dll_name in
     case dm_find_by_name (ld_dlls st) dll_name_upper of
       Some d \<Rightarrow>
         (Inr (ld_handle d), loading,
          st\<lparr> ld_dlls := snd (dm_increment_refcount (ld_dlls st) (ld_handle d)) \<rparr>)
     | None \<Rightarrow>
         (case place_dll env dll_path st of
            (Inl e, st1) \<Rightarrow> (Inl e, loading, st1)
          | (Inr (f, bases), st1) \<Rightarrow>
              (case load_deps (load_dll_impl n env) env (lxf_imported_modules f)
                      (insert dll_name_upper loading) st1 of
                 (Some e, loading', st2) \<Rightarrow> (Inl e, loading', st2)
               | (None, loading', st2) \<Rightarrow>
                   (case register_dll dll_name_upper f bases st2 of
                      (Inl e, st3) \<Rightarrow> (Inl e, loading', st3)
                    | (Inr h, st3) \<Rightarrow> (Inr h, loading' - {dll_name_upper}, st3)))))"

definition load_dll :: "nat \<Rightarrow> host_env \<Rightarrow> ustring \<Rightarrow> ustring \<Rightarrow> loader_state
    \<Rightarrow> (load_error + u32) \<times> loader_state" where
  "load_dll fuel env dll_name dll_path st =
    (case load_dll_impl fuel env dll_name dll_path {} st of (r, _, st') \<Rightarrow> (r, st'))"

section \<open>Fixup sources\<close>

lemma gm_write_ok:
  assumes "unat a + size_of TYPE('a) \<le> gm_size m" "size_of TYPE('a) \<le> 8"
  obtains m' where "gm_write m a (v :: 'a::len word) = Some m'"
proof -
  have "ptr_at m a (size_of TYPE('a)) = Some (unat a)" using assms by (rule ptr_at_small)
  then show ?thesis using that by (simp add: gm_write_Some)
qed

lemma ucast_arith_down:
  "(ucast (a + b :: u64) :: u32) = ucast a + ucast b" "(ucast (a - b :: u64) :: u32) = ucast a - ucast b"
  by (intro word_uint_eqI;
    simp add: uint_word_ariths unsigned_ucast_eq take_bit_eq_mod mod_simps mod_mod_cancel)+

text \<open>Two adjacent stores are both read back.\<close>

lemma write_pair:
  assumes "unat a + size_of TYPE('a) + size_of TYPE('b) \<le> gm_size m" "gm_size m \<le> 2 ^ 32"
    and "size_of TYPE('a) \<le> 8" "size_of TYPE('b) \<le> 8" "byte_sized TYPE('a)" "byte_sized TYPE('b)"
    and k: "k = of_nat (size_of TYPE('a))" "0 < size_of TYPE('b)"
  obtains m' where "do { m1 \<leftarrow> gm_write m a (v :: 'a::len word); gm_write m1 (a + k) (w :: 'b::len word) } = Some m'"
    "gm_read m' a = Some v" "gm_read m' (a + k) = Some w"
proof -
  have "unat (of_nat (size_of TYPE('a)) :: u32) = size_of TYPE('a)"
    using assms(3) by (simp add: unat_of_nat)
  then have u: "unat (a + k) = unat a + size_of TYPE('a)"
    unfolding k(1) using assms(1,2) k(2) by (subst unat_plus_u32) auto
  obtain m1 where m1: "gm_write m a v = Some m1"
    using gm_write_ok [of a m v] assms(1,3) by auto
  obtain m' where m': "gm_write m1 (a + k) w = Some m'"
    using gm_write_ok [of "a + k" m1 w] assms(1,4) u gm_write_size [OF m1] by auto
  have "gm_read m' a = (gm_read m1 a :: 'a word option)"
    by (rule gm_write_other [OF m']) (simp add: u)
  then show ?thesis
    using that m1 m' gm_write_same [OF m1 assms(5)] gm_write_same [OF m' assms(6)] by simp
qed

lemma far_pointer_parts:
  assumes "unat (ta :: u64) < 0x10000000"
  shows "(ucast ((TILED_SEL_START_INDEX + ucast (drop_bit 16 ta)) * 8) :: u16) =
      ucast (drop_bit 16 (dos_flat_to_sel (ucast ta)))"
    and "ucast (ucast (ta AND 0xFFFF) :: u16) = ((ucast ta :: u32) AND 0xFFFF)"
proof -
  have flat: "unat (ucast ta :: u32) = unat ta"
    using assms by (simp add: unsigned_ucast_eq take_bit_nat_eq_self)
  then have lt: "unat (ucast ta :: u32) < 0x10000000" using assms by simp
  let ?i = "unat (ucast ta :: u32) div 65536"
  have i: "?i < 4096" using lt by simp
  have "unat (drop_bit 16 ta) = ?i" by (simp add: drop_bit_eq_div unat_div flat)
  then have "ucast (drop_bit 16 ta) = (of_nat ?i :: u32)" by (metis of_nat_unat)
  then have sel: "(TILED_SEL_START_INDEX + ucast (drop_bit 16 ta)) * 8 = (of_nat (8 * (6 + ?i)) :: u32)"
    by (simp add: TILED_SEL_START_INDEX_def)
  have "unat (of_nat (8 * (6 + ?i)) :: u32) = 8 * (6 + ?i)"
    using i by (simp only: unat_of_nat) simp
  then have "ucast (of_nat (8 * (6 + ?i)) :: u32) = (of_nat (8 * (6 + ?i)) :: u16)"
    by (metis of_nat_unat)
  then show "(ucast ((TILED_SEL_START_INDEX + ucast (drop_bit 16 ta)) * 8) :: u16) =
      ucast (drop_bit 16 (dos_flat_to_sel (ucast ta)))"
    unfolding sel flat_to_sel_parts(2) [OF lt] .
  have m64: "(0xFFFF :: u64) = mask 16" and m32: "(0xFFFF :: u32) = mask 16"
    by (simp_all add: mask_eq_exp_minus_1)
  show "ucast (ucast (ta AND 0xFFFF) :: u16) = ((ucast ta :: u32) AND 0xFFFF)"
    unfolding m64 m32 by (rule bit_word_eqI) (auto simp: bit_simps)
qed

lemma apply_source_far:
  assumes "unat (ucast sp :: u32) + 6 \<le> gm_size m" "gm_size m \<le> 2 ^ 32"
    and "unat ta < 0x10000000" "setup_idt g = Some g'" "0x8DA00 \<le> gm_size g" "st = 2 \<or> st = 3"
  shows "\<exists>m' off sel. apply_source st ta m sp = Some m' \<and> gm_read m' (ucast sp) = Some (off :: u16) \<and>
    gm_read m' (ucast sp + 2) = Some (sel :: u16) \<and>
    gdt_entry_base g' sel + ucast off = (ucast ta :: u32)"
proof -
  have lt: "unat (ucast ta :: u32) < 0x10000000"
    using assms(3) by (simp add: unsigned_ucast_eq take_bit_nat_eq_self)
  let ?off = "ucast (ta AND 0xFFFF) :: u16"
  let ?sel = "ucast ((TILED_SEL_START_INDEX + ucast (drop_bit 16 ta)) * 8) :: u16"
  obtain m' where m': "do { m1 \<leftarrow> gm_write m (ucast sp) ?off; gm_write m1 (ucast sp + 2) ?sel } = Some m'"
    "gm_read m' (ucast sp) = Some ?off" "gm_read m' (ucast sp + 2) = Some ?sel"
    by (rule write_pair [of "ucast sp" m 2 ?off ?sel]) (use assms(1,2) in \<open>simp_all add: size_of_def\<close>)
  have "apply_source st ta m sp = Some m'" using m'(1) assms(6) by (auto simp: apply_source_def Let_def)
  moreover have "gdt_entry_base g' ?sel + ucast ?off = (ucast ta :: u32)"
    unfolding far_pointer_parts [OF assms(3)] using flat_sel_lemma [OF lt assms(4,5)] by simp
  ultimately show ?thesis using m'(2,3) by blast
qed

section \<open>The names on the call stack\<close>

text \<open>A load that neither panics nor runs out of fuel gives back the set of names it was given.\<close>

definition load_returns :: "ustring set \<Rightarrow> (load_error + u32) \<times> ustring set \<times> loader_state \<Rightarrow> bool" where
  "load_returns loading res \<longleftrightarrow> fst res \<noteq> Inl OutOfFuel \<and>
     (fst res \<noteq> Inl LoadPanicked \<longrightarrow> fst (snd res) = loading)"

lemma load_deps_returns:
  assumes "\<And>dep path st. dep \<notin> loading \<Longrightarrow> to_ascii_uppercase dep = dep \<Longrightarrow>
      find_dll_path env dep = Some path \<Longrightarrow> load_returns loading (load dep path loading st)"
    and "load_deps load env deps loading st = (e, loading', st')"
  shows "e \<noteq> Some OutOfFuel \<and> (e \<noteq> Some LoadPanicked \<longrightarrow> e = None \<and> loading' = loading)"
  using assms(2)
proof (induction deps arbitrary: st)
  case (Cons dep deps)
  let ?d = "to_ascii_uppercase dep"
  show ?case
  proof (cases "?d \<in> set BUILTIN_MODULES \<or> dm_find_by_name (ld_dlls st) ?d \<noteq> None \<or> ?d \<in> loading \<or>
      find_dll_path env ?d = None")
    case True
    then have "load_deps load env deps loading st = (e, loading', st')"
      using Cons.prems by (auto simp: Let_def split: option.splits if_splits)
    then show ?thesis by (rule Cons.IH)
  next
    case False
    then obtain path where path: "find_dll_path env ?d = Some path" by auto
    obtain r l1 st1 where ld: "load ?d path loading st = (r, l1, st1)" by (metis prod_cases3)
    have ret: "load_returns loading (r, l1, st1)"
      using assms(1) [of ?d path st] False path ld by simp
    show ?thesis
    proof (cases "r = Inl LoadPanicked")
      case True
      then show ?thesis using Cons.prems False path ld by (auto simp: Let_def)
    next
      case nf: False
      then have "r \<noteq> Inl OutOfFuel" "l1 = loading" using ret by (auto simp: load_returns_def)
      then have "load_deps load env deps loading st1 = (e, loading', st')"
        using Cons.prems False path ld nf by (auto simp: Let_def)
      then show ?thesis by (rule Cons.IH)
    qed
  qed
qed simp

text \<open>The errors of the page loop.\<close>

definition page_errors :: "load_error \<Rightarrow> guest_memory \<times> load_error option \<Rightarrow> bool" where
  "page_errors oob st \<longleftrightarrow> (\<forall>e. snd st = Some e \<longrightarrow> e = oob \<or> (\<exists>x. e = PageRead x))"

lemma load_page_errors: "page_errors oob st \<Longrightarrow> page_errors oob (load_page oob f file base st pp)"
  by (auto simp: page_errors_def load_page_def read_into_def Let_def split: prod.splits option.splits)

lemma load_objects_errors: "page_errors oob (load_objects oob f file bases m)"
  unfolding load_objects_def
proof (rule foldl_inv [where P = "page_errors oob"])
  fix st and x :: "u32 \<times> object_table_entry"
  assume "page_errors oob st"
  then have "page_errors oob (foldl (load_page oob f file (fst x)) st (object_page_list f (snd x)))"
    by (intro foldl_inv [where P = "page_errors oob"] load_page_errors)
  then show "page_errors oob (case x of (base, obj) \<Rightarrow>
      foldl (load_page oob f file base) st (object_page_list f obj))"
    by (simp add: case_prod_beta)
qed (simp add: page_errors_def)

lemma place_dllE:
  assumes "place_dll env path st = (r, st')"
  obtains e where "r = Inl e" "e \<noteq> OutOfFuel" "ld_dlls st' = ld_dlls st"
  | bytes f q bases mm m where "r = Inr (f, bases)" "env_open env path = Some bytes"
      "lx_parse bytes 0 = Inr (f, q)" "alloc_objects (lxf_object_table f) (ld_mem st) = (Some bases, mm)"
      "load_objects PageOutOfBounds f bytes bases (ld_guest st) = (m, None)"
      "st' = st\<lparr> ld_mem := mm, ld_guest := m \<rparr>"
proof (cases "env_open env path")
  case None
  then show ?thesis using assms that(1) by (auto simp: place_dll_def)
next
  case (Some bytes)
  note bytes = this
  show ?thesis
  proof (cases "lx_parse bytes 0")
    case (Inl e)
    then show ?thesis using assms bytes that(1) by (auto simp: place_dll_def split: if_splits)
  next
    case (Inr fp)
    then obtain f q where f: "lx_parse bytes 0 = Inr (f, q)" by (cases fp) auto
    obtain bo mm where al: "alloc_objects (lxf_object_table f) (ld_mem st) = (bo, mm)" by fastforce
    show ?thesis
    proof (cases bo)
      case None
      then show ?thesis using assms bytes f al that(1) by (auto simp: place_dll_def)
    next
      case (Some bases)
      obtain m eo where lo: "load_objects PageOutOfBounds f bytes bases (ld_guest st) = (m, eo)"
        by fastforce
      have "page_errors PageOutOfBounds (m, eo)" using load_objects_errors lo by metis
      then show ?thesis using assms bytes f al Some lo that
        by (cases eo) (auto simp: place_dll_def page_errors_def)
    qed
  qed
qed

lemma register_dllE:
  assumes "register_dll name f bases st = (r, st')"
  obtains "r = Inl LoadPanicked" "st' = st"
  | m where "apply_fixups (ld_dlls st) f bases (ld_guest st) = Some m"
      "r = Inr (dm_next_handle (ld_dlls st))" "ld_mem st' = ld_mem st" "ld_guest st' = m"
      "dm_next_handle (ld_dlls st') = dm_next_handle (ld_dlls st) + 1"
      "dm_dlls (ld_dlls st') = dm_dlls (ld_dlls st) @
        [\<lparr> ld_name = name, ld_handle = dm_next_handle (ld_dlls st), ld_object_bases = bases,
           ld_exports_by_ordinal = export_ordinals f bases,
           ld_exports_by_name = export_names f (export_ordinals f bases), ld_ref_count = 1,
           ld_initterm_addr = initterm_address f bases, ld_is_builtin = False \<rparr>]"
  using assms
  by (cases "apply_fixups (ld_dlls st) f bases (ld_guest st)")
    (auto simp: register_dll_def Let_def dm_alloc_handle_def dm_register_def)

section \<open>Termination\<close>

lemma load_dll_impl_returns:
  assumes fin: "finite S" and S: "\<And>n. find_dll_path env n \<noteq> None \<Longrightarrow> n \<in> S"
    and "to_ascii_uppercase name \<notin> loading"
    and "card (S - insert (to_ascii_uppercase name) loading) < fuel"
  shows "load_returns loading (load_dll_impl fuel env name path loading st)"
  using assms(3,4)
proof (induction fuel arbitrary: name path loading st)
  case (Suc n)
  let ?u = "to_ascii_uppercase name" and ?l = "insert (to_ascii_uppercase name) loading"
  show ?case
  proof (cases "dm_find_by_name (ld_dlls st) ?u")
    case None
    note fresh = this
    obtain r st1 where pl: "place_dll env path st = (r, st1)" by fastforce
    then show ?thesis
    proof (cases rule: place_dllE)
      case (1 e)
      then show ?thesis using fresh pl by (simp add: load_returns_def)
    next
      case (2 bytes f q bases mm m)
      obtain e l2 st2 where dp: "load_deps (load_dll_impl n env) env (lxf_imported_modules f) ?l st1 = (e, l2, st2)"
        by (metis prod_cases3)
      have d: "e \<noteq> Some OutOfFuel \<and> (e \<noteq> Some LoadPanicked \<longrightarrow> e = None \<and> l2 = ?l)"
      proof (rule load_deps_returns [OF _ dp])
        fix dep path' st'
        assume a: "dep \<notin> ?l" "to_ascii_uppercase dep = dep" "find_dll_path env dep = Some path'"
        have "dep \<in> S - ?l" using S a by auto
        then have "card (S - insert dep ?l) < card (S - ?l)"
          using fin by (intro psubset_card_mono) auto
        then have "card (S - insert (to_ascii_uppercase dep) ?l) < n"
          using Suc.prems(2) unfolding a(2) by linarith
        then show "load_returns ?l (load_dll_impl n env dep path' ?l st')"
          using Suc.IH [of dep ?l path' st'] a(1,2) by simp
      qed
      obtain r3 st3 where rg: "register_dll ?u f bases st2 = (r3, st3)" by fastforce
      have "r3 = Inl LoadPanicked \<or> (\<exists>h. r3 = Inr h)" using rg by (rule register_dllE) auto
      then show ?thesis using d 2(1) fresh pl dp rg Suc.prems(1)
        by (cases e) (auto simp: load_returns_def Let_def)
    qed
  qed (simp add: load_returns_def)
qed simp

section \<open>What a loaded DLL exports\<close>

text \<open>A load never registers a module under a name that is on the call stack.\<close>

lemma find_by_name_append:
  "dm_dlls m' = dm_dlls m @ [d] \<Longrightarrow> dm_find_by_name m nm = None \<Longrightarrow>
    dm_find_by_name m' nm = (if ld_name d = to_ascii_uppercase nm then Some d else None)"
  by (auto simp: dm_find_by_name_def Let_def find_append split: option.splits)

lemma find_by_name_increment:
  "dm_find_by_name (snd (dm_increment_refcount m h)) nm = None \<longleftrightarrow> dm_find_by_name m nm = None"
proof (cases "vec_position (\<lambda>d. ld_handle d = h) (dm_dlls m)")
  case (Some i)
  then obtain ys x zs where "dm_dlls m = ys @ x # zs" "i = length ys" by (rule vec_position_SomeE)
  then show ?thesis using Some
    by (auto simp: dm_increment_refcount_def dm_find_by_name_def Let_def find_None_iff nth_append)
qed (simp add: dm_increment_refcount_def)

definition keeps_absent :: "ustring \<Rightarrow> loader_state \<Rightarrow> loader_state \<Rightarrow> bool" where
  "keeps_absent x st st' \<longleftrightarrow>
    (dm_find_by_name (ld_dlls st) x = None \<longrightarrow> dm_find_by_name (ld_dlls st') x = None)"

lemma load_deps_absent:
  assumes "\<And>dep path l st. x \<in> l \<Longrightarrow> dep \<noteq> x \<Longrightarrow> to_ascii_uppercase dep = dep \<Longrightarrow>
      keeps_absent x st (snd (snd (load dep path l st))) \<and> x \<in> fst (snd (load dep path l st))"
    and "x \<in> loading"
  shows "keeps_absent x st (snd (snd (load_deps load env deps loading st))) \<and>
    x \<in> fst (snd (load_deps load env deps loading st))"
  using assms(2)
proof (induction deps arbitrary: loading st)
  case (Cons dep deps)
  let ?d = "to_ascii_uppercase dep"
  show ?case
  proof (cases "?d \<in> set BUILTIN_MODULES \<or> dm_find_by_name (ld_dlls st) ?d \<noteq> None \<or> ?d \<in> loading \<or>
      find_dll_path env ?d = None")
    case True
    then have "load_deps load env (dep # deps) loading st = load_deps load env deps loading st"
      by (auto simp: Let_def split: option.splits if_splits)
    then show ?thesis using Cons.IH [OF Cons.prems] by simp
  next
    case False
    then obtain path where path: "find_dll_path env ?d = Some path" by auto
    obtain r l1 st1 where ld: "load ?d path loading st = (r, l1, st1)" by (metis prod_cases3)
    have k: "keeps_absent x st st1" "x \<in> l1"
      using assms(1) [of loading ?d st path] False Cons.prems ld by auto
    have IH: "keeps_absent x st1 (snd (snd (load_deps load env deps l1 st1)))"
      "x \<in> fst (snd (load_deps load env deps l1 st1))" using Cons.IH [OF k(2)] by auto
    show ?thesis using False path ld k IH by (auto simp: Let_def keeps_absent_def)
  qed
qed (simp add: keeps_absent_def)

lemma load_dll_impl_absent:
  assumes "x \<in> loading" "to_ascii_uppercase name \<noteq> x" "to_ascii_uppercase x = x"
  shows "keeps_absent x st (snd (snd (load_dll_impl fuel env name path loading st))) \<and>
    x \<in> fst (snd (load_dll_impl fuel env name path loading st))"
  using assms
proof (induction fuel arbitrary: name path loading st)
  case (Suc n)
  let ?u = "to_ascii_uppercase name" and ?l = "insert (to_ascii_uppercase name) loading"
  show ?case
  proof (cases "dm_find_by_name (ld_dlls st) ?u")
    case None
    note fresh = this
    obtain r st1 where pl: "place_dll env path st = (r, st1)" by fastforce
    then show ?thesis
    proof (cases rule: place_dllE)
      case (1 e)
      then show ?thesis using fresh pl Suc.prems by (simp add: keeps_absent_def)
    next
      case (2 bytes f q bases mm m)
      obtain e l2 st2 where dp: "load_deps (load_dll_impl n env) env (lxf_imported_modules f) ?l st1 = (e, l2, st2)"
        by (metis prod_cases3)
      have "keeps_absent x st1 (snd (snd (e, l2, st2))) \<and> x \<in> fst (snd (e, l2, st2))"
        unfolding dp [symmetric] using Suc.prems
        by (intro load_deps_absent Suc.IH) auto
      then have d: "keeps_absent x st st2" "x \<in> l2" using 2(6) by (auto simp: keeps_absent_def)
      obtain r3 st3 where rg: "register_dll ?u f bases st2 = (r3, st3)" by fastforce
      then have "keeps_absent x st st3"
      proof (cases rule: register_dllE)
        case (2 m3)
        then show ?thesis
          using find_by_name_append [OF 2(6), of x] d(1) Suc.prems(2,3) by (auto simp: keeps_absent_def)
      qed (use d in simp)
      then show ?thesis using 2(1) fresh pl dp rg d Suc.prems(2)
        by (cases e; cases r3) (auto simp: Let_def)
    qed
  qed (use Suc.prems in \<open>simp add: keeps_absent_def find_by_name_increment\<close>)
qed (simp add: keeps_absent_def)

lemma alloc_objects_length:
  "alloc_objects objs mm = (Some bases, mm') \<Longrightarrow> length bases = length objs"
  by (induction objs arbitrary: mm bases) (auto split: prod.splits option.splits)

lemma export_ordinals_at:
  assumes "distinct (map exp_ordinal (lxf_exports f))" "e \<in> set (lxf_exports f)"
    and "exp_object_num e \<noteq> 0" "unat (exp_object_num e) \<le> length bases"
  shows "export_ordinals f bases (exp_ordinal e) =
    Some (bases ! (unat (exp_object_num e) - 1) + exp_offset e)"
proof -
  let ?g = "\<lambda>m e. if exp_object_num e \<noteq> 0 \<and> unat (exp_object_num e) - 1 < length bases
      then m(exp_ordinal e \<mapsto> bases ! (unat (exp_object_num e) - 1) + exp_offset e) else m"
  have keep: "foldl ?g m es k = m k" if "k \<notin> exp_ordinal ` set es" for m es k
    using that by (induction es arbitrary: m) auto
  obtain xs ys where es: "lxf_exports f = xs @ e # ys" using assms(2) by (meson split_list)
  have "exp_ordinal e \<notin> exp_ordinal ` set ys" using assms(1) unfolding es by auto
  then have "foldl ?g (?g m e) ys (exp_ordinal e) = ?g m e (exp_ordinal e)" for m by (rule keep)
  moreover have "0 < unat (exp_object_num e)" using assms(3) by (simp add: unat_gt_0)
  then have "unat (exp_object_num e) - 1 < length bases" using assms(4) by linarith
  ultimately show ?thesis using assms(3) unfolding export_ordinals_def es foldl_append foldl_Cons by simp
qed

lemma load_dll_implE:
  assumes "load_dll_impl fuel env name path {} st = (Inr h, l', st')"
    and "dm_find_by_name (ld_dlls st) name = None"
  obtains bytes f q bases d where "env_open env path = Some bytes" "lx_parse bytes 0 = Inr (f, q)"
    "length bases = length (lxf_object_table f)" "dm_find_by_name (ld_dlls st') name = Some d"
    "ld_handle d = h" "ld_ref_count d = 1" "ld_object_bases d = bases"
    "ld_exports_by_ordinal d = export_ordinals f bases"
proof -
  let ?u = "to_ascii_uppercase name"
  have fu: "dm_find_by_name m ?u = dm_find_by_name m name" for m by (simp add: dm_find_by_name_def)
  obtain n where n: "fuel = Suc n" using assms(1) by (cases fuel) auto
  obtain r st1 where pl: "place_dll env path st = (r, st1)" by fastforce
  then show ?thesis
  proof (cases rule: place_dllE)
    case (1 e)
    then show ?thesis using assms pl n fu by simp
  next
    case (2 bytes f q bases mm m)
    obtain e l2 st2 where dp: "load_deps (load_dll_impl n env) env (lxf_imported_modules f) {?u} st1 = (e, l2, st2)"
      by (metis prod_cases3)
    have "keeps_absent ?u st1 (snd (snd (e, l2, st2))) \<and> ?u \<in> fst (snd (e, l2, st2))"
      unfolding dp [symmetric] by (intro load_deps_absent load_dll_impl_absent) auto
    then have ab: "dm_find_by_name (ld_dlls st2) name = None"
      using assms(2) fu 2(6) by (simp add: keeps_absent_def)
    obtain r3 st3 where rg: "register_dll ?u f bases st2 = (r3, st3)" by fastforce
    have e: "e = None" and r3: "r3 = Inr h" "st3 = st'"
      using assms pl n fu 2(1) dp rg by (cases e; cases r3; auto simp: Let_def)+
    from rg show ?thesis
    proof (cases rule: register_dllE)
      case (2 m3)
      note reg = this
      show ?thesis
        using that [OF \<open>env_open env path = Some bytes\<close> \<open>lx_parse bytes 0 = Inr (f, q)\<close>
            alloc_objects_length] \<open>alloc_objects _ _ = _\<close> reg(2) r3
          find_by_name_append [OF reg(6) ab] by simp
    qed (use r3 in simp)
  qed
qed

section \<open>Where the pages go\<close>

text \<open>The blocks a DLL gets: one for each object, apart from each other and from the live blocks, with room for its pages.\<close>

lemma alloc_objects_new:
  assumes "mm_reachable base limit mm" "4096 dvd unat base" "base \<le> limit"
    and "alloc_objects objs mm = (Some bases, mm')"
  shows "\<exists>new. mm_allocated mm' = mm_allocated mm @ new \<and> map ab_addr new = bases \<and>
    sorted_wrt (\<lambda>b c. blk_bytes b \<inter> blk_bytes c = {}) new \<and>
    (\<forall>c\<in>set new. blk_bytes c \<subseteq> {unat base ..< unat limit} \<and>
      (\<forall>b\<in>set (mm_allocated mm). blk_bytes b \<inter> blk_bytes c = {})) \<and>
    list_all2 (\<lambda>c obj. unat (obj_page_count obj) * 4096 < max (unat (obj_size obj)) 4096 + 4096 \<longrightarrow>
      unat (obj_page_count obj) * 4096 \<le> unat (ab_size c)) new objs"
  using assms(1,4)
proof (induction objs arbitrary: mm bases)
  case (Cons x objs)
  let ?n = "max (obj_size x) 4096"
  obtain a1 mm1 bs where a1: "mm_alloc mm ?n = (Some a1, mm1)" "bases = a1 # bs"
    "alloc_objects objs mm1 = (Some bs, mm')"
    using Cons.prems(2) by (auto split: prod.splits option.splits)
  obtain k :: u32 where k: "unat ?n \<le> unat k" "4096 dvd unat k"
    "mm_allocated mm1 = mm_allocated mm @ [\<lparr>ab_addr = a1, ab_size = k\<rparr>]"
    "\<forall>b\<in>set (mm_allocated mm). blk_bytes b \<inter> {unat a1 ..< unat a1 + unat k} = {}"
    "{unat a1 ..< unat a1 + unat k} \<subseteq> {unat base ..< unat limit}"
    using mm_alloc_block [OF Cons.prems(1) assms(2,3) a1(1)] by blast
  let ?c = "\<lparr>ab_addr = a1, ab_size = k\<rparr>"
  have c: "blk_bytes ?c = {unat a1 ..< unat a1 + unat k}" by (simp add: blk_bytes_def blk_lo_def blk_hi_def)
  have "mm1 = mm_step mm (MM_Alloc ?n)" using a1(1) by simp
  then have "mm_reachable base limit mm1" using mm_next [OF Cons.prems(1)] by metis
  from Cons.IH [OF this a1(3)] obtain new where new: "mm_allocated mm' = mm_allocated mm1 @ new" "map ab_addr new = bs"
    "sorted_wrt (\<lambda>b c. blk_bytes b \<inter> blk_bytes c = {}) new"
    "\<forall>c\<in>set new. blk_bytes c \<subseteq> {unat base ..< unat limit} \<and>
      (\<forall>b\<in>set (mm_allocated mm1). blk_bytes b \<inter> blk_bytes c = {})"
    "list_all2 (\<lambda>c obj. unat (obj_page_count obj) * 4096 < max (unat (obj_size obj)) 4096 + 4096 \<longrightarrow>
      unat (obj_page_count obj) * 4096 \<le> unat (ab_size c)) new objs" by blast
  have n: "unat ?n = max (unat (obj_size x)) 4096" by (simp add: max_def word_le_nat_alt)
  obtain j where j: "unat k = 4096 * j" using k(2) by (rule dvdE)
  have fits: "unat (obj_page_count x) * 4096 < max (unat (obj_size x)) 4096 + 4096 \<longrightarrow>
      unat (obj_page_count x) * 4096 \<le> unat k"
    using j k(1) unfolding n by auto
  show ?case
    by (rule exI [of _ "?c # new"]) (use new k(3-5) a1(2) fits c in auto)
qed simp

definition page_range :: "u32 \<Rightarrow> nat \<times> object_page_map_entry \<Rightarrow> nat set" where
  "page_range base pp = (let t = unat (base + of_nat (fst pp) * 4096 :: u32) in
     {t ..< t + unat (pg_data_size (snd pp))})"

lemma load_page_frame:
  assumes "k \<notin> page_range base pp"
  shows "gm_size (fst (load_page oob f file base st pp)) = gm_size (fst st) \<and>
    gm_bytes (fst (load_page oob f file base st pp)) ! k = gm_bytes (fst st) ! k"
proof -
  obtain m eo p pg where st: "st = (m, eo)" "pp = (p, pg)" by fastforce
  let ?t = "base + of_nat p * 4096 :: u32" and ?n = "unat (pg_data_size pg)"
  let ?d = "take ?n (drop (page_file_offset f pg) file)"
  show ?thesis
  proof (cases "eo = None \<and> pg_data_size pg \<noteq> 0 \<and> ptr_at m ?t ?n \<noteq> None")
    case True
    then have b: "unat ?t + ?n \<le> gm_size m" by (auto simp: ptr_at_Some)
    have l: "length ?d \<le> ?n" by simp
    have b': "unat ?t + length ?d \<le> gm_size m" using b l by linarith
    have "k < unat ?t \<or> unat ?t + length ?d \<le> k"
      using assms l st(2) by (auto simp: page_range_def Let_def)
    then have "gm_bytes (gm_put m (unat ?t) ?d) ! k = gm_bytes m ! k" by (rule put_nth [OF b'])
    then show ?thesis using st True gm_size_put [OF b']
      by (auto simp: load_page_def read_into_def Let_def)
  qed (use st in \<open>auto simp: load_page_def Let_def split: option.splits\<close>)
qed

text \<open>An invariant of the page loop is an invariant of the loop over the objects.\<close>

lemma load_objects_inv:
  assumes "\<And>st x pp. x \<in> set (zip bases (lxf_object_table f)) \<Longrightarrow> pp \<in> set (object_page_list f (snd x)) \<Longrightarrow>
      P (fst st) \<Longrightarrow> P (fst (load_page oob f file (fst x) st pp))" and "P m"
  shows "P (fst (load_objects oob f file bases m))"
  unfolding load_objects_def
proof (rule foldl_inv [where P = "\<lambda>st. P (fst st)"])
  fix st :: "guest_memory \<times> load_error option" and x :: "u32 \<times> object_table_entry"
  assume x: "x \<in> set (zip bases (lxf_object_table f))" and st: "P (fst st)"
  have "P (fst (foldl (load_page oob f file (fst x)) st (object_page_list f (snd x))))"
    using assms(1) [OF x] st by (intro foldl_inv [where P = "\<lambda>st. P (fst st)"]) auto
  then show "P (fst (case x of (base, obj) \<Rightarrow> foldl (load_page oob f file base) st (object_page_list f obj)))"
    by (simp add: case_prod_beta)
qed (simp add: assms(2))

lemma load_objects_frame:
  assumes "\<forall>x\<in>set (zip bases (lxf_object_table f)). \<forall>pp\<in>set (object_page_list f (snd x)).
      k \<notin> page_range (fst x) pp"
  shows "gm_bytes (fst (load_objects oob f file bases m)) ! k = gm_bytes m ! k"
  using load_page_frame assms by (intro load_objects_inv [where P = "\<lambda>g. gm_bytes g ! k = gm_bytes m ! k"]) auto

lemma load_objects_size: "gm_size (fst (load_objects oob f file bases m)) = gm_size m"
proof (rule load_objects_inv)
  fix st :: "guest_memory \<times> load_error option" and pp and x :: "u32 \<times> object_table_entry"
  assume "gm_size (fst st) = gm_size m"
  moreover have "unat (fst x + of_nat (fst pp) * 4096) + unat (pg_data_size (snd pp)) \<notin> page_range (fst x) pp"
    by (simp add: page_range_def Let_def)
  ultimately show "gm_size (fst (load_page oob f file (fst x) st pp)) = gm_size m"
    using load_page_frame by metis
qed simp

lemma page_range_in_block:
  assumes "(p, pg) \<in> set (object_page_list f obj)" "unat (pg_data_size pg) \<le> 4096"
    and "unat a + unat (obj_page_count obj) * 4096 \<le> 2 ^ 32"
  shows "page_range a (p, pg) \<subseteq> {unat a ..< unat a + unat (obj_page_count obj) * 4096}"
proof -
  have p: "p < unat (obj_page_count obj)" using assms(1) by (auto simp: object_page_list_def obj_pages_def)
  then have "p * 4096 + 4096 \<le> unat (obj_page_count obj) * 4096" by linarith
  then have le: "unat a + p * 4096 + 4096 \<le> unat a + unat (obj_page_count obj) * 4096" by simp
  have "of_nat p * 4096 = (of_nat (p * 4096) :: u32)" by simp
  moreover have "unat (of_nat (p * 4096) :: u32) = p * 4096"
    using le assms(3) by (simp only: unat_of_nat) simp
  ultimately have u: "unat (of_nat p * 4096 :: u32) = p * 4096" by metis
  have "unat a + unat (of_nat p * 4096 :: u32) < 2 ^ 32" using u le assms(3) by simp
  then have "unat (a + of_nat p * 4096 :: u32) = unat a + p * 4096" unfolding u [symmetric] by (rule unat_plus_u32)
  then show ?thesis using le assms(2) by (auto simp: page_range_def Let_def)
qed

section \<open>Properties\<close>

text \<open>
  What a fixup leaves at its source, read back from guest memory. A 32-bit fixup holds the
  target address; a self-relative one the displacement that takes the following instruction to
  it; a 16:16 one a selector and an offset that the descriptor table built at start-up resolves
  to the target, for every target in guest memory; a 16-bit one the low half of the target; a
  16:32 one the address and the flat code selector.
\<close>

theorem lx_fixup_source_spec:
  assumes "unat (ucast sp :: u32) + 6 \<le> gm_size m" "gm_size m \<le> 2 ^ 32"
  shows "(\<exists>m'. apply_source 7 ta m sp = Some m' \<and> gm_read m' (ucast sp) = Some (ucast ta :: u32)) \<and>
    (\<exists>m' d. apply_source 8 ta m sp = Some m' \<and> gm_read m' (ucast sp) = Some (d :: u32) \<and>
       ucast sp + 4 + d = ucast ta) \<and>
    (\<forall>st g g'. (st = 2 \<or> st = 3) \<and> unat ta < 0x10000000 \<and> setup_idt g = Some g' \<and> 0x8DA00 \<le> gm_size g \<longrightarrow>
       (\<exists>m' off sel. apply_source st ta m sp = Some m' \<and> gm_read m' (ucast sp) = Some (off :: u16) \<and>
          gm_read m' (ucast sp + 2) = Some (sel :: u16) \<and>
          gdt_entry_base g' sel + ucast off = (ucast ta :: u32))) \<and>
    (\<exists>m'. apply_source 5 ta m sp = Some m' \<and>
       gm_read m' (ucast sp) = Some (ucast (ta AND 0xFFFF) :: u16)) \<and>
    (\<exists>m'. apply_source 6 ta m sp = Some m' \<and> gm_read m' (ucast sp) = Some (ucast ta :: u32) \<and>
       gm_read m' (ucast sp + 4) = Some (0x08 :: u16))"
proof (intro conjI allI impI)
  let ?a = "ucast sp :: u32"
  have b: "unat ?a + 4 \<le> gm_size m" "unat ?a + 2 \<le> gm_size m" using assms(1) by simp_all
  show "\<exists>m'. apply_source 7 ta m sp = Some m' \<and> gm_read m' ?a = Some (ucast ta :: u32)"
    using gm_write_ok [of ?a m "ucast ta :: u32"] b gm_write_same [of m ?a "ucast ta :: u32"]
    by (auto simp: apply_source_def size_of_def)
  show "\<exists>m' d. apply_source 8 ta m sp = Some m' \<and> gm_read m' ?a = Some (d :: u32) \<and>
      ?a + 4 + d = ucast ta"
  proof -
    let ?d = "ucast (ta - (sp + 4)) :: u32"
    obtain m' where "gm_write m ?a ?d = Some m'" using gm_write_ok [of ?a m ?d] b by (auto simp: size_of_def)
    moreover have "?a + 4 + ?d = ucast ta" by (simp add: ucast_arith_down)
    ultimately show ?thesis using gm_write_same [of m ?a ?d m'] by (auto simp: apply_source_def Let_def)
  qed
  show "\<exists>m'. apply_source 5 ta m sp = Some m' \<and> gm_read m' ?a = Some (ucast (ta AND 0xFFFF) :: u16)"
    using gm_write_ok [of ?a m "ucast (ta AND 0xFFFF) :: u16"] b
      gm_write_same [of m ?a "ucast (ta AND 0xFFFF) :: u16"]
    by (auto simp: apply_source_def size_of_def)
  obtain m' where "do { m1 \<leftarrow> gm_write m ?a (ucast ta :: u32); gm_write m1 (?a + 4) (0x08 :: u16) } = Some m'"
    "gm_read m' ?a = Some (ucast ta :: u32)" "gm_read m' (?a + 4) = Some (0x08 :: u16)"
    by (rule write_pair [of ?a m 4 "ucast ta :: u32" "0x08 :: u16"]) (use assms in \<open>simp_all add: size_of_def\<close>)
  then show "\<exists>m'. apply_source 6 ta m sp = Some m' \<and> gm_read m' ?a = Some (ucast ta :: u32) \<and>
      gm_read m' (?a + 4) = Some (0x08 :: u16)"
    by (auto simp: apply_source_def Let_def)
qed (use apply_source_far [OF assms] in blast)

text \<open>A self-relative fixup at the last bytes of a small region.\<close>

theorem lx_fixup_source_spec_witness:
  "\<exists>m' d. apply_source 8 0x3000 (gm_alloc 0x1000) 0xFF0 = Some m' \<and>
     gm_read m' 0xFF0 = Some (d :: u32) \<and> 0xFF0 + 4 + d = 0x3000"
  using lx_fixup_source_spec [where sp = "0xFF0" and m = "gm_alloc 0x1000" and ta = "0x3000"] by simp

text \<open>
  C23. Loading a DLL terminates whatever the import graph, cycles included: with one unit of
  fuel more than there are module names with a file on the host, the recursion over the
  imported modules never runs dry.
\<close>

theorem load_dll_terminates:
  assumes "finite S" "\<forall>n. find_dll_path env n \<noteq> None \<longrightarrow> n \<in> S" "card S < fuel"
  shows "fst (load_dll fuel env name path st) \<noteq> Inl OutOfFuel"
proof -
  have "card (S - {to_ascii_uppercase name}) \<le> card S" using assms(1) by (intro card_mono) auto
  then have "load_returns {} (load_dll_impl fuel env name path {} st)"
    using assms by (intro load_dll_impl_returns [of S]) auto
  then show ?thesis by (auto simp: load_dll_def load_returns_def split: prod.split)
qed

text \<open>A host with no DLLs beside the one that is loaded.\<close>

definition example_env :: host_env where
  "example_env = \<lparr> env_exists = (\<lambda>_. False), env_open = (\<lambda>p. if p = ustr ''/a.dll'' then
     Some (example_lx @ replicate 0x800 0) else None), env_exe_dir = [], env_c_root = None \<rparr>"

definition example_state :: loader_state where
  "example_state = \<lparr> ld_guest = gm_alloc 0x10000000, ld_mem = mm_new 0x2000000 0x10000000,
     ld_res = rm_new, ld_dlls = dm_new \<rparr>"

lemma example_env_path: "find_dll_path example_env n = None"
  by (simp add: find_dll_path_def example_env_def find_None_iff)

theorem load_dll_terminates_witness:
  "fst (load_dll 1 example_env (ustr ''A'') (ustr ''/none.dll'') example_state) \<noteq> Inl OutOfFuel"
  using load_dll_terminates [of "{}" example_env 1] by (simp add: example_env_path)

text \<open>
  A DLL that loads is found by its name with a reference count of one and the handle that
  was returned, with one base address per object; every export with a valid object resolves
  through \<^verbatim>\<open>resolve_import\<close> to the address of its object plus its offset; and loading it again
  returns the same handle and touches neither guest memory nor the allocator.
\<close>

theorem load_dll_exports:
  assumes "load_dll fuel env name path st = (Inr h, st')" "dm_find_by_name (ld_dlls st) name = None"
  shows "\<exists>bytes f q bases d. env_open env path = Some bytes \<and> lx_parse bytes 0 = Inr (f, q) \<and>
    dm_find_by_name (ld_dlls st') name = Some d \<and> ld_handle d = h \<and> ld_ref_count d = 1 \<and>
    ld_object_bases d = bases \<and> length bases = length (lxf_object_table f) \<and>
    (distinct (map exp_ordinal (lxf_exports f)) \<longrightarrow>
      (\<forall>e\<in>set (lxf_exports f). exp_object_num e \<noteq> 0 \<and> unat (exp_object_num e) \<le> length bases \<longrightarrow>
        dm_resolve_ordinal (ld_dlls st') name (exp_ordinal e) =
          Some (bases ! (unat (exp_object_num e) - 1) + exp_offset e))) \<and>
    (\<forall>fuel' path'. 0 < fuel' \<longrightarrow> (\<exists>st''. load_dll fuel' env name path' st' = (Inr h, st'') \<and>
       ld_guest st'' = ld_guest st' \<and> ld_mem st'' = ld_mem st'))"
proof -
  obtain l' where impl: "load_dll_impl fuel env name path {} st = (Inr h, l', st')"
    using assms(1) by (auto simp: load_dll_def split: prod.splits)
  obtain bytes f q bases d where d: "env_open env path = Some bytes" "lx_parse bytes 0 = Inr (f, q)"
    "length bases = length (lxf_object_table f)" "dm_find_by_name (ld_dlls st') name = Some d"
    "ld_handle d = h" "ld_ref_count d = 1" "ld_object_bases d = bases"
    "ld_exports_by_ordinal d = export_ordinals f bases"
    using impl assms(2) by (rule load_dll_implE)
  have fu: "dm_find_by_name m (to_ascii_uppercase name) = dm_find_by_name m name" for m
    by (simp add: dm_find_by_name_def)
  have again: "\<exists>st''. load_dll fuel' env name path' st' = (Inr h, st'') \<and>
      ld_guest st'' = ld_guest st' \<and> ld_mem st'' = ld_mem st'" if "0 < fuel'" for fuel' path'
    using that d(4,5) fu by (cases fuel') (auto simp: load_dll_def Let_def)
  have "dm_resolve_ordinal (ld_dlls st') name o1 = export_ordinals f bases o1" for o1
    using d(4,8) by (simp add: dm_resolve_ordinal_def)
  then show ?thesis using d again export_ordinals_at [of f _ bases]
    by (intro exI [of _ bytes] exI [of _ f] exI [of _ q] exI [of _ bases] exI [of _ d]) auto
qed

lemma example_dll_parses: "\<exists>q. lx_parse (example_lx @ replicate 0x800 0) 0 = Inr (example_lx_file, q)"
proof (rule lx_image_parses)
  let ?d = "example_lx @ replicate 0x800 (0 :: u8)"
  have off: "lx_offset_of ?d = 64"
    by (simp add: lx_offset_of_def example_lx_def word_at_def)
  have hd: "lx_header_at ?d 64 = lx_header_at example_lx 64"
    by (simp add: lx_header_at_def example_lx_def word_at_def)
  let ?h = "lx_header_at example_lx 64"
  have h: "lx_signature ?h = LX_SIGNATURE" "header_valid ?h"
    by (simp_all add: lx_header_at_def example_lx_def LX_SIGNATURE_def header_valid_def word_at_def)
  have t: "lx_tables_image ?d 64 ?h example_lx_file"
    by (simp add: lx_tables_image_def lx_header_at_def lx_example_simps) (simp add: example_lx_def)
  have x: "lx_fixups_image ?d 64 ?h example_lx_file"
    by (simp add: lx_fixups_image_def lx_header_at_def lx_example_simps) (simp add: example_lx_def)
  have n: "lx_names_image ?d 64 ?h [Entry32 1 [(3, 0x10)]] [] example_lx_file"
    by (simp add: lx_names_image_def lx_header_at_def lx_example_simps) (simp add: example_lx_def)
  show "lx_image ?d [Entry32 1 [(3, 0x10)]] [] example_lx_file"
    unfolding lx_image_def Let_def off hd using h t x n
    by (simp add: example_lx_file_def) (simp add: example_lx_def)
qed

lemma example_dll_placed:
  "\<exists>m. load_objects PageOutOfBounds example_lx_file (example_lx @ replicate 0x800 0) [0x2000000]
     (gm_alloc 0x10000000) = (m, None)"
proof -
  have pages: "object_page_list example_lx_file (hd (lxf_object_table example_lx_file)) =
      [(0, \<lparr> pg_data_offset = 0, pg_data_size = 0x800, pg_flags = 0 \<rparr>)]"
    by (simp add: object_page_list_def obj_pages_def obj_page_start_def example_lx_file_def)
  have off: "page_file_offset example_lx_file \<lparr> pg_data_offset = 0, pg_data_size = 0x800, pg_flags = 0 \<rparr> = 0"
    by (simp add: page_file_offset_def example_lx_file_def lx_header_at_def example_lx_def word_at_def)
  have "length example_lx + 0x800 \<ge> (0x800 :: nat)" by simp
  then show ?thesis using pages off
    by (simp add: load_objects_def load_page_def read_into_def Let_def ptr_at_def example_lx_file_def)
qed

lemma example_dll_place:
  "\<exists>st1. place_dll example_env (ustr ''/a.dll'') example_state =
     (Inr (example_lx_file, [0x2000000]), st1) \<and> ld_dlls st1 = dm_new"
proof -
  obtain q where q: "lx_parse (example_lx @ replicate 0x800 0) 0 = Inr (example_lx_file, q)"
    using example_dll_parses by blast
  obtain m where m: "load_objects PageOutOfBounds example_lx_file (example_lx @ replicate 0x800 0)
      [0x2000000] (gm_alloc 0x10000000) = (m, None)" using example_dll_placed by blast
  obtain mm where mm: "alloc_objects (lxf_object_table example_lx_file) (mm_new 0x2000000 0x10000000) =
      (Some [0x2000000], mm)"
    by (simp add: example_lx_file_def mm_eval max_def)
  show ?thesis using q m mm by (simp add: place_dll_def example_env_def example_state_def)
qed

lemma example_dll_loads:
  "\<exists>st'. load_dll 1 example_env (ustr ''A'') (ustr ''/a.dll'') example_state = (Inr 0x1000, st')"
proof -
  have "apply_fixups dlls example_lx_file [0x2000000] g = Some g" for dlls g
    by (simp add: apply_fixups_def example_lx_file_def obj_pages_def obj_page_start_def
        apply_record_def fixup_target_addr_def example_fixup_def)
  then have rg: "\<exists>st2. register_dll nm example_lx_file [0x2000000] st1 =
      (Inr (dm_next_handle (ld_dlls st1)), st2)" for nm st1
    by (simp add: register_dll_def dm_alloc_handle_def Let_def)
  have dp: "load_deps load example_env deps l st1 = (None, l, st1)" for load deps l st1
    by (induction deps) (auto simp: Let_def example_env_path)
  obtain st1 where st1: "place_dll example_env (ustr ''/a.dll'') example_state =
      (Inr (example_lx_file, [0x2000000]), st1)" "ld_dlls st1 = dm_new" using example_dll_place by blast
  obtain st2 where st2: "register_dll (to_ascii_uppercase (ustr ''A'')) example_lx_file [0x2000000] st1 =
      (Inr 0x1000, st2)"
    using rg [of "to_ascii_uppercase (ustr ''A'')" st1] st1(2) by (auto simp: dm_new_def)
  have "dm_find_by_name (ld_dlls example_state) nm = None" for nm
    by (simp add: example_state_def dm_find_by_name_def dm_new_def)
  then show ?thesis using st1 st2 by (simp add: load_dll_def Let_def dp)
qed

theorem load_dll_exports_witness:
  "\<exists>st' d. load_dll 1 example_env (ustr ''A'') (ustr ''/a.dll'') example_state = (Inr 0x1000, st') \<and>
     dm_find_by_name (ld_dlls st') (ustr ''A'') = Some d \<and> ld_ref_count d = 1"
proof -
  obtain st' where st': "load_dll 1 example_env (ustr ''A'') (ustr ''/a.dll'') example_state = (Inr 0x1000, st')"
    using example_dll_loads by blast
  have "dm_find_by_name (ld_dlls example_state) (ustr ''A'') = None"
    by (simp add: example_state_def dm_find_by_name_def dm_new_def)
  from load_dll_exports [OF st' this] st' show ?thesis by blast
qed

text \<open>
  C24. Placing a DLL whose objects declare no more pages than they have room for, none of them larger than a
  page, allocates one block for each object, apart from each other and from all live blocks, and changes
  not a byte of guest memory outside these new blocks: neither live blocks nor free memory.
\<close>

theorem place_dll_contained:
  assumes "mm_reachable base limit (ld_mem st)" "4096 dvd unat base" "base \<le> limit"
    and "place_dll env path st = (Inr (f, bases), st')"
    and "\<forall>obj\<in>set (lxf_object_table f).
      unat (obj_page_count obj) * 4096 < max (unat (obj_size obj)) 4096 + 4096"
    and "\<forall>pg\<in>set (lxf_page_map f). unat (pg_data_size pg) \<le> 4096"
  shows "\<exists>new. mm_allocated (ld_mem st') = mm_allocated (ld_mem st) @ new \<and>
    map ab_addr new = bases \<and> length bases = length (lxf_object_table f) \<and>
    sorted_wrt (\<lambda>b c. blk_bytes b \<inter> blk_bytes c = {}) new \<and>
    (\<forall>c\<in>set new. blk_bytes c \<subseteq> {unat base ..< unat limit} \<and>
      (\<forall>b\<in>set (mm_allocated (ld_mem st)). blk_bytes b \<inter> blk_bytes c = {})) \<and>
    gm_size (ld_guest st') = gm_size (ld_guest st) \<and>
    (\<forall>k. (\<forall>c\<in>set new. k \<notin> blk_bytes c) \<longrightarrow> gm_bytes (ld_guest st') ! k = gm_bytes (ld_guest st) ! k)"
  using assms(4)
proof (cases rule: place_dllE)
  case (2 bytes f' q bases' mm m)
  then have al: "alloc_objects (lxf_object_table f) (ld_mem st) = (Some bases, mm)"
    and m: "fst (load_objects PageOutOfBounds f bytes bases (ld_guest st)) = ld_guest st'"
    and mm: "ld_mem st' = mm" by auto
  obtain new where new: "mm_allocated mm = mm_allocated (ld_mem st) @ new" "map ab_addr new = bases"
    "sorted_wrt (\<lambda>b c. blk_bytes b \<inter> blk_bytes c = {}) new"
    "\<forall>c\<in>set new. blk_bytes c \<subseteq> {unat base ..< unat limit} \<and>
      (\<forall>b\<in>set (mm_allocated (ld_mem st)). blk_bytes b \<inter> blk_bytes c = {})"
    and fit: "list_all2 (\<lambda>c obj. unat (obj_page_count obj) * 4096 < max (unat (obj_size obj)) 4096 + 4096 \<longrightarrow>
      unat (obj_page_count obj) * 4096 \<le> unat (ab_size c)) new (lxf_object_table f)"
    using alloc_objects_new [OF assms(1-3) al] by blast
  have blk: "\<exists>c\<in>set new. ab_addr c = fst x \<and> unat (obj_page_count (snd x)) * 4096 \<le> unat (ab_size c)"
    if "x \<in> set (zip bases (lxf_object_table f))" for x
  proof -
    obtain i where i: "i < length new" "i < length (lxf_object_table f)" "x = (ab_addr (new ! i), lxf_object_table f ! i)"
      using \<open>x \<in> _\<close> unfolding new(2) [symmetric] in_set_zip by (cases x) auto
    then have "unat (obj_page_count (snd x)) * 4096 \<le> unat (ab_size (new ! i))"
      using list_all2_nthD [OF fit i(1)] assms(5) nth_mem [OF i(2)] by simp
    then show ?thesis using i by (intro bexI [of _ "new ! i"]) simp_all
  qed
  have lim: "unat limit \<le> 2 ^ 32" using less_imp_le [OF unat_u32_lt [of limit]] by simp
  have keep: "gm_bytes (ld_guest st') ! k = gm_bytes (ld_guest st) ! k" if k: "\<forall>c\<in>set new. k \<notin> blk_bytes c" for k
    unfolding m [symmetric]
  proof (rule load_objects_frame, intro ballI)
    fix x pp assume x: "x \<in> set (zip bases (lxf_object_table f))" "pp \<in> set (object_page_list f (snd x))"
    obtain c where c: "c \<in> set new" "ab_addr c = fst x" "unat (obj_page_count (snd x)) * 4096 \<le> unat (ab_size c)"
      using blk [OF x(1)] by blast
    have sub: "blk_bytes c \<subseteq> {unat base ..< unat limit}" using new(4) c(1) by blast
    have top: "unat (fst x) + unat (obj_page_count (snd x)) * 4096 \<le> 2 ^ 32"
    proof (cases "obj_page_count (snd x) = 0")
      case True
      then show ?thesis using less_imp_le [OF unat_u32_lt [of "fst x"]] by simp
    next
      case False
      then have "0 < unat (obj_page_count (snd x))" by (simp add: unat_gt_0)
      then show ?thesis using sub c(2,3) lim
        by (simp add: blk_bytes_def blk_lo_def blk_hi_def atLeastLessThan_subset_iff)
    qed
    have "snd pp \<in> set (lxf_page_map f)" using x(2)
      by (auto simp: object_page_list_def obj_pages_def intro!: nth_mem)
    then have "page_range (fst x) pp \<subseteq> {unat (fst x) ..< unat (fst x) + unat (obj_page_count (snd x)) * 4096}"
      using page_range_in_block [of "fst pp" "snd pp" f "snd x" "fst x"] assms(6) x(2) top by auto
    also have "\<dots> \<subseteq> blk_bytes c" using c(2,3) by (auto simp: blk_bytes_def blk_lo_def blk_hi_def)
    finally show "k \<notin> page_range (fst x) pp" using k c(1) by blast
  qed
  have "gm_size (ld_guest st') = gm_size (ld_guest st)"
    unfolding m [symmetric] by (rule load_objects_size)
  then show ?thesis using new keep alloc_objects_length [OF al] unfolding mm by blast
qed simp

theorem place_dll_contained_witness:
  "\<exists>st' new. place_dll example_env (ustr ''/a.dll'') example_state = (Inr (example_lx_file, [0x2000000]), st') \<and>
     mm_allocated (ld_mem st') = mm_allocated (ld_mem example_state) @ new \<and> map ab_addr new = [0x2000000] \<and>
     (\<forall>k. (\<forall>c\<in>set new. k \<notin> blk_bytes c) \<longrightarrow> gm_bytes (ld_guest st') ! k = gm_bytes (ld_guest example_state) ! k)"
proof -
  obtain st' where pl: "place_dll example_env (ustr ''/a.dll'') example_state =
      (Inr (example_lx_file, [0x2000000]), st')"
    using example_dll_place by blast
  have r: "mm_reachable 0x2000000 0x10000000 (ld_mem example_state)"
    by (simp add: example_state_def mm_init)
  have "\<exists>new. mm_allocated (ld_mem st') = mm_allocated (ld_mem example_state) @ new \<and> map ab_addr new = [0x2000000] \<and>
     (\<forall>k. (\<forall>c\<in>set new. k \<notin> blk_bytes c) \<longrightarrow> gm_bytes (ld_guest st') ! k = gm_bytes (ld_guest example_state) ! k)"
    using place_dll_contained [OF r _ _ pl] by (force simp: example_lx_file_def)
  then obtain new where "mm_allocated (ld_mem st') = mm_allocated (ld_mem example_state) @ new \<and> map ab_addr new = [0x2000000] \<and>
     (\<forall>k. (\<forall>c\<in>set new. k \<notin> blk_bytes c) \<longrightarrow> gm_bytes (ld_guest st') ! k = gm_bytes (ld_guest example_state) ! k)" ..
  then show ?thesis by (intro exI [of _ st'] exI [of _ new] conjI pl) simp_all
qed

text \<open>
  A DLL that does not fit is not undone: when memory runs out at a later object, the blocks
  of the earlier objects stay allocated although the load fails and no module is registered.
\<close>

theorem alloc_objects_leaks:
  assumes "mm_alloc mm (max (obj_size a) 4096) = (Some addr, mm1)"
    and "mm_alloc mm1 (max (obj_size b) 4096) = (None, mm2)"
  shows "alloc_objects [a, b] mm = (None, mm2) \<and>
    (\<exists>k. mm_allocated mm2 = mm_allocated mm @ [\<lparr>ab_addr = addr, ab_size = k\<rparr>])"
proof -
  obtain k where "mm_allocated mm1 = mm_allocated mm @ [\<lparr>ab_addr = addr, ab_size = k\<rparr>]"
    using assms(1) by (rule mm_allocE)
  moreover have "mm2 = mm1" using assms(2)
    by (auto simp: mm_alloc_def mm_bump_def split: option.splits prod.splits if_splits)
  ultimately show ?thesis using assms by simp
qed

end
