(* ===== verification/Rust_Text.thy ===== *)
theory Rust_Text
  imports UTF8
begin

text \<open>
  The string operations of the Rust standard library that the linker, the host directory volume and the
  command interpreter use: prefixes and suffixes, white space (the Unicode property White\_Space), words,
  lines and decimal numbers.
\<close>

section \<open>Prefixes and suffixes\<close>

definition strip_prefix :: "ustring \<Rightarrow> ustring \<Rightarrow> ustring option" where
  "strip_prefix pre s = (if take (length pre) s = pre then Some (drop (length pre) s) else None)"

definition str_starts :: "ustring \<Rightarrow> ustring \<Rightarrow> bool" where
  "str_starts p s \<longleftrightarrow> take (length p) s = p"

definition str_ends :: "ustring \<Rightarrow> ustring \<Rightarrow> bool" where
  "str_ends suf s \<longleftrightarrow> strip_suffix suf s \<noteq> None"

section \<open>White space, words and lines\<close>

definition is_whitespace :: "nat \<Rightarrow> bool" where
  "is_whitespace c \<longleftrightarrow> 9 \<le> c \<and> c \<le> 13 \<or> 0x2000 \<le> c \<and> c \<le> 0x200A \<or>
    c \<in> set [0x20, 0x85, 0xA0, 0x1680, 0x2028, 0x2029, 0x202F, 0x205F, 0x3000]"

definition trim :: "ustring \<Rightarrow> ustring" where
  "trim s = rev (dropWhile is_whitespace (rev (dropWhile is_whitespace s)))"

lemma dropWhile_shorter [termination_simp]: "length (dropWhile P xs) < Suc (length xs)"
  by (simp add: length_dropWhile_le less_Suc_eq_le)

fun split_whitespace :: "ustring \<Rightarrow> ustring list" where
  "split_whitespace [] = []"
| "split_whitespace (c # cs) =
    (if is_whitespace c then split_whitespace cs
     else (c # takeWhile (\<lambda>x. \<not> is_whitespace x) cs)
          # split_whitespace (dropWhile (\<lambda>x. \<not> is_whitespace x) cs))"

text \<open>\<^verbatim>\<open>str::lines\<close>: the pieces between newlines, without a final empty piece and without the carriage
  return before a newline.\<close>

definition chop_cr :: "ustring \<Rightarrow> ustring" where
  "chop_cr l = (case strip_suffix [13] l of Some l' \<Rightarrow> l' | None \<Rightarrow> l)"

function str_lines :: "ustring \<Rightarrow> ustring list" where
  "str_lines s =
    (if s = [] then []
     else case dropWhile (\<lambda>x. x \<noteq> 10) s of
       [] \<Rightarrow> [s]
     | _ # rest \<Rightarrow> chop_cr (takeWhile (\<lambda>x. x \<noteq> 10) s) # str_lines rest)"
  by pat_completeness auto
termination
proof (relation "measure length", goal_cases)
  case (2 s c rest)
  have "length (dropWhile (\<lambda>x. x \<noteq> 10) s) \<le> length s" by (rule length_dropWhile_le)
  with 2 show ?case by simp
qed simp

declare str_lines.simps [simp del]

text \<open>\<^verbatim>\<open>str::parse::<u32>\<close>: an optional plus sign, then decimal digits, not above the range.\<close>

definition is_digit :: "nat \<Rightarrow> bool" where
  "is_digit c \<longleftrightarrow> 48 \<le> c \<and> c \<le> 57"

definition decimal :: "ustring \<Rightarrow> nat" where
  "decimal ds = foldl (\<lambda>n c. n * 10 + (c - 48)) 0 ds"

definition parse_u32 :: "ustring \<Rightarrow> u32 option" where
  "parse_u32 s =
    (let ds = (case s of c # cs \<Rightarrow> if c = 43 \<and> cs \<noteq> [] then cs else s | [] \<Rightarrow> s) in
     if ds \<noteq> [] \<and> list_all is_digit ds \<and> decimal ds < 2 ^ 32 then Some (of_nat (decimal ds)) else None)"

end
