(* ===== verification/Linker.thy ===== *)
theory Linker
  imports LX_Loader Rust_Text
begin

unbundle bit_operations_syntax

text \<open>
  The linker that turns ELF objects into LX executables (\<^verbatim>\<open>src/src/bin/lx_link.rs\<close>): command line,
  definition file, the sections and symbols it keeps of an object, the merged code and data
  sections, the symbol table, relocation, and the LX file it writes. What the \<^verbatim>\<open>object\<close> crate
  reports of an ELF file is the parameter \<open>object_file\<close>; \<^verbatim>\<open>str::to_uppercase\<close> is one as well.
  The warnings printed to standard error are left out. \<open>None\<close> is a panic: a symbol's section
  index outside the object, or a patch whose end wraps around.
\<close>

section \<open>Constants\<close>

definition CODE_OBJECT_BASE :: u32 where "CODE_OBJECT_BASE = 0x10000"
definition DATA_OBJECT_BASE :: u32 where "DATA_OBJECT_BASE = 0x60000"
definition STACK_SIZE :: u32 where "STACK_SIZE = 0x10000"
definition STACK_OBJECT_BASE :: u32 where "STACK_OBJECT_BASE = 0x80000 - STACK_SIZE"
definition LINK_PAGE_SIZE :: u32 where "LINK_PAGE_SIZE = 4096"
definition LX_HEADER_OFFSET :: u32 where "LX_HEADER_OFFSET = 0x40"
definition LX_HEADER_SIZE :: u32 where "LX_HEADER_SIZE = 172"

definition OBJ_READ :: u32 where "OBJ_READ = 0x0001"
definition OBJ_WRITE :: u32 where "OBJ_WRITE = 0x0002"
definition OBJ_EXEC :: u32 where "OBJ_EXEC = 0x0004"
definition OBJ_BIG :: u32 where "OBJ_BIG = 0x0040"
definition OBJ_USE32 :: u32 where "OBJ_USE32 = 0x2000"

lemmas link_consts = CODE_OBJECT_BASE_def DATA_OBJECT_BASE_def STACK_SIZE_def STACK_OBJECT_BASE_def
  LINK_PAGE_SIZE_def LX_HEADER_OFFSET_def LX_HEADER_SIZE_def OBJ_READ_def OBJ_WRITE_def OBJ_EXEC_def
  OBJ_BIG_def OBJ_USE32_def

section \<open>Command line\<close>

record link_args =
  la_inputs :: "ustring list"
  la_output :: ustring
  la_def_file :: "ustring option"

definition takes_value :: "ustring \<Rightarrow> bool" where
  "takes_value arg \<longleftrightarrow> arg \<in> set [ustr ''--sysroot'', ustr ''-m'', ustr ''--hash-style'', ustr ''-z'',
     ustr ''-rpath'', ustr ''-soname'']"

definition is_link_input :: "ustring \<Rightarrow> bool" where
  "is_link_input arg \<longleftrightarrow>
    (let lower = to_ascii_lowercase arg in
     str_ends (ustr ''.o'') lower \<or> str_ends (ustr ''.rlib'') lower \<or> str_ends (ustr ''.a'') lower)"

text \<open>The loop over \<^verbatim>\<open>raw[1..]\<close>; an option that takes a value skips one more argument, if there is one.\<close>

fun parse_arg_loop :: "ustring list \<Rightarrow> link_args \<Rightarrow> link_args" where
  "parse_arg_loop [] a = a"
| "parse_arg_loop (arg # rest) a =
    (if arg = ustr ''-o'' then
       (case rest of [] \<Rightarrow> a | v # rest' \<Rightarrow> parse_arg_loop rest' (a\<lparr> la_output := v \<rparr>))
     else if str_starts (ustr ''-o'') arg then parse_arg_loop rest (a\<lparr> la_output := drop 2 arg \<rparr>)
     else if arg = ustr ''--def'' then
       (case rest of [] \<Rightarrow> a | v # rest' \<Rightarrow> parse_arg_loop rest' (a\<lparr> la_def_file := Some v \<rparr>))
     else if str_starts (ustr ''-'') arg then
       (if takes_value arg then (case rest of [] \<Rightarrow> a | v # rest' \<Rightarrow> parse_arg_loop rest' a)
        else parse_arg_loop rest a)
     else parse_arg_loop rest
       (if is_link_input arg then a\<lparr> la_inputs := la_inputs a @ [arg] \<rparr> else a))"

definition parse_args :: "ustring list \<Rightarrow> link_args" where
  "parse_args raw =
    parse_arg_loop (drop 1 raw) \<lparr> la_inputs = [], la_output = ustr ''a.out'', la_def_file = None \<rparr>"

section \<open>Definition file\<close>

text \<open>The map from symbol to module and ordinal; a later line for the same symbol wins.\<close>

type_synonym def_map = "ustring \<rightharpoonup> ustring \<times> u32"

definition parse_def_line :: "(ustring \<Rightarrow> ustring) \<Rightarrow> def_map \<Rightarrow> ustring \<Rightarrow> def_map" where
  "parse_def_line to_uppercase m line =
    (let line = trim line in
     if line = [] \<or> str_starts (ustr ''#'') line then m
     else case split_whitespace line of
       mod_ord # symb # _ \<Rightarrow>
         (case dropWhile (\<lambda>c. c \<noteq> 46) mod_ord of
            [] \<Rightarrow> m
          | _ # ord \<Rightarrow>
              (case parse_u32 ord of
                 Some ordinal \<Rightarrow>
                   m(symb \<mapsto> (to_uppercase (takeWhile (\<lambda>c. c \<noteq> 46) mod_ord), ordinal))
               | None \<Rightarrow> m))
     | _ \<Rightarrow> m)"

definition parse_def :: "(ustring \<Rightarrow> ustring) \<Rightarrow> ustring \<Rightarrow> def_map" where
  "parse_def to_uppercase content =
    foldl (parse_def_line to_uppercase) Map.empty (str_lines content)"

section \<open>ELF objects\<close>

datatype section_kind = Text | Data | ReadOnlyData | ReadOnlyString | UninitializedData | OtherSection
datatype relocation_kind = Absolute | Relative | OtherRelocation
datatype reloc_target = RtSymbol ustring | RtSection ustring

record reloc =
  rl_offset :: u64
  rl_kind :: relocation_kind
  rl_addend :: u64
  rl_target :: reloc_target

record elf_section =
  es_name :: ustring
  es_kind :: section_kind
  es_data :: "u8 list"
  es_align :: u64
  es_relocs :: "reloc list"

record elf_symbol =
  sy_name :: ustring
  sy_section_idx :: "nat option"
  sy_offset :: u64

record elf_object =
  eo_sections :: "elf_section list"
  eo_symbols :: "elf_symbol list"

text \<open>What the \<^verbatim>\<open>object\<close> crate reports: the sections with their relocations, and the symbols.\<close>

datatype relocation_target = TargetSymbol nat | TargetSection nat | TargetOther
datatype symbol_kind = SkOther | SkFile | SkSection | SkUnknown
datatype symbol_scope = ScDynamic | ScLinkage | ScOther

record object_reloc =
  or_offset :: u64
  or_kind :: relocation_kind
  or_size :: u8
  or_addend :: u64
  or_target :: relocation_target

record object_section =
  os_index :: nat
  os_name :: "ustring option"
  os_kind :: section_kind
  os_data :: "u8 list option"
  os_size :: u64
  os_align :: u64
  os_relocs :: "object_reloc list"

record object_symbol =
  ob_name :: "ustring option"
  ob_kind :: symbol_kind
  ob_scope :: symbol_scope
  ob_section_index :: "nat option"
  ob_address :: u64

record object_file =
  of_sections :: "object_section list"
  of_symbols :: "object_symbol list"
  of_symbol_by_index :: "nat \<Rightarrow> object_symbol option"

text \<open>The sections that are kept, and the map from the file's section index to their position.\<close>

definition kept_sections :: "object_file \<Rightarrow> object_section list" where
  "kept_sections obj = filter (\<lambda>s. os_kind s \<noteq> OtherSection) (of_sections obj)"

definition section_index_map :: "object_file \<Rightarrow> nat \<rightharpoonup> nat" where
  "section_index_map obj = map_of (rev (zip (map os_index (kept_sections obj)) [0..<length (kept_sections obj)]))"

definition opt_name :: "ustring option \<Rightarrow> ustring" where
  "opt_name n = (case n of Some s \<Rightarrow> s | None \<Rightarrow> [])"

definition elf_section_of :: "object_section \<Rightarrow> elf_section" where
  "elf_section_of s = \<lparr> es_name = opt_name (os_name s), es_kind = os_kind s,
     es_data = (case os_data s of Some d \<Rightarrow> d | None \<Rightarrow> replicate (unat (os_size s)) 0),
     es_align = max (os_align s) 1, es_relocs = [] \<rparr>"

text \<open>The target of a relocation: \<open>Inl\<close> when the symbol cannot be read, \<open>Inr None\<close> when the
  relocation is skipped.\<close>

definition reloc_target_of :: "object_file \<Rightarrow> relocation_target \<Rightarrow> unit + reloc_target option" where
  "reloc_target_of obj t =
    (let name_at = (\<lambda>i. opt_name (os_name (kept_sections obj ! i))) in
     case t of
       TargetSymbol i \<Rightarrow>
         (case of_symbol_by_index obj i of
            None \<Rightarrow> Inl ()
          | Some symb \<Rightarrow>
              Inr (Some (case ob_section_index symb of
                 Some sec \<Rightarrow>
                   (case section_index_map obj sec of
                      Some local_sec \<Rightarrow> RtSection (name_at local_sec)
                    | None \<Rightarrow> RtSymbol (opt_name (ob_name symb)))
               | None \<Rightarrow> RtSymbol (opt_name (ob_name symb)))))
     | TargetSection sec \<Rightarrow>
         Inr (Some (case section_index_map obj sec of
            Some local_sec \<Rightarrow> RtSection (name_at local_sec)
          | None \<Rightarrow> RtSymbol []))
     | TargetOther \<Rightarrow> Inr None)"

fun elf_relocs :: "object_file \<Rightarrow> object_reloc list \<Rightarrow> unit + reloc list" where
  "elf_relocs obj [] = Inr []"
| "elf_relocs obj (r # rs) =
    (if or_size r \<noteq> 32 then elf_relocs obj rs
     else case reloc_target_of obj (or_target r) of
       Inl e \<Rightarrow> Inl e
     | Inr None \<Rightarrow> elf_relocs obj rs
     | Inr (Some t) \<Rightarrow>
         (case elf_relocs obj rs of
            Inl e \<Rightarrow> Inl e
          | Inr ls \<Rightarrow> Inr (\<lparr> rl_offset = or_offset r, rl_kind = or_kind r, rl_addend = or_addend r,
                             rl_target = t \<rparr> # ls)))"

fun add_relocs :: "object_file \<Rightarrow> object_section list \<Rightarrow> elf_section list \<Rightarrow> unit + elf_section list" where
  "add_relocs obj [] secs = Inr secs"
| "add_relocs obj (s # ss) secs =
    (case section_index_map obj (os_index s) of
       None \<Rightarrow> add_relocs obj ss secs
     | Some i \<Rightarrow>
         (case elf_relocs obj (os_relocs s) of
            Inl e \<Rightarrow> Inl e
          | Inr rs \<Rightarrow> add_relocs obj ss
              (secs[i := (secs ! i)\<lparr> es_relocs := es_relocs (secs ! i) @ rs \<rparr>])))"

definition elf_symbols :: "object_file \<Rightarrow> elf_symbol list" where
  "elf_symbols obj = concat (map (\<lambda>symb.
     case ob_name symb of
       None \<Rightarrow> []
     | Some name \<Rightarrow>
         if name = [] \<or> ob_kind symb \<in> {SkFile, SkSection, SkUnknown} \<or> ob_scope symb = ScOther then []
         else [\<lparr> sy_name = name,
                 sy_section_idx = Option.bind (ob_section_index symb) (section_index_map obj),
                 sy_offset = ob_address symb \<rparr>]) (of_symbols obj))"

definition parse_elf :: "object_file option \<Rightarrow> unit + elf_object" where
  "parse_elf parsed =
    (case parsed of
       None \<Rightarrow> Inl ()
     | Some obj \<Rightarrow>
         (case add_relocs obj (of_sections obj) (map elf_section_of (kept_sections obj)) of
            Inl e \<Rightarrow> Inl e
          | Inr secs \<Rightarrow> Inr \<lparr> eo_sections = secs, eo_symbols = elf_symbols obj \<rparr>))"

section \<open>Merged sections\<close>

record input_entry =
  ie_obj_idx :: nat
  ie_sec_idx :: nat
  ie_merged_offset :: u32

record merged_section =
  ms_data :: "u8 list"
  ms_bss_size :: u32
  ms_va :: u32
  ms_input_map :: "input_entry list"

record linker_state =
  lk_code_section :: merged_section
  lk_data_section :: merged_section
  lk_symbol_table :: "ustring \<rightharpoonup> u32"
  lk_entry_va :: u32

definition align_up :: "u32 \<Rightarrow> u32 \<Rightarrow> u32" where
  "align_up v align = (if align \<le> 1 then v else (v + align - 1) AND NOT (align - 1))"

definition vec_resize :: "nat \<Rightarrow> u8 list \<Rightarrow> u8 list" where
  "vec_resize n xs = take n xs @ replicate (n - length xs) 0"

definition append_section :: "merged_section \<Rightarrow> nat \<Rightarrow> nat \<Rightarrow> elf_section \<Rightarrow> merged_section" where
  "append_section merged obj_idx sec_idx sec =
    (let aligned = align_up (of_nat (length (ms_data merged))) (ucast (es_align sec));
         padded = vec_resize (unat aligned) (ms_data merged) in
     merged\<lparr> ms_data := padded @ es_data sec,
       ms_input_map := ms_input_map merged @
         [\<lparr> ie_obj_idx = obj_idx, ie_sec_idx = sec_idx, ie_merged_offset = of_nat (length padded) \<rparr>] \<rparr>)"

definition find_merged_va :: "merged_section \<Rightarrow> nat \<Rightarrow> nat \<Rightarrow> u32 option" where
  "find_merged_va merged obj_idx sec_idx =
    map_option (\<lambda>e. ms_va merged + ie_merged_offset e)
      (find (\<lambda>e. ie_obj_idx e = obj_idx \<and> ie_sec_idx e = sec_idx) (ms_input_map merged))"

definition page_count :: "u32 \<Rightarrow> u32 \<Rightarrow> nat" where
  "page_count data_len bss_size = (unat (data_len + bss_size) + 4095) div 4096"

text \<open>The nested loops over the objects and their sections, with both indices.\<close>

definition indexed_sections :: "elf_object list \<Rightarrow> (nat \<times> nat \<times> elf_section) list" where
  "indexed_sections objects =
    concat (map (\<lambda>(oi, obj). map (\<lambda>(si, sec). (oi, si, sec)) (enumerate 0 (eo_sections obj)))
      (enumerate 0 objects))"

definition merge_code :: "merged_section \<Rightarrow> nat \<times> nat \<times> elf_section \<Rightarrow> merged_section" where
  "merge_code code_sec x =
    (case x of (oi, si, sec) \<Rightarrow> if es_kind sec = Text then append_section code_sec oi si sec else code_sec)"

definition merge_data :: "merged_section \<Rightarrow> nat \<times> nat \<times> elf_section \<Rightarrow> merged_section" where
  "merge_data data_sec x =
    (case x of (oi, si, sec) \<Rightarrow>
      if es_kind sec = Data \<or> es_kind sec = ReadOnlyData \<or> es_kind sec = ReadOnlyString
        then append_section data_sec oi si sec
      else if es_kind sec = UninitializedData then
        let sz = of_nat (length (es_data sec));
            cur = of_nat (length (ms_data data_sec)) + ms_bss_size data_sec;
            padded = align_up cur (ucast (es_align sec)) in
        data_sec\<lparr> ms_bss_size := ms_bss_size data_sec + ((padded - cur) + sz) \<rparr>
      else data_sec)"

definition empty_section :: "u32 \<Rightarrow> merged_section" where
  "empty_section va = \<lparr> ms_data = [], ms_bss_size = 0, ms_va = va, ms_input_map = [] \<rparr>"

definition add_symbol ::
  "merged_section \<Rightarrow> merged_section \<Rightarrow> (ustring \<rightharpoonup> u32) \<Rightarrow> nat \<times> elf_object \<times> elf_symbol
    \<Rightarrow> (ustring \<rightharpoonup> u32) option" where
  "add_symbol code_sec data_sec tab x =
    (case x of (oi, obj, symb) \<Rightarrow>
      (case sy_section_idx symb of
         None \<Rightarrow> Some tab
       | Some si \<Rightarrow>
           if length (eo_sections obj) \<le> si then None
           else
             (case find_merged_va
                     (if es_kind (eo_sections obj ! si) = Text then code_sec else data_sec) oi si of
                Some va \<Rightarrow> Some (tab(sy_name symb \<mapsto> va + ucast (sy_offset symb)))
              | None \<Rightarrow> Some tab)))"

definition indexed_symbols :: "elf_object list \<Rightarrow> (nat \<times> elf_object \<times> elf_symbol) list" where
  "indexed_symbols objects =
    concat (map (\<lambda>(oi, obj). map (\<lambda>symb. (oi, obj, symb)) (eo_symbols obj)) (enumerate 0 objects))"

definition entry_va_of :: "(ustring \<rightharpoonup> u32) \<Rightarrow> u32" where
  "entry_va_of tab =
    (case tab (ustr ''_start'') of
       Some v \<Rightarrow> v
     | None \<Rightarrow> (case tab (ustr ''main'') of Some v \<Rightarrow> v | None \<Rightarrow> CODE_OBJECT_BASE))"

definition link_build :: "elf_object list \<Rightarrow> linker_state option" where
  "link_build objects =
    (let code_sec = foldl merge_code (empty_section CODE_OBJECT_BASE) (indexed_sections objects);
         data_sec = foldl merge_data (empty_section DATA_OBJECT_BASE) (indexed_sections objects) in
     do { tab \<leftarrow> ofold (add_symbol code_sec data_sec) Map.empty (indexed_symbols objects);
          Some \<lparr> lk_code_section = code_sec, lk_data_section = data_sec, lk_symbol_table = tab,
                 lk_entry_va = entry_va_of tab \<rparr> })"

section \<open>Relocation\<close>

datatype link_target = LInternal u8 u32 | LExternalOrdinal u8 u32

record link_fixup =
  lf_source_type :: u8
  lf_source_offset :: u16
  lf_target :: link_target

text \<open>What \<^verbatim>\<open>write_lx\<close> accumulates in its loop. A patch is a buffer offset and a word, also for the
  signed displacements.\<close>

record link_writer =
  w_module_map :: "ustring \<rightharpoonup> u8"
  w_imported :: "ustring list"
  w_code_fixups :: "link_fixup list list"
  w_data_fixups :: "link_fixup list list"
  w_code_patches :: "(u64 \<times> u32) list"
  w_data_patches :: "(u64 \<times> u32) list"
  w_code_patches_i32 :: "(u64 \<times> u32) list"

definition link_resolve_import :: "ustring \<Rightarrow> u32 \<Rightarrow> u32" where
  "link_resolve_import md ordinal =
    (if md = ustr ''DOSCALLS'' then 0x01000000 + 0 + ordinal
     else if md = ustr ''QUECALLS'' then 0x01000000 + 1024 + ordinal
     else if md = ustr ''PMWIN'' then 0x01000000 + 2048 + ordinal
     else if md = ustr ''PMGPI'' then 0x01000000 + 3072 + ordinal
     else if md = ustr ''KBDCALLS'' then 0x01000000 + 4096 + ordinal
     else if md = ustr ''VIOCALLS'' then 0x01000000 + 5120 + ordinal
     else if md = ustr ''SESMGR'' then 0x01000000 + 6144 + ordinal
     else if md = ustr ''NLS'' then 0x01000000 + 7168 + ordinal
     else if md = ustr ''MSG'' then 0x01000000 + 8192 + ordinal
     else if md = ustr ''MDM'' then 0x01000000 + 10240 + ordinal
     else if md = ustr ''UCONV'' then 0x01000000 + 12288 + ordinal
     else 0x01000000)"

definition va_to_lx_object :: "u32 \<Rightarrow> u8 \<times> u32" where
  "va_to_lx_object va =
    (if DATA_OBJECT_BASE \<le> va then (2, va - DATA_OBJECT_BASE) else (1, va - CODE_OBJECT_BASE))"

definition get_or_insert_module :: "ustring \<Rightarrow> link_writer \<Rightarrow> u8 \<times> link_writer" where
  "get_or_insert_module name w =
    (case w_module_map w name of
       Some idx \<Rightarrow> (idx, w)
     | None \<Rightarrow>
         let mods = w_imported w @ [name]; idx = of_nat (length mods) in
         (idx, w\<lparr> w_imported := mods, w_module_map := (w_module_map w)(name \<mapsto> idx) \<rparr>))"

definition code_va_for :: "linker_state \<Rightarrow> nat \<Rightarrow> nat \<Rightarrow> u32 option" where
  "code_va_for st oi si = find_merged_va (lk_code_section st) oi si"

definition data_va_for :: "linker_state \<Rightarrow> nat \<Rightarrow> nat \<Rightarrow> u32 option" where
  "data_va_for st oi si = find_merged_va (lk_data_section st) oi si"

definition find_section_va :: "elf_object list \<Rightarrow> linker_state \<Rightarrow> ustring \<Rightarrow> u32 option" where
  "find_section_va objects st sec_name =
    (case find (\<lambda>(oi, si, sec). es_name sec = sec_name) (indexed_sections objects) of
       Some (oi, si, sec) \<Rightarrow>
         (case code_va_for st oi si of Some v \<Rightarrow> Some v | None \<Rightarrow> data_va_for st oi si)
     | None \<Rightarrow> None)"

definition internal_target :: "u32 \<Rightarrow> link_target" where
  "internal_target va = (case va_to_lx_object va of (obj_num, off) \<Rightarrow> LInternal obj_num off)"

definition resolve_reloc ::
  "elf_object list \<Rightarrow> linker_state \<Rightarrow> def_map \<Rightarrow> reloc \<Rightarrow> link_writer
    \<Rightarrow> (u32 \<times> link_target option) \<times> link_writer" where
  "resolve_reloc objects st defs r w =
    (case rl_target r of
       RtSymbol name \<Rightarrow>
         (case lk_symbol_table st name of
            Some va \<Rightarrow> ((va, Some (internal_target va)), w)
          | None \<Rightarrow>
              (case defs name of
                 Some (md, ordinal) \<Rightarrow>
                   (case get_or_insert_module md w of (idx, w') \<Rightarrow>
                      ((link_resolve_import md ordinal, Some (LExternalOrdinal idx ordinal)), w'))
               | None \<Rightarrow> ((0, None), w)))
     | RtSection sec_name \<Rightarrow>
         (case find_section_va objects st sec_name of
            Some base \<Rightarrow> ((base, Some (internal_target base)), w)
          | None \<Rightarrow> ((0, None), w)))"

definition push_fixup :: "link_fixup list list \<Rightarrow> u32 \<Rightarrow> link_target \<Rightarrow> link_fixup list list" where
  "push_fixup fixups rel ft =
    (let page_idx = unat (rel div LINK_PAGE_SIZE); page_off = ucast (rel mod LINK_PAGE_SIZE) in
     if page_idx < length fixups
     then fixups[page_idx := fixups ! page_idx @
       [\<lparr> lf_source_type = 0x07, lf_source_offset = page_off, lf_target = ft \<rparr>]]
     else fixups)"

definition reloc_step ::
  "elf_object list \<Rightarrow> linker_state \<Rightarrow> def_map \<Rightarrow> bool \<Rightarrow> u32 \<Rightarrow> link_writer \<Rightarrow> reloc \<Rightarrow> link_writer" where
  "reloc_step objects st defs is_code section_base_va w r =
    (let obj_base = (if is_code then CODE_OBJECT_BASE else DATA_OBJECT_BASE);
         buf_base = (ucast (section_base_va - obj_base) :: u64);
         source_va = section_base_va + ucast (rl_offset r);
         buf_off = buf_base + rl_offset r in
     case resolve_reloc objects st defs r w of
       ((target_va, maybe_ft), w1) \<Rightarrow>
         if target_va = 0 then w1
         else case rl_kind r of
           Absolute \<Rightarrow>
             let actual = target_va + ucast (rl_addend r);
                 w2 = (if is_code then w1\<lparr> w_code_patches := w_code_patches w1 @ [(buf_off, actual)] \<rparr>
                       else w1\<lparr> w_data_patches := w_data_patches w1 @ [(buf_off, actual)] \<rparr>) in
             (case maybe_ft of
                None \<Rightarrow> w2
              | Some ft \<Rightarrow>
                  if is_code
                  then w2\<lparr> w_code_fixups := push_fixup (w_code_fixups w2) (source_va - obj_base) ft \<rparr>
                  else w2\<lparr> w_data_fixups := push_fixup (w_data_fixups w2) (source_va - obj_base) ft \<rparr>)
         | Relative \<Rightarrow>
             let disp = ucast ((ucast target_va :: u64) - (ucast source_va + 4) + rl_addend r) in
             if is_code then w1\<lparr> w_code_patches_i32 := w_code_patches_i32 w1 @ [(buf_off, disp)] \<rparr>
             else w1\<lparr> w_data_patches := w_data_patches w1 @ [(buf_off, disp)] \<rparr>
         | OtherRelocation \<Rightarrow> w1)"

definition reloc_section ::
  "elf_object list \<Rightarrow> linker_state \<Rightarrow> def_map \<Rightarrow> link_writer \<Rightarrow> nat \<times> nat \<times> elf_section \<Rightarrow> link_writer" where
  "reloc_section objects st defs w x =
    (case x of (oi, si, sec) \<Rightarrow>
      let is_code = (es_kind sec = Text) in
      (case (if is_code then code_va_for st oi si else data_va_for st oi si) of
         None \<Rightarrow> w
       | Some section_base_va \<Rightarrow>
           foldl (reloc_step objects st defs is_code section_base_va) w (es_relocs sec)))"

definition code_pages :: "linker_state \<Rightarrow> nat" where
  "code_pages st = page_count (of_nat (length (ms_data (lk_code_section st)))) (ms_bss_size (lk_code_section st))"

definition data_pages :: "linker_state \<Rightarrow> nat" where
  "data_pages st = page_count (of_nat (length (ms_data (lk_data_section st)))) (ms_bss_size (lk_data_section st))"

definition initial_writer :: "linker_state \<Rightarrow> link_writer" where
  "initial_writer st =
    \<lparr> w_module_map = Map.empty, w_imported = [], w_code_fixups = replicate (code_pages st) [],
      w_data_fixups = replicate (data_pages st) [], w_code_patches = [], w_data_patches = [],
      w_code_patches_i32 = [] \<rparr>"

definition reloc_all :: "elf_object list \<Rightarrow> linker_state \<Rightarrow> def_map \<Rightarrow> link_writer" where
  "reloc_all objects st defs =
    foldl (reloc_section objects st defs) (initial_writer st) (indexed_sections objects)"

section \<open>The LX file\<close>

text \<open>\<^verbatim>\<open>buf[off..off + 4].copy_from_slice(..)\<close> behind its length check; the slice panics when its end has
  wrapped below its start.\<close>

definition apply_patch :: "u8 list \<Rightarrow> u64 \<times> u32 \<Rightarrow> u8 list option" where
  "apply_patch buf x =
    (case x of (off, val) \<Rightarrow>
      if unat (off + 4) \<le> length buf then
        (if off + 4 < off then None
         else Some (take (unat off) buf @ le_bytes 4 val @ drop (unat off + 4) buf))
      else Some buf)"

definition apply_patches :: "u8 list \<Rightarrow> (u64 \<times> u32) list \<Rightarrow> u8 list option" where
  "apply_patches buf patches = ofold apply_patch buf patches"

definition pad_to_page :: "u8 list \<Rightarrow> u8 list" where
  "pad_to_page data =
    (let rem = length data mod 4096 in if rem \<noteq> 0 then data @ replicate (4096 - rem) 0 else data)"

definition align_to :: "u32 \<Rightarrow> u32 \<Rightarrow> u32" where
  "align_to v align = (v + align - 1) AND NOT (align - 1)"

definition encode_object_entry :: "u32 \<Rightarrow> u32 \<Rightarrow> u32 \<Rightarrow> u32 \<Rightarrow> u32 \<Rightarrow> u8 list" where
  "encode_object_entry sz base flags page_map_index pages =
    le_bytes 4 sz @ le_bytes 4 base @ le_bytes 4 flags @ le_bytes 4 page_map_index @
    le_bytes 4 pages @ le_bytes 4 (0 :: u32)"

definition encode_fixup :: "link_fixup \<Rightarrow> u8 list" where
  "encode_fixup fix =
    (case lf_target fix of
       LInternal object_num target_offset \<Rightarrow>
         lf_source_type fix # 0x10 # le_bytes 2 (lf_source_offset fix) @ object_num # le_bytes 4 target_offset
     | LExternalOrdinal module_idx ordinal \<Rightarrow>
         lf_source_type fix # 0x11 # le_bytes 2 (lf_source_offset fix) @ module_idx # le_bytes 4 ordinal)"

text \<open>The page table of the fixup section: where the records of each page start, and where the last ends.\<close>

fun fixup_starts :: "nat \<Rightarrow> link_fixup list list \<Rightarrow> u32 list" where
  "fixup_starts n [] = [of_nat n]"
| "fixup_starts n (fs # fss) = of_nat n # fixup_starts (n + length (concat (map encode_fixup fs))) fss"

definition build_lx_header ::
  "u32 \<Rightarrow> u32 \<Rightarrow> u32 \<Rightarrow> u32 \<Rightarrow> u32 \<Rightarrow> u32 \<Rightarrow> u32 \<Rightarrow> u32 \<Rightarrow> u32 \<Rightarrow> u32 \<Rightarrow> u32 \<Rightarrow> u32 \<Rightarrow> u32 \<Rightarrow> u32 \<Rightarrow> u32
    \<Rightarrow> u8 list" where
  "build_lx_header entry_offset total_pages obj_table_off num_objects page_map_off resident_name_off
      entry_table_off fixup_page_table_off fixup_record_off import_modules_off imported_modules_count
      import_proc_name_off loader_section_size fixup_section_size data_pages_offset_abs =
    [0x4C, 0x58] @ [0] @ [0] @ le_bytes 4 (0 :: u32) @ le_bytes 2 (2 :: u16) @ le_bytes 2 (1 :: u16) @
    le_bytes 4 (0 :: u32) @ le_bytes 4 (0 :: u32) @ le_bytes 4 total_pages @ le_bytes 4 (1 :: u32) @
    le_bytes 4 entry_offset @ le_bytes 4 (3 :: u32) @ le_bytes 4 STACK_SIZE @ le_bytes 4 (4096 :: u32) @
    le_bytes 4 (0 :: u32) @ le_bytes 4 fixup_section_size @ le_bytes 4 (0 :: u32) @
    le_bytes 4 loader_section_size @ le_bytes 4 (0 :: u32) @ le_bytes 4 obj_table_off @
    le_bytes 4 num_objects @ le_bytes 4 page_map_off @ le_bytes 4 (0 :: u32) @ le_bytes 4 (0 :: u32) @
    le_bytes 4 (0 :: u32) @ le_bytes 4 resident_name_off @ le_bytes 4 entry_table_off @
    le_bytes 4 (0 :: u32) @ le_bytes 4 (0 :: u32) @ le_bytes 4 fixup_page_table_off @
    le_bytes 4 fixup_record_off @ le_bytes 4 import_modules_off @ le_bytes 4 imported_modules_count @
    le_bytes 4 import_proc_name_off @ le_bytes 4 (0 :: u32) @ le_bytes 4 data_pages_offset_abs @
    le_bytes 4 (0 :: u32) @ le_bytes 4 (0 :: u32) @ le_bytes 4 (0 :: u32) @ le_bytes 4 (0 :: u32) @
    le_bytes 4 (2 :: u32) @ le_bytes 4 (0 :: u32) @ le_bytes 4 (0 :: u32) @ le_bytes 4 (0 :: u32) @
    le_bytes 4 (0 :: u32) @ le_bytes 4 (0 :: u32)"

text \<open>The page map entries of an object with file data: \<open>first\<close> is the number of pages before it. The size
  is \<^verbatim>\<open>slice_end - slice_start\<close> in \<^verbatim>\<open>usize\<close>, cut to 16 bits.\<close>

definition page_entry :: "u8 list \<Rightarrow> nat \<Rightarrow> nat \<Rightarrow> u8 list" where
  "page_entry data first pi =
    (let slice_end = min ((pi + 1) * 4096) (length data); slice_start = pi * 4096;
         psize = (ucast ((of_nat slice_end :: u64) - of_nat slice_start) :: u16) in
     le_bytes 4 (of_nat (first + pi) * LINK_PAGE_SIZE) @ le_bytes 2 psize @ le_bytes 2 (0 :: u16))"

definition stack_page_entry :: "nat \<Rightarrow> nat \<Rightarrow> u8 list" where
  "stack_page_entry first pi =
    le_bytes 4 (of_nat (first + pi) * LINK_PAGE_SIZE) @ le_bytes 2 (ucast LINK_PAGE_SIZE :: u16) @
    le_bytes 2 (0 :: u16)"

definition resident_name_bytes :: "u8 list" where
  "resident_name_bytes = [7, 0x57, 0x41, 0x52, 0x50, 0x45, 0x58, 0x45, 0, 0, 0]"

definition mz_stub :: "u8 list" where
  "mz_stub = (replicate 64 0)[0 := 0x4D, 1 := 0x5A, 0x3C := ucast LX_HEADER_OFFSET]"

definition module_name_bytes :: "ustring list \<Rightarrow> u8 list" where
  "module_name_bytes mods = concat (map (\<lambda>m. of_nat (length (as_bytes m)) # as_bytes m) mods)"

text \<open>Everything behind the relocation loop: padding, tables, offsets and the file.\<close>

definition assemble_lx ::
  "linker_state \<Rightarrow> link_writer \<Rightarrow> u8 list \<Rightarrow> u8 list \<Rightarrow> u8 list" where
  "assemble_lx st w code0 data0 =
    (let code_data = pad_to_page code0;
         data_data = pad_to_page data0;
         cp = code_pages st;
         dp = data_pages st;
         stack_pages = unat (STACK_SIZE div LINK_PAGE_SIZE);
         total_pages = cp + dp + stack_pages;
         pages = w_code_fixups w @ w_data_fixups w @ replicate stack_pages [];
         fixup_page_table = fixup_starts 0 pages;
         fixup_records = concat (map (\<lambda>fs. concat (map encode_fixup fs)) pages);
         import_modules_bytes = module_name_bytes (w_imported w);
         entry_table_bytes = [0, 0 :: u8];
         num_objects = (3 :: u32);
         obj_table_off = LX_HEADER_SIZE;
         page_map_off = obj_table_off + num_objects * 24;
         resident_name_off = page_map_off + of_nat total_pages * 8;
         entry_table_off = resident_name_off + of_nat (length resident_name_bytes);
         fixup_page_table_off = entry_table_off + of_nat (length entry_table_bytes);
         fixup_record_off = fixup_page_table_off + (of_nat total_pages + 1) * 4;
         import_modules_off = fixup_record_off + of_nat (length fixup_records);
         import_proc_name_off = import_modules_off + of_nat (length import_modules_bytes);
         loader_section_size = fixup_page_table_off;
         fixup_section_size = (of_nat total_pages + 1) * 4 + of_nat (length fixup_records)
           + of_nat (length import_modules_bytes);
         loader_section_end = LX_HEADER_OFFSET + import_proc_name_off;
         data_pages_offset_abs = align_to loader_section_end 16;
         padding_before_data = data_pages_offset_abs - loader_section_end in
     mz_stub @
     build_lx_header (lk_entry_va st - CODE_OBJECT_BASE) (of_nat total_pages) obj_table_off num_objects
       page_map_off resident_name_off entry_table_off fixup_page_table_off fixup_record_off
       import_modules_off (of_nat (length (w_imported w))) import_proc_name_off loader_section_size
       fixup_section_size data_pages_offset_abs @
     encode_object_entry (of_nat (length code_data) + ms_bss_size (lk_code_section st)) CODE_OBJECT_BASE
       (OBJ_READ OR OBJ_EXEC OR OBJ_BIG OR OBJ_USE32) 1 (of_nat cp) @
     encode_object_entry (of_nat (length data_data) + ms_bss_size (lk_data_section st)) DATA_OBJECT_BASE
       (OBJ_READ OR OBJ_WRITE OR OBJ_BIG OR OBJ_USE32) (of_nat cp + 1) (of_nat dp) @
     encode_object_entry STACK_SIZE STACK_OBJECT_BASE
       (OBJ_READ OR OBJ_WRITE OR OBJ_BIG OR OBJ_USE32) (of_nat cp + of_nat dp + 1)
       (STACK_SIZE div LINK_PAGE_SIZE) @
     concat (map (page_entry code_data 0) [0..<cp]) @
     concat (map (page_entry data_data cp) [0..<dp]) @
     concat (map (stack_page_entry (cp + dp)) [0..<stack_pages]) @
     resident_name_bytes @
     entry_table_bytes @
     concat (map (le_bytes 4) fixup_page_table) @
     fixup_records @
     import_modules_bytes @
     replicate (unat padding_before_data) 0 @
     code_data @ data_data @ replicate (stack_pages * 4096) 0)"

definition write_lx :: "elf_object list \<Rightarrow> linker_state \<Rightarrow> def_map \<Rightarrow> u8 list option" where
  "write_lx objects st defs =
    (let w = reloc_all objects st defs in
     do { code1 \<leftarrow> apply_patches (ms_data (lk_code_section st)) (w_code_patches w);
          data1 \<leftarrow> apply_patches (ms_data (lk_data_section st)) (w_data_patches w);
          code2 \<leftarrow> apply_patches code1 (w_code_patches_i32 w);
          Some (assemble_lx st w code2 data1) })"

text \<open>\<^verbatim>\<open>main\<close> behind the reading of the input files.\<close>

definition link_objects :: "(ustring \<Rightarrow> ustring) \<Rightarrow> ustring \<Rightarrow> elf_object list \<Rightarrow> u8 list option" where
  "link_objects to_uppercase def_content objects =
    do { st \<leftarrow> link_build objects; write_lx objects st (parse_def to_uppercase def_content) }"

section \<open>The merged sections hold the input sections\<close>

text \<open>\<open>laid_out d n ps\<close>: from offset \<open>n\<close> on, the sections stand in the buffer \<open>d\<close> in this order, each at
  its offset, aligned, without overlap.\<close>

fun laid_out :: "u8 list \<Rightarrow> nat \<Rightarrow> (nat \<times> elf_section) list \<Rightarrow> bool" where
  "laid_out d n [] \<longleftrightarrow> n \<le> length d"
| "laid_out d n ((off, sec) # ps) \<longleftrightarrow>
    n \<le> off \<and> unat (es_align sec) dvd off \<and> has_at d off (es_data sec) \<and>
    laid_out d (off + length (es_data sec)) ps"

lemma has_at_append: "has_at d off bs \<Longrightarrow> has_at (d @ e) off bs"
  by (simp add: has_at_def)

lemma laid_out_append: "laid_out d n ps \<Longrightarrow> laid_out (d @ e) n ps"
  by (induction d n ps rule: laid_out.induct) (auto intro: has_at_append)

lemma laid_out_snoc:
  "laid_out d n ps \<Longrightarrow> length d \<le> off \<Longrightarrow> unat (es_align sec) dvd off \<Longrightarrow>
    has_at (d @ e) off (es_data sec) \<Longrightarrow> laid_out (d @ e) n (ps @ [(off, sec)])"
  by (induction d n ps rule: laid_out.induct) (auto intro: has_at_append simp: has_at_def)

lemma and_not_mask: "(x :: u32) AND NOT (2 ^ k - 1) = push_bit k (drop_bit k x)"
proof -
  have "(2 ^ k - 1 :: u32) = mask k" by (simp add: mask_eq_exp_minus_1)
  then show ?thesis by (intro bit_word_eqI) (auto simp: bit_simps)
qed

lemma unat_pow2: "k < 32 \<Longrightarrow> unat (2 ^ k :: u32) = 2 ^ k"
proof -
  assume "k < 32"
  then have "(2 :: nat) ^ k < 2 ^ 32" by (intro power_strict_increasing) auto
  moreover have "unat (of_nat (2 ^ k) :: u32) = 2 ^ k mod 2 ^ 32" by (simp only: unat_of_nat) simp
  ultimately show ?thesis by simp
qed

lemma unat_and_not_mask: "unat ((x :: u32) AND NOT (2 ^ k - 1)) = unat x div 2 ^ k * 2 ^ k"
proof (cases "k < 32")
  case True
  have "unat x div 2 ^ k * 2 ^ k \<le> unat x" by (rule div_times_less_eq_dividend)
  also have "\<dots> < 2 ^ 32" using unat_u32_lt [of x] by simp
  finally have l: "unat x div 2 ^ k * 2 ^ k < 2 ^ 32" .
  have "unat (push_bit k (drop_bit k x)) = (unat x div 2 ^ k * 2 ^ k) mod 2 ^ 32"
    using True by (simp add: push_bit_eq_mult drop_bit_eq_div unat_word_ariths unat_div unat_pow2
        mod_mult_left_eq)
  with l show ?thesis by (simp add: and_not_mask)
next
  case False
  then have "drop_bit k x = 0" by (intro bit_word_eqI) (auto simp: bit_simps dest: bit_imp_le_length)
  moreover have "unat x div 2 ^ k = 0"
  proof -
    have "unat x < 2 ^ 32" using unat_u32_lt [of x] by simp
    also have "\<dots> \<le> 2 ^ k" using False by (intro power_increasing) auto
    finally show ?thesis by simp
  qed
  ultimately show ?thesis by (simp add: and_not_mask)
qed

text \<open>The first multiple of an alignment from an offset on.\<close>

definition next_aligned :: "nat \<Rightarrow> nat \<Rightarrow> nat" where
  "next_aligned a n = (n + a - 1) div a * a"

lemma align_up_spec:
  assumes k: "k < 32" and fit: "unat v + 2 ^ k < 2 ^ 32"
  shows "unat v \<le> unat (align_up v (2 ^ k))" "unat (align_up v (2 ^ k)) < unat v + 2 ^ k"
    "2 ^ k dvd unat (align_up v (2 ^ k))" "unat (align_up v (2 ^ k)) = next_aligned (2 ^ k) (unat v)"
proof -
  have p: "unat (2 ^ k :: u32) = 2 ^ k" using k by (rule unat_pow2)
  define q where "q = (unat v + 2 ^ k - 1) div 2 ^ k"
  have sum: "unat (v + 2 ^ k) = unat v + 2 ^ k"
    using fit p by (simp add: unat_plus_u32)
  have "unat (align_up v (2 ^ k)) = q * 2 ^ k"
  proof (cases "k = 0")
    case True
    then show ?thesis by (simp add: align_up_def q_def)
  next
    case False
    then have "\<not> (2 ^ k :: u32) \<le> 1"
      using p one_less_power [of "2 :: nat" k] by (simp add: word_le_nat_alt)
    moreover have "unat (v + 2 ^ k - 1) = unat v + 2 ^ k - 1"
      using unat_minus_1_u32 [of "v + 2 ^ k"] sum by simp
    ultimately show ?thesis by (simp add: align_up_def unat_and_not_mask q_def)
  qed
  moreover have "unat v \<le> q * 2 ^ k \<and> q * 2 ^ k < unat v + 2 ^ k"
  proof -
    have "(unat v + 2 ^ k - 1) mod 2 ^ k < 2 ^ k" by simp
    moreover have "q * 2 ^ k + (unat v + 2 ^ k - 1) mod 2 ^ k = unat v + 2 ^ k - 1"
      unfolding q_def by (rule div_mult_mod_eq)
    moreover have "(1 :: nat) \<le> 2 ^ k" by simp
    ultimately show ?thesis by linarith
  qed
  ultimately show "unat v \<le> unat (align_up v (2 ^ k))" "unat (align_up v (2 ^ k)) < unat v + 2 ^ k"
    "2 ^ k dvd unat (align_up v (2 ^ k))" "unat (align_up v (2 ^ k)) = next_aligned (2 ^ k) (unat v)"
    by (auto simp: next_aligned_def q_def)
qed

text \<open>The sections that are merged, with their sizes: alignments are powers of two and the buffer stays
  below 4 GB, so that no offset wraps.\<close>

definition aligned_sections :: "(nat \<times> nat \<times> elf_section) list \<Rightarrow> bool" where
  "aligned_sections xs \<longleftrightarrow> list_all (\<lambda>(oi, si, sec). es_align sec \<in> (\<lambda>k. 2 ^ k) ` set [0..<32]) xs"

definition sections_size :: "(nat \<times> nat \<times> elf_section) list \<Rightarrow> nat" where
  "sections_size xs = sum_list (map (\<lambda>(oi, si, sec). length (es_data sec) + unat (es_align sec)) xs)"

text \<open>
  Where each section belongs: the first suitably aligned offset behind the section before it; sections are
  named by the indices of their object and their own, and \<open>layout_end\<close> is where the last one ends.
\<close>

fun layout_from :: "nat \<Rightarrow> (nat \<times> nat \<times> elf_section) list \<Rightarrow> ((nat \<times> nat) \<times> nat) list" where
  "layout_from n [] = []"
| "layout_from n ((oi, si, sec) # xs) =
    (let off = next_aligned (unat (es_align sec)) n in ((oi, si), off) # layout_from (off + length (es_data sec)) xs)"

fun layout_end :: "nat \<Rightarrow> (nat \<times> nat \<times> elf_section) list \<Rightarrow> nat" where
  "layout_end n [] = n"
| "layout_end n ((oi, si, sec) # xs) = layout_end (next_aligned (unat (es_align sec)) n + length (es_data sec)) xs"

lemma layout_snoc:
  "layout_from n (xs @ [(oi, si, sec)]) =
    layout_from n xs @ [((oi, si), next_aligned (unat (es_align sec)) (layout_end n xs))]"
  "layout_end n (xs @ [(oi, si, sec)]) = next_aligned (unat (es_align sec)) (layout_end n xs) + length (es_data sec)"
  by (induction n xs rule: layout_end.induct) (simp_all add: Let_def)

lemma layout_keys: "map fst (layout_from n xs) = map (\<lambda>(oi, si, sec). (oi, si)) xs"
  by (induction n xs rule: layout_end.induct) (simp_all add: Let_def)

definition merged_holds :: "merged_section \<Rightarrow> (nat \<times> nat \<times> elf_section) list \<Rightarrow> bool" where
  "merged_holds m xs \<longleftrightarrow>
    map (\<lambda>e. (ie_obj_idx e, ie_sec_idx e)) (ms_input_map m) = map (\<lambda>(oi, si, sec). (oi, si)) xs \<and>
    length (ms_data m) \<le> sections_size xs \<and> length (ms_data m) = layout_end 0 xs \<and>
    map (\<lambda>e. ((ie_obj_idx e, ie_sec_idx e), unat (ie_merged_offset e))) (ms_input_map m) = layout_from 0 xs \<and>
    laid_out (ms_data m) 0
      (zip (map (\<lambda>e. unat (ie_merged_offset e)) (ms_input_map m)) (map (\<lambda>(oi, si, sec). sec) xs))"

lemma vec_resize_grow: "length xs \<le> n \<Longrightarrow> vec_resize n xs = xs @ replicate (n - length xs) 0"
  by (simp add: vec_resize_def)

lemma append_section_holds:
  assumes h: "merged_holds m xs" and al: "aligned_sections [(oi, si, sec)]"
    and fit: "sections_size (xs @ [(oi, si, sec)]) < 2 ^ 32"
  shows "merged_holds (append_section m oi si sec) (xs @ [(oi, si, sec)])"
proof -
  obtain k where k: "k < 32" "es_align sec = 2 ^ k"
    using al by (auto simp: aligned_sections_def)
  have p: "unat (es_align sec) = 2 ^ k"
  proof -
    have "(2 :: nat) ^ k < 2 ^ 64" using k by (intro power_strict_increasing) auto
    moreover have "unat (of_nat (2 ^ k) :: u64) = 2 ^ k mod 2 ^ 64" by (simp only: unat_of_nat) simp
    ultimately show ?thesis using k by simp
  qed
  define n where "n = length (ms_data m)"
  define a where "a = unat (align_up (of_nat n) (ucast (es_align sec)))"
  have c: "(ucast (es_align sec) :: u32) = 2 ^ k"
    using k(1) by (intro bit_word_eqI) (auto simp: k(2) bit_simps)
  have n: "n + 2 ^ k + length (es_data sec) < 2 ^ 32" using h fit p
    by (simp add: merged_holds_def n_def sections_size_def)
  then have un: "unat (of_nat n :: u32) = n" by (simp add: unat_of_nat)
  have a: "n \<le> a" "a < n + 2 ^ k" "2 ^ k dvd a" "a = next_aligned (unat (es_align sec)) (layout_end 0 xs)"
    using align_up_spec [of k "of_nat n"] k(1) n un p h by (simp_all add: a_def c merged_holds_def n_def)
  have ao: "unat (of_nat a :: u32) = a" using a(2) n by (simp add: unat_of_nat)
  have data: "ms_data (append_section m oi si sec) = ms_data m @ replicate (a - n) 0 @ es_data sec"
    "ms_input_map (append_section m oi si sec) = ms_input_map m @
      [\<lparr> ie_obj_idx = oi, ie_sec_idx = si, ie_merged_offset = of_nat a \<rparr>]"
    using a(1) by (simp_all add: append_section_def Let_def n_def a_def vec_resize_grow)
  have len: "length (ms_input_map m) = length xs"
  proof -
    have "map (\<lambda>e. (ie_obj_idx e, ie_sec_idx e)) (ms_input_map m) = map (\<lambda>(oi, si, sec). (oi, si)) xs"
      using h by (simp only: merged_holds_def)
    then show ?thesis by (rule map_eq_imp_length_eq)
  qed
  have "laid_out (ms_data m @ replicate (a - n) 0 @ es_data sec) 0
      (zip (map (\<lambda>e. unat (ie_merged_offset e)) (ms_input_map m)) (map (\<lambda>(oi, si, sec). sec) xs) @ [(a, sec)])"
  proof (rule laid_out_snoc)
    show "laid_out (ms_data m) 0
        (zip (map (\<lambda>e. unat (ie_merged_offset e)) (ms_input_map m)) (map (\<lambda>(oi, si, sec). sec) xs))"
      using h by (simp only: merged_holds_def)
    show "length (ms_data m) \<le> a" using a(1) by (simp only: n_def)
    show "unat (es_align sec) dvd a" using a(3) by (simp only: p)
    show "has_at (ms_data m @ replicate (a - n) 0 @ es_data sec) a (es_data sec)"
      using a(1) by (simp add: has_at_def n_def)
  qed
  moreover have "a + length (es_data sec) \<le> sections_size (xs @ [(oi, si, sec)])"
    using h a(2) p by (simp add: merged_holds_def sections_size_def n_def)
  ultimately show ?thesis
    using h a(1) len by (simp add: merged_holds_def data ao n_def layout_snoc a(4) [symmetric])
qed

text \<open>A pass over the sections that appends those of some kinds and leaves the buffer alone otherwise.\<close>

lemma merge_pass_holds:
  assumes step: "\<And>m oi si sec. f m (oi, si, sec) =
      (if K sec then append_section m oi si sec else m\<lparr> ms_bss_size := b m oi si sec \<rparr>)"
    and al: "aligned_sections xs" and fit: "sections_size (filter (\<lambda>(oi, si, sec). K sec) xs) < 2 ^ 32"
  shows "merged_holds (foldl f (empty_section va) xs) (filter (\<lambda>(oi, si, sec). K sec) xs)
    \<and> ms_va (foldl f (empty_section va) xs) = va"
  using al fit
proof (induction xs rule: rev_induct)
  case Nil
  show ?case by (simp add: merged_holds_def empty_section_def sections_size_def)
next
  case (snoc x xs)
  obtain oi si sec where x: "x = (oi, si, sec)" by (cases x)
  have al: "aligned_sections xs" "aligned_sections [x]" using snoc.prems(1) by (simp_all add: aligned_sections_def)
  have "sections_size (filter (\<lambda>(oi, si, sec). K sec) xs) < 2 ^ 32"
    using snoc.prems(2) by (auto simp: sections_size_def split: if_splits)
  note IH = snoc.IH [OF al(1) this]
  show ?case
  proof (cases "K sec")
    case True
    then show ?thesis using IH snoc.prems(2) al(2)
      by (auto simp: x step intro!: append_section_holds) (simp add: append_section_def Let_def)
  next
    case False
    then show ?thesis using IH by (simp add: x step merged_holds_def)
  qed
qed

definition is_data_kind :: "elf_section \<Rightarrow> bool" where
  "is_data_kind sec \<longleftrightarrow> es_kind sec = Data \<or> es_kind sec = ReadOnlyData \<or> es_kind sec = ReadOnlyString"

definition code_inputs :: "elf_object list \<Rightarrow> (nat \<times> nat \<times> elf_section) list" where
  "code_inputs objects = filter (\<lambda>(oi, si, sec). es_kind sec = Text) (indexed_sections objects)"

definition data_inputs :: "elf_object list \<Rightarrow> (nat \<times> nat \<times> elf_section) list" where
  "data_inputs objects = filter (\<lambda>(oi, si, sec). is_data_kind sec) (indexed_sections objects)"

lemma link_build_merged:
  assumes b: "link_build objects = Some st" and al: "aligned_sections (indexed_sections objects)"
    and fit: "sections_size (code_inputs objects) < 2 ^ 32" "sections_size (data_inputs objects) < 2 ^ 32"
  shows "merged_holds (lk_code_section st) (code_inputs objects)" "ms_va (lk_code_section st) = CODE_OBJECT_BASE"
    "merged_holds (lk_data_section st) (data_inputs objects)" "ms_va (lk_data_section st) = DATA_OBJECT_BASE"
proof -
  have c: "merge_code m (oi, si, sec) =
      (if es_kind sec = Text then append_section m oi si sec else m\<lparr> ms_bss_size := ms_bss_size m \<rparr>)"
    for m oi si sec by (simp add: merge_code_def)
  have d: "merge_data m (oi, si, sec) =
      (if is_data_kind sec then append_section m oi si sec
       else m\<lparr> ms_bss_size := ms_bss_size (merge_data m (oi, si, sec)) \<rparr>)"
    for m oi si sec by (simp add: merge_data_def is_data_kind_def Let_def)
  have st: "lk_code_section st = foldl merge_code (empty_section CODE_OBJECT_BASE) (indexed_sections objects)"
    "lk_data_section st = foldl merge_data (empty_section DATA_OBJECT_BASE) (indexed_sections objects)"
    using b by (auto simp: link_build_def Let_def bind_eq_Some_conv)
  show "merged_holds (lk_code_section st) (code_inputs objects)" "ms_va (lk_code_section st) = CODE_OBJECT_BASE"
    using merge_pass_holds [where f = merge_code and K = "\<lambda>sec. es_kind sec = Text", OF c al] fit(1)
    by (simp_all add: st code_inputs_def)
  show "merged_holds (lk_data_section st) (data_inputs objects)" "ms_va (lk_data_section st) = DATA_OBJECT_BASE"
    using merge_pass_holds [where f = merge_data and K = is_data_kind, OF d al] fit(2)
    by (simp_all add: st data_inputs_def)
qed

section \<open>Addresses\<close>

definition input_va :: "linker_state \<Rightarrow> nat \<Rightarrow> nat \<Rightarrow> elf_section \<Rightarrow> u32 option" where
  "input_va st oi si sec = (if es_kind sec = Text then code_va_for st oi si else data_va_for st oi si)"

lemma indexed_sections_mem:
  "(oi, si, sec) \<in> set (indexed_sections objects) \<longleftrightarrow>
    oi < length objects \<and> si < length (eo_sections (objects ! oi)) \<and> sec = eo_sections (objects ! oi) ! si"
  by (fastforce simp: indexed_sections_def in_set_enumerate_eq)

lemma indexed_sections_distinct: "distinct (map (\<lambda>(oi, si, sec). (oi, si)) (indexed_sections objects))"
proof -
  have e: "enumerate n (xs @ [x]) = enumerate n xs @ [(n + length xs, x)]" for n xs and x :: 'z
    by (simp add: enumerate_append_eq)
  have inner: "distinct (map (\<lambda>(oi, si, sec). (oi, si)) (map (\<lambda>(si, sec). (oi, si, sec)) (enumerate 0 secs)))"
    for oi :: nat and secs :: "elf_section list"
    by (induction secs rule: rev_induct) (auto simp: e in_set_enumerate_eq)
  have "distinct (map (\<lambda>(oi, si, sec). (oi, si)) (concat (map (\<lambda>(oi, obj).
      map (\<lambda>(si, sec). (oi, si, sec)) (enumerate 0 (eo_sections obj))) (enumerate 0 objs))))" for objs
  proof (induction objs rule: rev_induct)
    case (snoc x xs)
    then show ?case using inner [of "length xs" "eo_sections x"] by (auto simp: e in_set_enumerate_eq)
  qed simp
  then show ?thesis by (simp add: indexed_sections_def)
qed

lemma laid_out_nth:
  "laid_out d n ps \<Longrightarrow> i < length ps \<Longrightarrow> ps ! i = (off, sec) \<Longrightarrow>
    unat (es_align sec) dvd off \<and> has_at d off (es_data sec)"
  by (induction d n ps arbitrary: i rule: laid_out.induct) (auto simp: nth_Cons split: nat.splits)

lemma merged_find:
  assumes h: "merged_holds m xs" and d: "distinct (map (\<lambda>(oi, si, sec). (oi, si)) xs)"
    and x: "(oi, si, sec) \<in> set xs"
  shows "\<exists>off. find_merged_va m oi si = Some (ms_va m + off) \<and> unat (es_align sec) dvd unat off \<and>
    has_at (ms_data m) (unat off) (es_data sec)"
proof -
  obtain i where i: "i < length xs" "xs ! i = (oi, si, sec)" using x by (auto simp: in_set_conv_nth)
  have k: "map (\<lambda>e. (ie_obj_idx e, ie_sec_idx e)) (ms_input_map m) = map (\<lambda>(oi, si, sec). (oi, si)) xs"
    using h by (simp only: merged_holds_def)
  then have len: "length (ms_input_map m) = length xs" by (rule map_eq_imp_length_eq)
  define e where "e = ms_input_map m ! i"
  have ke: "ie_obj_idx (ms_input_map m ! j) = fst (xs ! j)" "ie_sec_idx (ms_input_map m ! j) = fst (snd (xs ! j))"
    if "j < length xs" for j
    using arg_cong [OF k, of "\<lambda>l. l ! j"] that len by (auto simp: case_prod_beta)
  have "find (\<lambda>e. ie_obj_idx e = oi \<and> ie_sec_idx e = si) (ms_input_map m) = Some e"
  proof -
    have "\<not> (ie_obj_idx (ms_input_map m ! j) = oi \<and> ie_sec_idx (ms_input_map m ! j) = si)" if "j < i" for j
    proof
      assume "ie_obj_idx (ms_input_map m ! j) = oi \<and> ie_sec_idx (ms_input_map m ! j) = si"
      then have "map (\<lambda>(oi, si, sec). (oi, si)) xs ! j = map (\<lambda>(oi, si, sec). (oi, si)) xs ! i"
        using ke [of j] that i by (simp add: case_prod_beta)
      then show False using d i(1) that nth_eq_iff_index_eq by fastforce
    qed
    then show ?thesis using i len ke [of i] by (auto simp: find_Some_iff e_def intro!: exI [of _ i])
  qed
  moreover have "zip (map (\<lambda>e. unat (ie_merged_offset e)) (ms_input_map m)) (map (\<lambda>(oi, si, sec). sec) xs) ! i
      = (unat (ie_merged_offset e), sec)" using i len by (simp add: e_def)
  ultimately show ?thesis using laid_out_nth [where i = i] h i len
    by (intro exI [of _ "ie_merged_offset e"]) (auto simp: find_merged_va_def merged_holds_def)
qed

text \<open>
  The addresses the program is meant to have, computed from the objects alone: a section is at its place in
  the layout of its kind, and a symbol at its offset in the section that defines it, the last definition of a
  name counting. Only code and data sections have an address; a \<^verbatim>\<open>.bss\<close> section has none, nor have the
  symbols in it.
\<close>

definition section_addr :: "elf_object list \<Rightarrow> nat \<Rightarrow> nat \<Rightarrow> u32 option" where
  "section_addr objects oi si =
    (case map_of (layout_from 0 (code_inputs objects)) (oi, si) of
       Some off \<Rightarrow> Some (CODE_OBJECT_BASE + of_nat off)
     | None \<Rightarrow> map_option (\<lambda>off. DATA_OBJECT_BASE + of_nat off) (map_of (layout_from 0 (data_inputs objects)) (oi, si)))"

definition symbol_def :: "elf_object list \<Rightarrow> nat \<times> elf_object \<times> elf_symbol \<Rightarrow> (ustring \<times> u32) option" where
  "symbol_def objects x =
    (case x of (oi, obj, symb) \<Rightarrow>
      (case sy_section_idx symb of
         None \<Rightarrow> None
       | Some si \<Rightarrow> map_option (\<lambda>va. (sy_name symb, va + ucast (sy_offset symb))) (section_addr objects oi si)))"

definition symbol_address :: "elf_object list \<Rightarrow> ustring \<Rightarrow> u32 option" where
  "symbol_address objects = map_of (rev (List.map_filter (symbol_def objects) (indexed_symbols objects)))"

lemma merged_addr:
  assumes "merged_holds m xs"
  shows "find_merged_va m oi si = map_option (\<lambda>off. ms_va m + of_nat off) (map_of (layout_from 0 xs) (oi, si))"
proof -
  have "map_option (\<lambda>e. b + ie_merged_offset e) (find (\<lambda>e. ie_obj_idx e = oi \<and> ie_sec_idx e = si) es) =
      map_option (\<lambda>off. b + of_nat off)
        (map_of (map (\<lambda>e. ((ie_obj_idx e, ie_sec_idx e), unat (ie_merged_offset e))) es) (oi, si))" for b es
    by (induction es) auto
  moreover have "layout_from 0 xs = map (\<lambda>e. ((ie_obj_idx e, ie_sec_idx e), unat (ie_merged_offset e))) (ms_input_map m)"
    using assms by (simp add: merged_holds_def)
  ultimately show ?thesis by (simp only: find_merged_va_def)
qed

lemma layout_None: "map_of (layout_from n xs) (oi, si) = None \<longleftrightarrow> (\<forall>sec. (oi, si, sec) \<notin> set xs)"
proof -
  have "fst ` set (layout_from n xs) = (\<lambda>(oi, si, sec). (oi, si)) ` set xs"
    using arg_cong [OF layout_keys [of n xs], of set] by simp
  then show ?thesis by (force simp: map_of_eq_None_iff)
qed

text \<open>The linker's two lookups are these addresses.\<close>

lemma lookups_are_addr:
  assumes b: "link_build objects = Some st" and al: "aligned_sections (indexed_sections objects)"
    and fit: "sections_size (code_inputs objects) < 2 ^ 32" "sections_size (data_inputs objects) < 2 ^ 32"
  shows "(case code_va_for st oi si of Some v \<Rightarrow> Some v | None \<Rightarrow> data_va_for st oi si) = section_addr objects oi si"
    and "oi < length objects \<Longrightarrow> si < length (eo_sections (objects ! oi)) \<Longrightarrow>
      input_va st oi si (eo_sections (objects ! oi) ! si) = section_addr objects oi si"
proof -
  note m = link_build_merged [OF b al fit]
  have c: "code_va_for st oi si = map_option (\<lambda>off. CODE_OBJECT_BASE + of_nat off) (map_of (layout_from 0 (code_inputs objects)) (oi, si))"
    "data_va_for st oi si = map_option (\<lambda>off. DATA_OBJECT_BASE + of_nat off) (map_of (layout_from 0 (data_inputs objects)) (oi, si))"
    using merged_addr [OF m(1)] merged_addr [OF m(3)] m(2,4) by (simp_all add: code_va_for_def data_va_for_def)
  then show "(case code_va_for st oi si of Some v \<Rightarrow> Some v | None \<Rightarrow> data_va_for st oi si) = section_addr objects oi si"
    by (simp add: section_addr_def split: option.split)
  assume o: "oi < length objects" "si < length (eo_sections (objects ! oi))"
  have "map_of (layout_from 0 (code_inputs objects)) (oi, si) = None" if "es_kind (eo_sections (objects ! oi) ! si) \<noteq> Text"
    unfolding layout_None using that by (auto simp: code_inputs_def indexed_sections_mem)
  moreover have "map_of (layout_from 0 (data_inputs objects)) (oi, si) = None" if "es_kind (eo_sections (objects ! oi) ! si) = Text"
    unfolding layout_None using that by (auto simp: data_inputs_def is_data_kind_def indexed_sections_mem)
  ultimately show "input_va st oi si (eo_sections (objects ! oi) ! si) = section_addr objects oi si"
    using c by (auto simp: input_va_def section_addr_def split: option.split)
qed

lemma symbol_table_is:
  assumes b: "link_build objects = Some st" and al: "aligned_sections (indexed_sections objects)"
    and fit: "sections_size (code_inputs objects) < 2 ^ 32" "sections_size (data_inputs objects) < 2 ^ 32"
  shows "lk_symbol_table st = symbol_address objects"
proof -
  have one: "tab' = (case symbol_def objects x of None \<Rightarrow> tab | Some (n, v) \<Rightarrow> tab(n \<mapsto> v))"
    if add: "add_symbol (lk_code_section st) (lk_data_section st) tab x = Some tab'" and x: "x \<in> set (indexed_symbols objects)" for tab x tab'
  proof -
    obtain oi symb where o: "x = (oi, objects ! oi, symb)" "oi < length objects"
      using x by (auto simp: indexed_symbols_def in_set_enumerate_eq)
    show ?thesis
    proof (cases "sy_section_idx symb")
      case (Some si)
      then have "si < length (eo_sections (objects ! oi))" using add o(1) by (simp add: add_symbol_def split: if_splits)
      with lookups_are_addr(2) [OF b al fit o(2) this] add o(1) Some show ?thesis
        by (simp add: add_symbol_def symbol_def_def input_va_def code_va_for_def data_va_for_def split: if_splits option.splits)
    qed (use add o(1) in \<open>simp add: add_symbol_def symbol_def_def\<close>)
  qed
  have fold: "tab' = tab ++ map_of (rev (List.map_filter (symbol_def objects) xs))"
    if "ofold (add_symbol (lk_code_section st) (lk_data_section st)) tab xs = Some tab'" "set xs \<subseteq> set (indexed_symbols objects)"
    for tab xs tab' using that
  proof (induction xs arbitrary: tab)
    case (Cons x xs)
    then obtain tab1 where t: "add_symbol (lk_code_section st) (lk_data_section st) tab x = Some tab1"
      "tab' = tab1 ++ map_of (rev (List.map_filter (symbol_def objects) xs))" by (auto simp: bind_eq_Some_conv)
    then show ?case using one [OF t(1)] Cons.prems(2)
      by (auto simp: map_filter_simps split: option.splits)
  qed (simp add: map_filter_simps)
  have "ofold (add_symbol (lk_code_section st) (lk_data_section st)) Map.empty (indexed_symbols objects) =
      Some (lk_symbol_table st)"
    using b by (auto simp: link_build_def Let_def bind_eq_Some_conv)
  from fold [OF this] show ?thesis by (simp add: symbol_address_def)
qed

section \<open>Properties\<close>

text \<open>
  C35. Merging keeps every input section and every symbol: after \<^verbatim>\<open>LinkerState::build\<close> each code and data
  section of every object is at its place in the layout of its kind (the first suitably aligned offset
  behind the section before it), its bytes stand unchanged in the merged section at that place, and
  the sections lie one behind the other without overlap. The symbol table holds exactly the symbols
  that are defined in a code or data section, each at its section's address plus its offset, the last
  definition of a name counting; symbols of \<^verbatim>\<open>.bss\<close> sections are missing from it. Alignments must be powers
  of two (as ELF demands) and the sections together smaller than 4 GB.
\<close>

theorem link_sections_placed:
  assumes b: "link_build objects = Some st" and al: "aligned_sections (indexed_sections objects)"
    and fit: "sections_size (code_inputs objects) < 2 ^ 32" "sections_size (data_inputs objects) < 2 ^ 32"
  shows "((oi, si, sec) \<in> set (code_inputs objects) \<longrightarrow>
      (\<exists>off. input_va st oi si sec = Some (CODE_OBJECT_BASE + off) \<and> section_addr objects oi si = Some (CODE_OBJECT_BASE + off) \<and>
         unat (es_align sec) dvd unat off \<and> has_at (ms_data (lk_code_section st)) (unat off) (es_data sec)))
    \<and> ((oi, si, sec) \<in> set (data_inputs objects) \<longrightarrow>
      (\<exists>off. input_va st oi si sec = Some (DATA_OBJECT_BASE + off) \<and> section_addr objects oi si = Some (DATA_OBJECT_BASE + off) \<and>
         unat (es_align sec) dvd unat off \<and> has_at (ms_data (lk_data_section st)) (unat off) (es_data sec)))
    \<and> merged_holds (lk_code_section st) (code_inputs objects) \<and> merged_holds (lk_data_section st) (data_inputs objects)
    \<and> (\<forall>name. lk_symbol_table st name = symbol_address objects name)"
proof -
  note m = link_build_merged [OF b al fit]
  have d: "distinct (map (\<lambda>(oi, si, sec). (oi, si)) (filter P (indexed_sections objects)))" for P
    using indexed_sections_distinct [of objects] by (simp add: distinct_map inj_on_def)
  have dc: "distinct (map (\<lambda>(oi, si, sec). (oi, si)) (code_inputs objects))"
    "distinct (map (\<lambda>(oi, si, sec). (oi, si)) (data_inputs objects))"
    unfolding code_inputs_def data_inputs_def by (rule d)+
  have addr: "input_va st oi si sec = section_addr objects oi si" if "(oi, si, sec) \<in> set (code_inputs objects @ data_inputs objects)"
    using lookups_are_addr(2) [OF b al fit, of oi si] that by (auto simp: code_inputs_def data_inputs_def indexed_sections_mem)
  have c: "\<exists>off. input_va st oi si sec = Some (CODE_OBJECT_BASE + off) \<and> unat (es_align sec) dvd unat off \<and>
      has_at (ms_data (lk_code_section st)) (unat off) (es_data sec)" if "(oi, si, sec) \<in> set (code_inputs objects)"
    using merged_find [OF m(1) dc(1) that] that m(2)
    by (auto simp: input_va_def code_va_for_def code_inputs_def)
  have e: "\<exists>off. input_va st oi si sec = Some (DATA_OBJECT_BASE + off) \<and> unat (es_align sec) dvd unat off \<and>
      has_at (ms_data (lk_data_section st)) (unat off) (es_data sec)" if "(oi, si, sec) \<in> set (data_inputs objects)"
    using merged_find [OF m(3) dc(2) that] that m(4)
    by (auto simp: input_va_def data_va_for_def data_inputs_def is_data_kind_def)
  show ?thesis using c e addr m(1,3) symbol_table_is [OF b al fit] by auto
qed

definition demo_objects :: "elf_object list" where
  "demo_objects =
    [\<lparr> eo_sections = [\<lparr> es_name = ustr ''.text'', es_kind = Text, es_data = replicate 16 0x90, es_align = 16,
          es_relocs = [\<lparr> rl_offset = 1, rl_kind = Absolute, rl_addend = 0, rl_target = RtSymbol (ustr ''msg'') \<rparr>,
            \<lparr> rl_offset = 6, rl_kind = Absolute, rl_addend = 0, rl_target = RtSymbol (ustr ''DosExit'') \<rparr>] \<rparr>,
        \<lparr> es_name = ustr ''.data'', es_kind = Data, es_data = [1, 2, 3, 4], es_align = 4, es_relocs = [] \<rparr>],
       eo_symbols = [\<lparr> sy_name = ustr ''_start'', sy_section_idx = Some 0, sy_offset = 0 \<rparr>,
         \<lparr> sy_name = ustr ''msg'', sy_section_idx = Some 1, sy_offset = 2 \<rparr>] \<rparr>]"

definition demo_link_state :: linker_state where
  "demo_link_state = \<lparr>
     lk_code_section = \<lparr> ms_data = replicate 16 0x90, ms_bss_size = 0, ms_va = 0x10000,
       ms_input_map = [\<lparr> ie_obj_idx = 0, ie_sec_idx = 0, ie_merged_offset = 0 \<rparr>] \<rparr>,
     lk_data_section = \<lparr> ms_data = [1, 2, 3, 4], ms_bss_size = 0, ms_va = 0x60000,
       ms_input_map = [\<lparr> ie_obj_idx = 0, ie_sec_idx = 1, ie_merged_offset = 0 \<rparr>] \<rparr>,
     lk_symbol_table = [ustr ''_start'' \<mapsto> 0x10000, ustr ''msg'' \<mapsto> 0x60002],
     lk_entry_va = 0x10000 \<rparr>"

lemma demo_sections: "indexed_sections demo_objects =
    [(0, 0, eo_sections (hd demo_objects) ! 0), (0, 1, eo_sections (hd demo_objects) ! 1)]"
  by (simp add: indexed_sections_def demo_objects_def)

lemma demo_build: "link_build demo_objects = Some demo_link_state"
  unfolding link_build_def demo_sections
  by (simp add: demo_objects_def merge_code_def merge_data_def append_section_def align_up_def vec_resize_def
      empty_section_def demo_link_state_def indexed_symbols_def add_symbol_def find_merged_va_def entry_va_of_def
      ustr_def link_consts Let_def)

theorem link_sections_placed_witness:
  "link_build demo_objects = Some demo_link_state \<and>
   input_va demo_link_state 0 1 (eo_sections (hd demo_objects) ! 1) \<noteq> None \<and>
   symbol_address demo_objects (ustr ''msg'') = Some 0x60002"
proof -
  have sz: "sections_size (code_inputs demo_objects) < 2 ^ 32" "sections_size (data_inputs demo_objects) < 2 ^ 32"
    and m: "(0, 1, eo_sections (hd demo_objects) ! 1) \<in> set (data_inputs demo_objects)"
    unfolding code_inputs_def data_inputs_def demo_sections
    by (simp_all add: demo_objects_def sections_size_def is_data_kind_def)
  have al: "aligned_sections (indexed_sections demo_objects)"
    unfolding demo_sections by code_simp
  have t: "lk_symbol_table demo_link_state (ustr ''msg'') = Some 0x60002"
    by (simp add: demo_link_state_def)
  show ?thesis
    using link_sections_placed [OF demo_build al sz, of 0 1 "eo_sections (hd demo_objects) ! 1"] m t demo_build
    by auto
qed

end
