(* ===== verification/Link_Image.thy ===== *)
theory Link_Image
  imports Linker
begin

unbundle bit_operations_syntax

text \<open>
  What the linker writes, the loader reads: the file of \<^verbatim>\<open>write_lx\<close> (\<^verbatim>\<open>src/src/bin/lx_link.rs\<close>) is an LX
  image in the sense of the parser (\<^verbatim>\<open>src/src/lx.rs\<close>), with three objects, a page map, the fixup records
  of the relocation loop and the imported modules; its pages hold the patched sections.
\<close>

section \<open>Places in the file\<close>

lemma has_at_skip: "length a \<le> off \<Longrightarrow> has_at (a @ d) off bs \<longleftrightarrow> has_at d (off - length a) bs"
  by (auto simp: has_at_def)

lemma has_at_here: "has_at (bs @ c) 0 bs"
  by (simp add: has_at_def)

lemma word_at_skip: "length a \<le> off \<Longrightarrow> word_at (a @ d) off = word_at d (off - length a)"
  by (simp add: word_at_def)

lemma word_at_here:
  "word_at ([b] @ d) 0 = (b :: u8)"
  "word_at (le_bytes 2 h @ d) 0 = (h :: u16)"
  "word_at (le_bytes 4 w @ d) 0 = (w :: u32)"
  "word_at (le_bytes 4 w) 0 = w"
  by (simp_all add: word_at_def)

text \<open>The header that \<^verbatim>\<open>build_lx_header\<close> writes.\<close>

definition linked_header ::
  "u32 \<Rightarrow> u32 \<Rightarrow> u32 \<Rightarrow> u32 \<Rightarrow> u32 \<Rightarrow> u32 \<Rightarrow> u32 \<Rightarrow> u32 \<Rightarrow> u32 \<Rightarrow> u32 \<Rightarrow> u32 \<Rightarrow> u32 \<Rightarrow> u32 \<Rightarrow> u32 \<Rightarrow> u32
    \<Rightarrow> lx_header" where
  "linked_header entry_offset total_pages obj_table_off num_objects page_map_off resident_name_off
      entry_table_off fixup_page_table_off fixup_record_off import_modules_off imported_modules_count
      import_proc_name_off loader_section_size fixup_section_size data_pages_offset_abs =
    \<lparr> lx_signature = LX_SIGNATURE, lx_byte_order = 0, lx_word_order = 0, lx_format_level = 0,
      lx_cpu_type = 2, lx_os_type = 1, lx_module_version = 0, lx_module_flags = 0,
      lx_module_num_pages = total_pages, lx_eip_object = 1, lx_eip = entry_offset,
      lx_esp_object = 3, lx_esp = STACK_SIZE, lx_page_size = 4096, lx_page_offset_shift = 0,
      lx_fixup_section_size = fixup_section_size, lx_fixup_section_checksum = 0,
      lx_loader_section_size = loader_section_size, lx_loader_section_checksum = 0,
      lx_object_table_offset = obj_table_off, lx_object_count = num_objects,
      lx_object_page_map_offset = page_map_off, lx_object_iter_data_map_offset = 0,
      lx_resource_table_offset = 0, lx_resource_count = 0,
      lx_resident_name_table_offset = resident_name_off, lx_entry_table_offset = entry_table_off,
      lx_module_directives_offset = 0, lx_module_directives_count = 0,
      lx_fixup_page_table_offset = fixup_page_table_off,
      lx_fixup_record_table_offset = fixup_record_off,
      lx_imported_modules_name_table_offset = import_modules_off,
      lx_imported_modules_count = imported_modules_count,
      lx_import_procedure_name_table_offset = import_proc_name_off,
      lx_per_page_checksum_table_offset = 0, lx_data_pages_offset = data_pages_offset_abs,
      lx_num_preload_pages = 0, lx_non_resident_name_table_offset = 0,
      lx_non_resident_name_table_length = 0, lx_non_resident_name_table_checksum = 0,
      lx_auto_ds_object = 2, lx_debug_info_offset = 0, lx_debug_info_length = 0,
      lx_num_instance_preload = 0, lx_num_instance_demand = 0, lx_heap_size = 0 \<rparr>"

lemma length_build_lx_header: "length (build_lx_header a b c d e f g h i j k l m n p) = 172"
  by (simp add: build_lx_header_def)

lemma build_lx_header_read:
  "lx_header_at (build_lx_header a b c d e f g h i j k l m n p @ suf) 0 =
    linked_header a b c d e f g h i j k l m n p"
  by (simp add: lx_header_at_def linked_header_def build_lx_header_def word_at_skip word_at_here
      LX_SIGNATURE_def del: append_Cons append_Nil)

lemma lx_header_at_skip: "lx_header_at (pre @ d) (length pre) = lx_header_at d 0"
  by (simp add: lx_header_at_def word_at_skip numeral_2_eq_2)

section \<open>The tables as records\<close>

definition link_record :: "link_fixup \<Rightarrow> lx_fixup_record" where
  "link_record fix = \<lparr> fx_source_type = lf_source_type fix,
     fx_target_flags = (case lf_target fix of LInternal _ _ \<Rightarrow> 0x10 | LExternalOrdinal _ _ \<Rightarrow> 0x11),
     fx_source_offsets = [lf_source_offset fix],
     fx_target = (case lf_target fix of
        LInternal n off \<Rightarrow> Internal (ucast n) off
      | LExternalOrdinal n ord \<Rightarrow> ExternalOrdinal (ucast n) ord),
     fx_additive = None \<rparr>"

definition page_record :: "u8 list \<Rightarrow> nat \<Rightarrow> nat \<Rightarrow> object_page_map_entry" where
  "page_record data first pi =
    \<lparr> pg_data_offset = of_nat (first + pi) * 4096,
      pg_data_size = ucast ((of_nat (min ((pi + 1) * 4096) (length data)) :: u64) - of_nat (pi * 4096)),
      pg_flags = 0 \<rparr>"

definition stack_page_record :: "nat \<Rightarrow> nat \<Rightarrow> object_page_map_entry" where
  "stack_page_record first pi =
    \<lparr> pg_data_offset = of_nat (first + pi) * 4096, pg_data_size = 4096, pg_flags = 0 \<rparr>"

definition linked_page_map :: "u8 list \<Rightarrow> u8 list \<Rightarrow> nat \<Rightarrow> nat \<Rightarrow> object_page_map_entry list" where
  "linked_page_map code data cp dp =
    map (page_record code 0) [0..<cp] @ map (page_record data cp) [0..<dp] @
    map (stack_page_record (cp + dp)) [0..<16]"

definition linked_objects :: "u32 \<Rightarrow> u32 \<Rightarrow> nat \<Rightarrow> nat \<Rightarrow> object_table_entry list" where
  "linked_objects code_size data_size cp dp =
    [\<lparr> obj_size = code_size, obj_base_address = 0x10000, obj_flags = 0x2045,
       obj_page_map_index = 1, obj_page_count = of_nat cp, obj_reserved = 0 \<rparr>,
     \<lparr> obj_size = data_size, obj_base_address = 0x60000, obj_flags = 0x2043,
       obj_page_map_index = of_nat cp + 1, obj_page_count = of_nat dp, obj_reserved = 0 \<rparr>,
     \<lparr> obj_size = 0x10000, obj_base_address = 0x70000, obj_flags = 0x2043,
       obj_page_map_index = of_nat cp + of_nat dp + 1, obj_page_count = 16, obj_reserved = 0 \<rparr>]"

lemma ucast_u8_u16: "ucast (ucast (n :: u8) :: u16) = n" "unat (ucast (n :: u8) :: u16) = unat n"
proof -
  show "ucast (ucast n :: u16) = n" by (rule bit_word_eqI) (auto simp: bit_simps)
  have "unat n < 2 ^ 16" using less_trans [OF unat_u8_lt [of n], of "2 ^ 16"] by simp
  then show "unat (ucast n :: u16) = unat n"
    by (simp add: unsigned_ucast_eq take_bit_eq_mod)
qed

lemma ascii_as_bytes: "is_ascii s \<Longrightarrow> as_bytes s = ascii_bytes s"
  by (induction s) (auto simp: as_bytes_def ascii_bytes_def is_ascii_def utf8_char_def)

lemma encode_fixup_record: "encode_fixup fix = enc_lx_fixup_record (link_record fix)"
  if "lf_source_type fix = 7"
  using that by (auto simp: encode_fixup_def link_record_def enc_lx_fixup_record_def enc_source_offsets_def
      enc_index_def enc_offset_def enc_proc_ordinal_def enc_additive_def ucast_u8_u16
      split: link_target.splits)

lemma link_record_wf: "lf_source_type fix = 7 \<Longrightarrow> fixup_wf (link_record fix)"
  by (auto simp: fixup_wf_def link_record_def index_fits_def offset_fits_def ucast_u8_u16
      split: link_target.splits)

lemma length_encode_fixup: "length (encode_fixup fix) = 9"
  by (auto simp: encode_fixup_def split: link_target.splits)

lemma page_entry_record: "page_entry data first pi = enc_object_page_map_entry (page_record data first pi)"
  by (simp add: page_entry_def page_record_def enc_object_page_map_entry_def LINK_PAGE_SIZE_def Let_def)

lemma stack_page_entry_record: "stack_page_entry first pi = enc_object_page_map_entry (stack_page_record first pi)"
  by (simp add: stack_page_entry_def stack_page_record_def enc_object_page_map_entry_def LINK_PAGE_SIZE_def)

lemma module_name_bytes_enc:
  "list_all pstring_wf mods \<Longrightarrow> module_name_bytes mods = concat (map enc_pstring mods)"
proof (induction mods)
  case (Cons m mods)
  then have "as_bytes m = ascii_bytes m" by (intro ascii_as_bytes) (simp add: pstring_wf_def)
  with Cons show ?case by (simp add: module_name_bytes_def enc_pstring_def)
qed (simp add: module_name_bytes_def)

section \<open>The fixup section\<close>

definition fixups7 :: "link_fixup list list \<Rightarrow> bool" where
  "fixups7 pages \<longleftrightarrow> (\<forall>fs\<in>set pages. \<forall>fix\<in>set fs. lf_source_type fix = 7)"

lemma length_fixup_starts: "length (fixup_starts n pages) = length pages + 1"
  by (induction n pages rule: fixup_starts.induct) auto

lemma page_bytes:
  "\<forall>fix\<in>set fs. lf_source_type fix = 7 \<Longrightarrow>
    concat (map encode_fixup fs) = concat (map enc_lx_fixup_record (map link_record fs))"
  by (induction fs) (auto simp: encode_fixup_record)

lemma fixup_starts_Cons: "\<exists>ts. fixup_starts n pages = of_nat n # ts"
  by (cases pages) auto

lemma has_at_append_left: "has_at d off (a @ b) \<longleftrightarrow> has_at d off a \<and> has_at d (off + length a) b"
  by (auto simp: has_at_def take_add add.assoc drop_drop add.commute)

lemma fixup_starts_image:
  assumes "fixups7 pages"
    and "has_at d (start + n) (concat (map (\<lambda>fs. concat (map encode_fixup fs)) pages))"
    and "n + length (concat (map (\<lambda>fs. concat (map encode_fixup fs)) pages)) < 2 ^ 32"
  shows "fixup_pages_image d start (fixup_starts n pages) (map (map link_record) pages)"
  using assms
proof (induction pages arbitrary: n)
  case (Cons fs pages)
  let ?e = "concat (map encode_fixup fs)"
  have e: "?e = concat (map enc_lx_fixup_record (map link_record fs))" "\<forall>fix\<in>set fs. lf_source_type fix = 7"
    using Cons.prems(1) page_bytes by (auto simp: fixups7_def)
  have at: "has_at d (start + n) ?e"
    "has_at d (start + (n + length ?e)) (concat (map (\<lambda>fs. concat (map encode_fixup fs)) pages))"
    using Cons.prems(2) by (simp_all add: has_at_append_left add.assoc)
  have u: "unat (of_nat n :: u32) = n" "unat (of_nat (n + length ?e) :: u32) = n + length ?e"
    using Cons.prems(3) by (intro unat_of_nat_u32; simp)+
  have tail: "fixup_pages_image d start (fixup_starts (n + length ?e) pages) (map (map link_record) pages)"
    using Cons.prems at(2) by (intro Cons.IH) (auto simp: fixups7_def)
  have "fixup_page_image d start (of_nat n) (of_nat (n + length ?e)) (map link_record fs)"
  proof (cases "fs = []")
    case True
    then show ?thesis by (simp add: fixup_page_image_def)
  next
    case False
    then have "0 < length ?e" using length_encode_fixup by (cases fs) auto
    then have "(of_nat n :: u32) < of_nat (n + length ?e)" using u by (simp only: word_less_nat_alt)
    moreover have "list_all fixup_wf (map link_record fs)" using e(2) link_record_wf by (auto simp: list_all_iff)
    ultimately show ?thesis using at(1) u e(1) by (simp only: fixup_page_image_def) simp
  qed
  with tail show ?case
    using fixup_starts_Cons [of "n + length ?e" pages] by auto
qed simp

section \<open>The file\<close>

text \<open>Sizes that keep every table offset within 32 bits and the parser's limits.\<close>

definition link_fits :: "linker_state \<Rightarrow> link_writer \<Rightarrow> bool" where
  "link_fits st w \<longleftrightarrow>
    code_pages st + data_pages st \<le> 65520 \<and>
    list_all pstring_wf (w_imported w) \<and>
    length (concat (map (\<lambda>fs. concat (map encode_fixup fs)) (w_code_fixups w @ w_data_fixups w)))
      + length (module_name_bytes (w_imported w)) < 2 ^ 31"

definition writer_wf :: "linker_state \<Rightarrow> link_writer \<Rightarrow> bool" where
  "writer_wf st w \<longleftrightarrow>
    length (w_code_fixups w) = code_pages st \<and> length (w_data_fixups w) = data_pages st \<and>
    fixups7 (w_code_fixups w @ w_data_fixups w)"

definition linked_pages :: "link_writer \<Rightarrow> link_fixup list list" where
  "linked_pages w = w_code_fixups w @ w_data_fixups w @ replicate 16 []"

definition data_pages_offset :: "linker_state \<Rightarrow> link_writer \<Rightarrow> u32" where
  "data_pages_offset st w =
    align_to (of_nat (325 + 12 * (code_pages st + data_pages st + 16)
      + length (concat (map (\<lambda>fs. concat (map encode_fixup fs)) (linked_pages w)))
      + length (module_name_bytes (w_imported w)))) 16"

definition linked_file :: "linker_state \<Rightarrow> link_writer \<Rightarrow> u8 list \<Rightarrow> u8 list \<Rightarrow> lx_file" where
  "linked_file st w code0 data0 =
    (let code = pad_to_page code0; data = pad_to_page data0; cp = code_pages st; dp = data_pages st;
         n = cp + dp + 16;
         r = length (concat (map (\<lambda>fs. concat (map encode_fixup fs)) (linked_pages w)));
         m = length (module_name_bytes (w_imported w)) in
     \<lparr> lxf_header = linked_header (lk_entry_va st - CODE_OBJECT_BASE) (of_nat n) 172 3 244
         (of_nat (244 + 8 * n)) (of_nat (255 + 8 * n)) (of_nat (257 + 8 * n)) (of_nat (261 + 12 * n))
         (of_nat (261 + 12 * n + r)) (of_nat (length (w_imported w))) (of_nat (261 + 12 * n + r + m))
         (of_nat (257 + 8 * n)) (of_nat (4 * n + 4 + r + m)) (data_pages_offset st w),
       lxf_object_table = linked_objects
         (of_nat (length code) + ms_bss_size (lk_code_section st))
         (of_nat (length data) + ms_bss_size (lk_data_section st)) cp dp,
       lxf_page_map = linked_page_map code data cp dp,
       lxf_fixup_page_table = fixup_starts 0 (linked_pages w),
       lxf_fixup_records_by_page = map (map link_record) (linked_pages w),
       lxf_resources = [], lxf_imported_modules = w_imported w, lxf_import_procedure_names = [],
       lxf_exports = [], lxf_nonresident_names = [] \<rparr>)"

text \<open>The same file with its parts named.\<close>

definition lx_layout ::
  "u8 list \<Rightarrow> u8 list \<Rightarrow> u8 list \<Rightarrow> u8 list \<Rightarrow> u8 list \<Rightarrow> u8 list \<Rightarrow> u8 list \<Rightarrow> u8 list" where
  "lx_layout hdr objs pm fpt recs mods pages =
    mz_stub @ hdr @ objs @ pm @ resident_name_bytes @ [0] @ [0] @ fpt @ recs @ mods @ pages"

definition padded_pages :: "linker_state \<Rightarrow> link_writer \<Rightarrow> u8 list \<Rightarrow> u8 list \<Rightarrow> u8 list" where
  "padded_pages st w code0 data0 =
    replicate (unat (data_pages_offset st w - of_nat (325 + 12 * (code_pages st + data_pages st + 16)
      + length (concat (map (\<lambda>fs. concat (map encode_fixup fs)) (linked_pages w)))
      + length (module_name_bytes (w_imported w))))) 0 @
    pad_to_page code0 @ pad_to_page data0 @ replicate 65536 0"

lemma assemble_lx_layout:
  "assemble_lx st w code0 data0 =
    (let cp = code_pages st; dp = data_pages st; n = cp + dp + 16;
         recs = concat (map (\<lambda>fs. concat (map encode_fixup fs)) (linked_pages w));
         mods = module_name_bytes (w_imported w);
         r = length recs; m = length mods in
     lx_layout
       (build_lx_header (lk_entry_va st - CODE_OBJECT_BASE) (of_nat n) 172 3 244
         (of_nat (244 + 8 * n)) (of_nat (255 + 8 * n)) (of_nat (257 + 8 * n)) (of_nat (261 + 12 * n))
         (of_nat (261 + 12 * n + r)) (of_nat (length (w_imported w))) (of_nat (261 + 12 * n + r + m))
         (of_nat (257 + 8 * n)) (of_nat (4 * n + 4 + r + m)) (data_pages_offset st w))
       (concat (map enc_object_table_entry (linked_objects
         (of_nat (length (pad_to_page code0)) + ms_bss_size (lk_code_section st))
         (of_nat (length (pad_to_page data0)) + ms_bss_size (lk_data_section st)) cp dp)))
       (concat (map enc_object_page_map_entry (linked_page_map (pad_to_page code0) (pad_to_page data0) cp dp)))
       (concat (map (le_bytes 4) (fixup_starts 0 (linked_pages w))))
       recs mods (padded_pages st w code0 data0))"
proof -
  have 1: "STACK_SIZE div LINK_PAGE_SIZE = 16" "unat (16 :: u32) = 16" by code_simp+
  have 2: "LX_HEADER_SIZE = 172" "172 + 3 * 24 = (244 :: u32)" by code_simp+
  have 3: "244 + of_nat n * 8 = (of_nat (244 + 8 * n) :: u32)"
    "(of_nat (244 + 8 * n) :: u32) + of_nat (length resident_name_bytes) = of_nat (255 + 8 * n)"
    "(of_nat (255 + 8 * n) :: u32) + of_nat (length [0, 0 :: u8]) = of_nat (257 + 8 * n)"
    "(of_nat (257 + 8 * n) :: u32) + (of_nat n + 1) * 4 = of_nat (261 + 12 * n)"
    "(of_nat (261 + 12 * n) :: u32) + of_nat r = of_nat (261 + 12 * n + r)"
    "(of_nat (261 + 12 * n + r) :: u32) + of_nat m = of_nat (261 + 12 * n + r + m)"
    "LX_HEADER_OFFSET + of_nat (261 + 12 * n + r + m) = of_nat (325 + 12 * n + r + m)"
    "(of_nat n + 1) * 4 + of_nat r + of_nat m = (of_nat (4 * n + 4 + r + m) :: u32)" for n r m
    by (simp_all add: resident_name_bytes_def LX_HEADER_OFFSET_def algebra_simps)
  have o: "concat (map enc_object_table_entry (linked_objects a b c d)) =
    encode_object_entry a CODE_OBJECT_BASE (OBJ_READ OR OBJ_EXEC OR OBJ_BIG OR OBJ_USE32) 1 (of_nat c) @
    encode_object_entry b DATA_OBJECT_BASE (OBJ_READ OR OBJ_WRITE OR OBJ_BIG OR OBJ_USE32) (of_nat c + 1) (of_nat d) @
    encode_object_entry STACK_SIZE STACK_OBJECT_BASE
       (OBJ_READ OR OBJ_WRITE OR OBJ_BIG OR OBJ_USE32) (of_nat c + of_nat d + 1) 16" for a b c d
    by (simp add: linked_objects_def enc_object_table_entry_def encode_object_entry_def link_consts)
  have p: "concat (map enc_object_page_map_entry (linked_page_map a b c d)) =
    concat (map (page_entry a 0) [0..<c]) @ concat (map (page_entry b c) [0..<d]) @
    concat (map (stack_page_entry (c + d)) [0..<16])" for a b c d
    by (simp add: linked_page_map_def page_entry_record [abs_def] stack_page_entry_record [abs_def] comp_def)
  have l: "w_code_fixups w @ w_data_fixups w @ replicate 16 [] = linked_pages w"
    by (simp only: linked_pages_def)
  have q: "16 * 4096 = (65536 :: nat)" by simp
  have ap: "xs @ [0, 0 :: u8] @ ys = xs @ [0] @ [0] @ ys" for xs ys by simp
  show ?thesis
    unfolding assemble_lx_def Let_def 1 2 3 l lx_layout_def padded_pages_def data_pages_offset_def o p q ap
    by (simp only: append_assoc)
qed

lemma length_mz_stub: "length mz_stub = 64"
  by (simp add: mz_stub_def)

lemma mz_stub_offset: "lx_offset_of (mz_stub @ d) = 64" "take 2 (mz_stub @ d) = [0x4D, 0x5A]"
proof -
  have 1: "mz_stub = take 60 mz_stub @ [64, 0, 0, 0]" "length (take 60 mz_stub) = 60" "take 2 mz_stub = [0x4D, 0x5A]"
    by code_simp+
  have "word_at (mz_stub @ d) 0x3C = (word_at ([64, 0, 0, 0] @ d) 0 :: u32)"
    using word_at_skip [of "take 60 mz_stub" 60 "[64, 0, 0, 0] @ d"] 1(1,2) by (metis append_assoc diff_self_eq_0 order_refl)
  also have "\<dots> = 64" by (simp add: word_at_def)
  finally show "lx_offset_of (mz_stub @ d) = 64" by (simp add: lx_offset_of_def)
  show "take 2 (mz_stub @ d) = [0x4D, 0x5A]" using 1(3) length_mz_stub by simp
qed

lemma length_resident: "length resident_name_bytes = 11"
  by (simp add: resident_name_bytes_def)

lemma layout_places:
  assumes "length hdr = 172" "length objs = 72" "length pm = 8 * n" "length fpt = 4 * n + 4"
  shows "lx_offset_of (lx_layout hdr objs pm fpt recs mods pages) = 64"
    and "take 2 (lx_layout hdr objs pm fpt recs mods pages) = [0x4D, 0x5A]"
    and "64 + 0xAC \<le> length (lx_layout hdr objs pm fpt recs mods pages)"
    and "lx_header_at (lx_layout hdr objs pm fpt recs mods pages) 64 =
      lx_header_at (hdr @ objs @ pm @ resident_name_bytes @ [0] @ [0] @ fpt @ recs @ mods @ pages) 0"
    and "has_at (lx_layout hdr objs pm fpt recs mods pages) (64 + 172) objs"
    and "has_at (lx_layout hdr objs pm fpt recs mods pages) (64 + 244) pm"
    and "has_at (lx_layout hdr objs pm fpt recs mods pages) (64 + (255 + 8 * n)) [0]"
    and "has_at (lx_layout hdr objs pm fpt recs mods pages) (64 + (257 + 8 * n)) fpt"
    and "has_at (lx_layout hdr objs pm fpt recs mods pages) (64 + (261 + 12 * n)) recs"
    and "has_at (lx_layout hdr objs pm fpt recs mods pages) (64 + (261 + 12 * n + length recs)) mods"
    and "has_at (lx_layout hdr objs pm fpt recs mods pages) (325 + 12 * n + length recs + length mods) pages"
proof -
  note l = assms length_mz_stub length_resident
  show "lx_offset_of (lx_layout hdr objs pm fpt recs mods pages) = 64"
    by (simp only: lx_layout_def mz_stub_offset)
  show "take 2 (lx_layout hdr objs pm fpt recs mods pages) = [0x4D, 0x5A]"
    by (simp only: lx_layout_def mz_stub_offset)
  show "64 + 0xAC \<le> length (lx_layout hdr objs pm fpt recs mods pages)"
    using l by (simp add: lx_layout_def)
  show "lx_header_at (lx_layout hdr objs pm fpt recs mods pages) 64 =
      lx_header_at (hdr @ objs @ pm @ resident_name_bytes @ [0] @ [0] @ fpt @ recs @ mods @ pages) 0"
    using lx_header_at_skip [of mz_stub] by (simp only: lx_layout_def length_mz_stub)
  have z: "length [0 :: u8] = 1" by simp
  note sk = lx_layout_def has_at_skip has_at_here l z
  show "has_at (lx_layout hdr objs pm fpt recs mods pages) (64 + 172) objs"
    by (simp add: sk del: append_Cons append_Nil)
  show "has_at (lx_layout hdr objs pm fpt recs mods pages) (64 + 244) pm"
    by (simp add: sk del: append_Cons append_Nil)
  show "has_at (lx_layout hdr objs pm fpt recs mods pages) (64 + (255 + 8 * n)) [0]"
    by (simp add: sk del: append_Cons append_Nil)
  show "has_at (lx_layout hdr objs pm fpt recs mods pages) (64 + (257 + 8 * n)) fpt"
    by (simp add: sk del: append_Cons append_Nil)
  show "has_at (lx_layout hdr objs pm fpt recs mods pages) (64 + (261 + 12 * n)) recs"
    by (simp add: sk del: append_Cons append_Nil)
  show "has_at (lx_layout hdr objs pm fpt recs mods pages) (64 + (261 + 12 * n + length recs)) mods"
    by (simp add: sk del: append_Cons append_Nil)
  have "has_at pages 0 pages" by (simp add: has_at_def)
  then show "has_at (lx_layout hdr objs pm fpt recs mods pages) (325 + 12 * n + length recs + length mods) pages"
    by (simp add: sk del: append_Cons append_Nil)
qed

lemma table_lengths:
  "length (concat (map enc_object_table_entry (linked_objects a b c d))) = 72"
  "length (concat (map enc_object_page_map_entry (linked_page_map code data cp dp))) = 8 * (cp + dp + 16)"
  "length (linked_objects a b c d) = 3"
  "length (linked_page_map code data cp dp) = cp + dp + 16"
proof -
  have "length (concat (map enc_object_page_map_entry xs)) = 8 * length xs" for xs
    by (induction xs) (auto simp: enc_object_page_map_entry_def)
  then show "length (concat (map enc_object_page_map_entry (linked_page_map code data cp dp))) = 8 * (cp + dp + 16)"
    by (simp only: linked_page_map_def) (simp del: map_append map_map concat_append)
qed (simp_all add: linked_objects_def enc_object_table_entry_def linked_page_map_def)

lemma length_le4: "length (concat (map (le_bytes 4) (xs :: u32 list))) = 4 * length xs"
  by (induction xs) auto

lemma length_mods_le: "length mods \<le> length (module_name_bytes mods)"
  by (induction mods) (auto simp: module_name_bytes_def)

text \<open>The image, for any sizes in range.\<close>

lemma layout_image:
  fixes n :: nat and fixups :: "link_fixup list list" and mods :: "ustring list"
  defines "recs \<equiv> concat (map (\<lambda>fs. concat (map encode_fixup fs)) fixups)"
    and "mb \<equiv> module_name_bytes mods"
  assumes n: "n \<le> 65536" "length fixups = n" "length pm = n" "length objs = 3"
    and lo: "length (concat (map enc_object_table_entry objs)) = 72"
    and lp: "length (concat (map enc_object_page_map_entry pm)) = 8 * n"
    and sz: "length recs + length mb < 2 ^ 31" and f7: "fixups7 fixups" and md: "list_all pstring_wf mods"
    and h: "h = linked_header e (of_nat n) 172 3 244 (of_nat (244 + 8 * n)) (of_nat (255 + 8 * n))
        (of_nat (257 + 8 * n)) (of_nat (261 + 12 * n)) (of_nat (261 + 12 * n + length recs))
        (of_nat (length mods)) (of_nat (261 + 12 * n + length recs + length mb)) (of_nat (257 + 8 * n)) fss dpo"
  shows "lx_image (lx_layout (build_lx_header e (of_nat n) 172 3 244 (of_nat (244 + 8 * n)) (of_nat (255 + 8 * n))
        (of_nat (257 + 8 * n)) (of_nat (261 + 12 * n)) (of_nat (261 + 12 * n + length recs))
        (of_nat (length mods)) (of_nat (261 + 12 * n + length recs + length mb)) (of_nat (257 + 8 * n)) fss dpo)
      (concat (map enc_object_table_entry objs)) (concat (map enc_object_page_map_entry pm))
      (concat (map (le_bytes 4) (fixup_starts 0 fixups))) recs mb pages) [] []
    \<lparr> lxf_header = h, lxf_object_table = objs, lxf_page_map = pm,
      lxf_fixup_page_table = fixup_starts 0 fixups, lxf_fixup_records_by_page = map (map link_record) fixups,
      lxf_resources = [], lxf_imported_modules = mods, lxf_import_procedure_names = [],
      lxf_exports = [], lxf_nonresident_names = [] \<rparr>"
    (is "lx_image ?d [] [] ?f")
proof -
  have lf: "length (concat (map (le_bytes 4) (fixup_starts 0 fixups))) = 4 * n + 4"
    by (simp add: length_le4 length_fixup_starts n)
  note at = layout_places [OF length_build_lx_header lo lp lf, where recs = recs and mods = mb and pages = pages]
  have hd: "lx_header_at ?d 64 = h" by (simp only: at(4) build_lx_header_read h)
  have "length mods \<le> length mb" unfolding mb_def by (rule length_mods_le)
  then have u: "unat (of_nat n :: u32) = n" "unat (of_nat (255 + 8 * n) :: u32) = 255 + 8 * n"
    "unat (of_nat (257 + 8 * n) :: u32) = 257 + 8 * n" "unat (of_nat (261 + 12 * n) :: u32) = 261 + 12 * n"
    "unat (of_nat (261 + 12 * n + length recs) :: u32) = 261 + 12 * n + length recs"
    "unat (of_nat (261 + 12 * n + length recs + length mb) :: u32) = 261 + 12 * n + length recs + length mb"
    "unat (of_nat (length mods) :: u32) = length mods"
    using n sz by (intro unat_of_nat_u32; simp)+
  have p: "0 < (of_nat (255 + 8 * n) :: u32)" "0 < (of_nat (261 + 12 * n + length recs + length mb) :: u32)"
    using u(2,6) by (simp_all only: word_less_nat_alt unsigned_0)
  have t: "lx_tables_image ?d 64 h ?f" unfolding lx_tables_image_def
    using at(5,6) n by (simp add: h linked_header_def u)
  have "has_at ?d (64 + (261 + 12 * n) + 0) recs" using at(9) by simp
  then have "fixup_pages_image ?d (64 + (261 + 12 * n)) (fixup_starts 0 fixups) (map (map link_record) fixups)"
    using fixup_starts_image [OF f7, of ?d "64 + (261 + 12 * n)" 0] sz by (simp add: recs_def)
  then have fx: "lx_fixups_image ?d 64 h ?f" unfolding lx_fixups_image_def
    using at(8) by (simp add: h linked_header_def u length_fixup_starts n del: of_nat_add of_nat_mult)
  have mbe: "concat (map enc_pstring mods) = mb" using md by (simp add: mb_def module_name_bytes_enc)
  have nm: "lx_names_image ?d 64 h [] [] ?f" unfolding lx_names_image_def
    using at(7,10) p md by (simp add: h linked_header_def u mbe
        del: of_nat_add of_nat_mult)
  have v: "header_valid h" using n by (simp add: header_valid_def h linked_header_def u)
  have sig: "lx_signature h = LX_SIGNATURE" by (simp add: h linked_header_def)
  have f: "lxf_header ?f = h" by simp
  have l: "64 \<le> length ?d" by (rule order_trans [OF _ at(3)]) simp
  show ?thesis unfolding lx_image_def Let_def at(1) hd
    by (intro conjI l at(2) at(3) sig v f t fx nm)
qed

lemma linked_pages_bytes:
  "concat (map (\<lambda>fs. concat (map encode_fixup fs)) (linked_pages w)) =
   concat (map (\<lambda>fs. concat (map encode_fixup fs)) (w_code_fixups w @ w_data_fixups w))"
  by (simp add: linked_pages_def)

lemma linked_image:
  assumes w: "writer_wf st w" and fit: "link_fits st w"
  shows "lx_image (assemble_lx st w code0 data0) [] [] (linked_file st w code0 data0)"
proof -
  have len: "length (linked_pages w) = code_pages st + data_pages st + 16" and f7: "fixups7 (linked_pages w)"
    using w by (auto simp: writer_wf_def linked_pages_def fixups7_def)
  note im = layout_image [OF _ len table_lengths(4,3,1,2) _ f7 _ refl, where mods = "w_imported w"]
  show ?thesis unfolding assemble_lx_layout linked_file_def Let_def
    by (rule im) (use fit in \<open>simp_all add: link_fits_def linked_pages_bytes\<close>)
qed

section \<open>The relocation loop\<close>

lemma push_fixup_wf:
  "length (push_fixup fixups rel ft) = length fixups"
  "fixups7 fixups \<Longrightarrow> fixups7 (push_fixup fixups rel ft)"
proof -
  show "length (push_fixup fixups rel ft) = length fixups" by (simp add: push_fixup_def Let_def)
  assume f7: "fixups7 fixups"
  define i where "i = unat (rel div LINK_PAGE_SIZE)"
  have "fixups7 (fixups[i := fixups ! i @ [lf]])" if "i < length fixups" "lf_source_type lf = 7" for lf
    using f7 that set_update_subset_insert [of fixups i] nth_mem [of i fixups]
    by (fastforce simp: fixups7_def)
  then show "fixups7 (push_fixup fixups rel ft)"
    using f7 by (simp add: push_fixup_def Let_def i_def)
qed

lemma resolve_reloc_fixups:
  "resolve_reloc objects st defs r w = (x, w') \<Longrightarrow>
    w_code_fixups w' = w_code_fixups w \<and> w_data_fixups w' = w_data_fixups w"
  by (auto simp: resolve_reloc_def get_or_insert_module_def Let_def
      split: reloc_target.splits option.splits)

lemma fixups7_append: "fixups7 (xs @ ys) \<longleftrightarrow> fixups7 xs \<and> fixups7 ys"
  by (auto simp: fixups7_def)

lemma reloc_step_wf:
  assumes "writer_wf st w"
  shows "writer_wf st (reloc_step objects st' defs is_code va w r)"
proof -
  obtain tv ft w1 where r: "resolve_reloc objects st' defs r w = ((tv, ft), w1)" by (metis surj_pair)
  have "writer_wf st w1" using assms resolve_reloc_fixups [OF r] by (simp add: writer_wf_def)
  then show ?thesis
    by (auto simp: reloc_step_def r writer_wf_def Let_def fixups7_append push_fixup_wf
        split: relocation_kind.splits option.splits)
qed

lemma reloc_all_wf: "writer_wf st (reloc_all objects st defs)"
proof -
  have "writer_wf st (reloc_section objects st defs w x)" if "writer_wf st w" for w x
    using that by (auto simp: reloc_section_def Let_def split: prod.splits option.splits
        intro!: foldl_inv [where P = "writer_wf st"] reloc_step_wf)
  then show ?thesis unfolding reloc_all_def
    by (intro foldl_inv [where P = "writer_wf st"]) (auto simp: writer_wf_def fixups7_def initial_writer_def)
qed

section \<open>The pages\<close>

lemma pad_to_page_length: "length (pad_to_page d) = (length d + 4095) div 4096 * 4096"
proof -
  define q r where "q = length d div 4096" and "r = length d mod 4096"
  have "length d = 4096 * q + r" "r < 4096" by (simp_all add: q_def r_def)
  moreover from this have "r \<noteq> 0 \<Longrightarrow> (length d + 4095) div 4096 = q + 1" "r = 0 \<Longrightarrow> (length d + 4095) div 4096 = q"
    by simp_all
  ultimately show ?thesis by (cases "r = 0") (simp_all add: pad_to_page_def Let_def r_def [symmetric])
qed

lemma align_to_16: "align_to v 16 = align_up v (2 ^ 4)"
proof -
  have "\<not> (2 ^ 4 :: u32) \<le> 1" "(2 ^ 4 :: u32) = 16" by code_simp+
  then show ?thesis by (simp add: align_to_def align_up_def)
qed

lemma pages_at:
  assumes w: "writer_wf st w" and fit: "link_fits st w"
  shows "has_at (assemble_lx st w code0 data0) (unat (data_pages_offset st w))
      (pad_to_page code0 @ pad_to_page data0 @ replicate 65536 0)"
proof -
  define n where "n = code_pages st + data_pages st + 16"
  define recs where "recs = concat (map (\<lambda>fs. concat (map encode_fixup fs)) (linked_pages w))"
  define mb where "mb = module_name_bytes (w_imported w)"
  define v where "v = 325 + 12 * n + length recs + length mb"
  have n: "n \<le> 65536" "length recs + length mb < 2 ^ 31"
    using fit by (simp_all add: n_def recs_def mb_def link_fits_def linked_pages_bytes)
  then have u: "unat (of_nat v :: u32) = v" by (intro unat_of_nat_u32) (simp add: v_def)
  have dpo: "data_pages_offset st w = align_up (of_nat v) (2 ^ 4)"
    by (simp only: data_pages_offset_def align_to_16 v_def n_def recs_def mb_def)
  have "v + 2 ^ 4 < 2 ^ 32" using n by (simp add: v_def)
  then have le: "v \<le> unat (data_pages_offset st w)"
    using align_up_spec(1) [of 4 "of_nat v"] unfolding dpo u by simp
  have pad: "unat (data_pages_offset st w - of_nat v) = unat (data_pages_offset st w) - v"
    using le u by (simp add: unat_minus_u32 word_le_nat_alt)
  have len: "length (linked_pages w) = n" using w by (simp add: writer_wf_def linked_pages_def n_def)
  have lf: "length (concat (map (le_bytes 4) (fixup_starts 0 (linked_pages w)))) = 4 * n + 4"
    by (simp add: length_le4 length_fixup_starts len)
  have pp: "has_at (assemble_lx st w code0 data0) v (padded_pages st w code0 data0)"
    unfolding assemble_lx_layout Let_def v_def recs_def mb_def n_def
    by (rule layout_places(11) [OF length_build_lx_header table_lengths(1,2)])
      (use lf in \<open>simp add: n_def\<close>)
  then have "has_at (assemble_lx st w code0 data0) (v + (unat (data_pages_offset st w) - v))
      (pad_to_page code0 @ pad_to_page data0 @ replicate 65536 0)"
    using pad unfolding padded_pages_def v_def recs_def mb_def n_def
    by (subst (asm) has_at_append_left) simp
  with le show ?thesis by simp
qed

end
