(* ===== verification/Link_Load.thy ===== *)
theory Link_Load
  imports Link_Image
begin

unbundle bit_operations_syntax

text \<open>
  From object files to a running image: an executable written by the linker
  (\<^verbatim>\<open>src/src/bin/lx_link.rs\<close>), parsed (\<^verbatim>\<open>src/src/lx.rs\<close>) and loaded (\<^verbatim>\<open>src/src/loader/lx_loader.rs\<close>), has
  its sections at the addresses the linker gave them, and every relocated word holds the address of
  its target.
\<close>

section \<open>Copying pages\<close>

lemma unat_page_addr:
  "unat base + k * 4096 \<le> 2 ^ 32 \<Longrightarrow> p < k \<Longrightarrow> unat ((base :: u32) + of_nat p * 4096) = unat base + p * 4096"
proof -
  assume a: "unat base + k * 4096 \<le> 2 ^ 32" "p < k"
  then have l: "unat base + p * 4096 < 2 ^ 32" by linarith
  have "base + of_nat p * 4096 = of_nat (unat base + p * 4096)" by simp
  then show ?thesis using unat_of_nat_u32 [OF l] by simp
qed

lemma load_pages:
  assumes sz: "unat base + k * 4096 \<le> gm_size m" "gm_size m \<le> 2 ^ 32"
    and pg: "\<And>p. p < k \<Longrightarrow> pg_data_size (pg p) = 4096 \<and> page_file_offset f (pg p) = d + p * 4096"
    and at: "has_at file d bytes" "length bytes = k * 4096"
  shows "foldl (load_page oob f file base) (m, None) (map (\<lambda>p. (p, pg p)) [0..<k]) =
    (gm_put m (unat base) bytes, None)"
proof -
  have "foldl (load_page oob f file base) (m, None) (map (\<lambda>p. (p, pg p)) [0..<j]) =
      (gm_put m (unat base) (take (j * 4096) bytes), None)" if "j \<le> k" for j
    using that
  proof (induction j)
    case (Suc j)
    let ?m = "gm_put m (unat base) (take (j * 4096) bytes)"
    have l: "length (take (j * 4096) bytes) = j * 4096" using at Suc.prems by simp
    have s: "gm_size ?m = gm_size m" using sz Suc.prems l by (intro gm_size_put) simp
    have u: "unat (base + of_nat j * 4096) = unat base + j * 4096"
      using sz Suc.prems by (intro unat_page_addr [of _ k]) auto
    have b: "unat base + j * 4096 + 4096 \<le> gm_size m" using sz Suc.prems by simp
    have pt: "ptr_at ?m (base + of_nat j * 4096) 4096 = Some (unat base + j * 4096)"
      using sz b by (simp add: ptr_at_Some s u)
    have data: "take 4096 (drop (d + j * 4096) file) = take 4096 (drop (j * 4096) bytes)"
    proof -
      have "take 4096 (drop (j * 4096) bytes) = take 4096 (drop (j * 4096) (take (length bytes) (drop d file)))"
        using at(1) by (simp add: has_at_def)
      also have "\<dots> = take 4096 (drop (d + j * 4096) file)"
        using at(2) Suc.prems by (simp add: drop_take min_def add.commute)
      finally show ?thesis by simp
    qed
    have dl: "length (take 4096 (drop (j * 4096) bytes)) = 4096" using at(2) Suc.prems by simp
    have "take (j * 4096) bytes @ take 4096 (drop (j * 4096) bytes) = take (Suc j * 4096) bytes"
      using take_add [of "j * 4096" 4096 bytes] by (simp add: add.commute)
    then have put: "gm_put ?m (unat base + j * 4096) (take 4096 (drop (j * 4096) bytes)) =
        gm_put m (unat base) (take (Suc j * 4096) bytes)"
      using gm_put_append [of "unat base" "take (j * 4096) bytes" "take 4096 (drop (j * 4096) bytes)" m] b l dl
      by simp
    have "load_page oob f file base (?m, None) (j, pg j) = (gm_put m (unat base) (take (Suc j * 4096) bytes), None)"
      using pg [of j] Suc.prems by (simp add: load_page_def Let_def pt read_into_def data dl [simplified] u put)
    then show ?case using Suc by simp
  qed simp
  from this [of k] show ?thesis using at(2) by simp
qed

section \<open>The loaded image\<close>

text \<open>The executable fits the fixed addresses: the code object ends below the data object, the data object
  below the stack, and no page consists of uninitialised data only.\<close>

definition link_loadable :: "linker_state \<Rightarrow> u8 list \<Rightarrow> u8 list \<Rightarrow> bool" where
  "link_loadable st code0 data0 \<longleftrightarrow>
    code_pages st \<le> 0x50 \<and> data_pages st \<le> 0x10 \<and>
    length (pad_to_page code0) = code_pages st * 4096 \<and> length (pad_to_page data0) = data_pages st * 4096"

definition linked_memory :: "guest_memory \<Rightarrow> u8 list \<Rightarrow> u8 list \<Rightarrow> guest_memory" where
  "linked_memory m code0 data0 =
    gm_put (gm_put (gm_put m 0x10000 (pad_to_page code0)) 0x60000 (pad_to_page data0)) 0x70000 (replicate 65536 0)"

definition link_bases :: "u32 list" where
  "link_bases = [0x10000, 0x60000, 0x70000]"

lemma page_record_size:
  assumes "length data = k * 4096" "pi < k"
  shows "pg_data_size (page_record data first pi) = 4096"
proof -
  have "min ((pi + 1) * 4096) (length data) = pi * 4096 + 4096" using assms by (simp add: min_def)
  then show ?thesis by (simp add: page_record_def)
qed

lemma page_offset_of:
  assumes "lx_page_offset_shift (lxf_header f) = 0" "first + pi < 2 ^ 16"
    and "pg_data_offset pg = of_nat (first + pi) * 4096"
  shows "page_file_offset f pg = unat (lx_data_pages_offset (lxf_header f)) + (first + pi) * 4096"
proof -
  have "(of_nat (first + pi) * 4096 :: u32) = of_nat ((first + pi) * 4096)" by simp
  moreover have "unat (of_nat ((first + pi) * 4096) :: u32) = (first + pi) * 4096"
    using assms(2) by (intro unat_of_nat_u32) simp
  ultimately have "unat (pg_data_offset pg) = (first + pi) * 4096" using assms(3) by metis
  moreover have "unat (ucast a + ucast b :: u64) = unat a + unat b" for a b :: u32
  proof -
    have "unat a + unat b < 18446744073709551616" "unat a < 18446744073709551616" "unat b < 18446744073709551616"
      using unat_u32_lt [of a] unat_u32_lt [of b] by linarith+
    then show ?thesis by (simp add: unat_word_ariths unsigned_ucast_eq take_bit_eq_mod)
  qed
  ultimately show ?thesis using assms(1) by (simp add: page_file_offset_def)
qed

lemma linked_page_lists:
  assumes "code_pages st + data_pages st \<le> 65520"
  shows "object_page_list (linked_file st w code0 data0) (lxf_object_table (linked_file st w code0 data0) ! 0) =
      map (\<lambda>p. (p, page_record (pad_to_page code0) 0 p)) [0..<code_pages st]"
    and "object_page_list (linked_file st w code0 data0) (lxf_object_table (linked_file st w code0 data0) ! 1) =
      map (\<lambda>p. (p, page_record (pad_to_page data0) (code_pages st) p)) [0..<data_pages st]"
    and "object_page_list (linked_file st w code0 data0) (lxf_object_table (linked_file st w code0 data0) ! 2) =
      map (\<lambda>p. (p, stack_page_record (code_pages st + data_pages st) p)) [0..<16]"
proof -
  define cp dp where "cp = code_pages st" and "dp = data_pages st"
  have c: "unat (of_nat cp :: u32) = cp" "unat (of_nat dp :: u32) = dp"
    "unat (of_nat (cp + 1) :: u32) = cp + 1" "unat (of_nat (cp + dp + 1) :: u32) = cp + dp + 1"
    using assms by (intro unat_of_nat_u32; simp add: cp_def dp_def)+
  have pm: "lxf_page_map (linked_file st w code0 data0) = map (page_record (pad_to_page code0) 0) [0..<cp] @
      map (page_record (pad_to_page data0) cp) [0..<dp] @ map (stack_page_record (cp + dp)) [0..<16]"
    by (simp add: linked_file_def Let_def linked_page_map_def cp_def dp_def)
  have o: "lxf_object_table (linked_file st w code0 data0) = linked_objects
      (of_nat (length (pad_to_page code0)) + ms_bss_size (lk_code_section st))
      (of_nat (length (pad_to_page data0)) + ms_bss_size (lk_data_section st)) cp dp"
    by (simp add: linked_file_def Let_def cp_def dp_def)
  have s: "obj_page_start (lxf_object_table (linked_file st w code0 data0) ! 0) = 0"
    "obj_page_start (lxf_object_table (linked_file st w code0 data0) ! 1) = cp"
    "obj_page_start (lxf_object_table (linked_file st w code0 data0) ! 2) = cp + dp"
    using c(3,4) by (simp_all add: o linked_objects_def obj_page_start_def add.commute)
  have n: "unat (obj_page_count (lxf_object_table (linked_file st w code0 data0) ! 0)) = cp"
    "unat (obj_page_count (lxf_object_table (linked_file st w code0 data0) ! 1)) = dp"
    "unat (obj_page_count (lxf_object_table (linked_file st w code0 data0) ! 2)) = 16"
    using c(1,2) by (simp_all add: o linked_objects_def)
  show "object_page_list (linked_file st w code0 data0) (lxf_object_table (linked_file st w code0 data0) ! 0) =
      map (\<lambda>p. (p, page_record (pad_to_page code0) 0 p)) [0..<code_pages st]"
    unfolding object_page_list_def obj_pages_def s n pm by (auto simp: nth_append cp_def [symmetric])
  show "object_page_list (linked_file st w code0 data0) (lxf_object_table (linked_file st w code0 data0) ! 1) =
      map (\<lambda>p. (p, page_record (pad_to_page data0) (code_pages st) p)) [0..<data_pages st]"
    unfolding object_page_list_def obj_pages_def s n pm by (auto simp: nth_append cp_def [symmetric] dp_def [symmetric])
  show "object_page_list (linked_file st w code0 data0) (lxf_object_table (linked_file st w code0 data0) ! 2) =
      map (\<lambda>p. (p, stack_page_record (code_pages st + data_pages st) p)) [0..<16]"
    unfolding object_page_list_def obj_pages_def s n pm by (auto simp: nth_append cp_def [symmetric] dp_def [symmetric])
qed

lemma linked_header_fields:
  "lx_page_offset_shift (lxf_header (linked_file st w code0 data0)) = 0"
  "lx_data_pages_offset (lxf_header (linked_file st w code0 data0)) = data_pages_offset st w"
  by (simp_all add: linked_file_def Let_def linked_header_def)

lemma linked_objects_loaded:
  assumes w: "writer_wf st w" and fit: "link_fits st w" and ld: "link_loadable st code0 data0"
    and sz: "0x80000 \<le> gm_size m" "gm_size m \<le> 2 ^ 32"
  shows "load_objects oob (linked_file st w code0 data0) (assemble_lx st w code0 data0) link_bases m =
    (linked_memory m code0 data0, None)"
proof -
  let ?f = "linked_file st w code0 data0" and ?file = "assemble_lx st w code0 data0"
  define cp dp where "cp = code_pages st" and "dp = data_pages st"
  define d where "d = unat (data_pages_offset st w)"
  note pg = pages_at [OF w fit, of code0 data0, folded d_def]
  have lc: "length (pad_to_page code0) = cp * 4096" "length (pad_to_page data0) = dp * 4096"
    and le: "cp \<le> 0x50" "dp \<le> 0x10" using ld by (simp_all add: link_loadable_def cp_def dp_def)
  have at: "has_at ?file d (pad_to_page code0)" "has_at ?file (d + cp * 4096) (pad_to_page data0)"
    "has_at ?file (d + (cp + dp) * 4096) (replicate 65536 0)"
    using pg by (simp_all add: has_at_append_left lc add.assoc algebra_simps)
  note fo = page_offset_of [where f = ?f, OF linked_header_fields(1), unfolded linked_header_fields(2), folded d_def]
  have pr: "page_file_offset ?f (page_record x fst1 p) = d + (fst1 + p) * 4096"
    if "fst1 + p < 2 ^ 16" for x fst1 p
    by (rule fo) (use that in \<open>simp_all add: page_record_def\<close>)
  have sr: "page_file_offset ?f (stack_page_record fst1 p) = d + (fst1 + p) * 4096"
    if "fst1 + p < 2 ^ 16" for fst1 p
    by (rule fo) (use that in \<open>simp_all add: stack_page_record_def\<close>)
  have ub: "unat (0x10000 :: u32) = 0x10000" "unat (0x60000 :: u32) = 0x60000" "unat (0x70000 :: u32) = 0x70000"
    using unat_of_nat_u32 [of "0x10000"] unat_of_nat_u32 [of "0x60000"] unat_of_nat_u32 [of "0x70000"]
    by simp_all
  have 1: "foldl (load_page oob ?f ?file 0x10000) (m, None) (map (\<lambda>p. (p, page_record (pad_to_page code0) 0 p)) [0..<cp])
      = (gm_put m (unat (0x10000 :: u32)) (pad_to_page code0), None)"
  proof (rule load_pages [OF _ sz(2) _ at(1) lc(1)])
    show "unat (0x10000 :: u32) + cp * 4096 \<le> gm_size m" unfolding ub using le sz(1) by linarith
    fix p assume "p < cp"
    with le(1) show "pg_data_size (page_record (pad_to_page code0) 0 p) = 4096 \<and>
        page_file_offset ?f (page_record (pad_to_page code0) 0 p) = d + p * 4096"
      using page_record_size [OF lc(1)] pr [of 0 p] by simp
  qed
  let ?m1 = "gm_put m 0x10000 (pad_to_page code0)"
  have s1: "gm_size ?m1 = gm_size m" using sz lc le by (intro gm_size_put) simp
  have 2: "foldl (load_page oob ?f ?file 0x60000) (?m1, None) (map (\<lambda>p. (p, page_record (pad_to_page data0) cp p)) [0..<dp])
      = (gm_put ?m1 (unat (0x60000 :: u32)) (pad_to_page data0), None)"
  proof (rule load_pages [OF _ _ _ at(2) lc(2)])
    show "unat (0x60000 :: u32) + dp * 4096 \<le> gm_size ?m1" unfolding ub s1 using le sz(1) by linarith
    show "gm_size ?m1 \<le> 2 ^ 32" unfolding s1 by (rule sz)
    fix p assume "p < dp"
    with le show "pg_data_size (page_record (pad_to_page data0) cp p) = 4096 \<and>
        page_file_offset ?f (page_record (pad_to_page data0) cp p) = d + cp * 4096 + p * 4096"
      using page_record_size [OF lc(2)] pr [of cp p] by simp
  qed
  let ?m2 = "gm_put ?m1 0x60000 (pad_to_page data0)"
  have s2: "gm_size ?m2 = gm_size m" using sz lc le s1 by (subst gm_size_put) simp_all
  have 3: "foldl (load_page oob ?f ?file 0x70000) (?m2, None) (map (\<lambda>p. (p, stack_page_record (cp + dp) p)) [0..<16])
      = (gm_put ?m2 (unat (0x70000 :: u32)) (replicate 65536 0), None)"
  proof (rule load_pages [OF _ _ _ at(3)])
    show "unat (0x70000 :: u32) + 16 * 4096 \<le> gm_size ?m2" unfolding ub s2 using sz(1) by linarith
    show "gm_size ?m2 \<le> 2 ^ 32" unfolding s2 by (rule sz)
    show "length (replicate 65536 (0 :: u8)) = 16 * 4096" by simp
    fix p :: nat assume "p < 16"
    with le show "pg_data_size (stack_page_record (cp + dp) p) = 4096 \<and>
        page_file_offset ?f (stack_page_record (cp + dp) p) = d + (cp + dp) * 4096 + p * 4096"
      using sr [of "cp + dp" p] by (simp add: stack_page_record_def)
  qed
  have bound: "code_pages st + data_pages st \<le> 65520" using le by (simp add: cp_def dp_def)
  have z: "zip link_bases (lxf_object_table ?f) = [(0x10000, lxf_object_table ?f ! 0),
      (0x60000, lxf_object_table ?f ! 1), (0x70000, lxf_object_table ?f ! 2)]"
    by (simp add: link_bases_def linked_file_def Let_def linked_objects_def)
  show ?thesis
    unfolding load_objects_def z using 1 2 3 unfolding ub
    by (simp add: linked_page_lists [OF bound] cp_def dp_def linked_memory_def del: One_nat_def)
qed

section \<open>Applying the fixups\<close>

text \<open>A fixup record of the linker as a store: where it is applied and the address it stands for.\<close>

definition fixup_value :: "dll_manager \<Rightarrow> ustring list \<Rightarrow> link_target \<Rightarrow> u64" where
  "fixup_value dlls mods t =
    (case t of
       LInternal n off \<Rightarrow> if n \<noteq> 0 \<and> unat n \<le> 3 then ucast (link_bases ! (unat n - 1)) + ucast off else 0
     | LExternalOrdinal n ord \<Rightarrow>
         resolve_import dlls (if n \<noteq> 0 \<and> unat n \<le> length mods then mods ! (unat n - 1) else []) ord)"

definition page_sites :: "u32 \<Rightarrow> nat \<Rightarrow> link_fixup list \<Rightarrow> (u32 \<times> link_target) list" where
  "page_sites base p fs = map (\<lambda>fx. (base + of_nat p * 4096 + ucast (lf_source_offset fx), lf_target fx)) fs"

definition object_sites :: "u32 \<Rightarrow> link_fixup list list \<Rightarrow> (u32 \<times> link_target) list" where
  "object_sites base pages = concat (map (\<lambda>p. page_sites base p (pages ! p)) [0..<length pages])"

definition site_store :: "dll_manager \<Rightarrow> ustring list \<Rightarrow> guest_memory \<Rightarrow> u32 \<times> link_target \<Rightarrow> guest_memory option" where
  "site_store dlls mods m x =
    (case x of (a, t) \<Rightarrow>
      if fixup_value dlls mods t = 0 then Some m else gm_write m a (ucast (fixup_value dlls mods t) :: u32))"

lemma ucast_source_addr: "ucast (source_addr base p off) = base + of_nat p * 4096 + (ucast off :: u32)"
proof -
  have "(of_nat p * 4096 :: u64) = of_nat (p * 4096)" by simp
  moreover have "(ucast (of_nat n :: u64) :: u32) = of_nat n" for n
    by (intro bit_word_eqI) (auto simp: bit_simps)
  moreover have "(of_nat (p * 4096) :: u32) = of_nat p * 4096" by simp
  moreover have "(ucast (ucast base :: u64) :: u32) = base" "(ucast (ucast off :: u64) :: u32) = ucast off"
    by (intro bit_word_eqI; auto simp: bit_simps dest: bit_imp_le_length)+
  ultimately show ?thesis by (simp only: source_addr_def ucast_arith_down)
qed

lemma link_target_addr:
  assumes "lxf_imported_modules f = mods"
  shows "fixup_target_addr dlls f link_bases (fx_target (link_record fx)) = fixup_value dlls mods (lf_target fx)"
proof -
  have z: "(ucast n :: u16) \<noteq> 0 \<and> unat n - 1 < k \<longleftrightarrow> n \<noteq> 0 \<and> unat n \<le> k" for n :: u8 and k
  proof -
    have "(ucast n :: u16) = 0 \<longleftrightarrow> n = 0" using ucast_u8_u16(1) [of n] by (metis ucast_0)
    moreover have "n \<noteq> 0 \<Longrightarrow> 0 < unat n" by (simp add: unat_gt_0)
    ultimately show ?thesis by auto
  qed
  have l: "length link_bases = 3" by (simp add: link_bases_def)
  show ?thesis
  proof (cases "lf_target fx")
    case (LInternal n off)
    then show ?thesis by (simp only: fixup_target_addr_def link_record_def fixup_value_def z l
          link_target.simps fixup_target.simps lx_fixup_record.simps ucast_u8_u16)
  next
    case (LExternalOrdinal n ord)
    then show ?thesis by (simp only: fixup_target_addr_def link_record_def fixup_value_def z imported_module_def
          assms link_target.simps fixup_target.simps lx_fixup_record.simps ucast_u8_u16)
  qed
qed

lemma apply_link_record:
  assumes "lxf_imported_modules f = mods" "lf_source_type fx = 7"
  shows "apply_record dlls f link_bases base p m (link_record fx) =
    site_store dlls mods m (base + of_nat p * 4096 + ucast (lf_source_offset fx), lf_target fx)"
proof -
  have "fx_source_type (link_record fx) = 7" "fx_source_offsets (link_record fx) = [lf_source_offset fx]"
    using assms(2) by (simp_all add: link_record_def)
  then show ?thesis
    by (simp add: apply_record_def Let_def link_target_addr [OF assms(1)] site_store_def apply_source_def
        ucast_source_addr bind_def split: option.splits)
qed

lemma ofold_map: "ofold f s (map g xs) = ofold (\<lambda>s x. f s (g x)) s xs"
  by (induction xs arbitrary: s) (auto intro: Option.bind_cong)

lemma ofold_concat: "ofold f s (concat xss) = ofold (\<lambda>s xs. ofold f s xs) s xss"
  by (induction xss arbitrary: s) (simp_all add: ofold_append)

lemma ofold_cong: "(\<And>s x. x \<in> set xs \<Longrightarrow> f s x = g s x) \<Longrightarrow> ofold f s xs = ofold g s xs"
  by (induction xs arbitrary: s) (auto intro!: Option.bind_cong)

lemma apply_link_object:
  assumes "lxf_imported_modules f = mods" "fixups7 pages"
    and "lxf_fixup_records_by_page f = pre @ map (map link_record) pages @ post"
  shows "ofold (\<lambda>m p. ofold (apply_record dlls f link_bases base p) m
        (lxf_fixup_records_by_page f ! (length pre + p))) m [0..<length pages] =
    ofold (site_store dlls mods) m (object_sites base pages)"
  unfolding object_sites_def ofold_concat ofold_map
proof (rule ofold_cong)
  fix m p assume "p \<in> set [0..<length pages]"
  then have p: "p < length pages" by simp
  then have r: "lxf_fixup_records_by_page f ! (length pre + p) = map link_record (pages ! p)"
    by (simp add: assms(3) nth_append)
  have "\<forall>fx\<in>set (pages ! p). lf_source_type fx = 7" using assms(2) p by (auto simp: fixups7_def)
  then show "ofold (apply_record dlls f link_bases base p) m (lxf_fixup_records_by_page f ! (length pre + p)) =
      ofold (site_store dlls mods) m (page_sites base p (pages ! p))"
    unfolding r page_sites_def ofold_map by (intro ofold_cong) (simp add: apply_link_record [OF assms(1)])
qed

lemma linked_fixups:
  assumes w: "writer_wf st w" and fit: "link_fits st w"
  shows "apply_fixups dlls (linked_file st w code0 data0) link_bases m =
    ofold (site_store dlls (w_imported w)) m
      (object_sites 0x10000 (w_code_fixups w) @ object_sites 0x60000 (w_data_fixups w))"
proof -
  let ?f = "linked_file st w code0 data0"
  define cp dp where "cp = code_pages st" and "dp = data_pages st"
  have l: "length (w_code_fixups w) = cp" "length (w_data_fixups w) = dp"
    and f7: "fixups7 (w_code_fixups w)" "fixups7 (w_data_fixups w)"
    using w by (simp_all add: writer_wf_def cp_def dp_def fixups7_append)
  have c: "unat (of_nat cp :: u32) = cp" "unat (of_nat dp :: u32) = dp"
    "unat (of_nat (cp + 1) :: u32) = cp + 1" "unat (of_nat (cp + dp + 1) :: u32) = cp + dp + 1"
    using fit by (intro unat_of_nat_u32; simp add: cp_def dp_def link_fits_def)+
  have r: "lxf_fixup_records_by_page ?f =
      map (map link_record) (w_code_fixups w) @ map (map link_record) (w_data_fixups w) @ replicate 16 []"
    by (simp add: linked_file_def Let_def linked_pages_def)
  have im: "lxf_imported_modules ?f = w_imported w" by (simp add: linked_file_def Let_def)
  have u16: "unat (16 :: u32) = 16" by code_simp
  obtain o1 o2 o3 where t: "lxf_object_table ?f = [o1, o2, o3]"
    and s: "obj_page_start o1 = 0" "obj_page_start o2 = cp" "obj_page_start o3 = cp + dp"
      "unat (obj_page_count o1) = cp" "unat (obj_page_count o2) = dp" "unat (obj_page_count o3) = 16"
    using c u16 by (simp add: linked_file_def Let_def linked_objects_def obj_page_start_def cp_def dp_def
        add.commute del: unsigned_numeral)
  have pg: "obj_pages o1 (length (lxf_fixup_records_by_page ?f)) = [0..<length (w_code_fixups w)]"
    "obj_pages o2 (length (lxf_fixup_records_by_page ?f)) = [0..<length (w_data_fixups w)]"
    "obj_pages o3 (length (lxf_fixup_records_by_page ?f)) = [0..<16]"
    by (simp_all add: obj_pages_def s r l)
  have 1: "ofold (\<lambda>m p. ofold (apply_record dlls ?f link_bases 0x10000 p) m
        (lxf_fixup_records_by_page ?f ! (obj_page_start o1 + p))) m [0..<length (w_code_fixups w)] =
      ofold (site_store dlls (w_imported w)) m (object_sites 0x10000 (w_code_fixups w))" for m
    using apply_link_object [OF im f7(1), of "[]"] r by (simp add: s)
  have 2: "ofold (\<lambda>m p. ofold (apply_record dlls ?f link_bases 0x60000 p) m
        (lxf_fixup_records_by_page ?f ! (obj_page_start o2 + p))) m [0..<length (w_data_fixups w)] =
      ofold (site_store dlls (w_imported w)) m (object_sites 0x60000 (w_data_fixups w))" for m
    using apply_link_object [OF im f7(2), of "map (map link_record) (w_code_fixups w)"] r by (simp add: s l)
  have "ofold (\<lambda>m p. ofold (apply_record dlls ?f link_bases 0x70000 p) m
        (lxf_fixup_records_by_page ?f ! (obj_page_start o3 + p))) m [0..<16] =
      ofold (\<lambda>m p. Some m) m [0..<16]" for m
    by (rule ofold_cong) (simp add: r s nth_append l)
  moreover have "ofold (\<lambda>m p. Some m) m xs = Some m" for m :: guest_memory and xs :: "nat list"
    by (induction xs) auto
  ultimately have 3: "ofold (\<lambda>m p. ofold (apply_record dlls ?f link_bases 0x70000 p) m
        (lxf_fixup_records_by_page ?f ! (obj_page_start o3 + p))) m [0..<16] = Some m" for m
    by metis
  have z: "zip link_bases [o1, o2, o3] = [(0x10000, o1), (0x60000, o2), (0x70000, o3)]"
    by (simp add: link_bases_def)
  show ?thesis
    unfolding apply_fixups_def t z by (simp add: pg 1 2 3 ofold_append del: upt_conv_Cons)
qed

section \<open>Stores to disjoint words\<close>

definition apart :: "u32 \<Rightarrow> u32 \<Rightarrow> bool" where
  "apart a b \<longleftrightarrow> unat a + 4 \<le> unat b \<or> unat b + 4 \<le> unat a"

lemma apart_commute: "apart a b \<longleftrightarrow> apart b a"
  by (auto simp: apart_def)

lemma size_of_u32 [simp]: "size_of TYPE(32) = 4"
  by (simp add: size_of_def)

lemma site_stores:
  assumes "sorted_wrt apart (map fst sites)" "\<forall>x\<in>set sites. unat (fst x) + 4 \<le> gm_size m" "gm_size m \<le> 2 ^ 32"
  shows "\<exists>m'. ofold (site_store dlls mods) m sites = Some m' \<and> gm_size m' = gm_size m \<and>
    (\<forall>(a, t)\<in>set sites. fixup_value dlls mods t \<noteq> 0 \<longrightarrow> gm_read m' a = Some (ucast (fixup_value dlls mods t) :: u32)) \<and>
    (\<forall>b. (\<forall>x\<in>set sites. apart (fst x) b) \<longrightarrow> gm_read m' b = (gm_read m b :: u32 option))"
  using assms
proof (induction sites arbitrary: m)
  case (Cons x sites)
  obtain a t where x: "x = (a, t)" by (cases x)
  let ?v = "ucast (fixup_value dlls mods t) :: u32"
  have ap: "sorted_wrt apart (map fst sites)" "\<forall>y\<in>set sites. apart a (fst y)"
    using Cons.prems(1) by (auto simp: x)
  obtain m1 where m1: "site_store dlls mods m x = Some m1" "gm_size m1 = gm_size m"
    and rd: "fixup_value dlls mods t \<noteq> 0 \<Longrightarrow> gm_read m1 a = Some ?v"
    and fr: "\<And>b. apart a b \<Longrightarrow> gm_read m1 b = (gm_read m b :: u32 option)"
  proof (cases "fixup_value dlls mods t = 0")
    case True
    then show thesis using that [of m] by (simp add: site_store_def x)
  next
    case False
    obtain m' where w: "gm_write m a ?v = Some m'"
      using Cons.prems(2) gm_write_ok [of a m ?v] by (auto simp: x)
    show thesis
      using that [of m'] False w gm_write_size [OF w] gm_write_same [OF w] gm_write_other [OF w, where ?'b = 32]
      by (auto simp: site_store_def x apart_def)
  qed
  obtain m' where m': "ofold (site_store dlls mods) m1 sites = Some m'" "gm_size m' = gm_size m"
    "\<forall>(a, t)\<in>set sites. fixup_value dlls mods t \<noteq> 0 \<longrightarrow> gm_read m' a = Some (ucast (fixup_value dlls mods t) :: u32)"
    "\<And>b. (\<forall>x\<in>set sites. apart (fst x) b) \<Longrightarrow> gm_read m' b = (gm_read m1 b :: u32 option)"
    using Cons.IH [of m1] ap(1) Cons.prems m1(2) by auto
  have "gm_read m' a = (gm_read m1 a :: u32 option)" using m'(4) ap(2) apart_commute by blast
  then show ?case using m' rd fr m1 by (auto simp: x)
qed simp

section \<open>Every relocation has its record\<close>

definition link_sites :: "link_writer \<Rightarrow> (u32 \<times> link_target) list" where
  "link_sites w = object_sites 0x10000 (w_code_fixups w) @ object_sites 0x60000 (w_data_fixups w)"

text \<open>The pages of the records are in range and the offsets within the page.\<close>

definition offsets_in_page :: "link_fixup list list \<Rightarrow> bool" where
  "offsets_in_page pages \<longleftrightarrow> (\<forall>fs\<in>set pages. \<forall>fx\<in>set fs. unat (lf_source_offset fx) < 4096)"

lemma object_sites_mem:
  "(a, t) \<in> set (object_sites base pages) \<longleftrightarrow>
    (\<exists>p < length pages. \<exists>fx\<in>set (pages ! p). a = base + of_nat p * 4096 + ucast (lf_source_offset fx) \<and> t = lf_target fx)"
  by (auto simp: object_sites_def page_sites_def)

lemma push_fixup_sites:
  assumes "unat (rel div LINK_PAGE_SIZE) < length fixups"
  shows "(base + rel, ft) \<in> set (object_sites base (push_fixup fixups rel ft))"
proof -
  define i where "i = unat (rel div LINK_PAGE_SIZE)"
  have "rel = (rel div 4096) * 4096 + rel mod 4096" by (simp add: word_mod_div_equality)
  moreover have "(of_nat i :: u32) = rel div 4096" by (simp add: i_def LINK_PAGE_SIZE_def)
  moreover have "ucast (ucast (rel mod 4096) :: u16) = rel mod 4096"
  proof -
    have "unat (rel mod 4096) < 4096" by (simp add: unat_mod)
    then show ?thesis by (simp only: word_unat_eq_iff) (simp add: unsigned_ucast_eq take_bit_eq_mod unat_mod)
  qed
  ultimately have "base + rel = base + of_nat i * 4096 + ucast (ucast (rel mod 4096) :: u16)"
    by (simp add: add.assoc)
  then show ?thesis using assms
    by (auto simp: object_sites_mem push_fixup_def Let_def LINK_PAGE_SIZE_def i_def intro!: exI [of _ i])
qed

lemma push_fixup_mono: "set (object_sites base fixups) \<subseteq> set (object_sites base (push_fixup fixups rel ft))"
proof
  fix x assume "x \<in> set (object_sites base fixups)"
  then obtain p fx where p: "p < length fixups" "fx \<in> set (fixups ! p)"
    and x: "x = (base + of_nat p * 4096 + ucast (lf_source_offset fx), lf_target fx)"
    by (metis object_sites_mem surj_pair)
  have "p < length (push_fixup fixups rel ft)" "fx \<in> set (push_fixup fixups rel ft ! p)"
    using p by (auto simp: push_fixup_def Let_def nth_list_update)
  then show "x \<in> set (object_sites base (push_fixup fixups rel ft))"
    unfolding x object_sites_mem by blast
qed

lemma push_fixup_offsets: "offsets_in_page fixups \<Longrightarrow> offsets_in_page (push_fixup fixups rel ft)"
proof -
  assume o: "offsets_in_page fixups"
  define i where "i = unat (rel div LINK_PAGE_SIZE)"
  have "unat (rel mod 4096) < 4096" by (simp add: unat_mod)
  then have "unat (ucast (rel mod 4096) :: u16) < 4096"
    by (simp add: unsigned_ucast_eq take_bit_eq_mod)
  then have "offsets_in_page (fixups[i := fixups ! i @ [\<lparr> lf_source_type = 7, lf_source_offset = ucast (rel mod 4096),
      lf_target = ft \<rparr>]])" if "i < length fixups"
    using o that set_update_subset_insert [of fixups i] nth_mem [of i fixups]
    by (fastforce simp: offsets_in_page_def)
  then show ?thesis using o by (simp add: push_fixup_def Let_def i_def LINK_PAGE_SIZE_def)
qed

text \<open>What the table of imported modules promises: an index that was handed out names its module.\<close>

definition modules_ok :: "link_writer \<Rightarrow> bool" where
  "modules_ok w \<longleftrightarrow> (\<forall>name idx. w_module_map w name = Some idx \<longrightarrow>
     (\<exists>i < length (w_imported w). w_imported w ! i = name \<and> idx = of_nat (i + 1)))"

definition offsets_ok :: "link_writer \<Rightarrow> bool" where
  "offsets_ok w \<longleftrightarrow> offsets_in_page (w_code_fixups w) \<and> offsets_in_page (w_data_fixups w)"

text \<open>One step of the loop only adds: sites and modules stay.\<close>

definition extends :: "link_writer \<Rightarrow> link_writer \<Rightarrow> bool" where
  "extends w w' \<longleftrightarrow>
    set (object_sites 0x10000 (w_code_fixups w)) \<subseteq> set (object_sites 0x10000 (w_code_fixups w')) \<and>
    set (object_sites 0x60000 (w_data_fixups w)) \<subseteq> set (object_sites 0x60000 (w_data_fixups w')) \<and>
    (\<exists>ms. w_imported w' = w_imported w @ ms)"

lemma extends_refl [simp]: "extends w w"
  by (simp add: extends_def)

lemma extends_trans: "extends a b \<Longrightarrow> extends b c \<Longrightarrow> extends a c"
  by (auto simp: extends_def)

lemma get_or_insert_module_spec:
  assumes "modules_ok w" "get_or_insert_module name w = (idx, w')"
  shows "modules_ok w'" "\<exists>i < length (w_imported w'). w_imported w' ! i = name \<and> idx = of_nat (i + 1)"
    "extends w w'"
  using assms by (fastforce simp: get_or_insert_module_def modules_ok_def extends_def Let_def nth_append
      split: option.splits if_splits)+

lemma resolve_reloc_spec:
  assumes "modules_ok w" "resolve_reloc objects st defs r w = (x, w')"
  shows "modules_ok w' \<and> extends w w'"
  using assms get_or_insert_module_spec(1,3) [OF assms(1)]
  by (auto simp: resolve_reloc_def split: reloc_target.splits option.splits prod.splits)

definition step_ok :: "link_writer \<Rightarrow> bool" where
  "step_ok w \<longleftrightarrow> modules_ok w \<and> offsets_ok w"

lemma reloc_step_ok:
  assumes "step_ok w"
  shows "step_ok (reloc_step objects st defs is_code va w r) \<and> extends w (reloc_step objects st defs is_code va w r)"
proof -
  obtain tv ft w1 where r: "resolve_reloc objects st defs r w = ((tv, ft), w1)" by (metis surj_pair)
  have 1: "modules_ok w1" "extends w w1" using resolve_reloc_spec [OF _ r] assms by (auto simp: step_ok_def)
  have 2: "offsets_ok w1" using resolve_reloc_fixups [OF r] assms by (simp add: step_ok_def offsets_ok_def)
  have "step_ok (reloc_step objects st defs is_code va w r)" using 1 2
    by (auto simp: reloc_step_def r step_ok_def modules_ok_def offsets_ok_def Let_def push_fixup_offsets
        split: relocation_kind.splits option.splits)
  moreover have "extends w1 (reloc_step objects st defs is_code va w r)"
    using push_fixup_mono
    by (auto simp: reloc_step_def r extends_def Let_def split: relocation_kind.splits option.splits)
  ultimately show ?thesis using 1(2) extends_trans by blast
qed

lemma foldl_steps_ok:
  assumes "\<And>w x. step_ok w \<Longrightarrow> step_ok (f w x) \<and> extends w (f w x)" "step_ok w"
  shows "step_ok (foldl f w xs) \<and> extends w (foldl f w xs)"
  using assms(2)
proof (induction xs arbitrary: w)
  case (Cons x xs)
  with assms(1) [of w x] show ?case using extends_trans by fastforce
qed simp

lemma reloc_section_ok:
  assumes "step_ok w"
  shows "step_ok (reloc_section objects st defs w x) \<and> extends w (reloc_section objects st defs w x)"
  using assms reloc_step_ok
  by (auto simp: reloc_section_def Let_def split: prod.splits option.splits
      intro: foldl_steps_ok [THEN conjunct1] foldl_steps_ok [THEN conjunct2])

lemma reloc_all_ok: "step_ok (reloc_all objects st defs)"
proof -
  have *: "step_ok (foldl (reloc_section objects st defs) w0 (indexed_sections objects))" if "step_ok w0" for w0
    using foldl_steps_ok [where f = "reloc_section objects st defs"] reloc_section_ok that by blast
  show ?thesis unfolding reloc_all_def
    by (rule *) (simp add: initial_writer_def step_ok_def modules_ok_def offsets_ok_def offsets_in_page_def)
qed

text \<open>The address \<^verbatim>\<open>resolve_reloc\<close> computes; the writer does not matter for it.\<close>

definition reloc_va :: "elf_object list \<Rightarrow> linker_state \<Rightarrow> def_map \<Rightarrow> reloc \<Rightarrow> u32" where
  "reloc_va objects st defs r = fst (fst (resolve_reloc objects st defs r
     \<lparr> w_module_map = Map.empty, w_imported = [], w_code_fixups = [], w_data_fixups = [],
       w_code_patches = [], w_data_patches = [], w_code_patches_i32 = [] \<rparr>))"

lemma reloc_va_any: "fst (fst (resolve_reloc objects st defs r w)) = reloc_va objects st defs r"
  by (auto simp: reloc_va_def resolve_reloc_def split: reloc_target.splits option.splits prod.splits)

definition LINK_MODULES :: "ustring list" where
  "LINK_MODULES = [ustr ''DOSCALLS'', ustr ''QUECALLS'', ustr ''PMWIN'', ustr ''PMGPI'', ustr ''KBDCALLS'',
     ustr ''VIOCALLS'', ustr ''SESMGR'', ustr ''NLS'', ustr ''MSG'', ustr ''MDM'', ustr ''UCONV'']"

definition known_target :: "linker_state \<Rightarrow> def_map \<Rightarrow> reloc \<Rightarrow> bool" where
  "known_target st defs r \<longleftrightarrow>
    (case rl_target r of
       RtSymbol name \<Rightarrow> lk_symbol_table st name = None \<longrightarrow>
         (case defs name of Some (md, _) \<Rightarrow> md \<in> set LINK_MODULES | None \<Rightarrow> True)
     | RtSection _ \<Rightarrow> True)"

text \<open>The linker's table of API modules agrees with the loader's.\<close>

lemma resolve_imports_agree:
  assumes "md \<in> set LINK_MODULES"
  shows "ucast (resolve_import dlls md ordinal) = link_resolve_import md ordinal" "resolve_import dlls md ordinal \<noteq> 0"
proof -
  have nz: "(c :: u64) + ucast ordinal \<noteq> 0" if "0 < unat c" "unat c < 2 ^ 32" for c
  proof -
    have u: "unat (ucast ordinal :: u64) = unat ordinal"
      using less_trans [OF unat_u32_lt [of ordinal], of "2 ^ 64"]
      by (simp add: unsigned_ucast_eq take_bit_eq_mod)
    have "unat c + unat ordinal < 2 ^ 64"
      using that(2) add_strict_mono [OF that(2) unat_u32_lt [of ordinal]] by simp
    then have "unat (c + ucast ordinal) = unat c + unat ordinal" by (simp add: unat_word_ariths u)
    then show ?thesis using that(1) by auto
  qed
  have c: "(ucast (ucast ordinal :: u64) :: u32) = ordinal"
    by (intro bit_word_eqI) (auto simp: bit_simps dest: bit_imp_le_length)
  show "ucast (resolve_import dlls md ordinal) = link_resolve_import md ordinal"
    using assms by (auto simp: LINK_MODULES_def ustr_def resolve_import_def link_resolve_import_def
        MAGIC_API_BASE_def ucast_arith_down c PMWIN_BASE_def PMGPI_BASE_def KBDCALLS_BASE_def VIOCALLS_BASE_def
        SESMGR_BASE_def NLS_BASE_def MSG_BASE_def MDM_BASE_def UCONV_BASE_def)
  show "resolve_import dlls md ordinal \<noteq> 0"
    using assms nz by (auto simp: LINK_MODULES_def ustr_def resolve_import_def
        MAGIC_API_BASE_def PMWIN_BASE_def PMGPI_BASE_def KBDCALLS_BASE_def VIOCALLS_BASE_def
        SESMGR_BASE_def NLS_BASE_def MSG_BASE_def MDM_BASE_def UCONV_BASE_def)
qed

text \<open>A target stands for an address when the loader computes that address from it.\<close>

definition target_ok :: "ustring list \<Rightarrow> u32 \<Rightarrow> link_target \<Rightarrow> bool" where
  "target_ok mods tv ft \<longleftrightarrow>
    (\<forall>dlls. fixup_value dlls mods ft \<noteq> 0 \<and> (ucast (fixup_value dlls mods ft) :: u32) = tv)"

lemma internal_ok: "target_ok mods va (internal_target va)"
proof -
  have c: "(ucast (ucast x :: u64) :: u32) = x" for x :: u32
    by (intro bit_word_eqI) (auto simp: bit_simps dest: bit_imp_le_length)
  have nz: "(ucast b :: u64) + ucast off \<noteq> 0" if "b \<noteq> 0" for b off :: u32
  proof -
    have u: "unat (ucast x :: u64) = unat x" for x :: u32
      using less_trans [OF unat_u32_lt [of x], of "2 ^ 64"] by (simp add: unsigned_ucast_eq take_bit_eq_mod)
    have "unat b + unat off < 2 ^ 64"
      using add_strict_mono [OF unat_u32_lt [of b] unat_u32_lt [of off]] by simp
    then have "unat ((ucast b :: u64) + ucast off) = unat b + unat off" by (simp add: unat_word_ariths u)
    moreover have "0 < unat b" using that by (simp add: unat_gt_0)
    ultimately show ?thesis by auto
  qed
  have b: "link_bases ! 0 = CODE_OBJECT_BASE" "link_bases ! 1 = DATA_OBJECT_BASE"
    "CODE_OBJECT_BASE \<noteq> 0" "DATA_OBJECT_BASE \<noteq> 0" by (simp_all add: link_bases_def link_consts)
  have n: "unat (2 :: u8) = 2" "unat (1 :: u8) = 1" by simp_all
  have "fixup_value dlls mods (internal_target va) =
      (if DATA_OBJECT_BASE \<le> va then ucast DATA_OBJECT_BASE + ucast (va - DATA_OBJECT_BASE)
       else ucast CODE_OBJECT_BASE + ucast (va - CODE_OBJECT_BASE))" for dlls
    using b by (simp add: internal_target_def va_to_lx_object_def fixup_value_def n)
  then show ?thesis using b nz by (simp add: target_ok_def ucast_arith_down c)
qed

lemma external_ok:
  assumes "i < length mods" "length mods < 256" "mods ! i \<in> set LINK_MODULES"
  shows "target_ok mods (link_resolve_import (mods ! i) ord) (LExternalOrdinal (of_nat (i + 1)) ord)"
proof -
  have u: "unat (of_nat (i + 1) :: u8) = i + 1" using assms by (intro unat_length_u8) simp
  then have "(of_nat (i + 1) :: u8) \<noteq> 0" by (metis add_is_0 one_neq_zero unsigned_0)
  then have "fixup_value dlls mods (LExternalOrdinal (of_nat (i + 1)) ord) = resolve_import dlls (mods ! i) ord" for dlls
    using u assms(1) by (simp only: fixup_value_def link_target.simps) simp
  then show ?thesis using resolve_imports_agree [OF assms(3)] by (simp only: target_ok_def) simp
qed

lemma resolve_reloc_target:
  assumes "modules_ok w" "resolve_reloc objects st defs r w = ((tv, ft), w')" "tv \<noteq> 0"
    and "known_target st defs r" "\<exists>ms. mods = w_imported w' @ ms" "length mods < 256"
  shows "\<exists>t. ft = Some t \<and> target_ok mods tv t"
proof -
  have ext: "\<exists>t. ft = Some t \<and> target_ok mods tv t"
    if g: "get_or_insert_module md w = (idx, w1)" and d: "md \<in> set LINK_MODULES"
      and r: "((tv, ft), w') = ((link_resolve_import md ord, Some (LExternalOrdinal idx ord)), w1)" for md ord idx w1
  proof -
    obtain i where i: "i < length (w_imported w1)" "w_imported w1 ! i = md" "idx = of_nat (i + 1)"
      using get_or_insert_module_spec(2) [OF assms(1) g] by blast
    then have "i < length mods" "mods ! i = md" using assms(5) r by (auto simp: nth_append)
    then show ?thesis using external_ok [of i mods ord] assms(6) d r i(3) by simp
  qed
  show ?thesis
  proof (cases "rl_target r")
    case (RtSymbol name)
    show ?thesis
    proof (cases "lk_symbol_table st name")
      case (Some va)
      then show ?thesis using assms(2) RtSymbol internal_ok by (auto simp: resolve_reloc_def)
    next
      case None
      then obtain md ord where d: "defs name = Some (md, ord)" using assms(2,3) RtSymbol
        by (cases "defs name") (auto simp: resolve_reloc_def)
      obtain idx w1 where g: "get_or_insert_module md w = (idx, w1)" by fastforce
      have "((tv, ft), w') = ((link_resolve_import md ord, Some (LExternalOrdinal idx ord)), w1)"
        using assms(2) RtSymbol None d g by (simp add: resolve_reloc_def)
      moreover have "md \<in> set LINK_MODULES" using assms(4) RtSymbol None d by (simp add: known_target_def)
      ultimately show ?thesis using ext [OF g] by blast
    qed
  next
    case (RtSection sec)
    then show ?thesis using assms(2,3) internal_ok by (auto simp: resolve_reloc_def split: option.splits)
  qed
qed

text \<open>Where a section of an object ended up: its object's base and its address.\<close>

definition section_pages :: "linker_state \<Rightarrow> elf_section \<Rightarrow> nat" where
  "section_pages st sec = (if es_kind sec = Text then code_pages st else data_pages st)"

definition section_object :: "elf_section \<Rightarrow> u32" where
  "section_object sec = (if es_kind sec = Text then CODE_OBJECT_BASE else DATA_OBJECT_BASE)"

lemma reloc_step_site:
  assumes ok: "step_ok w" and wf: "writer_wf st w" and k: "rl_kind r = Absolute"
    and nz: "reloc_va objects st defs r \<noteq> 0" and kn: "known_target st defs r"
    and pg: "unat ((va + ucast (rl_offset r) - section_object sec) div LINK_PAGE_SIZE) < section_pages st sec"
    and ex: "extends (reloc_step objects st defs (es_kind sec = Text) va w r) w'" "length (w_imported w') < 256"
  shows "\<exists>t. (va + ucast (rl_offset r), t) \<in> set (link_sites w') \<and>
    target_ok (w_imported w') (reloc_va objects st defs r) t"
proof -
  let ?w2 = "reloc_step objects st defs (es_kind sec = Text) va w r"
  obtain tv ft w1 where r: "resolve_reloc objects st defs r w = ((tv, ft), w1)" by (metis surj_pair)
  have tv: "tv = reloc_va objects st defs r" using reloc_va_any [of objects st defs r w] r by simp
  have same: "w_imported ?w2 = w_imported w1"
    by (auto simp: reloc_step_def r Let_def split: relocation_kind.splits option.splits)
  obtain t where t: "ft = Some t" "target_ok (w_imported w') tv t"
    using resolve_reloc_target [OF _ r, of "w_imported w'"] ok nz kn ex tv
    by (auto simp: step_ok_def extends_def same)
  have wf1: "writer_wf st w1" using wf resolve_reloc_fixups [OF r] by (simp add: writer_wf_def)
  have "(va + ucast (rl_offset r), t) \<in>
      set (object_sites (section_object sec) (if es_kind sec = Text then w_code_fixups ?w2 else w_data_fixups ?w2))"
    using push_fixup_sites [of "va + ucast (rl_offset r) - section_object sec"
        "if es_kind sec = Text then w_code_fixups w1 else w_data_fixups w1" "section_object sec" t] pg wf1 nz
    by (auto simp: reloc_step_def r k t(1) tv Let_def section_object_def section_pages_def writer_wf_def
        split: if_splits)
  then have "(va + ucast (rl_offset r), t) \<in> set (link_sites w')"
    using ex(1) by (auto simp: link_sites_def extends_def section_object_def link_consts split: if_splits)
  then show ?thesis using t(2) tv by blast
qed

lemma foldl_at:
  assumes "x \<in> set xs"
  obtains ys zs where "foldl f s xs = foldl f (f (foldl f s ys) x) zs"
proof -
  obtain ys zs where "xs = ys @ x # zs" using assms by (auto dest: split_list)
  then show thesis using that [of ys zs] by simp
qed

lemma foldl_writer_wf:
  "writer_wf st w \<Longrightarrow> writer_wf st (foldl (reloc_step objects st defs c va) w rs)"
  by (rule foldl_inv) (auto intro: reloc_step_wf)

lemma reloc_section_wf: "writer_wf st w \<Longrightarrow> writer_wf st (reloc_section objects st defs w x)"
  by (auto simp: reloc_section_def Let_def foldl_writer_wf split: prod.splits option.splits)

lemma reloc_recorded:
  assumes "(oi, si, sec) \<in> set (indexed_sections objects)" "r \<in> set (es_relocs sec)"
    and va: "input_va st oi si sec = Some va"
    and r: "rl_kind r = Absolute" "reloc_va objects st defs r \<noteq> 0" "known_target st defs r"
      "unat ((va + ucast (rl_offset r) - section_object sec) div LINK_PAGE_SIZE) < section_pages st sec"
    and n: "length (w_imported (reloc_all objects st defs)) < 256"
  shows "\<exists>t. (va + ucast (rl_offset r), t) \<in> set (link_sites (reloc_all objects st defs)) \<and>
    target_ok (w_imported (reloc_all objects st defs)) (reloc_va objects st defs r) t"
proof -
  let ?S = "reloc_section objects st defs"
  let ?R = "reloc_step objects st defs (es_kind sec = Text) va"
  define w0 where "w0 = initial_writer st"
  have w0: "reloc_all objects st defs = foldl ?S w0 (indexed_sections objects)" "step_ok w0" "writer_wf st w0"
    by (auto simp: w0_def initial_writer_def reloc_all_def step_ok_def modules_ok_def offsets_ok_def
        offsets_in_page_def writer_wf_def fixups7_def)
  obtain ys zs where 1: "foldl ?S w0 (indexed_sections objects) = foldl ?S (?S (foldl ?S w0 ys) (oi, si, sec)) zs"
    using assms(1) by (rule foldl_at)
  define w1 where "w1 = foldl ?S w0 ys"
  have ok1: "step_ok w1" "writer_wf st w1"
    using foldl_steps_ok [where f = ?S] reloc_section_ok w0 foldl_inv [where P = "writer_wf st" and f = ?S] reloc_section_wf
    by (simp_all add: w1_def)
  have sec: "?S w1 (oi, si, sec) = foldl ?R w1 (es_relocs sec)"
    using va by (simp add: reloc_section_def Let_def input_va_def)
  obtain ps qs where 2: "foldl ?R w1 (es_relocs sec) = foldl ?R (?R (foldl ?R w1 ps) r) qs"
    using assms(2) by (rule foldl_at)
  define w2 where "w2 = foldl ?R w1 ps"
  have ok2: "step_ok w2" "writer_wf st w2"
    using foldl_steps_ok [where f = ?R] reloc_step_ok ok1 foldl_writer_wf by (simp_all add: w2_def)
  have "step_ok (?R w2 r)" using reloc_step_ok ok2 by blast
  then have "extends (?R w2 r) (?S w1 (oi, si, sec))" "step_ok (?S w1 (oi, si, sec))"
    using foldl_steps_ok [where f = ?R] reloc_step_ok unfolding sec 2 w2_def [symmetric] by blast+
  then have "extends (?R w2 r) (reloc_all objects st defs)"
    using foldl_steps_ok [where f = ?S] reloc_section_ok extends_trans unfolding w0(1) 1 w1_def [symmetric] by blast
  then show ?thesis using reloc_step_site [OF ok2 r _ n] by blast
qed

lemma sites_in_bounds:
  assumes "offsets_ok w" "writer_wf st w" "code_pages st \<le> 0x50" "data_pages st \<le> 0x10"
    and "(a, t) \<in> set (link_sites w)"
  shows "unat a + 4 \<le> 0x80000"
proof -
  have *: "unat (base + of_nat p * 4096 + ucast off) + 4 \<le> 0x80000"
    if "unat base + k * 4096 \<le> 0x70000" "p < k" "unat off < 4096" for base :: u32 and off :: u16 and p k
  proof -
    have l: "unat base + p * 4096 + unat off < 2 ^ 32" using that by simp
    have "(ucast off :: u32) = of_nat (unat off)" by simp
    then have "base + of_nat p * 4096 + ucast off = of_nat (unat base + p * 4096 + unat off)" by simp
    then have "unat (base + of_nat p * 4096 + ucast off) = unat base + p * 4096 + unat off"
      using unat_of_nat_u32 [OF l] by metis
    then show ?thesis using that by linarith
  qed
  have ub: "unat (0x10000 :: u32) = 0x10000" "unat (0x60000 :: u32) = 0x60000"
    using unat_of_nat_u32 [of "0x10000"] unat_of_nat_u32 [of "0x60000"] by simp_all
  consider "(a, t) \<in> set (object_sites 0x10000 (w_code_fixups w))" | "(a, t) \<in> set (object_sites 0x60000 (w_data_fixups w))"
    using assms(5) by (auto simp: link_sites_def)
  then show ?thesis
  proof cases
    case 1
    then obtain p fx where p: "p < code_pages st" "fx \<in> set (w_code_fixups w ! p)"
      "a = 0x10000 + of_nat p * 4096 + ucast (lf_source_offset fx)" "w_code_fixups w ! p \<in> set (w_code_fixups w)"
      using assms(2) by (auto simp: object_sites_mem writer_wf_def)
    then show ?thesis using * [of "0x10000" "code_pages st"] ub assms(1,3)
      by (auto simp: offsets_ok_def offsets_in_page_def)
  next
    case 2
    then obtain p fx where p: "p < data_pages st" "fx \<in> set (w_data_fixups w ! p)"
      "a = 0x60000 + of_nat p * 4096 + ucast (lf_source_offset fx)" "w_data_fixups w ! p \<in> set (w_data_fixups w)"
      using assms(2) by (auto simp: object_sites_mem writer_wf_def)
    then show ?thesis using * [of "0x60000" "data_pages st"] ub assms(1,4)
      by (auto simp: offsets_ok_def offsets_in_page_def)
  qed
qed

section \<open>Patches\<close>

lemma apply_patches_length: "apply_patches buf ps = Some buf' \<Longrightarrow> length buf' = length buf"
proof -
  have step: "length b' = length b" if "apply_patch b x = Some b'" for b x b'
  proof -
    obtain off v where x: "x = (off, v)" by (cases x)
    have "unat off + 4 \<le> length b" if "unat (off + 4) \<le> length b" "\<not> off + 4 < off"
    proof -
      have "off \<le> off + 4" using that(2) by simp
      then have "unat (off + 4) = unat off + unat (4 :: u64)" by (simp only: unat_plus_simple)
      moreover have "unat (4 :: u64) = 4" by code_simp
      ultimately show ?thesis using that(1) by simp
    qed
    then show ?thesis using that by (auto simp: apply_patch_def x split: if_splits)
  qed
  show "apply_patches buf ps = Some buf' \<Longrightarrow> length buf' = length buf"
    unfolding apply_patches_def
    by (erule ofold_inv [where P = "\<lambda>b. length b = length buf", rotated 2]) (auto dest: step)
qed

section \<open>Targets\<close>

text \<open>
  The address a relocation refers to, computed from the objects and from the loader's side of the API: a
  symbol of the program is where the layout puts it, a function of an API module where the loader
  imports it from. For a relocation to a section the linker keeps the section's name only, so it is the first
  section of that name in all objects, and the start of it.
\<close>

definition target_address :: "elf_object list \<Rightarrow> dll_manager \<Rightarrow> def_map \<Rightarrow> reloc \<Rightarrow> u32 option" where
  "target_address objects dlls defs r =
    (case rl_target r of
       RtSymbol name \<Rightarrow>
         (case symbol_address objects name of
            Some a \<Rightarrow> Some a
          | None \<Rightarrow>
              (case defs name of
                 Some (md, ordinal) \<Rightarrow> if md \<in> set LINK_MODULES then Some (ucast (resolve_import dlls md ordinal)) else None
               | None \<Rightarrow> None))
     | RtSection name \<Rightarrow>
         (case find (\<lambda>(oi, si, sec). es_name sec = name) (indexed_sections objects) of
            Some (oi, si, sec) \<Rightarrow> section_addr objects oi si
          | None \<Rightarrow> None))"

lemma target_address_reloc:
  assumes b: "link_build objects = Some st" and al: "aligned_sections (indexed_sections objects)"
    and fit: "sections_size (code_inputs objects) < 2 ^ 32" "sections_size (data_inputs objects) < 2 ^ 32"
    and t: "target_address objects dlls defs r = Some a"
  shows "reloc_va objects st defs r = a" "known_target st defs r"
  using t by (auto simp: target_address_def reloc_va_def resolve_reloc_def known_target_def symbol_table_is [OF b al fit]
      find_section_va_def lookups_are_addr(1) [OF b al fit] resolve_imports_agree
      split: reloc_target.splits option.splits if_splits prod.splits)

text \<open>A word inside a section starts in a page of the section's object.\<close>

lemma word_page:
  assumes at: "has_at d (unat off) bs" and n: "length (pad_to_page d) = pages * 4096" "length d < 2 ^ 32"
    and w: "unat (o8 :: u64) + 4 \<le> length bs"
  shows "unat ((base + off + ucast o8 - base :: u32) div LINK_PAGE_SIZE) < pages"
proof -
  have l: "unat off + length bs \<le> length d" using at by (auto simp: has_at_def dest: arg_cong [of _ _ length])
  then have "unat o8 < 2 ^ 32" using w n(2) by linarith
  then have u8: "unat (ucast o8 :: u32) = unat o8" by (simp add: unsigned_ucast_eq take_bit_eq_mod)
  then have "unat (off + ucast o8) = unat off + unat o8"
    using l w n(2) by (intro trans [OF unat_plus_u32]) auto
  then have "unat ((base + off + ucast o8 - base) div LINK_PAGE_SIZE) = (unat off + unat o8) div 4096"
    by (simp add: unat_div LINK_PAGE_SIZE_def)
  moreover have "length d \<le> pages * 4096" using n(1) by (auto simp: pad_to_page_length)
  ultimately show ?thesis using l w by (auto simp: div_less_iff_less_mult)
qed

lemma section_word_page:
  assumes b: "link_build objects = Some st" and al: "aligned_sections (indexed_sections objects)"
    and fit: "sections_size (code_inputs objects) < 2 ^ 32" "sections_size (data_inputs objects) < 2 ^ 32"
    and ld: "link_loadable st (ms_data (lk_code_section st)) (ms_data (lk_data_section st))"
    and sec: "(oi, si, sec) \<in> set (indexed_sections objects)" "section_addr objects oi si = Some va"
    and w: "unat (rl_offset r) + 4 \<le> length (es_data sec)"
  shows "input_va st oi si sec = Some va"
    and "unat ((va + ucast (rl_offset r) - section_object sec) div LINK_PAGE_SIZE) < section_pages st sec"
proof -
  note m = link_build_merged [OF b al fit]
  have d: "distinct (map (\<lambda>(oi, si, sec). (oi, si)) (filter P (indexed_sections objects)))" for P
    using indexed_sections_distinct [of objects] by (simp add: distinct_map inj_on_def)
  show va: "input_va st oi si sec = Some va"
    using lookups_are_addr(2) [OF b al fit, of oi si] sec by (simp add: indexed_sections_mem)
  have len: "length (ms_data (lk_code_section st)) < 2 ^ 32" "length (ms_data (lk_data_section st)) < 2 ^ 32"
    using m(1,3) fit by (auto simp: merged_holds_def)
  show "unat ((va + ucast (rl_offset r) - section_object sec) div LINK_PAGE_SIZE) < section_pages st sec"
  proof (cases "es_kind sec = Text")
    case True
    then have "(oi, si, sec) \<in> set (code_inputs objects)" using sec(1) by (simp add: code_inputs_def)
    then obtain off where off: "code_va_for st oi si = Some (CODE_OBJECT_BASE + off)"
      "has_at (ms_data (lk_code_section st)) (unat off) (es_data sec)"
      using merged_find [OF m(1) d [where P = "\<lambda>(oi, si, sec). es_kind sec = Text", folded code_inputs_def]] m(2)
      by (fastforce simp: code_va_for_def)
    with True va have "va = CODE_OBJECT_BASE + off" by (simp add: input_va_def)
    then show ?thesis using word_page [OF off(2) _ len(1) w] ld True
      by (simp add: section_object_def section_pages_def link_loadable_def)
  next
    case False
    have kind: "is_data_kind sec"
    proof (rule ccontr)
      assume "\<not> is_data_kind sec"
      moreover have "map_of (layout_from 0 (data_inputs objects)) (oi, si) \<noteq> None"
        using va False merged_addr [OF m(3), of oi si] by (auto simp: input_va_def data_va_for_def)
      ultimately show False using sec(1) unfolding layout_None by (auto simp: data_inputs_def indexed_sections_mem)
    qed
    then have "(oi, si, sec) \<in> set (data_inputs objects)" using sec(1) by (simp add: data_inputs_def)
    then obtain off where off: "data_va_for st oi si = Some (DATA_OBJECT_BASE + off)"
      "has_at (ms_data (lk_data_section st)) (unat off) (es_data sec)"
      using merged_find [OF m(3) d [where P = "\<lambda>(oi, si, sec). is_data_kind sec", folded data_inputs_def]] m(4)
      by (fastforce simp: data_va_for_def)
    with False va have "va = DATA_OBJECT_BASE + off" by (simp add: input_va_def)
    then show ?thesis using word_page [OF off(2) _ len(2) w] ld False
      by (simp add: section_object_def section_pages_def link_loadable_def)
  qed
qed

section \<open>Properties\<close>


definition demo_defs :: def_map where
  "demo_defs = [ustr ''DosExit'' \<mapsto> (ustr ''DOSCALLS'', 234)]"

definition demo_writer :: link_writer where
  "demo_writer = \<lparr> w_module_map = [ustr ''DOSCALLS'' \<mapsto> 1], w_imported = [ustr ''DOSCALLS''],
     w_code_fixups = [[\<lparr> lf_source_type = 7, lf_source_offset = 1, lf_target = LInternal 2 2 \<rparr>,
       \<lparr> lf_source_type = 7, lf_source_offset = 6, lf_target = LExternalOrdinal 1 234 \<rparr>]],
     w_data_fixups = [[]], w_code_patches = [(1, 0x60002), (6, 0x010000EA)], w_data_patches = [],
     w_code_patches_i32 = [] \<rparr>"

lemma demo_pages: "code_pages demo_link_state = 1" "data_pages demo_link_state = 1"
  by (simp_all add: code_pages_def data_pages_def page_count_def demo_link_state_def)

lemma demo_reloc: "reloc_all demo_objects demo_link_state demo_defs = demo_writer"
  unfolding reloc_all_def demo_sections initial_writer_def demo_pages
  by (simp add: demo_objects_def reloc_section_def code_va_for_def data_va_for_def find_merged_va_def
      demo_link_state_def reloc_step_def resolve_reloc_def demo_defs_def internal_target_def va_to_lx_object_def
      get_or_insert_module_def link_resolve_import_def push_fixup_def link_consts ustr_def demo_writer_def Let_def)

definition demo_loader :: loader_state where
  "demo_loader = \<lparr> ld_guest = gm_alloc 0x80000, ld_mem = mm_new 0x2000000 0x6000000, ld_res = rm_new, ld_dlls = dm_new \<rparr>"

lemma demo_fits: "link_fits demo_link_state demo_writer"
proof -
  have "length (concat (map (\<lambda>fs. concat (map encode_fixup fs)) (w_code_fixups demo_writer @ w_data_fixups demo_writer))) = 18"
    "length (module_name_bytes (w_imported demo_writer)) = 9" "list_all pstring_wf (w_imported demo_writer)"
    by code_simp+
  then show ?thesis by (simp add: link_fits_def demo_pages)
qed

lemma demo_apart: "sorted_wrt apart (map fst (link_sites demo_writer))"
  by (simp add: demo_writer_def link_sites_def object_sites_def page_sites_def apart_def)

lemma demo_loadable:
  "link_loadable demo_link_state (ms_data (lk_code_section demo_link_state)) (ms_data (lk_data_section demo_link_state))"
  by (simp add: link_loadable_def demo_pages pad_to_page_length) (simp add: demo_link_state_def)

lemma demo_written: "\<exists>out. write_lx demo_objects demo_link_state demo_defs = Some out"
proof -
  have "\<exists>c. apply_patches (ms_data (lk_code_section demo_link_state)) (w_code_patches demo_writer) = Some c"
    by (simp add: demo_link_state_def demo_writer_def apply_patches_def apply_patch_def)
  then show ?thesis
    by (auto simp: write_lx_def demo_reloc Let_def) (simp_all add: demo_writer_def apply_patches_def)
qed


end
