(* ===== verification/DOS_Time.thy ===== *)
theory DOS_Time
  imports VFS
begin

unbundle bit_operations_syntax

text \<open>
  Time stamps and file metadata (\<^verbatim>\<open>systemtime_to_dos\<close>, \<^verbatim>\<open>days_to_ymd\<close>, \<^verbatim>\<open>metadata_to_file_status\<close> of
  \<^verbatim>\<open>src/src/loader/vfs_hostdir.rs\<close>). The conversion of a day number to a calendar date uses no
  tables and no loops; it is compared with the Gregorian calendar itself: \<open>next_date\<close> is the day
  after a date, and \<open>civil_day\<close> counts days so that it advances by one at every \<open>next_date\<close>.
\<close>

section \<open>The conversion\<close>

text \<open>Rust's integer division rounds towards zero; \<open>to_i32\<close> is the cast \<^verbatim>\<open>as i32\<close>. The unsigned
  intermediate values are small non-negative integers.\<close>

definition rust_div :: "int \<Rightarrow> int \<Rightarrow> int" where
  "rust_div a b = sgn a * sgn b * (\<bar>a\<bar> div \<bar>b\<bar>)"

definition to_i32 :: "int \<Rightarrow> int" where
  "to_i32 x = (x + 2 ^ 31) mod 2 ^ 32 - 2 ^ 31"

definition days_to_ymd :: "int \<Rightarrow> int \<times> nat \<times> nat" where
  "days_to_ymd days_since_epoch =
    (let z = days_since_epoch + 719468;
         era = rust_div (if z \<ge> 0 then z else z - 146096) 146097;
         doe = z - era * 146097;
         yoe = (doe - doe div 1460 + doe div 36524 - doe div 146096) div 365;
         y = to_i32 (yoe + to_i32 (era * 400));
         doy = doe - (365 * yoe + yoe div 4 - yoe div 100);
         mp = (5 * doy + 2) div 153;
         d = doy - (153 * mp + 2) div 5 + 1;
         m = (if mp < 10 then mp + 3 else mp - 9);
         y = (if m \<le> 2 then to_i32 (y + 1) else y) in
     (y, nat m, nat d))"

text \<open>\<open>secs\<close> is the number of whole seconds since the epoch, 0 for an earlier time.\<close>

definition systemtime_to_dos :: "nat \<Rightarrow> u16 \<times> u16" where
  "systemtime_to_dos secs =
    (let days = secs div 86400;
         time_of_day = secs mod 86400;
         hours = time_of_day div 3600;
         minutes = (time_of_day mod 3600) div 60;
         seconds = time_of_day mod 60;
         (year, month, day) = days_to_ymd (int days);
         dos_year = (of_int (max (year - 1980) 0) :: u16);
         dos_date = push_bit 9 dos_year OR push_bit 5 (of_nat month) OR of_nat day;
         dos_time = push_bit 11 (of_nat hours) OR push_bit 5 (of_nat minutes) OR (of_nat seconds) div 2 in
     (dos_date, dos_time))"

text \<open>What \<^verbatim>\<open>std::fs::Metadata\<close> tells of a file; a time stamp may be missing.\<close>

record metadata =
  md_created :: "nat option"
  md_accessed :: "nat option"
  md_modified :: "nat option"
  md_len :: u64
  md_is_dir :: bool
  md_is_file :: bool
  md_readonly :: bool

definition dos_stamp :: "nat option \<Rightarrow> u16 \<times> u16" where
  "dos_stamp t = (case t of Some secs \<Rightarrow> systemtime_to_dos secs | None \<Rightarrow> (0, 0))"

definition metadata_to_file_status :: "metadata \<Rightarrow> file_status" where
  "metadata_to_file_status meta =
    (let (cdate, ctime) = dos_stamp (md_created meta);
         (adate, atime) = dos_stamp (md_accessed meta);
         (wdate, wtime) = dos_stamp (md_modified meta);
         sz = (ucast (md_len meta) :: u32);
         attrs = (if md_is_dir meta then FA_DIRECTORY else 0) OR
                 (if md_readonly meta then FA_READONLY else 0) OR
                 (if md_is_file meta then FA_ARCHIVE else 0) in
     \<lparr> fs_creation_date = cdate, fs_creation_time = ctime,
       fs_last_access_date = adate, fs_last_access_time = atime,
       fs_last_write_date = wdate, fs_last_write_time = wtime,
       fs_file_size = sz, fs_file_alloc = (sz + 511) AND NOT 511, fs_attributes = attrs \<rparr>)"

section \<open>The calendar\<close>

definition leap_year :: "int \<Rightarrow> bool" where
  "leap_year y \<longleftrightarrow> 4 dvd y \<and> (\<not> 100 dvd y \<or> 400 dvd y)"

definition month_lengths :: "bool \<Rightarrow> nat list" where
  "month_lengths leap = [31, if leap then 29 else 28, 31, 30, 31, 30, 31, 31, 30, 31, 30, 31]"

definition month_length :: "int \<Rightarrow> nat \<Rightarrow> nat" where
  "month_length y m = month_lengths (leap_year y) ! (m - 1)"

definition valid_date :: "int \<times> nat \<times> nat \<Rightarrow> bool" where
  "valid_date = (\<lambda>(y, m, d). 1 \<le> m \<and> m \<le> 12 \<and> 1 \<le> d \<and> d \<le> month_length y m)"

definition next_date :: "int \<times> nat \<times> nat \<Rightarrow> int \<times> nat \<times> nat" where
  "next_date = (\<lambda>(y, m, d).
    if d < month_length y m then (y, m, d + 1) else if m < 12 then (y, m + 1, 1) else (y + 1, 1, 1))"

text \<open>Days from 1970-01-01: the days of the whole years before, of the whole months before, and of
  the month.\<close>

definition civil_day :: "int \<times> nat \<times> nat \<Rightarrow> int" where
  "civil_day = (\<lambda>(y, m, d).
    365 * (y - 1) + (y - 1) div 4 - (y - 1) div 100 + (y - 1) div 400
      + int (sum_list (take (m - 1) (month_lengths (leap_year y)))) + int d - 1 - 719162)"

lemma div_step: "0 < k \<Longrightarrow> (x + 1) div k = x div k + (if k dvd (x + 1) then 1 else (0 :: int))"
proof -
  assume k: "0 < k"
  show ?thesis
  proof (cases "k dvd (x + 1)")
    case True
    then obtain c where c: "x + 1 = k * c" by auto
    then have "x div k = c - 1" using k by (intro int_div_pos_eq [of _ _ _ "k - 1"]) (auto simp: algebra_simps)
    then show ?thesis using c k True by simp
  next
    case False
    then have "(x + 1) mod k \<noteq> 0" by auto
    then have "0 < (x + 1) mod k" using pos_mod_sign [OF k, of "x + 1"] by linarith
    moreover have "x = k * ((x + 1) div k) + ((x + 1) mod k - 1)"
      using mult_div_mod_eq [of k "x + 1"] by linarith
    ultimately have "x div k = (x + 1) div k"
      using pos_mod_bound [OF k, of "x + 1"] by (intro int_div_pos_eq [of _ _ _ "(x + 1) mod k - 1"]) linarith+
    then show ?thesis using False by simp
  qed
qed

lemma leap_step: "(y div 4 - (y - 1) div 4) - (y div 100 - (y - 1) div 100) + (y div 400 - (y - 1) div 400)
    = (if leap_year y then 1 else (0 :: int))"
proof -
  have q: "y div k - (y - 1) div k = (if k dvd y then 1 else 0)" if "0 < k" for k :: int
    using div_step [OF that, of "y - 1"] by simp
  have "4 dvd y" if "100 dvd y" using dvd_trans [OF _ that, of 4] by simp
  moreover have "100 dvd y" if "400 dvd y" using dvd_trans [OF _ that, of 100] by simp
  ultimately have *: "100 dvd y \<longrightarrow> 4 dvd y" "400 dvd y \<longrightarrow> 100 dvd y" by blast+
  have "(if A then 1 else 0) - (if B then 1 else 0) + (if C then 1 else 0) =
      (if A \<and> (\<not> B \<or> C) then 1 else (0 :: int))" if "B \<longrightarrow> A" "C \<longrightarrow> B" for A B C
    using that by (cases A; cases B; cases C) simp_all
  from this [OF *] show ?thesis unfolding leap_year_def by (simp only: q zero_less_numeral)
qed

lemma length_month_lengths [simp]: "length (month_lengths b) = 12"
  by (simp add: month_lengths_def)

lemma month_length_bounds: "1 \<le> m \<Longrightarrow> m \<le> 12 \<Longrightarrow> 28 \<le> month_length y m \<and> month_length y m \<le> 31"
proof -
  assume "1 \<le> m" "m \<le> 12"
  then have "month_length y m \<in> set (month_lengths (leap_year y))" by (simp add: month_length_def)
  then show ?thesis by (auto simp: month_lengths_def split: if_splits)
qed

lemma civil_day_next:
  assumes "valid_date x"
  shows "valid_date (next_date x) \<and> civil_day (next_date x) = civil_day x + 1"
proof -
  obtain y m d where x: "x = (y, m, d)" by (cases x)
  have v: "1 \<le> m" "m \<le> 12" "1 \<le> d" "d \<le> month_length y m" using assms x by (auto simp: valid_date_def)
  consider "d < month_length y m" | "d = month_length y m" "m < 12" | "d = month_length y m" "m = 12"
    using v by linarith
  then show ?thesis
  proof cases
    case 1
    then show ?thesis using v x by (simp add: valid_date_def next_date_def civil_day_def)
  next
    case 2
    let ?ls = "month_lengths (leap_year y)"
    have "take (m - 1) ?ls @ [?ls ! (m - 1)] = take m ?ls"
      using v 2(2) take_Suc_conv_app_nth [of "m - 1" ?ls] by simp
    then have "sum_list (take m ?ls) = sum_list (take (m - 1) ?ls) + month_length y m"
      by (metis month_length_def sum_list.Cons sum_list.Nil sum_list_append add.right_neutral)
    then show ?thesis using v 2 x month_length_bounds [of "m + 1" y]
      by (simp add: valid_date_def next_date_def civil_day_def)
  next
    case 3
    have "int (sum_list (take 11 (month_lengths (leap_year y)))) = 334 + (if leap_year y then 1 else 0)"
      by (simp add: month_lengths_def)
    moreover have "month_length y 12 = 31" "\<And>y. month_length y (Suc 0) = 31"
      by (simp_all add: month_length_def month_lengths_def)
    ultimately show ?thesis using v 3 x leap_step [of y]
      by (simp add: valid_date_def next_date_def civil_day_def)
  qed
qed


section \<open>Correctness of the conversion\<close>

text \<open>Years here begin in March: \<open>year_start k\<close> is the first day of year \<open>k\<close> of a 400-year era.\<close>

definition year_start :: "int \<Rightarrow> int" where
  "year_start k = 365 * k + k div 4 - k div 100"

definition yoe_arg :: "int \<Rightarrow> int" where
  "yoe_arg doe = doe - doe div 1460 + doe div 36524 - doe div 146096"

definition year_stop :: "int \<Rightarrow> int" where
  "year_stop k = (if k = 399 then 146096 else year_start (k + 1) - 1)"

lemma yoe_check:
  "list_all (\<lambda>k. yoe_arg (year_start k) div 365 = k \<and> yoe_arg (year_stop k) div 365 = k) [0..399]"
  by code_simp

lemma yoe_arg_step: "yoe_arg x \<le> yoe_arg (x + 1)"
proof -
  have "36524 dvd x + 1" if "146096 dvd x + 1" using dvd_trans [of 36524 146096 "x + 1"] that by simp
  then show ?thesis by (simp add: yoe_arg_def div_step)
qed

lemma yoe_arg_mono: "x \<le> y \<Longrightarrow> yoe_arg x \<le> yoe_arg y"
proof (induction y rule: int_ge_induct)
  case (step i)
  then show ?case using yoe_arg_step [of i] by linarith
qed simp

lemma doy_check:
  "list_all (\<lambda>doy. let mp = (5 * doy + 2) div 153; d = doy - (153 * mp + 2) div 5 + 1 in
     0 \<le> mp \<and> mp \<le> 11 \<and> 1 \<le> d \<and>
     (if mp < 10 then int (sum_list (take (nat (mp + 2)) (month_lengths False))) + d - 1 = doy + 59 \<and>
        d \<le> int (month_lengths False ! nat (mp + 2))
      else if mp = 10 then d - 1 = doy - 306 \<and> d \<le> 31
      else d + 30 = doy - 306 \<and> (doy \<le> 364 \<longrightarrow> d \<le> 28) \<and> d \<le> 29)) [0..365]"
  by code_simp


text \<open>The year of the era and the day of the year.\<close>

lemma year_start_mono: "k \<le> l \<Longrightarrow> year_start k \<le> year_start l"
proof (induction l rule: int_ge_induct)
  case (step i)
  have "100 dvd i + 1 \<Longrightarrow> 4 dvd i + 1" using dvd_trans [of 4 100 "i + 1"] by simp
  then have "year_start i \<le> year_start (i + 1)" by (simp add: year_start_def div_step)
  then show ?case using step by linarith
qed simp

lemma era_year:
  assumes "0 \<le> doe" "doe < 146097"
  shows "\<exists>k. 0 \<le> k \<and> k \<le> 399 \<and> year_start k \<le> doe \<and> doe \<le> year_stop k"
proof -
  have "\<exists>k. 0 \<le> k \<and> k \<le> 399 \<and> year_start k \<le> doe \<and> doe \<le> year_stop k"
    if "doe < 146097" "year_start j \<le> doe" "0 \<le> j" "j \<le> 399" for j
    using that
  proof (induction "nat (399 - j)" arbitrary: j rule: less_induct)
    case less
    show ?case
    proof (cases "doe \<le> year_stop j")
      case False
      then have "j < 399" "year_start (j + 1) \<le> doe" using less.prems by (auto simp: year_stop_def split: if_splits)
      then show ?thesis using less.hyps [of "j + 1"] less.prems by auto
    qed (use less.prems in blast)
  qed
  from this [of 0] show ?thesis using assms by (simp add: year_start_def)
qed

lemma yoe_eq:
  assumes "0 \<le> k" "k \<le> 399" "year_start k \<le> doe" "doe \<le> year_stop k"
  shows "yoe_arg doe div 365 = k"
proof -
  have "yoe_arg (year_start k) div 365 = k" "yoe_arg (year_stop k) div 365 = k"
    using yoe_check assms(1,2) by (auto simp: list_all_iff)
  then show ?thesis
    using yoe_arg_mono [OF assms(3)] yoe_arg_mono [OF assms(4)]
      zdiv_mono1 [of "yoe_arg (year_start k)" "yoe_arg doe" 365] zdiv_mono1 [of "yoe_arg doe" "yoe_arg (year_stop k)" 365]
    by linarith
qed

lemma doy_bound:
  assumes "0 \<le> k" "k \<le> 399" "doe \<le> year_stop k"
  shows "doe - year_start k \<le> (if leap_year (k + 1) then 365 else 364)"
proof (cases "k = 399")
  case True
  then show ?thesis using assms by (simp add: year_stop_def year_start_def leap_year_def)
next
  case False
  have "\<not> 400 dvd k + 1" using assms(1,2) False by (auto dest: zdvd_imp_le)
  moreover have "100 dvd k + 1 \<Longrightarrow> 4 dvd k + 1" using dvd_trans [of 4 100 "k + 1"] by simp
  ultimately have "year_start (k + 1) - year_start k = 365 + (if leap_year (k + 1) then 1 else 0)"
    by (simp add: year_start_def div_step leap_year_def)
  then show ?thesis using assms(3) False by (simp add: year_stop_def split: if_splits)
qed

lemma rust_div_floor: "rust_div (if z \<ge> 0 then z else z - 146096) 146097 = z div 146097"
proof (cases "z \<ge> 0")
  case False
  have "- ((146096 - z) div 146097) = z div 146097"
  proof -
    have "146096 - z = 146097 * (- (z div 146097)) + (146096 - z mod 146097)"
      using mult_div_mod_eq [of 146097 z] by linarith
    then have "(146096 - z) div 146097 = - (z div 146097)"
      by (intro int_div_pos_eq [of _ _ _ "146096 - z mod 146097"]) (use pos_mod_bound [of 146097 z] pos_mod_sign [of 146097 z] in linarith)+
    then show ?thesis by simp
  qed
  then show ?thesis using False by (simp add: rust_div_def)
qed (cases "z = 0", auto simp: rust_div_def)

lemma to_i32_id: "- (2 ^ 31) \<le> x \<Longrightarrow> x < 2 ^ 31 \<Longrightarrow> to_i32 x = x"
  by (simp add: to_i32_def)

lemma leap_year_era: "leap_year (y + 400 * e) \<longleftrightarrow> leap_year y"
proof -
  have "4 dvd y + 400 * e \<longleftrightarrow> 4 dvd y" "100 dvd y + 400 * e \<longleftrightarrow> 100 dvd y" "400 dvd y + 400 * e \<longleftrightarrow> 400 dvd y"
    using dvd_add_left_iff [of 4 "400 * e" y] dvd_add_left_iff [of 100 "400 * e" y] dvd_add_left_iff [of 400 "400 * e" y]
    by (auto simp: dvd_mult2)
  then show ?thesis by (simp add: leap_year_def)
qed


text \<open>The date of a March-based year and day of the year.\<close>

lemma doy_date:
  assumes "0 \<le> doy" "doy \<le> (if leap_year (y + 1) then 365 else 364)"
    and "mp = (5 * doy + 2) div 153" "d = doy - (153 * mp + 2) div 5 + 1"
    and "m = (if mp < 10 then mp + 3 else mp - 9)" "y' = (if m \<le> 2 then y + 1 else y)"
  shows "valid_date (y', nat m, nat d)" (is ?V)
    and "civil_day (y', nat m, nat d) = 365 * y + y div 4 - y div 100 + y div 400 + doy - 719468" (is ?C)
proof -
  have "doy \<le> 365" using assms(2) by (auto split: if_splits)
  then have "doy \<in> set [0..365]" using assms(1) by simp
  then have c: "0 \<le> mp" "mp \<le> 11" "1 \<le> d"
     "if mp < 10 then int (sum_list (take (nat (mp + 2)) (month_lengths False))) + d - 1 = doy + 59 \<and>
        d \<le> int (month_lengths False ! nat (mp + 2))
      else if mp = 10 then d - 1 = doy - 306 \<and> d \<le> 31
      else d + 30 = doy - 306 \<and> (doy \<le> 364 \<longrightarrow> d \<le> 28) \<and> d \<le> 29"
    using doy_check assms(3,4) by (auto simp: list_all_iff Let_def)
  have "?V \<and> ?C"
  proof (cases "mp < 10")
    case True
    have nm: "nat m - 1 = nat (mp + 2)" "2 \<le> nat (mp + 2)" "y' = y" using True c(1) assms(5,6) by auto
    have "month_lengths (leap_year y) ! nat (mp + 2) = month_lengths False ! nat (mp + 2)"
      using nm(2) by (simp add: month_lengths_def nth_Cons' numeral_2_eq_2)
    moreover have "int (sum_list (take (nat (mp + 2)) (month_lengths (leap_year y)))) =
        int (sum_list (take (nat (mp + 2)) (month_lengths False))) + (if leap_year y then 1 else 0)"
      using nm(2) by (auto simp: month_lengths_def take_Cons' numeral_2_eq_2)
    moreover have "1 \<le> nat m" "nat m \<le> 12" "1 \<le> nat d" using True c(1,3) assms(5) by auto
    moreover have "nat d \<le> month_lengths False ! nat (mp + 2)" using c(4) True by (simp add: nat_le_iff)
    ultimately show ?thesis using True c(3,4) nm leap_step [of y]
      by (simp add: valid_date_def civil_day_def month_length_def)
  next
    case False
    then have y': "y' = y + 1" "m = mp - 9" using c(2) assms(5,6) by auto
    show ?thesis
    proof (cases "mp = 10")
      case True
      then show ?thesis using c y' False
        by (auto simp: valid_date_def civil_day_def month_length_def month_lengths_def)
    next
      case mp11: False
      then have "mp = 11" "nat m = 2" using c(1,2) False y' by auto
      moreover have "d \<le> (if leap_year (y + 1) then 29 else 28)"
        using c(4) assms(2) False mp11 by (auto split: if_splits)
      ultimately show ?thesis using c False mp11 y'
        by (auto simp: valid_date_def civil_day_def month_length_def month_lengths_def)
    qed
  qed
  then show ?V ?C by auto
qed

lemma days_to_ymd_correct:
  assumes "\<bar>n\<bar> < 700000000000"
  shows "valid_date (days_to_ymd n) \<and> civil_day (days_to_ymd n) = n"
proof -
  define z where "z = n + 719468"
  define era where "era = z div 146097"
  define doe where "doe = z - era * 146097"
  have doe: "0 \<le> doe" "doe < 146097" by (auto simp: doe_def era_def minus_div_mult_eq_mod)
  obtain k where k: "0 \<le> k" "k \<le> 399" "year_start k \<le> doe" "doe \<le> year_stop k"
    using era_year [OF doe] by blast
  have yoe: "(doe - doe div 1460 + doe div 36524 - doe div 146096) div 365 = k"
    using yoe_eq [OF k] by (simp add: yoe_arg_def)
  define y where "y = k + 400 * era"
  have e: "\<bar>era\<bar> < 5000000" using assms doe by (auto simp: doe_def z_def)
  have y: "to_i32 (k + to_i32 (era * 400)) = y" "to_i32 (y + 1) = y + 1"
    using e k(1,2) by (simp_all add: to_i32_id y_def)
  define doy where "doy = doe - year_start k"
  have doy: "0 \<le> doy" "doy \<le> (if leap_year (y + 1) then 365 else 364)"
    using k(3) doy_bound [OF k(1,2,4)] leap_year_era [of "k + 1" era] by (auto simp: doy_def y_def algebra_simps)
  note date = doy_date [OF doy refl refl refl refl]
  have "y div 400 = era" "y div 100 = k div 100 + 4 * era" "y div 4 = k div 4 + 100 * era"
    using k(1,2) div_mult_self2 [of 100 k "4 * era"] div_mult_self2 [of 4 k "100 * era"]
    by (simp_all add: y_def)
  then have yd: "365 * y + y div 4 - y div 100 + y div 400 + doy - 719468 = n"
    by (simp add: y_def doy_def doe_def z_def year_start_def)
  have "days_to_ymd n =
    (let mp = (5 * doy + 2) div 153; d = doy - (153 * mp + 2) div 5 + 1;
         m = (if mp < 10 then mp + 3 else mp - 9) in (if m \<le> 2 then y + 1 else y, nat m, nat d))"
    unfolding days_to_ymd_def Let_def z_def [symmetric] rust_div_floor era_def [symmetric]
      doe_def [symmetric] yoe y year_start_def [symmetric] doy_def [symmetric] by (rule refl)
  then show ?thesis using date yd by (simp only: Let_def)
qed


text \<open>
  C27. The day arithmetic is the Gregorian calendar: for every day number whose year fits in 32
  bits, days before the epoch included, \<^verbatim>\<open>days_to_ymd\<close> yields a date that exists and whose distance
  from 1970-01-01 is that number; and the day after is the next date of the calendar.
\<close>

theorem days_to_ymd_gregorian:
  assumes "\<bar>n\<bar> < 700000000000"
  shows "valid_date (days_to_ymd n) \<and> civil_day (days_to_ymd n) = n
    \<and> valid_date (next_date (days_to_ymd n)) \<and> civil_day (next_date (days_to_ymd n)) = n + 1
    \<and> days_to_ymd 0 = (1970, 1, 1)"
proof -
  have "days_to_ymd 0 = (1970, 1, 1)" by code_simp
  then show ?thesis using days_to_ymd_correct [OF assms] civil_day_next by simp
qed

theorem days_to_ymd_gregorian_witness:
  "valid_date (days_to_ymd 11016) \<and> days_to_ymd 11016 = (2000, 2, 29) \<and> civil_day (2000, 2, 29) = 11016"
proof -
  have "days_to_ymd 11016 = (2000, 2, 29)" by code_simp
  then show ?thesis using days_to_ymd_gregorian [of 11016] by simp
qed

section \<open>DOS time stamps\<close>

text \<open>The time a DOS date and time stand for, in seconds since the epoch.\<close>

definition dos_date :: "u16 \<Rightarrow> int \<times> nat \<times> nat" where
  "dos_date w = (1980 + uint (drop_bit 9 w), unat (take_bit 4 (drop_bit 5 w)), unat (take_bit 5 w))"

definition dos_seconds :: "u16 \<times> u16 \<Rightarrow> int" where
  "dos_seconds = (\<lambda>(date, tm). 86400 * civil_day (dos_date date)
     + 3600 * uint (drop_bit 11 tm) + 60 * uint (take_bit 6 (drop_bit 5 tm)) + 2 * uint (take_bit 5 tm))"

lemma u16_fields:
  fixes a b c :: u16
  assumes "take_bit j c = c" "take_bit k b = b" "take_bit l a = a" "jk = j + k" "jk + l \<le> 16"
  shows "drop_bit jk (push_bit jk a OR push_bit j b OR c) = a"
    and "take_bit k (drop_bit j (push_bit jk a OR push_bit j b OR c)) = b"
    and "take_bit j (push_bit jk a OR push_bit j b OR c) = c"
proof -
  have 1: "bit c n \<Longrightarrow> n < j" "bit b n \<Longrightarrow> n < k" "bit a n \<Longrightarrow> n < l" for n
    using assms by (metis bit_take_bit_iff)+
  show "drop_bit jk (push_bit jk a OR push_bit j b OR c) = a"
    using assms(4,5) by (intro bit_word_eqI) (auto simp: bit_simps dest: 1)
  show "take_bit k (drop_bit j (push_bit jk a OR push_bit j b OR c)) = b"
    using assms(4,5) by (intro bit_word_eqI) (auto simp: bit_simps dest: 1)
  show "take_bit j (push_bit jk a OR push_bit j b OR c) = c"
    using assms(4,5) by (intro bit_word_eqI) (auto simp: bit_simps dest: 1)
qed

lemma unat_of_nat_u16: "x < 65536 \<Longrightarrow> unat (of_nat x :: u16) = x"
  by (simp add: unat_of_nat take_bit_nat_eq_self)

lemma take_bit_of_nat_u16: "x < 2 ^ j \<Longrightarrow> j \<le> 16 \<Longrightarrow> take_bit j (of_nat x :: u16) = of_nat x"
proof -
  assume x: "x < 2 ^ j" and "j \<le> 16"
  then have "x < 65536" using power_increasing [of j 16 "2 :: nat"] by simp
  then show ?thesis using x
    by (simp add: word_unat_eq_iff unsigned_take_bit_eq unat_of_nat_u16 take_bit_nat_eq_self)
qed

lemma of_nat_half_u16: "x < 65536 \<Longrightarrow> (of_nat x :: u16) div 2 = of_nat (x div 2)"
  by (simp add: word_unat_eq_iff unat_div unat_of_nat_u16)

text \<open>The year of a day number.\<close>

definition year_base :: "int \<Rightarrow> int" where
  "year_base y = 365 * y + y div 4 - y div 100 + y div 400 - 719162"

lemma year_base_mono: "x \<le> y \<Longrightarrow> year_base x \<le> year_base y"
proof (induction y rule: int_ge_induct)
  case (step i)
  then show ?case using leap_step [of "i + 1"] by (simp add: year_base_def split: if_splits)
qed simp

lemma cum_days_bound:
  assumes "valid_date (y, m, d)"
  shows "int (sum_list (take (m - 1) (month_lengths (leap_year y)))) + int d \<le> 365 + (if leap_year y then 1 else 0)"
proof -
  let ?ls = "month_lengths (leap_year y)"
  have v: "1 \<le> m" "m \<le> 12" "d \<le> ?ls ! (m - 1)" using assms by (auto simp: valid_date_def month_length_def)
  have "?ls = take (m - 1) ?ls @ ?ls ! (m - 1) # drop (Suc (m - 1)) ?ls"
    using v(1,2) by (intro id_take_nth_drop) simp
  then have "sum_list ?ls = sum_list (take (m - 1) ?ls) + (?ls ! (m - 1) + sum_list (drop (Suc (m - 1)) ?ls))"
    by (metis sum_list.Cons sum_list_append)
  moreover have "sum_list ?ls = (if leap_year y then 366 else 365)" by (simp add: month_lengths_def)
  ultimately show ?thesis using v(3) by (auto split: if_splits)
qed

lemma civil_day_year:
  assumes "valid_date (y, m, d)"
  shows "year_base (y - 1) \<le> civil_day (y, m, d)" "civil_day (y, m, d) < year_base y"
proof -
  have "1 \<le> d" using assms by (simp add: valid_date_def)
  then show "year_base (y - 1) \<le> civil_day (y, m, d)" by (simp add: civil_day_def year_base_def)
  have lin: "c + d \<le> 365 + L \<Longrightarrow> (a - a') - (b - b') + (e - e') = L \<Longrightarrow>
    365 * (y - 1) + a' - b' + e' + c + d - 1 - k < 365 * y + a - b + e - k"
    for a a' b b' c d e e' k L y :: int by (simp add: right_diff_distrib)
  show "civil_day (y, m, d) < year_base y"
    unfolding civil_day_def year_base_def prod.case
    by (rule lin [OF cum_days_bound [OF assms] leap_step])
qed


text \<open>The two words of a time stamp, packed and taken apart again.\<close>

lemma dos_date_pack:
  assumes "k < 128" "m < 16" "d < 32"
  shows "dos_date (push_bit 9 (of_nat k) OR push_bit 5 (of_nat m) OR of_nat d) = (1980 + int k, m, d)"
proof -
  have tb: "take_bit 5 (of_nat d :: u16) = of_nat d" "take_bit 4 (of_nat m :: u16) = of_nat m"
    "take_bit 7 (of_nat k :: u16) = of_nat k"
    using assms by (auto intro!: take_bit_of_nat_u16)
  have jk: "(9 :: nat) = 5 + 4" "9 + 7 \<le> (16 :: nat)" by simp_all
  show ?thesis unfolding dos_date_def u16_fields [OF tb jk] using assms by (simp add: unat_of_nat_u16 uint_nat)
qed

lemma dos_seconds_pack:
  assumes "h < 32" "mi < 64" "s < 32"
  shows "dos_seconds (date, push_bit 11 (of_nat h) OR push_bit 5 (of_nat mi) OR of_nat s) =
    86400 * civil_day (dos_date date) + 3600 * int h + 60 * int mi + 2 * int s"
proof -
  have tb: "take_bit 5 (of_nat s :: u16) = of_nat s" "take_bit 6 (of_nat mi :: u16) = of_nat mi"
    "take_bit 5 (of_nat h :: u16) = of_nat h"
    using assms by (auto intro!: take_bit_of_nat_u16)
  have jk: "(11 :: nat) = 5 + 6" "11 + 5 \<le> (16 :: nat)" by simp_all
  have u: "uint (of_nat h :: u16) = int h" "uint (of_nat mi :: u16) = int mi" "uint (of_nat s :: u16) = int s"
    using assms by (simp_all only: uint_nat unat_of_nat_u16)
  show ?thesis unfolding dos_seconds_def prod.case u16_fields [OF tb jk] u by (rule refl)
qed

lemma dos_year_range:
  assumes "valid_date (y, m, d)" "3652 \<le> civil_day (y, m, d)" "civil_day (y, m, d) < 50403"
  shows "\<exists>k < 128. y = 1980 + int k"
proof -
  have "\<not> y \<le> 1979" using civil_day_year(2) [OF assms(1)] year_base_mono [of y 1979] assms(2)
    by (auto simp: year_base_def)
  moreover have "\<not> 2107 \<le> y - 1" using civil_day_year(1) [OF assms(1)] year_base_mono [of 2107 "y - 1"] assms(3)
    by (auto simp: year_base_def)
  ultimately have "y = 1980 + int (nat (y - 1980))" "nat (y - 1980) < 128" by linarith+
  then show ?thesis by blast
qed

lemma time_of_day_split:
  fixes secs :: nat
  shows "86400 * int (secs div 86400) + 3600 * int (secs mod 86400 div 3600) + 60 * int (secs mod 86400 mod 3600 div 60)
    + 2 * int (secs mod 86400 mod 60 div 2) = int (secs - secs mod 2)"
proof -
  define tod where "tod = secs mod 86400"
  have lin: "86400 * n + 3600 * h + 60 * mi + 2 * x = u - w"
    if "86400 * n + t = u" "3600 * h + r = t" "60 * mi + q = r" "2 * x + w = q" for n h mi x t u r q w :: nat
    using that by linarith
  have "tod mod 3600 mod 60 = tod mod 60" "tod mod 60 mod 2 = secs mod 2"
    by (simp_all add: tod_def mod_mod_cancel)
  then have "60 * (tod mod 3600 div 60) + tod mod 60 = tod mod 3600" "2 * (tod mod 60 div 2) + secs mod 2 = tod mod 60"
    by (metis mult_div_mod_eq)+
  then have "86400 * (secs div 86400) + 3600 * (tod div 3600) + 60 * (tod mod 3600 div 60) + 2 * (tod mod 60 div 2)
      = secs - secs mod 2"
    by (intro lin [of _ tod _ _ "tod mod 3600"]) (simp_all add: tod_def)
  from arg_cong [OF this, of int] show ?thesis by (simp only: of_nat_add of_nat_mult of_nat_numeral tod_def)
qed

text \<open>
  The time stamps the guest sees: for every time from 1980 to the end of 2107, the range of DOS
  dates, the date and time words of \<^verbatim>\<open>systemtime_to_dos\<close> decode to that time, rounded down to an even
  second.
\<close>

theorem systemtime_to_dos_roundtrip:
  assumes "315532800 \<le> secs" "secs < 4354819200"
  shows "dos_seconds (systemtime_to_dos secs) = int (secs - secs mod 2)"
proof -
  define n where "n = secs div 86400"
  define tod where "tod = secs mod 86400"
  have n: "3652 \<le> n" "n < 50403" using assms by (auto simp: n_def)
  obtain y m d where ymd: "days_to_ymd (int n) = (y, m, d)" by (cases "days_to_ymd (int n)")
  have v: "valid_date (y, m, d)" "civil_day (y, m, d) = int n"
    using days_to_ymd_correct [of "int n"] n ymd by auto
  then obtain k where k: "y = 1980 + int k" "k < 128" using dos_year_range n by fastforce
  have md: "m < 16" "d < 32" using v(1) month_length_bounds [of m y] by (auto simp: valid_date_def)
  have t: "tod div 3600 < 32" "tod mod 3600 div 60 < 64" "tod mod 60 div 2 < 32" "tod mod 60 < 65536"
    by (auto simp: tod_def)
  have "systemtime_to_dos secs =
     (push_bit 9 (of_nat k) OR push_bit 5 (of_nat m) OR of_nat d,
      push_bit 11 (of_nat (tod div 3600)) OR push_bit 5 (of_nat (tod mod 3600 div 60)) OR of_nat (tod mod 60 div 2))"
    unfolding systemtime_to_dos_def Let_def n_def [symmetric] tod_def [symmetric] ymd
    using k of_nat_half_u16 [OF t(4)] by simp
  then have "dos_seconds (systemtime_to_dos secs) =
      86400 * civil_day (y, m, d) + 3600 * int (tod div 3600) + 60 * int (tod mod 3600 div 60) + 2 * int (tod mod 60 div 2)"
    by (simp only: dos_seconds_pack [OF t(1-3)] dos_date_pack [OF k(2) md] k(1))
  then show ?thesis unfolding v(2) n_def tod_def by (simp only: time_of_day_split)
qed

theorem systemtime_to_dos_roundtrip_witness:
  "dos_seconds (systemtime_to_dos 951827696) = 951827696"
  using systemtime_to_dos_roundtrip [of 951827696] by simp

end
