(* ===== verification/Host_Dir.thy ===== *)
theory Host_Dir
  imports DOS_Time UTF8
begin

unbundle bit_operations_syntax

text \<open>
  The rules of the host-directory volume (\<^verbatim>\<open>src/src/loader/vfs_hostdir.rs\<close>) that do not depend on
  the host: wildcard matching, the attribute filter, the sharing table, and the format of the
  files that hold extended attributes. The backend built on them is in \<open>Host_Backend\<close>.
\<close>

section \<open>Wildcards\<close>

abbreviation STAR :: nat where "STAR \<equiv> 42"
abbreviation QUESTION :: nat where "QUESTION \<equiv> 63"

fun wildcard_match_recursive :: "ustring \<Rightarrow> ustring \<Rightarrow> bool" where
  "wildcard_match_recursive [] [] = True"
| "wildcard_match_recursive [] (n # ns) = False"
| "wildcard_match_recursive (p # ps) [] = (if p = STAR then wildcard_match_recursive ps [] else False)"
| "wildcard_match_recursive (p # ps) (n # ns) =
    (if p = STAR then wildcard_match_recursive ps (n # ns) \<or> wildcard_match_recursive (p # ps) ns
     else if p = QUESTION then wildcard_match_recursive ps ns
     else if p = n then wildcard_match_recursive ps ns
     else False)"

definition wildcard_match :: "ustring \<Rightarrow> ustring \<Rightarrow> bool" where
  "wildcard_match pattern name =
    (let p = to_ascii_lowercase pattern; n = to_ascii_lowercase name in
     if p = ustr ''*.*'' then True else wildcard_match_recursive p n)"

text \<open>What a pattern means: each \<^verbatim>\<open>*\<close> stands for any characters, each \<^verbatim>\<open>?\<close> for one, any other
  character for itself.\<close>

definition char_lang :: "nat \<Rightarrow> ustring set" where
  "char_lang p = (if p = STAR then UNIV else if p = QUESTION then {[c] | c. True} else {[p]})"

primrec pattern_lang :: "ustring \<Rightarrow> ustring set" where
  "pattern_lang [] = {[]}"
| "pattern_lang (p # ps) = {u @ v | u v. u \<in> char_lang p \<and> v \<in> pattern_lang ps}"

lemma star_lang: "n # ns \<in> pattern_lang (STAR # ps) \<longleftrightarrow> n # ns \<in> pattern_lang ps \<or> ns \<in> pattern_lang (STAR # ps)"
proof
  assume "n # ns \<in> pattern_lang (STAR # ps)"
  then obtain u v where uv: "n # ns = u @ v" "v \<in> pattern_lang ps" by (auto simp: char_lang_def)
  show "n # ns \<in> pattern_lang ps \<or> ns \<in> pattern_lang (STAR # ps)"
  proof (cases u)
    case (Cons a u')
    then have "ns = u' @ v" using uv(1) by simp
    then show ?thesis using uv(2) by (auto simp: char_lang_def)
  qed (use uv in simp)
next
  assume a: "n # ns \<in> pattern_lang ps \<or> ns \<in> pattern_lang (STAR # ps)"
  then obtain u v where "n # ns = u @ v" "v \<in> pattern_lang ps"
  proof
    assume "ns \<in> pattern_lang (STAR # ps)"
    then obtain u v where "ns = u @ v" "v \<in> pattern_lang ps" by (auto simp: char_lang_def)
    then show thesis by (intro that [of "n # u" v]) auto
  qed (rule that [of "[]"], auto)
  then show "n # ns \<in> pattern_lang (STAR # ps)" by (auto simp: char_lang_def)
qed

lemma question_lang: "n # ns \<in> pattern_lang (QUESTION # ps) \<longleftrightarrow> ns \<in> pattern_lang ps"
proof
  assume "ns \<in> pattern_lang ps"
  then have "n # ns = [n] @ ns \<and> [n] \<in> char_lang QUESTION \<and> ns \<in> pattern_lang ps" by (simp add: char_lang_def)
  then show "n # ns \<in> pattern_lang (QUESTION # ps)" unfolding pattern_lang.simps by blast
qed (auto simp: char_lang_def)

lemma wildcard_recursive_lang: "wildcard_match_recursive ps ns \<longleftrightarrow> ns \<in> pattern_lang ps"
proof (induction ps ns rule: wildcard_match_recursive.induct)
  case (3 p ps)
  then show ?case by (auto simp: char_lang_def)
next
  case (4 p ps n ns)
  show ?case
  proof (cases "p = STAR")
    case True
    then show ?thesis using 4(1,2) star_lang [of n ns ps] by simp
  next
    case False
    then show ?thesis using 4(3,4) question_lang [of n ns ps]
      by (cases "p = QUESTION") (auto simp: char_lang_def)
  qed
qed auto

text \<open>
  C28. \<^verbatim>\<open>wildcard_match\<close> decides the meaning of a pattern, regardless of ASCII case: a name matches
  when it splits into one piece per pattern character, anything for \<^verbatim>\<open>*\<close>, one character for \<^verbatim>\<open>?\<close>,
  the character itself otherwise; and \<^verbatim>\<open>*.*\<close> matches every name, with or without a dot.
\<close>

theorem wildcard_match_spec:
  "wildcard_match pattern name \<longleftrightarrow>
    to_ascii_lowercase pattern = ustr ''*.*'' \<or>
    to_ascii_lowercase name \<in> pattern_lang (to_ascii_lowercase pattern)"
  by (simp add: wildcard_match_def Let_def wildcard_recursive_lang)

section \<open>Attribute filter\<close>

definition attributes_match :: "file_attribute \<Rightarrow> file_attribute \<Rightarrow> bool" where
  "attributes_match entry_attrs filt =
    (let gated = FA_HIDDEN OR FA_SYSTEM OR FA_DIRECTORY;
         entry_gated = entry_attrs AND gated in
     \<not> (entry_gated \<noteq> 0 \<and> entry_gated AND filt \<noteq> entry_gated))"

lemma attributes_match_iff:
  "attributes_match attrs filt \<longleftrightarrow>
    (\<forall>k \<in> {1, 2, 4}. bit attrs k \<longrightarrow> bit filt k)"
proof -
  have g: "bit (FA_HIDDEN OR FA_SYSTEM OR FA_DIRECTORY) k \<longleftrightarrow> k \<in> {1, 2, 4}" for k
  proof -
    have "FA_HIDDEN OR FA_SYSTEM OR FA_DIRECTORY = push_bit 1 1 OR push_bit 2 1 OR push_bit 4 (1 :: u32)"
      by (simp add: FA_HIDDEN_def FA_SYSTEM_def FA_DIRECTORY_def)
    then show ?thesis by (simp only: bit_or_iff bit_push_bit_iff bit_1_iff) auto
  qed
  have "attributes_match attrs filt \<longleftrightarrow>
      (attrs AND (FA_HIDDEN OR FA_SYSTEM OR FA_DIRECTORY)) AND filt = attrs AND (FA_HIDDEN OR FA_SYSTEM OR FA_DIRECTORY)"
    by (auto simp: attributes_match_def Let_def)
  also have "\<dots> \<longleftrightarrow> (\<forall>n<32. ((bit attrs n \<and> n \<in> {1, 2, 4}) \<and> bit filt n) = (bit attrs n \<and> n \<in> {1, 2, 4}))"
    by (simp only: bit_eq_iff bit_and_iff g possible_bit_word) simp
  also have "\<dots> \<longleftrightarrow> (\<forall>k \<in> {1, 2, 4}. bit attrs k \<longrightarrow> bit filt k)"
  proof -
    have "(\<forall>n<32. ((A n \<and> n \<in> K) \<and> B n) = (A n \<and> n \<in> K)) \<longleftrightarrow> (\<forall>k\<in>K. A k \<longrightarrow> B k)"
      if "\<forall>k\<in>K. k < 32" for K :: "nat set" and A B using that by blast
    note lift = this
    show ?thesis by (rule lift) simp
  qed
  finally show ?thesis .
qed

section \<open>Sharing modes\<close>

definition is_sharing_compatible :: "open_mode \<Rightarrow> sharing_mode \<Rightarrow> open_mode \<Rightarrow> sharing_mode \<Rightarrow> bool" where
  "is_sharing_compatible existing_mode existing_sharing new_mode new_sharing =
    (let existing_allows_new = (case existing_sharing of
           DenyReadWrite \<Rightarrow> False | DenyWrite \<Rightarrow> new_mode = ReadOnly
         | DenyRead \<Rightarrow> new_mode = WriteOnly | DenyNone \<Rightarrow> True);
         new_allows_existing = (case new_sharing of
           DenyReadWrite \<Rightarrow> False | DenyWrite \<Rightarrow> existing_mode = ReadOnly
         | DenyRead \<Rightarrow> existing_mode = WriteOnly | DenyNone \<Rightarrow> True) in
     existing_allows_new \<and> new_allows_existing)"

type_synonym host_path = "ustring list"
type_synonym sharing_entry = "u64 \<times> open_mode \<times> sharing_mode"
type_synonym sharing_table = "host_path \<rightharpoonup> sharing_entry list"

definition check_and_add ::
  "sharing_table \<Rightarrow> host_path \<Rightarrow> u64 \<Rightarrow> open_mode \<Rightarrow> sharing_mode \<Rightarrow> (os2_error + unit) \<times> sharing_table" where
  "check_and_add tbl path handle_id mode sharing =
    (let existing = (case tbl path of Some es \<Rightarrow> es | None \<Rightarrow> []) in
     if list_ex (\<lambda>(_, m, s). \<not> is_sharing_compatible m s mode sharing) existing
     then (Inl SHARING_VIOLATION, tbl(path \<mapsto> existing))
     else (Inr (), tbl(path \<mapsto> existing @ [(handle_id, mode, sharing)])))"

definition sharing_remove :: "sharing_table \<Rightarrow> host_path \<Rightarrow> u64 \<Rightarrow> sharing_table" where
  "sharing_remove tbl path handle_id =
    (case tbl path of
       None \<Rightarrow> tbl
     | Some es \<Rightarrow>
         let es' = filter (\<lambda>(i, _, _). i \<noteq> handle_id) es in
         if es' = [] then tbl(path := None) else tbl(path \<mapsto> es'))"

text \<open>What a sharing mode denies to other handles.\<close>

definition can_read :: "open_mode \<Rightarrow> bool" where "can_read m \<longleftrightarrow> m \<noteq> WriteOnly"
definition can_write :: "open_mode \<Rightarrow> bool" where "can_write m \<longleftrightarrow> m \<noteq> ReadOnly"

definition denies :: "sharing_mode \<Rightarrow> open_mode \<Rightarrow> bool" where
  "denies s m \<longleftrightarrow> (s \<in> {DenyReadWrite, DenyWrite} \<and> can_write m) \<or> (s \<in> {DenyReadWrite, DenyRead} \<and> can_read m)"

lemma is_sharing_compatible_iff:
  "is_sharing_compatible m1 s1 m2 s2 \<longleftrightarrow> \<not> denies s1 m2 \<and> \<not> denies s2 m1"
  by (cases s1; cases s2; cases m1; cases m2)
    (simp_all add: is_sharing_compatible_def denies_def can_read_def can_write_def)

text \<open>The entries of a path are of distinct handles and pairwise compatible.\<close>

definition entries_ok :: "sharing_entry list \<Rightarrow> bool" where
  "entries_ok es \<longleftrightarrow> distinct (map fst es) \<and>
    (\<forall>e\<in>set es. \<forall>e'\<in>set es. fst e \<noteq> fst e' \<longrightarrow> \<not> denies (snd (snd e)) (fst (snd e')))"

definition table_ok :: "sharing_table \<Rightarrow> bool" where
  "table_ok tbl \<longleftrightarrow> (\<forall>p es. tbl p = Some es \<longrightarrow> es \<noteq> [] \<and> entries_ok es)"

definition table_entries :: "sharing_table \<Rightarrow> host_path \<Rightarrow> sharing_entry set" where
  "table_entries tbl p = (case tbl p of None \<Rightarrow> {} | Some es \<Rightarrow> set es)"

lemma entries_ok_snoc:
  assumes "entries_ok es" "i \<notin> fst ` set es" "\<forall>(_, m, s)\<in>set es. is_sharing_compatible m s mode sharing"
  shows "entries_ok (es @ [(i, mode, sharing)])"
  using assms unfolding entries_ok_def is_sharing_compatible_iff by (auto simp: image_iff)

lemma check_and_add_ok:
  assumes "check_and_add tbl p i m s = (Inr (), tbl')" "table_ok tbl" "\<forall>q. i \<notin> fst ` table_entries tbl q"
  shows "table_ok tbl' \<and> table_entries tbl' = (table_entries tbl)(p := insert (i, m, s) (table_entries tbl p))"
proof -
  let ?es = "case tbl p of Some es \<Rightarrow> es | None \<Rightarrow> []"
  have c: "\<forall>(_, m', s')\<in>set ?es. is_sharing_compatible m' s' m s" and t: "tbl' = tbl(p \<mapsto> ?es @ [(i, m, s)])"
    using assms(1) by (auto simp: check_and_add_def Let_def list_ex_iff split: if_splits)
  have "entries_ok ?es" using assms(2) by (cases "tbl p") (simp_all add: table_ok_def entries_ok_def [of "[]"])
  moreover have "i \<notin> fst ` set ?es"
    using assms(3) [rule_format, of p] by (auto simp: table_entries_def split: option.splits)
  ultimately have "entries_ok (?es @ [(i, m, s)])" using c by (rule entries_ok_snoc)
  then show ?thesis using assms(2) by (auto simp: t table_ok_def table_entries_def fun_eq_iff split: option.splits)
qed

lemma check_and_add_fails:
  assumes "check_and_add tbl p i m s = (Inl e, tbl')"
  shows "tbl' = tbl \<and> e = SHARING_VIOLATION \<and> (\<exists>(_, m', s')\<in>table_entries tbl p. denies s' m \<or> denies s m')"
  using assms
  by (auto simp: check_and_add_def Let_def list_ex_iff is_sharing_compatible_iff table_entries_def
      fun_upd_idem_iff split: if_splits option.splits)

lemma sharing_remove_ok:
  assumes "table_ok tbl"
  shows "table_ok (sharing_remove tbl p i) \<and>
    table_entries (sharing_remove tbl p i) = (table_entries tbl)(p := {e \<in> table_entries tbl p. fst e \<noteq> i})"
proof (cases "tbl p")
  case (Some es)
  have "entries_ok (filter (\<lambda>(j, _, _). j \<noteq> i) es)"
    using assms Some by (auto simp: table_ok_def entries_ok_def distinct_map_filter)
  then show ?thesis using assms Some
    by (auto simp: sharing_remove_def Let_def table_ok_def table_entries_def fun_eq_iff filter_empty_conv)
qed (simp add: sharing_remove_def table_entries_def assms fun_eq_iff)

section \<open>Extended attributes in side files\<close>

text \<open>The loop of \<^verbatim>\<open>sidecar_read_eas\<close> over the file's bytes, and the bytes \<^verbatim>\<open>sidecar_write_eas\<close> writes.\<close>

function sidecar_decode :: "u8 list \<Rightarrow> ea_entry list" where
  "sidecar_decode data =
    (case data of
       flags # nl # v0 # v1 # rest \<Rightarrow>
         let name_len = unat nl; value_len = unat (le_word [v0, v1] :: u16) in
         if name_len + value_len > length rest then []
         else \<lparr> ea_name = from_utf8_lossy (take name_len rest),
                ea_value = take value_len (drop name_len rest), ea_flags = flags \<rparr>
              # sidecar_decode (drop (name_len + value_len) rest)
     | _ \<Rightarrow> [])"
  by pat_completeness auto
termination by (relation "measure length") auto

declare sidecar_decode.simps [simp del]

definition sidecar_encode_entry :: "ea_entry \<Rightarrow> u8 list" where
  "sidecar_encode_entry ea =
    [ea_flags ea, of_nat (length (as_bytes (ea_name ea)))] @
    le_bytes 2 (of_nat (length (ea_value ea)) :: u16) @ as_bytes (ea_name ea) @ ea_value ea"

definition sidecar_encode :: "ea_entry list \<Rightarrow> u8 list" where
  "sidecar_encode eas = concat (map sidecar_encode_entry eas)"

definition ea_fits :: "ea_entry \<Rightarrow> bool" where
  "ea_fits ea \<longleftrightarrow> list_all is_scalar (ea_name ea) \<and> length (as_bytes (ea_name ea)) < 256 \<and>
    length (ea_value ea) < 65536"

lemma sidecar_decode_entry:
  assumes "ea_fits ea"
  shows "sidecar_decode (sidecar_encode_entry ea @ rest) = ea # sidecar_decode rest"
proof -
  let ?n = "as_bytes (ea_name ea)" and ?v = "ea_value ea"
  have l: "unat (of_nat (length ?n) :: u8) = length ?n" "unat (of_nat (length ?v) :: u16) = length ?v"
    using assms by (simp_all add: ea_fits_def unat_of_nat_u8 unat_of_nat_u16)
  obtain v0 v1 where v: "le_bytes 2 (of_nat (length ?v) :: u16) = [v0, v1]" by (simp add: numeral_2_eq_2)
  then have "(le_word [v0, v1] :: u16) = of_nat (length ?v)" by (metis le_roundtrip(2))
  moreover have "from_utf8_lossy ?n = ea_name ea"
    using assms by (simp add: ea_fits_def from_utf8_lossy_as_bytes)
  ultimately show ?thesis using l v
    by (subst sidecar_decode.simps) (simp add: sidecar_encode_entry_def Let_def)
qed

lemma sidecar_roundtrip: "list_all ea_fits eas \<Longrightarrow> sidecar_decode (sidecar_encode eas) = eas"
proof (induction eas)
  case Nil
  show ?case by (simp add: sidecar_encode_def sidecar_decode.simps [of "[]"])
next
  case (Cons ea eas)
  then show ?case using sidecar_decode_entry [of ea "sidecar_encode eas"] by (simp add: sidecar_encode_def)
qed

end
