(* ===== verification/Host_Backend.thy ===== *)
theory Host_Backend
  imports Host_Dir Rust_Text
begin

unbundle bit_operations_syntax

text \<open>
  The host-directory volume (\<^verbatim>\<open>HostDirBackend\<close> of \<^verbatim>\<open>src/src/loader/vfs_hostdir.rs\<close>): path resolution
  without regard to case, the sandbox check, and every operation of the \<^verbatim>\<open>VfsBackend\<close> interface.

  The host's file system is a parameter: a record of functions over an abstract host state \<open>'h\<close>
  and abstract open files \<open>'f\<close>, one for each call of the standard library or of libc that the code
  makes. A path is the list of its components, which is what Rust compares and hashes. The two
  calls that first ask for a size and then for the data of an extended attribute are one.
\<close>

section \<open>The host\<close>

datatype io_kind =
    IoNotFound
  | IoPermissionDenied
  | IoAlreadyExists
  | IoDirectoryNotEmpty
  | IoOther "nat option"

record open_options =
  oo_read :: bool
  oo_write :: bool
  oo_create :: bool
  oo_truncate :: bool

datatype seek_from = FromStart u64 | FromCurrent int | FromEnd int

record ('h, 'f) host_fs =
  hf_exists :: "'h \<Rightarrow> host_path \<Rightarrow> bool"
  hf_is_dir :: "'h \<Rightarrow> host_path \<Rightarrow> bool"
  hf_canonicalize :: "'h \<Rightarrow> host_path \<Rightarrow> host_path option"
  hf_read_dir :: "'h \<Rightarrow> host_path \<Rightarrow> io_kind + ustring list"
  hf_entry_metadata :: "'h \<Rightarrow> host_path \<Rightarrow> metadata option"
  hf_metadata :: "'h \<Rightarrow> host_path \<Rightarrow> io_kind + metadata"
  hf_now_ms :: "'h \<Rightarrow> nat"
  hf_casefold :: "'h \<Rightarrow> host_path \<Rightarrow> bool"
  hf_open :: "'h \<Rightarrow> open_options \<Rightarrow> host_path \<Rightarrow> (io_kind + 'f) \<times> 'h"
  hf_close :: "'h \<Rightarrow> 'f \<Rightarrow> 'h"
  hf_read :: "'h \<Rightarrow> 'f \<Rightarrow> u8 list \<Rightarrow> ((io_kind + nat) \<times> u8 list) \<times> 'f \<times> 'h"
  hf_write :: "'h \<Rightarrow> 'f \<Rightarrow> u8 list \<Rightarrow> (io_kind + nat) \<times> 'f \<times> 'h"
  hf_seek :: "'h \<Rightarrow> 'f \<Rightarrow> seek_from \<Rightarrow> (io_kind + u64) \<times> 'f \<times> 'h"
  hf_set_len :: "'h \<Rightarrow> 'f \<Rightarrow> u64 \<Rightarrow> (io_kind + unit) \<times> 'f \<times> 'h"
  hf_flush :: "'h \<Rightarrow> 'f \<Rightarrow> (io_kind + unit) \<times> 'f \<times> 'h"
  hf_file_metadata :: "'h \<Rightarrow> 'f \<Rightarrow> io_kind + metadata"
  hf_setlk :: "'h \<Rightarrow> 'f \<Rightarrow> bool \<Rightarrow> file_lock_range \<Rightarrow> nat option \<times> 'f \<times> 'h"
  hf_create_dir :: "'h \<Rightarrow> host_path \<Rightarrow> (io_kind + unit) \<times> 'h"
  hf_remove_dir :: "'h \<Rightarrow> host_path \<Rightarrow> (io_kind + unit) \<times> 'h"
  hf_remove_file :: "'h \<Rightarrow> host_path \<Rightarrow> (io_kind + unit) \<times> 'h"
  hf_rename :: "'h \<Rightarrow> host_path \<Rightarrow> host_path \<Rightarrow> (io_kind + unit) \<times> 'h"
  hf_copy :: "'h \<Rightarrow> host_path \<Rightarrow> host_path \<Rightarrow> (io_kind + unit) \<times> 'h"
  hf_read_file :: "'h \<Rightarrow> host_path \<Rightarrow> u8 list option"
  hf_write_file :: "'h \<Rightarrow> host_path \<Rightarrow> u8 list \<Rightarrow> (io_kind + unit) \<times> 'h"
  hf_create_dir_all :: "'h \<Rightarrow> host_path \<Rightarrow> 'h"
  hf_getxattr :: "'h \<Rightarrow> host_path \<Rightarrow> u8 list \<Rightarrow> nat + u8 list"
  hf_setxattr :: "'h \<Rightarrow> host_path \<Rightarrow> u8 list \<Rightarrow> u8 list \<Rightarrow> nat option \<times> 'h"
  hf_removexattr :: "'h \<Rightarrow> host_path \<Rightarrow> u8 list \<Rightarrow> nat option \<times> 'h"
  hf_listxattr :: "'h \<Rightarrow> host_path \<Rightarrow> nat + u8 list"
  hf_statvfs :: "'h \<Rightarrow> host_path \<Rightarrow> (u64 \<times> u64 \<times> u64) option"

abbreviation ENOSPC :: nat where "ENOSPC \<equiv> 28"
abbreviation E2BIG :: nat where "E2BIG \<equiv> 7"
abbreviation EAGAIN :: nat where "EAGAIN \<equiv> 11"
abbreviation EACCES :: nat where "EACCES \<equiv> 13"
abbreviation ENAMETOOLONG :: nat where "ENAMETOOLONG \<equiv> 36"
abbreviation ENODATA :: nat where "ENODATA \<equiv> 61"
abbreviation ENOTSUP :: nat where "ENOTSUP \<equiv> 95"

definition map_io_error :: "io_kind \<Rightarrow> os2_error" where
  "map_io_error e =
    (case e of
       IoNotFound \<Rightarrow> FILE_NOT_FOUND
     | IoPermissionDenied \<Rightarrow> ACCESS_DENIED
     | IoAlreadyExists \<Rightarrow> FILE_EXISTS
     | IoDirectoryNotEmpty \<Rightarrow> DIRECTORY_NOT_EMPTY
     | IoOther raw \<Rightarrow>
         if raw = Some ENOSPC then DISK_FULL
         else if raw = Some ENAMETOOLONG then FILENAME_EXCED_RANGE
         else ACCESS_DENIED)"

definition vfs_res :: "io_kind + 'a \<Rightarrow> os2_error + 'a" where
  "vfs_res r = (case r of Inl e \<Rightarrow> Inl (map_io_error e) | Inr x \<Rightarrow> Inr x)"

section \<open>Paths\<close>

fun split_slash :: "ustring \<Rightarrow> ustring list" where
  "split_slash [] = [[]]"
| "split_slash (c # cs) =
    (if c = SLASH then [] # split_slash cs
     else case split_slash cs of w # ws \<Rightarrow> (c # w) # ws | [] \<Rightarrow> [[c]])"

abbreviation CUR_DIR :: ustring where "CUR_DIR \<equiv> [DOT]"
abbreviation PARENT_DIR :: ustring where "PARENT_DIR \<equiv> [DOT, DOT]"

text \<open>\<^verbatim>\<open>Path::components\<close> of what follows a root: empty and \<^verbatim>\<open>.\<close> components are dropped.\<close>

definition comps :: "ustring \<Rightarrow> ustring list" where
  "comps s = filter (\<lambda>c. c \<noteq> [] \<and> c \<noteq> CUR_DIR) (split_slash s)"

definition path_join :: "host_path \<Rightarrow> ustring \<Rightarrow> host_path" where
  "path_join p s = (if s \<noteq> [] \<and> hd s = SLASH then comps s else p @ comps s)"

definition path_parent :: "host_path \<Rightarrow> host_path option" where
  "path_parent p = (if p = [] then None else Some (butlast p))"

definition path_file_name :: "host_path \<Rightarrow> ustring option" where
  "path_file_name p = (if p = [] \<or> last p = PARENT_DIR then None else Some (last p))"

definition starts_with :: "host_path \<Rightarrow> host_path \<Rightarrow> bool" where
  "starts_with p root \<longleftrightarrow> take (length root) p = root"

definition path_string :: "host_path \<Rightarrow> ustring" where
  "path_string p = (if p = [] then [SLASH] else concat (map (\<lambda>c. SLASH # c) p))"

text \<open>\<^verbatim>\<open>rfind('/')\<close> and the two sides of it.\<close>

definition split_last :: "ustring \<Rightarrow> ustring \<times> ustring" where
  "split_last p =
    (let f = rev (takeWhile (\<lambda>c. c \<noteq> SLASH) (rev p)) in
     if SLASH \<in> set p then (take (length p - length f - 1) p, f) else ([], p))"

section \<open>The directory cache\<close>

record dir_cache_entry =
  ce_names :: "ustring \<rightharpoonup> ustring"
  ce_created :: nat

definition DIR_CACHE_TTL_MS :: nat where "DIR_CACHE_TTL_MS = 2000"

type_synonym dir_cache = "host_path \<rightharpoonup> dir_cache_entry"

definition listing_names :: "ustring list \<Rightarrow> (ustring \<rightharpoonup> ustring)" where
  "listing_names ns = foldl (\<lambda>m n. m(to_ascii_lowercase n \<mapsto> n)) Map.empty ns"

definition cache_lookup ::
  "('h, 'f) host_fs \<Rightarrow> 'h \<Rightarrow> dir_cache \<Rightarrow> host_path \<Rightarrow> ustring \<Rightarrow> ustring option \<times> dir_cache" where
  "cache_lookup F h cache dir component_lower =
    (case cache dir of
       Some entry \<Rightarrow>
         if hf_now_ms F h - ce_created entry < DIR_CACHE_TTL_MS
         then (ce_names entry component_lower, cache)
         else (case hf_read_dir F h dir of
                 Inl _ \<Rightarrow> (None, cache)
               | Inr ns \<Rightarrow> (listing_names ns component_lower,
                   cache(dir \<mapsto> \<lparr> ce_names = listing_names ns, ce_created = hf_now_ms F h \<rparr>)))
     | None \<Rightarrow>
         (case hf_read_dir F h dir of
            Inl _ \<Rightarrow> (None, cache)
          | Inr ns \<Rightarrow> (listing_names ns component_lower,
              cache(dir \<mapsto> \<lparr> ce_names = listing_names ns, ce_created = hf_now_ms F h \<rparr>))))"

definition cache_invalidate :: "dir_cache \<Rightarrow> host_path option \<Rightarrow> dir_cache" where
  "cache_invalidate cache dir = (case dir of None \<Rightarrow> cache | Some d \<Rightarrow> cache(d := None))"

definition resolve_component ::
  "('h, 'f) host_fs \<Rightarrow> 'h \<Rightarrow> dir_cache \<Rightarrow> host_path \<Rightarrow> ustring \<Rightarrow> ustring option \<times> dir_cache" where
  "resolve_component F h cache dir component =
    (if hf_exists F h (path_join dir component) then (Some component, cache)
     else cache_lookup F h cache dir (to_ascii_lowercase component))"

text \<open>The walk from the root over the components of a relative path.\<close>

fun resolve_walk ::
  "('h, 'f) host_fs \<Rightarrow> 'h \<Rightarrow> host_path \<Rightarrow> dir_cache \<Rightarrow> host_path \<Rightarrow> ustring list \<Rightarrow> host_path option \<times> dir_cache" where
  "resolve_walk F h root cache current [] = (Some current, cache)"
| "resolve_walk F h root cache current (component # rest) =
    (if component = [] \<or> component = CUR_DIR then resolve_walk F h root cache current rest
     else if component = PARENT_DIR then
       (if current \<noteq> root then
          (case path_parent current of
             None \<Rightarrow> (None, cache)
           | Some p \<Rightarrow> resolve_walk F h root cache p rest)
        else resolve_walk F h root cache current rest)
     else
       (case resolve_component F h cache current component of
          (Some resolved, cache') \<Rightarrow> resolve_walk F h root cache' (path_join current resolved) rest
        | (None, cache') \<Rightarrow> (None, cache')))"

definition resolve_path_case_insensitive ::
  "('h, 'f) host_fs \<Rightarrow> 'h \<Rightarrow> dir_cache \<Rightarrow> host_path \<Rightarrow> ustring \<Rightarrow> host_path option \<times> dir_cache" where
  "resolve_path_case_insensitive F h cache root rel_path =
    (if rel_path = [] then (Some root, cache)
     else resolve_walk F h root cache root (split_slash rel_path))"

section \<open>The backend\<close>

record ('h, 'f) host_dir =
  hb_root :: host_path
  hb_files :: "u64 \<rightharpoonup> 'f \<times> host_path"
  hb_finds :: "u64 \<rightharpoonup> dir_entry list \<times> nat"
  hb_sharing :: sharing_table
  hb_cache :: dir_cache
  hb_kernel_casefold :: bool
  hb_xattr_supported :: bool
  hb_next_id :: u64
  hb_host :: 'h

text \<open>\<^verbatim>\<open>CString::new\<close> fails on an embedded zero byte.\<close>

definition cstring :: "u8 list \<Rightarrow> os2_error + u8 list" where
  "cstring bs = (if 0 \<in> set bs then Inl INVALID_PARAMETER else Inr bs)"

definition detect_xattr_support :: "('h, 'f) host_fs \<Rightarrow> 'h \<Rightarrow> host_path \<Rightarrow> bool \<times> 'h" where
  "detect_xattr_support F h p =
    (if 0 \<in> set (as_bytes (path_string p)) then (False, h)
     else
       let test_name = as_bytes (ustr ''user.os2.ea._test'') in
       case hf_setxattr F h p test_name [0x31] of
         (None, h1) \<Rightarrow> (True, snd (hf_removexattr F h1 p test_name))
       | (Some _, h1) \<Rightarrow> (False, h1))"

definition hb_new :: "('h, 'f) host_fs \<Rightarrow> 'h \<Rightarrow> host_path \<Rightarrow> os2_error + ('h, 'f) host_dir" where
  "hb_new F h root =
    (case hf_canonicalize F h root of
       None \<Rightarrow> Inl PATH_NOT_FOUND
     | Some root' \<Rightarrow>
         if \<not> hf_is_dir F h root' then Inl PATH_NOT_FOUND
         else (case detect_xattr_support F h root' of (has_xattr, h') \<Rightarrow>
           Inr \<lparr> hb_root = root', hb_files = Map.empty, hb_finds = Map.empty, hb_sharing = Map.empty,
                 hb_cache = Map.empty, hb_kernel_casefold = hf_casefold F h root',
                 hb_xattr_supported = has_xattr, hb_next_id = 1, hb_host = h' \<rparr>))"

definition alloc_id :: "('h, 'f) host_dir \<Rightarrow> u64 \<times> ('h, 'f) host_dir" where
  "alloc_id s = (hb_next_id s, s\<lparr> hb_next_id := hb_next_id s + 1 \<rparr>)"

definition resolve_ci ::
  "('h, 'f) host_fs \<Rightarrow> ('h, 'f) host_dir \<Rightarrow> ustring \<Rightarrow> host_path option \<times> ('h, 'f) host_dir" where
  "resolve_ci F s rel_path =
    (if hb_kernel_casefold s then
       let candidate = path_join (hb_root s) rel_path in
       (if hf_exists F (hb_host s) candidate then Some candidate else None, s)
     else
       case resolve_path_case_insensitive F (hb_host s) (hb_cache s) (hb_root s) rel_path of
         (r, cache) \<Rightarrow> (r, s\<lparr> hb_cache := cache \<rparr>))"

definition enforce_sandbox :: "('h, 'f) host_fs \<Rightarrow> ('h, 'f) host_dir \<Rightarrow> host_path \<Rightarrow> os2_error option" where
  "enforce_sandbox F s path =
    (let h = hb_host s; root = hb_root s;
         final = (\<lambda>check_path. if starts_with check_path root then None else Some ACCESS_DENIED) in
     if hf_exists F h path then
       (case hf_canonicalize F h path of None \<Rightarrow> Some PATH_NOT_FOUND | Some c \<Rightarrow> final c)
     else
       (case path_parent path of
          None \<Rightarrow> Some PATH_NOT_FOUND
        | Some parent \<Rightarrow>
            if \<not> hf_exists F h parent then Some PATH_NOT_FOUND
            else (case hf_canonicalize F h parent of
                    None \<Rightarrow> Some PATH_NOT_FOUND
                  | Some canon_parent \<Rightarrow>
                      if \<not> starts_with canon_parent root then Some ACCESS_DENIED
                      else (case path_file_name path of
                              None \<Rightarrow> Some PATH_NOT_FOUND
                            | Some filename \<Rightarrow> final (path_join canon_parent filename)))))"

definition resolve_existing ::
  "('h, 'f) host_fs \<Rightarrow> ('h, 'f) host_dir \<Rightarrow> ustring \<Rightarrow> (os2_error + host_path) \<times> ('h, 'f) host_dir" where
  "resolve_existing F s rel_path =
    (case resolve_ci F s rel_path of
       (None, s1) \<Rightarrow> (Inl FILE_NOT_FOUND, s1)
     | (Some p, s1) \<Rightarrow> (case enforce_sandbox F s1 p of Some e \<Rightarrow> (Inl e, s1) | None \<Rightarrow> (Inr p, s1)))"

text \<open>\<^verbatim>\<open>filename.len()\<close> counts bytes.\<close>

definition resolve_for_create ::
  "('h, 'f) host_fs \<Rightarrow> ('h, 'f) host_dir \<Rightarrow> ustring \<Rightarrow> (os2_error + host_path) \<times> ('h, 'f) host_dir" where
  "resolve_for_create F s rel_path =
    (if rel_path = [] then (Inl PATH_NOT_FOUND, s)
     else case split_last rel_path of (parent_rel, filename) \<Rightarrow>
       if length (as_bytes filename) > 254 then (Inl FILENAME_EXCED_RANGE, s)
       else
         (case (if parent_rel = [] then (Some (hb_root s), s) else resolve_ci F s parent_rel) of
            (None, s1) \<Rightarrow> (Inl PATH_NOT_FOUND, s1)
          | (Some parent, s1) \<Rightarrow>
              if \<not> hf_is_dir F (hb_host s1) parent then (Inl PATH_NOT_FOUND, s1)
              else
                let full = path_join parent filename in
                case enforce_sandbox F s1 full of Some e \<Rightarrow> (Inl e, s1) | None \<Rightarrow> (Inr full, s1)))"

subsection \<open>Open files\<close>

text \<open>Which file is opened, and how.\<close>

definition open_target ::
  "('h, 'f) host_fs \<Rightarrow> ('h, 'f) host_dir \<Rightarrow> ustring \<Rightarrow> open_flags
    \<Rightarrow> (os2_error + host_path \<times> open_action) \<times> ('h, 'f) host_dir" where
  "open_target F s path flags =
    (case resolve_ci F s path of
       (Some p, s1) \<Rightarrow>
         (case of_exist_action flags of
            ExistOpen \<Rightarrow>
              (case enforce_sandbox F s1 p of Some e \<Rightarrow> (Inl e, s1) | None \<Rightarrow> (Inr (p, Existed), s1))
          | ExistReplace \<Rightarrow>
              (case enforce_sandbox F s1 p of Some e \<Rightarrow> (Inl e, s1) | None \<Rightarrow> (Inr (p, Replaced), s1))
          | ExistFail \<Rightarrow> (Inl FILE_EXISTS, s1))
     | (None, s1) \<Rightarrow>
         (case of_new_action flags of
            NewCreate \<Rightarrow>
              (case resolve_for_create F s1 path of
                 (Inl e, s2) \<Rightarrow> (Inl e, s2)
               | (Inr p, s2) \<Rightarrow> (Inr (p, Created), s2))
          | NewFail \<Rightarrow> (Inl FILE_NOT_FOUND, s1)))"

definition open_options_for :: "open_mode \<Rightarrow> open_action \<Rightarrow> open_options" where
  "open_options_for mode action =
    \<lparr> oo_read = (mode = ReadOnly \<or> mode = ReadWrite),
      oo_write = (mode = WriteOnly \<or> mode = ReadWrite \<or> action = Created \<or> action = Replaced),
      oo_create = (action = Created \<or> action = Replaced),
      oo_truncate = (action = Replaced) \<rparr>"

definition hb_open ::
  "('h, 'f) host_fs \<Rightarrow> ('h, 'f) host_dir \<Rightarrow> ustring \<Rightarrow> open_mode \<Rightarrow> sharing_mode \<Rightarrow> open_flags
    \<Rightarrow> file_attribute \<Rightarrow> (os2_error + u64 \<times> open_action) \<times> ('h, 'f) host_dir" where
  "hb_open F s path mode sharing flags attributes =
    (case open_target F s path flags of
       (Inl e, s1) \<Rightarrow> (Inl e, s1)
     | (Inr (host_path, action), s1) \<Rightarrow>
         (case alloc_id s1 of (handle_id, s2) \<Rightarrow>
           (case check_and_add (hb_sharing s2) host_path handle_id mode sharing of
              (Inl e, tbl) \<Rightarrow> (Inl e, s2\<lparr> hb_sharing := tbl \<rparr>)
            | (Inr _, tbl) \<Rightarrow>
                (case hf_open F (hb_host s2) (open_options_for mode action) host_path of
                   (Inl e, h) \<Rightarrow>
                     (Inl (map_io_error e),
                      s2\<lparr> hb_sharing := sharing_remove tbl host_path handle_id, hb_host := h \<rparr>)
                 | (Inr file, h) \<Rightarrow>
                     (Inr (handle_id, action),
                      s2\<lparr> hb_sharing := tbl, hb_host := h,
                          hb_cache := (if action = Created \<or> action = Replaced
                                       then cache_invalidate (hb_cache s2) (path_parent host_path)
                                       else hb_cache s2),
                          hb_files := (hb_files s2)(handle_id \<mapsto> (file, host_path)) \<rparr>)))))"

definition hb_close ::
  "('h, 'f) host_fs \<Rightarrow> ('h, 'f) host_dir \<Rightarrow> u64 \<Rightarrow> (os2_error + unit) \<times> ('h, 'f) host_dir" where
  "hb_close F s handle =
    (case hb_files s handle of
       None \<Rightarrow> (Inl INVALID_HANDLE, s)
     | Some (file, host_path) \<Rightarrow>
         (Inr (), s\<lparr> hb_files := (hb_files s)(handle := None),
                     hb_sharing := sharing_remove (hb_sharing s) host_path handle,
                     hb_host := hf_close F (hb_host s) file \<rparr>))"

text \<open>An operation on an open file, which it may move or change.\<close>

definition with_file ::
  "('h, 'f) host_dir \<Rightarrow> u64 \<Rightarrow> ('h \<Rightarrow> 'f \<Rightarrow> (os2_error + 'r) \<times> 'f \<times> 'h)
    \<Rightarrow> (os2_error + 'r) \<times> ('h, 'f) host_dir" where
  "with_file s handle call =
    (case hb_files s handle of
       None \<Rightarrow> (Inl INVALID_HANDLE, s)
     | Some (file, host_path) \<Rightarrow>
         (case call (hb_host s) file of (r, file', h) \<Rightarrow>
           (r, s\<lparr> hb_files := (hb_files s)(handle \<mapsto> (file', host_path)), hb_host := h \<rparr>)))"

definition hb_read ::
  "('h, 'f) host_fs \<Rightarrow> ('h, 'f) host_dir \<Rightarrow> u64 \<Rightarrow> u8 list
    \<Rightarrow> ((os2_error + nat) \<times> u8 list) \<times> ('h, 'f) host_dir" where
  "hb_read F s handle buf =
    (case hb_files s handle of
       None \<Rightarrow> ((Inl INVALID_HANDLE, buf), s)
     | Some (file, host_path) \<Rightarrow>
         (case hf_read F (hb_host s) file buf of ((r, buf'), file', h) \<Rightarrow>
           ((vfs_res r, buf'),
            s\<lparr> hb_files := (hb_files s)(handle \<mapsto> (file', host_path)), hb_host := h \<rparr>)))"

definition hb_write ::
  "('h, 'f) host_fs \<Rightarrow> ('h, 'f) host_dir \<Rightarrow> u64 \<Rightarrow> u8 list \<Rightarrow> (os2_error + nat) \<times> ('h, 'f) host_dir" where
  "hb_write F s handle buf =
    with_file s handle (\<lambda>h f. case hf_write F h f buf of (r, f', h') \<Rightarrow> (vfs_res r, f', h'))"

definition hb_seek ::
  "('h, 'f) host_fs \<Rightarrow> ('h, 'f) host_dir \<Rightarrow> u64 \<Rightarrow> int \<Rightarrow> seek_mode \<Rightarrow> (os2_error + u64) \<times> ('h, 'f) host_dir" where
  "hb_seek F s handle offset mode =
    with_file s handle (\<lambda>h f.
      case hf_seek F h f (case mode of SeekBegin \<Rightarrow> FromStart (of_int offset)
                          | SeekCurrent \<Rightarrow> FromCurrent offset | SeekEnd \<Rightarrow> FromEnd offset) of
        (r, f', h') \<Rightarrow> (vfs_res r, f', h'))"

definition hb_set_file_size ::
  "('h, 'f) host_fs \<Rightarrow> ('h, 'f) host_dir \<Rightarrow> u64 \<Rightarrow> u64 \<Rightarrow> (os2_error + unit) \<times> ('h, 'f) host_dir" where
  "hb_set_file_size F s handle sz =
    with_file s handle (\<lambda>h f. case hf_set_len F h f sz of (r, f', h') \<Rightarrow> (vfs_res r, f', h'))"

definition hb_flush ::
  "('h, 'f) host_fs \<Rightarrow> ('h, 'f) host_dir \<Rightarrow> u64 \<Rightarrow> (os2_error + unit) \<times> ('h, 'f) host_dir" where
  "hb_flush F s handle =
    with_file s handle (\<lambda>h f. case hf_flush F h f of (r, f', h') \<Rightarrow> (vfs_res r, f', h'))"

definition hb_query_file_info ::
  "('h, 'f) host_fs \<Rightarrow> ('h, 'f) host_dir \<Rightarrow> u64 \<Rightarrow> u32 \<Rightarrow> (os2_error + file_status) \<times> ('h, 'f) host_dir" where
  "hb_query_file_info F s handle level =
    (case hb_files s handle of
       None \<Rightarrow> (Inl INVALID_HANDLE, s)
     | Some (file, _) \<Rightarrow>
         (case hf_file_metadata F (hb_host s) file of
            Inl e \<Rightarrow> (Inl (map_io_error e), s)
          | Inr meta \<Rightarrow> (Inr (metadata_to_file_status meta), s)))"

text \<open>The two loops of \<^verbatim>\<open>set_file_locks\<close>: a failed call ends the operation with the locks changed so
  far.\<close>

fun setlk_loop ::
  "('h \<Rightarrow> 'f \<Rightarrow> file_lock_range \<Rightarrow> nat option \<times> 'f \<times> 'h) \<Rightarrow> (nat \<Rightarrow> os2_error) \<Rightarrow> file_lock_range list
    \<Rightarrow> 'f \<Rightarrow> 'h \<Rightarrow> (os2_error + unit) \<times> 'f \<times> 'h" where
  "setlk_loop call err [] f h = (Inr (), f, h)"
| "setlk_loop call err (r # rs) f h =
    (case call h f r of
       (None, f', h') \<Rightarrow> setlk_loop call err rs f' h'
     | (Some errno, f', h') \<Rightarrow> (Inl (err errno), f', h'))"

definition hb_set_file_locks ::
  "('h, 'f) host_fs \<Rightarrow> ('h, 'f) host_dir \<Rightarrow> u64 \<Rightarrow> file_lock_range list \<Rightarrow> file_lock_range list \<Rightarrow> u32
    \<Rightarrow> (os2_error + unit) \<times> ('h, 'f) host_dir" where
  "hb_set_file_locks F s handle unlock lock timeout_ms =
    with_file s handle (\<lambda>h f.
      case setlk_loop (\<lambda>h f r. hf_setlk F h f False r) (\<lambda>_. LOCK_VIOLATION) unlock f h of
        (Inl e, f1, h1) \<Rightarrow> (Inl e, f1, h1)
      | (Inr _, f1, h1) \<Rightarrow>
          setlk_loop (\<lambda>h f r. hf_setlk F h f True r)
            (\<lambda>errno. if errno = EACCES \<or> errno = EAGAIN then LOCK_VIOLATION else ACCESS_DENIED) lock f1 h1)"

subsection \<open>Directory searches\<close>

text \<open>The entries of a listing that match, in the order of the listing.\<close>

definition matching_entries ::
  "('h, 'f) host_fs \<Rightarrow> 'h \<Rightarrow> host_path \<Rightarrow> ustring \<Rightarrow> file_attribute \<Rightarrow> ustring list \<Rightarrow> dir_entry list" where
  "matching_entries F h dir file_pattern attr_filter names =
    concat (map (\<lambda>name.
      if wildcard_match file_pattern name then
        (case hf_entry_metadata F h (path_join dir name) of
           None \<Rightarrow> []
         | Some meta \<Rightarrow>
             let status = metadata_to_file_status meta in
             if attributes_match (fs_attributes status) attr_filter
             then [\<lparr> de_name = name, de_status = status \<rparr>] else [])
      else []) names)"

definition add_dot_entries ::
  "('h, 'f) host_fs \<Rightarrow> 'h \<Rightarrow> host_path \<Rightarrow> ustring \<Rightarrow> file_attribute \<Rightarrow> dir_entry list \<Rightarrow> dir_entry list" where
  "add_dot_entries F h dir file_pattern attr_filter entries =
    (let want = fa_contains attr_filter FA_DIRECTORY;
         e1 = (if wildcard_match file_pattern CUR_DIR \<and> want then
                 (case hf_metadata F h dir of
                    Inr meta \<Rightarrow> \<lparr> de_name = CUR_DIR, de_status = metadata_to_file_status meta \<rparr> # entries
                  | Inl _ \<Rightarrow> entries)
               else entries) in
     if wildcard_match file_pattern PARENT_DIR \<and> want then
       (let parent = (case path_parent dir of Some p \<Rightarrow> p | None \<Rightarrow> dir) in
        case hf_metadata F h parent of
          Inr meta \<Rightarrow>
            let dd = \<lparr> de_name = PARENT_DIR, de_status = metadata_to_file_status meta \<rparr> in
            (case e1 of
               e # es \<Rightarrow> if de_name e = CUR_DIR then e # dd # es else dd # e1
             | [] \<Rightarrow> [dd])
        | Inl _ \<Rightarrow> e1)
     else e1)"

definition hb_find_first ::
  "('h, 'f) host_fs \<Rightarrow> ('h, 'f) host_dir \<Rightarrow> ustring \<Rightarrow> file_attribute
    \<Rightarrow> (os2_error + u64 \<times> dir_entry) \<times> ('h, 'f) host_dir" where
  "hb_find_first F s pattern attr_filter =
    (case split_last pattern of (dir_part, file_pattern) \<Rightarrow>
      (case (if dir_part = [] then (Some (hb_root s), s) else resolve_ci F s dir_part) of
         (None, s1) \<Rightarrow> (Inl PATH_NOT_FOUND, s1)
       | (Some dir, s1) \<Rightarrow>
           (case enforce_sandbox F s1 dir of
              Some e \<Rightarrow> (Inl e, s1)
            | None \<Rightarrow>
                if \<not> hf_is_dir F (hb_host s1) dir then (Inl PATH_NOT_FOUND, s1)
                else (case hf_read_dir F (hb_host s1) dir of
                  Inl e \<Rightarrow> (Inl (map_io_error e), s1)
                | Inr names \<Rightarrow>
                    (case add_dot_entries F (hb_host s1) dir file_pattern attr_filter
                           (matching_entries F (hb_host s1) dir file_pattern attr_filter names) of
                       [] \<Rightarrow> (Inl NO_MORE_FILES, s1)
                     | first # others \<Rightarrow>
                         (case alloc_id s1 of (handle_id, s2) \<Rightarrow>
                           (Inr (handle_id, first),
                            s2\<lparr> hb_finds := (hb_finds s2)(handle_id \<mapsto> (first # others, 1)) \<rparr>)))))))"

definition hb_find_next ::
  "('h, 'f) host_dir \<Rightarrow> u64 \<Rightarrow> (os2_error + dir_entry) \<times> ('h, 'f) host_dir" where
  "hb_find_next s handle =
    (case hb_finds s handle of
       None \<Rightarrow> (Inl INVALID_HANDLE, s)
     | Some (entries, position) \<Rightarrow>
         if position \<ge> length entries then (Inl NO_MORE_FILES, s)
         else (Inr (entries ! position),
               s\<lparr> hb_finds := (hb_finds s)(handle \<mapsto> (entries, position + 1)) \<rparr>))"

definition hb_find_close :: "('h, 'f) host_dir \<Rightarrow> u64 \<Rightarrow> (os2_error + unit) \<times> ('h, 'f) host_dir" where
  "hb_find_close s handle =
    (case hb_finds s handle of
       None \<Rightarrow> (Inl INVALID_HANDLE, s)
     | Some _ \<Rightarrow> (Inr (), s\<lparr> hb_finds := (hb_finds s)(handle := None) \<rparr>))"

subsection \<open>Directories and files by path\<close>

definition invalidate_parent :: "('h, 'f) host_dir \<Rightarrow> host_path \<Rightarrow> ('h, 'f) host_dir" where
  "invalidate_parent s p = s\<lparr> hb_cache := cache_invalidate (hb_cache s) (path_parent p) \<rparr>"

text \<open>A change of one path, after which the listing of its directory is forgotten.\<close>

definition change_path ::
  "(os2_error + host_path) \<times> ('h, 'f) host_dir \<Rightarrow> ('h \<Rightarrow> host_path \<Rightarrow> (io_kind + unit) \<times> 'h)
    \<Rightarrow> (os2_error + unit) \<times> ('h, 'f) host_dir" where
  "change_path resolved call =
    (case resolved of
       (Inl e, s) \<Rightarrow> (Inl e, s)
     | (Inr p, s) \<Rightarrow>
         (case call (hb_host s) p of
            (Inl e, h) \<Rightarrow> (Inl (map_io_error e), s\<lparr> hb_host := h \<rparr>)
          | (Inr _, h) \<Rightarrow> (Inr (), invalidate_parent (s\<lparr> hb_host := h \<rparr>) p)))"

definition hb_create_dir ::
  "('h, 'f) host_fs \<Rightarrow> ('h, 'f) host_dir \<Rightarrow> ustring \<Rightarrow> (os2_error + unit) \<times> ('h, 'f) host_dir" where
  "hb_create_dir F s path = change_path (resolve_for_create F s path) (hf_create_dir F)"

definition hb_delete_dir ::
  "('h, 'f) host_fs \<Rightarrow> ('h, 'f) host_dir \<Rightarrow> ustring \<Rightarrow> (os2_error + unit) \<times> ('h, 'f) host_dir" where
  "hb_delete_dir F s path = change_path (resolve_existing F s path) (hf_remove_dir F)"

definition hb_delete ::
  "('h, 'f) host_fs \<Rightarrow> ('h, 'f) host_dir \<Rightarrow> ustring \<Rightarrow> (os2_error + unit) \<times> ('h, 'f) host_dir" where
  "hb_delete F s path = change_path (resolve_existing F s path) (hf_remove_file F)"

definition hb_rename ::
  "('h, 'f) host_fs \<Rightarrow> ('h, 'f) host_dir \<Rightarrow> ustring \<Rightarrow> ustring \<Rightarrow> (os2_error + unit) \<times> ('h, 'f) host_dir" where
  "hb_rename F s old_path new_path =
    (case resolve_existing F s old_path of
       (Inl e, s1) \<Rightarrow> (Inl e, s1)
     | (Inr old_host, s1) \<Rightarrow>
         (case resolve_for_create F s1 new_path of
            (Inl e, s2) \<Rightarrow> (Inl e, s2)
          | (Inr new_host, s2) \<Rightarrow>
              (case hf_rename F (hb_host s2) old_host new_host of
                 (Inl e, h) \<Rightarrow> (Inl (map_io_error e), s2\<lparr> hb_host := h \<rparr>)
               | (Inr _, h) \<Rightarrow>
                   (Inr (), invalidate_parent (invalidate_parent (s2\<lparr> hb_host := h \<rparr>) old_host) new_host))))"

definition hb_copy ::
  "('h, 'f) host_fs \<Rightarrow> ('h, 'f) host_dir \<Rightarrow> ustring \<Rightarrow> ustring \<Rightarrow> (os2_error + unit) \<times> ('h, 'f) host_dir" where
  "hb_copy F s src_path dst_path =
    (case resolve_existing F s src_path of
       (Inl e, s1) \<Rightarrow> (Inl e, s1)
     | (Inr src_host, s1) \<Rightarrow>
         (case resolve_for_create F s1 dst_path of
            (Inl e, s2) \<Rightarrow> (Inl e, s2)
          | (Inr dst_host, s2) \<Rightarrow>
              (case hf_copy F (hb_host s2) src_host dst_host of
                 (Inl e, h) \<Rightarrow> (Inl (map_io_error e), s2\<lparr> hb_host := h \<rparr>)
               | (Inr _, h) \<Rightarrow> (Inr (), invalidate_parent (s2\<lparr> hb_host := h \<rparr>) dst_host))))"

definition hb_query_path_info ::
  "('h, 'f) host_fs \<Rightarrow> ('h, 'f) host_dir \<Rightarrow> ustring \<Rightarrow> u32 \<Rightarrow> (os2_error + file_status) \<times> ('h, 'f) host_dir" where
  "hb_query_path_info F s path level =
    (case resolve_existing F s path of
       (Inl e, s1) \<Rightarrow> (Inl e, s1)
     | (Inr p, s1) \<Rightarrow>
         (case hf_metadata F (hb_host s1) p of
            Inl e \<Rightarrow> (Inl (map_io_error e), s1)
          | Inr meta \<Rightarrow> (Inr (metadata_to_file_status meta), s1)))"

definition hb_to_host_path ::
  "('h, 'f) host_fs \<Rightarrow> ('h, 'f) host_dir \<Rightarrow> ustring \<Rightarrow> ustring option \<times> ('h, 'f) host_dir" where
  "hb_to_host_path F s rel_path =
    (case resolve_ci F s rel_path of (r, s1) \<Rightarrow> (map_option path_string r, s1))"


subsection \<open>Extended attributes\<close>

definition EA_XATTR_PREFIX :: ustring where "EA_XATTR_PREFIX = ustr ''user.os2.ea.''"

definition xattr_names :: "host_path \<Rightarrow> ustring \<Rightarrow> os2_error + u8 list" where
  "xattr_names p ea_nm =
    (case cstring (as_bytes (path_string p)) of
       Inl e \<Rightarrow> Inl e
     | Inr _ \<Rightarrow> cstring (as_bytes (EA_XATTR_PREFIX @ ea_nm)))"

definition xattr_get_ea :: "('h, 'f) host_fs \<Rightarrow> 'h \<Rightarrow> host_path \<Rightarrow> ustring \<Rightarrow> os2_error + ea_entry" where
  "xattr_get_ea F h p ea_nm =
    (case xattr_names p ea_nm of
       Inl e \<Rightarrow> Inl e
     | Inr c_xattr \<Rightarrow>
         (case hf_getxattr F h p c_xattr of
            Inl errno \<Rightarrow> Inl (if errno = ENODATA \<or> errno = ENOTSUP then EA_NOT_FOUND else ACCESS_DENIED)
          | Inr buf \<Rightarrow>
              Inr (case buf of
                     [] \<Rightarrow> \<lparr> ea_name = ea_nm, ea_value = [], ea_flags = 0 \<rparr>
                   | flags # val \<Rightarrow> \<lparr> ea_name = ea_nm, ea_value = val, ea_flags = flags \<rparr>)))"

definition xattr_set_ea :: "('h, 'f) host_fs \<Rightarrow> 'h \<Rightarrow> host_path \<Rightarrow> ea_entry \<Rightarrow> (os2_error + unit) \<times> 'h" where
  "xattr_set_ea F h p ea =
    (case xattr_names p (ea_name ea) of
       Inl e \<Rightarrow> (Inl e, h)
     | Inr c_xattr \<Rightarrow>
         (case hf_setxattr F h p c_xattr (ea_flags ea # ea_value ea) of
            (None, h') \<Rightarrow> (Inr (), h')
          | (Some errno, h') \<Rightarrow>
              (Inl (if errno = ENOTSUP then ACCESS_DENIED
                    else if errno = ENOSPC \<or> errno = E2BIG then DISK_FULL else ACCESS_DENIED), h')))"

definition xattr_remove_ea :: "('h, 'f) host_fs \<Rightarrow> 'h \<Rightarrow> host_path \<Rightarrow> ustring \<Rightarrow> (os2_error + unit) \<times> 'h" where
  "xattr_remove_ea F h p ea_nm =
    (case xattr_names p ea_nm of
       Inl e \<Rightarrow> (Inl e, h)
     | Inr c_xattr \<Rightarrow>
         (case hf_removexattr F h p c_xattr of
            (None, h') \<Rightarrow> (Inr (), h')
          | (Some errno, h') \<Rightarrow> (if errno \<noteq> ENODATA then Inl ACCESS_DENIED else Inr (), h')))"

text \<open>\<^verbatim>\<open>buf.split(|b| b == 0)\<close>, \<^verbatim>\<open>std::str::from_utf8\<close> and \<^verbatim>\<open>strip_prefix\<close>.\<close>

fun split_nul :: "u8 list \<Rightarrow> u8 list list" where
  "split_nul [] = [[]]"
| "split_nul (b # bs) =
    (if b = 0 then [] # split_nul bs else case split_nul bs of w # ws \<Rightarrow> (b # w) # ws | [] \<Rightarrow> [[b]])"

definition str_from_utf8 :: "u8 list \<Rightarrow> ustring option" where
  "str_from_utf8 bs = (if as_bytes (from_utf8_lossy bs) = bs then Some (from_utf8_lossy bs) else None)"

definition listed_ea :: "('h, 'f) host_fs \<Rightarrow> 'h \<Rightarrow> host_path \<Rightarrow> u8 list \<Rightarrow> ea_entry list" where
  "listed_ea F h p name_bytes =
    (if name_bytes = [] then []
     else case Option.bind (str_from_utf8 name_bytes) (strip_prefix EA_XATTR_PREFIX) of
       None \<Rightarrow> []
     | Some ea_nm \<Rightarrow>
         if ea_nm = [] then []
         else (case xattr_get_ea F h p ea_nm of Inr ea \<Rightarrow> [ea] | Inl _ \<Rightarrow> []))"

definition xattr_list_eas :: "('h, 'f) host_fs \<Rightarrow> 'h \<Rightarrow> host_path \<Rightarrow> os2_error + ea_entry list" where
  "xattr_list_eas F h p =
    (case cstring (as_bytes (path_string p)) of
       Inl e \<Rightarrow> Inl e
     | Inr _ \<Rightarrow>
         (case hf_listxattr F h p of
            Inl errno \<Rightarrow> if errno = ENOTSUP then Inr [] else Inl ACCESS_DENIED
          | Inr buf \<Rightarrow> Inr (concat (map (listed_ea F h p) (split_nul buf)))))"

definition sidecar_ea_path :: "host_path \<Rightarrow> host_path option" where
  "sidecar_ea_path p =
    (case path_parent p of
       None \<Rightarrow> None
     | Some parent \<Rightarrow>
         (case path_file_name p of
            None \<Rightarrow> None
          | Some name \<Rightarrow> Some (path_join (path_join parent (ustr ''.os2ea'')) (name @ ustr ''.ea''))))"

definition sidecar_read_eas :: "('h, 'f) host_fs \<Rightarrow> 'h \<Rightarrow> host_path \<Rightarrow> ea_entry list" where
  "sidecar_read_eas F h p =
    (case sidecar_ea_path p of
       None \<Rightarrow> []
     | Some ea_path \<Rightarrow> (case hf_read_file F h ea_path of None \<Rightarrow> [] | Some data \<Rightarrow> sidecar_decode data))"

definition sidecar_write_eas ::
  "('h, 'f) host_fs \<Rightarrow> 'h \<Rightarrow> host_path \<Rightarrow> ea_entry list \<Rightarrow> (os2_error + unit) \<times> 'h" where
  "sidecar_write_eas F h p eas =
    (case sidecar_ea_path p of
       None \<Rightarrow> (Inl PATH_NOT_FOUND, h)
     | Some ea_path \<Rightarrow>
         if eas = [] then (Inr (), snd (hf_remove_file F h ea_path))
         else
           let h1 = (case path_parent ea_path of Some d \<Rightarrow> hf_create_dir_all F h d | None \<Rightarrow> h) in
           (case hf_write_file F h1 ea_path (sidecar_encode eas) of
              (Inl _, h2) \<Rightarrow> (Inl ACCESS_DENIED, h2)
            | (Inr _, h2) \<Rightarrow> (Inr (), h2)))"

definition hb_get_ea ::
  "('h, 'f) host_fs \<Rightarrow> ('h, 'f) host_dir \<Rightarrow> ustring \<Rightarrow> ustring \<Rightarrow> (os2_error + ea_entry) \<times> ('h, 'f) host_dir" where
  "hb_get_ea F s path name =
    (case resolve_existing F s path of
       (Inl e, s1) \<Rightarrow> (Inl e, s1)
     | (Inr p, s1) \<Rightarrow>
         if hb_xattr_supported s1 then (xattr_get_ea F (hb_host s1) p name, s1)
         else (case find (\<lambda>e. ea_name e = name) (sidecar_read_eas F (hb_host s1) p) of
                 None \<Rightarrow> (Inl EA_NOT_FOUND, s1) | Some ea \<Rightarrow> (Inr ea, s1)))"

definition hb_set_ea ::
  "('h, 'f) host_fs \<Rightarrow> ('h, 'f) host_dir \<Rightarrow> ustring \<Rightarrow> ea_entry \<Rightarrow> (os2_error + unit) \<times> ('h, 'f) host_dir" where
  "hb_set_ea F s path ea =
    (case resolve_existing F s path of
       (Inl e, s1) \<Rightarrow> (Inl e, s1)
     | (Inr p, s1) \<Rightarrow>
         let remove = (ea_value ea = [] \<and> ea_flags ea = 0);
             (r, h) =
               (if hb_xattr_supported s1 then
                  (if remove then xattr_remove_ea F (hb_host s1) p (ea_name ea)
                   else xattr_set_ea F (hb_host s1) p ea)
                else
                  let eas = filter (\<lambda>e. ea_name e \<noteq> ea_name ea) (sidecar_read_eas F (hb_host s1) p) in
                  sidecar_write_eas F (hb_host s1) p (if remove then eas else eas @ [ea])) in
         (r, s1\<lparr> hb_host := h \<rparr>))"

definition hb_enum_ea ::
  "('h, 'f) host_fs \<Rightarrow> ('h, 'f) host_dir \<Rightarrow> ustring \<Rightarrow> (os2_error + ea_entry list) \<times> ('h, 'f) host_dir" where
  "hb_enum_ea F s path =
    (case resolve_existing F s path of
       (Inl e, s1) \<Rightarrow> (Inl e, s1)
     | (Inr p, s1) \<Rightarrow>
         (if hb_xattr_supported s1 then xattr_list_eas F (hb_host s1) p
          else Inr (sidecar_read_eas F (hb_host s1) p), s1))"

subsection \<open>Volume information\<close>

definition hb_query_fs_info_alloc :: "('h, 'f) host_fs \<Rightarrow> ('h, 'f) host_dir \<Rightarrow> os2_error + fs_allocate" where
  "hb_query_fs_info_alloc F s =
    (if 0 \<in> set (as_bytes (path_string (hb_root s))) then Inl PATH_NOT_FOUND
     else case hf_statvfs F (hb_host s) (hb_root s) of
       None \<Rightarrow> Inl ACCESS_DENIED
     | Some (f_frsize, f_blocks, f_bavail) \<Rightarrow>
         Inr \<lparr> fa_id_filesystem = 0, fa_sectors_per_unit = ucast (max (f_frsize div 512) 1),
               fa_total_units = ucast f_blocks, fa_available_units = ucast f_bavail,
               fa_bytes_per_sector = 512 \<rparr>)"

definition volume_serial :: "host_path \<Rightarrow> u32" where
  "volume_serial root = foldl (\<lambda>hash b. hash * 31 + ucast b) 0 (as_bytes (path_string root))"

definition vol_label_path :: "('h, 'f) host_dir \<Rightarrow> host_path" where
  "vol_label_path s = path_join (hb_root s) (ustr ''.vol_label'')"

definition hb_query_fs_info_volume :: "('h, 'f) host_fs \<Rightarrow> ('h, 'f) host_dir \<Rightarrow> fs_volume_info" where
  "hb_query_fs_info_volume F s =
    \<lparr> fv_serial_number = volume_serial (hb_root s),
      fv_label = (case Option.bind (hf_read_file F (hb_host s) (vol_label_path s)) str_from_utf8 of
                    Some t \<Rightarrow> trim t | None \<Rightarrow> ustr ''OS2'') \<rparr>"

definition hb_set_fs_info_volume ::
  "('h, 'f) host_fs \<Rightarrow> ('h, 'f) host_dir \<Rightarrow> ustring \<Rightarrow> (os2_error + unit) \<times> ('h, 'f) host_dir" where
  "hb_set_fs_info_volume F s label =
    (case hf_write_file F (hb_host s) (vol_label_path s) (as_bytes label) of
       (r, h) \<Rightarrow> (vfs_res r, s\<lparr> hb_host := h \<rparr>))"

text \<open>Three methods without effect.\<close>

definition hb_set_file_info ::
  "('h, 'f) host_dir \<Rightarrow> u64 \<Rightarrow> u32 \<Rightarrow> file_status \<Rightarrow> (os2_error + unit) \<times> ('h, 'f) host_dir" where
  "hb_set_file_info s handle level info = (Inr (), s)"

definition hb_set_path_info ::
  "('h, 'f) host_dir \<Rightarrow> ustring \<Rightarrow> u32 \<Rightarrow> file_status \<Rightarrow> (os2_error + unit) \<times> ('h, 'f) host_dir" where
  "hb_set_path_info s path level info = (Inr (), s)"

definition hb_fs_name :: "('h, 'f) host_dir \<Rightarrow> ustring" where
  "hb_fs_name s = ustr ''HPFS''"

subsection \<open>The interface\<close>

definition host_backend :: "('h, 'f) host_fs \<Rightarrow> ('h, 'f) host_dir vfs_backend" where
  "host_backend F =
    \<lparr> be_open = hb_open F, be_close = hb_close F, be_read = hb_read F, be_write = hb_write F,
      be_seek = hb_seek F, be_set_file_size = hb_set_file_size F, be_flush = hb_flush F,
      be_find_first = hb_find_first F, be_find_next = hb_find_next, be_find_close = hb_find_close,
      be_create_dir = hb_create_dir F, be_delete_dir = hb_delete_dir F, be_delete = hb_delete F,
      be_rename = hb_rename F, be_copy = hb_copy F, be_query_path_info = hb_query_path_info F,
      be_query_file_info = hb_query_file_info F, be_set_file_info = hb_set_file_info,
      be_set_path_info = hb_set_path_info, be_get_ea = hb_get_ea F, be_set_ea = hb_set_ea F,
      be_enum_ea = hb_enum_ea F,
      be_query_fs_info_alloc = (\<lambda>s. (hb_query_fs_info_alloc F s, s)),
      be_query_fs_info_volume = (\<lambda>s. (Inr (hb_query_fs_info_volume F s), s)),
      be_set_fs_info_volume = hb_set_fs_info_volume F, be_fs_name = hb_fs_name,
      be_set_file_locks = hb_set_file_locks F,
      be_to_host_path = hb_to_host_path F \<rparr>"

end
