(* ===== verification/Host_Safety.thy ===== *)
theory Host_Safety
  imports Host_Backend
begin

unbundle bit_operations_syntax

text \<open>
  Properties of the host-directory volume: resolved paths stay below the volume's root, an opened
  file has passed the sandbox check, sharing modes are enforced between all open handles, a search
  delivers every matching entry once, and extended attributes survive being stored. They hold for
  every host; where the host's behaviour matters it is a hypothesis.
\<close>

section \<open>Paths stay below the root\<close>

text \<open>A name that a directory can contain.\<close>

definition proper_name :: "ustring \<Rightarrow> bool" where
  "proper_name n \<longleftrightarrow> n \<noteq> [] \<and> n \<noteq> CUR_DIR \<and> n \<noteq> PARENT_DIR \<and> SLASH \<notin> set n"

text \<open>\<^verbatim>\<open>std::fs::read_dir\<close> yields file names and skips the entries for the current and parent
  directory.\<close>

definition read_dir_proper :: "('h, 'f) host_fs \<Rightarrow> bool" where
  "read_dir_proper F \<longleftrightarrow> (\<forall>h d ns. hf_read_dir F h d = Inr ns \<longrightarrow> list_all proper_name ns)"

definition cache_proper :: "dir_cache \<Rightarrow> bool" where
  "cache_proper c \<longleftrightarrow> (\<forall>d e k n. c d = Some e \<longrightarrow> ce_names e k = Some n \<longrightarrow> proper_name n)"

lemma split_slash_no_slash: "w \<in> set (split_slash s) \<Longrightarrow> SLASH \<notin> set w"
proof (induction s arbitrary: w)
  case (Cons c cs)
  show ?case
  proof (cases "split_slash cs")
    case Nil
    then show ?thesis using Cons.prems by (auto split: if_splits)
  next
    case (Cons v vs)
    then show ?thesis using Cons.prems Cons.IH [of v] Cons.IH [of w] by (auto split: if_splits)
  qed
qed simp

lemma split_slash_single: "SLASH \<notin> set s \<Longrightarrow> split_slash s = [s]"
  by (induction s) auto

lemma path_join_proper [simp]: "proper_name n \<Longrightarrow> path_join p n = p @ [n]"
  by (cases n) (auto simp: path_join_def proper_name_def comps_def split_slash_single)

lemma listing_names_in: "listing_names ns k = Some n \<Longrightarrow> n \<in> set ns"
proof -
  have "foldl (\<lambda>m n. m(to_ascii_lowercase n \<mapsto> n)) m ns k = Some n \<Longrightarrow> m k = Some n \<or> n \<in> set ns" for m
    by (induction ns arbitrary: m) (fastforce split: if_splits)+
  then show "listing_names ns k = Some n \<Longrightarrow> n \<in> set ns" by (fastforce simp: listing_names_def)
qed

lemma cache_lookup_proper:
  assumes "cache_lookup F h c d k = (r, c')" "read_dir_proper F" "cache_proper c"
  shows "cache_proper c' \<and> (\<forall>n. r = Some n \<longrightarrow> proper_name n)"
proof -
  have fresh: "cache_proper (c(d \<mapsto> \<lparr> ce_names = listing_names ns, ce_created = t \<rparr>)) \<and>
      (\<forall>n. listing_names ns k = Some n \<longrightarrow> proper_name n)" if "hf_read_dir F h d = Inr ns" for ns t
    using that assms(2,3) by (auto simp: read_dir_proper_def cache_proper_def list_all_iff dest!: listing_names_in)
  show ?thesis using assms fresh
    by (auto simp: cache_lookup_def cache_proper_def split: option.splits if_splits sum.splits)
qed

lemma resolve_component_proper:
  assumes "resolve_component F h c d n = (r, c')" "read_dir_proper F" "cache_proper c" "proper_name n"
  shows "cache_proper c' \<and> (\<forall>m. r = Some m \<longrightarrow> proper_name m)"
  using assms cache_lookup_proper [of F h c d "to_ascii_lowercase n" r c']
  by (auto simp: resolve_component_def split: if_splits)

lemma resolve_walk_below:
  assumes "resolve_walk F h root c cur ws = (r, c')" "read_dir_proper F" "cache_proper c"
    and "cur = root @ ns" "list_all proper_name ns" "\<forall>w\<in>set ws. SLASH \<notin> set w"
  shows "cache_proper c' \<and> (\<forall>p. r = Some p \<longrightarrow> (\<exists>ms. p = root @ ms \<and> list_all proper_name ms))"
  using assms
proof (induction ws arbitrary: c cur ns)
  case (Cons w ws)
  show ?case
  proof (cases "w = [] \<or> w = CUR_DIR")
    case True
    then show ?thesis using Cons.IH [of c cur ns] Cons.prems by auto
  next
    case plain: False
    show ?thesis
    proof (cases "w = PARENT_DIR")
      case True
      show ?thesis
      proof (cases "ns = []")
        case ne: False
        then have "path_parent cur = Some (root @ butlast ns)" "cur \<noteq> root"
          using Cons.prems(4) by (auto simp: path_parent_def butlast_append)
        moreover have "list_all proper_name (butlast ns)"
          using Cons.prems(5) by (auto simp: list_all_iff dest: in_set_butlastD)
        ultimately show ?thesis using Cons.IH [of c "root @ butlast ns" "butlast ns"] Cons.prems True plain by auto
      qed (use Cons.IH [of c cur ns] Cons.prems True plain in auto)
    next
      case False
      then have pw: "proper_name w" using plain Cons.prems(6) by (simp add: proper_name_def)
      obtain r1 c1 where rc: "resolve_component F h c cur w = (r1, c1)" by fastforce
      note p = resolve_component_proper [OF rc Cons.prems(2,3) pw]
      show ?thesis
      proof (cases r1)
        case None
        then show ?thesis using Cons.prems(1) rc p plain False by auto
      next
        case (Some n)
        then have "resolve_walk F h root c1 (root @ (ns @ [n])) ws = (r, c')" "list_all proper_name (ns @ [n])"
          using Cons.prems(1,4,5) rc p plain False by auto
        then show ?thesis using Cons.IH [of c1 "root @ (ns @ [n])" "ns @ [n]"] Cons.prems(2,6) p by auto
      qed
    qed
  qed
qed auto


section \<open>The sandbox check\<close>

text \<open>What \<^verbatim>\<open>enforce_sandbox\<close> establishes for a path: its canonical form, or that of its directory if
  it does not exist yet, is below the root.\<close>

definition sandboxed :: "('h, 'f) host_fs \<Rightarrow> 'h \<Rightarrow> host_path \<Rightarrow> host_path \<Rightarrow> bool" where
  "sandboxed F h root p \<longleftrightarrow>
    (if hf_exists F h p then (\<exists>c. hf_canonicalize F h p = Some c \<and> starts_with c root)
     else (\<exists>d c n. path_parent p = Some d \<and> hf_exists F h d \<and> hf_canonicalize F h d = Some c \<and>
             starts_with c root \<and> path_file_name p = Some n \<and> starts_with (path_join c n) root))"

lemma enforce_sandbox_iff: "enforce_sandbox F s p = None \<longleftrightarrow> sandboxed F (hb_host s) (hb_root s) p"
  by (auto simp: enforce_sandbox_def sandboxed_def Let_def split: option.splits)

lemma resolve_ci_frame:
  "resolve_ci F s rel = (r, s') \<Longrightarrow> \<exists>c. s' = s\<lparr> hb_cache := c \<rparr>"
proof (cases "hb_kernel_casefold s")
  case True
  assume "resolve_ci F s rel = (r, s')"
  then have "s' = s" using True by (auto simp: resolve_ci_def Let_def)
  then show ?thesis by (intro exI [of _ "hb_cache s"]) simp
qed (auto simp: resolve_ci_def split: prod.splits)

lemma resolve_existing_frame:
  "resolve_existing F s rel = (r, s') \<Longrightarrow> (\<exists>c. s' = s\<lparr> hb_cache := c \<rparr>) \<and>
     (\<forall>p. r = Inr p \<longrightarrow> sandboxed F (hb_host s) (hb_root s) p)"
  by (auto simp: resolve_existing_def enforce_sandbox_iff split: prod.splits option.splits dest!: resolve_ci_frame)


lemma resolve_for_create_frame:
  assumes "resolve_for_create F s rel = (r, s')"
  shows "(\<exists>c. s' = s\<lparr> hb_cache := c \<rparr>) \<and> (\<forall>p. r = Inr p \<longrightarrow> sandboxed F (hb_host s) (hb_root s) p)"
proof -
  obtain dp fn where sl: "split_last rel = (dp, fn)" by fastforce
  let ?q = "if dp = [] then (Some (hb_root s), s) else resolve_ci F s dp"
  obtain par s1 where q: "?q = (par, s1)" by fastforce
  have fr: "\<exists>c. s1 = s\<lparr> hb_cache := c \<rparr>"
  proof (cases "dp = []")
    case True
    then show ?thesis using q by (intro exI [of _ "hb_cache s"]) simp
  qed (use q in \<open>auto dest: resolve_ci_frame\<close>)
  have same: "\<exists>c. s = s\<lparr> hb_cache := c \<rparr>" by (intro exI [of _ "hb_cache s"]) simp
  show ?thesis
  proof (cases "rel = [] \<or> length (as_bytes fn) > 254")
    case True
    then have "s' = s \<and> (\<exists>e. r = Inl e)"
      using assms sl by (cases "rel = []") (auto simp: resolve_for_create_def)
    then show ?thesis using same by blast
  next
    case False
    then have "s' = s1 \<and> (\<forall>p. r = Inr p \<longrightarrow> sandboxed F (hb_host s1) (hb_root s1) p)"
      using assms sl q
      by (cases par) (auto simp: resolve_for_create_def Let_def enforce_sandbox_iff split: if_splits option.splits)
    moreover have "hb_host s1 = hb_host s" "hb_root s1 = hb_root s" using fr by auto
    ultimately show ?thesis using fr by metis
  qed
qed

lemma open_target_frame:
  assumes "open_target F s path flags = (r, s')"
  shows "(\<exists>c. s' = s\<lparr> hb_cache := c \<rparr>) \<and>
    (\<forall>p a. r = Inr (p, a) \<longrightarrow> sandboxed F (hb_host s) (hb_root s) p)"
proof -
  obtain q s1 where q: "resolve_ci F s path = (q, s1)" by fastforce
  obtain c where c: "s1 = s\<lparr> hb_cache := c \<rparr>" using resolve_ci_frame [OF q] by blast
  show ?thesis
  proof (cases q)
    case (Some p)
    then show ?thesis using assms q c
      by (auto simp: open_target_def enforce_sandbox_iff split: exist_action.splits option.splits)
  next
    case None
    show ?thesis
    proof (cases "of_new_action flags")
      case NewCreate
      obtain q2 s2 where q2: "resolve_for_create F s1 path = (q2, s2)" by fastforce
      then show ?thesis using resolve_for_create_frame [OF q2] assms q c None NewCreate
        by (cases q2) (auto simp: open_target_def)
    qed (use assms q c None in \<open>auto simp: open_target_def\<close>)
  qed
qed

text \<open>Every way an open can end.\<close>

lemma hb_open_cases:
  assumes "hb_open F s path mode sh flags attr = (r, s')"
  obtains (early) e c where "r = Inl e" "s' = s\<lparr> hb_cache := c \<rparr>"
  | (violation) c p where "r = Inl SHARING_VIOLATION" "s' = s\<lparr> hb_cache := c, hb_next_id := hb_next_id s + 1 \<rparr>"
      "\<exists>(_, m', s')\<in>table_entries (hb_sharing s) p. denies s' mode \<or> denies sh m'"
  | (failed) e c tbl p h where "r = Inl e" "check_and_add (hb_sharing s) p (hb_next_id s) mode sh = (Inr (), tbl)"
      "s' = s\<lparr> hb_cache := c, hb_next_id := hb_next_id s + 1,
               hb_sharing := sharing_remove tbl p (hb_next_id s), hb_host := h \<rparr>"
  | (opened) act c tbl p h fh where "r = Inr (hb_next_id s, act)"
      "check_and_add (hb_sharing s) p (hb_next_id s) mode sh = (Inr (), tbl)"
      "sandboxed F (hb_host s) (hb_root s) p"
      "hf_open F (hb_host s) (open_options_for mode act) p = (Inr fh, h)"
      "s' = s\<lparr> hb_cache := c, hb_next_id := hb_next_id s + 1, hb_sharing := tbl, hb_host := h,
               hb_files := (hb_files s)(hb_next_id s \<mapsto> (fh, p)) \<rparr>"
proof -
  obtain q s1 where q: "open_target F s path flags = (q, s1)" by fastforce
  obtain c where c: "s1 = s\<lparr> hb_cache := c \<rparr>" using open_target_frame [OF q] by blast
  show thesis
  proof (cases q)
    case (Inl e)
    then show thesis using assms q c by (intro early) (auto simp: hb_open_def)
  next
    case (Inr pa)
    obtain p act where pa: "pa = (p, act)" by fastforce
    have sb: "sandboxed F (hb_host s) (hb_root s) p" using open_target_frame [OF q] Inr pa by blast
    obtain r2 tbl where ca: "check_and_add (hb_sharing s) p (hb_next_id s) mode sh = (r2, tbl)" by fastforce
    show thesis
    proof (cases r2)
      case (Inl e)
      note v = check_and_add_fails [OF ca [unfolded Inl]]
      then show thesis using assms q c Inr pa ca Inl
        by (intro violation [where c = c and p = p]) (auto simp: hb_open_def alloc_id_def)
    next
      case ok: (Inr u)
      obtain r3 h where op: "hf_open F (hb_host s) (open_options_for mode act) p = (r3, h)" by fastforce
      show thesis
      proof (cases r3)
        case (Inl e)
        then show thesis using assms q c Inr pa ca ok op
          by (intro failed [where p = p and tbl = tbl and c = c and h = h]) (auto simp: hb_open_def alloc_id_def)
      next
        case opn: (Inr fh)
        then show thesis using assms q c Inr pa ca ok op sb
          by (intro opened [where act = act and p = p and tbl = tbl and fh = fh and h = h
              and c = "if act = Created \<or> act = Replaced then cache_invalidate c (path_parent p) else c"]) (auto simp: hb_open_def alloc_id_def)
      qed
    qed
  qed
qed

text \<open>
  Every file the volume opens for a guest has passed the sandbox check: at the time of the call
  the file's canonical path, or its directory's if the file is new, was below the volume's root,
  and it is that path that was handed to the host.
\<close>

theorem hb_open_sandboxed:
  assumes "hb_open F s path mode sh flags attr = (Inr (h, act), s')"
  shows "\<exists>file p. hb_files s' h = Some (file, p) \<and> sandboxed F (hb_host s) (hb_root s) p \<and>
    fst (hf_open F (hb_host s) (open_options_for mode act) p) = Inr file"
  using assms by (cases rule: hb_open_cases) auto


section \<open>Sharing modes across calls\<close>

inductive hb_step :: "('h, 'f) host_fs \<Rightarrow> ('h, 'f) host_dir \<Rightarrow> ('h, 'f) host_dir \<Rightarrow> bool" for F s where
  st_open: "hb_open F s path mode sh flags attr = (r, s') \<Longrightarrow> hb_step F s s'"
| st_close: "hb_close F s h = (r1, s') \<Longrightarrow> hb_step F s s'"
| st_read: "hb_read F s h buf = (r2, s') \<Longrightarrow> hb_step F s s'"
| st_write: "hb_write F s h buf = (r3, s') \<Longrightarrow> hb_step F s s'"
| st_seek: "hb_seek F s h i sm = (r4, s') \<Longrightarrow> hb_step F s s'"
| st_size: "hb_set_file_size F s h n = (r5, s') \<Longrightarrow> hb_step F s s'"
| st_flush: "hb_flush F s h = (r6, s') \<Longrightarrow> hb_step F s s'"
| st_locks: "hb_set_file_locks F s h us ls t = (r7, s') \<Longrightarrow> hb_step F s s'"
| st_qfile: "hb_query_file_info F s h l = (r8, s') \<Longrightarrow> hb_step F s s'"
| st_ffirst: "hb_find_first F s pat attr = (r9, s') \<Longrightarrow> hb_step F s s'"
| st_fnext: "hb_find_next s h = (r10, s') \<Longrightarrow> hb_step F s s'"
| st_fclose: "hb_find_close s h = (r11, s') \<Longrightarrow> hb_step F s s'"
| st_mkdir: "hb_create_dir F s p = (r12, s') \<Longrightarrow> hb_step F s s'"
| st_rmdir: "hb_delete_dir F s p = (r13, s') \<Longrightarrow> hb_step F s s'"
| st_delete: "hb_delete F s p = (r14, s') \<Longrightarrow> hb_step F s s'"
| st_rename: "hb_rename F s p q = (r15, s') \<Longrightarrow> hb_step F s s'"
| st_copy: "hb_copy F s p q = (r16, s') \<Longrightarrow> hb_step F s s'"
| st_qpath: "hb_query_path_info F s p l = (r17, s') \<Longrightarrow> hb_step F s s'"
| st_getea: "hb_get_ea F s p nm = (r18, s') \<Longrightarrow> hb_step F s s'"
| st_setea: "hb_set_ea F s p ea = (r19, s') \<Longrightarrow> hb_step F s s'"
| st_enumea: "hb_enum_ea F s p = (r20, s') \<Longrightarrow> hb_step F s s'"
| st_label: "hb_set_fs_info_volume F s lb = (r21, s') \<Longrightarrow> hb_step F s s'"
| st_host: "hb_to_host_path F s p = (r22, s') \<Longrightarrow> hb_step F s s'"

inductive hb_reach :: "('h, 'f) host_fs \<Rightarrow> ('h, 'f) host_dir \<Rightarrow> nat \<Rightarrow> ('h, 'f) host_dir \<Rightarrow> bool" for F s0 where
  reach_start: "hb_reach F s0 0 s0"
| reach_step: "hb_reach F s0 n s \<Longrightarrow> hb_step F s s' \<Longrightarrow> hb_reach F s0 (Suc n) s'"

text \<open>The sharing table holds exactly the open files, with compatible modes.\<close>

definition hb_inv :: "('h, 'f) host_dir \<Rightarrow> bool" where
  [inv_defs]: "hb_inv s \<longleftrightarrow> table_ok (hb_sharing s) \<and>
    (\<forall>i p. (\<exists>f. hb_files s i = Some (f, p)) \<longleftrightarrow> (\<exists>m sh. (i, m, sh) \<in> table_entries (hb_sharing s) p)) \<and>
    (\<forall>i. hb_files s i \<noteq> None \<longrightarrow> unat i < unat (hb_next_id s))"

text \<open>What the other operations leave alone.\<close>

definition same_files :: "('h, 'f) host_dir \<Rightarrow> ('h, 'f) host_dir \<Rightarrow> bool" where
  "same_files s s' \<longleftrightarrow> hb_sharing s' = hb_sharing s \<and>
    (\<forall>i. map_option snd (hb_files s' i) = map_option snd (hb_files s i)) \<and>
    hb_next_id s' \<in> {hb_next_id s, hb_next_id s + 1}"

lemma same_files_cache: "(\<exists>c. s' = s\<lparr> hb_cache := c \<rparr>) \<Longrightarrow> same_files s s'"
  by (auto simp: same_files_def)

lemma with_file_same: "with_file s h call = (r, s') \<Longrightarrow> same_files s s'"
  by (auto simp: with_file_def same_files_def split: option.splits prod.splits)

lemma change_path_same:
  assumes "change_path q call = (r, s')" "snd q = s1" "\<exists>c. s1 = s\<lparr> hb_cache := c \<rparr>"
  shows "same_files s s'"
  using assms
  by (auto simp: change_path_def same_files_def invalidate_parent_def split: prod.splits sum.splits)

lemma hb_step_same:
  assumes "hb_step F s s'"
  shows "(\<exists>path mode sh flags attr r. hb_open F s path mode sh flags attr = (r, s')) \<or>
    (\<exists>h r. hb_close F s h = (r, s')) \<or> same_files s s'"
  using assms
proof cases
  case (st_mkdir p r)
  obtain q s1 where "resolve_for_create F s p = (q, s1)" by fastforce
  then have "same_files s s'"
    using st_mkdir resolve_for_create_frame [of F s p q s1] by (intro change_path_same) (auto simp: hb_create_dir_def)
  then show ?thesis by blast
next
  case (st_rmdir p r)
  obtain q s1 where "resolve_existing F s p = (q, s1)" by fastforce
  then have "same_files s s'"
    using st_rmdir resolve_existing_frame [of F s p q s1] by (intro change_path_same) (auto simp: hb_delete_dir_def)
  then show ?thesis by blast
next
  case (st_delete p r)
  obtain q s1 where "resolve_existing F s p = (q, s1)" by fastforce
  then have "same_files s s'"
    using st_delete resolve_existing_frame [of F s p q s1] by (intro change_path_same) (auto simp: hb_delete_def)
  then show ?thesis by blast
next
  case (st_rename p q r)
  obtain a s1 where a: "resolve_existing F s p = (a, s1)" by fastforce
  obtain b s2 where b: "resolve_for_create F s1 q = (b, s2)" by fastforce
  have "same_files s s'"
    using st_rename a b resolve_existing_frame [OF a] resolve_for_create_frame [OF b]
    by (cases a; cases b)
      (auto simp: hb_rename_def same_files_def invalidate_parent_def split: prod.splits sum.splits)
  then show ?thesis by blast
next
  case (st_copy p q r)
  obtain a s1 where a: "resolve_existing F s p = (a, s1)" by fastforce
  obtain b s2 where b: "resolve_for_create F s1 q = (b, s2)" by fastforce
  have "same_files s s'"
    using st_copy a b resolve_existing_frame [OF a] resolve_for_create_frame [OF b]
    by (cases a; cases b)
      (auto simp: hb_copy_def same_files_def invalidate_parent_def split: prod.splits sum.splits)
  then show ?thesis by blast
next
  case (st_qpath p l r)
  then have "same_files s s'"
    by (auto simp: hb_query_path_info_def same_files_def split: prod.splits sum.splits dest!: resolve_existing_frame)
  then show ?thesis by blast
next
  case (st_getea p nm r)
  then have "same_files s s'"
    by (auto simp: hb_get_ea_def same_files_def split: prod.splits sum.splits if_splits option.splits
        dest!: resolve_existing_frame)
  then show ?thesis by blast
next
  case (st_setea p ea r)
  then have "same_files s s'"
    by (auto simp: hb_set_ea_def same_files_def Let_def split: prod.splits sum.splits if_splits
        dest!: resolve_existing_frame)
  then show ?thesis by blast
next
  case (st_enumea p r)
  then have "same_files s s'"
    by (auto simp: hb_enum_ea_def same_files_def split: prod.splits sum.splits if_splits dest!: resolve_existing_frame)
  then show ?thesis by blast
next
  case (st_ffirst pat attr r)
  obtain dp fp where sl: "split_last pat = (dp, fp)" by fastforce
  obtain d s1 where q: "(if dp = [] then (Some (hb_root s), s) else resolve_ci F s dp) = (d, s1)" by fastforce
  have "same_files s s1" using q
    by (auto simp: same_files_def split: if_splits dest!: resolve_ci_frame)
  moreover have "hb_next_id s1 = hb_next_id s" using q by (auto split: if_splits dest!: resolve_ci_frame)
  ultimately have "same_files s s'"
    using st_ffirst sl q by (auto simp: hb_find_first_def alloc_id_def same_files_def
        split: option.splits if_splits sum.splits list.splits)
  then show ?thesis by blast
next
  case (st_host p r)
  then have "same_files s s'"
    by (auto simp: hb_to_host_path_def same_files_def split: prod.splits dest!: resolve_ci_frame)
  then show ?thesis by blast
qed (auto simp: hb_write_def hb_seek_def hb_set_file_size_def hb_flush_def hb_set_file_locks_def
    hb_read_def hb_query_file_info_def hb_find_next_def hb_find_close_def hb_set_fs_info_volume_def same_files_def
    split: option.splits prod.splits sum.splits if_splits dest!: with_file_same)


lemma same_files_inv:
  assumes "same_files s s'" "hb_inv s" "unat (hb_next_id s) + 1 < 2 ^ 64"
  shows "hb_inv s'"
proof -
  have n: "unat (hb_next_id s) \<le> unat (hb_next_id s')"
    using assms(1,3) by (auto simp: same_files_def unat_word_ariths)
  have f: "(\<exists>f. hb_files s' i = Some (f, p)) \<longleftrightarrow> (\<exists>f. hb_files s i = Some (f, p))" for i p
  proof -
    have "map_option snd (hb_files s' i) = map_option snd (hb_files s i)"
      using assms(1) by (simp add: same_files_def)
    then show ?thesis by (cases "hb_files s' i"; cases "hb_files s i") auto
  qed
  have "unat i < unat (hb_next_id s')" if "hb_files s' i \<noteq> None" for i
  proof -
    have "hb_files s i \<noteq> None" using that f [of i] by (metis option.exhaust surj_pair option.distinct(1))
    then have "unat i < unat (hb_next_id s)" using assms(2) by (simp add: hb_inv_def)
    then show ?thesis using n by linarith
  qed
  moreover have "hb_sharing s' = hb_sharing s" using assms(1) by (simp add: same_files_def)
  ultimately show ?thesis using assms(2) f by (simp add: hb_inv_def)
qed

lemma hb_inv_fresh:
  assumes "hb_inv s"
  shows "(hb_next_id s, m, sh) \<notin> table_entries (hb_sharing s) q"
    and "\<forall>q. hb_next_id s \<notin> fst ` table_entries (hb_sharing s) q"
proof -
  show n: "(hb_next_id s, m, sh) \<notin> table_entries (hb_sharing s) q" for m sh q
    using assms by (metis hb_inv_def less_irrefl option.distinct(1))
  show "\<forall>q. hb_next_id s \<notin> fst ` table_entries (hb_sharing s) q" using n by fastforce
qed

lemma hb_open_inv:
  assumes "hb_open F s path mode sh flags attr = (r, s')" "hb_inv s" "unat (hb_next_id s) + 1 < 2 ^ 64"
  shows "hb_inv s'"
  using assms(1)
proof (cases rule: hb_open_cases)
  case (early e c)
  then show ?thesis using same_files_inv [OF same_files_cache assms(2,3)] by blast
next
  case (violation c p)
  then have "same_files s s'" by (simp add: same_files_def)
  then show ?thesis using assms(2,3) by (rule same_files_inv)
next
  case (failed e c tbl p h)
  have t: "table_ok (hb_sharing s)" using assms(2) by (simp add: inv_defs)
  note ca = check_and_add_ok [OF failed(2) t hb_inv_fresh(2) [OF assms(2)]]
  note rm = sharing_remove_ok [OF conjunct1 [OF ca], of p "hb_next_id s"]
  have "table_entries (sharing_remove tbl p (hb_next_id s)) q = table_entries (hb_sharing s) q" for q
    using rm ca hb_inv_fresh(1) [OF assms(2)] by auto
  moreover have "unat (hb_next_id s + 1) = Suc (unat (hb_next_id s))" using assms(3) by (simp add: unat_word_ariths)
  ultimately show ?thesis using assms(2) rm failed(3) by (auto simp: inv_defs intro: less_SucI)
next
  case (opened act c tbl p h fh)
  have t: "table_ok (hb_sharing s)" using assms(2) by (simp add: inv_defs)
  note ca = check_and_add_ok [OF opened(2) t hb_inv_fresh(2) [OF assms(2)]]
  have n: "unat (hb_next_id s + 1) = Suc (unat (hb_next_id s))" using assms(3) by (simp add: unat_word_ariths)
  have "(\<exists>f. hb_files s' i = Some (f, q)) \<longleftrightarrow> (\<exists>m sh. (i, m, sh) \<in> table_entries tbl q)" for i q
  proof (cases "i = hb_next_id s")
    case True
    then show ?thesis using ca opened(5) hb_inv_fresh(1) [OF assms(2)] by auto
  next
    case False
    then have "(\<exists>m sh. (i, m, sh) \<in> table_entries tbl q) \<longleftrightarrow> (\<exists>m sh. (i, m, sh) \<in> table_entries (hb_sharing s) q)"
      using ca by auto
    then show ?thesis using False assms(2) opened(5) by (simp add: hb_inv_def)
  qed
  moreover have "unat i < unat (hb_next_id s')" if "hb_files s' i \<noteq> None" for i
    using that assms(2) n opened(5) by (auto simp: hb_inv_def intro: less_SucI split: if_splits)
  ultimately show ?thesis using ca opened(5) by (simp add: hb_inv_def)
qed

lemma hb_close_inv:
  assumes "hb_close F s h = (r, s')" "hb_inv s"
  shows "hb_inv s'"
proof (cases "hb_files s h")
  case (Some x)
  obtain f p where x: "x = (f, p)" by fastforce
  have t: "table_ok (hb_sharing s)" using assms(2) by (simp add: inv_defs)
  note rm = sharing_remove_ok [OF t, of p h]
  have o: "(h, m, sh) \<notin> table_entries (hb_sharing s) q" if "q \<noteq> p" for m sh q
  proof
    assume "(h, m, sh) \<in> table_entries (hb_sharing s) q"
    then have "\<exists>f. hb_files s h = Some (f, q)" using assms(2) unfolding hb_inv_def by blast
    then show False using Some x that by simp
  qed
  have s': "hb_files s' = (hb_files s)(h := None)" "hb_sharing s' = sharing_remove (hb_sharing s) p h"
    "hb_next_id s' = hb_next_id s"
    using assms(1) Some x by (auto simp: hb_close_def)
  have "(\<exists>f. hb_files s' i = Some (f, q)) \<longleftrightarrow> (\<exists>m sh. (i, m, sh) \<in> table_entries (hb_sharing s') q)" for i q
  proof (cases "i = h")
    case True
    then show ?thesis using s' rm o by auto
  next
    case False
    then have "(\<exists>m sh. (i, m, sh) \<in> table_entries (hb_sharing s') q) \<longleftrightarrow> (\<exists>m sh. (i, m, sh) \<in> table_entries (hb_sharing s) q)"
      using s'(2) rm by auto
    then show ?thesis using False assms(2) s'(1) by (simp add: hb_inv_def)
  qed
  then show ?thesis using assms(2) rm s' by (simp add: hb_inv_def)
qed (use assms in \<open>simp add: hb_close_def\<close>)

lemma hb_step_inv:
  assumes "hb_step F s s'" "hb_inv s" "unat (hb_next_id s) + 1 < 2 ^ 64"
  shows "hb_inv s' \<and> unat (hb_next_id s') \<le> Suc (unat (hb_next_id s))"
proof -
  have n: "unat (hb_next_id s + 1) = Suc (unat (hb_next_id s))" using assms(3) by (simp add: unat_word_ariths)
  from hb_step_same [OF assms(1)] show ?thesis
  proof (elim disjE exE)
    fix path mode sh flags attr r
    assume o: "hb_open F s path mode sh flags attr = (r, s')"
    then have "hb_next_id s' \<in> {hb_next_id s, hb_next_id s + 1}" by (cases rule: hb_open_cases) auto
    then show ?thesis using hb_open_inv [OF o assms(2,3)] n by auto
  next
    fix h r
    assume c: "hb_close F s h = (r, s')"
    then have "hb_next_id s' = hb_next_id s" by (auto simp: hb_close_def split: option.splits)
    then show ?thesis using hb_close_inv [OF c assms(2)] by simp
  next
    assume sf: "same_files s s'"
    then show ?thesis using same_files_inv [OF sf assms(2,3)] n by (auto simp: same_files_def)
  qed
qed

lemma hb_new_inv: "hb_new F h root = Inr s \<Longrightarrow> hb_inv s \<and> hb_next_id s = 1"
  by (auto simp: hb_new_def inv_defs table_ok_def table_entries_def split: option.splits if_splits prod.splits)

lemma hb_reach_inv:
  assumes "hb_reach F s0 n s" "hb_inv s0" "hb_next_id s0 = 1" "n + 2 < 2 ^ 64"
  shows "hb_inv s \<and> unat (hb_next_id s) \<le> n + 1"
  using assms
proof (induction rule: hb_reach.induct)
  case (reach_step n s s')
  then have s: "hb_inv s" "unat (hb_next_id s) \<le> n + 1" by auto
  then show ?case using hb_step_inv [OF reach_step.hyps(2)] reach_step.prems by auto
qed simp

text \<open>
  C30. File sharing is enforced. Whatever the host does, after any calls on a volume two handles that
  are open on the same path have compatible modes: no access of the one is denied by the sharing
  mode of the other. An open that is refused with a sharing violation conflicts with a handle that
  is open at that moment, so closed and failed opens leave nothing behind that blocks others.
\<close>

theorem host_sharing_enforced:
  assumes "hb_new F host root = Inr s0" "hb_reach F s0 n s" "n + 2 < 2 ^ 64"
  shows "(\<forall>h1 h2 f1 f2 p. h1 \<noteq> h2 \<longrightarrow> hb_files s h1 = Some (f1, p) \<longrightarrow> hb_files s h2 = Some (f2, p) \<longrightarrow>
      (\<exists>m1 sh1 m2 sh2. (h1, m1, sh1) \<in> table_entries (hb_sharing s) p \<and> (h2, m2, sh2) \<in> table_entries (hb_sharing s) p
         \<and> \<not> denies sh1 m2 \<and> \<not> denies sh2 m1)) \<and>
    (\<forall>p i mode sh e tbl. check_and_add (hb_sharing s) p i mode sh = (Inl e, tbl) \<longrightarrow>
      (\<exists>h f m' sh'. hb_files s h = Some (f, p) \<and> (h, m', sh') \<in> table_entries (hb_sharing s) p \<and>
        (denies sh' mode \<or> denies sh m')))"
proof (intro conjI)
  have inv: "hb_inv s" using hb_reach_inv [OF assms(2) _ _ assms(3)] hb_new_inv [OF assms(1)] by blast
  have c: "\<not> denies sh1 m2" if "(h1, m1, sh1) \<in> table_entries (hb_sharing s) p"
    "(h2, m2, sh2) \<in> table_entries (hb_sharing s) p" "h1 \<noteq> h2" for h1 h2 m1 m2 sh1 sh2 p
  proof -
    have "\<exists>es. hb_sharing s p = Some es \<and> (h1, m1, sh1) \<in> set es \<and> (h2, m2, sh2) \<in> set es"
      using that(1,2) by (auto simp: table_entries_def split: option.splits)
    moreover have "entries_ok es" if "hb_sharing s p = Some es" for es
      using inv that by (auto simp: hb_inv_def table_ok_def)
    ultimately show ?thesis using that(3) unfolding entries_ok_def by fastforce
  qed
  show "\<forall>h1 h2 f1 f2 p. h1 \<noteq> h2 \<longrightarrow> hb_files s h1 = Some (f1, p) \<longrightarrow> hb_files s h2 = Some (f2, p) \<longrightarrow>
      (\<exists>m1 sh1 m2 sh2. (h1, m1, sh1) \<in> table_entries (hb_sharing s) p \<and> (h2, m2, sh2) \<in> table_entries (hb_sharing s) p
         \<and> \<not> denies sh1 m2 \<and> \<not> denies sh2 m1)"
  proof (intro allI impI)
    fix h1 h2 f1 f2 p
    assume h: "h1 \<noteq> h2" "hb_files s h1 = Some (f1, p)" "hb_files s h2 = Some (f2, p)"
    obtain m1 sh1 m2 sh2 where "(h1, m1, sh1) \<in> table_entries (hb_sharing s) p" "(h2, m2, sh2) \<in> table_entries (hb_sharing s) p"
      using inv h(2,3) by (metis (no_types, lifting) hb_inv_def)
    then show "\<exists>m1 sh1 m2 sh2. (h1, m1, sh1) \<in> table_entries (hb_sharing s) p \<and> (h2, m2, sh2) \<in> table_entries (hb_sharing s) p
         \<and> \<not> denies sh1 m2 \<and> \<not> denies sh2 m1"
      using c [of h1 m1 sh1 p h2 m2 sh2] c [of h2 m2 sh2 p h1 m1 sh1] h(1) by blast
  qed
  show "\<forall>p i mode sh e tbl. check_and_add (hb_sharing s) p i mode sh = (Inl e, tbl) \<longrightarrow>
      (\<exists>h f m' sh'. hb_files s h = Some (f, p) \<and> (h, m', sh') \<in> table_entries (hb_sharing s) p \<and>
        (denies sh' mode \<or> denies sh m'))"
  proof (intro allI impI)
    fix p i mode sh e tbl
    assume "check_and_add (hb_sharing s) p i mode sh = (Inl e, tbl)"
    then obtain h m' sh' where h: "(h, m', sh') \<in> table_entries (hb_sharing s) p" "denies sh' mode \<or> denies sh m'"
      using check_and_add_fails by blast
    moreover have "\<exists>f. hb_files s h = Some (f, p)" using inv h(1) unfolding hb_inv_def by blast
    ultimately show "\<exists>h f m' sh'. hb_files s h = Some (f, p) \<and> (h, m', sh') \<in> table_entries (hb_sharing s) p \<and>
        (denies sh' mode \<or> denies sh m')" by blast
  qed
qed


section \<open>Searches\<close>

text \<open>Calling \<^verbatim>\<open>find_next\<close> until it reports an error.\<close>

fun find_rest :: "nat \<Rightarrow> ('h, 'f) host_dir \<Rightarrow> u64 \<Rightarrow> dir_entry list \<times> os2_error option" where
  "find_rest 0 s h = ([], None)"
| "find_rest (Suc n) s h =
    (case hb_find_next s h of
       (Inr e, s') \<Rightarrow> (case find_rest n s' h of (es, r) \<Rightarrow> (e # es, r))
     | (Inl err, s') \<Rightarrow> ([], Some err))"

lemma find_rest_entries:
  assumes "hb_finds s h = Some (entries, k)" "k \<le> length entries"
  shows "find_rest (Suc (length entries - k)) s h = (drop k entries, Some NO_MORE_FILES)"
  using assms
proof (induction "length entries - k" arbitrary: s k)
  case 0
  then show ?case by (simp add: hb_find_next_def)
next
  case (Suc n)
  let ?s = "s\<lparr> hb_finds := (hb_finds s)(h \<mapsto> (entries, k + 1)) \<rparr>"
  have k: "k < length entries" using Suc.hyps(2) by linarith
  then have "hb_find_next s h = (Inr (entries ! k), ?s)" using Suc.prems by (simp add: hb_find_next_def)
  moreover have "find_rest (Suc (length entries - (k + 1))) ?s h = (drop (k + 1) entries, Some NO_MORE_FILES)"
    using Suc.hyps k by (intro Suc.hyps(1)) auto
  moreover have "length entries - k = Suc (length entries - (k + 1))" using k by simp
  ultimately show ?case using Cons_nth_drop_Suc [OF k] by simp
qed

text \<open>
  What a search should deliver, said without the loops of the code: a pattern accepts the names of its
  language, and the filter lets an entry pass when it has the bits for hidden (1), system (2) and directory (4)
  that the entry has. The entries for the directory and its parent come first.
\<close>

definition pattern_accepts :: "ustring \<Rightarrow> ustring \<Rightarrow> bool" where
  "pattern_accepts pat n \<longleftrightarrow>
    to_ascii_lowercase pat = ustr ''*.*'' \<or> to_ascii_lowercase n \<in> pattern_lang (to_ascii_lowercase pat)"

definition entry_of :: "ustring \<Rightarrow> metadata \<Rightarrow> dir_entry" where
  "entry_of n m = \<lparr> de_name = n, de_status = metadata_to_file_status m \<rparr>"

definition dots_listed :: "('h, 'f) host_fs \<Rightarrow> 'h \<Rightarrow> host_path \<Rightarrow> ustring \<Rightarrow> file_attribute \<Rightarrow> dir_entry list" where
  "dots_listed F h dir pat filt =
    [entry_of n m. (n, d) \<leftarrow> [([DOT], dir), ([DOT, DOT], butlast dir)], pattern_accepts pat n \<and> bit filt 4,
      m \<leftarrow> (case hf_metadata F h d of Inr m \<Rightarrow> [m] | Inl e \<Rightarrow> [])]"

definition names_listed ::
    "('h, 'f) host_fs \<Rightarrow> 'h \<Rightarrow> host_path \<Rightarrow> ustring \<Rightarrow> file_attribute \<Rightarrow> ustring list \<Rightarrow> dir_entry list" where
  "names_listed F h dir pat filt names =
    [entry_of n m. n \<leftarrow> names, pattern_accepts pat n,
      m \<leftarrow> (case hf_entry_metadata F h (path_join dir n) of Some m \<Rightarrow> [m] | None \<Rightarrow> []),
      \<forall>k \<in> {1, 2, 4}. bit (fs_attributes (metadata_to_file_status m)) k \<longrightarrow> bit filt k]"

lemma wildcard_match_accepts: "wildcard_match pat n = pattern_accepts pat n"
  by (simp add: wildcard_match_def pattern_accepts_def Let_def wildcard_recursive_lang)

lemma contains_directory: "fa_contains filt FA_DIRECTORY \<longleftrightarrow> bit filt 4"
proof -
  have d: "FA_DIRECTORY = push_bit 4 (1 :: u32)" by (simp add: FA_DIRECTORY_def)
  have "bit FA_DIRECTORY k \<longleftrightarrow> k = 4" for k unfolding d by (auto simp only: bit_push_bit_iff bit_1_iff possible_bit_word) auto
  moreover have "fa_contains filt FA_DIRECTORY \<longleftrightarrow> (\<forall>k. bit (filt AND FA_DIRECTORY) k \<longleftrightarrow> bit FA_DIRECTORY k)"
    by (simp only: fa_contains_def bit_eq_iff [of "filt AND FA_DIRECTORY"]) (meson impossible_bit)
  ultimately show ?thesis by (auto simp: bit_and_iff)
qed

lemma matching_entries_listed: "matching_entries F h dir pat filt names = names_listed F h dir pat filt names"
  by (induction names)
    (simp_all add: matching_entries_def names_listed_def wildcard_match_accepts attributes_match_iff Let_def entry_of_def
      split: option.splits)

lemma path_parent_or_root: "(case path_parent dir of Some p \<Rightarrow> p | None \<Rightarrow> dir) = butlast dir"
  by (simp add: path_parent_def)

lemma add_dot_entries_listed:
  assumes "\<forall>x\<in>set es. de_name x \<noteq> CUR_DIR"
  shows "add_dot_entries F h dir pat filt es = dots_listed F h dir pat filt @ es"
  using assms
  by (cases es) (auto simp: add_dot_entries_def dots_listed_def path_parent_or_root wildcard_match_accepts contains_directory
      entry_of_def Let_def split: sum.splits)

lemma names_listed_name: "x \<in> set (names_listed F h dir pat filt names) \<Longrightarrow> de_name x \<in> set names"
proof (induction names)
  case (Cons n names)
  have "names_listed F h dir pat filt (n # names) = names_listed F h dir pat filt [n] @ names_listed F h dir pat filt names"
    by (simp add: names_listed_def)
  moreover have "de_name x = n" if "x \<in> set (names_listed F h dir pat filt [n])"
    using that by (auto simp add: names_listed_def entry_of_def split: if_splits option.splits)
  ultimately show ?case using Cons by auto
qed (simp add: names_listed_def)

lemma names_listed_proper:
  assumes "list_all proper_name names" "x \<in> set (names_listed F h dir pat filt names)"
  shows "de_name x \<noteq> CUR_DIR"
proof -
  have "proper_name (de_name x)" using assms(1) names_listed_name [OF assms(2)] by (simp add: list_all_iff)
  then show ?thesis by (simp add: proper_name_def)
qed

lemma split_last_parts:
  assumes "split_last p = (dp, fp)"
  shows "(p = dp @ [SLASH] @ fp \<or> dp = [] \<and> p = fp) \<and> SLASH \<notin> set fp"
proof -
  let ?f = "rev (takeWhile (\<lambda>c. c \<noteq> SLASH) (rev p))"
  have nf: "SLASH \<notin> set ?f" by (auto dest: set_takeWhileD)
  show ?thesis
  proof (cases "SLASH \<in> set p")
    case True
    then obtain x y where p: "p = x @ SLASH # y" "SLASH \<notin> set y" by (metis split_list_last)
    then have "?f = y" by (simp add: takeWhile_append)
    then have "dp = x" "fp = y" using assms True p(1) by (simp_all add: split_last_def Let_def)
    then show ?thesis using p by simp
  next
    case False
    then show ?thesis using assms by (simp add: split_last_def Let_def)
  qed
qed

text \<open>
  C33. A search delivers exactly the entries of the directory that its path names: when \<^verbatim>\<open>find_first\<close> succeeds,
  the entry it returns and those of as many calls of \<^verbatim>\<open>find_next\<close> as there are further entries are, in this
  order and each once, the entries for the directory and its parent, if the pattern accepts them, the filter
  includes directories and their metadata can be read, and then, in the order of the directory, the names
  that the pattern accepts, whose metadata can be read and whose attributes the filter includes. One more call
  reports \<^verbatim>\<open>NO_MORE_FILES\<close>. The directory lies in the volume.
\<close>

theorem search_complete:
  assumes "hb_find_first F s pattern filt = (Inr (h, e), s1)" "read_dir_proper F"
  shows "\<exists>dp pat dir names es. (pattern = dp @ [SLASH] @ pat \<or> dp = [] \<and> pattern = pat) \<and> SLASH \<notin> set pat \<and>
    (if dp = [] then Some (hb_root s) else fst (resolve_ci F s dp)) = Some dir \<and>
    hf_read_dir F (hb_host s) dir = Inr names \<and>
    (\<exists>c. hf_canonicalize F (hb_host s) dir = Some c \<and> starts_with c (hb_root s) \<or> \<not> hf_exists F (hb_host s) dir) \<and>
    e # es = dots_listed F (hb_host s) dir pat filt @ names_listed F (hb_host s) dir pat filt names \<and>
    find_rest (Suc (length es)) s1 h = (es, Some NO_MORE_FILES)"
proof -
  obtain dp pat where sl: "split_last pattern = (dp, pat)" by fastforce
  obtain d s2 where q: "(if dp = [] then (Some (hb_root s), s) else resolve_ci F s dp) = (d, s2)" by fastforce
  have fr: "hb_host s2 = hb_host s" "hb_root s2 = hb_root s"
    using q by (auto split: if_splits dest!: resolve_ci_frame)
  obtain dir where dir: "d = Some dir" using assms(1) sl q by (cases d) (auto simp: hb_find_first_def)
  have sb: "enforce_sandbox F s2 dir = None" "hf_is_dir F (hb_host s2) dir"
    using assms(1) sl q dir by (auto simp: hb_find_first_def split: option.splits if_splits)
  obtain names where names: "hf_read_dir F (hb_host s) dir = Inr names"
    using assms(1) sl q dir sb fr by (cases "hf_read_dir F (hb_host s) dir") (auto simp: hb_find_first_def)
  let ?m = "matching_entries F (hb_host s) dir pat filt names"
  have "list_all proper_name names" using names assms(2) by (auto simp: read_dir_proper_def)
  then have all: "add_dot_entries F (hb_host s) dir pat filt ?m =
      dots_listed F (hb_host s) dir pat filt @ names_listed F (hb_host s) dir pat filt names"
    unfolding matching_entries_listed by (intro add_dot_entries_listed ballI names_listed_proper)
  obtain es where es: "dots_listed F (hb_host s) dir pat filt @ names_listed F (hb_host s) dir pat filt names = e # es"
    and s1: "hb_finds s1 h = Some (e # es, 1)"
    using assms(1) sl q dir sb fr names all
    by (cases "dots_listed F (hb_host s) dir pat filt @ names_listed F (hb_host s) dir pat filt names")
      (auto simp: hb_find_first_def alloc_id_def)
  have "find_rest (Suc (length es)) s1 h = (es, Some NO_MORE_FILES)"
    using find_rest_entries [OF s1] by simp
  moreover have "\<exists>c. hf_canonicalize F (hb_host s) dir = Some c \<and> starts_with c (hb_root s) \<or> \<not> hf_exists F (hb_host s) dir"
    using sb(1) fr by (auto simp: enforce_sandbox_iff sandboxed_def)
  moreover have "(if dp = [] then Some (hb_root s) else fst (resolve_ci F s dp)) = Some dir"
    using q dir by (auto split: if_splits)
  ultimately show ?thesis using split_last_parts [OF sl] names es [symmetric]
    by (intro exI [of _ dp] exI [of _ pat] exI [of _ dir] exI [of _ names] exI [of _ es]) blast
qed

section \<open>Extended attributes\<close>

text \<open>
  Extended attributes that are stored in a side file are read back: if the host returns from a
  file what was last written to it, then after \<^verbatim>\<open>sidecar_write_eas\<close> succeeded on entries whose names
  are at most 255 bytes and whose values are shorter than 64 KB, \<^verbatim>\<open>sidecar_read_eas\<close> returns exactly
  these entries.
\<close>

theorem sidecar_ea_roundtrip:
  assumes "\<And>h p data h'. hf_write_file F h p data = (Inr (), h') \<Longrightarrow> hf_read_file F h' p = Some data"
    and "sidecar_write_eas F h p eas = (Inr (), h')" "eas \<noteq> []" "list_all ea_fits eas"
  shows "sidecar_read_eas F h' p = eas"
proof -
  obtain ea_path h1 where w: "sidecar_ea_path p = Some ea_path"
    "hf_write_file F h1 ea_path (sidecar_encode eas) = (Inr (), h')"
    using assms(2,3) by (fastforce simp: sidecar_write_eas_def Let_def split: option.splits prod.splits sum.splits)
  then show ?thesis using assms(1) [OF w(2)] assms(4) by (simp add: sidecar_read_eas_def sidecar_roundtrip)
qed


section \<open>Concrete hosts\<close>

text \<open>
  A host with one directory \<^verbatim>\<open>/r\<close> that holds the file \<^verbatim>\<open>a\<close>; \<open>cf\<close> says whether names are compared
  without regard to case by the host itself. It holds no symbolic links, so every existing path is
  its own canonical form, and one side file can be written.
\<close>

definition demo_paths :: "bool \<Rightarrow> host_path list" where
  "demo_paths cf = [[], [ustr ''r''], [ustr ''r'', ustr ''a'']] @ (if cf then [[ustr ''r'', ustr ''A'']] else [])"

definition demo_meta :: metadata where
  "demo_meta = \<lparr> md_created = None, md_accessed = None, md_modified = Some 951827696, md_len = 5,
     md_is_dir = False, md_is_file = True, md_readonly = False \<rparr>"

definition demo_host :: "bool \<Rightarrow> (u8 list option, unit) host_fs" where
  "demo_host cf =
    \<lparr> hf_exists = (\<lambda>h p. p \<in> set (demo_paths cf)),
      hf_is_dir = (\<lambda>h p. p = [ustr ''r'']),
      hf_canonicalize = (\<lambda>h p. if p \<in> set (demo_paths cf) then Some p else None),
      hf_read_dir = (\<lambda>h p. if p = [ustr ''r''] then Inr [ustr ''a''] else Inl IoNotFound),
      hf_entry_metadata = (\<lambda>h p. Some demo_meta),
      hf_metadata = (\<lambda>h p. Inr demo_meta),
      hf_now_ms = (\<lambda>h. 0),
      hf_casefold = (\<lambda>h p. cf),
      hf_open = (\<lambda>h opts p. (Inr (), h)),
      hf_close = (\<lambda>h f. h),
      hf_read = (\<lambda>h f buf. ((Inr 0, buf), f, h)),
      hf_write = (\<lambda>h f buf. (Inr (length buf), f, h)),
      hf_seek = (\<lambda>h f w. (Inr 0, f, h)),
      hf_set_len = (\<lambda>h f n. (Inr (), f, h)),
      hf_flush = (\<lambda>h f. (Inr (), f, h)),
      hf_file_metadata = (\<lambda>h f. Inr demo_meta),
      hf_setlk = (\<lambda>h f l r. (None, f, h)),
      hf_create_dir = (\<lambda>h p. (Inl IoAlreadyExists, h)),
      hf_remove_dir = (\<lambda>h p. (Inl IoDirectoryNotEmpty, h)),
      hf_remove_file = (\<lambda>h p. (Inl IoPermissionDenied, h)),
      hf_rename = (\<lambda>h p q. (Inl IoPermissionDenied, h)),
      hf_copy = (\<lambda>h p q. (Inl IoPermissionDenied, h)),
      hf_read_file = (\<lambda>h p. h),
      hf_write_file = (\<lambda>h p data. (Inr (), Some data)),
      hf_create_dir_all = (\<lambda>h p. h),
      hf_getxattr = (\<lambda>h p n. Inl ENOTSUP),
      hf_setxattr = (\<lambda>h p n v. (Some ENOTSUP, h)),
      hf_removexattr = (\<lambda>h p n. (Some ENODATA, h)),
      hf_listxattr = (\<lambda>h p. Inl ENOTSUP),
      hf_statvfs = (\<lambda>h p. None) \<rparr>"

definition demo_volume :: "bool \<Rightarrow> (u8 list option, unit) host_dir" where
  "demo_volume cf =
    \<lparr> hb_root = [ustr ''r''], hb_files = Map.empty, hb_finds = Map.empty, hb_sharing = Map.empty,
      hb_cache = Map.empty, hb_kernel_casefold = cf, hb_xattr_supported = False, hb_next_id = 1,
      hb_host = None \<rparr>"

lemmas demo_defs = demo_host_def demo_volume_def demo_paths_def ustr_def of_char_def

lemma demo_new: "hb_new (demo_host cf) None [ustr ''r''] = Inr (demo_volume cf)"
  by (simp add: hb_new_def detect_xattr_support_def demo_defs path_string_def as_bytes_def utf8_char_def)


lemma demo_open:
  "hb_open (demo_host False) (demo_volume False) (ustr ''A'') ReadOnly DenyWrite (open_flags_from_raw 1) 0 =
    (Inr (1, Existed), snd (hb_open (demo_host False) (demo_volume False) (ustr ''A'') ReadOnly DenyWrite (open_flags_from_raw 1) 0))"
  by (simp add: hb_open_def open_target_def resolve_ci_def resolve_path_case_insensitive_def resolve_component_def
      cache_lookup_def listing_names_def to_ascii_lowercase_def lc_lower_def path_join_def comps_def
      open_flags_from_raw_def enforce_sandbox_def starts_with_def alloc_id_def check_and_add_def demo_defs)

theorem hb_open_sandboxed_witness:
  "\<exists>fh p. hb_files (snd (hb_open (demo_host False) (demo_volume False) (ustr ''A'') ReadOnly DenyWrite (open_flags_from_raw 1) 0)) 1
       = Some (fh, p) \<and> sandboxed (demo_host False) (hb_host (demo_volume False)) (hb_root (demo_volume False)) p"
  using hb_open_sandboxed [OF demo_open] by blast

theorem host_sharing_enforced_witness:
  "\<forall>p i mode sh e tbl. check_and_add (hb_sharing (demo_volume True)) p i mode sh \<noteq> (Inl e, tbl)"
  using host_sharing_enforced [OF demo_new reach_start] by (fastforce simp: demo_volume_def)

lemma demo_find:
  "hb_find_first (demo_host False) (demo_volume False) (ustr ''*.*'') 0 =
    (Inr (1, \<lparr> de_name = ustr ''a'', de_status = metadata_to_file_status demo_meta \<rparr>),
     snd (hb_find_first (demo_host False) (demo_volume False) (ustr ''*.*'') 0))"
  by (simp add: hb_find_first_def split_last_def enforce_sandbox_def starts_with_def matching_entries_def
      wildcard_match_def to_ascii_lowercase_def lc_lower_def attributes_match_def metadata_to_file_status_def
      demo_meta_def add_dot_entries_def fa_contains_def FA_DIRECTORY_def FA_ARCHIVE_def FA_HIDDEN_def FA_SYSTEM_def
      alloc_id_def demo_defs case_prod_beta)

lemma demo_proper: "read_dir_proper (demo_host cf)"
  by (simp add: read_dir_proper_def proper_name_def demo_defs)

theorem search_complete_witness:
  "\<exists>es. find_rest (Suc (length es)) (snd (hb_find_first (demo_host False) (demo_volume False) (ustr ''*.*'') 0)) 1
     = (es, Some NO_MORE_FILES)"
  using search_complete [OF demo_find demo_proper] by blast

theorem sidecar_ea_roundtrip_witness:
  "sidecar_read_eas (demo_host False)
     (Some (sidecar_encode [\<lparr> ea_name = ustr ''.TYPE'', ea_value = [1, 2, 3], ea_flags = 0 \<rparr>])) [ustr ''r'', ustr ''a'']
   = [\<lparr> ea_name = ustr ''.TYPE'', ea_value = [1, 2, 3], ea_flags = 0 \<rparr>]"
proof (rule sidecar_ea_roundtrip)
  show "sidecar_write_eas (demo_host False) None [ustr ''r'', ustr ''a'']
      [\<lparr> ea_name = ustr ''.TYPE'', ea_value = [1, 2, 3], ea_flags = 0 \<rparr>] =
     (Inr (), Some (sidecar_encode [\<lparr> ea_name = ustr ''.TYPE'', ea_value = [1, 2, 3], ea_flags = 0 \<rparr>]))"
    by (simp add: sidecar_write_eas_def sidecar_ea_path_def path_parent_def path_file_name_def demo_defs)
qed (auto simp: demo_host_def ea_fits_def as_bytes_def utf8_char_def is_scalar_def ustr_def of_char_def)

text \<open>
  The sharing table is keyed by the path as the guest spelled it when the host folds case: two
  opens of one file under names that differ in case do not see each other, although each denies
  all sharing.
\<close>

lemma casefold_sharing_bypassed:
  "\<exists>s1 s2. hb_open (demo_host True) (demo_volume True) (ustr ''a'') ReadWrite DenyReadWrite (open_flags_from_raw 1) 0
      = (Inr (1, Existed), s1) \<and>
    hb_open (demo_host True) s1 (ustr ''A'') ReadWrite DenyReadWrite (open_flags_from_raw 1) 0 = (Inr (2, Existed), s2)"
  by (simp add: hb_open_def open_target_def resolve_ci_def path_join_def comps_def
      open_flags_from_raw_def enforce_sandbox_def starts_with_def alloc_id_def check_and_add_def demo_defs)

text \<open>
  \<^verbatim>\<open>to_host_path\<close> makes no sandbox check: with kernel case folding a path with \<^verbatim>\<open>..\<close> is joined to the
  root as it is.
\<close>

lemma to_host_path_unchecked:
  assumes "hb_kernel_casefold s" "hf_exists F (hb_host s) (hb_root s @ [PARENT_DIR, n])" "proper_name n"
  shows "hb_to_host_path F s (PARENT_DIR @ [SLASH] @ n) = (Some (path_string (hb_root s @ [PARENT_DIR, n])), s)"
  using assms by (simp add: hb_to_host_path_def resolve_ci_def path_join_def comps_def Let_def proper_name_def split_slash_single)

end
