(* ===== verification/Host_Tree.thy ===== *)
theory Host_Tree
  imports Host_Safety
begin

text \<open>
  What the sandbox check of the host-directory volume is worth on a POSIX host. The host's file system is
  a tree of files, directories and symbolic links; a path is resolved component by component, following
  links and leaving a directory by \<^verbatim>\<open>..\<close>, without regard to how the volume checks it. A host behaves like
  such a tree if a path exists when it leads somewhere, its canonical form is where it leads, and
  an open that succeeds opens what is there, or creates what is missing.
\<close>

section \<open>Files, directories and links\<close>

text \<open>A link has a target, from the root of the host or from the directory of the link.\<close>

datatype host_node = HFile | HDir | HLink bool host_path

text \<open>The node at each place. A place is a path without links and \<^verbatim>\<open>..\<close>; the root \<open>[]\<close> is a directory.\<close>

type_synonym host_tree = "host_path \<Rightarrow> host_node option"

definition is_directory :: "host_tree \<Rightarrow> host_path \<Rightarrow> bool" where
  "is_directory t d \<longleftrightarrow> d = [] \<or> t d = Some HDir"

text \<open>\<open>leads t cur cs c\<close>: from the place \<open>cur\<close> the components \<open>cs\<close> lead to the existing place \<open>c\<close>.\<close>

inductive leads :: "host_tree \<Rightarrow> host_path \<Rightarrow> ustring list \<Rightarrow> host_path \<Rightarrow> bool" for t where
  leads_here: "leads t cur [] cur"
| leads_up: "leads t (butlast cur) cs c \<Longrightarrow> leads t cur (PARENT_DIR # cs) c"
| leads_dir: "x \<noteq> PARENT_DIR \<Longrightarrow> t (cur @ [x]) = Some HDir \<Longrightarrow> leads t (cur @ [x]) cs c \<Longrightarrow> leads t cur (x # cs) c"
| leads_file: "x \<noteq> PARENT_DIR \<Longrightarrow> t (cur @ [x]) = Some HFile \<Longrightarrow> leads t cur [x] (cur @ [x])"
| leads_link: "x \<noteq> PARENT_DIR \<Longrightarrow> t (cur @ [x]) = Some (HLink absolute target) \<Longrightarrow>
    leads t (if absolute then [] else cur) (target @ cs) c \<Longrightarrow> leads t cur (x # cs) c"

inductive_cases leads_NilE: "leads t cur [] c"
inductive_cases leads_ConsE: "leads t cur (x # cs) c"

text \<open>
  \<open>opens t cur cs c\<close>: an open with creation of the path \<open>cs\<close> ends up at \<open>c\<close>. If the last component is
  missing it is created in its directory, and if it is a link, the link's target is opened, and
  created if it is missing.
\<close>

inductive opens :: "host_tree \<Rightarrow> host_path \<Rightarrow> ustring list \<Rightarrow> host_path \<Rightarrow> bool" for t where
  opens_existing: "leads t cur cs c \<Longrightarrow> opens t cur cs c"
| opens_new: "leads t cur ds d \<Longrightarrow> is_directory t d \<Longrightarrow> x \<noteq> PARENT_DIR \<Longrightarrow> t (d @ [x]) = None \<Longrightarrow>
    opens t cur (ds @ [x]) (d @ [x])"
| opens_link: "leads t cur ds d \<Longrightarrow> x \<noteq> PARENT_DIR \<Longrightarrow> t (d @ [x]) = Some (HLink absolute target) \<Longrightarrow>
    opens t (if absolute then [] else d) target c \<Longrightarrow> opens t cur (ds @ [x]) c"

text \<open>The last component of the path is a link that leads nowhere.\<close>

definition dangling :: "host_tree \<Rightarrow> host_path \<Rightarrow> bool" where
  "dangling t p \<longleftrightarrow> (\<exists>ds d x absolute target. p = ds @ [x] \<and> leads t [] ds d \<and> t (d @ [x]) = Some (HLink absolute target)) \<and>
    (\<nexists>c. leads t [] p c)"

text \<open>\<open>tree\<close> is the tree of a state of the host, and \<open>place\<close> where an open file is.\<close>

definition posix_host :: "('h, 'f) host_fs \<Rightarrow> ('h \<Rightarrow> host_tree) \<Rightarrow> ('f \<Rightarrow> host_path) \<Rightarrow> bool" where
  "posix_host F tree place \<longleftrightarrow>
    (\<forall>h p. hf_exists F h p \<longleftrightarrow> (\<exists>c. leads (tree h) [] p c)) \<and>
    (\<forall>h p c. hf_canonicalize F h p = Some c \<longleftrightarrow> leads (tree h) [] p c) \<and>
    (\<forall>h opts p f. fst (hf_open F h opts p) = Inr f \<longrightarrow> opens (tree h) [] p (place f))"

section \<open>Resolution is deterministic\<close>

lemma leads_append: "leads t cur ds d \<Longrightarrow> leads t cur (ds @ es) c \<Longrightarrow> leads t d es c"
proof (induction arbitrary: c rule: leads.induct)
  case (leads_link x cur absolute target cs d)
  from leads_link.prems have "leads t (if absolute then [] else cur) (target @ cs @ es) c"
    using leads_link.hyps by (auto elim!: leads_ConsE)
  then show ?case using leads_link.IH [of c] by simp
next
  case (leads_file x cur)
  from leads_file.prems leads_file.hyps have "es = [] \<and> c = cur @ [x]" by (auto elim!: leads_ConsE)
  then show ?case by (simp add: leads_here)
qed (auto elim!: leads_ConsE)

lemma leads_deterministic: "leads t cur cs c \<Longrightarrow> leads t cur cs c' \<Longrightarrow> c' = c"
  using leads_append [of t cur cs c "[]" c'] by (auto elim: leads_NilE)

text \<open>What exists is opened where it is.\<close>

lemma opens_where_it_leads: "opens t cur cs c \<Longrightarrow> leads t cur cs c' \<Longrightarrow> c' = c"
proof (induction arbitrary: c' rule: opens.induct)
  case (opens_existing cur cs c)
  then show ?case by (rule leads_deterministic)
next
  case (opens_new cur ds d x)
  from leads_append [OF opens_new.hyps(1) opens_new.prems] show ?case
    using opens_new.hyps by (auto elim!: leads_ConsE)
next
  case (opens_link cur ds d x absolute target c)
  from leads_append [OF opens_link.hyps(1) opens_link.prems]
  have "leads t (if absolute then [] else d) target c'" using opens_link.hyps by (auto elim!: leads_ConsE)
  then show ?case by (rule opens_link.IH)
qed

section \<open>The sandbox check\<close>

text \<open>
  A path that passes the check is opened below the root, unless its last component is a dangling link.
\<close>

lemma sandboxed_opens_below:
  assumes F: "posix_host F tree place" and sb: "sandboxed F h root p"
    and o: "fst (hf_open F h opts p) = Inr f" and nd: "\<not> dangling (tree h) p"
  shows "starts_with (place f) root"
proof -
  have op: "opens (tree h) [] p (place f)" using F o by (simp add: posix_host_def)
  show ?thesis
  proof (cases "hf_exists F h p")
    case True
    then obtain c where c: "leads (tree h) [] p c" "starts_with c root"
      using sb F by (auto simp: sandboxed_def posix_host_def)
    then show ?thesis using opens_where_it_leads [OF op c(1)] by simp
  next
    case False
    then have missing: "\<nexists>c. leads (tree h) [] p c" using F by (simp add: posix_host_def)
    obtain d where d: "p \<noteq> []" "leads (tree h) [] (butlast p) d" "starts_with d root" "last p \<noteq> PARENT_DIR"
      using sb F False by (auto simp: sandboxed_def posix_host_def path_parent_def path_file_name_def split: if_splits)
    from op show ?thesis
    proof cases
      case opens_existing
      then show ?thesis using missing by blast
    next
      case (opens_new ds e x)
      then have "place f = d @ [x]" using leads_deterministic [OF d(2)] by simp
      moreover have "length root \<le> length d" using d(3) by (auto simp: starts_with_def dest: arg_cong [of _ _ length])
      ultimately show ?thesis using d(3) by (simp add: starts_with_def)
    next
      case (opens_link ds e x absolute target)
      then have "dangling (tree h) p" using missing by (auto simp: dangling_def)
      then show ?thesis using nd by blast
    qed
  qed
qed

text \<open>
  The exception is real: a link in the volume's root whose target is missing and lies outside passes the
  check, and an open that creates the file creates it there.
\<close>

lemma dangling_link_escapes:
  assumes F: "posix_host F tree place" and root: "leads (tree (hb_host s)) [] (hb_root s) (hb_root s)"
    and link: "tree (hb_host s) (hb_root s @ [x]) = Some (HLink True (ds @ [y]))" "proper_name x" "proper_name y"
    and target: "leads (tree (hb_host s)) [] ds d" "is_directory (tree (hb_host s)) d" "tree (hb_host s) (d @ [y]) = None"
  shows "enforce_sandbox F s (hb_root s @ [x]) = None \<and> opens (tree (hb_host s)) [] (hb_root s @ [x]) (d @ [y])"
proof -
  let ?t = "tree (hb_host s)"
  have np: "x \<noteq> PARENT_DIR" "y \<noteq> PARENT_DIR" using link(2,3) by (simp_all add: proper_name_def)
  have "\<not> leads ?t [] (hb_root s @ [x]) c" for c
  proof
    assume "leads ?t [] (hb_root s @ [x]) c"
    from leads_append [OF root this] have "leads ?t [] (ds @ [y]) c" using link(1) np by (auto elim!: leads_ConsE)
    from leads_append [OF target(1) this] show False using target(3) np by (auto elim!: leads_ConsE)
  qed
  then have "enforce_sandbox F s (hb_root s @ [x]) = None" using F root link(2) np
    unfolding enforce_sandbox_iff
    by (auto simp: sandboxed_def posix_host_def path_parent_def path_file_name_def starts_with_def)
  moreover have "opens ?t [] (ds @ [y]) (d @ [y])" using target np by (intro opens_new)
  then have "opens ?t [] (hb_root s @ [x]) (d @ [y])" using opens_link [OF root np(1) link(1)] by simp
  ultimately show ?thesis by blast
qed

section \<open>A host without links\<close>

text \<open>The resolution as a function, for a tree without links, and the host it gives.\<close>

fun tree_walk :: "host_tree \<Rightarrow> host_path \<Rightarrow> ustring list \<Rightarrow> host_path option" where
  "tree_walk t cur [] = Some cur"
| "tree_walk t cur (x # cs) =
    (if x = PARENT_DIR then tree_walk t (butlast cur) cs
     else case t (cur @ [x]) of
       Some HDir \<Rightarrow> tree_walk t (cur @ [x]) cs
     | Some HFile \<Rightarrow> if cs = [] then Some (cur @ [x]) else None
     | _ \<Rightarrow> None)"

lemma tree_walk_leads:
  assumes "\<forall>p absolute target. t p \<noteq> Some (HLink absolute target)"
  shows "tree_walk t cur cs = Some c \<longleftrightarrow> leads t cur cs c"
proof
  show "tree_walk t cur cs = Some c \<Longrightarrow> leads t cur cs c"
    by (induction t cur cs rule: tree_walk.induct) (auto split: if_splits option.splits host_node.splits intro: leads.intros)
  show "leads t cur cs c \<Longrightarrow> tree_walk t cur cs = Some c"
    by (induction rule: leads.induct) (use assms in auto)
qed

definition demo_tree :: host_tree where
  "demo_tree = [[ustr ''r''] \<mapsto> HDir, [ustr ''r'', ustr ''a''] \<mapsto> HFile]"

definition tree_host :: "(unit, host_path) host_fs" where
  "tree_host =
    \<lparr> hf_exists = (\<lambda>h p. tree_walk demo_tree [] p \<noteq> None),
      hf_is_dir = (\<lambda>h p. case tree_walk demo_tree [] p of Some c \<Rightarrow> c = [] \<or> demo_tree c = Some HDir | None \<Rightarrow> False),
      hf_canonicalize = (\<lambda>h p. tree_walk demo_tree [] p),
      hf_read_dir = (\<lambda>h p. if p = [ustr ''r''] then Inr [ustr ''a''] else Inl IoNotFound),
      hf_entry_metadata = (\<lambda>h p. Some demo_meta),
      hf_metadata = (\<lambda>h p. Inr demo_meta),
      hf_now_ms = (\<lambda>h. 0),
      hf_casefold = (\<lambda>h p. False),
      hf_open = (\<lambda>h opts p. (case tree_walk demo_tree [] p of Some c \<Rightarrow> Inr c | None \<Rightarrow> Inl IoNotFound, h)),
      hf_close = (\<lambda>h f. h),
      hf_read = (\<lambda>h f buf. ((Inr 0, buf), f, h)),
      hf_write = (\<lambda>h f buf. (Inr (length buf), f, h)),
      hf_seek = (\<lambda>h f w. (Inr 0, f, h)),
      hf_set_len = (\<lambda>h f n. (Inr (), f, h)),
      hf_flush = (\<lambda>h f. (Inr (), f, h)),
      hf_file_metadata = (\<lambda>h f. Inr demo_meta),
      hf_setlk = (\<lambda>h f l r. (None, f, h)),
      hf_create_dir = (\<lambda>h p. (Inl IoAlreadyExists, h)),
      hf_remove_dir = (\<lambda>h p. (Inl IoDirectoryNotEmpty, h)),
      hf_remove_file = (\<lambda>h p. (Inl IoPermissionDenied, h)),
      hf_rename = (\<lambda>h p q. (Inl IoPermissionDenied, h)),
      hf_copy = (\<lambda>h p q. (Inl IoPermissionDenied, h)),
      hf_read_file = (\<lambda>h p. None),
      hf_write_file = (\<lambda>h p data. (Inl IoPermissionDenied, h)),
      hf_create_dir_all = (\<lambda>h p. h),
      hf_getxattr = (\<lambda>h p n. Inl ENOTSUP),
      hf_setxattr = (\<lambda>h p n v. (Some ENOTSUP, h)),
      hf_removexattr = (\<lambda>h p n. (Some ENODATA, h)),
      hf_listxattr = (\<lambda>h p. Inl ENOTSUP),
      hf_statvfs = (\<lambda>h p. None) \<rparr>"

lemma demo_tree_no_links: "\<forall>p absolute target. demo_tree p \<noteq> Some (HLink absolute target)"
  by (simp add: demo_tree_def)

lemma tree_host_posix: "posix_host tree_host (\<lambda>_. demo_tree) (\<lambda>f. f)"
proof -
  note walk = tree_walk_leads [OF demo_tree_no_links]
  have "leads demo_tree [] p f" if "fst (hf_open tree_host h opts p) = Inr f" for h opts p f
    using that walk [of "[]" p f] by (auto simp: tree_host_def split: option.splits)
  then show ?thesis using walk
    by (auto simp: posix_host_def tree_host_def intro: opens_existing)
qed

definition tree_volume :: "(unit, host_path) host_dir" where
  "tree_volume =
    \<lparr> hb_root = [ustr ''r''], hb_files = Map.empty, hb_finds = Map.empty, hb_sharing = Map.empty,
      hb_cache = Map.empty, hb_kernel_casefold = False, hb_xattr_supported = False, hb_next_id = 1, hb_host = () \<rparr>"

lemma tree_open:
  "hb_open tree_host tree_volume (ustr ''A'') ReadOnly DenyWrite (open_flags_from_raw 1) 0 =
    (Inr (1, Existed), snd (hb_open tree_host tree_volume (ustr ''A'') ReadOnly DenyWrite (open_flags_from_raw 1) 0))"
  by (simp add: hb_open_def open_target_def resolve_ci_def resolve_path_case_insensitive_def resolve_component_def
      cache_lookup_def listing_names_def to_ascii_lowercase_def lc_lower_def path_join_def comps_def
      open_flags_from_raw_def enforce_sandbox_def starts_with_def alloc_id_def check_and_add_def tree_host_def
      tree_volume_def demo_tree_def ustr_def of_char_def)

end
