(* ===== verification/Rust_Format.thy ===== *)
theory Rust_Format
  imports Rust_Text
begin

text \<open>
  Numbers as \<^verbatim>\<open>format!\<close> prints them: decimal digits, hexadecimal digits of either case, padding with
  zeros, and their inverses, the parsers of the standard library.
\<close>

fun decimal_digits :: "nat \<Rightarrow> ustring" where
  "decimal_digits n = (if n < 10 then [48 + n] else decimal_digits (n div 10) @ [48 + n mod 10])"

declare decimal_digits.simps [simp del]

definition zero_pad :: "nat \<Rightarrow> ustring \<Rightarrow> ustring" where
  "zero_pad k ds = replicate (k - length ds) 48 @ ds"

text \<open>\<^verbatim>\<open>{:04}\<close>.\<close>

definition format_04 :: "nat \<Rightarrow> ustring" where
  "format_04 n = zero_pad 4 (decimal_digits n)"

definition hex_digit :: "nat \<Rightarrow> nat" where
  "hex_digit d = (if d < 10 then 48 + d else 55 + d)"

definition hex_digit_lower :: "nat \<Rightarrow> nat" where
  "hex_digit_lower d = (if d < 10 then 48 + d else 87 + d)"

fun hex_digits_with :: "(nat \<Rightarrow> nat) \<Rightarrow> nat \<Rightarrow> ustring" where
  "hex_digits_with f n = (if n < 16 then [f n] else hex_digits_with f (n div 16) @ [f (n mod 16)])"

declare hex_digits_with.simps [simp del]

text \<open>\<^verbatim>\<open>{:04X}\<close>, \<^verbatim>\<open>{:x}\<close> and \<^verbatim>\<open>{:02x}\<close>.\<close>

definition hex_04 :: "u32 \<Rightarrow> ustring" where
  "hex_04 w = zero_pad 4 (hex_digits_with hex_digit (unat w))"

definition hex_lower :: "nat \<Rightarrow> ustring" where
  "hex_lower n = hex_digits_with hex_digit_lower n"

definition hex_02 :: "u8 \<Rightarrow> ustring" where
  "hex_02 b = [hex_digit_lower (unat b div 16), hex_digit_lower (unat b mod 16)]"

text \<open>\<^verbatim>\<open>char::to_digit(16)\<close> and \<^verbatim>\<open>from_str_radix(.., 16)\<close> for a width of \<open>w\<close> bits.\<close>

definition hex_value :: "nat \<Rightarrow> nat option" where
  "hex_value c =
    (if 48 \<le> c \<and> c \<le> 57 then Some (c - 48)
     else if 97 \<le> c \<and> c \<le> 102 then Some (c - 87)
     else if 65 \<le> c \<and> c \<le> 70 then Some (c - 55) else None)"

definition hex_number :: "ustring \<Rightarrow> nat option" where
  "hex_number ds = map_option (foldl (\<lambda>n d. n * 16 + d) 0) (those (map hex_value ds))"

definition from_str_radix_16 :: "nat \<Rightarrow> ustring \<Rightarrow> nat option" where
  "from_str_radix_16 w s =
    (let ds = (case s of c # cs \<Rightarrow> if c = 43 \<and> cs \<noteq> [] then cs else s | [] \<Rightarrow> s) in
     if ds = [] then None
     else case hex_number ds of Some n \<Rightarrow> if n < 2 ^ w then Some n else None | None \<Rightarrow> None)"

section \<open>Printing and parsing\<close>

lemma hex_value_digit [simp]: "d < 16 \<Longrightarrow> hex_value (hex_digit_lower d) = Some d" "d < 16 \<Longrightarrow> hex_value (hex_digit d) = Some d"
  by (auto simp: hex_value_def hex_digit_lower_def hex_digit_def)

lemma those_append: "those (xs @ ys) = (case those xs of None \<Rightarrow> None | Some a \<Rightarrow> map_option ((@) a) (those ys))"
  by (cases "those ys"; induction xs) (auto split: option.splits)

lemma hex_number_append_digit:
  "hex_number (ds @ [c]) = (case hex_number ds of Some n \<Rightarrow> map_option (\<lambda>d. n * 16 + d) (hex_value c) | None \<Rightarrow> None)"
  by (auto simp: hex_number_def those_append split: option.splits)

lemma hex_number_lower [simp]: "hex_number (hex_lower n) = Some n"
proof -
  have "hex_number (hex_digits_with hex_digit_lower n) = Some n"
  proof (induction hex_digit_lower n rule: hex_digits_with.induct)
    case (1 n)
    show ?case
    proof (cases "n < 16")
      case True
      then show ?thesis by (simp add: hex_digits_with.simps [of _ n] hex_number_def)
    next
      case False
      with 1 show ?thesis by (simp add: hex_digits_with.simps [of _ n] hex_number_append_digit)
    qed
  qed
  then show ?thesis by (simp add: hex_lower_def)
qed

lemma hex_number_02 [simp]: "hex_number (hex_02 b) = Some (unat b)"
proof -
  have "unat b < 256" using unsigned_less [of b, where ?'a = nat] by simp
  then have "unat b div 16 < 16" by (simp add: less_mult_imp_div_less)
  then show ?thesis by (simp add: hex_02_def hex_number_def)
qed

lemma hex_lower_shape: "hex_lower n \<noteq> [] \<and> (\<forall>c \<in> set (hex_lower n). 48 \<le> c \<and> c \<le> 57 \<or> 97 \<le> c \<and> c \<le> 102)"
proof -
  have "hex_digits_with hex_digit_lower n \<noteq> [] \<and>
      (\<forall>c \<in> set (hex_digits_with hex_digit_lower n). 48 \<le> c \<and> c \<le> 57 \<or> 97 \<le> c \<and> c \<le> 102)"
  proof (induction hex_digit_lower n rule: hex_digits_with.induct)
    case (1 n)
    have d: "48 \<le> hex_digit_lower d \<and> hex_digit_lower d \<le> 57 \<or> 97 \<le> hex_digit_lower d \<and> hex_digit_lower d \<le> 102"
      if "d < 16" for d
      using that by (auto simp: hex_digit_lower_def)
    show ?case
    proof (cases "n < 16")
      case True
      with d show ?thesis by (simp add: hex_digits_with.simps [of _ n])
    next
      case False
      have "n mod 16 < 16" by simp
      from d [OF this] False 1 show ?thesis by (simp add: hex_digits_with.simps [of _ n])
    qed
  qed
  then show ?thesis by (simp add: hex_lower_def)
qed

lemma from_str_radix_hex_lower: "n < 2 ^ w \<Longrightarrow> from_str_radix_16 w (hex_lower n) = Some n"
  using hex_lower_shape [of n] hex_number_lower [of n]
  by (cases "hex_lower n") (auto simp: from_str_radix_16_def Let_def simp del: hex_number_lower)

end
