(* ===== verification/Sys_Calls.thy ===== *)
theory Sys_Calls
  imports LX_Loader Semaphores SEH Rust_Format
begin

text \<open>
  The remaining system calls of \<^verbatim>\<open>src/src/loader/stubs.rs\<close> and \<^verbatim>\<open>src/src/loader/doscalls.rs\<close>: memory, shared
  memory, modules and procedure addresses, resources, messages, system information, named semaphores,
  threads, the environment and the library path, and the calls that do nothing.

  A call takes the shared state and its arguments and returns the code for EAX and the new state.
  Calls that may have the virtual CPU run guest code first return an \<open>api_result\<close>. \<open>None\<close> is a panic of
  the source, or for the environment scan a loop that never ends.
\<close>

section \<open>State\<close>

text \<open>
  Memory, resources and modules are the loader's. \<open>sy_threads\<close> are the ids that have a join handle.
\<close>

record sys_state =
  sy_ld :: loader_state
  sy_shmem :: shared_mem_manager
  sy_sems :: semaphore_manager
  sy_cp :: u32
  sy_begin_libpath :: ustring
  sy_end_libpath :: ustring
  sy_threads :: "u32 set"
  sy_next_tid :: u32

definition sy_guest :: "sys_state \<Rightarrow> guest_memory" where
  "sy_guest st = ld_guest (sy_ld st)"

definition sy_mem :: "sys_state \<Rightarrow> memory_manager" where
  "sy_mem st = ld_mem (sy_ld st)"

definition sy_dlls :: "sys_state \<Rightarrow> dll_manager" where
  "sy_dlls st = ld_dlls (sy_ld st)"

definition sy_set_guest :: "sys_state \<Rightarrow> guest_memory \<Rightarrow> sys_state" where
  "sy_set_guest st g = st\<lparr> sy_ld := (sy_ld st)\<lparr> ld_guest := g \<rparr> \<rparr>"

definition sy_set_mem :: "sys_state \<Rightarrow> memory_manager \<Rightarrow> sys_state" where
  "sy_set_mem st mm = st\<lparr> sy_ld := (sy_ld st)\<lparr> ld_mem := mm \<rparr> \<rparr>"

definition sy_set_dlls :: "sys_state \<Rightarrow> dll_manager \<Rightarrow> sys_state" where
  "sy_set_dlls st m = st\<lparr> sy_ld := (sy_ld st)\<lparr> ld_dlls := m \<rparr> \<rparr>"

definition sy_write :: "sys_state \<Rightarrow> u32 \<Rightarrow> 'a::len word \<Rightarrow> sys_state" where
  "sy_write st p v = sy_set_guest st (guest_write_ign (sy_guest st) p v)"

definition sy_out :: "sys_state \<Rightarrow> u32 \<Rightarrow> 'a::len word \<Rightarrow> sys_state" where
  "sy_out st p v = (if p \<noteq> 0 then sy_write st p v else st)"

definition sy_write_bytes :: "sys_state \<Rightarrow> u32 \<Rightarrow> u8 list \<Rightarrow> sys_state" where
  "sy_write_bytes st p bs = sy_set_guest st (guest_write_bytes_ign (sy_guest st) p bs)"

definition sy_str :: "encoding_rs \<Rightarrow> sys_state \<Rightarrow> u32 \<Rightarrow> ustring" where
  "sy_str rs st p = read_guest_string rs (sy_cp st) (sy_guest st) p"

lemmas sy_defs = sy_guest_def sy_mem_def sy_dlls_def sy_set_guest_def sy_set_mem_def sy_set_dlls_def
  sy_write_def sy_out_def sy_write_bytes_def sy_str_def

definition ERROR_FILE_NOT_FOUND :: u32 where "ERROR_FILE_NOT_FOUND = 2"
definition ERROR_INVALID_HANDLE :: u32 where "ERROR_INVALID_HANDLE = 6"
definition ERROR_NOT_ENOUGH_MEMORY :: u32 where "ERROR_NOT_ENOUGH_MEMORY = 8"
definition ERROR_INVALID_FUNCTION :: u32 where "ERROR_INVALID_FUNCTION = 87"
definition ERROR_BUFFER_OVERFLOW :: u32 where "ERROR_BUFFER_OVERFLOW = 111"
definition ERROR_INVALID_LEVEL :: u32 where "ERROR_INVALID_LEVEL = 124"
definition ERROR_MOD_NOT_FOUND :: u32 where "ERROR_MOD_NOT_FOUND = 126"
definition ERROR_PROC_NOT_FOUND :: u32 where "ERROR_PROC_NOT_FOUND = 127"
definition ERROR_ENVVAR_NOT_FOUND :: u32 where "ERROR_ENVVAR_NOT_FOUND = 204"
definition ERROR_INIT_ROUTINE_FAILED :: u32 where "ERROR_INIT_ROUTINE_FAILED = 199"
definition PIB_BASE :: u32 where "PIB_BASE = 0x00091000"
definition BEGIN_LIBPATH :: u32 where "BEGIN_LIBPATH = 1"
definition END_LIBPATH :: u32 where "END_LIBPATH = 2"

lemmas sys_error_defs = NO_ERROR_def ERROR_FILE_NOT_FOUND_def ERROR_INVALID_HANDLE_def
  ERROR_NOT_ENOUGH_MEMORY_def ERROR_INVALID_FUNCTION_def ERROR_BUFFER_OVERFLOW_def ERROR_INVALID_LEVEL_def
  ERROR_MOD_NOT_FOUND_def ERROR_PROC_NOT_FOUND_def ERROR_ENVVAR_NOT_FOUND_def ERROR_INIT_ROUTINE_FAILED_def

section \<open>Memory\<close>

definition dos_alloc_mem :: "sys_state \<Rightarrow> u32 \<Rightarrow> u32 \<Rightarrow> u32 \<times> sys_state" where
  "dos_alloc_mem st ppb cb =
    (case mm_alloc (sy_mem st) cb of
       (Some addr, mm) \<Rightarrow> (0, sy_write (sy_set_mem st mm) ppb addr)
     | (None, mm) \<Rightarrow> (8, sy_set_mem st mm))"

definition dos_free_mem :: "sys_state \<Rightarrow> u32 \<Rightarrow> u32 \<times> sys_state" where
  "dos_free_mem st pb =
    (let (ok, mm) = mm_free (sy_mem st) pb in (if ok then 0 else 487, sy_set_mem st mm))"

definition dos_alloc_shared_mem :: "encoding_rs \<Rightarrow> sys_state \<Rightarrow> u32 \<Rightarrow> u32 \<Rightarrow> u32 \<Rightarrow> u32 \<times> sys_state" where
  "dos_alloc_shared_mem rs st ppb psz_name cb =
    (let nm = (if psz_name \<noteq> 0 then (let n = sy_str rs st psz_name in if n \<noteq> [] then Some n else None) else None) in
     case mm_alloc (sy_mem st) cb of
       (Some addr, mm) \<Rightarrow>
         let st1 = sy_write (sy_set_mem st mm) ppb addr in
         (NO_ERROR, case nm of
            Some n \<Rightarrow> st1\<lparr> sy_shmem := sm_register (sy_shmem st1) n addr \<rparr>
          | None \<Rightarrow> st1)
     | (None, mm) \<Rightarrow> (ERROR_NOT_ENOUGH_MEMORY, sy_set_mem st mm))"

definition dos_get_named_shared_mem :: "encoding_rs \<Rightarrow> sys_state \<Rightarrow> u32 \<Rightarrow> u32 \<Rightarrow> u32 \<times> sys_state" where
  "dos_get_named_shared_mem rs st ppb psz_name =
    (case sm_find_by_name (sy_shmem st) (sy_str rs st psz_name) of
       Some addr \<Rightarrow> (NO_ERROR, sy_write st ppb addr)
     | None \<Rightarrow> (ERROR_FILE_NOT_FOUND, st))"

definition dos_query_mem :: "sys_state \<Rightarrow> u32 \<Rightarrow> u32 \<Rightarrow> u32 \<times> sys_state" where
  "dos_query_mem st pcb p_flag = (NO_ERROR, sy_out (sy_out st pcb (4096 :: u32)) p_flag (0x13 :: u32))"

section \<open>Resources\<close>

definition dos_get_resource :: "sys_state \<Rightarrow> u32 \<Rightarrow> u32 \<Rightarrow> u32 \<Rightarrow> u32 \<times> sys_state" where
  "dos_get_resource st id_type id_name ppb =
    (case rm_find (ld_res (sy_ld st)) (ucast id_type) (ucast id_name) of
       Some (guest_addr, _) \<Rightarrow> (0, sy_write st ppb guest_addr)
     | None \<Rightarrow> (6, st))"

definition dos_query_resource_size :: "sys_state \<Rightarrow> u32 \<Rightarrow> u32 \<Rightarrow> u32 \<Rightarrow> u32 \<times> sys_state" where
  "dos_query_resource_size st id_type id_name p_size =
    (case rm_find (ld_res (sy_ld st)) (ucast id_type) (ucast id_name) of
       Some (_, sz) \<Rightarrow> (0, sy_write st p_size sz)
     | None \<Rightarrow> (6, st))"

section \<open>Modules\<close>

definition LOADABLE_BUILTINS :: "ustring list" where
  "LOADABLE_BUILTINS = map ustr [''DOSCALLS'', ''QUECALLS'', ''PMWIN'', ''PMGPI'', ''KBDCALLS'',
     ''VIOCALLS'', ''SESMGR'', ''NLS'', ''MSG'', ''MDM'', ''UCONV'', ''SO32DLL'', ''TCP32DLL'']"

definition module_stem :: "ustring \<Rightarrow> ustring" where
  "module_stem nm =
    (let up = to_ascii_uppercase nm in case strip_suffix (ustr ''.DLL'') up of Some s \<Rightarrow> s | None \<Rightarrow> up)"

definition builtin_dll :: "ustring \<Rightarrow> u32 \<Rightarrow> loaded_dll" where
  "builtin_dll stem h = \<lparr> ld_name = stem, ld_handle = h, ld_object_bases = [],
     ld_exports_by_ordinal = Map.empty, ld_exports_by_name = Map.empty, ld_ref_count = 1,
     ld_initterm_addr = None, ld_is_builtin = True \<rparr>"

definition load_builtin :: "sys_state \<Rightarrow> ustring \<Rightarrow> u32 \<Rightarrow> sys_state" where
  "load_builtin st stem p_hmod =
    (case dm_find_by_name (sy_dlls st) stem of
       Some existing \<Rightarrow> sy_out st p_hmod (ld_handle existing)
     | None \<Rightarrow>
         (let (h, m) = dm_alloc_handle (sy_dlls st) in
          sy_out (sy_set_dlls st (snd (dm_register m (builtin_dll stem h)))) p_hmod h))"

definition load_failed :: "sys_state \<Rightarrow> ustring \<Rightarrow> u32 \<Rightarrow> u32 \<Rightarrow> u32 \<Rightarrow> sys_state" where
  "load_failed st nm psz_fail_name cb_fail_name p_hmod =
    (let st1 =
       (if psz_fail_name \<noteq> 0 \<and> cb_fail_name > 0 then
          let bytes = as_bytes nm; copy_len = min (length bytes) (unat cb_fail_name - 1) in
          sy_write (sy_write_bytes st psz_fail_name (take copy_len bytes)) (psz_fail_name + of_nat copy_len) (0 :: u8)
        else st) in
     sy_out st1 p_hmod (0 :: u32))"

definition dos_load_module ::
  "encoding_rs \<Rightarrow> nat \<Rightarrow> host_env \<Rightarrow> sys_state \<Rightarrow> u32 \<Rightarrow> u32 \<Rightarrow> u32 \<Rightarrow> u32 \<Rightarrow> (api_result \<times> sys_state) option" where
  "dos_load_module rs fuel env st psz_fail_name cb_fail_name psz_mod_name p_hmod =
    (let nm = sy_str rs st psz_mod_name; stem = module_stem nm in
     if stem \<in> set LOADABLE_BUILTINS then Some (Normal NO_ERROR, load_builtin st stem p_hmod)
     else
       (case (case find_dll_path env nm of
                Some path \<Rightarrow> (let (r, ld) = load_dll fuel env nm path (sy_ld st) in (r, st\<lparr> sy_ld := ld \<rparr>))
              | None \<Rightarrow> (Inl OpenFailed, st)) of
          (Inr h, st1) \<Rightarrow>
            (case Option.bind (dm_find_by_handle (sy_dlls st1) h) ld_initterm_addr of
               Some addr \<Rightarrow> Some (CallGuest addr h p_hmod [], st1)
             | None \<Rightarrow> Some (Normal NO_ERROR, sy_out st1 p_hmod h))
        | (Inl e, st1) \<Rightarrow>
            if e = LoadPanicked \<or> e = OutOfFuel then None
            else Some (Normal ERROR_MOD_NOT_FOUND, load_failed st1 nm psz_fail_name cb_fail_name p_hmod)))"

definition sy_free_all :: "sys_state \<Rightarrow> u32 list \<Rightarrow> sys_state" where
  "sy_free_all st bases = sy_set_mem st (foldl (\<lambda>mm b. snd (mm_free mm b)) (sy_mem st) bases)"

definition dos_free_module :: "sys_state \<Rightarrow> u32 \<Rightarrow> api_result \<times> sys_state" where
  "dos_free_module st hm =
    (case dm_decrement_refcount (sy_dlls st) hm of
       (Some (bases, Some addr), m) \<Rightarrow> (CallGuest addr hm 0 bases, sy_set_dlls st m)
     | (Some (bases, None), m) \<Rightarrow> (Normal NO_ERROR, sy_free_all (sy_set_dlls st m) bases)
     | (None, m) \<Rightarrow> (Normal NO_ERROR, sy_set_dlls st m))"

definition dos_query_module_handle :: "encoding_rs \<Rightarrow> sys_state \<Rightarrow> u32 \<Rightarrow> u32 \<Rightarrow> u32 \<times> sys_state" where
  "dos_query_module_handle rs st psz_mod_name p_hmod =
    (case dm_find_by_name (sy_dlls st) (sy_str rs st psz_mod_name) of
       Some dll \<Rightarrow> (NO_ERROR, sy_out st p_hmod (ld_handle dll))
     | None \<Rightarrow> (ERROR_MOD_NOT_FOUND, sy_out st p_hmod (0 :: u32)))"

definition proc_addr :: "dll_manager \<Rightarrow> u32 \<Rightarrow> u32 \<Rightarrow> ustring \<Rightarrow> u32 option" where
  "proc_addr m hm ord nm =
    (case dm_find_by_handle m hm of
       Some dll \<Rightarrow>
         if ld_is_builtin dll then
           (if ord \<noteq> 0 then Some (ucast (resolve_import m (ld_name dll) ord)) else None)
         else if nm \<noteq> [] then ld_exports_by_name dll (to_ascii_uppercase nm)
         else if ord \<noteq> 0 then ld_exports_by_ordinal dll ord
         else None
     | None \<Rightarrow> None)"

definition dos_query_proc_addr :: "encoding_rs \<Rightarrow> sys_state \<Rightarrow> u32 \<Rightarrow> u32 \<Rightarrow> u32 \<Rightarrow> u32 \<Rightarrow> u32 \<times> sys_state" where
  "dos_query_proc_addr rs st hm ord psz_name p_pfn =
    (let nm = (if psz_name \<noteq> 0 then sy_str rs st psz_name else []) in
     case proc_addr (sy_dlls st) hm ord nm of
       Some guest_addr \<Rightarrow> (NO_ERROR, sy_out st p_pfn guest_addr)
     | None \<Rightarrow> (ERROR_PROC_NOT_FOUND, sy_out st p_pfn (0 :: u32)))"

section \<open>Messages and devices\<close>

definition dos_get_message :: "sys_state \<Rightarrow> u32 \<Rightarrow> u32 \<Rightarrow> u32 \<Rightarrow> u32 \<Rightarrow> u32 \<times> sys_state" where
  "dos_get_message st p_buf cb_buf msg_num pcb_msg =
    (let bytes = as_bytes (ustr ''SYS'' @ format_04 (unat msg_num) @ ustr '': Message not available'');
         copy_len = min (length bytes) (unat cb_buf);
         st1 = (if p_buf \<noteq> 0 \<and> copy_len > 0 then sy_write_bytes st p_buf (take copy_len bytes) else st) in
     (NO_ERROR, sy_out st1 pcb_msg (of_nat copy_len :: u32)))"

definition dos_dev_config :: "sys_state \<Rightarrow> u32 \<Rightarrow> u32 \<Rightarrow> u32 \<times> sys_state" where
  "dos_dev_config st p_info item =
    (NO_ERROR, sy_out st p_info (if item = 3 \<or> item = 6 then 1 else 0 :: u8))"

section \<open>Named semaphores\<close>

definition dos_open_event_sem :: "encoding_rs \<Rightarrow> u32 list \<Rightarrow> sys_state \<Rightarrow> u32 \<Rightarrow> u32 \<Rightarrow> u32 \<times> sys_state" where
  "dos_open_event_sem rs order st psz_name phev =
    (if psz_name \<noteq> 0 then
       (case open_event_by_name order (sy_sems st) (sy_str rs st psz_name) of
          Some h \<Rightarrow> (NO_ERROR, sy_write st phev h)
        | None \<Rightarrow> (ERROR_FILE_NOT_FOUND, st))
     else
       (let h = read_or (sy_guest st) phev 0 in
        (if get_event (sy_sems st) h \<noteq> None then NO_ERROR else ERROR_INVALID_HANDLE, st)))"

definition dos_open_mutex_sem :: "encoding_rs \<Rightarrow> u32 list \<Rightarrow> sys_state \<Rightarrow> u32 \<Rightarrow> u32 \<Rightarrow> u32 \<times> sys_state" where
  "dos_open_mutex_sem rs order st psz_name phmtx =
    (if psz_name \<noteq> 0 then
       (case open_mutex_by_name order (sy_sems st) (sy_str rs st psz_name) of
          Some h \<Rightarrow> (NO_ERROR, sy_write st phmtx h)
        | None \<Rightarrow> (ERROR_FILE_NOT_FOUND, st))
     else
       (let h = read_or (sy_guest st) phmtx 0 in
        (if get_mutex (sy_sems st) h \<noteq> None then NO_ERROR else ERROR_INVALID_HANDLE, st)))"

section \<open>System information\<close>

definition sys_info_value :: "u32 \<Rightarrow> u32" where
  "sys_info_value idx =
    (if idx = 1 then 260 else if idx = 2 then 16 else if idx = 3 then 16 else if idx = 4 then 0
     else if idx = 5 then 3 else if idx = 6 then 1 else if idx = 7 then 5 else if idx = 8 then 32
     else if idx = 9 then 248 else if idx = 10 then 4096 else if idx = 11 then 20 else if idx = 12 then 45
     else if idx = 13 then 0 else if idx = 17 then 128 * 1024 * 1024 else if idx = 18 then 16 * 1024 * 1024
     else if idx = 19 then 96 * 1024 * 1024 else if idx = 20 then 512 * 1024 * 1024
     else if idx = 21 then 256 * 1024 * 1024 else if idx = 22 then 32 else if idx = 23 then 255 else 0)"

text \<open>The loop over \<^verbatim>\<open>i_start..=i_last\<close>: \<open>n\<close> more values, the next for index \<open>idx\<close>.\<close>

fun write_sys_info :: "guest_memory \<Rightarrow> u32 \<Rightarrow> u32 \<Rightarrow> u32 \<Rightarrow> nat \<Rightarrow> guest_memory" where
  "write_sys_info g p_buf i_start idx 0 = g"
| "write_sys_info g p_buf i_start idx (Suc n) =
    write_sys_info (guest_write_ign g (p_buf + (idx - i_start) * 4) (sys_info_value idx)) p_buf i_start (idx + 1) n"

definition dos_query_sys_info :: "sys_state \<Rightarrow> u32 \<Rightarrow> u32 \<Rightarrow> u32 \<Rightarrow> u32 \<Rightarrow> u32 \<times> sys_state" where
  "dos_query_sys_info st i_start i_last p_buf cb_buf =
    (if i_start = 0 \<or> i_last < i_start then (ERROR_INVALID_LEVEL, st)
     else
       let count = unat (i_last - i_start + 1) in
       if cb_buf < of_nat (count * 4) then (ERROR_BUFFER_OVERFLOW, st)
       else (NO_ERROR, sy_set_guest st (write_sys_info (sy_guest st) p_buf i_start i_start count)))"

text \<open>The broken-down local time of the host; \<^verbatim>\<open>c_int\<close> fields are 32-bit words.\<close>

record host_tm =
  tm_sec :: u32
  tm_min :: u32
  tm_hour :: u32
  tm_mday :: u32
  tm_mon :: u32
  tm_year :: u32
  tm_wday :: u32
  tm_gmtoff :: int
  tv_usec :: int

definition dos_get_date_time :: "host_tm \<Rightarrow> sys_state \<Rightarrow> u32 \<Rightarrow> u32 \<times> sys_state" where
  "dos_get_date_time tm st p_dt =
    (if p_dt = 0 then (ERROR_INVALID_FUNCTION, st)
     else
       let st1 = sy_write st p_dt (ucast (tm_hour tm) :: u8);
           st2 = sy_write st1 (p_dt + 1) (ucast (tm_min tm) :: u8);
           st3 = sy_write st2 (p_dt + 2) (ucast (tm_sec tm) :: u8);
           st4 = sy_write st3 (p_dt + 3) (word_of_int (tv_usec tm div 10000) :: u8);
           st5 = sy_write st4 (p_dt + 4) (ucast (tm_mday tm) :: u8);
           st6 = sy_write st5 (p_dt + 5) (ucast (tm_mon tm + 1) :: u8);
           st7 = sy_write st6 (p_dt + 6) (ucast (tm_year tm + 1900) :: u16);
           st8 = sy_write st7 (p_dt + 8) (word_of_int (sgn (tm_gmtoff tm) * (\<bar>tm_gmtoff tm\<bar> div 60)) :: u16);
           st9 = sy_write st8 (p_dt + 10) (ucast (tm_wday tm) :: u8) in
       (NO_ERROR, st9))"

section \<open>Threads\<close>

text \<open>
  A new thread: a stack and a thread information block are allocated, the exit trap and the parameter
  are put on the stack, and a virtual CPU starts at the function. The registers it starts with are part
  of the result. \<open>rs0\<close> are those of a fresh virtual CPU.
\<close>

definition dos_create_thread ::
  "guest_regs \<Rightarrow> sys_state \<Rightarrow> u32 \<Rightarrow> u32 \<Rightarrow> u32 \<Rightarrow> u32 \<Rightarrow> (u32 \<times> (guest_regs \<times> u64) option \<times> sys_state) option" where
  "dos_create_thread rs0 st ptid_ptr pfn param cb_stack =
    (let stack_size = (if cb_stack = 0 then 65536 else cb_stack) in
     case mm_alloc (sy_mem st) stack_size of
       (None, mm) \<Rightarrow> Some (8, None, sy_set_mem st mm)
     | (Some stack_base, mm1) \<Rightarrow>
         (case mm_alloc mm1 4096 of
            (None, mm2) \<Rightarrow> None
          | (Some tib_addr, mm2) \<Rightarrow>
              let tid = sy_next_tid st;
                  sp_addr = stack_base + stack_size - 12;
                  st1 = (sy_set_mem st mm2)\<lparr> sy_next_tid := tid + 1 \<rparr> in
              do { g \<leftarrow> write_dwords (sy_guest st1) tib_addr [(0x18, tib_addr), (0x30, PIB_BASE)];
                   g \<leftarrow> write_dwords g sp_addr [(0, EXIT_TRAP_ADDR), (4, param)];
                   let regs = rs0\<lparr> rip := ucast pfn, rsp := ucast (stack_base + stack_size - 12),
                                   rax := ucast param, rflags := 2 \<rparr>;
                       st2 = (sy_set_guest st1 g)\<lparr> sy_threads := insert tid (sy_threads st1) \<rparr> in
                   Some (0, Some (regs, ucast tib_addr), sy_write st2 ptid_ptr tid) }))"

text \<open>
  Waiting for a thread: up to 100 passes, each of which sees whether the loader shuts down and the
  thread table as the other threads left it; then the join handle is taken.
\<close>

fun wait_thread_loop :: "nat \<Rightarrow> u32 \<Rightarrow> (bool \<times> u32 set) list \<Rightarrow> u32 option" where
  "wait_thread_loop 0 tid obs = Some 309"
| "wait_thread_loop (Suc n) tid [] = None"
| "wait_thread_loop (Suc n) tid ((down, threads) # obs) =
    (if down then Some 309 else if tid \<in> threads then Some 0 else wait_thread_loop n tid obs)"

definition dos_wait_thread :: "sys_state \<Rightarrow> u32 \<Rightarrow> (bool \<times> u32 set) list \<Rightarrow> u32 option" where
  "dos_wait_thread st ptid_ptr obs = wait_thread_loop 100 (read_or (sy_guest st) ptid_ptr 0) obs"

definition dos_kill_thread :: "sys_state \<Rightarrow> u32 \<Rightarrow> u32 \<times> sys_state" where
  "dos_kill_thread st tid =
    (if tid \<in> sy_threads st then NO_ERROR else ERROR_INVALID_HANDLE,
     st\<lparr> sy_threads := sy_threads st - {tid} \<rparr>)"

definition dos_get_info_blocks :: "u64 \<Rightarrow> sys_state \<Rightarrow> u32 \<Rightarrow> u32 \<Rightarrow> u32 \<times> sys_state" where
  "dos_get_info_blocks fs_base st ptib ppib =
    (0, sy_out (sy_out st ptib (ucast fs_base :: u32)) ppib PIB_BASE)"

definition dos_get_info_seg :: "sys_state \<Rightarrow> u32 \<Rightarrow> u32 \<Rightarrow> u32 \<times> sys_state" where
  "dos_get_info_seg st p_global_sel p_local_sel =
    (0, sy_out (sy_out st p_global_sel (ucast (drop_bit 4 PIB_BASE) :: u16)) p_local_sel (ucast (drop_bit 4 TIB_BASE) :: u16))"

definition dos_set_rel_max_fh :: "sys_state \<Rightarrow> u32 \<Rightarrow> u32 \<times> sys_state" where
  "dos_set_rel_max_fh st p_cur_max_fh = (0, sy_out st p_cur_max_fh (256 :: u32))"

section \<open>Environment and library path\<close>

text \<open>
  The cursor moves on by the length of the decoded entry in UTF-8, plus one. \<open>None\<close> never returns.
\<close>

partial_function (option) scan_env_loop ::
    "encoding_rs \<Rightarrow> sys_state \<Rightarrow> ustring \<Rightarrow> u32 \<Rightarrow> u32 option option" where
  "scan_env_loop rs st nm cursor =
    (let entry = sy_str rs st cursor in
     if entry = [] then Some None
     else
       let prefix = nm @ ustr ''='' in
       if str_starts (to_ascii_uppercase prefix) (to_ascii_uppercase entry)
       then Some (Some (cursor + of_nat (length (as_bytes prefix))))
       else scan_env_loop rs st nm (cursor + of_nat (length (as_bytes entry)) + 1))"

definition dos_scan_env :: "encoding_rs \<Rightarrow> sys_state \<Rightarrow> u32 \<Rightarrow> u32 \<Rightarrow> (u32 \<times> sys_state) option" where
  "dos_scan_env rs st psz_name pp_value =
    (let nm = sy_str rs st psz_name in
     if nm = [] then Some (ERROR_ENVVAR_NOT_FOUND, st)
     else
       (case gm_read (sy_guest st) (PIB_BASE + 0x10) of
          None \<Rightarrow> Some (ERROR_ENVVAR_NOT_FOUND, st)
        | Some env_addr \<Rightarrow>
            do { r \<leftarrow> scan_env_loop rs st nm env_addr;
                 Some (case r of
                    Some value_offset \<Rightarrow> (NO_ERROR, sy_write st pp_value value_offset)
                  | None \<Rightarrow> (ERROR_ENVVAR_NOT_FOUND, st)) }))"

definition dos_set_ext_libpath :: "encoding_rs \<Rightarrow> sys_state \<Rightarrow> u32 \<Rightarrow> u32 \<Rightarrow> u32 \<times> sys_state" where
  "dos_set_ext_libpath rs st psz_path flags =
    (let path = (if psz_path \<noteq> 0 then sy_str rs st psz_path else []) in
     if flags = BEGIN_LIBPATH then (NO_ERROR, st\<lparr> sy_begin_libpath := path \<rparr>)
     else if flags = END_LIBPATH then (NO_ERROR, st\<lparr> sy_end_libpath := path \<rparr>)
     else (ERROR_INVALID_FUNCTION, st))"

definition dos_query_ext_libpath :: "sys_state \<Rightarrow> u32 \<Rightarrow> u32 \<Rightarrow> u32 \<times> sys_state" where
  "dos_query_ext_libpath st psz_path flags =
    (if psz_path = 0 then (ERROR_INVALID_FUNCTION, st)
     else
       (case (if flags = BEGIN_LIBPATH then Some (sy_begin_libpath st)
              else if flags = END_LIBPATH then Some (sy_end_libpath st) else None) of
          None \<Rightarrow> (ERROR_INVALID_FUNCTION, st)
        | Some stored \<Rightarrow>
            let bytes = as_bytes stored in
            (NO_ERROR, sy_write (sy_write_bytes st psz_path bytes) (psz_path + of_nat (length bytes)) (0 :: u8))))"

section \<open>Calls without effect\<close>

definition dos_enter_must_complete :: "sys_state \<Rightarrow> u32 \<Rightarrow> u32 \<times> sys_state" where
  "dos_enter_must_complete st p_nesting = (NO_ERROR, sy_out st p_nesting (1 :: u32))"

definition dos_exit_must_complete :: "sys_state \<Rightarrow> u32 \<Rightarrow> u32 \<times> sys_state" where
  "dos_exit_must_complete st p_nesting = (NO_ERROR, sy_out st p_nesting (0 :: u32))"

definition dos_query_fh_state :: "sys_state \<Rightarrow> u32 \<Rightarrow> u32 \<times> sys_state" where
  "dos_query_fh_state st p_mode = (NO_ERROR, sy_out st p_mode (0 :: u32))"

definition dos_query_verify :: "sys_state \<Rightarrow> u32 \<Rightarrow> u32 \<times> sys_state" where
  "dos_query_verify st p_flag = (NO_ERROR, sy_out st p_flag (0 :: u32))"

end
