(* ===== verification/Sys_Props.thy ===== *)
theory Sys_Props
  imports Sys_Calls File_Props
begin

text \<open>
  New threads start on memory of their own with the frame the virtual CPU expects; the system values are
  written where the program reads them; and the check of the buffer they go to can be fooled.
\<close>

section \<open>Threads\<close>

lemma sy_guest_set [simp]: "sy_guest (sy_set_guest st g) = g" "sy_guest (sy_set_mem st mm) = sy_guest st"
  "sy_mem (sy_set_guest st g) = sy_mem st" "sy_mem (sy_set_mem st mm) = mm"
  "sy_guest (st\<lparr> sy_next_tid := t \<rparr>) = sy_guest st" "sy_guest (st\<lparr> sy_threads := ts \<rparr>) = sy_guest st"
  "sy_mem (st\<lparr> sy_next_tid := t \<rparr>) = sy_mem st" "sy_mem (st\<lparr> sy_threads := ts \<rparr>) = sy_mem st"
  by (simp_all add: sy_guest_def sy_set_guest_def sy_mem_def sy_set_mem_def)

lemma sy_write_simps [simp]: "sy_guest (sy_write st p v) = guest_write_ign (sy_guest st) p v" "sy_mem (sy_write st p v) = sy_mem st"
  "sy_threads (sy_write st p v) = sy_threads st" "sy_next_tid (sy_write st p v) = sy_next_tid st"
  by (simp_all add: sy_write_def) (simp_all add: sy_set_guest_def)

lemma gm_read_slice:
  "gm_size m' = gm_size m \<Longrightarrow>
   take (size_of TYPE('a)) (drop (unat p) (gm_bytes m')) = take (size_of TYPE('a)) (drop (unat p) (gm_bytes m)) \<Longrightarrow>
   gm_read m' p = (gm_read m p :: 'a::len word option)"
  by (auto simp: gm_read_def ptr_at_def Let_def)

text \<open>Two writes into a block, read back; nothing outside it changes.\<close>

lemma two_dwords:
  assumes "unat a + N \<le> gm_size g" "gm_size g \<le> 2 ^ 32" "4 dvd unat x" "unat x + 4 \<le> N" "4 dvd unat y" "unat y + 4 \<le> N"
    "x \<noteq> y"
  shows "\<exists>g'. write_dwords g a [(x, v), (y, w)] = Some g' \<and> gm_size g' = gm_size g \<and>
    gm_read g' (a + x) = Some v \<and> gm_read g' (a + y) = Some w \<and>
    (\<forall>p n. p + n \<le> unat a \<or> unat a + N \<le> p \<longrightarrow> take n (drop p (gm_bytes g')) = take n (drop p (gm_bytes g)))"
proof -
  let ?ws = "[(x, v), (y, w)]"
  have ws: "\<forall>w\<in>set ?ws. 4 dvd unat (fst w) \<and> unat (fst w) + 4 \<le> N" using assms(3-6) by simp
  obtain m' where m': "write_dwords g a ?ws = Some m'" "gm_size m' = gm_size g"
    "\<And>off. 4 dvd unat off \<Longrightarrow> unat off + 4 \<le> N \<Longrightarrow> gm_read m' (a + off) =
      (case map_of (rev ?ws) off of Some v \<Rightarrow> Some v | None \<Rightarrow> gm_read g (a + off))"
    "\<And>p n. p + n \<le> unat a \<or> unat a + N \<le> p \<Longrightarrow> take n (drop p (gm_bytes m')) = take n (drop p (gm_bytes g))"
    by (rule write_dwords_run [OF ws assms(1,2)]) (rule that, assumption+)
  have "gm_read m' (a + x) = Some v" "gm_read m' (a + y) = Some w" using m'(3) assms(3-7) by auto
  then show ?thesis using m'(1,2,4) by blast
qed

lemma gm_read_kept:
  assumes "gm_size g' = gm_size g"
    "\<forall>p n. p + n \<le> lo \<or> hi \<le> p \<longrightarrow> take n (drop p (gm_bytes g')) = take n (drop p (gm_bytes g))"
    "unat q + size_of TYPE('a) \<le> lo \<or> hi \<le> unat q"
  shows "gm_read g' q = (gm_read g q :: 'a::len word option)"
  using gm_read_slice [OF assms(1), where ?'a = 'a] assms(2,3) by blast

text \<open>The two allocations of \<^verbatim>\<open>DosCreateThread\<close>: blocks inside the region, apart from each other and from all others.\<close>

lemma thread_blocks:
  assumes "mm_reachable base limit m" "4096 dvd unat base" "base \<le> limit" "0 < unat n"
    and "mm_alloc m n = (Some sb, m1)" "mm_alloc m1 4096 = (Some tb, m2)"
  shows "unat sb + unat n \<le> unat limit" "unat tb + 4096 \<le> unat limit"
    "unat sb + unat n \<le> unat tb \<or> unat tb + 4096 \<le> unat sb"
    "b \<in> set (mm_allocated m) \<Longrightarrow> blk_bytes b \<inter> {unat sb ..< unat sb + unat n} = {}"
    "b \<in> set (mm_allocated m) \<Longrightarrow> blk_bytes b \<inter> {unat tb ..< unat tb + 4096} = {}"
proof -
  obtain k :: u32 where k: "unat n \<le> unat k" "mm_allocated m1 = mm_allocated m @ [\<lparr>ab_addr = sb, ab_size = k\<rparr>]"
    "\<forall>b\<in>set (mm_allocated m). blk_bytes b \<inter> {unat sb ..< unat sb + unat k} = {}"
    "{unat sb ..< unat sb + unat k} \<subseteq> {unat base ..< unat limit}"
    using mm_alloc_block [OF assms(1-3,5)] by blast
  have r1: "mm_reachable base limit m1" using mm_next [OF assms(1), of "MM_Alloc n"] assms(5) by simp
  have c: "unat (4096 :: u32) = 4096" by simp
  obtain j :: u32 where j: "4096 \<le> unat j" "\<forall>b\<in>set (mm_allocated m1). blk_bytes b \<inter> {unat tb ..< unat tb + unat j} = {}"
    "{unat tb ..< unat tb + unat j} \<subseteq> {unat base ..< unat limit}"
    using mm_alloc_block [OF r1 assms(2,3,6)] unfolding c by blast
  have sub1: "{unat sb ..< unat sb + unat n} \<subseteq> {unat sb ..< unat sb + unat k}" using k(1) by auto
  have sub2: "{unat tb ..< unat tb + 4096} \<subseteq> {unat tb ..< unat tb + unat j}" using j(1) by auto
  show "unat sb + unat n \<le> unat limit" using k(1,4) assms(4) by (simp add: atLeastLessThan_subset_iff)
  show "unat tb + 4096 \<le> unat limit" using j(1,3) by (simp add: atLeastLessThan_subset_iff)
  have "blk_bytes \<lparr>ab_addr = sb, ab_size = k\<rparr> \<inter> {unat tb ..< unat tb + unat j} = {}" using j(2) k(2) by simp
  then have "{unat sb ..< unat sb + unat n} \<inter> {unat tb ..< unat tb + 4096} = {}"
    using sub1 sub2 unfolding blk_bytes_def blk_lo_def blk_hi_def by auto
  then have "unat sb \<notin> {unat tb ..< unat tb + 4096} \<and> unat tb \<notin> {unat sb ..< unat sb + unat n}"
    using assms(4) by auto
  then show "unat sb + unat n \<le> unat tb \<or> unat tb + 4096 \<le> unat sb" by auto
  show "b \<in> set (mm_allocated m) \<Longrightarrow> blk_bytes b \<inter> {unat sb ..< unat sb + unat n} = {}"
    using k(3) sub1 by blast
  show "b \<in> set (mm_allocated m) \<Longrightarrow> blk_bytes b \<inter> {unat tb ..< unat tb + 4096} = {}"
    using j(2) sub2 unfolding k(2) set_append by blast
qed

lemma apart_intervals: "{a ..< b :: nat} \<subseteq> B \<Longrightarrow> B \<inter> {c ..< d} = {} \<Longrightarrow> a < b \<Longrightarrow> c < d \<Longrightarrow> b \<le> c \<or> d \<le> a"
proof -
  assume h: "{a ..< b} \<subseteq> B" "B \<inter> {c ..< d} = {}" "a < b" "c < d"
  have d: "{a ..< b} \<inter> {c ..< d} = {}" using h(1,2) by blast
  have "a \<in> {a ..< b}" "c \<in> {c ..< d}" using h(3,4) by simp_all
  then have "a \<notin> {c ..< d}" "c \<notin> {a ..< b}" using d by blast+
  then show ?thesis by auto
qed

lemma allocated_inside:
  assumes "mm_reachable base limit m" "4096 dvd unat base" "base \<le> limit" "b \<in> set (mm_allocated m)"
  shows "blk_bytes b \<subseteq> {unat base ..< unat limit}"
proof -
  have inv: "mm_inv base limit m" using assms(1-3) by (rule mm_reachable_inv)
  then have "blocks_ok (unat base) (unat (mm_next_free m)) (mm_blocks m)" "unat (mm_next_free m) \<le> unat limit"
    by (auto simp: mm_inv_def)
  note ok = this
  have "blk_bytes b \<subseteq> (\<Union>b\<in>set (mm_blocks m). blk_bytes b)" using assms(4) by (auto simp: mm_blocks_def)
  also have "\<dots> = {unat base ..< unat (mm_next_free m)}" by (rule blocks_cover [OF ok(1)])
  also have "\<dots> \<subseteq> {unat base ..< unat limit}" using ok(2) by auto
  finally show ?thesis .
qed

definition thread_regs :: "guest_regs \<Rightarrow> u32 \<Rightarrow> u32 \<Rightarrow> u32 \<Rightarrow> guest_regs" where
  "thread_regs rs0 pfn sp param =
    rs0\<lparr> rip := ucast pfn, rsp := ucast sp, rax := ucast param, rflags := 2 \<rparr>"

lemma thread_frame:
  assumes "mm_reachable base limit (sy_mem st)" "4096 dvd unat base" "base \<le> limit"
    "unat limit \<le> gm_size (sy_guest st)" "gm_size (sy_guest st) \<le> 2 ^ 32"
    and n: "n = (if cb_stack = 0 then 65536 else cb_stack)" "12 \<le> unat n"
    and "mm_alloc (sy_mem st) n = (Some sb, m1)" "mm_alloc m1 4096 = (Some tb, m2)"
    and v: "v \<in> set (mm_allocated (sy_mem st))" "{unat ptid ..< unat ptid + 4} \<subseteq> blk_bytes v"
    and sp: "sp = sb + n - 12"
  shows "\<exists>st'. dos_create_thread rs0 st ptid pfn param cb_stack =
        Some (0, Some (thread_regs rs0 pfn sp param, ucast tb), st') \<and>
      gm_read (sy_guest st') sp = Some EXIT_TRAP_ADDR \<and> gm_read (sy_guest st') (sp + 4) = Some param \<and>
      gm_read (sy_guest st') (tb + 0x18) = Some tb \<and> gm_read (sy_guest st') (tb + 0x30) = Some PIB_BASE \<and>
      gm_read (sy_guest st') ptid = Some (sy_next_tid st) \<and>
      sy_threads st' = insert (sy_next_tid st) (sy_threads st) \<and> sy_next_tid st' = sy_next_tid st + 1 \<and>
      (\<forall>b \<in> set (mm_allocated (sy_mem st)). \<forall>p k. {p ..< p + k} \<subseteq> blk_bytes b \<longrightarrow>
        p + k \<le> unat ptid \<or> unat ptid + 4 \<le> p \<longrightarrow>
        take k (drop p (gm_bytes (sy_guest st'))) = take k (drop p (gm_bytes (sy_guest st))))"
proof -
  let ?g = "sy_guest st"
  have n0: "0 < unat n" using n(2) by simp
  note bl = thread_blocks [OF assms(1-3) n0 assms(8,9)]
  have le: "unat sb + unat n \<le> gm_size ?g" "unat tb + 4096 \<le> gm_size ?g" using bl(1,2) assms(4) by auto
  have spn: "unat sp = unat sb + unat n - 12"
  proof -
    have "unat sb + unat n < 2 ^ 32" using bl(1) by (simp add: le_less_trans [OF _ unat_u32_lt])
    then have "unat (sb + n) = unat sb + unat n" by (subst unat_add_lem [symmetric]) simp
    then show ?thesis using n(2) unfolding sp by (simp add: unat_sub word_le_nat_alt)
  qed
  have pt: "unat ptid + 4 \<le> unat sb \<or> unat sb + unat n \<le> unat ptid" "unat ptid + 4 \<le> unat tb \<or> unat tb + 4096 \<le> unat ptid"
    using apart_intervals [OF v(2) bl(4) [OF v(1)]] apart_intervals [OF v(2) bl(5) [OF v(1)]] n0 by auto
  obtain g1 where g1: "write_dwords ?g tb [(0x18, tb), (0x30, PIB_BASE)] = Some g1" "gm_size g1 = gm_size ?g"
    "gm_read g1 (tb + 0x18) = Some tb" "gm_read g1 (tb + 0x30) = Some PIB_BASE"
    "\<forall>p n. p + n \<le> unat tb \<or> unat tb + 4096 \<le> p \<longrightarrow> take n (drop p (gm_bytes g1)) = take n (drop p (gm_bytes ?g))"
    using two_dwords [OF le(2) assms(5), of "0x18" "0x30" tb PIB_BASE] by auto
  have le2: "unat sp + 8 \<le> gm_size g1" using le(1) spn n(2) g1(2) by simp
  obtain g2 where g2: "write_dwords g1 sp [(0, EXIT_TRAP_ADDR), (4, param)] = Some g2" "gm_size g2 = gm_size ?g"
    "gm_read g2 (sp + 0) = Some EXIT_TRAP_ADDR" "gm_read g2 (sp + 4) = Some param"
    "\<forall>p n. p + n \<le> unat sp \<or> unat sp + 8 \<le> p \<longrightarrow> take n (drop p (gm_bytes g2)) = take n (drop p (gm_bytes g1))"
    using two_dwords [OF le2, of "0" "4" EXIT_TRAP_ADDR param] assms(5) g1(2) by auto
  have small: "unat sb + unat n < 2 ^ 32" "unat tb + 4096 < 2 ^ 32"
    using bl(1,2) by (simp_all add: le_less_trans [OF _ unat_u32_lt])
  have u: "unat (sp + 4) = unat sp + 4" "unat (tb + 0x18) = unat tb + 0x18" "unat (tb + 0x30) = unat tb + 0x30"
    using small spn n(2) by (subst unat_add_lem [THEN iffD1]; simp)+
  define g3 where "g3 = guest_write_ign g2 ptid (sy_next_tid st)"
  have stk: "gm_read g3 sp = Some EXIT_TRAP_ADDR" "gm_read g3 (sp + 4) = Some param"
    using pt(1) spn n(2) g2(3,4) u(1) unfolding g3_def
    by (subst guest_write_ign_other; auto simp: size_of_def)+
  have apart: "unat tb + 4096 \<le> unat sp \<or> unat sp + 8 \<le> unat tb" using bl(3) spn n(2) by auto
  have tib: "gm_read g3 (tb + 0x18) = Some tb" "gm_read g3 (tb + 0x30) = Some PIB_BASE"
    using pt(2) u(2,3) g1(2,3,4) g2(2) apart unfolding g3_def
    by (subst guest_write_ign_other, simp add: size_of_def, linarith,
        subst gm_read_kept [OF _ g2(5)], simp_all add: size_of_def, linarith?)+
  have pv: "unat ptid + 4 \<le> gm_size ?g"
    using subset_trans [OF v(2) allocated_inside [OF assms(1-3) v(1)]] assms(4)
    by (simp add: atLeastLessThan_subset_iff)
  have tid: "gm_read g3 ptid = Some (sy_next_tid st)"
    using pv assms(5) g2(2) unfolding g3_def by (intro guest_write_ign_read) (simp_all add: size_of_def byte_sized_def)
  have kept: "take k (drop p (gm_bytes g3)) = take k (drop p (gm_bytes ?g))"
    if b: "b \<in> set (mm_allocated (sy_mem st))" "{p ..< p + k} \<subseteq> blk_bytes b" "p + k \<le> unat ptid \<or> unat ptid + 4 \<le> p" for b p k
  proof (cases "k = 0")
    case False
    have "p + k \<le> unat sb \<or> unat sb + unat n \<le> p" "p + k \<le> unat tb \<or> unat tb + 4096 \<le> p"
      using apart_intervals [OF b(2) bl(4) [OF b(1)]] apart_intervals [OF b(2) bl(5) [OF b(1)]] n0 False by auto
    then have "p + k \<le> unat sp \<or> unat sp + 8 \<le> p" "p + k \<le> unat tb \<or> unat tb + 4096 \<le> p" using spn n(2) by auto
    then show ?thesis using g1(5) g2(5) b(3) unfolding g3_def
      by (subst guest_write_ign_slice) (auto simp: size_of_def)
  qed simp
  define st1 where "st1 = (sy_set_mem st m2)\<lparr> sy_next_tid := sy_next_tid st + 1 \<rparr>"
  define st2 where "st2 = (sy_set_guest st1 g2)\<lparr> sy_threads := insert (sy_next_tid st) (sy_threads st1) \<rparr>"
  have f: "sy_guest st1 = ?g" "sy_threads st1 = sy_threads st"
    by (simp_all add: st1_def) (simp_all add: sy_set_mem_def)
  have f2: "sy_guest (sy_write st2 ptid (sy_next_tid st)) = g3" "sy_threads st2 = insert (sy_next_tid st) (sy_threads st)"
    "sy_next_tid st2 = sy_next_tid st + 1"
    unfolding g3_def by (simp_all add: st2_def f(2)) (simp_all add: st1_def sy_set_guest_def)
  have "dos_create_thread rs0 st ptid pfn param cb_stack =
      Some (0, Some (thread_regs rs0 pfn sp param, ucast tb), sy_write st2 ptid (sy_next_tid st))"
    unfolding dos_create_thread_def Let_def n(1) [symmetric] assms(8) sp [symmetric] prod.case option.case assms(9)
      st1_def [symmetric] f(1) g1(1) Option.bind.bind_lunit g2(1) st2_def [symmetric] thread_regs_def by (rule refl)
  then show ?thesis using stk tib tid kept f2 by auto
qed

lemma mm_alloc_None_same: "mm_alloc m n = (None, m') \<Longrightarrow> m' = m"
  by (auto simp: mm_alloc_def mm_bump_def mm_reuse_def Let_def split: option.splits prod.splits if_splits)

text \<open>
  C7. \<^verbatim>\<open>DosCreateThread\<close>, with a stack of at least 12 bytes and the variable for the number of the thread in
  memory that is allocated, does one of three things. If no memory is left for the stack, it returns error 8
  and nothing changes. If none is left for the thread information block, it panics. Otherwise it returns,
  and the new thread starts as a called function: at its entry point, with the exit trap as its return
  address and the argument above it, on a thread information block that points to itself and to the process
  information block; its number is in the thread table and in the caller's variable; and of the memory
  allocated before nothing but that variable changes.
\<close>

theorem thread_start:
  assumes "mm_reachable base limit (sy_mem st)" "4096 dvd unat base" "base \<le> limit"
    "unat limit \<le> gm_size (sy_guest st)" "gm_size (sy_guest st) \<le> 2 ^ 32"
    and n: "n = (if cb_stack = 0 then 65536 else cb_stack)" "12 \<le> unat n"
    and v: "v \<in> set (mm_allocated (sy_mem st))" "{unat ptid ..< unat ptid + 4} \<subseteq> blk_bytes v"
  shows "case mm_alloc (sy_mem st) n of
      (None, m1) \<Rightarrow> dos_create_thread rs0 st ptid pfn param cb_stack = Some (8, None, st)
    | (Some sb, m1) \<Rightarrow>
        (case mm_alloc m1 4096 of
           (None, m2) \<Rightarrow> dos_create_thread rs0 st ptid pfn param cb_stack = None
         | (Some tb, m2) \<Rightarrow>
             \<exists>st'. dos_create_thread rs0 st ptid pfn param cb_stack =
                 Some (0, Some (thread_regs rs0 pfn (sb + n - 12) param, ucast tb), st') \<and>
               gm_read (sy_guest st') (sb + n - 12) = Some EXIT_TRAP_ADDR \<and>
               gm_read (sy_guest st') (sb + n - 12 + 4) = Some param \<and>
               gm_read (sy_guest st') (tb + 0x18) = Some tb \<and> gm_read (sy_guest st') (tb + 0x30) = Some PIB_BASE \<and>
               gm_read (sy_guest st') ptid = Some (sy_next_tid st) \<and>
               sy_threads st' = insert (sy_next_tid st) (sy_threads st) \<and> sy_next_tid st' = sy_next_tid st + 1 \<and>
               (\<forall>b \<in> set (mm_allocated (sy_mem st)). \<forall>p k. {p ..< p + k} \<subseteq> blk_bytes b \<longrightarrow>
                 p + k \<le> unat ptid \<or> unat ptid + 4 \<le> p \<longrightarrow>
                 take k (drop p (gm_bytes (sy_guest st'))) = take k (drop p (gm_bytes (sy_guest st)))))"
proof -
  obtain r1 m1 where a1: "mm_alloc (sy_mem st) n = (r1, m1)" by (cases "mm_alloc (sy_mem st) n")
  obtain r2 m2 where a2: "mm_alloc m1 4096 = (r2, m2)" by (cases "mm_alloc m1 4096")
  show ?thesis
  proof (cases r1)
    case None
    have "sy_set_mem st (sy_mem st) = st" by (simp add: sy_set_mem_def sy_mem_def)
    then show ?thesis using a1 mm_alloc_None_same [of "sy_mem st" n m1] None
      by (simp add: dos_create_thread_def Let_def n(1) [symmetric])
  next
    case (Some sb)
    show ?thesis
    proof (cases r2)
      case None
      then show ?thesis using a1 a2 Some by (simp add: dos_create_thread_def Let_def n(1) [symmetric])
    next
      case (Some tb)
      note e = a1 [unfolded \<open>r1 = Some sb\<close>] a2 [unfolded Some]
      show ?thesis unfolding e prod.case option.case by (rule thread_frame [OF assms(1-7) e v refl])
    qed
  qed
qed

text \<open>A thread with the default stack whose number goes to a variable in the one block allocated before.\<close>

definition caller_regs :: guest_regs where
  "caller_regs = \<lparr> rip = 0, rsp = 32, rax = 0, rbx = 0, rcx = 0, rdx = 0, rsi = 0, rdi = 0, rbp = 0, rflags = 0 \<rparr>"

definition small_sys :: sys_state where
  "small_sys = \<lparr> sy_ld = \<lparr> ld_guest = gm_alloc 0x20000, ld_mem = snd (mm_alloc (mm_new 0x1000 0x20000) 4096),
      ld_res = rm_new, ld_dlls = dm_new \<rparr>,
    sy_shmem = sm_new, sy_sems = sem_new, sy_cp = 437, sy_begin_libpath = [], sy_end_libpath = [], sy_threads = {1},
    sy_next_tid = 2 \<rparr>"

theorem thread_start_witness:
  "\<exists>st'. dos_create_thread caller_regs small_sys 0x1010 0x3000 7 0 =
      Some (0, Some (thread_regs caller_regs 0x3000 0x11FF4 7, 0x12000), st') \<and>
    gm_read (sy_guest st') 0x11FF4 = Some EXIT_TRAP_ADDR \<and> gm_read (sy_guest st') 0x1010 = Some (2 :: u32) \<and>
    sy_threads st' = {1, 2}"
proof -
  have m: "sy_mem small_sys = snd (mm_alloc (mm_new 0x1000 0x20000) 4096)" "sy_threads small_sys = {1}"
    "sy_next_tid small_sys = 2" "gm_size (sy_guest small_sys) = 0x20000"
    by (simp_all add: small_sys_def sy_mem_def sy_guest_def)
  have r: "mm_reachable 0x1000 0x20000 (sy_mem small_sys)"
    using mm_next [OF mm_init, of "0x1000" "0x20000" "MM_Alloc 4096"] unfolding m by simp
  have v: "\<lparr>ab_addr = 0x1000, ab_size = 4096\<rparr> \<in> set (mm_allocated (sy_mem small_sys))"
    unfolding m by (simp add: mm_eval)
  obtain m1 m2 where a1: "mm_alloc (sy_mem small_sys) 65536 = (Some 0x2000, m1)" "mm_alloc m1 4096 = (Some 0x12000, m2)"
    unfolding m by (simp add: mm_eval)
  have u: "{unat (0x1010 :: u32) ..< unat (0x1010 :: u32) + 4} \<subseteq> blk_bytes \<lparr>ab_addr = 0x1000, ab_size = 4096\<rparr>"
    by (simp add: blk_bytes_def blk_lo_def blk_hi_def atLeastLessThan_subset_iff)
  have d: "4096 dvd unat (0x1000 :: u32)" "(0x1000 :: u32) \<le> 0x20000" "unat (0x20000 :: u32) \<le> gm_size (sy_guest small_sys)"
    "gm_size (sy_guest small_sys) \<le> 2 ^ 32" "(65536 :: u32) = (if (0 :: u32) = 0 then 65536 else 0)"
    "12 \<le> unat (65536 :: u32)" "(0x11FF4 :: u32) = 0x2000 + 65536 - 12"
    using m(4) by simp_all
  obtain st' where st': "dos_create_thread caller_regs small_sys 0x1010 0x3000 7 0 =
      Some (0, Some (thread_regs caller_regs 0x3000 0x11FF4 7, ucast (0x12000 :: u32)), st')"
    "gm_read (sy_guest st') 0x11FF4 = Some EXIT_TRAP_ADDR" "gm_read (sy_guest st') 0x1010 = Some (sy_next_tid small_sys)"
    "sy_threads st' = insert (sy_next_tid small_sys) (sy_threads small_sys)"
    using thread_start [OF r d(1-6) v u, of caller_regs "0x3000" 7]
    unfolding a1(1) prod.case option.case a1(2) d(7) [symmetric] by blast
  then show ?thesis using m(2,3) by (intro exI [of _ st']) (simp add: insert_commute)
qed

section \<open>System values\<close>

text \<open>
  The size check of \<^verbatim>\<open>DosQuerySysInfo\<close> multiplies the number of values by four in 32 bits, so that a range of
  \<open>2 ^ 30\<close> values passes it with an empty buffer.
\<close>

lemma sys_info_check_wraps: "fst (dos_query_sys_info st 1 0x40000000 p_buf 0) = NO_ERROR"
  by (simp add: dos_query_sys_info_def)

lemma write_sys_info_size [simp]: "gm_size (write_sys_info g p_buf i_start idx n) = gm_size g"
  by (induction n arbitrary: g idx) simp_all

lemma write_sys_info_other:
  "\<forall>k<n. q + l \<le> unat (p_buf + (idx + of_nat k - i_start) * 4) \<or> unat (p_buf + (idx + of_nat k - i_start) * 4) + 4 \<le> q \<Longrightarrow>
   take l (drop q (gm_bytes (write_sys_info g p_buf i_start idx n))) = take l (drop q (gm_bytes g))"
proof (induction n arbitrary: g idx)
  case (Suc n)
  have 0: "q + l \<le> unat (p_buf + (idx - i_start) * 4) \<or> unat (p_buf + (idx - i_start) * 4) + 4 \<le> q"
    using Suc.prems [rule_format, of 0] by simp
  have r: "\<forall>k<n. q + l \<le> unat (p_buf + (idx + 1 + of_nat k - i_start) * 4) \<or> unat (p_buf + (idx + 1 + of_nat k - i_start) * 4) + 4 \<le> q"
  proof (intro allI impI)
    fix k assume "k < n"
    then show "q + l \<le> unat (p_buf + (idx + 1 + of_nat k - i_start) * 4) \<or> unat (p_buf + (idx + 1 + of_nat k - i_start) * 4) + 4 \<le> q"
      using Suc.prems [rule_format, of "Suc k"] by (simp add: ac_simps)
  qed
  have sz: "size_of TYPE(32) = 4" by (simp add: size_of_def)
  show ?case unfolding write_sys_info.simps Suc.IH [OF r] by (rule guest_write_ign_slice) (unfold sz, rule 0)
qed simp

lemma sys_slot_at:
  assumes "unat p_buf + 4 * (k + 1) \<le> 2 ^ 32"
  shows "unat (p_buf + (i_start + of_nat k - i_start) * 4 :: u32) = unat p_buf + 4 * k"
proof -
  have e: "(i_start + of_nat k - i_start) * 4 = (of_nat (4 * k) :: u32)" by simp
  have u: "unat (of_nat (4 * k) :: u32) = 4 * k"
    unfolding unat_of_nat by (rule mod_less) (use assms in simp)
  have "unat p_buf + unat (of_nat (4 * k) :: u32) < 2 ^ LENGTH(32)" unfolding u using assms by simp
  then show ?thesis unfolding e by (subst unat_add_lem [THEN iffD1]) (simp_all only: u)
qed

lemma write_sys_info_run:
  assumes "unat p_buf + 4 * (j + n) \<le> gm_size g" "gm_size g \<le> 2 ^ 32" "k < n"
  shows "gm_read (write_sys_info g p_buf i_start (i_start + of_nat j) n) (p_buf + (i_start + of_nat (j + k) - i_start) * 4) =
    Some (sys_info_value (i_start + of_nat (j + k)))"
  using assms
proof (induction n arbitrary: g j k)
  case (Suc n)
  let ?at = "\<lambda>k. p_buf + (i_start + of_nat k - i_start) * 4"
  let ?g = "guest_write_ign g (?at j) (sys_info_value (i_start + of_nat j))"
  have sz: "size_of TYPE(32) = 4" "byte_sized TYPE(32)" by (simp_all add: size_of_def byte_sized_def)
  have n: "i_start + of_nat j + 1 = i_start + of_nat (Suc j)" by (simp add: ac_simps)
  have p: "unat (?at i) = unat p_buf + 4 * i" if "i < j + Suc n" for i
    using Suc.prems(1,2) that by (intro sys_slot_at) simp
  show ?case
  proof (cases k)
    case 0
    have "\<forall>i<n. unat (?at j) + 4 \<le> unat (p_buf + (i_start + of_nat (Suc j) + of_nat i - i_start) * 4) \<or>
        unat (p_buf + (i_start + of_nat (Suc j) + of_nat i - i_start) * 4) + 4 \<le> unat (?at j)"
    proof (intro allI impI disjI1)
      fix i assume "i < n"
      have "i_start + of_nat (Suc j) + of_nat i = i_start + of_nat (Suc j + i)" by simp
      then show "unat (?at j) + 4 \<le> unat (p_buf + (i_start + of_nat (Suc j) + of_nat i - i_start) * 4)"
        using p [of j] p [of "Suc j + i"] \<open>i < n\<close> by simp
    qed
    note keep = write_sys_info_other [OF this, of ?g]
    have "gm_read (write_sys_info ?g p_buf i_start (i_start + of_nat (Suc j)) n) (?at j) = (gm_read ?g (?at j) :: u32 option)"
      by (rule gm_read_slice) (use keep write_sys_info_size in \<open>simp_all add: sz\<close>)
    also have "\<dots> = Some (sys_info_value (i_start + of_nat j))"
      by (rule guest_write_ign_read) (use p [of j] Suc.prems(1,2) sz in simp_all)
    finally show ?thesis by (simp only: write_sys_info.simps n 0 add_0_right)
  next
    case (Suc i)
    then show ?thesis using Suc.IH [of "Suc j" ?g i] Suc.prems by (simp only: write_sys_info.simps n) simp
  qed
qed simp

text \<open>
  \<^verbatim>\<open>DosQuerySysInfo\<close> for a range whose values fit the buffer writes exactly the values of the range, in
  order, one doubleword each from the start of the buffer, and nothing else.
\<close>

theorem sys_info_written:
  assumes "0 < i_start" "i_start \<le> i_last" and n: "n = unat (i_last - i_start) + 1" "4 * n \<le> unat cb_buf"
    and m: "unat p_buf + 4 * n \<le> gm_size (sy_guest st)" "gm_size (sy_guest st) \<le> 2 ^ 32"
  shows "\<exists>st'. dos_query_sys_info st i_start i_last p_buf cb_buf = (NO_ERROR, st') \<and>
    (\<forall>k<n. gm_read (sy_guest st') (p_buf + of_nat k * 4) = Some (sys_info_value (i_start + of_nat k))) \<and>
    (\<forall>q l. q + l \<le> unat p_buf \<or> unat p_buf + 4 * n \<le> q \<longrightarrow>
      take l (drop q (gm_bytes (sy_guest st'))) = take l (drop q (gm_bytes (sy_guest st))))"
proof -
  let ?g = "write_sys_info (sy_guest st) p_buf i_start i_start n"
  have b: "4 * n < 2 ^ 32" using n(2) by (simp add: le_less_trans [OF _ unat_u32_lt])
  have "unat (i_last - i_start) + unat (1 :: u32) < 2 ^ LENGTH(32)" using b n(1) by simp
  then have c: "unat (i_last - i_start + 1) = n" unfolding n(1) by (subst unat_add_lem [THEN iffD1]) simp_all
  have "unat (of_nat (n * 4) :: u32) = n * 4" unfolding unat_of_nat by (rule mod_less) (use b in simp)
  then have d: "\<not> cb_buf < of_nat (n * 4)" using n(2) unfolding word_less_nat_alt by simp
  have e: "\<not> (i_start = 0 \<or> i_last < i_start)" using assms(1,2) by auto
  have q: "dos_query_sys_info st i_start i_last p_buf cb_buf = (NO_ERROR, sy_set_guest st ?g)"
    unfolding dos_query_sys_info_def if_not_P [OF e] Let_def c if_not_P [OF d] ..
  have r: "gm_read ?g (p_buf + of_nat k * 4) = Some (sys_info_value (i_start + of_nat k))" if "k < n" for k
    using write_sys_info_run [of p_buf 0 n "sy_guest st" k i_start] m that by simp
  have o: "take l (drop q (gm_bytes ?g)) = take l (drop q (gm_bytes (sy_guest st)))"
    if "q + l \<le> unat p_buf \<or> unat p_buf + 4 * n \<le> q" for q l
  proof (rule write_sys_info_other, intro allI impI)
    fix k assume "k < n"
    then have "unat (p_buf + (i_start + of_nat k - i_start) * 4) = unat p_buf + 4 * k"
      using m by (intro sys_slot_at) simp
    then show "q + l \<le> unat (p_buf + (i_start + of_nat k - i_start) * 4) \<or>
        unat (p_buf + (i_start + of_nat k - i_start) * 4) + 4 \<le> q" using that \<open>k < n\<close> by auto
  qed
  show ?thesis unfolding q using r o by auto
qed

text \<open>The page size and the major version, indices 10 and 11.\<close>

theorem sys_info_written_witness:
  "\<exists>st'. dos_query_sys_info small_sys 10 11 0x1000 8 = (NO_ERROR, st') \<and>
    gm_read (sy_guest st') 0x1000 = Some (4096 :: u32) \<and> gm_read (sy_guest st') 0x1004 = Some (20 :: u32)"
proof -
  have g: "gm_size (sy_guest small_sys) = 0x20000" by (simp add: small_sys_def sy_guest_def)
  have h: "0 < (10 :: u32)" "(10 :: u32) \<le> 11" "2 = unat (11 - 10 :: u32) + 1" "4 * 2 \<le> unat (8 :: u32)" by simp_all
  obtain st' where st': "dos_query_sys_info small_sys 10 11 0x1000 8 = (NO_ERROR, st')"
    "\<forall>k<2. gm_read (sy_guest st') (0x1000 + of_nat k * 4) = Some (sys_info_value (10 + of_nat k))"
    using sys_info_written [OF h, of "0x1000" small_sys] g by auto
  show ?thesis using st'(1) st'(2) [rule_format, of 0] st'(2) [rule_format, of 1]
    by (simp add: sys_info_value_def)
qed

end
