(* ===== verification/Kbdcalls.thy ===== *)
theory Kbdcalls
  imports Console Sys_Calls
begin

text \<open>
  Keyboard calls (\<^verbatim>\<open>src/src/loader/kbdcalls.rs\<close>) and the translation of terminal input to key codes
  (\<^verbatim>\<open>map_key_to_os2\<close> in \<^verbatim>\<open>src/src/loader/console.rs\<close>). With the SDL2 text window keys come from a queue
  other threads fill, otherwise from reads of the terminal, each of which finds a byte or nothing. Both
  are lists of what the passes of a waiting loop observe; \<open>None\<close> is a call that has not returned when they
  are used up, or a stack outside guest memory.
\<close>

section \<open>State\<close>

record kbd_key_info =
  ki_ch :: u8
  ki_scan :: u8
  ki_state :: u16

record kbd_state =
  kb_guest :: guest_memory
  kb_console :: vio_manager
  kb_cp :: u32
  kb_sdl2_text :: bool
  kb_queue :: "kbd_key_info list"
  kb_reads :: "u8 option list"

definition kb_write :: "kbd_state \<Rightarrow> u32 \<Rightarrow> 'a::len word \<Rightarrow> kbd_state" where
  "kb_write st p v = st\<lparr> kb_guest := guest_write_ign (kb_guest st) p v \<rparr>"

text \<open>The next read of the terminal; at the end of the list there is nothing to read.\<close>

definition read_byte :: "u8 option list \<Rightarrow> u8 option \<times> u8 option list" where
  "read_byte rds = (case rds of [] \<Rightarrow> (None, []) | r # rs \<Rightarrow> (r, rs))"

section \<open>Key codes\<close>

definition letter_scans :: "u8 list" where
  "letter_scans = [0x1E, 0x30, 0x2E, 0x20, 0x12, 0x21, 0x22, 0x23, 0x17, 0x24, 0x25, 0x26, 0x32, 0x31, 0x18, 0x19,
     0x10, 0x13, 0x1F, 0x14, 0x16, 0x2F, 0x11, 0x2D, 0x15, 0x2C]"

definition printable_scan :: "u8 \<Rightarrow> u8" where
  "printable_scan b =
    (if b = 0x20 then 0x39
     else if 48 \<le> b \<and> b \<le> 57 then b - 48 + 0x0B
     else if 97 \<le> b \<and> b \<le> 122 then letter_scans ! unat (b - 97)
     else if 65 \<le> b \<and> b \<le> 90 then letter_scans ! unat (b - 65)
     else 0)"

text \<open>An escape sequence; the byte after a digit, a tilde, is consumed.\<close>

definition map_escape :: "u8 option list \<Rightarrow> (u8 \<times> u8) \<times> u8 option list" where
  "map_escape rds =
    (case read_byte rds of
       (Some b, r1) \<Rightarrow>
         if b = 0x5B then
           (case read_byte r1 of
              (Some c, r2) \<Rightarrow>
                if c = 0x41 then ((0, 0x48), r2) else if c = 0x42 then ((0, 0x50), r2)
                else if c = 0x43 then ((0, 0x4D), r2) else if c = 0x44 then ((0, 0x4B), r2)
                else if c = 0x48 then ((0, 0x47), r2) else if c = 0x46 then ((0, 0x4F), r2)
                else if c = 0x31 then ((0, 0x47), snd (read_byte r2))
                else if c = 0x33 then ((0xE0, 0x53), snd (read_byte r2))
                else if c = 0x34 then ((0, 0x4F), snd (read_byte r2))
                else if c = 0x35 then ((0, 0x49), snd (read_byte r2))
                else if c = 0x36 then ((0, 0x51), snd (read_byte r2))
                else ((0x1B, 0x01), r2)
            | (None, r2) \<Rightarrow> ((0x1B, 0x01), r2))
         else ((0x1B, 0x01), r1)
     | (None, r1) \<Rightarrow> ((0x1B, 0x01), r1))"

definition map_key_to_os2 :: "u8 \<Rightarrow> u8 option list \<Rightarrow> (u8 \<times> u8) \<times> u8 option list" where
  "map_key_to_os2 b rds =
    (if 0x01 \<le> b \<and> b \<le> 0x1A \<and> b \<noteq> 0x1B \<and> b \<noteq> 0x0D \<and> b \<noteq> 0x09 \<and> b \<noteq> 0x08 then ((b, b + 0x1D), rds)
     else if b = 0x0D then ((0x0D, 0x1C), rds)
     else if b = 0x09 then ((0x09, 0x0F), rds)
     else if b = 0x08 \<or> b = 0x7F then ((0x08, 0x0E), rds)
     else if b = 0x1B then map_escape rds
     else if 0x20 \<le> b \<and> b \<le> 0x7E then ((b, printable_scan b), rds)
     else ((b, 0), rds))"

section \<open>The calls\<close>

definition write_key_info :: "kbd_state \<Rightarrow> u32 \<Rightarrow> u8 \<Rightarrow> u8 \<Rightarrow> u8 \<Rightarrow> u16 \<Rightarrow> kbd_state" where
  "write_key_info st p ch scan fb shift =
    (if p \<noteq> 0 then
       kb_write (kb_write (kb_write (kb_write (kb_write (kb_write st p ch) (p + 1) scan) (p + 2) fb)
         (p + 3) (0 :: u8)) (p + 4) shift) (p + 6) (0 :: u32)
     else st)"

text \<open>Passes of the queue loop: shutting down, and the keys that have arrived.\<close>

fun char_in_keys :: "kbd_state \<Rightarrow> u32 \<Rightarrow> u32 \<Rightarrow> (bool \<times> kbd_key_info list) list \<Rightarrow> (u32 \<times> kbd_state) option" where
  "char_in_keys st p wait [] = None"
| "char_in_keys st p wait ((down, arrived) # obs) =
    (let q = kb_queue st @ arrived in
     if down then Some (ERROR_INVALID_FUNCTION, st\<lparr> kb_queue := q \<rparr>)
     else case q of
       ki # rest \<Rightarrow> Some (NO_ERROR, write_key_info (st\<lparr> kb_queue := rest \<rparr>) p (ki_ch ki) (ki_scan ki)
                                (if ki_ch ki = 0 then 0x02 else 0x40) (ki_state ki))
     | [] \<Rightarrow> if wait = 1 then Some (NO_ERROR, write_key_info (st\<lparr> kb_queue := [] \<rparr>) p 0 0 0 0)
             else char_in_keys (st\<lparr> kb_queue := [] \<rparr>) p wait obs)"

text \<open>Passes of the terminal loop: is the loader shutting down.\<close>

fun char_in_terminal :: "kbd_state \<Rightarrow> u32 \<Rightarrow> u32 \<Rightarrow> bool list \<Rightarrow> (u32 \<times> kbd_state) option" where
  "char_in_terminal st p wait [] = None"
| "char_in_terminal st p wait (down # obs) =
    (if down then Some (ERROR_INVALID_FUNCTION, st)
     else
       (case read_byte (kb_reads st) of
          (Some b, r1) \<Rightarrow>
            (case map_key_to_os2 b r1 of
               ((ch, scan), r2) \<Rightarrow> Some (NO_ERROR, write_key_info (st\<lparr> kb_reads := r2 \<rparr>) p ch scan 0x40 0))
        | (None, r1) \<Rightarrow>
            let st1 = st\<lparr> kb_reads := r1 \<rparr> in
            if wait = 1 then Some (NO_ERROR, write_key_info st1 p 0 0 0 0)
            else char_in_terminal st1 p wait obs))"

definition kbd_char_in :: "kbd_state \<Rightarrow> u32 \<Rightarrow> u32 \<Rightarrow> (bool \<times> kbd_key_info list) list \<Rightarrow> (u32 \<times> kbd_state) option" where
  "kbd_char_in st p wait obs =
    (if kb_sdl2_text st then char_in_keys st p wait obs else char_in_terminal st p wait (map fst obs))"

definition kbd_get_status :: "kbd_state \<Rightarrow> u32 \<Rightarrow> u32 \<times> kbd_state" where
  "kbd_get_status st p =
    (NO_ERROR,
     if p \<noteq> 0 then
       kb_write (kb_write (kb_write (kb_write (kb_write st p (10 :: u16)) (p + 2) (0x06 :: u16)) (p + 4) (0x0D :: u16))
         (p + 6) (0 :: u16)) (p + 8) (0 :: u16)
     else st)"

fun string_in_loop ::
  "encoding_rs \<Rightarrow> kbd_state \<Rightarrow> u32 \<Rightarrow> u32 \<Rightarrow> u32 \<Rightarrow> u32 \<Rightarrow> bool list \<Rightarrow> (u32 \<times> kbd_state) option" where
  "string_in_loop rs st p mx wait n [] = None"
| "string_in_loop rs st p mx wait n (down # obs) =
    (if down \<or> mx \<le> n then Some (n, st)
     else
       (case read_byte (kb_reads st) of
          (Some b, r1) \<Rightarrow>
            let st1 = st\<lparr> kb_reads := r1 \<rparr> in
            if b = 0x0D then Some (n, st1)
            else if b = 0x08 \<or> b = 0x7F then
              (if 0 < n then
                 string_in_loop rs (st1\<lparr> kb_console := write_tty rs (kb_console st1) [0x08, 0x20, 0x08] 0x07 437 \<rparr>)
                   p mx wait (n - 1) obs
               else string_in_loop rs st1 p mx wait n obs)
            else if 0x20 \<le> b then
              string_in_loop rs ((kb_write st1 (p + n) b)\<lparr> kb_console := write_tty rs (kb_console st1) [b] 0x07 (kb_cp st1) \<rparr>)
                p mx wait (n + 1) obs
            else string_in_loop rs st1 p mx wait n obs
        | (None, r1) \<Rightarrow>
            let st1 = st\<lparr> kb_reads := r1 \<rparr> in
            if wait = 1 then Some (n, st1) else string_in_loop rs st1 p mx wait n obs))"

definition kbd_string_in :: "encoding_rs \<Rightarrow> kbd_state \<Rightarrow> u32 \<Rightarrow> u32 \<Rightarrow> u32 \<Rightarrow> bool list \<Rightarrow> (u32 \<times> kbd_state) option" where
  "kbd_string_in rs st p p_length wait obs =
    (if p_length = 0 then Some (ERROR_INVALID_FUNCTION, st)
     else
       let mx = (case gm_read (kb_guest st) p_length of Some v \<Rightarrow> ucast (v :: u16) | None \<Rightarrow> 0) in
       do { (n, st') \<leftarrow> string_in_loop rs st p mx wait 0 obs;
            Some (NO_ERROR, kb_write st' (p_length + 2) (ucast n :: u16)) })"

section \<open>Dispatch\<close>

definition kbdcalls_arg_bytes :: "u32 \<Rightarrow> u64" where
  "kbdcalls_arg_bytes ordinal = (if ordinal = 4 then 12 else if ordinal = 10 then 8 else if ordinal = 9 then 16 else 0)"

definition handle_kbdcalls ::
  "encoding_rs \<Rightarrow> kbd_state \<Rightarrow> u64 \<Rightarrow> u32 \<Rightarrow> (bool \<times> kbd_key_info list) list \<Rightarrow> (u32 \<times> kbd_state) option" where
  "handle_kbdcalls rs st esp ordinal obs =
    (let arg = (\<lambda>off. gm_read (kb_guest st) (ucast (esp + off) :: u32) :: u32 option) in
     if ordinal = 4 then do { p \<leftarrow> arg 12; w \<leftarrow> arg 8; _ \<leftarrow> arg 4; kbd_char_in st p w obs }
     else if ordinal = 10 then do { p \<leftarrow> arg 8; _ \<leftarrow> arg 4; Some (kbd_get_status st p) }
     else if ordinal = 9 then
       do { p \<leftarrow> arg 16; l \<leftarrow> arg 12; w \<leftarrow> arg 8; _ \<leftarrow> arg 4; kbd_string_in rs st p l w (map fst obs) }
     else Some (NO_ERROR, st))"

end
