(* ===== verification/PM_Windows.thy ===== *)
theory PM_Windows
  imports SEH Codepage
begin

unbundle bit_operations_syntax

text \<open>
  The window manager of the Presentation Manager (\<^verbatim>\<open>src/src/loader/pm_types.rs\<close>): window classes, windows,
  message queues, presentation spaces, accelerator tables, the stacking order of frames and the set of
  windows to repaint. \<^verbatim>\<open>i32\<close> coordinates are 32-bit words compared with the signed order.

  Messages to the GUI thread are kept in the order they were sent. The iteration order of a hash map is
  the argument \<open>it\<close>. \<open>None\<close> as the result of a walk up the parents is a walk that never ends.
\<close>

section \<open>State\<close>

record os2_message =
  om_hwnd :: u32
  om_msg :: u32
  om_mp1 :: u32
  om_mp2 :: u32
  om_time :: u32
  om_x :: u16
  om_y :: u16

record window_class =
  wc_name :: ustring
  wc_pfn_wp :: u32
  wc_style :: u32

datatype menu_item = MenuItem (mi_id: u16) (mi_style: u16) (mi_attr: u16) (mi_text: ustring) (mi_children: "menu_item list")

record os2_window =
  w_handle :: u32
  w_class_name :: ustring
  w_pfn_wp :: u32
  w_parent :: u32
  w_hmq :: u32
  w_text :: ustring
  w_ulong :: "u32 \<rightharpoonup> u32"
  w_ushort :: "u32 \<rightharpoonup> u16"
  w_id :: u32
  w_children :: "u32 list"
  w_x :: u32
  w_y :: u32
  w_cx :: u32
  w_cy :: u32
  w_visible :: bool
  w_style :: u32
  w_listbox_items :: "ustring list"
  w_menu_items :: "menu_item list"
  w_menu_hwnd :: u32
  w_dismissed :: bool
  w_dialog_result :: u32
  w_frame_flags :: u32

record presentation_space =
  ps_hps :: u32
  ps_hwnd :: u32
  ps_color :: u32
  ps_back_color :: u32
  ps_mix_mode :: u32
  ps_back_mix :: u32
  ps_char_set :: u32
  ps_char_box :: "u32 \<times> u32"
  ps_current_pos :: "u32 \<times> u32"

record accel_entry =
  ac_flags :: u16
  ac_key :: u16
  ac_cmd :: u16

text \<open>What the GUI thread is told (\<^verbatim>\<open>src/src/gui/message.rs\<close>).\<close>

datatype gui_message =
    CreateWindow ustring ustring u32
  | ResizeWindow u32 u32 u32
  | MoveWindow u32 u32 u32
  | ShowWindow u32 bool
  | DrawBox u32 u32 u32 u32 u32 u32 bool
  | DrawLine u32 u32 u32 u32 u32 u32
  | DrawText u32 u32 u32 ustring u32
  | ClearBuffer u32
  | PresentBuffer u32
  | SetClipboardText ustring
  | SetMouseCapture u32
  | ShowMessageBox ustring ustring u32

record window_manager =
  wm_classes :: "ustring \<rightharpoonup> window_class"
  wm_windows :: "u32 \<rightharpoonup> os2_window"
  wm_ps_map :: "u32 \<rightharpoonup> presentation_space"
  wm_msg_queues :: "u32 \<rightharpoonup> os2_message list"
  wm_frame_to_client :: "u32 \<rightharpoonup> u32"
  wm_tid_to_hmq :: "u32 \<rightharpoonup> u32"
  wm_gui_tx :: bool
  wm_gui_log :: "gui_message list"
  wm_timers :: "(u32 \<times> u32) set"
  wm_clipboard :: "u32 \<rightharpoonup> u32"
  wm_clipboard_open :: bool
  wm_capture_hwnd :: u32
  wm_clipboard_text :: ustring
  wm_accel_tables :: "u32 \<rightharpoonup> accel_entry list"
  wm_window_accel :: "u32 \<rightharpoonup> u32"
  wm_next_hwnd :: u32
  wm_next_hps :: u32
  wm_next_hmq :: u32
  wm_next_haccel :: u32
  wm_z_order :: "u32 list"
  wm_focused_hwnd :: u32
  wm_dirty :: "u32 set"

type_synonym hash_iter = "(u32 \<rightharpoonup> u32) \<Rightarrow> u32 list"

definition wm_new :: window_manager where
  "wm_new = \<lparr> wm_classes = Map.empty, wm_windows = Map.empty, wm_ps_map = Map.empty, wm_msg_queues = Map.empty,
     wm_frame_to_client = Map.empty, wm_tid_to_hmq = Map.empty, wm_gui_tx = False, wm_gui_log = [],
     wm_timers = {}, wm_clipboard = Map.empty, wm_clipboard_open = False, wm_capture_hwnd = 0,
     wm_clipboard_text = [], wm_accel_tables = Map.empty, wm_window_accel = Map.empty,
     wm_next_hwnd = 0x1000, wm_next_hps = 0x2000, wm_next_hmq = 0x3000, wm_next_haccel = 0x4000,
     wm_z_order = [], wm_focused_hwnd = 0, wm_dirty = {} \<rparr>"

text \<open>\<^verbatim>\<open>if let Some(ref sender) = gui_tx { sender.send(..) }\<close>.\<close>

definition gui_send :: "gui_message \<Rightarrow> window_manager \<Rightarrow> window_manager" where
  "gui_send g wm = (if wm_gui_tx wm then wm\<lparr> wm_gui_log := wm_gui_log wm @ [g] \<rparr> else wm)"

section \<open>Classes, windows, presentation spaces and queues\<close>

definition register_class :: "window_manager \<Rightarrow> ustring \<Rightarrow> u32 \<Rightarrow> u32 \<Rightarrow> window_manager" where
  "register_class wm nm pfn style =
    wm\<lparr> wm_classes := (wm_classes wm)(nm \<mapsto> \<lparr> wc_name = nm, wc_pfn_wp = pfn, wc_style = style \<rparr>) \<rparr>"

definition get_class :: "window_manager \<Rightarrow> ustring \<Rightarrow> window_class option" where
  "get_class wm nm = wm_classes wm nm"

definition new_window :: "u32 \<Rightarrow> ustring \<Rightarrow> u32 \<Rightarrow> u32 \<Rightarrow> u32 \<Rightarrow> os2_window" where
  "new_window h cls pfn parent q =
    \<lparr> w_handle = h, w_class_name = cls, w_pfn_wp = pfn, w_parent = parent, w_hmq = q, w_text = [],
      w_ulong = Map.empty, w_ushort = Map.empty, w_id = 0, w_children = [], w_x = 0, w_y = 0, w_cx = 0, w_cy = 0,
      w_visible = False, w_style = 0, w_listbox_items = [], w_menu_items = [], w_menu_hwnd = 0,
      w_dismissed = False, w_dialog_result = 0, w_frame_flags = 0 \<rparr>"

definition update_window :: "window_manager \<Rightarrow> u32 \<Rightarrow> (os2_window \<Rightarrow> os2_window) \<Rightarrow> window_manager" where
  "update_window wm h f =
    (case wm_windows wm h of
       Some w \<Rightarrow> wm\<lparr> wm_windows := (wm_windows wm)(h \<mapsto> f w) \<rparr>
     | None \<Rightarrow> wm)"

definition create_window :: "window_manager \<Rightarrow> ustring \<Rightarrow> u32 \<Rightarrow> u32 \<Rightarrow> u32 \<times> window_manager" where
  "create_window wm cls parent q =
    (let h = wm_next_hwnd wm;
         pfn = (case wm_classes wm cls of Some c \<Rightarrow> wc_pfn_wp c | None \<Rightarrow> 0);
         wm1 = wm\<lparr> wm_windows := (wm_windows wm)(h \<mapsto> new_window h cls pfn parent q) \<rparr>;
         wm2 = (if parent \<noteq> 0 then update_window wm1 parent (\<lambda>p. p\<lparr> w_children := w_children p @ [h] \<rparr>) else wm1) in
     (h, wm2\<lparr> wm_next_hwnd := h + 1 \<rparr>))"

definition get_window :: "window_manager \<Rightarrow> u32 \<Rightarrow> os2_window option" where
  "get_window wm h = wm_windows wm h"

definition get_ps_hwnd :: "window_manager \<Rightarrow> u32 \<Rightarrow> u32" where
  "get_ps_hwnd wm hps = (case wm_ps_map wm hps of Some ps \<Rightarrow> ps_hwnd ps | None \<Rightarrow> 0)"

definition create_ps :: "window_manager \<Rightarrow> u32 \<Rightarrow> u32 \<times> window_manager" where
  "create_ps wm hw =
    (let h = wm_next_hps wm in
     (h, wm\<lparr> wm_ps_map := (wm_ps_map wm)(h \<mapsto> \<lparr> ps_hps = h, ps_hwnd = hw, ps_color = 0,
               ps_back_color = 0x00FFFFFF, ps_mix_mode = 6, ps_back_mix = 6, ps_char_set = 0,
               ps_char_box = (0, 0), ps_current_pos = (0, 0) \<rparr>),
             wm_next_hps := h + 1 \<rparr>))"

definition create_mq :: "window_manager \<Rightarrow> u32 \<times> window_manager" where
  "create_mq wm =
    (let h = wm_next_hmq wm in
     (h, wm\<lparr> wm_msg_queues := (wm_msg_queues wm)(h \<mapsto> []), wm_next_hmq := h + 1 \<rparr>))"

definition get_mq :: "window_manager \<Rightarrow> u32 \<Rightarrow> os2_message list option" where
  "get_mq wm h = wm_msg_queues wm h"

definition find_hmq_for_hwnd :: "hash_iter \<Rightarrow> window_manager \<Rightarrow> u32 \<Rightarrow> u32 option" where
  "find_hmq_for_hwnd it wm hw =
    (case wm_windows wm hw of
       Some w \<Rightarrow> if w_hmq w \<noteq> 0 then Some (w_hmq w)
                else find (\<lambda>q. wm_msg_queues wm q \<noteq> None) (map (\<lambda>t. the (wm_tid_to_hmq wm t)) (it (wm_tid_to_hmq wm)))
     | None \<Rightarrow> find (\<lambda>q. wm_msg_queues wm q \<noteq> None) (map (\<lambda>t. the (wm_tid_to_hmq wm t)) (it (wm_tid_to_hmq wm))))"

definition client_to_frame :: "hash_iter \<Rightarrow> window_manager \<Rightarrow> u32 \<Rightarrow> u32" where
  "client_to_frame it wm c =
    (case find (\<lambda>f. wm_frame_to_client wm f = Some c) (it (wm_frame_to_client wm)) of
       Some f \<Rightarrow> f | None \<Rightarrow> c)"

definition stop_all_timers :: "window_manager \<Rightarrow> window_manager" where
  "stop_all_timers wm = wm\<lparr> wm_timers := {} \<rparr>"

text \<open>Appending to a message queue, and the common lookup of the queue before it.\<close>

definition push_message :: "window_manager \<Rightarrow> u32 \<Rightarrow> os2_message \<Rightarrow> window_manager" where
  "push_message wm q m =
    (case wm_msg_queues wm q of
       Some ms \<Rightarrow> wm\<lparr> wm_msg_queues := (wm_msg_queues wm)(q \<mapsto> ms @ [m]) \<rparr>
     | None \<Rightarrow> wm)"

definition plain_message :: "u32 \<Rightarrow> u32 \<Rightarrow> u32 \<Rightarrow> u32 \<Rightarrow> os2_message" where
  "plain_message hw m p1 p2 = \<lparr> om_hwnd = hw, om_msg = m, om_mp1 = p1, om_mp2 = p2, om_time = 0, om_x = 0, om_y = 0 \<rparr>"

definition post_to :: "hash_iter \<Rightarrow> window_manager \<Rightarrow> u32 \<Rightarrow> os2_message \<Rightarrow> window_manager" where
  "post_to it wm hw m =
    (case find_hmq_for_hwnd it wm hw of Some q \<Rightarrow> push_message wm q m | None \<Rightarrow> wm)"

section \<open>Accelerators\<close>

definition add_accel_table :: "window_manager \<Rightarrow> accel_entry list \<Rightarrow> u32 \<times> window_manager" where
  "add_accel_table wm es =
    (let h = wm_next_haccel wm in
     (h, wm\<lparr> wm_accel_tables := (wm_accel_tables wm)(h \<mapsto> es), wm_next_haccel := h + 1 \<rparr>))"

definition set_window_accel :: "window_manager \<Rightarrow> u32 \<Rightarrow> u32 \<Rightarrow> window_manager" where
  "set_window_accel wm hw ha =
    (if ha = 0 then wm\<lparr> wm_window_accel := (wm_window_accel wm)(hw := None) \<rparr>
     else wm\<lparr> wm_window_accel := (wm_window_accel wm)(hw \<mapsto> ha) \<rparr>)"

definition translate_accel :: "window_manager \<Rightarrow> u32 \<Rightarrow> u16 \<Rightarrow> u16 \<Rightarrow> u16 option" where
  "translate_accel wm hw key flags =
    do { ha \<leftarrow> wm_window_accel wm hw;
         es \<leftarrow> wm_accel_tables wm ha;
         map_option ac_cmd (find (\<lambda>e. ac_key e = key \<and> ac_flags e AND flags = ac_flags e) es) }"

section \<open>The window tree\<close>

partial_function (option) find_frame_for_hwnd :: "window_manager \<Rightarrow> u32 \<Rightarrow> u32 option" where
  "find_frame_for_hwnd wm h =
    (case wm_windows wm h of
       None \<Rightarrow> Some h
     | Some w \<Rightarrow>
         if w_parent w = 0 then Some h
         else if wm_frame_to_client wm (w_parent w) \<noteq> None then Some (w_parent w)
         else find_frame_for_hwnd wm (w_parent w))"

partial_function (option) abs_pos_loop :: "window_manager \<Rightarrow> u32 \<Rightarrow> u32 \<Rightarrow> u32 \<Rightarrow> (u32 \<times> u32) option" where
  "abs_pos_loop wm ax ay h =
    (case wm_windows wm h of
       None \<Rightarrow> Some (ax, ay)
     | Some w \<Rightarrow>
         if w_parent w = 0 \<or> wm_frame_to_client wm (w_parent w) \<noteq> None then Some (ax + w_x w, ay + w_y w)
         else abs_pos_loop wm (ax + w_x w) (ay + w_y w) (w_parent w))"

definition get_abs_rect_in_frame :: "window_manager \<Rightarrow> u32 \<Rightarrow> (u32 \<times> u32 \<times> u32 \<times> u32) option" where
  "get_abs_rect_in_frame wm hw =
    (let (cx, cy) = (case wm_windows wm hw of Some w \<Rightarrow> (w_cx w, w_cy w) | None \<Rightarrow> (0, 0)) in
     do { (ax, ay) \<leftarrow> abs_pos_loop wm 0 0 hw; Some (ax, ay, cx, cy) })"

definition find_child_by_id :: "window_manager \<Rightarrow> u32 \<Rightarrow> u32 \<Rightarrow> u32 option" where
  "find_child_by_id wm parent i =
    (case wm_windows wm parent of
       Some w \<Rightarrow> find (\<lambda>c. case wm_windows wm c of Some cw \<Rightarrow> w_id cw = i | None \<Rightarrow> False) (w_children w)
     | None \<Rightarrow> None)"

section \<open>Stacking order\<close>

definition mark_dirty :: "window_manager \<Rightarrow> u32 \<Rightarrow> window_manager" where
  "mark_dirty wm h = wm\<lparr> wm_dirty := insert h (wm_dirty wm) \<rparr>"

definition mark_all_dirty :: "window_manager \<Rightarrow> window_manager" where
  "mark_all_dirty wm = wm\<lparr> wm_dirty := wm_dirty wm \<union> set (wm_z_order wm) \<rparr>"

definition retain_not :: "u32 \<Rightarrow> u32 list \<Rightarrow> u32 list" where
  "retain_not h zs = filter (\<lambda>x. x \<noteq> h) zs"

definition z_push_top :: "window_manager \<Rightarrow> u32 \<Rightarrow> window_manager" where
  "z_push_top wm f =
    mark_all_dirty
      (if f \<notin> set (wm_z_order wm) then wm\<lparr> wm_z_order := wm_z_order wm @ [f] \<rparr>
       else wm\<lparr> wm_z_order := retain_not f (wm_z_order wm) @ [f] \<rparr>)"

definition z_remove :: "window_manager \<Rightarrow> u32 \<Rightarrow> window_manager" where
  "z_remove wm f =
    (let zs = retain_not f (wm_z_order wm); wm1 = wm\<lparr> wm_z_order := zs \<rparr> in
     mark_all_dirty
       (if wm_focused_hwnd wm1 = f then wm1\<lparr> wm_focused_hwnd := (if zs = [] then 0 else last zs) \<rparr> else wm1))"

definition z_push_bottom :: "window_manager \<Rightarrow> u32 \<Rightarrow> window_manager" where
  "z_push_bottom wm f = mark_all_dirty (wm\<lparr> wm_z_order := f # retain_not f (wm_z_order wm) \<rparr>)"

definition z_insert_behind :: "window_manager \<Rightarrow> u32 \<Rightarrow> u32 \<Rightarrow> window_manager" where
  "z_insert_behind wm f behind =
    (let zs = retain_not f (wm_z_order wm) in
     mark_all_dirty (wm\<lparr> wm_z_order :=
       (if behind \<in> set zs
        then takeWhile (\<lambda>x. x \<noteq> behind) zs @ f # dropWhile (\<lambda>x. x \<noteq> behind) zs
        else zs @ [f]) \<rparr>))"

definition hits :: "window_manager \<Rightarrow> u32 \<Rightarrow> u32 \<Rightarrow> u32 \<Rightarrow> bool" where
  "hits wm px py h =
    (case wm_windows wm h of
       Some w \<Rightarrow> w_visible w \<and> w_x w \<le>s px \<and> px <s w_x w + w_cx w \<and> w_y w \<le>s py \<and> py <s w_y w + w_cy w
     | None \<Rightarrow> False)"

definition z_hit_test :: "window_manager \<Rightarrow> u32 \<Rightarrow> u32 \<Rightarrow> u32 option" where
  "z_hit_test wm px py = find (hits wm px py) (rev (wm_z_order wm))"

end
