(* ===== verification/PM_Resources.thy ===== *)
theory PM_Resources
  imports PM_Windows
begin

unbundle bit_operations_syntax

text \<open>
  The resources of the Presentation Manager as they lie in guest memory: menu and dialog templates,
  accelerator tables and string bundles (\<^verbatim>\<open>src/src/loader/pm_win.rs\<close>). The menu parser walks a tree in one
  byte stream with a shared offset; \<open>None\<close> is a walk that never ends, which needs an offset that wraps.
\<close>

section \<open>Reading\<close>

definition rd8 :: "guest_memory \<Rightarrow> u32 \<Rightarrow> u8" where
  "rd8 g a = (case gm_read g a of Some v \<Rightarrow> v | None \<Rightarrow> 0)"

definition rd16 :: "guest_memory \<Rightarrow> u32 \<Rightarrow> u16" where
  "rd16 g a = (case gm_read g a of Some v \<Rightarrow> v | None \<Rightarrow> 0)"

definition rd32 :: "guest_memory \<Rightarrow> u32 \<Rightarrow> u32" where
  "rd32 g a = (case gm_read g a of Some v \<Rightarrow> v | None \<Rightarrow> 0)"

definition i16_to_i32 :: "u16 \<Rightarrow> u32" where
  "i16_to_i32 v = word_of_int (sint v)"

text \<open>A zero-terminated string from \<open>off\<close> on, before \<open>max_size\<close>; each byte becomes the character of its code.\<close>

function read_nul_str_at :: "guest_memory \<Rightarrow> u32 \<Rightarrow> u32 \<Rightarrow> u32 \<Rightarrow> ustring \<times> u32" where
  "read_nul_str_at g base off max_size =
    (if max_size \<le> off then ([], off)
     else
       let b = rd8 g (base + off); off' = off + 1 in
       if b = 0 then ([], off')
       else let (s, e) = read_nul_str_at g base off' max_size in (unat b # s, e))"
  by pat_completeness auto
termination
proof (relation "measure (\<lambda>(g, base, off, mx). unat mx - unat off)", goal_cases)
  case (2 g base off mx b off')
  then have lt: "unat off < unat mx" by (simp add: word_le_nat_alt)
  have "unat mx < 4294967296" by (rule unat_u32_lt)
  with lt have "unat off + 1 < 4294967296" by linarith
  then have "unat (off + 1) = unat off + 1" by (simp add: unat_word_ariths)
  with lt 2 show ?case by simp
qed simp

declare read_nul_str_at.simps [simp del]

section \<open>Menus\<close>

definition MIS_SEPARATOR :: u16 where "MIS_SEPARATOR = 0x0004"
definition MIS_SUBMENU :: u16 where "MIS_SUBMENU = 0x0010"
definition MIS_END :: u16 where "MIS_END = 0x8000"

lemmas mis_defs = MIS_SEPARATOR_def MIS_SUBMENU_def MIS_END_def

definition menu_text :: "guest_memory \<Rightarrow> u32 \<Rightarrow> u32 \<Rightarrow> u16 \<Rightarrow> u32 \<Rightarrow> ustring \<times> u32" where
  "menu_text g base sz style off =
    (if style AND MIS_SEPARATOR = 0 then read_nul_str_at g base off sz else ([], off))"

partial_function (option) parse_menu_loop ::
    "guest_memory \<Rightarrow> u32 \<Rightarrow> u32 \<Rightarrow> bool \<Rightarrow> u32 \<Rightarrow> nat \<Rightarrow> (menu_item list \<times> u32) option" where
  "parse_menu_loop g base sz use_count off remaining =
    (if use_count \<and> remaining = 0 then Some ([], off)
     else if sz < off + 6 then Some ([], off)
     else
       let raw_style = rd16 g (base + off);
           attr = rd16 g (base + off + 2);
           item_id = rd16 g (base + off + 4);
           is_last = (\<not> use_count \<and> raw_style AND MIS_END \<noteq> 0);
           style = raw_style AND NOT MIS_END;
           (txt, off2) = menu_text g base sz style (off + 6) in
       do { (children, off3) \<leftarrow>
              (if style AND MIS_SUBMENU \<noteq> 0 then
                 (if off2 + 10 \<le> sz then
                    let child_count = unat (rd16 g (base + off2 + 8)) in
                    parse_menu_loop g base sz (child_count > 0) (off2 + 10) child_count
                  else Some ([], off2))
               else Some ([], off2));
            let item = MenuItem item_id style attr txt children;
            if is_last then Some ([item], off3)
            else do { (items, off4) \<leftarrow> parse_menu_loop g base sz use_count off3 (remaining - 1);
                      Some (item # items, off4) } })"

definition parse_menu_items :: "guest_memory \<Rightarrow> u32 \<Rightarrow> u32 \<Rightarrow> u32 \<Rightarrow> nat \<Rightarrow> (menu_item list \<times> u32) option" where
  "parse_menu_items g base sz off cnt = parse_menu_loop g base sz (cnt > 0) off cnt"

definition parse_menu_template :: "guest_memory \<Rightarrow> u32 \<Rightarrow> u32 \<Rightarrow> menu_item list option" where
  "parse_menu_template g addr sz =
    (if sz < 10 then Some []
     else map_option fst (parse_menu_items g addr sz 10 (unat (rd16 g (addr + 8)))))"

section \<open>Dialogs\<close>

record dlg_item_info =
  di_x :: u16
  di_y :: u16
  di_cx :: u16
  di_cy :: u16
  di_id :: u16
  di_fl_style :: u32
  di_class_name :: ustring
  di_text :: ustring

record dlg_template =
  dt_x :: u16
  dt_y :: u16
  dt_cx :: u16
  dt_cy :: u16
  dt_title :: ustring
  dt_items :: "dlg_item_info list"

definition WS_VISIBLE :: u32 where "WS_VISIBLE = 0x80000000"
definition WS_DISABLED :: u32 where "WS_DISABLED = 0x40000000"

definition dlg_class_name :: "u16 \<Rightarrow> ustring" where
  "dlg_class_name ord =
    (if ord = 3 then ustr ''WC_BUTTON'' else if ord = 5 then ustr ''WC_STATIC''
     else if ord = 6 then ustr ''WC_ENTRYFIELD'' else if ord = 7 then ustr ''WC_LISTBOX''
     else ustr ''WC_STATIC'')"

definition pool_string :: "guest_memory \<Rightarrow> u32 \<Rightarrow> u32 \<Rightarrow> u32 \<Rightarrow> ustring" where
  "pool_string g addr sz off = (if off > 0 \<and> off < sz then fst (read_nul_str_at g addr off sz) else [])"

text \<open>Two bytes at a time to the class ordinal of the next item, or to the end of the items.\<close>

partial_function (option) skip_item_data :: "guest_memory \<Rightarrow> u32 \<Rightarrow> u32 \<Rightarrow> u32 \<Rightarrow> u32 option" where
  "skip_item_data g addr items_end off =
    (if off + 2 \<le> items_end then
       (let maybe_class = rd16 g (addr + off) in
        if 1 \<le> maybe_class \<and> maybe_class \<le> 10 then Some off
        else skip_item_data g addr items_end (off + 2))
     else Some off)"

text \<open>\<open>n\<close> more items.\<close>

fun parse_dlg_items :: "guest_memory \<Rightarrow> u32 \<Rightarrow> u32 \<Rightarrow> u32 \<Rightarrow> u32 \<Rightarrow> nat \<Rightarrow> dlg_item_info list option" where
  "parse_dlg_items g addr sz items_end off 0 = Some []"
| "parse_dlg_items g addr sz items_end off (Suc n) =
    (if items_end < off + 20 then Some []
     else
       let class_ord = rd16 g (addr + off);
           text_off = ucast (rd16 g (addr + off + 4)) :: u32;
           p = off + 10;
           item = \<lparr> di_x = rd16 g (addr + p), di_y = rd16 g (addr + p + 2), di_cx = rd16 g (addr + p + 4),
                    di_cy = rd16 g (addr + p + 6), di_id = rd16 g (addr + p + 8), di_fl_style = WS_VISIBLE,
                    di_class_name = dlg_class_name class_ord, di_text = pool_string g addr sz text_off \<rparr> in
       do { off' \<leftarrow> (if n > 0 then skip_item_data g addr items_end (p + 10) else Some items_end);
            items \<leftarrow> parse_dlg_items g addr sz items_end off' n;
            Some (item # items) })"

text \<open>The outer option is an endless scan, the inner one the parser's result.\<close>

definition parse_dlg_template :: "guest_memory \<Rightarrow> u32 \<Rightarrow> u32 \<Rightarrow> dlg_template option option" where
  "parse_dlg_template g addr sz =
    (if sz < 40 then Some None
     else
       let c_items = unat (rd16 g (addr + 16));
           title_off = ucast (rd16 g (addr + 24)) :: u32;
           items_end = (if title_off > 0 \<and> title_off < sz then title_off else sz) in
       do { items \<leftarrow> parse_dlg_items g addr sz items_end 50 c_items;
            Some (Some \<lparr> dt_x = rd16 g (addr + 30), dt_y = rd16 g (addr + 32), dt_cx = rd16 g (addr + 34),
                         dt_cy = rd16 g (addr + 36), dt_title = pool_string g addr sz title_off,
                         dt_items = items \<rparr>) })"

section \<open>Accelerators and strings\<close>

fun parse_accel_entries :: "guest_memory \<Rightarrow> u32 \<Rightarrow> u32 \<Rightarrow> nat \<Rightarrow> nat \<Rightarrow> accel_entry list" where
  "parse_accel_entries g addr sz i 0 = []"
| "parse_accel_entries g addr sz i (Suc n) =
    (let entry_off = addr + 4 + of_nat i * 6 in
     if addr + sz < entry_off + 6 then []
     else \<lparr> ac_flags = rd16 g entry_off, ac_key = rd16 g (entry_off + 2), ac_cmd = rd16 g (entry_off + 4) \<rparr>
          # parse_accel_entries g addr sz (Suc i) n)"

definition parse_accel_table :: "guest_memory \<Rightarrow> u32 \<Rightarrow> u32 \<Rightarrow> accel_entry list" where
  "parse_accel_table g addr sz = parse_accel_entries g addr sz 0 (unat (rd16 g (addr + 2)))"

text \<open>The offset of string \<open>n\<close> of a bundle of strings with a length byte; \<open>None\<close> when the bundle ends before.\<close>

fun bundle_string :: "guest_memory \<Rightarrow> u32 \<Rightarrow> u32 \<Rightarrow> u32 \<Rightarrow> nat \<Rightarrow> (u32 \<times> u32) option" where
  "bundle_string g addr sz off n =
    (if sz \<le> off then None
     else
       let len = ucast (rd8 g (addr + off)) :: u32; off1 = off + 1 in
       (case n of 0 \<Rightarrow> Some (off1, len) | Suc k \<Rightarrow> bundle_string g addr sz (off1 + len) k))"

fun copy_guest_bytes :: "guest_memory \<Rightarrow> u32 \<Rightarrow> u32 \<Rightarrow> u32 \<Rightarrow> nat \<Rightarrow> guest_memory" where
  "copy_guest_bytes g src dst i 0 = g"
| "copy_guest_bytes g src dst i (Suc n) =
    copy_guest_bytes (guest_write_ign g (dst + i) (rd8 g (src + i))) src dst (i + 1) n"

end
