(* ===== verification/PM_Controls.thy ===== *)
theory PM_Controls
  imports PM_Resources Managers Rust_Format
begin

unbundle bit_operations_syntax

text \<open>
  Messages to windows without a window procedure (\<^verbatim>\<open>dispatch_builtin_control\<close> in
  \<^verbatim>\<open>src/src/loader/mod.rs\<close>): buttons, static texts, list boxes, menu bars with their drop-down lists and
  dialogs draw themselves, are clicked, and post messages to the queues.
\<close>

section \<open>State and messages\<close>

record pm_state =
  pm_guest :: guest_memory
  pm_cp :: u32
  pm_res :: resource_manager
  pm_wm :: window_manager

definition pm_str :: "encoding_rs \<Rightarrow> pm_state \<Rightarrow> u32 \<Rightarrow> ustring" where
  "pm_str rs st p = read_guest_string rs (pm_cp st) (pm_guest st) p"

definition pm_upd :: "pm_state \<Rightarrow> (window_manager \<Rightarrow> window_manager) \<Rightarrow> pm_state" where
  "pm_upd st f = st\<lparr> pm_wm := f (pm_wm st) \<rparr>"

definition WM_CREATE :: u32 where "WM_CREATE = 0x0001"
definition WM_ENABLE :: u32 where "WM_ENABLE = 0x0002"
definition WM_COMMAND :: u32 where "WM_COMMAND = 0x0020"
definition WM_INITDLG :: u32 where "WM_INITDLG = 0x0021"
definition WM_PAINT :: u32 where "WM_PAINT = 0x0023"
definition WM_TIMER :: u32 where "WM_TIMER = 0x0024"
definition WM_CLOSE :: u32 where "WM_CLOSE = 0x0029"
definition WM_QUIT :: u32 where "WM_QUIT = 0x002A"
definition WM_CONTROL :: u32 where "WM_CONTROL = 0x0030"
definition WM_ACTIVATE :: u32 where "WM_ACTIVATE = 0x0042"
definition WM_BUTTON1DOWN :: u32 where "WM_BUTTON1DOWN = 0x0071"
definition WM_BUTTON1UP :: u32 where "WM_BUTTON1UP = 0x0072"
definition WM_MENUEND :: u32 where "WM_MENUEND = 0x0079"
definition WM_CHAR :: u32 where "WM_CHAR = 0x007A"
definition LM_QUERYITEMCOUNT :: u32 where "LM_QUERYITEMCOUNT = 0x0160"
definition LM_INSERTITEM :: u32 where "LM_INSERTITEM = 0x0161"
definition BN_CLICKED :: u32 where "BN_CLICKED = 0"
definition DID_OK :: u32 where "DID_OK = 1"
definition DID_CANCEL :: u32 where "DID_CANCEL = 2"
definition DID_ERROR :: u32 where "DID_ERROR = 0xFFFF"
definition CHROME_TITLE_H :: u32 where "CHROME_TITLE_H = 20"
definition MENU_BAR_HEIGHT :: u32 where "MENU_BAR_HEIGHT = 20"

lemmas wm_msg_defs = WM_CREATE_def WM_ENABLE_def WM_COMMAND_def WM_INITDLG_def WM_PAINT_def WM_TIMER_def WM_CLOSE_def
  WM_QUIT_def WM_CONTROL_def WM_ACTIVATE_def WM_BUTTON1DOWN_def WM_BUTTON1UP_def WM_MENUEND_def WM_CHAR_def
  LM_QUERYITEMCOUNT_def LM_INSERTITEM_def

text \<open>Division of an \<^verbatim>\<open>i32\<close> rounds towards zero.\<close>

definition i32_div :: "u32 \<Rightarrow> int \<Rightarrow> u32" where
  "i32_div x n = word_of_int (sgn (sint x) * (\<bar>sint x\<bar> div n))"

definition gui_send_all :: "gui_message list \<Rightarrow> window_manager \<Rightarrow> window_manager" where
  "gui_send_all gs wm = foldl (\<lambda>w g. gui_send g w) wm gs"

section \<open>Drawing\<close>

definition text_if :: "ustring \<Rightarrow> gui_message \<Rightarrow> gui_message list" where
  "text_if t g = (if t \<noteq> [] then [g] else [])"

definition menu_label :: "ustring \<Rightarrow> ustring" where
  "menu_label t = filter (\<lambda>c. c \<noteq> 126) t"

definition label_width :: "ustring \<Rightarrow> u32" where
  "label_width t = of_nat (length (menu_label t)) * 8 + 8"

text \<open>The bar draws with the length of the label in UTF-8.\<close>

definition drawn_width :: "ustring \<Rightarrow> u32" where
  "drawn_width t = of_nat (length (as_bytes (menu_label t))) * 8 + 8"

definition is_separator :: "menu_item \<Rightarrow> bool" where
  "is_separator m \<longleftrightarrow> mi_style m AND MIS_SEPARATOR \<noteq> 0"

fun draw_bar_items :: "u32 \<Rightarrow> u32 \<Rightarrow> u32 \<Rightarrow> u32 \<Rightarrow> u32 \<Rightarrow> nat \<Rightarrow> menu_item list \<Rightarrow> gui_message list" where
  "draw_bar_items frame y cy open_item item_x i [] = []"
| "draw_bar_items frame y cy open_item item_x i (m # ms) =
    (if is_separator m then draw_bar_items frame y cy open_item item_x (Suc i) ms
     else
       let lw = drawn_width (mi_text m) in
       (if open_item > 0 \<and> i = unat (open_item - 1) then
          [DrawBox frame item_x y (item_x + lw) (y + cy) 0x80 True,
           DrawText frame (item_x + 2) (y + 2) (menu_label (mi_text m)) 0xFFFFFF]
        else [DrawText frame (item_x + 2) (y + 2) (menu_label (mi_text m)) 0])
       @ draw_bar_items frame y cy open_item (item_x + lw) (Suc i) ms)"

text \<open>Where item \<open>idx\<close> of the bar starts, as the drop-down list and clicks have it.\<close>

definition drop_x_of :: "u32 \<Rightarrow> menu_item list \<Rightarrow> nat \<Rightarrow> u32" where
  "drop_x_of x items idx =
    foldl (\<lambda>dx m. if is_separator m then dx else dx + label_width (mi_text m)) (x + 4) (take idx items)"

definition DROP_W :: u32 where "DROP_W = 120"
definition ITEM_H :: u32 where "ITEM_H = 16"

fun draw_drop_items :: "u32 \<Rightarrow> u32 \<Rightarrow> u32 \<Rightarrow> nat \<Rightarrow> menu_item list \<Rightarrow> gui_message list" where
  "draw_drop_items frame drop_x drop_y2 ci [] = []"
| "draw_drop_items frame drop_x drop_y2 ci (m # ms) =
    (let item_y2 = drop_y2 - of_nat ci * ITEM_H; item_y1 = item_y2 - ITEM_H in
     (if is_separator m then
        let sep_y = i32_div (item_y1 + item_y2) 2 in
        DrawBox frame (drop_x + 2) sep_y (drop_x + DROP_W - 2) (sep_y + 1) 0x808080 True
      else DrawText frame (drop_x + 4) (item_y1 + 2) (menu_label (mi_text m)) 0)
     # draw_drop_items frame drop_x drop_y2 (Suc ci) ms)"

definition draw_menu :: "u32 \<Rightarrow> u32 \<Rightarrow> u32 \<Rightarrow> u32 \<Rightarrow> u32 \<Rightarrow> menu_item list \<Rightarrow> u32 \<Rightarrow> gui_message list" where
  "draw_menu frame x y cx cy items open_item =
    [DrawBox frame x y (x + cx) (y + cy) 0xD4D0C8 True, DrawBox frame x y (x + cx) (y + 1) 0x808080 True]
    @ draw_bar_items frame y cy open_item (x + 4) 0 items
    @ (if open_item > 0 \<and> unat (open_item - 1) < length items then
         let idx = unat (open_item - 1); subs = mi_children (items ! idx);
             drop_x = drop_x_of x items idx; drop_y1 = y - of_nat (length subs) * ITEM_H in
         [DrawBox frame drop_x drop_y1 (drop_x + DROP_W) y 0xD4D0C8 True,
          DrawBox frame drop_x drop_y1 (drop_x + DROP_W) y 0x808080 False]
         @ draw_drop_items frame drop_x y 0 subs
       else [])
    @ [PresentBuffer frame]"

definition draw_dialog_child :: "u32 \<Rightarrow> os2_window \<Rightarrow> gui_message list" where
  "draw_dialog_child hw w =
    (if w_class_name w = ustr ''WC_BUTTON'' then
       [DrawBox hw (w_x w) (w_y w) (w_x w + w_cx w) (w_y w + w_cy w) 0xD4D0C8 True,
        DrawBox hw (w_x w) (w_y w) (w_x w + w_cx w) (w_y w + w_cy w) 0x808080 False]
       @ text_if (w_text w) (DrawText hw (w_x w + 2) (w_y w + i32_div (w_cy w) 4) (w_text w) 0)
     else if w_class_name w = ustr ''WC_STATIC'' then
       text_if (w_text w) (DrawText hw (w_x w) (w_y w + i32_div (w_cy w) 4) (w_text w) 0)
     else [])"

definition child_windows :: "window_manager \<Rightarrow> u32 \<Rightarrow> os2_window list" where
  "child_windows wm hw =
    (case wm_windows wm hw of
       Some w \<Rightarrow> List.map_filter (wm_windows wm) (w_children w) | None \<Rightarrow> [])"

definition draw_dialog :: "window_manager \<Rightarrow> u32 \<Rightarrow> u32 \<Rightarrow> u32 \<Rightarrow> ustring \<Rightarrow> gui_message list" where
  "draw_dialog wm hw cx cy txt =
    [DrawBox hw 0 0 cx cy 0xD4D0C8 True, DrawBox hw 0 (cy - 16) cx cy 0x80 True]
    @ text_if txt (DrawText hw 4 (cy - 16 + 2) txt 0xFFFFFF)
    @ [DrawBox hw 0 0 cx cy 0x808080 False]
    @ concat (map (draw_dialog_child hw) (child_windows wm hw))
    @ [PresentBuffer hw]"

text \<open>The item whose drop-down list is open, counted from 1.\<close>

definition open_item_of :: "window_manager \<Rightarrow> u32 \<Rightarrow> u32" where
  "open_item_of wm hw = (case Option.bind (wm_windows wm hw) (\<lambda>w. w_ulong w (-1)) of Some v \<Rightarrow> v | None \<Rightarrow> 0)"

definition set_open_item :: "window_manager \<Rightarrow> u32 \<Rightarrow> u32 \<Rightarrow> window_manager" where
  "set_open_item wm hw v =
    update_window wm hw (\<lambda>w. w\<lparr> w_ulong := (w_ulong w)(-1 := (if v = 0 then None else Some v)) \<rparr>)"

definition paint_control :: "window_manager \<Rightarrow> u32 \<Rightarrow> u32 \<Rightarrow> u32 \<Rightarrow> u32 \<Rightarrow> u32 \<Rightarrow> u32 \<Rightarrow> os2_window \<Rightarrow> gui_message list" where
  "paint_control wm hw frame x y cx cy w =
    (let cls = w_class_name w; txt = w_text w in
     if cls = ustr ''WC_BUTTON'' then
       [DrawBox frame x y (x + cx) (y + cy) 0xD4D0C8 True, DrawBox frame x y (x + cx) (y + cy) 0x808080 False]
       @ text_if txt (DrawText frame (x + 4) (y + i32_div cy 4) txt 0)
     else if cls = ustr ''WC_STATIC'' then text_if txt (DrawText frame x (y + i32_div cy 4) txt 0)
     else if cls = ustr ''WC_SCROLLBAR'' then [DrawBox frame x y (x + cx) (y + cy) 0xA0A0A0 True]
     else if cls = ustr ''WC_ENTRYFIELD'' \<or> cls = ustr ''WC_MLE'' then
       [DrawBox frame x y (x + cx) (y + cy) 0xFFFFFF True, DrawBox frame x y (x + cx) (y + cy) 0x808080 False]
       @ text_if txt (DrawText frame (x + 2) (y + i32_div cy 4) txt 0)
     else if cls = ustr ''WC_LISTBOX'' then
       [DrawBox frame x y (x + cx) (y + cy) 0xFFFFFF True, DrawBox frame x y (x + cx) (y + cy) 0x808080 False]
     else if cls = ustr ''#Menu'' then draw_menu frame x y cx cy (w_menu_items w) (open_item_of wm hw)
     else if cls = ustr ''#Dialog'' then draw_dialog wm hw cx cy txt
     else [])"

text \<open>\<^verbatim>\<open>WM_PAINT\<close>. The rectangle is computed before the window is looked up.\<close>

definition dispatch_paint :: "window_manager \<Rightarrow> u32 \<Rightarrow> window_manager option" where
  "dispatch_paint wm hw =
    do { (x, y, cx, cy) \<leftarrow> get_abs_rect_in_frame wm hw;
         (case wm_windows wm hw of
            None \<Rightarrow> Some wm
          | Some w \<Rightarrow>
              do { frame \<leftarrow> find_frame_for_hwnd wm hw;
                   Some (gui_send_all (paint_control wm hw frame x y cx cy w) wm) }) }"

section \<open>Clicks\<close>

text \<open>The item of the bar under \<open>click_x\<close>.\<close>

fun bar_hit :: "u32 \<Rightarrow> u32 \<Rightarrow> nat \<Rightarrow> menu_item list \<Rightarrow> nat option" where
  "bar_hit click_x item_x i [] = None"
| "bar_hit click_x item_x i (m # ms) =
    (if is_separator m then bar_hit click_x item_x (Suc i) ms
     else
       let lw = label_width (mi_text m) in
       if item_x \<le>s click_x \<and> click_x <s item_x + lw then Some i
       else bar_hit click_x (item_x + lw) (Suc i) ms)"

text \<open>\<^verbatim>\<open>mp1\<close> of a mouse message: the position in two halves.\<close>

definition click_x_of :: "u32 \<Rightarrow> u32" where "click_x_of p1 = p1 AND 0xFFFF"
definition click_y_of :: "u32 \<Rightarrow> u32" where "click_y_of p1 = drop_bit 16 p1 AND 0xFFFF"

text \<open>The command that is posted when an entry of the drop-down list is chosen.\<close>

definition post_menu_command :: "hash_iter \<Rightarrow> window_manager \<Rightarrow> u32 \<Rightarrow> u16 \<Rightarrow> window_manager" where
  "post_menu_command it wm parent cmd =
    (let client = (case wm_frame_to_client wm parent of Some c \<Rightarrow> c | None \<Rightarrow> parent) in
     post_to it wm client (plain_message client WM_COMMAND (ucast cmd OR 0x20000) 0))"

definition menu_click :: "hash_iter \<Rightarrow> window_manager \<Rightarrow> u32 \<Rightarrow> u32 \<Rightarrow> u32 \<Rightarrow> u32 \<Rightarrow> os2_window \<Rightarrow> u32 \<Rightarrow> window_manager option" where
  "menu_click it wm hw x y cy w p1 =
    (let click_x = click_x_of p1; click_y = click_y_of p1;
         items = w_menu_items w; open_item = open_item_of wm hw in
     if y \<le>s click_y \<and> click_y <s y + cy then
       (case bar_hit click_x (x + 4) 0 items of
          Some idx \<Rightarrow>
            dispatch_paint (set_open_item wm hw (if open_item = of_nat idx + 1 then 0 else of_nat idx + 1)) hw
        | None \<Rightarrow> if open_item > 0 then dispatch_paint (set_open_item wm hw 0) hw else Some wm)
     else if open_item > 0 then
       let idx = unat (open_item - 1) in
       (if idx < length items then
          let subs = mi_children (items ! idx); drop_x = drop_x_of x items idx;
              drop_y1 = y - of_nat (length subs) * ITEM_H in
          if drop_x \<le>s click_x \<and> click_x <s drop_x + DROP_W \<and> drop_y1 \<le>s click_y \<and> click_y <s y then
            let child_idx = unat (i32_div (y - 1 - click_y) 16) in
            (if child_idx < length subs \<and> \<not> is_separator (subs ! child_idx) then
               do { wm1 \<leftarrow> dispatch_paint (set_open_item wm hw 0) hw;
                    Some (post_menu_command it wm1 (w_parent w) (mi_id (subs ! child_idx))) }
             else Some wm)
          else dispatch_paint (set_open_item wm hw 0) hw
        else Some wm)
     else Some wm)"

definition in_window :: "u32 \<Rightarrow> u32 \<Rightarrow> os2_window \<Rightarrow> bool" where
  "in_window px py w \<longleftrightarrow> w_x w \<le>s px \<and> px <s w_x w + w_cx w \<and> w_y w \<le>s py \<and> py <s w_y w + w_cy w"

definition dialog_click :: "hash_iter \<Rightarrow> window_manager \<Rightarrow> u32 \<Rightarrow> u32 \<Rightarrow> window_manager" where
  "dialog_click it wm hw p1 =
    (case find (\<lambda>w. w_class_name w = ustr ''WC_BUTTON'' \<and> in_window (click_x_of p1) (click_y_of p1) w)
            (child_windows wm hw) of
       Some w \<Rightarrow> post_to it wm hw (plain_message hw WM_COMMAND (w_id w) 0)
     | None \<Rightarrow> wm)"

definition insert_at :: "nat \<Rightarrow> 'a \<Rightarrow> 'a list \<Rightarrow> 'a list" where
  "insert_at n x xs = take n xs @ x # drop n xs"

definition listbox_insert :: "window_manager \<Rightarrow> u32 \<Rightarrow> u32 \<Rightarrow> ustring \<Rightarrow> u32 \<times> window_manager" where
  "listbox_insert wm hw p1 txt =
    (case wm_windows wm hw of
       None \<Rightarrow> (-1, wm)
     | Some w \<Rightarrow>
         let items = w_listbox_items w in
         if p1 <s 0 \<or> length items \<le> unat p1
         then (of_nat (length items), update_window wm hw (\<lambda>w. w\<lparr> w_listbox_items := items @ [txt] \<rparr>))
         else (p1, update_window wm hw (\<lambda>w. w\<lparr> w_listbox_items := insert_at (unat p1) txt items \<rparr>)))"

section \<open>The dispatcher\<close>

definition dispatch_builtin_control ::
    "encoding_rs \<Rightarrow> hash_iter \<Rightarrow> pm_state \<Rightarrow> u32 \<Rightarrow> u32 \<Rightarrow> u32 \<Rightarrow> u32 \<Rightarrow> (u32 \<times> pm_state) option" where
  "dispatch_builtin_control rs it st hw m p1 p2 =
    do { (x, y, cx, cy) \<leftarrow> get_abs_rect_in_frame (pm_wm st) hw;
         (case wm_windows (pm_wm st) hw of
            None \<Rightarrow> Some (0, st)
          | Some w \<Rightarrow>
              let wm = pm_wm st; cls = w_class_name w in
              if m = WM_PAINT then map_option (\<lambda>wm'. (0, st\<lparr> pm_wm := wm' \<rparr>)) (dispatch_paint wm hw)
              else if m = WM_BUTTON1UP \<and> cls = ustr ''WC_BUTTON'' then
                Some (0, st\<lparr> pm_wm := post_to it wm (w_parent w)
                  (plain_message (w_parent w) WM_CONTROL (push_bit 16 BN_CLICKED OR (w_id w AND 0xFFFF)) 0) \<rparr>)
              else if m = WM_BUTTON1DOWN \<and> cls = ustr ''#Menu'' then
                map_option (\<lambda>wm'. (0, st\<lparr> pm_wm := wm' \<rparr>)) (menu_click it wm hw x y cy w p1)
              else if m = WM_MENUEND \<and> cls = ustr ''#Menu'' then
                map_option (\<lambda>wm'. (0, st\<lparr> pm_wm := wm' \<rparr>)) (dispatch_paint (set_open_item wm hw 0) hw)
              else if m = WM_BUTTON1DOWN \<and> cls = ustr ''#Dialog'' then
                Some (0, st\<lparr> pm_wm := dialog_click it wm hw p1 \<rparr>)
              else if m = LM_INSERTITEM then
                (let (r, wm') = listbox_insert wm hw p1 (if p2 \<noteq> 0 then pm_str rs st p2 else []) in
                 Some (r, st\<lparr> pm_wm := wm' \<rparr>))
              else if m = LM_QUERYITEMCOUNT then Some (of_nat (length (w_listbox_items w)), st)
              else Some (0, st)) }"

section \<open>Colours\<close>

definition named_colours :: "u32 list" where
  "named_colours = [0x00FFFFFF, 0x000000FF, 0x00FF0000, 0x00FF00FF, 0x0000FF00, 0x0000FFFF, 0x00FFFF00, 0x00808080,
     0x00404040, 0x00000080, 0x00800000, 0x00800080, 0x00008000, 0x00008080, 0x00804000, 0x00C0C0C0]"

definition map_color :: "u32 \<Rightarrow> u32" where
  "map_color clr =
    (let n = sint clr in
     if n = -5 \<or> n = -4 \<or> n = -3 then 0
     else if n = -2 then 0x00FFFFFF
     else if n = -1 then 0
     else if 0 \<le> n \<and> n \<le> 15 then named_colours ! nat n
     else if n \<ge> 16 then clr AND 0x00FFFFFF
     else 0x00808080)"

definition post_wm_quit :: "hash_iter \<Rightarrow> window_manager \<Rightarrow> u32 \<Rightarrow> window_manager" where
  "post_wm_quit it wm hw = post_to it wm hw (plain_message hw WM_QUIT 0 0)"

end
