(* ===== verification/PM_Calls.thy ===== *)
theory PM_Calls
  imports PM_Controls
begin

unbundle bit_operations_syntax

text \<open>
  The calls of the Presentation Manager: windows, messages, dialogs, menus, clipboard and timers
  (\<^verbatim>\<open>handle_pmwin_call\<close> in \<^verbatim>\<open>src/src/loader/pm_win.rs\<close>) and drawing (\<^verbatim>\<open>handle_pmgpi_call\<close> in
  \<^verbatim>\<open>src/src/loader/pm_gpi.rs\<close>). A handler reads its arguments from the guest's stack; a stack outside
  guest memory is a panic (\<open>None\<close>), as is a walk up a cycle of parents. What the world contributes to a
  call is in \<open>pm_env\<close>: the order of hash maps, the text encoders, for \<^verbatim>\<open>WinGetMsg\<close> what each pass of its
  waiting loop sees (is the loader shutting down, which messages have arrived), and the answer of the GUI
  thread to a message box.
\<close>

section \<open>Arguments and results\<close>

record pm_env =
  pe_rs :: encoding_rs
  pe_it :: hash_iter
  pe_passes :: "(bool \<times> os2_message list) list"
  pe_reply :: "u32 option"

type_synonym pm_result = "(api_result \<times> pm_state) option"

definition stack_args :: "guest_memory \<Rightarrow> u64 \<Rightarrow> nat list \<Rightarrow> u32 list option" where
  "stack_args g esp offs = those (map (\<lambda>n. gm_read g (ucast (esp + of_nat n))) offs)"

definition with_args :: "pm_state \<Rightarrow> u64 \<Rightarrow> nat list \<Rightarrow> (u32 list \<Rightarrow> pm_result) \<Rightarrow> pm_result" where
  "with_args st esp offs k = Option.bind (stack_args (pm_guest st) esp offs) k"

definition pm_ok :: "u32 \<Rightarrow> pm_state \<Rightarrow> pm_result" where
  "pm_ok r st = Some (Normal r, st)"

definition pm_set :: "pm_state \<Rightarrow> window_manager \<Rightarrow> pm_state" where
  "pm_set st wm = st\<lparr> pm_wm := wm \<rparr>"

definition pm_write :: "pm_state \<Rightarrow> u32 \<Rightarrow> 'a::len word \<Rightarrow> pm_state" where
  "pm_write st p v = st\<lparr> pm_guest := guest_write_ign (pm_guest st) p v \<rparr>"

definition pm_control :: "pm_env \<Rightarrow> pm_state \<Rightarrow> u32 \<Rightarrow> u32 \<Rightarrow> u32 \<Rightarrow> u32 \<Rightarrow> pm_result" where
  "pm_control E st hw m p1 p2 =
    map_option (\<lambda>(r, st'). (Normal r, st')) (dispatch_builtin_control (pe_rs E) (pe_it E) st hw m p1 p2)"

definition hmq_of_tid :: "window_manager \<Rightarrow> u32 \<Rightarrow> u32" where
  "hmq_of_tid wm tid = (case wm_tid_to_hmq wm tid of Some q \<Rightarrow> q | None \<Rightarrow> 0)"

definition pfn_of :: "window_manager \<Rightarrow> u32 \<Rightarrow> u32" where
  "pfn_of wm hw = (case wm_windows wm hw of Some w \<Rightarrow> w_pfn_wp w | None \<Rightarrow> 0)"

section \<open>Classes and windows\<close>

definition resolve_class_atom :: "u32 \<Rightarrow> ustring \<Rightarrow> ustring" where
  "resolve_class_atom p s =
    (case map_of [(0xFFFF0001, ''WC_FRAME''), (0xFFFF0002, ''WC_COMBOBOX''), (0xFFFF0003, ''WC_BUTTON''),
        (0xFFFF0004, ''WC_MENU''), (0xFFFF0005, ''WC_STATIC''), (0xFFFF0006, ''WC_ENTRYFIELD''),
        (0xFFFF0007, ''WC_LISTBOX''), (0xFFFF0008, ''WC_SCROLLBAR''), (0xFFFF0009, ''WC_TITLEBAR''),
        (0xFFFF000A, ''WC_MLE''), (0xFFFF000F, ''WC_SPINBUTTON''), (0xFFFF0025, ''WC_CONTAINER''),
        (0xFFFF0028, ''WC_NOTEBOOK'')] p of
       Some nm \<Rightarrow> ustr nm
     | None \<Rightarrow>
         if p AND 0xFFFF0000 = 0xFFFF0000 then ustr ''WC_ATOM_0x'' @ hex_04 (p AND 0xFFFF)
         else if p < 0x10000 then ustr ''WC_ATOM_'' @ decimal_digits (unat p)
         else s)"

definition win_create_msg_queue :: "pm_state \<Rightarrow> u32 \<Rightarrow> pm_result" where
  "win_create_msg_queue st tid =
    (let (q, wm) = create_mq (pm_wm st) in
     pm_ok q (pm_set st (wm\<lparr> wm_tid_to_hmq := (wm_tid_to_hmq wm)(tid \<mapsto> q) \<rparr>)))"

definition win_register_class :: "pm_env \<Rightarrow> pm_state \<Rightarrow> u32 \<Rightarrow> u32 \<Rightarrow> u32 \<Rightarrow> pm_result" where
  "win_register_class E st psz_name pfn style =
    pm_ok 1 (pm_set st (register_class (pm_wm st) (pm_str (pe_rs E) st psz_name) pfn style))"

definition std_windows :: "pm_state \<Rightarrow> u32 \<Rightarrow> ustring \<Rightarrow> ustring \<Rightarrow> u32 \<Rightarrow> u32 \<Rightarrow> u32 \<Rightarrow> u32 \<times> u32 \<times> window_manager" where
  "std_windows st tid cls title parent style fcf =
    (let q = hmq_of_tid (pm_wm st) tid;
         (h_frame, wm1) = create_window (pm_wm st) cls parent q;
         (h_client, wm2) = create_window wm1 cls h_frame q;
         wm3 = wm2\<lparr> wm_frame_to_client := (wm_frame_to_client wm2)(h_frame \<mapsto> h_client) \<rparr>;
         wm4 = update_window wm3 h_frame (\<lambda>w. w\<lparr> w_cx := 640, w_cy := 480, w_frame_flags := fcf,
                 w_visible := (style AND WS_VISIBLE \<noteq> 0), w_text := title \<rparr>);
         wm5 = update_window wm4 h_client (\<lambda>w. w\<lparr> w_cx := 640,
                 w_cy := (if fcf AND 1 \<noteq> 0 then 480 - CHROME_TITLE_H else 480) \<rparr>);
         wm6 = (z_push_top wm5 h_frame)\<lparr> wm_focused_hwnd := h_frame \<rparr>;
         wm7 = gui_send (CreateWindow cls title h_frame) wm6;
         wm8 = push_message wm7 (hmq_of_tid wm7 tid) (plain_message h_client WM_PAINT 0 0) in
     (h_frame, h_client, wm8))"

definition win_create_std_window :: "pm_env \<Rightarrow> pm_state \<Rightarrow> u32 \<Rightarrow> u32 \<Rightarrow> u32 \<Rightarrow> u32 \<Rightarrow> u32 \<Rightarrow> u32 \<Rightarrow> u32 \<Rightarrow> pm_result" where
  "win_create_std_window E st tid parent style pfc_flags psz_class psz_title phwnd_client =
    (let cls = pm_str (pe_rs E) st psz_class;
         title = (if psz_title \<noteq> 0 then pm_str (pe_rs E) st psz_title else ustr ''Warpine Window'');
         fcf = (if pfc_flags \<noteq> 0 then rd32 (pm_guest st) pfc_flags else 0);
         (h_frame, h_client, wm) = std_windows st tid cls title parent style fcf;
         st1 = pm_set st wm;
         st2 = (if phwnd_client \<noteq> 0 then pm_write st1 phwnd_client h_client else st1) in
     if pfn_of wm h_client \<noteq> 0 then Some (WmCreateCallback (pfn_of wm h_client) h_client h_frame, st2)
     else pm_ok h_frame st2)"

definition win_create_window ::
    "pm_env \<Rightarrow> pm_state \<Rightarrow> u32 \<Rightarrow> u32 \<Rightarrow> u32 \<Rightarrow> u32 \<Rightarrow> u32 \<Rightarrow> u32 \<times> u32 \<times> u32 \<times> u32 \<Rightarrow> u32 \<Rightarrow> pm_result" where
  "win_create_window E st tid parent psz_class psz_name fl_style pos wid =
    (let cls = (if psz_class AND 0xFFFF0000 = 0xFFFF0000 \<or> psz_class < 0x10000 then resolve_class_atom psz_class []
                else resolve_class_atom psz_class (pm_str (pe_rs E) st psz_class));
         txt = (if psz_name \<noteq> 0 then pm_str (pe_rs E) st psz_name else []);
         (x, y, cx, cy) = pos;
         (h, wm1) = create_window (pm_wm st) cls parent (hmq_of_tid (pm_wm st) tid);
         wm2 = update_window wm1 h (\<lambda>w. w\<lparr> w_text := txt, w_x := x, w_y := y, w_cx := cx, w_cy := cy, w_id := wid,
                 w_style := fl_style, w_visible := (fl_style AND WS_VISIBLE \<noteq> 0) \<rparr>);
         wm3 = (if fl_style AND WS_VISIBLE \<noteq> 0
                then push_message wm2 (hmq_of_tid wm2 tid) (plain_message h WM_PAINT 0 0) else wm2) in
     pm_ok h (pm_set st wm3))"

definition win_destroy_window :: "pm_state \<Rightarrow> u32 \<Rightarrow> pm_result" where
  "win_destroy_window st hw =
    (let wm = pm_wm st in
     pm_ok 1 (pm_set st
       (if wm_frame_to_client wm hw \<noteq> None then
          (let wm1 = z_remove wm hw in
           gui_send (ShowWindow hw False) (wm1\<lparr> wm_frame_to_client := (wm_frame_to_client wm1)(hw := None) \<rparr>))
        else wm)))"

definition win_show_window :: "pm_state \<Rightarrow> u32 \<Rightarrow> u32 \<Rightarrow> pm_result" where
  "win_show_window st hw fshow =
    (let wm1 = update_window (pm_wm st) hw (\<lambda>w. w\<lparr> w_visible := (fshow \<noteq> 0) \<rparr>) in
     pm_ok 1 (pm_set st (gui_send (ShowWindow hw (fshow \<noteq> 0)) (mark_dirty wm1 hw))))"

definition win_query_window_rect :: "pm_state \<Rightarrow> u32 \<Rightarrow> u32 \<Rightarrow> pm_result" where
  "win_query_window_rect st hw prcl =
    (if prcl \<noteq> 0 then
       let (cx, cy) = (case wm_windows (pm_wm st) hw of Some w \<Rightarrow> (w_cx w, w_cy w) | None \<Rightarrow> (640, 480)) in
       pm_ok 1 (pm_write (pm_write (pm_write (pm_write st prcl (0 :: u32)) (prcl + 4) (0 :: u32)) (prcl + 8) cx) (prcl + 12) cy)
     else pm_ok 1 st)"

definition win_query_window_pos :: "pm_state \<Rightarrow> u32 \<Rightarrow> u32 \<Rightarrow> pm_result" where
  "win_query_window_pos st hw pswp =
    (if pswp = 0 then pm_ok 0 st
     else
       let (x, y, cx, cy) = (case wm_windows (pm_wm st) hw of
              Some w \<Rightarrow> (w_x w, w_y w, w_cx w, w_cy w) | None \<Rightarrow> (0, 0, 0, 0));
           st1 = pm_write st pswp (3 :: u32); st2 = pm_write st1 (pswp + 4) cy; st3 = pm_write st2 (pswp + 8) cx;
           st4 = pm_write st3 (pswp + 12) y; st5 = pm_write st4 (pswp + 16) x;
           st6 = pm_write st5 (pswp + 20) (0 :: u32) in
       pm_ok 1 (pm_write st6 (pswp + 24) hw))"

definition SWP_SIZE :: u32 where "SWP_SIZE = 0x0001"
definition SWP_MOVE :: u32 where "SWP_MOVE = 0x0002"
definition SWP_ZORDER :: u32 where "SWP_ZORDER = 0x0004"
definition SWP_SHOW :: u32 where "SWP_SHOW = 0x0008"
definition SWP_HIDE :: u32 where "SWP_HIDE = 0x0010"
definition SWP_ACTIVATE :: u32 where "SWP_ACTIVATE = 0x0020"

definition swp_geometry :: "u32 \<Rightarrow> u32 \<Rightarrow> u32 \<Rightarrow> u32 \<Rightarrow> u32 \<Rightarrow> os2_window \<Rightarrow> os2_window" where
  "swp_geometry fl x y cx cy w =
    (let w1 = (if fl AND SWP_MOVE \<noteq> 0 then w\<lparr> w_x := x, w_y := y \<rparr> else w);
         w2 = (if fl AND SWP_SIZE \<noteq> 0 then w1\<lparr> w_cx := cx, w_cy := cy \<rparr> else w1);
         w3 = (if fl AND SWP_SHOW \<noteq> 0 then w2\<lparr> w_visible := True \<rparr> else w2) in
     if fl AND SWP_HIDE \<noteq> 0 then w3\<lparr> w_visible := False \<rparr> else w3)"

definition swp_zorder :: "window_manager \<Rightarrow> u32 \<Rightarrow> u32 \<Rightarrow> u32 \<Rightarrow> window_manager" where
  "swp_zorder wm hw behind fl =
    (if fl AND SWP_ZORDER \<noteq> 0 \<and> wm_frame_to_client wm hw \<noteq> None then
       (if behind = 1 \<or> behind = 3 then z_push_top wm hw
        else if behind = 2 then z_push_bottom wm hw
        else if behind = 0 then wm
        else z_insert_behind wm hw behind)
     else wm)"

definition swp_activate :: "window_manager \<Rightarrow> u32 \<Rightarrow> u32 \<Rightarrow> window_manager" where
  "swp_activate wm hw fl =
    (if fl AND SWP_ACTIVATE \<noteq> 0 \<and> wm_frame_to_client wm hw \<noteq> None
     then z_push_top (wm\<lparr> wm_focused_hwnd := hw \<rparr>) hw else wm)"

definition win_set_window_pos :: "pm_state \<Rightarrow> u32 \<Rightarrow> u32 \<Rightarrow> u32 \<Rightarrow> u32 \<Rightarrow> u32 \<Rightarrow> u32 \<Rightarrow> u32 \<Rightarrow> pm_result" where
  "win_set_window_pos st hw behind x y cx cy fl =
    (let wm1 = update_window (pm_wm st) hw (swp_geometry fl x y cx cy);
         wm2 = swp_activate (swp_zorder wm1 hw behind fl) hw fl;
         wm3 = (if fl AND (SWP_MOVE OR SWP_SIZE OR SWP_SHOW OR SWP_HIDE OR SWP_ACTIVATE) \<noteq> 0
                then mark_dirty wm2 hw else wm2);
         msgs = (if fl AND SWP_SIZE \<noteq> 0 then [ResizeWindow hw cx cy] else [])
              @ (if fl AND SWP_MOVE \<noteq> 0 then [MoveWindow hw x y] else [])
              @ (if fl AND SWP_SHOW \<noteq> 0 then [ShowWindow hw True] else [])
              @ (if fl AND SWP_HIDE \<noteq> 0 then [ShowWindow hw False] else []) in
     pm_ok 1 (pm_set st (gui_send_all msgs wm3)))"

definition win_set_active_window :: "pm_env \<Rightarrow> pm_state \<Rightarrow> u32 \<Rightarrow> pm_result" where
  "win_set_active_window E st hw =
    (let wm = pm_wm st;
         candidate = client_to_frame (pe_it E) wm hw;
         frame = (if wm_frame_to_client wm candidate \<noteq> None then candidate else hw) in
     if wm_frame_to_client wm frame \<noteq> None then
       (let prev = wm_focused_hwnd wm;
            wm1 = z_push_top (wm\<lparr> wm_focused_hwnd := frame \<rparr>) frame;
            wm2 = (if frame \<noteq> 0 \<and> prev \<noteq> frame then
                     post_to (pe_it E)
                       (if prev \<noteq> 0 then post_to (pe_it E) wm1 prev (plain_message prev WM_ACTIVATE 0 frame) else wm1)
                       frame (plain_message frame WM_ACTIVATE 1 prev)
                   else wm1) in
        pm_ok (if frame \<noteq> 0 then 1 else 0) (pm_set st wm2))
     else pm_ok 0 st)"

definition win_subclass_window :: "pm_state \<Rightarrow> u32 \<Rightarrow> u32 \<Rightarrow> pm_result" where
  "win_subclass_window st hw pfn =
    (case wm_windows (pm_wm st) hw of
       Some w \<Rightarrow> pm_ok (w_pfn_wp w) (pm_set st (update_window (pm_wm st) hw (\<lambda>w. w\<lparr> w_pfn_wp := pfn \<rparr>)))
     | None \<Rightarrow> pm_ok 0 st)"

definition win_enable_window :: "pm_env \<Rightarrow> pm_state \<Rightarrow> u32 \<Rightarrow> u32 \<Rightarrow> pm_result" where
  "win_enable_window E st hw fenable =
    (let wm = pm_wm st;
         was = (case wm_windows wm hw of Some w \<Rightarrow> w_style w AND WS_DISABLED = 0 | None \<Rightarrow> True);
         wm1 = update_window wm hw (\<lambda>w. w\<lparr> w_style :=
                 (if fenable \<noteq> 0 then w_style w AND NOT WS_DISABLED else w_style w OR WS_DISABLED) \<rparr>);
         wm2 = post_to (pe_it E) wm1 hw (plain_message hw WM_ENABLE (of_bool (fenable \<noteq> 0)) 0) in
     pm_ok (of_bool was) (pm_set st wm2))"

definition win_is_window_enabled :: "pm_state \<Rightarrow> u32 \<Rightarrow> pm_result" where
  "win_is_window_enabled st hw =
    pm_ok (of_bool (case wm_windows (pm_wm st) hw of Some w \<Rightarrow> w_style w AND WS_DISABLED = 0 | None \<Rightarrow> False)) st"

definition win_query_window :: "pm_state \<Rightarrow> u32 \<Rightarrow> u32 \<Rightarrow> pm_result" where
  "win_query_window st hw code =
    pm_ok (if code = 5 \<or> code = 6 then (case wm_windows (pm_wm st) hw of Some w \<Rightarrow> w_parent w | None \<Rightarrow> 0) else 0) st"

definition win_set_window_text :: "pm_env \<Rightarrow> pm_state \<Rightarrow> u32 \<Rightarrow> u32 \<Rightarrow> pm_result" where
  "win_set_window_text E st hw psz =
    (let txt = pm_str (pe_rs E) st psz in
     pm_ok 1 (pm_set st (mark_dirty (update_window (pm_wm st) hw (\<lambda>w. w\<lparr> w_text := txt \<rparr>)) hw)))"

text \<open>Encoded text cut to the buffer, with its zero byte.\<close>

definition put_text :: "pm_env \<Rightarrow> pm_state \<Rightarrow> ustring \<Rightarrow> u32 \<Rightarrow> u32 \<Rightarrow> pm_result" where
  "put_text E st txt cch_max p =
    (let bytes = cp_encode (pe_rs E) txt (pm_cp st);
         copy_len = min (length bytes) (unat cch_max - 1);
         g = guest_write_bytes_ign (pm_guest st) p (take copy_len bytes) in
     pm_ok (of_nat copy_len) (pm_write (st\<lparr> pm_guest := g \<rparr>) (p + of_nat copy_len) (0 :: u8)))"

definition win_query_window_text :: "pm_env \<Rightarrow> pm_state \<Rightarrow> u32 \<Rightarrow> u32 \<Rightarrow> u32 \<Rightarrow> pm_result" where
  "win_query_window_text E st hw cch_max p =
    put_text E st (case wm_windows (pm_wm st) hw of Some w \<Rightarrow> w_text w | None \<Rightarrow> []) cch_max p"

definition win_query_dlg_item_text :: "pm_env \<Rightarrow> pm_state \<Rightarrow> u32 \<Rightarrow> u32 \<Rightarrow> u32 \<Rightarrow> u32 \<Rightarrow> pm_result" where
  "win_query_dlg_item_text E st hdlg wid cch_max p =
    put_text E st
      (case Option.bind (find_child_by_id (pm_wm st) hdlg wid) (wm_windows (pm_wm st)) of Some w \<Rightarrow> w_text w | None \<Rightarrow> [])
      cch_max p"

definition win_set_dlg_item_text :: "pm_env \<Rightarrow> pm_state \<Rightarrow> u32 \<Rightarrow> u32 \<Rightarrow> u32 \<Rightarrow> pm_result" where
  "win_set_dlg_item_text E st hdlg wid psz =
    (let txt = pm_str (pe_rs E) st psz in
     pm_ok 1 (case find_child_by_id (pm_wm st) hdlg wid of
        Some c \<Rightarrow> pm_set st (update_window (pm_wm st) c (\<lambda>w. w\<lparr> w_text := txt \<rparr>)) | None \<Rightarrow> st))"

definition win_set_window_ulong :: "pm_state \<Rightarrow> u32 \<Rightarrow> u32 \<Rightarrow> u32 \<Rightarrow> pm_result" where
  "win_set_window_ulong st hw i v =
    pm_ok 1 (pm_set st (update_window (pm_wm st) hw (\<lambda>w. w\<lparr> w_ulong := (w_ulong w)(i \<mapsto> v) \<rparr>)))"

definition win_set_window_ushort :: "pm_state \<Rightarrow> u32 \<Rightarrow> u32 \<Rightarrow> u32 \<Rightarrow> pm_result" where
  "win_set_window_ushort st hw i v =
    pm_ok 1 (pm_set st (update_window (pm_wm st) hw (\<lambda>w. w\<lparr> w_ushort := (w_ushort w)(i \<mapsto> ucast v) \<rparr>)))"

definition win_query_window_ulong :: "pm_state \<Rightarrow> u32 \<Rightarrow> u32 \<Rightarrow> pm_result" where
  "win_query_window_ulong st hw i =
    pm_ok (case Option.bind (wm_windows (pm_wm st) hw) (\<lambda>w. w_ulong w i) of Some v \<Rightarrow> v | None \<Rightarrow> 0) st"

definition win_query_window_ushort :: "pm_state \<Rightarrow> u32 \<Rightarrow> u32 \<Rightarrow> pm_result" where
  "win_query_window_ushort st hw i =
    pm_ok (ucast (case Option.bind (wm_windows (pm_wm st) hw) (\<lambda>w. w_ushort w i) of Some v \<Rightarrow> v | None \<Rightarrow> 0)) st"

definition win_query_sys_value :: "pm_state \<Rightarrow> u32 \<Rightarrow> pm_result" where
  "win_query_sys_value st v =
    pm_ok (if v = 20 then 640 else if v = 21 then 480 else if v = 22 then 640 else if v = 23 then 460
           else if v = 24 then 20 else if v = 27 then 1 else if v = 28 then 1 else 0) st"

section \<open>Messages\<close>

text \<open>
  \<^verbatim>\<open>WinGetMsg\<close> waits in passes: \<open>None\<close> as the message is the return at shutdown.
\<close>

fun get_msg_loop :: "os2_message list \<Rightarrow> (bool \<times> os2_message list) list \<Rightarrow> (os2_message option \<times> os2_message list) option" where
  "get_msg_loop q [] = None"
| "get_msg_loop q ((down, arrived) # obs) =
    (if down then Some (None, q @ arrived)
     else case q @ arrived of
        [] \<Rightarrow> get_msg_loop [] obs
      | m # rest \<Rightarrow> Some (Some m, rest))"

definition write_qmsg :: "pm_state \<Rightarrow> u32 \<Rightarrow> os2_message \<Rightarrow> pm_state" where
  "write_qmsg st p m =
    (if p \<noteq> 0 then
       pm_write (pm_write (pm_write (pm_write (pm_write (pm_write (pm_write st
         p (om_hwnd m)) (p + 4) (om_msg m)) (p + 8) (om_mp1 m)) (p + 12) (om_mp2 m)) (p + 16) (om_time m))
         (p + 20) (om_x m)) (p + 22) (om_y m)
     else st)"

definition win_get_msg :: "pm_env \<Rightarrow> pm_state \<Rightarrow> u32 \<Rightarrow> u32 \<Rightarrow> pm_result" where
  "win_get_msg E st tid pqmsg =
    (let wm = pm_wm st; q = hmq_of_tid wm tid in
     case wm_msg_queues wm q of
       None \<Rightarrow> pm_ok 0 st
     | Some ms \<Rightarrow>
         do { (got, rest) \<leftarrow> get_msg_loop ms (pe_passes E);
              let st1 = pm_set st (wm\<lparr> wm_msg_queues := (wm_msg_queues wm)(q \<mapsto> rest) \<rparr>);
              (case got of
                 None \<Rightarrow> pm_ok 0 st1
               | Some m \<Rightarrow> pm_ok (if om_msg m = WM_QUIT then 0 else 1) (write_qmsg st1 pqmsg m)) })"

definition win_dispatch_msg :: "pm_env \<Rightarrow> pm_state \<Rightarrow> u32 \<Rightarrow> pm_result" where
  "win_dispatch_msg E st pqmsg =
    (if pqmsg = 0 then pm_ok 0 st
     else
       let g = pm_guest st; hw = rd32 g pqmsg; m = rd32 g (pqmsg + 4); p1 = rd32 g (pqmsg + 8); p2 = rd32 g (pqmsg + 12);
           pfn = pfn_of (pm_wm st) hw in
       if pfn \<noteq> 0 then Some (Callback pfn hw m p1 p2, st) else pm_control E st hw m p1 p2)"

definition win_post_msg :: "pm_env \<Rightarrow> pm_state \<Rightarrow> u32 \<Rightarrow> u32 \<Rightarrow> u32 \<Rightarrow> u32 \<Rightarrow> pm_result" where
  "win_post_msg E st hw m p1 p2 = pm_ok 1 (pm_set st (post_to (pe_it E) (pm_wm st) hw (plain_message hw m p1 p2)))"

definition win_send_msg :: "pm_env \<Rightarrow> pm_state \<Rightarrow> u32 \<Rightarrow> u32 \<Rightarrow> u32 \<Rightarrow> u32 \<Rightarrow> pm_result" where
  "win_send_msg E st hw m p1 p2 =
    (let pfn = pfn_of (pm_wm st) hw in
     if pfn \<noteq> 0 then Some (Callback pfn hw m p1 p2, st) else pm_control E st hw m p1 p2)"

definition win_send_dlg_item_msg :: "pm_env \<Rightarrow> pm_state \<Rightarrow> u32 \<Rightarrow> u32 \<Rightarrow> u32 \<Rightarrow> u32 \<Rightarrow> u32 \<Rightarrow> pm_result" where
  "win_send_dlg_item_msg E st hdlg wid m p1 p2 =
    (case find_child_by_id (pm_wm st) hdlg wid of
       None \<Rightarrow> pm_ok 0 st
     | Some c \<Rightarrow> if c = 0 then pm_ok 0 st else win_send_msg E st c m p1 p2)"

definition menu_of_frame :: "pm_env \<Rightarrow> window_manager \<Rightarrow> u32 \<Rightarrow> u32 \<times> u32" where
  "menu_of_frame E wm hw =
    (let mh = (case wm_windows wm hw of Some w \<Rightarrow> w_menu_hwnd w | None \<Rightarrow> 0);
         frame_h = (if mh = 0 then client_to_frame (pe_it E) wm hw else hw);
         mh' = (if mh = 0 \<and> frame_h \<noteq> hw
                then (case wm_windows wm frame_h of Some w \<Rightarrow> w_menu_hwnd w | None \<Rightarrow> 0) else mh) in
     (mh', case wm_windows wm frame_h of Some w \<Rightarrow> w_cy w | None \<Rightarrow> 0))"

definition win_def_window_proc :: "pm_env \<Rightarrow> pm_state \<Rightarrow> u32 \<Rightarrow> u32 \<Rightarrow> u32 \<Rightarrow> pm_result" where
  "win_def_window_proc E st hw m p1 =
    (let wm = pm_wm st in
     if m = WM_CLOSE then pm_ok 0 (pm_set st (post_wm_quit (pe_it E) wm hw))
     else if m = WM_BUTTON1DOWN then
       (let (menu, frame_cy) = menu_of_frame E wm hw;
            menu_y1 = frame_cy - CHROME_TITLE_H - MENU_BAR_HEIGHT in
        if menu \<noteq> 0 \<and> (menu_y1 \<le>s click_y_of p1 \<or> open_item_of wm menu > 0)
        then pm_control E st menu WM_BUTTON1DOWN p1 0
        else pm_ok 0 st)
     else pm_ok 0 st)"

definition win_invalidate_rect :: "pm_env \<Rightarrow> pm_state \<Rightarrow> u32 \<Rightarrow> pm_result" where
  "win_invalidate_rect E st hw =
    (let wm = mark_dirty (pm_wm st) hw;
         target = (case wm_frame_to_client wm hw of Some c \<Rightarrow> c | None \<Rightarrow> hw) in
     pm_ok 1 (pm_set st (post_to (pe_it E) wm target (plain_message target WM_PAINT 0 0))))"

definition win_translate_accel :: "pm_state \<Rightarrow> u32 \<Rightarrow> u32 \<Rightarrow> pm_result" where
  "win_translate_accel st hw pqmsg =
    (if pqmsg = 0 then pm_ok 0 st
     else if rd32 (pm_guest st) (pqmsg + 4) = WM_CHAR then
       (case translate_accel (pm_wm st) hw (ucast (rd32 (pm_guest st) (pqmsg + 12) AND 0xFFFF))
               (ucast (rd32 (pm_guest st) (pqmsg + 8) AND 0xFFFF)) of
          Some cmd \<Rightarrow>
            pm_ok 1 (pm_write (pm_write (pm_write st (pqmsg + 4) WM_COMMAND) (pqmsg + 8) (ucast cmd :: u32)) (pqmsg + 12) (0 :: u32))
        | None \<Rightarrow> pm_ok 0 st)
     else pm_ok 0 st)"

section \<open>Painting\<close>

definition present :: "pm_env \<Rightarrow> pm_state \<Rightarrow> u32 \<Rightarrow> pm_result" where
  "present E st hw =
    pm_ok 1 (pm_set st (gui_send (PresentBuffer (client_to_frame (pe_it E) (pm_wm st) hw)) (pm_wm st)))"

definition win_begin_paint :: "pm_state \<Rightarrow> u32 \<Rightarrow> pm_result" where
  "win_begin_paint st hw = (let (h, wm) = create_ps (pm_wm st) hw in pm_ok h (pm_set st wm))"

definition win_end_paint :: "pm_env \<Rightarrow> pm_state \<Rightarrow> u32 \<Rightarrow> pm_result" where
  "win_end_paint E st hps = present E st (get_ps_hwnd (pm_wm st) hps)"

definition win_update_window :: "pm_env \<Rightarrow> pm_state \<Rightarrow> u32 \<Rightarrow> pm_result" where
  "win_update_window E st hw = present E st hw"

definition win_fill_rect :: "pm_env \<Rightarrow> pm_state \<Rightarrow> u32 \<Rightarrow> u32 \<Rightarrow> u32 \<Rightarrow> pm_result" where
  "win_fill_rect E st hps prcl colour =
    (let g = pm_guest st; frame = client_to_frame (pe_it E) (pm_wm st) (get_ps_hwnd (pm_wm st) hps) in
     pm_ok 1 (pm_set st (gui_send (DrawBox frame (rd32 g prcl) (rd32 g (prcl + 4)) (rd32 g (prcl + 8)) (rd32 g (prcl + 12))
       (map_color colour) True) (pm_wm st))))"

section \<open>Menus, dialogs and resources\<close>

definition win_set_menu :: "pm_state \<Rightarrow> u32 \<Rightarrow> u32 \<Rightarrow> pm_result" where
  "win_set_menu st frame menu =
    (case wm_windows (pm_wm st) frame of
       Some w \<Rightarrow> pm_ok (w_menu_hwnd w) (pm_set st (update_window (pm_wm st) frame (\<lambda>w. w\<lparr> w_menu_hwnd := menu \<rparr>)))
     | None \<Rightarrow> pm_ok 0 st)"

definition win_create_menu :: "pm_state \<Rightarrow> u32 \<Rightarrow> u32 \<Rightarrow> pm_result" where
  "win_create_menu st parent pvmt =
    do { items \<leftarrow> (if pvmt \<noteq> 0 then parse_menu_template (pm_guest st) pvmt 4096 else Some []);
         let (h, wm) = create_window (pm_wm st) (ustr ''#Menu'') parent 0 in
         pm_ok h (pm_set st (update_window wm h (\<lambda>w. w\<lparr> w_menu_items := items \<rparr>))) }"

definition win_load_menu :: "pm_env \<Rightarrow> pm_state \<Rightarrow> u32 \<Rightarrow> u32 \<Rightarrow> pm_result" where
  "win_load_menu E st frame id_menu =
    do { items \<leftarrow> (case rm_find (pm_res st) 3 (ucast id_menu) of
                       Some (addr, sz) \<Rightarrow> parse_menu_template (pm_guest st) addr sz | None \<Rightarrow> Some []);
         let wm = pm_wm st;
             (frame_cx, frame_cy) = (case wm_windows wm frame of Some w \<Rightarrow> (w_cx w, w_cy w) | None \<Rightarrow> (640, 480));
             (h, wm1) = create_window wm (ustr ''#Menu'') frame 0;
             wm2 = update_window wm1 h (\<lambda>w. w\<lparr> w_menu_items := items, w_x := 0,
                     w_y := frame_cy - CHROME_TITLE_H - MENU_BAR_HEIGHT, w_cx := frame_cx, w_cy := MENU_BAR_HEIGHT \<rparr>);
             wm3 = update_window wm2 frame (\<lambda>w. w\<lparr> w_menu_hwnd := h \<rparr>);
             wm4 = (case find_hmq_for_hwnd (pe_it E) wm3 frame of
                      Some q \<Rightarrow> push_message wm3 q (plain_message h WM_PAINT 0 0) | None \<Rightarrow> wm3) in
         pm_ok h (pm_set st wm4) }"

definition add_dlg_item :: "u32 \<Rightarrow> u32 \<Rightarrow> window_manager \<Rightarrow> dlg_item_info \<Rightarrow> window_manager" where
  "add_dlg_item h q wm it =
    (let cls = (if di_class_name it \<noteq> [] then di_class_name it else ustr ''WC_STATIC'');
         (c, wm1) = create_window wm cls h q in
     update_window wm1 c (\<lambda>w. w\<lparr> w_text := di_text it, w_x := i16_to_i32 (di_x it), w_y := i16_to_i32 (di_y it),
       w_cx := i16_to_i32 (di_cx it), w_cy := i16_to_i32 (di_cy it), w_id := ucast (di_id it),
       w_style := di_fl_style it, w_visible := (di_fl_style it AND WS_VISIBLE \<noteq> 0) \<rparr>))"

definition create_dialog_from_template :: "window_manager \<Rightarrow> u32 \<Rightarrow> u32 \<Rightarrow> u32 \<Rightarrow> dlg_template \<Rightarrow> u32 \<times> window_manager" where
  "create_dialog_from_template wm parent pfn q t =
    (let (h, wm1) = create_window wm (ustr ''#Dialog'') parent q;
         wm2 = update_window wm1 h (\<lambda>w. w\<lparr> w_text := dt_title t, w_pfn_wp := pfn, w_x := i16_to_i32 (dt_x t),
                 w_y := i16_to_i32 (dt_y t), w_cx := i16_to_i32 (dt_cx t), w_cy := i16_to_i32 (dt_cy t), w_visible := True \<rparr>) in
     (h, foldl (add_dlg_item h q) (z_push_top wm2 h) (dt_items t)))"

definition bare_dialog :: "window_manager \<Rightarrow> u32 \<Rightarrow> u32 \<Rightarrow> u32 \<Rightarrow> u32 \<times> window_manager" where
  "bare_dialog wm parent pfn q =
    (let (h, wm1) = create_window wm (ustr ''#Dialog'') parent q in
     (h, update_window wm1 h (\<lambda>w. w\<lparr> w_pfn_wp := pfn \<rparr>)))"

text \<open>The part that \<^verbatim>\<open>WinDlgBox\<close> and \<^verbatim>\<open>WinLoadDlg\<close> share.\<close>

definition load_dialog :: "pm_state \<Rightarrow> u32 \<Rightarrow> u32 \<Rightarrow> u32 \<Rightarrow> u32 \<Rightarrow> u32 \<Rightarrow> (u32 \<times> u32 \<times> pm_state) option" where
  "load_dialog st tid parent pfn id_dlg create_params =
    (let wm = pm_wm st; q = hmq_of_tid wm tid in
     do { t \<leftarrow> (case rm_find (pm_res st) 4 (ucast id_dlg) of
                   Some (addr, sz) \<Rightarrow> parse_dlg_template (pm_guest st) addr sz | None \<Rightarrow> Some None);
          let (h, wm1) = (case t of Some t \<Rightarrow> create_dialog_from_template wm parent pfn q t
                                  | None \<Rightarrow> bare_dialog wm parent pfn q);
              first_child = (case wm_windows wm1 h of Some w \<Rightarrow> (case w_children w of c # _ \<Rightarrow> c | [] \<Rightarrow> 0) | None \<Rightarrow> 0);
              wm2 = (if q \<noteq> 0 then push_message (push_message wm1 q (plain_message h WM_INITDLG first_child create_params))
                                     q (plain_message h WM_PAINT 0 0) else wm1) in
          Some (h, q, pm_set st wm2) })"

definition win_dlg_box :: "pm_state \<Rightarrow> u32 \<Rightarrow> u32 \<Rightarrow> u32 \<Rightarrow> u32 \<Rightarrow> u32 \<Rightarrow> pm_result" where
  "win_dlg_box st tid parent pfn id_dlg create_params =
    (if pfn = 0 then pm_ok DID_ERROR st
     else do { (h, q, st') \<leftarrow> load_dialog st tid parent pfn id_dlg create_params; Some (DlgRunLoop pfn h q, st') })"

definition win_load_dlg :: "pm_state \<Rightarrow> u32 \<Rightarrow> u32 \<Rightarrow> u32 \<Rightarrow> u32 \<Rightarrow> u32 \<Rightarrow> pm_result" where
  "win_load_dlg st tid parent pfn id_dlg create_params =
    do { (h, q, st') \<leftarrow> load_dialog st tid parent pfn id_dlg create_params; pm_ok h st' }"

definition win_process_dlg :: "pm_env \<Rightarrow> pm_state \<Rightarrow> u32 \<Rightarrow> pm_result" where
  "win_process_dlg E st h =
    (let pfn = pfn_of (pm_wm st) h;
         q = (case find_hmq_for_hwnd (pe_it E) (pm_wm st) h of Some q \<Rightarrow> q | None \<Rightarrow> 0) in
     if pfn = 0 \<or> q = 0 then pm_ok DID_CANCEL st else Some (DlgRunLoop pfn h q, st))"

definition dismiss :: "window_manager \<Rightarrow> u32 \<Rightarrow> u32 \<Rightarrow> window_manager" where
  "dismiss wm h r = update_window wm h (\<lambda>w. w\<lparr> w_dismissed := True, w_dialog_result := r \<rparr>)"

definition win_dismiss_dlg :: "pm_state \<Rightarrow> u32 \<Rightarrow> u32 \<Rightarrow> pm_result" where
  "win_dismiss_dlg st h r = pm_ok 1 (pm_set st (dismiss (pm_wm st) h r))"

definition win_def_dlg_proc :: "pm_env \<Rightarrow> pm_state \<Rightarrow> u32 \<Rightarrow> u32 \<Rightarrow> u32 \<Rightarrow> u32 \<Rightarrow> pm_result" where
  "win_def_dlg_proc E st hw m p1 p2 =
    (if m = WM_BUTTON1DOWN then pm_control E st hw WM_BUTTON1DOWN p1 p2
     else if m = WM_COMMAND then
       (let i = p1 AND 0xFFFF in
        pm_ok 0 (if i = DID_OK \<or> i = DID_CANCEL then pm_set st (dismiss (pm_wm st) hw i) else st))
     else if m = WM_CLOSE then pm_ok 0 (pm_set st (dismiss (pm_wm st) hw DID_CANCEL))
     else pm_ok 0 st)"

definition win_load_accel_table :: "pm_state \<Rightarrow> u32 \<Rightarrow> pm_result" where
  "win_load_accel_table st i =
    (case rm_find (pm_res st) 8 (ucast i) of
       Some (addr, sz) \<Rightarrow>
         if sz \<ge> 4 then
           (let (h, wm) = add_accel_table (pm_wm st) (parse_accel_table (pm_guest st) addr sz) in pm_ok h (pm_set st wm))
         else pm_ok 0 st
     | None \<Rightarrow> pm_ok 0 st)"

definition win_load_string :: "pm_state \<Rightarrow> u32 \<Rightarrow> u32 \<Rightarrow> u32 \<Rightarrow> pm_result" where
  "win_load_string st i cch_max p =
    (let none = pm_ok 0 (if p \<noteq> 0 then pm_write st p (0 :: u8) else st) in
     case rm_find (pm_res st) 5 (ucast (i div 16 + 1)) of
       None \<Rightarrow> none
     | Some (addr, sz) \<Rightarrow>
         (case bundle_string (pm_guest st) addr sz 0 (unat (i mod 16)) of
            None \<Rightarrow> none
          | Some (off, len) \<Rightarrow>
              let copy_len = min (unat len) (unat (if cch_max <s 0 then 0 else cch_max) - 1) in
              pm_ok (of_nat copy_len)
                (if p \<noteq> 0 then
                   pm_write (st\<lparr> pm_guest := copy_guest_bytes (pm_guest st) (addr + off) p 0 copy_len \<rparr>)
                     (p + of_nat copy_len) (0 :: u8)
                 else st)))"

section \<open>Clipboard, capture, timers and boxes\<close>

definition win_set_clipbrd_data :: "pm_env \<Rightarrow> pm_state \<Rightarrow> u32 \<Rightarrow> u32 \<Rightarrow> pm_result" where
  "win_set_clipbrd_data E st data fmt =
    (let wm = pm_wm st;
         wm1 = (if fmt = 1 \<and> data \<noteq> 0 then
                  (let txt = pm_str (pe_rs E) st data in gui_send (SetClipboardText txt) (wm\<lparr> wm_clipboard_text := txt \<rparr>))
                else wm) in
     pm_ok 1 (pm_set st (wm1\<lparr> wm_clipboard := (wm_clipboard wm1)(fmt \<mapsto> data) \<rparr>)))"

definition win_query_clipbrd_data :: "pm_state \<Rightarrow> u32 \<Rightarrow> pm_result" where
  "win_query_clipbrd_data st fmt = pm_ok (case wm_clipboard (pm_wm st) fmt of Some d \<Rightarrow> d | None \<Rightarrow> 0) st"

definition win_set_capture :: "pm_state \<Rightarrow> u32 \<Rightarrow> pm_result" where
  "win_set_capture st hw = pm_ok 1 (pm_set st (gui_send (SetMouseCapture hw) ((pm_wm st)\<lparr> wm_capture_hwnd := hw \<rparr>)))"

definition win_start_timer :: "pm_state \<Rightarrow> u32 \<Rightarrow> u32 \<Rightarrow> pm_result" where
  "win_start_timer st hw i = pm_ok i (pm_upd st (\<lambda>wm. wm\<lparr> wm_timers := insert (hw, i) (wm_timers wm) \<rparr>))"

definition timer_tick :: "hash_iter \<Rightarrow> window_manager \<Rightarrow> u32 \<Rightarrow> u32 \<Rightarrow> window_manager" where
  "timer_tick it wm hw i = post_to it wm hw (plain_message hw WM_TIMER i 0)"

definition win_stop_timer :: "pm_state \<Rightarrow> u32 \<Rightarrow> u32 \<Rightarrow> pm_result" where
  "win_stop_timer st hw i = pm_ok 1 (pm_upd st (\<lambda>wm. wm\<lparr> wm_timers := wm_timers wm - {(hw, i)} \<rparr>))"

definition win_message_box :: "pm_env \<Rightarrow> pm_state \<Rightarrow> u32 \<Rightarrow> u32 \<Rightarrow> u32 \<Rightarrow> pm_result" where
  "win_message_box E st psz_text psz_caption style =
    pm_ok (if wm_gui_tx (pm_wm st) then (case pe_reply E of Some r \<Rightarrow> r | None \<Rightarrow> 1) else 1)
      (pm_upd st (gui_send (ShowMessageBox (pm_str (pe_rs E) st psz_caption) (pm_str (pe_rs E) st psz_text) style)))"

end
