(* ===== verification/PM_Dispatch.thy ===== *)
theory PM_Dispatch
  imports PM_Calls
begin

unbundle bit_operations_syntax

text \<open>
  The drawing calls (\<^verbatim>\<open>src/src/loader/pm_gpi.rs\<close>) and the two dispatch tables of the Presentation Manager:
  the ordinal selects the handler, and the handler's arguments are read from the guest's stack.
\<close>

section \<open>Drawing calls\<close>

definition update_ps :: "pm_state \<Rightarrow> u32 \<Rightarrow> (presentation_space \<Rightarrow> presentation_space) \<Rightarrow> pm_state" where
  "update_ps st hps f =
    (case wm_ps_map (pm_wm st) hps of
       Some ps \<Rightarrow> pm_upd st (\<lambda>wm. wm\<lparr> wm_ps_map := (wm_ps_map wm)(hps \<mapsto> f ps) \<rparr>)
     | None \<Rightarrow> st)"

definition rd_point :: "pm_state \<Rightarrow> u32 \<Rightarrow> u32 \<times> u32" where
  "rd_point st p = (rd32 (pm_guest st) p, rd32 (pm_guest st) (p + 4))"

definition ps_frame :: "pm_env \<Rightarrow> pm_state \<Rightarrow> u32 \<Rightarrow> u32" where
  "ps_frame E st hps = client_to_frame (pe_it E) (pm_wm st) (get_ps_hwnd (pm_wm st) hps)"

definition ps_colour :: "pm_state \<Rightarrow> u32 \<Rightarrow> u32" where
  "ps_colour st hps = (case wm_ps_map (pm_wm st) hps of Some ps \<Rightarrow> ps_color ps | None \<Rightarrow> 0)"

definition ps_pos :: "pm_state \<Rightarrow> u32 \<Rightarrow> u32 \<times> u32" where
  "ps_pos st hps = (case wm_ps_map (pm_wm st) hps of Some ps \<Rightarrow> ps_current_pos ps | None \<Rightarrow> (0, 0))"

definition gpi_create_ps :: "pm_state \<Rightarrow> pm_result" where
  "gpi_create_ps st = (let (h, wm) = create_ps (pm_wm st) 0 in pm_ok h (pm_set st wm))"

definition gpi_destroy_ps :: "pm_state \<Rightarrow> u32 \<Rightarrow> pm_result" where
  "gpi_destroy_ps st hps = pm_ok 1 (pm_upd st (\<lambda>wm. wm\<lparr> wm_ps_map := (wm_ps_map wm)(hps := None) \<rparr>))"

definition gpi_set_color :: "pm_state \<Rightarrow> u32 \<Rightarrow> u32 \<Rightarrow> pm_result" where
  "gpi_set_color st hps c = pm_ok 1 (update_ps st hps (\<lambda>ps. ps\<lparr> ps_color := map_color c \<rparr>))"

definition gpi_move :: "pm_state \<Rightarrow> u32 \<Rightarrow> u32 \<Rightarrow> pm_result" where
  "gpi_move st hps pptl = pm_ok 1 (update_ps st hps (\<lambda>ps. ps\<lparr> ps_current_pos := rd_point st pptl \<rparr>))"

definition gpi_boxes :: "u32 \<Rightarrow> u32 \<Rightarrow> u32 \<Rightarrow> u32 \<Rightarrow> u32 \<Rightarrow> u32 \<Rightarrow> u32 \<Rightarrow> gui_message list" where
  "gpi_boxes control frame x1 y1 x2 y2 c =
    (if control = 1 \<or> control = 3 then [DrawBox frame x1 y1 x2 y2 c True] else [])
    @ (if control = 2 \<or> control = 3 then [DrawBox frame x1 y1 x2 y2 c False] else [])"

definition gpi_box :: "pm_env \<Rightarrow> pm_state \<Rightarrow> u32 \<Rightarrow> u32 \<Rightarrow> u32 \<Rightarrow> pm_result" where
  "gpi_box E st hps control pptl =
    (let (x2, y2) = rd_point st pptl in
     pm_ok 1 (case wm_ps_map (pm_wm st) hps of
        Some ps \<Rightarrow> pm_upd st (gui_send_all (gpi_boxes control (ps_frame E st hps)
            (fst (ps_current_pos ps)) (snd (ps_current_pos ps)) x2 y2 (ps_color ps)))
      | None \<Rightarrow> st))"

definition gpi_full_arc :: "pm_env \<Rightarrow> pm_state \<Rightarrow> u32 \<Rightarrow> u32 \<Rightarrow> pm_result" where
  "gpi_full_arc E st hps control =
    pm_ok 1 (case wm_ps_map (pm_wm st) hps of
       Some ps \<Rightarrow>
         let (cx, cy) = ps_current_pos ps in
         pm_upd st (gui_send_all (gpi_boxes control (ps_frame E st hps) (cx - 10) (cy - 10) (cx + 10) (cy + 10) (ps_color ps)))
     | None \<Rightarrow> st)"

definition gpi_line :: "pm_env \<Rightarrow> pm_state \<Rightarrow> u32 \<Rightarrow> u32 \<Rightarrow> pm_result" where
  "gpi_line E st hps pptl =
    (let (x2, y2) = rd_point st pptl in
     pm_ok 1 (case wm_ps_map (pm_wm st) hps of
        Some ps \<Rightarrow>
          update_ps (pm_upd st (gui_send (DrawLine (ps_frame E st hps) (fst (ps_current_pos ps)) (snd (ps_current_pos ps))
              x2 y2 (ps_color ps)))) hps (\<lambda>ps. ps\<lparr> ps_current_pos := (x2, y2) \<rparr>)
      | None \<Rightarrow> st))"

definition read_text :: "pm_env \<Rightarrow> pm_state \<Rightarrow> u32 \<Rightarrow> nat \<Rightarrow> ustring" where
  "read_text E st pch n =
    cp_decode (pe_rs E) (map (\<lambda>i. rd8 (pm_guest st) (pch + of_nat i)) [0..<n]) (pm_cp st)"

definition draw_string :: "pm_env \<Rightarrow> pm_state \<Rightarrow> u32 \<Rightarrow> u32 \<times> u32 \<Rightarrow> u32 \<Rightarrow> u32 \<Rightarrow> pm_result" where
  "draw_string E st hps pos n pch =
    (let (x, y) = pos;
         st1 = pm_upd st (gui_send (DrawText (ps_frame E st hps) x y (read_text E st pch (unat n)) (ps_colour st hps))) in
     pm_ok 1 (update_ps st1 hps (\<lambda>ps. ps\<lparr> ps_current_pos := (x + n * 8, y) \<rparr>)))"

definition gpi_char_string_at :: "pm_env \<Rightarrow> pm_state \<Rightarrow> u32 \<Rightarrow> u32 \<Rightarrow> u32 \<Rightarrow> u32 \<Rightarrow> pm_result" where
  "gpi_char_string_at E st hps pptl n pch = draw_string E st hps (rd_point st pptl) n pch"

definition gpi_char_string :: "pm_env \<Rightarrow> pm_state \<Rightarrow> u32 \<Rightarrow> u32 \<Rightarrow> u32 \<Rightarrow> pm_result" where
  "gpi_char_string E st hps n pch = draw_string E st hps (ps_pos st hps) n pch"

definition gpi_erase :: "pm_env \<Rightarrow> pm_state \<Rightarrow> u32 \<Rightarrow> pm_result" where
  "gpi_erase E st hps = pm_ok 1 (pm_upd st (gui_send (ClearBuffer (ps_frame E st hps))))"

definition gpi_set_back_color :: "pm_state \<Rightarrow> u32 \<Rightarrow> u32 \<Rightarrow> pm_result" where
  "gpi_set_back_color st hps c = pm_ok 1 (update_ps st hps (\<lambda>ps. ps\<lparr> ps_back_color := map_color c \<rparr>))"

definition gpi_query_back_color :: "pm_state \<Rightarrow> u32 \<Rightarrow> pm_result" where
  "gpi_query_back_color st hps =
    pm_ok (case wm_ps_map (pm_wm st) hps of Some ps \<Rightarrow> ps_back_color ps | None \<Rightarrow> 0x00FFFFFF) st"

definition gpi_query_current_position :: "pm_state \<Rightarrow> u32 \<Rightarrow> u32 \<Rightarrow> pm_result" where
  "gpi_query_current_position st hps pptl =
    pm_ok 1 (if pptl \<noteq> 0
             then pm_write (pm_write st pptl (fst (ps_pos st hps))) (pptl + 4) (snd (ps_pos st hps)) else st)"

definition gpi_set_char_box :: "pm_state \<Rightarrow> u32 \<Rightarrow> u32 \<Rightarrow> pm_result" where
  "gpi_set_char_box st hps psizf =
    pm_ok 1 (if psizf \<noteq> 0 then
       let (cx, cy) = rd_point st psizf in
       update_ps st hps (\<lambda>ps. ps\<lparr> ps_char_box := (word_of_int (sint cx div 65536), word_of_int (sint cy div 65536)) \<rparr>)
     else st)"

definition gpi_query_text_box :: "pm_state \<Rightarrow> u32 \<Rightarrow> u32 \<Rightarrow> u32 \<Rightarrow> pm_result" where
  "gpi_query_text_box st n npoints aptl =
    (let w = n * 8; pts = [(0, 12), (0, - 4), (w, - 4), (w, 12), (w, 0)] :: (u32 \<times> u32) list in
     pm_ok 1 (if aptl \<noteq> 0 then
       foldl (\<lambda>s i. pm_write (pm_write s (aptl + of_nat i * 8) (fst (pts ! i))) (aptl + of_nat i * 8 + 4) (snd (pts ! i)))
         st [0..<min (unat npoints) 5]
     else st))"

section \<open>Font metrics\<close>

definition FM_SIZE :: nat where "FM_SIZE = 208"

text \<open>A name is written when its slice, cut to the buffer, lies in guest memory.\<close>

definition fm_str :: "u32 \<Rightarrow> u32 \<Rightarrow> guest_memory \<Rightarrow> u32 \<Rightarrow> u8 list \<Rightarrow> nat \<Rightarrow> guest_memory" where
  "fm_str addr cb g off s mx =
    (if off < cb then
       let e = min (unat off + mx) (unat cb); n = min (length s) (e - unat off) in
       (case ptr_at g (addr + off) (min mx (unat cb - unat off)) of
          Some p \<Rightarrow> gm_put g p (take n s)
        | None \<Rightarrow> g)
     else g)"

definition fm_i32 :: "u32 \<Rightarrow> u32 \<Rightarrow> guest_memory \<Rightarrow> u32 \<times> u32 \<Rightarrow> guest_memory" where
  "fm_i32 addr cb g f = (if fst f + 4 \<le> cb then guest_write_ign g (addr + fst f) (snd f) else g)"

definition fm_i16 :: "u32 \<Rightarrow> u32 \<Rightarrow> guest_memory \<Rightarrow> u32 \<times> u16 \<Rightarrow> guest_memory" where
  "fm_i16 addr cb g f = (if fst f + 2 \<le> cb then guest_write_ign g (addr + fst f) (snd f) else g)"

definition fm_longs :: "(u32 \<times> u32) list" where
  "fm_longs = [(68, 12), (72, 9), (76, 12), (80, 4), (84, 12), (88, 4), (100, 8), (104, 8), (108, 8), (112, 16)]"

definition fm_shorts :: "(u32 \<times> u16) list" where
  "fm_shorts = [(126, 96), (128, 96), (130, 32), (132, 255), (134, 63), (136, 32), (138, 100)]"

definition system_name :: "u8 list" where
  "system_name = as_bytes (ustr ''System'')"

definition write_font_metrics :: "guest_memory \<Rightarrow> u32 \<Rightarrow> u32 \<Rightarrow> guest_memory" where
  "write_font_metrics g addr cb =
    (let len = min (unat cb) FM_SIZE;
         g1 = (case ptr_at g addr len of Some p \<Rightarrow> gm_put g p (replicate len 0) | None \<Rightarrow> g);
         g2 = fm_str addr cb g1 0 system_name 32;
         g3 = fm_str addr cb g2 32 system_name 32;
         g4 = foldl (fm_i32 addr cb) g3 fm_longs in
     foldl (fm_i16 addr cb) g4 fm_shorts)"

definition gpi_query_font_metrics :: "pm_state \<Rightarrow> u32 \<Rightarrow> u32 \<Rightarrow> pm_result" where
  "gpi_query_font_metrics st cb pfm =
    pm_ok 1 (if pfm \<noteq> 0 then st\<lparr> pm_guest := write_font_metrics (pm_guest st) pfm cb \<rparr> else st)"

definition gpi_query_fonts :: "pm_state \<Rightarrow> u32 \<Rightarrow> u32 \<Rightarrow> u32 \<Rightarrow> pm_result" where
  "gpi_query_fonts st pl_req cb afm =
    (let st1 = (if pl_req \<noteq> 0 then pm_write st pl_req (0 :: u32) else st) in
     pm_ok 1 (if afm \<noteq> 0 \<and> cb > 0 then st1\<lparr> pm_guest := write_font_metrics (pm_guest st1) afm cb \<rparr> else st1))"

section \<open>Dispatch\<close>

definition handle_pmgpi_call :: "pm_env \<Rightarrow> pm_state \<Rightarrow> u64 \<Rightarrow> u32 \<Rightarrow> pm_result" where
  "handle_pmgpi_call E st esp ord =
    (if ord = 369 then with_args st esp [4, 8, 12, 16] (\<lambda>a. gpi_create_ps st)
     else if ord = 379 then with_args st esp [4] (\<lambda>a. gpi_destroy_ps st (a ! 0))
     else if ord = 517 then with_args st esp [4, 8] (\<lambda>a. gpi_set_color st (a ! 0) (a ! 1))
     else if ord = 404 then with_args st esp [4, 8] (\<lambda>a. gpi_move st (a ! 0) (a ! 1))
     else if ord = 356 then with_args st esp [4, 8, 12, 16, 20] (\<lambda>a. gpi_box E st (a ! 0) (a ! 1) (a ! 2))
     else if ord = 398 then with_args st esp [4, 8] (\<lambda>a. gpi_line E st (a ! 0) (a ! 1))
     else if ord = 359 then with_args st esp [4, 8, 12, 16] (\<lambda>a. gpi_char_string_at E st (a ! 0) (a ! 1) (a ! 2) (a ! 3))
     else if ord = 389 then with_args st esp [4] (\<lambda>a. gpi_erase E st (a ! 0))
     else if ord = 358 then with_args st esp [4, 8, 12] (\<lambda>a. gpi_char_string E st (a ! 0) (a ! 1) (a ! 2))
     else if ord = 518 then with_args st esp [4, 8] (\<lambda>a. gpi_set_back_color st (a ! 0) (a ! 1))
     else if ord = 520 then with_args st esp [4] (\<lambda>a. pm_ok (ps_colour st (a ! 0)) st)
     else if ord = 521 then with_args st esp [4] (\<lambda>a. gpi_query_back_color st (a ! 0))
     else if ord = 509 then with_args st esp [4, 8] (\<lambda>a. pm_ok 1 (update_ps st (a ! 0) (\<lambda>ps. ps\<lparr> ps_mix_mode := a ! 1 \<rparr>)))
     else if ord = 503 then with_args st esp [4, 8] (\<lambda>a. pm_ok 1 (update_ps st (a ! 0) (\<lambda>ps. ps\<lparr> ps_back_mix := a ! 1 \<rparr>)))
     else if ord = 416 then with_args st esp [4, 8] (\<lambda>a. gpi_query_current_position st (a ! 0) (a ! 1))
     else if ord = 481 then with_args st esp [4, 8] (\<lambda>a. pm_ok 1 (update_ps st (a ! 0) (\<lambda>ps. ps\<lparr> ps_char_set := a ! 1 \<rparr>)))
     else if ord = 482 then with_args st esp [4, 8] (\<lambda>a. gpi_set_char_box st (a ! 0) (a ! 1))
     else if ord = 381 then with_args st esp [4, 12] (\<lambda>a. pm_ok 1 st)
     else if ord \<in> set [385, 527, 529, 530, 399, 400, 401, 353] then pm_ok 1 st
     else if ord = 464 then with_args st esp [4, 8, 12] (\<lambda>a. gpi_query_font_metrics st (a ! 1) (a ! 2))
     else if ord = 459 then with_args st esp [4, 8, 12, 16, 20, 24] (\<lambda>a. gpi_query_fonts st (a ! 3) (a ! 4) (a ! 5))
     else if ord = 476 then with_args st esp [4, 8, 12, 16, 20] (\<lambda>a. gpi_query_text_box st (a ! 1) (a ! 3) (a ! 4))
     else if ord = 392 then with_args st esp [4, 8] (\<lambda>a. gpi_full_arc E st (a ! 0) (a ! 1))
     else pm_ok 0 st)"

definition pmwin_windows :: "pm_env \<Rightarrow> pm_state \<Rightarrow> u32 \<Rightarrow> u64 \<Rightarrow> u32 \<Rightarrow> pm_result option" where
  "pmwin_windows E st tid esp ord =
    (if ord = 926 then Some (with_args st esp [4, 8, 12, 16, 20] (\<lambda>a. win_register_class E st (a ! 1) (a ! 2) (a ! 3)))
     else if ord = 908 then Some (with_args st esp [4, 8, 12, 16, 20, 24, 28, 32, 36]
       (\<lambda>a. win_create_std_window E st tid (a ! 0) (a ! 1) (a ! 2) (a ! 3) (a ! 4) (a ! 8)))
     else if ord = 909 then Some (with_args st esp [4, 8, 12, 16, 20, 24, 28, 32, 44]
       (\<lambda>a. win_create_window E st tid (a ! 0) (a ! 1) (a ! 2) (a ! 3) (a ! 4, a ! 5, a ! 6, a ! 7) (a ! 8)))
     else if ord = 728 then Some (with_args st esp [4] (\<lambda>a. win_destroy_window st (a ! 0)))
     else if ord = 883 then Some (with_args st esp [4, 8] (\<lambda>a. win_show_window st (a ! 0) (a ! 1)))
     else if ord = 840 then Some (with_args st esp [4, 8] (\<lambda>a. win_query_window_rect st (a ! 0) (a ! 1)))
     else if ord = 837 then Some (with_args st esp [4, 8] (\<lambda>a. win_query_window_pos st (a ! 0) (a ! 1)))
     else if ord = 875 then Some (with_args st esp [4, 8, 12, 16, 20, 24, 28]
       (\<lambda>a. win_set_window_pos st (a ! 0) (a ! 1) (a ! 2) (a ! 3) (a ! 4) (a ! 5) (a ! 6)))
     else if ord = 795 then Some (with_args st esp [4, 8] (\<lambda>a. win_set_active_window E st (a ! 1)))
     else if ord = 797 then Some (with_args st esp [4] (\<lambda>a. pm_ok (wm_focused_hwnd (pm_wm st)) st))
     else if ord = 895 then Some (with_args st esp [4, 8] (\<lambda>a. win_subclass_window st (a ! 0) (a ! 1)))
     else if ord = 735 then Some (with_args st esp [4, 8] (\<lambda>a. win_enable_window E st (a ! 0) (a ! 1)))
     else if ord = 773 then Some (with_args st esp [4] (\<lambda>a. win_is_window_enabled st (a ! 0)))
     else if ord = 834 then Some (with_args st esp [4, 8] (\<lambda>a. win_query_window st (a ! 0) (a ! 1)))
     else if ord = 877 then Some (with_args st esp [4, 8] (\<lambda>a. win_set_window_text E st (a ! 0) (a ! 1)))
     else if ord = 841 then Some (with_args st esp [4, 8, 12] (\<lambda>a. win_query_window_text E st (a ! 0) (a ! 1) (a ! 2)))
     else if ord = 815 then Some (with_args st esp [4, 8, 12, 16] (\<lambda>a. win_query_dlg_item_text E st (a ! 0) (a ! 1) (a ! 2) (a ! 3)))
     else if ord = 859 then Some (with_args st esp [4, 8, 12] (\<lambda>a. win_set_dlg_item_text E st (a ! 0) (a ! 1) (a ! 2)))
     else if ord = 878 then Some (with_args st esp [4, 8, 12] (\<lambda>a. win_set_window_ulong st (a ! 0) (a ! 1) (a ! 2)))
     else if ord = 879 then Some (with_args st esp [4, 8, 12] (\<lambda>a. win_set_window_ushort st (a ! 0) (a ! 1) (a ! 2)))
     else if ord = 843 then Some (with_args st esp [4, 8] (\<lambda>a. win_query_window_ulong st (a ! 0) (a ! 1)))
     else if ord = 844 then Some (with_args st esp [4, 8] (\<lambda>a. win_query_window_ushort st (a ! 0) (a ! 1)))
     else if ord = 899 then Some (with_args st esp [4, 8]
       (\<lambda>a. pm_ok (case find_child_by_id (pm_wm st) (a ! 0) (a ! 1) of Some c \<Rightarrow> c | None \<Rightarrow> 0) st))
     else if ord = 829 then Some (with_args st esp [4, 8] (\<lambda>a. win_query_sys_value st (a ! 1)))
     else None)"

definition pmwin_messages :: "pm_env \<Rightarrow> pm_state \<Rightarrow> u32 \<Rightarrow> u64 \<Rightarrow> u32 \<Rightarrow> pm_result option" where
  "pmwin_messages E st tid esp ord =
    (if ord = 716 then Some (win_create_msg_queue st tid)
     else if ord = 915 then Some (with_args st esp [4, 8, 12, 16, 20] (\<lambda>a. win_get_msg E st tid (a ! 1)))
     else if ord = 912 then Some (with_args st esp [4, 8] (\<lambda>a. win_dispatch_msg E st (a ! 1)))
     else if ord = 919 then Some (with_args st esp [4, 8, 12, 16] (\<lambda>a. win_post_msg E st (a ! 0) (a ! 1) (a ! 2) (a ! 3)))
     else if ord = 920 then Some (with_args st esp [4, 8, 12, 16] (\<lambda>a. win_send_msg E st (a ! 0) (a ! 1) (a ! 2) (a ! 3)))
     else if ord = 903 then Some (with_args st esp [4, 8, 12, 16, 20]
       (\<lambda>a. win_send_dlg_item_msg E st (a ! 0) (a ! 1) (a ! 2) (a ! 3) (a ! 4)))
     else if ord = 911 then Some (with_args st esp [4, 8, 12, 16] (\<lambda>a. win_def_window_proc E st (a ! 0) (a ! 1) (a ! 2)))
     else if ord = 765 then Some (with_args st esp [4] (\<lambda>a. win_invalidate_rect E st (a ! 0)))
     else if ord = 904 then Some (with_args st esp [4, 8, 12, 16] (\<lambda>a. win_translate_accel st (a ! 1) (a ! 3)))
     else if ord = 850 then Some (with_args st esp [4, 8, 12] (\<lambda>a. pm_ok 1 (pm_upd st (\<lambda>wm. set_window_accel wm (a ! 2) (a ! 1)))))
     else if ord = 884 then Some (with_args st esp [4, 8, 12, 16] (\<lambda>a. win_start_timer st (a ! 1) (a ! 2)))
     else if ord = 885 then Some (with_args st esp [4, 8, 12] (\<lambda>a. win_stop_timer st (a ! 1) (a ! 2)))
     else None)"

definition pmwin_resources :: "pm_env \<Rightarrow> pm_state \<Rightarrow> u32 \<Rightarrow> u64 \<Rightarrow> u32 \<Rightarrow> pm_result option" where
  "pmwin_resources E st tid esp ord =
    (if ord = 703 then Some (with_args st esp [4, 8, 12] (\<lambda>a. win_begin_paint st (a ! 0)))
     else if ord = 738 then Some (with_args st esp [4] (\<lambda>a. win_end_paint E st (a ! 0)))
     else if ord = 892 then Some (with_args st esp [4] (\<lambda>a. win_update_window E st (a ! 0)))
     else if ord = 743 then Some (with_args st esp [4, 8, 12] (\<lambda>a. win_fill_rect E st (a ! 0) (a ! 1) (a ! 2)))
     else if ord = 857 then Some (with_args st esp [4, 8] (\<lambda>a. win_set_menu st (a ! 0) (a ! 1)))
     else if ord = 907 then Some (with_args st esp [4, 8] (\<lambda>a. win_create_menu st (a ! 0) (a ! 1)))
     else if ord = 778 then Some (with_args st esp [4, 8, 12] (\<lambda>a. win_load_menu E st (a ! 0) (a ! 2)))
     else if ord = 923 then Some (with_args st esp [4, 8, 12, 16, 20, 24] (\<lambda>a. win_dlg_box st tid (a ! 0) (a ! 2) (a ! 4) (a ! 5)))
     else if ord = 924 then Some (with_args st esp [4, 8, 12, 16, 20, 24] (\<lambda>a. win_load_dlg st tid (a ! 0) (a ! 2) (a ! 4) (a ! 5)))
     else if ord = 796 then Some (with_args st esp [4] (\<lambda>a. win_process_dlg E st (a ! 0)))
     else if ord = 729 then Some (with_args st esp [4, 8] (\<lambda>a. win_dismiss_dlg st (a ! 0) (a ! 1)))
     else if ord = 910 then Some (with_args st esp [4, 8, 12, 16] (\<lambda>a. win_def_dlg_proc E st (a ! 0) (a ! 1) (a ! 2) (a ! 3)))
     else if ord = 776 then Some (with_args st esp [4, 8, 12] (\<lambda>a. win_load_accel_table st (a ! 2)))
     else if ord = 781 then Some (with_args st esp [4, 8, 12, 16, 20] (\<lambda>a. win_load_string st (a ! 2) (a ! 3) (a ! 4)))
     else if ord = 854 then Some (with_args st esp [4, 8, 12, 16] (\<lambda>a. win_set_clipbrd_data E st (a ! 1) (a ! 2)))
     else if ord = 806 then Some (with_args st esp [4, 8] (\<lambda>a. win_query_clipbrd_data st (a ! 1)))
     else if ord = 793 then Some (pm_ok 1 (pm_upd st (\<lambda>wm. wm\<lparr> wm_clipboard_open := True \<rparr>)))
     else if ord = 707 then Some (pm_ok 1 (pm_upd st (\<lambda>wm. wm\<lparr> wm_clipboard_open := False \<rparr>)))
     else if ord = 733 then Some (pm_ok 1 (pm_upd st (\<lambda>wm. wm\<lparr> wm_clipboard := Map.empty \<rparr>)))
     else if ord = 852 then Some (with_args st esp [4, 8] (\<lambda>a. win_set_capture st (a ! 1)))
     else if ord = 804 then Some (with_args st esp [4] (\<lambda>a. pm_ok (wm_capture_hwnd (pm_wm st)) st))
     else if ord = 789 then Some (with_args st esp [4, 8, 12, 16, 20, 24] (\<lambda>a. win_message_box E st (a ! 2) (a ! 3) (a ! 5)))
     else None)"

definition handle_pmwin_call :: "pm_env \<Rightarrow> pm_state \<Rightarrow> u32 \<Rightarrow> u64 \<Rightarrow> u32 \<Rightarrow> pm_result" where
  "handle_pmwin_call E st tid esp ord =
    (case pmwin_windows E st tid esp ord of Some r \<Rightarrow> r
     | None \<Rightarrow>
       (case pmwin_messages E st tid esp ord of Some r \<Rightarrow> r
        | None \<Rightarrow>
          (case pmwin_resources E st tid esp ord of Some r \<Rightarrow> r
           | None \<Rightarrow>
               if ord = 763 then pm_ok 0x1234 st
               else if ord \<in> set [888, 726, 701, 937, 866, 736] then pm_ok 1 st
               else if ord = 828 then pm_ok 0x5000 st
               else pm_ok 0 st)))"

end
