(* ===== verification/Vcpu_Calls.thy ===== *)
theory Vcpu_Calls
  imports PM_Dispatch Kbdcalls Viocalls
begin

unbundle bit_operations_syntax

text \<open>
  How a virtual CPU enters and leaves guest code (\<^verbatim>\<open>src/src/loader/vcpu.rs\<close>): an API call returns to its
  caller, or calls back into the guest (a window procedure, the initialisation routine of a DLL, an
  exception handler, a dialog procedure) and pushes a frame that says what to do when the guest returns
  to \<open>CALLBACK_RET_TRAP\<close>. The modal loop of a dialog runs over passes; between two passes other threads
  change the window manager, which is the function of the pass. \<open>None\<close> is a panic (the guest's stack lies
  outside its memory), or a loop that has not returned.
\<close>

section \<open>State\<close>

datatype frame_kind =
    PmCallback
  | InitTerm u32 u32
  | InitTermUnload u32 "u32 list"
  | ExceptionHandler fault_context u32 u32 u32 "u32 list"
  | WmCreate u32
  | DlgLoop u32 u32 u32

record callback_frame =
  cf_rip :: u64
  cf_rsp :: u64
  cf_kind :: frame_kind

record vcpu_state =
  vc_guest :: guest_memory
  vc_mem :: memory_manager
  vc_wm :: window_manager
  vc_regs :: guest_regs
  vc_frames :: "callback_frame list"
  vc_exit :: "int option"
  vc_stopped :: bool

definition ret_addr :: "vcpu_state \<Rightarrow> u32 option" where
  "ret_addr st = gm_read (vc_guest st) (ucast (rsp (vc_regs st)))"

definition set_ret :: "u64 \<Rightarrow> u64 \<Rightarrow> u64 \<Rightarrow> guest_regs \<Rightarrow> guest_regs" where
  "set_ret ip sp res r = r\<lparr> rip := ip, rsp := sp, rax := res \<rparr>"

section \<open>Leaving an API call\<close>

definition callee_bytes :: "u32 \<Rightarrow> u64" where
  "callee_bytes ordinal =
    (if VIOCALLS_BASE \<le> ordinal \<and> ordinal < SESMGR_BASE then viocalls_arg_bytes (ordinal - VIOCALLS_BASE)
     else if KBDCALLS_BASE \<le> ordinal \<and> ordinal < VIOCALLS_BASE then kbdcalls_arg_bytes (ordinal - KBDCALLS_BASE)
     else 0)"

definition normal_return :: "vcpu_state \<Rightarrow> u32 \<Rightarrow> u32 \<Rightarrow> vcpu_state option" where
  "normal_return st ordinal res =
    do { ra \<leftarrow> ret_addr st;
         Some (st\<lparr> vc_regs := set_ret (ucast ra) (rsp (vc_regs st) + 4 + callee_bytes ordinal) (ucast res) (vc_regs st) \<rparr>) }"

text \<open>Put the return trap and arguments below the stack pointer and go to \<open>target\<close>.\<close>

definition enter_guest :: "vcpu_state \<Rightarrow> callback_frame \<Rightarrow> u32 \<Rightarrow> u32 list \<Rightarrow> vcpu_state option" where
  "enter_guest st fr target args =
    (let sp' = rsp (vc_regs st) - 4 * (1 + of_nat (length args)) in
     do { g \<leftarrow> write_dwords (vc_guest st) (ucast sp')
                 ((0, CALLBACK_RET_TRAP) # zip (map (\<lambda>i. 4 * of_nat i) [1..<Suc (length args)]) args);
          Some (st\<lparr> vc_guest := g, vc_regs := (vc_regs st)\<lparr> rsp := sp', rip := ucast target \<rparr>,
                    vc_frames := fr # vc_frames st \<rparr>) })"

definition call_guest :: "vcpu_state \<Rightarrow> frame_kind \<Rightarrow> u32 \<Rightarrow> u32 list \<Rightarrow> vcpu_state option" where
  "call_guest st k target args =
    do { ra \<leftarrow> ret_addr st;
         enter_guest st \<lparr> cf_rip = ucast ra, cf_rsp = rsp (vc_regs st) + 4, cf_kind = k \<rparr> target args }"

text \<open>The exception dispatch of \<open>SEH\<close>, on the stack of all frames.\<close>

definition exc_callback_frame :: "exc_frame \<Rightarrow> callback_frame" where
  "exc_callback_frame f = \<lparr> cf_rip = saved_rip f, cf_rsp = saved_rsp f,
     cf_kind = ExceptionHandler (fr_saved f) (fr_next_handler f) (fr_exc_report f) (fr_ctx_record f) (fr_guest_allocs f) \<rparr>"

definition dispatch_exception :: "vcpu_state \<Rightarrow> api_result \<Rightarrow> vcpu_state option" where
  "dispatch_exception st d =
    do { (g, regs, fs) \<leftarrow> setup_exception_dispatch (vc_guest st) (vc_regs st) [] d;
         Some (st\<lparr> vc_guest := g, vc_regs := regs, vc_frames := map exc_callback_frame fs @ vc_frames st \<rparr>) }"

section \<open>The modal loop of a dialog\<close>

definition dlg_return :: "vcpu_state \<Rightarrow> u64 \<Rightarrow> u64 \<Rightarrow> u32 \<Rightarrow> vcpu_state" where
  "dlg_return st ip sp res = st\<lparr> vc_regs := set_ret ip sp (ucast res) (vc_regs st) \<rparr>"

type_synonym dlg_pass = "bool \<times> (window_manager \<Rightarrow> window_manager)"

fun dlg_loop :: "vcpu_state \<Rightarrow> u32 \<Rightarrow> u32 \<Rightarrow> u32 \<Rightarrow> u64 \<Rightarrow> u64 \<Rightarrow> dlg_pass list \<Rightarrow> vcpu_state option" where
  "dlg_loop st dproc hdlg q ip sp [] = None"
| "dlg_loop st dproc hdlg q ip sp ((down, others) # obs) =
    (let wm = others (vc_wm st); st1 = st\<lparr> vc_wm := wm \<rparr> in
     case wm_windows wm hdlg of
       None \<Rightarrow> Some (dlg_return st1 ip sp DID_CANCEL)
     | Some w \<Rightarrow>
         if w_dismissed w then Some (dlg_return st1 ip sp (w_dialog_result w))
         else if down then Some (dlg_return st1 ip sp DID_CANCEL)
         else
           (case wm_msg_queues wm q of
              Some (m # rest) \<Rightarrow>
                let wm1 = wm\<lparr> wm_msg_queues := (wm_msg_queues wm)(q \<mapsto> rest) \<rparr>; st2 = st\<lparr> vc_wm := wm1 \<rparr> in
                if om_msg m = WM_QUIT then Some (dlg_return st2 ip sp DID_CANCEL)
                else if om_msg m = WM_PAINT then
                  do { wm2 \<leftarrow> dispatch_paint wm1 (om_hwnd m);
                       dlg_loop (st\<lparr> vc_wm := wm2 \<rparr>) dproc hdlg q ip sp obs }
                else enter_guest st2 \<lparr> cf_rip = ip, cf_rsp = sp, cf_kind = DlgLoop dproc hdlg q \<rparr> dproc
                       [om_hwnd m, om_msg m, om_mp1 m, om_mp2 m]
            | _ \<Rightarrow> dlg_loop st1 dproc hdlg q ip sp obs))"

definition setup_dlg_dispatch :: "vcpu_state \<Rightarrow> u32 \<Rightarrow> u32 \<Rightarrow> u32 \<Rightarrow> u64 \<Rightarrow> u64 \<Rightarrow> dlg_pass list \<Rightarrow> vcpu_state option" where
  "setup_dlg_dispatch st dproc hdlg q ip sp obs =
    (if wm_msg_queues (vc_wm st) q = None then Some (dlg_return st ip sp DID_CANCEL)
     else dlg_loop st dproc hdlg q ip sp obs)"

section \<open>What an API result does\<close>

fun complete_call :: "vcpu_state \<Rightarrow> u32 \<Rightarrow> dlg_pass list \<Rightarrow> api_result \<Rightarrow> vcpu_state option" where
  "complete_call st ordinal obs (Normal res) = normal_return st ordinal res"
| "complete_call st ordinal obs (Callback pfn hw m p1 p2) = call_guest st PmCallback pfn [hw, m, p1, p2]"
| "complete_call st ordinal obs (WmCreateCallback pfn hw frame) =
    call_guest st (WmCreate frame) pfn [hw, WM_CREATE, 0, 0]"
| "complete_call st ordinal obs (DlgRunLoop pfn hdlg q) =
    do { ra \<leftarrow> ret_addr st;
         setup_dlg_dispatch st pfn hdlg q (ucast ra) (rsp (vc_regs st) + 4) obs }"
| "complete_call st ordinal obs (ExceptionDispatch handler report reg ctx sv nxt allocs) =
    do { ra \<leftarrow> ret_addr st;
         let sp' = rsp (vc_regs st) + 4;
         g \<leftarrow> write_dwords (vc_guest st) ctx [(CTX_EIP, ra), (CTX_ESP, ucast sp')];
         dispatch_exception (st\<lparr> vc_guest := g \<rparr>)
           (ExceptionDispatch handler report reg ctx (sv\<lparr> fc_eip := ra, fc_esp := ucast sp' \<rparr>) nxt allocs) }"
| "complete_call st ordinal obs (CallGuest target hm p_hmod bases) =
    call_guest st (if bases = [] then InitTerm hm p_hmod else InitTermUnload hm bases) target
      [hm, if bases = [] then 0 else 1]"

section \<open>Returning from the guest\<close>

definition vc_out :: "vcpu_state \<Rightarrow> u32 \<Rightarrow> u32 \<Rightarrow> vcpu_state" where
  "vc_out st p v = (if p \<noteq> 0 then st\<lparr> vc_guest := guest_write_ign (vc_guest st) p v \<rparr> else st)"

definition vc_free :: "vcpu_state \<Rightarrow> u32 list \<Rightarrow> vcpu_state" where
  "vc_free st bases = st\<lparr> vc_mem := foldl (\<lambda>mm b. snd (mm_free mm b)) (vc_mem st) bases \<rparr>"

definition exc_return ::
    "vcpu_state \<Rightarrow> fault_context \<Rightarrow> u32 \<Rightarrow> u32 \<Rightarrow> u32 \<Rightarrow> u32 list \<Rightarrow> vcpu_state option" where
  "exc_return st sv nxt report ctx allocs =
    (let result = (ucast (rax (vc_regs st)) :: u32) in
     if result = XCPT_CONTINUE_EXECUTION then
       let c = read_context_record (vc_guest st) ctx in
       Some ((vc_free st allocs)\<lparr> vc_regs := (vc_regs st)\<lparr> rip := ucast (fc_eip c), rsp := ucast (fc_esp c),
         rax := ucast (fc_eax c), rbx := ucast (fc_ebx c), rcx := ucast (fc_ecx c), rdx := ucast (fc_edx c),
         rsi := ucast (fc_esi c), rdi := ucast (fc_edi c), rbp := ucast (fc_ebp c), rflags := ucast (fc_eflags c) \<rparr> \<rparr>)
     else if nxt = XCPT_CHAIN_END then Some ((vc_free st allocs)\<lparr> vc_exit := Some 1, vc_stopped := True \<rparr>)
     else
       let handler_fn = read_or (vc_guest st) (nxt + XERREC_HANDLER) 0;
           next_next = read_or (vc_guest st) (nxt + XERREC_PREV) XCPT_CHAIN_END in
       if handler_fn = 0 then Some ((vc_free st allocs)\<lparr> vc_exit := Some 1, vc_stopped := True \<rparr>)
       else dispatch_exception st (ExceptionDispatch handler_fn report nxt ctx sv next_next allocs))"

text \<open>A breakpoint at \<open>CALLBACK_RET_TRAP\<close>; with no frame the thread ends.\<close>

definition callback_return :: "vcpu_state \<Rightarrow> dlg_pass list \<Rightarrow> vcpu_state option" where
  "callback_return st obs =
    (case vc_frames st of
       [] \<Rightarrow> Some (st\<lparr> vc_stopped := True \<rparr>)
     | fr # frs \<Rightarrow>
         let st1 = st\<lparr> vc_frames := frs \<rparr>;
             result = (ucast (rax (vc_regs st)) :: u32);
             back = (\<lambda>s v. s\<lparr> vc_regs := set_ret (cf_rip fr) (cf_rsp fr) (ucast (v :: u32)) (vc_regs s) \<rparr>) in
         (case cf_kind fr of
            PmCallback \<Rightarrow> Some (back st1 result)
          | WmCreate frame \<Rightarrow> Some (back st1 frame)
          | InitTerm hm p_hmod \<Rightarrow>
              if result \<noteq> 0 then Some (back (vc_out st1 p_hmod hm) NO_ERROR)
              else Some (back (vc_out st1 p_hmod 0) ERROR_INIT_ROUTINE_FAILED)
          | InitTermUnload hm bases \<Rightarrow> Some (back (vc_free st1 bases) NO_ERROR)
          | ExceptionHandler sv nxt report ctx allocs \<Rightarrow> exc_return st1 sv nxt report ctx allocs
          | DlgLoop dproc hdlg q \<Rightarrow>
              (case wm_windows (vc_wm st1) hdlg of
                 Some w \<Rightarrow>
                   if w_dismissed w then
                     Some (back (st1\<lparr> vc_wm := gui_send (PresentBuffer hdlg) (z_remove (vc_wm st1) hdlg) \<rparr>) (w_dialog_result w))
                   else setup_dlg_dispatch st1 dproc hdlg q (cf_rip fr) (cf_rsp fr) obs
               | None \<Rightarrow> setup_dlg_dispatch st1 dproc hdlg q (cf_rip fr) (cf_rsp fr) obs)))"

end
