(* ===== verification/PM_Tree.thy ===== *)
theory PM_Tree
  imports PM_Dispatch
begin

unbundle bit_operations_syntax

text \<open>
  The window tree over all calls of the Presentation Manager. A window keeps the handle it is stored
  under, its parent has a smaller handle, and the stacking order has no duplicates: every call keeps this
  as long as a window is created under a parent that exists already (or a pseudo handle below the first
  one), and under it the walks from a window up to its frame end.
\<close>

section \<open>The invariant\<close>

definition skeleton :: "window_manager \<Rightarrow> u32 \<Rightarrow> (u32 \<times> u32) option" where
  "skeleton wm h = map_option (\<lambda>w. (w_handle w, w_parent w)) (wm_windows wm h)"

definition same_tree :: "window_manager \<Rightarrow> window_manager \<Rightarrow> bool" where
  "same_tree wm wm' \<longleftrightarrow> skeleton wm' = skeleton wm \<and> wm_next_hwnd wm' = wm_next_hwnd wm \<and>
     (distinct (wm_z_order wm) \<longrightarrow> distinct (wm_z_order wm'))"

definition tree_ok :: "window_manager \<Rightarrow> bool" where
  "tree_ok wm \<longleftrightarrow> distinct (wm_z_order wm) \<and>
     (\<forall>h hd p. skeleton wm h = Some (hd, p) \<longrightarrow> hd = h \<and> h < wm_next_hwnd wm \<and> p < h)"

named_theorems tree_keeps

lemma same_tree_refl [tree_keeps]: "same_tree wm wm"
  by (simp add: same_tree_def)

lemma same_tree_trans: "same_tree a b \<Longrightarrow> same_tree b c \<Longrightarrow> same_tree a c"
  by (simp add: same_tree_def)

lemma same_tree_ok: "same_tree wm wm' \<Longrightarrow> tree_ok wm \<Longrightarrow> tree_ok wm'"
  by (simp add: same_tree_def tree_ok_def)

text \<open>Changes that leave windows, the next handle and the stacking order alone.\<close>

lemma same_tree_fields:
  "wm_windows wm' = wm_windows wm \<Longrightarrow> wm_next_hwnd wm' = wm_next_hwnd wm \<Longrightarrow> wm_z_order wm' = wm_z_order wm \<Longrightarrow>
   same_tree wm wm'"
  by (simp add: same_tree_def skeleton_def fun_eq_iff)

lemma update_window_skeleton:
  "(\<And>w. w_handle (f w) = w_handle w \<and> w_parent (f w) = w_parent w) \<Longrightarrow> skeleton (update_window wm h f) = skeleton wm"
  by (auto simp: skeleton_def update_window_def fun_eq_iff split: option.splits)

lemma update_window_others [simp]:
  "wm_next_hwnd (update_window wm h f) = wm_next_hwnd wm" "wm_z_order (update_window wm h f) = wm_z_order wm"
  "wm_msg_queues (update_window wm h f) = wm_msg_queues wm" "wm_frame_to_client (update_window wm h f) = wm_frame_to_client wm"
  by (simp_all add: update_window_def split: option.splits)

lemma same_tree_update [tree_keeps]:
  "(\<And>w. w_handle (f w) = w_handle w \<and> w_parent (f w) = w_parent w) \<Longrightarrow> same_tree wm (update_window wm h f)"
  by (simp add: same_tree_def update_window_skeleton)

lemma gui_send_fields [simp]:
  "wm_windows (gui_send g wm) = wm_windows wm" "wm_next_hwnd (gui_send g wm) = wm_next_hwnd wm"
  "wm_z_order (gui_send g wm) = wm_z_order wm" "wm_msg_queues (gui_send g wm) = wm_msg_queues wm"
  "wm_frame_to_client (gui_send g wm) = wm_frame_to_client wm"
  by (simp_all add: gui_send_def)

lemma gui_send_all_fields [simp]:
  "wm_windows (gui_send_all gs wm) = wm_windows wm" "wm_next_hwnd (gui_send_all gs wm) = wm_next_hwnd wm"
  "wm_z_order (gui_send_all gs wm) = wm_z_order wm" "wm_msg_queues (gui_send_all gs wm) = wm_msg_queues wm"
  "wm_frame_to_client (gui_send_all gs wm) = wm_frame_to_client wm"
  by (induction gs arbitrary: wm) (simp_all add: gui_send_all_def)

lemma push_message_fields [simp]:
  "wm_windows (push_message wm q m) = wm_windows wm" "wm_next_hwnd (push_message wm q m) = wm_next_hwnd wm"
  "wm_z_order (push_message wm q m) = wm_z_order wm" "wm_frame_to_client (push_message wm q m) = wm_frame_to_client wm"
  "wm_tid_to_hmq (push_message wm q m) = wm_tid_to_hmq wm"
  by (simp_all add: push_message_def split: option.splits)

lemma post_to_fields [simp]:
  "wm_windows (post_to it wm hw m) = wm_windows wm" "wm_next_hwnd (post_to it wm hw m) = wm_next_hwnd wm"
  "wm_z_order (post_to it wm hw m) = wm_z_order wm" "wm_frame_to_client (post_to it wm hw m) = wm_frame_to_client wm"
  by (simp_all add: post_to_def split: option.splits)

lemma z_fields [simp]:
  "wm_windows (z_push_top wm f) = wm_windows wm" "wm_next_hwnd (z_push_top wm f) = wm_next_hwnd wm"
  "wm_windows (z_remove wm f) = wm_windows wm" "wm_next_hwnd (z_remove wm f) = wm_next_hwnd wm"
  "wm_windows (z_push_bottom wm f) = wm_windows wm" "wm_next_hwnd (z_push_bottom wm f) = wm_next_hwnd wm"
  "wm_windows (z_insert_behind wm f b) = wm_windows wm" "wm_next_hwnd (z_insert_behind wm f b) = wm_next_hwnd wm"
  by (simp_all add: z_push_top_def z_remove_def z_push_bottom_def z_insert_behind_def mark_all_dirty_def Let_def)

lemma z_push_top_order: "wm_z_order (z_push_top wm f) = retain_not f (wm_z_order wm) @ [f]"
proof -
  have "f \<notin> set zs \<Longrightarrow> retain_not f zs = zs" for zs by (simp add: retain_not_def filter_id_conv) auto
  then show ?thesis by (simp add: z_push_top_def mark_all_dirty_def)
qed

lemma z_order_after:
  "wm_z_order (z_remove wm f) = retain_not f (wm_z_order wm)"
  "wm_z_order (z_push_bottom wm f) = f # retain_not f (wm_z_order wm)"
  by (simp_all add: z_remove_def z_push_bottom_def mark_all_dirty_def Let_def)

lemma z_insert_behind_order:
  "wm_z_order (z_insert_behind wm f b) =
    (let zs = retain_not f (wm_z_order wm) in
     if b \<in> set zs then takeWhile (\<lambda>x. x \<noteq> b) zs @ f # dropWhile (\<lambda>x. x \<noteq> b) zs else zs @ [f])"
  by (simp add: z_insert_behind_def mark_all_dirty_def Let_def)

lemma distinct_insert_at_split:
  assumes "distinct zs" "f \<notin> set zs"
  shows "distinct (takeWhile P zs @ f # dropWhile P zs)"
proof -
  have "distinct (takeWhile P zs @ dropWhile P zs)" "set (takeWhile P zs @ dropWhile P zs) = set zs"
    using assms(1) by simp_all
  then show ?thesis using assms(2) by (auto simp: distinct_append simp del: takeWhile_dropWhile_id)
qed

lemma retain_not_distinct: "distinct zs \<Longrightarrow> distinct (retain_not f zs)" "f \<notin> set (retain_not f zs)"
  by (simp_all add: retain_not_def)

lemma z_insert_distinct: "distinct (wm_z_order wm) \<Longrightarrow> distinct (wm_z_order (z_insert_behind wm f b))"
  using distinct_insert_at_split [OF retain_not_distinct]
  by (simp add: z_insert_behind_order Let_def retain_not_distinct del: distinct_append distinct.simps)
    (simp add: retain_not_distinct)

lemma same_tree_z [tree_keeps]:
  "same_tree wm (z_push_top wm f)" "same_tree wm (z_remove wm f)" "same_tree wm (z_push_bottom wm f)"
  "same_tree wm (z_insert_behind wm f b)"
  using z_insert_distinct
  by (simp_all add: same_tree_def skeleton_def fun_eq_iff z_push_top_order z_order_after retain_not_distinct)

section \<open>Calls that create no window\<close>

definition keeps :: "pm_state \<Rightarrow> pm_result \<Rightarrow> bool" where
  "keeps st r \<longleftrightarrow> (case r of Some (v, st') \<Rightarrow> same_tree (pm_wm st) (pm_wm st') | None \<Rightarrow> True)"

lemma keeps_ok: "same_tree (pm_wm st) (pm_wm st') \<Longrightarrow> keeps st (pm_ok v st')"
  by (simp add: keeps_def pm_ok_def)

lemma keeps_some: "same_tree (pm_wm st) (pm_wm st') \<Longrightarrow> keeps st (Some (v, st'))"
  by (simp add: keeps_def)

lemma keeps_args: "(\<And>a. stack_args (pm_guest st) esp offs = Some a \<Longrightarrow> keeps st (k a)) \<Longrightarrow> keeps st (with_args st esp offs k)"
  by (cases "stack_args (pm_guest st) esp offs") (simp_all add: keeps_def with_args_def)

lemma pm_set_wm [simp]: "pm_wm (pm_set st wm) = wm" "pm_wm (pm_write st p v) = pm_wm st" "pm_wm (pm_upd st f) = f (pm_wm st)"
  "pm_guest (pm_set st wm) = pm_guest st"
  by (simp_all add: pm_set_def pm_write_def pm_upd_def)

lemma set_open_item_tree: "same_tree wm (set_open_item wm hw v)"
  by (simp add: set_open_item_def same_tree_update)

lemma dispatch_paint_tree: "dispatch_paint wm hw = Some wm' \<Longrightarrow> same_tree wm wm'"
  by (auto simp: dispatch_paint_def same_tree_fields split: bind_splits option.splits prod.splits)

lemma paint_after_open: "dispatch_paint (set_open_item wm hw v) hw = Some wm' \<Longrightarrow> same_tree wm wm'"
  using same_tree_trans [OF set_open_item_tree dispatch_paint_tree] by blast

lemma post_menu_tree: "same_tree wm (post_menu_command it wm p c)"
  by (simp add: post_menu_command_def Let_def same_tree_fields)

lemma menu_click_tree: "menu_click it wm hw x y cy w p1 = Some wm' \<Longrightarrow> same_tree wm wm'"
  using same_tree_refl
  by (auto simp: menu_click_def Let_def dest: paint_after_open
      intro: same_tree_trans [OF paint_after_open post_menu_tree] split: if_splits option.splits bind_splits)

lemma dialog_click_tree: "same_tree wm (dialog_click it wm hw p1)"
  by (simp add: dialog_click_def same_tree_fields split: option.splits)

lemma listbox_insert_tree: "listbox_insert wm hw p1 txt = (r, wm') \<Longrightarrow> same_tree wm wm'"
  by (auto simp: listbox_insert_def Let_def same_tree_refl same_tree_update split: option.splits if_splits)

lemma builtin_tree:
  "dispatch_builtin_control rs it st hw m p1 p2 = Some (r, st') \<Longrightarrow> same_tree (pm_wm st) (pm_wm st')"
  by (auto simp: dispatch_builtin_control_def Let_def same_tree_refl same_tree_fields dialog_click_tree
      dest: dispatch_paint_tree menu_click_tree paint_after_open listbox_insert_tree
      split: bind_splits option.splits prod.splits if_splits)

lemma keeps_control [tree_keeps]: "keeps st (pm_control E st hw m p1 p2)"
  by (auto simp: keeps_def pm_control_def dest: builtin_tree split: option.splits)

lemma same_tree_wrap [simp]:
  "same_tree wm (gui_send g x) \<longleftrightarrow> same_tree wm x" "same_tree wm (gui_send_all gs x) \<longleftrightarrow> same_tree wm x"
  "same_tree wm (mark_dirty x h) \<longleftrightarrow> same_tree wm x" "same_tree wm (push_message x q m) \<longleftrightarrow> same_tree wm x"
  "same_tree wm (post_to it x h m) \<longleftrightarrow> same_tree wm x" "same_tree wm (x\<lparr> wm_frame_to_client := c \<rparr>) \<longleftrightarrow> same_tree wm x"
  by (simp_all add: same_tree_def skeleton_def fun_eq_iff mark_dirty_def)

lemma client_to_frame_tree [tree_keeps]: "same_tree wm (stop_all_timers wm)"
  by (simp add: stop_all_timers_def same_tree_fields)

lemma keeps_simple:
  "keeps st (win_create_msg_queue st tid)" "keeps st (win_register_class E st nm pfn style)"
  "keeps st (win_destroy_window st hw)" "keeps st (win_show_window st hw f)" "keeps st (win_query_window_rect st hw p)"
  "keeps st (win_query_window_pos st hw p)" "keeps st (win_subclass_window st hw pfn)" "keeps st (win_enable_window E st hw f)"
  "keeps st (win_is_window_enabled st hw)" "keeps st (win_query_window st hw i)" "keeps st (win_set_window_text E st hw p)"
  "keeps st (win_query_window_text E st hw c p)" "keeps st (win_query_dlg_item_text E st hw i c p)"
  "keeps st (win_set_dlg_item_text E st hw i p)" "keeps st (win_set_window_ulong st hw i v)"
  "keeps st (win_set_window_ushort st hw i v)" "keeps st (win_query_window_ulong st hw i)"
  "keeps st (win_query_window_ushort st hw i)" "keeps st (win_query_sys_value st i)"
proof -
  show "keeps st (win_create_msg_queue st tid)"
    by (auto simp: win_create_msg_queue_def create_mq_def Let_def intro!: keeps_ok same_tree_fields)
  show "keeps st (win_register_class E st nm pfn style)"
    by (auto simp: win_register_class_def register_class_def intro!: keeps_ok same_tree_fields)
  show "keeps st (win_destroy_window st hw)"
    by (auto simp: win_destroy_window_def Let_def same_tree_refl same_tree_z intro!: keeps_ok)
  show "keeps st (win_show_window st hw f)" "keeps st (win_set_window_text E st hw p)"
    by (auto simp: win_show_window_def win_set_window_text_def Let_def same_tree_update intro!: keeps_ok)
  show "keeps st (win_enable_window E st hw f)"
    by (auto simp: win_enable_window_def Let_def same_tree_update intro!: keeps_ok)
qed (auto simp: win_query_window_rect_def win_query_window_pos_def win_subclass_window_def win_is_window_enabled_def
    win_query_window_def win_query_window_text_def win_query_dlg_item_text_def put_text_def win_set_dlg_item_text_def
    win_set_window_ulong_def win_set_window_ushort_def win_query_window_ulong_def win_query_window_ushort_def
    win_query_sys_value_def Let_def same_tree_refl same_tree_update intro!: keeps_ok split: option.splits prod.splits)

lemma swp_geometry_skeleton: "w_handle (swp_geometry fl x y cx cy w) = w_handle w \<and> w_parent (swp_geometry fl x y cx cy w) = w_parent w"
  by (simp add: swp_geometry_def Let_def)

lemma keeps_position [tree_keeps]: "keeps st (win_set_window_pos st hw behind x y cx cy fl)"
proof -
  have z: "same_tree wm (swp_zorder wm hw behind fl)" for wm by (simp add: swp_zorder_def tree_keeps)
  have a: "same_tree wm (swp_activate wm hw fl)" for wm
    using same_tree_trans [OF same_tree_fields same_tree_z(1)]
    by (auto simp: swp_activate_def same_tree_refl intro!: same_tree_trans [OF same_tree_fields same_tree_z(1)])
  have "same_tree (pm_wm st) (swp_activate (swp_zorder (update_window (pm_wm st) hw (swp_geometry fl x y cx cy)) hw behind fl) hw fl)"
    by (rule same_tree_trans [OF same_tree_trans [OF same_tree_update z] a]) (rule swp_geometry_skeleton)
  then show ?thesis
    unfolding win_set_window_pos_def Let_def by (intro keeps_ok) (unfold pm_set_wm same_tree_wrap, simp)
qed

lemma keeps_active [tree_keeps]: "keeps st (win_set_active_window E st hw)"
proof -
  have "same_tree wm (z_push_top (wm\<lparr> wm_focused_hwnd := f \<rparr>) f)" for wm f
    by (rule same_tree_trans [OF same_tree_fields same_tree_z(1)]) simp_all
  then show ?thesis by (simp add: win_set_active_window_def Let_def same_tree_refl keeps_ok)
qed

lemma write_qmsg_wm [simp]: "pm_wm (write_qmsg st p m) = pm_wm st"
  by (simp add: write_qmsg_def)

lemma keeps_messages:
  "keeps st (win_get_msg E st tid p)" "keeps st (win_dispatch_msg E st p)" "keeps st (win_post_msg E st hw m p1 p2)"
  "keeps st (win_send_msg E st hw m p1 p2)" "keeps st (win_send_dlg_item_msg E st hw i m p1 p2)"
  "keeps st (win_def_window_proc E st hw m p1)" "keeps st (win_invalidate_rect E st hw)"
  "keeps st (win_translate_accel st hw p)" "keeps st (win_start_timer st hw i)" "keeps st (win_stop_timer st hw i)"
proof -
  show "keeps st (win_get_msg E st tid p)"
    by (auto simp: win_get_msg_def Let_def keeps_def pm_ok_def same_tree_refl same_tree_fields split: option.splits bind_splits)
  show s: "keeps st (win_send_msg E st hw m p1 p2)" for hw
    by (auto simp: win_send_msg_def Let_def same_tree_refl keeps_control intro!: keeps_some)
  show "keeps st (win_send_dlg_item_msg E st hw i m p1 p2)"
    using s by (auto simp: win_send_dlg_item_msg_def same_tree_refl intro!: keeps_ok split: option.splits)
qed (auto simp: win_dispatch_msg_def win_post_msg_def win_def_window_proc_def post_wm_quit_def win_invalidate_rect_def
    win_translate_accel_def win_start_timer_def win_stop_timer_def mark_dirty_def Let_def same_tree_refl same_tree_fields
    keeps_control intro!: keeps_ok keeps_some split: option.splits prod.splits)

lemma keeps_painting:
  "keeps st (win_begin_paint st hw)" "keeps st (win_end_paint E st h)" "keeps st (win_update_window E st hw)"
  "keeps st (win_fill_rect E st h p c)"
  by (auto simp: win_begin_paint_def create_ps_def win_end_paint_def win_update_window_def present_def win_fill_rect_def
      Let_def same_tree_fields intro!: keeps_ok)

lemma keeps_resources:
  "keeps st (win_set_menu st hw m)" "keeps st (win_process_dlg E st hw)" "keeps st (win_dismiss_dlg st hw r)"
  "keeps st (win_def_dlg_proc E st hw m p1 p2)" "keeps st (win_load_accel_table st i)" "keeps st (win_load_string st i c p)"
  "keeps st (win_set_clipbrd_data E st d f)" "keeps st (win_query_clipbrd_data st f)" "keeps st (win_set_capture st hw)"
  "keeps st (win_message_box E st a b c)"
proof -
  show "keeps st (win_load_accel_table st i)"
    by (auto simp: win_load_accel_table_def add_accel_table_def Let_def same_tree_refl same_tree_fields
        intro!: keeps_ok split: option.splits)
  show "keeps st (win_load_string st i c p)"
    by (auto simp: win_load_string_def Let_def same_tree_refl intro!: keeps_ok split: option.splits)
qed (auto simp: win_set_menu_def win_process_dlg_def win_dismiss_dlg_def dismiss_def win_def_dlg_proc_def
    win_set_clipbrd_data_def win_query_clipbrd_data_def win_set_capture_def win_message_box_def Let_def same_tree_refl
    same_tree_update same_tree_fields keeps_control intro!: keeps_ok keeps_some split: option.splits)

section \<open>Calls that create windows\<close>

definition room :: "nat \<Rightarrow> window_manager \<Rightarrow> bool" where
  "room n wm \<longleftrightarrow> unat (wm_next_hwnd wm) + n < 2 ^ 32"

lemma room_mono: "room n wm \<Longrightarrow> k \<le> n \<Longrightarrow> room k wm"
  by (simp add: room_def)

lemma next_handle: "room (Suc n) wm \<Longrightarrow> unat (wm_next_hwnd wm + 1) = Suc (unat (wm_next_hwnd wm))"
  by (simp add: room_def unat_word_ariths)

lemma create_window_skeleton:
  "create_window wm cls parent q = (h, wm') \<Longrightarrow> h = wm_next_hwnd wm \<and>
    skeleton wm' = (skeleton wm)(h \<mapsto> (h, parent)) \<and> wm_next_hwnd wm' = h + 1 \<and> wm_z_order wm' = wm_z_order wm"
  by (auto simp: create_window_def Let_def skeleton_def update_window_def new_window_def fun_eq_iff split: option.splits)

lemma create_window_ok:
  assumes "create_window wm cls parent q = (h, wm')" "tree_ok wm" "parent < wm_next_hwnd wm" "room (Suc n) wm"
  shows "tree_ok wm' \<and> room n wm' \<and> h < wm_next_hwnd wm' \<and> parent < wm_next_hwnd wm'"
proof -
  note c = create_window_skeleton [OF assms(1)]
  have lt: "x < wm_next_hwnd wm + 1 \<longleftrightarrow> x \<le> wm_next_hwnd wm" for x
    using next_handle [OF assms(4)] by (simp add: word_less_nat_alt word_le_nat_alt less_Suc_eq_le)
  have "tree_ok wm'"
    using c assms(2,3) lt by (auto simp: tree_ok_def intro: order.strict_implies_order)
  moreover have "room n wm'" using c assms(4) next_handle [OF assms(4)] by (simp add: room_def)
  ultimately show ?thesis using c lt assms(3) by (simp add: order.strict_implies_order)
qed

lemma room_same: "same_tree wm wm' \<Longrightarrow> room n wm' = room n wm"
  by (simp add: room_def same_tree_def)

text \<open>Results of a call that keep the tree.\<close>

definition tree_res :: "pm_result \<Rightarrow> bool" where
  "tree_res r \<longleftrightarrow> (case r of Some (v, st') \<Rightarrow> tree_ok (pm_wm st') | None \<Rightarrow> True)"

lemma tree_res_ok: "tree_ok (pm_wm st') \<Longrightarrow> tree_res (pm_ok v st')"
  by (simp add: tree_res_def pm_ok_def)

lemma keeps_tree_res: "keeps st r \<Longrightarrow> tree_ok (pm_wm st) \<Longrightarrow> tree_res r"
  by (auto simp: keeps_def tree_res_def dest: same_tree_ok split: option.splits)

lemma tree_ok_wrap [simp]:
  "tree_ok (gui_send g x) = tree_ok x" "tree_ok (gui_send_all gs x) = tree_ok x" "tree_ok (mark_dirty x h) = tree_ok x"
  "tree_ok (push_message x q m) = tree_ok x" "tree_ok (post_to it x h m) = tree_ok x"
  "tree_ok (x\<lparr> wm_frame_to_client := c \<rparr>) = tree_ok x" "tree_ok (x\<lparr> wm_focused_hwnd := f \<rparr>) = tree_ok x"
  by (simp_all add: tree_ok_def skeleton_def mark_dirty_def)

lemma tree_ok_update: "tree_ok x \<Longrightarrow> (\<And>w. w_handle (f w) = w_handle w \<and> w_parent (f w) = w_parent w) \<Longrightarrow> tree_ok (update_window x h f)"
  using same_tree_ok [OF same_tree_update] by blast

lemma tree_ok_top: "tree_ok x \<Longrightarrow> tree_ok (z_push_top x f)"
  using same_tree_ok [OF same_tree_z(1)] .

lemma std_windows_ok:
  assumes "std_windows st tid cls title parent style fcf = (hf, hc, wm')" "tree_ok (pm_wm st)"
    "parent < wm_next_hwnd (pm_wm st)" "room 2 (pm_wm st)"
  shows "tree_ok wm'"
proof -
  let ?q = "hmq_of_tid (pm_wm st) tid"
  obtain h1 wm1 where c1: "create_window (pm_wm st) cls parent ?q = (h1, wm1)" by (cases "create_window (pm_wm st) cls parent ?q")
  obtain h2 wm2 where c2: "create_window wm1 cls h1 ?q = (h2, wm2)" by (cases "create_window wm1 cls h1 ?q")
  have 1: "tree_ok wm1" "room (Suc 0) wm1" "h1 < wm_next_hwnd wm1"
    using create_window_ok [OF c1 assms(2,3), of "Suc 0"] assms(4) by (simp_all add: numeral_2_eq_2)
  have "tree_ok wm2" using create_window_ok [OF c2 1(1) 1(3) 1(2)] by blast
  then show ?thesis
    using assms(1) c1 c2 by (auto simp: std_windows_def Let_def tree_ok_top tree_ok_update)
qed

lemma create_std_ok:
  assumes "tree_ok (pm_wm st)" "parent < wm_next_hwnd (pm_wm st)" "room 2 (pm_wm st)"
  shows "tree_res (win_create_std_window E st tid parent style pfc pc pt ph)"
  using std_windows_ok [OF _ assms]
  by (auto simp: win_create_std_window_def Let_def tree_res_def pm_ok_def split: prod.splits)

lemma create_win_ok:
  assumes "tree_ok (pm_wm st)" "parent < wm_next_hwnd (pm_wm st)" "room 2 (pm_wm st)"
  shows "tree_res (win_create_window E st tid parent pc pn fl pos wid)"
  using create_window_ok [OF _ assms(1,2), of _ _ _ _ 1] assms(3)
  by (auto simp: win_create_window_def Let_def tree_res_def pm_ok_def tree_ok_update numeral_2_eq_2 split: prod.splits)

lemma create_menu_ok:
  assumes "tree_ok (pm_wm st)" "parent < wm_next_hwnd (pm_wm st)" "room 2 (pm_wm st)"
  shows "tree_res (win_create_menu st parent p)" "tree_res (win_load_menu E st parent i)"
  using create_window_ok [OF _ assms(1,2), of _ _ _ _ 1] assms(3)
  by (auto simp: win_create_menu_def win_load_menu_def Let_def tree_res_def pm_ok_def tree_ok_update numeral_2_eq_2
      split: prod.splits bind_splits option.splits)

lemma dlg_items_length: "parse_dlg_items g a sz e off n = Some its \<Longrightarrow> length its \<le> n"
  by (induction n arbitrary: off its) (auto simp: Let_def split: if_splits bind_splits)

lemma dlg_template_length: "parse_dlg_template g a sz = Some (Some t) \<Longrightarrow> length (dt_items t) < 65536"
  by (auto simp: parse_dlg_template_def Let_def split: if_splits bind_splits dest!: dlg_items_length
      intro: le_less_trans [OF _ unat_u16_lt])

lemma dlg_items_ok:
  "tree_ok wm \<Longrightarrow> h < wm_next_hwnd wm \<Longrightarrow> room (length its) wm \<Longrightarrow> tree_ok (foldl (add_dlg_item h q) wm its)"
proof (induction its arbitrary: wm)
  case (Cons it its)
  let ?cls = "if di_class_name it \<noteq> [] then di_class_name it else ustr ''WC_STATIC''"
  obtain c wm1 where c: "create_window wm ?cls h q = (c, wm1)" by (cases "create_window wm ?cls h q")
  have 1: "tree_ok wm1 \<and> room (length its) wm1 \<and> c < wm_next_hwnd wm1 \<and> h < wm_next_hwnd wm1"
    using create_window_ok [OF c Cons.prems(1,2)] Cons.prems(3) by simp
  have e: "add_dlg_item h q wm it = update_window wm1 c (\<lambda>w. w\<lparr> w_text := di_text it, w_x := i16_to_i32 (di_x it),
       w_y := i16_to_i32 (di_y it), w_cx := i16_to_i32 (di_cx it), w_cy := i16_to_i32 (di_cy it), w_id := ucast (di_id it),
       w_style := di_fl_style it, w_visible := (di_fl_style it AND WS_VISIBLE \<noteq> 0) \<rparr>)"
    using c by (simp add: add_dlg_item_def Let_def)
  show ?case using Cons.IH [of "add_dlg_item h q wm it"] 1 by (simp add: e tree_ok_update room_def)
qed simp

lemma dialog_ok:
  assumes "create_dialog_from_template wm parent pfn q t = (h, wm')" "tree_ok wm" "parent < wm_next_hwnd wm"
    "room (Suc (length (dt_items t))) wm"
  shows "tree_ok wm'"
proof -
  obtain wm1 where c: "create_window wm (ustr ''#Dialog'') parent q = (h, wm1)"
    using assms(1) by (auto simp: create_dialog_from_template_def Let_def split: prod.splits)
  note 1 = create_window_ok [OF c assms(2,3,4)]
  show ?thesis
    using assms(1) c 1 by (auto simp: create_dialog_from_template_def Let_def room_def intro!: dlg_items_ok tree_ok_top tree_ok_update)
qed

lemma load_dialog_ok:
  assumes "load_dialog st tid parent pfn i p = Some (h, q, st')" "tree_ok (pm_wm st)" "parent < wm_next_hwnd (pm_wm st)"
    "room 65536 (pm_wm st)"
  shows "tree_ok (pm_wm st')"
proof -
  have d: "tree_ok wm'" if "create_dialog_from_template (pm_wm st) parent pfn q' t = (h', wm')" "parse_dlg_template g a sz = Some (Some t)"
    for q' t h' wm' g a sz
    using dialog_ok [OF that(1) assms(2,3) room_mono [OF assms(4)]] dlg_template_length [OF that(2)] by simp
  have b: "tree_ok wm'" if "bare_dialog (pm_wm st) parent pfn q' = (h', wm')" for q' h' wm'
    using that create_window_ok [OF _ assms(2,3) room_mono [OF assms(4)], of _ _ _ _ 0]
    by (auto simp: bare_dialog_def tree_ok_update split: prod.splits)
  from assms(1) show ?thesis
    by (auto simp: load_dialog_def Let_def split: bind_splits option.splits prod.splits if_splits intro: d b)
qed

section \<open>All calls\<close>

text \<open>The calls whose first argument is the parent of a new window.\<close>

definition creating :: "u32 \<Rightarrow> bool" where
  "creating ord \<longleftrightarrow> ord \<in> set [908, 909, 907, 778, 923, 924]"

lemma stack_args_hd:
  "stack_args g esp (n # ns) = Some a \<Longrightarrow> gm_read g (ucast (esp + of_nat n)) = Some (a ! 0)"
  by (auto simp: stack_args_def split: option.splits)

lemma tree_res_args: "(\<And>a. stack_args (pm_guest st) esp offs = Some a \<Longrightarrow> tree_res (k a)) \<Longrightarrow> tree_res (with_args st esp offs k)"
  by (cases "stack_args (pm_guest st) esp offs") (simp_all add: tree_res_def with_args_def)

lemma tree_res_keeps_args:
  "(\<And>a. keeps st (k a)) \<Longrightarrow> tree_ok (pm_wm st) \<Longrightarrow> tree_res (with_args st esp offs k)"
  by (rule tree_res_args) (rule keeps_tree_res)

lemmas keeps_all = keeps_simple keeps_position keeps_active keeps_messages keeps_painting keeps_resources

lemma created_args:
  assumes "\<And>p. creating ord \<Longrightarrow> gm_read (pm_guest st) (ucast (esp + 4)) = Some p \<Longrightarrow> p < wm_next_hwnd (pm_wm st)"
    "creating ord" "\<And>a. a ! 0 < wm_next_hwnd (pm_wm st) \<Longrightarrow> tree_res (f a)"
  shows "tree_res (with_args st esp (4 # ns) f)"
  using assms by (intro tree_res_args) (auto dest: stack_args_hd)

lemma windows_tree:
  assumes "pmwin_windows E st tid esp ord = Some r" "tree_ok (pm_wm st)" "room 2 (pm_wm st)"
    "\<And>p. creating ord \<Longrightarrow> gm_read (pm_guest st) (ucast (esp + 4)) = Some p \<Longrightarrow> p < wm_next_hwnd (pm_wm st)"
  shows "tree_res r"
proof (cases "ord = 908 \<or> ord = 909")
  case True
  with assms(1) show ?thesis
    by (auto simp: pmwin_windows_def creating_def intro!: created_args [OF assms(4)] create_std_ok create_win_ok assms(2,3))
next
  case False
  note k = keeps_all [THEN keeps_tree_res [OF _ assms(2)]]
  show ?thesis
    using assms(1) False tree_res_ok [OF assms(2)]
    by (auto simp: pmwin_windows_def k intro!: tree_res_args split: if_splits simp del: One_nat_def)
qed

lemma messages_tree:
  assumes "pmwin_messages E st tid esp ord = Some r" "tree_ok (pm_wm st)"
  shows "tree_res r"
proof -
  note k = keeps_all [THEN keeps_tree_res [OF _ assms(2)]]
  have "tree_res (pm_ok v (pm_upd st (\<lambda>wm. set_window_accel wm h a)))" for v h a
    by (rule keeps_tree_res [OF keeps_ok assms(2)]) (simp add: set_window_accel_def same_tree_fields)
  then show ?thesis
    using assms(1) by (auto simp: pmwin_messages_def k intro!: tree_res_args split: if_splits simp del: One_nat_def)
qed

lemma dialog_calls_ok:
  assumes "tree_ok (pm_wm st)" "parent < wm_next_hwnd (pm_wm st)" "room 65536 (pm_wm st)"
  shows "tree_res (win_dlg_box st tid parent pfn i p)" "tree_res (win_load_dlg st tid parent pfn i p)"
  using load_dialog_ok [OF _ assms] assms(1)
  by (auto simp: win_dlg_box_def win_load_dlg_def tree_res_def pm_ok_def split: bind_splits option.splits)

lemma resources_tree:
  assumes "pmwin_resources E st tid esp ord = Some r" "tree_ok (pm_wm st)" "room 65536 (pm_wm st)"
    "\<And>p. creating ord \<Longrightarrow> gm_read (pm_guest st) (ucast (esp + 4)) = Some p \<Longrightarrow> p < wm_next_hwnd (pm_wm st)"
  shows "tree_res r"
proof (cases "creating ord")
  case True
  have "room 2 (pm_wm st)" by (rule room_mono [OF assms(3)]) simp
  note ok = create_menu_ok [OF assms(2) _ this] dialog_calls_ok [OF assms(2) _ assms(3)]
  have c: "tree_res (with_args st esp (4 # ns) f)" if "\<And>a. a ! 0 < wm_next_hwnd (pm_wm st) \<Longrightarrow> tree_res (f a)" for ns f
    by (rule created_args [OF assms(4) True that])
  from True consider "ord = 908" | "ord = 909" | "ord = 907" | "ord = 778" | "ord = 923" | "ord = 924"
    by (auto simp: creating_def)
  then show ?thesis using assms(1) by cases (auto simp: pmwin_resources_def intro!: c ok)
next
  case False
  note k = keeps_all [THEN keeps_tree_res [OF _ assms(2)]]
  have "tree_res (pm_ok v (pm_upd st (\<lambda>wm. wm\<lparr> wm_clipboard_open := b \<rparr>)))"
    "tree_res (pm_ok v (pm_upd st (\<lambda>wm. wm\<lparr> wm_clipboard := c \<rparr>)))" for v b c
    by (rule keeps_tree_res [OF keeps_ok assms(2)], simp add: same_tree_fields)+
  then show ?thesis
    using assms(1) False tree_res_ok [OF assms(2)]
    by (simp add: pmwin_resources_def creating_def k tree_res_args split: if_split_asm del: One_nat_def)
      (auto intro!: tree_res_args k simp del: One_nat_def)
qed

text \<open>
  C4. Whatever call the guest makes, the window tree stays well formed: handles are the keys they are stored
  under, parents were created before their children and the stacking order has no duplicates, as long as a
  new window is given a parent that exists (or a pseudo handle such as the desktop) and the handles of a
  32-bit counter do not run out.
\<close>

theorem pmwin_keeps_tree:
  assumes "handle_pmwin_call E st tid esp ord = Some (v, st')" "tree_ok (pm_wm st)" "room 65536 (pm_wm st)"
    and "\<And>p. creating ord \<Longrightarrow> gm_read (pm_guest st) (ucast (esp + 4)) = Some p \<Longrightarrow> p < wm_next_hwnd (pm_wm st)"
  shows "tree_ok (pm_wm st')"
proof -
  have "room 2 (pm_wm st)" by (rule room_mono [OF assms(3)]) simp
  note w = windows_tree [OF _ assms(2) this assms(4)] and m = messages_tree [OF _ assms(2)]
    and r = resources_tree [OF _ assms(2,3,4)]
  have "tree_res (handle_pmwin_call E st tid esp ord)"
  proof (cases "pmwin_windows E st tid esp ord")
    case None
    note 1 = this
    show ?thesis
    proof (cases "pmwin_messages E st tid esp ord")
      case None
      with 1 r show ?thesis
        by (cases "pmwin_resources E st tid esp ord") (simp_all add: handle_pmwin_call_def tree_res_ok [OF assms(2)])
    qed (simp add: handle_pmwin_call_def 1 m)
  qed (simp add: handle_pmwin_call_def w)
  then show ?thesis using assms(1) by (simp add: tree_res_def)
qed

text \<open>A first window, created by a thread whose stack holds zeros: class atom 0, no parent.\<close>

definition blank_pm :: pm_state where
  "blank_pm = \<lparr> pm_guest = gm_alloc 64, pm_cp = 437, pm_res = rm_new, pm_wm = wm_new \<rparr>"

definition blank_env :: pm_env where
  "blank_env = \<lparr> pe_rs = latin1_rs, pe_it = (\<lambda>m. []), pe_passes = [], pe_reply = None \<rparr>"

lemma le_word_zeros: "le_word (replicate n 0) = 0"
  by (induction n) simp_all

lemma blank_read: "unat a + 4 \<le> 64 \<Longrightarrow> gm_read (gm_alloc 64) a = Some (0 :: u32)"
  by (simp add: gm_read_def ptr_at_def size_of_def gm_alloc_def gm_size_def drop_replicate min_def le_word_zeros)

lemma tree_ok_new: "tree_ok wm_new" "room 65536 wm_new"
  by (simp_all add: tree_ok_def skeleton_def wm_new_def room_def)

theorem pmwin_keeps_tree_witness:
  "\<exists>v st'. handle_pmwin_call blank_env blank_pm 1 0 909 = Some (v, st') \<and> tree_ok (pm_wm st')"
proof -
  obtain v st' where r: "handle_pmwin_call blank_env blank_pm 1 0 909 = Some (v, st')"
    by (cases "handle_pmwin_call blank_env blank_pm 1 0 909")
      (auto simp: handle_pmwin_call_def pmwin_windows_def with_args_def stack_args_def blank_pm_def blank_read
        win_create_window_def pm_ok_def Let_def split: prod.splits)
  have "p < wm_next_hwnd (pm_wm blank_pm)" if "gm_read (pm_guest blank_pm) (ucast (0 + 4 :: u64)) = Some p" for p
    using that by (simp add: blank_pm_def blank_read wm_new_def)
  from pmwin_keeps_tree [OF r _ _ this] tree_ok_new r show ?thesis by (auto simp: blank_pm_def)
qed

section \<open>Walks\<close>

lemma tree_parent:
  assumes "tree_ok wm" "wm_windows wm h = Some w"
  shows "w_parent w < h"
proof -
  have "skeleton wm h = Some (w_handle w, w_parent w)" using assms(2) by (simp add: skeleton_def)
  then show ?thesis using assms(1) unfolding tree_ok_def by blast
qed

text \<open>The ancestors of a window, described without the walks: \<open>ancestor wm k h\<close> is \<open>k\<close> steps above \<open>h\<close>.\<close>

definition parent_of :: "window_manager \<Rightarrow> u32 \<Rightarrow> u32 option" where
  "parent_of wm h = (case wm_windows wm h of Some w \<Rightarrow> if w_parent w = 0 then None else Some (w_parent w) | None \<Rightarrow> None)"

fun ancestor :: "window_manager \<Rightarrow> nat \<Rightarrow> u32 \<Rightarrow> u32 option" where
  "ancestor wm 0 h = Some h"
| "ancestor wm (Suc k) h = (case parent_of wm h of Some p \<Rightarrow> ancestor wm k p | None \<Rightarrow> None)"

definition is_frame :: "window_manager \<Rightarrow> u32 \<Rightarrow> bool" where
  "is_frame wm h \<longleftrightarrow> h \<in> dom (wm_frame_to_client wm)"

text \<open>The sum of a coordinate over the first \<open>m\<close> windows of the chain that starts at \<open>h\<close>.\<close>

definition chain_sum :: "(os2_window \<Rightarrow> u32) \<Rightarrow> window_manager \<Rightarrow> nat \<Rightarrow> u32 \<Rightarrow> u32" where
  "chain_sum pos wm m h =
    (\<Sum>j\<leftarrow>[0..<m]. case Option.bind (ancestor wm j h) (wm_windows wm) of Some w \<Rightarrow> pos w | None \<Rightarrow> 0)"

lemma chain_sum_Suc:
  "chain_sum pos wm (Suc m) h =
    (case wm_windows wm h of Some w \<Rightarrow> pos w | None \<Rightarrow> 0) +
    (case parent_of wm h of Some p \<Rightarrow> chain_sum pos wm m p | None \<Rightarrow> 0)"
proof -
  have z: "(\<Sum>j\<leftarrow>xs. (0 :: u32)) = 0" for xs :: "nat list" by (induction xs) simp_all
  have "[0..<Suc m] = 0 # map Suc [0..<m]" by (simp only: map_Suc_upt upt_conv_Cons)
  then show ?thesis by (simp add: chain_sum_def o_def z split: option.split)
qed

lemma chain_sum_0 [simp]: "chain_sum pos wm 0 h = 0"
  by (simp add: chain_sum_def)

text \<open>Where both walks stop: at the first proper ancestor that is a frame, or at the end of the chain.\<close>

definition walk_end :: "window_manager \<Rightarrow> u32 \<Rightarrow> nat \<Rightarrow> u32 \<Rightarrow> bool" where
  "walk_end wm h k f \<longleftrightarrow> ancestor wm k h = Some f \<and>
    (\<forall>j a. 0 < j \<and> j < k \<and> ancestor wm j h = Some a \<longrightarrow> \<not> is_frame wm a) \<and>
    (0 < k \<and> is_frame wm f \<or> parent_of wm f = None)"

lemma walk_end_up:
  assumes "walk_end wm p k f" "parent_of wm h = Some p" "\<not> is_frame wm p"
  shows "walk_end wm h (Suc k) f"
proof -
  have "\<not> is_frame wm a" if j: "0 < j" "j < Suc k" "ancestor wm j h = Some a" for j a
  proof (cases j)
    case (Suc i)
    then have i: "i < k" "ancestor wm i p = Some a" using j assms(2) by simp_all
    show ?thesis
    proof (cases "i = 0")
      case False
      then have "0 < i \<and> i < k \<and> ancestor wm i p = Some a" using i by simp
      then show ?thesis using assms(1) unfolding walk_end_def by blast
    qed (use i assms(3) in simp)
  qed (use j in simp)
  then show ?thesis using assms(1,2) unfolding walk_end_def by auto
qed

lemma walks_to_end:
  assumes "tree_ok wm"
  shows "\<exists>k f m. walk_end wm h k f \<and> find_frame_for_hwnd wm h = Some f \<and>
    m = (if 0 < k \<and> is_frame wm f then k else k + 1) \<and>
    (\<forall>ax ay. abs_pos_loop wm ax ay h = Some (ax + chain_sum w_x wm m h, ay + chain_sum w_y wm m h))"
proof (induction h rule: less_induct)
  case (less h)
  show ?case
  proof (cases "wm_windows wm h")
    case None
    then show ?thesis
      by (intro exI [of _ 0] exI [of _ h] exI [of _ "Suc 0"], subst find_frame_for_hwnd.simps, subst abs_pos_loop.simps)
        (simp add: walk_end_def parent_of_def chain_sum_Suc)
  next
    case w: (Some w)
    have p: "parent_of wm h = (if w_parent w = 0 then None else Some (w_parent w))" using w by (simp add: parent_of_def)
    consider "w_parent w = 0" | "w_parent w \<noteq> 0" "is_frame wm (w_parent w)" | "w_parent w \<noteq> 0" "\<not> is_frame wm (w_parent w)"
      by blast
    then show ?thesis
    proof cases
      case 1
      then show ?thesis using w p
        by (intro exI [of _ 0] exI [of _ h] exI [of _ "Suc 0"], subst find_frame_for_hwnd.simps, subst abs_pos_loop.simps)
          (simp add: walk_end_def chain_sum_Suc)
    next
      case 2
      then have "wm_frame_to_client wm (w_parent w) \<noteq> None" by (auto simp: is_frame_def)
      then show ?thesis using w p 2
        by (intro exI [of _ "Suc 0"] exI [of _ "w_parent w"] exI [of _ "Suc 0"], subst find_frame_for_hwnd.simps, subst abs_pos_loop.simps)
          (simp add: walk_end_def chain_sum_Suc)
    next
      case 3
      from less.IH [OF tree_parent [OF assms w]] obtain k f m where ih: "walk_end wm (w_parent w) k f"
        "find_frame_for_hwnd wm (w_parent w) = Some f" "m = (if 0 < k \<and> is_frame wm f then k else k + 1)"
        "\<forall>ax ay. abs_pos_loop wm ax ay (w_parent w) =
          Some (ax + chain_sum w_x wm m (w_parent w), ay + chain_sum w_y wm m (w_parent w))" by blast
      have e: "walk_end wm h (Suc k) f" using walk_end_up [OF ih(1)] p 3 by simp
      have "k = 0 \<Longrightarrow> \<not> is_frame wm f" using ih(1) 3(2) by (auto simp: walk_end_def)
      then have m: "Suc m = (if 0 < Suc k \<and> is_frame wm f then Suc k else Suc k + 1)" using ih(3) by auto
      have nf: "wm_frame_to_client wm (w_parent w) = None" using 3(2) by (auto simp: is_frame_def)
      have "find_frame_for_hwnd wm h = Some f"
        by (subst find_frame_for_hwnd.simps) (simp add: w 3(1) nf ih(2))
      moreover have "\<forall>ax ay. abs_pos_loop wm ax ay h = Some (ax + chain_sum w_x wm (Suc m) h, ay + chain_sum w_y wm (Suc m) h)"
        by (subst abs_pos_loop.simps) (simp add: w p 3(1) nf ih(4) chain_sum_Suc [of _ _ m h] add.assoc)
      ultimately show ?thesis using e m by blast
    qed
  qed
qed


lemma blank_frame:
  "tree_ok (snd (create_window wm_new [] 1 0))" "skeleton (snd (create_window wm_new [] 1 0)) 0x1000 = Some (0x1000, 1)"
proof -
  obtain h wm1 where c: "create_window wm_new [] 1 0 = (h, wm1)" by (cases "create_window wm_new [] 1 0")
  have "room (Suc 0) wm_new" by (simp add: room_def wm_new_def)
  from create_window_ok [OF c tree_ok_new(1) _ this] c
  show "tree_ok (snd (create_window wm_new [] 1 0))" by (simp add: wm_new_def)
  show "skeleton (snd (create_window wm_new [] 1 0)) 0x1000 = Some (0x1000, 1)"
    using create_window_skeleton [OF c] c by (simp add: wm_new_def)
qed


text \<open>
  The walk does not stop at the window itself when its parent is the desktop or another handle that is no
  window: the handle of the parent is returned as the frame.
\<close>

lemma frame_is_missing_parent:
  assumes "wm_windows wm h = Some w" "w_parent w \<noteq> 0" "wm_windows wm (w_parent w) = None" "wm_frame_to_client wm (w_parent w) = None"
  shows "find_frame_for_hwnd wm h = Some (w_parent w)"
  by (subst find_frame_for_hwnd.simps, subst find_frame_for_hwnd.simps) (simp add: assms)

end
