(* ===== verification/Vcpu_Props.thy ===== *)
theory Vcpu_Props
  imports Vcpu_Calls PM_Tree
begin

text \<open>
  Calls into the guest nest: whatever guest code does between a call and its return, the frames below
  are untouched and every frame keeps the address and stack pointer it returns to. Entering and leaving
  the guest leave the caller's stack as a plain return would. The modal loop of a dialog does not give
  back the stack of a message.
\<close>

section \<open>Frames\<close>

text \<open>Dialogs and exception handlers push a frame again when they return; the other frames are gone.\<close>

fun one_shot :: "callback_frame \<Rightarrow> bool" where
  "one_shot fr =
    (case cf_kind fr of
       ExceptionHandler sv nxt report ctx allocs \<Rightarrow> False
     | DlgLoop dproc hdlg q \<Rightarrow> False
     | _ \<Rightarrow> True)"

lemma enter_guest_frames:
  "enter_guest st fr target args = Some st' \<Longrightarrow> vc_frames st' = fr # vc_frames st"
  by (auto simp: enter_guest_def Let_def split: bind_splits)

lemma call_guest_frames:
  assumes "call_guest st k target args = Some st'"
  obtains ra where "ret_addr st = Some ra"
    "vc_frames st' = \<lparr> cf_rip = ucast ra, cf_rsp = rsp (vc_regs st) + 4, cf_kind = k \<rparr> # vc_frames st"
  using assms by (auto simp: call_guest_def dest!: enter_guest_frames split: bind_splits)

lemma dispatch_exception_frames:
  assumes "dispatch_exception st (ExceptionDispatch handler report reg ctx sv nxt allocs) = Some st'"
  shows "vc_frames st' = \<lparr> cf_rip = ucast (fc_eip sv), cf_rsp = ucast (fc_esp sv),
      cf_kind = ExceptionHandler sv nxt report ctx allocs \<rparr> # vc_frames st"
  using assms by (auto simp: dispatch_exception_def Let_def exc_callback_frame_def split: bind_splits)

lemma dlg_loop_frames:
  assumes "dlg_loop st dproc hdlg q ip sp obs = Some st'"
  shows "vc_frames st' = vc_frames st \<or>
    vc_frames st' = \<lparr> cf_rip = ip, cf_rsp = sp, cf_kind = DlgLoop dproc hdlg q \<rparr> # vc_frames st"
  using assms
proof (induction st dproc hdlg q ip sp obs rule: dlg_loop.induct)
  case (2 st dproc hdlg q ip sp down others obs)
  then show ?case
    by (auto simp: Let_def dlg_return_def dest!: enter_guest_frames
        split: option.splits if_splits list.splits bind_splits)
qed simp

lemma setup_dlg_frames:
  "setup_dlg_dispatch st dproc hdlg q ip sp obs = Some st' \<Longrightarrow> vc_frames st' = vc_frames st \<or>
    vc_frames st' = \<lparr> cf_rip = ip, cf_rsp = sp, cf_kind = DlgLoop dproc hdlg q \<rparr> # vc_frames st"
  by (auto simp: setup_dlg_dispatch_def dlg_return_def dest: dlg_loop_frames split: if_splits)

text \<open>One step pushes at most one frame; a return pops one and may push it back with the same target.\<close>

lemma complete_call_frames:
  assumes "complete_call st ord obs r = Some st'"
  shows "vc_frames st' = vc_frames st \<or> (\<exists>fr. vc_frames st' = fr # vc_frames st)"
proof (cases r)
  case (Normal v)
  with assms show ?thesis by (auto simp: normal_return_def split: bind_splits)
next
  case (DlgRunLoop a b c)
  with assms show ?thesis by (auto dest!: setup_dlg_frames split: bind_splits)
next
  case (ExceptionDispatch a b c d e f g)
  with assms show ?thesis by (auto simp: Let_def dest!: dispatch_exception_frames split: bind_splits)
qed (use assms in \<open>auto elim!: call_guest_frames split: if_splits\<close>)

lemma exc_return_frames:
  assumes "exc_return st sv nxt report ctx allocs = Some st'"
  shows "vc_frames st' = vc_frames st \<or> (\<exists>fr. vc_frames st' = fr # vc_frames st)"
  using assms by (auto simp: exc_return_def vc_free_def Let_def dest!: dispatch_exception_frames split: if_splits)

lemma callback_return_frames:
  assumes "callback_return st obs = Some st'"
  shows "vc_frames st = [] \<and> vc_frames st' = [] \<or>
    (\<exists>fr frs. vc_frames st = fr # frs \<and>
      (vc_frames st' = frs \<or> \<not> one_shot fr \<and> (\<exists>fr'. vc_frames st' = fr' # frs)))"
proof (cases "vc_frames st")
  case (Cons fr frs)
  show ?thesis
  proof (cases "cf_kind fr")
    case (ExceptionHandler sv nxt report ctx allocs)
    with assms Cons show ?thesis
      by (auto simp: callback_return_def dest!: exc_return_frames)
  next
    case (DlgLoop a b c)
    with assms Cons show ?thesis
      by (auto simp: callback_return_def Let_def dest!: setup_dlg_frames split: option.splits if_splits)
  qed (use assms Cons in \<open>auto simp: callback_return_def vc_out_def vc_free_def Let_def split: if_splits\<close>)
qed (use assms in \<open>auto simp: callback_return_def\<close>)

section \<open>Runs\<close>

text \<open>
  A step of a virtual CPU: guest code changes anything but the frames, a call is completed, or a callback
  returns. A run above level \<open>n\<close> never has fewer than \<open>n + 1\<close> frames.
\<close>

inductive vc_step :: "vcpu_state \<Rightarrow> vcpu_state \<Rightarrow> bool" where
  GuestCode: "vc_frames st' = vc_frames st \<Longrightarrow> vc_step st st'"
| ApiCall: "complete_call st ordinal obs r = Some st' \<Longrightarrow> vc_step st st'"
| CallbackRet: "callback_return st obs = Some st' \<Longrightarrow> vc_step st st'"

inductive run_above :: "nat \<Rightarrow> vcpu_state \<Rightarrow> vcpu_state \<Rightarrow> bool" for n where
  RunRefl: "n < length (vc_frames st) \<Longrightarrow> run_above n st st"
| RunStep: "run_above n st st1 \<Longrightarrow> vc_step st1 st2 \<Longrightarrow> n < length (vc_frames st2) \<Longrightarrow> run_above n st st2"

inductive_cases vc_stepE: "vc_step st st'"

lemma vc_step_frames:
  assumes "vc_step st st'"
  shows "vc_frames st' = vc_frames st \<or> (\<exists>fr. vc_frames st' = fr # vc_frames st) \<or>
    (\<exists>fr frs. vc_frames st = fr # frs \<and> (vc_frames st' = frs \<or> \<not> one_shot fr \<and> (\<exists>fr'. vc_frames st' = fr' # frs)))"
  using assms
proof (cases rule: vc_step.cases)
  case (ApiCall ordinal obs r)
  then show ?thesis using complete_call_frames by blast
next
  case (CallbackRet obs)
  then show ?thesis using callback_return_frames [OF CallbackRet] by fastforce
qed simp

text \<open>As long as its own frame is not popped, a one-shot frame and all below it stay what they are.\<close>

lemma vc_step_base:
  assumes "vc_step st st'" "vc_frames st = up @ fr0 # base" "one_shot fr0" "length base < length (vc_frames st')"
  shows "\<exists>up'. vc_frames st' = up' @ fr0 # base"
proof (cases up)
  case Nil
  then show ?thesis using vc_step_frames [OF assms(1)] assms(2-4)
    by (auto simp del: one_shot.simps intro: exI [of _ "[]"] exI [of _ "[x]" for x])
next
  case (Cons a up1)
  then show ?thesis using vc_step_frames [OF assms(1)] assms(2)
    by (auto simp del: one_shot.simps intro: exI [of _ up1] exI [of _ "x # up1" for x] exI [of _ "x # a # up1" for x])
qed

lemma run_above_base:
  assumes "run_above (length base) st st'" "vc_frames st = fr0 # base" "one_shot fr0"
  shows "\<exists>up. vc_frames st' = up @ fr0 # base"
  using assms
proof (induction rule: run_above.induct)
  case (RunStep st st1 st2)
  from RunStep.IH [OF RunStep.prems] obtain up where "vc_frames st1 = up @ fr0 # base" by blast
  from vc_step_base [OF RunStep.hyps(2) this RunStep.prems(2) RunStep.hyps(3)] show ?case .
qed (auto intro: exI [of _ "[]"])

text \<open>
  C3. A window procedure that is called back may make any API calls, be called back again to any depth,
  raise exceptions and run dialogs: as long as it has not returned, its own frame lies on the stack of
  frames exactly as the call pushed it, with the return address and the stack pointer of the caller of the
  API, on exactly the frames that were there when the call was made; and when the run is back at the depth
  of the call, nothing else lies above it.
\<close>

theorem callbacks_nest:
  assumes "complete_call st ordinal obs (Callback pfn hw m p1 p2) = Some st1"
    and run: "run_above (length (vc_frames st)) st1 st2"
  shows "\<exists>ra own up. ret_addr st = Some ra \<and>
    own = \<lparr> cf_rip = ucast ra, cf_rsp = rsp (vc_regs st) + 4, cf_kind = PmCallback \<rparr> \<and>
    vc_frames st2 = up @ own # vc_frames st \<and>
    (length (vc_frames st2) = length (vc_frames st) + 1 \<longrightarrow> vc_frames st2 = own # vc_frames st)"
proof -
  obtain ra where ra: "ret_addr st = Some ra"
    and fr: "vc_frames st1 = \<lparr> cf_rip = ucast ra, cf_rsp = rsp (vc_regs st) + 4, cf_kind = PmCallback \<rparr> # vc_frames st"
    using assms(1) by (auto elim: call_guest_frames)
  from run_above_base [OF run fr] ra show ?thesis by fastforce
qed

lemma arg_offsets:
  "map (\<lambda>i. 4 * of_nat i :: u32) [1..<Suc 4] = [4, 8, 12, 16]" "map (\<lambda>i. 4 * of_nat i :: u32) [1..<Suc 2] = [4, 8]"
  by (simp_all add: upt_rec)

text \<open>A guest of 64 bytes whose stack pointer is at 32.\<close>

definition zero_regs :: guest_regs where
  "zero_regs = \<lparr> rip = 0, rsp = 32, rax = 0, rbx = 0, rcx = 0, rdx = 0, rsi = 0, rdi = 0, rbp = 0, rflags = 0 \<rparr>"

definition small_vcpu :: vcpu_state where
  "small_vcpu = \<lparr> vc_guest = gm_alloc 64, vc_mem = mm_new 0 0, vc_wm = wm_new, vc_regs = zero_regs, vc_frames = [],
     vc_exit = None, vc_stopped = False \<rparr>"

lemma small_write:
  assumes "unat p + 20 \<le> 64"
  shows "\<exists>g. write_dwords (gm_alloc 64) p [(0 :: u32, a), (4, b), (8, c), (12, d), (16, e)] = Some g"
  by (rule write_dwords_run [of "[(0, a), (4, b), (8, c), (12, d), (16, e)]" 20 p "gm_alloc 64"])
    (use assms in auto)

lemma small_call:
  "\<exists>st1. complete_call small_vcpu ordinal obs (Callback pfn hw m p1 p2) = Some st1 \<and>
    vc_frames st1 = [\<lparr> cf_rip = 0, cf_rsp = 36, cf_kind = PmCallback \<rparr>]"
proof -
  have ra: "ret_addr small_vcpu = Some 0"
    by (simp add: ret_addr_def small_vcpu_def zero_regs_def gm_read_def ptr_at_def size_of_def gm_alloc_def gm_size_def
        drop_replicate le_word_zeros)
  obtain g where g: "write_dwords (gm_alloc 64) 12 [(0 :: u32, CALLBACK_RET_TRAP), (4, hw), (8, m), (12, p1), (16, p2)] = Some g"
    by (rule exE [OF small_write [of 12]]) simp_all
  show ?thesis
    using ra g arg_offsets(1)
    by (simp add: call_guest_def enter_guest_def small_vcpu_def zero_regs_def upt_rec del: write_dwords.simps)
qed

theorem callbacks_nest_witness:
  "\<exists>st1. complete_call small_vcpu 0 [] (Callback 1 2 3 4 5) = Some st1 \<and>
    (\<exists>ra up. ret_addr small_vcpu = Some ra \<and>
      vc_frames st1 = up @ [\<lparr> cf_rip = ucast ra, cf_rsp = 36, cf_kind = PmCallback \<rparr>])"
proof -
  obtain st1 where st1: "complete_call small_vcpu 0 [] (Callback 1 2 3 4 5) = Some st1"
    and fr: "vc_frames st1 = [\<lparr> cf_rip = 0, cf_rsp = 36, cf_kind = PmCallback \<rparr>]" using small_call by blast
  have f0: "vc_frames small_vcpu = []" "rsp (vc_regs small_vcpu) = 32" by (simp_all add: small_vcpu_def zero_regs_def)
  have "run_above (length (vc_frames small_vcpu)) st1 st1" using fr f0 by (intro RunRefl) simp
  from callbacks_nest [OF st1 this] f0 st1 show ?thesis by fastforce
qed

section \<open>Entering and leaving\<close>

text \<open>
  C11. A window procedure is entered with the return trap and its four arguments on the stack, and when it
  returns, the API call has had exactly the effect of a plain return with the procedure's result: same
  instruction and stack pointer, same frames.
\<close>

theorem window_callback:
  assumes call: "complete_call st ordinal obs (Callback pfn hw m p1 p2) = Some st1"
    and plain: "callee_bytes ordinal = 0"
    and mem: "20 \<le> unat (ucast (rsp (vc_regs st)) :: u32)" "unat (ucast (rsp (vc_regs st)) :: u32) \<le> gm_size (vc_guest st)"
      "gm_size (vc_guest st) \<le> 2 ^ 32"
    and ret: "vc_frames st2 = vc_frames st1" "callback_return st2 obs' = Some st3"
  shows "rip (vc_regs st1) = ucast pfn \<and>
    map (\<lambda>k. gm_read (vc_guest st1) (ucast (rsp (vc_regs st1)) + 4 * of_nat k)) [0..<5] =
      map Some [CALLBACK_RET_TRAP, hw, m, p1, p2] \<and>
    (\<exists>r. normal_return st ordinal (ucast (rax (vc_regs st2))) = Some r \<and> vc_frames st3 = vc_frames r \<and>
      rip (vc_regs st3) = rip (vc_regs r) \<and> rsp (vc_regs st3) = rsp (vc_regs r) \<and> rax (vc_regs st3) = rax (vc_regs r))"
proof -
  let ?sp = "rsp (vc_regs st) - 20" and ?ws = "[(0 :: u32, CALLBACK_RET_TRAP), (4, hw), (8, m), (12, p1), (16, p2)]"
  obtain ra where ra: "ret_addr st = Some ra"
    and fr: "vc_frames st1 = \<lparr> cf_rip = ucast ra, cf_rsp = rsp (vc_regs st) + 4, cf_kind = PmCallback \<rparr> # vc_frames st"
    using call by (auto elim: call_guest_frames)
  have w: "write_dwords (vc_guest st) (ucast ?sp) ?ws = Some (vc_guest st1)"
    "rip (vc_regs st1) = ucast pfn" "rsp (vc_regs st1) = ?sp"
    using call arg_offsets(1) by (auto simp: call_guest_def enter_guest_def Let_def upt_rec split: bind_splits)
  have usp: "unat (ucast ?sp :: u32) + 20 \<le> gm_size (vc_guest st)"
    using mem by (simp add: ucast_arith_down unat_sub_if_size)
  have ws: "\<forall>w\<in>set ?ws. 4 dvd unat (fst w) \<and> unat (fst w) + 4 \<le> 20" by simp
  obtain g where g: "write_dwords (vc_guest st) (ucast ?sp) ?ws = Some g"
    and rd: "\<And>off. 4 dvd unat off \<Longrightarrow> unat off + 4 \<le> 20 \<Longrightarrow> gm_read g (ucast ?sp + off) =
      (case map_of (rev ?ws) off of Some v \<Rightarrow> Some v | None \<Rightarrow> gm_read (vc_guest st) (ucast ?sp + off))"
    by (rule write_dwords_run [OF ws usp mem(3)]) (rule that, assumption+)
  have "map (\<lambda>k. gm_read g (ucast ?sp + 4 * of_nat k)) [0..<5] = map Some [CALLBACK_RET_TRAP, hw, m, p1, p2]"
    using rd [of 0] rd [of 4] rd [of 8] rd [of 12] rd [of 16] by (simp add: upt_rec)
  moreover have "g = vc_guest st1" using g w(1) by simp
  moreover have "vc_frames st3 = vc_frames st \<and>
      vc_regs st3 = set_ret (ucast ra) (rsp (vc_regs st) + 4) (ucast (ucast (rax (vc_regs st2)) :: u32)) (vc_regs st2)"
    using ret fr by (auto simp: callback_return_def)
  ultimately show ?thesis using w ra plain by (simp add: normal_return_def set_ret_def)
qed

theorem window_callback_witness:
  "\<exists>st1 st3. complete_call small_vcpu 2048 [] (Callback 1 2 3 4 5) = Some st1 \<and> callback_return st1 [] = Some st3 \<and>
    rip (vc_regs st1) = ucast (1 :: u32) \<and> rsp (vc_regs st3) = 36"
proof -
  obtain st1 where st1: "complete_call small_vcpu 2048 [] (Callback 1 2 3 4 5) = Some st1"
    and fr: "vc_frames st1 = [\<lparr> cf_rip = 0, cf_rsp = 36, cf_kind = PmCallback \<rparr>]" using small_call by blast
  obtain st3 where st3: "callback_return st1 [] = Some st3" "rsp (vc_regs st3) = 36"
    using fr by (auto simp: callback_return_def set_ret_def)
  have "callee_bytes 2048 = 0" by (simp add: callee_bytes_def module_bases)
  with window_callback [OF st1 _ _ _ _ refl st3(1)] st1 st3 show ?thesis
    by (auto simp: small_vcpu_def zero_regs_def)
qed

section \<open>Dialogs\<close>

lemma enter_guest_rsp:
  "enter_guest st fr target args = Some st' \<Longrightarrow>
    rsp (vc_regs st') = rsp (vc_regs st) - 4 * (1 + of_nat (length args))"
  by (auto simp: enter_guest_def Let_def split: bind_splits)

lemma dlg_loop_rsp:
  assumes "dlg_loop st dproc hdlg q ip sp obs = Some st'" "vc_frames st' \<noteq> vc_frames st"
  shows "rsp (vc_regs st') = rsp (vc_regs st) - 20 \<and> vc_frames st' = \<lparr> cf_rip = ip, cf_rsp = sp, cf_kind = DlgLoop dproc hdlg q \<rparr> # vc_frames st"
  using assms
proof (induction st dproc hdlg q ip sp obs rule: dlg_loop.induct)
  case (2 st dproc hdlg q ip sp down others obs)
  then show ?case
    by (auto simp: Let_def dlg_return_def dest: enter_guest_frames enter_guest_rsp
        split: option.splits if_splits list.splits bind_splits)
qed simp

text \<open>
  Rounds of a dialog procedure: it returns from one message (its return address is popped) and the loop
  calls it with the next.
\<close>

inductive dlg_rounds :: "nat \<Rightarrow> vcpu_state \<Rightarrow> vcpu_state \<Rightarrow> bool" where
  NoRound: "dlg_rounds 0 st st"
| NextRound: "dlg_rounds n st st1 \<Longrightarrow> vc_frames st2 = vc_frames st1 \<Longrightarrow> rsp (vc_regs st2) = rsp (vc_regs st1) + 4 \<Longrightarrow>
    callback_return st2 obs = Some st3 \<Longrightarrow> length (vc_frames st3) = length (vc_frames st1) \<Longrightarrow> dlg_rounds (Suc n) st st3"

lemma next_message:
  assumes "vc_frames st = fr # frs" "cf_kind fr = DlgLoop dproc hdlg q"
    and "callback_return st obs = Some st'" "length (vc_frames st') = length (vc_frames st)"
  shows "rsp (vc_regs st') = rsp (vc_regs st) - 20 \<and> vc_frames st' = fr # frs"
proof -
  have "setup_dlg_dispatch (st\<lparr> vc_frames := frs \<rparr>) dproc hdlg q (cf_rip fr) (cf_rsp fr) obs = Some st'"
    using assms by (auto simp: callback_return_def Let_def split: option.splits if_splits)
  then have "dlg_loop (st\<lparr> vc_frames := frs \<rparr>) dproc hdlg q (cf_rip fr) (cf_rsp fr) obs = Some st'"
    using assms(1,4) by (auto simp: setup_dlg_dispatch_def dlg_return_def split: if_splits)
  from dlg_loop_rsp [OF this] assms(1,2,4) show ?thesis by (cases "vc_frames st' = frs") auto
qed

text \<open>
  C31. While a modal dialog runs, the guest's stack grows by 16 bytes with every message its procedure
  handles: the loop takes the stack pointer the procedure left, which still has the four arguments on
  the stack, and pushes the next call below them. Only the end of the dialog restores the caller's stack.
\<close>

theorem dialog_stack_grows:
  assumes "dlg_rounds n st st'" "vc_frames st = fr # frs" "cf_kind fr = DlgLoop dproc hdlg q"
  shows "rsp (vc_regs st') = rsp (vc_regs st) - 16 * of_nat n \<and> vc_frames st' = fr # frs"
  using assms
proof (induction rule: dlg_rounds.induct)
  case (NextRound n st st1 st2 obs st3)
  then have ih: "rsp (vc_regs st1) = rsp (vc_regs st) - 16 * of_nat n" "vc_frames st1 = fr # frs" by simp_all
  have "rsp (vc_regs st3) = rsp (vc_regs st2) - 20 \<and> vc_frames st3 = fr # frs"
    by (rule next_message [OF _ NextRound.prems(2) NextRound.hyps(4)]) (use NextRound.hyps ih in simp_all)
  then show ?case using ih NextRound.hyps(3) by (simp add: algebra_simps)
qed simp

definition small_dialog :: vcpu_state where
  "small_dialog = small_vcpu\<lparr> vc_frames := [\<lparr> cf_rip = 0, cf_rsp = 36, cf_kind = DlgLoop 1 0x1000 0x3000 \<rparr>],
     vc_wm := wm_new\<lparr> wm_windows := [0x1000 \<mapsto> new_window 0x1000 [] 0 0 0x3000],
       wm_msg_queues := [0x3000 \<mapsto> [\<lparr> om_hwnd = 0x1000, om_msg = 0x20, om_mp1 = 1, om_mp2 = 0, om_time = 0, om_x = 0, om_y = 0 \<rparr>]] \<rparr> \<rparr>"

theorem dialog_stack_grows_witness:
  "\<exists>st'. dlg_rounds 1 small_dialog st' \<and> rsp (vc_regs st') = 16"
proof -
  let ?st2 = "small_dialog\<lparr> vc_regs := zero_regs\<lparr> rsp := 36 \<rparr> \<rparr>"
  obtain g where g: "write_dwords (gm_alloc 64) 16 [(0 :: u32, CALLBACK_RET_TRAP), (4, 0x1000), (8, 0x20), (12, 1), (16, 0)] = Some g"
    by (rule exE [OF small_write [of 16]]) simp_all
  have "\<exists>st3. callback_return ?st2 [(False, id)] = Some st3 \<and> length (vc_frames st3) = length (vc_frames small_dialog)"
    using g arg_offsets(1)
    by (simp add: callback_return_def setup_dlg_dispatch_def small_dialog_def small_vcpu_def new_window_def Let_def
        wm_msg_defs enter_guest_def zero_regs_def upt_rec del: write_dwords.simps)
  then obtain st3 where st3: "callback_return ?st2 [(False, id)] = Some st3"
    "length (vc_frames st3) = length (vc_frames small_dialog)" by blast
  have "dlg_rounds (Suc 0) small_dialog st3"
    by (rule NextRound [OF NoRound _ _ st3]) (simp_all add: small_dialog_def small_vcpu_def zero_regs_def)
  moreover from dialog_stack_grows [OF this] have "rsp (vc_regs st3) = 16"
    by (auto simp: small_dialog_def small_vcpu_def zero_regs_def)
  ultimately show ?thesis by auto
qed

section \<open>Initialisation routines of modules\<close>

lemma vc_out_read:
  assumes "p \<noteq> 0" "unat p + 4 \<le> gm_size (vc_guest st)" "gm_size (vc_guest st) \<le> 2 ^ 32"
  shows "gm_read (vc_guest (vc_out st p v)) p = Some v"
  using assms guest_write_ign_read [of p "vc_guest st" v] by (simp add: vc_out_def size_of_def)

lemma load_module_call_guest:
  assumes "dos_load_module rs fuel env sy a b nm_ptr p_hmod = Some (CallGuest target hm p bases, sy')"
  shows "bases = [] \<and> p = p_hmod \<and> Option.bind (dm_find_by_handle (sy_dlls sy') hm) ld_initterm_addr = Some target"
  using assms by (auto simp: dos_load_module_def Let_def split: if_splits option.splits sum.splits prod.splits)

text \<open>
  Loading a module with an initialisation routine: \<^verbatim>\<open>DosLoadModule\<close> has the guest run the routine of
  that module with its handle and the flag 0, and only when it has returned is the handle stored and the
  call completed, with 0 and \<open>ERROR_INIT_ROUTINE_FAILED\<close> instead when the routine returns 0.
\<close>

lemma load_module_init:
  assumes load: "dos_load_module rs fuel env sy a b nm_ptr p_hmod = Some (CallGuest target hm p bases, sy')"
    and call: "complete_call st ordinal obs (CallGuest target hm p bases) = Some st1"
    and ret: "vc_frames st2 = vc_frames st1" "callback_return st2 obs' = Some st3"
    and mem: "p_hmod \<noteq> 0" "unat p_hmod + 4 \<le> gm_size (vc_guest st2)" "gm_size (vc_guest st2) \<le> 2 ^ 32"
  shows "(\<exists>d. dm_find_by_handle (sy_dlls sy') hm = Some d \<and> ld_initterm_addr d = Some target) \<and>
    rip (vc_regs st1) = ucast target \<and> vc_frames st3 = vc_frames st \<and> rsp (vc_regs st3) = rsp (vc_regs st) + 4 \<and>
    (let ok = (ucast (rax (vc_regs st2)) :: u32) \<noteq> 0 in
     gm_read (vc_guest st3) p_hmod = Some (if ok then hm else 0) \<and>
     rax (vc_regs st3) = (if ok then 0 else ucast ERROR_INIT_ROUTINE_FAILED))"
proof -
  note lm = load_module_call_guest [OF load]
  obtain ra :: u32 where fr: "vc_frames st1 = \<lparr> cf_rip = ucast ra, cf_rsp = rsp (vc_regs st) + 4, cf_kind = InitTerm hm p \<rparr> # vc_frames st"
    using call lm by (auto elim!: call_guest_frames)
  let ?s = "st2\<lparr> vc_frames := vc_frames st \<rparr>"
  have "rip (vc_regs st1) = ucast target"
    using call by (auto simp: call_guest_def enter_guest_def Let_def split: bind_splits)
  moreover have "\<exists>d. dm_find_by_handle (sy_dlls sy') hm = Some d \<and> ld_initterm_addr d = Some target"
    using lm by (auto simp: Option.bind_eq_Some_conv)
  moreover have "vc_guest st3 = vc_guest (vc_out ?s p (if (ucast (rax (vc_regs st2)) :: u32) \<noteq> 0 then hm else 0)) \<and>
      vc_frames st3 = vc_frames st \<and> rsp (vc_regs st3) = rsp (vc_regs st) + 4 \<and>
      rax (vc_regs st3) = (if (ucast (rax (vc_regs st2)) :: u32) \<noteq> 0 then 0 else ucast ERROR_INIT_ROUTINE_FAILED)"
    using ret fr by (auto simp: callback_return_def Let_def set_ret_def vc_out_def NO_ERROR_def)
  moreover have "gm_read (vc_guest (vc_out ?s p v)) p_hmod = Some v" for v
    using vc_out_read [of p_hmod ?s v] mem lm by simp
  ultimately show ?thesis by (auto simp: Let_def)
qed

text \<open>
  A module that is loaded already is initialised again: its handle is found, its count raised, and the
  routine of the module called with the flag 0 as on the first load.
\<close>

lemma load_module_reinit:
  assumes nm: "sy_str rs sy nm_ptr = nm" "module_stem nm \<notin> set LOADABLE_BUILTINS" "find_dll_path env nm = Some path"
    and loaded: "dm_find_by_name (sy_dlls sy) nm = Some d" "ld_initterm_addr d = Some target"
    and inv: "dm_inv (sy_dlls sy)"
  shows "\<exists>sy'. dos_load_module rs (Suc fuel) env sy a b nm_ptr p = Some (CallGuest target (ld_handle d) p [], sy')"
proof -
  have mem: "d \<in> set (dm_dlls (sy_dlls sy))" and up: "dm_find_by_name (sy_dlls sy) (to_ascii_uppercase nm) = Some d"
    using loaded(1) by (auto simp: dm_find_by_name_def Let_def find_Some_iff)
  let ?m = "snd (dm_increment_refcount (sy_dlls sy) (ld_handle d))"
  have "inj_on ld_handle (set (dm_dlls (sy_dlls sy)))" using inv by (simp add: dm_inv_def distinct_map)
  then have "dm_find_by_handle (sy_dlls sy) (ld_handle d) = Some d"
    using mem by (cases "dm_find_by_handle (sy_dlls sy) (ld_handle d)")
      (auto simp: dm_find_by_handle_def find_None_iff find_Some_iff inj_on_def)
  then have "Option.bind (dm_find_by_handle ?m (ld_handle d)) ld_initterm_addr = Some target"
    using dm_increment_cases [OF inv, of "ld_handle d"] loaded(2) by auto
  then show ?thesis
    using nm up by (auto simp: dos_load_module_def Let_def load_dll_def sy_dlls_def split: prod.splits)
qed

end
