(* ===== verification/PM_Props.thy ===== *)
theory PM_Props
  imports PM_Tree File_Props
begin

unbundle bit_operations_syntax

text \<open>
  What the Presentation Manager promises its programs: messages arrive in the order they were posted, the
  stacking order decides which window a click goes to; and a window that is created as its own parent
  makes every walk up the tree run forever.
\<close>

section \<open>Message queues\<close>

lemma pm_write_guest [simp]: "pm_guest (pm_write st p v) = guest_write_ign (pm_guest st) p v"
  by (simp add: pm_write_def)

lemma qmsg_fields:
  assumes "p \<noteq> 0" "unat p + 24 \<le> gm_size (pm_guest st)" "gm_size (pm_guest st) \<le> 2 ^ 32"
  shows "map (\<lambda>k. gm_read (pm_guest (write_qmsg st p m)) (p + 4 * of_nat k)) [0..<4] =
    map Some [om_hwnd m, om_msg m, om_mp1 m, om_mp2 m]"
proof -
  have u: "unat (p + k) = unat p + unat k" if "unat k < 24" for k
    using assms(2,3) that by (simp add: unat_plus_if')
  note u' = u [of 4, simplified] u [of 8, simplified] u [of 12, simplified] u [of 16, simplified]
    u [of 20, simplified] u [of 22, simplified]
  show ?thesis
    using assms u' by (simp add: write_qmsg_def upt_rec guest_write_ign_other guest_write_ign_read size_of_def byte_sized_def)
qed

lemma write_qmsg_size [simp]: "gm_size (pm_guest (write_qmsg st p m)) = gm_size (pm_guest st)"
  by (simp add: write_qmsg_def)

text \<open>A program that fetches \<open>n\<close> messages into its \<^verbatim>\<open>QMSG\<close> and reads the first four fields.\<close>

definition read_qmsg :: "pm_state \<Rightarrow> u32 \<Rightarrow> u32 option list" where
  "read_qmsg st p = map (\<lambda>k. gm_read (pm_guest st) (p + 4 * of_nat k)) [0..<4]"

fun fetch :: "pm_env \<Rightarrow> pm_state \<Rightarrow> u32 \<Rightarrow> u32 \<Rightarrow> nat \<Rightarrow> (u32 option list list \<times> pm_state) option" where
  "fetch E st tid p 0 = Some ([], st)"
| "fetch E st tid p (Suc n) =
    do { (r, st1) \<leftarrow> win_get_msg E st tid p;
         (ms, st2) \<leftarrow> fetch E st1 tid p n;
         Some (read_qmsg st1 p # ms, st2) }"

fun post_all :: "pm_env \<Rightarrow> pm_state \<Rightarrow> (u32 \<times> u32 \<times> u32 \<times> u32) list \<Rightarrow> pm_state option" where
  "post_all E st [] = Some st"
| "post_all E st ((hw, m, p1, p2) # ms) =
    do { (r, st1) \<leftarrow> win_post_msg E st hw m p1 p2; post_all E st1 ms }"

lemma get_msg_step:
  assumes "wm_msg_queues (pm_wm st) (hmq_of_tid (pm_wm st) tid) = Some (m # ms)" "pe_passes E = (False, []) # obs"
  shows "win_get_msg E st tid p = Some (Normal (if om_msg m = WM_QUIT then 0 else 1),
    write_qmsg (pm_set st ((pm_wm st)\<lparr> wm_msg_queues := (wm_msg_queues (pm_wm st))(hmq_of_tid (pm_wm st) tid \<mapsto> ms) \<rparr>)) p m)"
  using assms by (simp add: win_get_msg_def Let_def pm_ok_def)

lemma fetch_queue:
  assumes "wm_msg_queues (pm_wm st) (hmq_of_tid (pm_wm st) tid) = Some (ms @ rest)" "pe_passes E = (False, []) # obs"
    "p \<noteq> 0" "unat p + 24 \<le> gm_size (pm_guest st)" "gm_size (pm_guest st) \<le> 2 ^ 32"
  shows "\<exists>st'. fetch E st tid p (length ms) =
      Some (map (\<lambda>m. map Some [om_hwnd m, om_msg m, om_mp1 m, om_mp2 m]) ms, st') \<and>
    wm_msg_queues (pm_wm st') (hmq_of_tid (pm_wm st) tid) = Some rest"
  using assms
proof (induction ms arbitrary: st)
  case (Cons m ms)
  let ?q = "hmq_of_tid (pm_wm st) tid"
  let ?s = "pm_set st ((pm_wm st)\<lparr> wm_msg_queues := (wm_msg_queues (pm_wm st))(?q \<mapsto> ms @ rest) \<rparr>)"
  define s1 where "s1 = write_qmsg ?s p m"
  have step: "win_get_msg E st tid p = Some (Normal (if om_msg m = WM_QUIT then 0 else 1), s1)"
    using get_msg_step [of st tid m "ms @ rest" E obs p] Cons.prems(1,2) by (simp add: s1_def)
  have q: "hmq_of_tid (pm_wm s1) tid = ?q" "wm_msg_queues (pm_wm s1) ?q = Some (ms @ rest)"
    "gm_size (pm_guest s1) = gm_size (pm_guest st)" by (simp_all add: s1_def hmq_of_tid_def)
  have r: "read_qmsg s1 p = map Some [om_hwnd m, om_msg m, om_mp1 m, om_mp2 m]"
    using qmsg_fields [of p ?s m] Cons.prems by (simp add: read_qmsg_def s1_def)
  obtain st' where "fetch E s1 tid p (length ms) =
      Some (map (\<lambda>m. map Some [om_hwnd m, om_msg m, om_mp1 m, om_mp2 m]) ms, st')"
    "wm_msg_queues (pm_wm st') ?q = Some rest"
    using Cons.IH [of s1] Cons.prems q by auto
  then show ?case using step r by simp
qed simp

lemma post_step:
  assumes "wm_windows (pm_wm st) hw = Some w" "w_hmq w = q" "q \<noteq> 0" "wm_msg_queues (pm_wm st) q = Some ms"
  shows "win_post_msg E st hw m p1 p2 = Some (Normal 1, pm_set st ((pm_wm st)\<lparr>
    wm_msg_queues := (wm_msg_queues (pm_wm st))(q \<mapsto> ms @ [plain_message hw m p1 p2]) \<rparr>))"
  using assms by (simp add: win_post_msg_def pm_ok_def post_to_def find_hmq_for_hwnd_def push_message_def)

lemma post_queue:
  assumes "\<forall>x \<in> set xs. \<exists>w. wm_windows (pm_wm st) (fst x) = Some w \<and> w_hmq w = q" "q \<noteq> 0"
    "wm_msg_queues (pm_wm st) q = Some ms"
  shows "\<exists>st'. post_all E st xs = Some st' \<and> pm_guest st' = pm_guest st \<and>
    wm_tid_to_hmq (pm_wm st') = wm_tid_to_hmq (pm_wm st) \<and>
    wm_msg_queues (pm_wm st') q = Some (ms @ map (\<lambda>(hw, m, p1, p2). plain_message hw m p1 p2) xs)"
  using assms
proof (induction xs arbitrary: st ms)
  case (Cons x xs)
  obtain hw m p1 p2 where x: "x = (hw, m, p1, p2)" by (cases x)
  then obtain w where w: "wm_windows (pm_wm st) hw = Some w" "w_hmq w = q" using Cons.prems(1) by auto
  show ?case
    using Cons.IH [of "pm_set st ((pm_wm st)\<lparr> wm_msg_queues := (wm_msg_queues (pm_wm st))(q \<mapsto> ms @ [plain_message hw m p1 p2]) \<rparr>)"]
      post_step [OF w Cons.prems(2,3)] Cons.prems x by auto
qed simp

text \<open>
  C12. Messages that are posted to windows of a thread are fetched by that thread in the order they were
  posted, after those that were waiting, and each fetch stores the message's window, number and parameters
  in the program's \<^verbatim>\<open>QMSG\<close>.
\<close>

theorem messages_in_order:
  assumes "\<forall>x \<in> set xs. \<exists>w. wm_windows (pm_wm st) (fst x) = Some w \<and> w_hmq w = q" "q \<noteq> 0"
    and "wm_tid_to_hmq (pm_wm st) tid = Some q" "wm_msg_queues (pm_wm st) q = Some ms"
    and "pe_passes E = (False, []) # obs" "p \<noteq> 0" "unat p + 24 \<le> gm_size (pm_guest st)" "gm_size (pm_guest st) \<le> 2 ^ 32"
  shows "\<exists>st1 st2. post_all E st xs = Some st1 \<and>
    fetch E st1 tid p (length ms + length xs) =
      Some (map (\<lambda>m. map Some [om_hwnd m, om_msg m, om_mp1 m, om_mp2 m]) ms @
            map (\<lambda>(hw, m, p1, p2). map Some [hw, m, p1, p2]) xs, st2) \<and>
    wm_msg_queues (pm_wm st2) q = Some []"
proof -
  let ?new = "map (\<lambda>(hw, m, p1, p2). plain_message hw m p1 p2) xs"
  obtain st1 where st1: "post_all E st xs = Some st1" "pm_guest st1 = pm_guest st"
    "wm_tid_to_hmq (pm_wm st1) = wm_tid_to_hmq (pm_wm st)" "wm_msg_queues (pm_wm st1) q = Some (ms @ ?new)"
    using post_queue [OF assms(1,2,4)] by blast
  then have q: "hmq_of_tid (pm_wm st1) tid = q" using assms(3) by (simp add: hmq_of_tid_def)
  have f: "map (\<lambda>m. map Some [om_hwnd m, om_msg m, om_mp1 m, om_mp2 m]) ?new = map (\<lambda>(hw, m, p1, p2). map Some [hw, m, p1, p2]) xs"
    by (auto simp: plain_message_def)
  show ?thesis
    using fetch_queue [of st1 tid "ms @ ?new" "[]" E obs p] st1 q assms(5-8) f by auto
qed

text \<open>Two messages to one window, one of them posted while another waits.\<close>

definition demo_win :: window_manager where
  "demo_win = wm_new\<lparr> wm_windows := [0x1000 \<mapsto> new_window 0x1000 [] 0 0 0x3000], wm_tid_to_hmq := [1 \<mapsto> 0x3000],
     wm_msg_queues := [0x3000 \<mapsto> []], wm_next_hwnd := 0x1001 \<rparr>"

definition demo_pm :: pm_state where
  "demo_pm = \<lparr> pm_guest = gm_alloc 64, pm_cp = 437, pm_res = rm_new, pm_wm = demo_win \<rparr>"

definition demo_env :: pm_env where
  "demo_env = \<lparr> pe_rs = latin1_rs, pe_it = (\<lambda>m. []), pe_passes = [(False, [])], pe_reply = None \<rparr>"

theorem messages_in_order_witness:
  "\<exists>st1 st2. post_all demo_env demo_pm [(0x1000, 0x24, 1, 2), (0x1000, 0x20, 3, 4)] = Some st1 \<and>
    fetch demo_env st1 1 8 2 = Some ([map Some [0x1000, 0x24, 1, 2], map Some [0x1000, 0x20, 3, 4]], st2)"
proof -
  let ?xs = "[(0x1000, 0x24, 1, 2), (0x1000, 0x20, 3, 4)] :: (u32 \<times> u32 \<times> u32 \<times> u32) list"
  note d = demo_pm_def demo_win_def demo_env_def new_window_def
  have 1: "\<forall>x \<in> set ?xs. \<exists>w. wm_windows (pm_wm demo_pm) (fst x) = Some w \<and> w_hmq w = 0x3000" by (simp add: d)
  have 2: "wm_tid_to_hmq (pm_wm demo_pm) 1 = Some 0x3000" "wm_msg_queues (pm_wm demo_pm) 0x3000 = Some []"
    "pe_passes demo_env = (False, []) # []" by (simp_all add: d)
  have 3: "unat (8 :: u32) + 24 \<le> gm_size (pm_guest demo_pm)" "gm_size (pm_guest demo_pm) \<le> 2 ^ 32" by (simp_all add: d)
  obtain st1 st2 where "post_all demo_env demo_pm ?xs = Some st1"
    "fetch demo_env st1 1 8 (length ([] :: os2_message list) + length ?xs) =
      Some (map (\<lambda>m. map Some [om_hwnd m, om_msg m, om_mp1 m, om_mp2 m]) [] @ map (\<lambda>(hw, m, p1, p2). map Some [hw, m, p1, p2]) ?xs, st2)"
    using messages_in_order [OF 1 _ 2 _ 3] by (auto simp del: fetch.simps post_all.simps)
  moreover have "length ([] :: os2_message list) + length ?xs = 2" by simp
  ultimately show ?thesis by (auto simp: numeral_2_eq_2 simp del: fetch.simps post_all.simps)
qed

section \<open>Stacking order and clicks\<close>

lemma hit_test_last: "z_hit_test (wm\<lparr> wm_z_order := zs @ [f] \<rparr>) px py = Some f" if "hits wm px py f"
  using that by (simp add: z_hit_test_def hits_def)

lemma find_rev_behind:
  "P b \<Longrightarrow> f \<noteq> b \<Longrightarrow> f \<notin> set bs \<Longrightarrow> find P (rev (as @ f # b # bs)) \<noteq> Some f"
  by (induction bs rule: rev_induct) (auto split: if_splits)

lemma split_at_member:
  assumes "b \<in> set zs"
  obtains as bs where "zs = as @ b # bs" "takeWhile (\<lambda>x. x \<noteq> b) zs = as" "dropWhile (\<lambda>x. x \<noteq> b) zs = b # bs"
proof -
  have "dropWhile (\<lambda>x. x \<noteq> b) zs \<noteq> []" using assms by (simp add: dropWhile_eq_Nil_conv)
  then obtain c bs where d: "dropWhile (\<lambda>x. x \<noteq> b) zs = c # bs" by (cases "dropWhile (\<lambda>x. x \<noteq> b) zs") auto
  then have "c = b" using hd_dropWhile [of "\<lambda>x. x \<noteq> b" zs] by simp
  with d that [of "takeWhile (\<lambda>x. x \<noteq> b) zs" bs] show ?thesis by (metis takeWhile_dropWhile_id)
qed

lemma swp_order_only:
  assumes "win_set_window_pos st f behind x y cx cy SWP_ZORDER = Some (v, st')"
  shows "pm_wm st' = swp_zorder (pm_wm st) f behind SWP_ZORDER"
proof -
  have fl: "SWP_ZORDER AND SWP_MOVE = 0" "SWP_ZORDER AND SWP_SIZE = 0" "SWP_ZORDER AND SWP_SHOW = 0"
    "SWP_ZORDER AND SWP_HIDE = 0" "SWP_ZORDER AND SWP_ACTIVATE = 0" by (simp_all add: SWP_ZORDER_def SWP_MOVE_def
      SWP_SIZE_def SWP_SHOW_def SWP_HIDE_def SWP_ACTIVATE_def)
  have "swp_geometry SWP_ZORDER x y cx cy = (\<lambda>w. w)" by (simp add: swp_geometry_def fl fun_eq_iff)
  moreover have "update_window wm f (\<lambda>w. w) = wm" for wm
    by (auto simp: update_window_def fun_upd_idem split: option.splits)
  ultimately show ?thesis
    using assms by (simp add: win_set_window_pos_def fl Let_def bit.conj_disj_distrib swp_activate_def gui_send_all_def pm_ok_def) auto
qed

lemma hits_windows: "wm_windows wm' = wm_windows wm \<Longrightarrow> hits wm' = hits wm"
  by (simp add: hits_def fun_eq_iff)

text \<open>
  C15. \<^verbatim>\<open>WinSetWindowPos\<close> with \<^verbatim>\<open>SWP_ZORDER\<close> decides which frame a click goes to: a frame that is put on top
  gets every click inside it; a frame that is put behind another gets none of the clicks inside the other,
  and lies directly below it; and in every case the other frames keep their order among each other.
\<close>

theorem stacking_decides_clicks:
  assumes swp: "win_set_window_pos st f behind x y cx cy SWP_ZORDER = Some (v, st')"
    and f: "wm_frame_to_client (pm_wm st) f \<noteq> None"
  shows "retain_not f (wm_z_order (pm_wm st')) = retain_not f (wm_z_order (pm_wm st)) \<and>
    (behind \<in> {1, 3} \<longrightarrow> (\<forall>px py. hits (pm_wm st) px py f \<longrightarrow> z_hit_test (pm_wm st') px py = Some f)) \<and>
    (behind \<notin> {0, 1, 2, 3} \<and> behind \<noteq> f \<and> behind \<in> set (wm_z_order (pm_wm st)) \<longrightarrow>
      (\<exists>as bs. wm_z_order (pm_wm st') = as @ f # behind # bs) \<and>
      (\<forall>px py. hits (pm_wm st) px py behind \<longrightarrow> z_hit_test (pm_wm st') px py \<noteq> Some f))"
proof -
  let ?zs = "retain_not f (wm_z_order (pm_wm st))"
  have wm': "pm_wm st' = swp_zorder (pm_wm st) f behind SWP_ZORDER" by (rule swp_order_only [OF swp])
  have nz: "SWP_ZORDER AND SWP_ZORDER \<noteq> 0" by (simp add: SWP_ZORDER_def)
  have "retain_not f (takeWhile P zs @ f # dropWhile P zs) = retain_not f zs" for P zs
    by (simp add: retain_not_def) (metis filter_append takeWhile_dropWhile_id)
  moreover have "retain_not f (zs @ [f]) = retain_not f zs" "retain_not f (f # zs) = retain_not f zs"
    "retain_not f (retain_not f zs) = retain_not f zs" for zs by (simp_all add: retain_not_def)
  ultimately have keep: "retain_not f (wm_z_order (pm_wm st')) = ?zs"
    by (simp add: wm' swp_zorder_def z_push_top_order z_order_after z_insert_behind_order Let_def)
  have w: "wm_windows (pm_wm st') = wm_windows (pm_wm st)" by (simp add: wm' swp_zorder_def)
  have top: "z_hit_test (pm_wm st') px py = Some f" if "behind \<in> {1, 3}" "hits (pm_wm st) px py f" for px py
    using that f nz hits_windows [OF w] by (auto simp: z_hit_test_def) (auto simp: wm' swp_zorder_def z_push_top_order)
  have below: "(\<exists>as bs. wm_z_order (pm_wm st') = as @ f # behind # bs) \<and>
      (\<forall>px py. hits (pm_wm st) px py behind \<longrightarrow> z_hit_test (pm_wm st') px py \<noteq> Some f)"
    if b: "behind \<notin> {0, 1, 2, 3}" "behind \<noteq> f" "behind \<in> set (wm_z_order (pm_wm st))"
  proof -
    have "behind \<in> set ?zs" using b by (simp add: retain_not_def)
    then obtain as bs where s: "?zs = as @ behind # bs" "takeWhile (\<lambda>x. x \<noteq> behind) ?zs = as"
      "dropWhile (\<lambda>x. x \<noteq> behind) ?zs = behind # bs" by (rule split_at_member)
    have o1: "wm_z_order (pm_wm st') = as @ f # behind # bs"
      using b s nz f by (simp add: wm' swp_zorder_def z_insert_behind_order Let_def)
    have "f \<notin> set bs" using s(1) retain_not_distinct(2) [of f "wm_z_order (pm_wm st)"] by auto
    then have "z_hit_test (pm_wm st') px py \<noteq> Some f" if "hits (pm_wm st) px py behind" for px py
      using find_rev_behind [of "hits (pm_wm st) px py" behind f bs as] that b(2) o1 hits_windows [OF w]
      by (simp add: z_hit_test_def del: rev_append rev.simps)
    with o1 show ?thesis by blast
  qed
  show ?thesis using keep top below by blast
qed

definition two_frames :: pm_state where
  "two_frames = demo_pm\<lparr> pm_wm := wm_new\<lparr>
     wm_windows := [0x1000 \<mapsto> (new_window 0x1000 [] 0 0 0)\<lparr> w_cx := 100, w_cy := 100, w_visible := True \<rparr>,
                    0x1002 \<mapsto> (new_window 0x1002 [] 0 0 0)\<lparr> w_cx := 50, w_cy := 50, w_visible := True \<rparr>],
     wm_frame_to_client := [0x1000 \<mapsto> 0x1001, 0x1002 \<mapsto> 0x1003], wm_z_order := [0x1000, 0x1002] \<rparr> \<rparr>"

text \<open>The smaller frame is put behind the larger one; a click inside both no longer goes to it.\<close>

theorem stacking_decides_clicks_witness:
  "\<exists>v st'. win_set_window_pos two_frames 0x1002 0x1000 0 0 0 0 SWP_ZORDER = Some (v, st') \<and>
    z_hit_test (pm_wm two_frames) 10 10 = Some 0x1002 \<and> z_hit_test (pm_wm st') 10 10 \<noteq> Some 0x1002"
proof -
  obtain v st' where w: "win_set_window_pos two_frames 0x1002 0x1000 0 0 0 0 SWP_ZORDER = Some (v, st')"
    by (cases "win_set_window_pos two_frames 0x1002 0x1000 0 0 0 0 SWP_ZORDER")
      (auto simp: win_set_window_pos_def pm_ok_def Let_def)
  have f: "wm_frame_to_client (pm_wm two_frames) 0x1002 \<noteq> None" by (simp add: two_frames_def)
  have h: "hits (pm_wm two_frames) 10 10 0x1000" "z_hit_test (pm_wm two_frames) 10 10 = Some 0x1002"
    "0x1000 \<in> set (wm_z_order (pm_wm two_frames))"
    by (simp_all add: two_frames_def hits_def z_hit_test_def new_window_def word_sless_alt word_sle_eq)
  from stacking_decides_clicks [OF w f] h w show ?thesis by auto
qed

section \<open>A window that is its own parent\<close>

text \<open>
  Handles are given out in sequence, so a program can name the next one as the parent: the new window is
  found among the windows and made its own child. Every walk from it, and so every message that is
  handled by a built-in control, runs forever with the window manager locked.
\<close>

lemma frame_walk_diverges:
  assumes "wm_windows wm h = Some w" "w_parent w = h" "h \<noteq> 0" "wm_frame_to_client wm h = None"
  shows "find_frame_for_hwnd wm h = None"
proof -
  have "wm' = wm \<and> h' = h \<longrightarrow> False" if "find_frame_for_hwnd wm' h' = Some y" for wm' h' y
    by (rule find_frame_for_hwnd.raw_induct [OF _ that]) (use assms in auto, blast)
  then show ?thesis by (cases "find_frame_for_hwnd wm h") auto
qed

lemma rect_walk_diverges:
  assumes "wm_windows wm h = Some w" "w_parent w = h" "h \<noteq> 0" "wm_frame_to_client wm h = None"
  shows "get_abs_rect_in_frame wm h = None"
proof -
  have "wm' = wm \<and> h' = h \<longrightarrow> False" if "abs_pos_loop wm' ax ay h' = Some y" for wm' ax ay h' y
    by (rule abs_pos_loop.raw_induct [OF _ that]) (use assms in auto, blast)
  then have "abs_pos_loop wm 0 0 h = None" by (cases "abs_pos_loop wm 0 0 h") (auto, blast)
  then show ?thesis by (simp add: get_abs_rect_in_frame_def split: prod.splits)
qed

lemma skeleton_push: "skeleton (push_message wm q m) = skeleton wm"
  by (simp add: skeleton_def fun_eq_iff)

lemma create_window_frames: "create_window wm cls parent q = (h, wm') \<Longrightarrow> wm_frame_to_client wm' = wm_frame_to_client wm"
  by (auto simp: create_window_def Let_def)

text \<open>
  A program that creates a window with the next handle as its parent gets the window; from then on
  dispatching any message to it by the built-in controls never returns.
\<close>

theorem self_parent_hangs:
  assumes call: "win_create_window E st tid (wm_next_hwnd (pm_wm st)) pc pn fl pos wid = Some (v, st')"
    and "wm_next_hwnd (pm_wm st) \<noteq> 0" "wm_frame_to_client (pm_wm st) (wm_next_hwnd (pm_wm st)) = None"
  shows "v = Normal (wm_next_hwnd (pm_wm st)) \<and>
    pm_control E st' (wm_next_hwnd (pm_wm st)) m p1 p2 = None \<and>
    find_frame_for_hwnd (pm_wm st') (wm_next_hwnd (pm_wm st)) = None"
proof -
  let ?h = "wm_next_hwnd (pm_wm st)"
  define cls where "cls = (if pc AND 0xFFFF0000 = 0xFFFF0000 \<or> pc < 0x10000 then resolve_class_atom pc []
    else resolve_class_atom pc (pm_str (pe_rs E) st pc))"
  obtain x y cx cy where pos: "pos = (x, y, cx, cy)" by (cases pos)
  obtain h wm1 where c: "create_window (pm_wm st) cls ?h (hmq_of_tid (pm_wm st) tid) = (h, wm1)"
    by (cases "create_window (pm_wm st) cls ?h (hmq_of_tid (pm_wm st) tid)")
  have 1: "h = ?h" "skeleton wm1 ?h = Some (?h, ?h)" "wm_frame_to_client wm1 = wm_frame_to_client (pm_wm st)"
    using create_window_skeleton [OF c] create_window_frames [OF c] by simp_all
  have u: "skeleton (update_window wm1 ?h (\<lambda>w. w\<lparr> w_text := t, w_x := x, w_y := y, w_cx := cx, w_cy := cy, w_id := wid,
      w_style := fl, w_visible := b \<rparr>)) = skeleton wm1" for t b by (simp add: update_window_skeleton)
  have "v = Normal ?h \<and> wm_frame_to_client (pm_wm st') = wm_frame_to_client (pm_wm st) \<and> skeleton (pm_wm st') ?h = Some (?h, ?h)"
    using call c u 1 by (auto simp: win_create_window_def Let_def pos pm_ok_def skeleton_push simp flip: cls_def)
  moreover from this obtain w where w: "wm_windows (pm_wm st') ?h = Some w" "w_parent w = ?h"
    by (auto simp: skeleton_def)
  ultimately show ?thesis
    using frame_walk_diverges [OF w assms(2)] rect_walk_diverges [OF w assms(2)] assms(3)
    by (simp add: pm_control_def dispatch_builtin_control_def)
qed

theorem self_parent_hangs_witness:
  "\<exists>st'. win_create_window demo_env demo_pm 1 0x1001 0 0 0 (0, 0, 0, 0) 0 = Some (Normal 0x1001, st') \<and>
    pm_control demo_env st' 0x1001 WM_PAINT 0 0 = None"
proof -
  have n: "wm_next_hwnd (pm_wm demo_pm) = 0x1001" "wm_frame_to_client (pm_wm demo_pm) 0x1001 = None"
    by (simp_all add: demo_pm_def demo_win_def wm_new_def)
  obtain v st' where "win_create_window demo_env demo_pm 1 0x1001 0 0 0 (0, 0, 0, 0) 0 = Some (v, st')"
    by (cases "win_create_window demo_env demo_pm 1 0x1001 0 0 0 (0, 0, 0, 0) 0")
      (auto simp: win_create_window_def pm_ok_def Let_def split: prod.splits)
  moreover from this n have "win_create_window demo_env demo_pm 1 (wm_next_hwnd (pm_wm demo_pm)) 0 0 0 (0, 0, 0, 0) 0 = Some (v, st')"
    by simp
  from self_parent_hangs [OF this, of WM_PAINT 0 0] n have "v = Normal 0x1001" "pm_control demo_env st' 0x1001 WM_PAINT 0 0 = None"
    by simp_all
  ultimately show ?thesis by blast
qed

end
