(* ===== verification/PM_Timers.thy ===== *)
theory PM_Timers
  imports PM_Tree
begin

text \<open>
  The thread of a window timer and a call that replaces or stops it (\<^verbatim>\<open>WinStartTimer\<close> and
  \<^verbatim>\<open>WinStopTimer\<close> in \<^verbatim>\<open>src/src/loader/pm_win.rs\<close>), interleaved at the points where either side
  takes or gives back the lock of the window manager, waits, or looks at the flag that ends the thread.
\<close>

section \<open>State and steps\<close>

datatype holder = Free | ByApp | ByTimer
datatype app_at = Called | Holding | Joining | Spawning | Returned
datatype tick_at = Checking | Sleeping | Locking | Posting | Ended

record timer_sys =
  ts_wm :: window_manager
  ts_lock :: holder
  ts_app :: app_at
  ts_tick :: tick_at
  ts_running :: bool

text \<open>The loop of the timer thread: the flag is read before and after the sleep, the tick is posted under the lock.\<close>

inductive tick_step :: "hash_iter \<Rightarrow> u32 \<times> u32 \<Rightarrow> timer_sys \<Rightarrow> timer_sys \<Rightarrow> bool" for it t where
  Check: "ts_tick s = Checking \<Longrightarrow> tick_step it t s (s\<lparr> ts_tick := (if ts_running s then Sleeping else Ended) \<rparr>)"
| Wake: "ts_tick s = Sleeping \<Longrightarrow> tick_step it t s (s\<lparr> ts_tick := (if ts_running s then Locking else Ended) \<rparr>)"
| Lock: "ts_tick s = Locking \<Longrightarrow> ts_lock s = Free \<Longrightarrow> tick_step it t s (s\<lparr> ts_tick := Posting, ts_lock := ByTimer \<rparr>)"
| Post: "ts_tick s = Posting \<Longrightarrow>
    tick_step it t s (s\<lparr> ts_tick := Checking, ts_lock := Free, ts_wm := timer_tick it (ts_wm s) (fst t) (snd t) \<rparr>)"

text \<open>\<^verbatim>\<open>WinStartTimer\<close>: the old thread is joined inside the block that holds the lock.\<close>

inductive start_step :: "u32 \<times> u32 \<Rightarrow> timer_sys \<Rightarrow> timer_sys \<Rightarrow> bool" for t where
  StartLock: "ts_app s = Called \<Longrightarrow> ts_lock s = Free \<Longrightarrow> start_step t s (s\<lparr> ts_app := Holding, ts_lock := ByApp \<rparr>)"
| StartRemove: "ts_app s = Holding \<Longrightarrow> t \<in> wm_timers (ts_wm s) \<Longrightarrow>
    start_step t s (s\<lparr> ts_app := Joining, ts_running := False,
      ts_wm := (ts_wm s)\<lparr> wm_timers := wm_timers (ts_wm s) - {t} \<rparr> \<rparr>)"
| StartNone: "ts_app s = Holding \<Longrightarrow> t \<notin> wm_timers (ts_wm s) \<Longrightarrow> start_step t s (s\<lparr> ts_app := Spawning, ts_lock := Free \<rparr>)"
| StartJoined: "ts_app s = Joining \<Longrightarrow> ts_tick s = Ended \<Longrightarrow> start_step t s (s\<lparr> ts_app := Spawning, ts_lock := Free \<rparr>)"
| StartInsert: "ts_app s = Spawning \<Longrightarrow> ts_lock s = Free \<Longrightarrow>
    start_step t s (s\<lparr> ts_app := Returned, ts_wm := (ts_wm s)\<lparr> wm_timers := insert t (wm_timers (ts_wm s)) \<rparr> \<rparr>)"

text \<open>\<^verbatim>\<open>WinStopTimer\<close>: the lock is dropped before the thread is joined.\<close>

inductive stop_step :: "u32 \<times> u32 \<Rightarrow> timer_sys \<Rightarrow> timer_sys \<Rightarrow> bool" for t where
  StopLock: "ts_app s = Called \<Longrightarrow> ts_lock s = Free \<Longrightarrow> stop_step t s (s\<lparr> ts_app := Holding, ts_lock := ByApp \<rparr>)"
| StopRemove: "ts_app s = Holding \<Longrightarrow> t \<in> wm_timers (ts_wm s) \<Longrightarrow>
    stop_step t s (s\<lparr> ts_app := Joining, ts_lock := Free, ts_running := False,
      ts_wm := (ts_wm s)\<lparr> wm_timers := wm_timers (ts_wm s) - {t} \<rparr> \<rparr>)"
| StopNone: "ts_app s = Holding \<Longrightarrow> t \<notin> wm_timers (ts_wm s) \<Longrightarrow> stop_step t s (s\<lparr> ts_app := Returned, ts_lock := Free \<rparr>)"
| StopJoined: "ts_app s = Joining \<Longrightarrow> ts_tick s = Ended \<Longrightarrow> stop_step t s (s\<lparr> ts_app := Returned \<rparr>)"

inductive_simps tick_step_simps: "tick_step it t s s'"
inductive_simps start_step_simps: "start_step t s s'"
inductive_simps stop_step_simps: "stop_step t s s'"

definition restart_sys :: "hash_iter \<Rightarrow> u32 \<times> u32 \<Rightarrow> timer_sys \<Rightarrow> timer_sys \<Rightarrow> bool" where
  "restart_sys it t s s' \<longleftrightarrow> tick_step it t s s' \<or> start_step t s s'"

definition stop_sys :: "hash_iter \<Rightarrow> u32 \<times> u32 \<Rightarrow> timer_sys \<Rightarrow> timer_sys \<Rightarrow> bool" where
  "stop_sys it t s s' \<longleftrightarrow> tick_step it t s s' \<or> stop_step t s s'"

text \<open>The call begins while the thread of the timer runs.\<close>

definition timer_init :: "window_manager \<Rightarrow> timer_sys" where
  "timer_init wm = \<lparr> ts_wm = wm, ts_lock = Free, ts_app = Called, ts_tick = Checking, ts_running = True \<rparr>"

lemma tick_timers [simp]: "wm_timers (timer_tick it wm hw i) = wm_timers wm"
  by (simp add: timer_tick_def post_to_def push_message_def split: option.splits)

section \<open>Restarting a timer\<close>

text \<open>
  C17. Starting a timer that runs already can block forever: the thread has found its flag set and waits for
  the lock, the call has taken the lock and waits for the thread. From there no step is possible, and the
  lock of the window manager is never given back.
\<close>

theorem restart_deadlocks:
  assumes "t \<in> wm_timers wm"
  shows "\<exists>s. (restart_sys it t)\<^sup>*\<^sup>* (timer_init wm) s \<and> ts_app s = Joining \<and> ts_lock s = ByApp \<and>
    (\<forall>s'. \<not> restart_sys it t s s')"
proof -
  let ?s0 = "timer_init wm"
  let ?s1 = "?s0\<lparr> ts_tick := Sleeping \<rparr>"
  let ?s2 = "?s1\<lparr> ts_tick := Locking \<rparr>"
  let ?s3 = "?s2\<lparr> ts_app := Holding, ts_lock := ByApp \<rparr>"
  let ?s4 = "?s3\<lparr> ts_app := Joining, ts_running := False, ts_wm := wm\<lparr> wm_timers := wm_timers wm - {t} \<rparr> \<rparr>"
  have "restart_sys it t ?s0 ?s1" "restart_sys it t ?s1 ?s2"
    by (simp_all add: restart_sys_def tick_step_simps timer_init_def)
  moreover have "restart_sys it t ?s2 ?s3" "restart_sys it t ?s3 ?s4"
    using assms by (simp_all add: restart_sys_def start_step_simps timer_init_def)
  ultimately have "(restart_sys it t)\<^sup>*\<^sup>* ?s0 ?s4" by (meson converse_rtranclp_into_rtranclp rtranclp.rtrancl_refl)
  moreover have "\<not> restart_sys it t ?s4 s'" for s'
    by (simp add: restart_sys_def tick_step_simps start_step_simps timer_init_def)
  ultimately show ?thesis by (intro exI [of _ ?s4]) (simp add: timer_init_def)
qed

theorem restart_deadlocks_witness:
  "\<exists>s. (restart_sys (\<lambda>m. []) (0x1000, 1))\<^sup>*\<^sup>* (timer_init (wm_new\<lparr> wm_timers := {(0x1000, 1)} \<rparr>)) s \<and>
    (\<forall>s'. \<not> restart_sys (\<lambda>m. []) (0x1000, 1) s s')"
  using restart_deadlocks [of "(0x1000, 1)" "wm_new\<lparr> wm_timers := {(0x1000, 1)} \<rparr>" "\<lambda>m. []"] by auto

section \<open>Stopping a timer\<close>

definition stop_inv :: "bool \<Rightarrow> u32 \<times> u32 \<Rightarrow> timer_sys \<Rightarrow> bool" where
  "stop_inv reg t s \<longleftrightarrow> (ts_lock s = ByTimer \<longleftrightarrow> ts_tick s = Posting) \<and> (ts_lock s = ByApp \<longleftrightarrow> ts_app s = Holding) \<and>
     ts_app s \<noteq> Spawning \<and>
     (ts_app s \<in> {Called, Holding} \<longrightarrow> (t \<in> wm_timers (ts_wm s) \<longleftrightarrow> reg) \<and> ts_running s) \<and>
     (ts_app s = Joining \<longrightarrow> reg \<and> \<not> ts_running s \<and> t \<notin> wm_timers (ts_wm s)) \<and>
     (ts_app s = Returned \<longrightarrow> t \<notin> wm_timers (ts_wm s) \<and> (reg \<longrightarrow> ts_tick s = Ended))"

lemma stop_inv_init: "stop_inv (t \<in> wm_timers wm) t (timer_init wm)"
  by (simp add: stop_inv_def timer_init_def)

lemma stop_inv_step: "stop_inv reg t s \<Longrightarrow> stop_sys it t s s' \<Longrightarrow> stop_inv reg t s'"
  unfolding stop_sys_def
  by (elim disjE tick_step.cases stop_step.cases) (auto simp: stop_inv_def split: if_splits)

lemma stop_inv_reachable: "(stop_sys it t)\<^sup>*\<^sup>* s s' \<Longrightarrow> stop_inv reg t s \<Longrightarrow> stop_inv reg t s'"
  by (induction rule: rtranclp_induct) (auto intro: stop_inv_step)

lemma sys_tick: "tick_step it t s s' \<Longrightarrow> stop_sys it t s s'"
  by (simp add: stop_sys_def)

lemma sys_stop: "stop_step t s s' \<Longrightarrow> stop_sys it t s s'"
  by (simp add: stop_sys_def)

text \<open>When the call waits, the thread can run to its end.\<close>

lemma thread_ends:
  assumes "stop_inv reg t s" "ts_app s = Joining"
  shows "\<exists>s'. (stop_sys it t)\<^sup>*\<^sup>* s s' \<and> ts_app s' = Joining \<and> ts_tick s' = Ended"
proof -
  have nr: "\<not> ts_running s" and l: "ts_lock s = ByTimer \<longleftrightarrow> ts_tick s = Posting" "ts_lock s \<noteq> ByApp"
    using assms by (simp_all add: stop_inv_def)
  have check: "\<exists>s'. (stop_sys it t)\<^sup>*\<^sup>* s s' \<and> ts_app s' = Joining \<and> ts_tick s' = Ended"
    if "ts_tick s = Checking \<or> ts_tick s = Sleeping" "\<not> ts_running s" "ts_app s = Joining" for s
    using that tick_step.Check [of s it t] tick_step.Wake [of s it t] by (auto intro!: exI [of _ "s\<lparr> ts_tick := Ended \<rparr>"] sys_tick)
  have post: "\<exists>s'. (stop_sys it t)\<^sup>*\<^sup>* s s' \<and> ts_app s' = Joining \<and> ts_tick s' = Ended"
    if "ts_tick s = Posting" "\<not> ts_running s" "ts_app s = Joining" for s
    using check [of "s\<lparr> ts_tick := Checking, ts_lock := Free, ts_wm := timer_tick it (ts_wm s) (fst t) (snd t) \<rparr>"]
      sys_tick [OF tick_step.Post [OF that(1)], of it t] that by (auto intro: converse_rtranclp_into_rtranclp)
  show ?thesis
  proof (cases "ts_tick s")
    case Locking
    then have "ts_lock s = Free" using l by (cases "ts_lock s") auto
    from sys_tick [OF tick_step.Lock [OF Locking this], of it t] post [of "s\<lparr> ts_tick := Posting, ts_lock := ByTimer \<rparr>"] nr assms(2)
    show ?thesis by (auto intro: converse_rtranclp_into_rtranclp)
  qed (use check [of s] post [of s] nr assms(2) in auto)
qed

text \<open>
  C18. Stopping a timer cannot block: from every state that is reached during the call it can still return,
  and when it has returned, the timer is no longer registered and its thread has ended, so no further
  tick of it is posted.
\<close>

theorem stop_timer_returns:
  assumes "(stop_sys it t)\<^sup>*\<^sup>* (timer_init wm) s"
  shows "(\<exists>s'. (stop_sys it t)\<^sup>*\<^sup>* s s' \<and> ts_app s' = Returned) \<and>
    (ts_app s = Returned \<longrightarrow> t \<notin> wm_timers (ts_wm s) \<and> (t \<in> wm_timers wm \<longrightarrow> ts_tick s = Ended))"
proof -
  let ?reg = "t \<in> wm_timers wm"
  have inv: "stop_inv ?reg t s" by (rule stop_inv_reachable [OF assms stop_inv_init])
  have joining: "\<exists>s'. (stop_sys it t)\<^sup>*\<^sup>* s s' \<and> ts_app s' = Returned" if j: "stop_inv ?reg t s" "ts_app s = Joining" for s
  proof -
    obtain s' where s': "(stop_sys it t)\<^sup>*\<^sup>* s s'" "ts_app s' = Joining" "ts_tick s' = Ended"
      using thread_ends [OF j] by blast
    have "stop_sys it t s' (s'\<lparr> ts_app := Returned \<rparr>)" by (rule sys_stop [OF StopJoined [OF s'(2,3)]])
    with s'(1) show ?thesis by (intro exI [of _ "s'\<lparr> ts_app := Returned \<rparr>"]) (simp add: rtranclp.rtrancl_into_rtrancl)
  qed
  have holding: "\<exists>s'. (stop_sys it t)\<^sup>*\<^sup>* s s' \<and> ts_app s' = Returned" if h: "stop_inv ?reg t s" "ts_app s = Holding" for s
  proof (cases "t \<in> wm_timers (ts_wm s)")
    case True
    note st = sys_stop [OF StopRemove [OF h(2) True], of it]
    from joining [OF stop_inv_step [OF h(1) st]] st show ?thesis by (auto intro: converse_rtranclp_into_rtranclp)
  next
    case False
    from sys_stop [OF StopNone [OF h(2) False], of it] show ?thesis
      by (intro exI [of _ "s\<lparr> ts_app := Returned, ts_lock := Free \<rparr>"]) auto
  qed
  have called: "\<exists>s'. (stop_sys it t)\<^sup>*\<^sup>* s s' \<and> ts_app s' = Returned" if c: "stop_inv ?reg t s" "ts_app s = Called" "ts_lock s = Free" for s
  proof -
    note st = sys_stop [OF StopLock [OF c(2,3)], of it t]
    from holding [OF stop_inv_step [OF c(1) st]] st show ?thesis by (auto intro: converse_rtranclp_into_rtranclp)
  qed
  have "\<exists>s'. (stop_sys it t)\<^sup>*\<^sup>* s s' \<and> ts_app s' = Returned"
  proof (cases "ts_app s = Called \<and> ts_lock s \<noteq> Free")
    case True
    then have "ts_tick s = Posting" using inv by (cases "ts_lock s") (auto simp: stop_inv_def)
    note st = sys_tick [OF tick_step.Post [OF this], of it t]
    from called [OF stop_inv_step [OF inv st]] st True show ?thesis by (auto intro: converse_rtranclp_into_rtranclp)
  next
    case False
    then show ?thesis using inv called [of s] holding [of s] joining [of s] by (cases "ts_app s") (auto simp: stop_inv_def)
  qed
  then show ?thesis using inv by (simp add: stop_inv_def)
qed

theorem stop_timer_returns_witness:
  "\<exists>s'. (stop_sys (\<lambda>m. []) (0x1000, 1))\<^sup>*\<^sup>* (timer_init (wm_new\<lparr> wm_timers := {(0x1000, 1)} \<rparr>)) s' \<and> ts_app s' = Returned"
  using stop_timer_returns [of "\<lambda>m. []" "(0x1000, 1)" "wm_new\<lparr> wm_timers := {(0x1000, 1)} \<rparr>" "timer_init (wm_new\<lparr> wm_timers := {(0x1000, 1)} \<rparr>)"]
  by blast

end
