(* ===== verification/PM_Menus.thy ===== *)
theory PM_Menus
  imports PM_Tree
begin

unbundle bit_operations_syntax

text \<open>
  Menus: a template that encodes a menu is parsed to that menu, the parser ends for every content of
  guest memory, and where an item of the bar is drawn is where a click opens it.
\<close>

section \<open>Templates\<close>

text \<open>The bytes of a region from \<open>p\<close> on.\<close>

definition bytes_at :: "guest_memory \<Rightarrow> nat \<Rightarrow> u8 list \<Rightarrow> bool" where
  "bytes_at g p bs \<longleftrightarrow> p + length bs \<le> gm_size g \<and> take (length bs) (drop p (gm_bytes g)) = bs"

lemma bytes_at_append: "bytes_at g p (xs @ ys) \<longleftrightarrow> bytes_at g p xs \<and> bytes_at g (p + length xs) ys"
proof
  assume a: "bytes_at g p (xs @ ys)"
  then have t: "take (length xs + length ys) (drop p (gm_bytes g)) = xs @ ys" and l: "p + length xs + length ys \<le> gm_size g"
    by (simp_all add: bytes_at_def)
  have "take (length xs) (drop p (gm_bytes g)) = take (length xs) (take (length xs + length ys) (drop p (gm_bytes g)))"
    by (simp add: min_def)
  then have x: "take (length xs) (drop p (gm_bytes g)) = xs" unfolding t by simp
  have "take (length ys) (drop (length xs) (drop p (gm_bytes g))) = drop (length xs) (take (length xs + length ys) (drop p (gm_bytes g)))"
    by (simp add: drop_take)
  then have "take (length ys) (drop (p + length xs) (gm_bytes g)) = ys" unfolding t by (simp add: add.commute)
  with x l show "bytes_at g p xs \<and> bytes_at g (p + length xs) ys" by (simp add: bytes_at_def)
next
  assume "bytes_at g p xs \<and> bytes_at g (p + length xs) ys"
  then show "bytes_at g p (xs @ ys)" by (simp add: bytes_at_def take_add add.commute)
qed

lemma read_at:
  assumes "bytes_at g (unat base + unat off) (le_bytes (size_of TYPE('a)) (w :: 'a::len word))" "gm_size g \<le> 2 ^ 32"
    "byte_sized TYPE('a)" "0 < size_of TYPE('a)"
  shows "gm_read g (base + off) = Some w"
proof -
  let ?n = "size_of TYPE('a)"
  have b: "unat base + unat off + ?n \<le> gm_size g" "take ?n (drop (unat base + unat off) (gm_bytes g)) = le_bytes ?n w"
    using assms(1) by (simp_all add: bytes_at_def)
  have u: "unat (base + off) = unat base + unat off" using b(1) assms(2,4) by (simp add: unat_plus_if')
  then have "ptr_at g (base + off) ?n = Some (unat base + unat off)" using b(1) assms(2) by (simp add: ptr_at_Some)
  then show ?thesis using b(2) by (simp add: gm_read_def le_word_le_bytes_sized [OF assms(3)])
qed

lemma rd16_at: "bytes_at g (unat base + unat off) (le_bytes 2 w) \<Longrightarrow> gm_size g \<le> 2 ^ 32 \<Longrightarrow> rd16 g (base + off) = w"
  using read_at [of g base off w] by (simp add: rd16_def size_of_def byte_sized_def)

lemma rd8_at: "bytes_at g (unat base + unat off) [b] \<Longrightarrow> gm_size g \<le> 2 ^ 32 \<Longrightarrow> rd8 g (base + off) = b"
  using read_at [of g base off b] by (simp add: rd8_def size_of_def byte_sized_def)

lemma off_plus: "unat (off :: u32) + n \<le> unat (sz :: u32) \<Longrightarrow> unat (off + of_nat n) = unat off + n"
proof -
  assume a: "unat off + n \<le> unat sz"
  have "unat sz < 4294967296" by (rule unat_u32_lt)
  with a have n: "n < 4294967296" and s: "unat off + n < 4294967296" by linarith+
  have "unat (of_nat n :: u32) = n" using n by (simp add: unat_of_nat)
  then show ?thesis using s by (simp add: unat_plus_if')
qed

text \<open>The strings a menu can hold: characters of one byte, none of them zero.\<close>

definition one_byte :: "ustring \<Rightarrow> bool" where
  "one_byte t \<longleftrightarrow> (\<forall>c \<in> set t. 0 < c \<and> c < 256)"

definition text_bytes :: "ustring \<Rightarrow> u8 list" where
  "text_bytes t = map of_nat t @ [0]"

lemma read_nul_text:
  assumes "bytes_at g (unat base + unat off) (text_bytes t)" "gm_size g \<le> 2 ^ 32" "one_byte t"
    "unat off + length t + 1 \<le> unat sz"
  shows "read_nul_str_at g base off sz = (t, off + of_nat (length t + 1))"
  using assms
proof (induction t arbitrary: off)
  case Nil
  have "rd8 g (base + off) = 0" using rd8_at [of g base off 0] Nil by (simp add: text_bytes_def)
  then show ?case using Nil by (simp add: read_nul_str_at.simps [of g base off] word_le_nat_alt)
next
  case (Cons c t)
  have b: "bytes_at g (unat base + unat off) [of_nat c]" "bytes_at g (unat base + unat off + 1) (text_bytes t)"
    using Cons.prems(1) bytes_at_append [of g "unat base + unat off" "[of_nat c]" "text_bytes t"] by (simp_all add: text_bytes_def)
  have c: "0 < c" "c < 256" "one_byte t" using Cons.prems(3) by (simp_all add: one_byte_def)
  have u1: "unat (of_nat c :: u8) = c" using c by (simp add: unat_of_nat)
  then have u: "unat (of_nat c :: u8) = c" "(of_nat c :: u8) \<noteq> 0" using c(1) by (metis unat_0 less_irrefl)+
  have o1: "unat (off + 1) = unat off + 1" using off_plus [of off 1 sz] Cons.prems(4) by simp
  have r: "rd8 g (base + off) = of_nat c" by (rule rd8_at [OF b(1) Cons.prems(2)])
  have "read_nul_str_at g base (off + 1) sz = (t, off + 1 + of_nat (length t + 1))"
    by (rule Cons.IH) (use b(2) Cons.prems(2,4) c(3) o1 in \<open>simp_all add: add.assoc\<close>)
  then show ?case
    using r u Cons.prems(4) by (simp add: read_nul_str_at.simps [of g base off] word_le_nat_alt Let_def algebra_simps)
qed

text \<open>
  The bytes a resource compiler can write for a list of items: a relation, for the header of a submenu says
  in its first eight bytes what the compiler likes (the size of the block, a codepage, a reserved word),
  before the number of items.
\<close>

inductive menu_bytes :: "menu_item list \<Rightarrow> u8 list \<Rightarrow> bool" where
  NoItems: "menu_bytes [] []"
| Item: "length hdr = 8 \<Longrightarrow> menu_bytes subs sb \<Longrightarrow> menu_bytes ms mb \<Longrightarrow>
    menu_bytes (MenuItem i style attr txt subs # ms)
      (le_bytes 2 style @ le_bytes 2 attr @ le_bytes 2 i
       @ (if style AND MIS_SEPARATOR = 0 then text_bytes txt else [])
       @ (if style AND MIS_SUBMENU \<noteq> 0 then hdr @ le_bytes 2 (of_nat (length subs) :: u16) @ sb else [])
       @ mb)"

fun wf_items :: "menu_item list \<Rightarrow> bool" where
  "wf_items [] = True"
| "wf_items (MenuItem i style attr txt subs # ms) =
    (style AND MIS_END = 0 \<and> one_byte txt \<and> (style AND MIS_SEPARATOR \<noteq> 0 \<longrightarrow> txt = []) \<and>
     (style AND MIS_SUBMENU \<noteq> 0 \<longleftrightarrow> subs \<noteq> []) \<and> length subs < 65536 \<and> wf_items subs \<and> wf_items ms)"

lemma not_end: "(style :: u16) AND MIS_END = 0 \<Longrightarrow> style AND NOT MIS_END = style"
  by (rule bit_word_eqI) (auto simp: bit_simps bit_eq_iff [of "style AND MIS_END" 0])

text \<open>One item of the stream, with what its text and submenu read.\<close>

lemma parse_menu_step:
  assumes "bytes_at g (unat base + unat off) (le_bytes 2 style @ le_bytes 2 attr @ le_bytes 2 i @ rest)" "gm_size g \<le> 2 ^ 32"
    "unat off + 6 \<le> unat sz" "style AND MIS_END = 0"
    "menu_text g base sz style (off + 6) = (txt, off2)"
    "(if style AND MIS_SUBMENU \<noteq> 0 then
        (if off2 + 10 \<le> sz then
           let child_count = unat (rd16 g (base + off2 + 8)) in
           parse_menu_loop g base sz (child_count > 0) (off2 + 10) child_count
         else Some ([], off2))
      else Some ([], off2)) = Some (subs, off3)"
    "parse_menu_loop g base sz True off3 n = Some (ms, off4)"
  shows "parse_menu_loop g base sz True off (Suc n) = Some (MenuItem i style attr txt subs # ms, off4)"
proof -
  have b: "bytes_at g (unat base + unat off) (le_bytes 2 style)" "bytes_at g (unat base + (unat off + 2)) (le_bytes 2 attr)"
    "bytes_at g (unat base + (unat off + 4)) (le_bytes 2 i)"
    using assms(1) by (simp_all add: bytes_at_append ac_simps del: add_2_eq_Suc add_2_eq_Suc')
  have o: "unat (off + 2) = unat off + 2" "unat (off + 4) = unat off + 4" "unat (off + 6) = unat off + 6"
    using off_plus [of off 2 sz] off_plus [of off 4 sz] off_plus [of off 6 sz] assms(3) by simp_all
  have r: "rd16 g (base + off) = style" "rd16 g (base + off + 2) = attr" "rd16 g (base + off + 4) = i"
    using rd16_at [OF b(1) assms(2)] rd16_at [of g base "off + 2" attr] rd16_at [of g base "off + 4" i] b o assms(2)
    by (simp_all add: add.assoc)
  have "\<not> sz < off + 6" using o(3) assms(3) by (simp add: word_less_nat_alt)
  then show ?thesis
    using assms(5-7) by (simp add: parse_menu_loop.simps [of g base sz True off "Suc n"] r not_end [OF assms(4)])
qed

lemma parse_menu_bytes:
  assumes "menu_bytes items bs" "wf_items items" "bytes_at g (unat base + unat off) bs" "gm_size g \<le> 2 ^ 32"
    "unat off + length bs \<le> unat sz"
  shows "parse_menu_loop g base sz True off (length items) = Some (items, off + of_nat (length bs))"
  using assms
proof (induction items bs arbitrary: off rule: menu_bytes.induct)
  case NoItems
  then show ?case by (simp add: parse_menu_loop.simps)
next
  case (Item hdr subs sb ms mb i style attr "txt")
  let ?t = "if style AND MIS_SEPARATOR = 0 then text_bytes txt else []"
  let ?s = "if style AND MIS_SUBMENU \<noteq> 0 then hdr @ le_bytes 2 (of_nat (length subs) :: u16) @ sb else []"
  have wf: "style AND MIS_END = 0" "one_byte txt" "style AND MIS_SEPARATOR \<noteq> 0 \<longrightarrow> txt = []"
    "style AND MIS_SUBMENU \<noteq> 0 \<longleftrightarrow> subs \<noteq> []" "length subs < 65536" "wf_items subs" "wf_items ms" using Item.prems(1) by simp_all
  have len: "unat off + (6 + length ?t + length ?s + length mb) \<le> unat sz" using Item.prems(4) by simp
  have bt: "bytes_at g (unat base + (unat off + 6)) ?t" "bytes_at g (unat base + (unat off + 6 + length ?t)) ?s"
    "bytes_at g (unat base + (unat off + 6 + length ?t + length ?s)) mb"
    using Item.prems(2) by (simp_all add: bytes_at_append ac_simps del: replicate.simps add_2_eq_Suc add_2_eq_Suc')
  have o1: "unat (off + 6) = unat off + 6" using off_plus [of off 6 sz] len by simp
  define off2 where "off2 = off + 6 + of_nat (length ?t)"
  have o2: "unat off2 = unat off + 6 + length ?t" using off_plus [of "off + 6" "length ?t" sz] o1 len by (simp add: off2_def)
  have mt: "menu_text g base sz style (off + 6) = (txt, off2)"
    using read_nul_text [of g base "off + 6" "txt" sz] bt(1) o1 wf(2,3) len Item.prems(3)
    by (auto simp: menu_text_def off2_def text_bytes_def split: if_splits)
  define off3 where "off3 = off2 + of_nat (length ?s)"
  have o3: "unat off3 = unat off + 6 + length ?t + length ?s"
    using off_plus [of off2 "length ?s" sz] o2 len by (simp add: off3_def)
  have sub: "(if style AND MIS_SUBMENU \<noteq> 0 then
        (if off2 + 10 \<le> sz then
           let child_count = unat (rd16 g (base + off2 + 8)) in
           parse_menu_loop g base sz (child_count > 0) (off2 + 10) child_count
         else Some ([], off2))
      else Some ([], off2)) = Some (subs, off3)"
  proof (cases "style AND MIS_SUBMENU \<noteq> 0")
    case True
    then have ne: "subs \<noteq> []" using wf(4) by simp
    have ls: "length ?s = 10 + length sb" using True Item.hyps(1) by simp
    have b: "bytes_at g (unat base + (unat off2 + 8)) (le_bytes 2 (of_nat (length subs) :: u16))"
      "bytes_at g (unat base + (unat off2 + 10)) sb"
      using bt(2) True o2 Item.hyps(1) by (simp_all add: bytes_at_append ac_simps del: replicate.simps add_2_eq_Suc add_2_eq_Suc')
    have p: "unat (off2 + 8) = unat off2 + 8" "unat (off2 + 10) = unat off2 + 10"
      using off_plus [of off2 8 sz] off_plus [of off2 10 sz] o2 len ls by simp_all
    have "rd16 g (base + (off2 + 8)) = of_nat (length subs)" by (rule rd16_at) (use b p Item.prems(3) in simp_all)
    then have c: "unat (rd16 g (base + off2 + 8)) = length subs" using wf(5) by (simp add: add.assoc unat_of_nat)
    have "parse_menu_loop g base sz True (off2 + 10) (length subs) = Some (subs, off2 + 10 + of_nat (length sb))"
      by (rule Item.IH(1) [OF wf(6)]) (use b p Item.prems(3) o2 len ls in simp_all)
    moreover have "off2 + 10 \<le> sz" using p(2) o2 len ls by (simp add: word_le_nat_alt)
    ultimately show ?thesis using True c ne ls by (simp add: off3_def)
  qed (use wf(4) in \<open>simp add: off3_def\<close>)
  have ms: "parse_menu_loop g base sz True off3 (length ms) = Some (ms, off3 + of_nat (length mb))"
    by (rule Item.IH(2) [OF wf(7)]) (use bt(3) o3 len Item.prems(3) in simp_all)
  have "parse_menu_loop g base sz True off (Suc (length ms)) = Some (MenuItem i style attr txt subs # ms, off3 + of_nat (length mb))"
    by (rule parse_menu_step [OF _ _ _ wf(1) mt sub ms, of _ _ "?t @ ?s @ mb"]) (use Item.prems len in simp_all)
  moreover have "off3 + of_nat (length mb) = off + of_nat (length (le_bytes 2 style @ le_bytes 2 attr @ le_bytes 2 i @ ?t @ ?s @ mb))"
    by (simp add: off3_def off2_def)
  ultimately show ?case by simp
qed

text \<open>
  C16. A menu template of counted blocks, each behind a header of ten bytes, is parsed back to its menu:
  identifiers, styles, attributes, texts and submenus at every depth, whatever size and codepage the headers
  state.
\<close>

theorem menu_template_roundtrip:
  assumes "menu_bytes items bs" "wf_items items" "items \<noteq> []" "length items < 65536" "length hdr = 8"
    and "bytes_at g (unat addr) (hdr @ le_bytes 2 (of_nat (length items) :: u16) @ bs)" "gm_size g \<le> 2 ^ 32"
    and "10 + length bs \<le> unat sz"
  shows "parse_menu_template g addr sz = Some items"
proof -
  have b: "bytes_at g (unat addr + 8) (le_bytes 2 (of_nat (length items) :: u16))" "bytes_at g (unat addr + 10) bs"
    using assms(5,6) by (simp_all add: bytes_at_append ac_simps)
  have "rd16 g (addr + 8) = of_nat (length items)" using rd16_at [of g addr 8] b(1) assms(7) by simp
  then have c: "unat (rd16 g (addr + 8)) = length items" using assms(4) by (simp add: unat_of_nat)
  have "\<not> sz < 10" using assms(8) by (simp add: word_less_nat_alt)
  moreover have "parse_menu_loop g addr sz True 10 (length items) = Some (items, 10 + of_nat (length bs))"
    by (rule parse_menu_bytes [OF assms(1,2)]) (use b(2) assms(7,8) in simp_all)
  ultimately show ?thesis using c assms(3) by (simp add: parse_menu_template_def parse_menu_items_def)
qed

text \<open>
  A template of the resource compiler: the submenu \<open>~File\<close> with the items \<open>~About\<close> and \<open>Exit\<close>; the headers
  state their sizes, codepage 850 and the word 4.
\<close>

definition file_menu :: "menu_item list" where
  "file_menu = [MenuItem 200 0x11 0 [126, 70, 105, 108, 101]
     [MenuItem 201 1 0 [126, 65, 98, 111, 117, 116] [], MenuItem 202 1 0 [69, 120, 105, 116] []]]"

definition file_menu_bytes :: "u8 list" where
  "file_menu_bytes =
    [0x11, 0, 0, 0, 0xC8, 0, 126, 70, 105, 108, 101, 0,
     0x27, 0, 0, 0, 0x52, 3, 4, 0, 2, 0,
     1, 0, 0, 0, 0xC9, 0, 126, 65, 98, 111, 117, 116, 0,
     1, 0, 0, 0, 0xCA, 0, 69, 120, 105, 116, 0]"

lemma file_menu_template: "menu_bytes file_menu file_menu_bytes"
proof -
  have h: "length [0x27 :: u8, 0, 0, 0, 0x52, 3, 4, 0] = 8" by simp
  have le: "le_bytes 2 (0 :: u16) = [0, 0]" "le_bytes 2 (1 :: u16) = [1, 0]" "le_bytes 2 (2 :: u16) = [2, 0]"
    "le_bytes 2 (0x11 :: u16) = [0x11, 0]" "le_bytes 2 (200 :: u16) = [200, 0]" "le_bytes 2 (201 :: u16) = [201, 0]"
    "le_bytes 2 (202 :: u16) = [202, 0]"
    by code_simp+
  have "menu_bytes [MenuItem 202 1 0 [69, 120, 105, 116] []] [1, 0, 0, 0, 0xCA, 0, 69, 120, 105, 116, 0]"
    using Item [OF h NoItems NoItems, of 202 1 0 "[69, 120, 105, 116]"] by (simp add: mis_defs text_bytes_def le)
  from Item [OF h NoItems this, of 201 1 0 "[126, 65, 98, 111, 117, 116]"]
  have s: "menu_bytes [MenuItem 201 1 0 [126, 65, 98, 111, 117, 116] [], MenuItem 202 1 0 [69, 120, 105, 116] []]
    [1, 0, 0, 0, 0xC9, 0, 126, 65, 98, 111, 117, 116, 0, 1, 0, 0, 0, 0xCA, 0, 69, 120, 105, 116, 0]"
    by (simp add: mis_defs text_bytes_def le)
  from Item [OF h s NoItems, of 200 "0x11" 0 "[126, 70, 105, 108, 101]"] show ?thesis
    by (simp add: mis_defs text_bytes_def le file_menu_def file_menu_bytes_def)
qed

theorem menu_template_roundtrip_witness:
  "parse_menu_template \<lparr> gm_bytes = [0x44, 0, 0, 0, 0x52, 3, 4, 0, 1, 0] @ file_menu_bytes \<rparr> 0 56 = Some file_menu"
proof -
  let ?hdr = "[0x44, 0, 0, 0, 0x52, 3, 4, 0] :: u8 list"
  let ?g = "\<lparr> gm_bytes = [0x44, 0, 0, 0, 0x52, 3, 4, 0, 1, 0] @ file_menu_bytes \<rparr>"
  have wf: "wf_items file_menu" by (simp add: file_menu_def mis_defs one_byte_def)
  have at0: "bytes_at \<lparr> gm_bytes = bs \<rparr> (unat (0 :: u32)) bs" for bs by (simp add: bytes_at_def gm_size_def)
  have le: "le_bytes 2 (of_nat (length file_menu) :: u16) = [1, 0]" by code_simp
  have b: "bytes_at ?g (unat (0 :: u32)) (?hdr @ le_bytes 2 (of_nat (length file_menu) :: u16) @ file_menu_bytes)"
    unfolding le using at0 [of "?hdr @ [1, 0] @ file_menu_bytes"] by simp
  have l: "length file_menu_bytes = 46" by (simp add: file_menu_bytes_def)
  have n: "file_menu \<noteq> []" "length file_menu < 65536" "length ?hdr = 8" by (simp_all add: file_menu_def)
  have s: "gm_size ?g \<le> 2 ^ 32" "10 + length file_menu_bytes \<le> unat (56 :: u32)" using l by (simp_all add: gm_size_def)
  show ?thesis by (rule menu_template_roundtrip [OF file_menu_template wf n b s])
qed

section \<open>The parser ends\<close>

lemma read_nul_end:
  "unat off \<le> unat sz \<Longrightarrow> read_nul_str_at g base off sz = (t, off') \<Longrightarrow> unat off \<le> unat off' \<and> unat off' \<le> unat sz"
proof (induction g base off sz arbitrary: t off' rule: read_nul_str_at.induct)
  case (1 g base off sz)
  show ?case
  proof (cases "sz \<le> off")
    case False
    then have lt: "unat off < unat sz" by (simp add: word_le_nat_alt)
    then have o: "unat (off + 1) = unat off + 1" using off_plus [of off 1 sz] by simp
    show ?thesis
    proof (cases "rd8 g (base + off) = 0")
      case False
      obtain s e where r: "read_nul_str_at g base (off + 1) sz = (s, e)" by (cases "read_nul_str_at g base (off + 1) sz")
      then have "unat (off + 1) \<le> unat e \<and> unat e \<le> unat sz"
        using "1.IH" [OF \<open>\<not> sz \<le> off\<close> refl refl False, of s e] o lt by simp
      moreover have "off' = e" using "1.prems"(2) r False \<open>\<not> sz \<le> off\<close> by (simp add: read_nul_str_at.simps [of g base off])
      ultimately show ?thesis using o by simp
    qed (use "1.prems"(2) \<open>\<not> sz \<le> off\<close> o lt in \<open>simp add: read_nul_str_at.simps [of g base off]\<close>)
  qed (use "1.prems" in \<open>auto simp: read_nul_str_at.simps [of g base off]\<close>)
qed

lemma menu_text_end:
  "unat off \<le> unat sz \<Longrightarrow> menu_text g base sz style off = (t, off') \<Longrightarrow> unat off \<le> unat off' \<and> unat off' \<le> unat sz"
  by (auto simp: menu_text_def dest: read_nul_end split: if_splits)

text \<open>One pass of the loop, given that the walks of the submenu and of the following items return.\<close>

lemma parse_menu_pass:
  assumes "\<not> sz < off + 6" "menu_text g base sz (rd16 g (base + off) AND NOT MIS_END) (off + 6) = (txt, off2)"
    and sub: "\<And>u c. off2 + 10 \<le> sz \<Longrightarrow>
      \<exists>its e. parse_menu_loop g base sz u (off2 + 10) c = Some (its, e) \<and> unat off2 \<le> unat e \<and> unat e \<le> unat sz"
    and following: "\<And>e n. unat off2 \<le> unat e \<Longrightarrow> unat e \<le> unat sz \<Longrightarrow>
      \<exists>its e'. parse_menu_loop g base sz use_count e n = Some (its, e') \<and> unat off2 \<le> unat e' \<and> unat e' \<le> unat sz"
    and "unat off2 \<le> unat sz" "\<not> (use_count \<and> n = 0)"
  shows "\<exists>its e. parse_menu_loop g base sz use_count off n = Some (its, e) \<and> unat off2 \<le> unat e \<and> unat e \<le> unat sz"
proof -
  let ?style = "rd16 g (base + off) AND NOT MIS_END"
  have "\<exists>subs e. (if ?style AND MIS_SUBMENU \<noteq> 0 then
        (if off2 + 10 \<le> sz then
           let child_count = unat (rd16 g (base + off2 + 8)) in
           parse_menu_loop g base sz (child_count > 0) (off2 + 10) child_count
         else Some ([], off2))
      else Some ([], off2)) = Some (subs, e) \<and> unat off2 \<le> unat e \<and> unat e \<le> unat sz"
    using sub [of "unat (rd16 g (base + off2 + 8)) > 0" "unat (rd16 g (base + off2 + 8))"] assms(5) by (auto simp: Let_def)
  then obtain subs e where e: "(if ?style AND MIS_SUBMENU \<noteq> 0 then
        (if off2 + 10 \<le> sz then
           let child_count = unat (rd16 g (base + off2 + 8)) in
           parse_menu_loop g base sz (child_count > 0) (off2 + 10) child_count
         else Some ([], off2))
      else Some ([], off2)) = Some (subs, e)" "unat off2 \<le> unat e" "unat e \<le> unat sz" by blast
  obtain its e' where f: "parse_menu_loop g base sz use_count e (n - 1) = Some (its, e')" "unat off2 \<le> unat e'" "unat e' \<le> unat sz"
    using following [OF e(2,3)] by blast
  let ?item = "MenuItem (rd16 g (base + off + 4)) ?style (rd16 g (base + off + 2)) txt subs"
  show ?thesis
  proof (cases "\<not> use_count \<and> rd16 g (base + off) AND MIS_END \<noteq> 0")
    case True
    then have "parse_menu_loop g base sz use_count off n = Some ([?item], e)"
      by (subst parse_menu_loop.simps) (use e(1) assms(1,2) in simp)
    then show ?thesis using e by blast
  next
    case False
    then have "parse_menu_loop g base sz use_count off n = Some (?item # its, e')"
      by (subst parse_menu_loop.simps) (use e(1) f(1) assms(1,2,6) in \<open>auto simp: Let_def\<close>)
    then show ?thesis using f by blast
  qed
qed

text \<open>
  The parser of a menu returns on every content of guest memory, whatever counts and strings the resource
  claims, if the size of the resource leaves the sixteen bytes that the offset is tested with.
\<close>

theorem menu_parse_returns:
  assumes "unat sz + 16 < 2 ^ 32"
  shows "\<exists>items. parse_menu_template g addr sz = Some items"
proof -
  have "\<exists>its e. parse_menu_loop g addr sz u off n = Some (its, e) \<and> unat off \<le> unat e \<and> unat e \<le> unat sz"
    if "unat off \<le> unat sz" for u off n
    using that
  proof (induction "unat sz - unat off" arbitrary: u off n rule: less_induct)
    case less
    have o6: "unat (off + 6) = unat off + 6" using less.prems assms by (simp add: unat_plus_if')
    show ?case
    proof (cases "u \<and> n = 0 \<or> sz < off + 6")
      case True
      then show ?thesis using less.prems by (subst parse_menu_loop.simps) auto
    next
      case False
      then have s6: "unat off + 6 \<le> unat sz" using o6 by (simp add: word_less_nat_alt)
      obtain "txt" off2 where t: "menu_text g addr sz (rd16 g (addr + off) AND NOT MIS_END) (off + 6) = (txt, off2)"
        by (cases "menu_text g addr sz (rd16 g (addr + off) AND NOT MIS_END) (off + 6)")
      have o2: "unat off + 6 \<le> unat off2" "unat off2 \<le> unat sz" using menu_text_end [OF _ t] o6 s6 by simp_all
      have o10: "unat (off2 + 10) = unat off2 + 10" using o2 assms by (simp add: unat_plus_if')
      have "\<exists>its e. parse_menu_loop g addr sz u off n = Some (its, e) \<and> unat off2 \<le> unat e \<and> unat e \<le> unat sz"
      proof (rule parse_menu_pass [OF _ t])
        fix u :: bool and c :: nat assume "off2 + 10 \<le> sz"
        then have le: "unat (off2 + 10) \<le> unat sz" by (simp add: word_le_nat_alt)
        then have "unat sz - unat (off2 + 10) < unat sz - unat off" using o10 o2 s6 by simp
        from less.hyps [OF this le, of u c] o10
        show "\<exists>its e. parse_menu_loop g addr sz u (off2 + 10) c = Some (its, e) \<and> unat off2 \<le> unat e \<and> unat e \<le> unat sz" by auto
      next
        fix e :: u32 and n :: nat assume e: "unat off2 \<le> unat e" "unat e \<le> unat sz"
        then have "unat sz - unat e < unat sz - unat off" using o2 s6 by simp
        from less.hyps [OF this e(2), of u n] e
        show "\<exists>its e'. parse_menu_loop g addr sz u e n = Some (its, e') \<and> unat off2 \<le> unat e' \<and> unat e' \<le> unat sz" by auto
      qed (use False o2 in auto)
      then show ?thesis using o2 by auto
    qed
  qed
  then have "\<exists>its e. parse_menu_loop g addr sz u 10 n = Some (its, e)" if "unat (10 :: u32) \<le> unat sz" for u n
    using that by blast
  then show ?thesis by (fastforce simp: parse_menu_template_def parse_menu_items_def word_le_nat_alt word_less_nat_alt)
qed

theorem menu_parse_returns_witness:
  "\<exists>items. parse_menu_template (gm_alloc 64) 0 0xFFFFFFE0 = Some items"
  by (rule menu_parse_returns) simp

section \<open>Drawing and clicking\<close>

definition ascii_menu :: "menu_item list \<Rightarrow> bool" where
  "ascii_menu items \<longleftrightarrow> (\<forall>m \<in> set items. \<forall>c \<in> set (mi_text m). c < 128)"

definition bar_width :: "menu_item list \<Rightarrow> int" where
  "bar_width items = sum_list (map (\<lambda>m. 8 * int (length (menu_label (mi_text m))) + 8) items)"

lemma bar_width_nonneg: "0 \<le> bar_width items"
  by (induction items) (simp_all add: bar_width_def)

lemma as_bytes_length: "\<forall>c \<in> set t. c < 128 \<Longrightarrow> length (as_bytes t) = length t"
  by (induction t) (simp_all add: as_bytes_def utf8_char_def)

lemma ascii_width: "ascii_menu (m # ms) \<Longrightarrow> drawn_width (mi_text m) = label_width (mi_text m)"
  using as_bytes_length [of "menu_label (mi_text m)"] by (simp add: ascii_menu_def drawn_width_def label_width_def menu_label_def)

lemma sint_advance:
  assumes "0 \<le> sint (x :: u32)" "0 \<le> w" "sint x + w < 2 ^ 31"
  shows "sint (x + word_of_int w) = sint x + w"
proof -
  have "x + word_of_int w = word_of_int (sint x + w)" by simp
  then have "sint (x + word_of_int w) = sint (word_of_int (sint x + w) :: u32)" by (rule arg_cong)
  also have "\<dots> = signed_take_bit 31 (sint x + w)" using sint_sbintrunc' [of "sint x + w", where ?'a = 32] by simp
  also have "\<dots> = sint x + w" using assms by (intro signed_take_bit_int_eq_self) simp_all
  finally show ?thesis .
qed

lemma label_width_int: "label_width t = word_of_int (8 * int (length (menu_label t)) + 8)"
  by (simp add: label_width_def)

lemma highlight_hit:
  assumes "ascii_menu items" "0 \<le> sint item_x" "sint item_x + bar_width items < 2 ^ 31"
    and "DrawBox frame x1 y1 x2 y2 0x80 True \<in> set (draw_bar_items frame y cy open_item item_x i items)"
    and "x1 \<le>s px" "px <s x2"
  shows "bar_hit px item_x i items = Some (unat (open_item - 1)) \<and> item_x \<le>s x1"
  using assms
proof (induction items arbitrary: item_x i)
  case (Cons m ms)
  let ?w = "8 * int (length (menu_label (mi_text m))) + 8"
  have a: "ascii_menu ms" and w: "drawn_width (mi_text m) = label_width (mi_text m)"
    using Cons.prems(1) ascii_width by (simp_all add: ascii_menu_def)
  have b: "bar_width (m # ms) = ?w + bar_width ms" by (simp add: bar_width_def)
  show ?case
  proof (cases "is_separator m")
    case True
    then show ?thesis using Cons.IH [of item_x "Suc i"] Cons.prems a b by simp
  next
    case False
    let ?x = "item_x + label_width (mi_text m)"
    have x: "sint ?x = sint item_x + ?w"
      using sint_advance [OF Cons.prems(2), of ?w] Cons.prems(3) b bar_width_nonneg [of ms] by (simp add: label_width_int)
    consider "open_item > 0" "i = unat (open_item - 1)" "x1 = item_x" "x2 = ?x"
      | "DrawBox frame x1 y1 x2 y2 0x80 True \<in> set (draw_bar_items frame y cy open_item ?x (Suc i) ms)"
      using Cons.prems(4) False w by (auto simp: Let_def split: if_splits)
    then show ?thesis
    proof cases
      case 1
      then show ?thesis using False Cons.prems(5,6) by (simp add: Let_def word_sle_eq)
    next
      case 2
      have "bar_hit px ?x (Suc i) ms = Some (unat (open_item - 1)) \<and> ?x \<le>s x1"
        by (rule Cons.IH [OF a _ _ 2 Cons.prems(5,6)]) (use x Cons.prems(2,3) b in simp_all)
      then show ?thesis using False x Cons.prems(5) by (auto simp: Let_def word_sle_eq word_sless_alt)
    qed
  qed
qed simp

text \<open>
  What the menu bar highlights is what a click opens: with labels of ASCII characters that fit the
  coordinates, a click anywhere inside the highlighted box of the bar is a hit on the open item itself.
\<close>

theorem menu_highlight_is_hit:
  assumes "ascii_menu items" "0 \<le> sint (x + 4)" "sint (x + 4) + bar_width items < 2 ^ 31"
    and "DrawBox frame x1 y1 x2 y2 0x80 True \<in> set (draw_menu frame x y cx cy items open_item)"
    and "x1 \<le>s px" "px <s x2"
  shows "bar_hit px (x + 4) 0 items = Some (unat (open_item - 1))"
proof -
  have "DrawBox frame x1 y1 x2 y2 0x80 True \<notin> set (draw_drop_items frame dx dy ci ms)" for dx dy ci ms
    by (induction ms arbitrary: ci) (auto simp: Let_def)
  then have "DrawBox frame x1 y1 x2 y2 0x80 True \<in> set (draw_bar_items frame y cy open_item (x + 4) 0 items)"
    using assms(4) by (auto simp: draw_menu_def Let_def split: if_splits)
  from highlight_hit [OF assms(1-3) this assms(5,6)] show ?thesis by blast
qed

text \<open>The second item of the menu is open; a click in the middle of its box.\<close>

definition bar_demo :: "menu_item list" where
  "bar_demo = [MenuItem 1 0x11 0 [70] [MenuItem 2 1 0 [79, 112] [], MenuItem 3 4 0 [] []], MenuItem 4 1 0 [72] []]"

theorem menu_highlight_is_hit_witness:
  "bar_hit 40 4 0 bar_demo = None \<and> bar_hit 25 (0 + 4) 0 bar_demo = Some (unat (2 - 1 :: u32))"
proof -
  have a: "ascii_menu bar_demo" "bar_width bar_demo = 32" by (simp_all add: ascii_menu_def bar_width_def bar_demo_def menu_label_def)
  have d: "DrawBox 7 20 0 36 20 0x80 True \<in> set (draw_menu 7 0 0 100 20 bar_demo 2)"
    by (simp add: draw_menu_def bar_demo_def is_separator_def mis_defs drawn_width_def menu_label_def as_bytes_def utf8_char_def)
  have s: "0 \<le> sint (0 + 4 :: u32)" "sint (0 + 4 :: u32) + bar_width bar_demo < 2 ^ 31" using a by simp_all
  have "bar_hit 25 (0 + 4) 0 bar_demo = Some (unat (2 - 1 :: u32))"
    by (rule menu_highlight_is_hit [OF a(1) s d]) (simp_all add: word_sle_eq word_sless_alt)
  moreover have "bar_hit 40 4 0 bar_demo = None"
    by (simp add: bar_demo_def is_separator_def mis_defs label_width_def menu_label_def word_sle_eq word_sless_alt)
  ultimately show ?thesis by blast
qed

text \<open>
  With a letter outside ASCII the bar is drawn wider than clicks have it: the second item is highlighted
  from 28 to 52, and a click at 48 hits nothing.
\<close>

lemma accented_menu_misses:
  fixes items :: "menu_item list"
  defines "items \<equiv> [MenuItem 1 1 0 [233] [], MenuItem 2 1 0 [65, 65] []]"
  shows "DrawBox 7 28 0 52 20 0x80 True \<in> set (draw_menu 7 0 0 100 20 items 2)" "bar_hit 48 4 0 items = None"
  by (simp_all add: items_def draw_menu_def is_separator_def mis_defs drawn_width_def label_width_def menu_label_def
      as_bytes_def utf8_char_def word_sle_eq word_sless_alt)

end
