(* ===== verification/Startup.thy ===== *)
theory Startup
  imports Vcpu_Calls Host_Backend
begin

unbundle bit_operations_syntax

text \<open>
  What the guest finds when it starts (\<^verbatim>\<open>setup_guest\<close>, \<^verbatim>\<open>create_initial_vcpu\<close> and
  \<^verbatim>\<open>setup_vcpu_segments_32bit\<close> in \<^verbatim>\<open>src/src/loader/vcpu.rs\<close>): environment, information blocks, BIOS data
  area, thunks and tables, the registers and the stack of the first thread. \<open>None\<close> is a panic.
\<close>

section \<open>Registers\<close>

record guest_segment =
  sg_base :: u64
  sg_limit :: u32
  sg_selector :: u16
  sg_type :: u8
  sg_present :: u8
  sg_dpl :: u8
  sg_db :: u8
  sg_s :: u8
  sg_l :: u8
  sg_g :: u8
  sg_avl :: u8
  sg_unusable :: u8

record guest_sregs =
  sr_cs :: guest_segment
  sr_ds :: guest_segment
  sr_es :: guest_segment
  sr_fs :: guest_segment
  sr_gs :: guest_segment
  sr_ss :: guest_segment
  sr_gdt_base :: u64
  sr_gdt_limit :: u32
  sr_idt_base :: u64
  sr_idt_limit :: u32
  sr_cr0 :: u64
  sr_cr2 :: u64
  sr_cr4 :: u64

definition GDT_ENTRY_COUNT :: u32 where "GDT_ENTRY_COUNT = 6 + NUM_TILES + NUM_CODE_TILES"
definition GDT_SIZE :: u32 where "GDT_SIZE = GDT_ENTRY_COUNT * 8"

definition setup_vcpu_segments_32bit :: "guest_sregs \<Rightarrow> u64 \<Rightarrow> guest_sregs" where
  "setup_vcpu_segments_32bit sr tib_base =
    (let cs = (sr_cs sr)\<lparr> sg_base := 0, sg_limit := 0xFFFFFFFF, sg_g := 1, sg_db := 1, sg_present := 1,
                sg_type := 11, sg_s := 1, sg_selector := 0x08 \<rparr>;
         ds = cs\<lparr> sg_type := 3, sg_selector := 0x10 \<rparr>;
         fs = ds\<lparr> sg_base := tib_base, sg_limit := 0xFFF, sg_selector := 0x18 \<rparr> in
     sr\<lparr> sr_cs := cs, sr_ds := ds, sr_es := ds, sr_gs := ds, sr_ss := ds, sr_fs := fs,
         sr_cr0 := ((sr_cr0 sr OR 1 OR push_bit 5 1) AND NOT (push_bit 2 1)) AND NOT (push_bit 3 1),
         sr_cr4 := sr_cr4 sr OR push_bit 9 1,
         sr_gdt_base := ucast GDT_BASE, sr_gdt_limit := GDT_SIZE - 1,
         sr_idt_base := ucast IDT_BASE, sr_idt_limit := 32 * 8 - 1 \<rparr>)"

section \<open>Environment and information blocks\<close>

definition ENV_ADDR :: u32 where "ENV_ADDR = 0x00092000"

text \<open>
  The name of the program; \<open>to_upper\<close> is the Unicode upper case mapping of a character.
\<close>

definition os2_exe_name :: "(nat \<Rightarrow> ustring) \<Rightarrow> ustring \<Rightarrow> ustring" where
  "os2_exe_name to_upper exe_name =
    (if exe_name = [] then ustr ''C:'' @ [0x5C] @ ustr ''APP.EXE''
     else ustr ''C:'' @ [0x5C] @
       (case path_file_name (comps exe_name) of Some f \<Rightarrow> concat (map to_upper f) | None \<Rightarrow> ustr ''APP.EXE''))"

definition env_string :: "string \<Rightarrow> string \<Rightarrow> u8 list" where
  "env_string var path = as_bytes (ustr var @ [0x5C] @ ustr path) @ [0]"

text \<open>The strings of the environment, their end, and the name of the program; the second is the offset of the name.\<close>

definition env_block :: "u8 list list \<Rightarrow> ustring \<Rightarrow> u8 list \<times> u32" where
  "env_block vars os2_exe =
    (let env = concat vars @ [0] in (env @ as_bytes os2_exe @ [0], of_nat (length env)))"

definition lx_environment :: "u8 list list" where
  "lx_environment = [env_string ''PATH=C:'' '''', env_string ''COMSPEC=C:'' ''4OS2.EXE'', as_bytes (ustr ''OS=OS2'') @ [0],
     env_string ''TMP=C:'' ''TMP'']"

definition place_environment ::
    "u8 list list \<Rightarrow> ustring \<Rightarrow> guest_memory \<Rightarrow> memory_manager \<Rightarrow> (u32 \<times> u32 \<times> guest_memory \<times> memory_manager) option" where
  "place_environment vars os2_exe g mm =
    (let (block, cmdline_offset) = env_block vars os2_exe in
     case mm_alloc mm (of_nat (length block)) of
       (None, mm') \<Rightarrow> None
     | (Some env_addr, mm') \<Rightarrow>
         do { g' \<leftarrow> gm_write_bytes g env_addr block;
              Some (env_addr, env_addr + cmdline_offset, g', mm') })"

definition info_block_dwords :: "u32 \<Rightarrow> u32 \<Rightarrow> (u32 \<times> u32) list" where
  "info_block_dwords env_addr cmdline_addr =
    (let tib2_addr = TIB_BASE + 0x40 in
     [(TIB_BASE + 0x0C, tib2_addr), (TIB_BASE + 0x18, TIB_BASE), (TIB_BASE + 0x30, PIB_BASE),
      (tib2_addr, 1), (tib2_addr + 4, 0), (PIB_BASE, 42), (PIB_BASE + 0x0C, cmdline_addr), (PIB_BASE + 0x10, env_addr)])"

definition bda_stores :: "vio_manager \<Rightarrow> guest_store list" where
  "bda_stores v =
    [W8 0x449 0x03, W16 0x44A (vio_cols v), W16 0x44C (vio_cols v * vio_rows v * 2), W16 0x44E 0, W16 0x450 0,
     W8 0x462 0, W16 0x463 0x3D4, W8 0x484 (ucast (vio_rows v - 1)), W16 0x485 16]"

section \<open>Start of a 32-bit program\<close>

definition object_address :: "lx_file \<Rightarrow> u32 \<Rightarrow> u32 \<Rightarrow> u64 option" where
  "object_address f obj_num off =
    (let i = unat (ucast obj_num - 1 :: u64) in
     if i < length (lxf_object_table f)
     then Some (ucast (obj_base_address (lxf_object_table f ! i)) + ucast off) else None)"

definition setup_guest ::
    "(nat \<Rightarrow> ustring) \<Rightarrow> ustring \<Rightarrow> vio_manager \<Rightarrow> lx_file \<Rightarrow> guest_memory \<Rightarrow> memory_manager
     \<Rightarrow> ((u64 \<times> u64 \<times> u64) \<times> guest_memory \<times> memory_manager) option" where
  "setup_guest to_upper exe_name v f g mm =
    do { entry_eip \<leftarrow> object_address f (lx_eip_object (lxf_header f)) (lx_eip (lxf_header f));
         entry_esp \<leftarrow> object_address f (lx_esp_object (lxf_header f)) (lx_esp (lxf_header f));
         (env_addr, cmdline_addr, g1, mm1) \<leftarrow> place_environment lx_environment (os2_exe_name to_upper exe_name) g mm;
         g2 \<leftarrow> write_dwords g1 0 ((TIB_BASE + TIB_EXCHAIN_OFFSET, XCPT_CHAIN_END) # info_block_dwords env_addr cmdline_addr);
         g3 \<leftarrow> exec_stores g2 (bda_stores v);
         g4 \<leftarrow> setup_stubs g3;
         g5 \<leftarrow> setup_idt g4;
         Some ((entry_eip, entry_esp, ucast TIB_BASE), g5, mm1) }"

definition create_initial_vcpu ::
    "guest_regs \<times> guest_sregs \<Rightarrow> guest_memory \<Rightarrow> u64 \<Rightarrow> u64 \<Rightarrow> (guest_regs \<times> guest_sregs \<times> guest_memory) option" where
  "create_initial_vcpu fresh g entry_eip entry_esp =
    (let regs = (fst fresh)\<lparr> rip := entry_eip, rsp := entry_esp - 20, rflags := 2 \<rparr>;
         cmdline_addr = read_or g (PIB_BASE + 0x0C) ENV_ADDR;
         env_addr = read_or g (PIB_BASE + 0x10) ENV_ADDR in
     do { g' \<leftarrow> write_dwords g (ucast (rsp regs))
                  [(0, EXIT_TRAP_ADDR), (4, 0), (8, 0), (12, env_addr), (16, cmdline_addr)];
          Some (regs, setup_vcpu_segments_32bit (snd fresh) (ucast TIB_BASE), g') })"

end
