(* ===== verification/NE_Exec.thy ===== *)
theory NE_Exec
  imports Startup NE_Parser LX_Loader File_Calls
begin

unbundle bit_operations_syntax

text \<open>
  Loading and running 16-bit programs (\<^verbatim>\<open>src/src/loader/ne_exec.rs\<close>): segments go to 64 KB tiles from 1 MB
  on, relocations patch selectors of the tiled descriptor table into them, imports become offsets in a
  thunk segment of breakpoints. \<open>None\<close> is a panic, or for relocation chains a loop that never ends.
\<close>

section \<open>Constants\<close>

definition NE_SEGMENT_BASE :: u32 where "NE_SEGMENT_BASE = 0x00100000"
definition NE_THUNK_BASE :: u32 where "NE_THUNK_BASE = 0x00F00000"
definition NE_THUNK_TILE_INDEX :: u32 where "NE_THUNK_TILE_INDEX = NE_THUNK_BASE div TILE_SIZE"
definition NE_THUNK_GDT_INDEX :: u32 where "NE_THUNK_GDT_INDEX = TILED_SEL_START_INDEX + NE_THUNK_TILE_INDEX"
definition NE_THUNK_SELECTOR :: u16 where "NE_THUNK_SELECTOR = ucast NE_THUNK_GDT_INDEX * 8"
definition NE_THUNK_CODE_GDT_INDEX :: u32 where "NE_THUNK_CODE_GDT_INDEX = TILED_CODE_START_INDEX + NE_THUNK_TILE_INDEX"
definition NE_THUNK_CODE_SELECTOR :: u16 where "NE_THUNK_CODE_SELECTOR = ucast NE_THUNK_CODE_GDT_INDEX * 8"

definition RELOC_LOBYTE :: u8 where "RELOC_LOBYTE = 0"
definition RELOC_SELECTOR :: u8 where "RELOC_SELECTOR = 2"
definition RELOC_FAR_POINTER :: u8 where "RELOC_FAR_POINTER = 3"
definition RELOC_OFFSET :: u8 where "RELOC_OFFSET = 5"

lemmas reloc_types = RELOC_LOBYTE_def RELOC_SELECTOR_def RELOC_FAR_POINTER_def RELOC_OFFSET_def

section \<open>Segments\<close>

definition segment_addr :: "nat \<Rightarrow> u32" where
  "segment_addr i = NE_SEGMENT_BASE + of_nat i * TILE_SIZE"

definition load_segment ::
    "u16 \<Rightarrow> u8 list \<Rightarrow> guest_memory \<times> io_error option \<Rightarrow> nat \<times> ne_segment_entry \<Rightarrow> (guest_memory \<times> io_error option) option" where
  "load_segment shift file st x =
    (case (st, x) of ((m, Some e), _) \<Rightarrow> Some (m, Some e)
     | ((m, None), (i, seg)) \<Rightarrow>
         let guest_addr = segment_addr i; data_len = actual_data_length seg in
         if 0 < data_len \<and> seg_data_offset seg \<noteq> 0 then
           do { _ \<leftarrow> ptr_at m guest_addr (unat data_len);
                Some (read_into file (unat (file_offset seg shift)) m guest_addr (unat data_len)) }
         else Some (m, None))"

section \<open>Relocations\<close>

definition seg_base :: "u8 \<Rightarrow> u32" where
  "seg_base seg_num = NE_SEGMENT_BASE + (ucast seg_num - 1) * TILE_SIZE"

definition seg_selector :: "u8 \<Rightarrow> u16" where
  "seg_selector seg_num =
    (let tile_idx = NE_SEGMENT_BASE div TILE_SIZE + (ucast seg_num - 1) in
     ucast ((TILED_SEL_START_INDEX + tile_idx) * 8))"

definition resolve_import_16 :: "ustring \<Rightarrow> u16 \<Rightarrow> u16" where
  "resolve_import_16 md ordinal =
    (if md = ustr ''DOSCALLS'' then 0
     else if md = ustr ''VIOCALLS'' then ucast VIOCALLS_BASE
     else if md = ustr ''KBDCALLS'' then ucast KBDCALLS_BASE
     else if md = ustr ''SESMGR'' then ucast SESMGR_BASE
     else if md = ustr ''NLS'' then ucast NLS_BASE
     else if md = ustr ''MSG'' then ucast MSG_BASE
     else ucast STUB_AREA_SIZE - 1) + ordinal"

definition module_name_16 :: "ne_file \<Rightarrow> u16 \<Rightarrow> ustring" where
  "module_name_16 f module_index =
    (if module_index \<noteq> 0 \<and> unat module_index - 1 < length (nef_imported_modules f)
     then nef_imported_modules f ! (unat module_index - 1) else ustr ''?'')"

fun reloc_value :: "ne_file \<Rightarrow> ne_relocation_target \<Rightarrow> (u16 \<times> u16) option" where
  "reloc_value f (InternalRef segment_num offset) = Some (offset, seg_selector segment_num)"
| "reloc_value f (ImportOrdinal module_index ordinal) =
    Some (resolve_import_16 (module_name_16 f module_index) ordinal, NE_THUNK_CODE_SELECTOR)"
| "reloc_value f (ImportName module_index name_offset) = Some (0, NE_THUNK_SELECTOR)"
| "reloc_value f (OsFixup fixup_type) = None"

definition patch :: "u8 \<Rightarrow> u16 \<times> u16 \<Rightarrow> guest_memory \<Rightarrow> u32 \<Rightarrow> guest_memory" where
  "patch source_type target m patch_addr =
    (if source_type = RELOC_FAR_POINTER
     then guest_write_ign (guest_write_ign m patch_addr (fst target)) (patch_addr + 2) (snd target)
     else if source_type = RELOC_SELECTOR then guest_write_ign m patch_addr (snd target)
     else if source_type = RELOC_OFFSET then guest_write_ign m patch_addr (fst target)
     else if source_type = RELOC_LOBYTE then guest_write_ign m patch_addr (ucast (fst target) :: u8)
     else m)"

text \<open>A location that is not additive holds the offset of the next one.\<close>

partial_function (option) patch_chain :: "u32 \<Rightarrow> bool \<Rightarrow> u8 \<Rightarrow> u16 \<times> u16 \<Rightarrow> guest_memory \<Rightarrow> u16 \<Rightarrow> guest_memory option" where
  "patch_chain base is_additive source_type target m offset =
    (let patch_addr = base + ucast offset;
         next_offset = (if is_additive then 0xFFFF else read_dflt m patch_addr 0xFFFF);
         m' = patch source_type target m patch_addr in
     if is_additive \<or> next_offset = 0xFFFF then Some m'
     else patch_chain base is_additive source_type target m' next_offset)"

definition apply_ne_reloc :: "ne_file \<Rightarrow> u32 \<Rightarrow> guest_memory \<Rightarrow> ne_relocation_entry \<Rightarrow> guest_memory option" where
  "apply_ne_reloc f base m r =
    (case reloc_value f (rel_target r) of
       None \<Rightarrow> Some m
     | Some target \<Rightarrow> patch_chain base (rel_is_additive r) (rel_source_type r) target m (rel_source_offset r))"

definition apply_ne_fixups :: "ne_file \<Rightarrow> guest_memory \<Rightarrow> guest_memory option" where
  "apply_ne_fixups f m =
    ofold (\<lambda>m (seg_idx, relocs). ofold (apply_ne_reloc f (seg_base (of_nat seg_idx + 1))) m relocs)
      m (enumerate 0 (nef_relocations_by_segment f))"

definition load_ne :: "ne_file \<Rightarrow> u8 list \<Rightarrow> guest_memory \<Rightarrow> (guest_memory \<times> io_error option) option" where
  "load_ne f file m =
    do { (m1, e) \<leftarrow> ofold (load_segment (ne_alignment_shift_count (nef_header f)) file) (m, None)
                      (enumerate 0 (nef_segment_table f));
         (case e of
            Some err \<Rightarrow> Some (m1, Some err)
          | None \<Rightarrow> do { m2 \<leftarrow> apply_ne_fixups f m1; Some (m2, None) }) }"

section \<open>Set-up\<close>

definition ne_environment :: "u8 list list" where
  "ne_environment = [env_string ''PATH=C:'' '''', env_string ''COMSPEC=C:'' ''CMD.EXE'', as_bytes (ustr ''OS=OS2'') @ [0]]"

definition thunk_stores :: "guest_store list" where
  "thunk_stores = map (\<lambda>i. W8 (NE_THUNK_BASE + of_nat i) 0xCC) [0..<unat TILE_SIZE]"

definition segment_limit :: "ne_segment_entry \<Rightarrow> u32" where
  "segment_limit seg = min (actual_min_alloc seg - 1) 0xFFFF"

definition segment_store :: "nat \<times> ne_segment_entry \<Rightarrow> guest_store" where
  "segment_store x =
    (case x of (i, seg) \<Rightarrow>
       let guest_base = segment_addr i;
           gdt_idx = TILED_SEL_START_INDEX + guest_base div TILE_SIZE in
       W64 (GDT_BASE + gdt_idx * 8)
         (make_gdt_entry guest_base (segment_limit seg) (if seg_is_code seg then 0x9B else 0xD3) 0x00))"

text \<open>The selector of a segment number of the header; 0 stands for no segment.\<close>

definition header_selector :: "u16 \<Rightarrow> u16 \<Rightarrow> u16" where
  "header_selector fallback seg_num =
    (if 0 < seg_num then
       let tile_idx = NE_SEGMENT_BASE div TILE_SIZE + (ucast seg_num - 1) in
       ucast ((TILED_SEL_START_INDEX + tile_idx) * 8)
     else fallback)"

definition initial_sp :: "ne_file \<Rightarrow> u16 option" where
  "initial_sp f =
    (let h = nef_header f in
     if ne_stack_sp h = 0 then
       (if ne_stack_ss h \<noteq> 0 \<and> unat (ne_stack_ss h) - 1 < length (nef_segment_table f)
        then Some (ucast (actual_min_alloc (nef_segment_table f ! (unat (ne_stack_ss h) - 1)))) else None)
     else Some (ne_stack_sp h))"

definition setup_guest_ne ::
    "(nat \<Rightarrow> ustring) \<Rightarrow> ustring \<Rightarrow> vio_manager \<Rightarrow> ne_file \<Rightarrow> guest_memory \<Rightarrow> memory_manager
     \<Rightarrow> ((u16 \<times> u16 \<times> u16 \<times> u16) \<times> guest_memory \<times> memory_manager) option" where
  "setup_guest_ne to_upper exe_name v f g mm =
    do { (env_addr, cmdline_addr, g1, mm1) \<leftarrow> place_environment ne_environment (os2_exe_name to_upper exe_name) g mm;
         g2 \<leftarrow> write_dwords g1 0 (info_block_dwords env_addr cmdline_addr);
         g3 \<leftarrow> exec_stores g2 (bda_stores v);
         g4 \<leftarrow> setup_stubs g3;
         g5 \<leftarrow> setup_idt g4;
         g6 \<leftarrow> exec_stores g5 thunk_stores;
         g7 \<leftarrow> exec_stores g6 (map segment_store (enumerate 0 (nef_segment_table f)));
         sp \<leftarrow> initial_sp f;
         Some ((header_selector 0x08 (ne_entry_cs (nef_header f)), ne_entry_ip (nef_header f),
                header_selector 0x10 (ne_stack_ss (nef_header f)), sp), g7, mm1) }"

section \<open>The first thread\<close>

definition segment_16 :: "guest_memory \<Rightarrow> u16 \<Rightarrow> u8 \<Rightarrow> guest_segment" where
  "segment_16 g sel ty =
    \<lparr> sg_base = ucast (gdt_entry_base g sel), sg_limit = gdt_entry_limit g sel, sg_selector = sel, sg_type = ty,
      sg_present = 1, sg_dpl = 0, sg_db = 0, sg_s = 1, sg_l = 0, sg_g = 0, sg_avl = 0, sg_unusable = 0 \<rparr>"

definition flat_segment :: guest_segment where
  "flat_segment =
    \<lparr> sg_base = 0, sg_limit = 0xFFFFFFFF, sg_selector = 0x10, sg_type = 3,
      sg_present = 1, sg_dpl = 0, sg_db = 1, sg_s = 1, sg_l = 0, sg_g = 1, sg_avl = 0, sg_unusable = 0 \<rparr>"

definition ne_initial_vcpu ::
    "guest_regs \<times> guest_sregs \<Rightarrow> ne_file \<Rightarrow> guest_memory \<Rightarrow> u16 \<times> u16 \<times> u16 \<times> u16 \<Rightarrow> guest_regs \<times> guest_sregs" where
  "ne_initial_vcpu fresh f g entry =
    (case entry of (cs_sel, entry_ip, ss_sel, sp) \<Rightarrow>
       let auto_ds = ne_auto_data_segment (nef_header f);
           ds_sel = (if 0 < auto_ds \<and> unat auto_ds \<le> length (nef_segment_table f)
                     then header_selector ss_sel auto_ds else ss_sel);
           ds = segment_16 g ds_sel 3 in
       ((fst fresh)\<lparr> rip := ucast entry_ip, rsp := ucast sp, rflags := 2 \<rparr>,
        (snd fresh)\<lparr> sr_gdt_base := ucast GDT_BASE, sr_gdt_limit := GDT_SIZE - 1, sr_idt_base := ucast IDT_BASE,
          sr_idt_limit := 32 * 8 - 1, sr_cr0 := 0x11, sr_cs := segment_16 g cs_sel 11, sr_ds := ds, sr_es := ds,
          sr_ss := segment_16 g ss_sel 3, sr_fs := flat_segment, sr_gs := flat_segment \<rparr>))"

section \<open>Calls\<close>

record ne_state =
  nc_guest :: guest_memory
  nc_console :: vio_manager
  nc_cp :: u32
  nc_exit_code :: u32
  nc_exit_requested :: bool
  nc_host_out :: "(u32 \<times> ustring) list"

definition nc_write :: "ne_state \<Rightarrow> u32 \<Rightarrow> u16 \<Rightarrow> ne_state" where
  "nc_write st p v = (if p \<noteq> 0 then st\<lparr> nc_guest := guest_write_ign (nc_guest st) p v \<rparr> else st)"

definition ne_dos_call :: "(u32 \<Rightarrow> u16) \<Rightarrow> (u32 \<Rightarrow> u32) \<Rightarrow> ne_state \<Rightarrow> u16 \<Rightarrow> u32 \<times> ne_state" where
  "ne_dos_call arg16 far_ptr st ordinal =
    (if ordinal = 5 then (0, st\<lparr> nc_exit_code := ucast (arg16 0), nc_exit_requested := True \<rparr>)
     else if ordinal = 138 then
       let pcb_written = far_ptr 0; cb_buf = arg16 4; p_buf = far_ptr 6; hf = arg16 10 in
       (case gm_slice (nc_guest st) p_buf (unat cb_buf) of
          Some data \<Rightarrow>
            (case (if hf = 1 \<or> hf = 2 then api_dos_write (ucast hf) data else None) of
               Some (actual, out) \<Rightarrow>
                 (0, nc_write (st\<lparr> nc_host_out := nc_host_out st @ [(ucast hf, out)] \<rparr>) pcb_written (ucast actual))
             | None \<Rightarrow> (1, st))
        | None \<Rightarrow> (1, st))
     else if ordinal = 94 then
       let p_cmd_offset = far_ptr 0; p_env_sel = far_ptr 4 in (0, nc_write (nc_write st p_env_sel 0) p_cmd_offset 0)
     else (0, st))"

definition handle_ne_api_call ::
    "encoding_rs \<Rightarrow> guest_regs \<Rightarrow> guest_sregs \<Rightarrow> ne_state \<Rightarrow> u16 \<Rightarrow> u32 \<times> ne_state" where
  "handle_ne_api_call rs regs sr st ordinal =
    (let g = nc_guest st;
         arg_base = ucast (sg_base (sr_ss sr)) + ucast (ucast (rsp regs) :: u16) + 4;
         arg16 = (\<lambda>off. read_dflt g (arg_base + off) 0);
         far_ptr = (\<lambda>off. gdt_entry_base g (arg16 (off + 2)) + ucast (arg16 off)) in
     if ucast ordinal < KBDCALLS_BASE then ne_dos_call arg16 far_ptr st ordinal
     else if VIOCALLS_BASE \<le> ucast ordinal \<and> ucast ordinal < VIOCALLS_BASE + 1024 then
       (if ucast ordinal - VIOCALLS_BASE = 19 then
          (case gm_slice g (far_ptr 4) (unat (arg16 2)) of
             Some data \<Rightarrow> (0, st\<lparr> nc_console := write_tty rs (nc_console st) data 0x07 (nc_cp st) \<rparr>)
           | None \<Rightarrow> (0, st))
        else (0, st))
     else (0, st))"

definition ne_api_arg_bytes :: "u16 \<Rightarrow> u16" where
  "ne_api_arg_bytes ordinal =
    (if ucast ordinal < KBDCALLS_BASE then
       (if ordinal = 5 then 4 else if ordinal = 8 then 8 else if ordinal = 41 then 10 else if ordinal = 49 then 8
        else if ordinal = 92 then 4 else if ordinal = 94 then 8 else if ordinal = 138 then 12 else 0)
     else if ucast ordinal < VIOCALLS_BASE + 1024 then (if ucast ordinal - VIOCALLS_BASE = 19 then 8 else 0)
     else 0)"

end
