(* ===== verification/Vcpu_Exits.thy ===== *)
theory Vcpu_Exits
  imports NE_Exec
begin

unbundle bit_operations_syntax

text \<open>
  What the loop of a virtual CPU does with the reason why the guest was left (\<^verbatim>\<open>run_vcpu\<close> in
  \<^verbatim>\<open>src/src/loader/vcpu.rs\<close>), with no debugger attached: a breakpoint is a stub of the interrupt table, a
  thunk of a 16-bit or of a 32-bit call, or a bug of the guest. The handler of 32-bit calls is a parameter.
  \<open>None\<close> is a panic or a loop that has not returned. A call that asks the process to exit stops the loop,
  which looks at the request before it enters the guest again.
\<close>

section \<open>State\<close>

datatype vm_exit =
    DebugExit
  | HltExit
  | MmioReadExit u64 nat
  | MmioWriteExit u64
  | ShutdownExit
  | OtherExit ustring

record cpu_state =
  cx_vcpu :: vcpu_state
  cx_sregs :: guest_sregs
  cx_console :: vio_manager
  cx_cp :: u32
  cx_host_out :: "(u32 \<times> ustring) list"

abbreviation cx_guest :: "cpu_state \<Rightarrow> guest_memory" where "cx_guest st \<equiv> vc_guest (cx_vcpu st)"
abbreviation cx_regs :: "cpu_state \<Rightarrow> guest_regs" where "cx_regs st \<equiv> vc_regs (cx_vcpu st)"

definition cx_set :: "cpu_state \<Rightarrow> vcpu_state \<Rightarrow> cpu_state" where
  "cx_set st v = st\<lparr> cx_vcpu := v \<rparr>"

text \<open>The end of the thread, with an exit code after a crash.\<close>

definition cx_stop :: "cpu_state \<Rightarrow> int option \<Rightarrow> cpu_state" where
  "cx_stop st code =
    cx_set st ((cx_vcpu st)\<lparr> vc_exit := (case code of Some c \<Rightarrow> Some c | None \<Rightarrow> vc_exit (cx_vcpu st)), vc_stopped := True \<rparr>)"

section \<open>Faults\<close>

text \<open>A 16-bit stack segment makes the processor use the low half of the stack pointer.\<close>

definition exc_frame_base :: "guest_regs \<Rightarrow> guest_sregs \<Rightarrow> u32" where
  "exc_frame_base regs sr =
    (if sg_db (sr_ss sr) = 0 then ucast (sg_base (sr_ss sr)) + ucast (ucast (rsp regs) :: u16) else ucast (rsp regs))"

text \<open>The frame of a 16-bit thunk of the compiler: a saved frame pointer that points behind itself, next to the saved stack selector.\<close>

definition thunk_frame_at :: "guest_memory \<Rightarrow> u32 \<Rightarrow> bool" where
  "thunk_frame_at g addr \<longleftrightarrow> read_or g addr 0 = addr + 8 \<and> read_dflt g (addr + 4) (0 :: u16) = 0x10"

partial_function (option) scan_thunk_frame :: "guest_memory \<Rightarrow> u32 \<Rightarrow> u32 \<Rightarrow> u32 option option" where
  "scan_thunk_frame g scan_end addr =
    (if addr < scan_end + 8 then Some None
     else if thunk_frame_at g addr then Some (Some (addr + 8))
     else scan_thunk_frame g scan_end (addr - 4))"

definition is_tiled_selector :: "u32 \<Rightarrow> bool" where
  "is_tiled_selector error_code =
    (let i = error_code div 8 in
     (TILED_SEL_START_INDEX \<le> i \<and> i < TILED_SEL_START_INDEX + NUM_TILES) \<or>
     (TILED_CODE_START_INDEX \<le> i \<and> i < TILED_CODE_START_INDEX + NUM_CODE_TILES))"

definition is_far16_thunk :: "guest_memory \<Rightarrow> u32 \<Rightarrow> bool" where
  "is_far16_thunk g fault_eip =
    (let b0 = read_dflt g fault_eip (0 :: u8); b1 = read_dflt g (fault_eip + 1) (0 :: u8); b2 = read_dflt g (fault_eip + 2) (0 :: u8) in
     (b0 = 0x66 \<and> b1 = 0xEA) \<or> (b0 = 0x66 \<and> b1 = 0x0F \<and> b2 = 0xB2))"

text \<open>The thunk returns 0 to its caller: the registers its prologue saved come from the frame.\<close>

definition unwind_thunk :: "guest_memory \<Rightarrow> guest_regs \<Rightarrow> guest_sregs \<Rightarrow> u32 \<Rightarrow> u32 \<Rightarrow> guest_regs \<times> guest_sregs" where
  "unwind_thunk g regs sr ebp fault_eflags =
    (let s_ds = read_or g ebp 0x10;
         flat = (\<lambda>s. s\<lparr> sg_selector := ucast s_ds, sg_base := 0, sg_limit := 0xFFFFFFFF, sg_db := 1, sg_type := 3 \<rparr>) in
     (regs\<lparr> rip := ucast (read_or g (ebp + 24) 0), rsp := ucast (ebp + 28), rax := 0, rbx := ucast (read_or g (ebp + 12) 0),
        rdx := ucast (read_or g (ebp + 8) 0), rdi := ucast (read_or g (ebp + 16) 0), rbp := ucast (read_or g (ebp + 20) 0),
        rflags := ucast fault_eflags \<rparr>,
      sr\<lparr> sr_cs := (sr_cs sr)\<lparr> sg_selector := 0x08, sg_base := 0, sg_limit := 0xFFFFFFFF, sg_db := 1, sg_type := 0x0B \<rparr>,
          sr_ds := flat (sr_ds sr), sr_es := flat (sr_es sr), sr_ss := flat (sr_ss sr) \<rparr>))"

definition fault_of :: "guest_regs \<Rightarrow> guest_sregs \<Rightarrow> u32 \<Rightarrow> u32 \<Rightarrow> u32 \<Rightarrow> u32 \<Rightarrow> fault_context" where
  "fault_of regs sr frame_base fault_eip fault_cs fault_eflags =
    \<lparr> fc_eax = ucast (rax regs), fc_ebx = ucast (rbx regs), fc_ecx = ucast (rcx regs), fc_edx = ucast (rdx regs),
      fc_esi = ucast (rsi regs), fc_edi = ucast (rdi regs), fc_ebp = ucast (rbp regs), fc_esp = frame_base + 20,
      fc_eip = fault_eip, fc_eflags = fault_eflags, fc_cs = ucast fault_cs, fc_ds = sg_selector (sr_ds sr),
      fc_es = sg_selector (sr_es sr), fc_fs = sg_selector (sr_fs sr), fc_gs = sg_selector (sr_gs sr), fc_ss = sg_selector (sr_ss sr) \<rparr>"

definition dispatch_fault :: "cpu_state \<Rightarrow> fault_context \<Rightarrow> u32 \<Rightarrow> u32 \<Rightarrow> cpu_state option" where
  "dispatch_fault st fault vector error_code =
    (let v = cx_vcpu st in
     do { (r, seh) \<leftarrow> try_hw_exception_dispatch \<lparr> ss_guest = vc_guest v, ss_mem = vc_mem v \<rparr> fault vector error_code;
          (case r of
             None \<Rightarrow> Some (cx_stop st (Some 1))
           | Some d \<Rightarrow> do { v' \<leftarrow> dispatch_exception (v\<lparr> vc_guest := ss_guest seh, vc_mem := ss_mem seh \<rparr>) d;
                             Some (cx_set st v') }) })"

definition idt_exit :: "cpu_state \<Rightarrow> cpu_state option" where
  "idt_exit st =
    (let g = cx_guest st; regs = cx_regs st; sr = cx_sregs st; base = exc_frame_base regs sr;
         vector = read_or g base 0xFF; error_code = read_or g (base + 4) 0; fault_eip = read_or g (base + 8) 0;
         fault_cs = read_or g (base + 12) 0; fault_eflags = read_or g (base + 16) 0;
         dispatch = dispatch_fault st (fault_of regs sr base fault_eip fault_cs fault_eflags) vector error_code in
     if vector = 13 \<and> fault_cs = 0x08 \<and> is_tiled_selector error_code \<and> is_far16_thunk g fault_eip then
       let stack_upper = (ucast (rsp regs) :: u32) AND 0xFFFF0000 in
       do { frame \<leftarrow> scan_thunk_frame g stack_upper (stack_upper OR 0xFF00);
            (case frame of
               Some ebp \<Rightarrow>
                 let (regs', sr') = unwind_thunk g regs sr ebp fault_eflags in
                 Some (cx_set (st\<lparr> cx_sregs := sr' \<rparr>) ((cx_vcpu st)\<lparr> vc_regs := regs' \<rparr>))
             | None \<Rightarrow> dispatch) }
     else dispatch)"

section \<open>Thunks\<close>

text \<open>A 16-bit call: the far return address is popped, then the arguments.\<close>

definition ne_exit :: "encoding_rs \<Rightarrow> cpu_state \<Rightarrow> u16 \<Rightarrow> cpu_state" where
  "ne_exit rs st ordinal =
    (let (result, n) = handle_ne_api_call rs (cx_regs st) (cx_sregs st)
           \<lparr> nc_guest = cx_guest st, nc_console = cx_console st, nc_cp = cx_cp st, nc_exit_code = 0,
             nc_exit_requested = False, nc_host_out = cx_host_out st \<rparr> ordinal;
         g = nc_guest n;
         sp = (ucast (rsp (cx_regs st)) :: u16);
         ss_base = (ucast (sg_base (sr_ss (cx_sregs st))) :: u32);
         ret_ip = read_dflt g (ss_base + ucast sp) (0 :: u16);
         ret_cs = read_dflt g (ss_base + ucast sp + 2) (0 :: u16);
         regs = (cx_regs st)\<lparr> rax := ucast result, rsp := ucast (sp + 4 + ne_api_arg_bytes ordinal), rip := ucast ret_ip \<rparr>;
         cs = (sr_cs (cx_sregs st))\<lparr> sg_base := ucast (gdt_entry_base g ret_cs), sg_limit := gdt_entry_limit g ret_cs,
                 sg_selector := ret_cs, sg_type := 11, sg_db := 0, sg_present := 1, sg_s := 1 \<rparr>;
         st' = st\<lparr> cx_vcpu := (cx_vcpu st)\<lparr> vc_guest := g, vc_regs := regs \<rparr>, cx_sregs := (cx_sregs st)\<lparr> sr_cs := cs \<rparr>,
                   cx_console := nc_console n, cx_host_out := nc_host_out n \<rparr> in
     if nc_exit_requested n then cx_stop st' (Some (uint (nc_exit_code n))) else st')"

definition api_exit ::
    "(u32 \<Rightarrow> vcpu_state \<Rightarrow> (api_result \<times> vcpu_state) option) \<Rightarrow> cpu_state \<Rightarrow> dlg_pass list \<Rightarrow> cpu_state option" where
  "api_exit call st obs =
    (let ip = rip (cx_regs st) in
     if ip = ucast EXIT_TRAP_ADDR then Some (cx_stop st None)
     else if ip = ucast CALLBACK_RET_TRAP then map_option (cx_set st) (callback_return (cx_vcpu st) obs)
     else
       let ordinal = ucast (ip - MAGIC_API_BASE) in
       do { (r, v) \<leftarrow> call ordinal (cx_vcpu st);
            map_option (cx_set st) (complete_call v ordinal obs r) })"

definition debug_exit ::
    "encoding_rs \<Rightarrow> (u32 \<Rightarrow> vcpu_state \<Rightarrow> (api_result \<times> vcpu_state) option) \<Rightarrow> cpu_state \<Rightarrow> dlg_pass list \<Rightarrow> cpu_state option" where
  "debug_exit rs call st obs =
    (let ip = rip (cx_regs st); flat = sg_base (sr_cs (cx_sregs st)) + ip in
     if ucast IDT_HANDLER_BASE \<le> ip \<and> ip < ucast IDT_HANDLER_BASE + 32 * 16 then idt_exit st
     else if ucast NE_THUNK_BASE \<le> flat \<and> flat < ucast (NE_THUNK_BASE + TILE_SIZE) then
       Some (ne_exit rs st (ucast (flat - ucast NE_THUNK_BASE)))
     else if MAGIC_API_BASE \<le> ip \<and> ip < MAGIC_API_BASE + ucast STUB_AREA_SIZE then api_exit call st obs
     else Some (cx_stop st None))"

fun handle_exit ::
    "encoding_rs \<Rightarrow> (u32 \<Rightarrow> vcpu_state \<Rightarrow> (api_result \<times> vcpu_state) option) \<Rightarrow> cpu_state \<Rightarrow> dlg_pass list \<Rightarrow> vm_exit \<Rightarrow> cpu_state option" where
  "handle_exit rs call st obs DebugExit = debug_exit rs call st obs"
| "handle_exit rs call st obs HltExit = Some (cx_stop st None)"
| "handle_exit rs call st obs (MmioReadExit addr sz) = Some st"
| "handle_exit rs call st obs (MmioWriteExit addr) = Some st"
| "handle_exit rs call st obs ShutdownExit = Some (cx_stop st (Some 1))"
| "handle_exit rs call st obs (OtherExit e) = Some (cx_stop st (Some 1))"

end
