(* ===== verification/NE_Props.thy ===== *)
theory NE_Props
  imports NE_Exec Sys_Props
begin

text \<open>
  Relocation chains patch every location of the chain, or never end; the selectors that relocations
  write are those of the segments in the descriptor table, and imports reach the breakpoint of their ordinal.
\<close>

section \<open>Relocation chains\<close>

fun patch_bytes :: "u8 \<Rightarrow> u16 \<times> u16 \<Rightarrow> u8 list" where
  "patch_bytes ty (off, sel) =
    (if ty = RELOC_FAR_POINTER then le_bytes 2 off @ le_bytes 2 sel
     else if ty = RELOC_SELECTOR then le_bytes 2 sel
     else if ty = RELOC_OFFSET then le_bytes 2 off
     else if ty = RELOC_LOBYTE then [ucast off] else [])"

lemma write_ign_put:
  fixes v :: "'a::len word"
  assumes "unat p + size_of TYPE('a) \<le> gm_size m" "gm_size m \<le> 2 ^ 32"
  shows "guest_write_ign m p v = gm_put m (unat p) (le_bytes (size_of TYPE('a)) v)"
  using assms by (simp add: guest_write_ign_def gm_write_def ptr_at_def)

lemma put_put:
  assumes "p + length xs + length ys \<le> gm_size m"
  shows "gm_put (gm_put m p xs) (p + length xs) ys = gm_put m p (xs @ ys)"
  using assms by (simp add: gm_put_def gm_size_def ac_simps)

lemma patch_put:
  assumes "unat a + 4 \<le> gm_size m" "gm_size m \<le> 2 ^ 32"
  shows "patch ty t m a = gm_put m (unat a) (patch_bytes ty t)"
proof -
  obtain off sel where t: "t = (off, sel)" by fastforce
  have sz: "size_of TYPE(16) = 2" "size_of TYPE(8) = 1" by (simp_all add: size_of_def)
  have a2: "unat (a + 2) = unat a + 2"
    using assms(1,2) by (subst unat_add_lem [THEN iffD1]) simp_all
  have w: "guest_write_ign m a x = gm_put m (unat a) (le_bytes 2 x)" for x :: u16
    using write_ign_put [of a m x] assms(1,2) by (simp add: sz)
  have w1: "guest_write_ign m a x = gm_put m (unat a) [x]" for x :: u8
    using write_ign_put [of a m x] assms(1,2) by (simp add: sz)
  have s: "gm_size (gm_put m (unat a) (le_bytes 2 off)) = gm_size m" using assms(1) by (intro gm_size_put) simp
  have "guest_write_ign (gm_put m (unat a) (le_bytes 2 off)) (a + 2) sel =
      gm_put (gm_put m (unat a) (le_bytes 2 off)) (unat a + 2) (le_bytes 2 sel)"
    using write_ign_put [of "a + 2" _ sel] assms(1,2) by (simp add: sz s a2)
  also have "\<dots> = gm_put m (unat a) (le_bytes 2 off @ le_bytes 2 sel)"
    using put_put [of "unat a" "le_bytes 2 off" "le_bytes 2 sel" m] assms(1) by simp
  finally have w2: "guest_write_ign (gm_put m (unat a) (le_bytes 2 off)) (a + 2) sel = \<dots>" .
  have e: "gm_put m (unat a) [] = m" by (simp add: gm_put_def)
  show ?thesis by (simp add: patch_def t w w1 w2 e del: le_bytes.simps)
qed

lemma patch_bytes_length: "length (patch_bytes ty t) \<le> 4"
  by (cases t) simp

lemma patch_spec:
  assumes "unat a + 4 \<le> gm_size m" "gm_size m \<le> 2 ^ 32"
  shows "gm_size (patch ty t m a) = gm_size m"
    "take (length (patch_bytes ty t)) (drop (unat a) (gm_bytes (patch ty t m a))) = patch_bytes ty t"
    "p + k \<le> unat a \<or> unat a + length (patch_bytes ty t) \<le> p \<Longrightarrow>
      take k (drop p (gm_bytes (patch ty t m a))) = take k (drop p (gm_bytes m))"
proof -
  have b: "unat a + length (patch_bytes ty t) \<le> gm_size m"
    using assms(1) patch_bytes_length [of ty t] by simp
  show "gm_size (patch ty t m a) = gm_size m" unfolding patch_put [OF assms] by (rule gm_size_put [OF b])
  show "take (length (patch_bytes ty t)) (drop (unat a) (gm_bytes (patch ty t m a))) = patch_bytes ty t"
    unfolding patch_put [OF assms] by (rule put_same [OF b])
  show "p + k \<le> unat a \<or> unat a + length (patch_bytes ty t) \<le> p \<Longrightarrow>
      take k (drop p (gm_bytes (patch ty t m a))) = take k (drop p (gm_bytes m))"
    unfolding patch_put [OF assms] by (rule put_other [OF b])
qed

text \<open>A chain in memory: each location holds the offset of the next, the last one holds \<^verbatim>\<open>0xFFFF\<close>.\<close>

fun chain_in :: "guest_memory \<Rightarrow> u32 \<Rightarrow> u16 list \<Rightarrow> bool" where
  "chain_in m base [] \<longleftrightarrow> False"
| "chain_in m base [u] \<longleftrightarrow> gm_read m (base + ucast u) = Some (0xFFFF :: u16)"
| "chain_in m base (u # u' # us) \<longleftrightarrow> gm_read m (base + ucast u) = Some u' \<and> u' \<noteq> 0xFFFF \<and> chain_in m base (u' # us)"

text \<open>Two locations whose fields, the patched one and the link, do not overlap.\<close>

definition apart :: "u8 \<Rightarrow> u16 \<times> u16 \<Rightarrow> u16 \<Rightarrow> u16 \<Rightarrow> bool" where
  "apart ty t u v \<longleftrightarrow> (let n = max 2 (length (patch_bytes ty t)) in unat u + n \<le> unat v \<or> unat v + n \<le> unat u)"

lemma chain_in_kept:
  assumes "chain_in m base us" "\<forall>u \<in> set us. gm_read m' (base + ucast u) = (gm_read m (base + ucast u) :: u16 option)"
  shows "chain_in m' base us"
  using assms by (induction m base us rule: chain_in.induct) auto

lemma location_at:
  assumes "unat base + 0x10004 \<le> 2 ^ 32"
  shows "unat (base + ucast (u :: u16) :: u32) = unat base + unat u"
proof -
  have c: "unat (ucast u :: u32) = unat u" by simp
  have h: "unat base \<le> 4294901756" using assms by simp
  have "unat base + unat u < 4294901756 + 65536" by (rule add_le_less_mono [OF h unat_u16_lt])
  then show ?thesis by (subst unat_add_lem [THEN iffD1]) (simp_all add: c)
qed

text \<open>
  C20. For a relocation that is not additive the loader follows the chain of locations in the segment to its
  end, and afterwards each location holds the target in the form of the relocation (far pointer, selector,
  offset or low byte) and no other byte of guest memory has changed.
\<close>

theorem reloc_chain_patched:
  assumes "chain_in m base us" "sorted_wrt (apart ty t) us"
    and "unat base + 0x10004 \<le> gm_size m" "gm_size m \<le> 2 ^ 32"
  shows "\<exists>m'. patch_chain base False ty t m (hd us) = Some m' \<and> gm_size m' = gm_size m \<and>
    (\<forall>u \<in> set us. take (length (patch_bytes ty t)) (drop (unat base + unat u) (gm_bytes m')) = patch_bytes ty t) \<and>
    (\<forall>p k. (\<forall>u \<in> set us. p + k \<le> unat base + unat u \<or> unat base + unat u + length (patch_bytes ty t) \<le> p) \<longrightarrow>
      take k (drop p (gm_bytes m')) = take k (drop p (gm_bytes m)))"
  using assms
proof (induction us arbitrary: m)
  case (Cons u us)
  let ?n = "length (patch_bytes ty t)" and ?a = "base + ucast u"
  let ?m = "patch ty t m ?a"
  have b32: "unat base + 0x10004 \<le> 2 ^ 32" using Cons.prems(3,4) by simp
  note at = location_at [OF b32]
  have in4: "unat ?a + 4 \<le> gm_size m" unfolding at using Cons.prems(3) unat_u16_lt [of u] by linarith
  note ps = patch_spec [OF in4 Cons.prems(4), where ty = ty and t = t, unfolded at]
  show ?case
  proof (cases us)
    case Nil
    then have "gm_read m ?a = Some (0xFFFF :: u16)" using Cons.prems(1) by simp
    then have "patch_chain base False ty t m u = Some ?m"
      by (subst patch_chain.simps) (simp add: read_dflt_def Let_def)
    then show ?thesis using ps Nil by auto
  next
    case (Cons v vs)
    then have r: "gm_read m ?a = Some v" "v \<noteq> 0xFFFF" "chain_in m base us" using Cons.prems(1) by auto
    have ap: "\<forall>w \<in> set us. apart ty t u w" "sorted_wrt (apart ty t) us" using Cons.prems(2) by simp_all
    have sz: "size_of TYPE(16) = 2" by (simp add: size_of_def)
    have "gm_read ?m (base + ucast w) = (gm_read m (base + ucast w) :: u16 option)" if "w \<in> set us" for w
      using ap(1) that ps(1)
      by (intro gm_read_slice) (auto simp: at sz apart_def Let_def max_def split: if_splits intro!: ps(3))
    then have c: "chain_in ?m base us" by (intro chain_in_kept [OF r(3)]) simp
    have szm: "unat base + 0x10004 \<le> gm_size ?m" "gm_size ?m \<le> 2 ^ 32" using Cons.prems(3,4) ps(1) by simp_all
    obtain m' where m': "patch_chain base False ty t ?m v = Some m'" "gm_size m' = gm_size ?m"
      "\<forall>u \<in> set us. take ?n (drop (unat base + unat u) (gm_bytes m')) = patch_bytes ty t"
      "\<forall>p k. (\<forall>u \<in> set us. p + k \<le> unat base + unat u \<or> unat base + unat u + ?n \<le> p) \<longrightarrow>
        take k (drop p (gm_bytes m')) = take k (drop p (gm_bytes ?m))"
      using Cons.IH [OF c ap(2) szm] Cons by auto
    have "patch_chain base False ty t m u = Some m'"
      using r(1,2) m'(1) by (subst patch_chain.simps) (simp add: read_dflt_def Let_def)
    moreover have "take ?n (drop (unat base + unat u) (gm_bytes m')) = patch_bytes ty t"
    proof -
      have "\<forall>w \<in> set us. unat base + unat u + ?n \<le> unat base + unat w \<or> unat base + unat w + ?n \<le> unat base + unat u"
        using ap(1) by (auto simp: apart_def Let_def max_def split: if_splits)
      then show ?thesis using m'(4) ps(2) by metis
    qed
    ultimately show ?thesis using m'(2,3,4) ps(1,3) by (intro exI [of _ m']) simp
  qed
qed simp

text \<open>Two far pointers, at \<^verbatim>\<open>0x10\<close> and \<^verbatim>\<open>0x20\<close>, to be patched with \<^verbatim>\<open>0x00B0:0x1234\<close>.\<close>

definition linked_memory :: guest_memory where
  "linked_memory = guest_write_ign (guest_write_ign (gm_alloc 0x10004) 0x10 (0x20 :: u16)) 0x20 (0xFFFF :: u16)"

theorem reloc_chain_patched_witness:
  "\<exists>m'. patch_chain 0 False RELOC_FAR_POINTER (0x1234, 0x00B0) linked_memory 0x10 = Some m' \<and>
    take 4 (drop 0x20 (gm_bytes m')) = [0x34, 0x12, 0xB0, 0x00]"
proof -
  let ?bs = "patch_bytes RELOC_FAR_POINTER (0x1234, 0x00B0)"
  have s: "gm_size linked_memory = 0x10004" by (simp add: linked_memory_def)
  have "gm_read linked_memory 0x10 = Some (0x20 :: u16)" unfolding linked_memory_def
    by (subst guest_write_ign_other) (simp_all add: size_of_def guest_write_ign_read byte_sized_def)
  moreover have "gm_read linked_memory 0x20 = Some (0xFFFF :: u16)" unfolding linked_memory_def
    by (rule guest_write_ign_read) (simp_all add: size_of_def byte_sized_def)
  ultimately have c: "chain_in linked_memory 0 [0x10, 0x20]" by simp
  have a: "sorted_wrt (apart RELOC_FAR_POINTER (0x1234, 0x00B0)) [0x10, 0x20]" by (simp add: apart_def reloc_types)
  have b: "unat (0 :: u32) + 0x10004 \<le> gm_size linked_memory" "gm_size linked_memory \<le> 2 ^ 32" by (simp_all add: s)
  obtain m' where "patch_chain 0 False RELOC_FAR_POINTER (0x1234, 0x00B0) linked_memory 0x10 = Some m'"
    "\<forall>u \<in> set [0x10, 0x20 :: u16]. take (length ?bs) (drop (unat (0 :: u32) + unat u) (gm_bytes m')) = ?bs"
    using reloc_chain_patched [OF c a b] unfolding list.sel by blast
  moreover have "?bs = [0x34, 0x12, 0xB0, 0x00]" by code_simp
  ultimately show ?thesis by (intro exI [of _ m']) simp
qed

text \<open>
  A relocation of a type the loader does not know patches nothing; when its location links to itself, the
  loader never ends.
\<close>

lemma unknown_reloc_hangs:
  assumes "gm_read m (base + ucast u) = Some u" "u \<noteq> 0xFFFF"
    "ty \<notin> {RELOC_FAR_POINTER, RELOC_SELECTOR, RELOC_OFFSET, RELOC_LOBYTE}"
  shows "patch_chain base False ty t m u = None"
proof -
  have p: "patch ty t m (base + ucast u) = m" using assms(3) by (simp add: patch_def)
  have r: "read_dflt m (base + ucast u) 0xFFFF = u" using assms(1) by (simp add: read_dflt_def)
  have no: "m' = m \<and> u' = u \<and> b = base \<and> a = False \<and> y = ty \<and> t' = t \<longrightarrow> False"
    if "patch_chain b a y t' m' u' = Some z" for b a y t' m' u' z
    by (rule patch_chain.raw_induct [OF _ that]) (use p r assms(2) in \<open>auto simp: Let_def\<close>, blast)
  show ?thesis
  proof (rule ccontr)
    assume "patch_chain base False ty t m u \<noteq> None"
    then obtain z where "patch_chain base False ty t m u = Some z" by blast
    from no [OF this] show False by simp
  qed
qed

section \<open>Selectors\<close>

lemma segment_addr_div: "i < 224 \<Longrightarrow> segment_addr i div TILE_SIZE = of_nat (16 + i)"
proof -
  assume i: "i < 224"
  have "segment_addr i = of_nat ((16 + i) * 65536)" by (simp add: segment_addr_def NE_SEGMENT_BASE_def TILE_SIZE_def)
  moreover have "unat (of_nat ((16 + i) * 65536) :: u32) = (16 + i) * 65536" unfolding unat_of_nat by (rule mod_less) (use i in simp)
  ultimately have "unat (segment_addr i div TILE_SIZE) = 16 + i" by (simp add: unat_div TILE_SIZE_def)
  then show ?thesis by (metis of_nat_unat ucast_id)
qed

lemma segment_store_at:
  assumes "i < 224"
  shows "store_addr (segment_store (i, seg)) = 0x80000 + 8 * (22 + i)"
    "store_end (segment_store (i, seg)) = 0x80000 + 8 * (22 + i) + 8"
    "store_bytes (segment_store (i, seg)) =
      le_bytes 8 (make_gdt_entry (segment_addr i) (segment_limit seg) (if seg_is_code seg then 0x9B else 0xD3) 0)"
proof -
  have "GDT_BASE + (TILED_SEL_START_INDEX + of_nat (16 + i)) * 8 = (of_nat (0x80000 + 8 * (22 + i)) :: u32)"
    by (simp add: tile_consts)
  moreover have "unat (of_nat (0x80000 + 8 * (22 + i)) :: u32) = 0x80000 + 8 * (22 + i)"
    unfolding unat_of_nat by (rule mod_less) (use assms in simp)
  ultimately show "store_addr (segment_store (i, seg)) = 0x80000 + 8 * (22 + i)"
    by (simp add: segment_store_def segment_addr_div [OF assms] del: of_nat_add)
  then show "store_end (segment_store (i, seg)) = 0x80000 + 8 * (22 + i) + 8"
    by (simp add: store_end_def segment_store_def Let_def)
  show "store_bytes (segment_store (i, seg)) =
      le_bytes 8 (make_gdt_entry (segment_addr i) (segment_limit seg) (if seg_is_code seg then 0x9B else 0xD3) 0)"
    by (simp add: segment_store_def Let_def)
qed

lemma seg_selector_index: "i < 224 \<Longrightarrow> seg_selector (of_nat (i + 1)) = of_nat (8 * (22 + i))"
proof -
  assume i: "i < 224"
  have "unat (of_nat (i + 1) :: u8) = i + 1" unfolding unat_of_nat by (rule mod_less) (use i in simp)
  then have "ucast (of_nat (i + 1) :: u8) = (of_nat (i + 1) :: u32)" by (metis of_nat_unat)
  then have "(TILED_SEL_START_INDEX + (NE_SEGMENT_BASE div TILE_SIZE + (ucast (of_nat (i + 1) :: u8) - 1))) * 8 =
      (of_nat (8 * (22 + i)) :: u32)"
    by (simp add: tile_consts NE_SEGMENT_BASE_def)
  moreover have "unat (of_nat (8 * (22 + i)) :: u32) = 8 * (22 + i)" unfolding unat_of_nat by (rule mod_less) (use i in simp)
  ultimately show ?thesis unfolding seg_selector_def Let_def by (metis of_nat_unat)
qed

lemma segment_limit_mask: "segment_limit seg AND 0xFFFFF = segment_limit seg"
proof -
  have "segment_limit seg \<le> 0xFFFF" by (simp add: segment_limit_def)
  then have "unat (segment_limit seg) < 2 ^ 20" by (simp add: word_le_nat_alt)
  then show ?thesis unfolding and_masks take_bit_eq_mod by (simp add: word_unat_eq_iff unat_mod)
qed

text \<open>The segment descriptors after their stores.\<close>

lemma segment_descriptors:
  assumes "exec_stores m (map segment_store (enumerate 0 segs)) = Some m'" "length segs \<le> 224" "0x90000 \<le> gm_size m" "i < length segs"
  shows "gdt_entry_base m' (seg_selector (of_nat (i + 1))) = segment_addr i"
    "gdt_entry_limit m' (seg_selector (of_nat (i + 1))) = segment_limit (segs ! i)"
proof -
  let ?es = "enumerate 0 segs"
  have e: "j < length segs \<Longrightarrow> ?es ! j = (j, segs ! j)" for j by (simp add: nth_enumerate_eq)
  have mem: "\<exists>j < length segs. x = (j, segs ! j)" if "x \<in> set ?es" for x
    using that by (auto simp: in_set_conv_nth nth_enumerate_eq)
  let ?xs = "map segment_store (take i ?es)" and ?ys = "map segment_store (drop (Suc i) ?es)"
  have split: "map segment_store ?es = ?xs @ segment_store (i, segs ! i) # ?ys"
    using id_take_nth_drop [of i ?es] assms(4) e [OF assms(4)] by (metis length_enumerate list.simps(9) map_append)
  have b: "\<forall>t\<in>set (map segment_store ?es). store_end t \<le> gm_size m"
    using mem assms(2,3) by (fastforce simp: segment_store_at)
  have y: "\<forall>t\<in>set ?ys. store_end (segment_store (i, segs ! i)) \<le> store_addr t"
  proof
    fix t assume "t \<in> set ?ys"
    then obtain k where "k < length segs - Suc i" "t = segment_store (drop (Suc i) ?es ! k)"
      by (auto simp: in_set_conv_nth)
    then have "t = segment_store (Suc i + k, segs ! (Suc i + k))" "Suc i + k < length segs" using e [of "Suc i + k"] by auto
    then show "store_end (segment_store (i, segs ! i)) \<le> store_addr t" using assms(2,4) by (simp add: segment_store_at)
  qed
  have i224: "i < 224" using assms(2,4) by simp
  note st = segment_store_at [OF i224]
  let ?d = "make_gdt_entry (segment_addr i) (segment_limit (segs ! i)) (if seg_is_code (segs ! i) then 0x9B else 0xD3) 0"
  have "take 8 (drop (0x80000 + 8 * (22 + i)) (gm_bytes m')) = le_bytes 8 ?d"
    using exec_stores_read [OF assms(1) [unfolded split] b [unfolded split] y] unfolding st by simp
  moreover have "gm_size m' = gm_size m" using exec_stores_run [OF b] assms(1) by auto
  ultimately have "gdt_entry_at m' (of_nat (8 * (22 + i))) = ?d"
    using gdt_entry_at_index [of "22 + i" m'] i224 assms(3) by (simp del: of_nat_add of_nat_mult)
  then show "gdt_entry_base m' (seg_selector (of_nat (i + 1))) = segment_addr i"
    "gdt_entry_limit m' (seg_selector (of_nat (i + 1))) = segment_limit (segs ! i)"
    unfolding seg_selector_index [OF i224] gdt_entry_base_def gdt_entry_limit_def
    by (simp_all only: entry_base_make entry_limit_make segment_limit_mask)
qed

section \<open>Set-up\<close>

lemma stores_run:
  assumes "\<forall>s\<in>set ss. lo \<le> store_addr s \<and> store_end s \<le> hi" "hi \<le> gm_size m"
  shows "\<exists>m'. exec_stores m ss = Some m' \<and> gm_size m' = gm_size m \<and>
    (\<forall>p n. p + n \<le> lo \<or> hi \<le> p \<longrightarrow> take n (drop p (gm_bytes m')) = take n (drop p (gm_bytes m)))"
proof -
  have "\<forall>s\<in>set ss. store_end s \<le> gm_size m" using assms by fastforce
  then obtain m' where m': "exec_stores m ss = Some m'" "gm_size m' = gm_size m"
    "\<And>p n. \<forall>s\<in>set ss. p + n \<le> store_addr s \<or> store_end s \<le> p \<Longrightarrow>
      take n (drop p (gm_bytes m')) = take n (drop p (gm_bytes m))"
    by (rule exec_stores_run) (rule that, assumption+)
  then show ?thesis using assms(1) by (intro exI [of _ m']) (meson order_trans)
qed

lemma thunk_store_at: "i < 65536 \<Longrightarrow> store_addr (W8 (NE_THUNK_BASE + of_nat i) v) = 0xF00000 + i"
proof -
  assume i: "i < 65536"
  have "NE_THUNK_BASE + of_nat i = (of_nat (0xF00000 + i) :: u32)" by (simp add: NE_THUNK_BASE_def)
  moreover have "unat (of_nat (0xF00000 + i) :: u32) = 0xF00000 + i" unfolding unat_of_nat by (rule mod_less) (use i in simp)
  ultimately show ?thesis by simp
qed

lemma thunk_stores_at: "s \<in> set thunk_stores \<Longrightarrow> 0xF00000 \<le> store_addr s \<and> store_end s \<le> 0xF10000"
proof -
  assume "s \<in> set thunk_stores"
  then obtain i where "i < 65536" "s = W8 (NE_THUNK_BASE + of_nat i) 0xCC" by (auto simp: thunk_stores_def TILE_SIZE_def)
  then show ?thesis using thunk_store_at [of i "0xCC"] by (simp add: store_end_def)
qed

lemma thunks_filled:
  assumes "exec_stores m thunk_stores = Some m'" "0xF10000 \<le> gm_size m" "i < 65536"
  shows "take 1 (drop (0xF00000 + i) (gm_bytes m')) = [0xCC]"
proof -
  let ?s = "\<lambda>i. W8 (NE_THUNK_BASE + of_nat i) 0xCC"
  have t: "thunk_stores = map ?s [0..<i] @ ?s i # map ?s [Suc i..<65536]"
    unfolding thunk_stores_def TILE_SIZE_def by (subst upt_split [of i]) (use assms(3) in simp_all)
  have b: "\<forall>s\<in>set thunk_stores. store_end s \<le> gm_size m" using thunk_stores_at assms(2) by fastforce
  have y: "\<forall>s\<in>set (map ?s [Suc i..<65536]). store_end (?s i) \<le> store_addr s"
    using thunk_store_at [of i "0xCC"] assms(3) thunk_store_at [of _ "0xCC"] by (auto simp: store_end_def simp del: store_addr.simps)
  show ?thesis
    using exec_stores_read [OF assms(1) [unfolded t] b [unfolded t] y] thunk_store_at [OF assms(3), of "0xCC"]
    by (simp del: store_addr.simps)
qed

lemma stubs_at: "s \<in> set (map (\<lambda>i. W8 (ucast MAGIC_API_BASE + of_nat i) 0xCC) [0..<unat STUB_AREA_SIZE]) \<Longrightarrow>
  0x1000000 \<le> store_addr s \<and> store_end s \<le> 0x1004000"
proof -
  assume "s \<in> set (map (\<lambda>i. W8 (ucast MAGIC_API_BASE + of_nat i) 0xCC) [0..<unat STUB_AREA_SIZE])"
  then obtain i where i: "i < 16384" "s = W8 (ucast MAGIC_API_BASE + of_nat i) 0xCC" by (auto simp: STUB_AREA_SIZE_def)
  have "ucast MAGIC_API_BASE + of_nat i = (of_nat (0x1000000 + i) :: u32)" by (simp add: MAGIC_API_BASE_def)
  moreover have "unat (of_nat (0x1000000 + i) :: u32) = 0x1000000 + i" unfolding unat_of_nat by (rule mod_less) (use i in simp)
  ultimately show ?thesis using i by (simp add: store_end_def)
qed

lemma stubs_run:
  assumes "0x1004000 \<le> gm_size m"
  shows "\<exists>m'. setup_stubs m = Some m' \<and> gm_size m' = gm_size m"
proof -
  let ?ss = "map (\<lambda>i. W8 (ucast MAGIC_API_BASE + of_nat i) 0xCC) [0..<unat STUB_AREA_SIZE]"
  have "\<forall>s\<in>set ?ss. 0x1000000 \<le> store_addr s \<and> store_end s \<le> 0x1004000" using stubs_at by blast
  from stores_run [OF this assms] show ?thesis unfolding setup_stubs_def by blast
qed

lemma bda_at: "s \<in> set (bda_stores v) \<Longrightarrow> 0x449 \<le> store_addr s \<and> store_end s \<le> 0x487"
  by (auto simp: bda_stores_def store_end_def)

lemma write_bytes_ok:
  assumes "unat a + length bs \<le> gm_size m" "gm_size m \<le> 2 ^ 32"
  shows "gm_write_bytes m a bs = Some (gm_put m (unat a) bs)" "gm_size (gm_put m (unat a) bs) = gm_size m"
  using assms by (simp_all add: gm_write_bytes_def ptr_at_def gm_size_put)

lemma info_blocks_ok:
  assumes "0x92000 \<le> gm_size m" "gm_size m \<le> 2 ^ 32"
  shows "\<exists>m'. write_dwords m 0 (info_block_dwords e c) = Some m' \<and> gm_size m' = gm_size m"
proof -
  have "\<forall>w\<in>set (info_block_dwords e c). 4 dvd unat (fst w) \<and> unat (fst w) + 4 \<le> 0x92000"
    by (simp add: info_block_dwords_def Let_def TIB_BASE_def PIB_BASE_def)
  then show ?thesis
    by (rule write_dwords_run [where m = m and addr = 0]) (use assms in auto)
qed

lemma code_selector_kept:
  assumes "setup_idt m = Some m1" "0xF10000 \<le> gm_size m"
    "take 8 (drop 0x887B0 (gm_bytes m2)) = take 8 (drop 0x887B0 (gm_bytes m1))" "gm_size m2 = gm_size m"
  shows "gdt_entry_base m2 NE_THUNK_CODE_SELECTOR = NE_THUNK_BASE"
proof -
  have s: "NE_THUNK_CODE_SELECTOR = of_nat (8 * 4342)"
    by (simp add: NE_THUNK_CODE_SELECTOR_def NE_THUNK_CODE_GDT_INDEX_def NE_THUNK_TILE_INDEX_def NE_THUNK_BASE_def tile_consts)
  have "take 8 (drop (0x88030 + 8 * 240) (gm_bytes m1)) = le_bytes 8 (make_gdt_entry (of_nat 240 * TILE_SIZE) 0xFFFF 0x9B 0)"
    using code_tile_in_memory [OF assms(1) [unfolded setup_idt_stores] order_trans [OF _ assms(2)], of 240] by simp
  then have "gdt_entry_at m2 (of_nat (8 * 4342)) = make_gdt_entry (of_nat 240 * TILE_SIZE) 0xFFFF 0x9B 0"
    using gdt_entry_at_index [of 4342 m2] assms(2,3,4) by (simp del: of_nat_mult)
  then show ?thesis unfolding s gdt_entry_base_def by (simp only: entry_base_make) (simp add: TILE_SIZE_def NE_THUNK_BASE_def)
qed

text \<open>
  C32. For a program of at most 224 segments \<^verbatim>\<open>setup_guest_ne\<close> runs without a panic, and what relocations
  wrote into the image makes sense in the tables it leaves: the selector of each segment has the address
  where the segment was loaded as its base and the size of the segment as its limit, and the selector of
  imports has the thunk segment as its base, where every offset is a breakpoint.
\<close>

theorem ne_setup_addresses:
  assumes "0x1004000 \<le> gm_size g" "gm_size g \<le> 2 ^ 32" "length (nef_segment_table f) \<le> 224" "initial_sp f = Some sp"
    and blk: "env_block ne_environment (os2_exe_name to_upper exe_name) = (block, off)"
    and al: "mm_alloc mm (of_nat (length block)) = (Some env, mm1)" "unat env + length block \<le> gm_size g"
  shows "\<exists>g' cs ip ss. setup_guest_ne to_upper exe_name v f g mm = Some ((cs, ip, ss, sp), g', mm1) \<and>
    (\<forall>i < length (nef_segment_table f).
      gdt_entry_base g' (seg_selector (of_nat (i + 1))) = segment_addr i \<and>
      gdt_entry_limit g' (seg_selector (of_nat (i + 1))) = segment_limit (nef_segment_table f ! i)) \<and>
    gdt_entry_base g' NE_THUNK_CODE_SELECTOR = NE_THUNK_BASE \<and>
    (\<forall>u :: u16. gm_read g' (NE_THUNK_BASE + ucast u) = Some (0xCC :: u8))"
proof -
  let ?segs = "map segment_store (enumerate 0 (nef_segment_table f))"
  define g1 where "g1 = gm_put g (unat env) block"
  have g1: "place_environment ne_environment (os2_exe_name to_upper exe_name) g mm = Some (env, env + off, g1, mm1)"
    "gm_size g1 = gm_size g"
    using write_bytes_ok [OF al(2) assms(2)] by (simp_all add: place_environment_def blk al(1) g1_def)
  obtain g2 where g2: "write_dwords g1 0 (info_block_dwords env (env + off)) = Some g2" "gm_size g2 = gm_size g"
    using info_blocks_ok [of g1 env "env + off"] g1(2) assms(1,2) by auto
  obtain g3 where g3: "exec_stores g2 (bda_stores v) = Some g3" "gm_size g3 = gm_size g"
    using stores_run [of "bda_stores v" "0x449" "0x487" g2] bda_at g2(2) assms(1) by auto
  obtain g4 where g4: "setup_stubs g3 = Some g4" "gm_size g4 = gm_size g"
    using stubs_run [of g3] g3(2) assms(1) by auto
  obtain g5 where g5: "setup_idt g4 = Some g5" "gm_size g5 = gm_size g"
    using stores_run [of setup_stores 0 "0x8DA00" g4] setup_stores_bounds g4(2) assms(1) unfolding setup_idt_stores by auto
  obtain g6 where g6: "exec_stores g5 thunk_stores = Some g6" "gm_size g6 = gm_size g"
    "\<forall>p n. p + n \<le> 0xF00000 \<or> 0xF10000 \<le> p \<longrightarrow> take n (drop p (gm_bytes g6)) = take n (drop p (gm_bytes g5))"
    using stores_run [of thunk_stores "0xF00000" "0xF10000" g5] thunk_stores_at g5(2) assms(1) by auto
  have "\<forall>s\<in>set ?segs. 0x800B0 \<le> store_addr s \<and> store_end s \<le> 0x807B0"
  proof
    fix s assume "s \<in> set ?segs"
    then obtain i where "i < length (nef_segment_table f)" "s = segment_store (i, nef_segment_table f ! i)"
      by (auto simp: in_set_conv_nth nth_enumerate_eq)
    then show "0x800B0 \<le> store_addr s \<and> store_end s \<le> 0x807B0" using assms(3) by (simp add: segment_store_at)
  qed
  then obtain g7 where g7: "exec_stores g6 ?segs = Some g7" "gm_size g7 = gm_size g"
    "\<forall>p n. p + n \<le> 0x800B0 \<or> 0x807B0 \<le> p \<longrightarrow> take n (drop p (gm_bytes g7)) = take n (drop p (gm_bytes g6))"
    using stores_run [of ?segs "0x800B0" "0x807B0" g6] g6(2) assms(1) by auto
  have "setup_guest_ne to_upper exe_name v f g mm =
      Some ((header_selector 0x08 (ne_entry_cs (nef_header f)), ne_entry_ip (nef_header f),
             header_selector 0x10 (ne_stack_ss (nef_header f)), sp), g7, mm1)"
    unfolding setup_guest_ne_def g1(1) by (simp add: g2(1) g3(1) g4(1) g5(1) g6(1) g7(1) assms(4))
  moreover have "gdt_entry_base g7 (seg_selector (of_nat (i + 1))) = segment_addr i \<and>
      gdt_entry_limit g7 (seg_selector (of_nat (i + 1))) = segment_limit (nef_segment_table f ! i)"
    if "i < length (nef_segment_table f)" for i
    using segment_descriptors [OF g7(1) assms(3) _ that] g6(2) assms(1) by simp
  moreover have "gdt_entry_base g7 NE_THUNK_CODE_SELECTOR = NE_THUNK_BASE"
    by (rule code_selector_kept [OF g5(1)]) (use g4(2) g6(3) g7(2,3) assms(1) in simp_all)
  moreover have "gm_read g7 (NE_THUNK_BASE + ucast u) = Some (0xCC :: u8)" for u :: u16
  proof -
    have a: "unat (NE_THUNK_BASE + ucast u) = 0xF00000 + unat u"
      using location_at [of NE_THUNK_BASE u] by (simp add: NE_THUNK_BASE_def)
    have "take 1 (drop (0xF00000 + unat u) (gm_bytes g7)) = take 1 (drop (0xF00000 + unat u) (gm_bytes g6))"
      using g7(3) by simp
    also have "\<dots> = [0xCC]" by (rule thunks_filled [OF g6(1)]) (use g5(2) assms(1) unat_u16_lt [of u] in simp_all)
    finally have t: "take 1 (drop (0xF00000 + unat u) (gm_bytes g7)) = [0xCC]" .
    have "0xF00000 + unat u + 1 \<le> gm_size g7" unfolding g7(2) using unat_u16_lt [of u] assms(1) by linarith
    then have "ptr_at g7 (NE_THUNK_BASE + ucast u) 1 = Some (0xF00000 + unat u)"
      by (subst ptr_at_small) (simp_all add: a)
    then show ?thesis using t by (simp add: gm_read_def size_of_def)
  qed
  ultimately show ?thesis by blast
qed

definition small_ne :: ne_file where
  "small_ne =
    \<lparr> nef_header = \<lparr> ne_signature = [78, 69], ne_linker_version = 5, ne_linker_revision = 1, ne_entry_table_offset = 0,
        ne_entry_table_size = 0, ne_checksum = 0, ne_module_flags = 0, ne_auto_data_segment = 1, ne_initial_heap_size = 0,
        ne_initial_stack_size = 0, ne_initial_cs_ip = 0x10000, ne_initial_ss_sp = 0x20100, ne_segment_count = 2,
        ne_module_ref_count = 0, ne_non_resident_name_table_size = 0, ne_segment_table_offset = 0, ne_resource_table_offset = 0,
        ne_resident_name_table_offset = 0, ne_module_ref_table_offset = 0, ne_imported_names_table_offset = 0,
        ne_non_resident_name_table_file_offset = 0, ne_movable_entry_count = 0, ne_alignment_shift_count = 0,
        ne_resource_segment_count = 0, ne_target_os = 1, ne_additional_flags = 0, ne_fast_load_offset = 0,
        ne_fast_load_size = 0, ne_reserved = 0, ne_expected_win_version = 0 \<rparr>,
      nef_segment_table = [\<lparr> seg_data_offset = 9, seg_data_length = 4, seg_flags = 0, seg_min_alloc_size = 4 \<rparr>,
        \<lparr> seg_data_offset = 0, seg_data_length = 0, seg_flags = 1, seg_min_alloc_size = 0x200 \<rparr>],
      nef_relocations_by_segment = [[], []], nef_imported_modules = [], nef_entries = [], nef_resident_names = [],
      nef_non_resident_names = [], nef_imported_names_data = [], nef_ne_offset = 64 \<rparr>"

text \<open>A program of a code segment of four bytes and a data segment; selector \<^verbatim>\<open>0xB8\<close> is the data segment.\<close>

theorem ne_setup_addresses_witness:
  "\<exists>g' cs ip ss mm'. setup_guest_ne (\<lambda>c. [c]) [] (vio_new None) small_ne (gm_alloc 0x3000000) (mm_new 0x2000000 0x3000000) =
      Some ((cs, ip, ss, 0x100), g', mm') \<and> gdt_entry_base g' 0xB8 = 0x110000 \<and> gdt_entry_limit g' 0xB8 = 0x1FF"
proof -
  let ?block = "fst (env_block ne_environment (os2_exe_name (\<lambda>c. [c]) []))"
  let ?mm = "mm_new 0x2000000 0x3000000"
  have b: "env_block ne_environment (os2_exe_name (\<lambda>c. [c]) []) = (?block, snd (env_block ne_environment (os2_exe_name (\<lambda>c. [c]) [])))"
    by simp
  have l: "length ?block = 47" by code_simp
  obtain mm1 where a: "mm_alloc ?mm (of_nat (length ?block)) = (Some 0x2000000, mm1)"
    unfolding l by (simp add: mm_eval)
  have f: "length (nef_segment_table small_ne) = 2" "initial_sp small_ne = Some 0x100"
    "segment_limit (nef_segment_table small_ne ! 1) = 0x1FF"
    by (simp_all add: small_ne_def initial_sp_def ne_stack_sp_def segment_limit_def actual_min_alloc_def)
  have h: "0x1004000 \<le> gm_size (gm_alloc 0x3000000)" "gm_size (gm_alloc 0x3000000) \<le> 2 ^ 32"
    "length (nef_segment_table small_ne) \<le> 224" "unat (0x2000000 :: u32) + length ?block \<le> gm_size (gm_alloc 0x3000000)"
    unfolding l f by simp_all
  obtain g' cs ip ss where g': "setup_guest_ne (\<lambda>c. [c]) [] (vio_new None) small_ne (gm_alloc 0x3000000) ?mm = Some ((cs, ip, ss, 0x100), g', mm1)"
    "\<forall>i < 2. gdt_entry_base g' (seg_selector (of_nat (i + 1))) = segment_addr i \<and>
      gdt_entry_limit g' (seg_selector (of_nat (i + 1))) = segment_limit (nef_segment_table small_ne ! i)"
    using ne_setup_addresses [OF h(1,2,3) f(2) b a h(4), of "vio_new None"] unfolding f(1) by blast
  have "seg_selector (of_nat (1 + 1)) = 0xB8" "segment_addr 1 = 0x110000"
    by (simp_all add: seg_selector_def segment_addr_def NE_SEGMENT_BASE_def tile_consts)
  then show ?thesis using g'(1) g'(2) [rule_format, of 1] f(3) by (intro exI conjI) auto
qed

end
