(* ===== verification/Exit_Props.thy ===== *)
theory Exit_Props
  imports Vcpu_Exits NE_Props
begin

text \<open>
  What the first thread of a program finds, the scan for the frame of a 16-bit thunk, and the way of a
  16-bit call from an import to its handler and back.
\<close>

section \<open>The first thread\<close>

text \<open>
  The information blocks as OS/2 lays them out: for each field its address and its value. The thread
  information block and its second part lie at \<^verbatim>\<open>0x90000\<close>, the process information block at \<^verbatim>\<open>0x91000\<close>.
\<close>

definition start_info :: "u32 \<Rightarrow> u32 \<Rightarrow> (u32 \<times> u32) list" where
  "start_info env_addr cmdline_addr =
    [(0x90000, 0xFFFFFFFF), (0x9000C, 0x90040), (0x90018, 0x90000), (0x90030, 0x91000), (0x90040, 1), (0x90044, 0),
     (0x91000, 42), (0x9100C, cmdline_addr), (0x91010, env_addr)]"

text \<open>The environment of a program, and its name behind it.\<close>

definition start_env :: "ustring \<Rightarrow> u8 list" where
  "start_env exe =
    (let zstr = (\<lambda>s. as_bytes (concat (map (\<lambda>c. if c = CHR ''/'' then [0x5C] else [of_char c]) s)) @ [0]) in
     zstr ''PATH=C:/'' @ zstr ''COMSPEC=C:/4OS2.EXE'' @ zstr ''OS=OS2'' @ zstr ''TMP=C:/TMP'' @ [0] @ as_bytes exe @ [0])"

lemma env_block_start: "env_block lx_environment exe = (start_env exe, 48)"
proof -
  have "concat lx_environment @ [0] = (let zstr = (\<lambda>s. as_bytes (concat (map (\<lambda>c. if c = CHR ''/'' then [0x5C] else [of_char c]) s)) @ [0]) in
     zstr ''PATH=C:/'' @ zstr ''COMSPEC=C:/4OS2.EXE'' @ zstr ''OS=OS2'' @ zstr ''TMP=C:/TMP'' @ [0])"
    "length (concat lx_environment @ [0]) = 48"
    by code_simp+
  then show ?thesis by (simp add: env_block_def start_env_def Let_def)
qed

lemma info_blocks_run:
  assumes "0x92000 \<le> gm_size m" "gm_size m \<le> 2 ^ 32"
  shows "\<exists>m'. write_dwords m 0 ((TIB_BASE + TIB_EXCHAIN_OFFSET, XCPT_CHAIN_END) # info_block_dwords e c) = Some m' \<and>
    gm_size m' = gm_size m \<and> (\<forall>(a, v) \<in> set (start_info e c). gm_read m' a = Some v) \<and>
    (\<forall>p n. 0x92000 \<le> p \<longrightarrow> take n (drop p (gm_bytes m')) = take n (drop p (gm_bytes m)))"
proof -
  let ?ws = "(TIB_BASE + TIB_EXCHAIN_OFFSET, XCPT_CHAIN_END) # info_block_dwords e c"
  have e: "?ws = start_info e c"
    by (simp add: info_block_dwords_def start_info_def Let_def TIB_BASE_def PIB_BASE_def TIB_EXCHAIN_OFFSET_def XCPT_CHAIN_END_def)
  have ws: "\<forall>w\<in>set ?ws. 4 dvd unat (fst w) \<and> unat (fst w) + 4 \<le> 0x92000"
    unfolding e by (simp add: start_info_def)
  obtain m' where m': "write_dwords m 0 ?ws = Some m'" "gm_size m' = gm_size m"
    "\<And>off. 4 dvd unat off \<Longrightarrow> unat off + 4 \<le> 0x92000 \<Longrightarrow> gm_read m' (0 + off) =
      (case map_of (rev ?ws) off of Some v \<Rightarrow> Some v | None \<Rightarrow> gm_read m (0 + off))"
    "\<And>p n. p + n \<le> unat (0 :: u32) \<or> unat (0 :: u32) + 0x92000 \<le> p \<Longrightarrow> take n (drop p (gm_bytes m')) = take n (drop p (gm_bytes m))"
    by (rule write_dwords_run [OF ws, where addr = 0 and m = m]) (use assms in simp_all)
  have d: "distinct (map fst (rev ?ws))" unfolding e by (simp add: start_info_def)
  have "gm_read m' a = Some v" if "(a, v) \<in> set ?ws" for a v
    using m'(3) [of a] ws that map_of_eq_Some_iff [OF d, of a v] by fastforce
  then show ?thesis using m'(1,2,4) unfolding e by (intro exI [of _ m']) auto
qed

text \<open>Everything \<^verbatim>\<open>setup_guest\<close> does after the environment, seen from memory above the information blocks.\<close>

lemma tables_run:
  assumes "0x1004000 \<le> gm_size m" "gm_size m \<le> 2 ^ 32"
  shows "\<exists>m3 m4 m5. exec_stores m (bda_stores v) = Some m3 \<and> setup_stubs m3 = Some m4 \<and> setup_idt m4 = Some m5 \<and>
    gm_size m5 = gm_size m \<and>
    (\<forall>p n. 0x8DA00 \<le> p \<and> p + n \<le> 0x1000000 \<or> 0x1004000 \<le> p \<longrightarrow> take n (drop p (gm_bytes m5)) = take n (drop p (gm_bytes m)))"
proof -
  obtain m3 where m3: "exec_stores m (bda_stores v) = Some m3" "gm_size m3 = gm_size m"
    "\<forall>p n. p + n \<le> 0x449 \<or> 0x487 \<le> p \<longrightarrow> take n (drop p (gm_bytes m3)) = take n (drop p (gm_bytes m))"
    using stores_run [of "bda_stores v" "0x449" "0x487" m] bda_at assms(1) by auto
  let ?ss = "map (\<lambda>i. W8 (ucast MAGIC_API_BASE + of_nat i) 0xCC) [0..<unat STUB_AREA_SIZE]"
  have "\<forall>s\<in>set ?ss. 0x1000000 \<le> store_addr s \<and> store_end s \<le> 0x1004000" using stubs_at by blast
  from stores_run [OF this, of m3] obtain m4 where m4: "setup_stubs m3 = Some m4" "gm_size m4 = gm_size m3"
    "\<forall>p n. p + n \<le> 0x1000000 \<or> 0x1004000 \<le> p \<longrightarrow> take n (drop p (gm_bytes m4)) = take n (drop p (gm_bytes m3))"
    using m3(2) assms(1) unfolding setup_stubs_def by auto
  obtain m5 where m5: "setup_idt m4 = Some m5" "gm_size m5 = gm_size m4"
    "\<forall>p n. p + n \<le> 0 \<or> 0x8DA00 \<le> p \<longrightarrow> take n (drop p (gm_bytes m5)) = take n (drop p (gm_bytes m4))"
    using stores_run [of setup_stores 0 "0x8DA00" m4] setup_stores_bounds m3(2) m4(2) assms(1) unfolding setup_idt_stores by auto
  have "take n (drop p (gm_bytes m5)) = take n (drop p (gm_bytes m))"
    if "0x8DA00 \<le> p \<and> p + n \<le> 0x1000000 \<or> 0x1004000 \<le> p" for p n
    using m3(3) m4(3) m5(3) that by auto
  then show ?thesis using m3(1,2) m4(1,2) m5(1,2) by (intro exI [of _ m3] exI [of _ m4] exI [of _ m5]) simp
qed

text \<open>
  C14. A program whose entry point and stack lie in its objects starts without a panic at its entry point, on
  a stack with the exit trap as return address, two zero words and pointers to the environment and the
  command line. The environment and the name of the program lie in memory as OS/2 lays them out, and each
  field of the thread and process information blocks holds its value: the empty chain of exception
  handlers, the links between the blocks, the numbers of the thread and the process, and the two pointers.
  The segments are flat, and FS is based at the thread information block.
\<close>

theorem program_start:
  assumes "0x1004000 \<le> gm_size g" "gm_size g \<le> 2 ^ 32"
    and entry: "object_address f (lx_eip_object (lxf_header f)) (lx_eip (lxf_header f)) = Some eip"
      "object_address f (lx_esp_object (lxf_header f)) (lx_esp (lxf_header f)) = Some esp"
    and blk: "block = start_env (os2_exe_name to_upper exe_name)"
    and al: "mm_alloc mm (of_nat (length block)) = (Some env, mm1)" "unat env + length block \<le> gm_size g" "0x1004000 \<le> unat env"
    and sp: "sp = ucast (esp - 20)" "unat sp + 20 \<le> gm_size g"
      "unat sp + 20 \<le> unat env \<or> unat env + length block \<le> unat sp" "unat sp + 20 \<le> 0x90000 \<or> 0x92000 \<le> unat sp"
  shows "\<exists>g1 g2 regs sr. setup_guest to_upper exe_name v f g mm = Some ((eip, esp, 0x90000), g1, mm1) \<and>
    create_initial_vcpu fresh g1 eip esp = Some (regs, sr, g2) \<and>
    rip regs = eip \<and> rsp regs = esp - 20 \<and> rflags regs = 2 \<and>
    (\<forall>s \<in> {sr_cs sr, sr_ds sr, sr_es sr, sr_gs sr, sr_ss sr}. sg_base s = 0 \<and> sg_limit s = 0xFFFFFFFF \<and> sg_db s = 1) \<and>
    sg_base (sr_fs sr) = 0x90000 \<and>
    (\<forall>(off, x) \<in> {(0, EXIT_TRAP_ADDR), (4, 0), (8, 0), (12, env), (16, env + 48)}. gm_read g2 (sp + off) = Some x) \<and>
    take (length block) (drop (unat env) (gm_bytes g2)) = block \<and>
    (\<forall>(a, x) \<in> set (start_info env (env + 48)). gm_read g2 a = Some x)"
proof -
  define ga where "ga = gm_put g (unat env) block"
  have ga: "place_environment lx_environment (os2_exe_name to_upper exe_name) g mm = Some (env, env + 48, ga, mm1)"
    "gm_size ga = gm_size g" "take (length block) (drop (unat env) (gm_bytes ga)) = block"
    using write_bytes_ok [OF al(2) assms(2)] put_same [OF al(2)] by (simp_all add: place_environment_def env_block_start blk [symmetric] al(1) ga_def)
  have sz: "0x92000 \<le> gm_size ga" "gm_size ga \<le> 2 ^ 32" using assms(1,2) ga(2) by simp_all
  obtain gb where gb: "write_dwords ga 0 ((TIB_BASE + TIB_EXCHAIN_OFFSET, XCPT_CHAIN_END) # info_block_dwords env (env + 48)) = Some gb"
    "gm_size gb = gm_size ga" "\<forall>(a, x) \<in> set (start_info env (env + 48)). gm_read gb a = Some x"
    "\<forall>p n. 0x92000 \<le> p \<longrightarrow> take n (drop p (gm_bytes gb)) = take n (drop p (gm_bytes ga))"
    using info_blocks_run [OF sz, of env "env + 48"] by blast
  have szb: "0x1004000 \<le> gm_size gb" "gm_size gb \<le> 2 ^ 32" using assms(1,2) ga(2) gb(2) by simp_all
  obtain g3 g4 g5 where gt: "exec_stores gb (bda_stores v) = Some g3" "setup_stubs g3 = Some g4" "setup_idt g4 = Some g5"
    "gm_size g5 = gm_size gb"
    "\<forall>p n. 0x8DA00 \<le> p \<and> p + n \<le> 0x1000000 \<or> 0x1004000 \<le> p \<longrightarrow> take n (drop p (gm_bytes g5)) = take n (drop p (gm_bytes gb))"
    using tables_run [OF szb, of v] by blast
  have sg: "setup_guest to_upper exe_name v f g mm = Some ((eip, esp, ucast TIB_BASE), g5, mm1)"
    unfolding setup_guest_def entry ga(1) by (simp add: gb(1) gt(1,2,3) del: write_dwords.simps)
  have low: "gm_read g5 q = (gm_read gb q :: u32 option)" if "0x90000 \<le> unat q" "unat q < 0x92000" for q
    by (rule gm_read_slice [OF gt(4)], rule gt(5) [rule_format]) (use that in \<open>simp add: size_of_def\<close>)
  have env: "take (length block) (drop (unat env) (gm_bytes g5)) = block"
    using gt(5) gb(4) ga(3) al(3) by simp
  have rd: "read_or g5 (PIB_BASE + 0x0C) ENV_ADDR = env + 48" "read_or g5 (PIB_BASE + 0x10) ENV_ADDR = env"
    using low [of "PIB_BASE + 0x0C"] low [of "PIB_BASE + 0x10"] gb(3) by (simp_all add: read_or_def PIB_BASE_def start_info_def)
  let ?ws = "[(0, EXIT_TRAP_ADDR), (4, 0), (8, 0), (12, env), (16, env + 48)] :: (u32 \<times> u32) list"
  have ws: "\<forall>w\<in>set ?ws. 4 dvd unat (fst w) \<and> unat (fst w) + 4 \<le> 20" by simp
  have szs: "unat sp + 20 \<le> gm_size g5" "gm_size g5 \<le> 2 ^ 32" using sp(2) assms(2) ga(2) gb(2) gt(4) by simp_all
  obtain g2 where g2: "write_dwords g5 sp ?ws = Some g2" "gm_size g2 = gm_size g5"
    "\<And>off. 4 dvd unat off \<Longrightarrow> unat off + 4 \<le> 20 \<Longrightarrow> gm_read g2 (sp + off) =
      (case map_of (rev ?ws) off of Some v \<Rightarrow> Some v | None \<Rightarrow> gm_read g5 (sp + off))"
    "\<And>p n. p + n \<le> unat sp \<or> unat sp + 20 \<le> p \<Longrightarrow> take n (drop p (gm_bytes g2)) = take n (drop p (gm_bytes g5))"
    by (rule write_dwords_run [OF ws szs]) (rule that, assumption+)
  have st: "\<forall>(off, x) \<in> {(0, EXIT_TRAP_ADDR), (4, 0), (8, 0), (12, env), (16, env + 48)}. gm_read g2 (sp + off) = Some x"
    using g2(3) [of 0] g2(3) [of 4] g2(3) [of 8] g2(3) [of 12] g2(3) [of 16] by simp
  have tib: "gm_read g2 q = (gm_read gb q :: u32 option)" if "0x90000 \<le> unat q" "unat q + 4 \<le> 0x92000" for q
  proof -
    have "gm_read g2 q = (gm_read g5 q :: u32 option)"
      by (rule gm_read_slice [OF g2(2)], rule g2(4)) (use that sp(4) in \<open>auto simp: size_of_def\<close>)
    then show ?thesis using low [of q] that by simp
  qed
  have "take (length block) (drop (unat env) (gm_bytes g2)) = block" using g2(4) sp(3) env by auto
  moreover have "\<forall>(a, x) \<in> set (start_info env (env + 48)). gm_read g2 a = Some x"
    using tib gb(3) by (simp add: start_info_def)
  moreover have "create_initial_vcpu fresh g5 eip esp =
      Some ((fst fresh)\<lparr> rip := eip, rsp := esp - 20, rflags := 2 \<rparr>, setup_vcpu_segments_32bit (snd fresh) (ucast TIB_BASE), g2)"
    unfolding create_initial_vcpu_def Let_def rd by (simp add: sp(1) [symmetric] g2(1) del: write_dwords.simps)
  ultimately show ?thesis using sg st
    by (intro exI conjI) (assumption | simp add: setup_vcpu_segments_32bit_def Let_def TIB_BASE_def)+
qed

definition small_lx :: lx_file where
  "small_lx = example_lx_file\<lparr> lxf_header := (lxf_header example_lx_file)\<lparr> lx_eip_object := 1, lx_eip := 0x20,
     lx_esp_object := 1, lx_esp := 0x2000 \<rparr> \<rparr>"

definition fresh_vcpu :: "guest_regs \<times> guest_sregs" where
  "fresh_vcpu =
    (let s = \<lparr> sg_base = 0, sg_limit = 0xFFFF, sg_selector = 0, sg_type = 3, sg_present = 1, sg_dpl = 0, sg_db = 0, sg_s = 1,
       sg_l = 0, sg_g = 0, sg_avl = 0, sg_unusable = 0 \<rparr> in
     (\<lparr> rip = 0, rsp = 0, rax = 0, rbx = 0, rcx = 0, rdx = 0, rsi = 0, rdi = 0, rbp = 0, rflags = 2 \<rparr>,
      \<lparr> sr_cs = s, sr_ds = s, sr_es = s, sr_fs = s, sr_gs = s, sr_ss = s, sr_gdt_base = 0, sr_gdt_limit = 0xFFFF,
        sr_idt_base = 0, sr_idt_limit = 0xFFFF, sr_cr0 = 0x60000010, sr_cr2 = 0, sr_cr4 = 0 \<rparr>))"

text \<open>A program of one object at \<^verbatim>\<open>0x10000\<close> of two pages, the second of which is the stack.\<close>

theorem program_start_witness:
  "\<exists>g1 g2 regs sr mm'. setup_guest (\<lambda>c. [c]) [] (vio_new None) small_lx (gm_alloc 0x3000000) (mm_new 0x2000000 0x3000000) =
      Some ((0x10020, 0x12000, 0x90000), g1, mm') \<and>
    create_initial_vcpu fresh_vcpu g1 0x10020 0x12000 = Some (regs, sr, g2) \<and> rip regs = 0x10020 \<and>
    gm_read g2 0x11FEC = Some EXIT_TRAP_ADDR \<and> gm_read g2 0x11FF8 = Some (0x2000000 :: u32)"
proof -
  let ?exe = "os2_exe_name (\<lambda>c. [c]) []" and ?mm = "mm_new 0x2000000 0x3000000" and ?g = "gm_alloc 0x3000000"
  let ?block = "start_env ?exe"
  have b: "?block = start_env ?exe" ..
  have l: "length ?block = 59" by code_simp
  obtain mm1 where a: "mm_alloc ?mm (of_nat (length ?block)) = (Some 0x2000000, mm1)"
    unfolding l by (simp add: mm_eval)
  have e: "object_address small_lx (lx_eip_object (lxf_header small_lx)) (lx_eip (lxf_header small_lx)) = Some 0x10020"
    "object_address small_lx (lx_esp_object (lxf_header small_lx)) (lx_esp (lxf_header small_lx)) = Some 0x12000"
    by (simp_all add: object_address_def small_lx_def example_lx_file_def)
  have h: "0x1004000 \<le> gm_size ?g" "gm_size ?g \<le> 2 ^ 32" "unat (0x2000000 :: u32) + length ?block \<le> gm_size ?g"
    "0x1004000 \<le> unat (0x2000000 :: u32)" "(0x11FEC :: u32) = ucast (0x12000 - 20 :: u64)" "unat (0x11FEC :: u32) + 20 \<le> gm_size ?g"
    "unat (0x11FEC :: u32) + 20 \<le> unat (0x2000000 :: u32) \<or> unat (0x2000000 :: u32) + length ?block \<le> unat (0x11FEC :: u32)"
    "unat (0x11FEC :: u32) + 20 \<le> 0x90000 \<or> 0x92000 \<le> unat (0x11FEC :: u32)"
    unfolding l by simp_all
  obtain g1 g2 regs sr where "setup_guest (\<lambda>c. [c]) [] (vio_new None) small_lx ?g ?mm = Some ((0x10020, 0x12000, 0x90000), g1, mm1)"
    "create_initial_vcpu fresh_vcpu g1 0x10020 0x12000 = Some (regs, sr, g2)" "rip regs = 0x10020"
    "\<forall>(off, x) \<in> {(0, EXIT_TRAP_ADDR), (4, 0), (8, 0), (12, 0x2000000), (16, 0x2000000 + 48)}. gm_read g2 (0x11FEC + off) = Some x"
    using program_start [OF h(1,2) e b a h(3-8), of "vio_new None" fresh_vcpu] by blast
  then show ?thesis by (intro exI conjI) (assumption | simp)+
qed

section \<open>The scan for the frame of a thunk\<close>

lemma upper_half: "(sp :: u32) AND 0xFFFF0000 = push_bit 16 (drop_bit 16 sp)"
proof -
  have m: "(0xFFFF0000 :: u32) = push_bit 16 (mask 16)" by (simp add: mask_eq_exp_minus_1 push_bit_eq_mult)
  show ?thesis by (subst m, rule bit_word_eqI) (auto simp: bit_simps)
qed

lemma upper_half_bound: "unat ((sp :: u32) AND 0xFFFF0000) \<le> 0xFFFF0000"
proof -
  have "(sp AND 0xFFFF0000) \<le> 0xFFFF0000" by (rule word_and_le1)
  then show ?thesis by (simp add: word_le_nat_alt)
qed

lemma upper_half_or: "((sp :: u32) AND 0xFFFF0000) OR 0xFF00 = (sp AND 0xFFFF0000) + 0xFF00"
proof -
  have "(0xFF00 :: u32) = take_bit 16 0xFF00" by (simp add: take_bit_eq_mod)
  then have "\<not> bit (sp AND 0xFFFF0000) n \<or> \<not> bit (0xFF00 :: u32) n" for n
    unfolding upper_half by (metis bit_push_bit_iff bit_take_bit_iff not_less)
  then show ?thesis by (rule disjunctive_add [symmetric])
qed

text \<open>
  The scan of the stack for the frame of a 16-bit thunk ends for every stack, at the highest doubleword of
  its 64 KB, from offset \<^verbatim>\<open>0xFF00\<close> down to 8, that looks like such a frame, and with nothing if there is none.
\<close>

theorem far16_scan_spec:
  assumes "stack_upper = sp AND 0xFFFF0000"
  shows "\<exists>r. scan_thunk_frame g stack_upper (stack_upper OR 0xFF00) = Some r \<and>
    r = map_option (\<lambda>k. stack_upper + of_nat (4 * k) + 8)
          (find (\<lambda>k. thunk_frame_at g (stack_upper + of_nat (4 * k))) (rev [2 ..< 0x3FC1]))"
proof -
  have at: "unat (stack_upper + of_nat (4 * k)) = unat stack_upper + 4 * k" if "k \<le> 0x3FC0" for k
  proof -
    have u: "unat (of_nat (4 * k) :: u32) = 4 * k" unfolding unat_of_nat by (rule mod_less) (use that in simp)
    then show ?thesis using upper_half_bound [of sp] that assms by (subst unat_add_lem [THEN iffD1]) (simp_all only: u, simp_all)
  qed
  have lo: "unat (stack_upper + 8) = unat stack_upper + 8" using at [of 2] by simp
  have run: "scan_thunk_frame g stack_upper (stack_upper + of_nat (4 * Suc k)) =
      Some (map_option (\<lambda>k. stack_upper + of_nat (4 * k) + 8)
        (find (\<lambda>k. thunk_frame_at g (stack_upper + of_nat (4 * k))) (rev [2 ..< Suc (Suc k)])))" if "Suc k \<le> 0x3FC0" for k
    using that
  proof (induction k)
    case 0
    have "stack_upper + of_nat (4 * Suc 0) < stack_upper + 8" using at [of "Suc 0"] lo unfolding word_less_nat_alt by simp
    then show ?case by (subst scan_thunk_frame.simps) simp
  next
    case (Suc k)
    have n: "\<not> stack_upper + of_nat (4 * Suc (Suc k)) < stack_upper + 8"
      using at [of "Suc (Suc k)"] lo Suc.prems unfolding word_less_nat_alt by simp
    have d: "stack_upper + of_nat (4 * Suc (Suc k)) - 4 = stack_upper + of_nat (4 * Suc k)" by simp
    have l: "rev [2 ..< Suc (Suc (Suc k))] = Suc (Suc k) # rev [2 ..< Suc (Suc k)]" by simp
    have e: "scan_thunk_frame g stack_upper (stack_upper + of_nat (4 * Suc (Suc k))) =
        (if thunk_frame_at g (stack_upper + of_nat (4 * Suc (Suc k))) then Some (Some (stack_upper + of_nat (4 * Suc (Suc k)) + 8))
         else scan_thunk_frame g stack_upper (stack_upper + of_nat (4 * Suc k)))"
      by (subst scan_thunk_frame.simps) (simp only: n d if_False)
    have ih: "scan_thunk_frame g stack_upper (stack_upper + of_nat (4 * Suc k)) =
        Some (map_option (\<lambda>k. stack_upper + of_nat (4 * k) + 8)
          (find (\<lambda>k. thunk_frame_at g (stack_upper + of_nat (4 * k))) (rev [2 ..< Suc (Suc k)])))"
      by (rule Suc.IH) (use Suc.prems in simp)
    show ?case
    proof (cases "thunk_frame_at g (stack_upper + of_nat (4 * Suc (Suc k)))")
      case True
      show ?thesis unfolding l e find.simps if_P [OF True] option.map ..
    next
      case False
      show ?thesis unfolding l e find.simps if_not_P [OF False] ih ..
    qed
  qed
  have top: "stack_upper OR 0xFF00 = stack_upper + of_nat (4 * Suc 0x3FBF)" using upper_half_or [of sp] assms by simp
  have n: "Suc (Suc 0x3FBF) = 0x3FC1" "Suc 0x3FBF \<le> 0x3FC0" by simp_all
  show ?thesis unfolding top by (intro exI conjI) (rule run [OF n(2), unfolded n(1)], rule refl)
qed

text \<open>
  On a stack with the frame of a thunk at \<^verbatim>\<open>0x12000\<close>: the doubleword there is its own address plus 8, the next
  one the flat data selector.
\<close>

definition thunk_stack :: guest_memory where
  "thunk_stack = guest_write_ign (guest_write_ign (gm_alloc 0x20000) 0x12000 (0x12008 :: u32)) 0x12004 (0x10 :: u16)"

theorem far16_scan_spec_witness:
  "\<exists>ebp. scan_thunk_frame thunk_stack 0x10000 0x1FF00 = Some (Some ebp)"
proof -
  have "gm_read thunk_stack 0x12000 = Some (0x12008 :: u32)" unfolding thunk_stack_def
    by (subst guest_write_ign_other) (simp_all add: size_of_def guest_write_ign_read byte_sized_def)
  moreover have "gm_read thunk_stack 0x12004 = Some (0x10 :: u16)" unfolding thunk_stack_def
    by (rule guest_write_ign_read) (simp_all add: size_of_def byte_sized_def)
  ultimately have f: "thunk_frame_at thunk_stack (0x10000 + of_nat (4 * 0x800))"
    by (simp add: thunk_frame_at_def read_or_def read_dflt_def)
  have m: "0x800 \<in> set (rev [2 ..< 0x3FC1 :: nat])" unfolding set_rev set_upt by simp
  let ?found = "find (\<lambda>k. thunk_frame_at thunk_stack (0x10000 + of_nat (4 * k))) (rev [2 ..< 0x3FC1])"
  have "?found \<noteq> None" unfolding find_None_iff using f m by blast
  then obtain j where j: "?found = Some j" by blast
  have "(0x10000 :: u32) = 0x1FFFC AND 0xFFFF0000" "(0x10000 :: u32) OR 0xFF00 = 0x1FF00" by simp_all
  from far16_scan_spec [OF this(1), of thunk_stack, unfolded this(2) j option.map] show ?thesis by blast
qed

section \<open>16-bit calls\<close>

text \<open>A far call to the address that a relocation wrote for an import runs the handler of that import.\<close>

lemma ne_import_reaches_handler:
  fixes u :: u16
  assumes "sg_base (sr_cs (cx_sregs st)) = ucast NE_THUNK_BASE" "rip (cx_regs st) = ucast u"
  shows "debug_exit rs call st obs = Some (ne_exit rs st u)"
proof -
  have u: "unat (ucast u :: u64) = unat u"
    unfolding unsigned_ucast_eq by (rule take_bit_nat_eq_self) (rule less_trans [OF unat_u16_lt], simp)
  have b: "unat (ucast u :: u64) < 65536" unfolding u by (rule unat_u16_lt)
  then have lt: "(ucast u :: u64) < 0x10000" unfolding word_less_nat_alt by simp
  have "(ucast NE_THUNK_BASE :: u64) \<le> ucast NE_THUNK_BASE + ucast u"
    "(ucast NE_THUNK_BASE :: u64) + ucast u < ucast (NE_THUNK_BASE + TILE_SIZE)"
  proof -
    have s: "unat ((0xF00000 :: u64) + ucast u) = 0xF00000 + unat (ucast u :: u64)"
      using b by (subst unat_add_lem [THEN iffD1]) simp_all
    show "(ucast NE_THUNK_BASE :: u64) \<le> ucast NE_THUNK_BASE + ucast u"
      "(ucast NE_THUNK_BASE :: u64) + ucast u < ucast (NE_THUNK_BASE + TILE_SIZE)"
      using s b by (simp_all add: NE_THUNK_BASE_def TILE_SIZE_def word_le_nat_alt word_less_nat_alt del: unsigned_ucast_eq)
  qed
  moreover have "\<not> (ucast IDT_HANDLER_BASE :: u64) \<le> ucast u" using b by (simp add: IDT_HANDLER_BASE_def word_le_nat_alt del: unsigned_ucast_eq)
  moreover have "ucast (ucast u :: u64) = u"
    by (rule bit_word_eqI) (auto simp: bit_simps)
  ultimately show ?thesis by (simp add: debug_exit_def Let_def assms)
qed

end
