(* ===== verification/Spec2Isabelle.thy ===== *)
theory Spec2Isabelle
  imports Memory_Manager Managers Guest_Memory LX_Parser NE_Parser Descriptors Queues SEH File_Props Link_Load Host_Tree
    Sys_Props Kbdcalls Vcpu_Props PM_Props PM_Timers PM_Menus Exit_Props
begin

text \<open>
  \<^bold>\<open>Warpine\<close> runs OS/2 programs on Linux. A 32-bit LX (or 16-bit NE) executable is parsed, its objects are
  copied into the memory of a virtual machine and relocated, and the program runs natively until it
  calls an OS/2 API: every import resolves to a thunk address, a call to it leaves the virtual machine,
  and the loader runs the handler of that ordinal over the emulated system (memory, files, semaphores,
  queues, console, exceptions). A separate tool links ELF objects into LX executables.

  This development models the parts below as executable HOL definitions, translated function by
  function, and proves what makes each part correct.

  \<^bold>\<open>Parts, theories and sources\<close> (paths relative to the repository)

  \<^item> \<open>Prelude\<close>, \<open>Rust_Text\<close>, \<open>UTF8\<close>, \<open>Byte_Reader\<close>: the vocabulary of the Rust sources. Machine integers are
    words of their width, little-endian codecs, \<^verbatim>\<open>Vec\<close> and string operations, UTF-8, and the
    \<^verbatim>\<open>Read + Seek\<close> reader of the parsers with the locale \<open>codec\<close>: what a reader and an encoder of one
    entry promise, from which the round trip of whole tables follows.
  \<^item> \<open>Constants\<close>: layout of the guest address space (\<^verbatim>\<open>src/src/loader/constants.rs\<close>).
  \<^item> \<open>Memory_Manager\<close>: the page allocator (\<^verbatim>\<open>MemoryManager\<close> in \<^verbatim>\<open>src/src/loader/managers.rs\<close>). In every reachable
    state live and free blocks tile the region; allocation is sound and fails exactly when it must.
  \<^item> \<open>Handle_Table\<close>, \<open>Managers\<close>: the contract of a handle-issuing manager as the locale \<open>handle_table\<close> (a new
    handle is unused, lookup after insertion, closing forgets one handle), and the managers of
    \<^verbatim>\<open>managers.rs\<close> that implement it; reference counting of modules refines counting loads minus frees.
  \<^item> \<open>Guest_Memory\<close>: bounds-checked guest memory (\<^verbatim>\<open>src/src/loader/guest_mem.rs\<close>).
  \<^item> \<open>Codepage\<close>, \<open>Nls\<close>: codepage conversion, country settings, double-byte tables, case mapping
    (\<^verbatim>\<open>codepage.rs\<close>, \<^verbatim>\<open>locale.rs\<close>, parts of \<^verbatim>\<open>stubs.rs\<close> and \<^verbatim>\<open>src/src/gui/text_renderer.rs\<close>).
  \<^item> \<open>LX_Format\<close>, \<open>LX_Parser\<close>, \<open>NE_Format\<close>, \<open>NE_Parser\<close>: the executable formats and their parsers (\<^verbatim>\<open>src/src/lx\<close>,
    \<^verbatim>\<open>src/src/ne\<close>). The LX parser returns exactly the tables of every well-laid-out file, and whatever the
    input, what it accepts is within its limits.
  \<^item> \<open>LX_Loader\<close>: pages, fixups, exports and DLLs (\<^verbatim>\<open>src/src/loader/lx_loader.rs\<close>). Every fixup form writes the
    bytes it should, a DLL is placed inside new blocks of its own, recursive loading ends.
  \<^item> \<open>Linker\<close>, \<open>Link_Image\<close>, \<open>Link_Load\<close>: the linker (\<^verbatim>\<open>src/src/bin/lx_link.rs\<close>), and the composition of linker,
    parser and loader. \<open>section_addr\<close> and \<open>symbol_address\<close> compute from the objects alone where sections and
    symbols belong; merging puts them there, and in the loaded image every absolutely relocated word holds the
    address of its target (without addends, and for a relocation by section name the first section of
    that name: what the linker leaves out is said at the theorem).
  \<^item> \<open>Api_Registry\<close>, \<open>Descriptors\<close>: the API table with its binary search, routing of ordinals, import
    resolution, descriptor tables and 16:16 addresses (\<^verbatim>\<open>api_registry.rs\<close>, \<^verbatim>\<open>api_dispatch.rs\<close>,
    \<^verbatim>\<open>descriptors.rs\<close>).
  \<^item> \<open>Semaphores\<close>, \<open>Queues\<close>: IPC objects and the calls over them (\<^verbatim>\<open>ipc.rs\<close>, \<^verbatim>\<open>doscalls.rs\<close>): mutual exclusion
    over all interleavings of request passes, no lost wake-up, first in first out.
  \<^item> \<open>SEH\<close>: structured exception handling (\<^verbatim>\<open>seh.rs\<close>, \<^verbatim>\<open>vcpu.rs\<close>, \<^verbatim>\<open>stubs.rs\<close>): the chain in guest memory refines
    a stack, and dispatching a fault saves the general registers, flags, instruction and stack pointer in
    records of which every word is pinned, and restores them.
  \<^item> \<open>Console\<close>, \<open>Viocalls\<close>: the text screen and the video calls (\<^verbatim>\<open>console.rs\<close>, \<^verbatim>\<open>viocalls.rs\<close>): the screen is
    always a full grid, no call of a release build panics, cells written are read back. An index outside a \<^verbatim>\<open>Vec\<close>
    of the console sets a latch of the model, \<open>vio_panicked\<close>, which the dispatcher turns into \<open>None\<close>.
  \<^item> \<open>VFS\<close>, \<open>DOS_Time\<close>, \<open>Host_Dir\<close>, \<open>Host_Backend\<close>, \<open>Host_Safety\<close>, \<open>Host_Tree\<close>: drives, paths, handles and the volume over a
    host directory (\<^verbatim>\<open>vfs.rs\<close>, \<^verbatim>\<open>vfs_hostdir.rs\<close>): path resolution, calendar, wildcards, sharing modes, the
    sandbox, searches and extended attributes. \<open>Host_Tree\<close> resolves paths on a tree of files, directories and
    links of its own, against which the sandbox check is judged: it holds up to dangling links.
  \<^item> \<open>File_Calls\<close>, \<open>File_Props\<close>: the file, directory, search, attribute, volume and pipe calls of \<^verbatim>\<open>doscalls.rs\<close> and
    \<^verbatim>\<open>stubs.rs\<close>: cooked console input from the text window and the terminal, the records of a search result, the walk over attribute lists. The
    theorem of this theory composes the guest's open call with the drive manager and the volume.
  \<^item> \<open>Rust_Format\<close>, \<open>Sys_Calls\<close>, \<open>Sys_Props\<close>: number formatting, and the remaining calls of \<^verbatim>\<open>doscalls.rs\<close> and
    \<^verbatim>\<open>stubs.rs\<close>: memory, threads, modules, resources, messages, environment, time and system values. A new
    thread starts on blocks of its own with a complete frame.
  \<^item> \<open>Kbdcalls\<close>: the keyboard calls and the mapping of terminal input to key codes (\<^verbatim>\<open>kbdcalls.rs\<close>,
    \<^verbatim>\<open>console.rs\<close>).
  \<^item> \<open>PM_Windows\<close>, \<open>PM_Resources\<close>, \<open>PM_Controls\<close>, \<open>PM_Calls\<close>, \<open>PM_Dispatch\<close>: the Presentation Manager: the window
    manager with its handles, queues, timers and stacking order (\<^verbatim>\<open>pm_types.rs\<close>), menu, dialog and
    accelerator templates, the built-in controls (\<^verbatim>\<open>mod.rs\<close>), and every call of PMWIN and PMGPI
    (\<^verbatim>\<open>pm_win.rs\<close>, \<^verbatim>\<open>pm_gpi.rs\<close>).
  \<^item> \<open>PM_Tree\<close>, \<open>PM_Props\<close>, \<open>PM_Timers\<close>, \<open>PM_Menus\<close>: no call breaks the window tree, the walks along it end at the
    first ancestor that is a frame,
    messages are first in first out, the stacking order decides where clicks go, templates are parsed back,
    and what the interleaving of a timer with the calls that stop it can do.
  \<^item> \<open>Vcpu_Calls\<close>, \<open>Vcpu_Props\<close>: the loop of a virtual CPU where it leaves and enters the guest (\<^verbatim>\<open>vcpu.rs\<close>):
    results of calls, window procedures, dialogs, exception handlers and initialisation routines, and the
    stack of frames that brings each back to its caller.
  \<^item> \<open>Startup\<close>, \<open>Vcpu_Exits\<close>, \<open>Exit_Props\<close>: what a program finds when it starts, and what the loop does with
    each exit of the virtual CPU: faults, frames of 16-bit thunks, calls. A program starts on a complete
    stack, and the scan for a thunk's frame always ends.
  \<^item> \<open>NE_Exec\<close>, \<open>NE_Props\<close>: 16-bit programs (\<^verbatim>\<open>ne_exec.rs\<close>): segments, relocation chains, descriptors, and their
    calls. Chains are patched to their end, and the selectors that were patched in resolve to the segments.

  \<^bold>\<open>State and effects.\<close> A struct is a record with the fields of the source, an operation a function that
  returns the new record. A \<^verbatim>\<open>HashMap\<close> is a partial map; where its iteration order matters the order is an
  argument. A lock is not modelled: each critical section is one step. Blocking calls are loops over
  passes, each of which sees some state other threads left. \<open>None\<close> is a panic unless a theory says
  otherwise. Unsigned arithmetic wraps, as in release builds; a debug build panics where it would wrap, for
  instance in \<^verbatim>\<open>scroll_up\<close>, and is not modelled.

  \<^bold>\<open>Parameters.\<close> Code outside the repository is an argument: the host's file system (\<open>host_fs\<close>, \<open>host_env\<close>), a
  volume behind the drive manager (\<open>vfs_backend\<close>), the encoders of \<^verbatim>\<open>encoding_rs\<close> (\<open>encoding_rs\<close>), what the
  \<^verbatim>\<open>object\<close> crate reports of an ELF file (\<open>object_file\<close>), Unicode case mapping (\<open>to_upper\<close>), environment
  variables and \<^verbatim>\<open>lconv\<close>. What a theorem needs of them is a hypothesis, and its witness instantiates it.

  \<^bold>\<open>Fuel and bounds.\<close> Loops that consume input are recursive functions with a termination proof. Only the
  recursion over imported DLLs takes fuel; \<open>load_dll_terminates\<close> shows that fuel of the number of modules
  that can still be loaded is enough. The walk over a guest's attribute list (\<open>gea_loop\<close>) is a partial
  function, \<open>None\<close> where it never returns; \<open>gea_loop_returns\<close> shows when it does. So are the walks along the
  parents of a window (\<open>find_frame_for_hwnd\<close>, \<open>abs_pos_loop\<close>; \<open>walks_end\<close>, \<open>self_parent_hangs\<close>), the parser of
  menu templates (\<open>parse_menu_loop\<close>; \<open>menu_parse_returns\<close>), relocation chains (\<open>patch_chain\<close>;
  \<open>reloc_chain_patched\<close>, \<open>unknown_reloc_hangs\<close>), the scan for a thunk's frame and that of the environment. Loops that wait
  (for a message, a key, the end of a thread, in a dialog) take the list of what each pass observes, and
  are \<open>None\<close> when the list ends before they do.

  \<^bold>\<open>Not modelled.\<close> KVM ioctls, the SDL2 renderers and audio, sockets, the
  interactive command interpreter, process creation, the GDB stub, crash dumps and tracing, logging, and
  the API generator. They are input and output, or thin layers over libraries; the manifest lists each
  with its reason.
\<close>

section \<open>From the guest's open call to the host\<close>

lemma open_file_opened:
  assumes wf: "dr_wf dm" and r: "open_file V dm path mode sh flags attr = (Inr (h, act), dm')"
  shows "\<exists>d rel b b' vh. unat d < length (dr_drives dm) \<and> dr_drives dm ! unat d = Some b \<and> be_open V b rel mode sh flags attr = (Inr (vh, act), b') \<and>
    dr_file_handles dm' h = Some \<lparr> fe_drive = d, fe_vfs_handle = vh \<rparr> \<and> dr_drives dm' ! unat d = Some b'"
proof -
  obtain d rel where p: "resolve_path dm path = Inr (d, rel)"
    using r by (auto simp: open_file_def split: if_splits sum.splits)
  have d: "d < 26" "dr_drives dm ! unat d \<noteq> None" using resolve_path_wf [OF wf p] by auto
  then obtain b where b: "dr_drives dm ! unat d = Some b" by blast
  have len: "unat d < length (dr_drives dm)" using wf d(1) by (simp add: inv_defs u8_lt_26)
  obtain q b' where q: "be_open V b rel mode sh flags attr = (q, b')" by fastforce
  show ?thesis using r p b q len
    by (intro exI [of _ d] exI [of _ rel] exI [of _ b] exI [of _ b'])
      (auto simp: open_file_def on_drive_res_def on_drive_def put_drive_def file_add_def split: if_splits sum.splits)
qed

lemma enforce_sandbox_error: "enforce_sandbox F s p = Some e \<Longrightarrow> e \<noteq> 0"
  by (auto simp: enforce_sandbox_def Let_def os2_error_defs split: option.splits if_splits)

lemma resolve_for_create_error: "resolve_for_create F s path = (Inl e, s') \<Longrightarrow> e \<noteq> 0"
  by (auto simp: resolve_for_create_def Let_def os2_error_defs split: prod.splits option.splits if_splits
      dest: enforce_sandbox_error)

lemma open_target_error: "open_target F s path flags = (Inl e, s') \<Longrightarrow> e \<noteq> 0"
  by (auto simp: open_target_def os2_error_defs split: prod.splits option.splits sum.splits exist_action.splits new_action.splits
      dest: enforce_sandbox_error resolve_for_create_error)

lemma hb_open_error: "hb_open F s path mode sh flags attr = (Inl e, s') \<Longrightarrow> e \<noteq> 0"
  using open_target_error [of F s path flags]
  by (auto simp: hb_open_def check_and_add_def map_io_error_def Let_def os2_error_defs
      split: prod.splits sum.splits if_splits io_kind.splits)

lemma host_backend_open [simp]: "be_open (host_backend F) = hb_open F"
  by (simp add: host_backend_def)

lemma resolve_path_error: "resolve_path dm p = Inl e \<Longrightarrow> e \<noteq> 0"
  by (auto simp: resolve_path_def path_drive_def Let_def os2_error_defs split: if_splits sum.splits prod.splits)

lemma open_file_error:
  assumes "open_file (host_backend F) dm path mode sh flags attr = (Inl e, dm')"
  shows "e \<noteq> 0"
  using assms resolve_path_error [of dm path e]
  by (auto simp: open_file_def on_drive_res_def on_drive_def file_add_def INVALID_DRIVE_def INVALID_PARAMETER_def
      split: if_splits sum.splits prod.splits option.splits dest: hb_open_error)

text \<open>
  C38. On a POSIX host (\<open>posix_host\<close>: what exists, where it is and what an open opens are decided by a
  tree of files, directories and symbolic links) a file that \<^verbatim>\<open>DosOpen\<close> opens on a host volume lies in the
  host's tree below the root of that volume, whatever path the guest passes and whatever links and \<^verbatim>\<open>..\<close> are
  on the way; only a path whose last component is a dangling symbolic link is excepted. The handle
  stored for the guest names this open file of the volume of its drive. This spans the guest string, path
  resolution of the drive manager, the volume, its sandbox check and the handle tables.
\<close>

theorem guest_open_sandboxed:
  assumes posix: "posix_host F tree place" and wf: "dr_wf (fl_drives st)"
    and r: "dos_open rs (host_backend F) st psz_name phf pul_action open_flags open_mode = (0, st')"
    and mem: "gm_size (fl_guest st) \<le> 2 ^ 32" "unat phf + 4 \<le> gm_size (fl_guest st)"
      "pul_action = 0 \<or> unat pul_action + 4 \<le> unat phf \<or> unat phf + 4 \<le> unat pul_action"
  shows "\<exists>h e b b' fh p mode act.
    gm_read (fl_guest st') phf = Some h \<and> dr_file_handles (fl_drives st') h = Some e \<and>
    unat (fe_drive e) < length (dr_drives (fl_drives st)) \<and> dr_drives (fl_drives st) ! unat (fe_drive e) = Some b \<and>
    dr_drives (fl_drives st') ! unat (fe_drive e) = Some b' \<and>
    hb_files b' (fe_vfs_handle e) = Some (fh, p) \<and>
    open_mode_from_raw open_mode = Inr mode \<and> fst (hf_open F (hb_host b) (open_options_for mode act) p) = Inr fh \<and>
    (starts_with (place fh) (hb_root b) \<or> dangling (tree (hb_host b)) p)"
proof -
  obtain mode where m: "open_mode_from_raw open_mode = Inr mode"
    using r by (cases "open_mode_from_raw open_mode") (auto simp: dos_open_def open_mode_from_raw_def Let_def os2_error_defs split: if_splits)
  let ?open = "open_file (host_backend F) (fl_drives st) (fl_str rs st psz_name) mode (sharing_mode_from_raw open_mode)
    (open_flags_from_raw open_flags) 0"
  obtain q dm where q: "?open = (q, dm)" by fastforce
  obtain h act where ha: "q = Inr (h, act)"
    using r m q open_file_error [of F "fl_drives st" "fl_str rs st psz_name" mode "sharing_mode_from_raw open_mode"
      "open_flags_from_raw open_flags" 0 _ dm] by (cases q) (auto simp: dos_open_def)
  have st': "st' = fl_out (fl_write (st\<lparr> fl_drives := dm \<rparr>) phf h) pul_action (action_code act)"
    using r m q ha by (simp add: dos_open_def)
  let ?g = "guest_write_ign (fl_guest st) phf h"
  have "gm_read ?g phf = Some h" using mem by (intro guest_write_ign_read) (simp_all add: size_of_def)
  moreover have "gm_read (guest_write_ign ?g pul_action (action_code act)) phf = (gm_read ?g phf :: u32 option)"
    if "pul_action \<noteq> 0" using mem(3) that by (intro guest_write_ign_other) (auto simp: size_of_def)
  ultimately have rd: "gm_read (fl_guest st') phf = Some h" by (simp add: st' fl_out_def fl_write_def)
  have dm: "fl_drives st' = dm" by (simp add: st' fl_out_def fl_write_def)
  from open_file_opened [OF wf q [unfolded ha]] obtain d rel b b' vh where o: "unat d < length (dr_drives (fl_drives st))" "dr_drives (fl_drives st) ! unat d = Some b"
    "hb_open F b rel mode (sharing_mode_from_raw open_mode) (open_flags_from_raw open_flags) 0 = (Inr (vh, act), b')"
    "dr_file_handles dm h = Some \<lparr> fe_drive = d, fe_vfs_handle = vh \<rparr>" "dr_drives dm ! unat d = Some b'" by auto
  from o(3) obtain fh p where "hb_files b' vh = Some (fh, p)" "sandboxed F (hb_host b) (hb_root b) p"
    "fst (hf_open F (hb_host b) (open_options_for mode act) p) = Inr fh"
    by (cases rule: hb_open_cases) auto
  moreover from this have "starts_with (place fh) (hb_root b) \<or> dangling (tree (hb_host b)) p"
    using sandboxed_opens_below [OF posix] by blast
  ultimately show ?thesis using o rd dm m by fastforce
qed

text \<open>The program opens \<^verbatim>\<open>A\<close> on drive C, which is a directory of the host with one file.\<close>

definition demo_guest_state :: "((unit, host_path) host_dir, unit, unit, unit) file_state" where
  "demo_guest_state =
    \<lparr> fl_guest = \<lparr> gm_bytes = [0x41, 0, 0, 0, 0, 0, 0, 0] \<rparr>,
      fl_drives = dr_new\<lparr> dr_drives := (replicate 26 None)[2 := Some tree_volume] \<rparr>,
      fl_pipes = hm_new, fl_process = pm_new, fl_console = vio_new None, fl_cp = 437, fl_sdl2_text = True,
      fl_pending_lf = False, fl_cooked_chars = 0, fl_keys = [], fl_tty = [], fl_host_out = [], fl_terminal = [] \<rparr>"

lemma demo_guest_name: "fl_str rs demo_guest_state 0 = ustr ''A''"
proof -
  have "gm_size (fl_guest demo_guest_state) \<le> 2 ^ 32" by (simp add: demo_guest_state_def gm_size_def)
  from read_guest_string_spec [OF this, of rs 437 0] show ?thesis
    by (simp add: fl_str_def demo_guest_state_def gm_size_def cp_decode_def decode_single_byte_def decode_byte_def ustr_def)
qed

lemma demo_guest_open:
  "open_file (host_backend tree_host) (fl_drives demo_guest_state) (ustr ''A'') ReadOnly DenyWrite (open_flags_from_raw 1) 0 =
    (Inr (3, Existed), snd (open_file (host_backend tree_host) (fl_drives demo_guest_state) (ustr ''A'') ReadOnly DenyWrite
      (open_flags_from_raw 1) 0))"
proof -
  obtain b' where "hb_open tree_host tree_volume (ustr ''A'') ReadOnly DenyWrite (open_flags_from_raw 1) 0 =
      (Inr (1, Existed), b')" using tree_open by blast
  moreover have "resolve_path (fl_drives demo_guest_state) (ustr ''A'') = Inr (2, ustr ''A'')"
    by (simp add: resolve_path_def demo_guest_state_def is_unc_def path_drive_def has_drive_def to_slashes_def dr_new_def
        join_dir_def ustr_def)
  moreover have "check_device_name (ustr ''A'') = None"
    by (simp add: check_device_name_def last_component_def is_sep_def ustr_def to_ascii_uppercase_def uc_upper_def)
  moreover have "dr_drives (fl_drives demo_guest_state) ! unat (2 :: u8) = Some tree_volume"
    "dr_next_file_handle (fl_drives demo_guest_state) = 3" by (simp_all add: demo_guest_state_def dr_new_def)
  ultimately show ?thesis by (simp add: open_file_def on_drive_res_def on_drive_def put_drive_def file_add_def)
qed

theorem guest_open_sandboxed_witness:
  "\<exists>h fh p act. gm_read (fl_guest (snd (dos_open latin1_rs (host_backend tree_host) demo_guest_state 0 4 0 1 0x20))) 4 = Some (h :: u32)
    \<and> starts_with fh [ustr ''r''] \<and> fst (hf_open tree_host () (open_options_for ReadOnly act) p) = Inr fh"
proof -
  let ?r = "dos_open latin1_rs (host_backend tree_host) demo_guest_state 0 4 0 1 0x20"
  have m: "open_mode_from_raw 0x20 = Inr ReadOnly" "sharing_mode_from_raw 0x20 = DenyWrite"
    by (simp_all add: open_mode_from_raw_def sharing_mode_from_raw_def)
  obtain dm where "open_file (host_backend tree_host) (fl_drives demo_guest_state) (ustr ''A'') ReadOnly DenyWrite
      (open_flags_from_raw 1) 0 = (Inr (3, Existed), dm)" using demo_guest_open by blast
  then have r: "?r = (0, snd ?r)" by (simp add: dos_open_def m demo_guest_name)
  have wf: "dr_wf (fl_drives demo_guest_state)" by (simp add: inv_defs demo_guest_state_def dr_new_def rel_path_ok_def list_all_iff)
  have mem: "gm_size (fl_guest demo_guest_state) \<le> 2 ^ 32" "unat (4 :: u32) + 4 \<le> gm_size (fl_guest demo_guest_state)"
    by (simp_all add: demo_guest_state_def gm_size_def)
  have drive: "b = tree_volume" if "dr_drives (fl_drives demo_guest_state) ! unat d = Some b"
    "unat d < length (dr_drives (fl_drives demo_guest_state))" for d :: u8 and b
    using that by (simp add: demo_guest_state_def dr_new_def nth_list_update split: if_splits)
  from guest_open_sandboxed [OF tree_host_posix wf r mem disjI1 [OF refl]] obtain h e fh p mode act and b :: "(unit, host_path) host_dir" where
    o: "gm_read (fl_guest (snd ?r)) 4 = Some (h :: u32)"
    "unat (fe_drive e) < length (dr_drives (fl_drives demo_guest_state))" "dr_drives (fl_drives demo_guest_state) ! unat (fe_drive e) = Some b"
    "open_mode_from_raw 0x20 = Inr mode" "fst (hf_open tree_host (hb_host b) (open_options_for mode act) p) = Inr fh"
    "starts_with fh (hb_root b) \<or> dangling demo_tree p" "dr_file_handles (fl_drives (snd ?r)) h = Some e" by blast
  have "\<not> dangling demo_tree p" using demo_tree_no_links by (simp add: dangling_def)
  then have "starts_with fh [ustr ''r'']" "hb_host b = ()" using o(6) drive [OF o(3,2)] by (simp_all add: tree_volume_def)
  moreover have "mode = ReadOnly" using o(4) m(1) by simp
  ultimately show ?thesis using o(1,5) by auto
qed

end
